(* ===== verification/Prelude.thy ===== *)
theory Prelude
  imports Main
begin

text \<open>
  The prelude of the development: the collections of simplification and introduction
  rules the components add to, and the generic facts on lists and options they share.
  Nothing here is about the program.

  \<^item> \<open>js_eval\<close>: defining equations that evaluate the model on closed terms;
  \<^item> \<open>js_range\<close>: facts that keep a number inside a range, used by the indicators,
    the strategies and the engine;
  \<^item> \<open>causal_intro\<close>: facts that an operation on a price series looks only at the past.
\<close>

named_theorems js_eval
named_theorems js_range
named_theorems causal_intro

section \<open>Reading and writing arrays\<close>

text \<open>
  A JavaScript array is a list. \<open>last_of\<close> reads \<open>a[a.length - 1 - k]\<close> and
  gives \<open>None\<close> where the index is negative, that is where the read is
  \<open>undefined\<close>.
\<close>

definition nth_opt :: "'a list \<Rightarrow> nat \<Rightarrow> 'a option" where
  "nth_opt xs i = (if i < length xs then Some (xs ! i) else None)"

lemma nth_opt_in [simp]: "i < length xs \<Longrightarrow> nth_opt xs i = Some (xs ! i)"
  by (simp add: nth_opt_def)

lemma nth_opt_out [simp]: "length xs \<le> i \<Longrightarrow> nth_opt xs i = None"
  by (simp add: nth_opt_def)

lemma nth_opt_Some_iff: "nth_opt xs i = Some x \<longleftrightarrow> i < length xs \<and> xs ! i = x"
  by (auto simp: nth_opt_def)

section \<open>Folds\<close>

text \<open>An invariant of a loop over a list holds at its end.\<close>

lemma fold_invariant_list:
  assumes "P s" and "\<And>x s. x \<in> set xs \<Longrightarrow> P s \<Longrightarrow> P (f x s)"
  shows "P (fold f xs s)"
  using assms by (induction xs arbitrary: s) auto

lemma foldl_invariant_list:
  assumes "P s" and "\<And>x s. x \<in> set xs \<Longrightarrow> P s \<Longrightarrow> P (f s x)"
  shows "P (foldl f s xs)"
  using assms by (induction xs arbitrary: s) auto

lemma fold_cong_list:
  assumes "\<And>x s. x \<in> set xs \<Longrightarrow> f x s = g x s"
  shows "fold f xs s = fold g xs s"
  using assms by (induction xs arbitrary: s) auto

section \<open>Stores that are written key by key\<close>

text \<open>
  The interface of a store that an operation writes under several keys: a step changes what is
  read under its own key, as a function of what was there, and nothing else. A loop over
  distinct keys then changes each of them once.
\<close>

locale keywise_store =
  fixes put :: "'k \<Rightarrow> 's \<Rightarrow> 's"
    and look :: "'s \<Rightarrow> 'k \<Rightarrow> 'v"
    and next_value :: "'v \<Rightarrow> 'v"
  assumes look_put: "look (put k s) j = (if j = k then next_value (look s k) else look s j)"
begin

lemma look_puts:
  "distinct ks \<Longrightarrow> look (fold put ks s) j = (if j \<in> set ks then next_value (look s j) else look s j)"
  by (induction ks arbitrary: s) (auto simp: look_put)

lemma puts_frame: "j \<notin> set ks \<Longrightarrow> look (fold put ks s) j = look s j"
  by (induction ks arbitrary: s) (auto simp: look_put)

text \<open>Where the value under a key is one that a step keeps, no loop changes it.\<close>

lemma puts_fixed: "next_value (look s j) = look s j \<Longrightarrow> look (fold put ks s) j = look s j"
proof (induction ks arbitrary: s)
  case (Cons k ks)
  have "look (put k s) j = look s j" using Cons.prems by (cases "j = k") (simp_all add: look_put)
  with Cons show ?case by simp
qed simp

end

section \<open>Intervals of indices\<close>

lemma take_map_upt: "n \<le> m \<Longrightarrow> take n (map f [0..<m]) = map f [0..<n]"
  by (simp add: take_map)

lemma list_eq_map_nth: "length xs = n \<Longrightarrow> (\<And>i. i < n \<Longrightarrow> xs ! i = f i) \<Longrightarrow> xs = map f [0..<n]"
  by (rule nth_equalityI) auto

lemma nth_append_left: "i < length xs \<Longrightarrow> (xs @ ys) ! i = xs ! i"
  by (simp add: nth_append)

section \<open>Texts\<close>

text \<open>\<open>parts.join(sep)\<close>.\<close>

fun join :: "string \<Rightarrow> string list \<Rightarrow> string" where
  "join sep [] = []"
| "join sep [x] = x"
| "join sep (x # xs) = x @ sep @ join sep xs"

end
