(* ===== verification/JSNumber.thy ===== *)
theory JSNumber
  imports Complex_Main Prelude
begin

text \<open>
  The \<open>number\<close> type of JavaScript: IEEE-754 binary64 with one NaN. A finite double is
  kept as the rational number it denotes, and every arithmetic operation rounds the exact
  result to the nearest double, ties to even (\<open>rnd\<close>), with gradual underflow and
  overflow to an infinity. The two zeros are one value \<open>Fin 0\<close>: the only operation of
  the language used in the modelled code that tells them apart is division by a zero.

  What holds of the operations is in \<open>JSNumberFacts\<close>.
\<close>

section \<open>Rounding a rational to the nearest double\<close>

text \<open>Number of binary digits of a positive integer (0 for the others).\<close>

function blen :: "int \<Rightarrow> int" where
  "blen n = (if n \<le> 0 then 0 else 1 + blen (n div 2))"
  by pat_completeness auto
termination
  by (relation "measure nat") auto

declare blen.simps [simp del]

text \<open>The binary exponent \<open>\<lfloor>log 2 x\<rfloor>\<close> of a positive rational.\<close>

definition ilog2 :: "rat \<Rightarrow> int" where
  "ilog2 x = (if 1 \<le> x then blen \<lfloor>x\<rfloor> - 1 else - blen (\<lceil>1 / x\<rceil> - 1))"

text \<open>Round to the nearest integer, ties to even.\<close>

definition rne :: "rat \<Rightarrow> int" where
  "rne y = (let f = \<lfloor>y\<rfloor>; d = y - of_int f in
     if d < 1 / 2 then f else if 1 / 2 < d then f + 1 else if even f then f else f + 1)"

text \<open>The exponent of the last place of a double near \<open>x\<close>; \<open>-1074\<close> for subnormals.\<close>

definition ulp_exp :: "rat \<Rightarrow> int" where
  "ulp_exp x = max (ilog2 \<bar>x\<bar> - 52) (- 1074)"

definition round_val :: "rat \<Rightarrow> rat" where
  "round_val x = (if x = 0 then 0
     else of_int (rne (x / 2 powi ulp_exp x)) * 2 powi ulp_exp x)"

datatype jsnum = Fin rat | PInf | NInf | NaN

definition rnd :: "rat \<Rightarrow> jsnum" where
  "rnd x = (let r = round_val x in
     if 2 powi 1024 \<le> r then PInf else if r \<le> - (2 powi 1024) then NInf else Fin r)"

text \<open>A numeric literal of the source is the double nearest to it.\<close>

abbreviation lit :: "rat \<Rightarrow> jsnum" where
  "lit x \<equiv> rnd x"

section \<open>Arithmetic and comparisons\<close>

instantiation jsnum :: "{zero, one, plus, minus, uminus, times, inverse, ord, abs}"
begin

definition zero_jsnum :: jsnum where
  "zero_jsnum = Fin 0"

definition one_jsnum :: jsnum where
  "one_jsnum = Fin 1"

fun uminus_jsnum :: "jsnum \<Rightarrow> jsnum" where
  "uminus_jsnum (Fin x) = Fin (- x)"
| "uminus_jsnum PInf = NInf"
| "uminus_jsnum NInf = PInf"
| "uminus_jsnum NaN = NaN"

fun plus_jsnum :: "jsnum \<Rightarrow> jsnum \<Rightarrow> jsnum" where
  "plus_jsnum NaN _ = NaN"
| "plus_jsnum _ NaN = NaN"
| "plus_jsnum (Fin x) (Fin y) = rnd (x + y)"
| "plus_jsnum (Fin x) z = z"
| "plus_jsnum z (Fin y) = z"
| "plus_jsnum PInf PInf = PInf"
| "plus_jsnum NInf NInf = NInf"
| "plus_jsnum PInf NInf = NaN"
| "plus_jsnum NInf PInf = NaN"

definition minus_jsnum :: "jsnum \<Rightarrow> jsnum \<Rightarrow> jsnum" where
  "minus_jsnum x y = x + (- y)"

text \<open>An infinity times or divided by a finite number of the given sign.\<close>

definition signed_inf :: "bool \<Rightarrow> jsnum" where
  "signed_inf pos = (if pos then PInf else NInf)"

fun times_jsnum :: "jsnum \<Rightarrow> jsnum \<Rightarrow> jsnum" where
  "times_jsnum NaN _ = NaN"
| "times_jsnum _ NaN = NaN"
| "times_jsnum (Fin x) (Fin y) = rnd (x * y)"
| "times_jsnum (Fin x) PInf = (if x = 0 then NaN else signed_inf (0 < x))"
| "times_jsnum (Fin x) NInf = (if x = 0 then NaN else signed_inf (x < 0))"
| "times_jsnum PInf (Fin y) = (if y = 0 then NaN else signed_inf (0 < y))"
| "times_jsnum NInf (Fin y) = (if y = 0 then NaN else signed_inf (y < 0))"
| "times_jsnum PInf PInf = PInf"
| "times_jsnum NInf NInf = PInf"
| "times_jsnum PInf NInf = NInf"
| "times_jsnum NInf PInf = NInf"

fun divide_jsnum :: "jsnum \<Rightarrow> jsnum \<Rightarrow> jsnum" where
  "divide_jsnum NaN _ = NaN"
| "divide_jsnum _ NaN = NaN"
| "divide_jsnum (Fin x) (Fin y) =
     (if y = 0 then (if x = 0 then NaN else signed_inf (0 < x)) else rnd (x / y))"
| "divide_jsnum (Fin x) _ = Fin 0"
| "divide_jsnum PInf (Fin y) = signed_inf (0 \<le> y)"
| "divide_jsnum NInf (Fin y) = signed_inf (y < 0)"
| "divide_jsnum _ _ = NaN"

text \<open>The class of \<open>/\<close> also asks for a reciprocal; the program has no such operator.\<close>

definition inverse_jsnum :: "jsnum \<Rightarrow> jsnum" where
  "inverse_jsnum x = divide one_class.one x"

fun less_eq_jsnum :: "jsnum \<Rightarrow> jsnum \<Rightarrow> bool" where
  "less_eq_jsnum NaN _ = False"
| "less_eq_jsnum _ NaN = False"
| "less_eq_jsnum (Fin x) (Fin y) = (x \<le> y)"
| "less_eq_jsnum NInf _ = True"
| "less_eq_jsnum _ PInf = True"
| "less_eq_jsnum _ _ = False"

definition less_jsnum :: "jsnum \<Rightarrow> jsnum \<Rightarrow> bool" where
  "less_jsnum x y = (x \<le> y \<and> x \<noteq> y)"

fun abs_jsnum :: "jsnum \<Rightarrow> jsnum" where
  "abs_jsnum (Fin x) = Fin \<bar>x\<bar>"
| "abs_jsnum NaN = NaN"
| "abs_jsnum _ = PInf"

instance ..

end

text \<open>\<open>===\<close> on numbers: NaN is not equal to itself.\<close>

definition num_eq :: "jsnum \<Rightarrow> jsnum \<Rightarrow> bool" where
  "num_eq x y = (x = y \<and> x \<noteq> NaN)"

definition is_nan :: "jsnum \<Rightarrow> bool" where
  "is_nan x = (x = NaN)"

definition is_finite :: "jsnum \<Rightarrow> bool" where
  "is_finite x = (case x of Fin _ \<Rightarrow> True | _ \<Rightarrow> False)"

text \<open>A number is falsy when it is zero or NaN: \<open>x || d\<close>.\<close>

definition num_or :: "jsnum \<Rightarrow> jsnum \<Rightarrow> jsnum" where
  "num_or x d = (if x = NaN \<or> x = Fin 0 then d else x)"

definition num_of_int :: "int \<Rightarrow> jsnum" where
  "num_of_int n = rnd (of_int n)"

definition num_of_nat :: "nat \<Rightarrow> jsnum" where
  "num_of_nat n = rnd (of_nat n)"

section \<open>The functions of Math\<close>

definition math_min :: "jsnum \<Rightarrow> jsnum \<Rightarrow> jsnum" where
  "math_min x y = (if x = NaN \<or> y = NaN then NaN else if x \<le> y then x else y)"

definition math_max :: "jsnum \<Rightarrow> jsnum \<Rightarrow> jsnum" where
  "math_max x y = (if x = NaN \<or> y = NaN then NaN else if y \<le> x then x else y)"

fun math_floor :: "jsnum \<Rightarrow> jsnum" where
  "math_floor (Fin x) = Fin (of_int \<lfloor>x\<rfloor>)"
| "math_floor z = z"

fun math_ceil :: "jsnum \<Rightarrow> jsnum" where
  "math_ceil (Fin x) = Fin (of_int \<lceil>x\<rceil>)"
| "math_ceil z = z"

text \<open>\<open>Math.round\<close>: the nearest integer, ties towards plus infinity.\<close>

fun math_round :: "jsnum \<Rightarrow> jsnum" where
  "math_round (Fin x) = Fin (of_int \<lfloor>x + 1 / 2\<rfloor>)"
| "math_round z = z"

text \<open>
  \<open>Math.sqrt\<close>, correctly rounded: the integer square root of \<open>x * 4 ^ k\<close>, with \<open>k\<close>
  chosen so that it has more bits than a double, and a sticky bit for the remainder.
\<close>

function isqrt :: "int \<Rightarrow> int" where
  "isqrt n = (if n \<le> 0 then 0
     else let r = 2 * isqrt (n div 4) in if (r + 1) * (r + 1) \<le> n then r + 1 else r)"
  by pat_completeness auto
termination
  by (relation "measure nat") auto

declare isqrt.simps [simp del]

definition sqrt_scaled :: "rat \<Rightarrow> rat" where
  "sqrt_scaled x =
     (let k = max 0 (60 - ilog2 x div 2);
          y = x * 4 powi k;
          m = isqrt \<lfloor>y\<rfloor>
      in (2 * of_int m + (if of_int m * of_int m = y then 0 else 1)) / 2 powi (k + 1))"

fun math_sqrt :: "jsnum \<Rightarrow> jsnum" where
  "math_sqrt (Fin x) = (if x < 0 then NaN else if x = 0 then Fin 0 else rnd (sqrt_scaled x))"
| "math_sqrt PInf = PInf"
| "math_sqrt _ = NaN"

section \<open>Decimal formatting\<close>

function digits_of :: "int \<Rightarrow> string" where
  "digits_of n =
     (if n < 10 then [char_of (48 + nat n)] else digits_of (n div 10) @ [char_of (48 + nat (n mod 10))])"
  by pat_completeness auto
termination
  by (relation "measure nat") auto

declare digits_of.simps [simp del]

text \<open>
  The integer \<open>n\<close> of \<open>x.toFixed(d)\<close>: \<open>n / 10 ^ d\<close> is nearest to \<open>\<bar>x\<bar>\<close>, the larger
  one on a tie.
\<close>

definition fixed_int :: "nat \<Rightarrow> rat \<Rightarrow> int" where
  "fixed_int d x = \<lfloor>\<bar>x\<bar> * 10 ^ d + 1 / 2\<rfloor>"

definition fixed_digits :: "nat \<Rightarrow> rat \<Rightarrow> string" where
  "fixed_digits d x =
     (let n = fixed_int d x; ip = n div 10 ^ d; fp = digits_of (n mod 10 ^ d) in
      digits_of ip @ (if d = 0 then []
        else ''.'' @ replicate (d - length fp) (CHR ''0'') @ fp))"

text \<open>
  \<open>x.toFixed(d)\<close> for \<open>\<bar>x\<bar> < 10 ^ 21\<close>; from there on the language prints the number in
  its general form, which no modelled price, percentage or indicator reaches, and the
  model gives the digits of the integer part.
\<close>

fun to_fixed :: "nat \<Rightarrow> jsnum \<Rightarrow> string" where
  "to_fixed d (Fin x) = (if x < 0 then ''-'' else []) @ fixed_digits d x"
| "to_fixed d PInf = ''Infinity''"
| "to_fixed d NInf = ''-Infinity''"
| "to_fixed d NaN = ''NaN''"

text \<open>\<open>Number(x.toFixed(d))\<close> and \<open>+x.toFixed(d)\<close>.\<close>

fun fixed_num :: "nat \<Rightarrow> jsnum \<Rightarrow> jsnum" where
  "fixed_num d (Fin x) = (if 10 ^ 21 \<le> \<bar>x\<bar> then Fin x
     else rnd ((if x < 0 then - 1 else 1) * of_int (fixed_int d x) / 10 ^ d))"
| "fixed_num d z = z"

end
