(* ===== verification/JSNumberFacts.thy ===== *)
theory JSNumberFacts
  imports JSNumber
begin

text \<open>
  Facts on the doubles of \<open>JSNumber\<close>: rounding is odd, monotone and the identity on
  doubles; every operation of the language is monotone where its results are numbers; the
  integers up to \<open>2 ^ 53\<close> are exact.
\<close>

section \<open>The binary exponent\<close>

lemma blen_nonpos [simp]: "n \<le> 0 \<Longrightarrow> blen n = 0"
  by (subst blen.simps) simp

lemma blen_pos: "0 < n \<Longrightarrow> blen n = 1 + blen (n div 2)"
  by (subst blen.simps) simp

lemma blen_nonneg [simp]: "0 \<le> blen n"
  by (induction n rule: blen.induct) (subst blen.simps, simp)

lemma blen_bounds: "0 < n \<Longrightarrow> 1 \<le> blen n \<and> 2 powi (blen n - 1) \<le> (of_int n :: rat) \<and> (of_int n :: rat) < 2 powi blen n"
proof (induction n rule: blen.induct)
  case (1 n)
  show ?case
  proof (cases "n = 1")
    case True
    then show ?thesis by (simp add: blen_pos)
  next
    case False
    with "1.prems" have half: "0 < n div 2" by linarith
    with "1.IH" "1.prems" have
      lo: "2 powi (blen (n div 2) - 1) \<le> (of_int (n div 2) :: rat)" and
      hi: "(of_int (n div 2) :: rat) < 2 powi blen (n div 2)" and
      one: "1 \<le> blen (n div 2)" by auto
    have eq: "blen n = 1 + blen (n div 2)" using "1.prems" by (rule blen_pos)
    have "(2 :: rat) powi blen n = 2 * 2 powi blen (n div 2)"
      by (simp add: eq power_int_add)
    moreover have "(2 :: rat) powi blen (n div 2) = 2 * 2 powi (blen (n div 2) - 1)"
      by (simp add: power_int_diff)
    moreover obtain m :: nat where m: "(2 :: rat) powi blen (n div 2) = of_int (2 ^ m)"
      using one by (intro that [of "nat (blen (n div 2))"]) (simp add: power_int_def)
    then have "n div 2 < 2 ^ m" using hi by (simp del: of_int_power)
    then have "n < 2 * 2 ^ m" by linarith
    then have "(of_int n :: rat) < of_int (2 * 2 ^ m)" by (simp only: of_int_less_iff)
    then have "(of_int n :: rat) < 2 * 2 powi blen (n div 2)" using m by simp
    moreover have "(of_int (2 * (n div 2)) :: rat) \<le> of_int n"
      by (simp only: of_int_le_iff)
    ultimately show ?thesis using lo one eq by (simp add: algebra_simps)
  qed
qed

lemma powi_le_iff [simp]: "(2 :: rat) powi a \<le> 2 powi b \<longleftrightarrow> a \<le> b"
  by (metis linorder_not_le one_less_numeral_iff order_less_imp_le power_int_strict_increasing
      power_int_increasing less_eq_rat_def rel_simps(76) semiring_norm(76))

lemma powi_less_iff [simp]: "(2 :: rat) powi a < 2 powi b \<longleftrightarrow> a < b"
  by (meson linorder_not_le powi_le_iff)

lemma powi_pos [simp]: "(0 :: rat) < 2 powi a"
  by (simp add: zero_less_power_int)

lemma powi_neq_0 [simp]: "(2 :: rat) powi a \<noteq> 0"
  by simp

lemma ilog2_bounds:
  assumes "0 < x"
  shows "2 powi ilog2 x \<le> x" and "x < 2 powi (ilog2 x + 1)"
proof -
  have "2 powi ilog2 x \<le> x \<and> x < 2 powi (ilog2 x + 1)"
  proof (cases "1 \<le> x")
    case True
    then have "1 \<le> \<lfloor>x\<rfloor>" by simp
    then have b: "2 powi (blen \<lfloor>x\<rfloor> - 1) \<le> (of_int \<lfloor>x\<rfloor> :: rat)" "(of_int \<lfloor>x\<rfloor> :: rat) < 2 powi blen \<lfloor>x\<rfloor>"
      "1 \<le> blen \<lfloor>x\<rfloor>"
      using blen_bounds [of "\<lfloor>x\<rfloor>"] by auto
    from b(3) have "(2 :: rat) powi blen \<lfloor>x\<rfloor> = of_int (2 ^ nat (blen \<lfloor>x\<rfloor>))"
      by (simp add: power_int_def)
    with b(2) have "x < 2 powi blen \<lfloor>x\<rfloor>"
      by (metis floor_less_iff of_int_less_iff)
    with b(1) True show ?thesis
      by (simp add: ilog2_def) (meson of_int_floor_le order_trans)
  next
    case False
    then have y: "1 < 1 / x" using assms by simp
    define c where "c = \<lceil>1 / x\<rceil> - 1"
    from y have "1 < \<lceil>1 / x\<rceil>" by (simp add: less_ceiling_iff)
    then have "0 < c" by (simp add: c_def)
    then have b: "2 powi (blen c - 1) \<le> (of_int c :: rat)" "(of_int c :: rat) < 2 powi blen c" "1 \<le> blen c"
      using blen_bounds [of c] by auto
    have lo: "2 powi (blen c - 1) < 1 / x"
      using b(1) by (simp add: c_def) linarith
    have "(2 :: rat) powi blen c = of_int (2 ^ nat (blen c))"
      using b(3) by (simp add: power_int_def)
    with b(2) have "c + 1 \<le> 2 ^ nat (blen c)" by (metis of_int_less_iff zless_imp_add1_zle)
    then have "\<lceil>1 / x\<rceil> \<le> 2 ^ nat (blen c)" by (simp add: c_def)
    then have hi: "1 / x \<le> 2 powi blen c"
      using \<open>2 powi blen c = of_int (2 ^ nat (blen c))\<close> by (simp add: ceiling_le_iff)
    have "2 powi (- blen c) \<le> x"
      using hi assms by (simp add: power_int_minus field_simps)
    moreover have "x < 2 powi (1 - blen c)"
    proof -
      have "(2 :: rat) powi (1 - blen c) = 1 / 2 powi (blen c - 1)"
        by (metis minus_diff_eq power_int_minus inverse_eq_divide)
      moreover have "x * 2 powi (blen c - 1) < 1"
        using lo assms by (simp add: field_simps)
      ultimately show ?thesis by (simp add: pos_less_divide_eq)
    qed
    ultimately show ?thesis using False by (simp add: ilog2_def c_def add.commute)
  qed
  then show "2 powi ilog2 x \<le> x" and "x < 2 powi (ilog2 x + 1)" by auto
qed

lemma ilog2_mono: "0 < x \<Longrightarrow> x \<le> y \<Longrightarrow> ilog2 x \<le> ilog2 y"
proof -
  assume "0 < x" "x \<le> y"
  then have "2 powi ilog2 x < (2 :: rat) powi (ilog2 y + 1)"
    using ilog2_bounds [of x] ilog2_bounds [of y] by linarith
  then show ?thesis by simp
qed

lemma ilog2_less: "0 < x \<Longrightarrow> x < 2 powi k \<Longrightarrow> ilog2 x < k"
  using ilog2_bounds(1) [of x] by (metis order_le_less_trans powi_less_iff)

lemma ilog2_ge: "2 powi k \<le> x \<Longrightarrow> k \<le> ilog2 x"
proof -
  assume "2 powi k \<le> x"
  moreover from this have "0 < x" by (metis order_less_le_trans powi_pos)
  ultimately have "2 powi k < (2 :: rat) powi (ilog2 x + 1)"
    using ilog2_bounds(2) [of x] by linarith
  then show ?thesis by simp
qed

section \<open>Rounding\<close>

lemma rne_of_int [simp]: "rne (of_int n) = n"
  by (simp add: rne_def)

lemma rne_bounds: "of_int (rne y) \<le> y + 1 / 2" "y - 1 / 2 \<le> of_int (rne y)"
  by (auto simp: rne_def Let_def) linarith+

lemma rne_mono: "x \<le> y \<Longrightarrow> rne x \<le> rne y"
proof -
  assume "x \<le> y"
  then have "\<lfloor>x\<rfloor> \<le> \<lfloor>y\<rfloor>" by (rule floor_mono)
  then consider "\<lfloor>x\<rfloor> + 1 \<le> \<lfloor>y\<rfloor>" | "\<lfloor>x\<rfloor> = \<lfloor>y\<rfloor>" by linarith
  then show ?thesis
  proof cases
    case 1
    have "rne x \<le> \<lfloor>x\<rfloor> + 1" "\<lfloor>y\<rfloor> \<le> rne y" by (auto simp: rne_def Let_def)
    with 1 show ?thesis by simp
  next
    case 2
    with \<open>x \<le> y\<close> show ?thesis by (auto simp: rne_def Let_def)
  qed
qed

lemma rne_minus: "rne (- y) = - rne y"
proof (cases "y = of_int \<lfloor>y\<rfloor>")
  case True
  then show ?thesis by (metis of_int_minus rne_of_int)
next
  case False
  then have "\<lfloor>- y\<rfloor> = - \<lfloor>y\<rfloor> - 1"
    by (metis add_uminus_conv_diff ceiling_altdef ceiling_def minus_add_distrib minus_minus)
  with False show ?thesis by (auto simp: rne_def Let_def)
qed

lemma ulp_exp_minus [simp]: "ulp_exp (- x) = ulp_exp x"
  by (simp add: ulp_exp_def)

lemma round_val_0 [simp]: "round_val 0 = 0"
  by (simp add: round_val_def)

lemma round_val_minus: "round_val (- x) = - round_val x"
  by (simp add: round_val_def rne_minus)

text \<open>A double: an integer of at most 53 bits times a power of two from \<open>2 ^ -1074\<close> on.\<close>

lemma round_val_dyadic:
  assumes "\<bar>m\<bar> \<le> 2 ^ 53" and "- 1074 \<le> e"
  shows "round_val (of_int m * 2 powi e) = of_int m * 2 powi e"
proof -
  have strict: "round_val (of_int m * 2 powi e) = of_int m * 2 powi e"
    if "\<bar>m\<bar> < 2 ^ 53" "- 1074 \<le> e" for m e
  proof (cases "m = 0")
    case False
    define x :: rat where "x = of_int m * 2 powi e"
    have "\<bar>x\<bar> = of_int \<bar>m\<bar> * 2 powi e" by (simp add: x_def abs_mult)
    moreover have "(of_int \<bar>m\<bar> :: rat) < of_int (2 ^ 53)"
      using that(1) by (simp only: of_int_less_iff)
    then have "(of_int \<bar>m\<bar> :: rat) < 2 powi 53" by (simp add: power_int_def)
    ultimately have "\<bar>x\<bar> < 2 powi 53 * 2 powi e"
      by (metis mult_less_cancel_right_pos powi_pos)
    then have "\<bar>x\<bar> < 2 powi (53 + e)" by (simp add: power_int_add)
    moreover have "0 < \<bar>x\<bar>" using False by (simp add: x_def)
    ultimately have "ilog2 \<bar>x\<bar> < 53 + e" by (rule ilog2_less [rotated])
    then have le: "ulp_exp x \<le> e" using that(2) by (simp add: ulp_exp_def)
    then have "x / 2 powi ulp_exp x = of_int m * 2 powi (e - ulp_exp x)"
      by (simp add: x_def power_int_diff)
    also have "\<dots> = of_int (m * 2 ^ nat (e - ulp_exp x))"
      using le by (simp add: power_int_def)
    finally have "rne (x / 2 powi ulp_exp x) = m * 2 ^ nat (e - ulp_exp x)"
      by (simp only: rne_of_int)
    moreover have "(of_int (m * 2 ^ nat (e - ulp_exp x)) :: rat) = of_int m * 2 powi (e - ulp_exp x)"
      using le by (simp add: power_int_def)
    ultimately have "(of_int (rne (x / 2 powi ulp_exp x)) :: rat) * 2 powi ulp_exp x
        = of_int m * (2 powi (e - ulp_exp x) * 2 powi ulp_exp x)"
      by (simp only: mult.assoc)
    also have "\<dots> = x" by (simp add: x_def power_int_diff)
    finally show ?thesis using False by (simp add: round_val_def x_def)
  qed simp
  show ?thesis
  proof (cases "\<bar>m\<bar> = 2 ^ 53")
    case True
    then obtain s :: int where s: "m = s * 2 ^ 53" "\<bar>s\<bar> = 1"
      using that [of "sgn m"] by (metis abs_eq_0 abs_sgn_eq mult_sgn_abs power_not_zero zero_neq_numeral)
    have "(of_int m :: rat) * 2 powi e = of_int (s * 2 ^ 52) * 2 powi (e + 1)"
      by (simp add: s(1) power_int_add)
    moreover have "\<bar>s * 2 ^ 52\<bar> < 2 ^ 53" using s(2) by (simp add: abs_mult)
    ultimately show ?thesis using strict [of "s * 2 ^ 52" "e + 1"] assms(2) by simp
  next
    case False
    with assms show ?thesis by (intro strict) auto
  qed
qed


lemma round_val_is_dyadic:
  obtains m e where "round_val x = of_int m * 2 powi e" "\<bar>m\<bar> \<le> 2 ^ 53" "- 1074 \<le> e"
proof (cases "x = 0")
  case True
  then show ?thesis using that [of 0 0] by simp
next
  case False
  define e where "e = ulp_exp x"
  have "\<bar>x\<bar> < 2 powi (ilog2 \<bar>x\<bar> + 1)" using ilog2_bounds(2) [of "\<bar>x\<bar>"] False by simp
  also have "\<dots> \<le> 2 powi (e + 53)" by (simp add: e_def ulp_exp_def)
  finally have "\<bar>x / 2 powi e\<bar> \<le> 2 powi 53"
    by (simp add: abs_divide power_int_add divide_le_eq mult.commute)
  then have "\<bar>x / 2 powi e\<bar> \<le> of_int (2 ^ 53)" by (simp add: power_int_def)
  then have lo: "of_int (- (2 ^ 53)) \<le> x / 2 powi e" and hi: "x / 2 powi e \<le> of_int (2 ^ 53)"
    by (simp_all only: abs_le_iff of_int_minus) linarith+
  have "- (2 ^ 53) \<le> rne (x / 2 powi e)" "rne (x / 2 powi e) \<le> 2 ^ 53"
    using rne_mono [OF lo] rne_mono [OF hi] by (simp_all only: rne_of_int)
  then have "\<bar>rne (x / 2 powi e)\<bar> \<le> 2 ^ 53" by (intro abs_leI) linarith+
  moreover have "- 1074 \<le> e" by (simp add: e_def ulp_exp_def)
  ultimately show ?thesis
    using that [of "rne (x / 2 powi e)" e] False by (simp add: round_val_def e_def)
qed

lemma round_val_idem [simp]: "round_val (round_val x) = round_val x"
  by (metis round_val_is_dyadic round_val_dyadic)

lemma round_val_nonneg: "0 \<le> x \<Longrightarrow> 0 \<le> round_val x"
proof -
  assume "0 \<le> x"
  then have "rne (of_int 0) \<le> rne (x / 2 powi ulp_exp x)"
    by (intro rne_mono) simp
  then have "0 \<le> rne (x / 2 powi ulp_exp x)" by (simp only: rne_of_int)
  then show ?thesis by (simp add: round_val_def)
qed

lemma round_val_mono_pos:
  assumes "0 < x" "x \<le> y"
  shows "round_val x \<le> round_val y"
proof (cases "ulp_exp x = ulp_exp y")
  case True
  have "x / 2 powi ulp_exp y \<le> y / 2 powi ulp_exp y"
    using assms by (simp add: divide_right_mono)
  then have "rne (x / 2 powi ulp_exp y) \<le> rne (y / 2 powi ulp_exp y)" by (rule rne_mono)
  with assms True show ?thesis by (simp add: round_val_def)
next
  case False
  define k where "k = ilog2 y"
  have le: "ilog2 x \<le> k" unfolding k_def using assms by (rule ilog2_mono)
  with False assms have big: "ilog2 x < k" "- 1074 \<le> k - 53" "ulp_exp y = k - 52"
    by (auto simp: ulp_exp_def k_def max_def split: if_splits)
  have exp_x: "ulp_exp x \<le> k - 53" using big assms(1) by (simp add: ulp_exp_def)
  \<comment> \<open>the power of two between the two is a double above the first and below the second\<close>
  have "x < 2 powi (ilog2 x + 1)" using assms(1) by (rule ilog2_bounds)
  also have "\<dots> \<le> 2 powi k" using big by simp
  finally have "x / 2 powi ulp_exp x \<le> 2 powi k / 2 powi ulp_exp x"
    by (simp add: divide_right_mono)
  also have "\<dots> = of_int (2 ^ nat (k - ulp_exp x))"
    using exp_x by (subst power_int_diff [symmetric]) (simp_all add: power_int_def)
  finally have "rne (x / 2 powi ulp_exp x) \<le> rne (of_int (2 ^ nat (k - ulp_exp x)))"
    by (rule rne_mono)
  then have "(of_int (rne (x / 2 powi ulp_exp x)) :: rat) \<le> of_int (2 ^ nat (k - ulp_exp x))"
    by (simp only: rne_of_int of_int_le_iff)
  also have "\<dots> = 2 powi (k - ulp_exp x)" using exp_x by (simp add: power_int_def)
  finally have "round_val x \<le> 2 powi (k - ulp_exp x) * 2 powi ulp_exp x"
    using assms(1) by (simp add: round_val_def)
  then have low: "round_val x \<le> 2 powi k" by (simp add: power_int_diff)
  have "2 powi k \<le> y" using assms by (simp add: k_def ilog2_bounds)
  then have "2 powi k / 2 powi (k - 52) \<le> y / 2 powi (k - 52)"
    by (simp add: divide_right_mono)
  moreover have "(2 :: rat) powi k / 2 powi (k - 52) = of_int (2 ^ 52)"
    by (simp add: power_int_diff)
  ultimately have "rne (of_int (2 ^ 52)) \<le> rne (y / 2 powi (k - 52))"
    by (simp only: rne_mono)
  then have "(of_int (2 ^ 52) :: rat) \<le> of_int (rne (y / 2 powi (k - 52)))"
    by (simp only: rne_of_int of_int_le_iff)
  then have "of_int (2 ^ 52) * 2 powi (k - 52) \<le> round_val y"
    using assms big(3) by (simp add: round_val_def)
  then have "2 powi k \<le> round_val y" by (simp add: power_int_diff)
  with low show ?thesis by simp
qed

lemma round_val_mono: "x \<le> y \<Longrightarrow> round_val x \<le> round_val y"
proof -
  assume le: "x \<le> y"
  consider "0 < x" | "y < 0" | "x \<le> 0" "0 \<le> y" by linarith
  then show ?thesis
  proof cases
    case 1
    then show ?thesis using le by (rule round_val_mono_pos)
  next
    case 2
    then have "round_val (- y) \<le> round_val (- x)" using le by (intro round_val_mono_pos) auto
    then show ?thesis by (simp add: round_val_minus)
  next
    case 3
    then have "0 \<le> round_val (- x)" "0 \<le> round_val y" by (auto intro: round_val_nonneg)
    then show ?thesis by (simp add: round_val_minus)
  qed
qed

section \<open>The order on numbers\<close>

lemma le_refl [simp]: "x \<noteq> NaN \<Longrightarrow> x \<le> (x :: jsnum)"
  by (cases x) auto

lemma le_NaN [simp]: "\<not> x \<le> NaN" "\<not> NaN \<le> (x :: jsnum)"
  by (cases x; simp)+

lemma le_PInf [simp]: "x \<le> PInf \<longleftrightarrow> x \<noteq> NaN"
  by (cases x) auto

lemma NInf_le [simp]: "NInf \<le> x \<longleftrightarrow> x \<noteq> NaN"
  by (cases x) auto

lemma le_jsnum_not_NaN: "x \<le> y \<Longrightarrow> x \<noteq> NaN \<and> y \<noteq> (NaN :: jsnum)"
  by auto

lemma le_jsnum_trans [trans]: "x \<le> y \<Longrightarrow> y \<le> z \<Longrightarrow> x \<le> (z :: jsnum)"
  by (cases x; cases y; cases z) auto

lemma le_jsnum_antisym: "x \<le> y \<Longrightarrow> y \<le> x \<Longrightarrow> x = (y :: jsnum)"
  by (cases x; cases y) auto

lemma le_jsnum_total: "x \<noteq> NaN \<Longrightarrow> y \<noteq> NaN \<Longrightarrow> x \<le> y \<or> y \<le> (x :: jsnum)"
  by (cases x; cases y) auto

lemma less_Fin [simp]: "Fin x < Fin y \<longleftrightarrow> x < y"
  by (auto simp: less_jsnum_def)

lemma less_NaN [simp]: "\<not> x < NaN" "\<not> NaN < (x :: jsnum)"
  by (auto simp: less_jsnum_def)

lemma less_jsnum_irrefl [simp]: "\<not> x < (x :: jsnum)"
  by (simp add: less_jsnum_def)

lemma less_jsnum_imp_le: "x < y \<Longrightarrow> x \<le> (y :: jsnum)"
  by (simp add: less_jsnum_def)

lemma less_Inf [simp]: "Fin r < PInf" "NInf < Fin r" "NInf < PInf" "\<not> PInf < x" "\<not> x < NInf"
  by (cases x; simp add: less_jsnum_def)+

lemma not_less_jsnum: "x \<noteq> NaN \<Longrightarrow> y \<noteq> NaN \<Longrightarrow> \<not> x < y \<longleftrightarrow> y \<le> (x :: jsnum)"
  by (cases x; cases y) (auto simp: less_jsnum_def)

lemma less_jsnum_trans [trans]: "x < y \<Longrightarrow> y < z \<Longrightarrow> x < (z :: jsnum)"
  by (cases x; cases y; cases z) auto

lemma less_le_jsnum_trans: "x < y \<Longrightarrow> y \<le> z \<Longrightarrow> x < (z :: jsnum)"
  by (cases x; cases y; cases z) (auto simp: less_jsnum_def)

lemma le_less_jsnum_trans: "x \<le> y \<Longrightarrow> y < z \<Longrightarrow> x < (z :: jsnum)"
  by (cases x; cases y; cases z) (auto simp: less_jsnum_def)

lemma num_eq_Fin [simp]: "num_eq (Fin x) (Fin y) \<longleftrightarrow> x = y"
  by (simp add: num_eq_def)

lemma is_nan_simps [simp]: "is_nan NaN" "\<not> is_nan (Fin x)" "\<not> is_nan PInf" "\<not> is_nan NInf"
  by (simp_all add: is_nan_def)

lemma is_finite_iff: "is_finite x \<longleftrightarrow> (\<exists>r. x = Fin r)"
  by (cases x) (auto simp: is_finite_def)

lemma is_finite_simps [simp]: "is_finite (Fin x)" "\<not> is_finite PInf" "\<not> is_finite NInf" "\<not> is_finite NaN"
  by (simp_all add: is_finite_def)

section \<open>Rounding to a double\<close>

lemma rnd_not_NaN [simp]: "rnd x \<noteq> NaN" "NaN \<noteq> rnd x"
  by (auto simp: rnd_def Let_def)

lemma rnd_mono: "x \<le> y \<Longrightarrow> rnd x \<le> rnd y"
  using round_val_mono [of x y] by (auto simp: rnd_def Let_def)

lemma rnd_minus: "rnd (- x) = - rnd x"
  by (auto simp: rnd_def Let_def round_val_minus)

definition is_double :: "rat \<Rightarrow> bool" where
  "is_double x \<longleftrightarrow> rnd x = Fin x"

lemma is_double_rnd: "is_double x \<Longrightarrow> rnd x = Fin x"
  by (simp add: is_double_def)

lemma rnd_Fin_is_double: "rnd x = Fin r \<Longrightarrow> is_double r"
  by (auto simp: rnd_def is_double_def Let_def split: if_splits)

lemma is_double_dyadic:
  assumes "\<bar>m\<bar> \<le> 2 ^ 53" "- 1074 \<le> e" "\<bar>of_int m * 2 powi e\<bar> < (2 :: rat) powi 1024"
  shows "is_double (of_int m * 2 powi e)"
  using assms(3) round_val_dyadic [OF assms(1,2)]
  by (auto simp: is_double_def rnd_def Let_def abs_less_iff)

lemma is_double_of_int: "\<bar>n\<bar> \<le> 2 ^ 53 \<Longrightarrow> is_double (of_int n)"
proof -
  assume n: "\<bar>n\<bar> \<le> 2 ^ 53"
  then have "(of_int \<bar>n\<bar> :: rat) \<le> of_int (2 ^ 53)" by (simp only: of_int_le_iff)
  then have "\<bar>of_int n :: rat\<bar> \<le> 2 powi 53" by (simp add: power_int_def)
  also have "(2 :: rat) powi 53 < 2 powi 1024" by (rule powi_less_iff [THEN iffD2]) simp
  finally show ?thesis using is_double_dyadic [of n 0] n by simp
qed

lemma rnd_of_int: "\<bar>n\<bar> \<le> 2 ^ 53 \<Longrightarrow> rnd (of_int n) = Fin (of_int n)"
  by (rule is_double_rnd [OF is_double_of_int])

lemma rnd_numeral: "numeral n \<le> (2 ^ 53 :: int) \<Longrightarrow> rnd (numeral n) = Fin (numeral n)"
  using rnd_of_int [of "numeral n"] by simp

text \<open>Arithmetic on whole numbers is exact below two to the 53rd.\<close>

lemma whole_sum: "\<bar>a + b\<bar> \<le> 2 ^ 53 \<Longrightarrow> Fin (of_int a) + Fin (of_int b) = Fin (of_int (a + b))"
  using rnd_of_int [of "a + b"] by simp

lemma whole_difference: "\<bar>a - b\<bar> \<le> 2 ^ 53 \<Longrightarrow> Fin (of_int a) - Fin (of_int b) = Fin (of_int (a - b))"
  using rnd_of_int [of "a - b"] by (simp add: minus_jsnum_def)

lemma whole_product: "\<bar>a * b\<bar> \<le> 2 ^ 53 \<Longrightarrow> Fin (of_int a) * Fin (of_int b) = Fin (of_int (a * b))"
  using rnd_of_int [of "a * b"] by simp

lemma rnd_0 [simp]: "rnd 0 = Fin 0" and rnd_1 [simp]: "rnd 1 = Fin 1"
  using rnd_of_int [of 0] rnd_of_int [of 1] by simp_all


lemma round_val_int_bounds:
  assumes "of_int a \<le> x" "x \<le> of_int b" "\<bar>a\<bar> \<le> 2 ^ 53" "\<bar>b\<bar> \<le> 2 ^ 53"
  shows "\<exists>r. rnd x = Fin r \<and> of_int a \<le> r \<and> r \<le> of_int b"
proof -
  from assms have "Fin (of_int a) \<le> rnd x" "rnd x \<le> Fin (of_int b)"
    by (metis rnd_mono rnd_of_int)+
  then show ?thesis by (cases "rnd x") auto
qed

lemma rnd_ge_double: "is_double a \<Longrightarrow> a \<le> x \<Longrightarrow> Fin a \<le> rnd x"
  by (metis is_double_rnd rnd_mono)

lemma rnd_le_double: "is_double b \<Longrightarrow> x \<le> b \<Longrightarrow> rnd x \<le> Fin b"
  by (metis is_double_rnd rnd_mono)

lemma is_double_0 [simp]: "is_double 0" and is_double_1 [simp]: "is_double 1"
  by (simp_all add: is_double_def)

lemma is_double_numeral: "numeral n \<le> (2 ^ 53 :: int) \<Longrightarrow> is_double (numeral n)"
  by (simp add: is_double_def rnd_numeral)

lemma is_double_uminus [simp]: "is_double (- x) \<longleftrightarrow> is_double x"
proof -
  have "is_double (- y)" if "is_double y" for y
    using that by (simp add: is_double_def rnd_minus)
  from this [of x] this [of "- x"] show ?thesis by auto
qed

lemma rnd_finite:
  assumes "\<bar>x\<bar> \<le> 2 powi 80"
  shows "\<exists>r. rnd x = Fin r"
proof -
  have "(2 :: rat) powi 80 < 2 powi 1024" by (rule powi_less_iff [THEN iffD2]) simp
  then have "is_double (2 powi 80)" using is_double_dyadic [of 1 80] by simp
  moreover from this have "is_double (- (2 powi 80))" by simp
  ultimately have "rnd x \<le> Fin (2 powi 80)" "Fin (- (2 powi 80)) \<le> rnd x"
    using assms by (auto intro!: rnd_le_double rnd_ge_double)
  then show ?thesis by (cases "rnd x") simp_all
qed

text \<open>Fixing the digits of a finite number gives a finite number.\<close>

lemma fixed_num_finite: "\<exists>r. fixed_num 2 (Fin x) = Fin r"
proof (cases "10 ^ 21 \<le> \<bar>x\<bar>")
  case False
  define y :: rat where "y = (if x < 0 then - 1 else 1) * of_int (fixed_int 2 x) / 10 ^ 2"
  have "of_int (fixed_int 2 x) \<le> \<bar>x\<bar> * 100 + 1 / 2" "0 \<le> fixed_int 2 x" by (simp_all add: fixed_int_def)
  then have "\<bar>y\<bar> \<le> \<bar>x\<bar> + 1" by (auto simp: y_def abs_mult)
  also have "\<dots> \<le> 2 powi 80" using False by (simp add: power_int_def)
  finally show ?thesis using rnd_finite [of y] False by (simp add: y_def)
qed simp

lemma fixed_num_mono:
  assumes "0 \<le> x" "x \<le> y" "y < 10 ^ 21"
  shows "fixed_num d (Fin x) \<le> fixed_num d (Fin y)"
proof -
  have "fixed_int d x \<le> fixed_int d y" unfolding fixed_int_def using assms by (intro floor_mono) (simp add: mult_right_mono)
  then have "(of_int (fixed_int d x) :: rat) / 10 ^ d \<le> of_int (fixed_int d y) / 10 ^ d" by (simp add: divide_right_mono)
  then have "rnd (of_int (fixed_int d x) / 10 ^ d) \<le> rnd (of_int (fixed_int d y) / 10 ^ d)" by (rule rnd_mono)
  then show ?thesis using assms by simp
qed

lemma rnd_nonneg [js_range]: "0 \<le> x \<Longrightarrow> Fin 0 \<le> rnd x"
  by (rule rnd_ge_double) simp_all

lemma rnd_nonpos: "x \<le> 0 \<Longrightarrow> rnd x \<le> Fin 0"
  by (rule rnd_le_double) simp_all

section \<open>The operations\<close>

lemma plus_NaN [simp]: "x + NaN = NaN" "NaN + x = (NaN :: jsnum)"
  by (cases x; simp)+

lemma times_NaN [simp]: "x * NaN = NaN" "NaN * x = (NaN :: jsnum)"
  by (cases x; simp)+

lemma divide_NaN [simp]: "x / NaN = NaN" "NaN / x = (NaN :: jsnum)"
  by (cases x; simp)+

lemma minus_NaN [simp]: "x - NaN = NaN" "NaN - x = (NaN :: jsnum)"
  by (simp_all add: minus_jsnum_def)

lemma minus_Fin [simp]: "Fin x - Fin y = rnd (x - y)"
  by (simp add: minus_jsnum_def)

lemma plus_comm: "x + y = y + (x :: jsnum)"
  by (cases x; cases y) (simp_all add: add.commute)

lemma times_comm: "x * y = y * (x :: jsnum)"
  by (cases x; cases y) (simp_all add: mult.commute)

lemma uminus_le_iff [simp]: "- x \<le> - y \<longleftrightarrow> y \<le> (x :: jsnum)"
  by (cases x; cases y) auto

lemma uminus_NaN_iff [simp]: "- x = NaN \<longleftrightarrow> x = (NaN :: jsnum)"
  by (cases x) auto

lemma plus_mono:
  assumes "a \<le> b" "c \<le> d" "a + c \<noteq> NaN" "b + d \<noteq> (NaN :: jsnum)"
  shows "a + c \<le> b + d"
  using assms by (cases a; cases b; cases c; cases d) (auto intro: rnd_mono)

lemma minus_mono:
  assumes "a \<le> b" "d \<le> c" "a - c \<noteq> NaN" "b - d \<noteq> (NaN :: jsnum)"
  shows "a - c \<le> b - d"
  using assms by (auto simp: minus_jsnum_def intro!: plus_mono)

lemma plus_nonneg [js_range]: "Fin 0 \<le> x \<Longrightarrow> Fin 0 \<le> y \<Longrightarrow> Fin 0 \<le> x + y"
  by (cases x; cases y) (auto intro: rnd_nonneg)

lemma times_nonneg:
  "Fin 0 \<le> x \<Longrightarrow> Fin 0 \<le> y \<Longrightarrow> x * y \<noteq> NaN \<Longrightarrow> Fin 0 \<le> x * y"
  by (cases x; cases y) (auto simp: signed_inf_def intro: rnd_nonneg)

lemma times_Fin_nonneg [js_range]:
  "Fin 0 \<le> x \<Longrightarrow> 0 < r \<Longrightarrow> Fin 0 \<le> x * Fin r"
  by (cases x) (auto simp: signed_inf_def intro: rnd_nonneg)

lemma divide_nonneg [js_range]:
  "Fin 0 \<le> x \<Longrightarrow> 0 < r \<Longrightarrow> Fin 0 \<le> x / Fin r"
  by (cases x) (auto simp: signed_inf_def intro: rnd_nonneg)

lemma abs_nonneg [js_range]: "x \<noteq> NaN \<Longrightarrow> Fin 0 \<le> \<bar>x\<bar>"
  by (cases x) auto

lemma abs_NaN_iff [simp]: "\<bar>x\<bar> = NaN \<longleftrightarrow> x = (NaN :: jsnum)"
  by (cases x) auto

lemma math_min_NaN_iff [simp]: "math_min x y = NaN \<longleftrightarrow> x = NaN \<or> y = NaN"
  by (auto simp: math_min_def)

lemma math_max_NaN_iff [simp]: "math_max x y = NaN \<longleftrightarrow> x = NaN \<or> y = NaN"
  by (auto simp: math_max_def)

lemma math_min_le: "x \<noteq> NaN \<Longrightarrow> y \<noteq> NaN \<Longrightarrow> math_min x y \<le> x \<and> math_min x y \<le> y"
  using le_jsnum_total [of x y] by (auto simp: math_min_def)

lemma math_max_ge: "x \<noteq> NaN \<Longrightarrow> y \<noteq> NaN \<Longrightarrow> x \<le> math_max x y \<and> y \<le> math_max x y"
  using le_jsnum_total [of x y] by (auto simp: math_max_def)

lemma math_min_ge [js_range]: "z \<le> x \<Longrightarrow> z \<le> y \<Longrightarrow> z \<le> math_min x y"
  by (auto simp: math_min_def)

lemma math_max_le [js_range]: "x \<le> z \<Longrightarrow> y \<le> z \<Longrightarrow> math_max x y \<le> z"
  by (auto simp: math_max_def)

lemma math_round_mono: "x \<le> y \<Longrightarrow> math_round x \<le> math_round y"
  by (cases x; cases y) (auto intro: floor_mono)

lemma math_round_of_int [simp]: "math_round (Fin (of_int n)) = Fin (of_int n)"
proof -
  have "\<lfloor>of_int n + (1 / 2 :: rat)\<rfloor> = n" by linarith
  then show ?thesis by simp
qed

lemma math_round_numeral [simp]:
  "math_round (Fin 0) = Fin 0" "math_round (Fin 1) = Fin 1"
  "math_round (Fin (numeral n)) = Fin (numeral n)"
  using math_round_of_int [of 0] math_round_of_int [of 1] math_round_of_int [of "numeral n"]
  by simp_all

lemma math_round_between [js_range]:
  "Fin (of_int a) \<le> x \<Longrightarrow> x \<le> Fin (of_int b) \<Longrightarrow>
     Fin (of_int a) \<le> math_round x \<and> math_round x \<le> Fin (of_int b)"
  by (metis math_round_mono math_round_of_int)

section \<open>The integer square root\<close>

lemma isqrt_nonneg: "0 \<le> isqrt n"
  by (induction n rule: isqrt.induct) (subst isqrt.simps, simp add: Let_def)

lemma isqrt_spec: "0 \<le> n \<Longrightarrow> isqrt n * isqrt n \<le> n \<and> n < (isqrt n + 1) * (isqrt n + 1)"
proof (induction n rule: isqrt.induct)
  case (1 n)
  show ?case
  proof (cases "n \<le> 0")
    case True
    with "1.prems" show ?thesis by (simp add: isqrt.simps)
  next
    case False
    define q where "q = isqrt (n div 4)"
    have IH: "q * q \<le> n div 4" "n div 4 < (q + 1) * (q + 1)"
      using False "1.IH" by (auto simp: q_def)
    have "4 * (q * q) \<le> n" "n < 4 * ((q + 1) * (q + 1))" using IH by linarith+
    then show ?thesis
      using False by (subst (1 2 3 4) isqrt.simps) (auto simp: Let_def q_def [symmetric] algebra_simps)
  qed
qed

lemma math_sqrt_nonneg [js_range]: "Fin 0 \<le> x \<Longrightarrow> Fin 0 \<le> math_sqrt x"
  by (cases x) (auto simp: sqrt_scaled_def Let_def isqrt_nonneg intro!: rnd_nonneg)


section \<open>Numbers that are not negative\<close>

text \<open>A number that is NaN or at least zero: closed under the operations, overflow included.\<close>

definition nonneg :: "jsnum \<Rightarrow> bool" where
  "nonneg x \<longleftrightarrow> x = NaN \<or> Fin 0 \<le> x"

lemma nonneg_simps [simp]: "nonneg NaN" "nonneg PInf" "\<not> nonneg NInf" "nonneg (Fin r) \<longleftrightarrow> 0 \<le> r"
  by (auto simp: nonneg_def)

lemma nonnegD: "nonneg x \<Longrightarrow> x \<noteq> NaN \<Longrightarrow> Fin 0 \<le> x"
  by (simp add: nonneg_def)

lemma nonneg_rnd [intro]: "0 \<le> r \<Longrightarrow> nonneg (rnd r)"
  by (simp add: nonneg_def rnd_nonneg)

lemma nonneg_plus [intro]: "nonneg x \<Longrightarrow> nonneg y \<Longrightarrow> nonneg (x + y)"
  by (cases x; cases y) auto

lemma nonneg_times [intro]: "nonneg x \<Longrightarrow> nonneg y \<Longrightarrow> nonneg (x * y)"
  by (cases x; cases y) (auto simp: signed_inf_def)

lemma nonneg_square [intro]: "nonneg (x * x)"
  by (cases x) auto

lemma nonneg_divide [intro]: "nonneg x \<Longrightarrow> nonneg y \<Longrightarrow> nonneg (x / y)"
  by (cases x; cases y) (auto simp: signed_inf_def)

lemma nonneg_abs [intro]: "nonneg \<bar>x\<bar>"
  by (cases x) auto

lemma nonneg_sqrt [intro]: "nonneg (math_sqrt x)"
  using math_sqrt_nonneg [of x] by (cases x) (auto simp: nonneg_def)

lemma nonneg_num_of_nat [intro, simp]: "nonneg (num_of_nat n)"
  by (auto simp: num_of_nat_def)

lemma nonneg_max [intro]: "nonneg x \<Longrightarrow> nonneg y \<Longrightarrow> nonneg (math_max x y)"
  by (auto simp: math_max_def)

lemma nonneg_or [intro]: "nonneg x \<Longrightarrow> nonneg y \<Longrightarrow> nonneg (num_or x y)"
  by (auto simp: num_or_def)

section \<open>Numbers that are doubles\<close>

text \<open>A value the program can hold: an infinity, NaN or a double. Every operation gives one.\<close>

definition dbl :: "jsnum \<Rightarrow> bool" where
  "dbl x = (case x of Fin r \<Rightarrow> is_double r | _ \<Rightarrow> True)"

lemma dbl_simps [simp]: "dbl NaN" "dbl PInf" "dbl NInf" "dbl (Fin r) \<longleftrightarrow> is_double r"
  by (simp_all add: dbl_def)

lemma dbl_rnd [simp, intro]: "dbl (rnd x)"
  by (cases "rnd x") (auto intro: rnd_Fin_is_double)

lemma dbl_uminus [simp, intro]: "dbl x \<Longrightarrow> dbl (- x)"
  by (cases x) auto

lemma dbl_plus [simp, intro]: "dbl x \<Longrightarrow> dbl y \<Longrightarrow> dbl (x + y)"
  by (cases x; cases y) auto

lemma dbl_minus [simp, intro]: "dbl x \<Longrightarrow> dbl y \<Longrightarrow> dbl (x - y)"
  by (simp add: minus_jsnum_def)

lemma dbl_times [simp, intro]: "dbl (x * y)"
  by (cases x; cases y) (auto simp: signed_inf_def)

lemma dbl_divide [simp, intro]: "dbl (x / y)"
  by (cases x; cases y) (auto simp: signed_inf_def)

lemma plus_ge: "dbl m \<Longrightarrow> nonneg d \<Longrightarrow> m + d \<noteq> NaN \<Longrightarrow> m \<le> m + d"
  by (cases m; cases d) (auto intro: rnd_ge_double)

lemma minus_le: "dbl m \<Longrightarrow> nonneg d \<Longrightarrow> m - d \<noteq> NaN \<Longrightarrow> m - d \<le> m"
  by (cases m; cases d) (auto simp: minus_jsnum_def intro: rnd_le_double)

section \<open>Evaluation on closed terms\<close>

text \<open>
  Rules that decide a rounding on the numerals of a witness: integers and dyadic fractions
  of at most 53 bits are doubles.
\<close>

primrec pow2_num :: "num \<Rightarrow> bool" where
  "pow2_num num.One = True"
| "pow2_num (num.Bit0 n) = pow2_num n"
| "pow2_num (num.Bit1 n) = False"

lemma pow2_num_exp: "pow2_num d \<Longrightarrow> \<exists>k. numeral d = (2 :: rat) ^ k \<and> numeral d = (2 :: int) ^ k"
proof (induction d)
  case One
  then show ?case by (intro exI [of _ 0]) simp
next
  case (Bit0 d)
  then obtain k where k: "numeral d = (2 :: rat) ^ k" "numeral d = (2 :: int) ^ k" by auto
  show ?case
    by (intro exI [of _ "Suc k"]) (simp only: numeral_Bit0 [of d] k power_Suc mult_2)
qed simp

lemma is_double_quotient:
  assumes "pow2_num d" "numeral d \<le> (2 ^ 60 :: int)" "\<bar>m\<bar> \<le> 2 ^ 53"
  shows "is_double (of_int m / numeral d)"
proof -
  from pow2_num_exp [OF assms(1)] obtain k where
    k: "numeral d = (2 :: rat) ^ k" "numeral d = (2 :: int) ^ k" by auto
  from assms(2) have "(2 :: int) ^ k \<le> 2 ^ 60" by (simp only: k)
  then have "k \<le> 60" by (rule power_le_imp_le_exp [rotated]) simp
  have eq: "(of_int m :: rat) / numeral d = of_int m * 2 powi (- int k)"
    by (simp add: k power_int_minus divide_inverse)
  have "\<bar>of_int m * 2 powi (- int k)\<bar> \<le> (of_int \<bar>m\<bar> :: rat) * 1"
    unfolding abs_mult by (intro mult_mono) (auto simp: power_int_minus field_simps)
  also have "\<dots> \<le> of_int (2 ^ 53)" using assms(3) by (simp only: mult_1_right of_int_le_iff)
  also have "\<dots> = 2 powi 53" by (simp add: power_int_def)
  also have "\<dots> < (2 :: rat) powi 1024" by (rule powi_less_iff [THEN iffD2]) simp
  finally show ?thesis unfolding eq
    using assms(3) \<open>k \<le> 60\<close> by (intro is_double_dyadic) auto
qed

lemma rnd_eval [js_eval]:
  "numeral n \<le> (2 ^ 53 :: int) \<Longrightarrow> rnd (numeral n) = Fin (numeral n)"
  "numeral n \<le> (2 ^ 53 :: int) \<Longrightarrow> rnd (- numeral n) = Fin (- numeral n)"
  "pow2_num d \<Longrightarrow> numeral d \<le> (2 ^ 60 :: int) \<Longrightarrow> numeral n \<le> (2 ^ 53 :: int) \<Longrightarrow>
     rnd (numeral n / numeral d) = Fin (numeral n / numeral d)"
  "pow2_num d \<Longrightarrow> numeral d \<le> (2 ^ 60 :: int) \<Longrightarrow> numeral n \<le> (2 ^ 53 :: int) \<Longrightarrow>
     rnd (- (numeral n / numeral d)) = Fin (- (numeral n / numeral d))"
  "pow2_num d \<Longrightarrow> numeral d \<le> (2 ^ 60 :: int) \<Longrightarrow> rnd (1 / numeral d) = Fin (1 / numeral d)"
  "pow2_num d \<Longrightarrow> numeral d \<le> (2 ^ 60 :: int) \<Longrightarrow> rnd (- (1 / numeral d)) = Fin (- (1 / numeral d))"
  using is_double_of_int [of "numeral n"] is_double_of_int [of "- numeral n"]
    is_double_quotient [of d "numeral n"] is_double_quotient [of d "- numeral n"]
    is_double_quotient [of d 1] is_double_quotient [of d "- 1"]
  by (simp_all add: is_double_def)

lemma rnd_neg_1 [js_eval]: "rnd (- 1) = Fin (- 1)"
  using rnd_of_int [of "- 1"] by simp

lemma floor_eval [js_eval]:
  "\<lfloor>numeral a / numeral b :: rat\<rfloor> = numeral a div numeral b"
  "\<lfloor>- (numeral a / numeral b) :: rat\<rfloor> = - numeral a div numeral b"
  "\<lfloor>1 / numeral b :: rat\<rfloor> = 1 div numeral b"
  using floor_divide_of_int_eq [of "numeral a" "numeral b", where ?'a = rat]
    floor_divide_of_int_eq [of "- numeral a" "numeral b", where ?'a = rat]
    floor_divide_of_int_eq [of 1 "numeral b", where ?'a = rat]
  by simp_all

text \<open>The rounding of a literal that is not a double, its exponent given.\<close>

lemma rnd_with_exp:
  assumes "2 powi (e + 52) \<le> x" "x < 2 powi (e + 53)" "- 1074 \<le> e" "e \<le> 900"
  shows "rnd x = Fin (of_int (rne (x / 2 powi e)) * 2 powi e)"
proof -
  have x: "0 < x" using assms(1) by (metis order_less_le_trans powi_pos)
  have "ilog2 x = e + 52"
    using ilog2_ge [OF assms(1)] ilog2_less [OF x assms(2)] by simp
  then have rv: "round_val x = of_int (rne (x / 2 powi e)) * 2 powi e"
    using x assms(3) by (simp add: round_val_def ulp_exp_def)
  have "(2 :: rat) powi 1000 = of_int 1 * 2 powi 1000" by simp
  then have "round_val (2 powi 1000) = 2 powi 1000"
    using round_val_dyadic [of 1 1000] by (simp only:) simp
  moreover have "x \<le> 2 powi 1000"
  proof -
    have "(2 :: rat) powi (e + 53) \<le> 2 powi 1000" using assms(4) by (simp only: powi_le_iff)
    with assms(2) show ?thesis by linarith
  qed
  ultimately have "round_val x \<le> 2 powi 1000" by (metis round_val_mono)
  also have "\<dots> < (2 :: rat) powi 1024" by (rule powi_less_iff [THEN iffD2]) simp
  finally have "\<not> 2 powi 1024 \<le> round_val x" by simp
  moreover have "0 \<le> round_val x" using x by (intro round_val_nonneg) simp
  then have "\<not> round_val x \<le> - (2 powi 1024)"
    by (metis linorder_not_le neg_less_0_iff_less order_less_le_trans powi_pos)
  ultimately show ?thesis by (simp add: rnd_def Let_def rv)
qed

section \<open>Exact arithmetic on integers\<close>

lemma plus_int: "\<bar>a + b\<bar> \<le> 2 ^ 53 \<Longrightarrow> Fin (of_int a) + Fin (of_int b) = Fin (of_int (a + b))"
  using rnd_of_int [of "a + b"] by simp

lemma minus_int: "\<bar>a - b\<bar> \<le> 2 ^ 53 \<Longrightarrow> Fin (of_int a) - Fin (of_int b) = Fin (of_int (a - b))"
  using rnd_of_int [of "a - b"] by (simp add: minus_jsnum_def)

lemma math_min_int: "math_min (Fin (of_int a)) (Fin (of_int b)) = Fin (of_int (min a b))"
  by (simp add: math_min_def min_def)

text \<open>A sum of integers is exact while their magnitudes fit the significand.\<close>

lemma sum_int_exact:
  assumes "\<And>x. x \<in> set xs \<Longrightarrow> f x = Fin (of_int (g x))"
    and "\<bar>a\<bar> + sum_list (map (\<lambda>x. \<bar>g x\<bar>) xs) \<le> 2 ^ 53"
  shows "foldl (\<lambda>s x. s + f x) (Fin (of_int a)) xs = Fin (of_int (a + sum_list (map g xs)))"
  using assms
proof (induction xs arbitrary: a)
  case (Cons x xs)
  have "0 \<le> sum_list (map (\<lambda>x. \<bar>g x\<bar>) xs)" by (rule sum_list_nonneg) auto
  then have b: "\<bar>a + g x\<bar> \<le> 2 ^ 53" using Cons.prems(2) by simp
  have "foldl (\<lambda>s x. s + f x) (Fin (of_int a)) (x # xs) = foldl (\<lambda>s x. s + f x) (Fin (of_int (a + g x))) xs"
    using plus_int [OF b] Cons.prems(1) [of x] by simp
  also have "\<dots> = Fin (of_int (a + g x + sum_list (map g xs)))"
    using Cons.prems by (intro Cons.IH) auto
  finally show ?case by (simp add: add.assoc)
qed simp

lemma times_int: "\<bar>a * b\<bar> \<le> 2 ^ 53 \<Longrightarrow> Fin (of_int a) * Fin (of_int b) = Fin (of_int (a * b))"
  using rnd_of_int [of "a * b"] by simp

end
