(* ===== verification/PriceSeries.thy ===== *)
theory PriceSeries
  imports JSNumberFacts
begin

text \<open>
  Price series: candles, the loops the indicators are written with, and the contract
  \<open>causal_series\<close> of an operation that never looks at the future. The loops of the source
  that carry variables and push one value per index are \<open>scan_loop\<close>; those that fill a
  preallocated array of NaN with \<open>result[i] = v\<close> are \<open>fill\<close>.
\<close>

section \<open>Candles and arrays\<close>

text \<open>A missing field of a candle reads as NaN; \<open>c_volume\<close> is \<open>None\<close> when absent.\<close>

record candle =
  c_high :: jsnum
  c_low :: jsnum
  c_close :: jsnum
  c_volume :: "jsnum option"

text \<open>
  Reading a number array: past its end the value is \<open>undefined\<close>, which arithmetic,
  comparisons and \<open>isNaN\<close> treat as NaN.
\<close>

definition num_at :: "jsnum list \<Rightarrow> nat \<Rightarrow> jsnum" where
  "num_at xs i = (if i < length xs then xs ! i else NaN)"

text \<open>\<open>arr[arr.length - 1 - k]\<close>.\<close>

definition num_end :: "jsnum list \<Rightarrow> nat \<Rightarrow> jsnum" where
  "num_end xs k = (if k < length xs then xs ! (length xs - 1 - k) else NaN)"

text \<open>\<open>c.volume || 0\<close>.\<close>

definition volume_or_0 :: "candle \<Rightarrow> jsnum" where
  "volume_or_0 c = num_or (case c_volume c of None \<Rightarrow> NaN | Some v \<Rightarrow> v) (Fin 0)"

definition closes_of :: "candle list \<Rightarrow> jsnum list" where
  "closes_of cs = map c_close cs"

section \<open>Loops\<close>

primrec scan_loop :: "('s \<Rightarrow> nat \<Rightarrow> 's \<times> 'b) \<Rightarrow> 's \<Rightarrow> nat list \<Rightarrow> 'b list" where
  "scan_loop f s [] = []"
| "scan_loop f s (i # is) = (let (s', b) = f s i in b # scan_loop f s' is)"

definition sum_range :: "(nat \<Rightarrow> jsnum) \<Rightarrow> nat \<Rightarrow> nat \<Rightarrow> jsnum" where
  "sum_range f a b = foldl (\<lambda>s j. s + f j) (Fin 0) [a..<b]"

text \<open>
  \<open>for (i = from; i < len; i++) result[i] = f(i)\<close> over \<open>new Array(len).fill(NaN)\<close>;
  \<open>None\<close> where the body does not assign.
\<close>

definition fill :: "nat \<Rightarrow> nat \<Rightarrow> (nat \<Rightarrow> jsnum) \<Rightarrow> jsnum list" where
  "fill from len f = map (\<lambda>i. if from \<le> i then f i else NaN) [0..<len]"

text \<open>The highest high and lowest low of the candles \<open>a \<dots> b - 1\<close>, as the source's loops find them.\<close>

definition highest :: "candle list \<Rightarrow> nat \<Rightarrow> nat \<Rightarrow> jsnum" where
  "highest cs a b = foldl (\<lambda>hh j. if hh < c_high (cs ! j) then c_high (cs ! j) else hh) NInf [a..<b]"

definition lowest :: "candle list \<Rightarrow> nat \<Rightarrow> nat \<Rightarrow> jsnum" where
  "lowest cs a b = foldl (\<lambda>ll j. if c_low (cs ! j) < ll then c_low (cs ! j) else ll) PInf [a..<b]"

lemma length_scan_loop [simp]: "length (scan_loop f s is) = length is"
  by (induction "is" arbitrary: s) (auto simp: split_beta)

lemma scan_loop_append:
  "\<exists>s'. scan_loop f s (is @ js) = scan_loop f s is @ scan_loop f s' js"
  by (induction "is" arbitrary: s) (auto simp: split_beta)

lemma take_scan_loop: "take n (scan_loop f s is) = scan_loop f s (take n is)"
  by (induction "is" arbitrary: s n) (auto simp: split_beta take_Cons split: nat.splits)

lemma scan_loop_cong:
  assumes "\<And>i s. i \<in> set is \<Longrightarrow> f s i = g s i"
  shows "scan_loop f s is = scan_loop g s is"
  using assms by (induction "is" arbitrary: s) (auto simp: split_beta)

text \<open>Every value a loop pushes satisfies what each step guarantees under the loop's invariant.\<close>

lemma scan_loop_invariant:
  assumes "P s" and "\<And>i s. i \<in> set is \<Longrightarrow> P s \<Longrightarrow> P (fst (f s i)) \<and> Q (snd (f s i))"
    and "x \<in> set (scan_loop f s is)"
  shows "Q x"
  using assms
proof (induction "is" arbitrary: s)
  case (Cons i "is")
  obtain s' b where f: "f s i = (s', b)" by fastforce
  have "P s'" "Q b" using Cons.prems(1,2) f by (metis fst_conv list.set_intros(1) snd_conv)+
  moreover have "x = b \<or> x \<in> set (scan_loop f s' is)" using Cons.prems(3) f by simp
  ultimately show ?case using Cons.IH [of s'] Cons.prems(2) by auto
qed simp

text \<open>The state a loop is in when it reaches the \<open>k\<close>-th index.\<close>

definition scan_state :: "('s \<Rightarrow> nat \<Rightarrow> 's \<times> 'b) \<Rightarrow> 's \<Rightarrow> nat list \<Rightarrow> 's" where
  "scan_state f s is = foldl (\<lambda>s i. fst (f s i)) s is"

lemma scan_state_simps [simp]:
  "scan_state f s [] = s" "scan_state f s (i # is) = scan_state f (fst (f s i)) is"
  "scan_state f s (is @ js) = scan_state f (scan_state f s is) js"
  by (simp_all add: scan_state_def)

lemma nth_scan_loop:
  "k < length is \<Longrightarrow> scan_loop f s is ! k = snd (f (scan_state f s (take k is)) (is ! k))"
  by (induction "is" arbitrary: s k) (auto simp: split_beta nth_Cons split: nat.splits)

lemma scan_state_invariant:
  assumes "P s" and "\<And>i s. i \<in> set is \<Longrightarrow> P s \<Longrightarrow> P (fst (f s i))"
  shows "P (scan_state f s is)"
  unfolding scan_state_def using assms by (rule foldl_invariant_list)

lemma length_fill [simp]: "length (fill from len f) = len"
  by (simp add: fill_def)

lemma nth_fill [simp]: "i < len \<Longrightarrow> fill from len f ! i = (if from \<le> i then f i else NaN)"
  by (simp add: fill_def)

lemma set_fillE:
  assumes "x \<in> set (fill from len f)"
  obtains "x = NaN" | i where "from \<le> i" "i < len" "x = f i"
  using assms by (auto simp: fill_def split: if_splits)

lemma sum_range_cong:
  assumes "\<And>j. a \<le> j \<Longrightarrow> j < b \<Longrightarrow> f j = g j"
  shows "sum_range f a b = sum_range g a b"
  unfolding sum_range_def using assms by (intro foldl_cong) auto

lemma nonneg_sum_range [intro]:
  "(\<And>j. a \<le> j \<Longrightarrow> j < b \<Longrightarrow> nonneg (f j)) \<Longrightarrow> nonneg (sum_range f a b)"
  unfolding sum_range_def by (rule foldl_invariant_list) auto

lemma highest_cong:
  assumes "\<And>j. a \<le> j \<Longrightarrow> j < b \<Longrightarrow> cs ! j = ds ! j"
  shows "highest cs a b = highest ds a b"
  unfolding highest_def using assms by (intro foldl_cong) auto

lemma lowest_cong:
  assumes "\<And>j. a \<le> j \<Longrightarrow> j < b \<Longrightarrow> cs ! j = ds ! j"
  shows "lowest cs a b = lowest ds a b"
  unfolding lowest_def using assms by (intro foldl_cong) auto

lemma num_at_take [simp]: "i < n \<Longrightarrow> num_at (take n xs) i = num_at xs i"
  by (auto simp: num_at_def)

lemma num_at_map [simp]: "i < length xs \<Longrightarrow> num_at (map f xs) i = f (xs ! i)"
  by (simp add: num_at_def)

lemma closes_of_simps [simp]: "length (closes_of cs) = length cs"
  "closes_of (take n cs) = take n (closes_of cs)"
  by (simp_all add: closes_of_def take_map)

section \<open>Operations that never look ahead\<close>

text \<open>
  The contract the charts and the strategies rely on: an operation on a series gives one
  value per element, and the values of a prefix of the series are the prefix of its
  values. A strategy that reads the last values of such a series cannot depend on candles
  that have not closed yet.
\<close>

locale causal_series =
  fixes f :: "'a list \<Rightarrow> 'b list"
  assumes same_length: "length (f xs) = length xs"
    and prefix: "n \<le> length xs \<Longrightarrow> f (take n xs) = take n (f xs)"
begin

lemma no_lookahead: "i < length xs \<Longrightarrow> f (xs @ ys) ! i = f xs ! i"
  using prefix [of "length xs" "xs @ ys"] by (metis append_eq_conv_conj le_add1 length_append nth_take)

lemma append_prefix: "take (length xs) (f (xs @ ys)) = f xs"
  using prefix [of "length xs" "xs @ ys"] by simp

lemma agree:
  assumes "take n xs = take n ys" "i < n" "i < length xs" "i < length ys"
  shows "f xs ! i = f ys ! i"
proof -
  have "f xs ! i = f (take (Suc i) xs) ! i" using assms by (simp add: prefix)
  moreover have "f ys ! i = f (take (Suc i) ys) ! i" using assms by (simp add: prefix)
  moreover have "take (Suc i) xs = take (Suc i) ys"
    using assms(1,2) by (metis Suc_leI min.absorb1 take_take)
  ultimately show ?thesis by simp
qed

lemma Nil: "f [] = []"
  using same_length [of "[]"] by simp

end

lemma causal_compose [causal_intro]:
  assumes "causal_series f" "causal_series g"
  shows "causal_series (\<lambda>xs. g (f xs))"
proof -
  have "length (f xs) = length xs" "n \<le> length xs \<Longrightarrow> f (take n xs) = take n (f xs)" for xs n
    using assms(1) by (auto simp: causal_series_def)
  moreover have "length (g xs) = length xs" "n \<le> length xs \<Longrightarrow> g (take n xs) = take n (g xs)" for xs n
    using assms(2) by (auto simp: causal_series_def)
  ultimately show ?thesis by unfold_locales auto
qed

end
