(* ===== verification/Averages.thy ===== *)
theory Averages
  imports PriceSeries
begin

text \<open>
  The moving averages and the bands and lines derived from them, one definition per
  function of \<open>frontend/src/strategy/indicators\<close>: \<open>sma\<close>, \<open>ema\<close>, \<open>wma\<close>, \<open>dema\<close>, \<open>tema\<close>,
  \<open>hma\<close>, \<open>vwap\<close>, \<open>macd\<close>, \<open>bollingerBands\<close>, \<open>stddev\<close>, \<open>envelope\<close> and \<open>roc\<close>. Periods
  are natural numbers. The lemmas show that they are causal, where their warm-up ends, and
  the order of the bands.
\<close>

section \<open>Definitions\<close>

definition sma :: "jsnum list \<Rightarrow> nat \<Rightarrow> jsnum list" where
  "sma data period = map (\<lambda>i.
     if Suc i < period then NaN
     else sum_range (num_at data) (Suc i - period) (Suc i) / num_of_nat period)
     [0..<length data]"

text \<open>One iteration of the loop of \<open>ema\<close>; the state is \<open>prev\<close>.\<close>

definition ema_step :: "jsnum list \<Rightarrow> nat \<Rightarrow> jsnum \<Rightarrow> nat \<Rightarrow> jsnum \<times> jsnum" where
  "ema_step data period prev i =
     (let k = Fin 2 / num_of_nat (period + 1) in
      if Suc i < period then (prev, NaN)
      else if Suc i = period then
        (let seed = sum_range (num_at data) 0 period / num_of_nat period in (seed, seed))
      else (let v = num_at data i * k + prev * (Fin 1 - k) in (v, v)))"

definition ema :: "jsnum list \<Rightarrow> nat \<Rightarrow> jsnum list" where
  "ema data period = scan_loop (ema_step data period) NaN [0..<length data]"

definition wma :: "jsnum list \<Rightarrow> nat \<Rightarrow> jsnum list" where
  "wma data period =
     (let denom = (num_of_nat period * num_of_nat (period + 1)) / Fin 2 in
      fill (period - 1) (length data) (\<lambda>i.
        sum_range (\<lambda>j. num_at data (Suc i - period + j) * num_of_nat (j + 1)) 0 period / denom))"

text \<open>The indices kept by \<open>map((v, i) => ({v, i})).filter(x => !isNaN(x.v))\<close>.\<close>

definition valid_idx :: "jsnum list \<Rightarrow> nat list" where
  "valid_idx xs = filter (\<lambda>i. \<not> is_nan (xs ! i)) [0..<length xs]"

definition clean :: "jsnum list \<Rightarrow> jsnum list" where
  "clean xs = filter (\<lambda>v. \<not> is_nan v) xs"

definition dema :: "jsnum list \<Rightarrow> nat \<Rightarrow> jsnum list" where
  "dema data period =
     (let e1 = ema data period;
          e2 = ema (clean e1) period;
          e1_valid = valid_idx e1;
          e2_offset = length e1_valid - length e2
      in fold (\<lambda>j result.
           let orig_idx = e1_valid ! (j + e2_offset)
           in result[orig_idx := Fin 2 * num_at e1 orig_idx - num_at e2 j])
         [0..<length e2] (replicate (length data) NaN))"

definition tema :: "jsnum list \<Rightarrow> nat \<Rightarrow> jsnum list" where
  "tema data period =
     (let e1 = ema data period;
          e2 = ema (clean e1) period;
          e3 = ema (clean e2) period;
          e1_valid = valid_idx e1;
          e2_valid = map (\<lambda>i. e1_valid ! (i + (length e1_valid - length e2)))
            (filter (\<lambda>i. i + (length e1_valid - length e2) < length e1_valid) (valid_idx e2));
          e3_offset = length e2_valid - length e3
      in fold (\<lambda>j result.
           case nth_opt e2_valid (j + e3_offset) of
             None \<Rightarrow> result
           | Some idx \<Rightarrow>
               if \<not> is_nan (num_at e1 idx) \<and> \<not> is_nan (num_at e2 (j + e3_offset))
               then result[idx := Fin 3 * num_at e1 idx - Fin 3 * num_at e2 (j + e3_offset)
                                  + num_at e3 j]
               else result)
         [0..<length e3] (replicate (length data) NaN))"

text \<open>The inner weighted average of \<open>hma\<close>, whose weights fall with age.\<close>

definition hma_wma :: "jsnum list \<Rightarrow> nat \<Rightarrow> jsnum list" where
  "hma_wma arr p = map (\<lambda>i.
     if Suc i < p then NaN
     else sum_range (\<lambda>j. num_at arr (i - j) * num_of_nat (p - j)) 0 p
          / sum_range (\<lambda>j. num_of_nat (p - j)) 0 p)
     [0..<length arr]"

text \<open>An integral number used as a period.\<close>

definition period_of :: "jsnum \<Rightarrow> nat" where
  "period_of x = (case x of Fin r \<Rightarrow> nat \<lfloor>r\<rfloor> | _ \<Rightarrow> 0)"

definition hma :: "jsnum list \<Rightarrow> nat \<Rightarrow> jsnum list" where
  "hma data period =
     (let half_period = period div 2;
          sqrt_period = period_of (math_round (math_sqrt (num_of_nat period)));
          wma_half = hma_wma data half_period;
          wma_full = hma_wma data period;
          diff = map (\<lambda>i. let v = num_at wma_half i in
                   if is_nan v \<or> is_nan (num_at wma_full i) then NaN
                   else Fin 2 * v - num_at wma_full i) [0..<length wma_half];
          valid_diff = clean diff;
          hma_valid = hma_wma valid_diff sqrt_period;
          nan_count = length diff - length valid_diff
      in replicate nan_count NaN @ hma_valid)"

definition vwap_step :: "candle list \<Rightarrow> jsnum \<times> jsnum \<Rightarrow> nat \<Rightarrow> (jsnum \<times> jsnum) \<times> jsnum" where
  "vwap_step cs s i =
     (let (cum_vol, cum_tp) = s;
          c = cs ! i;
          vol = (case c_volume c of None \<Rightarrow> Fin 1 | Some v \<Rightarrow> v);
          tp = (c_high c + c_low c + c_close c) / Fin 3;
          cum_vol' = cum_vol + vol;
          cum_tp' = cum_tp + tp * vol
      in ((cum_vol', cum_tp'), if num_eq cum_vol' (Fin 0) then tp else cum_tp' / cum_vol'))"

definition vwap :: "candle list \<Rightarrow> jsnum list" where
  "vwap cs = scan_loop (vwap_step cs) (Fin 0, Fin 0) [0..<length cs]"

record macd_lines =
  macd_line :: "jsnum list"
  macd_signal :: "jsnum list"
  macd_histogram :: "jsnum list"

text \<open>\<open>a.map((x, i) => isNaN(x) || isNaN(b[i]) ? NaN : x - b[i])\<close>.\<close>

definition diff_lines :: "jsnum list \<Rightarrow> jsnum list \<Rightarrow> jsnum list" where
  "diff_lines a b = map (\<lambda>i.
     if is_nan (num_at a i) \<or> is_nan (num_at b i) then NaN else num_at a i - num_at b i)
     [0..<length a]"

definition macd :: "jsnum list \<Rightarrow> nat \<Rightarrow> nat \<Rightarrow> nat \<Rightarrow> macd_lines" where
  "macd closes fast slow signal =
     (let line = diff_lines (ema closes fast) (ema closes slow);
          valid_macd = clean line;
          signal_line = ema valid_macd signal;
          nan_count = length line - length valid_macd;
          full_signal = replicate nan_count NaN @ signal_line
      in \<lparr> macd_line = line, macd_signal = full_signal,
           macd_histogram = diff_lines line full_signal \<rparr>)"

record bands =
  b_upper :: "jsnum list"
  b_middle :: "jsnum list"
  b_lower :: "jsnum list"

text \<open>The standard deviation of the window that ends at \<open>i\<close> about a given mean.\<close>

definition window_dev :: "jsnum list \<Rightarrow> nat \<Rightarrow> jsnum \<Rightarrow> nat \<Rightarrow> jsnum" where
  "window_dev data period mean i =
     math_sqrt (sum_range (\<lambda>j. let diff = num_at data j - mean in diff * diff)
       (Suc i - period) (Suc i) / num_of_nat period)"

definition bollinger_bands :: "jsnum list \<Rightarrow> nat \<Rightarrow> jsnum \<Rightarrow> bands" where
  "bollinger_bands closes period deviation =
     (let middle = sma closes period;
          band = (\<lambda>op. map (\<lambda>i.
            if is_nan (num_at middle i) then NaN
            else op (num_at middle i) (deviation * window_dev closes period (num_at middle i) i))
            [0..<length closes])
      in \<lparr> b_upper = band (+), b_middle = middle, b_lower = band (-) \<rparr>)"

definition stddev :: "jsnum list \<Rightarrow> nat \<Rightarrow> jsnum list" where
  "stddev data period =
     (let avg = sma data period in
      fill (period - 1) (length data) (\<lambda>i. window_dev data period (num_at avg i) i))"

definition envelope :: "jsnum list \<Rightarrow> nat \<Rightarrow> jsnum \<Rightarrow> bands" where
  "envelope data period percent =
     (let mid = sma data period; mult = percent / Fin 100 in
      \<lparr> b_upper = map (\<lambda>m. if is_nan m then NaN else m * (Fin 1 + mult)) mid,
        b_middle = mid,
        b_lower = map (\<lambda>m. if is_nan m then NaN else m * (Fin 1 - mult)) mid \<rparr>)"

definition roc :: "jsnum list \<Rightarrow> nat \<Rightarrow> jsnum list" where
  "roc data period = fill period (length data) (\<lambda>i.
     let base = num_at data (i - period) in
     if \<not> num_eq base (Fin 0) then ((num_at data i - base) / base) * Fin 100 else NaN)"


section \<open>Causality\<close>

interpretation sma_series: causal_series "\<lambda>xs. sma xs period" for period
  by unfold_locales (auto simp: sma_def take_map intro!: arg_cong2 [where f = "(/)"] sum_range_cong)

lemma ema_step_take: "i < n \<Longrightarrow> period \<le> n \<or> Suc i < period \<Longrightarrow>
    ema_step (take n xs) period s i = ema_step xs period s i"
proof -
  assume "i < n" "period \<le> n \<or> Suc i < period"
  then have "sum_range (num_at (take n xs)) 0 period = sum_range (num_at xs) 0 period" if "period \<le> n"
    using that by (intro sum_range_cong) auto
  with \<open>i < n\<close> \<open>period \<le> n \<or> Suc i < period\<close> show ?thesis by (auto simp: ema_step_def Let_def)
qed

interpretation ema_series: causal_series "\<lambda>xs. ema xs period" for period
proof unfold_locales
  fix n and xs :: "jsnum list"
  assume n: "n \<le> length xs"
  have "ema_step (take n xs) period s i = ema_step xs period s i" if "i < n" for s i
    using that by (intro ema_step_take) auto
  then show "ema (take n xs) period = take n (ema xs period)"
    using n by (auto simp: ema_def take_scan_loop min_def intro!: scan_loop_cong)
qed (simp add: ema_def)

interpretation vwap_series: causal_series vwap
proof unfold_locales
  fix n and cs :: "candle list"
  assume n: "n \<le> length cs"
  have "vwap_step (take n cs) s i = vwap_step cs s i" if "i < n" for s i
    using that by (simp add: vwap_step_def)
  then show "vwap (take n cs) = take n (vwap cs)"
    using n by (auto simp: vwap_def take_scan_loop min_def intro!: scan_loop_cong)
qed (simp add: vwap_def)

lemma take_fill: "n \<le> len \<Longrightarrow> take n (fill from len f) = fill from n f"
  by (simp add: fill_def take_map)

lemma fill_cong: "(\<And>i. from \<le> i \<Longrightarrow> i < len \<Longrightarrow> f i = g i) \<Longrightarrow> fill from len f = fill from len g"
  by (auto simp: fill_def)

lemma causal_fill [causal_intro]:
  assumes "\<And>n i xs. n \<le> length xs \<Longrightarrow> from \<le> i \<Longrightarrow> i < n \<Longrightarrow> f (take n xs) i = f xs i"
  shows "causal_series (\<lambda>xs. fill from (length xs) (f xs))"
  by unfold_locales (auto simp: take_fill assms intro!: fill_cong)

interpretation wma_series: causal_series "\<lambda>xs. wma xs period" for period
  unfolding wma_def Let_def
  by (intro causal_fill arg_cong2 [where f = "(/)"] sum_range_cong) auto

interpretation roc_series: causal_series "\<lambda>xs. roc xs period" for period
  unfolding roc_def Let_def by (intro causal_fill) auto

lemma window_dev_take:
  "i < n \<Longrightarrow> window_dev (take n xs) period m i = window_dev xs period m i"
  unfolding window_dev_def Let_def
  by (intro arg_cong [where f = math_sqrt] arg_cong2 [where f = "(/)"] sum_range_cong) auto

interpretation stddev_series: causal_series "\<lambda>xs. stddev xs period" for period
  unfolding stddev_def Let_def
  by (intro causal_fill) (auto simp: window_dev_take sma_series.prefix)

interpretation boll_upper: causal_series "\<lambda>xs. b_upper (bollinger_bands xs period dev)" for period dev
  by unfold_locales
    (auto simp: bollinger_bands_def Let_def take_map sma_series.prefix window_dev_take)

interpretation boll_lower: causal_series "\<lambda>xs. b_lower (bollinger_bands xs period dev)" for period dev
  by unfold_locales
    (auto simp: bollinger_bands_def Let_def take_map sma_series.prefix window_dev_take)

section \<open>Warm-up and alignment\<close>

lemma sma_warmup: "i < length data \<Longrightarrow> Suc i < period \<Longrightarrow> sma data period ! i = NaN"
  by (simp add: sma_def)

lemma clean_length: "length (clean xs) \<le> length xs"
  by (simp add: clean_def)

lemma length_valid_idx: "length (valid_idx xs) = length (clean xs)"
proof -
  have "clean xs = map (\<lambda>i. xs ! i) (valid_idx xs)"
    unfolding clean_def valid_idx_def
    by (subst map_nth [symmetric], subst filter_map) (simp add: o_def)
  then show ?thesis by simp
qed

lemma valid_idx_less: "j < length (clean xs) \<Longrightarrow> valid_idx xs ! j < length xs"
  using nth_mem [of j "valid_idx xs"] unfolding length_valid_idx
  by (auto simp: valid_idx_def)

lemma length_diff_lines [simp]: "length (diff_lines a b) = length a"
  by (simp add: diff_lines_def)

lemma macd_lengths [simp]:
  "length (macd_line (macd closes fast slow signal)) = length closes"
  "length (macd_signal (macd closes fast slow signal)) = length closes"
  "length (macd_histogram (macd closes fast slow signal)) = length closes"
  using clean_length [of "diff_lines (ema closes fast) (ema closes slow)"]
  by (simp_all add: macd_def Let_def ema_series.same_length)

lemma length_hma_wma [simp]: "length (hma_wma arr p) = length arr"
  by (simp add: hma_wma_def)

lemma hma_length [simp]: "length (hma data period) = length data"
  by (simp add: hma_def Let_def)
    (metis (no_types, lifting) clean_length diff_zero le_add_diff_inverse2 length_hma_wma length_map length_upt)

lemma length_fold_update:
  "(\<And>j r. length (f j r) = length r) \<Longrightarrow> length (fold f js r) = length r"
  by (induction js arbitrary: r) auto

lemma dema_length [simp]: "length (dema data period) = length data"
  by (simp add: dema_def Let_def length_fold_update)

lemma tema_length [simp]: "length (tema data period) = length data"
  by (subst tema_def, unfold Let_def) (subst length_fold_update, auto split: option.splits)

section \<open>Bounds\<close>

text \<open>
  A sum of \<open>n\<close> numbers between two integers stays between \<open>n\<close> times those integers, so
  their mean stays between them: the multiples are doubles, and rounding is monotone.
\<close>

definition between :: "int \<Rightarrow> int \<Rightarrow> jsnum \<Rightarrow> bool" where
  "between a b x \<longleftrightarrow> Fin (of_int a) \<le> x \<and> x \<le> Fin (of_int b)"

lemma betweenE [elim]:
  assumes "between a b x"
  obtains r where "x = Fin r" "of_int a \<le> r" "r \<le> of_int b"
  using assms by (cases x) (auto simp: between_def)

lemma between_Fin [simp]: "between a b (Fin r) \<longleftrightarrow> of_int a \<le> r \<and> r \<le> of_int b"
  by (simp add: between_def)

lemma between_rnd:
  assumes "of_int a \<le> x" "x \<le> of_int b" "\<bar>a\<bar> \<le> 2 ^ 53" "\<bar>b\<bar> \<le> 2 ^ 53"
  shows "between a b (rnd x)"
  using round_val_int_bounds [OF assms] by auto

lemma between_plus:
  assumes "between a b x" "between c d y" "\<bar>a + c\<bar> \<le> 2 ^ 53" "\<bar>b + d\<bar> \<le> 2 ^ 53"
  shows "between (a + c) (b + d) (x + y)"
  using assms by (auto elim!: betweenE intro!: between_rnd)

lemma abs_mult_bound: "0 \<le> m \<Longrightarrow> m \<le> n \<Longrightarrow> n * \<bar>a\<bar> \<le> c \<Longrightarrow> \<bar>m * a\<bar> \<le> (c :: int)"
  by (metis abs_ge_zero abs_mult abs_of_nonneg mult_right_mono order_trans)

lemma between_sum_range:
  assumes "\<And>j. p \<le> j \<Longrightarrow> j < q \<Longrightarrow> between a b (f j)" "p \<le> q"
    and "int (q - p) * \<bar>a\<bar> \<le> 2 ^ 53" "int (q - p) * \<bar>b\<bar> \<le> 2 ^ 53"
  shows "between (int (q - p) * a) (int (q - p) * b) (sum_range f p q)"
proof -
  have "between (int n * a) (int n * b) (sum_range f p (p + n))" if "p + n \<le> q" for n
    using that
  proof (induction n)
    case 0
    then show ?case by (simp add: sum_range_def)
  next
    case (Suc n)
    have step: "sum_range f p (p + Suc n) = sum_range f p (p + n) + f (p + n)"
      by (simp add: sum_range_def)
    have "\<bar>int (Suc n) * a\<bar> \<le> 2 ^ 53" "\<bar>int (Suc n) * b\<bar> \<le> 2 ^ 53"
      using assms(3,4) Suc.prems by (auto intro!: abs_mult_bound [where n = "int (q - p)"])
    then show ?case unfolding step
      using Suc between_plus [of "int n * a" "int n * b" "sum_range f p (p + n)" a b "f (p + n)"]
        assms(1) [of "p + n"]
      by (simp add: algebra_simps)
  qed
  from this [of "q - p"] assms(2) show ?thesis by simp
qed

lemma num_of_nat_exact: "n \<le> 2 ^ 53 \<Longrightarrow> num_of_nat n = Fin (of_nat n)"
  using rnd_of_int [of "int n"] by (simp add: num_of_nat_def)

lemma between_mean:
  assumes "between (int n * a) (int n * b) s" "0 < n" "n \<le> 2 ^ 53"
    and "int n * \<bar>a\<bar> \<le> 2 ^ 53" "int n * \<bar>b\<bar> \<le> 2 ^ 53"
  shows "between a b (s / num_of_nat n)"
proof -
  from assms(1) obtain r where r: "s = Fin r" "of_int (int n * a) \<le> r" "r \<le> of_int (int n * b)"
    by (rule betweenE)
  have "\<bar>a\<bar> \<le> 2 ^ 53" "\<bar>b\<bar> \<le> 2 ^ 53"
    using assms(2,4,5) abs_mult_bound [of 1 "int n" a] abs_mult_bound [of 1 "int n" b] by auto
  moreover have "of_int a \<le> r / of_nat n" "r / of_nat n \<le> of_int b"
    using r(2,3) assms(2) by (simp_all add: pos_le_divide_eq pos_divide_le_eq mult.commute)
  ultimately show ?thesis
    using assms(2) by (simp add: num_of_nat_exact [OF assms(3)] r(1) between_rnd)
qed

lemma sma_between:
  assumes "i < length data" "0 < period" "period \<le> Suc i"
    and "\<And>j. j \<le> i \<Longrightarrow> Suc i \<le> j + period \<Longrightarrow> between a b (data ! j)"
    and "int period * \<bar>a\<bar> \<le> 2 ^ 53" "int period * \<bar>b\<bar> \<le> 2 ^ 53" "period \<le> 2 ^ 53"
  shows "between a b (sma data period ! i)"
proof -
  have "between (int period * a) (int period * b) (sum_range (num_at data) (Suc i - period) (Suc i))"
    using between_sum_range [of "Suc i - period" "Suc i" a b "num_at data"] assms
    by (auto simp: num_at_def)
  then show ?thesis using assms between_mean [of period a b] by (simp add: sma_def)
qed

lemma window_dev_nonneg: "nonneg (window_dev data period m i)"
  by (simp add: window_dev_def nonneg_sqrt)

text \<open>The three Bollinger lines never cross.\<close>

lemma bollinger_ordered:
  fixes closes period deviation
  defines "bb \<equiv> bollinger_bands closes period deviation"
  assumes "i < length closes" "nonneg deviation"
    and "b_lower bb ! i \<noteq> NaN" "b_upper bb ! i \<noteq> NaN"
  shows "b_lower bb ! i \<le> b_middle bb ! i \<and> b_middle bb ! i \<le> b_upper bb ! i"
proof -
  define m where "m = sma closes period ! i"
  define d where "d = deviation * window_dev closes period m i"
  have at: "num_at (sma closes period) i = m"
    using assms(2) by (simp add: num_at_def sma_series.same_length m_def)
  have d: "nonneg d" using assms(3) by (auto simp: d_def intro: window_dev_nonneg)
  have "dbl m" using assms(2) by (simp add: m_def sma_def)
  with d assms show ?thesis
    by (auto simp: bollinger_bands_def Let_def at d_def m_def [symmetric] split: if_splits
        intro: minus_le plus_ge)
qed

end
