(* ===== verification/Oscillators.thy ===== *)
theory Oscillators
  imports Averages
begin

text \<open>
  The oscillators of \<open>frontend/src/strategy/indicators\<close>: \<open>rsi\<close>, \<open>stochastic\<close>,
  \<open>williamsR\<close>, \<open>aroon\<close>, \<open>cci\<close>, \<open>mfi\<close>, \<open>cmf\<close>, \<open>obv\<close> and \<open>adx\<close>, and the ranges their
  values keep, with rounding, overflow and NaN inputs included.
\<close>

section \<open>Definitions\<close>

subsection \<open>Relative strength index\<close>

text \<open>\<open>Math.max(1, Number(period) || 14)\<close>.\<close>

definition rsi_period :: "nat \<Rightarrow> nat" where
  "rsi_period period = max 1 (if period = 0 then 14 else period)"

text \<open>The gain and loss of one bar; a bar next to a non-finite close counts as no move.\<close>

definition rsi_moves :: "jsnum list \<Rightarrow> (jsnum \<times> jsnum) list" where
  "rsi_moves closes = map (\<lambda>i.
     let curr = closes ! i; prev = closes ! (i - 1) in
     if \<not> is_finite curr \<or> \<not> is_finite prev then (Fin 0, Fin 0)
     else let diff = curr - prev in
       (if Fin 0 < diff then diff else Fin 0, if diff < Fin 0 then - diff else Fin 0))
     [1..<length closes]"

definition to_rsi :: "jsnum \<Rightarrow> jsnum \<Rightarrow> jsnum" where
  "to_rsi gain loss =
     (if loss = Fin 0 \<and> gain = Fin 0 then Fin 50
      else if loss = Fin 0 then Fin 100
      else if gain = Fin 0 then Fin 0
      else let rs = gain / loss in Fin 100 - (Fin 100 / (Fin 1 + rs)))"

definition rsi_step :: "jsnum list \<Rightarrow> jsnum list \<Rightarrow> nat \<Rightarrow> jsnum \<times> jsnum \<Rightarrow> nat
    \<Rightarrow> (jsnum \<times> jsnum) \<times> jsnum" where
  "rsi_step gains losses safe s i =
     (let (avg_gain, avg_loss) = s;
          g = (avg_gain * num_of_nat (safe - 1) + num_or (num_at gains i) (Fin 0)) / num_of_nat safe;
          l = (avg_loss * num_of_nat (safe - 1) + num_or (num_at losses i) (Fin 0)) / num_of_nat safe
      in ((g, l), to_rsi g l))"

definition rsi :: "jsnum list \<Rightarrow> nat \<Rightarrow> jsnum list" where
  "rsi closes period =
     (let safe = rsi_period period in
      if length closes < safe + 1 then replicate (length closes) NaN
      else
        let gains = map fst (rsi_moves closes);
            losses = map snd (rsi_moves closes);
            avg_gain = sum_range (\<lambda>i. num_or (num_at gains i) (Fin 0)) 0 safe / num_of_nat safe;
            avg_loss = sum_range (\<lambda>i. num_or (num_at losses i) (Fin 0)) 0 safe / num_of_nat safe
        in replicate safe NaN @ [to_rsi avg_gain avg_loss]
           @ scan_loop (rsi_step gains losses safe) (avg_gain, avg_loss) [safe..<length gains])"

subsection \<open>Oscillators over the range of a window\<close>

record stoch_lines =
  stoch_k :: "jsnum list"
  stoch_d :: "jsnum list"

definition raw_k :: "candle list \<Rightarrow> nat \<Rightarrow> nat \<Rightarrow> jsnum" where
  "raw_k cs k_period i =
     (let hh = highest cs (Suc i - k_period) (Suc i); ll = lowest cs (Suc i - k_period) (Suc i) in
      if \<not> num_eq hh ll then ((c_close (cs ! i) - ll) / (hh - ll)) * Fin 100 else Fin 50)"

definition raw_k_line :: "candle list \<Rightarrow> nat \<Rightarrow> jsnum list" where
  "raw_k_line cs k_period =
     map (\<lambda>i. if Suc i < k_period then NaN else raw_k cs k_period i) [0..<length cs]"

definition slowed_k :: "candle list \<Rightarrow> nat \<Rightarrow> nat \<Rightarrow> jsnum list" where
  "slowed_k cs k_period slowing = map (\<lambda>i.
     if i + 2 < k_period + slowing then NaN
     else sum_range (num_at (raw_k_line cs k_period)) (Suc i - slowing) (Suc i) / num_of_nat slowing)
     [0..<length cs]"

definition stochastic :: "candle list \<Rightarrow> nat \<Rightarrow> nat \<Rightarrow> nat \<Rightarrow> stoch_lines" where
  "stochastic cs k_period d_period slowing =
     (let slowed = slowed_k cs k_period slowing;
          d = map (\<lambda>i. if is_nan (slowed ! i) \<or> i + 3 < k_period + slowing + d_period then NaN
            else sum_range (num_at slowed) (Suc i - d_period) (Suc i) / num_of_nat d_period)
            [0..<length cs]
      in \<lparr> stoch_k = slowed, stoch_d = d \<rparr>)"

definition williams_r :: "candle list \<Rightarrow> nat \<Rightarrow> jsnum list" where
  "williams_r cs period = fill (period - 1) (length cs) (\<lambda>i.
     let hh = highest cs (Suc i - period) (Suc i); ll = lowest cs (Suc i - period) (Suc i) in
     if num_eq hh ll then Fin 0 else ((hh - c_close (cs ! i)) / (hh - ll)) * Fin (- 100))"

text \<open>
  \<open>aroon\<close>: the offsets of the first highest high and the first lowest low among the
  \<open>period + 1\<close> candles that end at \<open>i\<close>. The state is \<open>(hh, highIdx, ll, lowIdx)\<close>.
\<close>

definition aroon_step :: "candle list \<Rightarrow> nat \<Rightarrow> nat \<Rightarrow> jsnum \<times> nat \<times> jsnum \<times> nat \<Rightarrow> nat
    \<Rightarrow> jsnum \<times> nat \<times> jsnum \<times> nat" where
  "aroon_step cs period i s j =
     (case s of (hh, high_idx, ll, low_idx) \<Rightarrow>
        let c = cs ! (i - period + j) in
        (if hh < c_high c then c_high c else hh, if hh < c_high c then j else high_idx,
         if c_low c < ll then c_low c else ll, if c_low c < ll then j else low_idx))"

definition aroon_idx :: "candle list \<Rightarrow> nat \<Rightarrow> nat \<Rightarrow> nat \<times> nat" where
  "aroon_idx cs period i =
     (let (_, high_idx, _, low_idx) = foldl (aroon_step cs period i) (NInf, 0, PInf, 0) [0..<Suc period]
      in (high_idx, low_idx))"

record aroon_lines =
  aroon_up :: "jsnum list"
  aroon_down :: "jsnum list"

definition aroon :: "candle list \<Rightarrow> nat \<Rightarrow> aroon_lines" where
  "aroon cs period =
     \<lparr> aroon_up = fill period (length cs) (\<lambda>i.
         (num_of_nat (fst (aroon_idx cs period i)) / num_of_nat period) * Fin 100),
       aroon_down = fill period (length cs) (\<lambda>i.
         (num_of_nat (snd (aroon_idx cs period i)) / num_of_nat period) * Fin 100) \<rparr>"

subsection \<open>Typical price and volume\<close>

definition typical :: "candle \<Rightarrow> jsnum" where
  "typical c = (c_high c + c_low c + c_close c) / Fin 3"

definition cci :: "candle list \<Rightarrow> nat \<Rightarrow> jsnum list" where
  "cci cs period =
     (let tp = map typical cs in
      map (\<lambda>i.
        if Suc i < period then NaN
        else
          let mean = sum_range (num_at tp) (Suc i - period) (Suc i) / num_of_nat period;
              mean_dev = sum_range (\<lambda>j. \<bar>num_at tp j - mean\<bar>) (Suc i - period) (Suc i)
                         / num_of_nat period
          in if \<not> num_eq mean_dev (Fin 0)
             then (num_at tp i - mean) / (lit (15 / 1000) * mean_dev) else Fin 0)
      [0..<length tp])"

text \<open>The positive and negative money flow of the \<open>period\<close> bars that end at \<open>i\<close>.\<close>

definition money_flows :: "candle list \<Rightarrow> nat \<Rightarrow> nat \<Rightarrow> jsnum \<times> jsnum" where
  "money_flows cs period i =
     (let tp = map typical cs;
          mf = map (\<lambda>c. typical c * volume_or_0 c) cs
      in foldl (\<lambda>(pos, neg) j.
           if num_at tp (j - 1) < num_at tp j then (pos + num_at mf j, neg)
           else (pos, neg + num_at mf j)) (Fin 0, Fin 0) [Suc i - period..<Suc i])"

definition mfi :: "candle list \<Rightarrow> nat \<Rightarrow> jsnum list" where
  "mfi cs period =
     (if length cs < period + 1 then replicate (length cs) NaN
      else fill period (length cs) (\<lambda>i.
        let (pos_flow, neg_flow) = money_flows cs period i;
            ratio = (if num_eq neg_flow (Fin 0) then Fin 100 else pos_flow / neg_flow)
        in Fin 100 - Fin 100 / (Fin 1 + ratio)))"

definition cmf_step :: "candle list \<Rightarrow> jsnum \<times> jsnum \<Rightarrow> nat \<Rightarrow> jsnum \<times> jsnum" where
  "cmf_step cs s j =
     (let (mfv_sum, vol_sum) = s;
          c = cs ! j; hl = c_high c - c_low c;
          clv = (if num_eq hl (Fin 0) then Fin 0
                 else ((c_close c - c_low c) - (c_high c - c_close c)) / hl);
          vol = volume_or_0 c
      in (mfv_sum + clv * vol, vol_sum + vol))"

definition cmf :: "candle list \<Rightarrow> nat \<Rightarrow> jsnum list" where
  "cmf cs period = fill (period - 1) (length cs) (\<lambda>i.
     let (mfv_sum, vol_sum) = foldl (cmf_step cs) (Fin 0, Fin 0) [Suc i - period..<Suc i]
     in if num_eq vol_sum (Fin 0) then Fin 0 else mfv_sum / vol_sum)"

definition obv_step :: "candle list \<Rightarrow> jsnum \<Rightarrow> nat \<Rightarrow> jsnum \<times> jsnum" where
  "obv_step cs acc i =
     (let vol = volume_or_0 (cs ! i);
          v = (if i = 0 then vol
               else if c_close (cs ! (i - 1)) < c_close (cs ! i) then acc + vol
               else if c_close (cs ! i) < c_close (cs ! (i - 1)) then acc - vol
               else acc)
      in (v, v))"

definition obv :: "candle list \<Rightarrow> jsnum list" where
  "obv cs = scan_loop (obv_step cs) NaN [0..<length cs]"

subsection \<open>Average directional index\<close>

definition true_range :: "candle list \<Rightarrow> nat \<Rightarrow> jsnum" where
  "true_range cs i =
     (let h = c_high (cs ! i); l = c_low (cs ! i); pc = c_close (cs ! (i - 1)) in
      math_max (math_max (h - l) \<bar>h - pc\<bar>) \<bar>l - pc\<bar>)"

definition plus_dm :: "candle list \<Rightarrow> nat \<Rightarrow> jsnum" where
  "plus_dm cs i =
     (let up = c_high (cs ! i) - c_high (cs ! (i - 1)); down = c_low (cs ! (i - 1)) - c_low (cs ! i) in
      if down < up \<and> Fin 0 < up then up else Fin 0)"

definition minus_dm :: "candle list \<Rightarrow> nat \<Rightarrow> jsnum" where
  "minus_dm cs i =
     (let up = c_high (cs ! i) - c_high (cs ! (i - 1)); down = c_low (cs ! (i - 1)) - c_low (cs ! i) in
      if up < down \<and> Fin 0 < down then down else Fin 0)"

text \<open>Wilder's smoothing: a running sum from which one part in \<open>period\<close> leaves at each bar.\<close>

definition adx_smooth_step :: "nat \<Rightarrow> jsnum list \<Rightarrow> jsnum \<Rightarrow> nat \<Rightarrow> jsnum \<times> jsnum" where
  "adx_smooth_step period arr prev i =
     (let v = prev - prev / num_of_nat period + num_at arr i in (v, v))"

definition adx_smooth :: "nat \<Rightarrow> jsnum list \<Rightarrow> jsnum list" where
  "adx_smooth period arr =
     (let seed = sum_range (num_at arr) 0 period in
      seed # scan_loop (adx_smooth_step period arr) seed [period..<length arr])"

definition dir_index :: "jsnum \<Rightarrow> jsnum \<Rightarrow> jsnum" where
  "dir_index dm tr = (if \<not> num_eq tr (Fin 0) then (dm / tr) * Fin 100 else Fin 0)"

definition dx_of :: "jsnum \<Rightarrow> jsnum \<Rightarrow> jsnum" where
  "dx_of pdi mdi =
     (let di_sum = pdi + mdi in
      if \<not> num_eq di_sum (Fin 0) then (\<bar>pdi - mdi\<bar> / di_sum) * Fin 100 else Fin 0)"

record adx_lines =
  adx_line :: "jsnum list"
  plus_di :: "jsnum list"
  minus_di :: "jsnum list"

text \<open>
  The last loop of \<open>adx\<close>: the mean of the first \<open>period\<close> values of DX at index
  \<open>2 * period - 1\<close>, then one smoothed value per bar.
\<close>

definition adx_step :: "nat \<Rightarrow> jsnum list \<Rightarrow> jsnum \<Rightarrow> nat \<Rightarrow> jsnum \<times> jsnum" where
  "adx_step period dx val i =
     (let v = (val * num_of_int (int period - 1) + num_at dx i) / num_of_nat period in (v, v))"

definition adx_values :: "nat \<Rightarrow> jsnum list \<Rightarrow> jsnum list" where
  "adx_values period dx =
     (let seed = sum_range (num_at dx) 0 period / num_of_nat period in
      seed # scan_loop (adx_step period dx) seed [period..<length dx])"

definition adx :: "candle list \<Rightarrow> nat \<Rightarrow> adx_lines" where
  "adx cs period =
     (let len = length cs in
      if len < period + 1 then
        \<lparr> adx_line = replicate len NaN, plus_di = replicate len NaN, minus_di = replicate len NaN \<rparr>
      else
        let s_tr = adx_smooth period (map (true_range cs) [1..<len]);
            s_plus = adx_smooth period (map (plus_dm cs) [1..<len]);
            s_minus = adx_smooth period (map (minus_dm cs) [1..<len]);
            pdi = map (\<lambda>i. dir_index (s_plus ! i) (s_tr ! i)) [0..<length s_tr];
            mdi = map (\<lambda>i. dir_index (s_minus ! i) (s_tr ! i)) [0..<length s_tr];
            dx = map (\<lambda>i. dx_of (pdi ! i) (mdi ! i)) [0..<length s_tr]
        in \<lparr> adx_line = (if period \<le> length dx
               then replicate (2 * period - 1) NaN @ adx_values period dx
               else replicate len NaN),
             plus_di = replicate period NaN @ pdi,
             minus_di = replicate period NaN @ mdi \<rparr>)"

end
