(* ===== verification/OscillatorFacts.thy ===== *)
theory OscillatorFacts
  imports Oscillators
begin

text \<open>
  What the oscillators promise, rounding, overflow and NaN inputs included: the range of
  every percentage oscillator (\<open>ranged\<close>), and that each of them is causal.
\<close>

section \<open>Values in a range\<close>

text \<open>NaN, the value of a bar without enough history, or a number between two integers.\<close>

definition ranged :: "int \<Rightarrow> int \<Rightarrow> jsnum \<Rightarrow> bool" where
  "ranged a b x \<longleftrightarrow> x = NaN \<or> between a b x"

lemma ranged_NaN [simp]: "ranged a b NaN"
  by (simp add: ranged_def)

lemma ranged_Fin [simp]: "ranged a b (Fin r) \<longleftrightarrow> of_int a \<le> r \<and> r \<le> of_int b"
  by (simp add: ranged_def)

lemma ranged_nonneg: "ranged 0 b x \<Longrightarrow> nonneg x"
  by (auto simp: ranged_def)

lemma between_ranged: "between a b x \<Longrightarrow> ranged a b x"
  by (simp add: ranged_def)

lemma ranged_rnd:
  "of_int a \<le> x \<Longrightarrow> x \<le> of_int b \<Longrightarrow> \<bar>a\<bar> \<le> 2 ^ 53 \<Longrightarrow> \<bar>b\<bar> \<le> 2 ^ 53 \<Longrightarrow> ranged a b (rnd x)"
  by (simp add: between_ranged between_rnd)

text \<open>A part of a whole, as a fraction and in percent.\<close>

lemma ranged_fraction:
  assumes "Fin 0 \<le> x" "x \<le> y"
  shows "ranged 0 1 (x / y)"
proof (cases x; cases y)
  fix p q assume eq: "x = Fin p" "y = Fin q"
  show ?thesis
  proof (cases "q = 0")
    case False
    with assms eq have "0 \<le> p / q" "p / q \<le> 1" by (auto simp: divide_le_eq)
    with eq False show ?thesis by (auto intro: ranged_rnd)
  qed (use assms eq in auto)
qed (use assms in \<open>auto simp: ranged_def between_def\<close>)

lemma ranged_times_int:
  assumes "ranged a b x" "0 \<le> m" "\<bar>a * m\<bar> \<le> 2 ^ 53" "\<bar>b * m\<bar> \<le> 2 ^ 53"
  shows "ranged (a * m) (b * m) (x * Fin (of_int m))"
proof (cases "x = NaN")
  case False
  with assms(1) obtain r where r: "x = Fin r" "of_int a \<le> r" "r \<le> of_int b"
    by (auto simp: ranged_def)
  then have "of_int (a * m) \<le> r * of_int m" "r * of_int m \<le> of_int (b * m)"
    using assms(2) by (simp_all add: mult_right_mono)
  then show ?thesis unfolding r(1) times_jsnum.simps
    using assms(3,4) by (intro ranged_rnd)
qed simp

lemma ranged_uminus: "ranged a b x \<Longrightarrow> ranged (- b) (- a) (- x)"
  by (auto simp: ranged_def)

lemma times_uminus: "x * Fin (- r) = - (x * Fin r)"
  by (cases x) (auto simp: signed_inf_def rnd_minus)

lemma ranged_percent: "Fin 0 \<le> x \<Longrightarrow> x \<le> y \<Longrightarrow> ranged 0 100 ((x / y) * Fin 100)"
  using ranged_times_int [OF ranged_fraction, of x y 100] by simp

text \<open>The scale from a ratio of gains and losses to an index: \<open>100 - 100 / (1 + r)\<close>.\<close>

lemma ranged_index: "nonneg rs \<Longrightarrow> ranged 0 100 (Fin 100 - (Fin 100 / (Fin 1 + rs)))"
proof (cases rs)
  case (Fin r)
  assume "nonneg rs"
  with Fin have r: "0 \<le> r" by simp
  then have "Fin 1 \<le> rnd (1 + r)" by (intro rnd_ge_double) auto
  then show ?thesis
  proof (cases "rnd (1 + r)")
    case (Fin s)
    with \<open>Fin 1 \<le> rnd (1 + r)\<close> have "1 \<le> s" by simp
    then have "between 0 100 (rnd (100 / s))" by (intro between_rnd) (auto simp: divide_le_eq)
    then obtain t where "rnd (100 / s) = Fin t" "0 \<le> t" "t \<le> 100" by auto
    with \<open>rs = Fin r\<close> Fin \<open>1 \<le> s\<close> show ?thesis by (auto intro: ranged_rnd)
  qed (use Fin in \<open>auto intro: ranged_rnd\<close>)
qed (auto intro: ranged_rnd)

lemma sum_range_NaN: "p \<le> j \<Longrightarrow> j < q \<Longrightarrow> f j = NaN \<Longrightarrow> sum_range f p q = NaN"
proof (induction q)
  case (Suc q)
  then show ?case by (cases "j = q") (auto simp: sum_range_def)
qed simp

text \<open>A simple mean stays in the range of what it averages.\<close>

lemma ranged_mean:
  assumes "\<And>j. p \<le> j \<Longrightarrow> j < q \<Longrightarrow> ranged a b (f j)" "p < q" "n = q - p"
    and "int n * \<bar>a\<bar> \<le> 2 ^ 53" "int n * \<bar>b\<bar> \<le> 2 ^ 53" "n \<le> 2 ^ 53"
  shows "ranged a b (sum_range f p q / num_of_nat n)"
proof (cases "\<exists>j. p \<le> j \<and> j < q \<and> f j = NaN")
  case True
  then show ?thesis using sum_range_NaN by auto
next
  case False
  then have "between a b (f j)" if "p \<le> j" "j < q" for j
    using assms(1) that by (auto simp: ranged_def)
  then have "between (int n * a) (int n * b) (sum_range f p q)"
    using between_sum_range [of p q a b f] assms unfolding assms(3) by simp
  then show ?thesis using assms(2-6)
    by (intro between_ranged between_mean) (simp_all only: assms(3) zero_less_diff)
qed

section \<open>Relative strength index\<close>

lemma to_rsi_range: "nonneg g \<Longrightarrow> nonneg l \<Longrightarrow> ranged 0 100 (to_rsi g l)"
  by (auto simp: to_rsi_def Let_def intro!: ranged_index)

lemma length_rsi_moves [simp]: "length (rsi_moves closes) = length closes - 1"
  by (simp add: rsi_moves_def)

lemma rsi_moves_nonneg: "m \<in> set (rsi_moves closes) \<Longrightarrow> nonneg (fst m) \<and> nonneg (snd m)"
proof -
  have up: "nonneg (if Fin 0 < d then d else Fin 0)" for d
    by (cases d) auto
  have down: "nonneg (if d < Fin 0 then - d else Fin 0)" for d
    by (cases d) auto
  assume "m \<in> set (rsi_moves closes)"
  then show ?thesis by (auto simp: rsi_moves_def Let_def up down)
qed

lemma nonneg_num_at: "(\<And>x. x \<in> set xs \<Longrightarrow> nonneg x) \<Longrightarrow> nonneg (num_at xs i)"
  by (auto simp: num_at_def)

lemma rsi_gain_nonneg:
  "nonneg (num_or (num_at (map fst (rsi_moves closes)) i) (Fin 0))"
  "nonneg (num_or (num_at (map snd (rsi_moves closes)) i) (Fin 0))"
  using rsi_moves_nonneg by (auto intro!: nonneg_or nonneg_num_at)

lemma rsi_period_pos: "0 < rsi_period period"
  by (simp add: rsi_period_def)

lemma rsi_range: "x \<in> set (rsi closes period) \<Longrightarrow> ranged 0 100 x"
proof -
  define safe where "safe = rsi_period period"
  define gains where "gains = map fst (rsi_moves closes)"
  define losses where "losses = map snd (rsi_moves closes)"
  define g where "g = sum_range (\<lambda>i. num_or (num_at gains i) (Fin 0)) 0 safe / num_of_nat safe"
  define l where "l = sum_range (\<lambda>i. num_or (num_at losses i) (Fin 0)) 0 safe / num_of_nat safe"
  have gl: "nonneg g" "nonneg l"
    unfolding g_def l_def gains_def losses_def
    by (intro nonneg_divide nonneg_sum_range rsi_gain_nonneg nonneg_num_of_nat)+
  define P :: "jsnum \<times> jsnum \<Rightarrow> bool" where "P = (\<lambda>s. nonneg (fst s) \<and> nonneg (snd s))"
  have "P (g, l)" using gl by (simp add: P_def)
  moreover have "P (fst (rsi_step gains losses safe s i)) \<and> ranged 0 100 (snd (rsi_step gains losses safe s i))"
    if "P s" for s i
    using that unfolding P_def rsi_step_def gains_def losses_def
    by (auto simp: Let_def split_beta intro!: to_rsi_range nonneg_divide nonneg_plus nonneg_times
        rsi_gain_nonneg)
  ultimately have loop: "ranged 0 100 y"
    if "y \<in> set (scan_loop (rsi_step gains losses safe) (g, l) is)" for y "is"
    using that by (rule scan_loop_invariant [where P = P]) auto
  assume "x \<in> set (rsi closes period)"
  then have "x = NaN \<or> x = to_rsi g l \<or>
      x \<in> set (scan_loop (rsi_step gains losses safe) (g, l) [safe..<length gains])"
    by (auto simp: rsi_def Let_def safe_def g_def l_def gains_def losses_def split: if_splits)
  then show ?thesis using loop gl by (auto intro: to_rsi_range)
qed

lemma rsi_moves_take: "n \<le> length closes \<Longrightarrow> rsi_moves (take n closes) = take (n - 1) (rsi_moves closes)"
  by (auto simp: rsi_moves_def take_map Let_def intro!: nth_equalityI)

interpretation rsi_series: causal_series "\<lambda>xs. rsi xs period" for period
proof unfold_locales
  show "length (rsi xs period) = length xs" for xs
    by (auto simp: rsi_def Let_def)
  fix n and xs :: "jsnum list"
  assume n: "n \<le> length xs"
  let ?s = "rsi_period period"
  show "rsi (take n xs) period = take n (rsi xs period)"
  proof (cases "n < ?s + 1")
    case True
    then show ?thesis using n by (auto simp: rsi_def Let_def)
  next
    case False
    have sums: "sum_range (\<lambda>i. num_or (num_at (take (n - Suc 0) ys) i) (Fin 0)) 0 ?s =
        sum_range (\<lambda>i. num_or (num_at ys i) (Fin 0)) 0 ?s" for ys
      using False by (intro sum_range_cong) simp
    have loop: "scan_loop (rsi_step (take (n - Suc 0) g) (take (n - Suc 0) l) ?s) s [?s..<n - Suc 0] =
        scan_loop (rsi_step g l ?s) s [?s..<n - Suc 0]" for g l s
      by (intro scan_loop_cong) (simp add: rsi_step_def)
    obtain k where k: "n = Suc (?s + k)" using False by (metis Suc_eq_plus1 add_Suc_right le_Suc_ex not_less add.commute)
    have "take n (replicate ?s NaN @ [v] @ scan_loop h s [?s..<m]) =
        replicate ?s NaN @ [v] @ scan_loop h s [?s..<n - Suc 0]" if "n - Suc 0 \<le> m" for v :: jsnum and h :: "jsnum \<times> jsnum \<Rightarrow> nat \<Rightarrow> (jsnum \<times> jsnum) \<times> jsnum" and s m
      using that by (simp add: k take_scan_loop)
    then show ?thesis using n False
      by (simp add: rsi_def Let_def rsi_moves_take take_map [symmetric] sums loop min_def)
  qed
qed

section \<open>Positions inside the range of a window\<close>

text \<open>A candle whose close lies between its low and its high; no field is NaN.\<close>

definition ohlc_ok :: "candle \<Rightarrow> bool" where
  "ohlc_ok c \<longleftrightarrow> c_low c \<le> c_close c \<and> c_close c \<le> c_high c"

lemma highest_Suc: "a \<le> b \<Longrightarrow> highest cs a (Suc b) =
    (if highest cs a b < c_high (cs ! b) then c_high (cs ! b) else highest cs a b)"
  by (simp add: highest_def)

lemma lowest_Suc: "a \<le> b \<Longrightarrow> lowest cs a (Suc b) =
    (if c_low (cs ! b) < lowest cs a b then c_low (cs ! b) else lowest cs a b)"
  by (simp add: lowest_def)

lemma highest_not_NaN: "highest cs a b \<noteq> NaN"
  unfolding highest_def by (rule foldl_invariant_list [where P = "\<lambda>x. x \<noteq> NaN"]) auto

lemma lowest_not_NaN: "lowest cs a b \<noteq> NaN"
  unfolding lowest_def by (rule foldl_invariant_list [where P = "\<lambda>x. x \<noteq> NaN"]) auto

lemma highest_ge_last:
  "a \<le> i \<Longrightarrow> c_high (cs ! i) \<noteq> NaN \<Longrightarrow> c_high (cs ! i) \<le> highest cs a (Suc i)"
  using not_less_jsnum [OF highest_not_NaN [of cs a i]] by (auto simp: highest_Suc)

lemma lowest_le_last:
  "a \<le> i \<Longrightarrow> c_low (cs ! i) \<noteq> NaN \<Longrightarrow> lowest cs a (Suc i) \<le> c_low (cs ! i)"
  using not_less_jsnum [OF _ lowest_not_NaN [of cs a i]] by (auto simp: lowest_Suc)

lemma window_contains_close:
  assumes "a \<le> i" "ohlc_ok (cs ! i)"
  shows "lowest cs a (Suc i) \<le> c_close (cs ! i)" "c_close (cs ! i) \<le> highest cs a (Suc i)"
  using assms highest_ge_last [of a i cs] lowest_le_last [of a i cs] le_jsnum_not_NaN le_jsnum_trans
  unfolding ohlc_ok_def by blast+

lemma minus_nonneg: "y \<le> x \<Longrightarrow> x - y = NaN \<or> Fin 0 \<le> x - y"
  by (cases x; cases y) (auto simp: minus_jsnum_def intro: rnd_nonneg)

text \<open>Where the difference of two prices is a number, a smaller part of it is a fraction of it.\<close>

lemma ranged_position:
  assumes "l \<le> c" "c \<le> h"
  shows "ranged 0 1 ((c - l) / (h - l))" "ranged 0 1 ((h - c) / (h - l))"
proof -
  have "c - l = NaN \<or> h - l = NaN \<or> Fin 0 \<le> c - l \<and> c - l \<le> h - l"
    using minus_nonneg [OF assms(1)] minus_mono [OF assms(2), of l l] le_jsnum_not_NaN [OF assms(1)] by auto
  then show "ranged 0 1 ((c - l) / (h - l))" by (auto intro: ranged_fraction)
  have "h - c = NaN \<or> h - l = NaN \<or> Fin 0 \<le> h - c \<and> h - c \<le> h - l"
    using minus_nonneg [OF assms(2)] minus_mono [OF _ assms(1), of h h] le_jsnum_not_NaN [OF assms(2)] by auto
  then show "ranged 0 1 ((h - c) / (h - l))" by (auto intro: ranged_fraction)
qed

lemma raw_k_range:
  assumes "0 < k_period" "ohlc_ok (cs ! i)"
  shows "ranged 0 100 (raw_k cs k_period i)"
proof -
  have "Suc i - k_period \<le> i" using assms(1) by simp
  from window_contains_close [OF this assms(2)] show ?thesis
    using ranged_times_int [OF ranged_position(1), of "lowest cs (Suc i - k_period) (Suc i)"
        "c_close (cs ! i)" "highest cs (Suc i - k_period) (Suc i)" 100]
    by (simp add: raw_k_def Let_def)
qed

lemma ranged_num_at: "(\<And>x. x \<in> set xs \<Longrightarrow> ranged a b x) \<Longrightarrow> ranged a b (num_at xs i)"
  by (simp add: num_at_def)

lemma percent_mean:
  "(\<And>x. x \<in> set ys \<Longrightarrow> ranged 0 100 x) \<Longrightarrow> 0 < n \<Longrightarrow> n \<le> 2 ^ 40 \<Longrightarrow> n \<le> Suc i \<Longrightarrow>
     ranged 0 100 (sum_range (num_at ys) (Suc i - n) (Suc i) / num_of_nat n)"
  by (intro ranged_mean) (auto intro: ranged_num_at)

lemma slowed_k_range:
  assumes "\<And>c. c \<in> set cs \<Longrightarrow> ohlc_ok c" "0 < k_period" "0 < slowing" "slowing \<le> 2 ^ 40"
    and "x \<in> set (slowed_k cs k_period slowing)"
  shows "ranged 0 100 x"
proof -
  have "ranged 0 100 y" if "y \<in> set (raw_k_line cs k_period)" for y
    using that assms(1,2) by (auto simp: raw_k_line_def intro!: raw_k_range)
  then show ?thesis using assms(2-5) by (auto simp: slowed_k_def intro!: percent_mean)
qed

lemma stochastic_range:
  assumes "\<And>c. c \<in> set cs \<Longrightarrow> ohlc_ok c" "0 < k_period"
    and "0 < slowing" "slowing \<le> 2 ^ 40" "0 < d_period" "d_period \<le> 2 ^ 40"
    and "x \<in> set (stoch_k (stochastic cs k_period d_period slowing)) \<union>
             set (stoch_d (stochastic cs k_period d_period slowing))"
  shows "ranged 0 100 x"
  using assms(2-7) slowed_k_range [OF assms(1-4)]
  by (auto simp: stochastic_def Let_def intro!: percent_mean)

lemma williams_r_range:
  assumes "\<And>c. c \<in> set cs \<Longrightarrow> ohlc_ok c" "0 < period" "x \<in> set (williams_r cs period)"
  shows "ranged (- 100) 0 x"
  using assms(3) unfolding williams_r_def
proof (cases rule: set_fillE)
  case (2 i)
  then have "ohlc_ok (cs ! i)" "Suc i - period \<le> i" using assms(1,2) by auto
  from window_contains_close [OF this(2,1)]
    ranged_uminus [OF ranged_times_int [OF ranged_position(2), of "lowest cs (Suc i - period) (Suc i)"
      "c_close (cs ! i)" "highest cs (Suc i - period) (Suc i)" 100]]
  show ?thesis by (simp add: 2 Let_def times_uminus [of _ 100])
qed simp

lemma aroon_idx_le: "fst (aroon_idx cs period i) \<le> period \<and> snd (aroon_idx cs period i) \<le> period"
proof -
  define P where "P = (\<lambda>(hh :: jsnum, a, ll :: jsnum, b). a \<le> period \<and> b \<le> period)"
  have "P (foldl (aroon_step cs period i) (NInf, 0, PInf, 0) [0..<Suc period])"
    by (rule foldl_invariant_list) (auto simp: P_def aroon_step_def Let_def)
  then show ?thesis by (auto simp: aroon_idx_def P_def split_beta)
qed

lemma num_of_nat_mono: "m \<le> n \<Longrightarrow> num_of_nat m \<le> num_of_nat n"
  by (simp add: num_of_nat_def rnd_mono)

lemma aroon_range:
  "x \<in> set (aroon_up (aroon cs period)) \<union> set (aroon_down (aroon cs period)) \<Longrightarrow> ranged 0 100 x"
  using aroon_idx_le [of cs period]
  by (auto simp: aroon_def num_of_nat_def rnd_nonneg elim!: set_fillE
      intro!: ranged_percent rnd_mono)

section \<open>Volume oscillators\<close>

lemma mfi_range:
  assumes "\<And>c. c \<in> set cs \<Longrightarrow> nonneg (typical c) \<and> nonneg (volume_or_0 c)"
    and "x \<in> set (mfi cs period)"
  shows "ranged 0 100 x"
proof (cases "length cs < period + 1")
  case False
  define P :: "jsnum \<times> jsnum \<Rightarrow> bool" where "P = (\<lambda>(p, n). nonneg p \<and> nonneg n)"
  have flows: "P (money_flows cs period i)" for i
  proof -
    have "nonneg (num_at (map (\<lambda>c. typical c * volume_or_0 c) cs) j)" for j
      using assms(1) by (intro nonneg_num_at) (auto intro!: nonneg_times)
    then show ?thesis unfolding money_flows_def Let_def
      by - (rule foldl_invariant_list [where P = P], auto simp: P_def intro!: nonneg_plus split: if_splits)
  qed
  have index: "ranged 0 100 (case money_flows cs period i of (pos_flow, neg_flow) \<Rightarrow>
      Fin 100 - Fin 100 / (Fin 1 + (if num_eq neg_flow (Fin 0) then Fin 100 else pos_flow / neg_flow)))" for i
    using flows [of i] unfolding split_beta by (intro ranged_index) (auto simp: P_def split_beta)
  show ?thesis using assms(2) False index
    by (auto simp: mfi_def Let_def elim!: set_fillE)
qed (use assms(2) in \<open>auto simp: mfi_def\<close>)

lemma uminus_plus: "- (x + y) = - x + (- y :: jsnum)"
  by (cases x; cases y) (auto simp: rnd_minus [symmetric])

lemma plus_0: "dbl x \<Longrightarrow> x + Fin 0 = x" "dbl x \<Longrightarrow> x - Fin 0 = x" "dbl x \<Longrightarrow> Fin 0 + x = x"
  by (cases x; simp add: is_double_rnd minus_jsnum_def)+

lemma dbl_plus_any [simp]: "dbl (x + y)"
  by (cases x; cases y) auto

lemma dbl_minus_any [simp]: "dbl (x - y)"
  by (simp add: minus_jsnum_def)

lemma uminus_uminus [simp]: "- (- x) = (x :: jsnum)"
  by (cases x) auto

text \<open>A number at most as large as another: NaN on either side is allowed.\<close>

definition within_of :: "jsnum \<Rightarrow> jsnum \<Rightarrow> bool" where
  "within_of x y \<longleftrightarrow> x = NaN \<or> y = NaN \<or> - y \<le> x \<and> x \<le> y"

lemma within_of_fraction: "within_of x y \<Longrightarrow> ranged (- 1) 1 (x / y)"
proof (cases x; cases y)
  fix p q assume eq: "x = Fin p" "y = Fin q" and "within_of x y"
  then have b: "- q \<le> p" "p \<le> q" by (auto simp: within_of_def)
  show "ranged (- 1) 1 (x / y)"
  proof (cases "q = 0")
    case False
    with b have "- 1 \<le> p / q" "p / q \<le> 1" by (auto simp: le_divide_eq divide_le_eq)
    with eq False show ?thesis by (auto intro: ranged_rnd)
  qed (use b eq in auto)
qed (auto simp: within_of_def)

lemma within_of_plus:
  assumes "within_of a b" "within_of x y"
  shows "within_of (a + x) (b + y)"
proof (cases "a + x = NaN \<or> b + y = NaN")
  case False
  then have "a \<noteq> NaN" "b \<noteq> NaN" "x \<noteq> NaN" "y \<noteq> NaN" by auto
  with assms have "- b \<le> a" "a \<le> b" "- y \<le> x" "x \<le> y" by (auto simp: within_of_def)
  moreover have "- b + - y \<noteq> NaN" using False by (metis uminus_NaN_iff uminus_plus)
  ultimately show ?thesis using False
    by (auto simp: within_of_def uminus_plus intro!: plus_mono)
qed (auto simp: within_of_def)

lemma within_of_times:
  assumes "ranged (- 1) 1 k" "nonneg v" "dbl v"
  shows "within_of (k * v) v"
proof (cases k; cases v)
  fix r s assume eq: "k = Fin r" "v = Fin s"
  with assms have r: "- 1 \<le> r" "r \<le> 1" and s: "0 \<le> s" "is_double s" by auto
  have "- s \<le> r * s" "r * s \<le> s"
    using mult_right_mono [OF r(1) s(1)] mult_right_mono [OF r(2) s(1)] by simp_all
  then show ?thesis using s eq
    by (auto simp: within_of_def intro!: rnd_le_double rnd_ge_double)
qed (use assms in \<open>auto simp: within_of_def signed_inf_def ranged_def\<close>)

text \<open>The close location value of a candle is between \<open>-1\<close> and \<open>1\<close>.\<close>

lemma clv_range:
  assumes "l \<le> c" "c \<le> h"
  shows "ranged (- 1) 1 (((c - l) - (h - c)) / (h - l))"
proof (rule within_of_fraction)
  show "within_of ((c - l) - (h - c)) (h - l)"
  proof (cases "(c - l) - (h - c) = NaN \<or> h - l = NaN")
    case False
    then have "c - l \<noteq> NaN" "h - c \<noteq> NaN" by auto
    then have "Fin 0 \<le> c - l" "Fin 0 \<le> h - c" using assms minus_nonneg by auto
    moreover have "c - l \<le> h - l" "h - c \<le> h - l"
      using False assms \<open>c - l \<noteq> NaN\<close> \<open>h - c \<noteq> NaN\<close> le_jsnum_not_NaN [OF assms(1)] le_jsnum_not_NaN [OF assms(2)]
      by (auto intro!: minus_mono)
    moreover have "Fin 0 - (h - l) = - (h - l)" "(h - l) - Fin 0 = h - l"
      using plus_0 [of "- (h - l)"] plus_0 [of "h - l"] by (simp_all add: minus_jsnum_def)
    ultimately have "(c - l) - (h - c) \<le> h - l" "- (h - l) \<le> (c - l) - (h - c)"
      using False minus_mono [of "c - l" "h - l" "Fin 0" "h - c"] minus_mono [of "Fin 0" "c - l" "h - c" "h - l"]
      by auto
    then show ?thesis by (simp add: within_of_def)
  qed (auto simp: within_of_def)
qed

lemma cmf_step_within:
  assumes "ohlc_ok (cs ! j)" "nonneg (volume_or_0 (cs ! j))" "dbl (volume_or_0 (cs ! j))"
    and "within_of (fst s) (snd s)"
  shows "within_of (fst (cmf_step cs s j)) (snd (cmf_step cs s j))"
  using assms(1) clv_range [of "c_low (cs ! j)" "c_close (cs ! j)" "c_high (cs ! j)"]
  by (simp add: cmf_step_def Let_def split_beta ohlc_ok_def)
    (intro conjI impI within_of_plus within_of_times assms; simp)

lemma cmf_range:
  assumes "\<And>c. c \<in> set cs \<Longrightarrow> ohlc_ok c \<and> nonneg (volume_or_0 c) \<and> dbl (volume_or_0 c)"
    and "x \<in> set (cmf cs period)"
  shows "ranged (- 1) 1 x"
proof -
  define P :: "jsnum \<times> jsnum \<Rightarrow> bool" where "P = (\<lambda>s. within_of (fst s) (snd s))"
  have sums: "P (foldl (cmf_step cs) (Fin 0, Fin 0) [Suc i - period..<Suc i])" if "i < length cs" for i
  proof (rule foldl_invariant_list [where P = P])
    show "P (cmf_step cs s j)" if "j \<in> set [Suc i - period..<Suc i]" "P s" for j s
    proof -
      have "cs ! j \<in> set cs" using that(1) \<open>i < length cs\<close> by (auto intro: nth_mem)
      then show ?thesis using assms(1) that(2) unfolding P_def by (blast intro: cmf_step_within)
    qed
  qed (simp add: P_def within_of_def)
  show ?thesis using assms(2) unfolding cmf_def
  proof (cases rule: set_fillE)
    case (2 i)
    show ?thesis using sums [OF 2(2)] 2(3)
      by (auto simp: P_def split_beta intro!: within_of_fraction)
  qed simp
qed

section \<open>Average directional index\<close>

lemma nonneg_leak: "nonneg x \<Longrightarrow> dbl x \<Longrightarrow> 0 < n \<Longrightarrow> n \<le> 2 ^ 53 \<Longrightarrow> nonneg (x - x / num_of_nat n)"
proof (cases x)
  case (Fin r)
  assume "nonneg x" "dbl x" "0 < n" "n \<le> 2 ^ 53"
  with Fin have r: "0 \<le> r" "is_double r" and n: "num_of_nat n = Fin (of_nat n)"
    by (auto simp: num_of_nat_exact)
  have "r / of_nat n \<le> r" using r(1) \<open>0 < n\<close> by (simp add: pos_divide_le_eq mult_le_cancel_left1)
  then have "rnd (r / of_nat n) \<le> Fin r" using r(2) by (rule rnd_le_double [rotated])
  moreover have "Fin 0 \<le> rnd (r / of_nat n)" using r(1) by (simp add: rnd_nonneg)
  ultimately show ?thesis using Fin n \<open>0 < n\<close>
    by (cases "rnd (r / of_nat n)") auto
qed (auto simp: num_of_nat_exact minus_jsnum_def signed_inf_def)

lemma dbl_sum_range [simp]: "dbl (sum_range f a b)"
  unfolding sum_range_def by (rule foldl_invariant_list) auto

lemma adx_smooth_nonneg:
  assumes "\<And>x. x \<in> set arr \<Longrightarrow> nonneg x" "0 < period" "period \<le> 2 ^ 53" "y \<in> set (adx_smooth period arr)"
  shows "nonneg y"
proof -
  define seed where "seed = sum_range (num_at arr) 0 period"
  have arr: "nonneg (num_at arr i)" for i using assms(1) by (rule nonneg_num_at)
  then have seed: "nonneg seed" "dbl seed" by (auto simp: seed_def)
  have loop: "nonneg z" if "z \<in> set (scan_loop (adx_smooth_step period arr) seed [period..<length arr])" for z
  proof (rule scan_loop_invariant [where P = "\<lambda>x. nonneg x \<and> dbl x" and Q = nonneg, OF _ _ that])
    fix i s assume "nonneg s \<and> dbl s"
    then have "nonneg (s - s / num_of_nat period + num_at arr i)"
      using arr assms(2,3) by (intro nonneg_plus nonneg_leak) auto
    then show "(nonneg (fst (adx_smooth_step period arr s i)) \<and> dbl (fst (adx_smooth_step period arr s i))) \<and>
        nonneg (snd (adx_smooth_step period arr s i))"
      by (simp add: adx_smooth_step_def Let_def)
  qed (use seed in simp)
  then show ?thesis using assms(4) seed by (auto simp: adx_smooth_def Let_def seed_def)
qed

lemma nonneg_true_range: "nonneg (true_range cs i)"
  unfolding true_range_def Let_def
  by (auto simp: nonneg_def intro: le_jsnum_trans [OF abs_nonneg math_max_ge [THEN conjunct2]])

lemma nonneg_plus_dm: "nonneg (plus_dm cs i)"
  by (auto simp: plus_dm_def Let_def nonneg_def less_jsnum_imp_le)

lemma nonneg_minus_dm: "nonneg (minus_dm cs i)"
  by (auto simp: minus_dm_def Let_def nonneg_def less_jsnum_imp_le)

lemma nonneg_dir_index: "nonneg dm \<Longrightarrow> nonneg tr \<Longrightarrow> nonneg (dir_index dm tr)"
  by (auto simp: dir_index_def intro!: nonneg_times nonneg_divide)

lemma abs_diff_le_sum: "nonneg x \<Longrightarrow> nonneg y \<Longrightarrow> within_of \<bar>x - y\<bar> (x + y)"
proof (cases x; cases y)
  fix p q assume "nonneg x" "nonneg y" and eq: "x = Fin p" "y = Fin q"
  then have "rnd (p - q) \<le> rnd (p + q)" "rnd (q - p) \<le> rnd (p + q)" "Fin 0 \<le> rnd (p + q)"
    by (auto intro: rnd_mono rnd_nonneg)
  moreover have "rnd (q - p) = - rnd (p - q)" by (simp add: rnd_minus [symmetric])
  ultimately show ?thesis using eq
    by (cases "rnd (p - q)"; cases "rnd (p + q)") (auto simp: within_of_def)
qed (auto simp: within_of_def minus_jsnum_def)

lemma dx_of_range: "nonneg p \<Longrightarrow> nonneg m \<Longrightarrow> ranged 0 100 (dx_of p m)"
proof -
  assume nn: "nonneg p" "nonneg m"
  have "ranged 0 1 (\<bar>p - m\<bar> / (p + m))"
  proof (cases "p - m = NaN \<or> p + m = NaN")
    case False
    then show ?thesis using abs_diff_le_sum [OF nn]
      by (auto simp: within_of_def intro!: ranged_fraction abs_nonneg)
  qed auto
  from ranged_times_int [OF this, of 100] show ?thesis by (auto simp: dx_of_def Let_def)
qed

lemma ranged_plus: "ranged a b x \<Longrightarrow> ranged c d y \<Longrightarrow> \<bar>a + c\<bar> \<le> 2 ^ 53 \<Longrightarrow> \<bar>b + d\<bar> \<le> 2 ^ 53 \<Longrightarrow>
    ranged (a + c) (b + d) (x + y)"
  by (auto simp: ranged_def intro: between_plus)

text \<open>Wilder's smoothing of a percentage is a percentage.\<close>

lemma wilder_percent:
  assumes "ranged 0 100 x" "ranged 0 100 y" "0 < n" "n \<le> 2 ^ 40"
  shows "ranged 0 100 ((x * num_of_int (int n - 1) + y) / num_of_nat n)"
proof -
  have "num_of_int (int n - 1) = Fin (of_int (int n - 1))"
    using assms(3,4) by (simp only: num_of_int_def) (rule rnd_of_int, simp)
  then have "ranged 0 (100 * (int n - 1)) (x * num_of_int (int n - 1))"
    using ranged_times_int [OF assms(1), of "int n - 1"] assms(3,4) by simp
  from ranged_plus [OF this assms(2)]
  have "ranged (int n * 0) (int n * 100) (x * num_of_int (int n - 1) + y)"
    using assms(3,4) by (simp add: algebra_simps)
  then show ?thesis using between_mean [of n 0 100] assms(3,4) by (auto simp: ranged_def)
qed

lemma adx_values_range:
  assumes "\<And>x. x \<in> set dx \<Longrightarrow> ranged 0 100 x" "0 < period" "period \<le> 2 ^ 40" "y \<in> set (adx_values period dx)"
  shows "ranged 0 100 y"
proof -
  define seed where "seed = sum_range (num_at dx) 0 period / num_of_nat period"
  have dx: "ranged 0 100 (num_at dx i)" for i using assms(1) by (rule ranged_num_at)
  then have seed: "ranged 0 100 seed"
    unfolding seed_def using assms(2,3) by (intro ranged_mean) auto
  have loop: "ranged 0 100 z" if "z \<in> set (scan_loop (adx_step period dx) seed [period..<length dx])" for z
  proof (rule scan_loop_invariant [where P = "ranged 0 100" and Q = "ranged 0 100", OF _ _ that])
    fix i s assume "ranged 0 100 s"
    then have "ranged 0 100 ((s * num_of_int (int period - 1) + num_at dx i) / num_of_nat period)"
      using dx assms(2,3) by (intro wilder_percent)
    then show "ranged 0 100 (fst (adx_step period dx s i)) \<and> ranged 0 100 (snd (adx_step period dx s i))"
      by (simp add: adx_step_def Let_def)
  qed (rule seed)
  then show ?thesis using assms(4) seed by (auto simp: adx_values_def Let_def seed_def)
qed

lemma length_adx_smooth: "period \<le> length arr \<Longrightarrow> length (adx_smooth period arr) = Suc (length arr - period)"
  by (simp add: adx_smooth_def Let_def)

text \<open>The two directional lines of a chart are never negative and ADX is a percentage.\<close>

lemma adx_ranges:
  assumes "0 < period" "period \<le> 2 ^ 40"
  shows "x \<in> set (plus_di (adx cs period)) \<union> set (minus_di (adx cs period)) \<Longrightarrow> nonneg x"
    and "x \<in> set (adx_line (adx cs period)) \<Longrightarrow> ranged 0 100 x"
proof -
  define len where "len = length cs"
  define s_tr where "s_tr = adx_smooth period (map (true_range cs) [1..<len])"
  define s_plus where "s_plus = adx_smooth period (map (plus_dm cs) [1..<len])"
  define s_minus where "s_minus = adx_smooth period (map (minus_dm cs) [1..<len])"
  define pdi where "pdi = map (\<lambda>i. dir_index (s_plus ! i) (s_tr ! i)) [0..<length s_tr]"
  define mdi where "mdi = map (\<lambda>i. dir_index (s_minus ! i) (s_tr ! i)) [0..<length s_tr]"
  have smooth: "nonneg (adx_smooth period (map f [1..<len]) ! i)"
    if "\<And>i. nonneg (f i)" "i < length (adx_smooth period (map f [1..<len]))" for f i
  proof (rule adx_smooth_nonneg [OF _ assms(1)])
    show "adx_smooth period (map f [1..<len]) ! i \<in> set (adx_smooth period (map f [1..<len]))"
      using that(2) by (rule nth_mem)
  qed (use that(1) assms(2) in auto)
  have lens: "length s_plus = length s_tr" "length s_minus = length s_tr"
    by (simp_all add: s_tr_def s_plus_def s_minus_def adx_smooth_def Let_def)
  have tr: "nonneg (s_tr ! i)" if "i < length s_tr" for i
    using that unfolding s_tr_def by (rule smooth [OF nonneg_true_range])
  have dms: "nonneg (s_plus ! i)" "nonneg (s_minus ! i)" if "i < length s_tr" for i
    using smooth [of "plus_dm cs" i, OF nonneg_plus_dm] smooth [of "minus_dm cs" i, OF nonneg_minus_dm] that
    unfolding s_plus_def [symmetric] s_minus_def [symmetric] by (simp_all only: lens)
  have di: "nonneg (pdi ! i)" "nonneg (mdi ! i)" if "i < length s_tr" for i
    using that tr dms by (simp_all add: pdi_def mdi_def nonneg_dir_index)
  then have dis: "nonneg y" if "y \<in> set pdi \<union> set mdi" for y
    using that by (auto simp: in_set_conv_nth pdi_def mdi_def)
  have dx: "ranged 0 100 y" if "y \<in> set (map (\<lambda>i. dx_of (pdi ! i) (mdi ! i)) [0..<length s_tr])" for y
    using that di by (auto intro: dx_of_range)
  show "nonneg x" if "x \<in> set (plus_di (adx cs period)) \<union> set (minus_di (adx cs period))"
    using that dis unfolding adx_def Let_def len_def [symmetric] s_tr_def [symmetric]
      s_plus_def [symmetric] s_minus_def [symmetric] pdi_def [symmetric] mdi_def [symmetric]
    by (auto split: if_splits)
  have line: "ranged 0 100 y"
    if "y \<in> set (adx_values period (map (\<lambda>i. dx_of (pdi ! i) (mdi ! i)) [0..<length s_tr]))" for y
    using dx assms that by (rule adx_values_range)
  show "ranged 0 100 x" if "x \<in> set (adx_line (adx cs period))"
    using that line unfolding adx_def Let_def len_def [symmetric] s_tr_def [symmetric]
      s_plus_def [symmetric] s_minus_def [symmetric] pdi_def [symmetric] mdi_def [symmetric]
    by (auto split: if_splits simp del: set_map)
qed

section \<open>Causality\<close>

lemma highest_take: "i < n \<Longrightarrow> highest (take n cs) a (Suc i) = highest cs a (Suc i)"
  by (rule highest_cong) simp

lemma lowest_take: "i < n \<Longrightarrow> lowest (take n cs) a (Suc i) = lowest cs a (Suc i)"
  by (rule lowest_cong) simp

interpretation williams_series: causal_series "\<lambda>cs. williams_r cs period" for period
  unfolding williams_r_def by (intro causal_fill) (simp add: highest_take lowest_take Let_def)

lemma aroon_idx_take:
  assumes "period \<le> i" "i < n"
  shows "aroon_idx (take n cs) period i = aroon_idx cs period i"
proof -
  have "foldl (aroon_step (take n cs) period i) s [0..<Suc period] =
      foldl (aroon_step cs period i) s [0..<Suc period]" for s
    using assms by (intro foldl_cong) (auto simp: aroon_step_def)
  then show ?thesis by (simp add: aroon_idx_def)
qed

interpretation aroon_up_series: causal_series "\<lambda>cs. aroon_up (aroon cs period)" for period
  unfolding aroon_def aroon_lines.simps by (intro causal_fill) (simp add: aroon_idx_take)

interpretation aroon_down_series: causal_series "\<lambda>cs. aroon_down (aroon cs period)" for period
  unfolding aroon_def aroon_lines.simps by (intro causal_fill) (simp add: aroon_idx_take)

lemma raw_k_take: "i < n \<Longrightarrow> raw_k (take n cs) k_period i = raw_k cs k_period i"
  by (simp add: raw_k_def highest_take lowest_take Let_def)

lemma raw_k_line_take: "n \<le> length cs \<Longrightarrow> raw_k_line (take n cs) k_period = take n (raw_k_line cs k_period)"
  by (auto simp: raw_k_line_def take_map raw_k_take)

lemma sum_range_take: "i < n \<Longrightarrow> sum_range (num_at (take n xs)) a (Suc i) = sum_range (num_at xs) a (Suc i)"
  by (rule sum_range_cong) simp

lemma slowed_k_take:
  "n \<le> length cs \<Longrightarrow> slowed_k (take n cs) k_period slowing = take n (slowed_k cs k_period slowing)"
  by (auto simp: slowed_k_def raw_k_line_take take_map sum_range_take)

interpretation stoch_k_series: causal_series "\<lambda>cs. stoch_k (stochastic cs k_period d_period slowing)"
  for k_period d_period slowing
  by unfold_locales (auto simp: stochastic_def Let_def slowed_k_take, simp add: slowed_k_def)

lemma length_slowed_k [simp]: "length (slowed_k cs k_period slowing) = length cs"
  by (simp add: slowed_k_def)

interpretation stoch_d_series: causal_series "\<lambda>cs. stoch_d (stochastic cs k_period d_period slowing)"
  for k_period d_period slowing
  by unfold_locales (auto simp: stochastic_def Let_def slowed_k_take take_map sum_range_take)

lemma cmf_fold_take:
  assumes "i < n"
  shows "foldl (cmf_step (take n cs)) s [a..<Suc i] = foldl (cmf_step cs) s [a..<Suc i]"
  using assms by (intro foldl_cong) (auto simp: cmf_step_def)

interpretation cmf_series: causal_series "\<lambda>cs. cmf cs period" for period
  unfolding cmf_def by (intro causal_fill) (simp only: cmf_fold_take)

interpretation obv_series: causal_series obv
proof unfold_locales
  fix n and cs :: "candle list"
  assume n: "n \<le> length cs"
  have "obv_step (take n cs) s i = obv_step cs s i" if "i < n" for s i
    using that by (simp add: obv_step_def Let_def)
  then show "obv (take n cs) = take n (obv cs)"
    using n by (auto simp: obv_def take_scan_loop min_def intro!: scan_loop_cong)
qed (simp add: obv_def)

lemma abs_dev_take:
  "i < n \<Longrightarrow> sum_range (\<lambda>j. \<bar>num_at (take n xs) j - m\<bar>) a (Suc i) =
     sum_range (\<lambda>j. \<bar>num_at xs j - m\<bar>) a (Suc i)"
  by (rule sum_range_cong) simp

interpretation cci_series: causal_series "\<lambda>cs. cci cs period" for period
  by unfold_locales
    (auto simp: cci_def Let_def take_map [symmetric] take_map [where xs = "[0..<_]"] sum_range_take abs_dev_take)

end
