(* ===== verification/Trends.thy ===== *)
theory Trends
  imports OscillatorFacts
begin

text \<open>
  The range and trend indicators of \<open>frontend/src/strategy/indicators\<close>: \<open>atr\<close>,
  \<open>keltnerChannels\<close>, \<open>donchianChannels\<close>, \<open>ichimoku\<close>, \<open>pivotPoints\<close>, \<open>psar\<close> and
  \<open>supertrend\<close>. A direction is \<open>1\<close>, \<open>-1\<close>, or \<open>0\<close> where there is none yet.
\<close>

section \<open>Definitions\<close>

subsection \<open>Average true range and the channels\<close>

definition atr_ranges :: "candle list \<Rightarrow> jsnum list" where
  "atr_ranges cs = (c_high (cs ! 0) - c_low (cs ! 0)) # map (true_range cs) [1..<length cs]"

definition atr_step :: "jsnum list \<Rightarrow> nat \<Rightarrow> jsnum \<Rightarrow> nat \<Rightarrow> jsnum \<times> jsnum" where
  "atr_step trs period prev i =
     (let v = (prev * num_of_int (int period - 1) + num_at trs i) / num_of_nat period in (v, v))"

definition atr :: "candle list \<Rightarrow> nat \<Rightarrow> jsnum list" where
  "atr cs period =
     (if length cs < 2 then replicate (length cs) NaN
      else
        let trs = atr_ranges cs;
            seed = sum_range (num_at trs) 0 period / num_of_nat period
        in replicate (period - 1) NaN @ seed # scan_loop (atr_step trs period) seed [period..<length trs])"

text \<open>One line of the channel: \<open>NaN\<close> where the middle or the range is missing.\<close>

definition keltner_band :: "(jsnum \<Rightarrow> jsnum \<Rightarrow> jsnum) \<Rightarrow> jsnum list \<Rightarrow> jsnum list \<Rightarrow> jsnum \<Rightarrow> jsnum list" where
  "keltner_band op mid atrs mult = map (\<lambda>i.
     if is_nan (num_at mid i) \<or> is_nan (num_at atrs i) then NaN
     else op (num_at mid i) (mult * num_at atrs i)) [0..<length mid]"

definition keltner_channels :: "candle list \<Rightarrow> nat \<Rightarrow> jsnum \<Rightarrow> bands" where
  "keltner_channels cs period mult =
     (let mid = ema (closes_of cs) period; atrs = atr cs period in
      \<lparr> b_upper = keltner_band (+) mid atrs mult, b_middle = mid,
        b_lower = keltner_band (-) mid atrs mult \<rparr>)"

definition donchian_channels :: "candle list \<Rightarrow> nat \<Rightarrow> bands" where
  "donchian_channels cs period =
     (let hi = (\<lambda>i. highest cs (Suc i - period) (Suc i)); lo = (\<lambda>i. lowest cs (Suc i - period) (Suc i));
          line = fill (period - 1) (length cs)
      in \<lparr> b_upper = line hi, b_middle = line (\<lambda>i. (hi i + lo i) / Fin 2), b_lower = line lo \<rparr>)"

subsection \<open>Ichimoku and pivot points\<close>

record ichimoku_lines =
  tenkan :: "jsnum list"
  kijun :: "jsnum list"
  senkou_a :: "jsnum list"
  senkou_b :: "jsnum list"

definition midline :: "candle list \<Rightarrow> nat \<Rightarrow> nat \<Rightarrow> jsnum" where
  "midline cs period i =
     (if Suc i < period then NaN
      else (highest cs (Suc i - period) (Suc i) + lowest cs (Suc i - period) (Suc i)) / Fin 2)"

definition ichimoku :: "candle list \<Rightarrow> nat \<Rightarrow> nat \<Rightarrow> nat \<Rightarrow> ichimoku_lines" where
  "ichimoku cs tenkan_p kijun_p senkou_p =
     (let idx = [0..<length cs] in
      \<lparr> tenkan = map (midline cs tenkan_p) idx,
        kijun = map (midline cs kijun_p) idx,
        senkou_a = map (\<lambda>i.
          let t = midline cs tenkan_p i; k = midline cs kijun_p i in
          if \<not> is_nan t \<and> \<not> is_nan k then (t + k) / Fin 2 else NaN) idx,
        senkou_b = map (midline cs senkou_p) idx \<rparr>)"

record pivot_lines =
  pp :: "jsnum list"
  r1 :: "jsnum list"
  r2 :: "jsnum list"
  r3 :: "jsnum list"
  s1 :: "jsnum list"
  s2 :: "jsnum list"
  s3 :: "jsnum list"

definition pivot_points :: "candle list \<Rightarrow> pivot_lines" where
  "pivot_points cs =
     (let line = (\<lambda>f. fill 1 (length cs) (\<lambda>i. f (cs ! (i - 1)) (typical (cs ! (i - 1))))) in
      \<lparr> pp = line (\<lambda>prev p. p),
        r1 = line (\<lambda>prev p. Fin 2 * p - c_low prev),
        r2 = line (\<lambda>prev p. p + (c_high prev - c_low prev)),
        r3 = line (\<lambda>prev p. c_high prev + Fin 2 * (p - c_low prev)),
        s1 = line (\<lambda>prev p. Fin 2 * p - c_high prev),
        s2 = line (\<lambda>prev p. p - (c_high prev - c_low prev)),
        s3 = line (\<lambda>prev p. c_low prev - Fin 2 * (c_high prev - p)) \<rparr>)"

subsection \<open>Parabolic SAR\<close>

record psar_state =
  is_long :: bool
  af :: jsnum
  ep :: jsnum
  prev_sar :: jsnum

record trend_lines =
  t_line :: "jsnum list"
  t_dir :: "int list"

text \<open>One iteration of the loop of \<open>psar\<close>: the new state, and the SAR and direction of bar \<open>i\<close>.\<close>

definition psar_step :: "candle list \<Rightarrow> jsnum \<Rightarrow> jsnum \<Rightarrow> psar_state \<Rightarrow> nat \<Rightarrow> psar_state \<times> (jsnum \<times> int)" where
  "psar_step cs step mx s i =
     (let current = prev_sar s + af s * (ep s - prev_sar s);
          c = cs ! i; c1 = cs ! (i - 1); c2 = (if 1 < i then cs ! (i - 2) else c1)
      in if is_long s then
           let sar = math_min (math_min current (c_low c1)) (c_low c2) in
           if c_low c < sar then
             (\<lparr> is_long = False, af = step, ep = c_low c, prev_sar = ep s \<rparr>, (ep s, - 1))
           else if ep s < c_high c then
             (\<lparr> is_long = True, af = math_min (af s + step) mx, ep = c_high c, prev_sar = sar \<rparr>, (sar, 1))
           else (s\<lparr> prev_sar := sar \<rparr>, (sar, 1))
         else
           let sar = math_max (math_max current (c_high c1)) (c_high c2) in
           if sar < c_high c then
             (\<lparr> is_long = True, af = step, ep = c_high c, prev_sar = ep s \<rparr>, (ep s, 1))
           else if c_low c < ep s then
             (\<lparr> is_long = False, af = math_min (af s + step) mx, ep = c_low c, prev_sar = sar \<rparr>, (sar, - 1))
           else (s\<lparr> prev_sar := sar \<rparr>, (sar, - 1)))"

definition psar_start :: "candle list \<Rightarrow> jsnum \<Rightarrow> psar_state" where
  "psar_start cs step =
     (let long = c_close (cs ! 0) < c_close (cs ! 1) in
      \<lparr> is_long = long, af = step,
        ep = (if long then c_high (cs ! 0) else c_low (cs ! 0)),
        prev_sar = (if long then c_low (cs ! 0) else c_high (cs ! 0)) \<rparr>)"

definition psar :: "candle list \<Rightarrow> jsnum \<Rightarrow> jsnum \<Rightarrow> trend_lines" where
  "psar cs step mx =
     (if length cs < 2 then \<lparr> t_line = [], t_dir = [] \<rparr>
      else
        let s0 = psar_start cs step;
            bars = scan_loop (psar_step cs step mx) s0 [1..<length cs]
        in \<lparr> t_line = prev_sar s0 # map fst bars, t_dir = 0 # map snd bars \<rparr>)"

subsection \<open>SuperTrend\<close>

record st_state =
  prev_upper :: jsnum
  prev_lower :: jsnum
  prev_dir :: int

definition supertrend_step :: "candle list \<Rightarrow> jsnum list \<Rightarrow> jsnum \<Rightarrow> st_state \<Rightarrow> nat \<Rightarrow> st_state \<times> (jsnum \<times> int)" where
  "supertrend_step cs atrs mult s i =
     (if is_nan (num_at atrs i) then (s, (NaN, 0))
      else
        let mid = (c_high (cs ! i) + c_low (cs ! i)) / Fin 2;
            upper0 = mid + mult * num_at atrs i;
            lower0 = mid - mult * num_at atrs i;
            upper = (if \<not> is_nan (prev_upper s) then math_min upper0 (prev_upper s) else upper0);
            lower = (if \<not> is_nan (prev_lower s) then math_max lower0 (prev_lower s) else lower0);
            close = c_close (cs ! i);
            dir = (if prev_dir s = 1 then (if close < lower then - 1 else 1)
                   else (if upper < close then 1 else - 1))
        in (\<lparr> prev_upper = upper, prev_lower = lower, prev_dir = dir \<rparr>,
            (if dir = 1 then lower else upper, dir)))"

definition st_start :: st_state where
  "st_start = \<lparr> prev_upper = NaN, prev_lower = NaN, prev_dir = 1 \<rparr>"

definition supertrend_bars :: "candle list \<Rightarrow> nat \<Rightarrow> jsnum \<Rightarrow> (jsnum \<times> int) list" where
  "supertrend_bars cs atr_period mult =
     scan_loop (supertrend_step cs (atr cs atr_period) mult) st_start [0..<length cs]"

definition supertrend :: "candle list \<Rightarrow> nat \<Rightarrow> jsnum \<Rightarrow> trend_lines" where
  "supertrend cs atr_period mult =
     \<lparr> t_line = map fst (supertrend_bars cs atr_period mult),
       t_dir = map snd (supertrend_bars cs atr_period mult) \<rparr>"

end
