(* ===== verification/Strategies.thy ===== *)
theory Strategies
  imports Trends
begin

text \<open>
  The strategies of \<open>frontend/src/strategy/strategies\<close>: each reads the last values of some
  indicators and gives an opinion with a confidence and a text. One pair of definitions per
  module, its \<open>meta\<close> and its \<open>runStrategy\<close>. A text is the list of the bytes of its UTF-8
  form; the few characters outside ASCII are named below.
\<close>

section \<open>Opinions\<close>

datatype signal = Bullish | Bearish | Neutral

record strategy_result =
  res_name :: string
  res_signal :: signal
  res_confidence :: jsnum
  res_detail :: string

record strategy_meta =
  meta_id :: string
  meta_name :: string
  meta_description :: string
  meta_category :: string
  meta_weight :: jsnum

definition em_dash :: string where "em_dash = [CHR 0xE2, CHR 0x80, CHR 0x94]"
definition plus_minus :: string where "plus_minus = [CHR 0xC2, CHR 0xB1]"
definition delta_sign :: string where "delta_sign = [CHR 0xCE, CHR 0x94]"
definition up_mark :: string where "up_mark = [CHR 0xE2, CHR 0x96, CHR 0xB2]"
definition down_mark :: string where "down_mark = [CHR 0xE2, CHR 0x96, CHR 0xBC]"

text \<open>\<open>{ name: meta.name, signal: 'Neutral', confidence: 0, detail }\<close>.\<close>

definition no_opinion :: "strategy_meta \<Rightarrow> string \<Rightarrow> strategy_result" where
  "no_opinion m detail = \<lparr> res_name = meta_name m, res_signal = Neutral,
     res_confidence = Fin 0, res_detail = detail \<rparr>"

text \<open>\<open>{ name: meta.name, signal, confidence: Math.round(confidence), detail }\<close>.\<close>

definition opinion :: "strategy_meta \<Rightarrow> signal \<times> jsnum \<times> string \<Rightarrow> strategy_result" where
  "opinion m r = (case r of (sig, conf, detail) \<Rightarrow>
     \<lparr> res_name = meta_name m, res_signal = sig, res_confidence = math_round conf, res_detail = detail \<rparr>)"

text \<open>\<open>`${x >= 0 ? '+' : ''}${x.toFixed(2)}%`\<close>.\<close>

definition signed_pct :: "jsnum \<Rightarrow> string" where
  "signed_pct x = (if Fin 0 \<le> x then ''+'' else []) @ to_fixed 2 x @ ''%''"

section \<open>The five strategies of the engine\<close>

definition ema_cross_meta :: strategy_meta where
  "ema_cross_meta = \<lparr> meta_id = ''ema-cross'', meta_name = ''EMA Cross (9/21)'',
     meta_description = ''EMA 9/21 crossover with ADX trend filter'',
     meta_category = ''Trend'', meta_weight = lit (1 / 4) \<rparr>"

definition ema_cross_decide :: "jsnum \<Rightarrow> jsnum \<Rightarrow> jsnum \<Rightarrow> jsnum \<Rightarrow> jsnum \<Rightarrow> signal \<times> jsnum \<times> string" where
  "ema_cross_decide last_fast last_slow prev_fast prev_slow last_adx =
     (let spread = ((last_fast - last_slow) / last_slow) * Fin 100;
          abs_spread = \<bar>spread\<bar>;
          cross_up = (prev_fast \<le> prev_slow \<and> last_slow < last_fast);
          cross_down = (prev_slow \<le> prev_fast \<and> last_fast < last_slow);
          adx_valid = (\<not> is_nan last_adx);
          strong_trend = (adx_valid \<and> Fin 20 < last_adx);
          very_strong_trend = (adx_valid \<and> Fin 30 < last_adx);
          detail = ''EMA9: '' @ to_fixed 2 last_fast @ '' | EMA21: '' @ to_fixed 2 last_slow
            @ (if adx_valid then '' | ADX: '' @ to_fixed 1 last_adx else [])
      in if cross_up then
           (Bullish, Fin (if strong_trend then 88 else 72), detail @ '' '' @ em_dash @ '' Bullish crossover'')
         else if cross_down then
           (Bearish, Fin (if strong_trend then 88 else 72), detail @ '' '' @ em_dash @ '' Bearish crossover'')
         else if lit (15 / 100) < abs_spread \<and> strong_trend then
           (if Fin 0 < spread then Bullish else Bearish,
            if very_strong_trend then math_min (Fin 60 + abs_spread * Fin 4) (Fin 82)
            else math_min (Fin 55 + abs_spread * Fin 3) (Fin 72),
            detail @ '' | Spread: '' @ signed_pct spread)
         else if lit (15 / 100) < abs_spread then
           (if Fin 0 < spread then Bullish else Bearish,
            math_min (Fin 45 + abs_spread * Fin 2) (Fin 55),
            detail @ '' | Spread: '' @ signed_pct spread @ '' '' @ em_dash @ '' Moderate trend'')
         else (Neutral, Fin 0,
            detail @ '' | Spread: '' @ signed_pct spread @ '' '' @ em_dash @ '' No clear trend''))"

definition ema_cross :: "candle list \<Rightarrow> strategy_result" where
  "ema_cross cs =
     (let closes = closes_of cs in
      if length closes < 30 then no_opinion ema_cross_meta ''Need 30+ candles''
      else
        let fast = ema closes 9; slow = ema closes 21; adx_arr = adx_line (adx cs 14) in
        if is_nan (num_end fast 0) \<or> is_nan (num_end slow 0)
        then no_opinion ema_cross_meta ''Insufficient data''
        else opinion ema_cross_meta
          (ema_cross_decide (num_end fast 0) (num_end slow 0) (num_end fast 1) (num_end slow 1)
             (num_end adx_arr 0)))"

definition rsi_momentum_meta :: strategy_meta where
  "rsi_momentum_meta = \<lparr> meta_id = ''rsi-momentum'', meta_name = ''RSI Momentum'',
     meta_description = ''RSI(14) with dead zone '' @ em_dash @ '' signals only at extremes'',
     meta_category = ''Momentum'', meta_weight = lit (20 / 100) \<rparr>"

definition rsi_momentum_decide :: "jsnum \<Rightarrow> jsnum \<Rightarrow> jsnum \<Rightarrow> signal \<times> jsnum \<times> string" where
  "rsi_momentum_decide current prev prev2 =
     (let rising = (prev < current \<and> prev2 < prev);
          falling = (current < prev \<and> prev < prev2);
          detail = ''RSI(14): '' @ to_fixed 1 current;
          say = (\<lambda>s. detail @ '' '' @ em_dash @ '' '' @ s)
      in if Fin 75 \<le> current then
           (Bearish, math_min (Fin 70 + (current - Fin 75) * Fin 2) (Fin 92), say ''Overbought reversal zone'')
         else if Fin 70 \<le> current then
           (Bearish, Fin (if falling then 72 else 58), say ''Overbought'')
         else if current \<le> Fin 25 then
           (Bullish, math_min (Fin 70 + (Fin 25 - current) * Fin 2) (Fin 92), say ''Oversold reversal zone'')
         else if current \<le> Fin 30 then
           (Bullish, Fin (if rising then 72 else 58), say ''Oversold'')
         else if Fin 58 < current \<and> rising then (Bullish, Fin 60, say ''Bullish momentum'')
         else if Fin 55 < current then (Bullish, Fin 45, say ''Mildly bullish'')
         else if current < Fin 42 \<and> falling then (Bearish, Fin 60, say ''Bearish momentum'')
         else if current < Fin 45 then (Bearish, Fin 45, say ''Mildly bearish'')
         else (Neutral, Fin 0, say ''Neutral zone''))"

definition rsi_momentum :: "candle list \<Rightarrow> strategy_result" where
  "rsi_momentum cs =
     (let closes = closes_of cs in
      if length closes < 20 then no_opinion rsi_momentum_meta ''Need 20+ candles''
      else
        let arr = rsi closes 14; current = num_end arr 0; prev = num_end arr 1; prev2 = num_end arr 2 in
        if list_ex is_nan [current, prev, prev2] then no_opinion rsi_momentum_meta ''RSI not available''
        else opinion rsi_momentum_meta (rsi_momentum_decide current prev prev2))"

definition vwap_meta :: strategy_meta where
  "vwap_meta = \<lparr> meta_id = ''vwap-bias'', meta_name = ''Volume-Price Confluence'',
     meta_description = ''VWAP + Bollinger Bands '' @ em_dash @ '' institutional fair-value with volatility filter'',
     meta_category = ''Volume'', meta_weight = lit (15 / 100) \<rparr>"

definition vwap_decide :: "jsnum \<Rightarrow> jsnum \<Rightarrow> jsnum \<Rightarrow> jsnum \<Rightarrow> signal \<times> jsnum \<times> string" where
  "vwap_decide last_close last_vwap last_upper last_lower =
     (let vwap_deviation = (if is_nan last_vwap then Fin 0
            else ((last_close - last_vwap) / last_vwap) * Fin 100);
          bb_range = last_upper - last_lower;
          bb_position = (if Fin 0 < bb_range then (last_close - last_lower) / bb_range else Fin (1 / 2));
          above_vwap = (\<not> is_nan last_vwap \<and> Fin (1 / 2) < vwap_deviation);
          below_vwap = (\<not> is_nan last_vwap \<and> vwap_deviation < Fin (- 1 / 2));
          parts = (if is_nan last_vwap then [] else
              [''VWAP: '' @ to_fixed 2 last_vwap @ '' ('' @ signed_pct vwap_deviation @ '')''])
            @ [''BB Position: '' @ to_fixed 0 (bb_position * Fin 100) @ ''%''];
          say = (\<lambda>s. join '' | '' (parts @ [s]))
      in if above_vwap \<and> lit (6 / 10) < bb_position then
           (Bullish, if lit (8 / 10) < bb_position then math_min (Fin 65 + vwap_deviation * Fin 3) (Fin 85)
                     else Fin 62, say ''Above VWAP + Upper BB'')
         else if below_vwap \<and> bb_position < lit (4 / 10) then
           (Bearish, if bb_position < lit (2 / 10) then math_min (Fin 65 + \<bar>vwap_deviation\<bar> * Fin 3) (Fin 85)
                     else Fin 62, say ''Below VWAP + Lower BB'')
         else if lit (9 / 10) < bb_position then
           (Bearish, Fin 52, say (''Near upper band '' @ em_dash @ '' potential pullback''))
         else if bb_position < lit (1 / 10) then
           (Bullish, Fin 52, say (''Near lower band '' @ em_dash @ '' potential bounce''))
         else (Neutral, Fin 0, say ''No clear bias''))"

definition vwap_strategy :: "candle list \<Rightarrow> strategy_result" where
  "vwap_strategy cs =
     (if length cs < 25 then no_opinion vwap_meta ''Need 25+ candles''
      else
        let closes = closes_of cs;
            bb = bollinger_bands closes 20 (Fin 2);
            last_upper = num_end (b_upper bb) 0;
            last_middle = num_end (b_middle bb) 0;
            last_lower = num_end (b_lower bb) 0
        in if list_ex is_nan [last_upper, last_middle, last_lower]
           then no_opinion vwap_meta ''Insufficient data''
           else opinion vwap_meta
             (vwap_decide (num_end closes 0) (num_end (vwap cs) 0) last_upper last_lower))"

definition golden_rsi_meta :: strategy_meta where
  "golden_rsi_meta = \<lparr> meta_id = ''golden-rsi'', meta_name = ''Golden RSI'',
     meta_description = ''RSI + SMA50 + EMA9 slope '' @ em_dash @ '' multi-confirmation confluence'',
     meta_category = ''Confluence'', meta_weight = lit (20 / 100) \<rparr>"

definition golden_rsi_decide :: "jsnum \<Rightarrow> jsnum \<Rightarrow> jsnum \<Rightarrow> jsnum \<Rightarrow> jsnum \<Rightarrow> jsnum \<Rightarrow> jsnum
    \<Rightarrow> signal \<times> jsnum \<times> string" where
  "golden_rsi_decide current prev prev2 last_close last_sma last_ema prev_ema =
     (let sma_deviation = ((last_close - last_sma) / last_sma) * Fin 100;
          above_sma = (lit (2 / 10) < sma_deviation);
          below_sma = (sma_deviation < lit (- 2 / 10));
          rising = (prev < current \<and> prev2 < prev);
          falling = (current < prev \<and> prev < prev2);
          slope_up = (prev_ema < last_ema);
          slope_down = (last_ema < prev_ema);
          dead_zone = (Fin 47 \<le> current \<and> current \<le> Fin 53);
          say = (\<lambda>confirms. join '' | '' ([''RSI: '' @ to_fixed 1 current, ''SMA50: '' @ to_fixed 2 last_sma,
             delta_sign @ '': '' @ signed_pct sma_deviation] @ [join '', '' confirms]))
      in if above_sma \<and> \<not> dead_zone \<and> Fin 53 < current \<and> rising \<and> slope_up then
           (Bullish, Fin (if Fin 60 < current then 82 else 70),
            say [''SMA50'' @ up_mark, ''RSI'' @ up_mark, ''EMA9 slope'' @ up_mark])
         else if below_sma \<and> \<not> dead_zone \<and> current < Fin 47 \<and> falling \<and> slope_down then
           (Bearish, Fin (if current < Fin 40 then 82 else 70),
            say [''SMA50'' @ down_mark, ''RSI'' @ down_mark, ''EMA9 slope'' @ down_mark])
         else if above_sma \<and> Fin 53 < current \<and> (rising \<or> slope_up) then
           (Bullish, Fin 58, say [''Partial confluence (2/3)''])
         else if below_sma \<and> current < Fin 47 \<and> (falling \<or> slope_down) then
           (Bearish, Fin 58, say [''Partial confluence (2/3)''])
         else (Neutral, Fin 0, say [''No confluence '' @ em_dash @ '' conflicting signals'']))"

definition golden_rsi :: "candle list \<Rightarrow> strategy_result" where
  "golden_rsi cs =
     (let closes = closes_of cs in
      if length closes < 55 then no_opinion golden_rsi_meta ''Need 55+ candles''
      else
        let rsi_arr = rsi closes 14; sma50 = sma closes 50; ema9 = ema closes 9;
            current = num_end rsi_arr 0; prev = num_end rsi_arr 1; prev2 = num_end rsi_arr 2;
            last_sma = num_end sma50 0; last_ema = num_end ema9 0; prev_ema = num_end ema9 1
        in if list_ex is_nan [current, prev, prev2, last_sma, last_ema, prev_ema]
           then no_opinion golden_rsi_meta ''Insufficient data''
           else opinion golden_rsi_meta
             (golden_rsi_decide current prev prev2 (num_end closes 0) last_sma last_ema prev_ema))"

definition trend_detector_meta :: strategy_meta where
  "trend_detector_meta = \<lparr> meta_id = ''trend-detector'', meta_name = ''Trend Detector'',
     meta_description = ''MACD + EMA21 + ADX '' @ em_dash @ '' triple-confirmation trend engine'',
     meta_category = ''Trend'', meta_weight = lit (20 / 100) \<rparr>"

text \<open>The values the module reads off the indicators, by the names it gives them.\<close>

record trend_inputs =
  last_macd :: jsnum
  last_hist :: jsnum
  prev_hist :: jsnum
  prev2_hist :: jsnum
  ti_ema :: jsnum
  ti_close :: jsnum
  ti_adx :: jsnum
  ti_plus :: jsnum
  ti_minus :: jsnum

definition trend_detector_decide :: "trend_inputs \<Rightarrow> signal \<times> jsnum \<times> string" where
  "trend_detector_decide t =
     (let ema_deviation = ((ti_close t - ti_ema t) / ti_ema t) * Fin 100;
          above_ema = (lit (1 / 10) < ema_deviation);
          below_ema = (ema_deviation < lit (- 1 / 10));
          macd_positive = (Fin 0 < last_macd t);
          macd_negative = (last_macd t < Fin 0);
          expanding = (\<bar>prev_hist t\<bar> < \<bar>last_hist t\<bar> \<and> \<bar>prev2_hist t\<bar> < \<bar>prev_hist t\<bar>);
          adx_valid = (\<not> is_nan (ti_adx t));
          trend_exists = (adx_valid \<and> Fin 15 < ti_adx t);
          strong_trend = (adx_valid \<and> Fin 25 < ti_adx t);
          di_bull = (\<not> is_nan (ti_plus t) \<and> \<not> is_nan (ti_minus t) \<and> ti_minus t < ti_plus t);
          di_bear = (\<not> is_nan (ti_plus t) \<and> \<not> is_nan (ti_minus t) \<and> ti_plus t < ti_minus t);
          say = (\<lambda>s. join '' | '' ([s, ''MACD: '' @ to_fixed 2 (last_macd t), ''EMA21: '' @ to_fixed 2 (ti_ema t)]
            @ (if adx_valid then [''ADX: '' @ to_fixed 1 (ti_adx t)] else [])))
      in if above_ema \<and> macd_positive \<and> trend_exists \<and> di_bull then
           (if strong_trend \<and> expanding then (Bullish, Fin 88, say ''Strong accelerating uptrend'')
            else if strong_trend \<or> expanding then (Bullish, Fin 75, say ''Confirmed uptrend'')
            else (Bullish, Fin 65, say ''Developing uptrend''))
         else if below_ema \<and> macd_negative \<and> trend_exists \<and> di_bear then
           (if strong_trend \<and> expanding then (Bearish, Fin 88, say ''Strong accelerating downtrend'')
            else if strong_trend \<or> expanding then (Bearish, Fin 75, say ''Confirmed downtrend'')
            else (Bearish, Fin 65, say ''Developing downtrend''))
         else if trend_exists \<and> (above_ema \<and> macd_positive \<or> above_ema \<and> di_bull \<or> macd_positive \<and> di_bull) then
           (Bullish, Fin 55, say ''Partial bullish alignment'')
         else if trend_exists \<and> (below_ema \<and> macd_negative \<or> below_ema \<and> di_bear \<or> macd_negative \<and> di_bear) then
           (Bearish, Fin 55, say ''Partial bearish alignment'')
         else (Neutral, Fin 0,
           say (if adx_valid \<and> ti_adx t \<le> Fin 20 then ''No trend (ADX too low)'' else ''Conflicting signals'')))"

definition trend_detector :: "candle list \<Rightarrow> strategy_result" where
  "trend_detector cs =
     (let closes = closes_of cs in
      if length closes < 40 then no_opinion trend_detector_meta ''Need 40+ candles''
      else
        let m = macd closes 12 26 9; ema21 = ema closes 21; a = adx cs 14;
            t = \<lparr> last_macd = num_end (macd_line m) 0, last_hist = num_end (macd_histogram m) 0,
                  prev_hist = num_end (macd_histogram m) 1, prev2_hist = num_end (macd_histogram m) 2,
                  ti_ema = num_end ema21 0, ti_close = num_end closes 0, ti_adx = num_end (adx_line a) 0,
                  ti_plus = num_end (plus_di a) 0, ti_minus = num_end (minus_di a) 0 \<rparr>
        in if list_ex is_nan [last_macd t, last_hist t, prev_hist t, ti_ema t]
           then no_opinion trend_detector_meta ''Indicator data incomplete''
           else opinion trend_detector_meta (trend_detector_decide t))"

section \<open>The strategies of the gold scalping set\<close>

definition moving_average_meta :: strategy_meta where
  "moving_average_meta = \<lparr> meta_id = ''moving-average'', meta_name = ''Moving Average Cross'',
     meta_description = ''SMA 20/50 crossover '' @ em_dash @ '' trend-following signal'',
     meta_category = ''Trend'', meta_weight = lit (10 / 100) \<rparr>"

definition moving_average_decide :: "jsnum \<Rightarrow> jsnum \<Rightarrow> jsnum \<Rightarrow> jsnum \<Rightarrow> signal \<times> jsnum \<times> string" where
  "moving_average_decide last_fast last_slow prev_fast prev_slow =
     (let spread = ((last_fast - last_slow) / last_slow) * Fin 100;
          cross_up = (prev_fast \<le> prev_slow \<and> last_slow < last_fast);
          cross_down = (prev_slow \<le> prev_fast \<and> last_fast < last_slow);
          detail = ''SMA20: '' @ to_fixed 2 last_fast @ '' | SMA50: '' @ to_fixed 2 last_slow;
          conf = math_min (Fin 50 + \<bar>spread\<bar> * Fin 5) (Fin 90)
      in if cross_up then (Bullish, Fin 85, detail @ '' '' @ em_dash @ '' Golden cross detected'')
         else if cross_down then (Bearish, Fin 85, detail @ '' '' @ em_dash @ '' Death cross detected'')
         else if last_slow < last_fast then
           (Bullish, conf, detail @ '' '' @ em_dash @ '' Spread: +'' @ to_fixed 2 spread @ ''%'')
         else (Bearish, conf, detail @ '' '' @ em_dash @ '' Spread: '' @ to_fixed 2 spread @ ''%''))"

definition moving_average :: "candle list \<Rightarrow> strategy_result" where
  "moving_average cs =
     (let closes = closes_of cs in
      if length closes < 50 then no_opinion moving_average_meta ''Not enough data (need 50 candles)''
      else
        let fast = sma closes 20; slow = sma closes 50 in
        if is_nan (num_end fast 0) \<or> is_nan (num_end slow 0)
        then no_opinion moving_average_meta ''Insufficient indicator data''
        else opinion moving_average_meta
          (moving_average_decide (num_end fast 0) (num_end slow 0) (num_end fast 1) (num_end slow 1)))"

definition adx_meta :: strategy_meta where
  "adx_meta = \<lparr> meta_id = ''adx-trend'', meta_name = ''ADX Trend'',
     meta_description = ''ADX(14) trend strength with DI'' @ plus_minus @ '' directional filter'',
     meta_category = ''Trend'', meta_weight = lit (10 / 100) \<rparr>"

definition adx_decide :: "jsnum \<Rightarrow> jsnum \<Rightarrow> jsnum \<Rightarrow> signal \<times> jsnum \<times> string" where
  "adx_decide last_adx last_plus last_minus =
     (let detail = ''ADX: '' @ to_fixed 1 last_adx @ '' | +DI: '' @ to_fixed 1 last_plus
            @ '' | -DI: '' @ to_fixed 1 last_minus;
          conf = math_min (Fin 55 + (last_adx - Fin 20) * lit (12 / 10)) (Fin 92)
      in if Fin 20 < last_adx \<and> last_minus < last_plus then (Bullish, conf, detail)
         else if Fin 20 < last_adx \<and> last_plus < last_minus then (Bearish, conf, detail)
         else (Neutral, Fin 50, detail))"

definition adx_strategy :: "candle list \<Rightarrow> strategy_result" where
  "adx_strategy cs =
     (if length cs < 30 then no_opinion adx_meta ''Need 30+ candles''
      else
        let a = adx cs 14; last_adx = num_end (adx_line a) 0;
            last_plus = num_end (plus_di a) 0; last_minus = num_end (minus_di a) 0 in
        if list_ex is_nan [last_adx, last_plus, last_minus]
        then no_opinion adx_meta ''ADX data incomplete''
        else opinion adx_meta (adx_decide last_adx last_plus last_minus))"

definition cci_meta :: strategy_meta where
  "cci_meta = \<lparr> meta_id = ''cci-momentum'', meta_name = ''CCI Momentum'',
     meta_description = ''CCI(14) zero-line momentum detector'',
     meta_category = ''Momentum'', meta_weight = lit (20 / 100) \<rparr>"

definition cci_decide :: "jsnum \<Rightarrow> signal \<times> jsnum \<times> string" where
  "cci_decide current =
     (let detail = ''CCI(14): '' @ to_fixed 1 current in
      if Fin 100 < current then
        (Bullish, math_min (Fin 70 + (current - Fin 100) * lit (15 / 100)) (Fin 95), detail)
      else if Fin 0 < current then (Bullish, Fin 55 + (current / Fin 100) * Fin 15, detail)
      else if current < Fin (- 100) then
        (Bearish, math_min (Fin 70 + \<bar>current + Fin 100\<bar> * lit (15 / 100)) (Fin 95), detail)
      else if current < Fin 0 then (Bearish, Fin 55 + (\<bar>current\<bar> / Fin 100) * Fin 15, detail)
      else (Neutral, Fin 50, detail))"

definition cci_strategy :: "candle list \<Rightarrow> strategy_result" where
  "cci_strategy cs =
     (if length cs < 16 then no_opinion cci_meta ''Need 16+ candles''
      else
        let current = num_end (cci cs 14) 0 in
        if is_nan current then no_opinion cci_meta ''CCI not available''
        else opinion cci_meta (cci_decide current))"

definition macd_hist_meta :: strategy_meta where
  "macd_hist_meta = \<lparr> meta_id = ''macd-histogram'', meta_name = ''MACD Histogram'',
     meta_description = ''MACD(12,26,9) histogram momentum signal'',
     meta_category = ''Momentum'', meta_weight = lit (10 / 100) \<rparr>"

definition macd_hist_decide :: "jsnum \<Rightarrow> jsnum \<Rightarrow> jsnum \<Rightarrow> jsnum \<Rightarrow> signal \<times> jsnum \<times> string" where
  "macd_hist_decide l_macd l_signal l_hist p_hist =
     (let conf = Fin (if \<bar>p_hist\<bar> < \<bar>l_hist\<bar> then 78 else 62);
          detail = ''MACD: '' @ to_fixed 2 l_macd @ '' | Signal: '' @ to_fixed 2 l_signal
            @ '' | Hist: '' @ to_fixed 2 l_hist
      in if Fin 0 < l_hist then (Bullish, conf, detail)
         else if l_hist < Fin 0 then (Bearish, conf, detail)
         else (Neutral, Fin 50, detail))"

definition macd_histogram_strategy :: "candle list \<Rightarrow> strategy_result" where
  "macd_histogram_strategy cs =
     (let closes = closes_of cs in
      if length closes < 35 then no_opinion macd_hist_meta ''Need 35+ candles''
      else
        let m = macd closes 12 26 9; l_macd = num_end (macd_line m) 0; l_signal = num_end (macd_signal m) 0;
            l_hist = num_end (macd_histogram m) 0; p_hist = num_end (macd_histogram m) 1 in
        if list_ex is_nan [l_macd, l_signal, l_hist] then no_opinion macd_hist_meta ''MACD data incomplete''
        else opinion macd_hist_meta (macd_hist_decide l_macd l_signal l_hist p_hist))"

definition stochastic_meta :: strategy_meta where
  "stochastic_meta = \<lparr> meta_id = ''stochastic'', meta_name = ''Stochastic Oscillator'',
     meta_description = ''Stochastic(14,3,3) overbought/oversold zones'',
     meta_category = ''Momentum'', meta_weight = lit (15 / 100) \<rparr>"

definition stochastic_decide :: "jsnum \<Rightarrow> jsnum \<Rightarrow> signal \<times> jsnum \<times> string" where
  "stochastic_decide last_k last_d =
     (let detail = ''%K: '' @ to_fixed 1 last_k @ '' | %D: '' @ to_fixed 1 last_d in
      if Fin 80 < last_k \<and> Fin 80 < last_d then
        (Bearish, math_min (Fin 65 + (last_k - Fin 80) * Fin (3 / 2)) (Fin 95), detail)
      else if last_k < Fin 20 \<and> last_d < Fin 20 then
        (Bullish, math_min (Fin 65 + (Fin 20 - last_k) * Fin (3 / 2)) (Fin 95), detail)
      else if last_d < last_k \<and> last_k < Fin 80 then (Bullish, Fin 55, detail)
      else if last_k < last_d \<and> Fin 20 < last_k then (Bearish, Fin 55, detail)
      else (Neutral, Fin 50, detail))"

definition stochastic_strategy :: "candle list \<Rightarrow> strategy_result" where
  "stochastic_strategy cs =
     (if length cs < 20 then no_opinion stochastic_meta ''Need 20+ candles''
      else
        let s = stochastic cs 14 3 3; last_k = num_end (stoch_k s) 0; last_d = num_end (stoch_d s) 0 in
        if is_nan last_k \<or> is_nan last_d then no_opinion stochastic_meta ''Stochastic data incomplete''
        else opinion stochastic_meta (stochastic_decide last_k last_d))"

definition bollinger_meta :: strategy_meta where
  "bollinger_meta = \<lparr> meta_id = ''bollinger-bands'', meta_name = ''Bollinger Bands'',
     meta_description = ''BB(20,2) volatility-based reversal detection'',
     meta_category = ''Volatility'', meta_weight = lit (15 / 100) \<rparr>"

definition bollinger_decide :: "jsnum \<Rightarrow> jsnum \<Rightarrow> jsnum \<Rightarrow> jsnum \<Rightarrow> signal \<times> jsnum \<times> string" where
  "bollinger_decide last_close last_upper last_middle last_lower =
     (let bandwidth = ((last_upper - last_lower) / last_middle) * Fin 100;
          detail = ''Upper: '' @ to_fixed 2 last_upper @ '' | Mid: '' @ to_fixed 2 last_middle
            @ '' | Lower: '' @ to_fixed 2 last_lower @ '' | BW: '' @ to_fixed 1 bandwidth @ ''%''
      in if last_upper < last_close then
           (let overshoot = ((last_close - last_upper) / (last_upper - last_middle)) * Fin 100 in
            (Bearish, math_min (Fin 65 + overshoot * Fin (1 / 2)) (Fin 92), detail))
         else if last_close < last_lower then
           (let overshoot = ((last_lower - last_close) / (last_middle - last_lower)) * Fin 100 in
            (Bullish, math_min (Fin 65 + overshoot * Fin (1 / 2)) (Fin 92), detail))
         else if last_middle < last_close then (Bullish, Fin 55, detail)
         else (Bearish, Fin 55, detail))"

definition bollinger_strategy :: "candle list \<Rightarrow> strategy_result" where
  "bollinger_strategy cs =
     (let closes = closes_of cs in
      if length closes < 22 then no_opinion bollinger_meta ''Need 22+ candles''
      else
        let bb = bollinger_bands closes 20 (Fin 2); last_upper = num_end (b_upper bb) 0;
            last_middle = num_end (b_middle bb) 0; last_lower = num_end (b_lower bb) 0 in
        if list_ex is_nan [last_upper, last_middle, last_lower] then no_opinion bollinger_meta ''BB data incomplete''
        else opinion bollinger_meta (bollinger_decide (num_end closes 0) last_upper last_middle last_lower))"

definition ichimoku_meta :: strategy_meta where
  "ichimoku_meta = \<lparr> meta_id = ''ichimoku-cloud'', meta_name = ''Ichimoku Cloud'',
     meta_description = ''Ichimoku(9,26,52) cloud + TK cross'',
     meta_category = ''Trend'', meta_weight = lit (20 / 100) \<rparr>"

definition ichimoku_decide :: "jsnum \<Rightarrow> jsnum \<Rightarrow> jsnum \<Rightarrow> jsnum \<Rightarrow> jsnum \<Rightarrow> signal \<times> jsnum \<times> string" where
  "ichimoku_decide last_close t k sa sb =
     (let cloud_top = math_max sa sb; cloud_bottom = math_min sa sb;
          above = (cloud_top < last_close); below = (last_close < cloud_bottom);
          detail = ''Tenkan: '' @ to_fixed 2 t @ '' | Kijun: '' @ to_fixed 2 k
            @ '' | Cloud: '' @ to_fixed 2 cloud_bottom @ ''-'' @ to_fixed 2 cloud_top
      in if above \<and> k < t then (Bullish, Fin 85, detail)
         else if below \<and> t < k then (Bearish, Fin 85, detail)
         else if above then (Bullish, Fin 65, detail)
         else if below then (Bearish, Fin 65, detail)
         else (Neutral, Fin 50, detail))"

definition ichimoku_strategy :: "candle list \<Rightarrow> strategy_result" where
  "ichimoku_strategy cs =
     (if length cs < 55 then no_opinion ichimoku_meta ''Need 55+ candles''
      else
        let l = ichimoku cs 9 26 52; i = length cs - 1; t = num_at (tenkan l) i; k = num_at (kijun l) i;
            sa = num_at (senkou_a l) i; sb = num_at (senkou_b l) i in
        if list_ex is_nan [t, k, sa, sb] then no_opinion ichimoku_meta ''Ichimoku data incomplete''
        else opinion ichimoku_meta (ichimoku_decide (c_close (cs ! i)) t k sa sb))"

definition hma_meta :: strategy_meta where
  "hma_meta = \<lparr> meta_id = ''hma-trend'', meta_name = ''HMA Trend'',
     meta_description = ''Hull MA(21/55) '' @ em_dash @ '' smooth trend filter'',
     meta_category = ''Trend'', meta_weight = lit (10 / 100) \<rparr>"

definition hma_decide :: "jsnum \<Rightarrow> jsnum \<Rightarrow> jsnum \<Rightarrow> signal \<times> jsnum \<times> string" where
  "hma_decide last_fast last_slow prev_fast =
     (let rising = (prev_fast < last_fast);
          spread = ((last_fast - last_slow) / last_slow) * Fin 100;
          conf = math_min (Fin 60 + \<bar>spread\<bar> * Fin 4) (Fin 90);
          detail = ''HMA21: '' @ to_fixed 2 last_fast @ '' | HMA55: '' @ to_fixed 2 last_slow @ '' | ''
            @ (if rising then up_mark @ '' Rising'' else down_mark @ '' Falling'')
      in if last_slow < last_fast \<and> rising then (Bullish, conf, detail)
         else if last_fast < last_slow \<and> \<not> rising then (Bearish, conf, detail)
         else if last_slow < last_fast then (Bullish, Fin 55, detail)
         else (Bearish, Fin 55, detail))"

definition hma_strategy :: "candle list \<Rightarrow> strategy_result" where
  "hma_strategy cs =
     (let closes = closes_of cs in
      if length closes < 60 then no_opinion hma_meta ''Need 60+ candles''
      else
        let fast = hma closes 21; slow = hma closes 55 in
        if list_ex is_nan [num_end fast 0, num_end slow 0] then no_opinion hma_meta ''HMA data incomplete''
        else opinion hma_meta (hma_decide (num_end fast 0) (num_end slow 0) (num_end fast 1)))"

definition supertrend_meta :: strategy_meta where
  "supertrend_meta = \<lparr> meta_id = ''supertrend'', meta_name = ''SuperTrend'',
     meta_description = ''SuperTrend(10,3.0) '' @ em_dash @ '' ATR-based trend reversal'',
     meta_category = ''Trend'', meta_weight = lit (10 / 100) \<rparr>"

definition supertrend_decide :: "jsnum \<Rightarrow> jsnum \<Rightarrow> int \<Rightarrow> int \<Rightarrow> signal \<times> jsnum \<times> string" where
  "supertrend_decide last_close last_st last_dir p_dir =
     (let flip = (p_dir \<noteq> 0 \<and> last_dir \<noteq> p_dir);
          distance = \<bar>((last_close - last_st) / last_st) * Fin 100\<bar>;
          conf = (if flip then Fin 88 else math_min (Fin 58 + distance * Fin 5) (Fin 85));
          detail = ''ST: '' @ to_fixed 2 last_st @ '' | Dir: ''
            @ (if last_dir = 1 then up_mark @ '' Bull'' else down_mark @ '' Bear'')
            @ (if flip then '' '' @ em_dash @ '' FLIP!'' else []) @ '' | Dist: '' @ to_fixed 2 distance @ ''%''
      in (if last_dir = 1 then Bullish else Bearish, conf, detail))"

definition supertrend_strategy :: "candle list \<Rightarrow> strategy_result" where
  "supertrend_strategy cs =
     (if length cs < 15 then no_opinion supertrend_meta ''Need 15+ candles''
      else
        let s = supertrend cs 10 (Fin 3); n = length cs;
            last_dir = t_dir s ! (n - 1); last_st = num_end (t_line s) 0; p_dir = t_dir s ! (n - 2) in
        if last_dir = 0 \<or> is_nan last_st then no_opinion supertrend_meta ''SuperTrend data incomplete''
        else opinion supertrend_meta
          (supertrend_decide (c_close (cs ! (n - 1))) last_st last_dir p_dir))"

definition atr_breakout_meta :: strategy_meta where
  "atr_breakout_meta = \<lparr> meta_id = ''atr-breakout'', meta_name = ''ATR Breakout'',
     meta_description = ''ATR(14) volatility breakout detector'',
     meta_category = ''Volatility'', meta_weight = lit (10 / 100) \<rparr>"

definition atr_breakout_decide :: "jsnum \<Rightarrow> jsnum \<Rightarrow> jsnum \<Rightarrow> signal \<times> jsnum \<times> string" where
  "atr_breakout_decide last_atr last_close prev_close =
     (let multiplier = Fin 2;
          up = (prev_close + last_atr * multiplier < last_close);
          down = (last_close < prev_close - last_atr * multiplier);
          atr_percent = (last_atr / last_close) * Fin 100;
          conf = math_min (Fin 75 + atr_percent * Fin 3) (Fin 95);
          detail = ''ATR(14): '' @ to_fixed 2 last_atr @ '' | ATR%: '' @ to_fixed 2 atr_percent
            @ ''% | Threshold: '' @ plus_minus @ to_fixed 2 (last_atr * multiplier)
      in if up then (Bullish, conf, detail)
         else if down then (Bearish, conf, detail)
         else (Neutral, Fin 50, detail))"

definition atr_breakout :: "candle list \<Rightarrow> strategy_result" where
  "atr_breakout cs =
     (if length cs < 16 then no_opinion atr_breakout_meta ''Need 16+ candles''
      else
        let last_atr = num_end (atr cs 14) 0; n = length cs in
        if is_nan last_atr then no_opinion atr_breakout_meta ''ATR data incomplete''
        else opinion atr_breakout_meta
          (atr_breakout_decide last_atr (c_close (cs ! (n - 1))) (c_close (cs ! (n - 2)))))"

end
