(* ===== verification/TrendFacts.thy ===== *)
theory TrendFacts
  imports Trends
begin

text \<open>
  What the range and trend indicators promise: which bars have a value, that no value looks
  ahead, the order of the channels, on which side of the price the parabolic SAR stays, and
  that the two SuperTrend bands only tighten.
\<close>

section \<open>Average true range\<close>

lemma length_atr_ranges: "cs \<noteq> [] \<Longrightarrow> length (atr_ranges cs) = length cs"
  using length_greater_0_conv [of cs] by (simp add: atr_ranges_def del: length_greater_0_conv)

lemma atr_length:
  assumes "2 \<le> length cs" "0 < period"
  shows "length (atr cs period) = max (length cs) period"
proof -
  have "cs \<noteq> []" using assms(1) by auto
  then show ?thesis using assms length_atr_ranges [of cs] by (auto simp: atr_def Let_def)
qed

lemma atr_range_take:
  assumes "i < n" "n \<le> length cs"
  shows "num_at (atr_ranges (take n cs)) i = num_at (atr_ranges cs) i"
proof -
  have "length (atr_ranges (take n cs)) = n" "length (atr_ranges cs) = length cs"
    using assms by (auto intro: length_atr_ranges [THEN trans])
  then show ?thesis using assms by (cases i) (auto simp: num_at_def atr_ranges_def true_range_def)
qed

lemma num_at_append_left: "i < length xs \<Longrightarrow> num_at (xs @ ys) i = num_at xs i"
  by (simp add: num_at_def nth_append)

lemma num_at_append_right: "length xs \<le> i \<Longrightarrow> num_at (xs @ ys) i = num_at ys (i - length xs)"
  by (auto simp: num_at_def nth_append)

lemma num_at_NaN_replicate [simp]: "num_at (replicate n NaN) i = NaN"
  by (simp add: num_at_def)

lemma num_at_Cons: "num_at (x # xs) i = (case i of 0 \<Rightarrow> x | Suc j \<Rightarrow> num_at xs j)"
  by (simp add: num_at_def split: nat.split)

text \<open>The warm-up of the average true range; there is none where \<open>period\<close> is \<open>1\<close>.\<close>

lemma atr_warmup: "Suc i < period \<Longrightarrow> num_at (atr cs period) i = NaN"
  by (auto simp: atr_def Let_def num_at_append_left)

lemma atr_value: "2 \<le> length cs \<Longrightarrow> 0 < period \<Longrightarrow> period - 1 \<le> i \<Longrightarrow>
    num_at (atr cs period) i =
      (let trs = atr_ranges cs; seed = sum_range (num_at trs) 0 period / num_of_nat period in
       num_at (seed # scan_loop (atr_step trs period) seed [period..<length cs]) (Suc i - period))"
  using length_atr_ranges [of cs]
  by (cases "cs = []") (auto simp: atr_def Let_def num_at_append_right)

lemma num_at_scan_take:
  assumes "\<And>s i. i < n \<Longrightarrow> f s i = g s i" "n \<le> m" "k + j < n"
  shows "num_at (scan_loop f s [k..<n]) j = num_at (scan_loop g s [k..<m]) j"
proof -
  have "scan_loop f s [k..<n] = scan_loop g s [k..<n]"
    by (rule scan_loop_cong) (simp add: assms(1))
  also have "\<dots> = take (n - k) (scan_loop g s [k..<m])"
    using assms(2,3) by (simp add: take_scan_loop)
  finally show ?thesis using assms(3) by simp
qed

text \<open>
  The array may be longer than the candles (\<open>atr_length\<close>), so the series is compared where
  its readers read it. With period \<open>1\<close> a single candle has no value and more candles have
  one for the first.
\<close>

lemma atr_prefix:
  assumes "i < n" "n \<le> length cs" "2 \<le> period"
  shows "num_at (atr (take n cs) period) i = num_at (atr cs period) i"
proof (cases "Suc i < period")
  case True
  then show ?thesis by (simp add: atr_warmup)
next
  case False
  define trs where "trs = atr_ranges cs"
  define trs' where "trs' = atr_ranges (take n cs)"
  have tr: "num_at trs' j = num_at trs j" if "j < n" for j
    using that assms by (simp add: trs_def trs'_def atr_range_take)
  then have sum: "sum_range (num_at trs') 0 period = sum_range (num_at trs) 0 period"
    using False assms by (intro sum_range_cong) auto
  have step: "atr_step trs' period s j = atr_step trs period s j" if "j < n" for s j
    using that by (simp add: atr_step_def tr)
  have "num_at (scan_loop (atr_step trs' period) s [period..<n]) j =
      num_at (scan_loop (atr_step trs period) s [period..<length cs]) j" if "period + j < n" for s j
    using step assms(2) that by (rule num_at_scan_take)
  moreover have "2 \<le> length cs" "2 \<le> length (take n cs)" using False assms by auto
  ultimately show ?thesis using False assms
    by (auto simp: atr_value Let_def trs_def [symmetric] trs'_def [symmetric] sum num_at_Cons min_def
        split: nat.split)
qed

lemma atr_nonneg:
  assumes "\<And>c. c \<in> set cs \<Longrightarrow> ohlc_ok c" "0 < period" "x \<in> set (atr cs period)"
  shows "nonneg x"
proof (cases "length cs < 2")
  case False
  define trs where "trs = atr_ranges cs"
  define seed where "seed = sum_range (num_at trs) 0 period / num_of_nat period"
  have "ohlc_ok (cs ! 0)" using False assms(1) by (cases cs) auto
  then have "c_low (cs ! 0) \<le> c_high (cs ! 0)" unfolding ohlc_ok_def by (blast intro: le_jsnum_trans)
  then have "nonneg (c_high (cs ! 0) - c_low (cs ! 0))" using minus_nonneg by (auto simp: nonneg_def)
  then have trs: "nonneg (num_at trs i)" for i
    by (intro nonneg_num_at) (auto simp: trs_def atr_ranges_def nonneg_true_range)
  then have seed: "nonneg seed" by (auto simp: seed_def)
  have pred: "nonneg (num_of_int (int period - 1))"
    using assms(2) by (auto simp: num_of_int_def)
  have loop: "nonneg y" if "y \<in> set (scan_loop (atr_step trs period) seed [period..<length trs])" for y
  proof (rule scan_loop_invariant [where P = nonneg and Q = nonneg, OF seed _ that])
    fix i s assume "nonneg s"
    then have "nonneg ((s * num_of_int (int period - 1) + num_at trs i) / num_of_nat period)"
      using pred trs by (intro nonneg_divide nonneg_plus nonneg_times nonneg_num_of_nat)
    then show "nonneg (fst (atr_step trs period s i)) \<and> nonneg (snd (atr_step trs period s i))"
      by (simp add: atr_step_def Let_def)
  qed
  then show ?thesis using assms(3) False seed
    by (auto simp: atr_def Let_def trs_def [symmetric] seed_def)
qed (use assms(3) in \<open>auto simp: atr_def\<close>)

section \<open>Channels\<close>

interpretation keltner_upper: causal_series "\<lambda>cs. b_upper (keltner_channels cs (Suc (Suc p)) mult)" for p mult
  by unfold_locales
    (auto simp: keltner_channels_def keltner_band_def Let_def ema_series.same_length ema_series.prefix
      take_map atr_prefix)

interpretation keltner_lower: causal_series "\<lambda>cs. b_lower (keltner_channels cs (Suc (Suc p)) mult)" for p mult
  by unfold_locales
    (auto simp: keltner_channels_def keltner_band_def Let_def ema_series.same_length ema_series.prefix
      take_map atr_prefix)

lemma dbl_ema: "x \<in> set (ema data period) \<Longrightarrow> dbl x"
proof -
  assume x: "x \<in> set (ema data period)"
  show ?thesis
  proof (rule scan_loop_invariant [where P = "\<lambda>_. True" and Q = dbl, OF _ _ x [unfolded ema_def]])
    show "True \<and> dbl (snd (ema_step data period s i))" for s i
      by (simp add: ema_step_def Let_def)
  qed simp
qed

lemma keltner_ordered:
  fixes cs period mult
  defines "kc \<equiv> keltner_channels cs period mult"
  assumes "\<And>c. c \<in> set cs \<Longrightarrow> ohlc_ok c" "0 < period" "nonneg mult" "i < length cs"
    and "b_lower kc ! i \<noteq> NaN" "b_upper kc ! i \<noteq> NaN"
  shows "b_lower kc ! i \<le> b_middle kc ! i \<and> b_middle kc ! i \<le> b_upper kc ! i"
proof -
  define m where "m = ema (closes_of cs) period ! i"
  define d where "d = mult * num_at (atr cs period) i"
  have len: "length (ema (closes_of cs) period) = length cs" by (simp add: ema_series.same_length)
  have "dbl m" unfolding m_def using assms(5) by (intro dbl_ema [OF nth_mem]) (simp add: len)
  moreover have "nonneg d" unfolding d_def
    using assms(2-4) atr_nonneg by (intro nonneg_times nonneg_num_at) auto
  moreover have "num_at (ema (closes_of cs) period) i = m"
    using assms(5) by (simp add: num_at_def len m_def)
  ultimately show ?thesis using assms(5-7)
    by (auto simp: kc_def keltner_channels_def keltner_band_def Let_def len d_def [symmetric]
        m_def [symmetric] split: if_splits intro: minus_le plus_ge)
qed

text \<open>The channel is exact: it holds every extreme of the window and is reached by one of them.\<close>

lemma highest_ge: "a \<le> j \<Longrightarrow> j < b \<Longrightarrow> c_high (cs ! j) \<noteq> NaN \<Longrightarrow> c_high (cs ! j) \<le> highest cs a b"
proof (induction b)
  case (Suc b)
  show ?case
  proof (cases "j = b")
    case True
    with Suc.prems show ?thesis by (simp add: highest_ge_last)
  next
    case False
    with Suc have "c_high (cs ! j) \<le> highest cs a b" by simp
    with Suc.prems False show ?thesis
      by (auto simp: highest_Suc dest: less_jsnum_imp_le intro: le_jsnum_trans)
  qed
qed simp

lemma lowest_le: "a \<le> j \<Longrightarrow> j < b \<Longrightarrow> c_low (cs ! j) \<noteq> NaN \<Longrightarrow> lowest cs a b \<le> c_low (cs ! j)"
proof (induction b)
  case (Suc b)
  show ?case
  proof (cases "j = b")
    case True
    with Suc.prems show ?thesis by (simp add: lowest_le_last)
  next
    case False
    with Suc have "lowest cs a b \<le> c_low (cs ! j)" by simp
    with Suc.prems False show ?thesis
      by (auto simp: lowest_Suc dest: less_jsnum_imp_le intro: le_jsnum_trans)
  qed
qed simp

lemma highest_attained: "highest cs a b = NInf \<or> (\<exists>j. a \<le> j \<and> j < b \<and> highest cs a b = c_high (cs ! j))"
proof (induction b)
  case (Suc b)
  then show ?case
  proof (cases "a \<le> b")
    case True
    then show ?thesis using Suc by (auto simp: highest_Suc less_Suc_eq)
  qed (simp add: highest_def)
qed (simp add: highest_def)

lemma lowest_attained: "lowest cs a b = PInf \<or> (\<exists>j. a \<le> j \<and> j < b \<and> lowest cs a b = c_low (cs ! j))"
proof (induction b)
  case (Suc b)
  then show ?case
  proof (cases "a \<le> b")
    case True
    then show ?thesis using Suc by (auto simp: lowest_Suc less_Suc_eq)
  qed (simp add: lowest_def)
qed (simp add: lowest_def)

interpretation donchian_upper: causal_series "\<lambda>cs. b_upper (donchian_channels cs period)" for period
  unfolding donchian_channels_def Let_def bands.simps by (intro causal_fill) (simp add: highest_take)

interpretation donchian_middle: causal_series "\<lambda>cs. b_middle (donchian_channels cs period)" for period
  unfolding donchian_channels_def Let_def bands.simps
  by (intro causal_fill) (simp add: highest_take lowest_take)

interpretation donchian_lower: causal_series "\<lambda>cs. b_lower (donchian_channels cs period)" for period
  unfolding donchian_channels_def Let_def bands.simps by (intro causal_fill) (simp add: lowest_take)

lemma donchian_contains:
  assumes "period \<le> Suc i" "i < length cs" "Suc i \<le> j + period" "j \<le> i" "ohlc_ok (cs ! j)"
  shows "b_lower (donchian_channels cs period) ! i \<le> c_close (cs ! j)"
    and "c_close (cs ! j) \<le> b_upper (donchian_channels cs period) ! i"
proof -
  have c: "c_low (cs ! j) \<le> c_close (cs ! j)" "c_close (cs ! j) \<le> c_high (cs ! j)"
    using assms(5) by (auto simp: ohlc_ok_def)
  have "lowest cs (Suc i - period) (Suc i) \<le> c_low (cs ! j)"
    using assms le_jsnum_not_NaN [OF c(1)] by (intro lowest_le) auto
  with c(1) show "b_lower (donchian_channels cs period) ! i \<le> c_close (cs ! j)"
    using assms by (auto simp: donchian_channels_def Let_def intro: le_jsnum_trans)
  have "c_high (cs ! j) \<le> highest cs (Suc i - period) (Suc i)"
    using assms le_jsnum_not_NaN [OF c(2)] by (intro highest_ge) auto
  with c(2) show "c_close (cs ! j) \<le> b_upper (donchian_channels cs period) ! i"
    using assms by (auto simp: donchian_channels_def Let_def intro: le_jsnum_trans)
qed

section \<open>Ichimoku and pivot points\<close>

lemma midline_take: "i < n \<Longrightarrow> midline (take n cs) period i = midline cs period i"
  by (simp add: midline_def highest_take lowest_take)

interpretation tenkan_series: causal_series "\<lambda>cs. tenkan (ichimoku cs t k s)" for t k s
  by unfold_locales (auto simp: ichimoku_def Let_def take_map midline_take)

interpretation kijun_series: causal_series "\<lambda>cs. kijun (ichimoku cs t k s)" for t k s
  by unfold_locales (auto simp: ichimoku_def Let_def take_map midline_take)

interpretation senkou_a_series: causal_series "\<lambda>cs. senkou_a (ichimoku cs t k s)" for t k s
  by unfold_locales (auto simp: ichimoku_def Let_def take_map midline_take)

interpretation senkou_b_series: causal_series "\<lambda>cs. senkou_b (ichimoku cs t k s)" for t k s
  by unfold_locales (auto simp: ichimoku_def Let_def take_map midline_take)

lemma dbl_typical: "dbl (typical c)"
  by (simp add: typical_def)

text \<open>The outer second levels enclose the pivot.\<close>

lemma pivot_encloses:
  assumes "0 < i" "i < length cs" "ohlc_ok (cs ! (i - 1))"
    and "s2 (pivot_points cs) ! i \<noteq> NaN" "r2 (pivot_points cs) ! i \<noteq> NaN"
  shows "s2 (pivot_points cs) ! i \<le> pp (pivot_points cs) ! i"
    and "pp (pivot_points cs) ! i \<le> r2 (pivot_points cs) ! i"
proof -
  define c where "c = cs ! (i - 1)"
  have "c_low c \<le> c_high c" using assms(3) unfolding ohlc_ok_def c_def by (blast intro: le_jsnum_trans)
  then have "nonneg (c_high c - c_low c)" using minus_nonneg by (auto simp: nonneg_def)
  moreover have "s2 (pivot_points cs) ! i = typical c - (c_high c - c_low c)"
    "r2 (pivot_points cs) ! i = typical c + (c_high c - c_low c)"
    "pp (pivot_points cs) ! i = typical c"
    using assms(1,2) by (simp_all add: pivot_points_def c_def)
  ultimately show "s2 (pivot_points cs) ! i \<le> pp (pivot_points cs) ! i"
    and "pp (pivot_points cs) ! i \<le> r2 (pivot_points cs) ! i"
    using assms(4,5) by (auto intro: minus_le plus_ge dbl_typical)
qed

section \<open>Parabolic SAR\<close>

lemma psar_lengths: "2 \<le> length cs \<Longrightarrow>
    length (t_line (psar cs st mx)) = length cs \<and> length (t_dir (psar cs st mx)) = length cs"
  by (auto simp: psar_def Let_def)

lemma psar_step_take: "0 < i \<Longrightarrow> i < n \<Longrightarrow> psar_step (take n cs) st mx s i = psar_step cs st mx s i"
  by (simp add: psar_step_def Let_def)

lemma psar_prefix:
  assumes "2 \<le> n" "n \<le> length cs"
  shows "t_line (psar (take n cs) st mx) = take n (t_line (psar cs st mx))"
    and "t_dir (psar (take n cs) st mx) = take n (t_dir (psar cs st mx))"
proof -
  have start: "psar_start (take n cs) st = psar_start cs st"
    using assms by (simp add: psar_start_def Let_def)
  have "scan_loop (psar_step (take n cs) st mx) s [1..<n] = take (n - 1) (scan_loop (psar_step cs st mx) s [1..<length cs])" for s
    using assms by (auto simp: take_scan_loop psar_step_take intro!: scan_loop_cong)
  then show "t_line (psar (take n cs) st mx) = take n (t_line (psar cs st mx))"
    and "t_dir (psar (take n cs) st mx) = take n (t_dir (psar cs st mx))"
    using assms by (auto simp: psar_def Let_def start take_Cons' take_map min_def)
qed

text \<open>The state before bar \<open>i\<close>: its side is the direction of the bar before.\<close>

definition psar_before :: "candle list \<Rightarrow> jsnum \<Rightarrow> jsnum \<Rightarrow> nat \<Rightarrow> psar_state" where
  "psar_before cs st mx i = scan_state (psar_step cs st mx) (psar_start cs st) [1..<i]"

lemma psar_before_Suc:
  "0 < i \<Longrightarrow> psar_before cs st mx (Suc i) = fst (psar_step cs st mx (psar_before cs st mx i) i)"
  by (simp add: psar_before_def)

lemma psar_bar:
  assumes "0 < i" "i < length cs"
  shows "t_line (psar cs st mx) ! i = fst (snd (psar_step cs st mx (psar_before cs st mx i) i))"
    and "t_dir (psar cs st mx) ! i = snd (snd (psar_step cs st mx (psar_before cs st mx i) i))"
proof -
  have "take (i - 1) [1..<length cs] = [1..<i]" using assms by simp
  then show "t_line (psar cs st mx) ! i = fst (snd (psar_step cs st mx (psar_before cs st mx i) i))"
    and "t_dir (psar cs st mx) ! i = snd (snd (psar_step cs st mx (psar_before cs st mx i) i))"
    using assms by (auto simp: psar_def Let_def nth_Cons' psar_before_def nth_scan_loop)
qed

lemma psar_step_dir:
  "snd (snd (psar_step cs st mx s i)) = (if is_long (fst (psar_step cs st mx s i)) then 1 else - 1)"
  by (auto simp: psar_step_def Let_def)

lemma psar_dir_is_long:
  "0 < i \<Longrightarrow> i < length cs \<Longrightarrow>
     t_dir (psar cs st mx) ! i = (if is_long (psar_before cs st mx (Suc i)) then 1 else - 1)"
  by (simp add: psar_bar psar_step_dir psar_before_Suc)

text \<open>While the direction does not turn, the SAR stays on its side of the last three candles.\<close>

lemma psar_step_long:
  assumes "is_long s" "is_long (fst (psar_step cs st mx s i))" "fst (snd (psar_step cs st mx s i)) \<noteq> NaN"
    and "c_low (cs ! i) \<noteq> NaN"
  shows "fst (snd (psar_step cs st mx s i)) \<le> c_low (cs ! i)"
    and "fst (snd (psar_step cs st mx s i)) \<le> c_low (cs ! (i - 1))"
proof -
  define x where "x = prev_sar s + af s * (ep s - prev_sar s)"
  define y where "y = math_min x (c_low (cs ! (i - 1)))"
  define z where "z = (if 1 < i then c_low (cs ! (i - 2)) else c_low (cs ! (i - 1)))"
  have sar: "fst (snd (psar_step cs st mx s i)) = math_min y z" and "\<not> c_low (cs ! i) < math_min y z"
    using assms(1,2) by (auto simp: psar_step_def Let_def x_def y_def z_def split: if_splits)
  moreover from sar assms(3) have "y \<noteq> NaN" "z \<noteq> NaN" by auto
  ultimately show "fst (snd (psar_step cs st mx s i)) \<le> c_low (cs ! i)"
    using assms(3,4) by (simp add: not_less_jsnum)
  from \<open>y \<noteq> NaN\<close> have "x \<noteq> NaN" "c_low (cs ! (i - 1)) \<noteq> NaN" by (auto simp: y_def)
  then have "y \<le> c_low (cs ! (i - 1))" unfolding y_def by (rule math_min_le [THEN conjunct2])
  moreover have "math_min y z \<le> y" using \<open>y \<noteq> NaN\<close> \<open>z \<noteq> NaN\<close> by (rule math_min_le [THEN conjunct1])
  ultimately show "fst (snd (psar_step cs st mx s i)) \<le> c_low (cs ! (i - 1))"
    unfolding sar by (blast intro: le_jsnum_trans)
qed

lemma psar_step_short:
  assumes "\<not> is_long s" "\<not> is_long (fst (psar_step cs st mx s i))" "fst (snd (psar_step cs st mx s i)) \<noteq> NaN"
    and "c_high (cs ! i) \<noteq> NaN"
  shows "c_high (cs ! i) \<le> fst (snd (psar_step cs st mx s i))"
    and "c_high (cs ! (i - 1)) \<le> fst (snd (psar_step cs st mx s i))"
proof -
  define x where "x = prev_sar s + af s * (ep s - prev_sar s)"
  define y where "y = math_max x (c_high (cs ! (i - 1)))"
  define z where "z = (if 1 < i then c_high (cs ! (i - 2)) else c_high (cs ! (i - 1)))"
  have sar: "fst (snd (psar_step cs st mx s i)) = math_max y z" and "\<not> math_max y z < c_high (cs ! i)"
    using assms(1,2) by (auto simp: psar_step_def Let_def x_def y_def z_def split: if_splits)
  moreover from sar assms(3) have "y \<noteq> NaN" "z \<noteq> NaN" by auto
  ultimately show "c_high (cs ! i) \<le> fst (snd (psar_step cs st mx s i))"
    using assms(3,4) by (simp add: not_less_jsnum)
  from \<open>y \<noteq> NaN\<close> have "x \<noteq> NaN" "c_high (cs ! (i - 1)) \<noteq> NaN" by (auto simp: y_def)
  then have "c_high (cs ! (i - 1)) \<le> y" unfolding y_def by (rule math_max_ge [THEN conjunct2])
  moreover have "y \<le> math_max y z" using \<open>y \<noteq> NaN\<close> \<open>z \<noteq> NaN\<close> by (rule math_max_ge [THEN conjunct1])
  ultimately show "c_high (cs ! (i - 1)) \<le> fst (snd (psar_step cs st mx s i))"
    unfolding sar by (blast intro: le_jsnum_trans)
qed

text \<open>The acceleration factor never passes its maximum.\<close>

lemma psar_af_le:
  assumes "st \<le> mx"
  shows "af (psar_before cs st mx i) = NaN \<or> af (psar_before cs st mx i) \<le> mx"
proof -
  have "af s = NaN \<or> af s \<le> mx \<Longrightarrow>
      af (fst (psar_step cs st mx s j)) = NaN \<or> af (fst (psar_step cs st mx s j)) \<le> mx" for s j
    using assms le_jsnum_not_NaN [OF assms] math_min_le [of "af s + st" mx]
    by (auto simp: psar_step_def Let_def)
  moreover have "af (psar_start cs st) \<le> mx" using assms by (simp add: psar_start_def Let_def)
  ultimately show ?thesis unfolding psar_before_def
    by (intro scan_state_invariant [where P = "\<lambda>s. af s = NaN \<or> af s \<le> mx"]) auto
qed

section \<open>SuperTrend\<close>

lemma length_supertrend_bars [simp]: "length (supertrend_bars cs p mult) = length cs"
  by (simp add: supertrend_bars_def)

lemma supertrend_bars_prefix:
  assumes "n \<le> length cs" "2 \<le> p"
  shows "supertrend_bars (take n cs) p mult = take n (supertrend_bars cs p mult)"
proof -
  have "supertrend_step (take n cs) (atr (take n cs) p) mult s i = supertrend_step cs (atr cs p) mult s i"
    if "i < n" for s i
    using that assms by (simp add: supertrend_step_def atr_prefix)
  then show ?thesis
    using assms(1) by (auto simp: supertrend_bars_def take_scan_loop min_def intro!: scan_loop_cong)
qed

interpretation supertrend_line: causal_series "\<lambda>cs. t_line (supertrend cs (Suc (Suc p)) mult)" for p mult
  by unfold_locales (auto simp: supertrend_def supertrend_bars_prefix take_map)

interpretation supertrend_dir: causal_series "\<lambda>cs. t_dir (supertrend cs (Suc (Suc p)) mult)" for p mult
  by unfold_locales (auto simp: supertrend_def supertrend_bars_prefix take_map)

definition st_before :: "candle list \<Rightarrow> nat \<Rightarrow> jsnum \<Rightarrow> nat \<Rightarrow> st_state" where
  "st_before cs p mult i = scan_state (supertrend_step cs (atr cs p) mult) st_start [0..<i]"

lemma st_before_Suc:
  "st_before cs p mult (Suc i) = fst (supertrend_step cs (atr cs p) mult (st_before cs p mult i) i)"
  by (simp add: st_before_def)

lemma supertrend_bar:
  assumes "i < length cs"
  shows "supertrend_bars cs p mult ! i =
    snd (supertrend_step cs (atr cs p) mult (st_before cs p mult i) i)"
  using assms by (simp add: supertrend_bars_def nth_scan_loop st_before_def)

text \<open>The bands after bar \<open>i\<close> and what the bar reports of them.\<close>

lemma supertrend_reports:
  assumes "i < length cs" "num_at (atr cs p) i \<noteq> NaN"
  shows "t_dir (supertrend cs p mult) ! i = prev_dir (st_before cs p mult (Suc i))"
    and "t_line (supertrend cs p mult) ! i =
      (if prev_dir (st_before cs p mult (Suc i)) = 1 then prev_lower (st_before cs p mult (Suc i))
       else prev_upper (st_before cs p mult (Suc i)))"
    and "prev_dir (st_before cs p mult (Suc i)) \<in> {1, - 1}"
  using assms
  by (simp_all add: supertrend_def supertrend_bar st_before_Suc supertrend_step_def Let_def is_nan_def)

text \<open>A bar whose mid price is finite and whose range is known.\<close>

definition st_regular :: "candle list \<Rightarrow> nat \<Rightarrow> nat \<Rightarrow> bool" where
  "st_regular cs p i \<longleftrightarrow> is_finite ((c_high (cs ! i) + c_low (cs ! i)) / Fin 2) \<and> num_at (atr cs p) i \<noteq> NaN"

lemma st_bands_step:
  assumes "st_regular cs p i" "0 < m"
  defines "s \<equiv> st_before cs p (Fin m) i" and "s' \<equiv> st_before cs p (Fin m) (Suc i)"
  shows "prev_upper s' \<noteq> NaN" "prev_lower s' \<noteq> NaN"
    and "prev_upper s \<noteq> NaN \<Longrightarrow> prev_upper s' \<le> prev_upper s"
    and "prev_lower s \<noteq> NaN \<Longrightarrow> prev_lower s \<le> prev_lower s'"
proof -
  obtain q where mid: "(c_high (cs ! i) + c_low (cs ! i)) / Fin 2 = Fin q"
    using assms(1) by (auto simp: st_regular_def is_finite_iff)
  define d where "d = Fin m * num_at (atr cs p) i"
  have "num_at (atr cs p) i \<noteq> NaN" using assms(1) by (simp add: st_regular_def)
  then have "d \<noteq> NaN" using assms(2) by (cases "num_at (atr cs p) i") (auto simp: d_def signed_inf_def)
  then have nn: "Fin q + d \<noteq> NaN" "Fin q - d \<noteq> NaN" by (cases d; simp add: minus_jsnum_def)+
  have s': "prev_upper s' = (if prev_upper s = NaN then Fin q + d else math_min (Fin q + d) (prev_upper s))"
    "prev_lower s' = (if prev_lower s = NaN then Fin q - d else math_max (Fin q - d) (prev_lower s))"
    using assms(1)
    by (simp_all add: s'_def s_def st_before_Suc supertrend_step_def Let_def is_nan_def mid st_regular_def d_def)
  show "prev_upper s' \<noteq> NaN" "prev_lower s' \<noteq> NaN" using nn by (auto simp: s')
  show "prev_upper s' \<le> prev_upper s" if "prev_upper s \<noteq> NaN"
    using nn that math_min_le by (auto simp: s')
  show "prev_lower s \<le> prev_lower s'" if "prev_lower s \<noteq> NaN"
    using nn that math_max_ge by (auto simp: s')
qed

lemma st_bands_mono:
  assumes "\<And>k. i \<le> k \<Longrightarrow> k \<le> i + n \<Longrightarrow> st_regular cs p k" "0 < m"
  shows "prev_lower (st_before cs p (Fin m) (Suc i)) \<le> prev_lower (st_before cs p (Fin m) (Suc (i + n)))
    \<and> prev_upper (st_before cs p (Fin m) (Suc (i + n))) \<le> prev_upper (st_before cs p (Fin m) (Suc i))"
  using assms(1)
proof (induction n)
  case 0
  then show ?case using st_bands_step(1,2) [of cs p i m] assms(2) by simp
next
  case (Suc n)
  then have IH: "prev_lower (st_before cs p (Fin m) (Suc i)) \<le> prev_lower (st_before cs p (Fin m) (Suc (i + n)))"
    "prev_upper (st_before cs p (Fin m) (Suc (i + n))) \<le> prev_upper (st_before cs p (Fin m) (Suc i))"
    by simp_all
  have reg: "st_regular cs p (Suc (i + n))" using Suc.prems by simp
  have "prev_lower (st_before cs p (Fin m) (Suc (i + n))) \<le> prev_lower (st_before cs p (Fin m) (Suc (Suc (i + n))))"
    using le_jsnum_not_NaN [OF IH(1)] by (intro st_bands_step(4) [OF reg assms(2)]) simp
  moreover have "prev_upper (st_before cs p (Fin m) (Suc (Suc (i + n)))) \<le> prev_upper (st_before cs p (Fin m) (Suc (i + n)))"
    using le_jsnum_not_NaN [OF IH(2)] by (intro st_bands_step(3) [OF reg assms(2)]) simp
  ultimately show ?case using IH by (auto intro: le_jsnum_trans)
qed

text \<open>
  The bands never loosen, not even when the direction turns: between two bars of the same
  direction the line of an uptrend does not fall and that of a downtrend does not rise.
\<close>

lemma supertrend_ratchet:
  assumes "i \<le> j" "j < length cs" "\<And>k. i \<le> k \<Longrightarrow> k \<le> j \<Longrightarrow> st_regular cs p k" "0 < m"
    and "t_dir (supertrend cs p (Fin m)) ! i = t_dir (supertrend cs p (Fin m)) ! j"
  shows "(t_dir (supertrend cs p (Fin m)) ! i = 1 \<and>
          t_line (supertrend cs p (Fin m)) ! i \<le> t_line (supertrend cs p (Fin m)) ! j) \<or>
         (t_dir (supertrend cs p (Fin m)) ! i = - 1 \<and>
          t_line (supertrend cs p (Fin m)) ! j \<le> t_line (supertrend cs p (Fin m)) ! i)"
proof -
  have i: "i < length cs" "num_at (atr cs p) i \<noteq> NaN" "num_at (atr cs p) j \<noteq> NaN"
    using assms by (auto simp: st_regular_def)
  obtain n where n: "j = i + n" using assms(1) le_Suc_ex by blast
  show ?thesis
    using st_bands_mono [of i n cs p m] assms(3-5) n supertrend_reports [OF i(1,2), of "Fin m"]
      supertrend_reports [OF assms(2) i(3), of "Fin m"]
    by auto
qed

text \<open>Once the bands have crossed, a close between them turns the direction at every bar.\<close>

lemma supertrend_flips:
  assumes "st_regular cs p i" "i < length cs"
    and "prev_upper (st_before cs p mult (Suc i)) < c_close (cs ! i)"
    and "c_close (cs ! i) < prev_lower (st_before cs p mult (Suc i))"
  shows "(prev_dir (st_before cs p mult (Suc i)) = 1) \<noteq> (prev_dir (st_before cs p mult i) = 1)"
  using assms
  by (simp add: st_before_Suc supertrend_step_def Let_def is_nan_def st_regular_def split: if_splits)

end
