(* ===== verification/StrategyFacts.thy ===== *)
theory StrategyFacts
  imports Strategies TrendFacts
begin

text \<open>
  The contract of a strategy: whatever the candles are, its confidence is a percentage (or,
  for the strategies the engine does not run, NaN where a division by a zero price makes
  it so), and it has no opinion before its warm-up. \<open>strategy_contract\<close> states it,
  \<open>sound_strategy\<close> adds that the confidence is a number; both are interpreted on the
  modules of the code.
\<close>

section \<open>The contract\<close>

locale strategy_contract =
  fixes run :: "candle list \<Rightarrow> strategy_result" and warmup :: nat
  assumes confidence: "ranged 0 100 (res_confidence (run cs))"
    and quiet: "length cs < warmup \<Longrightarrow> res_signal (run cs) = Neutral \<and> res_confidence (run cs) = Fin 0"
begin

lemma never_overconfident: "\<not> Fin 100 < res_confidence (run cs)"
  using confidence [of cs] by (auto simp: ranged_def)

lemma opinion_needs_history: "res_signal (run cs) \<noteq> Neutral \<Longrightarrow> warmup \<le> length cs"
  using quiet [of cs] by linarith

end

locale sound_strategy = strategy_contract +
  assumes is_number: "res_confidence (run cs) \<noteq> NaN"
begin

lemma percentage: "between 0 100 (res_confidence (run cs))"
  using confidence [of cs] is_number [of cs] by (simp add: ranged_def)

end

section \<open>Confidences\<close>

lemma res_no_opinion [simp]:
  "res_signal (no_opinion m d) = Neutral" "res_confidence (no_opinion m d) = Fin 0"
  by (simp_all add: no_opinion_def)

lemma res_opinion [simp]:
  "res_signal (opinion m r) = fst r" "res_confidence (opinion m r) = math_round (fst (snd r))"
  "res_detail (opinion m r) = snd (snd r)" "res_name (opinion m r) = meta_name m"
  by (simp_all add: opinion_def split_beta)

lemma between_round: "between a b x \<Longrightarrow> between a b (math_round x)"
  unfolding between_def using math_round_between by blast

lemma between_not_NaN: "between a b x \<Longrightarrow> x \<noteq> NaN"
  by (auto simp: between_def)

lemma ranged_round: "ranged a b x \<Longrightarrow> ranged a b (math_round x)"
  by (auto simp: ranged_def intro: between_round)

text \<open>\<open>Math.min(base + d, cap)\<close> with \<open>d\<close> not negative.\<close>

lemma ranged_capped:
  assumes "nonneg d" "numeral n \<le> (100 :: int)"
  shows "ranged 0 100 (math_min (Fin (numeral m) + d) (Fin (numeral n)))"
proof (cases "d = NaN")
  case False
  with assms(1) have lo: "Fin 0 \<le> Fin (numeral m) + d" by (intro plus_nonneg nonnegD) auto
  then have "math_min (Fin (numeral m) + d) (Fin (numeral n)) \<le> Fin (numeral n)"
    using le_jsnum_not_NaN [OF lo] by (intro math_min_le [THEN conjunct2]) auto
  moreover have "Fin (numeral n) \<le> Fin 100"
    using assms(2) by (simp only: less_eq_jsnum.simps) (metis of_int_le_iff of_int_numeral)
  ultimately have "math_min (Fin (numeral m) + d) (Fin (numeral n)) \<le> Fin 100"
    by (rule le_jsnum_trans)
  moreover have "Fin 0 \<le> math_min (Fin (numeral m) + d) (Fin (numeral n))"
    by (rule math_min_ge [OF lo]) simp
  ultimately show ?thesis by (simp add: ranged_def between_def)
qed (simp add: ranged_def)

lemma between_capped:
  "nonneg d \<Longrightarrow> d \<noteq> NaN \<Longrightarrow> numeral n \<le> (100 :: int) \<Longrightarrow>
     between 0 100 (math_min (Fin (numeral m) + d) (Fin (numeral n)))"
  using ranged_capped [of d n m] by (cases d) (auto simp: ranged_def)

lemma times_Fin_not_NaN [simp]: "0 < r \<Longrightarrow> x * Fin r = NaN \<longleftrightarrow> x = NaN"
  by (cases x) (auto simp: signed_inf_def)

lemma nonneg_times_Fin: "nonneg x \<Longrightarrow> 0 \<le> r \<Longrightarrow> nonneg (x * Fin r)"
  by (auto intro: nonneg_times)

lemma nonneg_diff: "y \<le> x \<Longrightarrow> nonneg (x - y)"
  using minus_nonneg by (auto simp: nonneg_def)

lemma diff_Fin_not_NaN [simp]: "x - Fin r = NaN \<longleftrightarrow> x = NaN" "Fin r - x = NaN \<longleftrightarrow> x = NaN"
  by (cases x; simp add: minus_jsnum_def)+

lemma ema_cross_conf:
  "between 0 100 (fst (snd (ema_cross_decide f s pf ps a)))"
proof -
  define sp where "sp = \<bar>((f - s) / s) * Fin 100\<bar>"
  have "between 0 100 (math_min (Fin 60 + sp * Fin 4) (Fin 82))"
    "between 0 100 (math_min (Fin 55 + sp * Fin 3) (Fin 72))"
    "between 0 100 (math_min (Fin 45 + sp * Fin 2) (Fin 55))" if "lit (15 / 100) < sp"
  proof -
    have "sp \<noteq> NaN" using that by auto
    moreover have "nonneg sp" by (auto simp: sp_def)
    ultimately show "between 0 100 (math_min (Fin 60 + sp * Fin 4) (Fin 82))"
      "between 0 100 (math_min (Fin 55 + sp * Fin 3) (Fin 72))"
      "between 0 100 (math_min (Fin 45 + sp * Fin 2) (Fin 55))"
      by (auto intro!: between_capped nonneg_times_Fin)
  qed
  then show ?thesis
    by (simp add: ema_cross_decide_def Let_def sp_def [symmetric] del: abs_jsnum.simps)
qed

lemma rsi_momentum_conf: "between 0 100 (fst (snd (rsi_momentum_decide c p q)))"
proof -
  have "between 0 100 (math_min (Fin 70 + (c - Fin 75) * Fin 2) (Fin 92))" if "Fin 75 \<le> c"
    using that le_jsnum_not_NaN [OF that] by (intro between_capped nonneg_times_Fin nonneg_diff) auto
  moreover have "between 0 100 (math_min (Fin 70 + (Fin 25 - c) * Fin 2) (Fin 92))" if "c \<le> Fin 25"
    using that le_jsnum_not_NaN [OF that] by (intro between_capped nonneg_times_Fin nonneg_diff) auto
  ultimately show ?thesis by (simp add: rsi_momentum_decide_def Let_def)
qed

lemma nonneg_less: "Fin r < x \<Longrightarrow> 0 \<le> r \<Longrightarrow> nonneg x"
  by (cases x) auto

lemma vwap_conf: "between 0 100 (fst (snd (vwap_decide c v u l)))"
proof -
  define d where "d = (if is_nan v then Fin 0 else ((c - v) / v) * Fin 100)"
  have "between 0 100 (math_min (Fin 65 + d * Fin 3) (Fin 85))" if "Fin (1 / 2) < d"
    using that nonneg_less [OF that] by (intro between_capped nonneg_times_Fin) auto
  moreover have "between 0 100 (math_min (Fin 65 + \<bar>d\<bar> * Fin 3) (Fin 85))" if "d < Fin (- 1 / 2)"
    using that by (intro between_capped nonneg_times_Fin) auto
  ultimately show ?thesis
    unfolding vwap_decide_def Let_def d_def [symmetric] by (simp del: abs_jsnum.simps)
qed

lemma golden_rsi_conf: "between 0 100 (fst (snd (golden_rsi_decide c p q lc s e pe)))"
  by (simp add: golden_rsi_decide_def Let_def)

lemma trend_detector_conf: "between 0 100 (fst (snd (trend_detector_decide t)))"
  by (simp add: trend_detector_decide_def Let_def)

section \<open>The engine's strategies keep the contract\<close>

lemma sound_strategyI:
  assumes "\<And>cs. warmup \<le> length cs \<Longrightarrow> between 0 100 (res_confidence (run cs))"
    and "\<And>cs. length cs < warmup \<Longrightarrow> res_signal (run cs) = Neutral \<and> res_confidence (run cs) = Fin 0"
  shows "sound_strategy run warmup"
proof -
  have "between 0 100 (res_confidence (run cs))" for cs
    using assms [of cs] by (cases "length cs < warmup") auto
  then have "between 0 100 (res_confidence (run cs))" "res_confidence (run cs) \<noteq> NaN" for cs
    by (auto dest: between_not_NaN)
  then show ?thesis using assms(2) by unfold_locales (auto simp: ranged_def)
qed

interpretation ema_cross: sound_strategy ema_cross 30
  by (rule sound_strategyI) (auto simp: ema_cross_def Let_def intro: between_round ema_cross_conf)

interpretation rsi_momentum: sound_strategy rsi_momentum 20
  by (rule sound_strategyI) (auto simp: rsi_momentum_def Let_def intro: between_round rsi_momentum_conf)

interpretation vwap_strategy: sound_strategy vwap_strategy 25
  by (rule sound_strategyI) (auto simp: vwap_strategy_def Let_def intro: between_round vwap_conf)

interpretation golden_rsi: sound_strategy golden_rsi 55
  by (rule sound_strategyI) (auto simp: golden_rsi_def Let_def intro: between_round golden_rsi_conf)

interpretation trend_detector: sound_strategy trend_detector 40
  by (rule sound_strategyI) (auto simp: trend_detector_def Let_def intro: between_round trend_detector_conf)

section \<open>The other strategies\<close>

lemma strategy_contractI:
  assumes "\<And>cs. warmup \<le> length cs \<Longrightarrow> ranged 0 100 (res_confidence (run cs))"
    and "\<And>cs. length cs < warmup \<Longrightarrow> res_signal (run cs) = Neutral \<and> res_confidence (run cs) = Fin 0"
  shows "strategy_contract run warmup"
proof -
  have "ranged 0 100 (res_confidence (run cs))" for cs
    using assms [of cs] by (cases "length cs < warmup") auto
  then show ?thesis using assms(2) by unfold_locales auto
qed

lemma moving_average_conf: "ranged 0 100 (fst (snd (moving_average_decide f s pf ps)))"
  by (auto simp: moving_average_decide_def Let_def intro!: ranged_capped nonneg_times_Fin)

lemma nonneg_lit: "0 \<le> r \<Longrightarrow> nonneg (lit r)"
  by auto

lemma adx_conf: "ranged 0 100 (fst (snd (adx_decide a p m)))"
proof -
  have "ranged 0 100 (math_min (Fin 55 + (a - Fin 20) * lit (12 / 10)) (Fin 92))" if "Fin 20 < a"
    using that by (intro ranged_capped nonneg_times nonneg_diff nonneg_lit) (auto dest: less_jsnum_imp_le)
  then show ?thesis by (auto simp: adx_decide_def Let_def)
qed

lemma cci_part_range: "between 0 100 c \<Longrightarrow> ranged 0 100 (Fin 55 + (c / Fin 100) * Fin 15)"
proof -
  assume "between 0 100 c"
  then obtain r where r: "c = Fin r" "0 \<le> r" "r \<le> 100" by auto
  then have "between 0 1 (rnd (r / 100))" by (intro between_rnd) auto
  then have "ranged 0 1 (rnd (r / 100))" by (rule between_ranged)
  from ranged_times_int [OF this, of 15] have "ranged 0 15 (rnd (r / 100) * Fin 15)" by simp
  from ranged_plus [OF _ this, of 55 55 "Fin 55"]
  have "ranged 55 70 (Fin 55 + rnd (r / 100) * Fin 15)" by simp
  then have "ranged 0 100 (Fin 55 + rnd (r / 100) * Fin 15)" by (auto simp: ranged_def)
  with r show ?thesis by simp
qed

lemma cci_conf: "ranged 0 100 (fst (snd (cci_decide c)))"
proof -
  have "ranged 0 100 (math_min (Fin 70 + (c - Fin 100) * lit (15 / 100)) (Fin 95))" if "Fin 100 < c"
    using that by (intro ranged_capped nonneg_times nonneg_diff nonneg_lit) (auto dest: less_jsnum_imp_le)
  moreover have "ranged 0 100 (math_min (Fin 70 + \<bar>c + Fin 100\<bar> * lit (15 / 100)) (Fin 95))"
    by (intro ranged_capped nonneg_times nonneg_abs nonneg_lit) auto
  moreover have "ranged 0 100 (Fin 55 + (c / Fin 100) * Fin 15)" if "Fin 0 < c" "\<not> Fin 100 < c"
    using that by (intro cci_part_range) (cases c; auto)
  moreover have "ranged 0 100 (Fin 55 + (\<bar>c\<bar> / Fin 100) * Fin 15)" if "c < Fin 0" "\<not> c < Fin (- 100)"
    using that by (intro cci_part_range) (cases c; auto)
  ultimately show ?thesis
    unfolding cci_decide_def Let_def by (auto simp del: abs_jsnum.simps)
qed

lemma macd_hist_conf: "ranged 0 100 (fst (snd (macd_hist_decide m s h p)))"
  by (auto simp: macd_hist_decide_def Let_def)

lemma stochastic_conf: "ranged 0 100 (fst (snd (stochastic_decide k d)))"
proof -
  have "ranged 0 100 (math_min (Fin 65 + (k - Fin 80) * Fin (3 / 2)) (Fin 95))" if "Fin 80 < k"
    using that by (intro ranged_capped nonneg_times_Fin nonneg_diff) (auto dest: less_jsnum_imp_le)
  moreover have "ranged 0 100 (math_min (Fin 65 + (Fin 20 - k) * Fin (3 / 2)) (Fin 95))" if "k < Fin 20"
    using that by (intro ranged_capped nonneg_times_Fin nonneg_diff) (auto dest: less_jsnum_imp_le)
  ultimately show ?thesis by (auto simp: stochastic_decide_def Let_def)
qed

lemma ichimoku_conf: "ranged 0 100 (fst (snd (ichimoku_decide c t k a b)))"
  by (auto simp: ichimoku_decide_def Let_def)

lemma hma_conf: "ranged 0 100 (fst (snd (hma_decide f s p)))"
  by (auto simp: hma_decide_def Let_def intro!: ranged_capped nonneg_times_Fin)

lemma supertrend_conf: "ranged 0 100 (fst (snd (supertrend_decide c l d p)))"
  by (auto simp: supertrend_decide_def Let_def intro!: ranged_capped nonneg_times_Fin)

lemma bollinger_conf:
  assumes "l \<le> m" "m \<le> u"
  shows "ranged 0 100 (fst (snd (bollinger_decide c u m l)))"
proof -
  have "ranged 0 100 (math_min (Fin 65 + ((c - u) / (u - m)) * Fin 100 * Fin (1 / 2)) (Fin 92))" if "u < c"
    using that assms
    by (intro ranged_capped nonneg_times_Fin nonneg_divide nonneg_diff) (auto dest: less_jsnum_imp_le)
  moreover have "ranged 0 100 (math_min (Fin 65 + ((l - c) / (m - l)) * Fin 100 * Fin (1 / 2)) (Fin 92))" if "c < l"
    using that assms
    by (intro ranged_capped nonneg_times_Fin nonneg_divide nonneg_diff) (auto dest: less_jsnum_imp_le)
  ultimately show ?thesis by (auto simp: bollinger_decide_def Let_def)
qed

interpretation moving_average: strategy_contract moving_average 50
  by (rule strategy_contractI) (auto simp: moving_average_def Let_def intro: ranged_round moving_average_conf)

interpretation adx_strategy: strategy_contract adx_strategy 30
  by (rule strategy_contractI) (auto simp: adx_strategy_def Let_def intro: ranged_round adx_conf)

interpretation cci_strategy: strategy_contract cci_strategy 16
  by (rule strategy_contractI) (auto simp: cci_strategy_def Let_def intro: ranged_round cci_conf)

interpretation macd_histogram: strategy_contract macd_histogram_strategy 35
  by (rule strategy_contractI) (auto simp: macd_histogram_strategy_def Let_def intro: ranged_round macd_hist_conf)

interpretation stochastic_strategy: strategy_contract stochastic_strategy 20
  by (rule strategy_contractI) (auto simp: stochastic_strategy_def Let_def intro: ranged_round stochastic_conf)

interpretation ichimoku_strategy: strategy_contract ichimoku_strategy 55
  by (rule strategy_contractI) (auto simp: ichimoku_strategy_def Let_def intro: ranged_round ichimoku_conf)

interpretation hma_strategy: strategy_contract hma_strategy 60
  by (rule strategy_contractI) (auto simp: hma_strategy_def Let_def intro: ranged_round hma_conf)

interpretation supertrend_strategy: strategy_contract supertrend_strategy 15
  by (rule strategy_contractI) (auto simp: supertrend_strategy_def Let_def intro: ranged_round supertrend_conf)

interpretation bollinger_strategy: strategy_contract bollinger_strategy 22
proof (rule strategy_contractI)
  fix cs :: "candle list"
  assume len: "22 \<le> length cs"
  define bb where "bb = bollinger_bands (closes_of cs) 20 (Fin 2)"
  define i where "i = length cs - 1"
  have at: "num_end (b_upper bb) 0 = b_upper bb ! i" "num_end (b_middle bb) 0 = b_middle bb ! i"
    "num_end (b_lower bb) 0 = b_lower bb ! i"
    using len by (auto simp: num_end_def bb_def i_def boll_upper.same_length boll_lower.same_length
        bollinger_bands_def Let_def sma_series.same_length)
  have "num_end (b_lower bb) 0 \<le> num_end (b_middle bb) 0 \<and> num_end (b_middle bb) 0 \<le> num_end (b_upper bb) 0"
    if "num_end (b_lower bb) 0 \<noteq> NaN" "num_end (b_upper bb) 0 \<noteq> NaN"
  proof -
    have "i < length (closes_of cs)" "nonneg (Fin 2)" using len by (auto simp: i_def)
    from bollinger_ordered [OF this, of 20] that show ?thesis unfolding at by (simp add: bb_def)
  qed
  then show "ranged 0 100 (res_confidence (bollinger_strategy cs))"
    using len by (auto simp: bollinger_strategy_def Let_def bb_def [symmetric] is_nan_def
        intro!: ranged_round bollinger_conf)
qed (auto simp: bollinger_strategy_def Let_def)

text \<open>The breakout strategy divides by the close: its confidence is a percentage for prices that are not negative.\<close>

lemma atr_breakout_conf:
  assumes "\<And>c. c \<in> set cs \<Longrightarrow> ohlc_ok c \<and> nonneg (c_close c)"
  shows "ranged 0 100 (res_confidence (atr_breakout cs))"
proof (cases "length cs < 16")
  case False
  define c where "c = c_close (cs ! (length cs - 1))"
  have "nonneg c" using False assms by (auto simp: c_def)
  moreover have "nonneg (num_end (atr cs 14) 0)"
    using atr_nonneg [of cs 14] assms by (auto simp: num_end_def)
  ultimately have "ranged 0 100 (fst (snd (atr_breakout_decide (num_end (atr cs 14) 0) c p)))" for p
    by (auto simp: atr_breakout_decide_def Let_def intro!: ranged_capped nonneg_times_Fin nonneg_divide)
  then show ?thesis using False
    by (auto simp: atr_breakout_def Let_def c_def intro!: ranged_round)
qed (simp add: atr_breakout_def)

end
