(* ===== verification/StrategyEngine.thy ===== *)
theory StrategyEngine
  imports StrategyFacts
begin

text \<open>
  The strategy engine, \<open>frontend/src/strategy/engine/strategyEngine.js\<close>: it runs the enabled
  modules of the registry, turns an exception of one of them into a neutral signal, adds the
  signals up with their weights and decides. A module's \<open>runStrategy\<close> gives \<open>Inl message\<close>
  where it throws.
\<close>

section \<open>Definitions\<close>

record strategy_module =
  mod_meta :: strategy_meta
  mod_run :: "candle list \<Rightarrow> string + strategy_result"

definition strategy_registry :: "strategy_module list" where
  "strategy_registry =
     [\<lparr> mod_meta = ema_cross_meta, mod_run = \<lambda>cs. Inr (ema_cross cs) \<rparr>,
      \<lparr> mod_meta = rsi_momentum_meta, mod_run = \<lambda>cs. Inr (rsi_momentum cs) \<rparr>,
      \<lparr> mod_meta = vwap_meta, mod_run = \<lambda>cs. Inr (vwap_strategy cs) \<rparr>,
      \<lparr> mod_meta = golden_rsi_meta, mod_run = \<lambda>cs. Inr (golden_rsi cs) \<rparr>,
      \<lparr> mod_meta = trend_detector_meta, mod_run = \<lambda>cs. Inr (trend_detector cs) \<rparr>]"

definition get_available_strategies :: "strategy_meta list" where
  "get_available_strategies = map mod_meta strategy_registry"

record engine_signal =
  es_id :: string
  es_name :: string
  es_signal :: signal
  es_confidence :: jsnum
  es_detail :: string
  es_weight :: jsnum

definition run_module :: "candle list \<Rightarrow> strategy_module \<Rightarrow> engine_signal" where
  "run_module cs m =
     (case mod_run m cs of
        Inr r \<Rightarrow> \<lparr> es_id = meta_id (mod_meta m), es_name = res_name r, es_signal = res_signal r,
          es_confidence = res_confidence r, es_detail = res_detail r,
          es_weight = num_or (meta_weight (mod_meta m)) (lit (10 / 100)) \<rparr>
      | Inl message \<Rightarrow> \<lparr> es_id = meta_id (mod_meta m), es_name = meta_name (mod_meta m),
          es_signal = Neutral, es_confidence = Fin 0, es_detail = ''Error: '' @ message,
          es_weight = num_or (meta_weight (mod_meta m)) (lit (10 / 100)) \<rparr>)"

record tally =
  weighted_score :: jsnum
  active_weight :: jsnum
  bullish :: nat
  bearish :: nat
  neutral :: nat
  bull_conf_sum :: jsnum
  bull_weight_sum :: jsnum
  bear_conf_sum :: jsnum
  bear_weight_sum :: jsnum

definition empty_tally :: tally where
  "empty_tally = \<lparr> weighted_score = Fin 0, active_weight = Fin 0, bullish = 0, bearish = 0, neutral = 0,
     bull_conf_sum = Fin 0, bull_weight_sum = Fin 0, bear_conf_sum = Fin 0, bear_weight_sum = Fin 0 \<rparr>"

definition tally_step :: "tally \<Rightarrow> engine_signal \<Rightarrow> tally" where
  "tally_step a s =
     (let w = num_or (es_weight s) (lit (10 / 100));
          conf_factor = num_or (es_confidence s) (Fin 0) / Fin 100
      in case es_signal s of
           Bullish \<Rightarrow> a\<lparr> weighted_score := weighted_score a + w * conf_factor,
             active_weight := active_weight a + w,
             bullish := bullish a + 1,
             bull_conf_sum := bull_conf_sum a + es_confidence s * w,
             bull_weight_sum := bull_weight_sum a + w \<rparr>
         | Bearish \<Rightarrow> a\<lparr> weighted_score := weighted_score a - w * conf_factor,
             active_weight := active_weight a + w,
             bearish := bearish a + 1,
             bear_conf_sum := bear_conf_sum a + es_confidence s * w,
             bear_weight_sum := bear_weight_sum a + w \<rparr>
         | Neutral \<Rightarrow> a\<lparr> neutral := neutral a + 1 \<rparr>)"

definition tally_of :: "engine_signal list \<Rightarrow> tally" where
  "tally_of signals = foldl tally_step empty_tally signals"

datatype verdict = BULLISH | BEARISH | NEUTRAL

definition penalised :: "nat \<Rightarrow> jsnum \<Rightarrow> jsnum" where
  "penalised active confidence =
     (if active = 1 then math_round (confidence * lit (7 / 10))
      else if active < 3 then math_round (confidence * lit (85 / 100))
      else confidence)"

definition average_conf :: "jsnum \<Rightarrow> jsnum \<Rightarrow> jsnum" where
  "average_conf conf_sum weight_sum =
     (if Fin 0 < weight_sum then math_round (conf_sum / weight_sum) else Fin 0)"

text \<open>The decision rules, before the cap.\<close>

definition decide :: "tally \<Rightarrow> verdict \<times> jsnum" where
  "decide a =
     (let active = bullish a + bearish a in
      if 1 \<le> active then
        let norm_score = (if Fin 0 < active_weight a then weighted_score a / active_weight a else Fin 0) in
        if lit (15 / 100) < norm_score \<and> bearish a \<le> bullish a then
          (BULLISH, penalised active (average_conf (bull_conf_sum a) (bull_weight_sum a)))
        else if norm_score < lit (- 15 / 100) \<and> bullish a \<le> bearish a then
          (BEARISH, penalised active (average_conf (bear_conf_sum a) (bear_weight_sum a)))
        else (NEUTRAL, Fin 0)
      else (NEUTRAL, Fin 0))"

definition score_of :: "tally \<Rightarrow> jsnum" where
  "score_of a =
     (if Fin 0 < active_weight a then math_round ((weighted_score a / active_weight a) * Fin 100) else Fin 0)"

text \<open>With no candles the result has no \<open>score\<close> and no \<open>weightedScore\<close>.\<close>

record engine_result =
  er_signals :: "engine_signal list"
  er_overall :: verdict
  er_confidence :: jsnum
  er_score :: "jsnum option"
  er_weighted :: "jsnum option"

definition modules_to_run :: "strategy_module list \<Rightarrow> string list \<Rightarrow> strategy_module list" where
  "modules_to_run registry enabled =
     (if enabled \<noteq> [] then filter (\<lambda>m. meta_id (mod_meta m) \<in> set enabled) registry else registry)"

definition run_engine_with :: "strategy_module list \<Rightarrow> candle list \<Rightarrow> string list \<Rightarrow> engine_result" where
  "run_engine_with registry cs enabled =
     (if cs = [] then \<lparr> er_signals = [], er_overall = NEUTRAL, er_confidence = Fin 0,
        er_score = None, er_weighted = None \<rparr>
      else
        let signals = map (run_module cs) (modules_to_run registry enabled);
            a = tally_of signals;
            (overall, confidence) = decide a
        in \<lparr> er_signals = signals, er_overall = overall, er_confidence = math_min confidence (Fin 92),
             er_score = Some (score_of a), er_weighted = Some (fixed_num 2 (weighted_score a)) \<rparr>)"

definition run_engine :: "candle list \<Rightarrow> string list \<Rightarrow> engine_result" where
  "run_engine = run_engine_with strategy_registry"

section \<open>Bounds of the aggregation\<close>

definition ok_signal :: "engine_signal \<Rightarrow> bool" where
  "ok_signal s \<longleftrightarrow> between 0 100 (es_confidence s) \<and>
     (\<exists>w. es_weight s = Fin w \<and> 0 < w \<and> w \<le> 1 \<and> is_double w)"

text \<open>What the loop keeps after \<open>n\<close> signals.\<close>

definition tally_inv :: "nat \<Rightarrow> tally \<Rightarrow> bool" where
  "tally_inv n a \<longleftrightarrow>
     between (- int n) (int n) (weighted_score a) \<and> between 0 (int n) (active_weight a) \<and>
     within_of (weighted_score a) (active_weight a) \<and>
     between 0 (100 * int n) (bull_conf_sum a) \<and> between 0 (int n) (bull_weight_sum a) \<and>
     between 0 (100 * int n) (bear_conf_sum a) \<and> between 0 (int n) (bear_weight_sum a) \<and>
     bullish a + bearish a + neutral a = n"

lemma between_mono: "between a b x \<Longrightarrow> a' \<le> a \<Longrightarrow> b \<le> b' \<Longrightarrow> between a' b' x"
proof -
  assume "between a b x" and le: "a' \<le> a" "b \<le> b'"
  then obtain r where "x = Fin r" "of_int a \<le> r" "r \<le> of_int b" by (rule_tac betweenE)
  moreover have "(of_int a' :: rat) \<le> of_int a" "(of_int b :: rat) \<le> of_int b'" using le by simp_all
  ultimately show ?thesis by simp
qed

lemma between_uminus: "between a b x \<Longrightarrow> between (- b) (- a) (- x)"
  by (auto elim!: betweenE)

lemma ok_signal_factors:
  assumes "ok_signal s"
  obtains w where "num_or (es_weight s) (lit (10 / 100)) = Fin w" "0 < w" "w \<le> 1" "is_double w"
    "between 0 1 (Fin w * (num_or (es_confidence s) (Fin 0) / Fin 100))"
    "within_of (Fin w * (num_or (es_confidence s) (Fin 0) / Fin 100)) (Fin w)"
    "between 0 100 (es_confidence s * Fin w)"
proof -
  from assms obtain w c where w: "es_weight s = Fin w" "0 < w" "w \<le> 1" "is_double w"
    and c: "es_confidence s = Fin c" "0 \<le> c" "c \<le> 100"
    by (auto simp: ok_signal_def)
  then have "between 0 1 (rnd (c / 100))" by (intro between_rnd) auto
  then obtain f where f: "rnd (c / 100) = Fin f" "0 \<le> f" "f \<le> 1" by auto
  have factor: "num_or (es_confidence s) (Fin 0) / Fin 100 = Fin f"
    using c f(1) by (auto simp: num_or_def)
  have wf: "0 \<le> w * f" "w * f \<le> w" using w f by (simp_all add: mult_left_le)
  with w have "w * f \<le> 1" by linarith
  with wf have b: "between 0 1 (Fin w * Fin f)" by (auto intro!: between_rnd)
  have "within_of (Fin f * Fin w) (Fin w)" using f w by (intro within_of_times) auto
  then have v: "within_of (Fin w * Fin f) (Fin w)" by (simp add: times_comm)
  have "c * w \<le> 100 * 1" using c w by (intro mult_mono) auto
  then have g: "between 0 100 (es_confidence s * Fin w)"
    using c w by (auto intro!: between_rnd)
  have "num_or (es_weight s) (lit (10 / 100)) = Fin w" using w by (simp add: num_or_def)
  with w b v g show thesis by (intro that [of w]) (simp_all only: factor)
qed

lemma between_plus_nat:
  assumes "between (a * int n) (b * int n) x" "between a b y" "\<bar>a\<bar> \<le> 100" "\<bar>b\<bar> \<le> 100" "n \<le> 1000"
  shows "between (a * int (Suc n)) (b * int (Suc n)) (x + y)"
proof -
  have "\<bar>a * int n + a\<bar> \<le> 2 ^ 53" "\<bar>b * int n + b\<bar> \<le> 2 ^ 53"
  proof -
    have "\<bar>a * (int n + 1)\<bar> \<le> 100 * 1001" "\<bar>b * (int n + 1)\<bar> \<le> 100 * 1001"
      unfolding abs_mult using assms(3-5) by (intro mult_mono; simp)+
    then show "\<bar>a * int n + a\<bar> \<le> 2 ^ 53" "\<bar>b * int n + b\<bar> \<le> 2 ^ 53"
      by (simp_all add: algebra_simps)
  qed
  from between_plus [OF assms(1,2) this] show ?thesis by (simp add: algebra_simps)
qed

lemma between_Suc: "between 0 (b * int n) x \<Longrightarrow> 0 \<le> b \<Longrightarrow> between 0 (b * int (Suc n)) x"
  by (erule between_mono) (auto simp: algebra_simps)

lemma tally_step_inv:
  assumes "ok_signal s" "tally_inv n a" "n \<le> 1000"
  shows "tally_inv (Suc n) (tally_step a s)"
proof -
  from assms(1) obtain w where w: "num_or (es_weight s) (lit (10 / 100)) = Fin w" "0 < w" "w \<le> 1"
    and x: "between 0 1 (Fin w * (num_or (es_confidence s) (Fin 0) / Fin 100))"
    "within_of (Fin w * (num_or (es_confidence s) (Fin 0) / Fin 100)) (Fin w)"
    and c: "between 0 100 (es_confidence s * Fin w)"
    by (rule ok_signal_factors)
  define y where "y = Fin w * (num_or (es_confidence s) (Fin 0) / Fin 100)"
  have inv: "between (- 1 * int n) (1 * int n) (weighted_score a)" "between (0 * int n) (1 * int n) (active_weight a)"
    "within_of (weighted_score a) (active_weight a)"
    "between (0 * int n) (100 * int n) (bull_conf_sum a)" "between (0 * int n) (1 * int n) (bull_weight_sum a)"
    "between (0 * int n) (100 * int n) (bear_conf_sum a)" "between (0 * int n) (1 * int n) (bear_weight_sum a)"
    and count: "bullish a + bearish a + neutral a = n"
    using assms(2) by (auto simp: tally_inv_def)
  have y: "between (- 1) 1 y" "between (- 1) 1 (- y)" "within_of y (Fin w)" "within_of (- y) (Fin w)"
    using x between_mono [OF x(1), of "- 1" 1] between_uminus [OF x(1)] between_mono [of "- 1" 0 "- y" "- 1" 1]
    by (auto simp: y_def within_of_def)
  have wb: "between 0 1 (Fin w)" using w by simp
  note sums = between_plus_nat [OF inv(1) y(1)] between_plus_nat [OF inv(1) y(2)]
    between_plus_nat [OF inv(2) wb] within_of_plus [OF inv(3) y(3)] within_of_plus [OF inv(3) y(4)]
    between_plus_nat [OF inv(4) c] between_plus_nat [OF inv(5) wb]
    between_plus_nat [OF inv(6) c] between_plus_nat [OF inv(7) wb]
  note keeps = between_Suc [of 1 n] between_Suc [of 100 n]
  have grow: "between (- int (Suc n)) (int (Suc n)) (weighted_score a)"
    by (rule between_mono [OF inv(1)]) auto
  show ?thesis
    unfolding tally_inv_def tally_step_def Let_def w(1) y_def [symmetric]
    using sums assms(3) inv keeps grow count
    by (cases "es_signal s") (simp_all add: minus_jsnum_def)
qed

lemma tally_inv_of:
  assumes "\<And>s. s \<in> set signals \<Longrightarrow> ok_signal s" "length signals \<le> 1000"
  shows "tally_inv (length signals) (tally_of signals)"
  using assms
proof (induction signals rule: rev_induct)
  case Nil
  then show ?case by (simp add: tally_of_def tally_inv_def empty_tally_def within_of_def)
next
  case (snoc s signals)
  then have "tally_inv (length signals) (tally_of signals)" by simp
  with snoc.prems have "tally_inv (Suc (length signals)) (tally_step (tally_of signals) s)"
    by (intro tally_step_inv) auto
  then show ?case by (simp add: tally_of_def)
qed

section \<open>Bounds of the decision\<close>

lemma lit_near_one: "1 / 2 \<le> r \<Longrightarrow> \<exists>q. lit r = Fin q \<and> 0 < q \<or> lit r = PInf"
proof -
  assume "1 / 2 \<le> r"
  moreover have "is_double (1 / 2)" by (simp add: is_double_def js_eval)
  ultimately have "Fin (1 / 2) \<le> lit r" by (intro rnd_ge_double)
  then show ?thesis by (cases "lit r") auto
qed

lemma times_lit_number:
  assumes "Fin 0 \<le> c" "1 / 2 \<le> r" "r \<le> 1"
  shows "Fin 0 \<le> c * lit r"
proof -
  have "lit r \<le> Fin 1" using assms(3) by (intro rnd_le_double) auto
  with lit_near_one [OF assms(2)] obtain q where "lit r = Fin q" "0 < q" by (cases "lit r") auto
  then show ?thesis using assms(1) by (simp add: times_Fin_nonneg)
qed

lemma round_nonneg: "Fin 0 \<le> x \<Longrightarrow> Fin 0 \<le> math_round x"
  using math_round_mono [of "Fin 0" x] by (simp only: math_round_numeral)

lemma penalised_nonneg: "Fin 0 \<le> c \<Longrightarrow> Fin 0 \<le> penalised n c"
  by (auto simp: penalised_def intro!: round_nonneg times_lit_number)

lemma average_conf_nonneg:
  assumes "between 0 b cs" "between 0 n ws"
  shows "Fin 0 \<le> average_conf cs ws"
  using assms by (auto simp: average_conf_def elim!: betweenE intro!: round_nonneg rnd_nonneg)

lemma decide_conf_nonneg: "tally_inv n a \<Longrightarrow> Fin 0 \<le> snd (decide a)"
  by (auto simp: decide_def Let_def tally_inv_def intro!: penalised_nonneg average_conf_nonneg)

lemma norm_score_range:
  assumes "tally_inv n a" "Fin 0 < active_weight a"
  obtains q where "weighted_score a / active_weight a = Fin q" "- 1 \<le> q" "q \<le> 1"
proof -
  obtain x y where xy: "weighted_score a = Fin x" "active_weight a = Fin y"
    using assms(1) by (auto simp: tally_inv_def elim!: betweenE)
  have "ranged (- 1) 1 (weighted_score a / active_weight a)"
    using assms(1) by (auto simp: tally_inv_def intro: within_of_fraction)
  moreover have "weighted_score a / active_weight a \<noteq> NaN" using assms(2) xy by simp
  ultimately show thesis using that by (auto simp: ranged_def)
qed

lemma score_range:
  assumes "tally_inv n a"
  shows "between (- 100) 100 (score_of a)"
proof (cases "Fin 0 < active_weight a")
  case True
  from norm_score_range [OF assms this] obtain q where
    q: "weighted_score a / active_weight a = Fin q" "- 1 \<le> q" "q \<le> 1" .
  then have "between (- 100) 100 (rnd (q * 100))" by (intro between_rnd) auto
  then show ?thesis using True q(1) by (auto simp: score_of_def intro: between_round)
qed (simp add: score_of_def)

text \<open>The threshold of the code in percent.\<close>

lemma threshold_value: "lit (3 / 20) = Fin (5404319552844595 / 36028797018963968)"
  by (subst rnd_with_exp [where e = "- 55"]) (simp_all add: power_int_def rne_def Let_def power_divide js_eval)

lemma threshold_percent: "rnd (5404319552844595 / 36028797018963968 * 100) = Fin 15"
  by (subst rnd_with_exp [where e = "- 49"]) (simp_all add: power_int_def rne_def Let_def power_divide js_eval)

lemma threshold_neg: "lit (- (3 / 20)) = Fin (- (5404319552844595 / 36028797018963968))"
  using threshold_value rnd_minus [of "3 / 20"] by simp

lemma score_of_threshold:
  assumes "lit (3 / 20) < weighted_score a / active_weight a" "Fin 0 < active_weight a"
  shows "Fin 15 \<le> score_of a"
proof -
  have "Fin 15 \<le> (weighted_score a / active_weight a) * Fin 100"
  proof (cases "weighted_score a / active_weight a")
    case (Fin q)
    with assms(1) have "5404319552844595 / 36028797018963968 < q" by (simp add: threshold_value)
    then have "5404319552844595 / 36028797018963968 * 100 \<le> q * 100" by simp
    from rnd_mono [OF this] Fin show ?thesis unfolding threshold_percent by simp
  qed (use assms(1) in \<open>auto simp: signed_inf_def\<close>)
  from math_round_mono [OF this] assms(2) show ?thesis by (simp add: score_of_def del: math_round.simps)
qed

lemma score_of_threshold_neg:
  assumes "weighted_score a / active_weight a < lit (- (3 / 20))" "Fin 0 < active_weight a"
  shows "score_of a \<le> Fin (- 15)"
proof -
  have r: "math_round (Fin (- 15)) = Fin (- 15)" using math_round_of_int [of "- 15"] by simp
  have "(weighted_score a / active_weight a) * Fin 100 \<le> Fin (- 15)"
  proof (cases "weighted_score a / active_weight a")
    case (Fin q)
    with assms(1) have "q < - (5404319552844595 / 36028797018963968)" by (simp add: threshold_neg)
    then have "q * 100 \<le> - (5404319552844595 / 36028797018963968 * 100)" by simp
    from rnd_mono [OF this] Fin show ?thesis unfolding rnd_minus threshold_percent by simp
  qed (use assms(1) in \<open>auto simp: signed_inf_def threshold_neg\<close>)
  from math_round_mono [OF this] assms(2) r show ?thesis by (simp add: score_of_def del: math_round.simps)
qed

text \<open>A verdict has a direction that the majority of the opinions and the score share.\<close>

lemma decide_sound:
  "fst (decide a) = BULLISH \<Longrightarrow> bearish a \<le> bullish a \<and> 1 \<le> bullish a \<and> Fin 15 \<le> score_of a"
  "fst (decide a) = BEARISH \<Longrightarrow> bullish a \<le> bearish a \<and> 1 \<le> bearish a \<and> score_of a \<le> Fin (- 15)"
proof -
  have zero: "\<not> lit (3 / 20) < Fin 0" "\<not> Fin 0 < lit (- (3 / 20))"
    by (simp_all add: threshold_value threshold_neg)
  show "fst (decide a) = BULLISH \<Longrightarrow> bearish a \<le> bullish a \<and> 1 \<le> bullish a \<and> Fin 15 \<le> score_of a"
    "fst (decide a) = BEARISH \<Longrightarrow> bullish a \<le> bearish a \<and> 1 \<le> bearish a \<and> score_of a \<le> Fin (- 15)"
    using zero by (auto simp: decide_def Let_def split: if_splits intro: score_of_threshold score_of_threshold_neg)
qed

section \<open>What the verdict depends on\<close>

text \<open>Neutral signals change the count of neutral strategies and nothing else.\<close>

lemma tally_neutral:
  "(tally_of signals)\<lparr> neutral := 0 \<rparr> =
   (tally_of (filter (\<lambda>s. es_signal s \<noteq> Neutral) signals))\<lparr> neutral := 0 \<rparr>"
proof -
  have same: "(tally_step a s)\<lparr> neutral := 0 \<rparr> = (tally_step b s)\<lparr> neutral := 0 \<rparr>"
    if "a\<lparr> neutral := 0 \<rparr> = b\<lparr> neutral := 0 \<rparr>" for a b :: tally and s
    using that by (cases a; cases b) (auto simp: tally_step_def Let_def split: signal.split)
  have skip: "(tally_step a s)\<lparr> neutral := 0 \<rparr> = a\<lparr> neutral := 0 \<rparr>" if "es_signal s = Neutral" for a s
    using that by (simp add: tally_step_def Let_def)
  have "(foldl tally_step a signals)\<lparr> neutral := 0 \<rparr> =
      (foldl tally_step b (filter (\<lambda>s. es_signal s \<noteq> Neutral) signals))\<lparr> neutral := 0 \<rparr>"
    if "a\<lparr> neutral := 0 \<rparr> = b\<lparr> neutral := 0 \<rparr>" for a b
    using that
  proof (induction signals arbitrary: a b)
    case (Cons s signals)
    show ?case
    proof (cases "es_signal s = Neutral")
      case True
      with Cons skip [OF True, of a] show ?thesis by simp
    next
      case False
      with Cons.IH [OF same [OF Cons.prems]] show ?thesis by simp
    qed
  qed simp
  then show ?thesis by (simp add: tally_of_def)
qed

lemma decide_ignores_neutral: "decide (a\<lparr> neutral := n \<rparr>) = decide a"
  by (simp add: decide_def Let_def)

lemma score_ignores_neutral: "score_of (a\<lparr> neutral := n \<rparr>) = score_of a"
  by (simp add: score_of_def)

lemma verdict_without_neutral:
  "decide (tally_of signals) = decide (tally_of (filter (\<lambda>s. es_signal s \<noteq> Neutral) signals))"
  "score_of (tally_of signals) = score_of (tally_of (filter (\<lambda>s. es_signal s \<noteq> Neutral) signals))"
  by (metis tally_neutral decide_ignores_neutral score_ignores_neutral)+

text \<open>The engine has no bias: turning every opinion around turns the verdict around.\<close>

primrec mirror_signal :: "signal \<Rightarrow> signal" where
  "mirror_signal Bullish = Bearish"
| "mirror_signal Bearish = Bullish"
| "mirror_signal Neutral = Neutral"

primrec mirror_verdict :: "verdict \<Rightarrow> verdict" where
  "mirror_verdict BULLISH = BEARISH"
| "mirror_verdict BEARISH = BULLISH"
| "mirror_verdict NEUTRAL = NEUTRAL"

definition mirror :: "engine_signal \<Rightarrow> engine_signal" where
  "mirror s = s\<lparr> es_signal := mirror_signal (es_signal s) \<rparr>"

definition mirror_tally :: "tally \<Rightarrow> tally" where
  "mirror_tally a = \<lparr> weighted_score = - weighted_score a, active_weight = active_weight a,
     bullish = bearish a, bearish = bullish a, neutral = neutral a,
     bull_conf_sum = bear_conf_sum a, bull_weight_sum = bear_weight_sum a,
     bear_conf_sum = bull_conf_sum a, bear_weight_sum = bull_weight_sum a \<rparr>"

lemma tally_step_mirror: "tally_step (mirror_tally a) (mirror s) = mirror_tally (tally_step a s)"
  by (cases "es_signal s")
    (simp_all add: tally_step_def Let_def mirror_def mirror_tally_def minus_jsnum_def uminus_plus)

lemma tally_of_mirror: "tally_of (map mirror signals) = mirror_tally (tally_of signals)"
proof -
  have "foldl tally_step (mirror_tally a) (map mirror signals) = mirror_tally (foldl tally_step a signals)" for a
    by (induction signals arbitrary: a) (simp_all add: tally_step_mirror)
  moreover have "mirror_tally empty_tally = empty_tally" by (simp add: mirror_tally_def empty_tally_def)
  ultimately show ?thesis unfolding tally_of_def by metis
qed

lemma uminus_divide: "(- x) / y = - (x / (y :: jsnum))"
  by (cases x; cases y) (auto simp: signed_inf_def rnd_minus)

lemma neg_less: "- x < - y \<longleftrightarrow> y < (x :: jsnum)"
  by (cases x; cases y) (auto simp: less_jsnum_def)

lemma decide_mirror:
  "decide (mirror_tally a) = (mirror_verdict (fst (decide a)), snd (decide a))"
proof -
  define t where "t = lit (15 / 100)"
  have t: "lit (- 15 / 100) = - t" using rnd_minus [of "15 / 100"] by (simp add: t_def)
  define x where "x = weighted_score a / active_weight a"
  have flip: "- x < - t \<longleftrightarrow> t < x" "t < - x \<longleftrightarrow> x < - t"
    using neg_less [of x t] neg_less [of "- t" x] by simp_all
  have pos: "Fin 0 < t" by (simp add: t_def threshold_value)
  have only: "\<not> (t < x \<and> x < - t)" "\<not> t < Fin 0" "\<not> Fin 0 < - t"
    using pos by (cases x; cases t; auto)+
  show ?thesis unfolding decide_def Let_def mirror_tally_def t t_def [symmetric]
    using only by (auto simp: uminus_divide x_def [symmetric] flip add.commute)
qed

section \<open>Which modules run\<close>

lemma es_id_run_module [simp]: "es_id (run_module cs m) = meta_id (mod_meta m)"
  by (simp add: run_module_def split: sum.split)

lemma ids_run:
  "cs \<noteq> [] \<Longrightarrow> map es_id (er_signals (run_engine_with registry cs enabled)) =
     filter (\<lambda>i. enabled = [] \<or> i \<in> set enabled) (map (\<lambda>m. meta_id (mod_meta m)) registry)"
  by (auto simp: run_engine_with_def Let_def split_beta modules_to_run_def filter_map o_def)

section \<open>The engine over any registry of sound modules\<close>

locale sound_registry =
  fixes registry :: "strategy_module list"
  assumes weights: "m \<in> set registry \<Longrightarrow>
      \<exists>w. meta_weight (mod_meta m) = Fin w \<and> 0 < w \<and> w \<le> 1 \<and> is_double w"
    and results: "m \<in> set registry \<Longrightarrow> mod_run m cs = Inr r \<Longrightarrow> between 0 100 (res_confidence r)"
    and few: "length registry \<le> 1000"
begin

lemma module_signal_ok: "m \<in> set registry \<Longrightarrow> ok_signal (run_module cs m)"
  using weights [of m] results [of m cs]
  by (auto simp: run_module_def ok_signal_def num_or_def split: sum.split)

lemma run_inv:
  "tally_inv (length (modules_to_run registry enabled))
     (tally_of (map (run_module cs) (modules_to_run registry enabled)))"
proof -
  have sub: "set (modules_to_run registry enabled) \<subseteq> set registry"
    and len: "length (modules_to_run registry enabled) \<le> length registry"
    by (auto simp: modules_to_run_def)
  then show ?thesis
    using tally_inv_of [of "map (run_module cs) (modules_to_run registry enabled)"] module_signal_ok few
    by auto
qed

lemma confidence_range: "between 0 92 (er_confidence (run_engine_with registry cs enabled))"
proof -
  have "between 0 92 (math_min c (Fin 92))" if "Fin 0 \<le> c" for c
    using that le_jsnum_not_NaN [OF that] math_min_le [of c "Fin 92"] math_min_ge [OF that, of "Fin 92"]
    by (auto simp: between_def)
  then show ?thesis using decide_conf_nonneg [OF run_inv, of cs enabled]
    by (auto simp: run_engine_with_def Let_def split_beta)
qed

lemma score_in_range:
  "er_score (run_engine_with registry cs enabled) = Some x \<Longrightarrow> between (- 100) 100 x"
  using score_range [OF run_inv, of cs enabled]
  by (auto simp: run_engine_with_def Let_def split_beta split: if_splits)

lemma verdict_sound:
  "er_overall (run_engine_with registry cs enabled) = BULLISH \<Longrightarrow>
     (\<exists>x. er_score (run_engine_with registry cs enabled) = Some x \<and> Fin 15 \<le> x)"
  "er_overall (run_engine_with registry cs enabled) = BEARISH \<Longrightarrow>
     (\<exists>x. er_score (run_engine_with registry cs enabled) = Some x \<and> x \<le> Fin (- 15))"
  using decide_sound
  by (auto simp: run_engine_with_def Let_def split_beta split: if_splits)

end

lemma weight_values:
  "\<exists>w. lit (1 / 4) = Fin w \<and> 0 < w \<and> w \<le> 1 \<and> is_double w"
  "\<exists>w. lit (20 / 100) = Fin w \<and> 0 < w \<and> w \<le> 1 \<and> is_double w"
  "\<exists>w. lit (15 / 100) = Fin w \<and> 0 < w \<and> w \<le> 1 \<and> is_double w"
proof -
  have pos: "\<exists>w. lit r = Fin w \<and> 0 < w \<and> w \<le> 1 \<and> is_double w" if "1 / 8 \<le> r" "r \<le> 1" for r
  proof -
    have "is_double (1 / 8)" by (simp add: is_double_def js_eval)
    then have "Fin (1 / 8) \<le> lit r" using that(1) by (rule rnd_ge_double)
    moreover have "lit r \<le> Fin 1" using that(2) by (intro rnd_le_double) auto
    ultimately show ?thesis by (cases "lit r") (auto dest: rnd_Fin_is_double)
  qed
  show "\<exists>w. lit (1 / 4) = Fin w \<and> 0 < w \<and> w \<le> 1 \<and> is_double w"
    "\<exists>w. lit (20 / 100) = Fin w \<and> 0 < w \<and> w \<le> 1 \<and> is_double w"
    "\<exists>w. lit (15 / 100) = Fin w \<and> 0 < w \<and> w \<le> 1 \<and> is_double w"
    by (rule pos; simp)+
qed

interpretation engine: sound_registry strategy_registry
proof unfold_locales
  fix m assume "m \<in> set strategy_registry"
  then show "\<exists>w. meta_weight (mod_meta m) = Fin w \<and> 0 < w \<and> w \<le> 1 \<and> is_double w"
    using weight_values
    by (auto simp: strategy_registry_def ema_cross_meta_def rsi_momentum_meta_def vwap_meta_def
        golden_rsi_meta_def trend_detector_meta_def)
next
  fix m cs r assume "m \<in> set strategy_registry" "mod_run m cs = Inr r"
  then show "between 0 100 (res_confidence r)"
    using ema_cross.percentage rsi_momentum.percentage vwap_strategy.percentage
      golden_rsi.percentage trend_detector.percentage
    by (auto simp: strategy_registry_def)
qed (simp add: strategy_registry_def)

end
