(* ===== verification/CandleEngine.thy ===== *)
theory CandleEngine
  imports OscillatorFacts
begin

text \<open>
  The live futures candle engine, \<open>frontend/src/engines/LiveFuturesCandleEngine.js\<close>: an
  object that turns ticks into the candle of the current interval. Its fields are the record
  \<open>candle_engine\<close>, a method is a function on it, and a run of the program is a sequence of
  events (\<open>engine_step\<close>). \<open>new Date(s).getTime()\<close> on a text is the parameter \<open>date_time\<close>:
  which formats it reads besides the ISO one is up to the browser.
\<close>

section \<open>Definitions\<close>

datatype stamp = StampNum jsnum | StampText string | StampNull | StampUndefined

record tick =
  t_ltp :: "jsnum option"
  t_stamp :: stamp
  t_volume :: "jsnum option"

record fcandle =
  f_time :: jsnum
  f_open :: jsnum
  f_high :: jsnum
  f_low :: jsnum
  f_close :: jsnum
  f_volume :: jsnum

record candle_engine =
  current_candle :: "fcandle option"
  last_closed :: "fcandle option"
  interval :: string
  interval_ms :: jsnum
  historical :: "fcandle list"
  last_tick_time :: "jsnum option"
  last_cumulative :: "jsnum option"

definition interval_table :: "(string \<times> int) list" where
  "interval_table = [(''1m'', 60000), (''5m'', 300000), (''15m'', 900000), (''30m'', 1800000),
     (''1h'', 3600000), (''1d'', 86400000)]"

text \<open>\<open>5.5 * 3600 * 1000\<close>.\<close>

definition ist_offset_ms :: jsnum where
  "ist_offset_ms = Fin 19800000"

definition parse_interval_ms :: "string \<Rightarrow> jsnum" where
  "parse_interval_ms i = (case map_of interval_table i of Some ms \<Rightarrow> Fin (of_int ms) | None \<Rightarrow> Fin 300000)"

definition compute_bucket_start_sec :: "jsnum \<Rightarrow> jsnum \<Rightarrow> string \<Rightarrow> jsnum" where
  "compute_bucket_start_sec tick_ms int_ms i =
     (if i = ''1d'' then
        let ist_ms = tick_ms + ist_offset_ms;
            day_start = math_floor (ist_ms / Fin 86400000) * Fin 86400000
        in math_floor ((day_start - ist_offset_ms) / Fin 1000)
      else
        let bucket_ms = math_floor (tick_ms / int_ms) * int_ms
        in math_floor (bucket_ms / Fin 1000))"

definition new_engine :: candle_engine where
  "new_engine = \<lparr> current_candle = None, last_closed = None, interval = ''5m'', interval_ms = Fin 300000,
     historical = [], last_tick_time = None, last_cumulative = None \<rparr>"

definition set_interval :: "string \<Rightarrow> candle_engine \<Rightarrow> candle_engine" where
  "set_interval i e =
     (let ms = parse_interval_ms i in
      if i = interval e then e
      else e\<lparr> interval := i, interval_ms := ms, current_candle := None, last_closed := None,
             last_cumulative := None, last_tick_time := None \<rparr>)"

definition set_historical :: "fcandle list option \<Rightarrow> candle_engine \<Rightarrow> candle_engine" where
  "set_historical cs e = e\<lparr> historical := (case cs of Some l \<Rightarrow> l | None \<Rightarrow> []) \<rparr>"

text \<open>The time of a tick in milliseconds; numbers up to \<open>10 ^ 12\<close> are seconds.\<close>

definition tick_epoch_ms :: "(string \<Rightarrow> jsnum) \<Rightarrow> stamp \<Rightarrow> jsnum" where
  "tick_epoch_ms date_time st =
     (case st of
        StampNum t \<Rightarrow> (if Fin 1000000000000 < t then t else t * Fin 1000)
      | StampText s \<Rightarrow> date_time s
      | StampNull \<Rightarrow> Fin 0
      | StampUndefined \<Rightarrow> NaN)"

text \<open>The volume since the last tick; a cumulative volume that falls starts a new session.\<close>

definition volume_delta :: "jsnum option \<Rightarrow> jsnum option \<Rightarrow> jsnum" where
  "volume_delta prev vol =
     (case (vol, prev) of
        (Some v, Some p) \<Rightarrow> (let raw = v - p in if raw < Fin 0 then v else raw)
      | _ \<Rightarrow> Fin 0)"

text \<open>The candle a tick opens, and the candle it is merged into.\<close>

definition open_candle :: "jsnum \<Rightarrow> jsnum \<Rightarrow> jsnum \<Rightarrow> fcandle" where
  "open_candle bucket ltp vol = \<lparr> f_time = bucket, f_open = ltp, f_high = ltp, f_low = ltp,
     f_close = ltp, f_volume = vol \<rparr>"

definition merge_tick :: "jsnum \<Rightarrow> jsnum \<Rightarrow> fcandle \<Rightarrow> fcandle" where
  "merge_tick ltp vol c = c\<lparr> f_high := math_max (f_high c) ltp, f_low := math_min (f_low c) ltp,
     f_close := ltp, f_volume := f_volume c + vol \<rparr>"

text \<open>\<open>onTick\<close>: the new state and the result, \<open>None\<close> where the method returns \<open>null\<close>.\<close>

definition on_tick :: "(string \<Rightarrow> jsnum) \<Rightarrow> tick \<Rightarrow> candle_engine \<Rightarrow> candle_engine \<times> (fcandle \<times> bool) option" where
  "on_tick date_time t e =
     (case t_ltp t of
        None \<Rightarrow> (e, None)
      | Some ltp \<Rightarrow>
          if num_eq ltp (Fin 0) then (e, None)
          else
            let ms = tick_epoch_ms date_time (t_stamp t) in
            if is_nan ms then (e, None)
            else
              let bucket = compute_bucket_start_sec ms (interval_ms e) (interval e);
                  delta = volume_delta (last_cumulative e) (t_volume t);
                  cum = (case t_volume t of Some v \<Rightarrow> Some v | None \<Rightarrow> last_cumulative e);
                  fresh = (case current_candle e of None \<Rightarrow> True | Some c \<Rightarrow> \<not> num_eq (f_time c) bucket);
                  closed = (case current_candle e of Some c \<Rightarrow> if fresh then Some c else last_closed e
                            | None \<Rightarrow> last_closed e);
                  c' = (if fresh then open_candle bucket ltp delta
                        else merge_tick ltp delta (the (current_candle e)))
              in (e\<lparr> current_candle := Some c', last_closed := closed, last_cumulative := cum,
                     last_tick_time := Some ms \<rparr>, Some (c', fresh)))"

definition get_all_candles :: "candle_engine \<Rightarrow> fcandle list" where
  "get_all_candles e =
     (case current_candle e of
        None \<Rightarrow> historical e
      | Some c \<Rightarrow>
          if historical e \<noteq> [] \<and> f_time c \<le> f_time (last (historical e))
          then butlast (historical e) @ [c]
          else historical e @ [c])"

definition get_live_candle :: "candle_engine \<Rightarrow> fcandle option" where
  "get_live_candle e = current_candle e"

definition get_last_closed :: "candle_engine \<Rightarrow> fcandle option" where
  "get_last_closed e =
     (case last_closed e of
        Some c \<Rightarrow> Some c
      | None \<Rightarrow> if historical e \<noteq> [] then Some (last (historical e)) else None)"

definition reset_engine :: "candle_engine \<Rightarrow> candle_engine" where
  "reset_engine e = e\<lparr> current_candle := None, last_closed := None, historical := [],
     last_tick_time := None, last_cumulative := None \<rparr>"

section \<open>Runs\<close>

datatype engine_event = SetInterval string | SetHistorical "fcandle list option" | OnTick tick | Reset

inductive engine_step :: "(string \<Rightarrow> jsnum) \<Rightarrow> candle_engine \<Rightarrow> engine_event \<Rightarrow> candle_engine \<Rightarrow> bool"
  for date_time :: "string \<Rightarrow> jsnum" where
  set_interval: "engine_step date_time e (SetInterval i) (set_interval i e)"
| set_historical: "engine_step date_time e (SetHistorical cs) (set_historical cs e)"
| on_tick: "engine_step date_time e (OnTick t) (fst (on_tick date_time t e))"
| reset: "engine_step date_time e Reset (reset_engine e)"

inductive_simps engine_step_simps [simp]:
  "engine_step date_time e (SetInterval i) e'"
  "engine_step date_time e (SetHistorical cs) e'"
  "engine_step date_time e (OnTick t) e'"
  "engine_step date_time e Reset e'"

inductive engine_run :: "(string \<Rightarrow> jsnum) \<Rightarrow> engine_event list \<Rightarrow> candle_engine \<Rightarrow> bool"
  for date_time :: "string \<Rightarrow> jsnum" where
  start: "engine_run date_time [] new_engine"
| step: "engine_run date_time evs e \<Longrightarrow> engine_step date_time e ev e' \<Longrightarrow> engine_run date_time (evs @ [ev]) e'"

text \<open>An invariant that the events of a run keep holds after the run.\<close>

lemma run_invariant:
  assumes "engine_run date_time evs e" "P new_engine"
    and "\<And>e ev e'. ev \<in> set evs \<Longrightarrow> P e \<Longrightarrow> engine_step date_time e ev e' \<Longrightarrow> P e'"
  shows "P e"
  using assms by (induction rule: engine_run.induct) auto

section \<open>Lemmas\<close>

lemma interval_ms_invariant:
  assumes "engine_run date_time evs e"
  shows "interval_ms e = parse_interval_ms (interval e)"
proof (rule run_invariant [OF assms])
  show "interval_ms new_engine = parse_interval_ms (interval new_engine)"
    by (simp add: new_engine_def parse_interval_ms_def interval_table_def)
next
  fix e ev e' assume "interval_ms e = parse_interval_ms (interval e)" "engine_step date_time e ev e'"
  then show "interval_ms e' = parse_interval_ms (interval e')"
    by (cases ev) (auto simp: set_interval_def set_historical_def reset_engine_def on_tick_def Let_def split: option.split)
qed

text \<open>The shape of a candle: its prices in order and a volume that is not negative.\<close>

definition fcandle_ok :: "fcandle \<Rightarrow> bool" where
  "fcandle_ok c \<longleftrightarrow> f_low c \<le> f_open c \<and> f_open c \<le> f_high c \<and> f_low c \<le> f_close c \<and>
     f_close c \<le> f_high c \<and> nonneg (f_volume c)"

definition tick_ok :: "tick \<Rightarrow> bool" where
  "tick_ok t \<longleftrightarrow> t_ltp t \<noteq> Some NaN \<and> (\<forall>v. t_volume t = Some v \<longrightarrow> nonneg v)"

lemma volume_delta_nonneg:
  "(\<And>v. vol = Some v \<Longrightarrow> nonneg v) \<Longrightarrow> nonneg (volume_delta prev vol)"
proof -
  assume v: "\<And>v. vol = Some v \<Longrightarrow> nonneg v"
  have "nonneg r" if "\<not> r < Fin 0" for r using that by (cases r) auto
  then show ?thesis using v by (auto simp: volume_delta_def Let_def split: option.split)
qed

lemma open_candle_ok: "ltp \<noteq> NaN \<Longrightarrow> nonneg v \<Longrightarrow> fcandle_ok (open_candle b ltp v)"
  by (simp add: fcandle_ok_def open_candle_def)

lemma merge_tick_ok:
  assumes "fcandle_ok c" "ltp \<noteq> NaN" "nonneg v"
  shows "fcandle_ok (merge_tick ltp v c)"
proof -
  have n: "f_low c \<noteq> NaN" "f_high c \<noteq> NaN"
    using assms(1) le_jsnum_not_NaN by (auto simp: fcandle_ok_def)
  note lo = math_min_le [OF n(1) assms(2)] and hi = math_max_ge [OF n(2) assms(2)]
  show ?thesis using assms(1,3) lo hi
    by (auto simp: fcandle_ok_def merge_tick_def intro: le_jsnum_trans)
qed

lemma on_tick_ok:
  assumes "tick_ok t" "\<And>c. current_candle e = Some c \<Longrightarrow> fcandle_ok c"
    and "current_candle (fst (on_tick date_time t e)) = Some c"
  shows "fcandle_ok c"
proof -
  have "nonneg (volume_delta (last_cumulative e) (t_volume t))"
    using assms(1) by (intro volume_delta_nonneg) (simp add: tick_ok_def)
  then show ?thesis using assms
    by (auto simp: on_tick_def Let_def tick_ok_def split: option.splits if_splits
        intro: open_candle_ok merge_tick_ok)
qed

lemma run_candle_ok:
  assumes "engine_run date_time evs e" "\<And>t. OnTick t \<in> set evs \<Longrightarrow> tick_ok t" "current_candle e = Some c"
  shows "fcandle_ok c"
proof -
  have "\<forall>c. current_candle e = Some c \<longrightarrow> fcandle_ok c"
  proof (rule run_invariant [OF assms(1), where P = "\<lambda>e. \<forall>c. current_candle e = Some c \<longrightarrow> fcandle_ok c"])
    fix e ev e'
    assume ev: "ev \<in> set evs" and P: "\<forall>c. current_candle e = Some c \<longrightarrow> fcandle_ok c"
      and st: "engine_step date_time e ev e'"
    show "\<forall>c. current_candle e' = Some c \<longrightarrow> fcandle_ok c"
    proof (cases ev)
      case (OnTick t)
      then show ?thesis using st P assms(2) [of t] ev on_tick_ok [of t e date_time] by auto
    qed (use st P in \<open>auto simp: set_interval_def set_historical_def reset_engine_def Let_def\<close>)
  qed (simp add: new_engine_def)
  then show ?thesis using assms(3) by simp
qed

text \<open>A tick without a price or without a time changes nothing.\<close>

lemma on_tick_rejects:
  "t_ltp t = None \<or> t_ltp t = Some (Fin 0) \<or> tick_epoch_ms date_time (t_stamp t) = NaN \<Longrightarrow>
     on_tick date_time t e = (e, None)"
  by (auto simp: on_tick_def is_nan_def Let_def split: option.split)

subsection \<open>The merged candle is the summary of its ticks\<close>

text \<open>The accepted ticks of one bucket, as prices and volume changes.\<close>

definition ticks_summary :: "jsnum \<Rightarrow> (jsnum \<times> jsnum) list \<Rightarrow> fcandle" where
  "ticks_summary bucket ts =
     \<lparr> f_time = bucket, f_open = fst (hd ts),
       f_high = foldl math_max (fst (hd ts)) (map fst (tl ts)),
       f_low = foldl math_min (fst (hd ts)) (map fst (tl ts)),
       f_close = fst (last ts), f_volume = foldl (+) (snd (hd ts)) (map snd (tl ts)) \<rparr>"

lemma ticks_summary_single: "ticks_summary b [(p, v)] = open_candle b p v"
  by (simp add: ticks_summary_def open_candle_def)

lemma ticks_summary_snoc:
  "ts \<noteq> [] \<Longrightarrow> ticks_summary b (ts @ [(p, v)]) = merge_tick p v (ticks_summary b ts)"
  by (cases ts) (auto simp: ticks_summary_def merge_tick_def)

lemma merge_is_summary:
  "foldl (\<lambda>c (p, v). merge_tick p v c) (open_candle b p0 v0) ts = ticks_summary b ((p0, v0) # ts)"
proof (induction ts rule: rev_induct)
  case (snoc t ts)
  then show ?case using ticks_summary_snoc [of "(p0, v0) # ts" b "fst t" "snd t"]
    by (cases t) simp
qed (simp add: ticks_summary_single)

text \<open>
  So while the ticks fall into one bucket, the engine's candle is the summary of them: the
  first price, the extremes, the last price and the volume that was traded.
\<close>

fun deltas_of :: "jsnum option \<Rightarrow> tick list \<Rightarrow> jsnum list" where
  "deltas_of prev [] = []"
| "deltas_of prev (t # ts) = volume_delta prev (t_volume t) #
     deltas_of (case t_volume t of Some v \<Rightarrow> Some v | None \<Rightarrow> prev) ts"

definition tick_in :: "(string \<Rightarrow> jsnum) \<Rightarrow> jsnum \<Rightarrow> string \<Rightarrow> jsnum \<Rightarrow> tick \<Rightarrow> jsnum \<Rightarrow> bool" where
  "tick_in date_time ms i bucket t p \<longleftrightarrow>
     t_ltp t = Some p \<and> \<not> num_eq p (Fin 0) \<and> \<not> is_nan (tick_epoch_ms date_time (t_stamp t)) \<and>
     compute_bucket_start_sec (tick_epoch_ms date_time (t_stamp t)) ms i = bucket"

definition feed :: "(string \<Rightarrow> jsnum) \<Rightarrow> tick list \<Rightarrow> candle_engine \<Rightarrow> candle_engine" where
  "feed date_time ts e = foldl (\<lambda>e t. fst (on_tick date_time t e)) e ts"

lemma on_tick_in:
  assumes "tick_in date_time (interval_ms e) (interval e) b t p" "b \<noteq> NaN"
  defines "e' \<equiv> fst (on_tick date_time t e)"
  shows "interval_ms e' = interval_ms e" "interval e' = interval e"
    and "last_cumulative e' = (case t_volume t of Some v \<Rightarrow> Some v | None \<Rightarrow> last_cumulative e)"
    and "\<forall>c. current_candle e = Some c \<longrightarrow> \<not> num_eq (f_time c) b \<Longrightarrow>
      current_candle e' = Some (open_candle b p (volume_delta (last_cumulative e) (t_volume t)))"
    and "current_candle e = Some c \<Longrightarrow> num_eq (f_time c) b \<Longrightarrow>
      current_candle e' = Some (merge_tick p (volume_delta (last_cumulative e) (t_volume t)) c)"
  using assms by (auto simp: on_tick_def tick_in_def Let_def split: option.split)

lemma feed_merges:
  assumes "list_all2 (tick_in date_time ms i b) ts ps" "b \<noteq> NaN" "interval_ms e = ms" "interval e = i"
    and "current_candle e = Some c" "f_time c = b"
  shows "current_candle (feed date_time ts e) =
    Some (foldl (\<lambda>c (p, v). merge_tick p v c) c (zip ps (deltas_of (last_cumulative e) ts)))"
  using assms
proof (induction ts ps arbitrary: e c rule: list_all2_induct)
  case Nil
  then show ?case by (simp add: feed_def)
next
  case (Cons t ts p ps)
  define e' where "e' = fst (on_tick date_time t e)"
  define c' where "c' = merge_tick p (volume_delta (last_cumulative e) (t_volume t)) c"
  have t: "tick_in date_time (interval_ms e) (interval e) b t p" using Cons by simp
  have "num_eq (f_time c) b" using Cons.prems by (cases b) (simp_all add: num_eq_def)
  then have cur: "current_candle e' = Some c'"
    unfolding e'_def c'_def by (rule on_tick_in(5) [OF t Cons.prems(1,4)])
  have e': "interval_ms e' = ms" "interval e' = i"
    "last_cumulative e' = (case t_volume t of Some v \<Rightarrow> Some v | None \<Rightarrow> last_cumulative e)"
    using on_tick_in(1-3) [OF t Cons.prems(1)] Cons.prems(2,3) by (simp_all add: e'_def)
  have "f_time c' = b" using Cons.prems(5) by (simp add: c'_def merge_tick_def)
  from Cons.IH [OF Cons.prems(1) e'(1,2) cur this] show ?case
    by (simp add: feed_def c'_def e'(3) flip: e'_def)
qed

lemma feed_summary:
  assumes "list_all2 (tick_in date_time (interval_ms e) (interval e) b) ts ps" "b \<noteq> NaN" "ts \<noteq> []"
    and "\<And>c. current_candle e = Some c \<Longrightarrow> f_time c \<noteq> b"
  shows "current_candle (feed date_time ts e) =
    Some (ticks_summary b (zip ps (deltas_of (last_cumulative e) ts)))"
proof -
  obtain t us p qs where ts: "ts = t # us" "ps = p # qs" "tick_in date_time (interval_ms e) (interval e) b t p"
    "list_all2 (tick_in date_time (interval_ms e) (interval e) b) us qs"
    using assms(1,3) by (cases ts; cases ps) auto
  define e' where "e' = fst (on_tick date_time t e)"
  have "\<not> num_eq (f_time c) b" if "current_candle e = Some c" for c
    using assms(4) [OF that] assms(2) by (cases "f_time c"; cases b) (auto simp: num_eq_def)
  then have cur: "current_candle e' = Some (open_candle b p (volume_delta (last_cumulative e) (t_volume t)))"
    unfolding e'_def by (intro on_tick_in(4) [OF ts(3) assms(2)]) blast
  have e': "interval_ms e' = interval_ms e" "interval e' = interval e"
    "last_cumulative e' = (case t_volume t of Some v \<Rightarrow> Some v | None \<Rightarrow> last_cumulative e)"
    unfolding e'_def by (fact on_tick_in [OF ts(3) assms(2)])+
  have "current_candle (feed date_time us e') = Some (foldl (\<lambda>c (p, v). merge_tick p v c)
      (open_candle b p (volume_delta (last_cumulative e) (t_volume t))) (zip qs (deltas_of (last_cumulative e') us)))"
    using feed_merges [OF ts(4) assms(2) e'(1,2) cur] by (simp add: open_candle_def)
  then show ?thesis unfolding merge_is_summary
    by (simp add: ts feed_def e'(3) flip: e'_def)
qed

subsection \<open>Buckets\<close>

lemma is_double_before_int:
  assumes "0 < q" "0 < m" "q * m \<le> 2 ^ 51"
  obtains d where "is_double d" "(of_int (q * m - 1) :: rat) / of_int m \<le> d" "d < of_int q"
proof -
  obtain k :: nat where k: "m \<le> 2 ^ k" "\<And>j. j < k \<Longrightarrow> \<not> m \<le> 2 ^ j"
    using ex_least_nat_le [where P = "\<lambda>k. m \<le> 2 ^ k" and n = "nat m"]
    by (metis assms(2) int_nat_eq less_imp_le of_nat_less_two_power nat_less_le order_less_imp_le
        not_less0 of_nat_le_iff of_nat_power of_nat_numeral)
  have "(2 :: int) ^ k \<le> 2 * m"
  proof (cases k)
    case 0
    then show ?thesis using assms(2) by simp
  next
    case (Suc j)
    then show ?thesis using k(2) [of j] by simp
  qed
  then have "q * 2 ^ k \<le> q * (2 * m)" using assms(1) by (intro mult_left_mono) auto
  also have "\<dots> = 2 * (q * m)" by simp
  also have "\<dots> \<le> 2 ^ 52" using assms(3) by (simp add: mult.commute)
  finally have "q * 2 ^ k \<le> 2 ^ 52" .
  define d :: rat where "d = of_int (q * 2 ^ k - 1) * 2 powi (- int k)"
  have "0 < (2 :: rat) ^ k" by simp
  then have d: "d = of_int q - 1 / 2 ^ k"
    by (simp add: d_def power_int_minus field_simps)
  show thesis
  proof (rule that)
    have "0 \<le> q * 2 ^ k - 1" using assms(1) by (metis diff_ge_0_iff_ge int_one_le_iff_zero_less zero_less_mult_iff zero_less_numeral zero_less_power)
    have "(2 :: int) ^ k \<le> 2 ^ 52"
    proof -
      have "1 * (2 :: int) ^ k \<le> q * 2 ^ k" using assms(1) by (intro mult_right_mono) auto
      then show ?thesis using \<open>q * 2 ^ k \<le> 2 ^ 52\<close> by linarith
    qed
    then have "k \<le> 52" by (rule power_le_imp_le_exp [rotated]) simp
    have "\<bar>d\<bar> < 2 powi 1024"
    proof -
      have "(0 :: rat) \<le> of_int (q * 2 ^ k - 1)"
        using \<open>0 \<le> q * 2 ^ k - 1\<close> by (simp only: of_int_0_le_iff)
      then have "0 \<le> d" unfolding d_def by (intro mult_nonneg_nonneg) auto
      moreover have "d \<le> of_int q" using d by simp
      moreover have "q * 1 \<le> q * m" using assms(1,2) by (intro mult_left_mono) auto
      then have "q \<le> 2 ^ 51" using assms(3) by linarith
      then have "(of_int q :: rat) \<le> of_int (2 ^ 51)" by (simp only: of_int_le_iff)
      moreover have "(of_int (2 ^ 51) :: rat) = 2 powi 51" by (simp add: power_int_def)
      moreover have "(2 :: rat) powi 51 < 2 powi 1024" by (rule powi_less_iff [THEN iffD2]) simp
      ultimately show ?thesis by simp
    qed
    then show "is_double d"
      using \<open>q * 2 ^ k \<le> 2 ^ 52\<close> \<open>k \<le> 52\<close> \<open>0 \<le> q * 2 ^ k - 1\<close>
      unfolding d_def by (intro is_double_dyadic) auto
    have "(of_int m :: rat) \<le> of_int (2 ^ k)" using k(1) by (simp only: of_int_le_iff)
    then have "1 / 2 ^ k \<le> 1 / (of_int m :: rat)" using assms(2) by (simp add: frac_le)
    moreover have "(of_int (q * m - 1) :: rat) / of_int m = of_int q - 1 / of_int m"
      using assms(2) by (simp add: field_simps)
    ultimately show "(of_int (q * m - 1) :: rat) / of_int m \<le> d" using d by simp
    show "d < of_int q" using d by simp
  qed
qed

text \<open>\<open>Math.floor(t / m)\<close> on integers in the range of times is their integer quotient.\<close>

lemma floor_div_exact:
  assumes "0 \<le> t" "0 < m" "t + m \<le> 2 ^ 51"
  shows "math_floor (Fin (of_int t) / Fin (of_int m)) = Fin (of_int (t div m))"
proof -
  define q where "q = t div m"
  have q0: "0 \<le> q" using assms by (simp add: q_def pos_imp_zdiv_nonneg_iff)
  have qm: "q * m \<le> t" using assms(2) unfolding q_def
    by (metis div_mult_mod_eq le_add_same_cancel1 pos_mod_sign)
  have tq: "t \<le> (q + 1) * m - 1"
  proof -
    have "t = q * m + t mod m" by (simp add: q_def)
    moreover have "t mod m < m" using assms(2) by (rule pos_mod_bound)
    moreover have "(q + 1) * m = q * m + m" by (simp add: algebra_simps)
    ultimately show ?thesis by linarith
  qed
  have "(q + 1) * m \<le> 2 ^ 51" using qm assms(3) by (simp add: algebra_simps)
  then obtain d where d: "is_double d" "(of_int ((q + 1) * m - 1) :: rat) / of_int m \<le> d" "d < of_int (q + 1)"
    using is_double_before_int [of "q + 1" m] q0 assms(2) by auto
  have "(of_int t :: rat) \<le> of_int ((q + 1) * m - 1)" using tq by (simp only: of_int_le_iff)
  then have "(of_int t :: rat) / of_int m \<le> of_int ((q + 1) * m - 1) / of_int m"
    using assms(2) by (intro divide_right_mono) auto
  with d have hi: "rnd (of_int t / of_int m) \<le> Fin d" by (intro rnd_le_double) auto
  have "q * 1 \<le> q * m" using q0 assms(2) by (intro mult_left_mono) auto
  then have "q \<le> 2 ^ 53" using qm assms by simp
  then have dq: "is_double (of_int q)" using q0 by (intro is_double_of_int) simp
  have "(of_int (q * m) :: rat) \<le> of_int t" using qm by (simp only: of_int_le_iff)
  then have "(of_int q :: rat) \<le> of_int t / of_int m" using assms(2) by (simp add: field_simps)
  with dq have lo: "Fin (of_int q) \<le> rnd (of_int t / of_int m)" by (rule rnd_ge_double)
  from lo hi obtain r where r: "rnd (of_int t / of_int m) = Fin r" "of_int q \<le> r" "r \<le> d"
    by (cases "rnd (of_int t / of_int m)") auto
  with d(3) have "\<lfloor>r\<rfloor> = q" by linarith
  with r(1) assms(2) show ?thesis by (simp add: q_def)
qed

lemma times_int_exact: "\<bar>a * b\<bar> \<le> 2 ^ 53 \<Longrightarrow> Fin (of_int a) * Fin (of_int b) = Fin (of_int (a * b))"
  using rnd_of_int [of "a * b"] by simp

lemma minus_int_exact: "\<bar>a - b\<bar> \<le> 2 ^ 53 \<Longrightarrow> Fin (of_int a) - Fin (of_int b) = Fin (of_int (a - b))"
  using rnd_of_int [of "a - b"] by simp

lemma plus_int_exact: "\<bar>a + b\<bar> \<le> 2 ^ 53 \<Longrightarrow> Fin (of_int a) + Fin (of_int b) = Fin (of_int (a + b))"
  using rnd_of_int [of "a + b"] by simp

text \<open>The start of the bucket of a time, in seconds, by integer arithmetic.\<close>

definition bucket_sec :: "int \<Rightarrow> int \<Rightarrow> int" where
  "bucket_sec m t = t div m * (m div 1000)"

lemma bucket_floor:
  assumes "0 \<le> t" "0 < m" "t + m \<le> 2 ^ 50" "1000 dvd m"
  shows "math_floor ((math_floor (Fin (of_int t) / Fin (of_int m)) * Fin (of_int m)) / Fin 1000) =
    Fin (of_int (bucket_sec m t))"
proof -
  have "0 \<le> t mod m" using assms(2) by (rule pos_mod_sign)
  then have le: "t div m * m \<le> t" using div_mult_mod_eq [of t m] by linarith
  have le0: "0 \<le> t div m * m"
    using assms(1,2) by (intro mult_nonneg_nonneg) (simp_all add: pos_imp_zdiv_nonneg_iff)
  have "math_floor (Fin (of_int t) / Fin (of_int m)) * Fin (of_int m) = Fin (of_int (t div m * m))"
    using floor_div_exact [of t m] times_int_exact [of "t div m" m] assms le le0 by simp
  moreover have "math_floor (Fin (of_int (t div m * m)) / Fin 1000) = Fin (of_int (t div m * m div 1000))"
    using floor_div_exact [of "t div m * m" 1000] le le0 assms(2,3) by simp
  moreover have "t div m * m div 1000 = bucket_sec m t"
    using assms(4) by (simp add: bucket_sec_def div_mult_swap)
  ultimately show ?thesis by simp
qed

lemma table_interval:
  assumes "map_of interval_table i = Some m"
  shows "parse_interval_ms i = Fin (of_int m)" "0 < m" "m \<le> 86400000" "1000 dvd m"
  using assms by (auto simp: parse_interval_ms_def interval_table_def split: if_splits)

lemma bucket_intraday:
  assumes "map_of interval_table i = Some m" "i \<noteq> ''1d''" "0 \<le> t" "t \<le> 2 ^ 49"
  shows "compute_bucket_start_sec (Fin (of_int t)) (parse_interval_ms i) i = Fin (of_int (bucket_sec m t))"
  using table_interval [OF assms(1)] assms bucket_floor [of t m]
  by (simp add: compute_bucket_start_sec_def Let_def del: math_floor.simps times_jsnum.simps divide_jsnum.simps)

text \<open>A day starts at midnight in India.\<close>

lemma bucket_daily:
  assumes "0 \<le> t" "t \<le> 2 ^ 49"
  shows "compute_bucket_start_sec (Fin (of_int t)) ms ''1d'' =
    Fin (of_int ((t + 19800000) div 86400000 * 86400 - 19800))"
proof (cases "t + 19800000 < 86400000")
  case True
  have "compute_bucket_start_sec (Fin (of_int t)) ms ''1d'' =
      math_floor ((math_floor ((Fin (of_int t) + Fin 19800000) / Fin 86400000) * Fin 86400000 - Fin 19800000) / Fin 1000)"
    by (simp add: compute_bucket_start_sec_def ist_offset_ms_def Let_def
        del: math_floor.simps times_jsnum.simps divide_jsnum.simps plus_jsnum.simps minus_Fin)
  also have "Fin (of_int t) + Fin 19800000 = Fin (of_int (t + 19800000))"
    using plus_int_exact [of t 19800000] assms by simp
  also have "math_floor (Fin (of_int (t + 19800000)) / Fin 86400000) = Fin 0"
    using floor_div_exact [of "t + 19800000" 86400000] assms True by (simp add: div_pos_pos_trivial)
  also have "math_floor ((Fin 0 * Fin 86400000 - Fin 19800000) / Fin 1000) = Fin (- 19800)"
    by (simp add: js_eval)
  finally show ?thesis using True assms by (simp add: div_pos_pos_trivial)
next
  case False
  define q where "q = (t + 19800000) div 86400000"
  have q: "1 \<le> q" "q * 86400000 \<le> t + 19800000" using False by (simp_all add: q_def)
  have "compute_bucket_start_sec (Fin (of_int t)) ms ''1d'' =
      math_floor ((math_floor ((Fin (of_int t) + Fin 19800000) / Fin 86400000) * Fin 86400000 - Fin 19800000) / Fin 1000)"
    by (simp add: compute_bucket_start_sec_def ist_offset_ms_def Let_def
        del: math_floor.simps times_jsnum.simps divide_jsnum.simps plus_jsnum.simps minus_Fin)
  also have "Fin (of_int t) + Fin 19800000 = Fin (of_int (t + 19800000))"
    using plus_int_exact [of t 19800000] assms by simp
  also have "math_floor (Fin (of_int (t + 19800000)) / Fin 86400000) = Fin (of_int q)"
    using floor_div_exact [of "t + 19800000" 86400000] assms by (simp add: q_def)
  also have "Fin (of_int q) * Fin 86400000 = Fin (of_int (q * 86400000))"
    using times_int_exact [of q 86400000] q assms by simp
  also have "Fin (of_int (q * 86400000)) - Fin 19800000 = Fin (of_int (q * 86400000 - 19800000))"
    using minus_int_exact [of "q * 86400000" 19800000] q assms by simp
  also have "math_floor (Fin (of_int (q * 86400000 - 19800000)) / Fin 1000) =
      Fin (of_int ((q * 86400000 - 19800000) div 1000))"
    using floor_div_exact [of "q * 86400000 - 19800000" 1000] q assms by simp
  also have "q * 86400000 - 19800000 = (q * 86400 - 19800) * 1000" by simp
  also have "(q * 86400 - 19800) * 1000 div 1000 = q * 86400 - 19800" by (rule nonzero_mult_div_cancel_right) simp
  finally show ?thesis by (simp add: q_def)
qed

lemma bucket_contains:
  assumes "0 < m" "1000 dvd m"
  shows "bucket_sec m t * 1000 \<le> t" "t < bucket_sec m t * 1000 + m"
proof -
  have "bucket_sec m t * 1000 = t div m * m"
    using assms(2) by (simp add: bucket_sec_def mult.assoc)
  then show "bucket_sec m t * 1000 \<le> t" "t < bucket_sec m t * 1000 + m"
    using pos_mod_sign [OF assms(1), of t] pos_mod_bound [OF assms(1), of t] div_mult_mod_eq [of t m] by linarith+
qed

lemma bucket_mono: "0 < m \<Longrightarrow> s \<le> t \<Longrightarrow> bucket_sec m s \<le> bucket_sec m t"
  unfolding bucket_sec_def
  by (intro mult_right_mono) (auto intro: zdiv_mono1 simp: pos_imp_zdiv_nonneg_iff)

subsection \<open>The candles shown\<close>

definition ascending :: "fcandle list \<Rightarrow> bool" where
  "ascending cs \<longleftrightarrow> sorted_wrt (\<lambda>a b. f_time a < f_time b) cs"

lemma all_candles_last: "current_candle e = Some c \<Longrightarrow> last (get_all_candles e) = c"
  by (simp add: get_all_candles_def)

lemma all_candles_ascending:
  assumes "ascending (historical e)"
    and "\<And>c h. current_candle e = Some c \<Longrightarrow> h \<in> set (butlast (historical e)) \<Longrightarrow> f_time h < f_time c"
    and "\<And>c h. current_candle e = Some c \<Longrightarrow> h \<in> set (historical e) \<Longrightarrow> f_time h \<noteq> NaN \<and> f_time c \<noteq> NaN"
  shows "ascending (get_all_candles e)"
proof (cases "current_candle e")
  case (Some c)
  show ?thesis
  proof (cases "historical e = []")
    case False
    define h where "h = historical e"
    have h: "h = butlast h @ [last h]" using False by (simp add: h_def)
    have asc: "sorted_wrt (\<lambda>a b. f_time a < f_time b) (butlast h)"
      using assms(1) h unfolding ascending_def h_def [symmetric] by (metis sorted_wrt_append)
    have before: "f_time x < f_time c" if "x \<in> set (butlast h)" for x
      using assms(2) [OF Some] that by (simp add: h_def)
    have "f_time (last h) \<noteq> NaN" "f_time c \<noteq> NaN"
      using assms(3) [OF Some, of "last h"] False by (auto simp: h_def)
    then have lt: "f_time (last h) < f_time c" if "\<not> f_time c \<le> f_time (last h)"
      using that not_less_jsnum by blast
    have "sorted_wrt (\<lambda>a b. f_time a < f_time b) (h @ [c])" if "\<not> f_time c \<le> f_time (last h)"
    proof -
      have "f_time x < f_time c" if x: "x \<in> set h" for x
      proof -
        have "x \<in> set (butlast h) \<or> x = last h" using x h by (metis Un_iff empty_iff insert_iff list.set(1) list.set(2) set_append)
        then show ?thesis using before lt \<open>\<not> f_time c \<le> f_time (last h)\<close> by auto
      qed
      then show ?thesis using assms(1) by (simp add: sorted_wrt_append ascending_def h_def)
    qed
    then show ?thesis using asc before False Some
      by (auto simp: get_all_candles_def ascending_def sorted_wrt_append h_def [symmetric])
  qed (simp add: get_all_candles_def ascending_def Some)
qed (use assms(1) in \<open>simp add: get_all_candles_def\<close>)

end
