(* ===== verification/JSValue.thy ===== *)
theory JSValue
  imports JSNumberFacts "HOL-Library.AList"
begin

text \<open>
  The dynamic values of JavaScript, for the modules that read fields of objects they did not
  build: quotes, holdings, transactions and form fields. An object is the list of its own
  properties in insertion order; \<open>{ ...a, ...b }\<close> is \<open>spread\<close>. A text is a list of
  bytes; \<open>toUpperCase\<close>, \<open>toLowerCase\<close> and \<open>trim\<close> treat the ASCII characters, which is
  what symbols, sources and form fields are made of. Two objects are never compared in the
  modelled code, so \<open>===\<close> on them does not occur.
\<close>

section \<open>Values\<close>

datatype jsval = Undefined | JNull | JBool bool | JNum jsnum | JStr string
  | JArr "jsval list" | JObj "(string \<times> jsval) list"

type_synonym jsobj = "(string \<times> jsval) list"

text \<open>\<open>v?.k\<close>: a missing property and a property of \<open>null\<close> or a primitive are \<open>undefined\<close>.\<close>

fun field :: "jsval \<Rightarrow> string \<Rightarrow> jsval" where
  "field (JObj fs) k = (case map_of fs k of Some v \<Rightarrow> v | None \<Rightarrow> Undefined)"
| "field _ k = Undefined"

definition own :: "jsobj \<Rightarrow> string \<Rightarrow> jsval" where
  "own o' k = (case map_of o' k of Some v \<Rightarrow> v | None \<Rightarrow> Undefined)"

definition is_nullish :: "jsval \<Rightarrow> bool" where
  "is_nullish v = (v = Undefined \<or> v = JNull)"

text \<open>\<open>a ?? b\<close> and \<open>a || b\<close>.\<close>

definition nullish :: "jsval \<Rightarrow> jsval \<Rightarrow> jsval" where
  "nullish a b = (if is_nullish a then b else a)"

fun truthy :: "jsval \<Rightarrow> bool" where
  "truthy Undefined = False"
| "truthy JNull = False"
| "truthy (JBool b) = b"
| "truthy (JNum n) = (\<not> is_nan n \<and> \<not> num_eq n (Fin 0))"
| "truthy (JStr s) = (s \<noteq> [])"
| "truthy _ = True"

definition js_or :: "jsval \<Rightarrow> jsval \<Rightarrow> jsval" where
  "js_or a b = (if truthy a then a else b)"

text \<open>The first property of a list that is neither \<open>null\<close> nor missing: \<open>q.a ?? q.b ?? \<dots>\<close>.\<close>

primrec first_field :: "jsval \<Rightarrow> string list \<Rightarrow> jsval" where
  "first_field v [] = Undefined"
| "first_field v (k # ks) = (if ks = [] then field v k else nullish (field v k) (first_field v ks))"

definition set_field :: "string \<Rightarrow> jsval \<Rightarrow> jsobj \<Rightarrow> jsobj" where
  "set_field = AList.update"

text \<open>The own properties that a spread copies.\<close>

fun fields_of :: "jsval \<Rightarrow> jsobj" where
  "fields_of (JObj fs) = fs"
| "fields_of _ = []"

text \<open>The elements of an array; \<open>x || []\<close> has none where \<open>x\<close> is missing.\<close>

fun elements :: "jsval \<Rightarrow> jsval list" where
  "elements (JArr vs) = vs"
| "elements _ = []"

definition spread :: "jsobj \<Rightarrow> jsobj \<Rightarrow> jsobj" where
  "spread a b = foldl (\<lambda>o' (k, v). set_field k v o') a b"

section \<open>Texts\<close>

definition is_space :: "char \<Rightarrow> bool" where
  "is_space c = (c \<in> {CHR '' '', CHR 0x09, CHR 0x0A, CHR 0x0B, CHR 0x0C, CHR 0x0D})"

definition trim_left :: "string \<Rightarrow> string" where
  "trim_left s = dropWhile is_space s"

definition trim :: "string \<Rightarrow> string" where
  "trim s = rev (dropWhile is_space (rev (dropWhile is_space s)))"

definition upper_char :: "char \<Rightarrow> char" where
  "upper_char c = (let n = of_char c :: nat in if 97 \<le> n \<and> n \<le> 122 then char_of (n - 32) else c)"

definition lower_char :: "char \<Rightarrow> char" where
  "lower_char c = (let n = of_char c :: nat in if 65 \<le> n \<and> n \<le> 90 then char_of (n + 32) else c)"

definition upper :: "string \<Rightarrow> string" where
  "upper s = map upper_char s"

definition lower :: "string \<Rightarrow> string" where
  "lower s = map lower_char s"

definition starts_with :: "string \<Rightarrow> string \<Rightarrow> bool" where
  "starts_with s p = (take (length p) s = p)"

definition ends_with :: "string \<Rightarrow> string \<Rightarrow> bool" where
  "ends_with s p = (length p \<le> length s \<and> drop (length s - length p) s = p)"

section \<open>From text to number\<close>

definition is_digit :: "char \<Rightarrow> bool" where
  "is_digit c = (48 \<le> (of_char c :: nat) \<and> (of_char c :: nat) \<le> 57)"

definition digits_value :: "string \<Rightarrow> int" where
  "digits_value ds = foldl (\<lambda>n c. 10 * n + (int (of_char c) - 48)) 0 ds"

text \<open>The exponent part of a decimal literal; where there are no digits it is not consumed.\<close>

definition exponent_part :: "string \<Rightarrow> int \<times> string" where
  "exponent_part s =
     (case s of
        c # r \<Rightarrow>
          if c = CHR ''e'' \<or> c = CHR ''E'' then
            let (neg, r') = (case r of d # r2 \<Rightarrow> if d = CHR ''-'' then (True, r2)
                               else if d = CHR ''+'' then (False, r2) else (False, r) | [] \<Rightarrow> (False, r));
                ds = takeWhile is_digit r'
            in if ds = [] then (0, s)
               else ((if neg then - digits_value ds else digits_value ds), dropWhile is_digit r')
          else (0, s)
      | [] \<Rightarrow> (0, s))"

text \<open>The longest decimal literal at the start of a text, and what follows it.\<close>

definition decimal_prefix :: "string \<Rightarrow> (rat \<times> string) option" where
  "decimal_prefix s =
     (let ip = takeWhile is_digit s;
          r = dropWhile is_digit s;
          (fp, r') = (case r of c # r2 \<Rightarrow> if c = CHR ''.'' then (takeWhile is_digit r2, dropWhile is_digit r2) else ([], r)
                      | [] \<Rightarrow> ([], r))
      in if ip = [] \<and> fp = [] then None
         else let (e, r'') = exponent_part r' in
              Some (of_int (digits_value (ip @ fp)) * 10 powi (e - int (length fp)), r''))"

text \<open>A sign, then \<open>Infinity\<close> or a decimal literal.\<close>

definition signed_prefix :: "string \<Rightarrow> (jsnum \<times> string) option" where
  "signed_prefix s =
     (let (neg, r) = (case s of c # r \<Rightarrow> if c = CHR ''-'' then (True, r) else if c = CHR ''+'' then (False, r) else (False, s)
                      | [] \<Rightarrow> (False, s))
      in if starts_with r ''Infinity'' then Some (if neg then NInf else PInf, drop 8 r)
         else case decimal_prefix r of
                None \<Rightarrow> None
              | Some (q, rest) \<Rightarrow> Some (rnd (if neg then - q else q), rest))"

text \<open>\<open>Number(s)\<close> for decimal texts; the hexadecimal, octal and binary forms do not occur.\<close>

definition number_of_string :: "string \<Rightarrow> jsnum" where
  "number_of_string s =
     (let t = trim s in
      if t = [] then Fin 0
      else case signed_prefix t of Some (n, []) \<Rightarrow> n | _ \<Rightarrow> NaN)"

definition parse_float :: "string \<Rightarrow> jsnum" where
  "parse_float s = (case signed_prefix (trim_left s) of Some (n, _) \<Rightarrow> n | None \<Rightarrow> NaN)"

text \<open>\<open>parseInt(s, 10)\<close>.\<close>

definition parse_int :: "string \<Rightarrow> jsnum" where
  "parse_int s =
     (let t = trim_left s;
          (neg, r) = (case t of c # r \<Rightarrow> if c = CHR ''-'' then (True, r) else if c = CHR ''+'' then (False, r) else (False, t)
                      | [] \<Rightarrow> (False, t));
          ds = takeWhile is_digit r
      in if ds = [] then NaN
         else num_of_int (if neg then - digits_value ds else digits_value ds))"

section \<open>From number to text\<close>

text \<open>The \<open>n\<close> with \<open>10 ^ (n - 1) \<le> x < 10 ^ n\<close>.\<close>

definition dec_exp :: "rat \<Rightarrow> int" where
  "dec_exp x = (if 1 \<le> x then int (length (digits_of \<lfloor>x\<rfloor>)) else 1 - int (length (digits_of (\<lceil>1 / x\<rceil> - 1))))"

definition nearest_int :: "rat \<Rightarrow> int" where
  "nearest_int x = \<lfloor>x + 1 / 2\<rfloor>"

text \<open>The shortest digits that read back as \<open>x\<close>, at most 17 of them.\<close>

definition shortest_digits :: "rat \<Rightarrow> string \<times> int" where
  "shortest_digits x =
     (let n = dec_exp x;
          s = (\<lambda>k. nearest_int (x / 10 powi (n - int k)));
          good = (\<lambda>k. rnd (of_int (s k) * 10 powi (n - int k)) = Fin x);
          k = (case find good [1..<18] of Some k \<Rightarrow> k | None \<Rightarrow> 17)
      in if s k = 10 ^ k then (''1'', n + 1) else (digits_of (s k), n))"

definition positive_to_string :: "rat \<Rightarrow> string" where
  "positive_to_string x =
     (let (ds, n) = shortest_digits x; k = int (length ds) in
      if k \<le> n \<and> n \<le> 21 then ds @ replicate (nat (n - k)) (CHR ''0'')
      else if 0 < n \<and> n \<le> 21 then take (nat n) ds @ ''.'' @ drop (nat n) ds
      else if - 6 < n \<and> n \<le> 0 then ''0.'' @ replicate (nat (- n)) (CHR ''0'') @ ds
      else (if k = 1 then ds else take 1 ds @ ''.'' @ drop 1 ds)
        @ ''e'' @ (if 0 < n then ''+'' else ''-'') @ digits_of \<bar>n - 1\<bar>)"

fun number_to_string :: "jsnum \<Rightarrow> string" where
  "number_to_string (Fin x) =
     (if x = 0 then ''0'' else if x < 0 then ''-'' @ positive_to_string (- x) else positive_to_string x)"
| "number_to_string PInf = ''Infinity''"
| "number_to_string NInf = ''-Infinity''"
| "number_to_string NaN = ''NaN''"

section \<open>Conversions of values\<close>

text \<open>\<open>String(v)\<close>.\<close>

fun to_string :: "jsval \<Rightarrow> string" where
  "to_string Undefined = ''undefined''"
| "to_string JNull = ''null''"
| "to_string (JBool b) = (if b then ''true'' else ''false'')"
| "to_string (JNum n) = number_to_string n"
| "to_string (JStr s) = s"
| "to_string (JArr vs) = join '','' (map (\<lambda>v. if is_nullish v then [] else to_string v) vs)"
| "to_string (JObj fs) = ''[object Object]''"

text \<open>\<open>Number(v)\<close>.\<close>

fun to_number :: "jsval \<Rightarrow> jsnum" where
  "to_number Undefined = NaN"
| "to_number JNull = Fin 0"
| "to_number (JBool b) = (if b then Fin 1 else Fin 0)"
| "to_number (JNum n) = n"
| "to_number (JStr s) = number_of_string s"
| "to_number (JArr vs) = number_of_string (to_string (JArr vs))"
| "to_number (JObj fs) = NaN"

text \<open>The helper \<open>toFiniteNumber\<close> that several modules define alike; \<open>None\<close> is its \<open>null\<close>.\<close>

definition to_finite_number :: "jsval \<Rightarrow> jsnum option" where
  "to_finite_number v = (let n = to_number v in if is_finite n then Some n else None)"

text \<open>\<open>String(v || '').trim().toUpperCase()\<close> and \<open>String(v || '').toLowerCase()\<close>.\<close>

definition symbol_text :: "jsval \<Rightarrow> string" where
  "symbol_text v = upper (trim (to_string (js_or v (JStr []))))"

definition lower_text :: "jsval \<Rightarrow> string" where
  "lower_text v = lower (to_string (js_or v (JStr [])))"

text \<open>\<open>[...new Set(xs)]\<close>: the first occurrence of each element, in order.\<close>

definition unique :: "'a list \<Rightarrow> 'a list" where
  "unique xs = rev (remdups (rev xs))"

text \<open>A number or \<open>null\<close> as a value.\<close>

definition num_val :: "jsnum option \<Rightarrow> jsval" where
  "num_val n = (case n of Some x \<Rightarrow> JNum x | None \<Rightarrow> JNull)"

text \<open>\<open>a !== b\<close> on the values a price field holds.\<close>

fun strict_neq :: "jsval \<Rightarrow> jsval \<Rightarrow> bool" where
  "strict_neq (JNum a) (JNum b) = (\<not> num_eq a b)"
| "strict_neq a b = (a \<noteq> b)"

section \<open>Lemmas\<close>

lemma unique_simps [simp]: "set (unique xs) = set xs" "distinct (unique xs)"
  by (simp_all add: unique_def)

lemma truthy_JStr_Cons [simp]: "truthy (JStr (c # s))"
  by simp

lemma js_or_simps [simp]: "truthy a \<Longrightarrow> js_or a b = a" "\<not> truthy a \<Longrightarrow> js_or a b = b"
  by (simp_all add: js_or_def)

lemma nullish_simps [simp]: "nullish Undefined b = b" "nullish JNull b = b" "nullish (JNum n) b = JNum n"
  "nullish (JStr s) b = JStr s" "nullish (JBool t) b = JBool t" "nullish (JObj fs) b = JObj fs" "nullish (JArr vs) b = JArr vs"
  by (simp_all add: nullish_def is_nullish_def)

lemma own_set_field [simp]: "own (set_field k v fs) j = (if j = k then v else own fs j)"
  by (simp add: own_def set_field_def update_conv')

lemma map_of_spread: "map_of (spread a b) = map_of a ++ map_of (rev b)"
proof (induction b rule: rev_induct)
  case (snoc p b)
  then show ?case
    by (cases p) (auto simp: spread_def set_field_def update_conv' map_add_def fun_eq_iff split: option.split)
qed (simp add: spread_def)

lemma map_of_rev: "distinct (map fst xs) \<Longrightarrow> map_of (rev xs) = map_of xs"
proof (induction xs)
  case (Cons x xs)
  then have "map_of (rev xs) (fst x) = None" by (simp add: map_of_eq_None_iff)
  with Cons show ?case by (auto simp: map_add_def fun_eq_iff split: option.split)
qed simp

lemma own_spread:
  assumes "distinct (map fst b)"
  shows "own (spread a b) k = (if k \<in> set (map fst b) then own b k else own a k)"
proof (cases "map_of b k")
  case None
  then have "k \<notin> set (map fst b)" by (simp add: map_of_eq_None_iff)
  with None show ?thesis by (simp add: own_def map_of_spread map_of_rev [OF assms] map_add_def)
next
  case (Some v)
  then have "k \<in> set (map fst b)" by (metis map_of_eq_None_iff option.distinct(1) set_map)
  with Some show ?thesis by (simp add: own_def map_of_spread map_of_rev [OF assms] map_add_def)
qed

lemma own_spread_case:
  assumes "distinct (map fst b)"
  shows "own (spread a b) k = (case map_of b k of Some v \<Rightarrow> v | None \<Rightarrow> own a k)"
  by (simp add: own_def map_of_spread map_of_rev [OF assms] map_add_def split: option.split)

lemma field_JObj [simp]: "field (JObj fs) k = own fs k"
  by (simp add: own_def)

declare field.simps(1) [simp del]

lemma own_Cons: "own ((k, v) # fs) j = (if j = k then v else own fs j)"
  by (simp add: own_def)

lemma own_Nil [simp]: "own [] j = Undefined"
  by (simp add: own_def)

lemma distinct_set_field: "distinct (map fst fs) \<Longrightarrow> distinct (map fst (set_field k v fs))"
  by (simp add: set_field_def distinct_update)

lemma distinct_spread: "distinct (map fst a) \<Longrightarrow> distinct (map fst (spread a b))"
  unfolding spread_def by (rule foldl_invariant_list) (auto intro: distinct_set_field)

lemma upper_char_other:
  assumes "\<not> (97 \<le> (of_char c :: nat) \<and> (of_char c :: nat) \<le> 122)"
  shows "upper_char c = c"
  unfolding upper_char_def Let_def using assms by (rule if_not_P)

lemma upper_char_letter:
  assumes "97 \<le> (of_char c :: nat)" "(of_char c :: nat) \<le> 122"
  shows "upper_char c = char_of ((of_char c :: nat) - 32)"
    and "(of_char (upper_char c) :: nat) = of_char c - 32"
proof -
  show u: "upper_char c = char_of ((of_char c :: nat) - 32)"
    unfolding upper_char_def Let_def using assms by simp
  show "(of_char (upper_char c) :: nat) = of_char c - 32"
    unfolding u by (simp only: of_char_of) (rule mod_less, use assms in linarith)
qed

lemma upper_char_idem [simp]: "upper_char (upper_char c) = upper_char c"
proof (cases "97 \<le> (of_char c :: nat) \<and> (of_char c :: nat) \<le> 122")
  case True
  then have "(of_char (upper_char c) :: nat) = of_char c - 32" by (intro upper_char_letter) auto
  with True show ?thesis by (intro upper_char_other) linarith
qed (simp add: upper_char_other)

lemma upper_idem [simp]: "upper (upper s) = upper s"
  by (simp add: upper_def o_def)

lemma is_space_code: "is_space c \<longleftrightarrow> (of_char c :: nat) \<in> {32, 9, 10, 11, 12, 13}"
proof -
  have "c = CHR '' '' \<longleftrightarrow> (of_char c :: nat) = 32" "c = CHR 0x09 \<longleftrightarrow> (of_char c :: nat) = 9"
    "c = CHR 0x0A \<longleftrightarrow> (of_char c :: nat) = 10" "c = CHR 0x0B \<longleftrightarrow> (of_char c :: nat) = 11"
    "c = CHR 0x0C \<longleftrightarrow> (of_char c :: nat) = 12" "c = CHR 0x0D \<longleftrightarrow> (of_char c :: nat) = 13"
    using of_char_eq_iff [where ?'a = nat, of c "CHR '' ''"] of_char_eq_iff [where ?'a = nat, of c "CHR 0x09"]
      of_char_eq_iff [where ?'a = nat, of c "CHR 0x0A"] of_char_eq_iff [where ?'a = nat, of c "CHR 0x0B"]
      of_char_eq_iff [where ?'a = nat, of c "CHR 0x0C"] of_char_eq_iff [where ?'a = nat, of c "CHR 0x0D"]
    by simp_all
  then show ?thesis by (auto simp: is_space_def)
qed

lemma is_space_upper [simp]: "is_space (upper_char c) = is_space c"
proof (cases "97 \<le> (of_char c :: nat) \<and> (of_char c :: nat) \<le> 122")
  case True
  then have "(of_char (upper_char c) :: nat) = of_char c - 32" by (intro upper_char_letter) auto
  with True show ?thesis unfolding is_space_code by auto
qed (simp add: upper_char_other)

lemma trim_upper: "trim (upper s) = upper (trim s)"
  by (simp add: trim_def upper_def dropWhile_map o_def rev_map)

lemma trim_idem [simp]: "trim (trim s) = trim s"
proof -
  define a where "a = dropWhile is_space s"
  define b where "b = dropWhile is_space (rev a)"
  have t: "trim s = rev b" by (simp add: trim_def a_def b_def)
  have b_hd: "b = [] \<or> \<not> is_space (hd b)" unfolding b_def by (metis hd_dropWhile)
  have "b = [] \<or> \<not> is_space (last b)"
  proof (cases "b = []")
    case False
    obtain c where c: "rev a = c @ b"
      unfolding b_def by (metis takeWhile_dropWhile_id)
    then have a: "a \<noteq> []" "hd a = last b" using False by (auto simp: hd_rev [symmetric] hd_append)
      (metis False c hd_append2 hd_rev rev_append rev_is_Nil_conv rev_rev_ident)
    have "\<not> is_space (hd a)" using a(1) unfolding a_def by (rule hd_dropWhile)
    with a(2) show ?thesis by simp
  qed simp
  then have "dropWhile is_space (rev b) = rev b"
    by (cases "rev b") (auto dest: arg_cong [where f = rev])
  moreover have "dropWhile is_space b = b" using b_hd by (cases b) auto
  ultimately have "trim (rev b) = rev b" by (simp add: trim_def)
  then show ?thesis by (simp only: t)
qed

text \<open>Normalising a symbol twice changes nothing.\<close>

lemma symbol_text_idem: "symbol_text (JStr (symbol_text v)) = symbol_text v"
proof -
  define s where "s = to_string (js_or v (JStr []))"
  have "symbol_text v = upper (trim s)" by (simp add: symbol_text_def s_def)
  moreover have "to_string (js_or (JStr x) (JStr [])) = x" for x by (cases x) (simp_all add: js_or_def)
  ultimately show ?thesis by (simp add: symbol_text_def trim_upper)
qed

end
