(* ===== verification/SessionCalendar.thy ===== *)
theory SessionCalendar
  imports JSValue
begin

text \<open>
  The exchange calendar, \<open>frontend/src/market/nseSessionCalendar.js\<close>: the session an instant
  falls in by the clock of India, and its merge with what the server reports. An instant is
  the integer number of milliseconds of \<open>Date.now()\<close>. The parts that
  \<open>Intl.DateTimeFormat\<close> gives for \<open>Asia/Kolkata\<close> (a fixed offset of five hours and a half
  since 1945) are computed with the Gregorian calendar.
\<close>

section \<open>The Gregorian calendar\<close>

text \<open>Days are counted from 1970-01-01; years start in March and come in cycles of 400.\<close>

definition year_day :: "int \<Rightarrow> int \<times> int" where
  "year_day doe =
     (let c = min 3 (doe div 36524);
          doc = doe - c * 36524;
          q = doc div 1461;
          doq = doc - q * 1461;
          y = min 3 (doq div 365)
      in (100 * c + 4 * q + y, doq - y * 365))"

definition civil_from_days :: "int \<Rightarrow> int \<times> int \<times> int" where
  "civil_from_days days =
     (let z = days + 719468;
          era = z div 146097;
          (yoe, doy) = year_day (z mod 146097);
          mp = (5 * doy + 2) div 153;
          d = doy - (153 * mp + 2) div 5 + 1;
          m = (if mp < 10 then mp + 3 else mp - 9)
      in (yoe + era * 400 + (if m \<le> 2 then 1 else 0), m, d))"

definition days_from_civil :: "int \<Rightarrow> int \<Rightarrow> int \<Rightarrow> int" where
  "days_from_civil y m d =
     (let y' = (if m \<le> 2 then y - 1 else y);
          yoe = y' mod 400;
          doy = (153 * (if 2 < m then m - 3 else m + 9) + 2) div 5 + d - 1
      in (y' div 400) * 146097 + (yoe * 365 + yoe div 4 - yoe div 100 + doy) - 719468)"

definition weekday_name :: "int \<Rightarrow> string" where
  "weekday_name days =
     [''Sun'', ''Mon'', ''Tue'', ''Wed'', ''Thu'', ''Fri'', ''Sat''] ! nat ((days + 4) mod 7)"

definition pad2 :: "int \<Rightarrow> string" where
  "pad2 n = (if n < 10 then ''0'' @ digits_of n else digits_of n)"

section \<open>The session of an instant\<close>

record ist_parts =
  ist_date :: string
  ist_weekday :: string
  ist_time :: string
  ist_minutes :: int

definition get_ist_parts :: "int \<Rightarrow> ist_parts" where
  "get_ist_parts now =
     (let ist = now + 19800000;
          days = ist div 86400000;
          secs = (ist mod 86400000) div 1000;
          hour = secs div 3600; minute = (secs mod 3600) div 60; second = secs mod 60;
          (y, m, d) = civil_from_days days
      in \<lparr> ist_date = digits_of y @ ''-'' @ pad2 m @ ''-'' @ pad2 d,
           ist_weekday = weekday_name days,
           ist_time = pad2 hour @ '':'' @ pad2 minute @ '':'' @ pad2 second,
           ist_minutes = hour * 60 + minute \<rparr>)"

definition nse_holidays_ist :: "string list" where
  "nse_holidays_ist =
     [''2026-01-26'', ''2026-03-10'', ''2026-03-17'', ''2026-03-30'', ''2026-04-03'', ''2026-04-14'',
      ''2026-05-01'', ''2026-05-27'', ''2026-05-28'', ''2026-06-06'', ''2026-07-06'', ''2026-08-15'',
      ''2026-08-25'', ''2026-10-02'', ''2026-10-20'', ''2026-11-09'', ''2026-11-10'', ''2026-11-30'',
      ''2026-12-25'']"

definition state_labels :: "(string \<times> string) list" where
  "state_labels =
     [(''open'', ''Market Open''), (''pre_market'', ''Pre-Market''), (''closing'', ''Closing''),
      (''after_market'', ''After Market''), (''closed'', ''Market Closed''), (''weekend'', ''Weekend''),
      (''holiday'', ''Holiday'')]"

definition state_label :: "string \<Rightarrow> string" where
  "state_label st = the (map_of state_labels st)"

record local_session =
  ls_state :: string
  ls_label :: string
  ls_open :: bool
  ls_closed :: bool
  ls_frozen :: bool
  ls_date :: string
  ls_time :: string

definition closed_as :: "string \<Rightarrow> ist_parts \<Rightarrow> local_session" where
  "closed_as st ist = \<lparr> ls_state = st, ls_label = state_label st, ls_open = False, ls_closed = True,
     ls_frozen = True, ls_date = ist_date ist, ls_time = ist_time ist \<rparr>"

definition session_of_parts :: "ist_parts \<Rightarrow> local_session" where
  "session_of_parts ist =
     (if ist_weekday ist = ''Sat'' \<or> ist_weekday ist = ''Sun'' then closed_as ''weekend'' ist
      else if ist_date ist \<in> set nse_holidays_ist then closed_as ''holiday'' ist
      else
        let m = ist_minutes ist in
        if 9 * 60 + 0 \<le> m \<and> m < 9 * 60 + 15 then closed_as ''pre_market'' ist
        else if 9 * 60 + 15 \<le> m \<and> m < 15 * 60 + 30 then
          \<lparr> ls_state = ''open'', ls_label = state_label ''open'', ls_open = True, ls_closed = False,
            ls_frozen = False, ls_date = ist_date ist, ls_time = ist_time ist \<rparr>
        else if 15 * 60 + 30 \<le> m \<and> m < 15 * 60 + 40 then closed_as ''closing'' ist
        else if 15 * 60 + 40 \<le> m \<and> m < 16 * 60 + 0 then closed_as ''after_market'' ist
        else closed_as ''closed'' ist)"

definition compute_local_nse_session :: "int \<Rightarrow> local_session" where
  "compute_local_nse_session now = session_of_parts (get_ist_parts now)"

text \<open>The session as an object, and the merge with the report of the server.\<close>

definition session_obj :: "local_session \<Rightarrow> jsobj" where
  "session_obj s = [(''state'', JStr (ls_state s)), (''label'', JStr (ls_label s)), (''isOpen'', JBool (ls_open s)),
     (''isClosed'', JBool (ls_closed s)), (''frozen'', JBool (ls_frozen s)),
     (''ist_date'', JStr (ls_date s)), (''ist_time'', JStr (ls_time s))]"

definition replay_feed_active :: "jsobj \<Rightarrow> bool" where
  "replay_feed_active api = (own api ''simulation_mode'' = JBool True \<or> own api ''live_feed_active'' = JBool True)"

definition merge_session_with_local_truth :: "int \<Rightarrow> jsobj \<Rightarrow> jsobj" where
  "merge_session_with_local_truth now api =
     (let loc = compute_local_nse_session now;
          api_state = lower_text (own api ''state'')
      in if replay_feed_active api then
           spread api
             [(''state'', JStr ''open''), (''label'', js_or (own api ''label'') (JStr ''Live Feed'')),
              (''isOpen'', JBool True), (''isClosed'', JBool False), (''is_trading_hours'', JBool True),
              (''is_trading'', JBool True), (''can_place_orders'', JBool (truthy (own api ''can_place_orders''))),
              (''can_run_algo'', JBool True), (''frozen'', JBool False),
              (''ist_date'', js_or (own api ''ist_date'') (JStr (ls_date loc))),
              (''ist_time'', js_or (own api ''ist_time'') (JStr (ls_time loc))),
              (''session_corrected'', JBool False)]
         else
           spread api
             [(''state'', JStr (ls_state loc)), (''label'', JStr (ls_label loc)),
              (''isOpen'', JBool (ls_open loc)), (''isClosed'', JBool (ls_closed loc)),
              (''is_trading_hours'', JBool (ls_open loc)), (''is_trading'', JBool (ls_open loc)),
              (''can_place_orders'', JBool (ls_open loc \<and> api_state = ''open'' \<and> truthy (own api ''can_place_orders''))),
              (''can_run_algo'', JBool (ls_open loc)), (''frozen'', JBool (ls_frozen loc)),
              (''ist_date'', JStr (ls_date loc)), (''ist_time'', JStr (ls_time loc)),
              (''session_corrected'', JBool (api_state = ''open'' \<and> \<not> ls_open loc))])"

section \<open>The calendar is right\<close>

lemma div_bounds: "0 < n \<Longrightarrow> n * (x div n) \<le> x \<and> x < n * (x div n) + (n :: int)"
  using pos_mod_sign [of n x] pos_mod_bound [of n x] mult_div_mod_eq [of n x] by linarith

lemma year_day_spec:
  assumes "0 \<le> doe" "doe < 146097"
  shows "0 \<le> fst (year_day doe)" "fst (year_day doe) < 400" "0 \<le> snd (year_day doe)" "snd (year_day doe) \<le> 365"
    and "fst (year_day doe) * 365 + fst (year_day doe) div 4 - fst (year_day doe) div 100 + snd (year_day doe) = doe"
proof -
  define c where "c = min 3 (doe div 36524)"
  define doc where "doc = doe - c * 36524"
  define q where "q = doc div 1461"
  define doq where "doq = doc - q * 1461"
  define y where "y = min 3 (doq div 365)"
  have yd: "year_day doe = (100 * c + 4 * q + y, doq - y * 365)"
    by (simp add: year_day_def Let_def c_def doc_def q_def doq_def y_def)
  have c: "0 \<le> c" "c \<le> 3" using assms by (auto simp: c_def pos_imp_zdiv_nonneg_iff)
  have doc: "0 \<le> doc" "doc \<le> 36524" using assms unfolding doc_def c_def by (auto simp: min_def)
  have dq: "1461 * q \<le> doc" "doc < 1461 * q + 1461" using div_bounds [of 1461 doc] by (simp_all add: q_def)
  then have q: "0 \<le> q" "q \<le> 24" using doc by linarith+
  have doq: "0 \<le> doq" "doq < 1461" using dq by (simp_all add: doq_def)
  have y: "0 \<le> y" "y \<le> 3" using doq by (auto simp: y_def pos_imp_zdiv_nonneg_iff)
  have doy: "0 \<le> doq - y * 365" "doq - y * 365 \<le> 365" using doq unfolding y_def by (auto simp: min_def)
  have "100 * c + 4 * q + y = y + (25 * c + q) * 4" by simp
  then have four: "(100 * c + 4 * q + y) div 4 = 25 * c + q" using y by (simp add: div_pos_pos_trivial)
  have "100 * c + 4 * q + y = (4 * q + y) + c * 100" by simp
  then have hundred: "(100 * c + 4 * q + y) div 100 = c" using q y by (simp add: div_pos_pos_trivial)
  show "0 \<le> fst (year_day doe)" "fst (year_day doe) < 400" using c q y by (simp_all add: yd)
  show "0 \<le> snd (year_day doe)" "snd (year_day doe) \<le> 365" using doy by (simp_all add: yd)
  show "fst (year_day doe) * 365 + fst (year_day doe) div 4 - fst (year_day doe) div 100 + snd (year_day doe) = doe"
    unfolding yd fst_conv snd_conv four hundred by (simp add: doq_def doc_def algebra_simps)
qed

text \<open>The month and the day of a day of the year that starts in March.\<close>

lemma month_of_day:
  fixes doy :: int
  assumes "0 \<le> doy" "doy \<le> 365"
  defines "mp \<equiv> (5 * doy + 2) div 153"
  shows "0 \<le> mp" "mp \<le> 11"
    and "1 \<le> doy - (153 * mp + 2) div 5 + 1" "doy - (153 * mp + 2) div 5 + 1 \<le> 31"
proof -
  have b: "153 * mp \<le> 5 * doy + 2" "5 * doy + 2 < 153 * mp + 153"
    using div_bounds [of 153 "5 * doy + 2"] by (simp_all add: mp_def)
  then show mp: "0 \<le> mp" "mp \<le> 11" using assms(1,2) by linarith+
  have e: "5 * ((153 * mp + 2) div 5) \<le> 153 * mp + 2" "153 * mp + 2 < 5 * ((153 * mp + 2) div 5) + 5"
    using div_bounds [of 5 "153 * mp + 2"] by simp_all
  show "1 \<le> doy - (153 * mp + 2) div 5 + 1" "doy - (153 * mp + 2) div 5 + 1 \<le> 31"
    using b e by linarith+
qed

lemma civil_roundtrip: "(case civil_from_days days of (y, m, d) \<Rightarrow> days_from_civil y m d) = days"
proof -
  define z where "z = days + 719468"
  define era where "era = z div 146097"
  define doe where "doe = z mod 146097"
  obtain yoe doy where yd: "year_day doe = (yoe, doy)" by fastforce
  have doe: "0 \<le> doe" "doe < 146097" by (simp_all add: doe_def)
  from year_day_spec [OF doe] have r: "0 \<le> yoe" "yoe < 400" "0 \<le> doy" "doy \<le> 365"
    and eq: "yoe * 365 + yoe div 4 - yoe div 100 + doy = doe" by (simp_all add: yd)
  define mp where "mp = (5 * doy + 2) div 153"
  have mp: "0 \<le> mp" "mp \<le> 11" using month_of_day [of doy] r by (simp_all add: mp_def)
  define m where "m = (if mp < 10 then mp + 3 else mp - 9)"
  have minv: "(if 2 < m then m - 3 else m + 9) = mp" using mp by (auto simp: m_def)
  define d where "d = doy - (153 * mp + 2) div 5 + 1"
  define y where "y = yoe + era * 400 + (if m \<le> 2 then 1 else 0)"
  have y': "(if m \<le> 2 then y - 1 else y) = yoe + era * 400" by (simp add: y_def)
  have "(yoe + era * 400) mod 400 = yoe" "(yoe + era * 400) div 400 = era" using r by auto
  moreover have "era * 146097 + doe = z" by (simp add: era_def doe_def)
  ultimately have "days_from_civil y m d = days"
    unfolding days_from_civil_def Let_def minv y' using eq by (simp add: d_def z_def)
  moreover have "civil_from_days days = (y, m, d)"
    unfolding civil_from_days_def Let_def z_def [symmetric] era_def [symmetric] doe_def [symmetric] yd
      prod.case mp_def [symmetric] m_def [symmetric] d_def [symmetric] y_def ..
  ultimately show ?thesis by simp
qed

lemma civil_valid: "case civil_from_days days of (y, m, d) \<Rightarrow> 1 \<le> m \<and> m \<le> 12 \<and> 1 \<le> d \<and> d \<le> 31"
proof -
  define doe where "doe = (days + 719468) mod 146097"
  obtain yoe doy where yd: "year_day doe = (yoe, doy)" by fastforce
  have "0 \<le> doe" "doe < 146097" by (simp_all add: doe_def)
  from year_day_spec [OF this] have r: "0 \<le> doy" "doy \<le> 365" by (simp_all add: yd)
  define mp where "mp = (5 * doy + 2) div 153"
  have "0 \<le> mp" "mp \<le> 11" "1 \<le> doy - (153 * mp + 2) div 5 + 1" "doy - (153 * mp + 2) div 5 + 1 \<le> 31"
    using month_of_day [of doy] r by (simp_all add: mp_def)
  then show ?thesis
    by (simp add: civil_from_days_def Let_def doe_def [symmetric] yd mp_def [symmetric])
qed

section \<open>When the exchange is open\<close>

lemma local_open_iff:
  "ls_open (session_of_parts p) \<longleftrightarrow> ist_weekday p \<noteq> ''Sat'' \<and> ist_weekday p \<noteq> ''Sun'' \<and>
     ist_date p \<notin> set nse_holidays_ist \<and> 555 \<le> ist_minutes p \<and> ist_minutes p < 930"
  by (auto simp: session_of_parts_def closed_as_def Let_def)

lemma local_consistent:
  "ls_closed (session_of_parts p) = (\<not> ls_open (session_of_parts p))"
  "ls_frozen (session_of_parts p) = (\<not> ls_open (session_of_parts p))"
  "(ls_state (session_of_parts p) = ''open'') = ls_open (session_of_parts p)"
  "map_of state_labels (ls_state (session_of_parts p)) = Some (ls_label (session_of_parts p))"
  by (auto simp: session_of_parts_def closed_as_def Let_def state_label_def state_labels_def)

lemma weekday_name_weekend:
  "weekday_name days = ''Sat'' \<longleftrightarrow> (days + 4) mod 7 = 6"
  "weekday_name days = ''Sun'' \<longleftrightarrow> (days + 4) mod 7 = 0"
proof -
  define w where "w = (days + 4) mod 7"
  have "0 \<le> w" "w < 7" by (simp_all add: w_def)
  then have "w = 0 \<or> w = 1 \<or> w = 2 \<or> w = 3 \<or> w = 4 \<or> w = 5 \<or> w = 6" by linarith
  then show "weekday_name days = ''Sat'' \<longleftrightarrow> (days + 4) mod 7 = 6"
    "weekday_name days = ''Sun'' \<longleftrightarrow> (days + 4) mod 7 = 0"
    by (auto simp: weekday_name_def w_def [symmetric] nth_Cons')
qed

lemma ist_minutes_of: "ist_minutes (get_ist_parts now) = (now + 19800000) mod 86400000 div 60000"
proof -
  define r where "r = (now + 19800000) mod 86400000"
  have "0 \<le> r" "r < 86400000" by (simp_all add: r_def)
  define s where "s = r div 1000"
  have "s div 60 = (s mod 3600 + s div 3600 * 60 * 60) div 60" by simp
  also have "\<dots> = s div 3600 * 60 + s mod 3600 div 60" by (subst div_mult_self1) simp_all
  finally have "r div 1000 div 3600 * 60 + r div 1000 mod 3600 div 60 = r div 1000 div 60" by (simp add: s_def)
  also have "\<dots> = r div 60000" by (simp add: zdiv_zmult2_eq [symmetric])
  finally have "r div 1000 div 3600 * 60 + r div 1000 mod 3600 div 60 = r div 60000" .
  moreover have "ist_minutes (get_ist_parts now) = r div 1000 div 3600 * 60 + r div 1000 mod 3600 div 60"
    by (simp only: get_ist_parts_def Let_def split_beta ist_parts.simps r_def)
  ultimately show ?thesis by (simp only: r_def)
qed

lemma ist_weekday_of: "ist_weekday (get_ist_parts now) = weekday_name ((now + 19800000) div 86400000)"
  by (simp add: get_ist_parts_def Let_def split_beta)

text \<open>The open minutes in terms of the instant alone.\<close>

lemma open_instant:
  "ls_open (compute_local_nse_session now) \<longleftrightarrow>
     ((now + 19800000) div 86400000 + 4) mod 7 \<notin> {0, 6} \<and>
     ist_date (get_ist_parts now) \<notin> set nse_holidays_ist \<and>
     555 * 60000 \<le> (now + 19800000) mod 86400000 \<and> (now + 19800000) mod 86400000 < 930 * 60000"
proof -
  define r where "r = (now + 19800000) mod 86400000"
  have "555 \<le> r div 60000 \<longleftrightarrow> 555 * 60000 \<le> r" "r div 60000 < 930 \<longleftrightarrow> r < 930 * 60000"
    using div_bounds [of 60000 r] by linarith+
  then show ?thesis
    by (auto simp: compute_local_nse_session_def local_open_iff ist_minutes_of ist_weekday_of
        weekday_name_weekend r_def [symmetric])
qed

section \<open>The merge\<close>

lemma merge_replay:
  assumes "replay_feed_active api"
  shows "own (merge_session_with_local_truth now api) ''isOpen'' = JBool True"
    and "own (merge_session_with_local_truth now api) ''state'' = JStr ''open''"
    and "own (merge_session_with_local_truth now api) ''can_place_orders'' =
      JBool (truthy (own api ''can_place_orders''))"
    and "own (merge_session_with_local_truth now api) ''session_corrected'' = JBool False"
  using assms by (simp_all add: merge_session_with_local_truth_def Let_def own_spread) (simp_all add: own_def)

lemma merge_local:
  assumes "\<not> replay_feed_active api"
  shows "own (merge_session_with_local_truth now api) ''isOpen'' = JBool (ls_open (compute_local_nse_session now))"
    and "own (merge_session_with_local_truth now api) ''state'' = JStr (ls_state (compute_local_nse_session now))"
    and "own (merge_session_with_local_truth now api) ''can_place_orders'' =
      JBool (ls_open (compute_local_nse_session now) \<and> lower_text (own api ''state'') = ''open'' \<and>
        truthy (own api ''can_place_orders''))"
    and "own (merge_session_with_local_truth now api) ''session_corrected'' =
      JBool (lower_text (own api ''state'') = ''open'' \<and> \<not> ls_open (compute_local_nse_session now))"
  using assms by (simp_all add: merge_session_with_local_truth_def Let_def own_spread) (simp_all add: own_def)

end
