(* ===== verification/SessionState.thy ===== *)
theory SessionState
  imports SessionCalendar
begin

text \<open>
  The session snapshot and its manager: \<open>frontend/src/market/utils/marketSessionUtils.js\<close> and
  \<open>frontend/src/market/MarketSessionManager.js\<close>. The module variable \<open>_snapshot\<close> is an
  object that is replaced as a whole; \<open>Date.now()\<close> is the argument \<open>now\<close>. What the
  server answers is an argument of \<open>refresh_session\<close>, and the calls into other modules
  are the actions it returns.
\<close>

section \<open>Snapshot\<close>

definition default_snapshot :: jsobj where
  "default_snapshot = [(''state'', JStr ''closed''), (''isOpen'', JBool False), (''isClosed'', JBool True),
     (''canPlaceOrders'', JBool False), (''isTradingHours'', JBool False),
     (''label'', JStr ''Market Closed''), (''fetchedAt'', JNum (Fin 0))]"

definition initial_snapshot :: "int \<Rightarrow> jsobj" where
  "initial_snapshot now =
     spread (spread default_snapshot (session_obj (compute_local_nse_session now)))
       [(''canPlaceOrders'', JBool False), (''isTradingHours'', JBool False)]"

text \<open>\<open>Date.now()\<close> as a number of the language.\<close>

definition now_val :: "int \<Rightarrow> jsval" where
  "now_val now = JNum (num_of_int now)"

definition set_market_session_snapshot :: "int \<Rightarrow> jsobj \<Rightarrow> jsobj \<Rightarrow> jsobj" where
  "set_market_session_snapshot now session snap =
     (let merged = merge_session_with_local_truth now session;
          st = lower (to_string (js_or (own merged ''state'') (JStr ''closed'')));
          is_open = (own merged ''isOpen'' = JBool True);
          state_changed = (own snap ''state'' \<noteq> JStr st)
      in [(''state'', JStr st), (''isOpen'', JBool is_open), (''isClosed'', JBool (\<not> is_open)),
          (''canPlaceOrders'', JBool (is_open \<and> truthy (own merged ''can_place_orders''))),
          (''isTradingHours'', JBool is_open),
          (''label'', js_or (own merged ''label'') (JStr ''Market Closed'')),
          (''fetchedAt'', if state_changed then now_val now else own snap ''fetchedAt''),
          (''raw'', JObj merged)])"

definition is_market_session_open :: "jsobj \<Rightarrow> bool" where
  "is_market_session_open snap = (own snap ''isOpen'' = JBool True)"

text \<open>The window in which a live tick proves that a feed is live.\<close>

definition has_recent_live_tick :: "int \<Rightarrow> int \<Rightarrow> bool" where
  "has_recent_live_tick last_tick now = (0 < last_tick \<and> now - last_tick < 10000)"

section \<open>Which quotes the session admits\<close>

text \<open>
  \<open>shouldUseRealtimePrices()\<close>. The functions that call it take its value as the argument
  \<open>realtime\<close>, so that both of their branches are stated; the program runs them with
  \<open>should_use_realtime_prices\<close>.
\<close>

definition should_use_realtime_prices :: bool where
  "should_use_realtime_prices = True"

definition is_frozen_market_session :: bool where
  "is_frozen_market_session = (\<not> should_use_realtime_prices)"

definition closed_auth_quote_sources :: "string list" where
  "closed_auth_quote_sources = [''official_eod_close'', ''eod'', ''frozen'', ''historical'',
     ''history_snapshot'', ''snapshot'']"

definition is_authoritative_closed_quote_source :: "jsval \<Rightarrow> bool" where
  "is_authoritative_closed_quote_source source = (lower_text source \<in> set closed_auth_quote_sources)"

text \<open>\<open>q?._source || q?.source\<close>.\<close>

definition source_of :: "jsval \<Rightarrow> jsval" where
  "source_of q = js_or (field q ''_source'') (field q ''source'')"

definition should_apply_quote_source :: "bool \<Rightarrow> jsval \<Rightarrow> jsval \<Rightarrow> bool" where
  "should_apply_quote_source realtime source existing =
     (if realtime then True
      else
        let src = lower_text source in
        if is_authoritative_closed_quote_source (JStr src) then True
        else
          let existing_src = lower_text (source_of existing) in
          if is_authoritative_closed_quote_source (JStr existing_src) then False
          else
            let price = to_number (first_field existing [''price'', ''ltp'', ''lp''])
            in \<not> (is_finite price \<and> Fin 0 < price))"

definition is_pre_market_state :: "string \<Rightarrow> bool" where
  "is_pre_market_state st = (st = ''preopen'' \<or> st = ''pre_open'')"

definition purge_non_authoritative_closed_quotes :: "bool \<Rightarrow> jsobj \<Rightarrow> jsobj" where
  "purge_non_authoritative_closed_quotes realtime quotes =
     (if realtime then quotes
      else fold (\<lambda>(key, quote) nxt.
        if is_authoritative_closed_quote_source (JStr (lower_text (source_of quote)))
        then set_field key quote nxt else nxt) quotes [])"

section \<open>The session manager\<close>

record session_manager =
  mg_started :: bool
  mg_last_state :: "string option"
  mg_snapshot :: jsobj
  mg_poll_ms :: "nat option"

text \<open>
  What \<open>refreshSession\<close> makes other modules do. \<open>SessionClosed\<close> stands for the purge of the
  stores, the prefetch of the session closes, the reconciliation and the later fetch of the
  ticker, in this order.
\<close>

datatype session_action = NotifyListeners jsobj | ClearSessionCloses | SessionClosed

text \<open>
  \<open>fetchSession\<close>: the answers of the two requests, \<open>None\<close> where one throws.
\<close>

definition fetch_session :: "jsval option \<Rightarrow> jsval option \<Rightarrow> jsval" where
  "fetch_session session health =
     (case session of
        Some res \<Rightarrow> nullish (field res ''data'') (JObj [])
      | None \<Rightarrow>
          (case health of
             Some res \<Rightarrow> nullish (field (field res ''data'') ''market_session'') (JObj [])
           | None \<Rightarrow> JNull))"

definition refresh_session :: "int \<Rightarrow> jsval \<Rightarrow> session_manager \<Rightarrow> session_manager \<times> session_action list" where
  "refresh_session now data m =
     (if \<not> truthy data then (m, [])
      else
        let prev = mg_last_state m;
            st = lower (to_string (js_or (field data ''state'') (JStr ''closed'')));
            snap = set_market_session_snapshot now (fields_of data) (mg_snapshot m);
            m' = m\<lparr> mg_last_state := Some st, mg_snapshot := snap \<rparr>
        in if prev \<noteq> Some st then
             (m', [NotifyListeners snap]
                @ (if st = ''open'' \<and> prev \<noteq> Some ''open'' then [ClearSessionCloses] else [])
                @ (if st \<noteq> ''open'' \<and> prev = Some ''open'' then [SessionClosed] else []))
           else (m', []))"

definition schedule_poll :: "session_manager \<Rightarrow> session_manager" where
  "schedule_poll m =
     m\<lparr> mg_poll_ms := Some (if is_market_session_open (mg_snapshot m) then 30000 else 60000) \<rparr>"

definition stop_manager :: "session_manager \<Rightarrow> session_manager" where
  "stop_manager m = m\<lparr> mg_started := False, mg_poll_ms := None \<rparr>"

text \<open>
  \<open>start\<close>: the first refresh and what follows it; the flag says whether the closed-session
  tasks (restore, prefetch, reconciliation) are launched.
\<close>

definition start_manager :: "int \<Rightarrow> jsval \<Rightarrow> session_manager \<Rightarrow> session_manager \<times> session_action list \<times> bool" where
  "start_manager now data m =
     (if mg_started m then (m, [], False)
      else
        let (m', acts) = refresh_session now data (m\<lparr> mg_started := True \<rparr>);
            m'' = schedule_poll m'
        in (m'', acts, \<not> is_market_session_open (mg_snapshot m'')))"

definition new_manager :: "int \<Rightarrow> session_manager" where
  "new_manager now = \<lparr> mg_started = False, mg_last_state = None, mg_snapshot = initial_snapshot now,
     mg_poll_ms = None \<rparr>"

section \<open>Runs of the manager\<close>

inductive session_step :: "session_manager \<Rightarrow> session_action list \<Rightarrow> session_manager \<Rightarrow> bool" where
  refresh: "refresh_session now data m = (m', acts) \<Longrightarrow> session_step m acts m'"
| start: "start_manager now data m = (m', acts, launch) \<Longrightarrow> session_step m acts m'"
| stop: "session_step m [] (stop_manager m)"

inductive session_reachable :: "session_manager \<Rightarrow> bool" where
  init: "session_reachable (new_manager now)"
| step: "session_reachable m \<Longrightarrow> session_step m acts m' \<Longrightarrow> session_reachable m'"

inductive_cases session_stepE: "session_step m acts m'"

section \<open>Lemmas\<close>

text \<open>A snapshot never claims to trade while it is closed.\<close>

definition snapshot_ok :: "jsobj \<Rightarrow> bool" where
  "snapshot_ok s \<longleftrightarrow>
     (own s ''isOpen'' \<in> {JBool True, JBool False}) \<and>
     (own s ''isClosed'' = JBool (own s ''isOpen'' \<noteq> JBool True)) \<and>
     (own s ''canPlaceOrders'' = JBool True \<longrightarrow> own s ''isOpen'' = JBool True) \<and>
     (own s ''isTradingHours'' = JBool True \<longrightarrow> own s ''isOpen'' = JBool True)"

lemma own_session_obj:
  "own (session_obj s) ''isOpen'' = JBool (ls_open s)" "own (session_obj s) ''isClosed'' = JBool (ls_closed s)"
  "own (session_obj s) ''state'' = JStr (ls_state s)"
  by (simp_all add: session_obj_def own_Cons)

lemma initial_snapshot_ok: "snapshot_ok (initial_snapshot now)"
proof -
  have d: "distinct (map fst (session_obj s))" for s by (simp add: session_obj_def)
  have k: "fst ` set (session_obj s) = {''state'', ''label'', ''isOpen'', ''isClosed'', ''frozen'', ''ist_date'', ''ist_time''}" for s
    by (auto simp: session_obj_def)
  show ?thesis
    using local_consistent [of "get_ist_parts now"]
    by (simp add: snapshot_ok_def initial_snapshot_def own_spread d k own_session_obj own_Cons
        compute_local_nse_session_def)
qed

lemma set_snapshot_ok: "snapshot_ok (set_market_session_snapshot now session snap)"
  by (simp add: snapshot_ok_def set_market_session_snapshot_def Let_def own_Cons)

lemma refresh_snapshot_ok:
  "snapshot_ok (mg_snapshot m) \<Longrightarrow> snapshot_ok (mg_snapshot (fst (refresh_session now data m)))"
  by (simp add: refresh_session_def Let_def set_snapshot_ok)

lemma session_step_ok: "session_step m acts m' \<Longrightarrow> snapshot_ok (mg_snapshot m) \<Longrightarrow> snapshot_ok (mg_snapshot m')"
proof (erule session_stepE)
  fix now data assume "refresh_session now data m = (m', acts)" "snapshot_ok (mg_snapshot m)"
  then show ?thesis using refresh_snapshot_ok by (metis fst_conv)
next
  fix now data launch assume st: "start_manager now data m = (m', acts, launch)" and ok: "snapshot_ok (mg_snapshot m)"
  have "snapshot_ok (mg_snapshot (fst (refresh_session now data (m\<lparr> mg_started := True \<rparr>))))"
    using ok by (intro refresh_snapshot_ok) simp
  then show ?thesis using st ok
    by (auto simp: start_manager_def Let_def split_beta schedule_poll_def split: if_splits)
qed (simp add: stop_manager_def)

lemma reachable_snapshot_ok: "session_reachable m \<Longrightarrow> snapshot_ok (mg_snapshot m)"
  by (induction rule: session_reachable.induct) (auto simp: new_manager_def initial_snapshot_ok intro: session_step_ok)

text \<open>Listeners hear exactly of the changes of the state the server reports.\<close>

lemma refresh_notifies_iff:
  "truthy data \<Longrightarrow>
     (\<exists>snap. NotifyListeners snap \<in> set (snd (refresh_session now data m))) \<longleftrightarrow>
     mg_last_state m \<noteq> mg_last_state (fst (refresh_session now data m))"
  by (auto simp: refresh_session_def Let_def)

lemma refresh_no_data: "\<not> truthy data \<Longrightarrow> refresh_session now data m = (m, [])"
  by (simp add: refresh_session_def)

text \<open>A replayed feed is open at every instant.\<close>

lemma snapshot_replay_open:
  "replay_feed_active session \<Longrightarrow>
     is_market_session_open (set_market_session_snapshot now session snap)"
  by (simp add: is_market_session_open_def set_market_session_snapshot_def Let_def own_Cons merge_replay)

lemma snapshot_local_open:
  "\<not> replay_feed_active session \<Longrightarrow>
     is_market_session_open (set_market_session_snapshot now session snap) = ls_open (compute_local_nse_session now)"
  by (simp add: is_market_session_open_def set_market_session_snapshot_def Let_def own_Cons merge_local)

lemma purge_keeps:
  assumes "distinct (map fst quotes)"
  shows "purge_non_authoritative_closed_quotes False quotes =
    filter (\<lambda>(key, quote). is_authoritative_closed_quote_source (JStr (lower_text (source_of quote)))) quotes"
proof -
  let ?P = "\<lambda>quote. is_authoritative_closed_quote_source (JStr (lower_text (source_of quote)))"
  have app: "set_field k v nxt = nxt @ [(k, v)]" if "k \<notin> fst ` set nxt" for k v nxt
    using that unfolding set_field_def by (induction nxt) auto
  have "fold (\<lambda>(key, quote) nxt. if ?P quote then set_field key quote nxt else nxt) quotes nxt =
      nxt @ filter (\<lambda>(key, quote). ?P quote) quotes"
    if "distinct (map fst quotes)" "fst ` set nxt \<inter> fst ` set quotes = {}" for nxt
    using that
  proof (induction quotes arbitrary: nxt)
    case (Cons q quotes)
    obtain k v where q: "q = (k, v)" by fastforce
    then have k: "k \<notin> fst ` set nxt" "k \<notin> fst ` set quotes" using Cons.prems by auto
    show ?case
    proof (cases "?P v")
      case True
      have "fst ` set (nxt @ [(k, v)]) \<inter> fst ` set quotes = {}" using Cons.prems k q by auto
      with Cons.IH [of "nxt @ [(k, v)]"] Cons.prems q True app [OF k(1)] show ?thesis by simp
    next
      case False
      with Cons q show ?thesis by simp
    qed
  qed simp
  from this [of "[]"] assms show ?thesis by (simp add: purge_non_authoritative_closed_quotes_def)
qed

end
