(* ===== verification/QuoteAuthority.thy ===== *)
theory QuoteAuthority
  imports SessionState
begin

text \<open>
  The quote authority, \<open>frontend/src/market-v2\<close>: the one place that decides whether a quote
  from the socket, a poll or a batch replaces the one it holds (\<open>UnifiedQuoteAuthority.js\<close>),
  with the priority tier of a symbol (\<open>QuotePriorityEngine.js\<close>), the freshness of a quote
  (\<open>QuoteFreshnessResolver.js\<close>) and the choices of the synchronisation with the stores
  (\<open>QuoteSynchronizationEngine.js\<close>). A \<open>Map\<close> is an association list. \<open>Date.now()\<close> is
  the number \<open>now\<close> and \<open>Date.parse\<close> the parameter \<open>date_parse\<close>, since the formats it
  reads are up to the browser.
\<close>

section \<open>Symbols\<close>

definition ticker_hot_symbols :: "string list" where
  "ticker_hot_symbols =
     [''^NSEI'', ''^BSESN'', ''^NSEBANK'', ''^CNXFIN'', ''^CNXIT'', ''^CNXPHARMA'', ''^CNXAUTO'',
      ''^CNXMETAL'', ''^CNXFMCG'', ''^CNXPSUBANK'', ''RELIANCE.NS'', ''TCS.NS'', ''HDFCBANK.NS'',
      ''INFY.NS'', ''ICICIBANK.NS'', ''HINDUNILVR.NS'', ''SBIN.NS'', ''BHARTIARTL.NS'', ''ITC.NS'',
      ''KOTAKBANK.NS'', ''LT.NS'', ''AXISBANK.NS'', ''WIPRO.NS'', ''HCLTECH.NS'',
      ''TATAMOTORS.NS'', ''SUNPHARMA.NS'', ''MARUTI.NS'', ''TITAN.NS'', ''BAJFINANCE.NS'',
      ''ADANIENT.NS'', ''ASIANPAINT.NS'', ''BAJAJFINSV.NS'', ''NESTLEIND.NS'', ''ULTRACEMCO.NS'',
      ''JSWSTEEL.NS'', ''NTPC.NS'', ''M&M.NS'', ''POWERGRID.NS'', ''ONGC.NS'', ''TECHM.NS'',
      ''TATASTEEL.NS'', ''COALINDIA.NS'', ''HINDALCO.NS'', ''INDUSINDBK.NS'', ''DIVISLAB.NS'',
      ''GRASIM.NS'', ''CIPLA.NS'', ''DRREDDY.NS'', ''APOLLOHOSP.NS'', ''EICHERMOT.NS'',
      ''BRITANNIA.NS'', ''HEROMOTOCO.NS'', ''TATACONSUM.NS'', ''BEL.NS'', ''SBILIFE.NS'',
      ''HDFCLIFE.NS'', ''ADANIPORTS.NS'', ''BAJAJ-AUTO.NS'', ''SHRIRAMFIN.NS'', ''DMART.NS'',
      ''ABB.NS'', ''ACC.NS'', ''AMBUJACEM.NS'', ''BANKBARODA.NS'', ''BERGEPAINT.NS'',
      ''BOSCHLTD.NS'', ''CANBK.NS'', ''CHOLAFIN.NS'', ''COLPAL.NS'', ''CONCOR.NS'', ''DABUR.NS'',
      ''DLF.NS'', ''GAIL.NS'', ''GODREJCP.NS'', ''HAVELLS.NS'', ''ICICIPRULI.NS'',
      ''IDFCFIRSTB.NS'', ''INDHOTEL.NS'', ''INDIGO.NS'', ''IOC.NS'', ''IRCTC.NS'',
      ''JINDALSTEL.NS'', ''JIOFIN.NS'', ''LICI.NS'', ''LUPIN.NS'', ''MAXHEALTH.NS'',
      ''MOTHERSON.NS'', ''MUTHOOTFIN.NS'', ''NAUKRI.NS'', ''NHPC.NS'', ''OBEROIRLTY.NS'',
      ''OFSS.NS'', ''PAYTM.NS'', ''PEL.NS'', ''PERSISTENT.NS'', ''PETRONET.NS'', ''PIDILITIND.NS'',
      ''PNB.NS'', ''POLYCAB.NS'', ''RECLTD.NS'', ''SAIL.NS'', ''SIEMENS.NS'', ''SRF.NS'',
      ''TATAELXSI.NS'', ''TATAPOWER.NS'', ''TRENT.NS'', ''VBL.NS'', ''VEDL.NS'', ''ZOMATO.NS'',
      ''ZYDUSLIFE.NS'']"

text \<open>\<open>symbolAliases\<close> of \<open>utils/liveQuote.js\<close>: the forms a symbol is stored under.\<close>

definition has_exchange_suffix :: "string \<Rightarrow> bool" where
  "has_exchange_suffix s = (ends_with s ''.NS'' \<or> ends_with s ''.BO'')"

definition with_suffix :: "string \<Rightarrow> string" where
  "with_suffix raw = (if starts_with raw ''^'' \<or> has_exchange_suffix raw then raw else raw @ ''.NS'')"

definition without_suffix :: "string \<Rightarrow> string" where
  "without_suffix s = (if has_exchange_suffix s then take (length s - 3) s else s)"

definition symbol_aliases :: "jsval \<Rightarrow> string list" where
  "symbol_aliases symbol =
     (let raw = symbol_text symbol in
      if raw = [] then []
      else unique [raw, with_suffix raw, without_suffix (with_suffix raw)])"

section \<open>Priority tiers\<close>

definition tier_rank :: "string \<Rightarrow> nat option" where
  "tier_rank t = map_of [(''hot'', 0), (''warm'', 1), (''cold'', 2)] t"

type_synonym tiers = "(string \<times> string) list"

definition initial_tiers :: tiers where
  "initial_tiers = fold (\<lambda>sym ts. AList.update (upper sym) ''hot'' ts) ticker_hot_symbols []"

text \<open>\<open>TIER_RANK[a] < TIER_RANK[b]\<close>, false where one is no tier.\<close>

definition tier_better :: "string \<Rightarrow> string \<Rightarrow> bool" where
  "tier_better a b = (case (tier_rank a, tier_rank b) of (Some x, Some y) \<Rightarrow> x < y | _ \<Rightarrow> False)"

definition register_tier :: "jsval \<Rightarrow> string \<Rightarrow> tiers \<Rightarrow> tiers" where
  "register_tier symbol tier ts =
     (let sym = symbol_text symbol in
      if sym = [] then ts
      else case map_of ts sym of
             None \<Rightarrow> AList.update sym tier ts
           | Some prev \<Rightarrow> if prev = [] \<or> tier_better tier prev then AList.update sym tier ts else ts)"

definition get_tier :: "jsval \<Rightarrow> tiers \<Rightarrow> string" where
  "get_tier symbol ts =
     (case map_of ts (symbol_text symbol) of
        Some t \<Rightarrow> if t = [] then ''cold'' else t
      | None \<Rightarrow> ''cold'')"

definition is_hot :: "jsval \<Rightarrow> tiers \<Rightarrow> bool" where
  "is_hot symbol ts = (get_tier symbol ts = ''hot'')"

text \<open>\<open>registerActiveSymbols\<close> of the synchronisation engine.\<close>

definition register_active_symbols :: "jsval \<Rightarrow> jsval list \<Rightarrow> jsval list \<Rightarrow> tiers \<Rightarrow> tiers" where
  "register_active_symbols selected watchlist holdings ts =
     (let ts1 = (if truthy selected then register_tier selected ''hot'' ts else ts);
          ts2 = fold (\<lambda>s. register_tier s ''warm'') watchlist ts1;
          ts3 = fold (\<lambda>s. register_tier s ''warm'') holdings ts2
      in fold (\<lambda>s. register_tier (JStr s) ''hot'') ticker_hot_symbols ts3)"

section \<open>Time stamps and freshness\<close>

definition raw_stamp :: "jsval \<Rightarrow> jsval" where
  "raw_stamp quote = first_field quote [''exchange_timestamp'', ''timestamp'', ''last_trade_time'']"

text \<open>\<open>parseTs\<close> of the authority, in seconds, and of the freshness resolver, in milliseconds.\<close>

definition parse_ts :: "(string \<Rightarrow> jsnum) \<Rightarrow> jsnum \<Rightarrow> jsval \<Rightarrow> jsnum" where
  "parse_ts date_parse now quote =
     (let raw = raw_stamp quote in
      if \<not> truthy raw then now / Fin 1000
      else
        let n = to_number raw in
        if is_finite n \<and> Fin 1000000000 < n then (if Fin 1000000000000 < n then n / Fin 1000 else n)
        else let d = date_parse (to_string raw) in
             if is_finite d then d / Fin 1000 else now / Fin 1000)"

definition parse_ts_ms :: "(string \<Rightarrow> jsnum) \<Rightarrow> jsnum \<Rightarrow> jsval \<Rightarrow> jsnum" where
  "parse_ts_ms date_parse now quote =
     (let raw = raw_stamp quote in
      if \<not> truthy raw then now
      else
        let n = to_number raw in
        if is_finite n \<and> Fin 1000000000 < n then (if Fin 1000000000000 < n then n else n * Fin 1000)
        else let d = date_parse (to_string raw) in if is_finite d then d else now)"

definition freshness_limits :: "jsval \<Rightarrow> int \<times> int" where
  "freshness_limits tier =
     (if tier = JStr ''warm'' then (4, 20) else if tier = JStr ''cold'' then (15, 45) else (2, 8))"

definition resolve_freshness :: "bool \<Rightarrow> (string \<Rightarrow> jsnum) \<Rightarrow> jsnum \<Rightarrow> tiers \<Rightarrow> jsval \<Rightarrow> jsval \<Rightarrow> jsval" where
  "resolve_freshness realtime date_parse now ts symbol quote =
     (let source = lower_text (js_or (field quote ''source'') (field quote ''_source'')) in
      if source = ''eod'' \<or> field quote ''freshness_state'' = JStr ''EOD'' then JStr ''EOD''
      else if \<not> realtime then JStr ''FROZEN''
      else if truthy (field quote ''freshness_state'') then field quote ''freshness_state''
      else
        let age = (now - parse_ts_ms date_parse now quote) / Fin 1000;
            tier = js_or (field quote ''priority_tier'') (JStr (get_tier symbol ts));
            (live_limit, delay_limit) = freshness_limits tier
        in if age \<le> Fin (of_int live_limit) then JStr ''LIVE''
           else if age \<le> Fin (of_int delay_limit) then JStr ''DELAYED''
           else JStr ''STALE'')"

definition is_visually_stale :: "bool \<Rightarrow> (string \<Rightarrow> jsnum) \<Rightarrow> jsnum \<Rightarrow> tiers \<Rightarrow> jsval \<Rightarrow> jsval \<Rightarrow> bool" where
  "is_visually_stale realtime date_parse now ts symbol quote =
     (let st = resolve_freshness realtime date_parse now ts symbol quote in
      st = JStr ''STALE'' \<or> st = JStr ''FROZEN'')"

section \<open>The authority\<close>

definition source_rank_open :: "(string \<times> int) list" where
  "source_rank_open = [(''live_ws'', 5), (''live'', 5), (''market_data_worker'', 4), (''poll'', 3),
     (''worker'', 3), (''rest'', 2), (''eod'', 6)]"

definition source_rank_closed :: "(string \<times> int) list" where
  "source_rank_closed = [(''official_eod_close'', 11), (''history_snapshot'', 10), (''historical'', 10),
     (''eod'', 9), (''frozen'', 8), (''snapshot'', 8), (''live_ws'', 0), (''live'', 0), (''poll'', 2)]"

definition source_rank :: "jsval \<Rightarrow> bool \<Rightarrow> int" where
  "source_rank source market_open =
     (case map_of (if market_open then source_rank_open else source_rank_closed) (lower_text source) of
        Some r \<Rightarrow> r | None \<Rightarrow> 2)"

definition normalize_price :: "jsobj \<Rightarrow> jsobj" where
  "normalize_price quote =
     (let price = first_field (JObj quote) [''price'', ''ltp'', ''lp'', ''last_price''] in
      if is_nullish price then quote
      else let n = to_number price in if is_finite n then set_field ''price'' (JNum n) quote else quote)"

definition should_accept :: "(string \<Rightarrow> jsnum) \<Rightarrow> jsnum \<Rightarrow> jsobj option \<Rightarrow> jsobj \<Rightarrow> jsval \<Rightarrow> bool \<Rightarrow> bool" where
  "should_accept date_parse now existing incoming source market_open =
     (case existing of
        None \<Rightarrow> True
      | Some ex \<Rightarrow>
          let inc_ts = parse_ts date_parse now (JObj incoming); ex_ts = parse_ts date_parse now (JObj ex) in
          if ex_ts + lit (1 / 1000) < inc_ts then True
          else if inc_ts < ex_ts - lit (1 / 1000) then False
          else
            let inc_seq = to_number (js_or (own incoming ''sequence'') (JNum (Fin 0)));
                ex_seq = to_number (js_or (own ex ''sequence'') (JNum (Fin 0))) in
            if ex_seq < inc_seq then True
            else if inc_seq < ex_seq then False
            else
              let inc_rank = source_rank source market_open;
                  ex_rank = source_rank (js_or (own ex ''source'') (own ex ''_source'')) market_open in
              if ex_rank < inc_rank then True
              else if inc_rank < ex_rank then False
              else
                let inc_price = nullish (own incoming ''price'') (own incoming ''ltp'');
                    ex_price = nullish (own ex ''price'') (own ex ''ltp'')
                in \<not> is_nullish inc_price \<and> strict_neq inc_price ex_price \<and> ex_rank \<le> inc_rank)"

record authority =
  au_quotes :: "(string \<times> jsobj) list"
  au_sequences :: "(string \<times> nat) list"
  au_heartbeat :: jsnum

text \<open>What surrounds a call: the clock, the parser of dates, the session and the tiers.\<close>

record authority_env =
  env_now :: jsnum
  env_date_parse :: "string \<Rightarrow> jsnum"
  env_realtime :: bool
  env_tiers :: tiers

definition new_authority :: "jsnum \<Rightarrow> authority" where
  "new_authority now = \<lparr> au_quotes = [], au_sequences = [], au_heartbeat = now \<rparr>"

definition ingest_symbol :: "jsval \<Rightarrow> jsobj \<Rightarrow> string" where
  "ingest_symbol symbol raw = symbol_text (js_or symbol (own raw ''symbol''))"

definition next_sequence :: "string \<Rightarrow> authority \<Rightarrow> nat" where
  "next_sequence key au = (case map_of (au_sequences au) key of Some n \<Rightarrow> n | None \<Rightarrow> 0) + 1"

definition incoming_quote :: "authority_env \<Rightarrow> string \<Rightarrow> jsobj \<Rightarrow> jsval \<Rightarrow> nat \<Rightarrow> jsobj" where
  "incoming_quote env key raw source seq = normalize_price
     (spread raw [(''symbol'', JStr key), (''source'', source), (''_source'', source),
        (''sequence'', nullish (own raw ''sequence'') (JNum (num_of_nat seq))),
        (''priority_tier'', js_or (own raw ''priority_tier'') (JStr (get_tier (JStr key) (env_tiers env))))])"

definition enriched_quote :: "authority_env \<Rightarrow> string \<Rightarrow> jsobj \<Rightarrow> jsobj \<Rightarrow> jsobj" where
  "enriched_quote env key raw incoming = spread incoming
     [(''freshness_state'', js_or (own raw ''freshness_state'')
         (resolve_freshness (env_realtime env) (env_date_parse env) (env_now env) (env_tiers env)
            (JStr key) (JObj incoming))),
      (''_authorityAt'', JNum (env_now env))]"

text \<open>\<open>ingest\<close>: the new state and the quote that listeners get, \<open>None\<close> where it returns \<open>null\<close>.\<close>

definition ingest :: "authority_env \<Rightarrow> jsval \<Rightarrow> jsobj \<Rightarrow> jsval \<Rightarrow> authority \<Rightarrow> authority \<times> jsobj option" where
  "ingest env symbol raw source au =
     (let key = ingest_symbol symbol raw in
      if key = [] then (au, None)
      else
        let existing = map_of (au_quotes au) key;
            seq = next_sequence key au;
            incoming = incoming_quote env key raw source seq
        in if \<not> should_accept (env_date_parse env) (env_now env) existing incoming source (env_realtime env)
           then (au, None)
           else
             let enriched = enriched_quote env key raw incoming in
             (\<lparr> au_quotes = AList.update key enriched (au_quotes au),
                au_sequences = AList.update key seq (au_sequences au),
                au_heartbeat = env_now env \<rparr>, Some enriched))"

definition get_quote :: "jsval \<Rightarrow> authority \<Rightarrow> jsobj option" where
  "get_quote symbol au = map_of (au_quotes au) (symbol_text symbol)"

definition hydrate_batch :: "authority_env \<Rightarrow> (string \<times> jsobj) list \<Rightarrow> jsval \<Rightarrow> authority \<Rightarrow> authority \<times> nat" where
  "hydrate_batch env quotes source au =
     foldl (\<lambda>(au, count) (key, q).
       case ingest env (JStr key) q source au of
         (au', Some _) \<Rightarrow> (au', count + 1)
       | (au', None) \<Rightarrow> (au', count)) (au, 0) quotes"

subsection \<open>The synchronisation engine\<close>

text \<open>\<open>buildWatchlistPatch\<close>, and the source under which a reconnect batch is ingested.\<close>

definition build_watchlist_patch :: "jsval \<Rightarrow> jsobj \<Rightarrow> jsobj" where
  "build_watchlist_patch symbol quote =
     foldl (\<lambda>patch k. set_field k (JObj quote) patch) [] (symbol_aliases symbol)"

definition reconnect_symbols :: "jsval list \<Rightarrow> string list" where
  "reconnect_symbols symbols =
     unique (filter (\<lambda>s. s \<noteq> [])
       (map (\<lambda>s. trim (to_string (js_or s (JStr [])))) (symbols @ map JStr ticker_hot_symbols)))"

definition reconnect_source :: "bool \<Rightarrow> jsval \<Rightarrow> jsval \<Rightarrow> string" where
  "reconnect_source market_open envelope q =
     (let closed_official = (\<not> market_open \<and> field envelope ''official'' = JBool True
            \<and> field envelope ''frozen'' = JBool True);
          src = lower_text (js_or (field q ''source'') (field q ''_source''))
      in if market_open then ''poll''
         else if src = ''history_snapshot'' \<or> src = ''official_eod_close'' then src
         else if closed_official then ''history_snapshot'' else ''eod'')"

end
