(* ===== verification/QuoteAuthorityFacts.thy ===== *)
theory QuoteAuthorityFacts
  imports QuoteAuthority
begin

text \<open>
  What the quote authority promises: a symbol keeps its best tier, every stored quote is
  filed under its own normalised symbol, an older quote is refused, a repeated quote is
  refused, and one symbol's quotes never touch another's.
\<close>

section \<open>Aliases\<close>

lemma suffix_app: "ends_with (s @ t) t"
  by (simp add: ends_with_def)

lemma with_suffix_cases: "with_suffix s = s \<or> with_suffix s = s @ ''.NS''"
  by (simp add: with_suffix_def)

lemma without_with: "\<not> starts_with s ''^'' \<Longrightarrow> \<not> has_exchange_suffix s \<Longrightarrow> without_suffix (with_suffix s) = s"
  by (simp add: with_suffix_def without_suffix_def has_exchange_suffix_def suffix_app)

lemma symbol_text_nonempty [simp]: "symbol_text (JStr (symbol_text s)) = symbol_text s"
  by (rule symbol_text_idem)

lemma symbol_in_aliases: "symbol_text s \<noteq> [] \<Longrightarrow> symbol_text s \<in> set (symbol_aliases s)"
  by (simp add: symbol_aliases_def Let_def)

lemma aliases_distinct: "distinct (symbol_aliases s)"
  by (simp add: symbol_aliases_def Let_def)

text \<open>The plain and the suffixed form of a share have the same aliases.\<close>

lemma aliases_suffixed:
  assumes "symbol_text s \<noteq> []" "\<not> starts_with (symbol_text s) ''^''" "\<not> has_exchange_suffix (symbol_text s)"
    and "symbol_text t = symbol_text s @ ''.NS''"
  shows "set (symbol_aliases t) = set (symbol_aliases s)"
proof -
  define r where "r = symbol_text s"
  have suf: "has_exchange_suffix (r @ ''.NS'')" by (simp add: has_exchange_suffix_def suffix_app)
  then have w: "with_suffix (r @ ''.NS'') = r @ ''.NS''" "without_suffix (r @ ''.NS'') = r"
    by (simp_all add: with_suffix_def without_suffix_def)
  have "with_suffix r = r @ ''.NS''" using assms by (simp add: with_suffix_def r_def)
  then show ?thesis using assms w by (auto simp: symbol_aliases_def Let_def r_def)
qed

section \<open>Tiers\<close>

definition valid_tiers :: "tiers \<Rightarrow> bool" where
  "valid_tiers ts \<longleftrightarrow> (\<forall>(k, t) \<in> set ts. tier_rank t \<noteq> None)"

lemma tier_rank_Some [simp]: "tier_rank ''hot'' = Some 0" "tier_rank ''warm'' = Some 1" "tier_rank ''cold'' = Some 2"
  by (simp_all add: tier_rank_def)

lemma tier_rank_Nil [simp]: "tier_rank [] = None"
  by (simp add: tier_rank_def)

lemma tier_rank_0: "tier_rank t = Some 0 \<longleftrightarrow> t = ''hot''"
  by (auto simp: tier_rank_def split: if_splits)

lemma tier_rank_le: "tier_rank t = Some r \<Longrightarrow> r \<le> 2"
  by (auto simp: tier_rank_def split: if_splits)

lemma valid_tiers_update: "valid_tiers ts \<Longrightarrow> tier_rank t \<noteq> None \<Longrightarrow> valid_tiers (AList.update k t ts)"
  unfolding valid_tiers_def by (induction ts) auto

lemma valid_register: "valid_tiers ts \<Longrightarrow> tier_rank t \<noteq> None \<Longrightarrow> valid_tiers (register_tier s t ts)"
  by (auto simp: register_tier_def Let_def intro: valid_tiers_update split: option.split)

lemma valid_lookup: "valid_tiers ts \<Longrightarrow> map_of ts k = Some t \<Longrightarrow> tier_rank t \<noteq> None \<and> t \<noteq> []"
  by (force simp: valid_tiers_def dest: map_of_SomeD)

definition rank_of :: "jsval \<Rightarrow> tiers \<Rightarrow> nat" where
  "rank_of s ts = the (tier_rank (get_tier s ts))"

lemma get_tier_valid: "valid_tiers ts \<Longrightarrow> tier_rank (get_tier s ts) = Some (rank_of s ts)"
  using valid_lookup [of ts "symbol_text s"]
  by (auto simp: rank_of_def get_tier_def split: option.split)

lemma register_rank:
  assumes "valid_tiers ts" "tier_rank t = Some r"
  shows "rank_of s' (register_tier s t ts) =
    (if symbol_text s' = symbol_text s \<and> symbol_text s \<noteq> [] then min r (rank_of s' ts) else rank_of s' ts)"
proof (cases "symbol_text s' = symbol_text s \<and> symbol_text s \<noteq> []")
  case True
  have t: "t \<noteq> []" using assms(2) by auto
  show ?thesis
  proof (cases "map_of ts (symbol_text s)")
    case None
    then show ?thesis using True assms(2) t tier_rank_le [OF assms(2)]
      by (simp add: register_tier_def Let_def rank_of_def get_tier_def update_conv')
  next
    case (Some p)
    then obtain q where q: "tier_rank p = Some q" "p \<noteq> []" using valid_lookup [OF assms(1) Some] by auto
    then show ?thesis using True Some assms(2) t
      by (auto simp: register_tier_def Let_def rank_of_def get_tier_def update_conv' tier_better_def)
  qed
next
  case False
  then show ?thesis
    by (auto simp: register_tier_def Let_def rank_of_def get_tier_def update_conv' split: option.split)
qed

lemma register_never_lowers:
  "valid_tiers ts \<Longrightarrow> tier_rank t \<noteq> None \<Longrightarrow> rank_of s' (register_tier s t ts) \<le> rank_of s' ts"
  by (auto simp: register_rank)

lemma fold_register:
  assumes "valid_tiers ts" "tier_rank t = Some r"
  shows "valid_tiers (fold (\<lambda>s. register_tier (f s) t) xs ts) \<and>
    rank_of s' (fold (\<lambda>s. register_tier (f s) t) xs ts) \<le> rank_of s' ts \<and>
    (\<forall>x \<in> set xs. symbol_text (f x) \<noteq> [] \<and> symbol_text s' = symbol_text (f x) \<longrightarrow>
       rank_of s' (fold (\<lambda>s. register_tier (f s) t) xs ts) \<le> r)"
  using assms(1)
proof (induction xs arbitrary: ts)
  case (Cons x xs)
  have v: "valid_tiers (register_tier (f x) t ts)" using Cons.prems assms(2) by (simp add: valid_register)
  have "rank_of s' (register_tier (f x) t ts) \<le> rank_of s' ts"
    using Cons.prems assms(2) by (simp add: register_never_lowers)
  moreover have "rank_of s' (register_tier (f x) t ts) \<le> r"
    if "symbol_text (f x) \<noteq> []" "symbol_text s' = symbol_text (f x)"
    using that Cons.prems assms(2) by (simp add: register_rank)
  ultimately show ?case using Cons.IH [OF v] by (auto intro: order_trans)
qed simp

lemma valid_initial: "valid_tiers initial_tiers"
proof -
  have "valid_tiers (fold (\<lambda>s ts. AList.update (upper s) ''hot'' ts) xs ts)" if "valid_tiers ts" for xs ts
    using that
  proof (induction xs arbitrary: ts)
    case (Cons x xs)
    have "valid_tiers (AList.update (upper x) ''hot'' ts)" using Cons.prems by (rule valid_tiers_update) simp
    then show ?case by (simp add: Cons.IH)
  qed simp
  from this [of "[]" ticker_hot_symbols] show ?thesis by (simp add: initial_tiers_def valid_tiers_def)
qed

lemma hot_rank: "valid_tiers ts \<Longrightarrow> is_hot s ts \<longleftrightarrow> rank_of s ts = 0"
  using get_tier_valid [of ts s] by (auto simp: is_hot_def tier_rank_0 rank_of_def)

text \<open>After a registration the header ticker is hot, whatever was registered before.\<close>

lemma active_ticker_hot:
  assumes "valid_tiers ts" "sym' \<in> set ticker_hot_symbols" "symbol_text (JStr sym') \<noteq> []"
  shows "is_hot (JStr sym') (register_active_symbols selected watchlist holdings ts)"
proof -
  define ts1 where "ts1 = (if truthy selected then register_tier selected ''hot'' ts else ts)"
  define ts2 where "ts2 = fold (\<lambda>s. register_tier s ''warm'') watchlist ts1"
  define ts3 where "ts3 = fold (\<lambda>s. register_tier s ''warm'') holdings ts2"
  have "valid_tiers ts1" using assms(1) by (simp add: ts1_def valid_register)
  then have "valid_tiers ts2" using fold_register [of ts1 "''warm''" 1 "\<lambda>s. s"] by (simp add: ts2_def)
  then have "valid_tiers ts3" using fold_register [of ts2 "''warm''" 1 "\<lambda>s. s"] by (simp add: ts3_def)
  from fold_register [OF this, of "''hot''" 0 JStr ticker_hot_symbols "JStr sym'"] assms(2,3)
  have "valid_tiers (fold (\<lambda>s. register_tier (JStr s) ''hot'') ticker_hot_symbols ts3)"
    "rank_of (JStr sym') (fold (\<lambda>s. register_tier (JStr s) ''hot'') ticker_hot_symbols ts3) = 0"
    by auto
  then show ?thesis
    by (simp add: register_active_symbols_def Let_def hot_rank ts1_def ts2_def ts3_def)
qed

section \<open>The authority\<close>

lemma own_normalize: "k \<noteq> ''price'' \<Longrightarrow> own (normalize_price q) k = own q k"
  by (simp add: normalize_price_def Let_def)

lemma own_incoming:
  "k \<notin> {''price'', ''symbol'', ''source'', ''_source'', ''sequence'', ''priority_tier''} \<Longrightarrow>
     own (incoming_quote env key raw source seq) k = own raw k"
  "own (incoming_quote env key raw source seq) ''symbol'' = JStr key"
  "own (incoming_quote env key raw source seq) ''source'' = source"
  "own (incoming_quote env key raw source seq) ''_source'' = source"
  "own (incoming_quote env key raw source seq) ''sequence'' = nullish (own raw ''sequence'') (JNum (num_of_nat seq))"
  by (simp_all add: incoming_quote_def own_normalize own_spread) (simp_all add: own_Cons)

lemma own_enriched:
  "k \<notin> {''freshness_state'', ''_authorityAt''} \<Longrightarrow> own (enriched_quote env key raw inc) k = own inc k"
  by (simp add: enriched_quote_def own_spread)

lemma raw_stamp_own: "(\<And>k. k \<in> {''exchange_timestamp'', ''timestamp'', ''last_trade_time''} \<Longrightarrow> own p k = own q k) \<Longrightarrow>
    parse_ts dp now (JObj p) = parse_ts dp now (JObj q)"
  by (simp add: parse_ts_def raw_stamp_def)

lemma parse_ts_incoming: "parse_ts dp now (JObj (incoming_quote env key raw source seq)) = parse_ts dp now (JObj raw)"
  by (rule raw_stamp_own) (auto simp: own_incoming)

lemma parse_ts_enriched: "parse_ts dp now (JObj (enriched_quote env key raw inc)) = parse_ts dp now (JObj inc)"
  by (rule raw_stamp_own) (auto simp: own_enriched)

lemma ingest_cases:
  obtains (no_symbol) "ingest_symbol symbol raw = []" "ingest env symbol raw source au = (au, None)"
  | (refused) "ingest_symbol symbol raw \<noteq> []" "ingest env symbol raw source au = (au, None)"
      "\<not> should_accept (env_date_parse env) (env_now env) (map_of (au_quotes au) (ingest_symbol symbol raw))
         (incoming_quote env (ingest_symbol symbol raw) raw source (next_sequence (ingest_symbol symbol raw) au))
         source (env_realtime env)"
  | (accepted) au' q where "ingest_symbol symbol raw \<noteq> []" "ingest env symbol raw source au = (au', Some q)"
      "q = enriched_quote env (ingest_symbol symbol raw) raw
         (incoming_quote env (ingest_symbol symbol raw) raw source (next_sequence (ingest_symbol symbol raw) au))"
      "au_quotes au' = AList.update (ingest_symbol symbol raw) q (au_quotes au)"
      "should_accept (env_date_parse env) (env_now env) (map_of (au_quotes au) (ingest_symbol symbol raw))
         (incoming_quote env (ingest_symbol symbol raw) raw source (next_sequence (ingest_symbol symbol raw) au))
         source (env_realtime env)"
proof (cases "ingest_symbol symbol raw = []")
  case True
  then show thesis by (intro no_symbol) (simp_all add: ingest_def)
next
  case False
  show thesis
  proof (cases "should_accept (env_date_parse env) (env_now env) (map_of (au_quotes au) (ingest_symbol symbol raw))
         (incoming_quote env (ingest_symbol symbol raw) raw source (next_sequence (ingest_symbol symbol raw) au))
         source (env_realtime env)")
    case True
    show thesis
      by (rule accepted [OF False _ refl _ True, where au' = "fst (ingest env symbol raw source au)"])
        (simp_all add: ingest_def Let_def False True)
  next
    case no: False
    with False show thesis by (intro refused) (simp_all add: ingest_def Let_def)
  qed
qed

text \<open>A refused quote changes nothing; an accepted one is what the symbol reads next.\<close>

lemma ingest_none: "snd (ingest env symbol raw source au) = None \<Longrightarrow> fst (ingest env symbol raw source au) = au"
  by (rule ingest_cases [of symbol raw env source au]) auto

lemma ingest_some:
  assumes "ingest env symbol raw source au = (au', Some q)"
  shows "map_of (au_quotes au') k = (if k = ingest_symbol symbol raw then Some q else map_of (au_quotes au) k)"
  using assms by (cases rule: ingest_cases [of symbol raw env source au]) (auto simp: update_conv')

lemma millisecond: obtains d where "lit (1 / 1000) = Fin d" "0 < d"
proof -
  have "is_double (1 / 1024)" by (simp add: is_double_def js_eval)
  then have "Fin (1 / 1024) \<le> lit (1 / 1000)" by (rule rnd_ge_double) simp
  moreover have "lit (1 / 1000) \<le> Fin 1" by (rule rnd_le_double) simp_all
  ultimately show thesis using that by (cases "lit (1 / 1000)") auto
qed

text \<open>A quote more than a millisecond older than the stored one is refused.\<close>

lemma ingest_refuses_older:
  assumes "map_of (au_quotes au) (ingest_symbol symbol raw) = Some ex"
    and "parse_ts (env_date_parse env) (env_now env) (JObj raw) <
         parse_ts (env_date_parse env) (env_now env) (JObj ex) - lit (1 / 1000)"
  shows "ingest env symbol raw source au = (au, None)"
proof (cases rule: ingest_cases [of symbol raw env source au])
  case (accepted au' q)
  define a where "a = parse_ts (env_date_parse env) (env_now env) (JObj raw)"
  define b where "b = parse_ts (env_date_parse env) (env_now env) (JObj ex)"
  obtain d where d: "lit (1 / 1000) = Fin d" "0 < d" by (rule millisecond)
  have lt: "a < b - Fin d" using assms(2) d by (simp add: a_def b_def)
  have nlt: "\<not> b + Fin d < a"
  proof (cases b)
    case (Fin r)
    have "rnd (r - d) \<le> rnd (r + d)" using d(2) by (intro rnd_mono) simp
    then have "b - Fin d \<le> b + Fin d" by (simp add: Fin)
    show ?thesis
    proof
      assume "b + Fin d < a"
      from this lt have "b + Fin d < b - Fin d" by (rule less_jsnum_trans)
      with \<open>b - Fin d \<le> b + Fin d\<close> have "b - Fin d < b - Fin d" by (rule le_less_jsnum_trans)
      then show False by (simp add: less_jsnum_irrefl)
    qed
  qed (use lt in \<open>auto simp: minus_jsnum_def\<close>)
  have "\<not> should_accept (env_date_parse env) (env_now env) (Some ex)
      (incoming_quote env (ingest_symbol symbol raw) raw source (next_sequence (ingest_symbol symbol raw) au))
      source (env_realtime env)"
    unfolding should_accept_def Let_def option.case parse_ts_incoming a_def [symmetric] b_def [symmetric] d(1)
    by (simp only: if_True if_False lt nlt not_False_eq_True)
  with accepted(5) assms(1) show ?thesis by simp
qed auto

text \<open>The payload just accepted, sent again with its own sequence number, is refused.\<close>

lemma ingest_refuses_repeat:
  assumes first: "ingest env symbol raw source au = (au', Some q)"
    and stamp: "parse_ts (env_date_parse env) (env_now env) (JObj raw) = Fin t" "is_double t"
      "parse_ts (env_date_parse env') (env_now env') (JObj raw) = Fin t"
    and seq: "own raw ''sequence'' = JNum s" and price: "own raw ''price'' = JNum (Fin p)"
  shows "ingest env' symbol raw source au' = (au', None)"
proof -
  define sym' where "sym' = ingest_symbol symbol raw"
  have q: "map_of (au_quotes au') sym' = Some q" using ingest_some [OF first] by (simp add: sym'_def)
  obtain r where r: "q = enriched_quote env sym' raw (incoming_quote env sym' raw source r)"
    using first by (cases rule: ingest_cases [of symbol raw env source au]) (auto simp: sym'_def)
  have price_of: "own (incoming_quote e k raw source n) ''price'' = JNum (Fin p)" for e k n
    by (simp add: incoming_quote_def normalize_price_def Let_def own_spread own_set_field price
        own_Cons is_finite_def)
  obtain d where d: "lit (1 / 1000) = Fin d" "0 < d" by (rule millisecond)
  have le: "Fin t \<le> Fin t + lit (1 / 1000)" "Fin t - lit (1 / 1000) \<le> Fin t"
    using stamp(2) d(2) by (simp_all add: d(1) minus_jsnum_def rnd_ge_double rnd_le_double)
  have le': "\<not> Fin t + lit (1 / 1000) < Fin t" "\<not> Fin t < Fin t - lit (1 / 1000)"
    using le le_less_jsnum_trans less_jsnum_irrefl by blast+
  have "\<not> should_accept (env_date_parse env') (env_now env') (Some q)
      (incoming_quote env' sym' raw source n) source (env_realtime env')" for n
    using le' by (simp add: should_accept_def Let_def parse_ts_incoming parse_ts_enriched stamp js_or_def
        own_enriched own_incoming seq price_of r is_nullish_def)
  with q show ?thesis
    by (cases rule: ingest_cases [of symbol raw env' source au']) (auto simp: sym'_def)
qed

section \<open>Runs\<close>

inductive authority_run :: "authority \<Rightarrow> bool" where
  start: "authority_run (new_authority now)"
| ingest: "authority_run au \<Longrightarrow> authority_run (fst (ingest env symbol raw source au))"

text \<open>Every quote is filed under its own symbol, in its normal form.\<close>

definition filed_ok :: "authority \<Rightarrow> bool" where
  "filed_ok au \<longleftrightarrow> (\<forall>k q. map_of (au_quotes au) k = Some q \<longrightarrow>
     k \<noteq> [] \<and> symbol_text (JStr k) = k \<and> own q ''symbol'' = JStr k)"

lemma ingest_symbol_normal: "symbol_text (JStr (ingest_symbol symbol raw)) = ingest_symbol symbol raw"
  by (simp add: ingest_symbol_def)

lemma filed_ingest: "filed_ok au \<Longrightarrow> filed_ok (fst (ingest env symbol raw source au))"
proof (cases rule: ingest_cases [of symbol raw env source au])
  case (accepted au' q)
  assume "filed_ok au"
  moreover have "own q ''symbol'' = JStr (ingest_symbol symbol raw)"
    using accepted(3) by (simp add: own_enriched own_incoming)
  ultimately show ?thesis using accepted ingest_some [OF accepted(2)]
    by (auto simp: filed_ok_def ingest_symbol_normal)
qed auto

lemma run_filed: "authority_run au \<Longrightarrow> filed_ok au"
  by (induction rule: authority_run.induct) (simp add: filed_ok_def new_authority_def, rule filed_ingest)

section \<open>Batches\<close>

lemma ingest_known:
  assumes "ingest_symbol symbol raw \<noteq> []"
  shows "map_of (au_quotes (fst (ingest env symbol raw source au))) (ingest_symbol symbol raw) \<noteq> None"
proof (cases rule: ingest_cases [of symbol raw env source au])
  case refused
  then show ?thesis by (auto simp: should_accept_def split: option.splits)
next
  case (accepted au' q)
  then show ?thesis using ingest_some [OF accepted(2)] by simp
qed (use assms in simp)

lemma ingest_keeps_known:
  "map_of (au_quotes au) k \<noteq> None \<Longrightarrow> map_of (au_quotes (fst (ingest env symbol raw source au))) k \<noteq> None"
  by (cases rule: ingest_cases [of symbol raw env source au]) (auto simp: update_conv')

definition hydrate_step :: "authority_env \<Rightarrow> jsval \<Rightarrow> authority \<times> nat \<Rightarrow> string \<times> jsobj \<Rightarrow> authority \<times> nat" where
  "hydrate_step env source s q =
     (fst (ingest env (JStr (fst q)) (snd q) source (fst s)),
      if snd (ingest env (JStr (fst q)) (snd q) source (fst s)) = None then snd s else snd s + 1)"

lemma hydrate_batch_steps: "hydrate_batch env quotes source au = foldl (hydrate_step env source) (au, 0) quotes"
  unfolding hydrate_batch_def
  by (intro foldl_cong) (auto simp: hydrate_step_def split: prod.splits option.splits)

lemma hydrate_known:
  assumes "(key, q) \<in> set quotes" "ingest_symbol (JStr key) q \<noteq> []"
  shows "map_of (au_quotes (fst (hydrate_batch env quotes source au))) (ingest_symbol (JStr key) q) \<noteq> None"
proof -
  have keep: "map_of (au_quotes (fst (foldl (hydrate_step env source) s qs))) k \<noteq> None"
    if "map_of (au_quotes (fst s)) k \<noteq> None" for s qs k
    using that
  proof (induction qs arbitrary: s)
    case (Cons q qs)
    have "map_of (au_quotes (fst (hydrate_step env source s q))) k \<noteq> None"
      using ingest_keeps_known [OF Cons.prems] by (simp only: hydrate_step_def fst_conv not_False_eq_True)
    from Cons.IH [OF this] show ?case by simp
  qed simp
  obtain xs ys where "quotes = xs @ (key, q) # ys" using assms(1) by (meson split_list)
  then show ?thesis using keep ingest_known [OF assms(2)]
    by (simp add: hydrate_batch_steps hydrate_step_def)
qed

lemma hydrate_count: "snd (hydrate_batch env quotes source au) \<le> length quotes"
proof -
  have "snd (foldl (hydrate_step env source) s qs) \<le> snd s + length qs" for s qs
  proof (induction qs arbitrary: s)
    case (Cons q qs)
    have "snd (hydrate_step env source s q) \<le> snd s + 1" by (simp add: hydrate_step_def)
    with Cons.IH [of "hydrate_step env source s q"] show ?case by simp
  qed simp
  from this [of "(au, 0)" quotes] show ?thesis by (simp add: hydrate_batch_steps)
qed

end
