(* ===== verification/SessionClose.thy ===== *)
theory SessionClose
  imports QuoteAuthority
begin

text \<open>
  The closes of the last session, \<open>frontend/src/market/SessionClosePriceAuthority.js\<close>: one row
  per alias of a symbol, kept for the day in the session storage. The module's \<open>_cache\<close> and
  the stored text are the state; the storage holds the value that is serialised, which is built
  of texts, finite numbers and \<open>null\<close> only, so that \<open>JSON.parse\<close> gives it back. An operation
  returns the new state and whether the listeners are called.
\<close>

section \<open>State\<close>

record close_state =
  cs_cache :: jsobj
  cs_stored :: "(string \<times> jsobj) option"

record close_env =
  ce_realtime :: bool
  ce_now :: int
  ce_can_store :: bool

definition empty_close :: close_state where
  "empty_close = \<lparr> cs_cache = [], cs_stored = None \<rparr>"

definition closed_batch_sources :: "string list" where
  "closed_batch_sources = [''history_snapshot'', ''historical'', ''frozen'', ''official_eod_close'', ''eod'',
     ''snapshot'', ''last_price'']"

definition trade_date_key :: "int \<Rightarrow> string" where
  "trade_date_key now = ist_date (get_ist_parts now)"

definition pick_price :: "jsval \<Rightarrow> jsnum option" where
  "pick_price quote = to_finite_number (first_field quote [''price'', ''ltp'', ''lp'', ''last_price'', ''lastPrice''])"

section \<open>Storage\<close>

definition persist_session_close :: "close_env \<Rightarrow> close_state \<Rightarrow> close_state" where
  "persist_session_close env st =
     (if ce_realtime env \<or> \<not> ce_can_store env then st
      else st\<lparr> cs_stored := Some (trade_date_key (ce_now env), cs_cache st) \<rparr>)"

definition restore_row :: "jsobj \<times> bool \<Rightarrow> string \<times> jsval \<Rightarrow> jsobj \<times> bool" where
  "restore_row s kv =
     (if \<not> truthy (snd kv) \<or> pick_price (snd kv) = None then s
      else (set_field (fst kv) (snd kv) (fst s), snd s \<or> \<not> truthy (own (fst s) (fst kv))))"

definition restore_session_close :: "close_env \<Rightarrow> close_state \<Rightarrow> close_state \<times> bool" where
  "restore_session_close env st =
     (if ce_realtime env then (st, False)
      else case cs_stored st of
             None \<Rightarrow> (st, False)
           | Some (date, quotes) \<Rightarrow>
               if date \<noteq> trade_date_key (ce_now env) then (st, False)
               else let s = foldl restore_row (cs_cache st, False) quotes
                    in (st\<lparr> cs_cache := fst s \<rparr>, snd s))"

section \<open>Reading and writing\<close>

definition usable_row :: "jsobj \<Rightarrow> string \<Rightarrow> bool" where
  "usable_row cache key = (truthy (own cache key) \<and> pick_price (own cache key) \<noteq> None)"

definition get_session_close_price :: "bool \<Rightarrow> jsobj \<Rightarrow> jsval \<Rightarrow> jsval" where
  "get_session_close_price realtime cache symbol =
     (if \<not> truthy symbol \<or> realtime then JNull
      else case find (usable_row cache) (symbol_aliases symbol) of
             Some key \<Rightarrow> own cache key
           | None \<Rightarrow> JNull)"

definition has_session_close_price :: "bool \<Rightarrow> jsobj \<Rightarrow> jsval \<Rightarrow> bool" where
  "has_session_close_price realtime cache symbol = (get_session_close_price realtime cache symbol \<noteq> JNull)"

definition positive :: "jsnum option \<Rightarrow> bool" where
  "positive x = (case x of Some p \<Rightarrow> Fin 0 < p | None \<Rightarrow> False)"

text \<open>The change of a price against a previous close, where the row does not say it.\<close>

definition derive_change :: "jsnum \<Rightarrow> jsnum option \<Rightarrow> jsnum option \<Rightarrow> jsnum option" where
  "derive_change price prev_close change =
     (if change = None \<and> positive prev_close then Some (fixed_num 2 (price - the prev_close)) else change)"

definition derive_change_percent :: "jsnum option \<Rightarrow> jsnum option \<Rightarrow> jsnum option \<Rightarrow> jsnum option" where
  "derive_change_percent change prev_close percent =
     (if percent = None \<and> change \<noteq> None \<and> positive prev_close
      then Some (fixed_num 2 (the change / the prev_close * Fin 100)) else percent)"

definition close_entry :: "close_env \<Rightarrow> jsobj \<Rightarrow> jsnum \<Rightarrow> string \<Rightarrow> jsobj" where
  "close_entry env quote price src =
     (let prev_close = to_finite_number (nullish (own quote ''prev_close'') (own quote ''prevClose''));
          change = derive_change price prev_close
            (to_finite_number (nullish (own quote ''change'') (own quote ''net_change'')));
          percent = derive_change_percent change prev_close
            (to_finite_number (nullish (own quote ''change_percent'')
               (nullish (own quote ''changePercent'') (own quote ''pct_change''))))
      in [(''price'', JNum (fixed_num 2 price)), (''change'', num_val change), (''change_percent'', num_val percent),
          (''prev_close'', num_val prev_close),
          (''_source'', JStr (if src = ''historical'' then ''history_snapshot'' else src)),
          (''_sessionCloseAt'', JNum (num_of_int (ce_now env)))])"

definition close_source :: "jsobj \<Rightarrow> string" where
  "close_source quote =
     lower (to_string (js_or (js_or (own quote ''_source'') (own quote ''source'')) (JStr ''history_snapshot'')))"

text \<open>A chart close in the cache is only replaced by another one.\<close>

definition chart_close_kept :: "jsobj \<Rightarrow> string \<Rightarrow> string list \<Rightarrow> bool" where
  "chart_close_kept cache src keys =
     (\<exists>key \<in> set keys. field (own cache key) ''_source'' = JStr ''history_snapshot'' \<and>
        src \<noteq> ''history_snapshot'' \<and> src \<noteq> ''historical'')"

definition write_alias :: "jsobj \<Rightarrow> jsobj \<times> bool \<Rightarrow> string \<Rightarrow> jsobj \<times> bool" where
  "write_alias entry s key =
     (let prev = own (fst s) key in
      (set_field key (JObj entry) (fst s),
       snd s \<or> \<not> truthy prev \<or> strict_neq (field prev ''price'') (own entry ''price'')
         \<or> strict_neq (field prev ''_source'') (own entry ''_source'')))"

definition set_session_close_price :: "close_env \<Rightarrow> jsval \<Rightarrow> jsobj \<Rightarrow> close_state \<Rightarrow> close_state \<times> bool" where
  "set_session_close_price env symbol quote st =
     (if \<not> truthy symbol \<or> ce_realtime env then (st, False)
      else case pick_price (JObj quote) of
        None \<Rightarrow> (st, False)
      | Some price \<Rightarrow>
          if price \<le> Fin 0 then (st, False)
          else
            let src = close_source quote in
            if \<not> is_authoritative_closed_quote_source (JStr src) \<and> src \<noteq> ''historical'' then (st, False)
            else if chart_close_kept (cs_cache st) src (symbol_aliases symbol) then (st, False)
            else
              let s = foldl (write_alias (close_entry env quote price src)) (cs_cache st, False) (symbol_aliases symbol);
                  st' = st\<lparr> cs_cache := fst s \<rparr>
              in if snd s then (persist_session_close env st', True) else (st', False))"

section \<open>Batches\<close>

definition closed_envelope :: "jsval \<Rightarrow> bool" where
  "closed_envelope meta = (field meta ''frozen'' = JBool True \<or> field meta ''official'' = JBool True)"

definition hydrate_row :: "close_env \<Rightarrow> bool \<Rightarrow> close_state \<Rightarrow> string \<times> jsval \<Rightarrow> close_state" where
  "hydrate_row env envelope st kv =
     (case snd kv of
        JObj raw \<Rightarrow>
          let src = lower_text (js_or (own raw ''source'') (own raw ''_source'')) in
          if src \<in> set closed_batch_sources \<or> envelope \<and> pick_price (JObj raw) \<noteq> None then
            fst (set_session_close_price env (JStr (fst kv))
              (spread raw [(''_source'', JStr (if src = ''history_snapshot'' \<or> src = ''historical'' then src
                  else ''history_snapshot''))]) st)
          else st
      | _ \<Rightarrow> st)"

definition hydrate_session_close :: "close_env \<Rightarrow> jsobj \<Rightarrow> jsval \<Rightarrow> close_state \<Rightarrow> close_state" where
  "hydrate_session_close env quotes meta st =
     (if ce_realtime env then st
      else foldl (hydrate_row env (closed_envelope meta)) st quotes)"

definition set_session_close_from_candle :: "close_env \<Rightarrow> jsval \<Rightarrow> jsval \<Rightarrow> jsval \<Rightarrow> close_state \<Rightarrow> close_state \<times> bool" where
  "set_session_close_from_candle env symbol close meta st =
     (if is_nullish close \<or> to_number close \<le> Fin 0 then (st, False)
      else set_session_close_price env symbol
        [(''price'', close), (''prev_close'', field meta ''prev_close''), (''change'', field meta ''change''),
         (''change_percent'', field meta ''change_percent''), (''_source'', JStr ''history_snapshot'')] st)"

definition clear_session_close :: "close_state \<Rightarrow> close_state \<times> bool" where
  "clear_session_close st = (if cs_cache st = [] then (st, False) else (empty_close, True))"

section \<open>Lemmas\<close>

lemma realtime_inert:
  assumes "ce_realtime env"
  shows "set_session_close_price env symbol quote st = (st, False)"
    "hydrate_session_close env quotes meta st = st" "restore_session_close env st = (st, False)"
    "get_session_close_price (ce_realtime env) cache symbol = JNull"
  using assms by (simp_all add: set_session_close_price_def hydrate_session_close_def restore_session_close_def
      get_session_close_price_def)

lemma write_aliases:
  "own (fst (foldl (write_alias entry) s keys)) k = (if k \<in> set keys then JObj entry else own (fst s) k)"
proof (induction keys arbitrary: s)
  case (Cons key keys)
  then show ?case by (auto simp: write_alias_def Let_def)
qed simp

definition accepts_close :: "close_env \<Rightarrow> jsval \<Rightarrow> jsobj \<Rightarrow> close_state \<Rightarrow> bool" where
  "accepts_close env symbol quote st \<longleftrightarrow>
     truthy symbol \<and> \<not> ce_realtime env \<and> positive (pick_price (JObj quote)) \<and>
     is_authoritative_closed_quote_source (JStr (close_source quote)) \<and>
     \<not> chart_close_kept (cs_cache st) (close_source quote) (symbol_aliases symbol)"

lemma pick_price_finite: "pick_price q = Some p \<Longrightarrow> is_finite p"
  by (auto simp: pick_price_def to_finite_number_def Let_def split: if_splits)

lemma historical_authoritative: "src = ''historical'' \<Longrightarrow> is_authoritative_closed_quote_source (JStr src)"
  by (simp add: is_authoritative_closed_quote_source_def closed_auth_quote_sources_def lower_text_def lower_def
      lower_char_def)

lemma set_refuses: "\<not> accepts_close env symbol quote st \<Longrightarrow> set_session_close_price env symbol quote st = (st, False)"
  using historical_authoritative [of "close_source quote"]
  by (auto simp: accepts_close_def set_session_close_price_def Let_def positive_def
      dest!: pick_price_finite is_finite_iff [THEN iffD1] split: option.splits)

lemma set_accepts:
  assumes "accepts_close env symbol quote st"
  shows "own (cs_cache (fst (set_session_close_price env symbol quote st))) k =
    (if k \<in> set (symbol_aliases symbol)
     then JObj (close_entry env quote (the (pick_price (JObj quote))) (close_source quote))
     else own (cs_cache st) k)"
proof -
  obtain p where p: "pick_price (JObj quote) = Some p" "\<not> p \<le> Fin 0"
    using assms by (auto simp: accepts_close_def positive_def split: option.splits dest!: pick_price_finite is_finite_iff [THEN iffD1])
  have "cs_cache (persist_session_close env s) = cs_cache s" for s by (simp add: persist_session_close_def)
  then show ?thesis using assms p
    by (simp add: accepts_close_def set_session_close_price_def Let_def write_aliases)
qed

text \<open>Every row of the cache has a price; so what is written is read back.\<close>

definition row_ok :: "jsval \<Rightarrow> bool" where
  "row_ok row \<longleftrightarrow> truthy row \<and> pick_price row \<noteq> None"

definition cache_ok :: "jsobj \<Rightarrow> bool" where
  "cache_ok cache \<longleftrightarrow> distinct (map fst cache) \<and> (\<forall>kv \<in> set cache. row_ok (snd kv))"

definition close_ok :: "close_state \<Rightarrow> bool" where
  "close_ok st \<longleftrightarrow> cache_ok (cs_cache st) \<and> (\<forall>date quotes. cs_stored st = Some (date, quotes) \<longrightarrow> cache_ok quotes)"

lemma close_entry_ok: "is_finite p \<Longrightarrow> row_ok (JObj (close_entry env quote p src))"
  using fixed_num_finite
  by (auto simp: row_ok_def pick_price_def close_entry_def Let_def own_Cons to_finite_number_def is_finite_iff)

lemma set_field_ok:
  assumes "cache_ok cache" "row_ok v"
  shows "cache_ok (set_field k v cache)"
proof -
  have "\<forall>kv \<in> set (AList.update k v c). row_ok (snd kv)" if "\<forall>kv \<in> set c. row_ok (snd kv)" for c
    using that assms(2) by (induction c) auto
  from this [of cache] assms(1) show ?thesis unfolding cache_ok_def set_field_def by (simp add: distinct_update)
qed

lemma write_aliases_ok: "cache_ok (fst s) \<Longrightarrow> row_ok (JObj entry) \<Longrightarrow> cache_ok (fst (foldl (write_alias entry) s keys))"
  by (induction keys arbitrary: s) (auto simp: write_alias_def Let_def set_field_ok)

lemma set_session_close_ok:
  assumes "close_ok st"
  shows "close_ok (fst (set_session_close_price env symbol quote st))"
proof (cases "accepts_close env symbol quote st")
  case True
  then obtain p where p: "pick_price (JObj quote) = Some p" "is_finite p" "\<not> p \<le> Fin 0"
    by (auto simp: accepts_close_def positive_def is_finite_iff split: option.splits dest!: pick_price_finite)
  define s where "s = foldl (write_alias (close_entry env quote p (close_source quote))) (cs_cache st, False) (symbol_aliases symbol)"
  have "cache_ok (fst s)" unfolding s_def using assms p(2)
    by (intro write_aliases_ok close_entry_ok) (simp_all add: close_ok_def)
  then show ?thesis using True p assms
    by (simp add: accepts_close_def set_session_close_price_def Let_def flip: s_def)
       (simp add: close_ok_def persist_session_close_def)
qed (simp add: set_refuses assms)

lemma hydrate_session_close_ok: "close_ok st \<Longrightarrow> close_ok (hydrate_session_close env quotes meta st)"
  unfolding hydrate_session_close_def
proof (split if_split, intro conjI impI)
  assume ok: "close_ok st"
  show "close_ok (foldl (hydrate_row env (closed_envelope meta)) st quotes)"
    using ok by (rule foldl_invariant_list) (auto simp: hydrate_row_def Let_def set_session_close_ok split: jsval.splits)
qed

lemma candle_close_ok: "close_ok st \<Longrightarrow> close_ok (fst (set_session_close_from_candle env symbol close meta st))"
  by (simp add: set_session_close_from_candle_def set_session_close_ok)

lemma clear_close_ok: "close_ok st \<Longrightarrow> close_ok (fst (clear_session_close st))"
  by (simp add: clear_session_close_def empty_close_def close_ok_def cache_ok_def)

lemma restore_rows: "\<forall>kv \<in> set rows. row_ok (snd kv) \<Longrightarrow>
    fst (foldl restore_row s rows) = foldl (\<lambda>c kv. set_field (fst kv) (snd kv) c) (fst s) rows"
  by (induction rows arbitrary: s) (auto simp: restore_row_def row_ok_def)

lemma restore_close_ok: "close_ok st \<Longrightarrow> close_ok (fst (restore_session_close env st))"
proof (cases "cs_stored st")
  case (Some dq)
  assume ok: "close_ok st"
  obtain date quotes where dq: "dq = (date, quotes)" by fastforce
  have rows: "\<forall>kv \<in> set quotes. row_ok (snd kv)" using ok Some dq by (auto simp: close_ok_def cache_ok_def)
  have "cache_ok (foldl (\<lambda>c kv. set_field (fst kv) (snd kv) c) (cs_cache st) quotes)"
    by (rule foldl_invariant_list) (use ok rows in \<open>simp_all add: close_ok_def set_field_ok\<close>)
  then show ?thesis using ok Some dq by (simp add: restore_session_close_def Let_def restore_rows [OF rows] close_ok_def)
qed (simp add: restore_session_close_def)

text \<open>A reload on the same trade date restores the cache that was stored.\<close>

lemma replay_rows:
  "distinct (map fst rows) \<Longrightarrow> fst ` set rows \<inter> fst ` set c = {} \<Longrightarrow>
     foldl (\<lambda>c kv. set_field (fst kv) (snd kv) c) c rows = c @ rows"
proof (induction rows arbitrary: c)
  case (Cons kv rows)
  have "set_field (fst kv) (snd kv) c = c @ [kv]" using Cons.prems(2)
    unfolding set_field_def by (induction c) auto
  moreover have "fst ` set rows \<inter> fst ` set (c @ [kv]) = {}" using Cons.prems by auto
  ultimately show ?case using Cons.IH [of "c @ [kv]"] Cons.prems(1) by simp
qed simp

lemma reload_restores:
  assumes "close_ok st" "cs_stored st = Some (trade_date_key (ce_now env), cs_cache st)" "\<not> ce_realtime env"
  shows "fst (restore_session_close env \<lparr> cs_cache = [], cs_stored = cs_stored st \<rparr>) = st"
proof -
  have ok: "\<forall>kv \<in> set (cs_cache st). row_ok (snd kv)" "distinct (map fst (cs_cache st))"
    using assms(1) by (auto simp: close_ok_def cache_ok_def)
  show ?thesis using assms(2,3) ok(2)
    by (simp add: restore_session_close_def Let_def restore_rows [OF ok(1)] replay_rows)
qed

lemma set_then_stored:
  assumes "set_session_close_price env symbol quote st = (st', True)" "ce_can_store env"
  shows "cs_stored st' = Some (trade_date_key (ce_now env), cs_cache st')" "\<not> ce_realtime env"
  using assms
  by (auto simp: set_session_close_price_def Let_def persist_session_close_def split: if_splits option.splits)

text \<open>What is written under a symbol is read back under each of its aliases.\<close>

lemma set_then_get:
  assumes "accepts_close env symbol quote st" "set (symbol_aliases t) \<subseteq> set (symbol_aliases symbol)"
    and "symbol_aliases t \<noteq> []" "truthy t"
  shows "get_session_close_price False (cs_cache (fst (set_session_close_price env symbol quote st))) t =
    JObj (close_entry env quote (the (pick_price (JObj quote))) (close_source quote))"
proof -
  define c where "c = cs_cache (fst (set_session_close_price env symbol quote st))"
  define e where "e = close_entry env quote (the (pick_price (JObj quote))) (close_source quote)"
  obtain p where "pick_price (JObj quote) = Some p" "is_finite p"
    using assms(1) by (auto simp: accepts_close_def positive_def split: option.splits dest: pick_price_finite)
  then have e: "row_ok (JObj e)" unfolding e_def by (simp add: close_entry_ok)
  have c: "own c k = JObj e" if "k \<in> set (symbol_aliases t)" for k
    using set_accepts [OF assms(1)] that assms(2) by (auto simp: c_def e_def)
  obtain k ks where k: "symbol_aliases t = k # ks" using assms(3) by (cases "symbol_aliases t") auto
  then have "own c k = JObj e" using c by simp
  then show ?thesis using e k assms(4) by (simp add: get_session_close_price_def usable_row_def row_ok_def flip: c_def e_def)
qed

text \<open>A chart close is not replaced by a batch quote of another source.\<close>

lemma chart_close_stays:
  assumes "k \<in> set (symbol_aliases symbol)" "field (own (cs_cache st) k) ''_source'' = JStr ''history_snapshot''"
    and "close_source quote \<notin> {''history_snapshot'', ''historical''}"
  shows "set_session_close_price env symbol quote st = (st, False)"
proof (rule set_refuses)
  have "chart_close_kept (cs_cache st) (close_source quote) (symbol_aliases symbol)"
    using assms by (auto simp: chart_close_kept_def intro!: bexI [of _ k])
  then show "\<not> accepts_close env symbol quote st" by (simp add: accepts_close_def)
qed

end
