(* ===== verification/PriceResolver.thy ===== *)
theory PriceResolver
  imports SessionClose
begin

text \<open>
  The price a surface shows for a symbol: \<open>frontend/src/market/UnifiedPriceResolver.js\<close> and
  the helpers of \<open>frontend/src/utils/liveQuote.js\<close> over it. A map of quotes is an object from
  symbols to quotes; the cache of session closes and the reconciled quotes are arguments, and
  \<open>realtime\<close> is what \<open>shouldUseRealtimePrices()\<close> says.
\<close>

section \<open>Resolving one symbol\<close>

definition find_quote_for_symbol :: "jsval \<Rightarrow> jsobj \<Rightarrow> jsval" where
  "find_quote_for_symbol symbol quotes =
     (if \<not> truthy symbol then JNull
      else case find (usable_row quotes) (symbol_aliases symbol) of
             Some key \<Rightarrow> own quotes key
           | None \<Rightarrow> JNull)"

definition source_priority :: "jsval \<Rightarrow> bool \<Rightarrow> int" where
  "source_priority source market_open =
     (let src = lower_text source in
      if \<not> market_open then
        if src = ''history_snapshot'' \<or> src = ''historical'' then 10
        else if src = ''official_eod_close'' then 7
        else if src = ''eod'' \<or> src = ''frozen'' \<or> src = ''snapshot'' then 5
        else if src = ''poll'' then 2
        else if src = ''live'' \<or> src = ''live_ws'' \<or> src = ''stale_live_ws'' then 0
        else 1
      else if src = ''official_eod_close'' then 2
      else if src = ''eod'' then 2
      else if src = ''poll'' then 3
      else if src = ''live'' \<or> src = ''live_ws'' then 5
      else if src = ''stale_live_ws'' then 0
      else if src = ''historical'' \<or> src = ''history_snapshot'' then 1
      else 1)"

record price_options =
  po_live :: jsobj
  po_watchlist :: jsobj
  po_eod :: jsobj
  po_candle :: "jsnum option"

record resolved =
  rs_symbol :: jsval
  rs_price :: "jsnum option"
  rs_change :: "jsnum option"
  rs_percent :: "jsnum option"
  rs_quote :: jsval
  rs_source :: jsval

definition no_price :: "jsval \<Rightarrow> resolved" where
  "no_price symbol = \<lparr> rs_symbol = symbol, rs_price = None, rs_change = None, rs_percent = None,
     rs_quote = JNull, rs_source = JStr ''fallback'' \<rparr>"

definition derive_change_of :: "jsnum option \<Rightarrow> jsnum option \<Rightarrow> jsnum option \<Rightarrow> jsnum option" where
  "derive_change_of price prev_close change =
     (case price of Some p \<Rightarrow> derive_change p prev_close change | None \<Rightarrow> change)"

text \<open>The row of the session closes as a resolved price.\<close>

definition resolve_session_row :: "jsval \<Rightarrow> jsval \<Rightarrow> resolved" where
  "resolve_session_row symbol row =
     (let price = pick_price row;
          prev_close = to_finite_number (field row ''prev_close'');
          change = derive_change_of price prev_close (to_finite_number (field row ''change''));
          percent = derive_change_percent change prev_close (to_finite_number (field row ''change_percent''))
      in \<lparr> rs_symbol = symbol, rs_price = price, rs_change = change, rs_percent = percent,
           rs_quote = row, rs_source = JStr ''eod'' \<rparr>)"

definition or_else :: "'a option \<Rightarrow> 'a option \<Rightarrow> 'a option" where
  "or_else a b = (case a of None \<Rightarrow> b | Some x \<Rightarrow> Some x)"

definition resolve_candle :: "jsval \<Rightarrow> price_options \<Rightarrow> jsnum \<Rightarrow> resolved" where
  "resolve_candle symbol opts close =
     (let prev_of = (\<lambda>quotes. to_finite_number (field (find_quote_for_symbol symbol quotes) ''prev_close''));
          prev = or_else (prev_of (po_eod opts)) (or_else (prev_of (po_watchlist opts)) (prev_of (po_live opts)));
          change = derive_change close prev None;
          percent = derive_change_percent change prev None
      in \<lparr> rs_symbol = symbol, rs_price = Some close, rs_change = change, rs_percent = percent,
           rs_quote = JObj [(''price'', JNum close), (''_source'', JStr ''history_snapshot''),
             (''prev_close'', num_val prev)],
           rs_source = JStr ''eod'' \<rparr>)"

text \<open>The quote of one map as a candidate, with the source it counts under.\<close>

definition candidate :: "bool \<Rightarrow> jsval \<Rightarrow> jsobj \<Rightarrow> string \<Rightarrow> (jsval \<times> jsval) list" where
  "candidate market_open symbol quotes default_source =
     (let q = find_quote_for_symbol symbol quotes;
          source = js_or (js_or (field q ''_source'') (field q ''source'')) (JStr default_source)
      in if truthy q \<and> (market_open \<or> is_authoritative_closed_quote_source source) then [(q, source)] else [])"

definition candidates :: "bool \<Rightarrow> jsval \<Rightarrow> price_options \<Rightarrow> (jsval \<times> jsval) list" where
  "candidates market_open symbol opts =
     candidate market_open symbol (po_live opts) ''live''
     @ candidate market_open symbol (po_watchlist opts) ''poll''
     @ candidate market_open symbol (po_eod opts) ''eod''
     @ (if positive (po_candle opts)
        then [(JObj [(''price'', JNum (the (po_candle opts))), (''_source'', JStr ''historical'')], JStr ''historical'')]
        else [])"

text \<open>The sort is stable and descending in the priority.\<close>

definition best_candidate :: "bool \<Rightarrow> (jsval \<times> jsval) list \<Rightarrow> jsval \<times> jsval" where
  "best_candidate market_open cs = hd (sort_key (\<lambda>c. - source_priority (snd c) market_open) cs)"

definition price_source_of :: "bool \<Rightarrow> jsval \<Rightarrow> jsval" where
  "price_source_of market_open source =
     (if market_open then (if source = JStr ''live'' then JStr ''realtime'' else source)
      else if source = JStr ''eod'' \<or> source = JStr ''historical'' then JStr ''eod''
      else if source = JStr ''poll'' then JStr ''eod'' else JStr ''fallback'')"

definition resolve_best :: "bool \<Rightarrow> jsval \<Rightarrow> jsval \<times> jsval \<Rightarrow> resolved" where
  "resolve_best market_open symbol best =
     (let quote = fst best;
          price = pick_price quote;
          prev_close = to_finite_number (first_field quote [''prev_close'', ''prevClose'']);
          change = derive_change_of price prev_close
            (to_finite_number (first_field quote [''change'', ''net_change'']));
          percent = derive_change_percent change prev_close
            (to_finite_number (first_field quote [''change_percent'', ''changePercent'', ''pct_change'']))
      in \<lparr> rs_symbol = symbol, rs_price = price, rs_change = change, rs_percent = percent,
           rs_quote = quote, rs_source = price_source_of market_open (snd best) \<rparr>)"

definition resolve_symbol_price :: "bool \<Rightarrow> jsobj \<Rightarrow> jsval \<Rightarrow> price_options \<Rightarrow> resolved" where
  "resolve_symbol_price realtime cache symbol opts =
     (let row = get_session_close_price realtime cache symbol;
          cs = candidates realtime symbol opts
      in if \<not> realtime \<and> truthy row then resolve_session_row symbol row
         else if \<not> realtime \<and> positive (po_candle opts) then resolve_candle symbol opts (the (po_candle opts))
         else if cs = [] then no_price symbol
         else resolve_best realtime symbol (best_candidate realtime cs))"

section \<open>Maps of prices\<close>

definition resolved_patch :: "jsnum \<Rightarrow> resolved \<Rightarrow> jsobj" where
  "resolved_patch now r = spread (fields_of (rs_quote r))
     [(''price'', num_val (rs_price r)), (''change'', num_val (rs_change r)),
      (''change_percent'', num_val (rs_percent r)),
      (''_source'', if rs_source r = JStr ''realtime'' then JStr ''live''
         else js_or (field (rs_quote r) ''_source'') (JStr ''history_snapshot'')),
      (''_resolvedAt'', JNum now)]"

definition merge_one :: "bool \<Rightarrow> jsobj \<Rightarrow> jsnum \<Rightarrow> jsobj \<Rightarrow> jsobj \<Rightarrow> jsobj \<Rightarrow> string \<Rightarrow> jsobj \<Rightarrow> jsobj" where
  "merge_one realtime cache now watchlist live eod s merged =
     (let r = resolve_symbol_price realtime cache (JStr s)
            \<lparr> po_live = (if realtime then live else []), po_watchlist = watchlist, po_eod = eod, po_candle = None \<rparr>
      in if rs_price r = None \<or> \<not> truthy (rs_quote r) then merged
         else fold (\<lambda>key. set_field key (JObj (resolved_patch now r))) (symbol_aliases (JStr s)) merged)"

definition merge_resolved_watchlist_prices :: "bool \<Rightarrow> jsobj \<Rightarrow> jsnum \<Rightarrow> jsobj \<Rightarrow> jsobj \<Rightarrow> jsobj \<Rightarrow> jsobj" where
  "merge_resolved_watchlist_prices realtime cache now watchlist live eod =
     (let symbols = unique (map fst watchlist @ (if realtime then map fst live else []) @ map fst eod)
      in fold (merge_one realtime cache now watchlist live eod) symbols watchlist)"

definition resolve_ticker_item :: "bool \<Rightarrow> jsobj \<Rightarrow> jsval \<Rightarrow> jsobj \<Rightarrow> jsobj \<Rightarrow> jsval" where
  "resolve_ticker_item realtime cache item live eod =
     (if \<not> truthy item then item
      else
        let r = resolve_symbol_price realtime cache (field item ''symbol'')
              \<lparr> po_live = live, po_watchlist = [], po_eod = eod, po_candle = None \<rparr>
        in if rs_price r = None then
             (if \<not> realtime then JObj (spread (fields_of item) [(''_priceSource'', JStr ''pending_eod'')]) else item)
           else JObj (spread (fields_of item)
             [(''price'', num_val (rs_price r)),
              (''change'', nullish (num_val (rs_change r)) (field item ''change'')),
              (''change_percent'', nullish (num_val (rs_percent r)) (field item ''change_percent'')),
              (''_priceSource'', rs_source r)]))"

definition get_resolver_session_label :: "jsobj \<Rightarrow> jsval" where
  "get_resolver_session_label snap =
     (if truthy (own snap ''isOpen'') then JStr ''open'' else js_or (own snap ''state'') (JStr ''closed''))"

section \<open>Live quotes\<close>

definition has_live_price :: "jsobj \<Rightarrow> string \<Rightarrow> bool" where
  "has_live_price quotes key = positive (to_finite_number (field (own quotes key) ''price''))"

definition get_live_quote_for_symbol :: "bool \<Rightarrow> jsobj \<Rightarrow> jsobj \<Rightarrow> jsval \<Rightarrow> jsobj \<Rightarrow> jsval" where
  "get_live_quote_for_symbol realtime cache eod_cache symbol quotes =
     (let r = resolve_symbol_price realtime cache symbol
            \<lparr> po_live = quotes, po_watchlist = [], po_eod = eod_cache, po_candle = None \<rparr>
      in if \<not> realtime \<and> rs_price r \<noteq> None \<and> truthy (rs_quote r) then rs_quote r
         else case find (has_live_price quotes) (symbol_aliases symbol) of
                Some key \<Rightarrow> own quotes key
              | None \<Rightarrow> JNull)"

definition merge_watchlist_prices :: "bool \<Rightarrow> jsobj \<Rightarrow> jsobj \<Rightarrow> jsnum \<Rightarrow> jsobj \<Rightarrow> jsobj \<Rightarrow> jsobj" where
  "merge_watchlist_prices realtime cache eod_cache now watchlist live =
     (if \<not> realtime then merge_resolved_watchlist_prices realtime cache now [] [] cache
      else merge_resolved_watchlist_prices realtime cache now watchlist live eod_cache)"

definition build_quote_with_live_price :: "jsval \<Rightarrow> jsval \<Rightarrow> jsval" where
  "build_quote_with_live_price base live_price =
     (case to_finite_number live_price of
        None \<Rightarrow> js_or base (JObj [])
      | Some next \<Rightarrow>
          if next \<le> Fin 0 then js_or base (JObj [])
          else
            let prev_close = to_finite_number (field base ''prev_close'');
                has_prev = positive prev_close;
                number_or_0 = (\<lambda>k. case to_finite_number (field base k) of Some n \<Rightarrow> n | None \<Rightarrow> Fin 0);
                change = (if has_prev then fixed_num 2 (next - the prev_close) else number_or_0 ''change'');
                percent = (if has_prev then fixed_num 2 ((next - the prev_close) / the prev_close * Fin 100)
                           else number_or_0 ''change_percent'')
            in JObj (spread (fields_of base)
                 ([(''price'', JNum (fixed_num 2 next)), (''change'', JNum change), (''change_percent'', JNum percent)]
                  @ (if has_prev then [(''prev_close'', JNum (the prev_close))] else []))))"

section \<open>Lemmas\<close>

text \<open>A lookup gives nothing or a row with a price.\<close>

lemma find_usable: "find (usable_row quotes) keys = Some key \<Longrightarrow> row_ok (own quotes key)"
  by (auto simp: find_Some_iff usable_row_def row_ok_def)

lemma find_quote_ok: "find_quote_for_symbol symbol quotes = JNull \<or> row_ok (find_quote_for_symbol symbol quotes)"
  by (auto simp: find_quote_for_symbol_def dest: find_usable split: option.split)

lemma session_row_ok: "get_session_close_price realtime cache symbol = JNull \<or> row_ok (get_session_close_price realtime cache symbol)"
  by (auto simp: get_session_close_price_def dest: find_usable split: option.split)

lemma candidate_ok: "c \<in> set (candidate mo symbol quotes d) \<Longrightarrow>
    row_ok (fst c) \<and> (mo \<or> is_authoritative_closed_quote_source (snd c))"
  using find_quote_ok [of symbol quotes] by (auto simp: candidate_def Let_def split: if_splits)

lemma candidates_ok: "c \<in> set (candidates mo symbol opts) \<Longrightarrow>
    row_ok (fst c) \<or> positive (po_candle opts) \<and> snd c = JStr ''historical''"
  by (auto simp: candidates_def dest: candidate_ok split: if_splits)

text \<open>The chosen candidate is one of them, none has a higher priority, and ties go to the first.\<close>

lemma best_in: "cs \<noteq> [] \<Longrightarrow> best_candidate mo cs \<in> set cs"
  unfolding best_candidate_def by (metis list.set_sel(1) set_empty set_sort)

lemma best_max:
  assumes "c \<in> set cs"
  shows "source_priority (snd c) mo \<le> source_priority (snd (best_candidate mo cs)) mo"
proof -
  let ?f = "\<lambda>c. - source_priority (snd c) mo"
  obtain b bs where b: "sort_key ?f cs = b # bs" using assms by (cases "sort_key ?f cs") (auto dest: arg_cong [where f = set])
  have "sorted (map ?f (b # bs))" by (metis b sorted_sort_key)
  moreover have "c \<in> set (b # bs)" using assms by (metis b set_sort)
  ultimately have "?f b \<le> ?f c" by auto
  then show ?thesis by (simp add: best_candidate_def b)
qed

lemma best_first:
  assumes "\<And>d. d \<in> set cs \<Longrightarrow> source_priority (snd d) mo \<le> source_priority (snd c) mo"
  shows "best_candidate mo (c # cs) = c"
proof -
  let ?f = "\<lambda>c. - source_priority (snd c) mo"
  have "\<forall>d \<in> set (sort_key ?f cs). ?f c \<le> ?f d" using assms by simp
  then have "insort_key ?f c (sort_key ?f cs) = c # sort_key ?f cs"
    by (cases "sort_key ?f cs") simp_all
  then show ?thesis by (simp add: best_candidate_def)
qed

lemma priority_le_5: "source_priority source True \<le> 5"
  by (simp add: source_priority_def Let_def)

text \<open>While prices are live, a quote of the socket is what the symbol shows.\<close>

lemma open_live_wins:
  assumes q: "find_quote_for_symbol symbol (po_live opts) = q" "truthy q"
    and src: "lower_text (js_or (js_or (field q ''_source'') (field q ''source'')) (JStr ''live'')) \<in> {''live'', ''live_ws''}"
  shows "rs_quote (resolve_symbol_price True cache symbol opts) = q"
    and "rs_price (resolve_symbol_price True cache symbol opts) = pick_price q"
proof -
  define s where "s = js_or (js_or (field q ''_source'') (field q ''source'')) (JStr ''live'')"
  have "candidate True symbol (po_live opts) ''live'' = [(q, s)]" using q by (simp add: candidate_def s_def)
  then obtain cs where cs: "candidates True symbol opts = (q, s) # cs" by (simp add: candidates_def)
  have "source_priority s True = 5" using src by (auto simp: source_priority_def Let_def s_def)
  then have "best_candidate True ((q, s) # cs) = (q, s)" by (intro best_first) (simp add: priority_le_5)
  then show "rs_quote (resolve_symbol_price True cache symbol opts) = q"
    "rs_price (resolve_symbol_price True cache symbol opts) = pick_price q"
    by (simp_all add: resolve_symbol_price_def Let_def cs resolve_best_def)
qed

text \<open>
  In a closed session a price comes from the session closes, from the candle of the chart, or
  from a quote whose source is authoritative.
\<close>

lemma closed_price_authoritative:
  assumes "rs_price (resolve_symbol_price False cache symbol opts) \<noteq> None"
  shows "rs_quote (resolve_symbol_price False cache symbol opts) = get_session_close_price False cache symbol \<or>
    rs_price (resolve_symbol_price False cache symbol opts) = po_candle opts \<or>
    (\<exists>quotes d. quotes \<in> {po_live opts, po_watchlist opts, po_eod opts} \<and>
       rs_quote (resolve_symbol_price False cache symbol opts) = find_quote_for_symbol symbol quotes \<and>
       is_authoritative_closed_quote_source
         (js_or (source_of (find_quote_for_symbol symbol quotes)) (JStr d)))"
proof -
  let ?row = "get_session_close_price False cache symbol" and ?cs = "candidates False symbol opts"
  consider (row) "truthy ?row" | (candle) "\<not> truthy ?row" "positive (po_candle opts)"
    | (none) "\<not> truthy ?row" "\<not> positive (po_candle opts)" "?cs = []"
    | (best) "\<not> truthy ?row" "\<not> positive (po_candle opts)" "?cs \<noteq> []" by blast
  then show ?thesis
  proof cases
    case best
    then have "best_candidate False ?cs \<in> set ?cs" by (intro best_in)
    then obtain quotes d where m: "quotes \<in> {po_live opts, po_watchlist opts, po_eod opts}"
      "best_candidate False ?cs \<in> set (candidate False symbol quotes d)"
      using best(2) by (auto simp: candidates_def)
    then have "fst (best_candidate False ?cs) = find_quote_for_symbol symbol quotes"
      "is_authoritative_closed_quote_source (js_or (source_of (find_quote_for_symbol symbol quotes)) (JStr d))"
      by (auto simp: candidate_def Let_def source_of_def split: if_splits)
    with best m(1) show ?thesis by (auto simp: resolve_symbol_price_def Let_def resolve_best_def)
  qed (use assms in \<open>auto simp: resolve_symbol_price_def Let_def resolve_session_row_def resolve_candle_def
      no_price_def positive_def split: option.splits\<close>)
qed

text \<open>A price is missing only where no source has one.\<close>

lemma no_price_iff:
  assumes "po_candle opts = None"
  shows "rs_price (resolve_symbol_price realtime cache symbol opts) = None \<longleftrightarrow>
    (realtime \<or> get_session_close_price realtime cache symbol = JNull) \<and> candidates realtime symbol opts = []"
proof -
  let ?cs = "candidates realtime symbol opts"
  have "pick_price (fst (best_candidate realtime ?cs)) \<noteq> None" if "?cs \<noteq> []"
    using candidates_ok [OF best_in [OF that]] assms by (auto simp: row_ok_def positive_def)
  then show ?thesis using session_row_ok [of realtime cache symbol] assms
    by (auto simp: resolve_symbol_price_def Let_def resolve_session_row_def resolve_best_def no_price_def positive_def row_ok_def)
qed

text \<open>The change that a live price gets is its distance from the previous close.\<close>

lemma live_price_quote:
  assumes "to_finite_number live_price = Some p" "Fin 0 < p"
    and "to_finite_number (field base ''prev_close'') = Some c" "Fin 0 < c"
  obtains q where "build_quote_with_live_price base live_price = JObj q"
    "own q ''price'' = JNum (fixed_num 2 p)" "own q ''change'' = JNum (fixed_num 2 (p - c))"
    "own q ''change_percent'' = JNum (fixed_num 2 ((p - c) / c * Fin 100))" "own q ''prev_close'' = JNum c"
    "\<And>k. k \<notin> {''price'', ''change'', ''change_percent'', ''prev_close''} \<Longrightarrow> own q k = own (fields_of base) k"
proof -
  have "\<not> p \<le> Fin 0" using assms(2) less_le_jsnum_trans less_jsnum_irrefl by blast
  then have "build_quote_with_live_price base live_price = JObj (spread (fields_of base)
      [(''price'', JNum (fixed_num 2 p)), (''change'', JNum (fixed_num 2 (p - c))),
       (''change_percent'', JNum (fixed_num 2 ((p - c) / c * Fin 100))), (''prev_close'', JNum c)])"
    using assms by (simp add: build_quote_with_live_price_def Let_def positive_def)
  from that [OF this] show thesis by (simp add: own_spread own_Cons)
qed

end
