(* ===== verification/Sorting.thy ===== *)
theory Sorting
  imports Main "HOL-Library.Multiset"
begin

text \<open>
  The stable sort of an array with a comparison function; \<open>after a b\<close> says that the
  comparison of \<open>a\<close> with \<open>b\<close> is positive.
\<close>

fun insert_by :: "('a \<Rightarrow> 'a \<Rightarrow> bool) \<Rightarrow> 'a \<Rightarrow> 'a list \<Rightarrow> 'a list" where
  "insert_by after x [] = [x]"
| "insert_by after x (y # ys) = (if after x y then y # insert_by after x ys else x # y # ys)"

definition sort_by :: "('a \<Rightarrow> 'a \<Rightarrow> bool) \<Rightarrow> 'a list \<Rightarrow> 'a list" where
  "sort_by after xs = foldr (insert_by after) xs []"

lemma mset_insert_by: "mset (insert_by after x ys) = add_mset x (mset ys)"
  by (induction ys) auto

lemma mset_sort_by [simp]: "mset (sort_by after xs) = mset xs"
  by (induction xs) (simp_all add: sort_by_def mset_insert_by)

lemma set_sort_by [simp]: "set (sort_by after xs) = set xs"
  by (metis mset_sort_by set_mset_mset)

lemma insert_by_sorted:
  assumes "\<And>a b c. \<not> after a b \<Longrightarrow> \<not> after b c \<Longrightarrow> \<not> after a c" "\<And>a b. after a b \<Longrightarrow> \<not> after b a"
    and "sorted_wrt (\<lambda>a b. \<not> after a b) ys"
  shows "sorted_wrt (\<lambda>a b. \<not> after a b) (insert_by after x ys)"
proof -
  have s: "set (insert_by after x ys) = insert x (set ys)" for ys
    by (metis mset_insert_by set_mset_add_mset_insert set_mset_mset)
  show ?thesis using assms(3)
  proof (induction ys)
    case (Cons y ys)
    show ?case
    proof (cases "after x y")
      case True
      with assms(2) have "\<not> after y x" by blast
      with Cons True show ?thesis by (simp add: s)
    next
      case False
      with Cons.prems assms(1) have "\<forall>z \<in> set ys. \<not> after x z" by (metis sorted_wrt.simps(2))
      with Cons.prems False show ?thesis by simp
    qed
  qed simp
qed

lemma sort_by_sorted:
  assumes "\<And>a b c. \<not> after a b \<Longrightarrow> \<not> after b c \<Longrightarrow> \<not> after a c" "\<And>a b. after a b \<Longrightarrow> \<not> after b a"
  shows "sorted_wrt (\<lambda>a b. \<not> after a b) (sort_by after xs)"
proof (induction xs)
  case (Cons x xs)
  then have "sorted_wrt (\<lambda>a b. \<not> after a b) (insert_by after x (sort_by after xs))"
    by (rule insert_by_sorted [rotated 2]) (erule (1) assms(1), erule assms(2))
  then show ?case by (simp add: sort_by_def)
qed (simp add: sort_by_def)

text \<open>Where the comparison is that of whole keys, the keys come out in order.\<close>

lemma insert_by_mono:
  assumes "\<And>a b. a \<in> insert x (set ys) \<Longrightarrow> b \<in> insert x (set ys) \<Longrightarrow> after a b \<longleftrightarrow> k b < (k a :: int)"
    and "sorted (map k ys)"
  shows "sorted (map k (insert_by after x ys))"
  using assms
proof (induction ys)
  case (Cons y ys)
  have s: "set (insert_by after x ys) = insert x (set ys)" by (metis mset_insert_by set_mset_add_mset_insert set_mset_mset)
  show ?case
  proof (cases "after x y")
    case True
    with Cons.prems(1) have "k y < k x" by auto
    moreover have "sorted (map k (insert_by after x ys))" using Cons by auto
    ultimately show ?thesis using Cons.prems(2) True by (auto simp: s)
  next
    case False
    then have "k x \<le> k y" using Cons.prems(1) [of x y] by auto
    then show ?thesis using Cons.prems(2) False by auto
  qed
qed simp

lemma sort_by_key:
  assumes "\<And>a b. a \<in> set xs \<Longrightarrow> b \<in> set xs \<Longrightarrow> after a b \<longleftrightarrow> k b < (k a :: int)"
  shows "sorted (map k (sort_by after xs))"
  using assms
proof (induction xs)
  case (Cons x xs)
  have s: "set (sort_by after xs) = set xs" by simp
  have "sorted (map k (insert_by after x (sort_by after xs)))"
    by (rule insert_by_mono) (use Cons in \<open>auto simp: s\<close>)
  then show ?case by (simp add: sort_by_def)
qed (simp add: sort_by_def)

end
