(* ===== verification/TradeLots.thy ===== *)
theory TradeLots
  imports JSValue Sorting
begin

text \<open>
  The open lots of a portfolio, \<open>frontend/src/utils/tradeLots.js\<close>: transactions are replayed
  against the holdings, an opposite trade closes the oldest lots first, and what the
  transactions do not explain becomes a synthetic lot. \<open>Date.parse\<close> and
  \<open>localeCompare\<close> depend on the browser and are the parameters \<open>date_parse\<close> and
  \<open>locale_after\<close> (whether the comparison is positive).
\<close>

section \<open>Data\<close>

record holding_row =
  hr_symbol :: string
  hr_product :: string
  hr_quantity :: jsnum
  hr_avg :: jsnum
  hr_updated :: jsval

record lot_tx =
  tx_id :: jsval
  tx_order :: jsval
  tx_side :: string
  tx_qty :: jsnum
  tx_price :: jsnum
  tx_created :: jsval

record lot =
  lot_id :: jsval
  lot_order :: jsval
  lot_symbol :: string
  lot_product :: string
  lot_side :: string
  lot_entry :: jsnum
  lot_qty :: jsnum
  lot_created :: jsval
  lot_synthetic :: bool

definition to_date_ms :: "(string \<Rightarrow> jsnum) \<Rightarrow> jsval \<Rightarrow> jsnum" where
  "to_date_ms date_parse value =
     (let ts = (if truthy value then date_parse (to_string value) else NaN) in
      if is_finite ts then ts else Fin 0)"

definition product_text :: "jsval \<Rightarrow> string" where
  "product_text row = upper (to_string (js_or (field row ''product_type'') (JStr ''CNC'')))"

definition lot_key :: "string \<Rightarrow> string \<Rightarrow> string" where
  "lot_key symbol product = symbol @ '':'' @ product"

section \<open>Reading the rows\<close>

definition holding_of :: "jsval \<Rightarrow> holding_row option" where
  "holding_of h =
     (let symbol = symbol_text (field h ''symbol'');
          qty = to_number (nullish (field h ''quantity'') (JNum (Fin 0)))
      in if symbol = [] \<or> \<not> is_finite qty \<or> num_eq qty (Fin 0) then None
         else Some \<lparr> hr_symbol = symbol, hr_product = product_text h, hr_quantity = qty,
           hr_avg = to_number (nullish (field h ''avg_price'') (JNum (Fin 0))),
           hr_updated = js_or (js_or (field h ''updated_at'') (field h ''created_at'')) JNull \<rparr>)"

definition holdings_by_key :: "jsval list \<Rightarrow> (string \<times> holding_row) list" where
  "holdings_by_key holdings =
     foldl (\<lambda>m h. case holding_of h of
         None \<Rightarrow> m
       | Some r \<Rightarrow> AList.update (lot_key (hr_symbol r) (hr_product r)) r m) [] holdings"

definition tx_of :: "jsval \<Rightarrow> lot_tx option" where
  "tx_of tx =
     (let side = symbol_text (field tx ''transaction_type'');
          qty = to_number (nullish (field tx ''quantity'') (JNum (Fin 0)));
          price = to_number (nullish (field tx ''price'') (nullish (field tx ''filled_price'') (JNum (Fin 0))))
      in if (side \<noteq> ''BUY'' \<and> side \<noteq> ''SELL'') \<or> \<not> is_finite qty \<or> qty \<le> Fin 0 then None
         else Some \<lparr> tx_id = field tx ''id'', tx_order = field tx ''order_id'', tx_side = side, tx_qty = qty,
           tx_price = price, tx_created = field tx ''created_at'' \<rparr>)"

definition tx_key :: "jsval \<Rightarrow> string" where
  "tx_key tx = lot_key (symbol_text (field tx ''symbol'')) (product_text tx)"

definition txs_of_key :: "string \<Rightarrow> jsval list \<Rightarrow> lot_tx list" where
  "txs_of_key key transactions =
     List.map_filter (\<lambda>tx. if truthy tx \<and> truthy (field tx ''symbol'') \<and> tx_key tx = key then tx_of tx else None)
       transactions"

section \<open>Replaying the transactions\<close>

text \<open>Newest first; the transactions of one instant by their identifier, the greater first.\<close>

definition tx_after :: "(string \<Rightarrow> jsnum) \<Rightarrow> (string \<Rightarrow> string \<Rightarrow> bool) \<Rightarrow> lot_tx \<Rightarrow> lot_tx \<Rightarrow> bool" where
  "tx_after date_parse locale_after a b =
     (let ta = to_date_ms date_parse (tx_created a); tb = to_date_ms date_parse (tx_created b) in
      if \<not> num_eq ta tb then Fin 0 < tb - ta
      else locale_after (to_string (js_or (tx_id b) (JStr []))) (to_string (js_or (tx_id a) (JStr []))))"

definition signed_qty :: "lot_tx \<Rightarrow> jsnum" where
  "signed_qty t = (if tx_side t = ''BUY'' then tx_qty t else - tx_qty t)"

fun suffix_of :: "jsnum \<Rightarrow> jsnum \<Rightarrow> lot_tx list \<Rightarrow> lot_tx list" where
  "suffix_of target net [] = []"
| "suffix_of target net (t # ts) =
     (let net' = net + signed_qty t in
      if num_eq net' target then [t] else t # suffix_of target net' ts)"

text \<open>
  The loop of a trade over the lots: a buy (\<open>buying\<close>) covers short lots, a sell closes
  long ones, until nothing of the trade remains.
\<close>

fun consume :: "bool \<Rightarrow> lot list \<Rightarrow> jsnum \<Rightarrow> lot list \<times> jsnum" where
  "consume buying [] remaining = ([], remaining)"
| "consume buying (l # ls) remaining =
     (if remaining \<le> Fin 0 then (l # ls, remaining)
      else if (if buying then Fin 0 \<le> lot_qty l else lot_qty l \<le> Fin 0) then
        (let (ls', r) = consume buying ls remaining in (l # ls', r))
      else
        (let part = math_min remaining (if buying then \<bar>lot_qty l\<bar> else lot_qty l);
             l' = l\<lparr> lot_qty := (if buying then lot_qty l + part else lot_qty l - part) \<rparr>;
             (ls', r) = consume buying ls (remaining - part)
         in (l' # ls', r)))"

definition entry_price :: "holding_row \<Rightarrow> lot_tx \<Rightarrow> jsnum" where
  "entry_price h t = (if is_finite (tx_price t) \<and> Fin 0 < tx_price t then tx_price t else num_or (hr_avg h) (Fin 0))"

definition opened_lot :: "holding_row \<Rightarrow> lot_tx \<Rightarrow> bool \<Rightarrow> jsnum \<Rightarrow> lot" where
  "opened_lot h t buying remaining =
     \<lparr> lot_id = tx_id t, lot_order = tx_order t, lot_symbol = hr_symbol h, lot_product = hr_product h,
       lot_side = (if buying then ''LONG'' else ''SHORT''), lot_entry = entry_price h t,
       lot_qty = (if buying then remaining else - remaining), lot_created = tx_created t, lot_synthetic = False \<rparr>"

definition replay_tx :: "holding_row \<Rightarrow> lot list \<Rightarrow> lot_tx \<Rightarrow> lot list" where
  "replay_tx h lots t =
     (let buying = (tx_side t = ''BUY'');
          (lots', remaining) = consume buying lots (tx_qty t)
      in if Fin 0 < remaining then lots' @ [opened_lot h t buying remaining] else lots')"

section \<open>The lots of a holding\<close>

definition synthetic_lot :: "holding_row \<Rightarrow> jsnum \<Rightarrow> lot" where
  "synthetic_lot h delta =
     \<lparr> lot_id = JStr (''synthetic-'' @ (if Fin 0 < delta then ''long'' else ''short'') @ ''-'' @ hr_symbol h @ ''-'' @ hr_product h),
       lot_order = JNull, lot_symbol = hr_symbol h, lot_product = hr_product h,
       lot_side = (if Fin 0 < delta then ''LONG'' else ''SHORT''), lot_entry = num_or (hr_avg h) (Fin 0),
       lot_qty = delta, lot_created = hr_updated h, lot_synthetic = True \<rparr>"

definition net_qty :: "lot list \<Rightarrow> jsnum" where
  "net_qty lots = foldl (\<lambda>net l. net + num_or (lot_qty l) (Fin 0)) (Fin 0) lots"

definition close_gap :: "holding_row \<Rightarrow> lot list \<Rightarrow> lot list" where
  "close_gap h lots =
     (let filtered = filter (\<lambda>l. \<not> num_eq (lot_qty l) (Fin 0)) lots; net = net_qty filtered in
      if \<not> num_eq net (hr_quantity h) then filtered @ [synthetic_lot h (hr_quantity h - net)] else filtered)"

definition lots_of_holding :: "(string \<Rightarrow> jsnum) \<Rightarrow> (string \<Rightarrow> string \<Rightarrow> bool) \<Rightarrow> holding_row \<Rightarrow> lot_tx list \<Rightarrow> lot list" where
  "lots_of_holding date_parse locale_after h txs =
     close_gap h (foldl (replay_tx h) []
       (rev (suffix_of (hr_quantity h) (Fin 0) (sort_by (tx_after date_parse locale_after) txs))))"

definition lot_after :: "(string \<Rightarrow> jsnum) \<Rightarrow> lot \<Rightarrow> lot \<Rightarrow> bool" where
  "lot_after date_parse a b =
     (Fin 0 < to_date_ms date_parse (lot_created b) - to_date_ms date_parse (lot_created a))"

definition compute_open_lots :: "(string \<Rightarrow> jsnum) \<Rightarrow> (string \<Rightarrow> string \<Rightarrow> bool) \<Rightarrow> jsval list \<Rightarrow> jsval list \<Rightarrow> lot list" where
  "compute_open_lots date_parse locale_after transactions holdings =
     sort_by (lot_after date_parse)
       (concat (map (\<lambda>(key, h). lots_of_holding date_parse locale_after h (txs_of_key key transactions))
          (holdings_by_key holdings)))"

end
