(* ===== verification/TradeLotsFacts.thy ===== *)
theory TradeLotsFacts
  imports TradeLots
begin

text \<open>
  On whole quantities the replay is exact: it refines the same matching on integers, the oldest
  opposite lots are closed first, long and short lots never stand side by side, and the lots of
  a holding add up to its quantity.
\<close>

section \<open>The matching on integers\<close>

fun consume_int :: "bool \<Rightarrow> int list \<Rightarrow> int \<Rightarrow> int list \<times> int" where
  "consume_int buying [] n = ([], n)"
| "consume_int buying (q # qs) n =
     (if n \<le> 0 then (q # qs, n)
      else if (if buying then 0 \<le> q else q \<le> 0) then
        (let (qs', r) = consume_int buying qs n in (q # qs', r))
      else
        (let part = min n \<bar>q\<bar>; (qs', r) = consume_int buying qs (n - part)
         in ((if buying then q + part else q - part) # qs', r)))"

definition replay_int :: "int list \<Rightarrow> bool \<times> int \<Rightarrow> int list" where
  "replay_int qs t =
     (let (qs', r) = consume_int (fst t) qs (snd t) in
      if 0 < r then qs' @ [if fst t then r else - r] else qs')"

definition side_sign :: "bool \<Rightarrow> int" where
  "side_sign buying = (if buying then 1 else - 1)"

lemma consume_int_remaining: "0 \<le> n \<Longrightarrow> 0 \<le> snd (consume_int b qs n) \<and> snd (consume_int b qs n) \<le> n"
  by (induction b qs n rule: consume_int.induct) (fastforce simp: Let_def split_beta)+

lemma consume_int_sum:
  "0 \<le> n \<Longrightarrow> sum_list (fst (consume_int b qs n)) = sum_list qs + side_sign b * (n - snd (consume_int b qs n))"
  by (induction b qs n rule: consume_int.induct) (auto simp: Let_def split_beta side_sign_def algebra_simps)

lemma consume_int_volume:
  "0 \<le> n \<Longrightarrow> sum_list (map abs (fst (consume_int b qs n))) = sum_list (map abs qs) - (n - snd (consume_int b qs n))"
  by (induction b qs n rule: consume_int.induct) (auto simp: Let_def split_beta min_def split: if_splits)

lemma consume_int_length: "length (fst (consume_int b qs n)) = length qs"
  by (induction b qs n rule: consume_int.induct) (auto simp: Let_def split_beta)

text \<open>A trade does not touch lots of its own side, and while something of it remains, all others are closed.\<close>

definition own_side :: "bool \<Rightarrow> int \<Rightarrow> bool" where
  "own_side buying q \<longleftrightarrow> (if buying then 0 \<le> q else q \<le> 0)"

lemma consume_int_done [simp]: "consume_int b qs 0 = (qs, 0)"
  by (cases qs) simp_all

lemma consume_int_own: "list_all (own_side b) qs \<Longrightarrow> consume_int b qs n = (qs, n)"
  by (induction b qs n rule: consume_int.induct) (auto simp: own_side_def Let_def split: if_splits)

lemma consume_int_left: "0 < snd (consume_int b qs n) \<Longrightarrow> list_all (own_side b) (fst (consume_int b qs n))"
  by (induction b qs n rule: consume_int.induct)
    (auto simp: own_side_def Let_def split_beta min_def split: if_splits)

lemma consume_int_other: "list_all (own_side (\<not> b)) qs \<Longrightarrow> list_all (own_side (\<not> b)) (fst (consume_int b qs n))"
  by (induction b qs n rule: consume_int.induct)
    (auto simp: own_side_def Let_def split_beta min_def split: if_splits)

definition one_sided :: "int list \<Rightarrow> bool" where
  "one_sided qs \<longleftrightarrow> list_all (own_side True) qs \<or> list_all (own_side False) qs"

lemma replay_int_one_sided:
  assumes "one_sided qs" "0 \<le> snd t"
  shows "one_sided (replay_int qs t)"
proof -
  obtain b n where t: "t = (b, n)" by fastforce
  have split: "list_all (own_side b) qs \<or> list_all (own_side (\<not> b)) qs"
    using assms(1) by (cases b) (auto simp: one_sided_def)
  have new: "own_side b (if b then r else - r)" if "0 < r" for r using that by (simp add: own_side_def)
  show ?thesis
  proof (cases "0 < snd (consume_int b qs n)")
    case True
    then have "list_all (own_side b) (replay_int qs t)"
      using consume_int_left [OF True] new [OF True] by (simp add: replay_int_def t split_beta)
    then show ?thesis by (cases b) (auto simp: one_sided_def)
  next
    case False
    have "list_all (own_side b) (fst (consume_int b qs n)) \<or> list_all (own_side (\<not> b)) (fst (consume_int b qs n))"
      using split consume_int_own [of b qs n] consume_int_other [of b qs n] by auto
    with False show ?thesis by (cases b) (auto simp: one_sided_def replay_int_def t split_beta)
  qed
qed

lemma replay_int_sum: "0 \<le> snd t \<Longrightarrow> sum_list (replay_int qs t) = sum_list qs + side_sign (fst t) * snd t"
  using consume_int_sum [of "snd t" "fst t" qs] consume_int_remaining [of "snd t" "fst t" qs]
  by (auto simp: replay_int_def split_beta side_sign_def)

lemma replay_int_volume: "0 \<le> snd t \<Longrightarrow> sum_list (map abs (replay_int qs t)) \<le> sum_list (map abs qs) + snd t"
  using consume_int_volume [of "snd t" "fst t" qs] consume_int_remaining [of "snd t" "fst t" qs]
  by (auto simp: replay_int_def split_beta)

text \<open>First in, first out: what a sale takes from a long lot is what the older lots leave of it.\<close>

lemma consume_int_fifo:
  assumes "list_all (own_side True) qs" "0 \<le> n" "i < length qs"
  shows "fst (consume_int False qs n) ! i = qs ! i - min (qs ! i) (max 0 (n - sum_list (take i qs)))"
  using assms
proof (induction qs arbitrary: n i)
  case (Cons q qs)
  have "own_side True q" "list_all (own_side True) qs" using Cons.prems(1) by simp_all
  then have q: "0 \<le> q" "list_all (own_side True) qs" by (simp_all only: own_side_def if_True)
  have pos: "0 \<le> x" if "x \<in> set (q # qs)" for x using Cons.prems(1) that by (auto simp: own_side_def list_all_iff)
  show ?case
  proof (cases "n = 0")
    case True
    have "0 \<le> sum_list (take i (q # qs))" by (rule sum_list_nonneg) (use pos in \<open>auto dest: in_set_takeD\<close>)
    moreover have "0 \<le> (q # qs) ! i" using Cons.prems(3) by (intro pos nth_mem)
    ultimately show ?thesis using True by simp
  next
    case False
    with Cons.prems have n: "0 < n" by simp
    show ?thesis
    proof (cases i)
      case 0
      with n q show ?thesis by (auto simp: Let_def split_beta)
    next
      case (Suc j)
      then have j: "j < length qs" using Cons.prems(3) by simp
      have IH: "fst (consume_int False qs m) ! j = qs ! j - min (qs ! j) (max 0 (m - sum_list (take j qs)))"
        if "0 \<le> m" for m using Cons.IH [OF q(2) that j] .
      have s: "0 \<le> sum_list (take j qs)" by (rule sum_list_nonneg) (use pos in \<open>auto dest: in_set_takeD\<close>)
      have qj: "0 \<le> qs ! j" using j by (intro pos) auto
      show ?thesis
      proof (cases "n \<le> q")
        case True
        with n q Suc IH [of 0] s qj show ?thesis by (simp add: Let_def split_beta)
      next
        case le: False
        with n q Suc IH [of "n - q"] IH [of n] show ?thesis by (auto simp: Let_def split_beta algebra_simps)
      qed
    qed
  qed
qed simp

section \<open>The replay refines it\<close>

definition lot_int :: "lot \<Rightarrow> int" where
  "lot_int l = (case lot_qty l of Fin q \<Rightarrow> \<lfloor>q\<rfloor> | _ \<Rightarrow> 0)"

definition whole_lots :: "int \<Rightarrow> lot list \<Rightarrow> bool" where
  "whole_lots v lots \<longleftrightarrow> (\<forall>l \<in> set lots. lot_qty l = Fin (of_int (lot_int l))) \<and>
     sum_list (map abs (map lot_int lots)) \<le> v"

lemma lot_int_update [simp]: "lot_int (l\<lparr> lot_qty := Fin (of_int n) \<rparr>) = n"
  by (simp add: lot_int_def)

lemma consume_refines:
  assumes "\<forall>l \<in> set lots. lot_qty l = Fin (of_int (lot_int l)) \<and> \<bar>lot_int l\<bar> \<le> 2 ^ 53" "0 \<le> n" "n \<le> 2 ^ 53"
  shows "map lot_int (fst (consume b lots (Fin (of_int n)))) = fst (consume_int b (map lot_int lots) n) \<and>
    (\<forall>l \<in> set (fst (consume b lots (Fin (of_int n)))). lot_qty l = Fin (of_int (lot_int l))) \<and>
    snd (consume b lots (Fin (of_int n))) = Fin (of_int (snd (consume_int b (map lot_int lots) n)))"
  using assms
proof (induction lots arbitrary: n)
  case (Cons l lots)
  define q where "q = lot_int l"
  have q: "lot_qty l = Fin (of_int q)" "\<bar>q\<bar> \<le> 2 ^ 53" using Cons.prems(1) by (auto simp: q_def)
  define p where "p = min n \<bar>q\<bar>"
  consider (finished) "n \<le> 0" | (own) "0 < n" "if b then 0 \<le> q else q \<le> 0"
    | (other) "0 < n" "if b then q < 0 else 0 < q"
    by (cases b; cases "n \<le> 0"; cases "0 \<le> q"; cases "q \<le> 0") auto
  then show ?case
  proof cases
    case own
    then have go: "consume b (l # lots) (Fin (of_int n)) = (let (ls', r) = consume b lots (Fin (of_int n)) in (l # ls', r))"
      "consume_int b (map lot_int (l # lots)) n = (let (qs', r) = consume_int b (map lot_int lots) n in (q # qs', r))"
      using q by (cases b; simp flip: q_def)+
    show ?thesis using Cons.IH [OF _ Cons.prems(2,3)] Cons.prems(1) unfolding go by (auto simp: split_beta Let_def q_def)
  next
    case other
    then have n: "0 < n" and side: "if b then q < 0 else 0 < q" by auto
    have p: "0 \<le> n - p" "n - p \<le> 2 ^ 53" "\<bar>q + p\<bar> \<le> 2 ^ 53 \<or> \<not> b" "\<bar>q - p\<bar> \<le> 2 ^ 53 \<or> b"
      using n side q(2) Cons.prems(3) by (auto simp: p_def split: if_splits)
    have part: "math_min (Fin (of_int n)) (if b then \<bar>Fin (of_int q)\<bar> else Fin (of_int q)) = Fin (of_int p)"
      using side math_min_int [of n "\<bar>q\<bar>"] by (auto simp: p_def split: if_splits)
    have rest: "Fin (of_int n) - Fin (of_int p) = Fin (of_int (n - p))" using p by (intro minus_int) simp
    have upd: "(if b then lot_qty l + Fin (of_int p) else lot_qty l - Fin (of_int p)) =
        Fin (of_int (if b then q + p else q - p))"
      using p plus_int [of q p] minus_int [of q p] by (auto simp: q(1))
    have IH: "map lot_int (fst (consume b lots (Fin (of_int (n - p))))) = fst (consume_int b (map lot_int lots) (n - p)) \<and>
        (\<forall>l \<in> set (fst (consume b lots (Fin (of_int (n - p))))). lot_qty l = Fin (of_int (lot_int l))) \<and>
        snd (consume b lots (Fin (of_int (n - p)))) = Fin (of_int (snd (consume_int b (map lot_int lots) (n - p))))"
      using Cons.prems(1) p by (intro Cons.IH) auto
    have go: "consume b (l # lots) (Fin (of_int n)) =
        (let (ls', r) = consume b lots (Fin (of_int (n - p)))
         in (l\<lparr> lot_qty := Fin (of_int (if b then q + p else q - p)) \<rparr> # ls', r))"
      using n side part rest upd by (cases b) (simp_all add: Let_def q(1) del: minus_jsnum_def)
    have goi: "consume_int b (map lot_int (l # lots)) n =
        (let (qs', r) = consume_int b (map lot_int lots) (n - p) in ((if b then q + p else q - p) # qs', r))"
      using n side by (cases b) (simp_all add: Let_def p_def flip: q_def)
    show ?thesis using IH unfolding go goi by (simp add: split_beta Let_def)
  next
    case finished
    then have "n = 0" using Cons.prems(2) by simp
    then show ?thesis using Cons.prems(1) by simp
  qed
qed simp

text \<open>A replayed trade, and the whole replay.\<close>

definition whole_tx :: "lot_tx \<Rightarrow> bool \<times> int \<Rightarrow> bool" where
  "whole_tx t bn \<longleftrightarrow> fst bn = (tx_side t = ''BUY'') \<and> tx_qty t = Fin (of_int (snd bn)) \<and> 0 < snd bn"

lemma abs_le_volume: "(x :: int) \<in> set xs \<Longrightarrow> \<bar>x\<bar> \<le> sum_list (map abs xs)"
  by (rule member_le_sum_list) auto

lemma replay_refines:
  assumes "whole_lots v lots" "whole_tx t (b, n)" "v + n \<le> 2 ^ 53"
  shows "map lot_int (replay_tx h lots t) = replay_int (map lot_int lots) (b, n)"
    and "whole_lots (v + n) (replay_tx h lots t)"
proof -
  have t: "tx_side t = ''BUY'' \<longleftrightarrow> b" "tx_qty t = Fin (of_int n)" "0 < n"
    using assms(2) by (auto simp: whole_tx_def)
  have lots: "\<forall>l \<in> set lots. lot_qty l = Fin (of_int (lot_int l))" "sum_list (map abs (map lot_int lots)) \<le> v"
    using assms(1) by (auto simp: whole_lots_def)
  have "\<bar>lot_int l\<bar> \<le> v" if "l \<in> set lots" for l
    using abs_le_volume [of "lot_int l" "map lot_int lots"] that lots(2) by auto
  moreover have v: "0 \<le> v" using lots(2) sum_list_nonneg [of "map abs (map lot_int lots)"] by fastforce
  ultimately have c: "map lot_int (fst (consume b lots (Fin (of_int n)))) = fst (consume_int b (map lot_int lots) n)"
    "\<forall>l \<in> set (fst (consume b lots (Fin (of_int n)))). lot_qty l = Fin (of_int (lot_int l))"
    "snd (consume b lots (Fin (of_int n))) = Fin (of_int (snd (consume_int b (map lot_int lots) n)))"
    using consume_refines [of lots n b] lots(1) t(3) assms(3) by fastforce+
  have o: "lot_qty (opened_lot h t b (Fin (of_int r))) = Fin (of_int (if b then r else - r))"
    "lot_int (opened_lot h t b (Fin (of_int r))) = (if b then r else - r)" for r
    by (simp_all add: opened_lot_def lot_int_def)
  show m: "map lot_int (replay_tx h lots t) = replay_int (map lot_int lots) (b, n)"
    using c o(2) by (simp add: replay_tx_def replay_int_def split_beta Let_def t)
  have "\<forall>l \<in> set (replay_tx h lots t). lot_qty l = Fin (of_int (lot_int l))"
    using c o by (auto simp: replay_tx_def split_beta Let_def t)
  moreover have "sum_list (map abs (map lot_int (replay_tx h lots t))) \<le> v + n"
    unfolding m using replay_int_volume [of "(b, n)" "map lot_int lots"] t(3) lots(2) by simp
  ultimately show "whole_lots (v + n) (replay_tx h lots t)" by (simp add: whole_lots_def)
qed

lemma whole_positive: "list_all2 whole_tx ts bns \<Longrightarrow> \<forall>bn \<in> set bns. 0 < snd bn"
  by (induction rule: list_all2_induct) (auto simp: whole_tx_def)

lemma replay_all_refines:
  assumes "list_all2 whole_tx ts bns" "whole_lots v lots" "v + sum_list (map snd bns) \<le> 2 ^ 53"
  shows "map lot_int (foldl (replay_tx h) lots ts) = foldl replay_int (map lot_int lots) bns \<and>
    whole_lots (v + sum_list (map snd bns)) (foldl (replay_tx h) lots ts)"
  using assms
proof (induction ts bns arbitrary: v lots rule: list_all2_induct)
  case (Cons t ts bn bns)
  obtain b n where bn: "bn = (b, n)" by fastforce
  have "0 \<le> x" if "x \<in> set (map snd bns)" for x
    using that whole_positive [OF Cons(2)] by fastforce
  then have "0 \<le> sum_list (map snd bns)" by (rule sum_list_nonneg)
  then have "v + n \<le> 2 ^ 53" using Cons.prems(2) bn by simp
  with replay_refines [OF Cons.prems(1), of t b n h] Cons(1) bn
  have r: "map lot_int (replay_tx h lots t) = replay_int (map lot_int lots) (b, n)"
    "whole_lots (v + n) (replay_tx h lots t)" by simp_all
  from Cons.IH [OF r(2)] Cons.prems(2) r(1) bn show ?case by (simp add: add.assoc)
qed simp

lemma replay_all_sum:
  assumes "\<forall>bn \<in> set bns. 0 < snd bn"
  shows "sum_list (foldl replay_int qs bns) = sum_list qs + sum_list (map (\<lambda>bn. side_sign (fst bn) * snd bn) bns)"
  using assms by (induction bns arbitrary: qs) (auto simp: replay_int_sum)

lemma replay_all_one_sided:
  assumes "one_sided qs" "\<forall>bn \<in> set bns. 0 < snd bn"
  shows "one_sided (foldl replay_int qs bns)"
  by (rule foldl_invariant_list [where P = one_sided, OF assms(1)])
    (use assms(2) in \<open>auto intro!: replay_int_one_sided\<close>)

section \<open>The lots of a holding add up to it\<close>

definition trade_int :: "lot_tx \<Rightarrow> bool \<times> int" where
  "trade_int t = (tx_side t = ''BUY'', case tx_qty t of Fin q \<Rightarrow> \<lfloor>q\<rfloor> | _ \<Rightarrow> 0)"

definition whole_trades :: "lot_tx list \<Rightarrow> bool" where
  "whole_trades ts \<longleftrightarrow> list_all (\<lambda>t. whole_tx t (trade_int t)) ts"

definition trade_volume :: "lot_tx list \<Rightarrow> int" where
  "trade_volume ts = sum_list (map (\<lambda>t. snd (trade_int t)) ts)"

definition trade_net :: "lot_tx list \<Rightarrow> int" where
  "trade_net ts = sum_list (map (\<lambda>t. side_sign (fst (trade_int t)) * snd (trade_int t)) ts)"

lemma suffix_of_take: "\<exists>k. suffix_of target net ts = take k ts"
proof (induction ts arbitrary: net)
  case (Cons t ts)
  from Cons [of "net + signed_qty t"] obtain k where "suffix_of target (net + signed_qty t) ts = take k ts" ..
  then show ?case
    by (cases "num_eq (net + signed_qty t) target")
      (auto simp: Let_def intro: exI [of _ 1] exI [of _ "Suc k"])
qed simp

lemma trade_volume_take: "whole_trades ts \<Longrightarrow> trade_volume (take k ts) \<le> trade_volume ts"
proof (induction ts arbitrary: k)
  case (Cons t ts)
  have "0 \<le> trade_volume ts" using Cons.prems
    unfolding trade_volume_def whole_trades_def by (intro sum_list_nonneg) (fastforce simp: list_all_iff whole_tx_def)
  with Cons show ?case by (cases k) (auto simp: trade_volume_def whole_trades_def whole_tx_def)
qed (simp add: trade_volume_def)

lemma trade_sort:
  "trade_volume (sort_by after ts) = trade_volume ts" "whole_trades (sort_by after ts) = whole_trades ts"
  "trade_volume (rev ts) = trade_volume ts" "whole_trades (rev ts) = whole_trades ts" "trade_net (rev ts) = trade_net ts"
proof -
  have "sum_list (map f (sort_by after ts)) = sum_list (map f ts)" for f :: "lot_tx \<Rightarrow> int"
    by (metis mset_map mset_sort_by sum_mset_sum_list)
  then show "trade_volume (sort_by after ts) = trade_volume ts" by (simp add: trade_volume_def)
  have "sum_list (map f (rev ts)) = sum_list (map f ts)" for f :: "lot_tx \<Rightarrow> int"
    by (induction ts) auto
  then show "trade_volume (rev ts) = trade_volume ts" "trade_net (rev ts) = trade_net ts"
    by (simp_all only: trade_volume_def trade_net_def)
qed (simp_all add: trade_volume_def whole_trades_def trade_net_def list_all_iff rev_map sum_list_rev)

lemma whole_list: "whole_trades ts \<Longrightarrow> list_all2 whole_tx ts (map trade_int ts)"
  by (simp add: whole_trades_def list_all_iff list_all2_conv_all_nth)

lemma whole_replay:
  assumes "whole_trades ts" "trade_volume ts \<le> 2 ^ 53"
  shows "map lot_int (foldl (replay_tx h) [] ts) = foldl replay_int [] (map trade_int ts)"
    and "whole_lots (trade_volume ts) (foldl (replay_tx h) [] ts)"
    and "sum_list (map lot_int (foldl (replay_tx h) [] ts)) = trade_net ts"
    and "one_sided (map lot_int (foldl (replay_tx h) [] ts))"
proof -
  have l: "list_all2 whole_tx ts (map trade_int ts)" using assms(1) by (rule whole_list)
  have "whole_lots 0 []" by (simp add: whole_lots_def)
  from replay_all_refines [OF l this, of h] assms(2)
  show r: "map lot_int (foldl (replay_tx h) [] ts) = foldl replay_int [] (map trade_int ts)"
    and "whole_lots (trade_volume ts) (foldl (replay_tx h) [] ts)"
    by (simp_all add: trade_volume_def o_def)
  note pos = whole_positive [OF l]
  show "sum_list (map lot_int (foldl (replay_tx h) [] ts)) = trade_net ts"
    unfolding r replay_all_sum [OF pos] by (simp add: trade_net_def o_def)
  show "one_sided (map lot_int (foldl (replay_tx h) [] ts))"
    unfolding r by (rule replay_all_one_sided [OF _ pos]) (simp add: one_sided_def)
qed

lemma net_qty_whole:
  assumes "whole_lots v lots" "v \<le> 2 ^ 53"
  shows "net_qty lots = Fin (of_int (sum_list (map lot_int lots)))"
proof -
  have "num_or (lot_qty l) (Fin 0) = Fin (of_int (lot_int l))" if "l \<in> set lots" for l
    using assms(1) that by (auto simp: whole_lots_def num_or_def)
  with sum_int_exact [of lots "\<lambda>l. num_or (lot_qty l) (Fin 0)" lot_int 0] assms
  show ?thesis by (auto simp: net_qty_def whole_lots_def o_def)
qed

lemma filter_zero:
  assumes "whole_lots v lots"
  shows "whole_lots v (filter (\<lambda>l. \<not> num_eq (lot_qty l) (Fin 0)) lots)"
    and "sum_list (map lot_int (filter (\<lambda>l. \<not> num_eq (lot_qty l) (Fin 0)) lots)) = sum_list (map lot_int lots)"
proof -
  have q: "\<forall>l \<in> set lots. lot_qty l = Fin (of_int (lot_int l))" using assms by (simp add: whole_lots_def)
  have "sum_list (map (\<lambda>l. f (lot_int l)) (filter (\<lambda>l. \<not> num_eq (lot_qty l) (Fin 0)) lots)) =
      sum_list (map (\<lambda>l. f (lot_int l)) lots)" if "f 0 = 0" for f :: "int \<Rightarrow> int"
    using q by (induction lots) (auto simp: that)
  from this [of abs] this [of "\<lambda>x. x"]
  show "whole_lots v (filter (\<lambda>l. \<not> num_eq (lot_qty l) (Fin 0)) lots)"
    "sum_list (map lot_int (filter (\<lambda>l. \<not> num_eq (lot_qty l) (Fin 0)) lots)) = sum_list (map lot_int lots)"
    using assms by (auto simp: whole_lots_def o_def)
qed

lemma close_gap_sum:
  assumes "whole_lots v lots" "hr_quantity h = Fin (of_int n)" "v + \<bar>n\<bar> \<le> 2 ^ 53"
  shows "\<forall>l \<in> set (close_gap h lots). lot_qty l = Fin (of_int (lot_int l))"
    and "sum_list (map lot_int (close_gap h lots)) = n"
proof -
  define ls where "ls = filter (\<lambda>l. \<not> num_eq (lot_qty l) (Fin 0)) lots"
  define s where "s = sum_list (map lot_int ls)"
  have w: "whole_lots v ls" unfolding ls_def by (rule filter_zero [OF assms(1)])
  have net: "net_qty ls = Fin (of_int s)" unfolding s_def by (rule net_qty_whole [OF w]) (use assms(3) in linarith)
  have "\<bar>s\<bar> \<le> sum_list (map abs (map lot_int ls))" unfolding s_def by (rule sum_list_abs)
  then have "\<bar>n - s\<bar> \<le> 2 ^ 53" using w assms(3) by (auto simp: whole_lots_def)
  then have delta: "hr_quantity h - net_qty ls = Fin (of_int (n - s))" unfolding net assms(2) by (rule minus_int)
  have syn: "lot_qty (synthetic_lot h (Fin (of_int m))) = Fin (of_int m)" "lot_int (synthetic_lot h (Fin (of_int m))) = m" for m
    by (simp_all add: synthetic_lot_def lot_int_def)
  note syn = syn [of "n - s", unfolded of_int_diff]
  have gap: "close_gap h lots = (if n = s then ls else ls @ [synthetic_lot h (Fin (of_int (n - s)))])"
    unfolding close_gap_def Let_def ls_def [symmetric] delta by (simp add: net assms(2))
  show "\<forall>l \<in> set (close_gap h lots). lot_qty l = Fin (of_int (lot_int l))"
    "sum_list (map lot_int (close_gap h lots)) = n"
    using w syn by (auto simp: gap whole_lots_def simp flip: s_def)
qed

lemma lots_add_up:
  assumes "whole_trades txs" "hr_quantity h = Fin (of_int n)" "trade_volume txs + \<bar>n\<bar> \<le> 2 ^ 53"
  shows "\<forall>l \<in> set (lots_of_holding dp la h txs). lot_qty l = Fin (of_int (lot_int l))"
    and "sum_list (map lot_int (lots_of_holding dp la h txs)) = n"
proof -
  obtain k where k: "suffix_of (hr_quantity h) (Fin 0) (sort_by (tx_after dp la) txs) = take k (sort_by (tx_after dp la) txs)"
    using suffix_of_take by blast
  define ts where "ts = rev (take k (sort_by (tx_after dp la) txs))"
  have w: "whole_trades ts" using assms(1) trade_sort(2) [of "tx_after dp la" txs]
    by (auto simp: ts_def trade_sort whole_trades_def list_all_iff dest: in_set_takeD)
  have "trade_volume ts \<le> trade_volume txs"
    using trade_volume_take [of "sort_by (tx_after dp la) txs" k] assms(1) by (simp add: ts_def trade_sort)
  then have "whole_lots (trade_volume ts) (foldl (replay_tx h) [] ts)" "trade_volume ts + \<bar>n\<bar> \<le> 2 ^ 53"
    using whole_replay(2) [OF w] assms(3) by auto
  from close_gap_sum [OF this(1) assms(2) this(2)]
  show "\<forall>l \<in> set (lots_of_holding dp la h txs). lot_qty l = Fin (of_int (lot_int l))"
    "sum_list (map lot_int (lots_of_holding dp la h txs)) = n"
    by (simp_all add: lots_of_holding_def k ts_def)
qed

text \<open>Where the newest trades explain the quantity, no synthetic lot is made.\<close>

lemma signed_whole: "whole_tx t (trade_int t) \<Longrightarrow> signed_qty t = Fin (of_int (side_sign (fst (trade_int t)) * snd (trade_int t)))"
  by (auto simp: whole_tx_def signed_qty_def side_sign_def)

lemma suffix_net:
  assumes "whole_trades ts" "\<bar>a\<bar> + trade_volume ts \<le> 2 ^ 53" "0 < k" "k \<le> length ts" "a + trade_net (take k ts) = n"
  shows "a + trade_net (suffix_of (Fin (of_int n)) (Fin (of_int a)) ts) = n"
  using assms
proof (induction ts arbitrary: a k)
  case (Cons t ts)
  define d where "d = side_sign (fst (trade_int t)) * snd (trade_int t)"
  have t: "whole_tx t (trade_int t)" "0 < snd (trade_int t)" using Cons.prems(1) by (auto simp: whole_trades_def whole_tx_def)
  have w: "whole_trades ts" using Cons.prems(1) by (simp add: whole_trades_def)
  have vol: "0 \<le> trade_volume ts" using trade_volume_take [OF w, of 0] by (simp add: trade_volume_def)
  have ad: "\<bar>a + d\<bar> + trade_volume ts \<le> 2 ^ 53" using Cons.prems(2) t(2)
    by (auto simp: d_def side_sign_def trade_volume_def split: if_splits)
  have net: "trade_net (t # us) = d + trade_net us" for us by (simp add: trade_net_def d_def)
  have plus: "Fin (of_int a) + signed_qty t = Fin (of_int (a + d))"
    using signed_whole [OF t(1)] plus_int [of a d] ad vol by (simp add: d_def)
  show ?case
  proof (cases "a + d = n")
    case True
    then have "suffix_of (Fin (of_int n)) (Fin (of_int a)) (t # ts) = [t]" using plus by (simp add: Let_def)
    with True show ?thesis by (simp add: net) (simp add: trade_net_def)
  next
    case False
    then have s: "suffix_of (Fin (of_int n)) (Fin (of_int a)) (t # ts) = t # suffix_of (Fin (of_int n)) (Fin (of_int (a + d))) ts"
      using plus by (simp add: Let_def del: of_int_add)
    obtain j where j: "k = Suc j" using Cons.prems(3) by (cases k) auto
    have aj: "a + d + trade_net (take j ts) = n" using Cons.prems(5) by (simp add: j net)
    then have "0 < j" using False by (cases j) (auto simp: trade_net_def)
    from Cons.IH [OF w ad this _ aj] Cons.prems(4) show ?thesis unfolding s net by (simp add: j)
  qed
qed simp

lemma replay_not_synthetic:
  "list_all (\<lambda>l. \<not> lot_synthetic l) lots \<Longrightarrow> list_all (\<lambda>l. \<not> lot_synthetic l) (replay_tx h lots t)"
proof -
  assume "list_all (\<lambda>l. \<not> lot_synthetic l) lots"
  then have "list_all (\<lambda>l. \<not> lot_synthetic l) (fst (consume b lots r))" for b r
    by (induction b lots r rule: consume.induct) (auto simp: Let_def split_beta)
  then show ?thesis by (simp add: replay_tx_def split_beta Let_def opened_lot_def)
qed

lemma explained_no_synthetic:
  assumes "whole_trades txs" "hr_quantity h = Fin (of_int n)" "trade_volume txs \<le> 2 ^ 53"
    and "0 < k" "k \<le> length txs" "trade_net (take k (sort_by (tx_after dp la) txs)) = n"
  shows "list_all (\<lambda>l. \<not> lot_synthetic l) (lots_of_holding dp la h txs)"
proof -
  let ?s = "sort_by (tx_after dp la) txs"
  define sf where "sf = suffix_of (hr_quantity h) (Fin 0) ?s"
  obtain j where j: "sf = take j ?s" unfolding sf_def using suffix_of_take by blast
  have len: "length ?s = length txs" by (metis mset_sort_by size_mset)
  have "0 + trade_net sf = n" unfolding sf_def assms(2)
    using suffix_net [of ?s 0 k n] assms len by (simp add: trade_sort)
  moreover have w: "whole_trades (rev sf)" using assms(1) trade_sort(2) [of "tx_after dp la" txs]
    by (auto simp: j trade_sort whole_trades_def list_all_iff dest: in_set_takeD)
  moreover have v: "trade_volume (rev sf) \<le> 2 ^ 53"
    using trade_volume_take [of ?s j] assms(1,3) by (simp add: j trade_sort)
  ultimately have sum: "sum_list (map lot_int (foldl (replay_tx h) [] (rev sf))) = n"
    using whole_replay(3) [OF w v, of h] by (simp add: trade_sort)
  have lots: "list_all (\<lambda>l. \<not> lot_synthetic l) (foldl (replay_tx h) [] (rev sf))"
    by (rule foldl_invariant_list) (auto intro: replay_not_synthetic)
  note ww = whole_replay(2) [OF w v, of h]
  have "net_qty (filter (\<lambda>l. \<not> num_eq (lot_qty l) (Fin 0)) (foldl (replay_tx h) [] (rev sf))) = Fin (of_int n)"
    using net_qty_whole [OF filter_zero(1) [OF ww] v] filter_zero(2) [OF ww] sum by simp
  then have "close_gap h (foldl (replay_tx h) [] (rev sf)) =
      filter (\<lambda>l. \<not> num_eq (lot_qty l) (Fin 0)) (foldl (replay_tx h) [] (rev sf))"
    by (simp add: close_gap_def Let_def assms(2))
  then show ?thesis using lots unfolding lots_of_holding_def sf_def [symmetric] by (simp add: list_all_iff)
qed

end
