(* ===== verification/Symbols.thy ===== *)
theory Symbols
  imports QuoteAuthority
begin

text \<open>
  The kinds of symbols, \<open>frontend/src/utils/constants.js\<close>: commodities, derivative contracts and
  the canonical form of a symbol, with the table of the chart periods.
\<close>

section \<open>Chart periods\<close>

record chart_period =
  cp_period :: string
  cp_interval :: string
  cp_label :: string
  cp_group :: string

definition chart_period_of :: "string \<Rightarrow> string \<Rightarrow> string \<Rightarrow> string \<Rightarrow> string \<times> chart_period" where
  "chart_period_of label period intv grp =
     (label, \<lparr> cp_period = period, cp_interval = intv, cp_label = label, cp_group = grp \<rparr>)"

definition chart_periods :: "(string \<times> chart_period) list" where
  "chart_periods =
     [chart_period_of ''1m'' ''5d'' ''1m'' ''intraday'', chart_period_of ''2m'' ''5d'' ''2m'' ''intraday'',
      chart_period_of ''3m'' ''5d'' ''3m'' ''intraday'', chart_period_of ''5m'' ''5d'' ''5m'' ''intraday'',
      chart_period_of ''15m'' ''5d'' ''15m'' ''intraday'', chart_period_of ''30m'' ''5d'' ''30m'' ''intraday'',
      chart_period_of ''1H'' ''1mo'' ''1h'' ''intraday'', chart_period_of ''4H'' ''6mo'' ''4h'' ''intraday'',
      chart_period_of ''1D'' ''1y'' ''1d'' ''daily'', chart_period_of ''1W'' ''5y'' ''1wk'' ''daily'',
      chart_period_of ''1M'' ''max'' ''1mo'' ''daily'', chart_period_of ''3M'' ''3mo'' ''1d'' ''extended'',
      chart_period_of ''6M'' ''6mo'' ''1d'' ''extended'', chart_period_of ''1Y'' ''1y'' ''1d'' ''extended'',
      chart_period_of ''3Y'' ''3y'' ''1d'' ''extended'', chart_period_of ''5Y'' ''5y'' ''1d'' ''extended'',
      chart_period_of ''MAX'' ''max'' ''1d'' ''extended'']"

section \<open>Commodities and contracts\<close>

definition mcx_symbols :: "string list" where
  "mcx_symbols = [''GOLD'', ''GOLDM'', ''GOLDGUINEA'', ''GOLDPETAL'', ''SILVER'', ''SILVERM'', ''SILVERMIC'',
     ''COPPER'', ''COPPERM'', ''CRUDEOIL'', ''CRUDEOILM'', ''NATURALGAS'', ''NATGASMINI'', ''ALUMINIUM'',
     ''ALUMINI'', ''ZINC'', ''ZINCMINI'', ''LEAD'', ''LEADMINI'', ''NICKEL'', ''COTTONCNDY'', ''KAPAS'', ''MENTHOIL'']"

definition default_mcx_watchlist :: "string list" where
  "default_mcx_watchlist = [''SILVERMIC'', ''CRUDEOIL'', ''NATURALGAS'', ''GOLD'', ''GOLDM'', ''SILVER'', ''SILVERM'',
     ''COPPER'', ''COPPERM'', ''ALUMINIUM'', ''ALUMINI'', ''ZINC'', ''ZINCMINI'', ''LEAD'', ''LEADMINI'',
     ''CRUDEOILM'', ''NATGASMINI'', ''GOLDGUINEA'', ''GOLDPETAL'', ''COTTONCNDY'', ''KAPAS'', ''MENTHOIL'']"

definition ncdex_symbols :: "string list" where
  "ncdex_symbols = [''COTTON'', ''CASTORSEED'', ''SOYBEAN'', ''GUARSEED'', ''RMSEED'', ''CHANA'', ''MENTHOIL'']"

definition commodity_symbols :: "string list" where
  "commodity_symbols = unique (mcx_symbols @ ncdex_symbols)"

definition is_commodity_symbol :: "string \<Rightarrow> bool" where
  "is_commodity_symbol s = (upper s \<in> set commodity_symbols)"

definition is_derivative_symbol :: "string \<Rightarrow> bool" where
  "is_derivative_symbol s =
     (let u = upper (trim s) in
      u \<noteq> [] \<and> \<not> starts_with u ''^'' \<and> (\<exists>c \<in> set u. is_digit c) \<and>
      (ends_with u ''CE'' \<or> ends_with u ''PE'' \<or> ends_with u ''FUT'' \<or> ends_with u ''F''))"

text \<open>\<open>normalizeSymbol\<close>; \<open>None\<close> for what is not a text or empty.\<close>

fun normalize_symbol :: "jsval \<Rightarrow> string option" where
  "normalize_symbol (JStr s) =
     (if s = [] then None
      else
        let raw = upper (trim s) in
        if starts_with raw ''^'' \<or> ends_with raw ''.NS'' \<or> ends_with raw ''.BO'' then Some raw
        else if is_commodity_symbol raw then Some raw
        else if is_derivative_symbol raw then Some raw
        else Some (raw @ ''.NS''))"
| "normalize_symbol _ = None"

section \<open>Lemmas\<close>

lemma trim_upper_idem: "upper (trim (upper (trim s))) = upper (trim s)"
proof -
  have "s = [] \<or> truthy (JStr s)" by (cases s) auto
  then have "symbol_text (JStr s) = upper (trim s)" by (auto simp: symbol_text_def js_or_def)
  moreover have "symbol_text (JStr x) = upper (trim x)" for x by (cases x) (auto simp: symbol_text_def js_or_def)
  ultimately show ?thesis using symbol_text_idem [of "JStr s"] by simp
qed

lemma rev_dropWhile_last: "rev (dropWhile P (rev xs)) = xs \<longleftrightarrow> xs = [] \<or> \<not> P (last xs)"
proof (cases xs rule: rev_cases)
  case (snoc ys y)
  have "length (rev (dropWhile P (rev ys))) \<le> length ys" using length_dropWhile_le [of P "rev ys"] by simp
  then have "rev (dropWhile P (rev ys)) \<noteq> ys @ [y]" by (metis Suc_n_not_le_n length_append_singleton)
  with snoc show ?thesis by simp
qed simp

lemma trim_fixed:
  "trim s = s \<longleftrightarrow> s = [] \<or> \<not> is_space (hd s) \<and> \<not> is_space (last s)"
proof (cases s)
  case (Cons c r)
  show ?thesis
  proof (cases "is_space c")
    case True
    have "length (trim s) \<le> length (dropWhile is_space s)"
      unfolding trim_def using length_dropWhile_le [of is_space "rev (dropWhile is_space s)"] by simp
    also have "\<dots> \<le> length r" using True Cons length_dropWhile_le [of is_space r] by simp
    finally have "trim s \<noteq> s" using Cons by auto
    with True Cons show ?thesis by simp
  next
    case False
    then have "dropWhile is_space s = s" using Cons by simp
    then show ?thesis using False Cons rev_dropWhile_last [of is_space s] by (simp add: trim_def)
  qed
qed (simp add: trim_def)

text \<open>Canonical symbols are canonical: normalising twice changes nothing.\<close>

lemma normalize_symbol_idem:
  assumes "normalize_symbol (JStr s) = Some t" "upper (trim s) \<noteq> []"
  shows "normalize_symbol (JStr t) = Some t"
proof -
  define raw where "raw = upper (trim s)"
  have fixp: "upper (trim raw) = raw" unfolding raw_def by (rule trim_upper_idem)
  consider "t = raw" "starts_with raw ''^'' \<or> ends_with raw ''.NS'' \<or> ends_with raw ''.BO'' \<or>
      is_commodity_symbol raw \<or> is_derivative_symbol raw" | (suffix) "t = raw @ ''.NS''"
    using assms(1) by (auto simp: raw_def Let_def split: if_splits)
  then show ?thesis
  proof cases
    case suffix
    have "trim raw = raw"
    proof -
      have "map upper_char (trim raw) = raw" using fixp by (simp add: upper_def)
      then have len: "length (trim raw) = length raw" by (metis length_map)
      obtain a where a: "raw = takeWhile is_space raw @ a" "a = dropWhile is_space raw" by (metis takeWhile_dropWhile_id)
      have "length (trim raw) \<le> length a" unfolding trim_def a(2) [symmetric]
        using length_dropWhile_le [of is_space "rev a"] by simp
      with len a(1) have tw: "takeWhile is_space raw = []" by (metis add_le_same_cancel2 le_zero_eq length_0_conv length_append)
      then have "a = raw" using a(1) by simp
      then have "trim raw = rev (dropWhile is_space (rev raw))" by (simp add: trim_def a(2))
      then show ?thesis using len by (metis append_self_conv2 length_0_conv length_append length_rev add_cancel_left_left
            rev_rev_ident takeWhile_dropWhile_id)
    qed
    then have hd: "\<not> is_space (hd raw)" using trim_fixed [of raw] assms(2) raw_def by auto
    have "\<not> is_space (CHR ''S'')" by (simp add: is_space_def)
    then have "trim t = t" using hd assms(2) unfolding trim_fixed suffix by (cases raw) (auto simp: raw_def)
    moreover have "upper raw = raw" using raw_def by simp
    ultimately have "upper (trim t) = t" by (simp add: suffix upper_def upper_char_def)
    then show ?thesis by (simp add: suffix Let_def ends_with_def)
  next
    case 1
    then show ?thesis using fixp assms(2) by (cases raw) (auto simp: raw_def Let_def)
  qed
qed

end
