(* ===== verification/MarketStore.thy ===== *)
theory MarketStore
  imports Symbols
begin

text \<open>
  The store of live quotes, \<open>frontend/src/store/useMarketStore.js\<close>. Its state is a record with
  the fields of the store; the object \<open>symbols\<close> is an association list in the order of
  insertion. \<open>Date.now()\<close> is the argument \<open>now\<close> and \<open>shouldUseRealtimePrices()\<close> the argument
  \<open>realtime\<close>.
\<close>

section \<open>Aliases and incoming quotes\<close>

definition store_suffix :: "string \<Rightarrow> string" where
  "store_suffix raw =
     (if has_exchange_suffix raw \<or> starts_with raw ''^'' \<or> is_commodity_symbol raw \<or> is_derivative_symbol raw
      then raw else raw @ ''.NS'')"

definition to_symbol_aliases :: "jsval \<Rightarrow> string list" where
  "to_symbol_aliases symbol =
     (let raw = symbol_text symbol in
      if raw = [] then []
      else filter (\<lambda>s. s \<noteq> []) (unique [raw, store_suffix raw, without_suffix (store_suffix raw)]))"

definition incoming_prev_close :: "jsobj \<Rightarrow> jsobj \<Rightarrow> jsnum option" where
  "incoming_prev_close raw existing =
     to_finite_number (nullish (first_field (JObj raw) [''prev_close'', ''prevClose'', ''previous_close'', ''close''])
       (own existing ''prev_close''))"

text \<open>The optional field of a spread \<open>...(n != null ? { k: n } : {})\<close>.\<close>

definition opt_field :: "string \<Rightarrow> jsnum option \<Rightarrow> jsobj" where
  "opt_field k n = (case n of Some x \<Rightarrow> [(k, JNum x)] | None \<Rightarrow> [])"

definition derived_prev_close :: "jsnum option \<Rightarrow> jsnum option \<Rightarrow> jsnum option \<Rightarrow> jsnum option" where
  "derived_prev_close prev price percent =
     (case prev of
        Some x \<Rightarrow> Some x
      | None \<Rightarrow>
          (case (price, percent) of
             (Some p, Some c) \<Rightarrow> if Fin 0 < Fin 1 + c / Fin 100 then Some (p / (Fin 1 + c / Fin 100)) else None
           | _ \<Rightarrow> None))"

definition derived_change :: "jsnum option \<Rightarrow> jsnum option \<Rightarrow> jsnum option \<Rightarrow> jsnum option" where
  "derived_change change price prev =
     (case change of
        Some x \<Rightarrow> Some x
      | None \<Rightarrow> (case (price, prev) of (Some p, Some c) \<Rightarrow> Some (p - c) | _ \<Rightarrow> None))"

definition derived_percent :: "jsnum option \<Rightarrow> jsnum option \<Rightarrow> jsnum option \<Rightarrow> jsnum option" where
  "derived_percent percent change prev =
     (case percent of
        Some x \<Rightarrow> Some x
      | None \<Rightarrow> (case (change, prev) of
           (Some d, Some c) \<Rightarrow> if Fin 0 < c then Some (d / c * Fin 100) else None | _ \<Rightarrow> None))"

definition normalize_incoming :: "jsobj \<Rightarrow> jsobj \<Rightarrow> jsobj" where
  "normalize_incoming raw existing =
     (let price = to_finite_number (first_field (JObj raw) [''price'', ''lp'', ''ltp'', ''last_price'', ''lastPrice'']);
          prev = incoming_prev_close raw existing;
          change = to_finite_number (first_field (JObj raw) [''change'', ''net_change'', ''netChange'']);
          percent = to_finite_number (first_field (JObj raw)
            [''change_percent'', ''changePercent'', ''pct_change'', ''pc'', ''pChange'', ''percent_change'']);
          d_prev = derived_prev_close prev price percent;
          d_change = derived_change change price d_prev;
          d_percent = derived_percent percent d_change d_prev
      in spread (spread existing raw)
           (opt_field ''price'' price @ opt_field ''change'' (map_option (fixed_num 2) d_change)
            @ opt_field ''change_percent'' (map_option (fixed_num 2) d_percent)
            @ opt_field ''prev_close'' (map_option (fixed_num 2) d_prev)))"

section \<open>The state and its updates\<close>

type_synonym quote_map = "(string \<times> jsobj) list"

record market_store =
  ms_symbols :: quote_map
  ms_watchlist :: "string list"
  ms_selected :: jsval
  ms_ws_status :: string
  ms_last_quote_at :: jsnum

definition initial_market_store :: market_store where
  "initial_market_store = \<lparr> ms_symbols = [], ms_watchlist = [], ms_selected = JNull,
     ms_ws_status = ''disconnected'', ms_last_quote_at = Fin 0 \<rparr>"

definition quote_at :: "quote_map \<Rightarrow> string \<Rightarrow> jsobj" where
  "quote_at syms key = (case map_of syms key of Some q \<Rightarrow> q | None \<Rightarrow> [])"

text \<open>A live quote of the last five seconds is kept against any source but \<open>live\<close> and \<open>eod\<close>.\<close>

definition live_protected :: "bool \<Rightarrow> jsnum \<Rightarrow> string \<Rightarrow> jsobj \<Rightarrow> bool" where
  "live_protected realtime now source existing =
     (source \<noteq> ''live'' \<and> source \<noteq> ''eod'' \<and> own existing ''_source'' = JStr ''live'' \<and> realtime \<and>
      now - to_number (js_or (own existing ''_updatedAt'') (JNum (Fin 0))) < Fin 5000)"

definition quote_fields :: "string list" where
  "quote_fields = [''price'', ''change'', ''change_percent'', ''bid_price'', ''ask_price'', ''volume'', ''oi'', ''high'', ''low'']"

definition quote_changed :: "jsobj \<Rightarrow> jsobj \<Rightarrow> bool" where
  "quote_changed existing merged = (\<exists>k \<in> set quote_fields. strict_neq (own existing k) (own merged k))"

definition merged_quote :: "jsnum \<Rightarrow> string \<Rightarrow> jsobj \<Rightarrow> jsobj \<Rightarrow> jsobj" where
  "merged_quote now source data existing =
     spread (normalize_incoming data existing) [(''_source'', JStr source), (''_updatedAt'', JNum now)]"

text \<open>
  The body of the loop over the aliases, which both updates share: \<open>checked\<close> is the source that
  \<open>shouldApplyQuoteSource\<close> sees.
\<close>

definition update_alias ::
  "bool \<Rightarrow> jsnum \<Rightarrow> bool \<Rightarrow> string \<Rightarrow> string \<Rightarrow> jsobj \<Rightarrow> string \<Rightarrow> quote_map \<times> bool \<Rightarrow> quote_map \<times> bool" where
  "update_alias realtime now commodity checked source data key st =
     (case st of (syms, changes) \<Rightarrow>
        let existing = quote_at syms key in
        if \<not> commodity \<and> \<not> should_apply_quote_source realtime (JStr checked) (JObj existing) then st
        else if live_protected realtime now source existing then st
        else
          let merged = merged_quote now source data existing in
          (AList.update key merged syms, changes \<or> quote_changed existing merged))"

text \<open>What both updates do after their loops.\<close>

definition finish_update :: "jsnum \<Rightarrow> string \<Rightarrow> quote_map \<times> bool \<Rightarrow> market_store \<Rightarrow> market_store" where
  "finish_update now source st s =
     (case st of (syms, changes) \<Rightarrow>
        if \<not> changes then (if source = ''live'' then s\<lparr> ms_last_quote_at := now \<rparr> else s)
        else s\<lparr> ms_symbols := syms,
                ms_last_quote_at := (if source = ''live'' then now else ms_last_quote_at s) \<rparr>)"

definition update_quote :: "bool \<Rightarrow> jsnum \<Rightarrow> jsval \<Rightarrow> jsobj \<Rightarrow> string \<Rightarrow> market_store \<Rightarrow> market_store" where
  "update_quote realtime now symbol data source s =
     (let aliases = to_symbol_aliases symbol in
      if aliases = [] then s
      else
        let commodity = list_ex is_commodity_symbol aliases;
            src = lower source
        in if \<not> realtime \<and> \<not> commodity \<and> \<not> is_authoritative_closed_quote_source (JStr src) then s
           else finish_update now source
             (fold (update_alias realtime now commodity source source data) aliases (ms_symbols s, False)) s)"

definition batch_entry ::
  "bool \<Rightarrow> jsnum \<Rightarrow> string \<Rightarrow> string \<times> jsobj \<Rightarrow> quote_map \<times> bool \<Rightarrow> quote_map \<times> bool" where
  "batch_entry realtime now source entry st =
     (case entry of (symbol, data) \<Rightarrow>
        let aliases = to_symbol_aliases (JStr symbol) in
        fold (update_alias realtime now (list_ex is_commodity_symbol aliases) (lower source) source data) aliases st)"

definition batch_update_quotes :: "bool \<Rightarrow> jsnum \<Rightarrow> (string \<times> jsobj) list \<Rightarrow> string \<Rightarrow> market_store \<Rightarrow> market_store" where
  "batch_update_quotes realtime now quotes source s =
     (if quotes = [] then s
      else
        let commodity_batch = list_ex (\<lambda>(symbol, data). is_commodity_symbol symbol) quotes in
        if \<not> realtime \<and> \<not> commodity_batch \<and> \<not> is_authoritative_closed_quote_source (JStr (lower source)) then s
        else finish_update now source (fold (batch_entry realtime now source) quotes (ms_symbols s, False)) s)"

definition set_selected_symbol :: "jsval \<Rightarrow> market_store \<Rightarrow> market_store" where
  "set_selected_symbol symbol s = s\<lparr> ms_selected := symbol \<rparr>"

definition set_watchlist :: "string list \<Rightarrow> market_store \<Rightarrow> market_store" where
  "set_watchlist symbols s = s\<lparr> ms_watchlist := symbols \<rparr>"

definition add_to_watchlist :: "string \<Rightarrow> market_store \<Rightarrow> market_store" where
  "add_to_watchlist symbol s =
     s\<lparr> ms_watchlist := (if symbol \<in> set (ms_watchlist s) then ms_watchlist s else ms_watchlist s @ [symbol]) \<rparr>"

definition remove_from_watchlist :: "string \<Rightarrow> market_store \<Rightarrow> market_store" where
  "remove_from_watchlist symbol s = s\<lparr> ms_watchlist := filter (\<lambda>x. x \<noteq> symbol) (ms_watchlist s) \<rparr>"

definition set_ws_status :: "string \<Rightarrow> market_store \<Rightarrow> market_store" where
  "set_ws_status status s = s\<lparr> ms_ws_status := status \<rparr>"

section \<open>Lemmas\<close>

lemma aliases_iff: "to_symbol_aliases s = [] \<longleftrightarrow> symbol_text s = []"
proof (cases "symbol_text s = []")
  case False
  then have "symbol_text s \<in> set (to_symbol_aliases s)" by (simp add: to_symbol_aliases_def Let_def)
  then show ?thesis using False by auto
qed (simp add: to_symbol_aliases_def)

lemma store_aliases_distinct: "distinct (to_symbol_aliases s)"
  by (simp add: to_symbol_aliases_def Let_def)

text \<open>What one pass of the loop makes of the quote under its key.\<close>

definition next_quote ::
  "bool \<Rightarrow> jsnum \<Rightarrow> bool \<Rightarrow> string \<Rightarrow> string \<Rightarrow> jsobj \<Rightarrow> jsobj option \<Rightarrow> jsobj option" where
  "next_quote realtime now commodity checked source data q =
     (let existing = (case q of Some q' \<Rightarrow> q' | None \<Rightarrow> []) in
      if \<not> commodity \<and> \<not> should_apply_quote_source realtime (JStr checked) (JObj existing) \<or>
         live_protected realtime now source existing then q
      else Some (merged_quote now source data existing))"

interpretation quote_writes: keywise_store
  "update_alias realtime now commodity checked source data" "\<lambda>st. map_of (fst st)"
  "next_quote realtime now commodity checked source data"
  for realtime now commodity checked source data
  by unfold_locales (auto simp: update_alias_def next_quote_def quote_at_def Let_def update_conv' split: prod.split)

definition admitted :: "bool \<Rightarrow> jsnum \<Rightarrow> bool \<Rightarrow> string \<Rightarrow> string \<Rightarrow> jsobj \<Rightarrow> bool" where
  "admitted realtime now commodity checked source existing \<longleftrightarrow>
     (commodity \<or> should_apply_quote_source realtime (JStr checked) (JObj existing)) \<and>
     \<not> live_protected realtime now source existing"

text \<open>The flag of the loop says whether some admitted quote differs from the one it replaces.\<close>

lemma changes_iff:
  assumes "distinct ks"
  shows "snd (fold (update_alias realtime now commodity checked source data) ks (syms, c)) \<longleftrightarrow>
    c \<or> (\<exists>k \<in> set ks. admitted realtime now commodity checked source (quote_at syms k) \<and>
      quote_changed (quote_at syms k) (merged_quote now source data (quote_at syms k)))"
  using assms
proof (induction ks arbitrary: syms c)
  case (Cons k ks)
  obtain syms' c' where st: "update_alias realtime now commodity checked source data k (syms, c) = (syms', c')" by fastforce
  have "quote_at syms' j = quote_at syms j" if "j \<noteq> k" for j
    using quote_writes.look_put [of realtime now commodity checked source data k "(syms, c)" j] st that
    by (simp add: quote_at_def)
  then have same: "quote_at syms' j = quote_at syms j" if "j \<in> set ks" for j
    using that Cons.prems by (cases "j = k") auto
  have c': "c' \<longleftrightarrow> c \<or> admitted realtime now commodity checked source (quote_at syms k) \<and>
      quote_changed (quote_at syms k) (merged_quote now source data (quote_at syms k))"
    using st by (auto simp: update_alias_def admitted_def Let_def split: if_splits)
  show ?case using Cons.prems by (simp add: st Cons.IH same c')
qed simp

lemma protected_stays:
  assumes "live_protected realtime now source (quote_at syms k)" "map_of syms k = Some q"
  shows "map_of (fst (fold (update_alias realtime now commodity checked source data) ks (syms, c))) k = Some q"
  using quote_writes.puts_fixed [of realtime now commodity checked source data "(syms, c)" k ks] assms
  by (simp add: next_quote_def quote_at_def)

lemma protected_known: "live_protected realtime now source (quote_at syms k) \<Longrightarrow> \<exists>q. map_of syms k = Some q"
  by (auto simp: live_protected_def quote_at_def split: option.splits)

lemma finish_symbols: "ms_symbols (finish_update now source st s) = (if snd st then fst st else ms_symbols s)"
  by (simp add: finish_update_def split: prod.split)

text \<open>A live quote of the last five seconds is not replaced, by a single update or by a batch.\<close>

lemma live_stays:
  assumes "live_protected realtime now source (quote_at (ms_symbols s) k)"
  shows "map_of (ms_symbols (update_quote realtime now symbol data source s)) k = map_of (ms_symbols s) k"
    and "map_of (ms_symbols (batch_update_quotes realtime now quotes source s)) k = map_of (ms_symbols s) k"
proof -
  obtain q where q: "map_of (ms_symbols s) k = Some q" using protected_known [OF assms] by blast
  have rt: "realtime" using assms by (simp add: live_protected_def)
  show "map_of (ms_symbols (update_quote realtime now symbol data source s)) k = map_of (ms_symbols s) k"
    using protected_stays [OF assms q] q rt by (simp add: update_quote_def finish_symbols Let_def)
  have p: "live_protected realtime now source q" using assms q by (simp add: quote_at_def)
  have "map_of (fst (fold (batch_entry realtime now source) quotes (ms_symbols s, False))) k = Some q"
  proof (rule fold_invariant_list [where P = "\<lambda>st. map_of (fst st) k = Some q"])
    fix e and st :: "quote_map \<times> bool" assume st: "map_of (fst st) k = Some q"
    then have "live_protected realtime now source (quote_at (fst st) k)" using p by (simp add: quote_at_def)
    from protected_stays [OF this st, of _ _ _ _ "snd st"]
    show "map_of (fst (batch_entry realtime now source e st)) k = Some q"
      by (simp add: batch_entry_def split_beta Let_def)
  qed (simp add: q)
  then show "map_of (ms_symbols (batch_update_quotes realtime now quotes source s)) k = map_of (ms_symbols s) k"
    using q rt by (simp add: batch_update_quotes_def finish_symbols Let_def)
qed

subsection \<open>A live tick\<close>

definition tick_price :: "jsobj \<Rightarrow> jsnum option" where
  "tick_price data = to_finite_number (first_field (JObj data) [''price'', ''lp'', ''ltp'', ''last_price'', ''lastPrice''])"

lemma own_merged_price: "tick_price data = Some p \<Longrightarrow> own (merged_quote now source data ex) ''price'' = JNum p"
  by (auto simp: merged_quote_def normalize_incoming_def Let_def own_spread own_Cons tick_price_def opt_field_def
      split: option.split)

lemma strict_same: "\<not> strict_neq a (JNum (Fin x)) \<Longrightarrow> a = JNum (Fin x)"
  by (cases "(a, JNum (Fin x))" rule: strict_neq.cases) (auto simp: num_eq_def split: jsnum.splits)

text \<open>Where every quote is admitted, the price of an update is read under every alias of its symbol.\<close>

lemma admitted_seen:
  assumes k: "k \<in> set ks" and p: "tick_price data = Some p" and ks: "distinct ks"
    and adm: "\<And>ex. admitted realtime now commodity checked source ex"
  shows "own (quote_at (ms_symbols (finish_update now source
      (fold (update_alias realtime now commodity checked source data) ks (ms_symbols s, False)) s)) k) ''price'' = JNum p"
proof -
  let ?st = "fold (update_alias realtime now commodity checked source data) ks (ms_symbols s, False)"
  let ?ex = "quote_at (ms_symbols s) k"
  show ?thesis
  proof (cases "snd ?st")
    case True
    have "map_of (fst ?st) k = Some (merged_quote now source data ?ex)"
      using quote_writes.look_puts [OF ks, of realtime now commodity checked source data "(ms_symbols s, False)" k] k adm
      by (auto simp: next_quote_def admitted_def quote_at_def Let_def)
    then show ?thesis using True own_merged_price [OF p] by (simp add: finish_symbols quote_at_def)
  next
    case False
    have "\<not> quote_changed ?ex (merged_quote now source data ?ex)"
      using False k adm unfolding changes_iff [OF ks] by blast
    then have "\<not> strict_neq (own ?ex ''price'') (JNum p)"
      by (simp add: quote_changed_def quote_fields_def own_merged_price [OF p])
    moreover obtain x where "p = Fin x"
      using p unfolding tick_price_def to_finite_number_def Let_def
      by (metis is_finite_iff option.distinct(1) option.inject)
    ultimately show ?thesis using False strict_same by (simp add: finish_symbols)
  qed
qed

text \<open>In an open session this is so for a live tick, in any session for a batch of closes.\<close>

lemma live_tick_seen:
  assumes "k \<in> set (to_symbol_aliases symbol)" "tick_price data = Some p"
  shows "own (quote_at (ms_symbols (update_quote True now symbol data ''live'' s)) k) ''price'' = JNum p"
proof -
  have "admitted True now commodity ''live'' ''live'' ex" for commodity ex
    by (simp add: admitted_def should_apply_quote_source_def live_protected_def)
  from admitted_seen [OF assms store_aliases_distinct this] assms(1)
  show ?thesis by (auto simp: update_quote_def Let_def)
qed

lemma eod_quote_seen:
  assumes "k \<in> set (to_symbol_aliases (JStr symbol))" "tick_price data = Some p"
  shows "own (quote_at (ms_symbols (batch_update_quotes realtime now [(symbol, data)] ''eod'' s)) k) ''price'' = JNum p"
proof -
  have low: "lower ''eod'' = ''eod''" by (simp add: lower_def lower_char_def)
  have auth: "is_authoritative_closed_quote_source (JStr ''eod'')"
    by (simp add: is_authoritative_closed_quote_source_def closed_auth_quote_sources_def lower_text_def low)
  have "admitted realtime now commodity ''eod'' ''eod'' ex" for commodity ex
    using auth by (simp add: admitted_def should_apply_quote_source_def live_protected_def lower_text_def low)
  from admitted_seen [OF assms store_aliases_distinct this] assms(1)
  show ?thesis by (auto simp: batch_update_quotes_def batch_entry_def Let_def low auth)
qed

text \<open>A batch of one quote is a single update.\<close>

lemma batch_of_one:
  assumes "symbol_text (JStr symbol) \<noteq> []"
  shows "batch_update_quotes True now [(symbol, data)] source s = update_quote True now (JStr symbol) data source s"
proof -
  have "update_alias True now com (lower source) source data = update_alias True now com source source data" for com
    by (simp add: fun_eq_iff update_alias_def should_apply_quote_source_def)
  then show ?thesis using assms
    by (simp add: batch_update_quotes_def update_quote_def batch_entry_def Let_def aliases_iff)
qed

text \<open>The watchlist has no symbol twice.\<close>

lemma watchlist_distinct:
  "distinct (ms_watchlist s) \<Longrightarrow> distinct (ms_watchlist (add_to_watchlist symbol s))"
  "distinct (ms_watchlist s) \<Longrightarrow> distinct (ms_watchlist (remove_from_watchlist symbol s))"
  by (simp_all add: add_to_watchlist_def remove_from_watchlist_def)

end
