(* ===== verification/WatchlistStore.thy ===== *)
theory WatchlistStore
  imports MarketStore "HOL-Library.Multiset"
begin

text \<open>
  The watchlists of a user, \<open>frontend/src/stores/useWatchlistStore.js\<close> without its quotes. A
  watchlist is the object the server sends; \<open>{ ...w, items }\<close> is \<open>with_items\<close>. An operation that
  waits for the server is split where it waits: the part before the request, and what it does with
  the answer, so that the interleavings of operations are sequences of parts. \<open>localStorage\<close> is the
  field \<open>ws_stored\<close>, and \<open>ws_can_store\<close> says whether it accepts writes. \<open>Date.now()\<close> in the id of a
  new item is an argument. Toasts are not modelled.
\<close>

section \<open>Symbols of a watchlist\<close>

text \<open>\<open>String(v || '')\<close>.\<close>

definition text_of :: "jsval \<Rightarrow> string" where
  "text_of v = to_string (js_or v (JStr []))"

definition legacy_watchlist_names :: "string list" where
  "legacy_watchlist_names = [''my watchlist'', ''bank nifty'', ''nifty pharma'', ''nifty auto'', ''nifty fmcg'',
     ''nifty metal'', ''nifty next 50'', ''india vix'']"

definition normalize_watchlist_name :: "jsval \<Rightarrow> string" where
  "normalize_watchlist_name name = lower (trim (text_of name))"

definition index_watchlist_names :: "string list" where
  "index_watchlist_names = [''nifty 50'', ''banknifty'', ''sensex'']"

definition index_watchlist_exchanges :: "(string \<times> string) list" where
  "index_watchlist_exchanges = [(''nifty 50'', ''NSE''), (''banknifty'', ''NSE''), (''sensex'', ''BSE'')]"

definition is_legacy_watchlist :: "jsobj \<Rightarrow> bool" where
  "is_legacy_watchlist w = (normalize_watchlist_name (own w ''name'') \<in> set legacy_watchlist_names)"

definition sanitize_watchlists :: "jsobj list \<Rightarrow> jsobj list" where
  "sanitize_watchlists ws = filter (\<lambda>w. \<not> is_legacy_watchlist w) ws"

definition ensure_ns_suffix :: "jsval \<Rightarrow> string" where
  "ensure_ns_suffix symbol =
     (let base = trim (text_of symbol) in
      if base = [] then []
      else if starts_with base ''^'' \<or> ends_with base ''.NS'' \<or> ends_with base ''.BO'' \<or> is_commodity_symbol base
      then upper base
      else upper base @ ''.NS'')"

text \<open>The pattern of \<open>stripExchangeSuffix\<close> ignores the case, so the text is raised first here.\<close>

definition strip_exchange_suffix :: "jsval \<Rightarrow> string" where
  "strip_exchange_suffix symbol = without_suffix (upper (text_of symbol))"

definition is_local_watchlist_id :: "jsval \<Rightarrow> bool" where
  "is_local_watchlist_id i = (starts_with (text_of i) ''local_'' \<or> starts_with (text_of i) ''idx_'')"

definition watchlist_symbol_key :: "jsval \<Rightarrow> string" where
  "watchlist_symbol_key symbol =
     (let s = strip_exchange_suffix symbol in if starts_with s ''^'' then drop 1 s else s)"

definition canonical_watchlist_symbol :: "jsval \<Rightarrow> jsval \<Rightarrow> string" where
  "canonical_watchlist_symbol symbol exchange =
     (let raw = trim (text_of symbol); up = upper raw in
      if raw = [] then []
      else if upper (to_string (js_or exchange (JStr ''NSE''))) = ''MCX'' \<or> starts_with up ''^'' \<or>
        ends_with up ''.NS'' \<or> ends_with up ''.BO'' then up
      else ensure_ns_suffix (JStr up))"

definition index_watchlist_exchange :: "jsval \<Rightarrow> string option" where
  "index_watchlist_exchange name = map_of index_watchlist_exchanges (normalize_watchlist_name name)"

definition append_exchange_suffix :: "jsval \<Rightarrow> jsval \<Rightarrow> string" where
  "append_exchange_suffix symbol exchange =
     (let base = strip_exchange_suffix symbol in
      if base = [] then []
      else if upper (to_string (js_or exchange (JStr ''NSE''))) = ''BSE'' then base @ ''.BO'' else base @ ''.NS'')"

definition non_empty_or :: "string \<Rightarrow> string \<Rightarrow> string" where
  "non_empty_or a b = (if a = [] then b else a)"

definition normalize_item :: "jsval \<Rightarrow> jsval" where
  "normalize_item item =
     JObj (set_field ''symbol''
       (JStr (non_empty_or (canonical_watchlist_symbol (field item ''symbol'') (js_or (field item ''exchange'') (JStr ''NSE'')))
          (upper (text_of (field item ''symbol'')))))
       (fields_of item))"

text \<open>\<open>{ ...w, items }\<close> and the items of a watchlist.\<close>

definition with_items :: "jsval list \<Rightarrow> jsobj \<Rightarrow> jsobj" where
  "with_items items w = set_field ''items'' (JArr items) w"

definition items_of :: "jsobj \<Rightarrow> jsval list" where
  "items_of w = elements (own w ''items'')"

definition exchange_item :: "string \<Rightarrow> jsval \<Rightarrow> jsval" where
  "exchange_item exchange item =
     JObj (spread (fields_of item)
       [(''symbol'', JStr (non_empty_or (append_exchange_suffix (field item ''symbol'') (JStr exchange))
           (upper (text_of (field item ''symbol''))))),
        (''exchange'', JStr exchange)])"

definition normalize_watchlist :: "jsobj \<Rightarrow> jsobj" where
  "normalize_watchlist w =
     (let is_index = (normalize_watchlist_name (own w ''name'') \<in> set index_watchlist_names);
          items = map normalize_item (items_of w)
      in with_items
           (case index_watchlist_exchange (own w ''name'') of
              Some ex \<Rightarrow> if is_index then map (exchange_item ex) items else items
            | None \<Rightarrow> items) w)"

definition normalize_watchlists :: "jsobj list \<Rightarrow> jsobj list" where
  "normalize_watchlists ws = map normalize_watchlist (sanitize_watchlists ws)"

text \<open>\<open>toIndexWatchlistId\<close>: what is neither a letter nor a digit becomes an underscore, runs of it one.\<close>

definition is_word_char :: "char \<Rightarrow> bool" where
  "is_word_char c = (let n = of_char c :: nat in (97 \<le> n \<and> n \<le> 122) \<or> (48 \<le> n \<and> n \<le> 57))"

fun underscore_runs :: "bool \<Rightarrow> string \<Rightarrow> string" where
  "underscore_runs in_run [] = []"
| "underscore_runs in_run (c # s) =
     (if is_word_char c then c # underscore_runs False s
      else if in_run then underscore_runs True s else CHR ''_'' # underscore_runs True s)"

definition index_watchlist_id :: "jsval \<Rightarrow> string" where
  "index_watchlist_id key =
     (let squashed = underscore_runs False (lower (trim (text_of key)));
          is_bar = (\<lambda>c. c = CHR ''_'');
          safe = rev (dropWhile is_bar (rev (dropWhile is_bar squashed)))
      in ''idx_'' @ non_empty_or safe ''custom'')"

section \<open>State\<close>

record watchlist_store =
  ws_lists :: "jsobj list"
  ws_active :: jsval
  ws_loading :: bool
  ws_stored :: "(jsobj list \<times> jsval) option"
  ws_can_store :: bool

definition initial_watchlists :: "(jsobj list \<times> jsval) option \<Rightarrow> bool \<Rightarrow> watchlist_store" where
  "initial_watchlists stored can_store =
     \<lparr> ws_lists = [], ws_active = JNull, ws_loading = False, ws_stored = stored, ws_can_store = can_store \<rparr>"

text \<open>\<open>persistToStorage(watchlists, activeId)\<close> with the lists and the id the state has.\<close>

definition persist_lists :: "jsobj list \<Rightarrow> jsval \<Rightarrow> watchlist_store \<Rightarrow> watchlist_store" where
  "persist_lists ws active s = (if ws_can_store s then s\<lparr> ws_stored := Some (ws, active) \<rparr> else s)"

definition persist_state :: "watchlist_store \<Rightarrow> watchlist_store" where
  "persist_state s = persist_lists (ws_lists s) (ws_active s) s"

definition js_same :: "jsval \<Rightarrow> jsval \<Rightarrow> bool" where
  "js_same a b = (\<not> strict_neq a b)"

definition wl_id :: "jsobj \<Rightarrow> jsval" where
  "wl_id w = own w ''id''"

definition find_list :: "jsval \<Rightarrow> jsobj list \<Rightarrow> jsobj option" where
  "find_list i ws = find (\<lambda>w. js_same (wl_id w) i) ws"

primrec find_index :: "('a \<Rightarrow> bool) \<Rightarrow> 'a list \<Rightarrow> nat option" where
  "find_index P [] = None"
| "find_index P (x # xs) = (if P x then Some 0 else map_option Suc (find_index P xs))"

text \<open>\<open>watchlists.map(w => w.id === id ? { ...w, items: f(w.items) } : w)\<close>.\<close>

definition map_list :: "jsval \<Rightarrow> (jsobj \<Rightarrow> jsobj) \<Rightarrow> jsobj list \<Rightarrow> jsobj list" where
  "map_list i f ws = map (\<lambda>w. if js_same (wl_id w) i then f w else w) ws"

definition map_items :: "(jsval list \<Rightarrow> jsval list) \<Rightarrow> jsobj \<Rightarrow> jsobj" where
  "map_items f w = with_items (f (items_of w)) w"

definition set_lists :: "jsobj list \<Rightarrow> watchlist_store \<Rightarrow> watchlist_store" where
  "set_lists ws s = s\<lparr> ws_lists := ws \<rparr>"

section \<open>Loading\<close>

text \<open>
  \<open>loadWatchlist\<close> up to the request and after it. \<open>served\<close> is the list the server sends, \<open>None\<close>
  where the request fails; \<open>created\<close> the answer to the creation of a first watchlist; \<open>stamp\<close> the
  clock in the id of a local one.
\<close>

definition begin_load :: "watchlist_store \<Rightarrow> watchlist_store" where
  "begin_load s =
     (let s' = s\<lparr> ws_loading := True \<rparr> in
      case ws_stored s of
        Some (cached, cached_active) \<Rightarrow>
          if cached = [] then s'
          else
            let ws = normalize_watchlists cached in
            s'\<lparr> ws_lists := ws,
                ws_active := (if list_ex (\<lambda>w. js_same (wl_id w) cached_active) ws then cached_active
                  else case ws of w # _ \<Rightarrow> nullish (wl_id w) JNull | [] \<Rightarrow> JNull) \<rparr>
      | None \<Rightarrow> s')"

definition local_default :: "string \<Rightarrow> jsobj" where
  "local_default stamp = [(''id'', JStr (''local_'' @ stamp)), (''name'', JStr ''Watchlist 1''), (''items'', JArr [])]"

definition show_lists :: "jsobj list \<Rightarrow> jsval \<Rightarrow> watchlist_store \<Rightarrow> watchlist_store" where
  "show_lists ws active s = persist_lists ws active (s\<lparr> ws_lists := ws, ws_active := active \<rparr>)"

definition load_fallback :: "(jsobj list \<times> jsval) option \<Rightarrow> string \<Rightarrow> watchlist_store \<Rightarrow> watchlist_store" where
  "load_fallback cached stamp s =
     (if (case cached of Some (ws, _) \<Rightarrow> ws = [] | None \<Rightarrow> True)
      then show_lists [local_default stamp] (wl_id (local_default stamp)) s else s)"

definition finish_load ::
  "(jsobj list \<times> jsval) option \<Rightarrow> jsobj list option \<Rightarrow> jsobj option \<Rightarrow> string \<Rightarrow> watchlist_store \<Rightarrow> watchlist_store" where
  "finish_load cached served created stamp s =
     (let s' =
        (case served of
           None \<Rightarrow> load_fallback cached stamp s
         | Some raw \<Rightarrow>
             (case normalize_watchlists raw of
                w # ws \<Rightarrow>
                  let active = (case cached of
                        Some (_, a) \<Rightarrow> if truthy a \<and> list_ex (\<lambda>v. js_same (wl_id v) a) (w # ws) then a else wl_id w
                      | None \<Rightarrow> wl_id w)
                  in show_lists (w # ws) active s
              | [] \<Rightarrow>
                  (case created of
                     Some data \<Rightarrow> let new = with_items [] data in show_lists [new] (wl_id new) s
                   | None \<Rightarrow> load_fallback cached stamp s)))
      in s'\<lparr> ws_loading := False \<rparr>)"

section \<open>Lists\<close>

definition set_active_watchlist :: "jsval \<Rightarrow> watchlist_store \<Rightarrow> watchlist_store" where
  "set_active_watchlist i s = persist_state (s\<lparr> ws_active := i \<rparr>)"

text \<open>\<open>createWatchlist\<close> after its request; nothing is set before it.\<close>

definition create_watchlist :: "string \<Rightarrow> jsobj option \<Rightarrow> watchlist_store \<Rightarrow> watchlist_store" where
  "create_watchlist name answer s =
     (if trim name = [] then s
      else case answer of
        Some data \<Rightarrow>
          let new = with_items [] data in
          persist_state (s\<lparr> ws_lists := ws_lists s @ [new], ws_active := wl_id new \<rparr>)
      | None \<Rightarrow> s)"

definition index_items :: "string \<Rightarrow> string \<Rightarrow> jsval list \<Rightarrow> jsval list" where
  "index_items i exchange symbols =
     (let syms = unique (filter (\<lambda>x. x \<noteq> []) (map (\<lambda>v. append_exchange_suffix v (JStr exchange)) symbols)) in
      map (\<lambda>(n, x). JObj [(''id'', JStr (i @ ''_'' @ number_to_string (num_of_nat n))), (''symbol'', JStr x),
          (''exchange'', JStr exchange)]) (zip [0..<length syms] syms))"

definition open_index_watchlist :: "jsval \<Rightarrow> jsval \<Rightarrow> jsval list \<Rightarrow> watchlist_store \<Rightarrow> watchlist_store" where
  "open_index_watchlist key label symbols s =
     (let i = index_watchlist_id (js_or key label);
          name = non_empty_or (trim (to_string (js_or label (JStr ''Index'')))) ''Index'';
          exchange = (case index_watchlist_exchange (js_or key label) of Some e \<Rightarrow> e | None \<Rightarrow> ''NSE'');
          items = index_items i exchange symbols;
          w = [(''id'', JStr i), (''name'', JStr name), (''items'', JArr items), (''isLocalIndex'', JBool True)]
      in if items = [] then s
         else persist_state (s\<lparr> ws_lists :=
             (case find_index (\<lambda>v. js_same (wl_id v) (JStr i)) (ws_lists s) of
                Some n \<Rightarrow> (ws_lists s)[n := w] | None \<Rightarrow> ws_lists s @ [w]),
           ws_active := JStr i \<rparr>))"

section \<open>Operations that wait for the server\<close>

text \<open>What an operation has captured while its request is under way.\<close>

datatype pending =
  PendingRename jsval
| PendingDelete "jsobj list" jsval "jsobj list" jsval
| PendingAdd jsval string string
| PendingRemove jsval "jsobj list"

definition rename_watchlist :: "jsval \<Rightarrow> string \<Rightarrow> watchlist_store \<Rightarrow> watchlist_store \<times> pending option" where
  "rename_watchlist i name s =
     (if \<not> truthy i \<or> trim name = [] then (s, None)
      else
        let s' = set_lists (map_list i (set_field ''name'' (JStr (trim name))) (ws_lists s)) s in
        if is_local_watchlist_id i then (persist_state s', None) else (s', Some (PendingRename i)))"

text \<open>
  \<open>deleteWatchlist\<close>; the pending part holds what is left with the new active id, and what was there
  with the old one. Where nothing would be left the read of \<open>remaining[0].id\<close> throws before a change.
\<close>

definition delete_watchlist :: "jsval \<Rightarrow> watchlist_store \<Rightarrow> watchlist_store \<times> pending option" where
  "delete_watchlist i s =
     (let remaining = filter (\<lambda>w. \<not> js_same (wl_id w) i) (ws_lists s) in
      if length (ws_lists s) \<le> 1 \<or> js_same (ws_active s) i \<and> remaining = [] then (s, None)
      else
        let active = (if js_same (ws_active s) i then wl_id (hd remaining) else ws_active s);
            s' = s\<lparr> ws_lists := remaining, ws_active := active \<rparr>
        in if is_local_watchlist_id i then (persist_lists remaining active s', None)
           else (s', Some (PendingDelete remaining active (ws_lists s) (ws_active s))))"

definition new_item :: "string \<Rightarrow> string \<Rightarrow> jsval \<Rightarrow> jsval" where
  "new_item temp symbol exchange =
     JObj [(''id'', JStr temp), (''symbol'', JStr symbol), (''exchange'', exchange)]"

definition item_key :: "jsval \<Rightarrow> string" where
  "item_key item = watchlist_symbol_key (field item ''symbol'')"

definition item_id :: "jsval \<Rightarrow> jsval" where
  "item_id item = field item ''id''"

text \<open>
  \<open>addItem\<close> once the watchlists are loaded: the insertion that is shown at once, the record of the
  server in its place, and the rollback.
\<close>

definition add_item :: "jsval \<Rightarrow> jsval \<Rightarrow> string \<Rightarrow> watchlist_store \<Rightarrow> watchlist_store \<times> pending option" where
  "add_item symbol exchange stamp s =
     (if \<not> truthy (ws_active s) \<or> ws_lists s = [] then (s, None)
      else
        case find_list (ws_active s) (ws_lists s) of
          None \<Rightarrow> (s, None)
        | Some active \<Rightarrow>
            let normalized = canonical_watchlist_symbol symbol exchange;
                key = watchlist_symbol_key (JStr normalized);
                temp = ''temp_'' @ stamp
            in if list_ex (\<lambda>i. item_key i = key) (items_of active) then (s, None)
               else (persist_state (set_lists
                   (map_list (ws_active s) (map_items (\<lambda>items. items @ [new_item temp normalized exchange])) (ws_lists s)) s),
                 Some (PendingAdd (ws_active s) temp key)))"

definition swap_item :: "string \<Rightarrow> jsval \<Rightarrow> jsval list \<Rightarrow> jsval list" where
  "swap_item temp data items = map (\<lambda>i. if js_same (item_id i) (JStr temp) then data else i) items"

definition drop_item :: "jsval \<Rightarrow> jsval list \<Rightarrow> jsval list" where
  "drop_item i items = filter (\<lambda>x. \<not> js_same (item_id x) i) items"

definition remove_item :: "jsval \<Rightarrow> watchlist_store \<Rightarrow> watchlist_store \<times> pending option" where
  "remove_item i s =
     (if \<not> truthy (ws_active s) then (s, None)
      else (persist_state (set_lists (map_list (ws_active s) (map_items (drop_item i)) (ws_lists s)) s),
        Some (PendingRemove (ws_active s) (ws_lists s))))"

text \<open>What the operations do with a success and with a failure of their request.\<close>

fun request_done :: "pending \<Rightarrow> jsval \<Rightarrow> watchlist_store \<Rightarrow> watchlist_store" where
  "request_done (PendingRename i) data s = persist_state s"
| "request_done (PendingDelete remaining active ws old) data s = persist_lists remaining active s"
| "request_done (PendingAdd active temp key) data s =
     (if \<not> is_local_watchlist_id active \<and> truthy (field data ''id'')
      then persist_state (set_lists (map_list active (map_items (swap_item temp data)) (ws_lists s)) s) else s)"
| "request_done (PendingRemove active ws) data s = s"

fun request_failed :: "pending \<Rightarrow> watchlist_store \<Rightarrow> watchlist_store" where
  "request_failed (PendingRename i) s = begin_load s"
| "request_failed (PendingDelete remaining active ws old) s = s\<lparr> ws_lists := ws, ws_active := old \<rparr>"
| "request_failed (PendingAdd active temp key) s =
     persist_state (set_lists (map_list active (map_items (drop_item (JStr temp))) (ws_lists s)) s)"
| "request_failed (PendingRemove active ws) s = persist_lists ws active (set_lists ws s)"

section \<open>Order\<close>

text \<open>\<open>a.splice(i, 1)\<close> and \<open>a.splice(i, 0, x)\<close>: a negative index counts from the end.\<close>

definition splice_at :: "int \<Rightarrow> nat \<Rightarrow> nat" where
  "splice_at i n = (if i < 0 then nat (int n + i) else min (nat i) n)"

definition reorder :: "int \<Rightarrow> int \<Rightarrow> jsval list \<Rightarrow> jsval list" where
  "reorder src dst items =
     (let n = splice_at src (length items);
          moved = (case nth_opt items n of Some x \<Rightarrow> x | None \<Rightarrow> Undefined);
          rest = take n items @ drop (Suc n) items;
          m = splice_at dst (length rest)
      in take m rest @ moved # drop m rest)"

definition reorder_items :: "int \<Rightarrow> int \<Rightarrow> watchlist_store \<Rightarrow> watchlist_store" where
  "reorder_items src dst s =
     (if \<not> truthy (ws_active s) then s
      else case find_list (ws_active s) (ws_lists s) of
        None \<Rightarrow> s
      | Some active \<Rightarrow>
          persist_state (set_lists
            (map_list (ws_active s) (with_items (reorder src dst (items_of active))) (ws_lists s)) s))"

end
