(* ===== verification/WatchlistRuns.thy ===== *)
theory WatchlistRuns
  imports WatchlistFacts
begin

text \<open>
  Runs of the watchlist store between two loads: operations begin in any order, and their requests
  succeed or fail in any order. In all of them no watchlist lists a share twice.
\<close>

section \<open>Steps\<close>

record watchlist_system =
  sy_store :: watchlist_store
  sy_pending :: "pending list"

text \<open>The lists that an operation has captured to restore them.\<close>

fun captured :: "pending \<Rightarrow> jsobj list" where
  "captured (PendingDelete remaining active ws old) = ws"
| "captured (PendingRemove active ws) = ws"
| "captured p = []"

definition histories :: "watchlist_system \<Rightarrow> jsobj list set" where
  "histories y = insert (ws_lists (sy_store y)) (captured ` set (sy_pending y))"

definition begun :: "watchlist_store \<times> pending option \<Rightarrow> watchlist_system \<Rightarrow> watchlist_system" where
  "begun r y = \<lparr> sy_store = fst r, sy_pending = (case snd r of Some p \<Rightarrow> p # sy_pending y | None \<Rightarrow> sy_pending y) \<rparr>"

definition settled :: "pending \<Rightarrow> watchlist_store \<Rightarrow> watchlist_system \<Rightarrow> watchlist_system" where
  "settled p s y = \<lparr> sy_store = s, sy_pending = remove1 p (sy_pending y) \<rparr>"

text \<open>
  What a run relies on: the server gives each watchlist an id of its own, echoes the symbol of an item
  that it records and does not give it a temporary id; the clock gives each addition a stamp of its own;
  the constituents of an index are different shares; an item that is dragged is one of the list.
\<close>

fun echoes :: "pending \<Rightarrow> jsval \<Rightarrow> bool" where
  "echoes (PendingAdd active temp key) data =
     (item_key data = key \<and> (\<forall>r. item_id data \<noteq> JStr (''temp_'' @ r)))"
| "echoes p data = True"

definition new_id :: "jsval \<Rightarrow> watchlist_system \<Rightarrow> bool" where
  "new_id i y \<longleftrightarrow> (\<exists>k. i = JStr k) \<and> (\<forall>w \<in> set (ws_lists (sy_store y)). wl_id w \<noteq> i)"

definition new_stamp :: "string \<Rightarrow> watchlist_system \<Rightarrow> bool" where
  "new_stamp stamp y \<longleftrightarrow>
     (\<forall>ws \<in> histories y. ids_fresh (''temp_'' @ stamp) ws) \<and>
     (\<forall>a k. PendingAdd a (''temp_'' @ stamp) k \<notin> set (sy_pending y))"

inductive watchlist_step :: "watchlist_system \<Rightarrow> watchlist_system \<Rightarrow> bool" where
  activate: "watchlist_step y (y\<lparr> sy_store := set_active_watchlist i (sy_store y) \<rparr>)"
| create: "(\<And>data. answer = Some data \<Longrightarrow> new_id (own data ''id'') y) \<Longrightarrow>
    watchlist_step y (y\<lparr> sy_store := create_watchlist name answer (sy_store y) \<rparr>)"
| open_index: "(\<And>i e. distinct (map item_key (index_items i e symbols))) \<Longrightarrow>
    watchlist_step y (y\<lparr> sy_store := open_index_watchlist key label symbols (sy_store y) \<rparr>)"
| rename: "watchlist_step y (begun (rename_watchlist i name (sy_store y)) y)"
| delete: "watchlist_step y (begun (delete_watchlist i (sy_store y)) y)"
| add: "new_stamp stamp y \<Longrightarrow> watchlist_step y (begun (add_item symbol exchange stamp (sy_store y)) y)"
| remove: "watchlist_step y (begun (remove_item i (sy_store y)) y)"
| reorder: "(\<And>w. w \<in> set (ws_lists (sy_store y)) \<Longrightarrow> wl_id w = ws_active (sy_store y) \<Longrightarrow>
      splice_at src (length (items_of w)) < length (items_of w)) \<Longrightarrow>
    watchlist_step y (y\<lparr> sy_store := reorder_items src dst (sy_store y) \<rparr>)"
| success: "p \<in> set (sy_pending y) \<Longrightarrow> echoes p data \<Longrightarrow>
    watchlist_step y (settled p (request_done p data (sy_store y)) y)"
| failure: "p \<in> set (sy_pending y) \<Longrightarrow> (\<forall>i. p \<noteq> PendingRename i) \<Longrightarrow>
    watchlist_step y (settled p (request_failed p (sy_store y)) y)"

inductive_cases watchlist_stepE: "watchlist_step y y'"

inductive watchlist_run :: "watchlist_system \<Rightarrow> watchlist_system \<Rightarrow> bool" for y where
  start: "watchlist_run y y"
| step: "watchlist_run y y' \<Longrightarrow> watchlist_step y' y'' \<Longrightarrow> watchlist_run y y''"

section \<open>The invariant\<close>

definition list_ok :: "jsobj \<Rightarrow> bool" where
  "list_ok w \<longleftrightarrow> (\<exists>i. wl_id w = JStr i) \<and> distinct (map item_key (items_of w))"

definition lists_ok :: "jsobj list \<Rightarrow> bool" where
  "lists_ok ws \<longleftrightarrow> distinct (map wl_id ws) \<and> (\<forall>w \<in> set ws. list_ok w)"

text \<open>An item with the temporary id of an addition is the share of that addition.\<close>

definition temps_ok :: "pending list \<Rightarrow> jsobj list \<Rightarrow> bool" where
  "temps_ok ps ws \<longleftrightarrow> (\<forall>a t k. PendingAdd a t k \<in> set ps \<longrightarrow>
     (\<forall>w \<in> set ws. \<forall>i \<in> set (items_of w). item_id i = JStr t \<longrightarrow> item_key i = k))"

definition system_ok :: "watchlist_system \<Rightarrow> bool" where
  "system_ok y \<longleftrightarrow> (\<forall>ws \<in> histories y. lists_ok ws \<and> temps_ok (sy_pending y) ws) \<and>
     (\<forall>a t k. PendingAdd a t k \<in> set (sy_pending y) \<longrightarrow> (\<exists>r. t = ''temp_'' @ r))"

lemma lists_ok_map:
  assumes "lists_ok ws" "\<And>w. w \<in> set ws \<Longrightarrow> list_ok w \<Longrightarrow> wl_id w = i \<Longrightarrow> list_ok (f w) \<and> wl_id (f w) = wl_id w"
  shows "lists_ok (map_list i f ws)"
proof -
  have i: "list_ok (if js_same (wl_id w) i then f w else w) \<and> wl_id (if js_same (wl_id w) i then f w else w) = wl_id w"
    if "w \<in> set ws" for w
  proof -
    have ok: "list_ok w" using assms(1) that by (simp add: lists_ok_def)
    then obtain k where "wl_id w = JStr k" by (auto simp: list_ok_def)
    then show ?thesis using assms(2) [OF that ok] ok by auto
  qed
  then have "map wl_id (map_list i f ws) = map wl_id ws" by (simp add: map_list_def)
  moreover have "\<forall>w \<in> set (map_list i f ws). list_ok w" unfolding map_list_def set_map using i by blast
  ultimately show ?thesis using assms(1) by (simp add: lists_ok_def)
qed

lemma temps_ok_map:
  assumes "temps_ok ps ws"
    and "\<And>w a t k x. w \<in> set ws \<Longrightarrow> PendingAdd a t k \<in> set ps \<Longrightarrow> x \<in> set (items_of (f w)) \<Longrightarrow>
      item_id x = JStr t \<Longrightarrow> x \<in> set (items_of w) \<or> item_key x = k"
  shows "temps_ok ps (map_list i f ws)"
  using assms by (fastforce simp: temps_ok_def map_list_def)

text \<open>A part of an operation is fine when the lists it leaves are, and those it captures were there.\<close>

lemma system_okI:
  assumes "system_ok y" "lists_ok (ws_lists s)" "temps_ok ps (ws_lists s)"
    and "\<And>p. p \<in> set ps \<Longrightarrow> p \<in> set (sy_pending y) \<or> captured p \<in> insert [] (histories y) \<and> (\<forall>a t k. p \<noteq> PendingAdd a t k)"
  shows "system_ok \<lparr> sy_store = s, sy_pending = ps \<rparr>"
proof -
  have temps: "temps_ok ps ws" if "ws \<in> histories y" for ws
    using assms(1,4) that by (fastforce simp: system_ok_def temps_ok_def)
  have nil: "lists_ok [] \<and> temps_ok ps []" by (simp add: lists_ok_def temps_ok_def)
  have "lists_ok (captured p) \<and> temps_ok ps (captured p)" if "p \<in> set ps" for p
    using assms(1) assms(4) [OF that] temps nil by (auto simp: system_ok_def histories_def)
  then show ?thesis using assms by (fastforce simp: system_ok_def histories_def)
qed

lemma system_ok_store:
  assumes "system_ok y" "lists_ok (ws_lists s)" "temps_ok (sy_pending y) (ws_lists s)"
  shows "system_ok (y\<lparr> sy_store := s \<rparr>)"
  using system_okI [OF assms] by (cases y) simp

lemma system_ok_settled:
  assumes "system_ok y" "lists_ok (ws_lists s)" "temps_ok (sy_pending y) (ws_lists s)"
  shows "system_ok (settled p s y)"
  unfolding settled_def
proof (rule system_okI [OF assms(1,2)])
  show "temps_ok (remove1 p (sy_pending y)) (ws_lists s)"
    using assms(3) notin_set_remove1 by (fastforce simp: temps_ok_def)
qed (use notin_set_remove1 in fastforce)

lemma system_okD:
  assumes "system_ok y"
  shows "lists_ok (ws_lists (sy_store y))" "temps_ok (sy_pending y) (ws_lists (sy_store y))"
    "p \<in> set (sy_pending y) \<Longrightarrow> lists_ok (captured p) \<and> temps_ok (sy_pending y) (captured p)"
  using assms by (auto simp: system_ok_def histories_def)

lemma distinct_sub:
  assumes "mset xs \<subseteq># mset ys" "distinct ys"
  shows "distinct xs"
proof -
  obtain zs where "mset ys = mset xs + mset zs" using assms(1) by (metis ex_mset mset_subset_eq_exists_conv)
  then have "mset ys = mset (xs @ zs)" by simp
  then have "distinct (xs @ zs)" using assms(2) mset_eq_imp_distinct_iff by blast
  then show ?thesis by simp
qed

text \<open>Operations that only drop or reorder the items of a watchlist.\<close>

lemma fewer_items_ok:
  assumes "lists_ok ws" "temps_ok ps ws" "\<And>items. mset (f items) \<subseteq># mset items"
  shows "lists_ok (map_list i (map_items f) ws)" "temps_ok ps (map_list i (map_items f) ws)"
proof -
  have sub: "set (f items) \<subseteq> set items" for items using set_mset_mono [OF assms(3)] by simp
  have "distinct (map item_key (f items))" if "distinct (map item_key items)" for items
  proof -
    have "mset (map item_key (f items)) \<subseteq># mset (map item_key items)" using image_mset_subseteq_mono [OF assms(3)] by simp
    then show ?thesis using that by (rule distinct_sub)
  qed
  then show "lists_ok (map_list i (map_items f) ws)" using assms(1) by (intro lists_ok_map) (auto simp: list_ok_def)
  show "temps_ok ps (map_list i (map_items f) ws)" using assms(2) sub by (intro temps_ok_map) auto
qed

section \<open>Every step keeps it\<close>

lemma captured_pending [simp]:
  "captured p \<in> histories y \<or> p \<notin> set (sy_pending y)"
  by (auto simp: histories_def)

lemma keep_lists:
  assumes "system_ok y" "ws_lists s = ws_lists (sy_store y)"
  shows "system_ok (y\<lparr> sy_store := s \<rparr>)"
  using system_okD(1,2) [OF assms(1)] assms(2) by (intro system_ok_store [OF assms(1)]) simp_all

lemma begun_none: "fst r = sy_store y \<Longrightarrow> snd r = None \<Longrightarrow> begun r y = y"
  by (cases y) (simp add: begun_def)

lemma begun_ok:
  assumes "system_ok y" "lists_ok (ws_lists (fst r))" "temps_ok (sy_pending y) (ws_lists (fst r))"
    and "\<And>p. snd r = Some p \<Longrightarrow> captured p \<in> insert [] (histories y) \<and> (\<forall>a t k. p \<noteq> PendingAdd a t k)"
  shows "system_ok (begun r y)"
  unfolding begun_def
proof (rule system_okI [OF assms(1,2)])
  have "temps_ok (p # sy_pending y) (ws_lists (fst r))" if "snd r = Some p" for p
    using assms(3) assms(4) [OF that] unfolding temps_ok_def set_simps insert_iff by metis
  then show "temps_ok (case snd r of None \<Rightarrow> sy_pending y | Some p \<Rightarrow> p # sy_pending y) (ws_lists (fst r))"
    using assms(3) by (cases "snd r") simp_all
qed (use assms(4) in \<open>fastforce split: option.splits\<close>)

lemma appended_list_ok:
  assumes "lists_ok ws" "temps_ok ps ws" "list_ok w" "\<forall>v \<in> set ws. wl_id v \<noteq> wl_id w"
    and "\<forall>a t k. PendingAdd a t k \<in> set ps \<longrightarrow> (\<forall>i \<in> set (items_of w). item_id i \<noteq> JStr t)"
  shows "lists_ok (ws @ [w])" "temps_ok ps (ws @ [w])"
  using assms by (force simp: lists_ok_def, force simp: temps_ok_def)

lemma create_ok:
  assumes "system_ok y" "\<And>data. answer = Some data \<Longrightarrow> new_id (own data ''id'') y"
  shows "system_ok (y\<lparr> sy_store := create_watchlist name answer (sy_store y) \<rparr>)"
proof (cases "trim name = [] \<or> answer = None")
  case True
  then show ?thesis using assms(1) by (auto simp: create_watchlist_def split: option.split)
next
  case False
  then obtain data where data: "answer = Some data" by auto
  have i: "wl_id (with_items [] data) = own data ''id''" by (simp add: wl_id_def with_items_def)
  have "list_ok (with_items [] data)" using assms(2) [OF data] i by (auto simp: list_ok_def new_id_def)
  note app = appended_list_ok [OF system_okD(1,2) [OF assms(1)] this]
  show ?thesis using assms(2) [OF data] i False
    by (intro system_ok_store [OF assms(1)]) (auto simp: create_watchlist_def data new_id_def intro!: app)
qed

lemma index_item_ids: "x \<in> set (index_items i e symbols) \<Longrightarrow> \<exists>n. item_id x = JStr (i @ ''_'' @ n)"
  by (auto simp: index_items_def Let_def item_id_def own_Cons)

lemma index_not_temp: "index_watchlist_id key @ ''_'' @ n \<noteq> ''temp_'' @ r"
  by (simp add: index_watchlist_id_def Let_def)

lemma find_index_Some: "find_index P xs = Some n \<Longrightarrow> n < length xs \<and> P (xs ! n)"
  by (induction xs arbitrary: n) (auto split: if_splits)

lemma find_index_None: "find_index P xs = None \<longleftrightarrow> (\<forall>x \<in> set xs. \<not> P x)"
  by (induction xs) auto

lemma replaced_list_ok:
  assumes "lists_ok ws" "temps_ok ps ws" "list_ok w" "n < length ws" "wl_id (ws ! n) = wl_id w"
    and "\<forall>a t k. PendingAdd a t k \<in> set ps \<longrightarrow> (\<forall>i \<in> set (items_of w). item_id i \<noteq> JStr t)"
  shows "lists_ok (ws[n := w])" "temps_ok ps (ws[n := w])"
proof -
  have "map wl_id (ws[n := w]) = map wl_id ws" using assms(4,5) by (simp add: map_update list_update_same_conv)
  then show "lists_ok (ws[n := w])" using assms(1,3) set_update_subset_insert [of ws n w] by (auto simp: lists_ok_def)
  show "temps_ok ps (ws[n := w])" using assms(2,6) set_update_subset_insert [of ws n w]
    unfolding temps_ok_def by blast
qed

lemma open_index_ok:
  assumes "system_ok y" "\<And>i e. distinct (map item_key (index_items i e symbols))"
  shows "system_ok (y\<lparr> sy_store := open_index_watchlist key label symbols (sy_store y) \<rparr>)"
proof -
  define i where "i = index_watchlist_id (js_or key label)"
  define e where "e = (case index_watchlist_exchange (js_or key label) of Some e \<Rightarrow> e | None \<Rightarrow> ''NSE'')"
  define w where "w = [(''id'', JStr i), (''name'', JStr (non_empty_or (trim (to_string (js_or label (JStr ''Index'')))) ''Index'')),
    (''items'', JArr (index_items i e symbols)), (''isLocalIndex'', JBool True)]"
  let ?ws = "ws_lists (sy_store y)"
  have w: "wl_id w = JStr i" "items_of w = index_items i e symbols"
    by (simp_all add: w_def wl_id_def items_of_def own_Cons)
  have ok: "list_ok w" using assms(2) by (simp add: list_ok_def w)
  have fresh_item: "item_id x \<noteq> JStr t" if "PendingAdd a t k \<in> set (sy_pending y)" "x \<in> set (items_of w)" for a t k x
  proof -
    have "\<exists>r. t = ''temp_'' @ r" using assms(1) that(1) unfolding system_ok_def by blast
    then show ?thesis using index_item_ids [of x i e symbols] that(2) index_not_temp [of "js_or key label"]
      unfolding w i_def by (metis jsval.inject(3))
  qed
  have fresh: "\<forall>a t k. PendingAdd a t k \<in> set (sy_pending y) \<longrightarrow> (\<forall>i \<in> set (items_of w). item_id i \<noteq> JStr t)"
    using fresh_item by blast
  have lists: "ws_lists (open_index_watchlist key label symbols (sy_store y)) =
      (if index_items i e symbols = [] then ?ws else
       case find_index (\<lambda>v. js_same (wl_id v) (JStr i)) ?ws of Some n \<Rightarrow> ?ws[n := w] | None \<Rightarrow> ?ws @ [w])"
    unfolding open_index_watchlist_def Let_def i_def [symmetric] e_def [symmetric] w_def [symmetric] by simp
  note ws = system_okD(1,2) [OF assms(1)]
  have "lists_ok (ws_lists (open_index_watchlist key label symbols (sy_store y))) \<and>
      temps_ok (sy_pending y) (ws_lists (open_index_watchlist key label symbols (sy_store y)))"
  proof (cases "find_index (\<lambda>v. js_same (wl_id v) (JStr i)) ?ws")
    case None
    then have "\<forall>v \<in> set ?ws. wl_id v \<noteq> wl_id w" by (simp add: find_index_None w)
    from appended_list_ok [OF ws ok this fresh] show ?thesis using ws unfolding lists None by simp
  next
    case (Some n)
    then have "n < length ?ws" "wl_id (?ws ! n) = wl_id w" using find_index_Some [OF Some] by (simp_all add: w)
    from replaced_list_ok [OF ws ok this fresh] show ?thesis using ws unfolding lists Some by simp
  qed
  then show ?thesis by (intro system_ok_store [OF assms(1)]) simp_all
qed


lemma rename_ok:
  assumes "system_ok y"
  shows "system_ok (begun (rename_watchlist i name (sy_store y)) y)"
proof (cases "\<not> truthy i \<or> trim name = []")
  case True
  then show ?thesis using assms by (simp add: rename_watchlist_def begun_none)
next
  case False
  let ?f = "set_field ''name'' (JStr (trim name))"
  note ok = system_okD(1,2) [OF assms]
  have items: "items_of (?f w) = items_of w" "wl_id (?f w) = wl_id w" for w by (simp_all add: items_of_def wl_id_def)
  have new: "lists_ok (map_list i ?f (ws_lists (sy_store y)))" "temps_ok (sy_pending y) (map_list i ?f (ws_lists (sy_store y)))"
    using ok by (auto intro!: lists_ok_map temps_ok_map simp: items list_ok_def)
  show ?thesis using False new by (intro begun_ok [OF assms]) (auto simp: rename_watchlist_def Let_def split: if_splits)
qed

lemma filter_lists_ok:
  "lists_ok ws \<Longrightarrow> lists_ok (filter P ws)" "temps_ok ps ws \<Longrightarrow> temps_ok ps (filter P ws)"
  by (auto simp: lists_ok_def temps_ok_def distinct_map_filter)

lemma delete_ok:
  assumes "system_ok y"
  shows "system_ok (begun (delete_watchlist i (sy_store y)) y)"
  using system_okD(1,2) [OF assms]
  by (intro begun_ok [OF assms])
    (auto simp: delete_watchlist_def Let_def filter_lists_ok histories_def split: if_splits)

lemma remove_ok:
  assumes "system_ok y"
  shows "system_ok (begun (remove_item i (sy_store y)) y)"
  using fewer_items_ok [OF system_okD(1,2) [OF assms], of "drop_item i" "ws_active (sy_store y)"] system_okD(1,2) [OF assms]
  by (intro begun_ok [OF assms])
    (auto simp: remove_item_def drop_item_def histories_def split: if_splits)

lemma find_list_id: "find_list i ws = Some w \<Longrightarrow> w \<in> set ws \<and> js_same (wl_id w) i"
  unfolding find_list_def find_Some_iff by auto

lemma unique_list:
  "lists_ok ws \<Longrightarrow> v \<in> set ws \<Longrightarrow> w \<in> set ws \<Longrightarrow> wl_id v = wl_id w \<Longrightarrow> v = w"
  by (auto simp: lists_ok_def distinct_map inj_on_def)

lemma reorder_ok:
  assumes "system_ok y" "\<And>w. w \<in> set (ws_lists (sy_store y)) \<Longrightarrow> wl_id w = ws_active (sy_store y) \<Longrightarrow>
      splice_at src (length (items_of w)) < length (items_of w)"
  shows "system_ok (y\<lparr> sy_store := reorder_items src dst (sy_store y) \<rparr>)"
proof (cases "find_list (ws_active (sy_store y)) (ws_lists (sy_store y))")
  case None
  then show ?thesis using assms(1) by (simp add: reorder_items_def keep_lists)
next
  case (Some w)
  let ?s = "sy_store y"
  note ok = system_okD(1,2) [OF assms(1)]
  note w = find_list_id [OF Some]
  obtain k where k: "wl_id w = JStr k" using w ok(1) by (auto simp: lists_ok_def list_ok_def)
  have act: "wl_id w = ws_active ?s" using w k by simp
  have perm: "mset (reorder src dst (items_of w)) = mset (items_of w)" using reorder_mset assms(2) w act by blast
  have only: "v = w" if "v \<in> set (ws_lists ?s)" "wl_id v = ws_active ?s" for v
    using unique_list [OF ok(1)] that w act by auto
  let ?f = "with_items (reorder src dst (items_of w))"
  have "list_ok (?f w)" using ok(1) w perm mset_eq_imp_distinct_iff [of "map item_key (reorder src dst (items_of w))" "map item_key (items_of w)"]
    by (auto simp: lists_ok_def list_ok_def)
  then have "lists_ok (map_list (ws_active ?s) ?f (ws_lists ?s))" using only by (intro lists_ok_map [OF ok(1)]) auto
  moreover have "temps_ok (sy_pending y) (map_list (ws_active ?s) ?f (ws_lists ?s))"
  proof -
    have "set (reorder src dst (items_of w)) = set (items_of w)" using perm by (metis set_mset_mset)
    moreover have "\<And>a t k x. PendingAdd a t k \<in> set (sy_pending y) \<Longrightarrow> x \<in> set (items_of w) \<Longrightarrow> item_id x = JStr t \<Longrightarrow> item_key x = k"
      using ok(2) w by (auto simp: temps_ok_def)
    ultimately show ?thesis using ok(2) by (intro temps_ok_map) auto
  qed
  ultimately show ?thesis using Some ok
    by (intro system_ok_store [OF assms(1)]) (auto simp: reorder_items_def)
qed

lemma add_ok:
  assumes "system_ok y" "new_stamp stamp y"
  shows "system_ok (begun (add_item symbol exchange stamp (sy_store y)) y)"
proof (cases "snd (add_item symbol exchange stamp (sy_store y))")
  case None
  then have "fst (add_item symbol exchange stamp (sy_store y)) = sy_store y"
    by (auto simp: add_item_def Let_def split: if_splits option.splits)
  with None show ?thesis using assms(1) by (simp add: begun_none)
next
  case (Some p)
  let ?s = "sy_store y"
  define temp where "temp = ''temp_'' @ stamp"
  define x where "x = canonical_watchlist_symbol symbol exchange"
  define item where "item = new_item temp x exchange"
  define key where "key = item_key item"
  let ?f = "map_items (\<lambda>items. items @ [item])"
  note ok = system_okD(1,2) [OF assms(1)]
  obtain w where w: "find_list (ws_active ?s) (ws_lists ?s) = Some w" "\<not> list_ex (\<lambda>i. item_key i = key) (items_of w)"
      and p: "p = PendingAdd (ws_active ?s) temp key"
      and s': "ws_lists (fst (add_item symbol exchange stamp ?s)) = map_list (ws_active ?s) ?f (ws_lists ?s)"
    using Some by (auto simp: add_item_def Let_def temp_def x_def item_def key_def item_key_def new_item_def own_Cons
        split: if_splits option.splits)
  have only: "v = w" if "v \<in> set (ws_lists ?s)" "wl_id v = ws_active ?s" for v
    using unique_list [OF ok(1)] that find_list_id [OF w(1)] ok(1) by (auto simp: lists_ok_def list_ok_def)
  have id: "item_id item = JStr temp" by (simp add: item_def new_item_def item_id_def own_Cons)
  have lists: "lists_ok (map_list (ws_active ?s) ?f (ws_lists ?s))"
  proof (rule lists_ok_map [OF ok(1)])
    fix v assume v: "v \<in> set (ws_lists ?s)" "list_ok v" "wl_id v = ws_active ?s"
    with only w(2) show "list_ok (?f v) \<and> wl_id (?f v) = wl_id v" by (auto simp: list_ok_def key_def list_ex_iff)
  qed
  have other: "\<And>a k. PendingAdd a temp k \<notin> set (sy_pending y)" using assms(2) by (simp add: new_stamp_def temp_def)
  have fresh: "ids_fresh temp ws" if "ws \<in> histories y" for ws using assms(2) that by (simp add: new_stamp_def temp_def)
  have temps: "temps_ok (p # sy_pending y) (map_list (ws_active ?s) ?f (ws_lists ?s))"
  proof (rule temps_ok_map)
    have "ids_fresh temp (ws_lists ?s)" by (rule fresh) (simp add: histories_def)
    then show "temps_ok (p # sy_pending y) (ws_lists ?s)" using ok(2) by (auto simp: temps_ok_def p ids_fresh_def)
  qed (use other id in \<open>auto simp: p key_def\<close>)
  have all: "temps_ok (p # sy_pending y) ws" if "ws \<in> histories y" for ws
    using fresh [OF that] assms(1) that by (auto simp: temps_ok_def p ids_fresh_def system_ok_def)
  show ?thesis unfolding system_ok_def
  proof (intro conjI ballI)
    fix ws assume "ws \<in> histories (begun (add_item symbol exchange stamp ?s) y)"
    then consider "ws = map_list (ws_active ?s) ?f (ws_lists ?s)" | "ws = []" | "ws \<in> histories y"
      by (auto simp: histories_def begun_def Some s' p)
    then show "lists_ok ws" "temps_ok (sy_pending (begun (add_item symbol exchange stamp ?s) y)) ws"
      using lists temps all assms(1)
      by (cases; simp add: begun_def Some system_ok_def; simp add: lists_ok_def temps_ok_def)+
  next
    show "\<forall>a t k. PendingAdd a t k \<in> set (sy_pending (begun (add_item symbol exchange stamp ?s) y)) \<longrightarrow> (\<exists>r. t = ''temp_'' @ r)"
      using assms(1) by (auto simp: begun_def Some p temp_def system_ok_def)
  qed
qed


lemma swap_keys:
  assumes "\<And>i. i \<in> set items \<Longrightarrow> item_id i = JStr temp \<Longrightarrow> item_key i = item_key data"
  shows "map item_key (swap_item temp data items) = map item_key items"
  using assms by (auto simp: swap_item_def)

lemma success_ok:
  assumes "system_ok y" "p \<in> set (sy_pending y)" "echoes p data"
  shows "system_ok (settled p (request_done p data (sy_store y)) y)"
proof (cases p)
  case (PendingAdd a temp key)
  let ?ws = "ws_lists (sy_store y)"
  note ok = system_okD(1,2) [OF assms(1)]
  have same: "item_key i = item_key data" if "w \<in> set ?ws" "i \<in> set (items_of w)" "item_id i = JStr temp" for w i
  proof -
    have "item_key i = key" using ok(2) assms(2) that unfolding temps_ok_def PendingAdd by blast
    then show ?thesis using assms(3) by (simp add: PendingAdd)
  qed
  have "lists_ok (map_list a (map_items (swap_item temp data)) ?ws)"
    using same by (intro lists_ok_map [OF ok(1)]) (auto simp: list_ok_def swap_keys)
  moreover have "temps_ok (sy_pending y) (map_list a (map_items (swap_item temp data)) ?ws)"
  proof (rule temps_ok_map [OF ok(2)])
    fix w b t k x
    assume p: "PendingAdd b t k \<in> set (sy_pending y)" and x: "x \<in> set (items_of (map_items (swap_item temp data) w))" "item_id x = JStr t"
    have "\<exists>r. t = ''temp_'' @ r" using assms(1) p unfolding system_ok_def by blast
    then have "x \<noteq> data" using assms(3) x(2) by (auto simp: PendingAdd)
    with x(1) show "x \<in> set (items_of w) \<or> item_key x = k" by (auto simp: swap_item_def)
  qed
  ultimately show ?thesis using ok by (intro system_ok_settled [OF assms(1)]) (auto simp: PendingAdd)
qed (use system_okD(1,2) [OF assms(1)] in \<open>auto intro!: system_ok_settled [OF assms(1)]\<close>)

lemma failure_ok:
  assumes "system_ok y" "p \<in> set (sy_pending y)" "\<forall>i. p \<noteq> PendingRename i"
  shows "system_ok (settled p (request_failed p (sy_store y)) y)"
proof (cases p)
  case (PendingAdd a temp key)
  then show ?thesis
    using fewer_items_ok [OF system_okD(1,2) [OF assms(1)], of "drop_item (JStr temp)" a]
    by (intro system_ok_settled [OF assms(1)]) (simp_all add: drop_item_def)
qed (use assms(3) system_okD(3) [OF assms(1,2)] in \<open>auto intro!: system_ok_settled [OF assms(1)]\<close>)

lemma step_ok: "watchlist_step y y' \<Longrightarrow> system_ok y \<Longrightarrow> system_ok y'"
  by (erule watchlist_stepE)
    (simp_all add: keep_lists set_active_watchlist_def create_ok open_index_ok rename_ok delete_ok add_ok remove_ok
      reorder_ok success_ok failure_ok)

lemma run_ok: "watchlist_run y y' \<Longrightarrow> system_ok y \<Longrightarrow> system_ok y'"
  by (induction rule: watchlist_run.induct) (auto intro: step_ok)

text \<open>A store without requests under way whose lists have no share twice is where a run can start.\<close>

lemma quiet_ok: "lists_ok (ws_lists s) \<Longrightarrow> system_ok \<lparr> sy_store = s, sy_pending = [] \<rparr>"
  by (simp add: system_ok_def histories_def temps_ok_def)

lemma run_no_share_twice:
  assumes "watchlist_run \<lparr> sy_store = s, sy_pending = [] \<rparr> y" "lists_ok (ws_lists s)" "w \<in> set (ws_lists (sy_store y))"
  shows "distinct (map item_key (items_of w))"
  using run_ok [OF assms(1) quiet_ok [OF assms(2)]] assms(3)
  by (auto simp: system_ok_def histories_def lists_ok_def list_ok_def)

section \<open>A rollback that loses a list\<close>

text \<open>
  A removal that fails restores the lists as they were when it began. A list that was created
  meanwhile is lost, and stays the active one: no list is shown.
\<close>

definition lost_list :: jsobj where
  "lost_list = [(''id'', JStr ''7''), (''name'', JStr ''New''), (''items'', JArr [])]"

definition kept_list :: jsobj where
  "kept_list = [(''id'', JStr ''6''), (''name'', JStr ''Old''),
     (''items'', JArr [JObj [(''id'', JStr ''1''), (''symbol'', JStr ''TCS.NS'')]])]"

definition before_removal :: watchlist_system where
  "before_removal = \<lparr> sy_store = \<lparr> ws_lists = [kept_list], ws_active = JStr ''6'', ws_loading = False, ws_stored = None,
     ws_can_store = False \<rparr>, sy_pending = [] \<rparr>"

lemma rollback_loses_list:
  "\<exists>y. watchlist_run before_removal y \<and> lists_ok (ws_lists (sy_store before_removal)) \<and>
     find_list (ws_active (sy_store y)) (ws_lists (sy_store y)) = None"
proof -
  define y1 where "y1 = begun (remove_item (JStr ''1'') (sy_store before_removal)) before_removal"
  define p where "p = PendingRemove (JStr ''6'') [kept_list]"
  define y2 where "y2 = y1\<lparr> sy_store := create_watchlist ''New'' (Some lost_list) (sy_store y1) \<rparr>"
  define y3 where "y3 = settled p (request_failed p (sy_store y2)) y2"
  have y1: "sy_pending y1 = [p]" "map wl_id (ws_lists (sy_store y1)) = [JStr ''6'']"
    by (simp_all add: y1_def begun_def remove_item_def before_removal_def p_def map_list_def)
      (simp add: kept_list_def wl_id_def own_Cons)
  have y2: "sy_pending y2 = [p]" "ws_active (sy_store y2) = JStr ''7''"
    using y1 by (simp_all add: y2_def create_watchlist_def trim_def is_space_def lost_list_def wl_id_def own_Cons with_items_def)
  have y3: "ws_lists (sy_store y3) = [kept_list]" "ws_active (sy_store y3) = JStr ''7''"
    using y2 by (simp_all add: y3_def settled_def p_def)
  have "watchlist_step before_removal y1" unfolding y1_def by (rule watchlist_step.remove)
  moreover have "watchlist_step y1 y2" unfolding y2_def
    using y1(2) by (intro watchlist_step.create) (auto simp: new_id_def lost_list_def own_Cons)
  moreover have "watchlist_step y2 y3" unfolding y3_def
    by (rule watchlist_step.failure) (simp_all add: y2 p_def)
  ultimately have "watchlist_run before_removal y3" by (meson watchlist_run.intros)
  moreover have "lists_ok [kept_list]"
    by (simp add: lists_ok_def list_ok_def kept_list_def wl_id_def items_of_def own_Cons)
  moreover have "find_list (JStr ''7'') [kept_list] = None" by (simp add: find_list_def kept_list_def wl_id_def own_Cons)
  ultimately show ?thesis using y3 by (intro exI [of _ y3]) (simp add: before_removal_def)
qed

end
