(* ===== verification/WatchlistPrices.thy ===== *)
theory WatchlistPrices
  imports WatchlistStore PriceResolver
begin

text \<open>
  The quotes of a watchlist: \<open>fetchPrices\<close> and \<open>updatePrices\<close> of
  \<open>frontend/src/stores/useWatchlistStore.js\<close>. The requests of a fetch are functions of the symbols
  they ask for, \<open>None\<close> where one throws; \<open>isRateLimited()\<close> is asked before each of them and is a
  function of the pass and the number of the request. The delays between requests, and the guard
  that makes a second caller wait for the fetch under way, are not modelled.
\<close>

section \<open>Chunks\<close>

text \<open>
  \<open>for (i = 0; i < xs.length; i += n) xs.slice(i, i + n)\<close>. A step of zero would not end in the
  source; the model stops there, and no caller uses it.
\<close>

function chunks :: "nat \<Rightarrow> 'a list \<Rightarrow> 'a list list" where
  "chunks n xs = (if n = 0 \<or> xs = [] then [] else take n xs # chunks n (drop n xs))"
  by pat_completeness auto
termination by (relation "measure (\<lambda>(n, xs). length xs)") auto

declare chunks.simps [simp del]

section \<open>Quotes of the server\<close>

definition normalize_quote :: "jsobj \<Rightarrow> jsobj" where
  "normalize_quote quote =
     (let prev = to_finite_number (first_field (JObj quote) [''prev_close'', ''prevClose'', ''previous_close'', ''close'']);
          price = to_finite_number (first_field (JObj quote) [''price'', ''lp'', ''ltp'', ''last_price'', ''lastPrice'']);
          change = to_finite_number (first_field (JObj quote) [''change'', ''net_change'', ''netChange'']);
          percent = to_finite_number (first_field (JObj quote)
            [''change_percent'', ''changePercent'', ''pct_change'', ''pc'', ''pChange'', ''percent_change'']);
          d_prev = derived_prev_close prev price percent;
          d_change = derived_change change price d_prev;
          d_percent = derived_percent percent d_change d_prev
      in spread quote
           [(''price'', case price of Some p \<Rightarrow> JNum p | None \<Rightarrow> Undefined),
            (''change'', num_val (map_option (fixed_num 2) d_change)),
            (''change_percent'', num_val (map_option (fixed_num 2) d_percent)),
            (''prev_close'', num_val (map_option (fixed_num 2) d_prev))])"

text \<open>The keys under which a symbol is stored: itself, with and without the exchange.\<close>

definition key_forms :: "string \<Rightarrow> string list" where
  "key_forms s = filter (\<lambda>k. k \<noteq> []) [s, ensure_ns_suffix (JStr s), strip_exchange_suffix (JStr s)]"

definition quote_symbol :: "jsobj \<Rightarrow> string" where
  "quote_symbol quote = upper (text_of (own quote ''symbol''))"

text \<open>A transport key counts only when it names the share of the quote.\<close>

definition symbol_mismatch :: "string \<Rightarrow> string \<Rightarrow> bool" where
  "symbol_mismatch key symbol =
     (let k = strip_exchange_suffix (JStr key); q = strip_exchange_suffix (JStr symbol) in
      symbol \<noteq> [] \<and> k \<noteq> [] \<and> q \<noteq> [] \<and> k \<noteq> q)"

definition upsert_keys :: "string \<Rightarrow> string \<Rightarrow> string list" where
  "upsert_keys key symbol =
     (if symbol_mismatch key symbol then [] else key_forms key) @ (if symbol = [] then [] else key_forms symbol)"

definition upsert_quote :: "string \<Rightarrow> jsval \<Rightarrow> quote_map \<Rightarrow> quote_map" where
  "upsert_quote raw_key raw_value quotes =
     (let quote = normalize_quote (fields_of (js_or raw_value (JObj []))) in
      fold (\<lambda>k. AList.update k quote) (upsert_keys (upper raw_key) (quote_symbol quote)) quotes)"

section \<open>The passes of a fetch\<close>

record fetched =
  fe_quotes :: quote_map
  fe_envelope :: jsval

record price_server =
  sv_batch :: "nat \<Rightarrow> string list \<Rightarrow> jsval option"
  sv_quote :: "string \<Rightarrow> jsval option"
  sv_limited :: "nat \<Rightarrow> nat \<Rightarrow> bool"

definition upsert_all :: "jsval \<Rightarrow> quote_map \<Rightarrow> quote_map" where
  "upsert_all quotes acc = fold (\<lambda>(key, v). upsert_quote key v) (fields_of (js_or quotes (JObj []))) acc"

definition take_batch :: "bool \<Rightarrow> jsval option \<Rightarrow> fetched \<Rightarrow> fetched" where
  "take_batch first_pass answer f =
     (case answer of
        None \<Rightarrow> f
      | Some data \<Rightarrow>
          f\<lparr> fe_quotes := upsert_all (field data ''quotes'') (fe_quotes f),
             fe_envelope :=
               (if first_pass \<and> \<not> truthy (fe_envelope f) \<and> truthy data
                then JObj [(''official'', field data ''official''), (''frozen'', field data ''frozen'')]
                else fe_envelope f) \<rparr>)"

text \<open>A pass over chunks of symbols stops at the first chunk before which the rate limit holds.\<close>

fun run_pass :: "(nat \<Rightarrow> bool) \<Rightarrow> (string list \<Rightarrow> fetched \<Rightarrow> fetched) \<Rightarrow> nat \<Rightarrow> string list list \<Rightarrow> fetched \<Rightarrow> fetched" where
  "run_pass limited f i [] s = s"
| "run_pass limited f i (c # cs) s = (if limited i then s else run_pass limited f (Suc i) cs (f c s))"

definition resolved_in :: "quote_map \<Rightarrow> string \<Rightarrow> bool" where
  "resolved_in quotes s =
     (map_of quotes (ensure_ns_suffix (JStr s)) \<noteq> None \<or> map_of quotes (strip_exchange_suffix (JStr s)) \<noteq> None)"

definition unresolved :: "string list \<Rightarrow> fetched \<Rightarrow> string list" where
  "unresolved symbols f = filter (\<lambda>s. \<not> resolved_in (fe_quotes f) s) symbols"

definition single_quotes :: "(string \<Rightarrow> jsval option) \<Rightarrow> string list \<Rightarrow> fetched \<Rightarrow> fetched" where
  "single_quotes answer symbols f =
     fold (\<lambda>s f. case answer s of
        Some (JObj q) \<Rightarrow> f\<lparr> fe_quotes := upsert_quote s (JObj q) (fe_quotes f) \<rparr>
      | _ \<Rightarrow> f) symbols f"

definition fetch_quotes :: "price_server \<Rightarrow> string list \<Rightarrow> fetched" where
  "fetch_quotes server symbols =
     (let f1 = run_pass (sv_limited server 0) (\<lambda>c. take_batch True (sv_batch server 0 c)) 0 (chunks 20 symbols)
            \<lparr> fe_quotes = [], fe_envelope = JNull \<rparr>
      in if sv_limited server 1 0 then f1
         else
           let f2 = run_pass (sv_limited server 2) (\<lambda>c. take_batch False (sv_batch server 2 c)) 0
                 (chunks 20 (unresolved symbols f1)) f1
           in run_pass (sv_limited server 3) (single_quotes (sv_quote server)) 0 (chunks 10 (unresolved symbols f2)) f2)"

text \<open>Every requested symbol that is resolved is stored in both of its forms.\<close>

definition alias_symbol :: "string \<Rightarrow> quote_map \<Rightarrow> quote_map" where
  "alias_symbol s quotes =
     (let with_ns = ensure_ns_suffix (JStr s); without_ns = strip_exchange_suffix (JStr s) in
      case or_else (map_of quotes with_ns) (or_else (map_of quotes without_ns) (map_of quotes (upper s))) of
        Some q \<Rightarrow> AList.update without_ns q (AList.update with_ns q quotes)
      | None \<Rightarrow> quotes)"

section \<open>Merging\<close>

record merge_state =
  mr_prices :: quote_map
  mr_stamped :: quote_map

definition closed_official_batch :: "bool \<Rightarrow> jsval \<Rightarrow> bool" where
  "closed_official_batch market_open envelope =
     (\<not> market_open \<and> field envelope ''official'' = JBool True \<and> field envelope ''frozen'' = JBool True)"

definition merge_source :: "bool \<Rightarrow> bool \<Rightarrow> string \<Rightarrow> string" where
  "merge_source market_open official_batch src =
     (if market_open then ''poll''
      else if is_authoritative_closed_quote_source (JStr src) then src
      else if official_batch then ''history_snapshot'' else ''eod'')"

definition merge_quote :: "bool \<Rightarrow> bool \<Rightarrow> jsnum \<Rightarrow> string \<times> jsobj \<Rightarrow> merge_state \<Rightarrow> merge_state" where
  "merge_quote market_open official_batch now kq m =
     (case kq of (key, quote) \<Rightarrow>
        let prev = quote_at (mr_prices m) key;
            src = lower_text (js_or (own quote ''source'') (own quote ''_source''));
            source = merge_source market_open official_batch src
        in if \<not> market_open \<and> \<not> official_batch \<and> \<not> is_authoritative_closed_quote_source (JStr src) then m
           else if \<not> should_apply_quote_source market_open (JStr source) (JObj prev) then m
           else
             let stamped = spread quote ([(''_source'', JStr source), (''_updatedAt'', JNum now)]
                   @ (if truthy (own quote ''official'') then [(''official'', JBool True)] else []))
             in m\<lparr> mr_prices := AList.update key stamped (mr_prices m),
                   mr_stamped := AList.update key stamped (mr_stamped m) \<rparr>)"

definition merge_quotes :: "bool \<Rightarrow> bool \<Rightarrow> jsnum \<Rightarrow> quote_map \<Rightarrow> quote_map \<Rightarrow> merge_state" where
  "merge_quotes market_open official_batch now quotes prices =
     fold (merge_quote market_open official_batch now) quotes \<lparr> mr_prices = prices, mr_stamped = [] \<rparr>"

text \<open>
  \<open>fetchPrices\<close> on the three stores it writes: the prices of the watchlist, the closes of the session
  and the store of live quotes.
\<close>

record price_stores =
  pr_prices :: quote_map
  pr_close :: close_state
  pr_market :: market_store

definition watch_symbols :: "watchlist_store \<Rightarrow> string list" where
  "watch_symbols s =
     (case find_list (ws_active s) (ws_lists s) of
        None \<Rightarrow> []
      | Some active \<Rightarrow> filter (\<lambda>x. x \<noteq> []) (map (\<lambda>i. ensure_ns_suffix (field i ''symbol'')) (items_of active)))"

definition fetch_prices :: "bool \<Rightarrow> close_env \<Rightarrow> price_server \<Rightarrow> bool \<Rightarrow> watchlist_store \<Rightarrow> price_stores \<Rightarrow> price_stores" where
  "fetch_prices market_open env server limited_now s ps =
     (let symbols = watch_symbols s in
      if limited_now \<or> symbols = [] then ps
      else
        let f = fetch_quotes server symbols;
            quotes = fold alias_symbol symbols (fe_quotes f);
            official_batch = closed_official_batch market_open (fe_envelope f);
            now = num_of_int (ce_now env);
            m = merge_quotes market_open official_batch now quotes (pr_prices ps);
            source = (if market_open then ''poll'' else if official_batch then ''history_snapshot'' else ''eod'')
        in \<lparr> pr_prices = mr_prices m,
             pr_close = (if market_open then pr_close ps
               else hydrate_session_close env (map (\<lambda>(k, q). (k, JObj q)) quotes) (fe_envelope f) (pr_close ps)),
             pr_market = (if mr_stamped m = [] then pr_market ps
               else batch_update_quotes market_open now (mr_stamped m) source (pr_market ps)) \<rparr>)"

section \<open>Patches\<close>

text \<open>
  One entry of \<open>updatePrices\<close>. It reads the prices the call began with, so that of two patches of one
  key the second does not see the first; keys of an object differ, so there are none.
\<close>

definition patch_price :: "bool \<Rightarrow> quote_map \<Rightarrow> string \<times> jsval \<Rightarrow> quote_map \<times> bool \<Rightarrow> quote_map \<times> bool" where
  "patch_price realtime before kp st =
     (case kp of
        (key, JObj patch) \<Rightarrow>
          let prev = quote_at before key;
              source = js_or (js_or (own patch ''_source'') (own patch ''source'')) (JStr ''live'');
              merged = spread prev patch
          in if key = [] \<or> \<not> should_apply_quote_source realtime source (JObj prev) then st
             else (AList.update key merged (fst st),
               snd st \<or> (\<exists>k \<in> {''price'', ''change'', ''change_percent'', ''prev_close''}. strict_neq (own prev k) (own merged k)))
      | _ \<Rightarrow> st)"

definition update_prices :: "bool \<Rightarrow> jsobj \<Rightarrow> quote_map \<Rightarrow> quote_map" where
  "update_prices realtime patches prices =
     (let st = fold (patch_price realtime prices) patches (prices, False) in if snd st then fst st else prices)"

section \<open>Lemmas on chunks\<close>

lemma chunks_Nil [simp]: "chunks n [] = []"
  by (simp add: chunks.simps)

lemma chunks_Cons: "0 < n \<Longrightarrow> xs \<noteq> [] \<Longrightarrow> chunks n xs = take n xs # chunks n (drop n xs)"
  by (simp add: chunks.simps [of n xs])

text \<open>The chunks are the list, in order, none is longer than a request may be, and there are as few as can be.\<close>

lemma concat_chunks: "0 < n \<Longrightarrow> concat (chunks n xs) = xs"
proof (induction n xs rule: chunks.induct)
  case (1 n xs)
  show ?case
  proof (cases "xs = []")
    case False
    then have "concat (chunks n (drop n xs)) = drop n xs" using 1 by simp
    then show ?thesis unfolding chunks_Cons [OF 1(2) False] by simp
  qed simp
qed

lemma chunks_bounded: "c \<in> set (chunks n xs) \<Longrightarrow> c \<noteq> [] \<and> length c \<le> n"
proof (induction n xs rule: chunks.induct)
  case (1 n xs)
  show ?case
  proof (cases "n = 0 \<or> xs = []")
    case True
    then show ?thesis using 1(2) by (subst (asm) chunks.simps) simp
  next
    case False
    then have "c = take n xs \<or> c \<in> set (chunks n (drop n xs))" using 1(2) chunks_Cons [of n xs] by simp
    then show ?thesis using 1(1) False by auto
  qed
qed

lemma length_chunks: "0 < n \<Longrightarrow> length (chunks n xs) = (length xs + n - 1) div n"
proof (induction n xs rule: chunks.induct)
  case (1 n xs)
  show ?case
  proof (cases "xs = []")
    case False
    have len: "0 < length xs" using False by simp
    have step: "length (chunks n xs) = Suc (length (chunks n (drop n xs)))" unfolding chunks_Cons [OF 1(2) False] by simp
    show ?thesis
    proof (cases "n \<le> length xs")
      case True
      have IH: "length (chunks n (drop n xs)) = (length (drop n xs) + n - 1) div n" using 1 False by blast
      have "length (drop n xs) + n - 1 = length xs - 1" using True len by (simp only: length_drop)
      moreover have "length xs + n - 1 = length xs - 1 + n" using len by linarith
      moreover have "(length xs - 1 + n) div n = Suc ((length xs - 1) div n)" using 1(2) by (simp add: div_add_self2)
      ultimately show ?thesis using step IH by argo
    next
      case short: False
      have "n * 1 \<le> length xs + n - 1" using len by linarith
      moreover have "length xs + n - 1 < n * Suc 1" using short len 1(2) by simp
      ultimately have "(length xs + n - 1) div n = 1" by (rule div_nat_eqI)
      then show ?thesis using step short by simp
    qed
  qed (use 1(2) in simp)
qed

section \<open>Lemmas on quotes\<close>

text \<open>A loop that writes one quote under several keys.\<close>

lemma map_of_puts:
  "map_of (fold (\<lambda>k. AList.update k q) ks m) j = (if j \<in> set ks then Some q else map_of m j)"
  by (induction ks arbitrary: m) (auto simp: update_conv')

text \<open>
  A quote of one share that arrives under the key of another is never stored under a form of that
  key, unless it is also a form of its own symbol.
\<close>

lemma mismatch_not_stored:
  assumes "symbol_mismatch (upper key) (quote_symbol (normalize_quote (fields_of (js_or v (JObj [])))))"
    and "j \<notin> set (key_forms (quote_symbol (normalize_quote (fields_of (js_or v (JObj []))))))"
  shows "map_of (upsert_quote key v quotes) j = map_of quotes j"
  using assms by (simp add: upsert_quote_def Let_def map_of_puts upsert_keys_def)

lemma own_normalize_symbol: "own (normalize_quote q) ''symbol'' = own q ''symbol''"
  by (simp add: normalize_quote_def Let_def own_spread)

text \<open>What a fetch does not bring keeps its last price.\<close>

lemma merge_keeps:
  assumes "j \<notin> fst ` set quotes"
  shows "map_of (mr_prices (merge_quotes mo ob now quotes prices)) j = map_of prices j"
proof -
  have "map_of (mr_prices (fold (merge_quote mo ob now) quotes m)) j = map_of (mr_prices m) j" for m
    using assms by (induction quotes arbitrary: m) (auto simp: merge_quote_def Let_def update_conv' split: prod.split)
  then show ?thesis by (simp add: merge_quotes_def)
qed

lemma merge_brings:
  assumes "(j, q) \<in> set quotes" "distinct (map fst quotes)"
  shows "\<exists>p. map_of (mr_prices (merge_quotes True ob now quotes prices)) j = Some p \<and> own p ''price'' = own q ''price''
    \<and> own p ''_source'' = JStr ''poll''"
proof -
  have put: "map_of (mr_prices (merge_quote True ob now (k, r) m)) i =
      (if i = k then Some (spread r ([(''_source'', JStr ''poll''), (''_updatedAt'', JNum now)]
         @ (if truthy (own r ''official'') then [(''official'', JBool True)] else []))) else map_of (mr_prices m) i)" for k r m i
    by (simp add: merge_quote_def merge_source_def should_apply_quote_source_def Let_def update_conv')
  have keep: "map_of (mr_prices (fold (merge_quote True ob now) rs m)) j = map_of (mr_prices m) j" if "j \<notin> fst ` set rs" for rs m
    using that by (induction rs arbitrary: m) (auto simp: put)
  obtain ys zs where split: "quotes = ys @ (j, q) # zs" using split_list [OF assms(1)] by blast
  then have "j \<notin> fst ` set zs" using assms(2) by auto
  then show ?thesis
    by (auto simp: merge_quotes_def split keep put own_spread own_Cons)
qed

end
