(* ===== verification/Portfolio.thy ===== *)
theory Portfolio
  imports JSValue
begin

text \<open>
  The values of a portfolio at live prices, \<open>frontend/src/utils/portfolioMetrics.js\<close>. A
  symbol is a text, a holding an object; \<open>null\<close> for a missing summary is \<open>JNull\<close>.
\<close>

section \<open>Numbers of fields\<close>

definition to_number_or :: "jsval \<Rightarrow> jsnum \<Rightarrow> jsnum" where
  "to_number_or value fallback = (let n = to_number value in if is_finite n then n else fallback)"

fun pick_number :: "jsval list \<Rightarrow> jsnum" where
  "pick_number [] = Fin 0"
| "pick_number (v # vs) =
     (if is_nullish v \<or> v = JStr [] then pick_number vs
      else let n = to_number v in if is_finite n then n else pick_number vs)"

text \<open>\<open>s.replace(pat, '')\<close>: the first occurrence of a text is removed.\<close>

fun remove_first :: "string \<Rightarrow> string \<Rightarrow> string" where
  "remove_first pat [] = []"
| "remove_first pat (c # s) = (if starts_with (c # s) pat then drop (length pat) (c # s) else c # remove_first pat s)"

definition get_quote_for_symbol :: "jsobj \<Rightarrow> string \<Rightarrow> jsval" where
  "get_quote_for_symbol quotes symbol =
     (if symbol = [] then JNull
      else js_or (own quotes symbol)
        (js_or (own quotes (remove_first ''.NS'' symbol)) (js_or (own quotes (symbol @ ''.NS'')) JNull)))"

section \<open>Live holdings\<close>

definition number_field :: "jsval \<Rightarrow> string \<Rightarrow> jsnum" where
  "number_field row k = to_number_or (nullish (field row k) (JNum (Fin 0))) (Fin 0)"

definition live_price :: "jsobj \<Rightarrow> jsval \<Rightarrow> jsnum" where
  "live_price quotes symbol =
     to_number_or (first_field (get_quote_for_symbol quotes (to_string symbol)) [''price'', ''lp'', ''ltp'', ''last_price'']) NaN"

definition live_holding :: "jsobj \<Rightarrow> jsval \<Rightarrow> jsval" where
  "live_holding quotes holding =
     (let symbol = field holding ''symbol''; price = live_price quotes symbol in
      if \<not> truthy symbol then holding
      else if \<not> is_finite price \<or> price \<le> Fin 0 then holding
      else
        let quantity = number_field holding ''quantity'';
            invested = number_field holding ''avg_price'' * quantity;
            current = price * quantity;
            pnl = current - invested;
            percent = (if Fin 0 < \<bar>invested\<bar> then pnl / \<bar>invested\<bar> * Fin 100 else Fin 0)
        in JObj (spread (fields_of holding)
             [(''current_price'', JNum price), (''current_value'', JNum current), (''invested_value'', JNum invested),
              (''pnl'', JNum pnl), (''pnl_percent'', JNum percent), (''__hasLivePrice'', JBool True)]))"

definition sum_over :: "(jsval \<Rightarrow> jsnum) \<Rightarrow> jsval list \<Rightarrow> jsnum" where
  "sum_over f rows = foldl (\<lambda>s h. s + f h) (Fin 0) rows"

record live_totals =
  lt_invested :: jsnum
  lt_current :: jsnum
  lt_unrealized :: jsnum

definition live_totals_of :: "jsval list \<Rightarrow> live_totals" where
  "live_totals_of rows =
     \<lparr> lt_invested = sum_over (\<lambda>h. \<bar>number_field h ''avg_price'' * number_field h ''quantity''\<bar>) rows,
       lt_current = sum_over (\<lambda>h. \<bar>number_field h ''current_value''\<bar>) rows,
       lt_unrealized = sum_over (\<lambda>h. number_field h ''pnl'') rows \<rparr>"

definition has_live_pricing :: "jsval list \<Rightarrow> bool" where
  "has_live_pricing rows = (\<exists>h \<in> set rows. field h ''__hasLivePrice'' = JBool True)"

definition build_live_holdings :: "jsval list \<Rightarrow> jsobj \<Rightarrow> jsval list \<times> live_totals \<times> bool" where
  "build_live_holdings holdings quotes =
     (let rows = map (live_holding quotes) holdings in (rows, live_totals_of rows, has_live_pricing rows))"

section \<open>Metrics\<close>

record metrics_input =
  mi_summary :: jsval
  mi_pnl :: jsval
  mi_holdings :: "jsval list"
  mi_quotes :: jsobj
  mi_portfolio :: jsval

record portfolio_metrics =
  pm_live_holdings :: "jsval list"
  pm_live_totals :: live_totals
  pm_has_live :: bool
  pm_available_cash :: jsnum
  pm_total_invested :: jsnum
  pm_current_value :: jsnum
  pm_realized :: jsnum
  pm_unrealized :: jsnum
  pm_total_pnl :: jsnum
  pm_total_capital :: jsnum
  pm_total_pnl_pct :: jsnum
  pm_m2m_pct :: jsnum
  pm_invested_pct :: jsnum
  pm_cash_pct :: jsnum

definition build_portfolio_metrics :: "metrics_input \<Rightarrow> portfolio_metrics" where
  "build_portfolio_metrics inp =
     (let summary = mi_summary inp; pnl = mi_pnl inp; portfolio = mi_portfolio inp;
          base = js_or summary (js_or portfolio (JObj []));
          (rows, totals, live) = build_live_holdings (mi_holdings inp) (mi_quotes inp);
          zero = JNum (Fin 0);
          cash = pick_number [field base ''available_capital'', field summary ''available_capital'',
            field portfolio ''available_capital'', field pnl ''available'', zero];
          stated_invested = [field base ''total_invested'', field summary ''total_invested'',
            field portfolio ''total_invested'', zero];
          invested = pick_number (if live then JNum (lt_invested totals) # stated_invested else stated_invested);
          stated_current = [field base ''current_value'', field summary ''current_value'',
            field portfolio ''current_value'', zero];
          current = pick_number (if live then JNum (lt_current totals) # stated_current else stated_current);
          realized = pick_number [field base ''realized_pnl'', field summary ''realized_pnl'', field pnl ''realized'', zero];
          stated_unrealized = [field base ''unrealized_pnl'', field summary ''unrealized_pnl'', field pnl ''unrealized'', zero];
          unrealized = pick_number (if live then JNum (lt_unrealized totals) # stated_unrealized else stated_unrealized);
          total_pnl = pick_number [field base ''total_pnl'', field summary ''total_pnl'', field pnl ''total'',
            JNum (realized + unrealized)];
          capital = pick_number [field base ''net_equity'', field summary ''net_equity'', field portfolio ''net_equity'',
            JNum (cash + current)];
          pct = (\<lambda>x. if Fin 0 < invested then x / \<bar>invested\<bar> * Fin 100 else Fin 0)
      in \<lparr> pm_live_holdings = rows, pm_live_totals = totals, pm_has_live = live, pm_available_cash = cash,
           pm_total_invested = invested, pm_current_value = current, pm_realized = realized,
           pm_unrealized = unrealized, pm_total_pnl = total_pnl, pm_total_capital = capital,
           pm_total_pnl_pct = pick_number [field base ''total_pnl_percent'', field summary ''total_pnl_percent'',
             JNum (pct total_pnl)],
           pm_m2m_pct = pct unrealized,
           pm_invested_pct = (if Fin 0 < capital then \<bar>invested\<bar> / capital * Fin 100 else Fin 0),
           pm_cash_pct = (if Fin 0 < capital then math_max cash (Fin 0) / capital * Fin 100 else Fin 0) \<rparr>)"

text \<open>\<open>canonicalPortfolioValues\<close>: the values under the names that the views use.\<close>

definition canonical_portfolio_values :: "metrics_input \<Rightarrow> (string \<times> jsnum) list" where
  "canonical_portfolio_values inp =
     (let m = build_portfolio_metrics inp in
      [(''totalCapital'', pm_total_capital m), (''availableCash'', pm_available_cash m),
       (''totalInvested'', pm_total_invested m), (''currentValue'', pm_current_value m),
       (''realizedPnl'', pm_realized m), (''unrealizedPnl'', pm_unrealized m), (''totalPnl'', pm_total_pnl m),
       (''totalPnlPct'', pm_total_pnl_pct m), (''liveM2M'', pm_unrealized m),
       (''investedPct'', pm_invested_pct m), (''cashPct'', pm_cash_pct m)])"

section \<open>Lemmas\<close>

lemma pick_number_finite: "is_finite (pick_number vs)"
  by (induction vs rule: pick_number.induct) (auto simp: Let_def)

text \<open>A holding without a live price is passed through.\<close>

lemma live_holding_unpriced:
  "\<not> (is_finite (live_price quotes (field h ''symbol'')) \<and> Fin 0 < live_price quotes (field h ''symbol'')) \<Longrightarrow>
     live_holding quotes h = h"
  by (auto simp: live_holding_def Let_def is_finite_iff)

lemma live_holding_fields:
  assumes "truthy (field h ''symbol'')" "live_price quotes (field h ''symbol'') = Fin p" "0 < p"
  shows "field (live_holding quotes h) ''current_value'' = JNum (Fin p * number_field h ''quantity'')"
    "field (live_holding quotes h) ''pnl'' =
       JNum (Fin p * number_field h ''quantity'' - number_field h ''avg_price'' * number_field h ''quantity'')"
    "field (live_holding quotes h) ''__hasLivePrice'' = JBool True"
    "k \<in> {''quantity'', ''avg_price'', ''symbol''} \<Longrightarrow> field (live_holding quotes h) k = own (fields_of h) k"
  using assms by (auto simp: live_holding_def Let_def own_spread own_Cons)

text \<open>The percentages of the portfolio are never negative.\<close>

lemma nonneg_share: "nonneg m \<Longrightarrow> nonneg (if Fin 0 < c then m / c * Fin 100 else Fin 0)"
  by (cases c) (auto intro!: nonneg_times nonneg_divide)

lemma shares_nonneg:
  "nonneg (pm_cash_pct (build_portfolio_metrics inp))" "nonneg (pm_invested_pct (build_portfolio_metrics inp))"
proof -
  have m: "nonneg (math_max (pick_number vs) (Fin 0))" for vs
    using pick_number_finite [of vs] by (auto simp: is_finite_iff math_max_def)
  show "nonneg (pm_cash_pct (build_portfolio_metrics inp))" "nonneg (pm_invested_pct (build_portfolio_metrics inp))"
    unfolding build_portfolio_metrics_def Let_def split_beta portfolio_metrics.simps
    by (rule nonneg_share, rule m) (rule nonneg_share, rule nonneg_abs)
qed

section \<open>Whole amounts\<close>

text \<open>On whole prices and quantities of long holdings the unrealised result is what the holdings are worth
  less what was paid for them.\<close>

definition whole_holding :: "jsobj \<Rightarrow> jsval \<Rightarrow> int \<times> int \<times> int \<Rightarrow> bool" where
  "whole_holding quotes h pqa =
     (case pqa of (p, q, a) \<Rightarrow>
        truthy (field h ''symbol'') \<and> live_price quotes (field h ''symbol'') = Fin (of_int p) \<and> 0 < p \<and>
        number_field h ''quantity'' = Fin (of_int q) \<and> 0 \<le> q \<and>
        number_field h ''avg_price'' = Fin (of_int a) \<and> 0 \<le> a)"

lemma whole_holding_row:
  assumes "whole_holding quotes h (p, q, a)" "p * q \<le> 2 ^ 53" "a * q \<le> 2 ^ 53"
  shows "\<bar>number_field (live_holding quotes h) ''avg_price'' * number_field (live_holding quotes h) ''quantity''\<bar> = Fin (of_int (a * q))"
    "\<bar>number_field (live_holding quotes h) ''current_value''\<bar> = Fin (of_int (p * q))"
    "number_field (live_holding quotes h) ''pnl'' = Fin (of_int (p * q - a * q))"
proof -
  have w: "truthy (field h ''symbol'')" "live_price quotes (field h ''symbol'') = Fin (of_int p)" "(0 :: rat) < of_int p"
    "number_field h ''quantity'' = Fin (of_int q)" "number_field h ''avg_price'' = Fin (of_int a)" "0 \<le> q" "0 \<le> a" "0 < p"
    using assms(1) by (auto simp: whole_holding_def)
  have f: "field h k = own (fields_of h) k" for k using w(1) by (cases h) (auto simp: own_def)
  note row = live_holding_fields [OF w(1-3)]
  have nn: "0 \<le> p * q" "0 \<le> a * q" using w by simp_all
  have same: "number_field (live_holding quotes h) k = number_field h k" if "k \<in> {''quantity'', ''avg_price''}" for k
    using row(4) [of k] that by (auto simp: number_field_def f)
  have pq: "Fin (of_int p) * Fin (of_int q) = Fin (of_int (p * q))" using assms(2) nn by (intro times_int) simp
  have aq: "Fin (of_int a) * Fin (of_int q) = Fin (of_int (a * q))" using assms(3) nn by (intro times_int) simp
  have d: "Fin (of_int (p * q)) - Fin (of_int (a * q)) = Fin (of_int (p * q - a * q))"
    using assms(2,3) nn by (intro minus_int) (simp add: abs_le_iff)
  have num: "number_field r k = x" if "field r k = JNum x" "is_finite x" for r k x
    using that by (simp add: number_field_def to_number_or_def)
  show "\<bar>number_field (live_holding quotes h) ''avg_price'' * number_field (live_holding quotes h) ''quantity''\<bar> = Fin (of_int (a * q))"
    using nn by (simp only: same insertI1 insertI2 w(4,5) aq) (simp del: of_int_mult)
  show "\<bar>number_field (live_holding quotes h) ''current_value''\<bar> = Fin (of_int (p * q))"
    using num [OF row(1)] nn by (simp only: w(4) pq is_finite_simps) (simp del: of_int_mult)
  show "number_field (live_holding quotes h) ''pnl'' = Fin (of_int (p * q - a * q))"
    using num [OF row(2)] by (simp only: w(4,5) pq aq d is_finite_simps)
qed

lemma whole_totals:
  assumes "list_all2 (whole_holding quotes) hs pqas" "sum_list (map (\<lambda>(p, q, a). p * q + a * q) pqas) \<le> 2 ^ 53"
  shows "live_totals_of (map (live_holding quotes) hs) =
    \<lparr> lt_invested = Fin (of_int (sum_list (map (\<lambda>(p, q, a). a * q) pqas))),
      lt_current = Fin (of_int (sum_list (map (\<lambda>(p, q, a). p * q) pqas))),
      lt_unrealized = Fin (of_int (sum_list (map (\<lambda>(p, q, a). p * q) pqas) - sum_list (map (\<lambda>(p, q, a). a * q) pqas))) \<rparr>"
proof -
  define rs where "rs = zip (map (live_holding quotes) hs) pqas"
  have len: "length hs = length pqas" using assms(1) by (rule list_all2_lengthD)
  then have rows: "map (live_holding quotes) hs = map fst rs" and snds: "pqas = map snd rs" by (simp_all add: rs_def)
  have nn: "0 \<le> p * q \<and> 0 \<le> a * q" if "(p, q, a) \<in> set pqas" for p q a
    using assms(1) that by (auto simp: list_all2_conv_all_nth in_set_conv_nth whole_holding_def)
  have bound: "p * q + a * q \<le> 2 ^ 53" if "(p, q, a) \<in> set pqas" for p q a
  proof -
    have "p * q + a * q \<le> sum_list (map (\<lambda>(p, q, a). p * q + a * q) pqas)"
      using nn imageI [OF that, of "\<lambda>(p, q, a). p * q + a * q"]
      by (intro member_le_sum_list) (auto intro: add_nonneg_nonneg)
    then show ?thesis using assms(2) by simp
  qed
  have row: "\<bar>number_field (fst r) ''avg_price'' * number_field (fst r) ''quantity''\<bar> = Fin (of_int (case snd r of (p, q, a) \<Rightarrow> a * q))"
    "\<bar>number_field (fst r) ''current_value''\<bar> = Fin (of_int (case snd r of (p, q, a) \<Rightarrow> p * q))"
    "number_field (fst r) ''pnl'' = Fin (of_int (case snd r of (p, q, a) \<Rightarrow> p * q - a * q))" if "r \<in> set rs" for r
  proof -
    obtain h p q a where r: "r = (live_holding quotes h, p, q, a)" "whole_holding quotes h (p, q, a)" "(p, q, a) \<in> set pqas"
    proof -
      obtain i where i: "i < length hs" "r = (live_holding quotes (hs ! i), pqas ! i)"
        using \<open>r \<in> set rs\<close> len by (auto simp: rs_def set_zip)
      moreover obtain p q a where "pqas ! i = (p, q, a)" by (cases "pqas ! i") auto
      ultimately show thesis using assms(1) len nth_mem [of i pqas]
        by (intro that [of "hs ! i" p q a]) (auto simp: list_all2_conv_all_nth)
    qed
    from whole_holding_row [OF r(2)] bound [OF r(3)] nn [OF r(3)]
    show "\<bar>number_field (fst r) ''avg_price'' * number_field (fst r) ''quantity''\<bar> = Fin (of_int (case snd r of (p, q, a) \<Rightarrow> a * q))"
      "\<bar>number_field (fst r) ''current_value''\<bar> = Fin (of_int (case snd r of (p, q, a) \<Rightarrow> p * q))"
      "number_field (fst r) ''pnl'' = Fin (of_int (case snd r of (p, q, a) \<Rightarrow> p * q - a * q))" by (simp_all add: r(1))
  qed
  have le: "sum_list (map (\<lambda>r. \<bar>case snd r of (p, q, a) \<Rightarrow> F p q a\<bar>) rs) \<le> 2 ^ 53"
    if "\<And>p q a. (p, q, a) \<in> set pqas \<Longrightarrow> \<bar>F p q a :: int\<bar> \<le> p * q + a * q" for F
  proof -
    have "sum_list (map (\<lambda>r. \<bar>case snd r of (p, q, a) \<Rightarrow> F p q a\<bar>) rs) \<le> sum_list (map (\<lambda>r. case snd r of (p, q, a) \<Rightarrow> p * q + a * q) rs)"
      using that by (intro sum_list_mono) (force simp: snds split: prod.splits)
    also have "\<dots> = sum_list (map (\<lambda>(p, q, a). p * q + a * q) pqas)" by (simp add: snds o_def)
    finally show ?thesis using assms(2) by simp
  qed
  have total: "sum_over f (map fst rs) = Fin (of_int (sum_list (map (\<lambda>(p, q, a). F p q a) pqas)))"
    if "\<And>r. r \<in> set rs \<Longrightarrow> f (fst r) = Fin (of_int (case snd r of (p, q, a) \<Rightarrow> F p q a))"
      "\<And>p q a. (p, q, a) \<in> set pqas \<Longrightarrow> \<bar>F p q a\<bar> \<le> p * q + a * q" for f F
  proof -
    have "sum_over f (map fst rs) = foldl (\<lambda>s r. s + f (fst r)) (Fin (of_int 0)) rs"
      by (simp add: sum_over_def foldl_map)
    also have "\<dots> = Fin (of_int (0 + sum_list (map (\<lambda>r. case snd r of (p, q, a) \<Rightarrow> F p q a) rs)))"
      using that(1) le [OF that(2)] by (intro sum_int_exact) simp_all
    finally show ?thesis by (simp add: snds o_def)
  qed
  have diff: "sum_list (map (\<lambda>(p, q, a). p * q - a * q) xs) =
      sum_list (map (\<lambda>(p, q, a). p * q) xs) - sum_list (map (\<lambda>(p, q, a). a * q) xs)" for xs :: "(int \<times> int \<times> int) list"
    by (induction xs) auto
  show ?thesis unfolding live_totals_of_def rows
    using total [OF row(1)] total [OF row(2)] total [OF row(3)] nn diff by (fastforce simp: abs_le_iff)
qed

end
