(* ===== verification/PortfolioStore.thy ===== *)
theory PortfolioStore
  imports Portfolio
begin

text \<open>
  The portfolio store, \<open>frontend/src/store/usePortfolioStore.js\<close>: what the four requests of a
  refresh leave in it, the optimistic changes of orders and positions, and the live update of the
  holdings with the summary derived from them. The answers of the server are values; a request that
  fails is \<open>None\<close>.
\<close>

section \<open>State\<close>

record portfolio_store =
  ps_holdings :: jsval
  ps_positions :: "jsval list"
  ps_orders :: jsval
  ps_transactions :: jsval
  ps_open_lots :: jsval
  ps_summary :: jsval
  ps_pnl :: jsval
  ps_loading :: bool

definition pnl_obj :: "jsval \<Rightarrow> jsval \<Rightarrow> jsval \<Rightarrow> jsval" where
  "pnl_obj realized unrealized tot = JObj [(''realized'', realized), (''unrealized'', unrealized), (''total'', tot)]"

definition zero_val :: jsval where
  "zero_val = JNum (Fin 0)"

definition initial_portfolio_store :: portfolio_store where
  "initial_portfolio_store = \<lparr> ps_holdings = JArr [], ps_positions = [], ps_orders = JArr [], ps_transactions = JArr [],
     ps_open_lots = JNull, ps_summary = JNull, ps_pnl = pnl_obj zero_val zero_val zero_val, ps_loading = False \<rparr>"

section \<open>Refresh\<close>

text \<open>
  \<open>refreshPortfolio\<close> up to the requests, and after them. The \<open>data\<close> of an answer is read before
  anything is set, so that an answer without a body throws and the old data stay.
\<close>

definition is_first_load :: "portfolio_store \<Rightarrow> bool" where
  "is_first_load s = (ps_summary s = JNull \<and> elements (ps_holdings s) = [])"

definition begin_refresh :: "portfolio_store \<Rightarrow> portfolio_store" where
  "begin_refresh s = (if is_first_load s then s\<lparr> ps_loading := True \<rparr> else s)"

definition answered :: "string \<Rightarrow> jsval \<Rightarrow> jsval option \<Rightarrow> jsval" where
  "answered k fallback answer = (case answer of Some data \<Rightarrow> nullish (field data k) (JArr []) | None \<Rightarrow> fallback)"

definition throws :: "jsval option \<Rightarrow> bool" where
  "throws answer = (case answer of Some data \<Rightarrow> is_nullish data | None \<Rightarrow> False)"

definition finish_refresh ::
  "bool \<Rightarrow> jsval option \<Rightarrow> jsval option \<Rightarrow> jsval option \<Rightarrow> jsval option \<Rightarrow> portfolio_store \<Rightarrow> portfolio_store" where
  "finish_refresh first_load summary_res orders_res transactions_res lots_res s =
     (if throws orders_res \<or> throws transactions_res \<or> throws lots_res
      then (if first_load then s\<lparr> ps_loading := False \<rparr> else s)
      else
        let payload = (case summary_res of Some data \<Rightarrow> data | None \<Rightarrow> JNull);
            summary = nullish (field payload ''summary'') (ps_summary s)
        in s\<lparr> ps_summary := summary,
              ps_holdings := nullish (field payload ''holdings'') (ps_holdings s),
              ps_orders := answered ''orders'' (ps_orders s) orders_res,
              ps_transactions := answered ''transactions'' (ps_transactions s) transactions_res,
              ps_open_lots := answered ''open_lots'' JNull lots_res,
              ps_pnl := pnl_obj (nullish (field summary ''realized_pnl'') zero_val)
                (nullish (field summary ''unrealized_pnl'') zero_val) (nullish (field summary ''total_pnl'') zero_val),
              ps_loading := False \<rparr>)"

section \<open>Optimistic changes\<close>

definition update_position :: "jsval \<Rightarrow> jsobj \<Rightarrow> portfolio_store \<Rightarrow> portfolio_store" where
  "update_position symbol data s =
     s\<lparr> ps_positions := map (\<lambda>p. if \<not> strict_neq (field p ''symbol'') symbol then JObj (spread (fields_of p) data) else p)
          (ps_positions s) \<rparr>"

definition add_order :: "jsval \<Rightarrow> portfolio_store \<Rightarrow> portfolio_store" where
  "add_order order s = s\<lparr> ps_orders := JArr (order # elements (ps_orders s)) \<rparr>"

section \<open>Live quotes\<close>

text \<open>The local \<open>normalize\<close>: a text without an exchange suffix gets the one of the NSE.\<close>

fun position_symbol :: "jsval \<Rightarrow> string" where
  "position_symbol (JStr s) =
     (if s = [] then [] else if starts_with s ''^'' \<or> ends_with s ''.NS'' \<or> ends_with s ''.BO'' then s else s @ ''.NS'')"
| "position_symbol _ = []"

definition raw_number :: "jsval \<Rightarrow> string \<Rightarrow> jsnum" where
  "raw_number row k = to_number (nullish (field row k) zero_val)"

definition quoted_price :: "jsval \<Rightarrow> jsnum" where
  "quoted_price quote = to_number (first_field quote [''price'', ''lp'', ''ltp'', ''last_price''])"

definition priced_fields :: "jsnum \<Rightarrow> jsval \<Rightarrow> jsobj" where
  "priced_fields price h =
     (let quantity = raw_number h ''quantity'';
          invested = raw_number h ''avg_price'' * quantity;
          current = price * quantity;
          pnl = current - invested;
          percent = (if Fin 0 < \<bar>invested\<bar> then pnl / \<bar>invested\<bar> * Fin 100 else Fin 0)
      in [(''current_price'', JNum price), (''current_value'', JNum current), (''invested_value'', JNum invested),
          (''pnl'', JNum pnl), (''pnl_percent'', JNum percent)])"

definition priced_row :: "string \<Rightarrow> jsnum \<Rightarrow> jsval \<Rightarrow> jsval" where
  "priced_row incoming price h =
     (if position_symbol (field h ''symbol'') \<noteq> incoming then h
      else JObj (spread (fields_of h) (priced_fields price h)))"

definition row_invested :: "jsval \<Rightarrow> jsnum" where
  "row_invested h =
     to_number (nullish (field h ''invested_value'') (JNum (raw_number h ''avg_price'' * raw_number h ''quantity'')))"

definition summary_fields :: "portfolio_store \<Rightarrow> jsval list \<Rightarrow> jsobj" where
  "summary_fields s rows =
     (let invested = sum_over row_invested rows;
          current = sum_over (\<lambda>h. raw_number h ''current_value'') rows;
          unrealized = sum_over (\<lambda>h. raw_number h ''pnl'') rows;
          realized = to_number (nullish (field (ps_summary s) ''realized_pnl'')
            (nullish (field (ps_pnl s) ''realized'') zero_val));
          tot = realized + unrealized;
          base = raw_number (ps_summary s) ''base_capital'';
          denominator = (if Fin 0 < base then base else \<bar>invested\<bar>);
          net_equity = (if Fin 0 < base then base + tot else raw_number (ps_summary s) ''available_capital'' + current)
      in [(''total_invested'', JNum invested), (''current_value'', JNum current), (''unrealized_pnl'', JNum unrealized),
          (''realized_pnl'', JNum realized), (''total_pnl'', JNum tot),
          (''total_pnl_percent'', JNum (if Fin 0 < denominator then tot / denominator * Fin 100 else Fin 0)),
          (''net_equity'', JNum net_equity)])"

definition derived_state :: "portfolio_store \<Rightarrow> jsval list \<Rightarrow> portfolio_store" where
  "derived_state s rows =
     (let fields = summary_fields s rows in
      s\<lparr> ps_holdings := JArr rows,
         ps_summary := (if truthy (ps_summary s) then JObj (spread (fields_of (ps_summary s)) fields) else ps_summary s),
         ps_pnl := pnl_obj (own fields ''realized_pnl'') (own fields ''unrealized_pnl'') (own fields ''total_pnl'') \<rparr>)"

definition apply_live_quote :: "jsval \<Rightarrow> jsval \<Rightarrow> portfolio_store \<Rightarrow> portfolio_store" where
  "apply_live_quote symbol quote s =
     (if \<not> truthy symbol then s
      else
        let incoming = position_symbol symbol; price = quoted_price quote in
        if \<not> is_finite price \<or> price \<le> Fin 0 then s
        else if list_ex (\<lambda>h. position_symbol (field h ''symbol'') = incoming) (elements (ps_holdings s))
          then derived_state s (map (priced_row incoming price) (elements (ps_holdings s)))
          else s)"

section \<open>Lemmas\<close>

lemma spread_Nil [simp]: "spread a [] = a"
  by (simp add: spread_def)

lemma spread_Cons [simp]: "spread a ((k, v) # b) = spread (set_field k v a) b"
  by (simp add: spread_def)

text \<open>Writing what is there already changes nothing.\<close>

lemma set_same: "map_of fs k = Some v \<Longrightarrow> set_field k v fs = fs"
  unfolding set_field_def by (induction fs) (auto split: if_splits)

lemma spread_same: "\<forall>(k, v) \<in> set b. map_of a k = Some v \<Longrightarrow> spread a b = a"
  by (induction b) (auto simp: set_same)

lemma spread_idem:
  assumes "distinct (map fst b)"
  shows "spread (spread a b) b = spread a b"
proof (rule spread_same, clarify)
  fix k v assume "(k, v) \<in> set b"
  then have "map_of b k = Some v" using assms by simp
  then show "map_of (spread a b) k = Some v" by (simp add: map_of_spread map_of_rev [OF assms] map_add_def)
qed

lemma distinct_priced: "distinct (map fst (priced_fields price h))"
  by (simp add: priced_fields_def Let_def)

lemma keys_priced:
  "fst ` set (priced_fields price h) = {''current_price'', ''current_value'', ''invested_value'', ''pnl'', ''pnl_percent''}"
  by (auto simp: priced_fields_def Let_def)

lemma own_fields_of: "field h k = own (fields_of h) k"
  by (cases h) auto

lemma priced_row_keeps:
  "k \<notin> {''current_price'', ''current_value'', ''invested_value'', ''pnl'', ''pnl_percent''} \<Longrightarrow>
     field (priced_row incoming price h) k = field h k"
  by (simp add: priced_row_def own_spread [OF distinct_priced] keys_priced own_fields_of [of h])

lemma priced_row_idem: "priced_row incoming price (priced_row incoming price h) = priced_row incoming price h"
proof (cases "position_symbol (field h ''symbol'') = incoming")
  case True
  have "priced_fields price (priced_row incoming price h) = priced_fields price h"
    by (simp add: priced_fields_def raw_number_def priced_row_keeps)
  with True show ?thesis
    by (simp add: priced_row_def [of _ _ "priced_row incoming price h"] priced_row_keeps)
      (simp add: priced_row_def spread_idem [OF distinct_priced])
qed (simp add: priced_row_def)

text \<open>A priced row holds its value and its result at the live price.\<close>

lemma priced_row_values:
  assumes "position_symbol (field h ''symbol'') = incoming"
  shows "field (priced_row incoming price h) ''current_value'' = JNum (price * raw_number h ''quantity'')"
    "field (priced_row incoming price h) ''pnl'' =
       JNum (price * raw_number h ''quantity'' - raw_number h ''avg_price'' * raw_number h ''quantity'')"
    "field (priced_row incoming price h) ''invested_value'' = JNum (raw_number h ''avg_price'' * raw_number h ''quantity'')"
  using assms
  by (simp_all add: priced_row_def own_spread [OF distinct_priced] keys_priced) (simp_all add: priced_fields_def Let_def own_Cons)

lemma distinct_summary: "distinct (map fst (summary_fields s rows))"
  by (simp add: summary_fields_def Let_def)

lemma keys_summary:
  "fst ` set (summary_fields s rows) = {''total_invested'', ''current_value'', ''unrealized_pnl'', ''realized_pnl'',
     ''total_pnl'', ''total_pnl_percent'', ''net_equity''}"
  by (auto simp: summary_fields_def Let_def)

text \<open>The derived figures depend on the realised result and the capital only, which they keep.\<close>

lemma summary_again: "summary_fields (derived_state s rows) rows = summary_fields s rows"
proof -
  let ?f = "summary_fields s rows" and ?s = "derived_state s rows"
  have kept: "raw_number (ps_summary ?s) k = raw_number (ps_summary s) k"
    if "k \<in> {''base_capital'', ''available_capital''}" for k
    using that by (auto simp: derived_state_def Let_def raw_number_def own_spread [OF distinct_summary] keys_summary own_fields_of)
  obtain r where r: "own ?f ''realized_pnl'' = JNum r"
      "r = to_number (nullish (field (ps_summary s) ''realized_pnl'') (nullish (field (ps_pnl s) ''realized'') zero_val))"
    by (simp add: summary_fields_def Let_def own_Cons)
  have realized: "to_number (nullish (field (ps_summary ?s) ''realized_pnl'')
      (nullish (field (ps_pnl ?s) ''realized'') zero_val)) = r"
  proof (cases "truthy (ps_summary s)")
    case True
    then show ?thesis using r(1)
      by (simp add: derived_state_def Let_def own_spread [OF distinct_summary] keys_summary)
  next
    case False
    then have "field (ps_summary s) ''realized_pnl'' = Undefined" by (cases "ps_summary s") auto
    with False show ?thesis using r(1) by (simp add: derived_state_def Let_def pnl_obj_def own_Cons)
  qed
  show ?thesis unfolding summary_fields_def Let_def realized kept [OF insertI1] kept [OF insertI2 [OF singletonI]]
    unfolding r(2) by simp
qed

lemma derived_idem: "derived_state (derived_state s rows) rows = derived_state s rows"
  unfolding derived_state_def [of "derived_state s rows"] summary_again
  by (auto simp: derived_state_def Let_def spread_idem [OF distinct_summary])

text \<open>A quote that arrives twice has the effect of one: nothing accumulates.\<close>

lemma live_quote_idem:
  "apply_live_quote symbol quote (apply_live_quote symbol quote s) = apply_live_quote symbol quote s"
proof -
  define rows where "rows = map (priced_row (position_symbol symbol) (quoted_price quote)) (elements (ps_holdings s))"
  have again: "map (priced_row (position_symbol symbol) (quoted_price quote)) rows = rows"
    by (simp add: rows_def priced_row_idem)
  have ex: "list_ex (\<lambda>h. position_symbol (field h ''symbol'') = i) rows =
      list_ex (\<lambda>h. position_symbol (field h ''symbol'') = i) (elements (ps_holdings s))" for i
    by (simp add: rows_def list_ex_iff priced_row_keeps)
  have el: "elements (ps_holdings (derived_state s rows)) = rows" by (simp add: derived_state_def Let_def)
  show ?thesis
    by (simp add: apply_live_quote_def [of _ _ s] Let_def flip: rows_def)
      (auto simp: apply_live_quote_def Let_def el ex again derived_idem simp flip: rows_def)
qed

text \<open>A quote of a symbol that is not held, or without a positive price, changes nothing.\<close>

lemma live_quote_ignored:
  assumes "\<not> list_ex (\<lambda>h. position_symbol (field h ''symbol'') = position_symbol symbol) (elements (ps_holdings s))
    \<or> \<not> (is_finite (quoted_price quote) \<and> Fin 0 < quoted_price quote)"
  shows "apply_live_quote symbol quote s = s"
  using assms by (auto simp: apply_live_quote_def Let_def is_finite_iff)

text \<open>The rows agree with the live holdings of the portfolio metrics.\<close>

lemma agrees_with_metrics:
  assumes "position_symbol (field h ''symbol'') = incoming" "truthy (field h ''symbol'')"
    and "live_price quotes (field h ''symbol'') = Fin p" "0 < p"
    and "is_finite (raw_number h ''quantity'')" "is_finite (raw_number h ''avg_price'')"
    and "k \<in> {''current_price'', ''current_value'', ''invested_value'', ''pnl'', ''pnl_percent'', ''quantity'', ''avg_price''}"
  shows "field (priced_row incoming (Fin p) h) k = field (live_holding quotes h) k"
proof -
  have n: "number_field h j = raw_number h j" if "j \<in> {''quantity'', ''avg_price''}" for j
    using that assms(5,6) by (auto simp: number_field_def raw_number_def to_number_or_def zero_val_def)
  show ?thesis using assms(1-4,7)
    by (auto simp: priced_row_def own_spread [OF distinct_priced] keys_priced live_holding_def Let_def own_spread own_Cons
        priced_fields_def n)
qed

text \<open>A refresh that fails keeps the data; one that succeeds ends the loading state.\<close>

lemma refresh_throws_keeps:
  "throws o1 \<or> throws o2 \<or> throws o3 \<Longrightarrow>
     finish_refresh first_load sm o1 o2 o3 s = s\<lparr> ps_loading := (ps_loading s \<and> \<not> first_load) \<rparr>"
  by (auto simp: finish_refresh_def)

lemma refresh_all_failed:
  assumes "finish_refresh first_load None None None None s = s'"
  shows "ps_holdings s' = ps_holdings s" "ps_orders s' = ps_orders s" "ps_transactions s' = ps_transactions s"
    "ps_summary s' = ps_summary s" "ps_open_lots s' = JNull" "\<not> ps_loading s'"
  using assms by (auto simp: finish_refresh_def throws_def answered_def Let_def)

text \<open>No refresh leaves the spinner on: the flag is off after every refresh that showed it.\<close>

lemma refresh_ends_loading:
  "\<not> ps_loading s \<Longrightarrow> \<not> ps_loading (finish_refresh (is_first_load s) sm o1 o2 o3 (begin_refresh s))"
  by (auto simp: finish_refresh_def begin_refresh_def Let_def)

end
