(* ===== verification/Reconciliation.thy ===== *)
theory Reconciliation
  imports WatchlistPrices PortfolioStore
begin

text \<open>
  The reconciliation after the close: \<open>frontend/src/market/EODReconciliationEngine.js\<close>, the prefetch
  of closes, \<open>frontend/src/market/sessionClosePrefetch.js\<close>, and the store of indices and ticker items,
  \<open>frontend/src/stores/useMarketIndicesStore.js\<close>. Answers of the server are arguments, \<open>None\<close> where a
  request fails; timers are armed or not, and their firing is an event.
\<close>

section \<open>Indices and ticker\<close>

record indices_store =
  ix_indices :: "jsval list"
  ix_ticker :: "jsval list"
  ix_loading :: bool
  ix_interval :: "nat option"
  ix_failures :: nat

definition initial_indices_store :: indices_store where
  "initial_indices_store = \<lparr> ix_indices = [], ix_ticker = [], ix_loading = False, ix_interval = None, ix_failures = 0 \<rparr>"

text \<open>The answer of a fetch that has a body; without one the read of its field throws.\<close>

definition body_field :: "string \<Rightarrow> jsval option \<Rightarrow> jsval list option" where
  "body_field k answer =
     (case answer of
        Some data \<Rightarrow> if is_nullish data then None else Some (elements (field data k))
      | None \<Rightarrow> None)"

definition fetch_indices :: "jsval option \<Rightarrow> indices_store \<Rightarrow> indices_store" where
  "fetch_indices answer s =
     (case body_field ''indices'' answer of
        Some items \<Rightarrow> s\<lparr> ix_indices := items, ix_loading := False \<rparr>
      | None \<Rightarrow> s\<lparr> ix_loading := False \<rparr>)"

definition is_index_item :: "jsval \<Rightarrow> bool" where
  "is_index_item i = (field i ''kind'' = JStr ''index'')"

definition fetch_ticker :: "jsval option \<Rightarrow> indices_store \<Rightarrow> indices_store" where
  "fetch_ticker answer s =
     (case body_field ''items'' answer of
        Some items \<Rightarrow> s\<lparr> ix_ticker := items, ix_indices := filter is_index_item items, ix_failures := 0 \<rparr>
      | None \<Rightarrow> s\<lparr> ix_failures := Suc (ix_failures s) \<rparr>)"

definition start_polling :: "nat \<Rightarrow> indices_store \<Rightarrow> indices_store \<times> bool" where
  "start_polling timer s =
     (if ix_interval s \<noteq> None then (s, False) else (s\<lparr> ix_loading := True, ix_interval := Some timer \<rparr>, True))"

definition stop_polling :: "indices_store \<Rightarrow> indices_store" where
  "stop_polling s = s\<lparr> ix_interval := None \<rparr>"

section \<open>Prefetch of closes\<close>

definition unique_symbols :: "jsval list \<Rightarrow> string list" where
  "unique_symbols symbols =
     unique (filter (\<lambda>s. s \<noteq> [])
       (map (\<lambda>v. case normalize_symbol v of Some s \<Rightarrow> non_empty_or s (symbol_text v) | None \<Rightarrow> symbol_text v) symbols))"

definition missing_closes :: "close_env \<Rightarrow> close_state \<Rightarrow> string list \<Rightarrow> string list" where
  "missing_closes env st symbols =
     filter (\<lambda>s. \<not> truthy (get_session_close_price (ce_realtime env) (cs_cache st) (JStr s))) symbols"

definition prefetch_chunk :: "close_env \<Rightarrow> jsval option \<Rightarrow> close_state \<Rightarrow> close_state" where
  "prefetch_chunk env answer st =
     (case answer of
        Some data \<Rightarrow> hydrate_session_close env (fields_of (js_or (field data ''quotes'') (JObj []))) (js_or data JNull) st
      | None \<Rightarrow> st)"

fun prefetch_chunks ::
  "close_env \<Rightarrow> (nat \<Rightarrow> bool) \<Rightarrow> (string list \<Rightarrow> jsval option) \<Rightarrow> nat \<Rightarrow> string list list \<Rightarrow> close_state \<Rightarrow> close_state" where
  "prefetch_chunks env limited answer i [] st = st"
| "prefetch_chunks env limited answer i (c # cs) st =
     (if limited i then st else prefetch_chunks env limited answer (Suc i) cs (prefetch_chunk env (answer c) st))"

text \<open>\<open>prefetchSessionClosePrices\<close> where no other prefetch is under way.\<close>

definition prefetch_session_closes ::
  "close_env \<Rightarrow> (nat \<Rightarrow> bool) \<Rightarrow> (string list \<Rightarrow> jsval option) \<Rightarrow> jsval list \<Rightarrow> close_state \<Rightarrow> close_state" where
  "prefetch_session_closes env limited answer symbols st =
     (if ce_realtime env then st
      else
        let st' = fst (restore_session_close env st) in
        prefetch_chunks env limited answer 0 (chunks 40 (missing_closes env st' (unique_symbols symbols))) st')"

definition collect_watchlist_symbols :: "jsobj list \<Rightarrow> jsval list" where
  "collect_watchlist_symbols ws =
     concat (map (\<lambda>w. filter truthy (map (\<lambda>i. field i ''symbol'') (items_of w))) ws)"

section \<open>Symbols to reconcile\<close>

definition collect_tracked_symbols ::
  "market_store \<Rightarrow> watchlist_store \<Rightarrow> portfolio_store \<Rightarrow> indices_store \<Rightarrow> jsval list" where
  "collect_tracked_symbols market wl portfolio ix =
     (let symbols_in = (\<lambda>rows. filter truthy (map (\<lambda>r. field r ''symbol'') rows));
          active = (case find_list (ws_active wl) (ws_lists wl) of Some w \<Rightarrow> items_of w | None \<Rightarrow> []);
          symbols = unique ((if truthy (ms_selected market) then [ms_selected market] else [])
            @ map JStr (ms_watchlist market) @ map (\<lambda>(k, q). JStr k) (ms_symbols market)
            @ symbols_in active @ symbols_in (elements (ps_holdings portfolio))
            @ symbols_in (ix_ticker ix) @ symbols_in (ix_indices ix))
      in unique (filter truthy (map (\<lambda>v. case normalize_symbol v of Some s \<Rightarrow> JStr s | None \<Rightarrow> v) symbols)))"

section \<open>Official quotes\<close>

definition fetch_step :: "(jsval list \<Rightarrow> jsval option) \<Rightarrow> jsval list \<Rightarrow> jsobj \<times> jsval \<Rightarrow> jsobj \<times> jsval" where
  "fetch_step answer chunk st =
     (case answer chunk of
        None \<Rightarrow> st
      | Some data \<Rightarrow>
          (spread (fst st) (fields_of (nullish (field data ''quotes'') (JObj []))),
           if \<not> truthy (snd st) \<and> truthy data
           then JObj [(''source'', field data ''source''), (''market_state'', field data ''market_state''),
             (''frozen'', field data ''frozen''), (''official'', field data ''official'')]
           else snd st))"

definition fetch_batch_quotes :: "(jsval list \<Rightarrow> jsval option) \<Rightarrow> jsval list \<Rightarrow> jsobj \<times> jsval" where
  "fetch_batch_quotes answer symbols = fold (fetch_step answer) (chunks 40 symbols) ([], JNull)"

definition eod_source_text :: "jsobj \<Rightarrow> string" where
  "eod_source_text q = lower_text (js_or (own q ''source'') (own q ''_source''))"

definition is_official_quote :: "jsobj \<Rightarrow> jsval \<Rightarrow> bool" where
  "is_official_quote q meta =
     (field meta ''official'' = JBool True \<or> eod_source_text q = ''official_eod_close'' \<or>
      eod_source_text q = ''history_snapshot'' \<or> own q ''official'' = JBool True)"

definition eod_price :: "jsobj \<Rightarrow> jsnum" where
  "eod_price q = to_number (first_field (JObj q) [''price'', ''ltp'', ''lp''])"

definition eod_source :: "string \<Rightarrow> string" where
  "eod_source src = (if src = ''official_eod_close'' \<or> src = ''history_snapshot'' then src else ''eod'')"

definition stamp_quote :: "jsnum \<Rightarrow> jsobj \<Rightarrow> jsobj" where
  "stamp_quote now q =
     (let source = JStr (eod_source (eod_source_text q)) in
      spread q [(''price'', JNum (eod_price q)), (''_source'', source), (''source'', source), (''official'', JBool True),
        (''frozen'', JBool True), (''_updatedAt'', JNum now), (''_reconciledAt'', JNum now)])"

text \<open>One entry: the stamped quotes of this run, and the cache of all of them.\<close>

definition stamp_step :: "jsnum \<Rightarrow> jsval \<Rightarrow> string \<times> jsval \<Rightarrow> quote_map \<times> quote_map \<Rightarrow> quote_map \<times> quote_map" where
  "stamp_step now meta kq st =
     (case kq of
        (s, JObj q) \<Rightarrow>
          if \<not> is_finite (eod_price q) \<or> eod_price q \<le> Fin 0 \<or> \<not> is_official_quote q meta then st
          else (AList.update s (stamp_quote now q) (fst st), AList.update s (stamp_quote now q) (snd st))
      | _ \<Rightarrow> st)"

definition stamp_eod_quotes :: "jsnum \<Rightarrow> jsval \<Rightarrow> jsobj \<Rightarrow> quote_map \<Rightarrow> quote_map \<times> quote_map" where
  "stamp_eod_quotes now meta quotes cache = fold (stamp_step now meta) quotes ([], cache)"

section \<open>The stores a reconciliation writes\<close>

record eod_stores =
  eo_close :: close_state
  eo_market :: market_store
  eo_prices :: quote_map
  eo_portfolio :: portfolio_store
  eo_indices :: indices_store
  eo_cache :: quote_map

definition as_object :: "quote_map \<Rightarrow> jsobj" where
  "as_object quotes = map (\<lambda>(k, q). (k, JObj q)) quotes"

definition official_frozen :: jsval where
  "official_frozen = JObj [(''official'', JBool True), (''frozen'', JBool True)]"

definition apply_to_stores :: "close_env \<Rightarrow> quote_map \<Rightarrow> eod_stores \<Rightarrow> eod_stores" where
  "apply_to_stores env stamped s =
     (if stamped = [] then s
      else s\<lparr> eo_close := hydrate_session_close env (as_object stamped) official_frozen (eo_close s),
              eo_market := batch_update_quotes (ce_realtime env) (num_of_int (ce_now env)) stamped ''eod'' (eo_market s),
              eo_prices := update_prices (ce_realtime env) (as_object stamped) (eo_prices s),
              eo_portfolio := fold (\<lambda>(k, q). apply_live_quote (JStr k) (JObj q)) stamped (eo_portfolio s) \<rparr>)"

definition reconcile_ticker :: "bool \<Rightarrow> jsobj \<Rightarrow> jsobj \<Rightarrow> jsval option \<Rightarrow> jsval option \<Rightarrow> indices_store \<Rightarrow> indices_store" where
  "reconcile_ticker realtime cache stamped ticker_res indices_res s =
     (let resolve = (\<lambda>item. if stamped = [] then item else resolve_ticker_item realtime cache item stamped stamped);
          s1 = (case ticker_res of
              Some data \<Rightarrow>
                let items = elements (field (js_or data (JObj [])) ''items'') in
                if items = [] then s
                else s\<lparr> ix_ticker := map resolve items, ix_indices := map resolve (filter is_index_item items), ix_failures := 0 \<rparr>
            | None \<Rightarrow>
                (case indices_res of
                   Some data \<Rightarrow>
                     let items = elements (field data ''indices'') in if items = [] then s else s\<lparr> ix_indices := items \<rparr>
                 | None \<Rightarrow> s))
      in if stamped \<noteq> [] \<and> ix_ticker s1 \<noteq> [] then s1\<lparr> ix_ticker := map resolve (ix_ticker s1) \<rparr> else s1)"

record eod_answers =
  ea_batch :: "jsval list \<Rightarrow> jsval option"
  ea_ticker :: "jsval option"
  ea_indices :: "jsval option"

text \<open>\<open>executeReconciliation\<close>; the flag says whether the run counts as the last one.\<close>

definition execute_reconciliation ::
  "close_env \<Rightarrow> bool \<Rightarrow> string \<Rightarrow> watchlist_store \<Rightarrow> eod_answers \<Rightarrow> eod_stores \<Rightarrow> eod_stores \<times> bool" where
  "execute_reconciliation env session_open reason wl answers s =
     (if session_open \<and> reason \<noteq> ''manual'' then (s, False)
      else
        let symbols = collect_tracked_symbols (eo_market s) wl (eo_portfolio s) (eo_indices s);
            ticker = (\<lambda>s. s\<lparr> eo_indices := reconcile_ticker (ce_realtime env) (cs_cache (eo_close s)) (as_object (eo_cache s))
              (ea_ticker answers) (ea_indices answers) (eo_indices s) \<rparr>)
        in if symbols = [] then (ticker s, False)
           else
             let (quotes, meta) = fetch_batch_quotes (ea_batch answers) symbols;
                 (stamped, cache) = stamp_eod_quotes (num_of_int (ce_now env)) meta quotes (eo_cache s)
             in (ticker (apply_to_stores env stamped (s\<lparr> eo_cache := cache \<rparr>)), True))"

section \<open>Timers\<close>

text \<open>
  The debounced entry point and the timer of an idle socket. An armed debounce timer holds its reason,
  a run under way too.
\<close>

record reconcile_timers =
  rt_debounce :: "string option"
  rt_inflight :: "string option"
  rt_idle :: bool
  rt_last_run :: int

datatype timer_event = RunRequested string | DebounceFires | RunEnds bool int | TickReceived
  | IdleScheduled bool | IdleFires int

definition new_timers :: reconcile_timers where
  "new_timers = \<lparr> rt_debounce = None, rt_inflight = None, rt_idle = False, rt_last_run = 0 \<rparr>"

fun timer_step :: "timer_event \<Rightarrow> reconcile_timers \<Rightarrow> reconcile_timers" where
  "timer_step (RunRequested reason) t = t\<lparr> rt_debounce := Some reason \<rparr>"
| "timer_step DebounceFires t =
     (case rt_debounce t of
        None \<Rightarrow> t
      | Some reason \<Rightarrow>
          t\<lparr> rt_debounce := None, rt_inflight := (if rt_inflight t = None then Some reason else rt_inflight t) \<rparr>)"
| "timer_step (RunEnds completed now) t =
     t\<lparr> rt_inflight := None,
        rt_last_run := (if completed \<and> rt_inflight t \<noteq> None then now else rt_last_run t) \<rparr>"
| "timer_step TickReceived t = t\<lparr> rt_idle := False \<rparr>"
| "timer_step (IdleScheduled session_open) t = t\<lparr> rt_idle := \<not> session_open \<rparr>"
| "timer_step (IdleFires now) t =
     (if \<not> rt_idle t then t
      else if 60000 < now - rt_last_run t then t\<lparr> rt_idle := False, rt_debounce := Some ''ws_idle'' \<rparr>
      else t\<lparr> rt_idle := False \<rparr>)"

definition run_events :: "timer_event list \<Rightarrow> reconcile_timers \<Rightarrow> reconcile_timers" where
  "run_events evs t = fold timer_step evs t"

section \<open>Lemmas\<close>

lemma run_events_simps [simp]:
  "run_events [] t = t" "run_events (e # es) t = run_events es (timer_step e t)"
  "run_events (es @ fs) t = run_events fs (run_events es t)"
  by (simp_all add: run_events_def)

text \<open>A burst of requests makes one run, for the reason of the last request.\<close>

lemma requests_debounced:
  "rs \<noteq> [] \<Longrightarrow> run_events (map RunRequested rs) t = t\<lparr> rt_debounce := Some (last rs) \<rparr>"
proof (induction rs arbitrary: t)
  case (Cons r rs)
  then show ?case by (cases "rs = []") auto
qed simp

lemma burst_runs_once:
  assumes "rs \<noteq> []" "rt_inflight t = None"
  shows "rt_inflight (run_events (map RunRequested rs @ [DebounceFires]) t) = Some (last rs)"
    and "rt_debounce (run_events (map RunRequested rs @ [DebounceFires]) t) = None"
  using requests_debounced [OF assms(1), of t] assms(2) by simp_all

text \<open>A request whose timer fires during a run is dropped: it is neither run nor kept.\<close>

lemma request_during_run_lost:
  assumes "rt_inflight t = Some running"
  shows "run_events [RunRequested reason, DebounceFires] t = t\<lparr> rt_debounce := None \<rparr>"
  using assms by simp

text \<open>A tick keeps the idle timer from asking for a run, until the timer is scheduled again.\<close>

lemma tick_stops_idle:
  assumes "\<And>b. IdleScheduled b \<notin> set es"
  shows "\<not> rt_idle (run_events (TickReceived # es) t)"
proof -
  have "\<not> rt_idle s \<Longrightarrow> \<not> rt_idle (run_events es s)" for s using assms
  proof (induction es arbitrary: s)
    case (Cons e es)
    then have "\<not> rt_idle (timer_step e s)" by (cases e) (auto split: option.split)
    with Cons show ?case by simp
  qed simp
  then show ?thesis by simp
qed

text \<open>Polling: one timer at most, and a failed request keeps the last items.\<close>

lemma polling_once: "snd (start_polling t1 s) \<Longrightarrow> start_polling t2 (fst (start_polling t1 s)) = (fst (start_polling t1 s), False)"
  by (simp add: start_polling_def split: if_splits)

lemma stop_restarts: "snd (start_polling t (stop_polling s))"
  by (simp add: start_polling_def stop_polling_def)

lemma ticker_failure_keeps:
  "ix_ticker (fetch_ticker None s) = ix_ticker s \<and> ix_indices (fetch_ticker None s) = ix_indices s \<and>
     ix_failures (fetch_ticker None s) = ix_failures s + 1"
  by (simp add: fetch_ticker_def body_field_def)

section \<open>Stamped quotes\<close>

text \<open>What a reconciliation stamps: an official quote with a positive price, under an authoritative source.\<close>

definition stamped_ok :: "jsobj \<Rightarrow> bool" where
  "stamped_ok q \<longleftrightarrow> is_finite (eod_price q) \<and> Fin 0 < eod_price q \<and> own q ''price'' = JNum (eod_price q) \<and>
     own q ''official'' = JBool True \<and> own q ''_source'' \<in> {JStr ''official_eod_close'', JStr ''history_snapshot'', JStr ''eod''}"

lemma own_stamp:
  "own (stamp_quote now q) ''price'' = JNum (eod_price q)" "own (stamp_quote now q) ''official'' = JBool True"
  "own (stamp_quote now q) ''_source'' = JStr (eod_source (eod_source_text q))"
  by (simp_all add: stamp_quote_def Let_def own_spread own_Cons)

lemma eod_price_stamp: "eod_price (stamp_quote now q) = eod_price q"
  by (simp add: eod_price_def [of "stamp_quote now q"] own_stamp)

lemma stamp_ok: "is_finite (eod_price q) \<Longrightarrow> \<not> eod_price q \<le> Fin 0 \<Longrightarrow> stamped_ok (stamp_quote now q)"
  by (auto simp: stamped_ok_def eod_price_stamp own_stamp eod_source_def is_finite_iff)

lemma set_update: "(k, v) \<in> set (AList.update j w xs) \<Longrightarrow> (k, v) = (j, w) \<or> (k, v) \<in> set xs"
  by (induction xs) (auto split: if_splits)

lemma stamp_step_cases:
  obtains (skipped) "stamp_step now meta kq st = st"
  | (stamped) s q where "kq = (s, JObj q)" "is_finite (eod_price q)" "\<not> eod_price q \<le> Fin 0" "is_official_quote q meta"
      "stamp_step now meta kq st = (AList.update s (stamp_quote now q) (fst st), AList.update s (stamp_quote now q) (snd st))"
proof (cases "stamp_step now meta kq st = st")
  case False
  then obtain s q where "kq = (s, JObj q)"
    by (cases kq) (auto simp: stamp_step_def split: jsval.splits)
  with False show ?thesis using stamped [of s q] by (auto simp: stamp_step_def split: if_splits)
qed (rule skipped)

definition all_quotes :: "(string \<times> jsobj \<Rightarrow> bool) \<Rightarrow> quote_map \<Rightarrow> bool" where
  "all_quotes P xs = (\<forall>kq \<in> set xs. P kq)"

lemma all_quotes_update: "all_quotes P xs \<Longrightarrow> P (k, q) \<Longrightarrow> all_quotes P (AList.update k q xs)"
  using set_update by (fastforce simp: all_quotes_def)

lemma stamp_fold:
  assumes "all_quotes P a" "all_quotes P b"
    and "\<And>s q. (s, JObj q) \<in> set quotes \<Longrightarrow> is_official_quote q meta \<Longrightarrow> stamped_ok (stamp_quote now q) \<Longrightarrow> P (s, stamp_quote now q)"
  shows "all_quotes P (fst (fold (stamp_step now meta) quotes (a, b))) \<and> all_quotes P (snd (fold (stamp_step now meta) quotes (a, b)))"
proof (rule fold_invariant_list [where P = "\<lambda>st. all_quotes P (fst st) \<and> all_quotes P (snd st)"])
  fix kq and st :: "quote_map \<times> quote_map"
  assume kq: "kq \<in> set quotes" and st: "all_quotes P (fst st) \<and> all_quotes P (snd st)"
  show "all_quotes P (fst (stamp_step now meta kq st)) \<and> all_quotes P (snd (stamp_step now meta kq st))"
  proof (cases rule: stamp_step_cases [of now meta kq st])
    case (stamped s q)
    have "P (s, stamp_quote now q)" using kq stamped(1,4) stamp_ok [OF stamped(2,3)] assms(3) by blast
    then show ?thesis using st unfolding stamped(5) by (simp add: all_quotes_update)
  qed (use st in simp)
qed (use assms in simp)

text \<open>Only symbols of the answer that carry an official quote are stamped, and every stamped quote is one.\<close>

lemma stamped_from_official:
  assumes "(k, q') \<in> set (fst (stamp_eod_quotes now meta quotes cache))"
  shows "stamped_ok q' \<and> (\<exists>q. (k, JObj q) \<in> set quotes \<and> is_official_quote q meta \<and> q' = stamp_quote now q)"
proof -
  let ?P = "\<lambda>(k, q'). stamped_ok q' \<and> (\<exists>q. (k, JObj q) \<in> set quotes \<and> is_official_quote q meta \<and> q' = stamp_quote now q)"
  have "fst (fold (stamp_step now meta) quotes ([], cache)) = fst (fold (stamp_step now meta) quotes ([], []))"
  proof -
    have "fst (fold (stamp_step now meta) quotes (a, b)) = fst (fold (stamp_step now meta) quotes (a, c))" for a b c
    proof (induction quotes arbitrary: a b c)
      case (Cons kq quotes)
      have "fst (stamp_step now meta kq (a, b)) = fst (stamp_step now meta kq (a, c))"
        by (cases kq) (simp add: stamp_step_def split: jsval.split)
      with Cons show ?case by (cases "stamp_step now meta kq (a, b)"; cases "stamp_step now meta kq (a, c)") simp
    qed simp
    then show ?thesis .
  qed
  moreover have "all_quotes ?P (fst (fold (stamp_step now meta) quotes ([], [])))"
    using stamp_fold [where P = ?P, of "[]" "[]" quotes meta now] by (force simp: all_quotes_def)
  ultimately show ?thesis using assms by (auto simp: stamp_eod_quotes_def all_quotes_def)
qed

text \<open>The cache of reconciled quotes only ever holds stamped ones.\<close>

lemma eod_cache_ok:
  assumes "all_quotes (\<lambda>(k, q). stamped_ok q) cache"
  shows "all_quotes (\<lambda>(k, q). stamped_ok q) (snd (stamp_eod_quotes now meta quotes cache))"
  using stamp_fold [where P = "\<lambda>(k, q). stamped_ok q", of "[]" cache quotes meta now] assms
  by (simp add: stamp_eod_quotes_def all_quotes_def [of _ "[]"])

text \<open>A stamped close is what the quote store, the watchlist and a holding show.\<close>

lemma tick_price_stamped: "stamped_ok q \<Longrightarrow> tick_price q = Some (eod_price q)"
  by (auto simp: stamped_ok_def tick_price_def to_finite_number_def is_finite_iff)

lemma close_reaches_market:
  assumes "stamped_ok q" "k \<in> set (to_symbol_aliases (JStr s))"
  shows "own (quote_at (ms_symbols (eo_market (apply_to_stores env [(s, q)] st))) k) ''price'' = JNum (eod_price q)"
  using eod_quote_seen [OF assms(2) tick_price_stamped [OF assms(1)]] by (simp add: apply_to_stores_def)

lemma eod_sources_authoritative:
  "src \<in> {''official_eod_close'', ''history_snapshot'', ''eod''} \<Longrightarrow> should_apply_quote_source realtime (JStr src) ex"
  by (auto simp: should_apply_quote_source_def is_authoritative_closed_quote_source_def closed_auth_quote_sources_def
      lower_text_def lower_def lower_char_def Let_def)

lemma own_defined: "own q k \<noteq> Undefined \<Longrightarrow> k \<in> set (map fst q)"
  by (auto simp: own_def dest: map_of_SomeD split: option.splits intro: rev_image_eqI)

lemma close_reaches_watchlist:
  assumes "stamped_ok q" "s \<noteq> []" "distinct (map fst q)"
  shows "own (quote_at (eo_prices (apply_to_stores env [(s, q)] st)) s) ''price'' = JNum (eod_price q)"
proof -
  let ?prev = "quote_at (eo_prices st) s"
  obtain src where src: "own q ''_source'' = JStr src" "src \<in> {''official_eod_close'', ''history_snapshot'', ''eod''}"
    using assms(1) by (auto simp: stamped_ok_def)
  then have t: "js_or (js_or (own q ''_source'') (own q ''source'')) (JStr ''live'') = JStr src" by auto
  have price: "own (spread ?prev q) ''price'' = JNum (eod_price q)"
    using assms(1) own_defined [of q "''price''"] unfolding own_spread [OF assms(3)] by (simp add: stamped_ok_def)
  obtain x where fin: "eod_price q = Fin x" using assms(1) by (auto simp: stamped_ok_def is_finite_iff)
  show ?thesis
    using eod_sources_authoritative [OF src(2)] assms(2) price strict_same fin
    by (auto simp: apply_to_stores_def as_object_def update_prices_def patch_price_def t quote_at_def update_conv' Let_def)
qed

end
