(* ===== verification/Connection.thy ===== *)
theory Connection
  imports Symbols
begin

text \<open>
  The connection to the server: the requests with their rate limit and session,
  \<open>frontend/src/services/api.js\<close>, and the socket of \<open>frontend/src/hooks/useWebSocket.js\<close>, a state
  machine driven by the browser, by timers and by the views. The refs of the hook are the fields of a
  record; what has gone over the wire is a log.
\<close>

section \<open>Requests\<close>

fun contains_text :: "string \<Rightarrow> string \<Rightarrow> bool" where
  "contains_text [] p = (p = [])"
| "contains_text (c # s) p = (starts_with (c # s) p \<or> contains_text s p)"

record api_state =
  ap_limited_until :: jsnum
  ap_token :: "string option"
  ap_user :: "string option"
  ap_cookie :: bool

definition is_rate_limited :: "jsnum \<Rightarrow> api_state \<Rightarrow> bool" where
  "is_rate_limited now s = (now < ap_limited_until s)"

text \<open>What becomes of a request: it is refused, or sent with a time limit and a bearer.\<close>

datatype request = Refused | Sent jsnum "string option"

definition request_of :: "jsnum \<Rightarrow> string \<Rightarrow> api_state \<Rightarrow> request" where
  "request_of now url s =
     (if is_rate_limited now s \<and> contains_text url ''/market/'' \<and> \<not> contains_text url ''/market/search'' then Refused
      else Sent (if contains_text url ''/market/commodities'' then Fin 30000 else Fin 15000)
        (case ap_token s of Some t \<Rightarrow> if t = [] then None else Some t | None \<Rightarrow> None))"

definition force_logout :: "string \<Rightarrow> api_state \<Rightarrow> api_state \<times> bool" where
  "force_logout path s =
     (s\<lparr> ap_token := None, ap_user := None, ap_cookie := False \<rparr>, path \<noteq> ''/login'')"

text \<open>The handler of a failed answer; the flag says whether the browser is sent to the login page.\<close>

definition response_failed ::
  "jsnum \<Rightarrow> int \<Rightarrow> string option \<Rightarrow> string \<Rightarrow> string \<Rightarrow> api_state \<Rightarrow> api_state \<times> bool" where
  "response_failed now status retry_after url path s =
     (if status = 429 then
        let seconds = parse_int (case retry_after of Some r \<Rightarrow> if r = [] then ''30'' else r | None \<Rightarrow> ''30'')
        in (s\<lparr> ap_limited_until := now + seconds * Fin 1000 \<rparr>, False)
      else if status = 401 \<and> \<not> contains_text url ''/auth/login'' \<and> \<not> contains_text url ''/auth/register'' \<and>
        \<not> contains_text url ''/auth/logout'' then force_logout path s
      else (s, False))"

section \<open>The socket\<close>

datatype ready_state = NoSocket | Connecting | Opened | Closed

text \<open>What goes over the wire: a message that a view gave to \<open>send\<close>, a heartbeat, a subscription.\<close>

datatype wire = Given string | Ping | Subscribe "string list"

record socket =
  so_ready :: ready_state
  so_status :: string
  so_backoff :: nat
  so_failed :: nat
  so_reconnect :: "nat option"
  so_orphans :: "nat list"
  so_heartbeat :: bool
  so_queue :: "wire list"
  so_mounted :: bool
  so_tracked :: "string list"
  so_sent :: "wire list"
  so_closing :: nat

definition new_socket :: socket where
  "new_socket = \<lparr> so_ready = NoSocket, so_status = ''disconnected'', so_backoff = 1000, so_failed = 0,
     so_reconnect = None, so_orphans = [], so_heartbeat = False, so_queue = [], so_mounted = True, so_tracked = [], so_sent = [],
     so_closing = 0 \<rparr>"

definition connect :: "socket \<Rightarrow> socket" where
  "connect s =
     (if \<not> so_mounted s \<or> so_ready s = Opened \<or> so_ready s = Connecting then s
      else s\<lparr> so_ready := Connecting, so_status := ''connecting'' \<rparr>)"

definition send_wire :: "wire \<Rightarrow> socket \<Rightarrow> socket" where
  "send_wire m s =
     (if so_ready s = Opened then s\<lparr> so_sent := so_sent s @ [m] \<rparr> else s\<lparr> so_queue := so_queue s @ [m] \<rparr>)"

text \<open>The loop that flushes the queue, one message at a time.\<close>

fun flush :: "wire list \<Rightarrow> wire list \<Rightarrow> wire list" where
  "flush sent [] = sent"
| "flush sent (m # q) = flush (sent @ [m]) q"

definition on_open :: "socket \<Rightarrow> socket" where
  "on_open s =
     (if \<not> so_mounted s then s\<lparr> so_ready := Closed, so_closing := Suc (so_closing s) \<rparr>
      else
        let sent = flush (so_sent s) (so_queue s);
            symbols = unique (so_tracked s)
        in s\<lparr> so_ready := Opened, so_backoff := 1000, so_failed := 0, so_status := ''connected'', so_heartbeat := True,
              so_queue := [], so_sent := (if symbols = [] then sent else sent @ [Subscribe symbols]) \<rparr>)"

definition max_backoff_ms :: nat where
  "max_backoff_ms = 30000"

text \<open>
  What the handler of a close does to the refs, whichever socket it belongs to. The ref of the timer is
  overwritten, so a timer that is still armed stays armed with nothing to clear it.
\<close>

definition close_handler :: "socket \<Rightarrow> socket" where
  "close_handler s =
     (if \<not> so_mounted s then s
      else s\<lparr> so_status := ''disconnected'', so_heartbeat := False, so_failed := Suc (so_failed s),
              so_reconnect := Some (min (so_backoff s) max_backoff_ms),
              so_orphans := (case so_reconnect s of Some d \<Rightarrow> so_orphans s @ [d] | None \<Rightarrow> so_orphans s),
              so_backoff := min (2 * so_backoff s) max_backoff_ms \<rparr>)"

text \<open>
  Leaving the page closes the socket, whose close event comes later: \<open>so_closing\<close> counts the sockets
  whose event is still to come.
\<close>

definition unmount :: "socket \<Rightarrow> socket" where
  "unmount s =
     s\<lparr> so_mounted := False, so_reconnect := None, so_heartbeat := False,
        so_closing := (if so_ready s = Opened \<or> so_ready s = Connecting then Suc (so_closing s) else so_closing s),
        so_ready := (if so_ready s = NoSocket then NoSocket else Closed) \<rparr>"

datatype socket_event =
  Mount | Unmount | OpenEvent | ErrorEvent | CloseEvent | StaleClose | ReconnectFires | OrphanFires nat | HeartbeatFires
  | SendMessage string | Track "string list"

fun socket_step :: "socket_event \<Rightarrow> socket \<Rightarrow> socket" where
  "socket_step Mount s = connect (s\<lparr> so_mounted := True \<rparr>)"
| "socket_step Unmount s = unmount s"
| "socket_step OpenEvent s = (if so_ready s = Connecting then on_open s else s)"
| "socket_step ErrorEvent s =
     (if so_ready s = Opened \<or> so_ready s = Connecting \<or> 0 < so_closing s then s\<lparr> so_status := ''error'' \<rparr> else s)"
| "socket_step CloseEvent s =
     (if so_ready s = Opened \<or> so_ready s = Connecting then close_handler (s\<lparr> so_ready := Closed \<rparr>) else s)"
| "socket_step StaleClose s =
     (if 0 < so_closing s then close_handler (s\<lparr> so_closing := so_closing s - 1 \<rparr>) else s)"
| "socket_step ReconnectFires s = (if so_reconnect s = None then s else connect (s\<lparr> so_reconnect := None \<rparr>))"
| "socket_step (OrphanFires d) s = (if d \<in> set (so_orphans s) then connect (s\<lparr> so_orphans := remove1 d (so_orphans s) \<rparr>) else s)"
| "socket_step HeartbeatFires s =
     (if so_heartbeat s \<and> so_ready s = Opened then s\<lparr> so_sent := so_sent s @ [Ping] \<rparr> else s)"
| "socket_step (SendMessage m) s = send_wire (Given m) s"
| "socket_step (Track symbols) s =
     (let s' = s\<lparr> so_tracked := symbols \<rparr> in
      if symbols \<noteq> [] \<and> so_ready s = Opened then send_wire (Subscribe (unique symbols)) s' else s')"

definition socket_run :: "socket_event list \<Rightarrow> socket" where
  "socket_run evs = fold socket_step evs new_socket"

section \<open>Lemmas on requests\<close>

text \<open>After a 429 no market request but a search is sent until the time is over; all others are.\<close>

lemma limited_refuses:
  assumes "response_failed now 429 (Some r) url path s = (s', b)" "parse_int r = Fin n" "r \<noteq> []"
    and "later < now + Fin n * Fin 1000" "contains_text url' ''/market/''" "\<not> contains_text url' ''/market/search''"
  shows "request_of later url' s' = Refused"
  using assms by (auto simp: response_failed_def request_of_def is_rate_limited_def)

lemma unlimited_sends:
  assumes "\<not> is_rate_limited now s \<or> \<not> contains_text url ''/market/'' \<or> contains_text url ''/market/search''"
  shows "request_of now url s \<noteq> Refused"
  using assms by (auto simp: request_of_def)

lemma expired_session_cleared:
  assumes "response_failed now 401 r url path s = (s', b)"
    and "\<not> contains_text url ''/auth/login''" "\<not> contains_text url ''/auth/register''" "\<not> contains_text url ''/auth/logout''"
  shows "ap_token s' = None \<and> ap_user s' = None \<and> (b \<longleftrightarrow> path \<noteq> ''/login'')"
  using assms by (auto simp: response_failed_def force_logout_def)

section \<open>Lemmas on the socket\<close>

lemma flush_append: "flush sent q = sent @ q"
  by (induction q arbitrary: sent) auto

lemma run_snoc [simp]: "socket_run [] = new_socket" "socket_run (evs @ [e]) = socket_step e (socket_run evs)"
  by (simp_all add: socket_run_def)

lemma socket_invariant:
  assumes "P new_socket" "\<And>e s. P s \<Longrightarrow> P (socket_step e s)"
  shows "P (socket_run evs)"
  unfolding socket_run_def by (rule fold_invariant_list) (use assms in auto)

text \<open>
  No message is lost, doubled or overtaken: what went over the wire and what waits in the queue are the
  messages given to \<open>send\<close>, in their order.
\<close>

fun given_of :: "wire list \<Rightarrow> string list" where
  "given_of [] = []"
| "given_of (Given m # ws) = m # given_of ws"
| "given_of (_ # ws) = given_of ws"

lemma given_append [simp]: "given_of (a @ b) = given_of a @ given_of b"
  by (induction a rule: given_of.induct) auto

fun messages :: "socket_event list \<Rightarrow> string list" where
  "messages [] = []"
| "messages (SendMessage m # evs) = m # messages evs"
| "messages (_ # evs) = messages evs"

lemma messages_snoc: "messages (evs @ [e]) = messages evs @ messages [e]"
  by (induction evs rule: messages.induct) auto

definition open_flushed :: "socket \<Rightarrow> bool" where
  "open_flushed s \<longleftrightarrow> (so_ready s = Opened \<longrightarrow> so_queue s = [])"

lemma open_flushed_step: "open_flushed s \<Longrightarrow> open_flushed (socket_step e s)"
  by (cases e)
    (auto simp: open_flushed_def connect_def unmount_def on_open_def close_handler_def send_wire_def Let_def)

lemma step_given:
  assumes "open_flushed s"
  shows "given_of (so_sent (socket_step e s)) @ given_of (so_queue (socket_step e s)) =
    given_of (so_sent s) @ given_of (so_queue s) @ messages [e]"
  using assms
  by (cases e)
    (auto simp: open_flushed_def connect_def unmount_def on_open_def close_handler_def send_wire_def Let_def flush_append)

lemma nothing_lost: "given_of (so_sent (socket_run evs)) @ given_of (so_queue (socket_run evs)) = messages evs"
proof (induction evs rule: rev_induct)
  case (snoc e evs)
  have "open_flushed (socket_run evs)"
    by (rule socket_invariant [where P = open_flushed], simp add: open_flushed_def new_socket_def, erule open_flushed_step)
  from step_given [OF this, of e] snoc show ?case by (simp add: messages_snoc)
qed (simp add: new_socket_def)

text \<open>A page that is shown is connected, connecting, or has a reconnection under way, within the longest delay.\<close>

definition socket_ok :: "socket \<Rightarrow> bool" where
  "socket_ok s \<longleftrightarrow> 1000 \<le> so_backoff s \<and> so_backoff s \<le> max_backoff_ms \<and>
     (\<forall>d. so_reconnect s = Some d \<longrightarrow> 1000 \<le> d \<and> d \<le> max_backoff_ms) \<and>
     (so_mounted s \<longrightarrow> so_ready s = Opened \<or> so_ready s = Connecting \<or> so_reconnect s \<noteq> None)"

lemma socket_ok_step: "socket_ok s \<Longrightarrow> socket_ok (socket_step e s)"
  by (cases e)
    (auto simp: socket_ok_def max_backoff_ms_def connect_def unmount_def on_open_def close_handler_def send_wire_def Let_def)

text \<open>The hook runs its effects in their order: the symbols come first, then it mounts.\<close>

lemma never_stranded: "socket_ok (socket_run (Track symbols # Mount # evs))"
proof -
  have "socket_ok (socket_step Mount (socket_step (Track symbols) new_socket))"
    by (simp add: socket_ok_def new_socket_def max_backoff_ms_def connect_def Let_def)
  then have "socket_ok (fold socket_step evs (socket_step Mount (socket_step (Track symbols) new_socket)))"
    by (rule fold_invariant_list) (rule socket_ok_step)
  then show ?thesis by (simp add: socket_run_def)
qed

lemma min_times_min: "1 \<le> a \<Longrightarrow> min (a * min b m) m = min (a * b) (m :: nat)"
proof (cases "b \<le> m")
  case False
  assume "1 \<le> a"
  then have "m \<le> a * m" "m \<le> a * b" using False mult_le_mono [of 1 a m m] mult_le_mono [of 1 a m b] by simp_all
  then show ?thesis using False by simp
qed (simp add: min_def)

text \<open>The delays of a server that stays away: they double up to the longest.\<close>

lemma backoff_doubles:
  assumes "so_mounted s"
  shows "so_backoff (fold socket_step (concat (replicate n [CloseEvent, ReconnectFires])) (s\<lparr> so_ready := Connecting \<rparr>)) =
    (if n = 0 then so_backoff s else min (2 ^ n * so_backoff s) max_backoff_ms)"
  using assms
proof (induction n arbitrary: s)
  case (Suc n)
  define s1 where "s1 = fold socket_step [CloseEvent, ReconnectFires] (s\<lparr> so_ready := Connecting \<rparr>)"
  have s1: "so_mounted s1" "so_backoff s1 = min (2 * so_backoff s) max_backoff_ms" "so_ready s1 = Connecting"
    using Suc.prems by (simp_all add: s1_def close_handler_def connect_def)
  then have eq: "s1\<lparr> so_ready := Connecting \<rparr> = s1" by (cases s1) simp
  have "min (2 ^ n * min (2 * so_backoff s) max_backoff_ms) max_backoff_ms = min (2 ^ Suc n * so_backoff s) max_backoff_ms"
    using min_times_min [of "2 ^ n" "2 * so_backoff s" max_backoff_ms] by simp
  moreover have "fold socket_step (concat (replicate (Suc n) [CloseEvent, ReconnectFires])) (s\<lparr> so_ready := Connecting \<rparr>) =
      fold socket_step (concat (replicate n [CloseEvent, ReconnectFires])) (s1\<lparr> so_ready := Connecting \<rparr>)"
    by (simp add: eq del: socket_step.simps) (simp add: s1_def del: socket_step.simps)
  ultimately show ?case using Suc.IH [OF s1(1)] s1(2) by simp
qed simp

text \<open>
  The close event of a socket that was left behind: it comes after the page is shown again and reports
  the new, open connection as lost.
\<close>

lemma stale_close_misreports:
  "let s = socket_run [Mount, OpenEvent, Unmount, Mount, OpenEvent, StaleClose] in
     so_ready s = Opened \<and> so_status s = ''disconnected'' \<and> \<not> so_heartbeat s"
  by (simp add: socket_run_def new_socket_def connect_def on_open_def unmount_def close_handler_def Let_def unique_def)

end
