(* ===== verification/FuturesStore.thy ===== *)
theory FuturesStore
  imports Portfolio Sorting MarketStore CandleEngine
begin

text \<open>
  The store of the futures terminal, \<open>frontend/src/stores/useUnifiedFuturesStore.js\<close>: connection,
  contracts, quotes, chart, positions, orders, margin and watchlist, with the selectors over them.
  \<open>Date.now()\<close> is the argument \<open>now\<close>; \<open>new Date(text)\<close> and \<open>localeCompare\<close> are the parameters
  \<open>date_ms\<close> and \<open>locale_after\<close> of the sorted selectors.
\<close>

section \<open>State\<close>

record fut_contracts =
  fc_by_symbol :: jsobj
  fc_by_underlying :: "(string \<times> jsval list) list"
  fc_contract :: "string option"
  fc_underlying :: "string option"
  fc_loading :: bool

record live_candle =
  lc_open :: jsnum
  lc_high :: jsnum
  lc_low :: jsnum
  lc_close :: jsnum
  lc_volume :: jsnum
  lc_stamp :: jsval

record fut_chart =
  fh_candles :: "jsval list"
  fh_live :: "live_candle option"
  fh_interval :: string
  fh_loading :: bool

record fut_margin =
  fm_total :: jsnum
  fm_used :: jsnum
  fm_available :: jsnum
  fm_exposure :: jsnum
  fm_unrealized :: jsnum
  fm_realized :: jsnum

record fut_watchlist =
  fw_items :: "jsval list"
  fw_sort_by :: string
  fw_ascending :: bool

record futures_store =
  fs_status :: string
  fs_heartbeat :: "jsnum option"
  fs_contracts :: fut_contracts
  fs_quotes :: quote_map
  fs_chart :: fut_chart
  fs_positions :: "jsval list"
  fs_orders :: "jsval list"
  fs_orders_loading :: bool
  fs_margin :: fut_margin
  fs_watchlist :: fut_watchlist
  fs_last_update :: "jsnum option"

definition initial_futures_store :: futures_store where
  "initial_futures_store = \<lparr> fs_status = ''disconnected'', fs_heartbeat = None,
     fs_contracts = \<lparr> fc_by_symbol = [], fc_by_underlying = [], fc_contract = None, fc_underlying = None, fc_loading = False \<rparr>,
     fs_quotes = [], fs_chart = \<lparr> fh_candles = [], fh_live = None, fh_interval = ''5m'', fh_loading = False \<rparr>,
     fs_positions = [], fs_orders = [], fs_orders_loading = False,
     fs_margin = \<lparr> fm_total = Fin 1000000, fm_used = Fin 0, fm_available = Fin 1000000, fm_exposure = Fin 0,
       fm_unrealized = Fin 0, fm_realized = Fin 0 \<rparr>,
     fs_watchlist = \<lparr> fw_items = [], fw_sort_by = ''underlying'', fw_ascending = True \<rparr>, fs_last_update = None \<rparr>"

section \<open>Connection and contracts\<close>

definition set_connection_status :: "string \<Rightarrow> futures_store \<Rightarrow> futures_store" where
  "set_connection_status status s = (if fs_status s = status then s else s\<lparr> fs_status := status \<rparr>)"

definition set_last_heartbeat :: "jsnum \<Rightarrow> futures_store \<Rightarrow> futures_store" where
  "set_last_heartbeat ts s =
     (case fs_heartbeat s of
        Some prev \<Rightarrow> if \<bar>ts - prev\<bar> < Fin 1000 then s else s\<lparr> fs_heartbeat := Some ts \<rparr>
      | None \<Rightarrow> s\<lparr> fs_heartbeat := Some ts \<rparr>)"

definition contract_name :: "jsval \<Rightarrow> jsval" where
  "contract_name c = field c ''contract_symbol''"

definition set_contracts :: "string \<Rightarrow> jsval list \<Rightarrow> futures_store \<Rightarrow> futures_store" where
  "set_contracts underlying contracts s =
     (let c = fs_contracts s in
      s\<lparr> fs_contracts := c\<lparr> fc_by_symbol := fold (\<lambda>x. set_field (to_string (contract_name x)) x) contracts (fc_by_symbol c),
           fc_by_underlying := AList.update underlying (map contract_name contracts) (fc_by_underlying c) \<rparr> \<rparr>)"

definition select_contract :: "jsval \<Rightarrow> futures_store \<Rightarrow> futures_store" where
  "select_contract symbol s =
     (let sy = symbol_text symbol; c = fs_contracts s in
      if sy = [] \<or> fc_contract c = Some sy then s else s\<lparr> fs_contracts := c\<lparr> fc_contract := Some sy \<rparr> \<rparr>)"

definition select_underlying :: "jsval \<Rightarrow> futures_store \<Rightarrow> futures_store" where
  "select_underlying symbol s =
     (let sy = symbol_text symbol; c = fs_contracts s in
      if sy = [] \<or> fc_underlying c = Some sy then s else s\<lparr> fs_contracts := c\<lparr> fc_underlying := Some sy \<rparr> \<rparr>)"

definition set_contracts_loading :: "bool \<Rightarrow> futures_store \<Rightarrow> futures_store" where
  "set_contracts_loading b s =
     (if fc_loading (fs_contracts s) = b then s else s\<lparr> fs_contracts := (fs_contracts s)\<lparr> fc_loading := b \<rparr> \<rparr>)"

section \<open>Quotes\<close>

definition quote_ltp :: "jsval \<Rightarrow> jsnum option" where
  "quote_ltp q = to_finite_number (first_field q [''ltp'', ''price'', ''lp''])"

text \<open>\<open>a === b\<close> of numbers and \<open>null\<close>; two missing numbers are \<open>NaN\<close> and differ.\<close>

definition same_number :: "jsval \<Rightarrow> jsval \<Rightarrow> string list \<Rightarrow> bool" where
  "same_number p n ks = num_eq (to_number (first_field p ks)) (to_number (first_field n ks))"

definition same_ltp :: "jsnum option \<Rightarrow> jsnum option \<Rightarrow> bool" where
  "same_ltp a b = (case (a, b) of (None, None) \<Rightarrow> True | (Some x, Some y) \<Rightarrow> num_eq x y | _ \<Rightarrow> False)"

definition quotes_equal :: "jsobj option \<Rightarrow> jsobj \<Rightarrow> bool" where
  "quotes_equal prev nxt =
     (case prev of
        None \<Rightarrow> False
      | Some p \<Rightarrow>
          same_ltp (quote_ltp (JObj p)) (quote_ltp (JObj nxt)) \<and>
          same_number (JObj p) (JObj nxt) [''bid'', ''best_bid_price''] \<and>
          same_number (JObj p) (JObj nxt) [''ask'', ''best_ask_price''] \<and>
          same_number (JObj p) (JObj nxt) [''volume''] \<and> same_number (JObj p) (JObj nxt) [''oi''] \<and>
          same_number (JObj p) (JObj nxt) [''change'', ''net_change''] \<and>
          same_number (JObj p) (JObj nxt) [''change_pct'', ''change_percent'', ''pc'', ''percent_change''])"

definition merged_fut_quote :: "string \<Rightarrow> jsobj \<Rightarrow> quote_map \<Rightarrow> jsobj" where
  "merged_fut_quote sy data quotes = spread (quote_at quotes sy) data"

definition update_fut_quote :: "jsnum \<Rightarrow> jsval \<Rightarrow> jsobj \<Rightarrow> futures_store \<Rightarrow> futures_store" where
  "update_fut_quote now symbol data s =
     (let sy = symbol_text symbol; merged = merged_fut_quote sy data (fs_quotes s) in
      if sy = [] \<or> quotes_equal (map_of (fs_quotes s) sy) merged then s
      else s\<lparr> fs_quotes := AList.update sy merged (fs_quotes s), fs_last_update := Some now \<rparr>)"

definition update_fut_entry :: "string \<times> jsobj \<Rightarrow> quote_map \<times> bool \<Rightarrow> quote_map \<times> bool" where
  "update_fut_entry kq st =
     (let merged = merged_fut_quote (fst kq) (snd kq) (fst st) in
      if quotes_equal (map_of (fst st) (fst kq)) merged then st else (AList.update (fst kq) merged (fst st), True))"

definition update_fut_quotes :: "jsnum \<Rightarrow> (string \<times> jsobj) list \<Rightarrow> futures_store \<Rightarrow> futures_store" where
  "update_fut_quotes now quotes s =
     (let st = fold update_fut_entry quotes (fs_quotes s, False) in
      if \<not> snd st then s else s\<lparr> fs_quotes := fst st, fs_last_update := Some now \<rparr>)"

section \<open>Chart\<close>

record fut_tick =
  ft_price :: jsnum
  ft_volume :: jsnum
  ft_stamp :: jsval

definition set_candles :: "jsval list \<Rightarrow> futures_store \<Rightarrow> futures_store" where
  "set_candles cs s = s\<lparr> fs_chart := (fs_chart s)\<lparr> fh_candles := cs \<rparr> \<rparr>"

definition opened_candle :: "fut_tick \<Rightarrow> live_candle" where
  "opened_candle t = \<lparr> lc_open = ft_price t, lc_high = ft_price t, lc_low = ft_price t, lc_close = ft_price t,
     lc_volume = num_or (ft_volume t) (Fin 0), lc_stamp = ft_stamp t \<rparr>"

definition next_candle :: "fut_tick \<Rightarrow> live_candle option \<Rightarrow> live_candle" where
  "next_candle t prev =
     (case prev of
        None \<Rightarrow> opened_candle t
      | Some c \<Rightarrow>
          if strict_neq (ft_stamp t) (lc_stamp c) then opened_candle t
          else c\<lparr> lc_high := math_max (lc_high c) (ft_price t), lc_low := math_min (lc_low c) (ft_price t),
                  lc_close := ft_price t, lc_volume := lc_volume c + num_or (ft_volume t) (Fin 0) \<rparr>)"

definition update_live_candle :: "fut_tick \<Rightarrow> futures_store \<Rightarrow> futures_store" where
  "update_live_candle t s = s\<lparr> fs_chart := (fs_chart s)\<lparr> fh_live := Some (next_candle t (fh_live (fs_chart s))) \<rparr> \<rparr>"

definition set_chart_interval :: "string \<Rightarrow> futures_store \<Rightarrow> futures_store" where
  "set_chart_interval i s = s\<lparr> fs_chart := (fs_chart s)\<lparr> fh_interval := i, fh_live := None \<rparr> \<rparr>"

definition set_chart_loading :: "bool \<Rightarrow> futures_store \<Rightarrow> futures_store" where
  "set_chart_loading b s = s\<lparr> fs_chart := (fs_chart s)\<lparr> fh_loading := b \<rparr> \<rparr>"

section \<open>Positions\<close>

definition or_zero :: "jsval \<Rightarrow> jsnum" where
  "or_zero v = num_or (to_number v) (Fin 0)"

definition position_pnl :: "jsval \<Rightarrow> jsnum \<Rightarrow> jsnum" where
  "position_pnl p price =
     (let qty = or_zero (field p ''quantity''); avg = or_zero (first_field p [''avg_entry_price'', ''avg_price'']) in
      if Fin 0 \<le> qty then (price - avg) * qty else (avg - price) * \<bar>qty\<bar>)"

definition position_stale :: "jsval \<Rightarrow> jsnum \<Rightarrow> bool" where
  "position_stale p price =
     (strict_neq (field p ''ltp'') (JNum price) \<or> strict_neq (field p ''unrealized_pnl'') (JNum (position_pnl p price)))"

definition marked_position :: "jsval \<Rightarrow> jsnum \<Rightarrow> jsval" where
  "marked_position p price =
     (if \<not> position_stale p price then p
      else JObj (spread (fields_of p) [(''ltp'', JNum price), (''unrealized_pnl'', JNum (position_pnl p price))]))"

definition pnl_or_zero :: "jsval \<Rightarrow> jsnum" where
  "pnl_or_zero p = (let u = to_number (field p ''unrealized_pnl'') in if is_finite u then u else Fin 0)"

text \<open>Where no position changes the state is kept.\<close>

definition with_positions :: "jsnum \<Rightarrow> jsnum \<Rightarrow> jsval list \<Rightarrow> futures_store \<Rightarrow> futures_store" where
  "with_positions now unrealized ps s =
     s\<lparr> fs_positions := ps, fs_margin := (fs_margin s)\<lparr> fm_unrealized := unrealized \<rparr>, fs_last_update := Some now \<rparr>"

definition set_positions :: "jsval list \<Rightarrow> futures_store \<Rightarrow> futures_store" where
  "set_positions ps s = s\<lparr> fs_positions := ps \<rparr>"

definition update_position_pnl :: "jsnum \<Rightarrow> jsval \<Rightarrow> jsval \<Rightarrow> futures_store \<Rightarrow> futures_store" where
  "update_position_pnl now symbol ltp s =
     (let sy = symbol_text symbol; price = to_number ltp;
          concerns = (\<lambda>p. contract_name p = JStr sy);
          ps = map (\<lambda>p. if concerns p then marked_position p price else p) (fs_positions s)
      in if sy = [] \<or> \<not> is_finite price \<or> price \<le> Fin 0 \<or>
           \<not> list_ex (\<lambda>p. concerns p \<and> position_stale p price) (fs_positions s) then s
         else with_positions now
           (foldl (\<lambda>sum p. if num_eq (or_zero (field p ''quantity'')) (Fin 0) then sum else sum + pnl_or_zero p) (Fin 0) ps) ps s)"

text \<open>The price at which an open position is marked, from the quotes.\<close>

definition mark_price :: "quote_map \<Rightarrow> jsval \<Rightarrow> jsnum option" where
  "mark_price quotes p =
     (if num_eq (or_zero (field p ''quantity'')) (Fin 0) then None
      else quote_ltp (case map_of quotes (to_string (contract_name p)) of Some q \<Rightarrow> JObj q | None \<Rightarrow> Undefined))"

definition recalculate_live_pnl :: "jsnum \<Rightarrow> futures_store \<Rightarrow> futures_store" where
  "recalculate_live_pnl now s =
     (let price = mark_price (fs_quotes s);
          ps = map (\<lambda>p. case price p of Some ltp \<Rightarrow> marked_position p ltp | None \<Rightarrow> p) (fs_positions s)
      in if \<not> list_ex (\<lambda>p. case price p of Some ltp \<Rightarrow> position_stale p ltp | None \<Rightarrow> False) (fs_positions s) then s
         else with_positions now (sum_over pnl_or_zero ps) ps s)"

section \<open>Orders, margin and watchlist\<close>

definition set_orders :: "jsval list \<Rightarrow> futures_store \<Rightarrow> futures_store" where
  "set_orders os s = s\<lparr> fs_orders := os \<rparr>"

definition add_fut_order :: "jsval \<Rightarrow> futures_store \<Rightarrow> futures_store" where
  "add_fut_order order s = s\<lparr> fs_orders := order # fs_orders s \<rparr>"

definition update_order_status :: "jsval \<Rightarrow> jsval \<Rightarrow> jsobj \<Rightarrow> futures_store \<Rightarrow> futures_store" where
  "update_order_status order_id status filled s =
     s\<lparr> fs_orders := map (\<lambda>x. if \<not> strict_neq (field x ''id'') order_id
          then JObj (spread (set_field ''status'' status (fields_of x)) filled) else x) (fs_orders s) \<rparr>"

definition remove_order :: "jsval \<Rightarrow> futures_store \<Rightarrow> futures_store" where
  "remove_order order_id s = s\<lparr> fs_orders := filter (\<lambda>x. strict_neq (field x ''id'') order_id) (fs_orders s) \<rparr>"

definition set_orders_loading :: "bool \<Rightarrow> futures_store \<Rightarrow> futures_store" where
  "set_orders_loading b s = s\<lparr> fs_orders_loading := b \<rparr>"

definition set_margin_field :: "string \<times> jsnum \<Rightarrow> fut_margin \<Rightarrow> fut_margin" where
  "set_margin_field kv m =
     (let (k, v) = kv in
      if k = ''totalFunds'' then m\<lparr> fm_total := v \<rparr> else if k = ''usedMargin'' then m\<lparr> fm_used := v \<rparr>
      else if k = ''availableMargin'' then m\<lparr> fm_available := v \<rparr> else if k = ''exposureMargin'' then m\<lparr> fm_exposure := v \<rparr>
      else if k = ''unrealizedPnl'' then m\<lparr> fm_unrealized := v \<rparr> else if k = ''realizedPnl'' then m\<lparr> fm_realized := v \<rparr> else m)"

definition update_margin :: "(string \<times> jsnum) list \<Rightarrow> futures_store \<Rightarrow> futures_store" where
  "update_margin data s = s\<lparr> fs_margin := fold set_margin_field data (fs_margin s) \<rparr>"

definition block_margin :: "jsnum \<Rightarrow> futures_store \<Rightarrow> futures_store" where
  "block_margin amount s = s\<lparr> fs_margin := (fs_margin s)\<lparr> fm_used := fm_used (fs_margin s) + amount,
     fm_available := fm_available (fs_margin s) - amount \<rparr> \<rparr>"

definition release_margin :: "jsnum \<Rightarrow> futures_store \<Rightarrow> futures_store" where
  "release_margin amount s = s\<lparr> fs_margin := (fs_margin s)\<lparr> fm_used := fm_used (fs_margin s) - amount,
     fm_available := fm_available (fs_margin s) + amount \<rparr> \<rparr>"

definition add_realized_pnl :: "jsnum \<Rightarrow> futures_store \<Rightarrow> futures_store" where
  "add_realized_pnl amount s = s\<lparr> fs_margin := (fs_margin s)\<lparr> fm_realized := fm_realized (fs_margin s) + amount,
     fm_total := fm_total (fs_margin s) + amount, fm_available := fm_available (fs_margin s) + amount \<rparr> \<rparr>"

definition add_fut_watchlist :: "jsnum \<Rightarrow> jsval \<Rightarrow> jsval \<Rightarrow> futures_store \<Rightarrow> futures_store" where
  "add_fut_watchlist now symbol underlying s =
     (let w = fs_watchlist s in
      if list_ex (\<lambda>i. \<not> strict_neq (contract_name i) symbol) (fw_items w) then s
      else s\<lparr> fs_watchlist := w\<lparr> fw_items := fw_items w @ [JObj [(''contract_symbol'', symbol), (''underlying'', underlying),
        (''added_at'', JNum now)]] \<rparr> \<rparr>)"

definition remove_fut_watchlist :: "jsval \<Rightarrow> futures_store \<Rightarrow> futures_store" where
  "remove_fut_watchlist symbol s =
     s\<lparr> fs_watchlist := (fs_watchlist s)\<lparr> fw_items := filter (\<lambda>i. strict_neq (contract_name i) symbol) (fw_items (fs_watchlist s)) \<rparr> \<rparr>"

definition set_watchlist_sort :: "string \<Rightarrow> bool \<Rightarrow> futures_store \<Rightarrow> futures_store" where
  "set_watchlist_sort k asc s = s\<lparr> fs_watchlist := (fs_watchlist s)\<lparr> fw_sort_by := k, fw_ascending := asc \<rparr> \<rparr>"

definition reset_futures :: "futures_store \<Rightarrow> futures_store" where
  "reset_futures s = initial_futures_store"

section \<open>Selectors\<close>

definition selected_contract :: "futures_store \<Rightarrow> jsval" where
  "selected_contract s =
     (case fc_contract (fs_contracts s) of
        Some sy \<Rightarrow> if sy = [] then JNull else nullish (own (fc_by_symbol (fs_contracts s)) sy) JNull
      | None \<Rightarrow> JNull)"

definition contract_quote :: "string \<Rightarrow> futures_store \<Rightarrow> jsobj option" where
  "contract_quote sy s = map_of (fs_quotes s) sy"

definition selected_quote :: "futures_store \<Rightarrow> jsobj option" where
  "selected_quote s = (case fc_contract (fs_contracts s) of Some sy \<Rightarrow> if sy = [] then None else contract_quote sy s | None \<Rightarrow> None)"

definition contract_after :: "(jsval \<Rightarrow> jsnum) \<Rightarrow> (string \<Rightarrow> string \<Rightarrow> bool) \<Rightarrow> jsval \<Rightarrow> jsval \<Rightarrow> bool" where
  "contract_after date_ms locale_after a b =
     (let da = field a ''expiry_date''; db = field b ''expiry_date'' in
      if truthy da \<and> truthy db then Fin 0 < date_ms da - date_ms db
      else locale_after (to_string (contract_name a)) (to_string (contract_name b)))"

definition contracts_for_underlying ::
  "(jsval \<Rightarrow> jsnum) \<Rightarrow> (string \<Rightarrow> string \<Rightarrow> bool) \<Rightarrow> string \<Rightarrow> futures_store \<Rightarrow> jsval list" where
  "contracts_for_underlying date_ms locale_after underlying s =
     (case map_of (fc_by_underlying (fs_contracts s)) underlying of
        None \<Rightarrow> []
      | Some names \<Rightarrow>
          sort_by (contract_after date_ms locale_after)
            (filter truthy (map (\<lambda>n. own (fc_by_symbol (fs_contracts s)) (to_string n)) names)))"

definition row_after :: "(string \<Rightarrow> string \<Rightarrow> bool) \<Rightarrow> bool \<Rightarrow> string \<Rightarrow> jsval \<Rightarrow> jsval \<Rightarrow> bool" where
  "row_after locale_after asc k a b =
     (let x = nullish (field a k) (JStr []); y = nullish (field b k) (JStr []) in
      case (x, y) of
        (JNum m, JNum n) \<Rightarrow> if asc then Fin 0 < m - n else Fin 0 < n - m
      | _ \<Rightarrow> if asc then locale_after (to_string x) (to_string y) else locale_after (to_string y) (to_string x))"

definition watchlist_with_quotes :: "(string \<Rightarrow> string \<Rightarrow> bool) \<Rightarrow> futures_store \<Rightarrow> jsval list" where
  "watchlist_with_quotes locale_after s =
     (let w = fs_watchlist s in
      sort_by (row_after locale_after (fw_ascending w) (fw_sort_by w))
        (map (\<lambda>i. JObj (spread (fields_of i) (quote_at (fs_quotes s) (to_string (contract_name i))))) (fw_items w)))"

section \<open>Lemmas\<close>

text \<open>
  The margin account: what is available and what is used make up the funds, in every sequence of
  operations on whole amounts that stays in the exact range.
\<close>

datatype margin_event = Block int | Release int | Realize int

fun margin_step :: "margin_event \<Rightarrow> futures_store \<Rightarrow> futures_store" where
  "margin_step (Block n) = block_margin (Fin (of_int n))"
| "margin_step (Release n) = release_margin (Fin (of_int n))"
| "margin_step (Realize n) = add_realized_pnl (Fin (of_int n))"

fun used_by :: "margin_event \<Rightarrow> int" where
  "used_by (Block n) = n" | "used_by (Release n) = - n" | "used_by (Realize n) = 0"

fun realized_by :: "margin_event \<Rightarrow> int" where
  "realized_by (Realize n) = n" | "realized_by _ = 0"

fun event_size :: "margin_event \<Rightarrow> int" where
  "event_size (Block n) = \<bar>n\<bar>" | "event_size (Release n) = \<bar>n\<bar>" | "event_size (Realize n) = \<bar>n\<bar>"

lemma event_size_nonneg: "0 \<le> event_size e"
  by (cases e) auto

definition margin_is :: "int \<Rightarrow> int \<Rightarrow> int \<Rightarrow> futures_store \<Rightarrow> bool" where
  "margin_is funds used realized s \<longleftrightarrow> fm_total (fs_margin s) = Fin (of_int funds) \<and> fm_used (fs_margin s) = Fin (of_int used) \<and>
     fm_available (fs_margin s) = Fin (of_int (funds - used)) \<and> fm_realized (fs_margin s) = Fin (of_int realized)"

lemma margin_step_is:
  assumes "margin_is funds used realized s" "\<bar>funds\<bar> + \<bar>used\<bar> + \<bar>realized\<bar> + 2 * event_size e \<le> 2 ^ 53"
  shows "margin_is (funds + realized_by e) (used + used_by e) (realized + realized_by e) (margin_step e s)"
proof (cases e)
  case (Block n)
  then have "\<bar>used + n\<bar> \<le> 2 ^ 53" "\<bar>(funds - used) - n\<bar> \<le> 2 ^ 53" using assms(2) by auto
  then show ?thesis using assms(1) plus_int minus_int
    by (simp add: margin_is_def block_margin_def Block del: of_int_add of_int_diff)
next
  case (Release n)
  then have "\<bar>used - n\<bar> \<le> 2 ^ 53" "\<bar>(funds - used) + n\<bar> \<le> 2 ^ 53" using assms(2) by auto
  then show ?thesis using assms(1) plus_int minus_int
    by (simp add: margin_is_def release_margin_def Release del: of_int_add of_int_diff)
next
  case (Realize n)
  then have "\<bar>realized + n\<bar> \<le> 2 ^ 53" "\<bar>(funds - used) + n\<bar> \<le> 2 ^ 53" "\<bar>funds + n\<bar> \<le> 2 ^ 53" using assms(2) by auto
  then show ?thesis using assms(1) plus_int
    by (simp add: margin_is_def add_realized_pnl_def Realize del: of_int_add of_int_diff)
qed

lemma margin_balanced:
  assumes "margin_is funds used realized s"
    and "\<bar>funds\<bar> + \<bar>used\<bar> + \<bar>realized\<bar> + 2 * sum_list (map event_size evs) \<le> 2 ^ 53"
  shows "margin_is (funds + sum_list (map realized_by evs)) (used + sum_list (map used_by evs))
    (realized + sum_list (map realized_by evs)) (fold margin_step evs s)"
  using assms
proof (induction evs arbitrary: funds used realized s)
  case (Cons e evs)
  have nonneg: "0 \<le> sum_list (map event_size evs)" by (rule sum_list_nonneg) (auto simp: event_size_nonneg)
  have small: "\<bar>realized_by e\<bar> + \<bar>used_by e\<bar> \<le> event_size e" by (cases e) auto
  have "\<bar>realized_by e\<bar> + \<bar>used_by e\<bar> + \<bar>realized_by e\<bar> \<le> 2 * event_size e" by (cases e) auto
  with Cons.prems(2) nonneg have
    "\<bar>funds + realized_by e\<bar> + \<bar>used + used_by e\<bar> + \<bar>realized + realized_by e\<bar> + 2 * sum_list (map event_size evs) \<le> 2 ^ 53"
    "\<bar>funds\<bar> + \<bar>used\<bar> + \<bar>realized\<bar> + 2 * event_size e \<le> 2 ^ 53" by simp_all
  from Cons.IH [OF margin_step_is [OF Cons.prems(1) this(2)] this(1)] show ?case by (simp add: add.assoc)
qed simp

lemma initial_margin: "margin_is 1000000 0 0 initial_futures_store"
  by (simp add: margin_is_def initial_futures_store_def)

text \<open>The live candle of the chart takes a tick of its bar as the candle engine does.\<close>

definition as_fcandle :: "jsnum \<Rightarrow> live_candle \<Rightarrow> fcandle" where
  "as_fcandle tm c = \<lparr> f_time = tm, f_open = lc_open c, f_high = lc_high c, f_low = lc_low c, f_close = lc_close c,
     f_volume = lc_volume c \<rparr>"

lemma same_bar_as_engine:
  assumes "\<not> strict_neq (ft_stamp t) (lc_stamp c)"
  shows "as_fcandle tm (next_candle t (Some c)) = merge_tick (ft_price t) (num_or (ft_volume t) (Fin 0)) (as_fcandle tm c)"
  using assms by (simp add: next_candle_def as_fcandle_def merge_tick_def)

text \<open>On whole amounts a position is worth the price difference times its quantity, long or short.\<close>

lemma position_pnl_int:
  assumes "or_zero (field p ''quantity'') = Fin (of_int q)" "or_zero (first_field p [''avg_entry_price'', ''avg_price'']) = Fin (of_int a)"
    and "\<bar>n - a\<bar> \<le> 2 ^ 53" "\<bar>(n - a) * q\<bar> \<le> 2 ^ 53"
  shows "position_pnl p (Fin (of_int n)) = Fin (of_int ((n - a) * q))"
proof (cases "0 \<le> q")
  case True
  then show ?thesis unfolding position_pnl_def Let_def assms(1,2)
    using minus_int [OF assms(3)] times_int [OF assms(4)] by (simp del: of_int_mult of_int_diff minus_Fin)
next
  case False
  have "\<bar>a - n\<bar> \<le> 2 ^ 53" using assms(3) by (simp add: abs_minus_commute)
  moreover have eq: "(a - n) * \<bar>q\<bar> = (n - a) * q" using False by (simp add: algebra_simps)
  ultimately show ?thesis unfolding position_pnl_def Let_def assms(1,2)
    using False minus_int [of a n] times_int [of "a - n" "\<bar>q\<bar>"] assms(4)
    by (simp add: eq del: of_int_mult of_int_diff minus_Fin)
qed

text \<open>
  A quote that lacks one of the compared numbers is never equal to itself: the missing number is
  \<open>NaN\<close>, so every update of such a contract counts as a change.
\<close>

lemma incomplete_never_equal:
  assumes "own q ''volume'' = Undefined"
  shows "\<not> quotes_equal (Some q) q"
  using assms by (simp add: quotes_equal_def same_number_def num_eq_def)

text \<open>A repeated quote with all its numbers is not written again.\<close>

lemma same_quote_ignored:
  assumes "map_of (fs_quotes s) (symbol_text symbol) = Some q" "quotes_equal (Some q) (spread q data)"
  shows "update_fut_quote now symbol data s = s"
  using assms by (simp add: update_fut_quote_def merged_fut_quote_def quote_at_def Let_def)

text \<open>The watchlist of contracts has none twice.\<close>

lemma fut_watchlist_distinct:
  assumes "distinct (map contract_name (fw_items (fs_watchlist s)))" "symbol = JStr c"
  shows "distinct (map contract_name (fw_items (fs_watchlist (add_fut_watchlist now symbol u s))))"
proof -
  have "contract_name i \<noteq> JStr c" if "strict_neq (contract_name i) (JStr c)" for i using that by auto
  then show ?thesis using assms
    by (auto simp: add_fut_watchlist_def Let_def list_ex_iff contract_name_def own_Cons)
qed

lemma contracts_sorted_same: "mset (contracts_for_underlying d l u s) =
    (case map_of (fc_by_underlying (fs_contracts s)) u of None \<Rightarrow> {#}
     | Some names \<Rightarrow> mset (filter truthy (map (\<lambda>n. own (fc_by_symbol (fs_contracts s)) (to_string n)) names)))"
  by (simp add: contracts_for_underlying_def split: option.split)

end
