(* ===== verification/OptionsAnalytics.thy ===== *)
theory OptionsAnalytics
  imports JSValue Sorting
begin

text \<open>
  The figures of an option chain, \<open>frontend/src/utils/optionsAnalytics.js\<close>. A row has a strike and the
  call and put leg as they arrive; a price that is no number is \<open>NaN\<close>. The em dash of the labels
  is \<open>''-''\<close>.
\<close>

section \<open>Rows\<close>

record option_row =
  op_strike :: jsnum
  op_ce :: jsval
  op_pe :: jsval

definition leg_number :: "jsval \<Rightarrow> string \<Rightarrow> jsnum" where
  "leg_number leg k = to_number (field leg k)"

definition leg_or_zero :: "jsval \<Rightarrow> string \<Rightarrow> jsnum" where
  "leg_or_zero leg k = num_or (leg_number leg k) (Fin 0)"

section \<open>Strikes\<close>

definition closer_strike :: "jsnum \<Rightarrow> jsnum option \<Rightarrow> option_row \<Rightarrow> jsnum option" where
  "closer_strike spot closest row =
     (case closest of
        None \<Rightarrow> Some (op_strike row)
      | Some c \<Rightarrow>
          if is_nan c \<or> num_eq c (Fin 0) then Some (op_strike row)
          else if \<bar>op_strike row - spot\<bar> < \<bar>c - spot\<bar> then Some (op_strike row) else Some c)"

definition find_atm_strike :: "option_row list \<Rightarrow> jsnum \<Rightarrow> jsnum option" where
  "find_atm_strike chain spot =
     (if chain = [] \<or> \<not> is_finite spot then None else foldl (closer_strike spot) None chain)"

definition row_pain :: "jsnum \<Rightarrow> jsnum \<Rightarrow> option_row \<Rightarrow> jsnum" where
  "row_pain settlement pain row =
     (let k = op_strike row;
          pain1 = (if k < settlement then pain + leg_or_zero (op_ce row) ''oi'' * (settlement - k) else pain)
      in if settlement < k then pain1 + leg_or_zero (op_pe row) ''oi'' * (k - settlement) else pain1)"

definition pain_at :: "option_row list \<Rightarrow> jsnum \<Rightarrow> jsnum" where
  "pain_at chain settlement = foldl (row_pain settlement) (Fin 0) chain"

definition less_pain :: "option_row list \<Rightarrow> jsnum \<times> jsnum option \<Rightarrow> jsnum \<Rightarrow> jsnum \<times> jsnum option" where
  "less_pain chain st settlement =
     (if pain_at chain settlement < fst st then (pain_at chain settlement, Some settlement) else st)"

definition compute_max_pain :: "option_row list \<Rightarrow> jsnum option" where
  "compute_max_pain chain =
     (if chain = [] then None
      else snd (foldl (less_pain chain) (PInf, None) (sort_by (\<lambda>a b. Fin 0 < a - b) (map op_strike chain))))"

section \<open>Changes of open interest\<close>

definition sum_oi_change :: "(option_row \<Rightarrow> jsval) \<Rightarrow> option_row list \<Rightarrow> jsnum option" where
  "sum_oi_change leg chain =
     foldl (\<lambda>acc row. let ch = leg_number (leg row) ''oiChange'' in
       if is_finite ch then Some ((case acc of Some t \<Rightarrow> t | None \<Rightarrow> Fin 0) + ch) else acc) None chain"

definition classify_buildup :: "jsnum option \<Rightarrow> jsnum option \<Rightarrow> string" where
  "classify_buildup ce_chg pe_chg =
     (if ce_chg = None \<and> pe_chg = None then ''-''
      else
        let ce = (case ce_chg of Some x \<Rightarrow> x | None \<Rightarrow> Fin 0); pe = (case pe_chg of Some x \<Rightarrow> x | None \<Rightarrow> Fin 0) in
        if Fin 0 < ce \<and> pe \<le> Fin 0 then ''Call buildup''
        else if Fin 0 < pe \<and> ce \<le> Fin 0 then ''Put buildup''
        else if Fin 0 < ce \<and> Fin 0 < pe then ''Long buildup''
        else if ce < Fin 0 \<and> pe < Fin 0 then ''Short buildup / unwinding''
        else if ce < Fin 0 \<and> Fin 0 \<le> pe then ''CE unwinding''
        else if pe < Fin 0 \<and> Fin 0 \<le> ce then ''PE unwinding''
        else ''Mixed'')"

section \<open>The analytics of a chain\<close>

definition sum_legs :: "(option_row \<Rightarrow> jsval) \<Rightarrow> string \<Rightarrow> option_row list \<Rightarrow> jsnum" where
  "sum_legs leg k chain = foldl (\<lambda>s row. s + leg_or_zero (leg row) k) (Fin 0) chain"

text \<open>The largest open interest above zero and its strike; the first of equals.\<close>

definition max_oi_strike :: "(option_row \<Rightarrow> jsval) \<Rightarrow> option_row list \<Rightarrow> jsnum \<times> jsnum option" where
  "max_oi_strike leg chain =
     foldl (\<lambda>(m, k) row. let oi = leg_or_zero (leg row) ''oi'' in if m < oi then (oi, Some (op_strike row)) else (m, k))
       (Fin 0, None) chain"

definition exposure_step :: "string \<Rightarrow> jsnum option \<Rightarrow> jsval \<Rightarrow> jsnum option" where
  "exposure_step k acc leg =
     (let g = leg_number leg k; oi = leg_or_zero leg ''oi'' in
      if is_finite g \<and> Fin 0 < oi then Some ((case acc of Some t \<Rightarrow> t | None \<Rightarrow> Fin 0) + g * oi) else acc)"

definition exposure :: "string \<Rightarrow> option_row list \<Rightarrow> jsnum option" where
  "exposure k chain = foldl (exposure_step k) None (concat (map (\<lambda>row. [op_ce row, op_pe row]) chain))"

definition atm_row :: "option_row list \<Rightarrow> jsnum option \<Rightarrow> option_row option" where
  "atm_row chain atm = (case atm of Some a \<Rightarrow> find (\<lambda>r. num_eq (op_strike r) a) chain | None \<Rightarrow> None)"

definition atm_iv :: "option_row option \<Rightarrow> jsnum option" where
  "atm_iv row =
     (case row of
        None \<Rightarrow> None
      | Some r \<Rightarrow>
          let ce = leg_number (op_ce r) ''iv''; pe = leg_number (op_pe r) ''iv'' in
          if Fin 0 < ce \<and> Fin 0 < pe then Some ((ce + pe) / Fin 2)
          else if Fin 0 < ce then Some ce else if Fin 0 < pe then Some pe else None)"

definition atm_buildup :: "option_row option \<Rightarrow> string" where
  "atm_buildup row =
     (case row of
        None \<Rightarrow> ''-''
      | Some r \<Rightarrow>
          let ce = leg_or_zero (op_ce r) ''oiChange''; pe = leg_or_zero (op_pe r) ''oiChange'' in
          if Fin 0 < ce \<and> pe \<le> Fin 0 then ''CE buildup''
          else if Fin 0 < pe \<and> ce \<le> Fin 0 then ''PE buildup''
          else if ce < Fin 0 \<and> pe < Fin 0 then ''OI unwinding''
          else if Fin 0 < ce \<and> Fin 0 < pe then ''Long buildup''
          else ''-'')"

definition dominance_of :: "jsnum option \<Rightarrow> string" where
  "dominance_of pcr =
     (case pcr of
        None \<Rightarrow> ''Balanced''
      | Some p \<Rightarrow> if lit (115 / 100) < p then ''PE dominance'' else if p < lit (85 / 100) then ''CE dominance'' else ''Balanced'')"

definition expected_move :: "jsnum option \<Rightarrow> jsnum \<Rightarrow> jsnum option \<Rightarrow> jsnum option" where
  "expected_move iv spot days =
     (case (iv, days) of
        (Some v, Some d) \<Rightarrow>
          if Fin 0 < v \<and> is_finite spot \<and> Fin 0 < spot \<and> Fin 0 < d
          then Some (spot * (v / Fin 100) * math_sqrt (d / Fin 365)) else None
      | _ \<Rightarrow> None)"

definition activity :: "jsnum option \<Rightarrow> string option" where
  "activity chg = (case chg of None \<Rightarrow> None | Some x \<Rightarrow> if Fin 0 < x then Some ''Active'' else Some ''Weak'')"

record options_analytics =
  oa_atm :: "jsnum option"
  oa_spot :: "jsnum option"
  oa_ce_oi :: jsnum
  oa_pe_oi :: jsnum
  oa_ce_vol :: jsnum
  oa_pe_vol :: jsnum
  oa_pcr :: "jsnum option"
  oa_max_pain :: "jsnum option"
  oa_atm_iv :: "jsnum option"
  oa_max_ce :: "jsnum option"
  oa_max_pe :: "jsnum option"
  oa_buildup :: string
  oa_chain_buildup :: string
  oa_put_buildup :: "string option"
  oa_call_buildup :: "string option"
  oa_long_buildup :: "string option"
  oa_short_buildup :: "string option"
  oa_dominance :: string
  oa_net_delta :: "jsnum option"
  oa_gamma :: "jsnum option"
  oa_expected_move :: "jsnum option"

definition compute_options_analytics :: "option_row list \<Rightarrow> jsnum \<Rightarrow> jsnum option \<Rightarrow> options_analytics option" where
  "compute_options_analytics chain spot days =
     (if chain = [] then None
      else
        let atm = find_atm_strike chain spot;
            row = atm_row chain atm;
            ce_oi = sum_legs op_ce ''oi'' chain;
            pe_oi = sum_legs op_pe ''oi'' chain;
            pcr = (if Fin 0 < ce_oi then Some (pe_oi / ce_oi) else None);
            ce_chg = sum_oi_change op_ce chain;
            pe_chg = sum_oi_change op_pe chain;
            chain_buildup = classify_buildup ce_chg pe_chg
        in Some \<lparr> oa_atm = atm, oa_spot = (if is_finite spot then Some spot else None), oa_ce_oi = ce_oi, oa_pe_oi = pe_oi,
             oa_ce_vol = sum_legs op_ce ''volume'' chain, oa_pe_vol = sum_legs op_pe ''volume'' chain, oa_pcr = pcr,
             oa_max_pain = compute_max_pain chain, oa_atm_iv = atm_iv row, oa_max_ce = snd (max_oi_strike op_ce chain),
             oa_max_pe = snd (max_oi_strike op_pe chain), oa_buildup = atm_buildup row, oa_chain_buildup = chain_buildup,
             oa_put_buildup = activity pe_chg, oa_call_buildup = activity ce_chg,
             oa_long_buildup = (if chain_buildup = ''Long buildup'' then Some chain_buildup else None),
             oa_short_buildup = (if chain_buildup \<in> {''Short buildup / unwinding'', ''CE unwinding'', ''PE unwinding''}
               then Some chain_buildup else None),
             oa_dominance = dominance_of pcr, oa_net_delta = exposure ''delta'' chain, oa_gamma = exposure ''gamma'' chain,
             oa_expected_move = expected_move (atm_iv row) spot days \<rparr>)"

section \<open>Heat map and liquidity\<close>

definition field_or_zero :: "jsval \<Rightarrow> string \<Rightarrow> jsnum" where
  "field_or_zero leg k = to_number (js_or (field leg k) (JNum (Fin 0)))"

definition chain_max :: "string \<Rightarrow> option_row list \<Rightarrow> jsnum" where
  "chain_max k chain =
     foldl (\<lambda>m row. math_max (math_max m (field_or_zero (op_ce row) k)) (field_or_zero (op_pe row) k)) (Fin 1) chain"

definition compute_chain_heatmap :: "option_row list \<Rightarrow> jsnum \<times> jsnum" where
  "compute_chain_heatmap chain = (chain_max ''oi'' chain, chain_max ''volume'' chain)"

datatype liquidity = NoLiquidity | Unknown | High | Medium | Low

definition compute_liquidity :: "jsval \<Rightarrow> liquidity" where
  "compute_liquidity side =
     (if \<not> truthy side then NoLiquidity
      else
        let bid = leg_number side ''bid''; ask = leg_number side ''ask''; ltp = leg_number side ''ltp'';
            mid = (if Fin 0 < ltp then Some ltp
              else if Fin 0 < bid \<and> Fin 0 < ask then Some ((bid + ask) / Fin 2) else None)
        in case mid of
             None \<Rightarrow> Unknown
           | Some m \<Rightarrow>
               if \<not> Fin 0 < m \<or> \<not> is_finite bid \<or> \<not> is_finite ask \<or> ask \<le> bid then Unknown
               else
                 let spread = (ask - bid) / m * Fin 100 in
                 if spread \<le> lit (1 / 2) then High else if spread \<le> lit (3 / 2) then Medium else Low)"

section \<open>Lemmas\<close>

text \<open>The at-the-money strike is one of the chain, and none is nearer to the spot price.\<close>

definition strikes_ok :: "option_row list \<Rightarrow> bool" where
  "strikes_ok chain = list_all (\<lambda>r. is_finite (op_strike r) \<and> Fin 0 < op_strike r) chain"

lemma strike_distance: "is_finite a \<Longrightarrow> is_finite b \<Longrightarrow> \<bar>a - b\<bar> \<noteq> NaN"
  by (auto simp: is_finite_iff)

lemma atm_fold:
  assumes "strikes_ok chain" "is_finite spot" "is_finite c" "Fin 0 < c"
  shows "\<exists>a. foldl (closer_strike spot) (Some c) chain = Some a \<and> is_finite a \<and> Fin 0 < a \<and>
    (a = c \<or> a \<in> op_strike ` set chain) \<and> \<bar>a - spot\<bar> \<le> \<bar>c - spot\<bar> \<and> (\<forall>r \<in> set chain. \<bar>a - spot\<bar> \<le> \<bar>op_strike r - spot\<bar>)"
  using assms
proof (induction chain arbitrary: c)
  case (Cons r chain)
  define c' where "c' = (if \<bar>op_strike r - spot\<bar> < \<bar>c - spot\<bar> then op_strike r else c)"
  have r: "is_finite (op_strike r)" "Fin 0 < op_strike r" using Cons.prems(1) by (simp_all add: strikes_ok_def)
  have step: "closer_strike spot (Some c) r = Some c'"
    using Cons.prems(3,4) by (auto simp: closer_strike_def c'_def is_finite_iff)
  have nn: "\<bar>op_strike r - spot\<bar> \<noteq> NaN" "\<bar>c - spot\<bar> \<noteq> NaN" using strike_distance r Cons.prems by auto
  have le: "\<bar>c' - spot\<bar> \<le> \<bar>c - spot\<bar>" "\<bar>c' - spot\<bar> \<le> \<bar>op_strike r - spot\<bar>"
    using nn not_less_jsnum [OF nn] by (auto simp: c'_def less_jsnum_imp_le)
  have "is_finite c'" "Fin 0 < c'" using r Cons.prems by (simp_all add: c'_def)
  from Cons.IH [OF _ Cons.prems(2) this] Cons.prems(1)
  obtain a where a: "foldl (closer_strike spot) (Some c') chain = Some a" "is_finite a" "Fin 0 < a"
      "a = c' \<or> a \<in> op_strike ` set chain" "\<bar>a - spot\<bar> \<le> \<bar>c' - spot\<bar>" "\<forall>r \<in> set chain. \<bar>a - spot\<bar> \<le> \<bar>op_strike r - spot\<bar>"
    by (auto simp: strikes_ok_def)
  have "a = c \<or> a \<in> op_strike ` set (r # chain)" using a(4) by (auto simp: c'_def)
  moreover have "\<bar>a - spot\<bar> \<le> \<bar>c - spot\<bar>" "\<bar>a - spot\<bar> \<le> \<bar>op_strike r - spot\<bar>" using a(5) le le_jsnum_trans by blast+
  ultimately show ?case using a by (simp add: step)
qed (use strike_distance in \<open>auto simp: is_finite_iff\<close>)

lemma atm_nearest:
  assumes "strikes_ok chain" "chain \<noteq> []" "is_finite spot"
  shows "\<exists>a. find_atm_strike chain spot = Some a \<and> a \<in> op_strike ` set chain \<and>
    (\<forall>r \<in> set chain. \<bar>a - spot\<bar> \<le> \<bar>op_strike r - spot\<bar>)"
proof -
  obtain r rs where chain: "chain = r # rs" using assms(2) by (cases chain) auto
  then have r: "is_finite (op_strike r)" "Fin 0 < op_strike r" "strikes_ok rs" using assms(1) by (simp_all add: strikes_ok_def)
  from atm_fold [OF r(3) assms(3) r(1,2)] show ?thesis using assms(3)
    by (auto simp: find_atm_strike_def chain closer_strike_def)
qed

text \<open>The maximum pain settlement is a strike of the chain at which the writers pay least.\<close>

lemma less_pain_fold:
  assumes "\<And>k. k \<in> set ks \<Longrightarrow> pain_at chain k \<noteq> NaN" "m \<noteq> NaN"
  shows "fst (foldl (less_pain chain) (m, b) ks) \<le> m \<and> (\<forall>k \<in> set ks. fst (foldl (less_pain chain) (m, b) ks) \<le> pain_at chain k) \<and>
    (foldl (less_pain chain) (m, b) ks = (m, b) \<or>
     (\<exists>k \<in> set ks. foldl (less_pain chain) (m, b) ks = (pain_at chain k, Some k)))"
  using assms
proof (induction ks arbitrary: m b)
  case (Cons k ks)
  define m' where "m' = (if pain_at chain k < m then pain_at chain k else m)"
  define b' where "b' = (if pain_at chain k < m then Some k else b)"
  have step: "less_pain chain (m, b) k = (m', b')" by (simp add: less_pain_def m'_def b'_def)
  have nn: "pain_at chain k \<noteq> NaN" "m' \<noteq> NaN" using Cons.prems by (simp_all add: m'_def)
  have le: "m' \<le> m" "m' \<le> pain_at chain k"
    using not_less_jsnum [OF nn(1) Cons.prems(2)] nn Cons.prems(2) by (auto simp: m'_def less_jsnum_imp_le)
  from Cons.IH [of m' b', OF Cons.prems(1) nn(2)] le show ?case
    unfolding foldl.simps step by (auto intro: le_jsnum_trans simp: m'_def b'_def split: if_splits)
qed simp

lemma max_pain_minimal:
  assumes "chain \<noteq> []" "\<And>r. r \<in> set chain \<Longrightarrow> is_finite (pain_at chain (op_strike r))"
  shows "\<exists>k. compute_max_pain chain = Some k \<and> k \<in> op_strike ` set chain \<and>
    (\<forall>r \<in> set chain. pain_at chain k \<le> pain_at chain (op_strike r))"
proof -
  define ks where "ks = sort_by (\<lambda>a b. Fin 0 < a - b) (map op_strike chain)"
  have set: "set ks = op_strike ` set chain" by (simp add: ks_def)
  have fin: "is_finite (pain_at chain k)" if "k \<in> set ks" for k using assms(2) that set by auto
  then have nn: "pain_at chain k \<noteq> NaN" if "k \<in> set ks" for k using that by force
  let ?r = "foldl (less_pain chain) (PInf, None) ks"
  note f = less_pain_fold [of ks chain PInf None, OF nn]
  obtain r where r: "r \<in> set chain" using assms(1) by (cases chain) auto
  then have "op_strike r \<in> set ks" by (simp add: set)
  then have "?r \<noteq> (PInf, None)" using f fin by (fastforce simp: is_finite_iff)
  then obtain k where k: "k \<in> set ks" "?r = (pain_at chain k, Some k)" using f by auto
  then show ?thesis using f set assms(1) by (intro exI [of _ k]) (auto simp: compute_max_pain_def ks_def [symmetric])
qed

text \<open>The heat map never divides by less than one, and no label is a tie of the classification.\<close>

lemma heatmap_at_least_one:
  assumes "\<And>r. r \<in> set chain \<Longrightarrow> field_or_zero (op_ce r) k \<noteq> NaN \<and> field_or_zero (op_pe r) k \<noteq> NaN"
  shows "Fin 1 \<le> chain_max k chain"
proof -
  have "Fin 1 \<le> m \<Longrightarrow> Fin 1 \<le> foldl (\<lambda>m row. math_max (math_max m (field_or_zero (op_ce row) k)) (field_or_zero (op_pe row) k)) m chain" for m
    using assms
  proof (induction chain arbitrary: m)
    case (Cons r chain)
    have nn: "m \<noteq> NaN" "field_or_zero (op_ce r) k \<noteq> NaN" "field_or_zero (op_pe r) k \<noteq> NaN" using Cons.prems by (auto dest: le_jsnum_not_NaN)
    have a: "Fin 1 \<le> math_max m (field_or_zero (op_ce r) k)" using math_max_ge [OF nn(1,2)] Cons.prems(1) le_jsnum_trans by blast
    then have "math_max m (field_or_zero (op_ce r) k) \<noteq> NaN" by (auto dest: le_jsnum_not_NaN)
    then have "Fin 1 \<le> math_max (math_max m (field_or_zero (op_ce r) k)) (field_or_zero (op_pe r) k)"
      using math_max_ge nn(3) a le_jsnum_trans by blast
    then show ?case using Cons by simp
  qed simp
  then show ?thesis by (simp add: chain_max_def)
qed

lemma mixed_only_balanced:
  assumes "classify_buildup (Some ce) (Some pe) = ''Mixed''" "ce \<noteq> NaN" "pe \<noteq> NaN"
  shows "num_eq ce (Fin 0) \<and> num_eq pe (Fin 0)"
  using assms by (cases ce; cases pe) (auto simp: classify_buildup_def Let_def num_eq_def split: if_splits)

end
