(* ===== verification/FuturesWatchlist.thy ===== *)
theory FuturesWatchlist
  imports WatchlistFacts FuturesStore
begin

text \<open>
  The watchlists of contracts, \<open>frontend/src/stores/useFuturesWatchlistStore.js\<close>. They live in the
  browser alone, so the lists, the active one and their storage are a \<open>watchlist_store\<close> without a
  server; the prices are an object. \<open>Date.now()\<close> in an id is the argument \<open>stamp\<close>. The items of a
  stored list are an array. Toasts are not modelled.
\<close>

section \<open>Loading\<close>

definition seeded_bases :: "string list" where
  "seeded_bases = [''NIFTY'', ''BANKNIFTY'', ''RELIANCE'', ''TCS'']"

definition is_likely_seeded_contract :: "jsval \<Rightarrow> bool" where
  "is_likely_seeded_contract symbol =
     (let up = upper (text_of symbol) in up \<noteq> [] \<and> list_ex (\<lambda>base. starts_with up base) seeded_bases)"

definition strip_seeded :: "jsobj \<Rightarrow> jsobj" where
  "strip_seeded w =
     (let items = items_of w in
      if items = [] \<or> 4 < length items then w
      else if \<not> list_all (\<lambda>i. is_likely_seeded_contract (contract_name i)) items then w
      else with_items [] w)"

definition strip_seeded_defaults :: "jsobj list \<Rightarrow> jsobj list" where
  "strip_seeded_defaults ws = map strip_seeded ws"

definition has_list :: "jsval \<Rightarrow> jsobj list \<Rightarrow> bool" where
  "has_list i ws = list_ex (\<lambda>w. js_same (wl_id w) i) ws"

definition ensure_state :: "string \<Rightarrow> jsobj list \<Rightarrow> jsval \<Rightarrow> jsobj list \<times> jsval" where
  "ensure_state stamp ws active =
     (case ws of
        w # _ \<Rightarrow> (ws, if has_list active ws then active else wl_id w)
      | [] \<Rightarrow> ([local_default stamp], JStr (''local_'' @ stamp)))"

record fut_lists =
  fl_lists :: watchlist_store
  fl_prices :: jsobj

definition empty_fut_lists :: "(jsobj list \<times> jsval) option \<Rightarrow> bool \<Rightarrow> fut_lists" where
  "empty_fut_lists stored can_store = \<lparr> fl_lists = initial_watchlists stored can_store, fl_prices = [] \<rparr>"

definition on_lists :: "(watchlist_store \<Rightarrow> watchlist_store) \<Rightarrow> fut_lists \<Rightarrow> fut_lists" where
  "on_lists f s = s\<lparr> fl_lists := f (fl_lists s) \<rparr>"

definition load_lists :: "string \<Rightarrow> watchlist_store \<Rightarrow> watchlist_store" where
  "load_lists stamp s =
     (let (ws, active) =
        (case ws_stored s of
           Some (cached, a) \<Rightarrow> ensure_state stamp (strip_seeded_defaults cached) a
         | None \<Rightarrow> ensure_state stamp [] Undefined)
      in show_lists ws active (s\<lparr> ws_loading := False \<rparr>))"

section \<open>Operations\<close>

definition activate :: "jsval \<Rightarrow> watchlist_store \<Rightarrow> watchlist_store" where
  "activate i s =
     (let active = (if has_list i (ws_lists s) then i
        else case ws_lists s of w # _ \<Rightarrow> nullish (wl_id w) JNull | [] \<Rightarrow> JNull)
      in persist_state (s\<lparr> ws_active := active \<rparr>))"

definition create_list :: "string \<Rightarrow> string \<Rightarrow> watchlist_store \<Rightarrow> watchlist_store" where
  "create_list stamp name s =
     (if trim name = [] then s
      else
        let new = [(''id'', JStr (''local_'' @ stamp)), (''name'', JStr (trim name)), (''items'', JArr [])]
        in persist_state (s\<lparr> ws_lists := ws_lists s @ [new], ws_active := wl_id new \<rparr>))"

definition rename_list :: "jsval \<Rightarrow> string \<Rightarrow> watchlist_store \<Rightarrow> watchlist_store" where
  "rename_list i name s =
     (if \<not> truthy i \<or> trim name = [] then s
      else persist_state (set_lists (map_list i (set_field ''name'' (JStr (trim name))) (ws_lists s)) s))"

definition delete_list :: "jsval \<Rightarrow> watchlist_store \<Rightarrow> watchlist_store" where
  "delete_list i s =
     (if length (ws_lists s) \<le> 1 then s
      else
        let remaining = filter (\<lambda>w. \<not> js_same (wl_id w) i) (ws_lists s);
            active = (if js_same (ws_active s) i
              then (case remaining of w # _ \<Rightarrow> nullish (wl_id w) JNull | [] \<Rightarrow> JNull) else ws_active s)
        in show_lists remaining active s)"

definition contract_item :: "string \<Rightarrow> string \<Rightarrow> string \<Rightarrow> jsval" where
  "contract_item stamp added_at sy =
     JObj [(''id'', JStr (''local_item_'' @ stamp)), (''contract_symbol'', JStr sy), (''added_at'', JStr added_at)]"

text \<open>\<open>addItem\<close> after the load that it begins with where there is no active list.\<close>

definition insert_contract :: "string \<Rightarrow> string \<Rightarrow> jsval \<Rightarrow> watchlist_store \<Rightarrow> watchlist_store" where
  "insert_contract stamp added_at symbol s =
     (let sy = symbol_text symbol in
      if sy = [] then s
      else case find_list (ws_active s) (ws_lists s) of
             None \<Rightarrow> s
           | Some w \<Rightarrow>
               if list_ex (\<lambda>i. js_same (contract_name i) (JStr sy)) (items_of w) then s
               else persist_state (set_lists
                 (map_list (ws_active s) (map_items (\<lambda>items. items @ [contract_item stamp added_at sy])) (ws_lists s)) s))"

definition add_contract :: "string \<Rightarrow> string \<Rightarrow> jsval \<Rightarrow> watchlist_store \<Rightarrow> watchlist_store" where
  "add_contract stamp added_at symbol s =
     insert_contract stamp added_at symbol
       (if \<not> truthy (ws_active s) \<or> ws_lists s = [] then load_lists stamp s else s)"

definition remove_contract :: "jsval \<Rightarrow> watchlist_store \<Rightarrow> watchlist_store" where
  "remove_contract item s =
     (if \<not> truthy (ws_active s) \<or> \<not> truthy item then s
      else persist_state (set_lists
        (map_list (ws_active s) (map_items (filter (\<lambda>i. \<not> js_same (field i ''id'') item))) (ws_lists s)) s))"

definition reorder_contracts :: "jsval list \<Rightarrow> watchlist_store \<Rightarrow> watchlist_store" where
  "reorder_contracts items s =
     persist_state (set_lists (map_list (ws_active s) (with_items items) (ws_lists s)) s)"

definition clear_lists :: "fut_lists \<Rightarrow> fut_lists" where
  "clear_lists s =
     \<lparr> fl_lists = (fl_lists s)\<lparr> ws_lists := [], ws_active := JNull, ws_loading := False, ws_stored := None \<rparr>, fl_prices = [] \<rparr>"

section \<open>Prices\<close>

definition update_contract_prices :: "jsobj \<Rightarrow> fut_lists \<Rightarrow> fut_lists" where
  "update_contract_prices update s = (if update = [] then s else s\<lparr> fl_prices := spread (fl_prices s) update \<rparr>)"

text \<open>The contracts that a fetch asks for; \<open>None\<close> where it does not start.\<close>

definition contracts_to_fetch :: "bool \<Rightarrow> watchlist_store \<Rightarrow> jsval list option" where
  "contracts_to_fetch limited s =
     (case find_list (ws_active s) (ws_lists s) of
        None \<Rightarrow> None
      | Some w \<Rightarrow> if items_of w = [] \<or> limited then None else Some (filter truthy (map contract_name (items_of w))))"

definition batch_request :: "jsval list \<Rightarrow> jsval list" where
  "batch_request symbols = take 50 symbols"

text \<open>
  The answer to a batch goes to the prices and to the store of the terminal. Where the batch fails every
  contract is asked for by itself, and those that answer are kept.
\<close>

definition batch_answered :: "jsnum \<Rightarrow> (string \<times> jsobj) list \<Rightarrow> fut_lists \<times> futures_store \<Rightarrow> fut_lists \<times> futures_store" where
  "batch_answered now quotes st =
     (if quotes = [] then st
      else (update_contract_prices (map (\<lambda>(k, q). (k, JObj q)) quotes) (fst st), update_fut_quotes now quotes (snd st)))"

definition batch_failed :: "jsval list \<Rightarrow> jsval option list \<Rightarrow> fut_lists \<Rightarrow> fut_lists" where
  "batch_failed symbols answers s =
     update_contract_prices
       (fold (\<lambda>(sy, answer) prices. case answer of Some q \<Rightarrow> set_field (to_string sy) q prices | None \<Rightarrow> prices)
         (zip symbols answers) []) s"

section \<open>Events\<close>

datatype list_event =
  Load string | Activate jsval | CreateList string string | RenameList jsval string | DeleteList jsval
  | AddContract string string jsval | RemoveContract jsval | ReorderContracts "jsval list"

fun list_step :: "list_event \<Rightarrow> watchlist_store \<Rightarrow> watchlist_store" where
  "list_step (Load stamp) s = load_lists stamp s"
| "list_step (Activate i) s = activate i s"
| "list_step (CreateList stamp name) s = create_list stamp name s"
| "list_step (RenameList i name) s = rename_list i name s"
| "list_step (DeleteList i) s = delete_list i s"
| "list_step (AddContract stamp added symbol) s = add_contract stamp added symbol s"
| "list_step (RemoveContract item) s = remove_contract item s"
| "list_step (ReorderContracts items) s = reorder_contracts items s"

section \<open>Lemmas\<close>

text \<open>
  What every operation keeps: ids are texts and name one list each, no list has a contract twice, and
  the active list exists.
\<close>

fun is_text :: "jsval \<Rightarrow> bool" where
  "is_text (JStr s) = True" | "is_text _ = False"

lemma is_text_same: "is_text v \<Longrightarrow> js_same v w \<longleftrightarrow> w = v"
  by (cases v) auto

definition contracts_of :: "jsobj \<Rightarrow> jsval list" where
  "contracts_of w = map contract_name (items_of w)"

definition lists_good :: "jsobj list \<Rightarrow> bool" where
  "lists_good ws \<longleftrightarrow> list_all (\<lambda>w. is_text (wl_id w) \<and> distinct (contracts_of w)) ws \<and> distinct (map wl_id ws)"

definition active_ok :: "watchlist_store \<Rightarrow> bool" where
  "active_ok s \<longleftrightarrow> ws_lists s = [] \<or> has_list (ws_active s) (ws_lists s)"

definition fut_lists_ok :: "watchlist_store \<Rightarrow> bool" where
  "fut_lists_ok s \<longleftrightarrow> lists_good (ws_lists s) \<and> active_ok s \<and>
     (case ws_stored s of Some (ws, a) \<Rightarrow> lists_good ws | None \<Rightarrow> True)"

lemma fut_lists_ok_show:
  assumes "lists_good ws" "ws = [] \<or> has_list a ws" "fut_lists_ok s"
  shows "fut_lists_ok (show_lists ws a s)"
  using assms by (auto simp: fut_lists_ok_def active_ok_def show_lists_def persist_lists_def)

lemma persist_is_show: "persist_state (s\<lparr> ws_lists := ws, ws_active := a \<rparr>) = show_lists ws a s"
  by (simp add: persist_state_def show_lists_def)

lemma persist_set: "persist_state (set_lists ws s) = show_lists ws (ws_active s) s"
  by (simp add: persist_state_def show_lists_def persist_lists_def set_lists_def)

lemma persist_active: "persist_state (s\<lparr> ws_active := a \<rparr>) = show_lists (ws_lists s) a s"
  by (simp add: persist_state_def show_lists_def persist_lists_def)

lemma ids_map_list: "(\<And>w. wl_id (f w) = wl_id w) \<Longrightarrow> map wl_id (map_list i f ws) = map wl_id ws"
  by (simp add: map_list_def)

lemma has_list_ids: "has_list a ws = list_ex (\<lambda>i. js_same i a) (map wl_id ws)"
  by (simp add: has_list_def list_ex_iff)

lemma has_list_map: "(\<And>w. wl_id (f w) = wl_id w) \<Longrightarrow> has_list a (map_list i f ws) = has_list a ws"
  by (simp add: has_list_ids ids_map_list)

lemma has_first: "lists_good (w # ws) \<Longrightarrow> has_list (wl_id w) (w # ws)"
  by (auto simp: has_list_def lists_good_def is_text_same)

lemma good_map:
  assumes "lists_good ws" "\<And>w. wl_id (f w) = wl_id w"
    and "\<And>w. w \<in> set ws \<Longrightarrow> wl_id w = i \<Longrightarrow> distinct (contracts_of (f w))"
  shows "lists_good (map_list i f ws)"
proof -
  have "map wl_id (map_list i f ws) = map wl_id ws" using assms(2) by (rule ids_map_list)
  moreover have "is_text (wl_id v) \<and> distinct (contracts_of v)" if "v \<in> set (map_list i f ws)" for v
    using that assms by (auto simp: map_list_def lists_good_def list_all_iff is_text_same)
  ultimately show ?thesis using assms(1) by (simp add: lists_good_def list_all_iff)
qed

lemma good_filter: "lists_good ws \<Longrightarrow> lists_good (filter P ws)"
  by (simp add: lists_good_def list_all_iff distinct_map_filter)

lemma strip_simps [simp]: "wl_id (strip_seeded w) = wl_id w"
  by (simp add: strip_seeded_def Let_def)

lemma good_strip: "lists_good ws \<Longrightarrow> lists_good (strip_seeded_defaults ws)"
proof -
  assume good: "lists_good ws"
  have "distinct (contracts_of (strip_seeded w))" if "w \<in> set ws" for w
    using that good by (auto simp: strip_seeded_def Let_def lists_good_def list_all_iff contracts_of_def)
  then have "list_all (\<lambda>w. is_text (wl_id w) \<and> distinct (contracts_of w)) (strip_seeded_defaults ws)"
    using good by (auto simp: lists_good_def list_all_iff strip_seeded_defaults_def)
  moreover have "map wl_id (strip_seeded_defaults ws) = map wl_id ws" by (simp add: strip_seeded_defaults_def)
  ultimately show ?thesis using good by (simp add: lists_good_def)
qed

lemma contracts_of_new: "contracts_of [(''id'', i), (''name'', n), (''items'', JArr [])] = []"
  by (simp add: contracts_of_def items_of_def own_Cons)

lemma good_default: "lists_good [local_default stamp]"
  by (simp add: lists_good_def local_default_def contracts_of_new wl_id_def own_Cons)

lemma ensure_good:
  assumes "lists_good ws" "ensure_state stamp ws a = (ws', a')"
  shows "lists_good ws' \<and> has_list a' ws'"
proof (cases ws)
  case Nil
  then show ?thesis using assms(2) good_default [of stamp]
    by (auto simp: ensure_state_def has_list_def local_default_def wl_id_def own_Cons)
next
  case (Cons w rest)
  then show ?thesis using assms has_first [of w rest] by (auto simp: ensure_state_def split: if_splits)
qed

lemma load_ok:
  assumes "fut_lists_ok s"
  shows "fut_lists_ok (load_lists stamp s)" "ws_lists (load_lists stamp s) \<noteq> []"
proof -
  have stored: "case ws_stored s of Some (ws, a) \<Rightarrow> lists_good ws | None \<Rightarrow> True" using assms by (simp add: fut_lists_ok_def)
  obtain cached a where load: "load_lists stamp s =
      (let (ws, active) = ensure_state stamp cached a in show_lists ws active (s\<lparr> ws_loading := False \<rparr>))" "lists_good cached"
  proof (cases "ws_stored s")
    case None
    then show ?thesis using that [of "[]" Undefined] by (simp add: load_lists_def lists_good_def)
  next
    case (Some p)
    then show ?thesis using that [of "strip_seeded_defaults (fst p)" "snd p"] stored good_strip
      by (cases p) (simp add: load_lists_def)
  qed
  obtain ws active where e: "ensure_state stamp cached a = (ws, active)" by (cases "ensure_state stamp cached a")
  have ok: "fut_lists_ok (s\<lparr> ws_loading := False \<rparr>)" using assms by (simp add: fut_lists_ok_def active_ok_def)
  show "fut_lists_ok (load_lists stamp s)"
    using ensure_good [OF load(2) e] ok by (simp add: load(1) e fut_lists_ok_show)
  show "ws_lists (load_lists stamp s) \<noteq> []"
    using ensure_good [OF load(2) e] by (auto simp: load(1) e show_lists_def has_list_def)
qed

lemma map_ok:
  assumes "fut_lists_ok s" "\<And>w. wl_id (f w) = wl_id w"
    and "\<And>w. w \<in> set (ws_lists s) \<Longrightarrow> wl_id w = i \<Longrightarrow> distinct (contracts_of (f w))"
  shows "fut_lists_ok (persist_state (set_lists (map_list i f (ws_lists s)) s))"
proof -
  have "lists_good (map_list i f (ws_lists s))" using assms by (auto simp: fut_lists_ok_def intro: good_map)
  moreover have "map_list i f (ws_lists s) = [] \<or> has_list (ws_active s) (map_list i f (ws_lists s))"
    using assms(1) has_list_map [of f, OF assms(2)] by (auto simp: fut_lists_ok_def active_ok_def map_list_def)
  ultimately show ?thesis using assms(1) by (simp add: persist_set fut_lists_ok_show)
qed

lemma good_distinct: "lists_good ws \<Longrightarrow> w \<in> set ws \<Longrightarrow> distinct (contracts_of w)"
  by (simp add: lists_good_def list_all_iff)

lemma found_by_id:
  assumes "lists_good ws" "find_list i ws = Some w" "v \<in> set ws" "wl_id v = i"
  shows "v = w"
proof -
  obtain k where k: "k < length ws" "ws ! k = w" "js_same (wl_id w) i"
    using assms(2) unfolding find_list_def find_Some_iff by auto
  then have "wl_id w = i" using assms(1) by (auto simp: lists_good_def list_all_length is_text_same)
  then show ?thesis using assms k(1,2) nth_mem [OF k(1)] by (auto simp: lists_good_def distinct_map inj_on_def)
qed

lemma insert_ok: "fut_lists_ok s \<Longrightarrow> fut_lists_ok (insert_contract stamp added symbol s)"
proof -
  assume ok: "fut_lists_ok s"
  define sy where "sy = symbol_text symbol"
  show ?thesis
  proof (cases "find_list (ws_active s) (ws_lists s)")
    case None
    then show ?thesis using ok by (simp add: insert_contract_def Let_def)
  next
    case (Some w)
    have "fut_lists_ok (persist_state (set_lists
        (map_list (ws_active s) (map_items (\<lambda>items. items @ [contract_item stamp added sy])) (ws_lists s)) s))"
      if new: "JStr sy \<notin> set (contracts_of w)"
    proof (rule map_ok [OF ok])
      fix v assume v: "v \<in> set (ws_lists s)" "wl_id v = ws_active s"
      have good: "lists_good (ws_lists s)" using ok by (simp add: fut_lists_ok_def)
      from good_distinct [OF good v(1)] found_by_id [OF good Some v] new
      show "distinct (contracts_of (map_items (\<lambda>items. items @ [contract_item stamp added sy]) v))"
        by (simp add: contracts_of_def contract_item_def contract_name_def own_Cons)
    qed simp
    moreover have "list_ex (\<lambda>i. js_same (contract_name i) (JStr sy)) (items_of w) \<longleftrightarrow> JStr sy \<in> set (contracts_of w)"
      unfolding contracts_of_def list_ex_iff set_map image_iff js_same_text by metis
    ultimately show ?thesis using ok Some by (simp add: insert_contract_def Let_def sy_def [symmetric])
  qed
qed

lemma good_ids: "lists_good ws \<Longrightarrow> w \<in> set ws \<Longrightarrow> is_text (wl_id w)"
  by (simp add: lists_good_def list_all_iff)

lemma nullish_text: "is_text v \<Longrightarrow> nullish v JNull = v"
  by (cases v) auto

lemma activate_list_ok:
  assumes ok: "fut_lists_ok s"
  shows "fut_lists_ok (activate i s)"
proof -
  have good: "lists_good (ws_lists s)" using ok by (simp add: fut_lists_ok_def)
  show ?thesis
  proof (cases "has_list i (ws_lists s) \<or> ws_lists s = []")
    case True
    then show ?thesis using ok good by (auto simp: activate_def persist_active Let_def fut_lists_ok_show)
  next
    case False
    then obtain w ws where ws: "ws_lists s = w # ws" by (cases "ws_lists s") auto
    then show ?thesis using False ok good has_first [of w ws] good_ids [OF good, of w]
      by (simp add: activate_def persist_active Let_def nullish_text fut_lists_ok_show)
  qed
qed

lemma create_list_ok:
  assumes ok: "fut_lists_ok s" and fresh: "JStr (''local_'' @ stamp) \<notin> set (map wl_id (ws_lists s))"
  shows "fut_lists_ok (create_list stamp name s)"
proof -
  define new where "new = [(''id'', JStr (''local_'' @ stamp)), (''name'', JStr (trim name)), (''items'', JArr [])]"
  have id: "wl_id new = JStr (''local_'' @ stamp)" "contracts_of new = []"
    by (simp_all add: new_def wl_id_def own_Cons contracts_of_new)
  have "lists_good (ws_lists s @ [new])" using ok fresh by (auto simp: lists_good_def fut_lists_ok_def id)
  moreover have "has_list (wl_id new) (ws_lists s @ [new])" by (simp add: has_list_def id)
  ultimately have "fut_lists_ok (show_lists (ws_lists s @ [new]) (wl_id new) s)" using ok by (simp add: fut_lists_ok_show)
  then show ?thesis using ok unfolding create_list_def Let_def persist_is_show new_def by simp
qed

lemma delete_list_ok:
  assumes ok: "fut_lists_ok s"
  shows "fut_lists_ok (delete_list i s)"
proof (cases "length (ws_lists s) \<le> 1")
  case False
  have good: "lists_good (ws_lists s)" using ok by (simp add: fut_lists_ok_def)
  define remaining where "remaining = filter (\<lambda>w. \<not> js_same (wl_id w) i) (ws_lists s)"
  define a where "a = (if js_same (ws_active s) i
    then (case remaining of w # _ \<Rightarrow> nullish (wl_id w) JNull | [] \<Rightarrow> JNull) else ws_active s)"
  have rg: "lists_good remaining" using good by (simp add: remaining_def good_filter)
  have kept: "has_list (ws_active s) remaining" if "\<not> js_same (ws_active s) i"
  proof -
    obtain v where v: "v \<in> set (ws_lists s)" "js_same (wl_id v) (ws_active s)"
      using ok False by (auto simp: fut_lists_ok_def active_ok_def has_list_def list_ex_iff)
    then have "wl_id v = ws_active s" using good_ids [OF good v(1)] by (simp add: is_text_same)
    then show ?thesis using v that by (auto simp: remaining_def has_list_def list_ex_iff)
  qed
  have "remaining = [] \<or> has_list a remaining"
  proof (cases remaining)
    case (Cons w ws)
    then show ?thesis using has_first [of w ws] rg kept good_ids [OF rg, of w] by (simp add: a_def nullish_text)
  qed simp
  then show ?thesis using ok rg False
    by (simp add: delete_list_def Let_def remaining_def [symmetric] a_def [symmetric] fut_lists_ok_show)
qed (simp add: delete_list_def ok)

text \<open>What the events of a page may be: the clock gives a new id, a reordering has the contracts once each.\<close>

fun event_fits :: "list_event \<Rightarrow> watchlist_store \<Rightarrow> bool" where
  "event_fits (CreateList stamp name) s = (JStr (''local_'' @ stamp) \<notin> set (map wl_id (ws_lists s)))"
| "event_fits (ReorderContracts items) s = distinct (map contract_name items)"
| "event_fits e s = True"

lemma list_step_ok:
  assumes ok: "fut_lists_ok s" and fits: "event_fits e s"
  shows "fut_lists_ok (list_step e s)"
proof -
  have good: "lists_good (ws_lists s)" using ok by (simp add: fut_lists_ok_def)
  have dist: "distinct (map contract_name (items_of w))" if "w \<in> set (ws_lists s)" for w
    using good_distinct [OF good that] by (simp add: contracts_of_def)
  have name: "wl_id (set_field ''name'' v w) = wl_id w" "contracts_of (set_field ''name'' v w) = contracts_of w" for v w
    by (simp_all add: wl_id_def contracts_of_def items_of_def)
  show ?thesis
  proof (cases e)
    case (RenameList i n) then show ?thesis using ok good_distinct [OF good] by (simp add: rename_list_def map_ok name)
  next
    case (RemoveContract item) then show ?thesis using ok dist
      by (auto simp: remove_contract_def contracts_of_def distinct_map_filter intro!: map_ok)
  next
    case (ReorderContracts items) then show ?thesis using ok fits
      by (auto simp: reorder_contracts_def contracts_of_def intro!: map_ok)
  qed (use fits in \<open>simp_all add: load_ok [OF ok] activate_list_ok [OF ok] create_list_ok [OF ok] delete_list_ok [OF ok]
      add_contract_def insert_ok ok\<close>)
qed

inductive fut_lists_run :: "watchlist_store \<Rightarrow> bool" where
  start: "fut_lists_ok s \<Longrightarrow> fut_lists_run s"
| step: "fut_lists_run s \<Longrightarrow> event_fits e s \<Longrightarrow> fut_lists_run (list_step e s)"

lemma fut_lists_run_ok: "fut_lists_run s \<Longrightarrow> fut_lists_ok s"
  by (induction rule: fut_lists_run.induct) (auto intro: list_step_ok)

text \<open>What is stored is what is shown, where the browser stores at all.\<close>

lemma stored_is_shown:
  assumes "ws_can_store s" "list_step e s \<noteq> s"
  shows "ws_stored (list_step e s) = Some (ws_lists (list_step e s), ws_active (list_step e s))"
  using assms
  by (cases e)
    (auto simp: load_lists_def activate_def create_list_def rename_list_def delete_list_def add_contract_def insert_contract_def
      remove_contract_def reorder_contracts_def persist_state_def show_lists_def persist_lists_def set_lists_def Let_def
      split: option.splits if_splits prod.splits)

text \<open>
  A short list of contracts on the usual names is taken for a seeded one and emptied when the page is
  loaded again, although the user chose them.
\<close>

lemma reload_loses_choice:
  "let s = list_step (AddContract ''1'' ''t'' (JStr ''NIFTY25JULFUT'')) (initial_watchlists None True);
       s' = list_step (Load ''2'') s
   in map contracts_of (ws_lists s) = [[JStr ''NIFTY25JULFUT'']] \<and> map contracts_of (ws_lists s') = [[]]"
proof -
  have sy: "symbol_text (JStr ''NIFTY25JULFUT'') = ''NIFTY25JULFUT''"
    by (simp add: symbol_text_def js_or_def trim_def is_space_def upper_def upper_char_def)
  have up: "upper (text_of (JStr ''NIFTY25JULFUT'')) = ''NIFTY25JULFUT''"
    by (simp add: text_of_def js_or_def upper_def upper_char_def)
  show ?thesis
    by (simp add: add_contract_def insert_contract_def initial_watchlists_def load_lists_def ensure_state_def show_lists_def
      persist_lists_def persist_state_def set_lists_def local_default_def find_list_def map_list_def map_items_def wl_id_def
      own_Cons items_of_def with_items_def contracts_of_def contract_item_def contract_name_def sy strip_seeded_defaults_def
      strip_seeded_def is_likely_seeded_contract_def up seeded_bases_def starts_with_def Let_def set_field_def)
qed

text \<open>A longer list, or one with another name, survives.\<close>

lemma reload_keeps:
  assumes "ws_stored s = Some (ws, a)" "ws \<noteq> []"
    and "\<And>w. w \<in> set ws \<Longrightarrow> 4 < length (items_of w) \<or> list_ex (\<lambda>i. \<not> is_likely_seeded_contract (contract_name i)) (items_of w)"
  shows "ws_lists (load_lists stamp s) = ws"
proof -
  have "strip_seeded w = w" if "w \<in> set ws" for w
    using assms(3) [OF that] by (auto simp: strip_seeded_def Let_def list_ex_iff list_all_iff)
  then have "strip_seeded_defaults ws = ws" by (simp add: strip_seeded_defaults_def map_idI)
  then show ?thesis using assms(1,2) by (cases ws) (simp_all add: load_lists_def ensure_state_def show_lists_def persist_lists_def)
qed

end
