(* ===== verification/ZeroLossStore.thy ===== *)
theory ZeroLossStore
  imports JSValue
begin

text \<open>
  The store of the zero-loss strategy, \<open>frontend/src/stores/useZeroLossStore.js\<close>: the answers of a
  refresh, the switch, and the messages of its channel. An entry of the activity log keeps the values
  that its message prints; the wording is left out, and figures are objects. A message that cannot be printed, a price that is no
  number, ends the handler after the state is set, as the exception does.
\<close>

section \<open>State\<close>

record zero_loss =
  zl_enabled :: jsval
  zl_symbols :: jsval
  zl_confidence :: jsobj
  zl_positions :: jsobj
  zl_stats :: jsobj
  zl_signals :: jsval
  zl_trades :: "jsval list"
  zl_performance :: jsval
  zl_loading :: bool
  zl_last_update :: "jsnum option"
  zl_log :: "jsobj list"

definition initial_zero_loss :: zero_loss where
  "initial_zero_loss = \<lparr> zl_enabled = JBool False, zl_symbols = JArr [], zl_confidence = [], zl_positions = [],
     zl_stats = [], zl_signals = JArr [], zl_trades = [], zl_performance = JNull, zl_loading = True,
     zl_last_update = None, zl_log = [] \<rparr>"

section \<open>Refresh and switch\<close>

text \<open>
  \<open>fetchAll\<close> with the \<open>data\<close> of each answer that came. An answer whose body is \<open>null\<close> throws where
  its field is read, and then nothing but the end of the loading is set.
\<close>

definition apply_status :: "jsval \<Rightarrow> zero_loss \<Rightarrow> zero_loss" where
  "apply_status d s = s\<lparr> zl_enabled := field d ''enabled'', zl_symbols := js_or (field d ''symbols'') (JArr []),
     zl_confidence := fields_of (js_or (field d ''confidence'') (JObj [])),
     zl_positions := fields_of (js_or (field d ''active_positions'') (JObj [])),
     zl_stats := fields_of (js_or (field d ''stats'') (JObj [])) \<rparr>"

definition zero_loss_trades :: "jsval \<Rightarrow> jsval list" where
  "zero_loss_trades d = filter (\<lambda>x. field x ''tag'' = JStr ''ZEROLOSS'') (elements (js_or (field d ''orders'') (JArr [])))"

definition with_answer :: "('a \<Rightarrow> 'b \<Rightarrow> 'b) \<Rightarrow> 'a option \<Rightarrow> 'b \<Rightarrow> 'b" where
  "with_answer f answer s = (case answer of Some d \<Rightarrow> f d s | None \<Rightarrow> s)"

definition body_missing :: "jsval option \<Rightarrow> bool" where
  "body_missing answer = (case answer of Some d \<Rightarrow> is_nullish d | None \<Rightarrow> False)"

definition fetch_all ::
  "jsnum \<Rightarrow> jsval option \<Rightarrow> jsval option \<Rightarrow> jsval option \<Rightarrow> jsval option \<Rightarrow> zero_loss \<Rightarrow> zero_loss" where
  "fetch_all now status signals performance orders s =
     (if body_missing status \<or> body_missing signals \<or> body_missing orders then s\<lparr> zl_loading := False \<rparr>
      else
        let s1 = with_answer apply_status status (s\<lparr> zl_loading := False, zl_last_update := Some now \<rparr>);
            s2 = with_answer (\<lambda>d t. t\<lparr> zl_signals := js_or (field d ''signals'') (JArr []) \<rparr>) signals s1;
            s3 = with_answer (\<lambda>d t. t\<lparr> zl_performance := d \<rparr>) performance s2
        in with_answer (\<lambda>d t. t\<lparr> zl_trades := zero_loss_trades d \<rparr>) orders s3)"

text \<open>The switch; a strategy that stops shows no positions.\<close>

definition toggle_zero_loss :: "jsval option \<Rightarrow> zero_loss \<Rightarrow> zero_loss" where
  "toggle_zero_loss answer s =
     (case answer of
        None \<Rightarrow> s
      | Some d \<Rightarrow>
          if is_nullish d then s
          else let s' = s\<lparr> zl_enabled := field d ''enabled'' \<rparr> in
               if truthy (field d ''enabled'') then s' else s'\<lparr> zl_positions := [] \<rparr>)"

definition push_log :: "jsnum \<Rightarrow> jsobj \<Rightarrow> zero_loss \<Rightarrow> zero_loss" where
  "push_log now entry s = s\<lparr> zl_log := take 50 (set_field ''ts'' (JNum now) entry # zl_log s) \<rparr>"

section \<open>Messages\<close>

text \<open>\<open>a + b\<close>: texts and objects are joined, the other values added.\<close>

fun concatenates :: "jsval \<Rightarrow> bool" where
  "concatenates (JStr s) = True" | "concatenates (JArr vs) = True" | "concatenates (JObj fs) = True" | "concatenates _ = False"

definition js_plus :: "jsval \<Rightarrow> jsval \<Rightarrow> jsval" where
  "js_plus a b =
     (if concatenates a \<or> concatenates b then JStr (to_string a @ to_string b) else JNum (to_number a + to_number b))"

definition zero_or :: "jsval \<Rightarrow> jsval" where
  "zero_or v = js_or v (JNum (Fin 0))"

definition count_up :: "string \<Rightarrow> jsobj \<Rightarrow> jsobj" where
  "count_up k stats = set_field k (js_plus (zero_or (own stats k)) (JNum (Fin 1))) stats"

text \<open>\<open>x?.toFixed(2)\<close> and \<open>x.toFixed(2)\<close> do not throw.\<close>

fun number_val :: "jsval \<Rightarrow> bool" where
  "number_val (JNum n) = True" | "number_val _ = False"

definition on_confidence :: "jsnum \<Rightarrow> jsval \<Rightarrow> zero_loss \<Rightarrow> zero_loss" where
  "on_confidence now payload s =
     (let conf = field payload ''confidence''; sy = field conf ''symbol'' in
      if \<not> truthy sy then s
      else
        let s' = s\<lparr> zl_confidence := set_field (to_string sy) conf (zl_confidence s),
              zl_stats := (if truthy (field payload ''stats'') then fields_of (field payload ''stats'') else zl_stats s),
              zl_last_update := Some now \<rparr>
        in case sy of
             JStr t \<Rightarrow> push_log now [(''type'', JStr ''scan''), (''symbol'', sy), (''direction'', field conf ''direction''),
                 (''score'', field conf ''score'')] s'
           | _ \<Rightarrow> s')"

definition on_entry :: "jsnum \<Rightarrow> jsval \<Rightarrow> string \<Rightarrow> zero_loss \<Rightarrow> zero_loss" where
  "on_entry now payload sy s =
     (let signal = field payload ''signal''; price = field signal ''entry_price'';
          s' = s\<lparr> zl_positions := set_field sy signal (zl_positions s),
            zl_stats := (if truthy (field payload ''stats'') then fields_of (field payload ''stats'')
              else count_up ''today_trades'' (zl_stats s)),
            zl_last_update := Some now \<rparr>
      in if number_val price \<or> is_nullish price
         then push_log now [(''type'', JStr ''entry''), (''symbol'', JStr sy), (''direction'', field signal ''direction''),
           (''price'', price)] s'
         else s')"

definition remove_field :: "string \<Rightarrow> jsobj \<Rightarrow> jsobj" where
  "remove_field = AList.delete"

definition exit_stats :: "jsval \<Rightarrow> jsobj \<Rightarrow> jsobj" where
  "exit_stats payload stats =
     (let pnl = zero_or (field payload ''pnl'');
          counted =
            (if field payload ''reason'' = JStr ''PROFIT'' then count_up ''today_profit'' stats
             else if Fin 0 \<le> to_number pnl then count_up ''today_breakeven'' stats
             else count_up ''today_losses'' stats)
      in set_field ''today_pnl'' (js_plus (zero_or (own counted ''today_pnl'')) pnl) counted)"

definition on_exit :: "jsnum \<Rightarrow> jsval \<Rightarrow> string \<Rightarrow> zero_loss \<Rightarrow> zero_loss" where
  "on_exit now payload sy s =
     (let pnl = zero_or (field payload ''pnl'');
          s' = s\<lparr> zl_positions := remove_field sy (zl_positions s),
            zl_stats := (if truthy (field payload ''stats'') then fields_of (field payload ''stats'')
              else exit_stats payload (zl_stats s)),
            zl_last_update := Some now \<rparr>
      in if number_val pnl
         then push_log now [(''type'', JStr (if field payload ''reason'' = JStr ''PROFIT'' then ''profit'' else ''stoploss'')),
           (''symbol'', JStr sy), (''pnl'', pnl)] s'
         else s')"

definition on_trade :: "jsnum \<Rightarrow> jsval \<Rightarrow> zero_loss \<Rightarrow> zero_loss" where
  "on_trade now payload s =
     (case field (field payload ''signal'') ''symbol'' of
        JStr sy \<Rightarrow>
          if sy = [] then s
          else if field payload ''action'' = JStr ''ENTRY'' then on_entry now payload sy s
          else if field payload ''action'' \<in> {JStr ''EXIT'', JStr ''FORCE_CLOSE''} then on_exit now payload sy s
          else s
      | _ \<Rightarrow> s)"

definition handle_message :: "jsnum \<Rightarrow> jsval \<Rightarrow> zero_loss \<Rightarrow> zero_loss" where
  "handle_message now data s =
     (let kind = js_or (field data ''type'') (field (field data ''data'') ''type'');
          payload = js_or (field data ''data'') data
      in if kind = JStr ''confidence_update'' \<or> kind = JStr ''algo_signal'' then on_confidence now payload s
         else if kind = JStr ''algo_trade'' then on_trade now payload s
         else if truthy (field payload ''stats'')
           then s\<lparr> zl_stats := fields_of (field payload ''stats''), zl_last_update := Some now \<rparr>
         else s)"

section \<open>Lemmas\<close>

lemma push_log_bounded [simp]: "length (zl_log (push_log now e s)) \<le> 50"
  by (simp add: push_log_def)

text \<open>The log never has rest than fifty entries.\<close>

definition log_ok :: "zero_loss \<Rightarrow> bool" where
  "log_ok s \<longleftrightarrow> length (zl_log s) \<le> 50"

lemma log_ok_push [simp]: "log_ok (push_log now e s)"
  by (simp add: log_ok_def)

lemma log_ok_confidence: "log_ok s \<Longrightarrow> log_ok (on_confidence now payload s)"
  by (cases "field (field payload ''confidence'') ''symbol''") (simp_all add: on_confidence_def Let_def, simp_all add: log_ok_def)

lemma log_ok_trade: "log_ok s \<Longrightarrow> log_ok (on_trade now payload s)"
proof -
  assume "log_ok s"
  then have "log_ok (on_entry now payload sy s)" "log_ok (on_exit now payload sy s)" for sy
    by (auto simp: on_entry_def on_exit_def Let_def) (simp_all add: log_ok_def)
  then show ?thesis using \<open>log_ok s\<close> by (simp add: on_trade_def split: jsval.split)
qed

lemma log_bounded: "log_ok s \<Longrightarrow> log_ok (handle_message now data s)"
  using log_ok_confidence log_ok_trade unfolding handle_message_def Let_def by (auto simp: log_ok_def)

definition trade_message :: "string \<Rightarrow> string \<Rightarrow> jsobj \<Rightarrow> jsobj \<Rightarrow> jsval" where
  "trade_message action sy signal rest =
     JObj ([(''type'', JStr ''algo_trade''), (''action'', JStr action), (''signal'', JObj ((''symbol'', JStr sy) # signal))] @ rest)"

lemma trade_message_fields:
  "field (trade_message action sy signal rest) ''action'' = JStr action"
  "field (field (trade_message action sy signal rest) ''signal'') ''symbol'' = JStr sy"
  "field (trade_message action sy signal rest) ''type'' = JStr ''algo_trade''"
  by (simp_all add: trade_message_def own_Cons)

lemma own_append: "map_of a k = None \<Longrightarrow> own (a @ b) k = own b k"
  by (simp add: own_def map_add_def split: option.split)

lemma trade_handled:
  assumes "own rest ''data'' = Undefined" "sy \<noteq> []"
  shows "handle_message now (trade_message action sy signal rest) s =
    (if action = ''ENTRY'' then on_entry now (trade_message action sy signal rest) sy s
     else if action \<in> {''EXIT'', ''FORCE_CLOSE''} then on_exit now (trade_message action sy signal rest) sy s else s)"
proof -
  have data: "field (trade_message action sy signal rest) ''data'' = Undefined"
    unfolding trade_message_def field_JObj by (subst own_append) (simp_all add: assms(1))
  show ?thesis using assms(2)
    by (simp add: handle_message_def on_trade_def trade_message_fields data js_or_def)
qed

text \<open>A position is there after its entry and gone after its exit; no other position is touched.\<close>

lemma entry_shows:
  assumes "own rest ''data'' = Undefined" "sy \<noteq> []"
  shows "own (zl_positions (handle_message now (trade_message ''ENTRY'' sy signal rest) s)) k =
    (if k = sy then JObj ((''symbol'', JStr sy) # signal) else own (zl_positions s) k)"
proof -
  have "field (trade_message ''ENTRY'' sy signal rest) ''signal'' = JObj ((''symbol'', JStr sy) # signal)"
    by (simp add: trade_message_def own_Cons)
  then show ?thesis unfolding trade_handled [OF assms] by (simp add: on_entry_def push_log_def Let_def)
qed

lemma own_remove: "own (remove_field k fs) j = (if j = k then Undefined else own fs j)"
  by (simp add: own_def remove_field_def delete_conv)

lemma exit_hides:
  assumes "own rest ''data'' = Undefined" "sy \<noteq> []" "action \<in> {''EXIT'', ''FORCE_CLOSE''}"
  shows "own (zl_positions (handle_message now (trade_message action sy signal rest) s)) k =
    (if k = sy then Undefined else own (zl_positions s) k)"
  unfolding trade_handled [OF assms(1,2)] using assms(3) by (auto simp: on_exit_def push_log_def Let_def own_remove)

text \<open>Without figures of the server an exit is counted once, as profit, break-even or loss.\<close>

definition whole_stat :: "jsobj \<Rightarrow> string \<Rightarrow> int \<Rightarrow> bool" where
  "whole_stat stats k n \<longleftrightarrow> zero_or (own stats k) = JNum (Fin (of_int n))"

lemma count_up_whole:
  assumes "whole_stat stats k n" "\<bar>n + 1\<bar> \<le> 2 ^ 53"
  shows "own (count_up k stats) k = JNum (Fin (of_int (n + 1)))"
  using assms plus_int [OF assms(2)] by (simp add: count_up_def js_plus_def whole_stat_def)

lemma exit_counted:
  assumes "whole_stat stats ''today_profit'' a" "whole_stat stats ''today_breakeven'' b" "whole_stat stats ''today_losses'' c"
    and "\<bar>a\<bar> < 2 ^ 53" "\<bar>b\<bar> < 2 ^ 53" "\<bar>c\<bar> < 2 ^ 53"
  shows "\<exists>a' b' c'. whole_stat (exit_stats payload stats) ''today_profit'' a' \<and>
    whole_stat (exit_stats payload stats) ''today_breakeven'' b' \<and> whole_stat (exit_stats payload stats) ''today_losses'' c' \<and>
    a' + b' + c' = a + b + c + 1"
proof -
  have up: "whole_stat (count_up k stats) k (n + 1)" if "whole_stat stats k n" "\<bar>n\<bar> < 2 ^ 53" for k n
  proof -
    have "\<bar>n + 1\<bar> \<le> 2 ^ 53" using that(2) by linarith
    from count_up_whole [OF that(1) this] show ?thesis by (auto simp: whole_stat_def zero_or_def js_or_def num_eq_def)
  qed
  have other: "whole_stat (count_up k stats) j n = whole_stat stats j n" if "j \<noteq> k" for j k n
    using that by (simp add: whole_stat_def count_up_def)
  have pnl: "whole_stat (set_field ''today_pnl'' v st) j n = whole_stat st j n" if "j \<noteq> ''today_pnl''" for v st j n
    using that by (simp add: whole_stat_def)
  note up' = up [OF assms(1,4)] up [OF assms(2,5)] up [OF assms(3,6)]
  show ?thesis
  proof (cases "field payload ''reason'' = JStr ''PROFIT''")
    case True
    then show ?thesis using assms up'
      by (intro exI [of _ "a + 1"] exI [of _ b] exI [of _ c]) (simp add: exit_stats_def Let_def pnl other)
  next
    case False
    show ?thesis
    proof (cases "Fin 0 \<le> to_number (zero_or (field payload ''pnl''))")
      case True
      then show ?thesis using assms up' False
        by (intro exI [of _ a] exI [of _ "b + 1"] exI [of _ c]) (simp add: exit_stats_def Let_def pnl other)
    next
      case False
      then show ?thesis using assms up' \<open>field payload ''reason'' \<noteq> JStr ''PROFIT''\<close>
        by (intro exI [of _ a] exI [of _ b] exI [of _ "c + 1"]) (simp add: exit_stats_def Let_def pnl other)
    qed
  qed
qed

lemma stopped_shows_none:
  assumes "toggle_zero_loss (Some d) s = s'" "\<not> is_nullish d" "\<not> truthy (field d ''enabled'')"
  shows "zl_positions s' = []"
  using assms by (auto simp: toggle_zero_loss_def Let_def)

text \<open>A refresh ends the loading, whatever fails, and keeps what no answer brought.\<close>

lemma fetch_ends_loading: "\<not> zl_loading (fetch_all now a b c d s)"
  by (cases a; cases b; cases c; cases d) (simp_all add: fetch_all_def with_answer_def apply_status_def Let_def)

lemma fetch_all_failed:
  "fetch_all now None None None None s = s\<lparr> zl_loading := False, zl_last_update := Some now \<rparr>"
  by (simp add: fetch_all_def with_answer_def body_missing_def Let_def)

end
