(* ===== verification/CommodityStore.thy ===== *)
theory CommodityStore
  imports MarketStore
begin

text \<open>
  The store of commodities, \<open>frontend/src/stores/useCommodityStore.js\<close>: the merge of an answer of the
  server with the quotes of the socket, the ticks, and the direction in which a price flashes.
  \<open>Date.now()\<close> is the argument \<open>now\<close> and \<open>Date.parse\<close> the argument \<open>date_parse\<close>.
\<close>

section \<open>Sources and times\<close>

definition normalize_source :: "jsval \<Rightarrow> string option" where
  "normalize_source v =
     (let src = lower_text v in
      if src = ''live_ws'' \<or> starts_with src ''live_ws'' then Some ''live_ws''
      else if starts_with src ''live_tickalpha'' then Some ''live_tickalpha''
      else if starts_with src ''live_zebu'' then Some ''live_tickalpha''
      else if starts_with src ''live'' then Some ''live''
      else if src = ''hot'' then Some ''hot''
      else if src = ''frozen'' then Some ''frozen''
      else if src = ''cache'' then Some ''frozen''
      else if src = ''rest'' then Some ''rest''
      else if src = [] then None else Some src)"

definition source_priorities :: "(string \<times> int) list" where
  "source_priorities = [(''live_ws'', 100), (''live_tickalpha'', 90), (''live'', 80), (''hot'', 50), (''rest'', 40), (''frozen'', 10)]"

definition commodity_priority :: "jsval \<Rightarrow> int" where
  "commodity_priority v =
     (case normalize_source v of
        None \<Rightarrow> 0
      | Some s \<Rightarrow> (case map_of source_priorities s of Some p \<Rightarrow> p | None \<Rightarrow> 0))"

definition parse_timestamp :: "(string \<Rightarrow> jsnum) \<Rightarrow> jsval \<Rightarrow> jsnum" where
  "parse_timestamp date_parse v =
     (if \<not> truthy v then Fin 0
      else case v of
        JNum n \<Rightarrow> n
      | _ \<Rightarrow> (let ms = date_parse (to_string v) in if is_finite ms then ms else Fin 0))"

section \<open>The answer of the server\<close>

text \<open>\<open>Number(v ?? d) || d\<close>.\<close>

definition number_or :: "jsval \<Rightarrow> jsnum \<Rightarrow> jsnum" where
  "number_or v d = num_or (to_number (nullish v (JNum d))) d"

definition depth_fields :: "string list" where
  "depth_fields = [''bid_price'', ''ask_price'', ''bid_qty'', ''ask_qty'', ''oi'']"

text \<open>The depth of the socket quote is kept where the answer has none.\<close>

definition keep_depth :: "jsobj \<Rightarrow> jsobj \<Rightarrow> jsobj" where
  "keep_depth existing item =
     fold (\<lambda>k it. if (\<not> truthy (own it k) \<or> num_eq (to_number (own it k)) (Fin 0)) \<and> truthy (own existing k)
       then set_field k (own existing k) it else it) depth_fields item"

definition commodity_symbol :: "jsval \<Rightarrow> string" where
  "commodity_symbol item = symbol_text (field item ''symbol'')"

definition quote_stamp :: "(string \<Rightarrow> jsnum) \<Rightarrow> jsobj \<Rightarrow> jsnum" where
  "quote_stamp date_parse q = parse_timestamp date_parse (js_or (own q ''timestamp'') (own q ''_receivedAt''))"

definition newer_exists :: "(string \<Rightarrow> jsnum) \<Rightarrow> jsval \<Rightarrow> jsobj \<Rightarrow> jsobj \<Rightarrow> bool" where
  "newer_exists date_parse source existing item =
     (let ets = quote_stamp date_parse existing; its = parse_timestamp date_parse (own item ''timestamp'') in
      Fin 0 < ets \<and> Fin 0 < its \<and> its < ets \<and>
      commodity_priority (js_or (own item ''source'') source) \<le> commodity_priority (own existing ''source''))"

definition built_quote :: "jsnum \<Rightarrow> jsval \<Rightarrow> string \<Rightarrow> jsnum \<Rightarrow> jsnum \<Rightarrow> jsnum \<Rightarrow> jsobj \<Rightarrow> jsobj" where
  "built_quote now source sy price change percent item =
     spread item [(''symbol'', JStr sy), (''price'', JNum price), (''change'', JNum change), (''change_percent'', JNum percent),
       (''high'', JNum (number_or (own item ''high'') price)), (''low'', JNum (number_or (own item ''low'') price)),
       (''volume'', JNum (number_or (own item ''volume'') (Fin 0))), (''oi'', JNum (number_or (own item ''oi'') (Fin 0))),
       (''bid_price'', JNum (number_or (own item ''bid_price'') (Fin 0))),
       (''ask_price'', JNum (number_or (own item ''ask_price'') (Fin 0))),
       (''bid_qty'', JNum (number_or (own item ''bid_qty'') (Fin 0))),
       (''ask_qty'', JNum (number_or (own item ''ask_qty'') (Fin 0))),
       (''source'', js_or (own item ''source'') source), (''kind'', JStr ''commodity''), (''_receivedAt'', JNum now)]"

definition built_meta :: "jsobj \<Rightarrow> jsobj" where
  "built_meta item = [(''name'', own item ''name''), (''exchange'', own item ''exchange''), (''category'', own item ''category''),
     (''unit'', own item ''unit''), (''lot'', js_or (own item ''lot'') (JNum (Fin 1)))]"

record commodity_build =
  cb_quotes :: quote_map
  cb_meta :: quote_map
  cb_history :: "(string \<times> jsnum list) list"

definition build_item :: "(string \<Rightarrow> jsnum) \<Rightarrow> jsnum \<Rightarrow> jsval \<Rightarrow> quote_map \<Rightarrow> jsval \<Rightarrow> commodity_build \<Rightarrow> commodity_build" where
  "build_item date_parse now source existing v b =
     (let sy = commodity_symbol v; item = fields_of v; price = number_or (own item ''price'') (Fin 0);
          change = number_or (own item ''change'') (Fin 0); percent = number_or (own item ''change_percent'') (Fin 0);
          add = (\<lambda>it. \<lparr> cb_quotes = AList.update sy (built_quote now source sy price change percent it) (cb_quotes b),
            cb_meta = AList.update sy (built_meta it) (cb_meta b),
            cb_history = (if map_of (cb_history b) sy = None
              then AList.update sy (if Fin 0 < price then [price] else []) (cb_history b) else cb_history b) \<rparr>)
      in if sy = [] then b
         else case map_of existing sy of
                None \<Rightarrow> add item
              | Some ex \<Rightarrow>
                  if newer_exists date_parse source ex item then b\<lparr> cb_quotes := AList.update sy ex (cb_quotes b) \<rparr>
                  else if commodity_priority (js_or (own item ''source'') source) < commodity_priority (own ex ''source'')
                    then add (keep_depth ex item)
                  else add item)"

definition build_commodity_state ::
  "(string \<Rightarrow> jsnum) \<Rightarrow> jsnum \<Rightarrow> jsval list \<Rightarrow> jsval \<Rightarrow> quote_map \<Rightarrow> commodity_build" where
  "build_commodity_state date_parse now items source existing =
     fold (build_item date_parse now source existing) items \<lparr> cb_quotes = [], cb_meta = [], cb_history = [] \<rparr>"

section \<open>State\<close>

record commodity_store =
  cs_quotes :: quote_map
  cs_history :: "(string \<times> jsnum list) list"
  cs_prev :: jsobj
  cs_meta :: quote_map
  cs_loading :: bool
  cs_last_fetch :: "jsnum option"
  cs_source :: jsval
  cs_error :: jsval
  cs_reconnected :: jsnum

definition initial_commodity_store :: commodity_store where
  "initial_commodity_store = \<lparr> cs_quotes = [], cs_history = [], cs_prev = [], cs_meta = [], cs_loading = False,
     cs_last_fetch = None, cs_source = JNull, cs_error = JNull, cs_reconnected = Fin 0 \<rparr>"

definition mark_ws_reconnect :: "jsnum \<Rightarrow> commodity_store \<Rightarrow> commodity_store" where
  "mark_ws_reconnect now s = s\<lparr> cs_reconnected := now \<rparr>"

definition begin_fetch :: "commodity_store \<Rightarrow> commodity_store" where
  "begin_fetch s = s\<lparr> cs_loading := True, cs_error := JNull \<rparr>"

text \<open>The answer: a body, or a failure with its code and the detail the server gives.\<close>

datatype commodity_answer = Body jsval | Failed jsval jsval

definition answer_items :: "commodity_answer \<Rightarrow> jsval list" where
  "answer_items a = (case a of Body d \<Rightarrow> elements (js_or (field d ''commodities'') (JArr [])) | Failed _ _ \<Rightarrow> [])"

definition answer_source :: "commodity_answer \<Rightarrow> jsval" where
  "answer_source a =
     (case a of
        Body d \<Rightarrow>
          let first = (case answer_items a of i # _ \<Rightarrow> field i ''source'' | [] \<Rightarrow> Undefined)
          in (case normalize_source (js_or (field d ''source'') first) of Some s \<Rightarrow> JStr s | None \<Rightarrow> JStr ''rest'')
      | Failed _ _ \<Rightarrow> JNull)"

definition failure_text :: "jsval \<Rightarrow> jsval \<Rightarrow> jsval" where
  "failure_text code detail =
     (if code = JStr ''ECONNABORTED'' then JStr ''Commodities request timed out. Please retry.''
      else js_or detail (JStr ''Failed to fetch commodities.''))"

definition oldest_stamp :: "(string \<Rightarrow> jsnum) \<Rightarrow> jsval list \<Rightarrow> jsnum" where
  "oldest_stamp date_parse items =
     foldl math_min PInf
       (filter (\<lambda>n. \<not> num_eq n (Fin 0)) (map (\<lambda>i. num_or (date_parse (to_string (field i ''timestamp''))) (Fin 0)) items))"

definition before_reconnect :: "(string \<Rightarrow> jsnum) \<Rightarrow> jsval list \<Rightarrow> commodity_store \<Rightarrow> bool" where
  "before_reconnect date_parse items s =
     (Fin 0 < cs_reconnected s \<and> items \<noteq> [] \<and> Fin 0 < oldest_stamp date_parse items \<and>
      oldest_stamp date_parse items < cs_reconnected s)"

text \<open>\<open>{ ...a, ...b }\<close> on maps.\<close>

definition merge_map :: "(string \<times> 'a) list \<Rightarrow> (string \<times> 'a) list \<Rightarrow> (string \<times> 'a) list" where
  "merge_map a b = foldl (\<lambda>m (k, v). AList.update k v m) a b"

definition finish_fetch :: "(string \<Rightarrow> jsnum) \<Rightarrow> jsnum \<Rightarrow> commodity_answer \<Rightarrow> commodity_store \<Rightarrow> commodity_store" where
  "finish_fetch date_parse now a s =
     (let s' = (case a of Failed code detail \<Rightarrow> s\<lparr> cs_error := failure_text code detail \<rparr> | Body _ \<Rightarrow> s); items = answer_items a in
      if before_reconnect date_parse items s' then s'\<lparr> cs_loading := False \<rparr>
      else
        let b = build_commodity_state date_parse now items (answer_source a) (cs_quotes s') in
        s'\<lparr> cs_quotes := merge_map (cs_quotes s') (cb_quotes b), cs_meta := merge_map (cs_meta s') (cb_meta b),
            cs_history := merge_map (cs_history s') (cb_history b), cs_loading := False, cs_last_fetch := Some now,
            cs_source := answer_source a \<rparr>)"

section \<open>Ticks\<close>

definition max_tick_history :: nat where
  "max_tick_history = 30"

definition push_price :: "jsnum \<Rightarrow> jsnum list \<Rightarrow> jsnum list" where
  "push_price price arr = (let arr' = arr @ [price] in if max_tick_history < length arr' then tl arr' else arr')"

definition effective_source :: "jsobj \<Rightarrow> string" where
  "effective_source q =
     (let status = lower_text (own q ''market_status'') in
      if status \<noteq> [] \<and> status \<noteq> ''open'' then ''frozen''
      else case normalize_source (own q ''source'') of Some s \<Rightarrow> s | None \<Rightarrow> ''live_ws'')"

definition tick_value :: "jsobj \<Rightarrow> jsnum" where
  "tick_value q = to_number (nullish (first_field (JObj q) [''price'', ''lp'', ''ltp'']) (JNum (Fin 0)))"

definition apply_tick :: "jsnum \<Rightarrow> string \<Rightarrow> jsobj \<Rightarrow> commodity_store \<Rightarrow> commodity_store" where
  "apply_tick now sy q s =
     (let price = tick_value q in
      if sy = [] \<or> \<not> Fin 0 < price then s
      else
        let prev = quote_at (cs_quotes s) sy; src = JStr (effective_source q);
            merged = spread (spread (spread prev q) (quote_at (cs_meta s) sy))
              [(''symbol'', JStr sy), (''price'', JNum price), (''kind'', JStr ''commodity''), (''source'', src),
               (''_receivedAt'', JNum now)];
            before = own prev ''price'';
            arr = (case map_of (cs_history s) sy of Some h \<Rightarrow> h | None \<Rightarrow> [])
        in s\<lparr> cs_quotes := AList.update sy merged (cs_quotes s),
              cs_history := AList.update sy (push_price price arr) (cs_history s),
              cs_prev := (if truthy before \<and> strict_neq before (JNum price) then set_field sy before (cs_prev s) else cs_prev s),
              cs_source := src, cs_last_fetch := Some now \<rparr>)"

definition get_flash :: "string \<Rightarrow> commodity_store \<Rightarrow> string option" where
  "get_flash sy s =
     (let prev = own (cs_prev s) sy; curr = own (quote_at (cs_quotes s) sy) ''price'' in
      if is_nullish prev \<or> is_nullish curr then None
      else if to_number prev < to_number curr then Some ''up''
      else if to_number curr < to_number prev then Some ''down'' else None)"

section \<open>Lemmas\<close>

lemma map_of_merge: "map_of (merge_map a b) = map_of a ++ map_of (rev b)"
proof (induction b rule: rev_induct)
  case (snoc p b)
  then show ?case by (cases p) (auto simp: merge_map_def update_conv' map_add_def fun_eq_iff split: option.split)
qed (simp add: merge_map_def)

lemma merge_absent: "k \<notin> fst ` set b \<Longrightarrow> map_of (merge_map a b) k = map_of a k"
proof -
  assume "k \<notin> fst ` set b"
  then have "map_of (rev b) k = None" by (simp add: map_of_eq_None_iff)
  then show ?thesis by (simp add: map_of_merge map_add_def)
qed

lemma map_of_rev_any:
  assumes "\<And>v. (k, v) \<in> set b \<Longrightarrow> v = w" "k \<in> fst ` set b"
  shows "map_of (rev b) k = Some w"
proof -
  have "map_of (rev b) k \<noteq> None" using assms(2) by (auto simp: map_of_eq_None_iff)
  then obtain v where "map_of (rev b) k = Some v" by auto
  then show ?thesis using assms(1) map_of_SomeD by fastforce
qed

text \<open>
  A quote of the socket that is newer and no worse than what the server says stays, whatever the
  answer holds.
\<close>

definition stale_for :: "(string \<Rightarrow> jsnum) \<Rightarrow> jsval \<Rightarrow> string \<Rightarrow> jsobj \<Rightarrow> jsval list \<Rightarrow> bool" where
  "stale_for date_parse source sy ex items =
     list_all (\<lambda>v. commodity_symbol v = sy \<longrightarrow> newer_exists date_parse source ex (fields_of v)) items"

lemma set_update_sub: "set (AList.update k v xs) \<subseteq> insert (k, v) (set xs)"
  by (induction xs) auto

lemma update_values: "(j, w) \<in> set (AList.update k v xs) \<Longrightarrow> (j = k \<and> w = v) \<or> (j, w) \<in> set xs"
  using set_update_sub by fastforce

lemma build_keeps_fresh:
  assumes "stale_for date_parse source sy ex items" "map_of existing sy = Some ex"
    and "\<And>q. (sy, q) \<in> set (cb_quotes b) \<Longrightarrow> q = ex"
  shows "(sy, q) \<in> set (cb_quotes (fold (build_item date_parse now source existing) items b)) \<Longrightarrow> q = ex"
  using assms
proof (induction items arbitrary: b)
  case (Cons v items)
  have "q = ex" if "(sy, q) \<in> set (cb_quotes (build_item date_parse now source existing v b))" for q
  proof (cases "commodity_symbol v = sy")
    case True
    then have "newer_exists date_parse source ex (fields_of v)" using Cons.prems(2) by (simp add: stale_for_def)
    then show ?thesis using that True Cons.prems(3,4)
      by (auto simp: build_item_def Let_def dest: update_values split: if_splits)
  next
    case False
    then show ?thesis using that Cons.prems(4)
      by (auto simp: build_item_def Let_def dest: update_values split: if_splits option.splits)
  qed
  then show ?case using Cons.IH [of "build_item date_parse now source existing v b"] Cons.prems by (simp add: stale_for_def)
qed simp

lemma fresh_quote_kept:
  assumes "map_of (cs_quotes s) sy = Some ex" "stale_for date_parse (answer_source a) sy ex (answer_items a)"
  shows "map_of (cs_quotes (finish_fetch date_parse now a s)) sy = Some ex"
proof -
  define s' where "s' = (case a of Failed code detail \<Rightarrow> s\<lparr> cs_error := failure_text code detail \<rparr> | Body _ \<Rightarrow> s)"
  have q: "cs_quotes s' = cs_quotes s" by (simp add: s'_def split: commodity_answer.split)
  define b where "b = build_commodity_state date_parse now (answer_items a) (answer_source a) (cs_quotes s')"
  have all: "w = ex" if "(sy, w) \<in> set (cb_quotes b)" for w
    by (rule build_keeps_fresh [OF assms(2)]) (use that assms(1) in \<open>auto simp: b_def build_commodity_state_def q\<close>)
  have "map_of (merge_map (cs_quotes s') (cb_quotes b)) sy = Some ex"
  proof (cases "sy \<in> fst ` set (cb_quotes b)")
    case True
    from map_of_rev_any [OF all this] show ?thesis by (simp add: map_of_merge)
  next
    case False
    from merge_absent [OF this] show ?thesis by (simp add: q assms(1))
  qed
  then show ?thesis
    using assms(1) unfolding finish_fetch_def Let_def s'_def [symmetric] b_def [symmetric] by (simp add: q)
qed

text \<open>A tick is what is shown; the history ends with it and is never longer than thirty.\<close>

lemma push_price_spec: "length arr \<le> max_tick_history \<Longrightarrow>
    length (push_price price arr) \<le> max_tick_history \<and> last (push_price price arr) = price"
  by (auto simp: push_price_def max_tick_history_def Let_def) (cases arr; simp)+

definition histories_ok :: "commodity_store \<Rightarrow> bool" where
  "histories_ok s \<longleftrightarrow> (\<forall>sy h. map_of (cs_history s) sy = Some h \<longrightarrow> length h \<le> max_tick_history)"

lemma tick_history: "histories_ok s \<Longrightarrow> histories_ok (apply_tick now sy q s)"
proof -
  assume ok: "histories_ok s"
  define arr where "arr = (case map_of (cs_history s) sy of Some h \<Rightarrow> h | None \<Rightarrow> [])"
  have "length arr \<le> max_tick_history" using ok by (auto simp: arr_def histories_ok_def split: option.split)
  from push_price_spec [OF this, of "tick_value q"] show ?thesis
    using ok by (simp add: apply_tick_def Let_def histories_ok_def update_conv' arr_def [symmetric])
qed

lemma tick_shown:
  assumes "sy \<noteq> []" "Fin 0 < tick_value q"
  shows "own (quote_at (cs_quotes (apply_tick now sy q s)) sy) ''price'' = JNum (tick_value q)"
  using assms by (simp add: apply_tick_def Let_def quote_at_def update_conv' own_spread own_Cons)

text \<open>The flash goes the way the price went.\<close>

lemma flash_follows:
  assumes "sy \<noteq> []" "Fin 0 < tick_value q" "own (quote_at (cs_quotes s) sy) ''price'' = JNum p" "Fin 0 < p"
  shows "p < tick_value q \<Longrightarrow> get_flash sy (apply_tick now sy q s) = Some ''up''"
    and "tick_value q < p \<Longrightarrow> get_flash sy (apply_tick now sy q s) = Some ''down''"
proof -
  have prev: "own (cs_prev (apply_tick now sy q s)) sy = JNum p" if "\<not> num_eq p (tick_value q)"
    using assms that by (cases p) (auto simp: apply_tick_def Let_def num_eq_def)
  have flash: "get_flash sy (apply_tick now sy q s) =
      (if p < tick_value q then Some ''up'' else if tick_value q < p then Some ''down'' else None)"
    if "\<not> num_eq p (tick_value q)"
    unfolding get_flash_def Let_def prev [OF that] tick_shown [OF assms(1,2)] by (simp add: is_nullish_def)
  show "p < tick_value q \<Longrightarrow> get_flash sy (apply_tick now sy q s) = Some ''up''"
    using flash less_jsnum_irrefl [of p] by (cases "num_eq p (tick_value q)") (auto simp: num_eq_def)
  show "get_flash sy (apply_tick now sy q s) = Some ''down''" if less: "tick_value q < p"
  proof -
    have "\<not> p < tick_value q" "\<not> num_eq p (tick_value q)"
      using less less_jsnum_trans [OF less, of "tick_value q"] by (auto simp: num_eq_def)
    then show ?thesis using flash less by simp
  qed
qed

text \<open>
  An answer starts the history of each of its commodities again: the prices of the ticks so far are
  lost from the sparkline.
\<close>

lemma fetch_resets_history:
  assumes "commodity_symbol v = sy" "sy \<noteq> []" "map_of (cs_quotes s) sy = None" "Fin 0 < number_or (field v ''price'') (Fin 0)"
    and "cs_reconnected s = Fin 0" "v = JObj item" "d = JObj [(''commodities'', JArr [v])]"
  shows "map_of (cs_history (finish_fetch date_parse now (Body d) s)) sy = Some [number_or (field v ''price'') (Fin 0)]"
  using assms
  by (simp add: finish_fetch_def answer_items_def before_reconnect_def build_commodity_state_def build_item_def Let_def
      own_Cons map_of_merge)

text \<open>
  After a reconnection one commodity that has not traded since then is enough for the whole answer to be
  dropped, the fresh quotes of the others included.
\<close>

lemma math_min_fold_le: "NaN \<notin> set xs \<Longrightarrow> m \<noteq> NaN \<Longrightarrow> foldl math_min m xs \<le> m"
proof (induction xs arbitrary: m)
  case (Cons x xs)
  then have nn: "math_min m x \<noteq> NaN" "x \<noteq> NaN" "NaN \<notin> set xs" by auto
  have "foldl math_min (math_min m x) xs \<le> math_min m x" by (rule Cons.IH [OF nn(3,1)])
  also have "math_min m x \<le> m" using math_min_le [OF Cons.prems(2) nn(2)] by simp
  finally show ?case by simp
qed simp

lemma math_min_fold: "a \<in> set xs \<Longrightarrow> NaN \<notin> set xs \<Longrightarrow> m \<noteq> NaN \<Longrightarrow> foldl math_min m xs \<le> a"
proof (induction xs arbitrary: m)
  case (Cons x xs)
  then have nn: "math_min m x \<noteq> NaN" "x \<noteq> NaN" "NaN \<notin> set xs" by auto
  show ?case
  proof (cases "a = x")
    case True
    have "foldl math_min (math_min m x) xs \<le> math_min m x" by (rule math_min_fold_le [OF nn(3,1)])
    also have "math_min m x \<le> a" using math_min_le [OF Cons.prems(3) nn(2)] True by simp
    finally show ?thesis by simp
  next
    case False
    then have "a \<in> set xs" using Cons.prems(1) by simp
    from Cons.IH [OF this nn(3,1)] show ?thesis by simp
  qed
qed simp

lemma one_old_item_drops_all:
  assumes "i \<in> set (answer_items (Body d))" "date_parse (to_string (field i ''timestamp'')) = Fin t" "0 < t"
    and "Fin t < cs_reconnected s" "list_all (\<lambda>v. Fin 0 \<le> date_parse (to_string (field v ''timestamp''))) (answer_items (Body d))"
  shows "finish_fetch date_parse now (Body d) s = s\<lparr> cs_loading := False \<rparr>"
proof -
  define xs where "xs = filter (\<lambda>n. \<not> num_eq n (Fin 0))
    (map (\<lambda>i. num_or (date_parse (to_string (field i ''timestamp''))) (Fin 0)) (answer_items (Body d)))"
  have pos: "Fin 0 < x" if x: "x \<in> set xs" for x
  proof -
    obtain v where v: "v \<in> set (answer_items (Body d))" "x = num_or (date_parse (to_string (field v ''timestamp''))) (Fin 0)"
        "\<not> num_eq x (Fin 0)" using x by (auto simp: xs_def)
    have "Fin 0 \<le> date_parse (to_string (field v ''timestamp''))" using assms(5) v(1) by (simp add: list_all_iff)
    with v(2,3) show ?thesis
      by (cases "date_parse (to_string (field v ''timestamp''))") (auto simp: num_or_def num_eq_def split: if_splits)
  qed
  have nn: "NaN \<notin> set xs" using pos by force
  have mem: "Fin t \<in> set xs" using assms(1-3) by (force simp: xs_def num_or_def num_eq_def)
  have "foldl math_min PInf xs \<le> Fin t" using mem nn by (intro math_min_fold) auto
  moreover have "Fin 0 < foldl math_min PInf xs"
    by (rule foldl_invariant_list) (use pos nn in \<open>auto simp: math_min_def\<close>)
  ultimately show ?thesis
    using assms(1,3,4) le_less_jsnum_trans [of "foldl math_min PInf xs" "Fin t" "cs_reconnected s"]
      less_jsnum_trans [of "Fin 0" "Fin t" "cs_reconnected s"]
    by (auto simp: finish_fetch_def before_reconnect_def oldest_stamp_def xs_def [symmetric] Let_def)
qed

end
