(* ===== verification/AuthStore.thy ===== *)
theory AuthStore
  imports Connection
begin

text \<open>
  Who is signed in: \<open>frontend/src/stores/useAuthStore.js\<close> with the cookie of
  \<open>utils/authSessionCookie.js\<close>. The keys of the browser's storage are fields of the state, and the
  profile is stored as the value it reads back to. An operation that waits for the server is split at its
  request. Storage that throws is not modelled; the pages always have a document.
\<close>

section \<open>State\<close>

record auth_state =
  au_token :: "string option"
  au_stored :: "jsval option"
  au_group :: "string option"
  au_inst :: "string option"
  au_onboarded :: bool
  au_admin :: bool
  au_cookie :: bool
  au_user :: jsval
  au_loading :: bool
  au_initializing :: bool

definition set_user_session_cookie :: "auth_state \<Rightarrow> auth_state" where
  "set_user_session_cookie s = s\<lparr> au_cookie := True \<rparr>"

definition clear_user_session_cookie :: "auth_state \<Rightarrow> auth_state" where
  "clear_user_session_cookie s = s\<lparr> au_cookie := False \<rparr>"

text \<open>The cookies of the page as texts; the session cookie is there where one begins with its name.\<close>

definition has_user_session_cookie :: "string list \<Rightarrow> bool" where
  "has_user_session_cookie entries = list_ex (\<lambda>e. starts_with (trim e) ''alphasync_user_session='') entries"

text \<open>The store as it is created: the profile of the storage is shown until it is checked.\<close>

definition open_page :: "auth_state \<Rightarrow> auth_state" where
  "open_page s = s\<lparr> au_user := (case au_stored s of Some u \<Rightarrow> u | None \<Rightarrow> JNull), au_loading := True, au_initializing := True \<rparr>"

section \<open>Tokens of an invitation\<close>

text \<open>The token of the address, which is kept, or the kept one; \<open>from_url\<close> is the parameter of the address.\<close>

definition trimmed :: "string option \<Rightarrow> string" where
  "trimmed t = (case t of Some x \<Rightarrow> trim x | None \<Rightarrow> [])"

definition group_token_for_sync :: "string option \<Rightarrow> auth_state \<Rightarrow> string \<times> auth_state" where
  "group_token_for_sync from_url s =
     (if trimmed from_url \<noteq> [] then (trimmed from_url, s\<lparr> au_group := Some (trimmed from_url) \<rparr>)
      else (trimmed (au_group s), s))"

definition institution_token_for_sync :: "string option \<Rightarrow> auth_state \<Rightarrow> string \<times> auth_state" where
  "institution_token_for_sync from_url s =
     (if trimmed from_url \<noteq> [] then (trimmed from_url, s\<lparr> au_inst := Some (trimmed from_url) \<rparr>)
      else (trimmed (au_inst s), s))"

definition persist_session :: "string \<Rightarrow> jsval \<Rightarrow> auth_state \<Rightarrow> auth_state" where
  "persist_session token user s =
     set_user_session_cookie (s\<lparr> au_token := Some token, au_stored := Some user, au_group := None, au_inst := None \<rparr>)"

definition clear_session :: "auth_state \<Rightarrow> auth_state" where
  "clear_session s =
     clear_user_session_cookie (s\<lparr> au_token := None, au_stored := None, au_onboarded := False, au_admin := False \<rparr>)"

section \<open>Operations\<close>

definition auth_settled :: "jsval \<Rightarrow> auth_state \<Rightarrow> auth_state" where
  "auth_settled user s = s\<lparr> au_user := user, au_loading := False, au_initializing := False \<rparr>"

text \<open>\<open>initAuth\<close> up to its request, which is made where the flag is set, and after it.\<close>

definition begin_init :: "auth_state \<Rightarrow> auth_state \<times> bool" where
  "begin_init s =
     (case au_token s of
        Some t \<Rightarrow> if t = [] then (auth_settled JNull s, False) else (s\<lparr> au_loading := True \<rparr>, True)
      | None \<Rightarrow> (auth_settled JNull s, False))"

definition finish_init :: "jsval option \<Rightarrow> auth_state \<Rightarrow> auth_state" where
  "finish_init answer s =
     (case answer of
        Some profile \<Rightarrow> auth_settled profile (set_user_session_cookie (s\<lparr> au_stored := Some profile \<rparr>))
      | None \<Rightarrow> auth_settled JNull (clear_session s))"

definition optional_field :: "string \<Rightarrow> string \<Rightarrow> jsobj" where
  "optional_field k t = (if t = [] then [] else [(k, JStr t)])"

definition login_request :: "string option \<Rightarrow> string \<Rightarrow> string \<Rightarrow> auth_state \<Rightarrow> jsobj \<times> auth_state" where
  "login_request inst_url name password s =
     (let (inst, s') = institution_token_for_sync inst_url s in
      ([(''username'', JStr name), (''password'', JStr password)] @ optional_field ''institution_token'' inst, s'))"

definition register_request ::
  "string option \<Rightarrow> string option \<Rightarrow> string \<Rightarrow> string \<Rightarrow> string \<Rightarrow> string \<Rightarrow> auth_state \<Rightarrow> jsobj \<times> auth_state" where
  "register_request grp_url inst_url name email password full_name s =
     (let (grp, s1) = group_token_for_sync grp_url s; (inst, s2) = institution_token_for_sync inst_url s1 in
      ([(''username'', JStr name), (''email'', JStr email), (''password'', JStr password), (''full_name'', JStr full_name)] @
        optional_field ''group_token'' grp @ optional_field ''institution_token'' inst, s2))"

text \<open>The answer to \<open>login\<close> and to \<open>register\<close>; a refusal is thrown and changes nothing.\<close>

definition signed_in :: "(string \<times> jsval) option \<Rightarrow> auth_state \<Rightarrow> auth_state" where
  "signed_in answer s = (case answer of Some (token, user) \<Rightarrow> auth_settled user (persist_session token user s) | None \<Rightarrow> s)"

text \<open>\<open>logout\<close> after its request, which may fail.\<close>

definition logout :: "auth_state \<Rightarrow> auth_state" where
  "logout s = (clear_session s)\<lparr> au_user := JNull \<rparr>"

definition update_user :: "jsobj \<Rightarrow> auth_state \<Rightarrow> auth_state" where
  "update_user patch s =
     (if \<not> truthy (au_user s) then s
      else let u = JObj (spread (fields_of (au_user s)) patch) in s\<lparr> au_stored := Some u, au_user := u \<rparr>)"

definition submit_phone :: "jsval option \<Rightarrow> auth_state \<Rightarrow> auth_state" where
  "submit_phone answer s =
     (case answer of Some d \<Rightarrow> update_user [(''phone'', field d ''phone'')] s | None \<Rightarrow> s)"

definition switch_tenant :: "jsval option \<Rightarrow> auth_state \<Rightarrow> auth_state" where
  "switch_tenant answer s =
     (case answer of
        Some d \<Rightarrow>
          let u = field d ''user'' in if truthy u then s\<lparr> au_stored := Some u, au_user := u \<rparr> else s
      | None \<Rightarrow> s)"

text \<open>The forced logout of the request layer on the same storage; the store itself is not told.\<close>

definition expire_session :: "auth_state \<Rightarrow> auth_state" where
  "expire_session s = clear_user_session_cookie (s\<lparr> au_token := None, au_stored := None \<rparr>)"

datatype auth_event =
  OpenPage | InitBegins | InitAnswered "jsval option" | SignedIn "(string \<times> jsval) option" | LoggedOut
  | UserUpdated jsobj | PhoneAnswered "jsval option" | TenantAnswered "jsval option"

fun auth_step :: "auth_event \<Rightarrow> auth_state \<Rightarrow> auth_state" where
  "auth_step OpenPage s = open_page s"
| "auth_step InitBegins s = fst (begin_init s)"
| "auth_step (InitAnswered a) s = finish_init a s"
| "auth_step (SignedIn a) s = signed_in a s"
| "auth_step LoggedOut s = logout s"
| "auth_step (UserUpdated p) s = update_user p s"
| "auth_step (PhoneAnswered a) s = submit_phone a s"
| "auth_step (TenantAnswered a) s = switch_tenant a s"

section \<open>Lemmas\<close>

text \<open>The profile that is shown is the one that is stored, in every order of events.\<close>

definition shown_is_stored :: "auth_state \<Rightarrow> bool" where
  "shown_is_stored s \<longleftrightarrow> au_user s = JNull \<or> au_stored s = Some (au_user s)"

lemma auth_step_shown: "shown_is_stored s \<Longrightarrow> shown_is_stored (auth_step e s)"
  by (cases e)
    (auto simp: shown_is_stored_def open_page_def begin_init_def auth_settled_def finish_init_def signed_in_def persist_session_def
      set_user_session_cookie_def clear_session_def clear_user_session_cookie_def logout_def update_user_def submit_phone_def
      switch_tenant_def Let_def split: option.splits prod.splits)

lemma auth_run_shown: "shown_is_stored s \<Longrightarrow> shown_is_stored (fold auth_step es s)"
  by (rule fold_invariant_list [where P = shown_is_stored]) (auto intro: auth_step_shown)

text \<open>A page that is opened again shows the profile that was shown, where one was.\<close>

lemma reopened_shows:
  assumes "shown_is_stored s" "au_user s \<noteq> JNull"
  shows "au_user (open_page s) = au_user s"
  using assms by (simp add: shown_is_stored_def open_page_def)

text \<open>After a logout nothing of the session is left.\<close>

lemma logout_clears:
  "au_token (logout s) = None \<and> au_stored (logout s) = None \<and> au_user (logout s) = JNull \<and> \<not> au_cookie (logout s) \<and>
   \<not> au_admin (logout s) \<and> \<not> au_onboarded (logout s)"
  by (simp add: logout_def clear_session_def clear_user_session_cookie_def)

text \<open>A sign-in uses up the tokens of the invitation: the next one sends none, unless the address has it.\<close>

lemma sign_in_uses_tokens:
  assumes "s' = signed_in (Some (token, user)) s"
  shows "fst (login_request None name password s') = [(''username'', JStr name), (''password'', JStr password)]"
  by (simp add: assms login_request_def institution_token_for_sync_def signed_in_def auth_settled_def persist_session_def
      set_user_session_cookie_def trimmed_def optional_field_def)

text \<open>An invitation is kept until then: a later request without it in the address still sends it.\<close>

lemma token_kept:
  assumes "trim t \<noteq> []" "(b, s') = login_request (Some t) n p s"
  shows "fst (login_request None n' p' s') =
    [(''username'', JStr n'), (''password'', JStr p'), (''institution_token'', JStr (trim t))]"
  using assms by (simp add: login_request_def institution_token_for_sync_def trimmed_def optional_field_def)

text \<open>Seen from the request layer the forced logout is the one of \<open>Connection\<close>; it leaves more behind than a logout.\<close>

definition api_view :: "jsnum \<Rightarrow> auth_state \<Rightarrow> api_state" where
  "api_view limit s = \<lparr> ap_limited_until = limit, ap_token = au_token s, ap_user = map_option to_string (au_stored s),
     ap_cookie = au_cookie s \<rparr>"

lemma expire_is_forced: "api_view limit (expire_session s) = fst (force_logout path (api_view limit s))"
  by (simp add: api_view_def expire_session_def force_logout_def clear_user_session_cookie_def)

lemma expire_keeps_admin: "au_admin (expire_session s) = au_admin s \<and> au_onboarded (expire_session s) = au_onboarded s"
  by (simp add: expire_session_def clear_user_session_cookie_def)

text \<open>
  The answer to the check of a session that arrives after a logout brings the user back, without a token.
\<close>

lemma late_profile_returns:
  assumes "au_token s = Some t" "t \<noteq> []" "truthy u"
  shows "let s' = fold auth_step [InitBegins, LoggedOut, InitAnswered (Some u)] s in
    au_user s' = u \<and> au_stored s' = Some u \<and> au_cookie s' \<and> au_token s' = None"
  using assms
  by (simp add: begin_init_def logout_def clear_session_def clear_user_session_cookie_def finish_init_def auth_settled_def
      set_user_session_cookie_def)

end
