(* ===== verification/Hydration.thy ===== *)
theory Hydration
  imports JSValue
begin

text \<open>
  Snapshots that are shown at once and reconciled later, \<open>frontend/src/core/hydration\<close>: the patch of
  rows by their key, the store of snapshots, their age, and the timers of the reconciliation. A nested
  object that came with an answer is a reference of its own, so \<open>===\<close> finds it different from every
  other: \<open>shallow_equal\<close> is told which keys hold such values.
\<close>

section \<open>Patching\<close>

definition same_value :: "bool \<Rightarrow> jsval \<Rightarrow> jsval \<Rightarrow> bool" where
  "same_value new_ref v w =
     (case v of
        JNum n \<Rightarrow> (case w of JNum m \<Rightarrow> num_eq n m | _ \<Rightarrow> False)
      | JArr _ \<Rightarrow> \<not> new_ref \<and> v = w
      | JObj _ \<Rightarrow> \<not> new_ref \<and> v = w
      | _ \<Rightarrow> v = w)"

definition shallow_equal :: "(string \<Rightarrow> bool) \<Rightarrow> jsobj \<Rightarrow> jsobj \<Rightarrow> bool" where
  "shallow_equal new_ref a b =
     (length a = length b \<and> list_all (\<lambda>(k, v). same_value (new_ref k) v (own b k)) a)"

text \<open>\<open>row?.id ?? row?.key ?? row?.symbol ?? row?.strike\<close>.\<close>

definition default_key :: "jsval \<Rightarrow> jsval" where
  "default_key row = first_field row [''id'', ''key'', ''symbol'', ''strike'']"

definition merge_rows :: "jsval \<Rightarrow> jsval \<Rightarrow> jsval" where
  "merge_rows prev nxt = JObj (spread (fields_of prev) (fields_of nxt))"

definition rows_equal :: "jsval \<Rightarrow> jsval \<Rightarrow> jsval \<Rightarrow> bool" where
  "rows_equal nxt prev merged =
     shallow_equal (\<lambda>k. k \<in> fst ` set (fields_of nxt)) (fields_of prev) (fields_of merged)"

text \<open>
  \<open>patchRows\<close> with its three functions; the equality also gets the next row, which it needs for the
  identity of nested values. The last row of a key is the one that counts.
\<close>

definition rows_by_key :: "(jsval \<Rightarrow> jsval) \<Rightarrow> jsval list \<Rightarrow> (string \<times> jsval) list" where
  "rows_by_key key rows =
     fold (\<lambda>row m. if is_nullish (key row) then m else AList.update (to_string (key row)) row m) rows []"

definition patch_row ::
  "(jsval \<Rightarrow> jsval) \<Rightarrow> (jsval \<Rightarrow> jsval \<Rightarrow> jsval) \<Rightarrow> (jsval \<Rightarrow> jsval \<Rightarrow> jsval \<Rightarrow> bool) \<Rightarrow> (string \<times> jsval) list \<Rightarrow> jsval \<Rightarrow> jsval \<times> bool" where
  "patch_row key merge equal prev_by_key row =
     (if is_nullish (key row) then (row, True)
      else case map_of prev_by_key (to_string (key row)) of
             None \<Rightarrow> (row, True)
           | Some prev \<Rightarrow>
               if \<not> truthy prev then (row, True)
               else let merged = merge prev row in if equal row prev merged then (prev, False) else (merged, True))"

definition patch_rows ::
  "(jsval \<Rightarrow> jsval) \<Rightarrow> (jsval \<Rightarrow> jsval \<Rightarrow> jsval) \<Rightarrow> (jsval \<Rightarrow> jsval \<Rightarrow> jsval \<Rightarrow> bool) \<Rightarrow> jsval list \<Rightarrow> jsval list \<Rightarrow> jsval list" where
  "patch_rows key merge equal prev nxt =
     (if nxt = [] then prev
      else
        let patched = map (patch_row key merge equal (rows_by_key key prev)) nxt
        in if \<not> list_ex snd patched \<and> length prev = length patched then prev else map fst patched)"

text \<open>\<open>patchObject\<close>; \<open>None\<close> is a missing object.\<close>

definition patch_object :: "jsobj option \<Rightarrow> jsobj option \<Rightarrow> jsobj" where
  "patch_object prev nxt =
     (case (prev, nxt) of
        (None, None) \<Rightarrow> []
      | (None, Some n) \<Rightarrow> n
      | (Some p, None) \<Rightarrow> p
      | (Some p, Some n) \<Rightarrow>
          let merged = spread p n in if shallow_equal (\<lambda>k. k \<in> fst ` set n) p merged then p else merged)"

section \<open>Snapshots\<close>

type_synonym snapshots = "(string \<times> jsobj) list"

definition set_snapshot :: "jsval \<Rightarrow> jsobj \<Rightarrow> snapshots \<Rightarrow> snapshots" where
  "set_snapshot key payload m = (if \<not> truthy key then m else AList.update (to_string key) payload m)"

definition get_snapshot :: "jsval \<Rightarrow> snapshots \<Rightarrow> jsobj option" where
  "get_snapshot key m = (if \<not> truthy key then None else map_of m (to_string key))"

definition clear_snapshot :: "jsval \<Rightarrow> snapshots \<Rightarrow> snapshots" where
  "clear_snapshot key m = (if \<not> truthy key then m else AList.delete (to_string key) m)"

definition clear_all_snapshots :: "snapshots \<Rightarrow> snapshots" where
  "clear_all_snapshots m = []"

fun to_epoch_ms :: "(string \<Rightarrow> jsnum) \<Rightarrow> jsval \<Rightarrow> jsnum option" where
  "to_epoch_ms date_parse (JNum n) =
     (if is_finite n then Some (if Fin 1000000000000 < n then math_floor n else math_floor (n * Fin 1000)) else None)"
| "to_epoch_ms date_parse (JStr s) = (if is_finite (date_parse s) then Some (date_parse s) else None)"
| "to_epoch_ms date_parse _ = None"

definition get_stale_ms :: "(string \<Rightarrow> jsnum) \<Rightarrow> jsnum \<Rightarrow> jsval \<Rightarrow> jsnum option" where
  "get_stale_ms date_parse now ts =
     (case to_epoch_ms date_parse ts of
        None \<Rightarrow> None
      | Some t \<Rightarrow> if num_eq t (Fin 0) then None else Some (math_max (Fin 0) (now - t)))"

definition is_snapshot_stale :: "(string \<Rightarrow> jsnum) \<Rightarrow> jsnum \<Rightarrow> jsval \<Rightarrow> jsnum \<Rightarrow> bool" where
  "is_snapshot_stale date_parse now ts limit =
     (if \<not> is_finite limit \<or> limit \<le> Fin 0 then False
      else case get_stale_ms date_parse now ts of None \<Rightarrow> False | Some st \<Rightarrow> limit < st)"

section \<open>Reconciliation timers\<close>

text \<open>
  The armed timers with their delay, and the keys with a fetch under way. A timer that has fired leaves
  its entry behind, which only a clear would read.
\<close>

record reconciles =
  rc_timers :: "(string \<times> jsnum) list"
  rc_inflight :: "string list"

definition no_reconciles :: reconciles where
  "no_reconciles = \<lparr> rc_timers = [], rc_inflight = [] \<rparr>"

definition cancel_reconcile :: "string \<Rightarrow> reconciles \<Rightarrow> reconciles" where
  "cancel_reconcile key r = r\<lparr> rc_timers := AList.delete key (rc_timers r) \<rparr>"

definition schedule_reconcile :: "string \<Rightarrow> jsnum \<Rightarrow> reconciles \<Rightarrow> reconciles" where
  "schedule_reconcile key delay r =
     (if key = [] then r
      else let r' = cancel_reconcile key r in
           r'\<lparr> rc_timers := AList.update key (math_max (Fin 0) (num_or delay (Fin 0))) (rc_timers r') \<rparr>)"

definition cancel_all_reconciles :: "reconciles \<Rightarrow> reconciles" where
  "cancel_all_reconciles r = r\<lparr> rc_timers := [] \<rparr>"

text \<open>The timer fires: a fetch starts, unless one is under way.\<close>

definition reconcile_fires :: "string \<Rightarrow> reconciles \<Rightarrow> reconciles" where
  "reconcile_fires key r =
     (if map_of (rc_timers r) key = None then r
      else let r' = cancel_reconcile key r in
           if key \<in> set (rc_inflight r') then r' else r'\<lparr> rc_inflight := key # rc_inflight r' \<rparr>)"

definition reconcile_done :: "string \<Rightarrow> reconciles \<Rightarrow> reconciles" where
  "reconcile_done key r = r\<lparr> rc_inflight := removeAll key (rc_inflight r) \<rparr>"

section \<open>Hydration\<close>

record snapshot_payload =
  sp_snapshot :: bool
  sp_stamp :: jsval
  sp_stale :: jsval
  sp_symbols :: "jsval list"
  sp_data :: jsval

fun is_object :: "jsval \<Rightarrow> bool" where
  "is_object (JObj fs) = True" | "is_object (JArr vs) = True" | "is_object _ = False"

definition normalize_snapshot_payload :: "jsval \<Rightarrow> snapshot_payload option" where
  "normalize_snapshot_payload payload =
     (if \<not> is_object payload then None
      else Some \<lparr> sp_snapshot = truthy (field payload ''snapshot''), sp_stamp = nullish (field payload ''snapshot_ts'') JNull,
        sp_stale = nullish (field payload ''stale_ms'') JNull, sp_symbols = elements (field payload ''stream_symbols''),
        sp_data = (if is_object (field payload ''data'') then field payload ''data'' else payload) \<rparr>)"

definition payload_object :: "snapshot_payload \<Rightarrow> jsobj" where
  "payload_object p = [(''snapshot'', JBool (sp_snapshot p)), (''snapshot_ts'', sp_stamp p), (''stale_ms'', sp_stale p),
     (''stream_symbols'', JArr (sp_symbols p)), (''data'', sp_data p)]"

text \<open>
  \<open>hydrateSnapshot\<close> with the answer of its fetch: the snapshots, the symbols that are subscribed and the
  timers after it, and its result. \<open>None\<close> as an answer is a fetch that throws; \<open>subscribes\<close> and
  \<open>reconciles\<close> say whether the functions were given.
\<close>

record hydration =
  hy_snapshots :: snapshots
  hy_subscribed :: "jsval list"
  hy_reconciles :: reconciles

definition hydrate_snapshot ::
  "(string \<Rightarrow> jsnum) \<Rightarrow> jsnum \<Rightarrow> string \<Rightarrow> bool \<Rightarrow> bool \<Rightarrow> bool \<Rightarrow> jsnum \<Rightarrow> jsnum \<Rightarrow> jsval option \<Rightarrow> hydration \<Rightarrow>
   hydration \<times> snapshot_payload option" where
  "hydrate_snapshot date_parse now key enabled subscribes reconciles limit delay answer h =
     (if \<not> enabled then (h, None)
      else case answer of
        None \<Rightarrow> (h, None)
      | Some raw \<Rightarrow>
          (case normalize_snapshot_payload raw of
             None \<Rightarrow> (h, None)
           | Some p \<Rightarrow>
               let h1 = h\<lparr> hy_snapshots := set_snapshot (JStr key) (payload_object p) (hy_snapshots h) \<rparr>;
                   h2 = (if subscribes \<and> sp_symbols p \<noteq> [] then h1\<lparr> hy_subscribed := hy_subscribed h1 @ sp_symbols p \<rparr> else h1);
                   forced = is_snapshot_stale date_parse now (sp_stamp p) limit;
                   h3 = (if reconciles
                     then h2\<lparr> hy_reconciles := schedule_reconcile key (if forced then Fin 0 else delay) (hy_reconciles h2) \<rparr> else h2)
               in (h3, Some (p\<lparr> sp_stale := nullish (sp_stale p) (num_val (get_stale_ms date_parse now (sp_stamp p))) \<rparr>))))"

definition cancel_hydration :: "string \<Rightarrow> hydration \<Rightarrow> hydration" where
  "cancel_hydration key h = (if key = [] then h else h\<lparr> hy_reconciles := cancel_reconcile key (hy_reconciles h) \<rparr>)"

section \<open>Flags\<close>

definition read_flag :: "jsval \<Rightarrow> bool \<Rightarrow> bool" where
  "read_flag raw fallback =
     (let t = lower (trim (to_string (nullish raw (JStr [])))) in
      if t = [] then fallback else t \<in> {''1'', ''true'', ''yes'', ''on''})"

section \<open>Lemmas\<close>

text \<open>A patch shows the rows that came, merged with what was known, row by row, unless nothing changed.\<close>

lemma patched_rows:
  assumes "nxt \<noteq> []" "list_ex snd (map (patch_row key merge equal (rows_by_key key prev)) nxt) \<or> length prev \<noteq> length nxt"
  shows "patch_rows key merge equal prev nxt = map (\<lambda>row. fst (patch_row key merge equal (rows_by_key key prev) row)) nxt"
  using assms by (auto simp: patch_rows_def Let_def)

lemma no_answer_keeps_rows: "patch_rows key merge equal prev [] = prev"
  by (simp add: patch_rows_def)

lemma new_row_shown:
  assumes "row \<in> set nxt" "is_nullish (key row) \<or> map_of (rows_by_key key prev) (to_string (key row)) = None"
  shows "row \<in> set (patch_rows key merge equal prev nxt)"
proof -
  have changed: "patch_row key merge equal (rows_by_key key prev) row = (row, True)"
    using assms(2) by (auto simp: patch_row_def)
  then have "list_ex snd (map (patch_row key merge equal (rows_by_key key prev)) nxt)"
    using assms(1) by (force simp: list_ex_iff)
  moreover have "nxt \<noteq> []" using assms(1) by auto
  ultimately show ?thesis using assms(1) changed by (subst patched_rows) (force simp: image_iff)+
qed

text \<open>
  Rows that only change their place are not moved: no row differs from the one of its key, so the old
  list is kept in its old order.
\<close>

lemma reordered_rows_kept:
  assumes "list_all (\<lambda>row. \<not> is_nullish (key row) \<and> map_of (rows_by_key key prev) (to_string (key row)) = Some row \<and> truthy row
      \<and> equal row row (merge row row)) nxt" "length prev = length nxt"
  shows "patch_rows key merge equal prev nxt = prev"
  using assms by (auto simp: patch_rows_def patch_row_def Let_def list_ex_iff list_all_iff)

lemma swapped_rows_kept:
  "let a = JObj [(''id'', JStr ''a''), (''rank'', JNum (Fin 1))]; b = JObj [(''id'', JStr ''b''), (''rank'', JNum (Fin 2))]
   in patch_rows default_key merge_rows rows_equal [a, b] [b, a] = [a, b]"
  by (simp add: patch_rows_def patch_row_def rows_by_key_def default_key_def merge_rows_def rows_equal_def shallow_equal_def
      same_value_def spread_def set_field_def own_Cons is_nullish_def nullish_def num_eq_def Let_def list_ex_iff)

text \<open>A patched object is the spread of the two, whether or not the old one is kept.\<close>

lemma same_value_eq: "same_value r v w \<Longrightarrow> v = w"
  by (auto simp: same_value_def num_eq_def split: jsval.splits)

lemma patch_object_fields:
  assumes "distinct (map fst p)"
  shows "own (patch_object (Some p) (Some n)) k = own (spread p n) k"
proof (cases "shallow_equal (\<lambda>k. k \<in> fst ` set n) p (spread p n)")
  case True
  have dom: "fst ` set p \<subseteq> fst ` set (spread p n)"
    unfolding dom_map_of_conv_image_fst [symmetric] map_of_spread by auto
  have "card (fst ` set (spread p n)) = card (fst ` set p)"
    using True distinct_card [OF assms] distinct_card [OF distinct_spread [OF assms, of n]] by (simp add: shallow_equal_def)
  then have keys: "fst ` set (spread p n) = fst ` set p"
    using card_subset_eq [OF _ dom] by simp
  have "own p k = own (spread p n) k"
  proof (cases "map_of p k")
    case None
    then have "map_of (spread p n) k = None" by (simp add: map_of_eq_None_iff keys)
    with None show ?thesis by (simp add: own_def)
  next
    case (Some v)
    then have "(k, v) \<in> set p" by (rule map_of_SomeD)
    then have "v = own (spread p n) k" using True same_value_eq by (fastforce simp: shallow_equal_def list_all_iff)
    with Some show ?thesis by (simp add: own_def)
  qed
  with True show ?thesis by (simp add: patch_object_def Let_def)
qed (simp add: patch_object_def Let_def)

text \<open>The age of a snapshot is never negative.\<close>

lemma epoch_not_NaN: "to_epoch_ms date_parse ts = Some t \<Longrightarrow> t \<noteq> NaN"
proof (cases ts)
  case (JNum n)
  assume t: "to_epoch_ms date_parse ts = Some t"
  have "n * Fin 1000 \<noteq> NaN" if "is_finite n" using that by (cases n) auto
  moreover have "math_floor m \<noteq> NaN" if "m \<noteq> NaN" for m using that by (cases m) auto
  moreover have "n \<noteq> NaN" if "is_finite n" using that by auto
  ultimately show ?thesis using t JNum by (auto split: if_splits)
qed (auto split: if_splits)

lemma stale_nonneg: "is_finite now \<Longrightarrow> get_stale_ms date_parse now ts = Some x \<Longrightarrow> Fin 0 \<le> x"
proof (cases "to_epoch_ms date_parse ts")
  case (Some t)
  assume now: "is_finite now" and x: "get_stale_ms date_parse now ts = Some x"
  have "now - t \<noteq> NaN" using now epoch_not_NaN [OF Some] by (cases t) (auto simp: is_finite_iff minus_jsnum_def)
  then show ?thesis using x Some math_max_ge [of "Fin 0" "now - t"] by (auto simp: get_stale_ms_def split: if_splits)
qed (simp add: get_stale_ms_def)

text \<open>A key never has two fetches under way; a scheduled one starts when its timer fires, unless one is.\<close>

definition one_fetch :: "reconciles \<Rightarrow> bool" where
  "one_fetch r \<longleftrightarrow> distinct (rc_inflight r)"

datatype reconcile_event = Schedule string jsnum | Cancel string | CancelAll | Fires string | Done string

fun reconcile_step :: "reconcile_event \<Rightarrow> reconciles \<Rightarrow> reconciles" where
  "reconcile_step (Schedule k d) r = schedule_reconcile k d r"
| "reconcile_step (Cancel k) r = cancel_reconcile k r"
| "reconcile_step CancelAll r = cancel_all_reconciles r"
| "reconcile_step (Fires k) r = reconcile_fires k r"
| "reconcile_step (Done k) r = reconcile_done k r"

lemma one_fetch_run: "one_fetch (fold reconcile_step es no_reconciles)"
proof (rule fold_invariant_list [where P = one_fetch])
  show "one_fetch no_reconciles" by (simp add: one_fetch_def no_reconciles_def)
  show "one_fetch (reconcile_step e r)" if "one_fetch r" for e r
    using that by (cases e) (auto simp: one_fetch_def schedule_reconcile_def cancel_reconcile_def cancel_all_reconciles_def
      reconcile_fires_def reconcile_done_def Let_def distinct_removeAll)
qed

lemma scheduled_starts:
  assumes "key \<noteq> []" "key \<notin> set (rc_inflight r)"
  shows "key \<in> set (rc_inflight (reconcile_fires key (schedule_reconcile key d r)))"
  using assms by (simp add: reconcile_fires_def schedule_reconcile_def cancel_reconcile_def Let_def update_conv')

lemma scheduled_during_fetch_lost:
  assumes "key \<noteq> []" "key \<in> set (rc_inflight r)"
  shows "let r' = reconcile_done key (reconcile_fires key (schedule_reconcile key d r)) in
    map_of (rc_timers r') key = None \<and> key \<notin> set (rc_inflight r')"
  using assms
  by (simp add: reconcile_fires_def schedule_reconcile_def cancel_reconcile_def reconcile_done_def Let_def update_conv'
      delete_conv)

lemma cancelled_never_starts: "reconcile_fires key (cancel_reconcile key r) = cancel_reconcile key r"
  by (simp add: reconcile_fires_def cancel_reconcile_def delete_conv)

text \<open>A stale snapshot is reconciled without delay.\<close>

lemma stale_reconciled_now:
  assumes "normalize_snapshot_payload raw = Some p" "is_snapshot_stale date_parse now (sp_stamp p) limit" "key \<noteq> []"
    and "hydrate_snapshot date_parse now key True subscribes True limit delay (Some raw) h = (h', res)"
  shows "map_of (rc_timers (hy_reconciles h')) key = Some (Fin 0) \<and>
    get_snapshot (JStr key) (hy_snapshots h') = Some (payload_object p)"
  using assms
  by (auto simp: hydrate_snapshot_def Let_def schedule_reconcile_def update_conv' num_or_def math_max_def get_snapshot_def
      set_snapshot_def)

end
