(* ===== verification/Formatters.thy ===== *)
theory Formatters
  imports Portfolio
begin

text \<open>
  How numbers and symbols are shown, \<open>frontend/src/utils/formatters.js\<close>. The rupee sign is written
  \<open>Rs\<close> and the em dash of a missing value \<open>-\<close>, since a text is a list of bytes. The formats
  that ask the locale service of the browser (currency, quantity, date and time) are not modelled.
\<close>

definition no_number :: "jsval \<Rightarrow> bool" where
  "no_number v = (is_nullish v \<or> is_nan (to_number v))"

definition format_currency_compact :: "jsval \<Rightarrow> string" where
  "format_currency_compact v =
     (if no_number v then ''-''
      else
        let n = to_number v; a = \<bar>n\<bar>; sign = (if n < Fin 0 then ''-'' else []) in
        if Fin 10000000 \<le> a then sign @ ''Rs'' @ to_fixed 2 (a / Fin 10000000) @ ''Cr''
        else if Fin 100000 \<le> a then sign @ ''Rs'' @ to_fixed 2 (a / Fin 100000) @ ''L''
        else if Fin 1000 \<le> a then sign @ ''Rs'' @ to_fixed 1 (a / Fin 1000) @ ''K''
        else sign @ ''Rs'' @ to_fixed 2 a)"

definition format_percent :: "jsval \<Rightarrow> nat \<Rightarrow> bool \<Rightarrow> string" where
  "format_percent v decimals show_sign =
     (if no_number v then ''-''
      else (if show_sign \<and> Fin 0 < to_number v then ''+'' else []) @ to_fixed decimals (to_number v) @ ''%'')"

definition format_price :: "jsval \<Rightarrow> nat \<Rightarrow> string" where
  "format_price v decimals = (if no_number v then ''-'' else to_fixed decimals (to_number v))"

definition pnl_color_class :: "jsval \<Rightarrow> string" where
  "pnl_color_class v = (if Fin 0 \<le> to_number v then ''text-profit'' else ''text-loss'')"

definition bull_bear_class :: "jsval \<Rightarrow> string" where
  "bull_bear_class v = (if Fin 0 \<le> to_number v then ''text-bull'' else ''text-bear'')"

definition clean_symbol :: "string \<Rightarrow> string" where
  "clean_symbol s =
     (let t = remove_first ''=F'' (remove_first ''.BO'' (remove_first ''.NS'' s)) in if starts_with t ''^'' then drop 1 t else t)"

section \<open>Lemmas\<close>

text \<open>A sum never looks smaller by its unit: what is shown in a unit is at least one of it.\<close>

lemma compact_sign: "\<not> no_number v \<Longrightarrow> to_number v < Fin 0 \<longleftrightarrow> (\<exists>t. format_currency_compact v = ''-Rs'' @ t)"
  by (auto simp: format_currency_compact_def Let_def)

lemma compact_opposite:
  assumes "n \<noteq> NaN" "Fin 0 < n"
  shows "format_currency_compact (JNum (- n)) = ''-'' @ format_currency_compact (JNum n)"
proof -
  have "\<bar>- n\<bar> = \<bar>n\<bar>" "- n < Fin 0" "\<not> n < Fin 0" "- n \<noteq> NaN" using assms by (cases n; simp)+
  then show ?thesis using assms by (simp add: format_currency_compact_def no_number_def is_nullish_def is_nan_def Let_def)
qed

text \<open>A price that falls by less than a cent of a percent is shown as \<open>-0.00%\<close>.\<close>

lemma negative_zero_shown: "format_percent (JNum (Fin (- (1 / 1024)))) 2 True = ''-0.00%''"
  by (simp add: format_percent_def no_number_def is_nullish_def fixed_digits_def fixed_int_def digits_of.simps Let_def char_of_def bit_Suc bit_0)

text \<open>A cleaned symbol has lost its exchange.\<close>

lemma remove_first_suffix:
  assumes "CHR ''.'' \<notin> set s"
  shows "remove_first (CHR ''.'' # p) (s @ CHR ''.'' # p) = s"
  using assms by (induction s) (auto simp: starts_with_def)

lemma remove_first_absent: "hd pat \<notin> set s \<Longrightarrow> pat \<noteq> [] \<Longrightarrow> remove_first pat s = s"
  by (induction s) (auto simp: starts_with_def neq_Nil_conv)

lemma clean_share:
  assumes "CHR ''.'' \<notin> set s" "CHR ''='' \<notin> set s" "\<not> starts_with s ''^''" "x \<in> {''.NS'', ''.BO''}"
  shows "clean_symbol (s @ x) = s"
proof -
  have "remove_first ''.NS'' (s @ ''.BO'') = s @ ''.BO''"
    using assms(1) by (induction s) (auto simp: starts_with_def)
  then show ?thesis using assms remove_first_suffix [OF assms(1)] remove_first_absent [of "''.BO''" s] remove_first_absent [of "''=F''" s]
    by (auto simp: clean_symbol_def Let_def)
qed

end
