(* ===== verification/Validators.thy ===== *)
theory Validators
  imports JSValue
begin

text \<open>
  The validation of form input, \<open>frontend/src/utils/validators.js\<close>: orders, e-mail addresses and
  passwords. Fields of a form are texts, numbers or missing. The error texts are the model's
  constructors of \<open>order_error\<close>, with the numbers they print.
\<close>

section \<open>Orders\<close>

record order_form =
  of_side :: string
  of_type :: string
  of_mode :: jsval
  of_quantity :: jsval
  of_price :: jsval
  of_trigger :: jsval
  of_stop_loss :: jsval
  of_take_profit :: jsval

datatype order_error = BadQuantity | BadPrice | BadStopLoss | BadTakeProfit
  | BuyBracket jsnum jsnum jsnum | SellBracket jsnum jsnum jsnum | BadMode

text \<open>\<open>parseFloat(v)\<close> and \<open>parseInt(v, 10)\<close> convert to a text first.\<close>

definition float_of :: "jsval \<Rightarrow> jsnum" where
  "float_of v = parse_float (to_string v)"

definition int_of :: "jsval \<Rightarrow> jsnum" where
  "int_of v = parse_int (to_string v)"

definition not_positive :: "jsnum \<Rightarrow> bool" where
  "not_positive n = (is_nan n \<or> n \<le> Fin 0)"

text \<open>A value that was entered: neither empty nor \<open>undefined\<close>.\<close>

definition entered :: "jsval \<Rightarrow> bool" where
  "entered v = (v \<noteq> JStr [] \<and> v \<noteq> Undefined)"

definition check_quantity :: "order_form \<Rightarrow> order_error option" where
  "check_quantity f =
     (let qty = int_of (of_quantity f) in
      if is_nan qty \<or> num_eq qty (Fin 0) \<or> qty \<le> Fin 0 then Some BadQuantity else None)"

definition check_price :: "order_form \<Rightarrow> order_error option" where
  "check_price f =
     (if (of_type f = ''LIMIT'' \<or> of_type f = ''BRACKET'') \<and> entered (of_price f) \<and> not_positive (float_of (of_price f))
      then Some BadPrice else None)"

definition check_trigger :: "order_form \<Rightarrow> order_error option" where
  "check_trigger f =
     (let raw = js_or (of_stop_loss f) (of_trigger f) in
      if of_type f \<in> {''STOP_LOSS'', ''SL'', ''SL-M''} \<and> js_or raw (JStr []) \<noteq> JStr [] \<and> not_positive (float_of raw)
      then Some BadStopLoss else None)"

definition check_take_profit :: "order_form \<Rightarrow> order_error option" where
  "check_take_profit f =
     (let tp = float_of (of_take_profit f) in
      if of_type f = ''TAKE_PROFIT'' \<and> (is_nan tp \<or> num_eq tp (Fin 0) \<or> tp \<le> Fin 0) then Some BadTakeProfit else None)"

definition check_bracket_legs :: "order_form \<Rightarrow> order_error option" where
  "check_bracket_legs f =
     (if of_type f \<noteq> ''BRACKET'' then None
      else if entered (of_stop_loss f) \<and> not_positive (float_of (of_stop_loss f)) then Some BadStopLoss
      else if entered (of_take_profit f) \<and> not_positive (float_of (of_take_profit f)) then Some BadTakeProfit
      else None)"

definition check_bracket_order :: "order_form \<Rightarrow> order_error option" where
  "check_bracket_order f =
     (let p = float_of (of_price f); sl = float_of (of_stop_loss f); tp = float_of (of_take_profit f) in
      if of_type f = ''BRACKET'' \<and> truthy (of_price f) \<and> truthy (of_stop_loss f) \<and> truthy (of_take_profit f) then
        if of_side f = ''BUY'' then (if \<not> (p < tp \<and> sl < p) then Some (BuyBracket tp p sl) else None)
        else if of_side f = ''SELL'' then (if \<not> (p < sl \<and> tp < p) then Some (SellBracket sl p tp) else None)
        else None
      else None)"

definition check_mode :: "order_form \<Rightarrow> order_error option" where
  "check_mode f = (if of_mode f = JStr ''DELIVERY'' \<or> of_mode f = JStr ''INTRADAY'' then None else Some BadMode)"

text \<open>The checks in their order; the first that fails is the result.\<close>

primrec first_error :: "(order_form \<Rightarrow> order_error option) list \<Rightarrow> order_form \<Rightarrow> order_error option" where
  "first_error [] f = None"
| "first_error (c # cs) f = (case c f of Some e \<Rightarrow> Some e | None \<Rightarrow> first_error cs f)"

definition validate_order_form :: "order_form \<Rightarrow> order_error option" where
  "validate_order_form f =
     first_error [check_quantity, check_price, check_trigger, check_take_profit, check_bracket_legs, check_bracket_order,
       check_mode] f"

section \<open>E-mail addresses and passwords\<close>

text \<open>
  The pattern: a part without blanks and \<open>@\<close>, an \<open>@\<close>, a part, a dot, a part. The matcher looks at
  the only \<open>@\<close> there may be, and for a dot after it that is neither first nor last.
\<close>

definition mail_char :: "char \<Rightarrow> bool" where
  "mail_char c = (\<not> is_space c \<and> c \<noteq> CHR ''@'')"

definition is_valid_email :: "string \<Rightarrow> bool" where
  "is_valid_email s =
     (let local = takeWhile mail_char s; rest = dropWhile mail_char s; domain = drop 1 rest in
      local \<noteq> [] \<and> take 1 rest = ''@'' \<and> list_all mail_char domain \<and>
      2 < length domain \<and> CHR ''.'' \<in> set (butlast (drop 1 domain)))"

datatype password_error = ShortPassword | NoDigit

definition validate_password :: "string \<Rightarrow> password_error option" where
  "validate_password p =
     (if length p < 8 then Some ShortPassword else if \<not> list_ex is_digit p then Some NoDigit else None)"

section \<open>Lemmas\<close>

lemma valid_order_checks:
  "validate_order_form f = None \<longleftrightarrow>
     check_quantity f = None \<and> check_price f = None \<and> check_trigger f = None \<and> check_take_profit f = None \<and>
     check_bracket_legs f = None \<and> check_bracket_order f = None \<and> check_mode f = None"
  by (auto simp: validate_order_form_def split: option.splits)

lemma not_positive_iff: "\<not> not_positive n \<longleftrightarrow> Fin 0 < n"
  by (cases n) (auto simp: not_positive_def)

text \<open>A form that is accepted has a positive quantity and a mode, and its prices are in order.\<close>

lemma valid_quantity: "validate_order_form f = None \<Longrightarrow> Fin 0 < int_of (of_quantity f)"
  by (cases "int_of (of_quantity f)") (auto simp: valid_order_checks check_quantity_def Let_def split: if_splits)

lemma valid_bracket:
  assumes "validate_order_form f = None" "of_type f = ''BRACKET''"
    and "truthy (of_price f)" "truthy (of_stop_loss f)" "truthy (of_take_profit f)"
  shows "of_side f = ''BUY'' \<Longrightarrow> Fin 0 < float_of (of_stop_loss f) \<and> float_of (of_stop_loss f) < float_of (of_price f) \<and>
      float_of (of_price f) < float_of (of_take_profit f)"
    and "of_side f = ''SELL'' \<Longrightarrow> Fin 0 < float_of (of_take_profit f) \<and> float_of (of_take_profit f) < float_of (of_price f) \<and>
      float_of (of_price f) < float_of (of_stop_loss f)"
proof -
  have entered: "entered (of_stop_loss f)" "entered (of_take_profit f)" using assms(4,5) by (auto simp: entered_def)
  have legs: "Fin 0 < float_of (of_stop_loss f)" "Fin 0 < float_of (of_take_profit f)"
    using assms(1,2) entered unfolding not_positive_iff [symmetric]
    by (auto simp: valid_order_checks check_bracket_legs_def split: if_splits)
  have order: "check_bracket_order f = None" using assms(1) by (simp add: valid_order_checks)
  show "of_side f = ''BUY'' \<Longrightarrow> Fin 0 < float_of (of_stop_loss f) \<and> float_of (of_stop_loss f) < float_of (of_price f) \<and>
      float_of (of_price f) < float_of (of_take_profit f)"
    and "of_side f = ''SELL'' \<Longrightarrow> Fin 0 < float_of (of_take_profit f) \<and> float_of (of_take_profit f) < float_of (of_price f) \<and>
      float_of (of_price f) < float_of (of_stop_loss f)"
    using order assms legs by (auto simp: check_bracket_order_def Let_def split: if_splits)
qed

text \<open>The matcher accepts what the pattern describes.\<close>

lemma dot_split:
  "CHR ''.'' \<in> set (butlast (drop 1 d)) \<longleftrightarrow> (\<exists>b c. d = b @ ''.'' @ c \<and> b \<noteq> [] \<and> c \<noteq> [])"
proof
  assume dot: "CHR ''.'' \<in> set (butlast (drop 1 d))"
  then obtain x e where d: "d = x # e" by (cases d) auto
  then obtain u v where "butlast e = u @ CHR ''.'' # v" using dot split_list by fastforce
  moreover have "e \<noteq> []" using dot d by auto
  ultimately have "e = u @ CHR ''.'' # v @ [last e]" by (metis append_Cons append_assoc append_butlast_last_id)
  then show "\<exists>b c. d = b @ ''.'' @ c \<and> b \<noteq> [] \<and> c \<noteq> []"
    using d by (intro exI [of _ "x # u"] exI [of _ "v @ [last e]"]) simp
next
  assume "\<exists>b c. d = b @ ''.'' @ c \<and> b \<noteq> [] \<and> c \<noteq> []"
  then obtain x b c where "d = (x # b) @ ''.'' @ c" "c \<noteq> []" by (metis neq_Nil_conv)
  then show "CHR ''.'' \<in> set (butlast (drop 1 d))" by (simp add: butlast_append)
qed

lemma email_iff_pattern:
  "is_valid_email s \<longleftrightarrow>
     (\<exists>a b c. s = a @ ''@'' @ b @ ''.'' @ c \<and> a \<noteq> [] \<and> b \<noteq> [] \<and> c \<noteq> [] \<and>
        list_all mail_char a \<and> list_all mail_char b \<and> list_all mail_char c)"
proof
  assume valid: "is_valid_email s"
  define a where "a = takeWhile mail_char s"
  define d where "d = drop 1 (dropWhile mail_char s)"
  have "s = a @ ''@'' @ d" using valid takeWhile_dropWhile_id [of mail_char s] append_take_drop_id [of 1 "dropWhile mail_char s"]
    by (simp add: is_valid_email_def Let_def a_def d_def)
  moreover obtain b c where "d = b @ ''.'' @ c" "b \<noteq> []" "c \<noteq> []"
    using valid dot_split [of d] by (auto simp: is_valid_email_def Let_def d_def)
  moreover have "list_all mail_char a" unfolding a_def by (simp add: list_all_iff) (meson set_takeWhileD)
  moreover have "list_all mail_char d" "a \<noteq> []" using valid by (simp_all add: is_valid_email_def Let_def a_def d_def)
  ultimately show "\<exists>a b c. s = a @ ''@'' @ b @ ''.'' @ c \<and> a \<noteq> [] \<and> b \<noteq> [] \<and> c \<noteq> [] \<and>
        list_all mail_char a \<and> list_all mail_char b \<and> list_all mail_char c" by auto
next
  assume "\<exists>a b c. s = a @ ''@'' @ b @ ''.'' @ c \<and> a \<noteq> [] \<and> b \<noteq> [] \<and> c \<noteq> [] \<and>
        list_all mail_char a \<and> list_all mail_char b \<and> list_all mail_char c"
  then obtain a b c where s: "s = a @ ''@'' @ b @ ''.'' @ c" "a \<noteq> []" "b \<noteq> []" "c \<noteq> []"
    and m: "list_all mail_char a" "list_all mail_char b" "list_all mail_char c" by blast
  have at: "\<not> mail_char (CHR ''@'')" by (simp add: mail_char_def)
  have dot: "mail_char (CHR ''.'')" by (simp add: mail_char_def is_space_def)
  have tw: "takeWhile mail_char s = a" "dropWhile mail_char s = ''@'' @ b @ ''.'' @ c"
    using m(1) at by (simp_all add: s(1) list_all_iff takeWhile_append2 dropWhile_append2)
  have "CHR ''.'' \<in> set (butlast (drop 1 (b @ ''.'' @ c)))" unfolding dot_split using s(3,4) by blast
  moreover have "2 < length (b @ ''.'' @ c)" using s(3,4) by (cases b; cases c) auto
  ultimately show "is_valid_email s" using s(2) m dot by (simp add: is_valid_email_def tw)
qed

lemma password_ok_iff: "validate_password p = None \<longleftrightarrow> 8 \<le> length p \<and> (\<exists>c \<in> set p. is_digit c)"
  by (auto simp: validate_password_def list_ex_iff)

end
