(* ===== verification/Orders.thy ===== *)
theory Orders
  imports Validators Symbols
begin

text \<open>
  The entry of an order: the form and its submission, \<open>frontend/src/hooks/useOrders.js\<close>, and the
  handlers of \<open>components/trading/OrderPanel.jsx\<close> that fill the form. The holdings are those of the
  portfolio store at the time of the call. The idempotency key is an argument. Toasts are the
  constructors of the result.
\<close>

section \<open>The form\<close>

record entry_form = order_form +
  en_product :: string

definition trading_mode_product :: "jsval \<Rightarrow> string" where
  "trading_mode_product mode = (if mode = JStr ''INTRADAY'' then ''MIS'' else ''CNC'')"

definition initial_entry :: entry_form where
  "initial_entry = \<lparr> of_side = ''BUY'', of_type = ''MARKET'', of_mode = JStr ''INTRADAY'', of_quantity = JNum (Fin 1),
     of_price = JStr [], of_trigger = JStr [], of_stop_loss = JStr [], of_take_profit = JStr [], en_product = ''MIS'' \<rparr>"

text \<open>
  \<open>normalizeOrderType\<close>: runs of blanks become one, hyphens underscores; what the table does not have is
  a market order.
\<close>

fun squeeze_blanks :: "bool \<Rightarrow> string \<Rightarrow> string" where
  "squeeze_blanks in_run [] = []"
| "squeeze_blanks in_run (c # s) =
     (if is_space c then (if in_run then squeeze_blanks True s else CHR '' '' # squeeze_blanks True s)
      else c # squeeze_blanks False s)"

definition order_type_aliases :: "(string \<times> string) list" where
  "order_type_aliases = [(''MARKET'', ''MARKET''), (''LIMIT'', ''LIMIT''), (''BRACKET'', ''BRACKET''),
     (''LIMIT + TP + SL'', ''BRACKET''), (''STOP_LOSS'', ''STOP_LOSS''), (''STOP LOSS'', ''STOP_LOSS''), (''SL'', ''STOP_LOSS''),
     (''STOP_LOSS_LIMIT'', ''STOP_LOSS_LIMIT''), (''STOP LOSS LIMIT'', ''STOP_LOSS_LIMIT''), (''SL-M'', ''STOP_LOSS_LIMIT''),
     (''TAKE_PROFIT'', ''TAKE_PROFIT''), (''TAKE PROFIT'', ''TAKE_PROFIT''), (''TP'', ''TAKE_PROFIT'')]"

definition normalize_order_type :: "jsval \<Rightarrow> string" where
  "normalize_order_type v =
     (let t = map (\<lambda>c. if c = CHR ''-'' then CHR ''_'' else c) (squeeze_blanks False (symbol_text v)) in
      case map_of order_type_aliases t of Some x \<Rightarrow> x | None \<Rightarrow> ''MARKET'')"

definition parse_optional_price :: "jsval \<Rightarrow> jsnum option" where
  "parse_optional_price v = (let n = float_of v in if is_finite n \<and> Fin 0 < n then Some n else None)"

section \<open>Holdings\<close>

definition norm_symbol :: "jsval \<Rightarrow> string" where
  "norm_symbol v =
     (case v of
        JStr s \<Rightarrow>
          if s = [] then []
          else if starts_with s ''^'' \<or> ends_with s ''.NS'' \<or> ends_with s ''.BO'' then s
          else if is_commodity_symbol s then upper s else s @ ''.NS''
      | _ \<Rightarrow> [])"

definition held_quantity :: "jsval \<Rightarrow> jsval list \<Rightarrow> jsnum" where
  "held_quantity symbol holdings =
     (case find (\<lambda>h. norm_symbol (field h ''symbol'') = norm_symbol symbol) holdings of
        Some h \<Rightarrow> to_number (nullish (field h ''quantity'') (JNum (Fin 0)))
      | None \<Rightarrow> Fin 0)"

definition holding_qty :: "jsval \<Rightarrow> jsval list \<Rightarrow> jsnum" where
  "holding_qty symbol holdings = math_max (Fin 0) (held_quantity symbol holdings)"

definition exit_order_side :: "jsnum \<Rightarrow> string option" where
  "exit_order_side held = (if Fin 0 < held then Some ''SELL'' else if held < Fin 0 then Some ''BUY'' else None)"

definition sync_exit_side :: "jsnum \<Rightarrow> entry_form \<Rightarrow> entry_form" where
  "sync_exit_side held f =
     (if of_type f \<noteq> ''STOP_LOSS'' \<and> of_type f \<noteq> ''TAKE_PROFIT'' then f
      else case exit_order_side held of Some side \<Rightarrow> f\<lparr> of_side := side \<rparr> | None \<Rightarrow> f)"

section \<open>Derived figures\<close>

definition can_sell :: "jsval \<Rightarrow> jsval list \<Rightarrow> entry_form \<Rightarrow> bool" where
  "can_sell symbol holdings f = (if of_mode f = JStr ''DELIVERY'' then Fin 0 < holding_qty symbol holdings else True)"

definition max_sell_qty :: "jsval \<Rightarrow> jsval list \<Rightarrow> entry_form \<Rightarrow> jsnum" where
  "max_sell_qty symbol holdings f = (if of_mode f = JStr ''DELIVERY'' then holding_qty symbol holdings else PInf)"

definition marketable_limit :: "jsnum \<Rightarrow> entry_form \<Rightarrow> bool" where
  "marketable_limit current f =
     (case parse_optional_price (of_price f) of
        None \<Rightarrow> False
      | Some p \<Rightarrow> of_type f = ''LIMIT'' \<and> Fin 0 < current \<and> (if of_side f = ''BUY'' then current \<le> p else p \<le> current))"

definition entered_or :: "jsval \<Rightarrow> jsnum \<Rightarrow> jsnum" where
  "entered_or v current = (if truthy v then float_of v else current)"

definition effective_price :: "jsnum \<Rightarrow> entry_form \<Rightarrow> jsnum" where
  "effective_price current f =
     (if of_type f = ''LIMIT'' \<or> of_type f = ''BRACKET'' then entered_or (of_price f) current
      else if of_type f = ''TAKE_PROFIT'' then entered_or (of_take_profit f) current
      else if of_type f = ''STOP_LOSS'' then entered_or (of_stop_loss f) current
      else current)"

definition total_cost :: "jsnum \<Rightarrow> entry_form \<Rightarrow> jsnum" where
  "total_cost current f = num_or (effective_price current f) (Fin 0) * num_or (int_of (of_quantity f)) (Fin 0)"

definition margin_required :: "jsnum \<Rightarrow> entry_form \<Rightarrow> jsnum" where
  "margin_required current f =
     (if of_mode f = JStr ''INTRADAY'' then total_cost current f / Fin 5 else total_cost current f)"

section \<open>Changes of the form\<close>

definition set_side :: "string \<Rightarrow> entry_form \<Rightarrow> entry_form" where
  "set_side side f = f\<lparr> of_side := side \<rparr>"

definition set_trading_mode :: "jsval \<Rightarrow> jsval list \<Rightarrow> jsval \<Rightarrow> entry_form \<Rightarrow> entry_form" where
  "set_trading_mode symbol holdings mode f =
     (let f' = f\<lparr> of_mode := mode, en_product := trading_mode_product mode \<rparr>; held = held_quantity symbol holdings in
      if mode = JStr ''DELIVERY'' \<and> of_side f = ''SELL'' \<and> Fin 0 < held \<and> held < num_or (int_of (of_quantity f)) (Fin 0)
      then f'\<lparr> of_quantity := JNum held \<rparr> else f')"

definition reset_form :: "entry_form \<Rightarrow> entry_form" where
  "reset_form f = initial_entry"

text \<open>The panel: prices on the tick of five paise, and the defaults of an order type.\<close>

definition round_to_tick :: "jsnum \<Rightarrow> jsnum" where
  "round_to_tick v = math_round (math_max (lit (5 / 100)) v / lit (5 / 100)) * lit (5 / 100)"

definition as_price_string :: "jsnum \<Rightarrow> string" where
  "as_price_string v = to_fixed 2 (round_to_tick v)"

definition stop_factor :: "bool \<Rightarrow> jsnum" where
  "stop_factor buying = (if buying then lit (99 / 100) else lit (101 / 100))"

definition profit_factor :: "bool \<Rightarrow> jsnum" where
  "profit_factor buying = (if buying then lit (102 / 100) else lit (98 / 100))"

definition build_default_prices :: "jsnum \<Rightarrow> string \<Rightarrow> string \<times> string \<times> string" where
  "build_default_prices price side =
     (if \<not> is_finite price \<or> price \<le> Fin 0 then ([], [], [])
      else (as_price_string price, as_price_string (price * stop_factor (side = ''BUY'')),
        as_price_string (price * profit_factor (side = ''BUY''))))"

definition change_order_type :: "jsnum \<Rightarrow> string \<Rightarrow> entry_form \<Rightarrow> entry_form" where
  "change_order_type current kind f =
     (let (limit, stop, profit) = build_default_prices current (of_side f) in
      f\<lparr> of_type := kind,
         of_price := (if kind = ''LIMIT'' \<or> kind = ''BRACKET'' then JStr limit else of_price f),
         of_stop_loss := (if kind = ''STOP_LOSS'' \<or> kind = ''BRACKET'' then JStr stop else of_stop_loss f),
         of_take_profit := (if kind = ''TAKE_PROFIT'' \<or> kind = ''BRACKET'' then JStr profit else of_take_profit f) \<rparr>)"

text \<open>The effect that fills what is still empty when the quote arrives.\<close>

definition fill_prices :: "jsnum \<Rightarrow> entry_form \<Rightarrow> entry_form" where
  "fill_prices current f =
     (if \<not> Fin 0 < current \<or> of_type f = ''MARKET'' \<or> \<not> is_finite current then f
      else
        let (limit, stop, profit) = build_default_prices current (of_side f);
            needs_limit = (of_type f \<in> {''LIMIT'', ''BRACKET''} \<and> \<not> truthy (of_price f));
            needs_stop = (of_type f \<in> {''STOP_LOSS'', ''BRACKET''} \<and> \<not> truthy (of_stop_loss f));
            needs_profit = (of_type f \<in> {''TAKE_PROFIT'', ''BRACKET''} \<and> \<not> truthy (of_take_profit f))
        in f\<lparr> of_price := (if needs_limit then JStr limit else of_price f),
              of_stop_loss := (if needs_stop then JStr stop else of_stop_loss f),
              of_take_profit := (if needs_profit then JStr profit else of_take_profit f) \<rparr>)"

definition change_trading_type :: "jsval \<Rightarrow> jsval list \<Rightarrow> string \<Rightarrow> entry_form \<Rightarrow> entry_form" where
  "change_trading_type symbol holdings product f =
     (let delivery = (product = ''CNC''); held = holding_qty symbol holdings in
      f\<lparr> en_product := product, of_mode := JStr (if delivery then ''DELIVERY'' else ''INTRADAY''),
         of_quantity := (if of_side f \<noteq> ''BUY'' \<and> delivery \<and> Fin 0 < held
           then JNum (math_min (num_or (int_of (of_quantity f)) (Fin 1)) held) else of_quantity f) \<rparr>)"

datatype quantity_event = Less | More | Typed string | Left

definition change_quantity :: "quantity_event \<Rightarrow> entry_form \<Rightarrow> entry_form" where
  "change_quantity e f =
     (let n = int_of (of_quantity f) in
      case e of
        Less \<Rightarrow> f\<lparr> of_quantity := JNum (math_max (Fin 1) (num_or n (Fin 1) - Fin 1)) \<rparr>
      | More \<Rightarrow> f\<lparr> of_quantity := JNum (num_or n (Fin 0) + Fin 1) \<rparr>
      | Typed raw \<Rightarrow>
          if raw = [] then f\<lparr> of_quantity := JStr [] \<rparr>
          else if \<not> is_nan (parse_int raw) \<and> Fin 0 \<le> parse_int raw then f\<lparr> of_quantity := JNum (parse_int raw) \<rparr> else f
      | Left \<Rightarrow> f\<lparr> of_quantity := JNum (math_max (Fin 1) (num_or n (Fin 1))) \<rparr>)"

section \<open>Submission\<close>

record order_payload =
  py_symbol :: jsval
  py_side :: string
  py_type :: string
  py_product :: string
  py_quantity :: jsnum
  py_price :: "jsnum option"
  py_trigger :: "jsnum option"
  py_take_profit :: "jsnum option"
  py_client_price :: "jsnum option"
  py_key :: string

datatype submission = Busy | Invalid order_error | NotHeld | TooMany jsnum jsnum | Submitted order_payload

definition fallback_price :: "jsnum \<Rightarrow> jsnum option" where
  "fallback_price current = (if Fin 0 < current then Some current else None)"

definition or_text :: "jsval \<Rightarrow> jsnum option \<Rightarrow> (jsnum \<Rightarrow> string) \<Rightarrow> jsval" where
  "or_text v fallback text = js_or v (JStr (case fallback of Some p \<Rightarrow> text p | None \<Rightarrow> []))"

definition form_to_validate :: "jsnum \<Rightarrow> entry_form \<Rightarrow> order_form" where
  "form_to_validate current f =
     (let buying = (of_side f = ''BUY''); fb = fallback_price current in
      order_form.truncate (f\<lparr> of_type := normalize_order_type (JStr (of_type f)),
        of_price := or_text (of_price f) fb number_to_string,
        of_stop_loss := or_text (js_or (of_stop_loss f) (of_trigger f)) fb (\<lambda>p. to_fixed 2 (p * stop_factor buying)),
        of_take_profit := or_text (of_take_profit f) fb (\<lambda>p. to_fixed 2 (p * profit_factor buying)) \<rparr>))"

definition or_fallback :: "jsnum option \<Rightarrow> jsnum option \<Rightarrow> jsnum option" where
  "or_fallback a b = (case a of Some x \<Rightarrow> Some x | None \<Rightarrow> b)"

definition order_payload_of :: "jsval \<Rightarrow> jsnum \<Rightarrow> string \<Rightarrow> entry_form \<Rightarrow> order_payload" where
  "order_payload_of symbol current key f =
     (let kind = normalize_order_type (JStr (of_type f)); buying = (of_side f = ''BUY''); fb = fallback_price current;
          limit = or_fallback (parse_optional_price (of_price f)) fb;
          stop = or_fallback (parse_optional_price (js_or (of_stop_loss f) (of_trigger f)))
            (map_option (\<lambda>p. p * stop_factor buying) fb);
          profit = or_fallback (parse_optional_price (of_take_profit f)) (map_option (\<lambda>p. p * profit_factor buying) fb)
      in \<lparr> py_symbol = symbol, py_side = of_side f, py_type = kind, py_product = en_product f,
           py_quantity = int_of (of_quantity f),
           py_price = (if kind = ''LIMIT'' \<or> kind = ''BRACKET'' then limit
             else if kind = ''TAKE_PROFIT'' then profit else if kind = ''STOP_LOSS_LIMIT'' then limit else None),
           py_trigger = (if kind \<in> {''STOP_LOSS'', ''BRACKET'', ''STOP_LOSS_LIMIT''} then stop else None),
           py_take_profit = (if kind \<in> {''BRACKET'', ''TAKE_PROFIT''} then profit else None),
           py_client_price = fb, py_key = key \<rparr>)"

text \<open>\<open>submitOrder\<close> up to its request.\<close>

definition submit_order :: "bool \<Rightarrow> jsval \<Rightarrow> jsval list \<Rightarrow> jsnum \<Rightarrow> string \<Rightarrow> entry_form \<Rightarrow> submission" where
  "submit_order submitting symbol holdings current key f =
     (if submitting then Busy
      else case validate_order_form (form_to_validate current f) of
        Some e \<Rightarrow> Invalid e
      | None \<Rightarrow>
          let qty = int_of (of_quantity f); held = held_quantity symbol holdings;
              delivery_sale = (of_side f = ''SELL'' \<and> of_mode f = JStr ''DELIVERY'')
          in if delivery_sale \<and> held \<le> Fin 0 then NotHeld
             else if delivery_sale \<and> held < qty then TooMany held qty
             else Submitted (order_payload_of symbol current key f))"

text \<open>The hook with its request: the flag is set while the request is under way.\<close>

record order_entry =
  oe_form :: entry_form
  oe_submitting :: bool
  oe_sent :: "order_payload list"

definition begin_submit :: "jsval \<Rightarrow> jsval list \<Rightarrow> jsnum \<Rightarrow> string \<Rightarrow> order_entry \<Rightarrow> order_entry" where
  "begin_submit symbol holdings current key s =
     (case submit_order (oe_submitting s) symbol holdings current key (oe_form s) of
        Submitted p \<Rightarrow> s\<lparr> oe_submitting := True, oe_sent := oe_sent s @ [p] \<rparr>
      | _ \<Rightarrow> s)"

definition end_submit :: "order_entry \<Rightarrow> order_entry" where
  "end_submit s = s\<lparr> oe_submitting := False \<rparr>"

text \<open>The check of the session: whether orders are taken, and the label where they are not.\<close>

definition market_check :: "jsval option \<Rightarrow> bool \<times> string \<Rightarrow> bool \<times> string" where
  "market_check answer st =
     (case answer of
        None \<Rightarrow> st
      | Some d \<Rightarrow>
          if is_nullish d then st
          else if truthy (field d ''can_place_orders'') then (True, snd st)
          else (False,
            let state = field d ''state'' in
            if state = JStr ''weekend'' then ''Weekend'' else if state = JStr ''holiday'' then ''Holiday''
            else if state = JStr ''after_market'' then ''After Market Hours'' else ''Market Closed''))"

section \<open>Lemmas\<close>

text \<open>What is submitted has a positive quantity, its side and its product.\<close>

lemma submitted_cases:
  assumes "submit_order b symbol holdings current key f = Submitted p"
  shows "\<not> b" "validate_order_form (form_to_validate current f) = None" "p = order_payload_of symbol current key f"
    and "of_side f = ''SELL'' \<Longrightarrow> of_mode f = JStr ''DELIVERY'' \<Longrightarrow>
      \<not> held_quantity symbol holdings \<le> Fin 0 \<and> \<not> held_quantity symbol holdings < int_of (of_quantity f)"
  using assms by (auto simp: submit_order_def Let_def split: if_splits option.splits)

lemma payload_simps [simp]:
  "py_quantity (order_payload_of symbol current key f) = int_of (of_quantity f)"
  "py_side (order_payload_of symbol current key f) = of_side f"
  "py_type (order_payload_of symbol current key f) = normalize_order_type (JStr (of_type f))"
  by (simp_all add: order_payload_of_def Let_def)

lemma validated_simps [simp]:
  "of_quantity (form_to_validate current f) = of_quantity f" "of_side (form_to_validate current f) = of_side f"
  "of_type (form_to_validate current f) = normalize_order_type (JStr (of_type f))"
  by (simp_all add: form_to_validate_def Let_def order_form.truncate_def)

lemma submitted_positive:
  assumes "submit_order b symbol holdings current key f = Submitted p"
  shows "Fin 0 < py_quantity p \<and> py_side p = of_side f"
  using valid_quantity [OF submitted_cases(2) [OF assms]] submitted_cases(3) [OF assms] by simp

text \<open>A sale for delivery never exceeds what is held.\<close>

lemma delivery_sale_covered:
  assumes "submit_order b symbol holdings current key f = Submitted p"
    and "of_side f = ''SELL''" "of_mode f = JStr ''DELIVERY''" "held_quantity symbol holdings \<noteq> NaN"
  shows "Fin 0 < py_quantity p \<and> py_quantity p \<le> held_quantity symbol holdings"
proof -
  have q: "Fin 0 < py_quantity p" using submitted_positive [OF assms(1)] by simp
  then have "py_quantity p \<noteq> NaN" by auto
  moreover have "\<not> held_quantity symbol holdings < py_quantity p"
    using submitted_cases(3,4) [OF assms(1)] assms(2,3) by simp
  ultimately show ?thesis using q not_less_jsnum [OF assms(4)] by blast
qed

text \<open>A bracket with all its prices entered is sent with them, in their order around the entry price.\<close>

lemma entered_price:
  assumes "truthy v" "Fin 0 < float_of v" "is_finite (float_of v)"
  shows "or_fallback (parse_optional_price v) fb = Some (float_of v)" "or_text v fb' t = v"
  using assms by (simp_all add: or_fallback_def parse_optional_price_def or_text_def Let_def)

lemma bracket_in_order:
  assumes "submit_order b symbol holdings current key f = Submitted p"
    and "normalize_order_type (JStr (of_type f)) = ''BRACKET''" "of_side f = ''BUY''"
    and "truthy (of_price f)" "truthy (of_stop_loss f)" "truthy (of_take_profit f)"
    and "is_finite (float_of (of_price f))" "is_finite (float_of (of_stop_loss f))" "is_finite (float_of (of_take_profit f))"
  shows "\<exists>sl e tp. py_trigger p = Some sl \<and> py_price p = Some e \<and> py_take_profit p = Some tp \<and> Fin 0 < sl \<and> sl < e \<and> e < tp"
proof -
  have form: "of_price (form_to_validate current f) = of_price f" "of_stop_loss (form_to_validate current f) = of_stop_loss f"
      "of_take_profit (form_to_validate current f) = of_take_profit f"
    using assms(4-6) by (simp_all add: form_to_validate_def Let_def order_form.truncate_def or_text_def)
  have order: "Fin 0 < float_of (of_stop_loss f) \<and> float_of (of_stop_loss f) < float_of (of_price f) \<and>
      float_of (of_price f) < float_of (of_take_profit f)"
    using valid_bracket(1) [OF submitted_cases(2) [OF assms(1)]] assms(2-6) by (simp add: form)
  then have pos: "Fin 0 < float_of (of_price f)" "Fin 0 < float_of (of_take_profit f)"
    using less_jsnum_trans by blast+
  show ?thesis
    using order pos assms by (simp add: submitted_cases(3) [OF assms(1)] order_payload_of_def Let_def entered_price)
qed

text \<open>One request at a time: while one is under way another submission does nothing.\<close>

lemma one_submission: "oe_submitting s \<Longrightarrow> begin_submit symbol holdings current key s = s"
  by (simp add: begin_submit_def submit_order_def)

lemma begin_submit_sets:
  "begin_submit symbol holdings current key s \<noteq> s \<Longrightarrow>
     oe_submitting (begin_submit symbol holdings current key s) \<and>
     length (oe_sent (begin_submit symbol holdings current key s)) = Suc (length (oe_sent s))"
  by (auto simp: begin_submit_def split: submission.splits)

text \<open>The product follows the mode, and a quantity that is left is at least one.\<close>

lemma mode_product:
  "mode = JStr ''DELIVERY'' \<Longrightarrow> en_product (set_trading_mode symbol holdings mode f) = ''CNC''"
  "mode = JStr ''INTRADAY'' \<Longrightarrow> en_product (set_trading_mode symbol holdings mode f) = ''MIS''"
  by (simp_all add: set_trading_mode_def trading_mode_product_def Let_def)

lemma quantity_left: "of_quantity (change_quantity Left f) = JNum n \<Longrightarrow> Fin 1 \<le> n"
proof -
  have "num_or (int_of (of_quantity f)) (Fin 1) \<noteq> NaN" by (simp add: num_or_def)
  then show "of_quantity (change_quantity Left f) = JNum n \<Longrightarrow> Fin 1 \<le> n"
    using math_max_ge [of "Fin 1" "num_or (int_of (of_quantity f)) (Fin 1)"] by (auto simp: change_quantity_def Let_def)
qed

text \<open>
  A stop order of the kind \<open>SL-M\<close> is sent as a market order: its hyphen becomes an underscore, which
  the table does not have.
\<close>

lemma sl_m_is_market: "normalize_order_type (JStr ''SL-M'') = ''MARKET''"
  by code_simp

text \<open>
  The defaults of the panel for a bracket at a price of one rupee: on the tick of five paise all three
  prices are the same, and the order is refused.
\<close>

lemma tick_bounds: "\<exists>t. lit (5 / 100) = Fin t \<and> 819 / 16384 \<le> t \<and> t \<le> 3277 / 65536"
proof -
  have "is_double (819 / 16384)" "is_double (3277 / 65536)" by (simp_all add: is_double_def js_eval)
  then have "Fin (819 / 16384) \<le> lit (5 / 100)" "lit (5 / 100) \<le> Fin (3277 / 65536)"
    by (intro rnd_ge_double rnd_le_double; simp)+
  then show ?thesis by (cases "lit (5 / 100)") auto
qed

lemma round_near_one:
  assumes "98 / 100 \<le> r" "r \<le> 1021 / 1000"
  shows "round_to_tick (Fin r) = Fin 20 * lit (5 / 100)"
proof -
  obtain t where t: "lit (5 / 100) = Fin t" "819 / 16384 \<le> t" "t \<le> 3277 / 65536" using tick_bounds by blast
  have pos: "0 < t" using t(2) by simp
  have d: "is_double (313 / 16)" "is_double (327 / 16)" by (simp_all add: is_double_def js_eval)
  have "313 / 16 * t \<le> r" "r \<le> 327 / 16 * t" using assms t(2,3) by simp_all
  then have "313 / 16 \<le> r / t" "r / t \<le> 327 / 16" using pos by (simp_all add: field_simps)
  then have "Fin (313 / 16) \<le> rnd (r / t)" "rnd (r / t) \<le> Fin (327 / 16)" using d rnd_ge_double rnd_le_double by blast+
  then obtain q where q: "rnd (r / t) = Fin q" "313 / 16 \<le> q" "q \<le> 327 / 16" by (cases "rnd (r / t)") auto
  have "\<lfloor>q + 1 / 2\<rfloor> = 20" using q(2,3) by (simp add: floor_eq_iff)
  then have "math_round (Fin r / Fin t) = Fin 20" using pos q(1) by simp
  moreover have "math_max (Fin t) (Fin r) = Fin r" using assms(1) t(3) by (simp add: math_max_def)
  ultimately show ?thesis unfolding round_to_tick_def t(1) by simp
qed

lemma fixed_digits_nonempty: "fixed_digits d x \<noteq> []"
proof -
  have "digits_of n \<noteq> []" for n by (subst digits_of.simps) simp
  then show ?thesis by (simp add: fixed_digits_def Let_def)
qed

lemma to_fixed_nonempty: "to_fixed d n \<noteq> []"
  using fixed_digits_nonempty by (cases n) auto

lemma bracket_defaults_at_one:
  "\<exists>t. t \<noteq> [] \<and> build_default_prices (Fin 1) ''BUY'' = (t, t, t)"
proof -
  have near: "\<exists>r. lit q = Fin r \<and> a \<le> r \<and> r \<le> b" if "is_double a" "is_double b" "a \<le> q" "q \<le> b" for q a b
    using rnd_ge_double [OF that(1,3)] rnd_le_double [OF that(2,4)] by (cases "lit q") auto
  have d: "is_double (1013 / 1024)" "is_double (507 / 512)" "is_double (261 / 256)" "is_double (1045 / 1024)"
    by (simp_all add: is_double_def js_eval)
  obtain s where s: "lit (99 / 100) = Fin s" "1013 / 1024 \<le> s" "s \<le> 507 / 512" using near [OF d(1,2), of "99 / 100"] by auto
  obtain u where u: "lit (102 / 100) = Fin u" "261 / 256 \<le> u" "u \<le> 1045 / 1024" using near [OF d(3,4), of "102 / 100"] by auto
  have one: "Fin 1 * lit q = lit q" if "lit q = Fin r" for q r
    using that rnd_Fin_is_double [OF that] by (simp add: is_double_rnd)
  define t where "t = as_price_string (Fin 1)"
  have "as_price_string (lit (99 / 100)) = t" "as_price_string (lit (102 / 100)) = t"
    using s u by (simp_all add: as_price_string_def t_def round_near_one)
  then show ?thesis using one [OF s(1)] one [OF u(1)] to_fixed_nonempty [of 2 "round_to_tick (Fin 1)"]
    by (intro exI [of _ t]) (simp add: build_default_prices_def stop_factor_def profit_factor_def t_def as_price_string_def)
qed

lemma bracket_defaults_refused:
  "validate_order_form (form_to_validate (Fin 1) (change_order_type (Fin 1) ''BRACKET'' initial_entry)) \<noteq> None"
proof -
  obtain t where t: "t \<noteq> []" "build_default_prices (Fin 1) ''BUY'' = (t, t, t)" using bracket_defaults_at_one by blast
  define f where "f = form_to_validate (Fin 1) (change_order_type (Fin 1) ''BRACKET'' initial_entry)"
  have kind: "normalize_order_type (JStr ''BRACKET'') = ''BRACKET''" by code_simp
  have f: "of_side f = ''BUY''" "of_type f = ''BRACKET''" "of_price f = JStr t" "of_stop_loss f = JStr t" "of_take_profit f = JStr t"
    using t kind by (simp_all add: f_def form_to_validate_def change_order_type_def initial_entry_def order_form.truncate_def
      or_text_def Let_def)
  have "check_bracket_order f \<noteq> None" using f t(1) by (simp add: check_bracket_order_def Let_def)
  then show ?thesis unfolding f_def [symmetric] valid_order_checks by blast
qed

end
