(* ===== verification/LiveFeed.thy ===== *)
theory LiveFeed
  imports QuoteAuthorityFacts FuturesWatchlist ZeroLossStore
begin

text \<open>
  The messages of the socket and where they go, the handler \<open>onmessage\<close> and \<open>applyIncomingQuote\<close> of
  \<open>frontend/src/hooks/useWebSocket.js\<close>: a quote passes the authority before it reaches the market store,
  a quote of a contract also goes to the futures terminal and its watchlists, the other channels to their
  stores. A symbol of a message is a text. An exception ends the handler; a message that does not parse
  is \<open>None\<close>.
\<close>

section \<open>Quotes\<close>

record live_feed =
  fd_market :: market_store
  fd_authority :: authority
  fd_last_tick :: jsnum
  fd_idle :: bool

definition resolved_price :: "jsobj \<Rightarrow> jsnum" where
  "resolved_price data = to_number (first_field (JObj data) [''price'', ''lp'', ''ltp'', ''last_price''])"

text \<open>The commodity that a symbol or contract begins with, the longest name first.\<close>

definition longer_after :: "string \<Rightarrow> string \<Rightarrow> bool" where
  "longer_after a b = (length a < length b)"

definition commodity_root :: "string \<Rightarrow> string \<Rightarrow> string option" where
  "commodity_root raw contract =
     find (\<lambda>root. starts_with raw root \<or> starts_with contract root) (sort_by longer_after commodity_symbols)"

definition quote_data :: "jsobj \<Rightarrow> jsobj" where
  "quote_data data =
     (let p = resolved_price data in if is_finite p \<and> Fin 0 < p then set_field ''price'' (JNum p) data else data)"

definition live_source :: "jsobj \<Rightarrow> string" where
  "live_source data = to_string (js_or (own data ''source'') (JStr ''live''))"

text \<open>A write to both: what the authority says to it is not asked.\<close>

definition write_both :: "authority_env \<Rightarrow> string \<Rightarrow> jsobj \<Rightarrow> live_feed \<Rightarrow> live_feed" where
  "write_both env symbol data s =
     s\<lparr> fd_authority := fst (ingest env (JStr symbol) data (JStr ''live'') (fd_authority s)),
        fd_market := update_quote (env_realtime env) (env_now env) (JStr symbol) data (live_source data) (fd_market s) \<rparr>"

text \<open>\<open>session_open\<close> is the snapshot that the timer of an idle socket asks for.\<close>

definition tick_received :: "bool \<Rightarrow> bool \<Rightarrow> live_feed \<Rightarrow> live_feed" where
  "tick_received realtime session_open s = s\<lparr> fd_idle := (\<not> realtime \<and> \<not> session_open) \<rparr>"

definition apply_incoming_quote :: "authority_env \<Rightarrow> bool \<Rightarrow> string \<Rightarrow> jsobj \<Rightarrow> live_feed \<Rightarrow> live_feed" where
  "apply_incoming_quote env session_open symbol data s =
     (if symbol = [] then s
      else
        let s0 = s\<lparr> fd_last_tick := env_now env \<rparr>;
            key = (case normalize_symbol (JStr symbol) of Some n \<Rightarrow> n | None \<Rightarrow> symbol)
        in if \<not> env_realtime env \<and> \<not> is_commodity_symbol key \<and> \<not> is_derivative_symbol key then s0
           else
             let q = quote_data data;
                 root = commodity_root (trim (upper symbol)) (trim (upper (text_of (own data ''contract_symbol''))))
             in case ingest env (JStr key) q (JStr ''live'') (fd_authority s0) of
                  (au, None) \<Rightarrow> s0\<lparr> fd_authority := au \<rparr>
                | (au, Some _) \<Rightarrow>
                    let s1 = s0\<lparr> fd_authority := au,
                          fd_market := update_quote (env_realtime env) (env_now env) (JStr key) q (live_source q) (fd_market s0) \<rparr>;
                        s2 = (if key \<noteq> symbol then write_both env symbol q s1 else s1);
                        s3 = (case root of Some r \<Rightarrow> write_both env r q s2 | None \<Rightarrow> s2)
                    in tick_received (env_realtime env) session_open s3)"

section \<open>Messages\<close>

record app =
  lv_feed :: live_feed
  lv_futures :: futures_store
  lv_lists :: fut_lists
  lv_zero :: zero_loss
  lv_refresh :: bool
  lv_order_fetches :: nat

definition without_fields :: "string list \<Rightarrow> jsobj \<Rightarrow> jsobj" where
  "without_fields ks fs = filter (\<lambda>(k, v). k \<notin> set ks) fs"

definition on_feed :: "(live_feed \<Rightarrow> live_feed) \<Rightarrow> app \<Rightarrow> app" where
  "on_feed f a = a\<lparr> lv_feed := f (lv_feed a) \<rparr>"

definition quote_of_message :: "jsval \<Rightarrow> (string \<times> jsobj) option" where
  "quote_of_message m =
     (case field m ''symbol'' of
        JStr sy \<Rightarrow> if sy = [] then None else Some (sy, without_fields [''type'', ''channel''] (fields_of m))
      | _ \<Rightarrow> None)"

definition dispatch_quote :: "authority_env \<Rightarrow> bool \<Rightarrow> jsval \<Rightarrow> app \<Rightarrow> app" where
  "dispatch_quote env session_open m a =
     (case (if field m ''type'' = JStr ''quote'' then quote_of_message m else None) of
        Some (sy, q) \<Rightarrow> on_feed (apply_incoming_quote env session_open sy q) a
      | None \<Rightarrow> a)"

definition dispatch_price_update :: "authority_env \<Rightarrow> bool \<Rightarrow> jsval \<Rightarrow> app \<Rightarrow> app" where
  "dispatch_price_update env session_open m a =
     (case (if field m ''type'' = JStr ''price_update'' then quote_of_message (field m ''data'') else None) of
        Some (sy, q) \<Rightarrow> on_feed (apply_incoming_quote env session_open sy q) a
      | None \<Rightarrow> a)"

definition dispatch_zero_loss :: "authority_env \<Rightarrow> jsval \<Rightarrow> app \<Rightarrow> app" where
  "dispatch_zero_loss env m a =
     (if field m ''channel'' = JStr ''zeroloss'' then a\<lparr> lv_zero := handle_message (env_now env) m (lv_zero a) \<rparr> else a)"

definition dispatch_portfolio :: "jsval \<Rightarrow> app \<Rightarrow> app" where
  "dispatch_portfolio m a =
     (if field m ''channel'' = JStr ''orders'' \<or> field m ''channel'' = JStr ''portfolio'' \<or> field m ''type'' = JStr ''portfolio_update''
      then a\<lparr> lv_refresh := True \<rparr> else a)"

definition normalized_fut_quote :: "jsval \<Rightarrow> jsobj" where
  "normalized_fut_quote quote =
     spread (fields_of quote)
       [(''ltp'', first_field quote [''ltp'', ''price'', ''lp'']),
        (''change_pct'', first_field quote [''change_pct'', ''change_percent'', ''percent_change'']),
        (''change_percent'', first_field quote [''change_percent'', ''change_pct'', ''percent_change''])]"

definition has_open_position :: "futures_store \<Rightarrow> bool" where
  "has_open_position s = list_ex (\<lambda>p. \<not> num_eq (to_number (field p ''quantity'')) (Fin 0)) (fs_positions s)"

definition dispatch_futures :: "authority_env \<Rightarrow> bool \<Rightarrow> bool \<Rightarrow> jsval \<Rightarrow> app \<Rightarrow> app" where
  "dispatch_futures env session_open linked m a =
     (case field m ''contract_symbol'' of
        JStr sy \<Rightarrow>
          if sy = [] \<or> field m ''type'' \<noteq> JStr ''futures_quote'' then a
          else
            let q = normalized_fut_quote (js_or (field m ''data'') (JObj [])); now = env_now env;
                futures1 = update_fut_quote now (JStr sy) q (lv_futures a);
                futures2 = (if linked then set_last_heartbeat now futures1 else futures1);
                futures3 = (if has_open_position (lv_futures a) then recalculate_live_pnl now futures2 else futures2)
            in a\<lparr> lv_futures := futures3, lv_lists := update_contract_prices [(sy, JObj q)] (lv_lists a),
                  lv_feed := apply_incoming_quote env session_open sy q (lv_feed a) \<rparr>
      | _ \<Rightarrow> a)"

definition dispatch_futures_orders :: "jsval \<Rightarrow> app \<Rightarrow> app" where
  "dispatch_futures_orders m a =
     (if field m ''channel'' = JStr ''futures_orders'' \<or>
        field m ''type'' \<in> {JStr ''futures_order_placed'', JStr ''futures_order_filled'', JStr ''futures_order_cancelled''}
      then a\<lparr> lv_order_fetches := Suc (lv_order_fetches a) \<rparr> else a)"

definition on_message :: "authority_env \<Rightarrow> bool \<Rightarrow> bool \<Rightarrow> jsval option \<Rightarrow> app \<Rightarrow> app" where
  "on_message env session_open linked message a =
     (case message of
        None \<Rightarrow> a
      | Some m \<Rightarrow>
          dispatch_futures_orders m (dispatch_futures env session_open linked m (dispatch_portfolio m
            (dispatch_zero_loss env m (dispatch_price_update env session_open m (dispatch_quote env session_open m a))))))"

text \<open>The answers to a fetch of orders and positions; one that failed is \<open>None\<close>.\<close>

definition orders_answered :: "jsval option \<Rightarrow> jsval option \<Rightarrow> futures_store \<Rightarrow> futures_store" where
  "orders_answered orders positions s =
     (let s' = (case orders of Some d \<Rightarrow> set_orders (elements (nullish (field d ''orders'') (JArr []))) s | None \<Rightarrow> s)
      in case positions of Some d \<Rightarrow> set_positions (elements (nullish (field d ''positions'') (JArr []))) s' | None \<Rightarrow> s')"

section \<open>Lemmas\<close>

definition share_key :: "string \<Rightarrow> string" where
  "share_key symbol = (case normalize_symbol (JStr symbol) of Some n \<Rightarrow> n | None \<Rightarrow> symbol)"

text \<open>What the authority refuses reaches no store.\<close>

lemma refused_not_shown:
  assumes "ingest env (JStr (share_key symbol)) (quote_data data) (JStr ''live'') (fd_authority s) = (au, None)"
  shows "fd_market (apply_incoming_quote env session_open symbol data s) = fd_market s"
  unfolding apply_incoming_quote_def share_key_def [symmetric] Let_def using assms by simp

text \<open>A quote that it accepts is shown under every alias of its symbol.\<close>

lemma live_write:
  assumes "env_realtime env" "live_source q = ''live''" "tick_price q = Some p" "k \<in> set (to_symbol_aliases (JStr symbol))"
  shows "own (quote_at (ms_symbols (update_quote (env_realtime env) now (JStr symbol) q (live_source q) m)) k) ''price'' = JNum p"
  unfolding assms(2) using live_tick_seen [OF assms(4,3)] assms(1) by simp

lemma write_both_shows:
  assumes "env_realtime env" "live_source q = ''live''" "tick_price q = Some p" "k \<in> set (to_symbol_aliases (JStr symbol))"
  shows "own (quote_at (ms_symbols (fd_market (write_both env symbol q s))) k) ''price'' = JNum p"
  using live_write [OF assms] by (simp add: write_both_def)

text \<open>A later write of the same quote keeps its price where it is.\<close>

lemma live_write_keeps:
  assumes "env_realtime env" "live_source q = ''live''" "tick_price q = Some p"
    and "own (quote_at (ms_symbols m) k) ''price'' = JNum p"
  shows "own (quote_at (ms_symbols (update_quote (env_realtime env) now (JStr symbol) q (live_source q) m)) k) ''price'' = JNum p"
proof (cases "k \<in> set (to_symbol_aliases (JStr symbol))")
  case True
  then show ?thesis using live_write [OF assms(1-3)] by blast
next
  case False
  then have "map_of (fst (fold (update_alias r now c x src q) (to_symbol_aliases (JStr symbol)) (ms_symbols m, False))) k =
      map_of (ms_symbols m) k" for r c x src
    using quote_writes.puts_frame [of k _ r now c x src q "(ms_symbols m, False)"] by simp
  then have "quote_at (ms_symbols (update_quote r now (JStr symbol) q src m)) k = quote_at (ms_symbols m) k" for r src
    by (simp add: update_quote_def Let_def finish_symbols quote_at_def)
  then show ?thesis using assms(4) by simp
qed

lemma write_both_keeps:
  assumes "env_realtime env" "live_source q = ''live''" "tick_price q = Some p"
    and "own (quote_at (ms_symbols (fd_market s)) k) ''price'' = JNum p"
  shows "own (quote_at (ms_symbols (fd_market (write_both env symbol q s))) k) ''price'' = JNum p"
  using live_write_keeps [OF assms] by (simp add: write_both_def)

text \<open>The state after the first write, the second under the symbol as it came, and the result.\<close>

definition first_write :: "authority_env \<Rightarrow> string \<Rightarrow> jsobj \<Rightarrow> authority \<Rightarrow> live_feed \<Rightarrow> live_feed" where
  "first_write env key q au s =
     s\<lparr> fd_last_tick := env_now env, fd_authority := au,
        fd_market := update_quote (env_realtime env) (env_now env) (JStr key) q (live_source q) (fd_market s) \<rparr>"

definition second_write :: "authority_env \<Rightarrow> string \<Rightarrow> jsobj \<Rightarrow> authority \<Rightarrow> live_feed \<Rightarrow> live_feed" where
  "second_write env symbol q au s =
     (let s1 = first_write env (share_key symbol) q au s in if share_key symbol \<noteq> symbol then write_both env symbol q s1 else s1)"

definition root_of :: "string \<Rightarrow> jsobj \<Rightarrow> string option" where
  "root_of symbol data = commodity_root (trim (upper symbol)) (trim (upper (text_of (own data ''contract_symbol''))))"

lemma accepted_result:
  assumes "env_realtime env" "symbol \<noteq> []"
    and "ingest env (JStr (share_key symbol)) (quote_data data) (JStr ''live'') (fd_authority s) = (au, Some q)"
  shows "apply_incoming_quote env session_open symbol data s =
    tick_received (env_realtime env) session_open
      (case root_of symbol data of
         Some r \<Rightarrow> write_both env r (quote_data data) (second_write env symbol (quote_data data) au s)
       | None \<Rightarrow> second_write env symbol (quote_data data) au s)"
  unfolding apply_incoming_quote_def share_key_def [symmetric] root_of_def [symmetric] second_write_def first_write_def Let_def
  using assms by (cases "root_of symbol data") simp_all

lemma tick_received_market [simp]: "fd_market (tick_received r b s) = fd_market s"
  by (simp add: tick_received_def)

lemma accepted_shown:
  assumes rt: "env_realtime env" and src: "live_source (quote_data data) = ''live''"
    and price: "tick_price (quote_data data) = Some p" and sy: "symbol \<noteq> []"
    and acc: "ingest env (JStr (share_key symbol)) (quote_data data) (JStr ''live'') (fd_authority s) = (au, Some q)"
    and k: "k \<in> set (to_symbol_aliases (JStr (share_key symbol))) \<or> k \<in> set (to_symbol_aliases (JStr symbol))"
  shows "own (quote_at (ms_symbols (fd_market (apply_incoming_quote env session_open symbol data s))) k) ''price'' = JNum p"
proof -
  let ?P = "\<lambda>s. own (quote_at (ms_symbols (fd_market s)) k) ''price'' = JNum p"
  note hit = write_both_shows [OF rt src price] and stays = write_both_keeps [OF rt src price]
  have first: "?P (first_write env (share_key symbol) (quote_data data) au s)"
    if "k \<in> set (to_symbol_aliases (JStr (share_key symbol)))"
    using live_write [OF rt src price that] by (simp add: first_write_def)
  have "?P (second_write env symbol (quote_data data) au s)"
  proof (cases "share_key symbol = symbol")
    case True
    then show ?thesis using first k by (simp add: second_write_def)
  next
    case False
    then show ?thesis using first k hit stays by (auto simp: second_write_def Let_def)
  qed
  then show ?thesis unfolding accepted_result [OF rt sy acc] using stays by (simp split: option.split)
qed

text \<open>
  A share whose name begins with the name of a commodity is taken for it: the quote of the fund
  \<open>GOLDBEES\<close> becomes the price of gold.
\<close>

lemma root_overwritten:
  assumes rt: "env_realtime env" and src: "live_source (quote_data data) = ''live''"
    and price: "tick_price (quote_data data) = Some p" and sy: "symbol \<noteq> []"
    and acc: "ingest env (JStr (share_key symbol)) (quote_data data) (JStr ''live'') (fd_authority s) = (au, Some q)"
    and root: "root_of symbol data = Some r" and k: "k \<in> set (to_symbol_aliases (JStr r))"
  shows "own (quote_at (ms_symbols (fd_market (apply_incoming_quote env session_open symbol data s))) k) ''price'' = JNum p"
  unfolding accepted_result [OF rt sy acc] using write_both_shows [OF rt src price k] root by simp

lemma fund_is_gold: "commodity_root ''GOLDBEES.NS'' [] = Some ''GOLD''"
  by code_simp

text \<open>
  A quote that names its source is not protected as a live one: a poll that follows at once replaces it.
\<close>

lemma named_source_unprotected:
  assumes "own (quote_at (ms_symbols m) k) ''_source'' = JStr src" "src \<noteq> ''live''"
  shows "\<not> live_protected realtime now source (quote_at (ms_symbols m) k)"
  using assms by (simp add: live_protected_def)

text \<open>Each channel has its own stores.\<close>

lemma zero_loss_channel:
  assumes "field m ''channel'' = JStr ''zeroloss''" "field m ''type'' = JStr ''algo_trade''"
  shows "on_message env session_open linked (Some m) a = a\<lparr> lv_zero := handle_message (env_now env) m (lv_zero a) \<rparr>"
  using assms
  by (simp add: on_message_def dispatch_quote_def dispatch_price_update_def dispatch_zero_loss_def dispatch_portfolio_def
      dispatch_futures_def dispatch_futures_orders_def split: jsval.split)

lemma share_quote_channel:
  assumes "field m ''type'' = JStr ''quote''" "field m ''channel'' = Undefined" "field m ''symbol'' = JStr sy" "sy \<noteq> []"
  shows "on_message env session_open linked (Some m) a =
    on_feed (apply_incoming_quote env session_open sy (without_fields [''type'', ''channel''] (fields_of m))) a"
  using assms
  by (simp add: on_message_def dispatch_quote_def quote_of_message_def dispatch_price_update_def dispatch_zero_loss_def
      dispatch_portfolio_def dispatch_futures_def dispatch_futures_orders_def split: jsval.split)

lemma malformed_ignored: "on_message env session_open linked None a = a"
  by (simp add: on_message_def)

text \<open>The quotes of the authority stay filed under their own symbols through every message.\<close>

lemma filed_write: "filed_ok (fd_authority s) \<Longrightarrow> filed_ok (fd_authority (write_both env symbol q s))"
  by (simp add: write_both_def filed_ingest)

lemma filed_apply: "filed_ok (fd_authority s) \<Longrightarrow> filed_ok (fd_authority (apply_incoming_quote env session_open symbol data s))"
proof -
  assume ok: "filed_ok (fd_authority s)"
  obtain au res where i: "ingest env (JStr (share_key symbol)) (quote_data data) (JStr ''live'') (fd_authority s) = (au, res)"
    by fastforce
  then have au: "filed_ok au"
    using filed_ingest [OF ok, of env "JStr (share_key symbol)" "quote_data data" "JStr ''live''"] by simp
  then show ?thesis
    unfolding apply_incoming_quote_def share_key_def [symmetric] Let_def tick_received_def
    using ok i by (cases res) (simp_all add: filed_write split: option.split)
qed

lemma filed_message:
  "filed_ok (fd_authority (lv_feed a)) \<Longrightarrow> filed_ok (fd_authority (lv_feed (on_message env session_open linked m a)))"
proof (cases m)
  case (Some v)
  assume ok: "filed_ok (fd_authority (lv_feed a))"
  have quote: "filed_ok (fd_authority (lv_feed (dispatch_quote env session_open v a)))"
      "filed_ok (fd_authority (lv_feed (dispatch_price_update env session_open v a)))"
      "filed_ok (fd_authority (lv_feed (dispatch_futures env session_open linked v a)))"
      if "filed_ok (fd_authority (lv_feed a))" for a
    using that by (auto simp: dispatch_quote_def dispatch_price_update_def dispatch_futures_def on_feed_def filed_apply Let_def
        split: option.split jsval.split)
  have other: "lv_feed (dispatch_zero_loss env v a) = lv_feed a" "lv_feed (dispatch_portfolio v a) = lv_feed a"
      "lv_feed (dispatch_futures_orders v a) = lv_feed a" for a
    by (simp_all add: dispatch_zero_loss_def dispatch_portfolio_def dispatch_futures_orders_def)
  show ?thesis unfolding Some on_message_def option.case other
    by (rule quote(3)) (simp only: other quote(1,2) ok)
qed (simp add: on_message_def)

end
