(* ===== verification/FuturesAnalytics.thy ===== *)
theory FuturesAnalytics
  imports FuturesStore SessionState
begin

text \<open>
  The analytics beside the futures chart, \<open>frontend/src/futures-intelligence\<close>: the figures read
  from one quote (\<open>utils/futuresCalculations.js\<close>), the engines of premium, open interest, volume
  and trend (\<open>services\<close>), the snapshot they make up (\<open>services/FuturesAnalyticsResolver.js\<close>), its
  formats (\<open>utils/futuresFormatting.js\<close>), and the hook that fetches the spot price and merges the
  live quote into it (\<open>hooks/useFuturesAnalytics.js\<close>). \<open>None\<close> is \<open>null\<close> where the code returns a
  number or \<open>null\<close>; \<open>new Date(v).getTime()\<close> is the parameter \<open>date_ms\<close> and the locale format of a
  price the parameter \<open>locale_num\<close>. A dash is \<open>-\<close> and the rupee sign \<open>Rs\<close>.
\<close>

section \<open>Figures of a quote\<close>

definition finite_field :: "jsval \<Rightarrow> string list \<Rightarrow> jsnum option" where
  "finite_field q ks = to_finite_number (first_field q ks)"

definition live_ltp :: "jsval \<Rightarrow> jsnum option" where
  "live_ltp q = (let n = to_number (first_field q [''ltp'', ''price'', ''lp'']) in
     if is_finite n \<and> Fin 0 < n then Some n else None)"

text \<open>A closing price that a change can be measured against.\<close>

definition reference_close :: "jsval \<Rightarrow> jsnum option" where
  "reference_close q = (let c = to_number (first_field q [''close'', ''prev_close'', ''c'']) in
     if is_finite c \<and> Fin 0 < c then Some c else None)"

definition quote_change :: "jsval \<Rightarrow> jsnum option" where
  "quote_change q =
     (case finite_field q [''change'', ''net_change''] of
        Some v \<Rightarrow> Some v
      | None \<Rightarrow>
          (case (live_ltp q, reference_close q) of
             (Some ltp, Some close) \<Rightarrow> Some (fixed_num 2 (ltp - close))
           | _ \<Rightarrow> None))"

definition quote_change_pct :: "jsval \<Rightarrow> jsnum option" where
  "quote_change_pct q =
     (case finite_field q [''change_pct'', ''change_percent'', ''pc''] of
        Some v \<Rightarrow> Some v
      | None \<Rightarrow>
          (case (quote_change q, reference_close q) of
             (Some ch, Some close) \<Rightarrow> Some (fixed_num 2 ((ch / close) * Fin 100))
           | _ \<Rightarrow> None))"

definition nonneg_field :: "jsval \<Rightarrow> string list \<Rightarrow> jsnum option" where
  "nonneg_field q ks = (let n = to_number (first_field q ks) in if is_finite n \<and> Fin 0 \<le> n then Some n else None)"

definition quote_oi :: "jsval \<Rightarrow> jsnum option" where
  "quote_oi q = nonneg_field q [''oi'']"

definition quote_volume :: "jsval \<Rightarrow> jsnum option" where
  "quote_volume q = nonneg_field q [''volume'', ''v'']"

definition quote_oi_change :: "jsval \<Rightarrow> jsnum option" where
  "quote_oi_change q = finite_field q [''oi_change'']"

definition calc_premium :: "jsnum option \<Rightarrow> jsnum option \<Rightarrow> jsnum option" where
  "calc_premium future spot =
     (case (future, spot) of (Some f, Some s) \<Rightarrow> Some (fixed_num 2 (f - s)) | _ \<Rightarrow> None)"

definition expiry_after :: "(jsval \<Rightarrow> jsnum) \<Rightarrow> jsval \<Rightarrow> jsval \<Rightarrow> bool" where
  "expiry_after date_ms a b =
     (Fin 0 < date_ms (js_or (field a ''expiry_date'') (JNum (Fin 0))) - date_ms (js_or (field b ''expiry_date'') (JNum (Fin 0))))"

definition sort_contracts_by_expiry :: "(jsval \<Rightarrow> jsnum) \<Rightarrow> jsval list \<Rightarrow> jsval list" where
  "sort_contracts_by_expiry date_ms cs = sort_by (expiry_after date_ms) cs"

section \<open>The engines\<close>

definition compute_premium :: "jsnum option \<Rightarrow> jsnum option \<Rightarrow> jsnum option" where
  "compute_premium future spot = calc_premium future spot"

definition compute_basis :: "jsnum option \<Rightarrow> jsnum option \<Rightarrow> jsnum option" where
  "compute_basis future spot = calc_premium future spot"

record basis_figures =
  bf_premium :: "jsnum option"
  bf_basis :: "jsnum option"
  bf_future :: "jsnum option"
  bf_spot :: "jsnum option"

definition valid_spot :: "jsval \<Rightarrow> jsnum option" where
  "valid_spot spot =
     (let v = field spot ''ltp''; n = to_number v in
      if \<not> is_nullish v \<and> is_finite n \<and> Fin 0 < n then Some n else None)"

definition resolve_basis :: "jsval \<Rightarrow> jsval \<Rightarrow> basis_figures" where
  "resolve_basis cq spot =
     (let f = live_ltp cq; s = valid_spot spot in
      \<lparr> bf_premium = compute_premium f s, bf_basis = compute_basis f s, bf_future = f, bf_spot = s \<rparr>)"

definition quote_of :: "quote_map \<Rightarrow> string \<Rightarrow> jsval" where
  "quote_of quotes sy = (case map_of quotes sy of Some q \<Rightarrow> JObj q | None \<Rightarrow> Undefined)"

text \<open>The loop of both aggregates: the running total and whether any contract had a figure.\<close>

definition add_figure :: "(jsval \<Rightarrow> jsnum option) \<Rightarrow> quote_map \<Rightarrow> jsval \<Rightarrow> jsnum \<times> bool \<Rightarrow> jsnum \<times> bool" where
  "add_figure figure quotes sy st =
     (case figure (quote_of quotes (to_string sy)) of Some n \<Rightarrow> (fst st + n, True) | None \<Rightarrow> st)"

definition aggregate :: "(jsval \<Rightarrow> jsnum option) \<Rightarrow> quote_map \<Rightarrow> jsval list \<Rightarrow> jsnum option" where
  "aggregate figure quotes symbols =
     (let st = fold (add_figure figure quotes) symbols (Fin 0, False) in if snd st then Some (fst st) else None)"

definition aggregate_oi :: "quote_map \<Rightarrow> jsval list \<Rightarrow> jsnum option" where
  "aggregate_oi = aggregate quote_oi"

definition aggregate_volume :: "quote_map \<Rightarrow> jsval list \<Rightarrow> jsnum option" where
  "aggregate_volume = aggregate quote_volume"

datatype trend = NeutralTrend | LongBuildUp | ShortBuildUp | ShortCovering | LongUnwinding

definition classify_trend :: "jsval \<Rightarrow> trend" where
  "classify_trend q =
     (case (quote_change q, quote_oi_change q) of
        (Some p, Some o') \<Rightarrow>
          (let price_up = Fin 0 < p; price_down = p < Fin 0; oi_up = Fin 0 < o'; oi_down = o' < Fin 0 in
           if price_up \<and> oi_up then LongBuildUp
           else if price_down \<and> oi_up then ShortBuildUp
           else if price_up \<and> oi_down then ShortCovering
           else if price_down \<and> oi_down then LongUnwinding
           else NeutralTrend)
      | _ \<Rightarrow> NeutralTrend)"

section \<open>The analytics snapshot\<close>

definition futures_session_label :: "jsobj \<Rightarrow> string" where
  "futures_session_label snap =
     (if truthy (own snap ''isOpen'') then ''LIVE''
      else if own snap ''state'' = JStr ''preopen'' \<or> own snap ''state'' = JStr ''pre_open'' then ''PRE-OPEN''
      else ''CLOSED'')"

record expiry_row =
  er_symbol :: jsval
  er_label :: jsval
  er_expiry :: jsval
  er_days :: jsval
  er_ltp :: "jsnum option"
  er_change_pct :: "jsnum option"
  er_premium :: "jsnum option"
  er_basis :: "jsnum option"
  er_oi :: "jsnum option"
  er_volume :: "jsnum option"
  er_oi_change :: "jsnum option"
  er_tier :: jsval
  er_illiquid :: jsval
  er_spot :: "jsnum option"

definition shown_number :: "jsval \<Rightarrow> string \<Rightarrow> jsnum option" where
  "shown_number q k = (if is_nullish (field q k) then None else Some (to_number (field q k)))"

definition build_expiry_row :: "jsval \<Rightarrow> jsval \<Rightarrow> jsval \<Rightarrow> expiry_row" where
  "build_expiry_row contract q spot =
     (let b = resolve_basis q spot in
      \<lparr> er_symbol = contract_name contract, er_label = js_or (field contract ''expiry_label'') (JStr ''-''),
        er_expiry = field contract ''expiry_date'', er_days = field contract ''days_to_expiry'', er_ltp = bf_future b,
        er_change_pct = quote_change_pct q, er_premium = bf_premium b, er_basis = bf_basis b, er_oi = shown_number q ''oi'',
        er_volume = shown_number q ''volume'', er_oi_change = shown_number q ''oi_change'', er_tier = field q ''_tier'',
        er_illiquid = field q ''_illiquid'', er_spot = bf_spot b \<rparr>)"

record spot_figures =
  sp_ltp :: jsnum
  sp_change :: "jsnum option"
  sp_change_pct :: "jsnum option"

record atm_figures =
  af_symbol :: jsval
  af_ltp :: jsnum
  af_change_pct :: "jsnum option"

record futures_analytics =
  fa_underlying :: "string option"
  fa_session :: string
  fa_spot :: "spot_figures option"
  fa_atm :: "atm_figures option"
  fa_premium :: "jsnum option"
  fa_basis :: "jsnum option"
  fa_total_oi :: "jsnum option"
  fa_total_volume :: "jsnum option"
  fa_trend :: trend
  fa_rows :: "expiry_row list"

text \<open>\<open>Number(v) || null\<close>.\<close>

definition nonzero_number :: "jsval \<Rightarrow> jsnum option" where
  "nonzero_number v = (let n = to_number v in if n = NaN \<or> n = Fin 0 then None else Some n)"

definition spot_of :: "jsval \<Rightarrow> spot_figures option" where
  "spot_of spot =
     (if field spot ''available'' \<noteq> JBool False \<and> is_finite (to_number (field spot ''ltp''))
      then Some \<lparr> sp_ltp = to_number (field spot ''ltp''), sp_change = nonzero_number (field spot ''change''),
             sp_change_pct = nonzero_number (field spot ''change_pct'') \<rparr>
      else None)"

definition no_analytics :: "jsobj \<Rightarrow> futures_analytics" where
  "no_analytics snap =
     \<lparr> fa_underlying = None, fa_session = futures_session_label snap, fa_spot = None, fa_atm = None, fa_premium = None,
       fa_basis = None, fa_total_oi = None, fa_total_volume = None, fa_trend = NeutralTrend, fa_rows = [] \<rparr>"

definition symbols_of :: "(string \<times> jsval list) list \<Rightarrow> string \<Rightarrow> jsval list" where
  "symbols_of by_underlying u = (case map_of by_underlying u of Some ss \<Rightarrow> ss | None \<Rightarrow> [])"

definition listed_contracts :: "(jsval \<Rightarrow> jsnum) \<Rightarrow> jsobj \<Rightarrow> jsval list \<Rightarrow> jsval list" where
  "listed_contracts date_ms by_symbol symbols =
     sort_contracts_by_expiry date_ms (filter truthy (map (\<lambda>s. own by_symbol (to_string s)) symbols))"

definition atm_contract :: "string option \<Rightarrow> jsval list \<Rightarrow> jsval" where
  "atm_contract selected contracts =
     (case selected of
        Some s \<Rightarrow> if s \<noteq> [] then JStr s else (case contracts of c # _ \<Rightarrow> contract_name c | [] \<Rightarrow> Undefined)
      | None \<Rightarrow> (case contracts of c # _ \<Rightarrow> contract_name c | [] \<Rightarrow> Undefined))"

definition resolve_futures_analytics ::
  "(jsval \<Rightarrow> jsnum) \<Rightarrow> jsobj \<Rightarrow> string option \<Rightarrow> string option \<Rightarrow> jsobj \<Rightarrow> (string \<times> jsval list) list \<Rightarrow> quote_map \<Rightarrow> jsval
    \<Rightarrow> futures_analytics" where
  "resolve_futures_analytics date_ms snap underlying selected by_symbol by_underlying quotes spot =
     (case underlying of
        None \<Rightarrow> no_analytics snap
      | Some u \<Rightarrow>
          if u = [] then no_analytics snap
          else
            (let symbols = symbols_of by_underlying u;
                 contracts = listed_contracts date_ms by_symbol symbols;
                 atm = atm_contract selected contracts;
                 atm_quote = (if truthy atm then quote_of quotes (to_string atm) else JNull);
                 b = resolve_basis atm_quote spot
             in \<lparr> fa_underlying = Some u, fa_session = futures_session_label snap, fa_spot = spot_of spot,
                  fa_atm = (case bf_future b of
                      Some f \<Rightarrow> Some \<lparr> af_symbol = atm, af_ltp = f, af_change_pct = quote_change_pct atm_quote \<rparr> | None \<Rightarrow> None),
                  fa_premium = bf_premium b, fa_basis = bf_basis b, fa_total_oi = aggregate_oi quotes symbols,
                  fa_total_volume = aggregate_volume quotes symbols,
                  fa_trend = (if truthy atm_quote then classify_trend atm_quote else NeutralTrend),
                  fa_rows = map (\<lambda>c. build_expiry_row c (quote_of quotes (to_string (contract_name c))) spot) contracts \<rparr>))"

section \<open>Formats\<close>

definition format_compact_number :: "jsval \<Rightarrow> string" where
  "format_compact_number v =
     (let n = to_number v; a = \<bar>n\<bar> in
      if \<not> is_finite n then ''-''
      else if Fin 1000000 \<le> a then to_fixed 1 (n / Fin 1000000) @ ''M''
      else if Fin 1000 \<le> a then to_fixed 1 (n / Fin 1000) @ ''K''
      else number_to_string (math_round n))"

definition format_price_inr :: "(nat \<Rightarrow> jsnum \<Rightarrow> string) \<Rightarrow> jsval \<Rightarrow> nat \<Rightarrow> string" where
  "format_price_inr locale_num v decimals =
     (let n = to_number v in if \<not> is_finite n then ''-'' else ''Rs'' @ locale_num decimals n)"

definition format_signed_premium :: "jsval \<Rightarrow> nat \<Rightarrow> string" where
  "format_signed_premium v decimals =
     (let n = to_number v in
      if \<not> is_finite n then ''-'' else (if Fin 0 < n then ''+'' else []) @ to_fixed decimals n)"

definition premium_color_class :: "jsval \<Rightarrow> string" where
  "premium_color_class v =
     (let n = to_number v in
      if \<not> is_finite n \<or> \<bar>n\<bar> < lit (5 / 1000) then ''text-gray-400'' else if Fin 0 < n then ''text-bull'' else ''text-bear'')"

fun trend_color_class :: "trend \<Rightarrow> string" where
  "trend_color_class LongBuildUp = ''text-bull bg-bull/10 border-bull/20''"
| "trend_color_class ShortBuildUp = ''text-bear bg-bear/10 border-bear/20''"
| "trend_color_class ShortCovering = ''text-blue-400 bg-blue-500/10 border-blue-500/20''"
| "trend_color_class LongUnwinding = ''text-amber-400 bg-amber-500/10 border-amber-500/20''"
| "trend_color_class NeutralTrend = ''text-gray-400 bg-gray-500/10 border-gray-500/20''"

text \<open>The badge of premium and basis, and what a row of the expiry ladder marks.\<close>

definition basis_badge :: "jsnum option \<Rightarrow> string \<times> string" where
  "basis_badge value =
     (case value of None \<Rightarrow> (''text-gray-500'', ''-'')
      | Some n \<Rightarrow> (premium_color_class (JNum n), format_signed_premium (JNum n) 2))"

definition row_is_positive :: "expiry_row \<Rightarrow> bool" where
  "row_is_positive r = (Fin 0 \<le> (case er_change_pct r of Some c \<Rightarrow> c | None \<Rightarrow> Fin 0))"

definition row_is_cold :: "expiry_row \<Rightarrow> bool" where
  "row_is_cold r = (er_tier r \<in> {JStr ''cold'', JStr ''cold-near'', JStr ''cold-far''})"

definition row_delay_text :: "expiry_row \<Rightarrow> string option" where
  "row_delay_text r = (if row_is_cold r then Some (if truthy (er_illiquid r) then ''illiquid'' else ''delayed'') else None)"

definition row_change_text :: "expiry_row \<Rightarrow> string option" where
  "row_change_text r =
     (case er_change_pct r of
        None \<Rightarrow> None
      | Some c \<Rightarrow> Some ((if row_is_positive r then ''+'' else []) @ to_fixed 2 c @ ''%''))"

section \<open>The live quote merged into the fetched spot price\<close>

definition live_quote_of :: "quote_map \<Rightarrow> string \<Rightarrow> jsval" where
  "live_quote_of live u =
     (let k = upper u in
      case map_of live k of Some q \<Rightarrow> JObj q
      | None \<Rightarrow> (case map_of live (k @ ''.NS'') of Some q \<Rightarrow> JObj q | None \<Rightarrow> JNull))"

definition spot_stamp :: "jsval \<Rightarrow> jsnum" where
  "spot_stamp q = to_number (nullish (first_field q [''_updatedAt'', ''timestamp'']) (JNum (Fin 0)))"

definition live_spot_fields :: "jsnum \<Rightarrow> jsval \<Rightarrow> jsval \<Rightarrow> jsobj" where
  "live_spot_fields price q spot =
     [(''ltp'', JNum price), (''lp'', JNum price), (''price'', JNum price),
      (''change'', nullish (field q ''change'') (nullish (field spot ''change'') JNull)),
      (''change_pct'', nullish (first_field q [''change_percent'', ''change_pct'']) (nullish (field spot ''change_pct'') JNull)),
      (''change_percent'', nullish (field q ''change_percent'') (nullish (field spot ''change_percent'') JNull)),
      (''prev_close'', nullish (field q ''prev_close'') (nullish (field spot ''prev_close'') JNull))]"

definition merge_spot_quote :: "jsval \<Rightarrow> string option \<Rightarrow> quote_map \<Rightarrow> jsval" where
  "merge_spot_quote spot selected live =
     (case selected of
        None \<Rightarrow> spot
      | Some u \<Rightarrow>
          if \<not> truthy spot \<or> u = [] \<or> \<not> should_use_realtime_prices then spot
          else
            (let q = live_quote_of live u;
                 price = to_number (first_field q [''price'', ''ltp'', ''lp'']);
                 live_ts = spot_stamp q; rest_ts = spot_stamp spot
             in if q = JNull \<or> \<not> is_finite price \<or> price \<le> Fin 0 then spot
                else if Fin 0 < live_ts \<and> Fin 0 < rest_ts \<and> live_ts \<le> rest_ts then spot
                else JObj (spread (fields_of spot) (live_spot_fields price q spot))))"

section \<open>The spot request\<close>

text \<open>
  Each run of the effect has a number; \<open>sf_inflight\<close> holds the run that started the request under
  way, with its underlying. The clean-up of a run sets its \<open>cancelled\<close> flag, that is a request
  counts as cancelled when its run is no longer the current one.
\<close>

record spot_fetch =
  sf_underlying :: "string option"
  sf_epoch :: nat
  sf_quote :: jsval
  sf_loading :: bool
  sf_inflight :: "(nat \<times> string) option"
  sf_loaded_for :: "string option"

definition initial_spot_fetch :: spot_fetch where
  "initial_spot_fetch = \<lparr> sf_underlying = None, sf_epoch = 0, sf_quote = JNull, sf_loading = False, sf_inflight = None,
     sf_loaded_for = None \<rparr>"

text \<open>\<open>fetchSpot\<close>, called by the timer too; a request under way is awaited, not repeated.\<close>

definition fetch_spot :: "spot_fetch \<Rightarrow> spot_fetch" where
  "fetch_spot s =
     (case (sf_underlying s, sf_inflight s) of
        (Some u, None) \<Rightarrow> if u = [] then s else s\<lparr> sf_inflight := Some (sf_epoch s, u) \<rparr>
      | _ \<Rightarrow> s)"

text \<open>The effect for a new underlying or a new session key: clean-up, then the new run.\<close>

definition run_spot_effect :: "string option \<Rightarrow> spot_fetch \<Rightarrow> spot_fetch" where
  "run_spot_effect underlying s =
     (let s1 = s\<lparr> sf_epoch := Suc (sf_epoch s), sf_underlying := underlying \<rparr> in
      case underlying of
        None \<Rightarrow> s1\<lparr> sf_quote := JNull, sf_loaded_for := None \<rparr>
      | Some u \<Rightarrow>
          if u = [] then s1\<lparr> sf_quote := JNull, sf_loaded_for := None \<rparr>
          else fetch_spot (if sf_loaded_for s1 \<noteq> Some u then s1\<lparr> sf_loading := True \<rparr> else s1))"

text \<open>The end of the request: its answer (\<open>None\<close> where it failed), then \<open>finally\<close>.\<close>

definition settle_spot :: "jsval option \<Rightarrow> spot_fetch \<Rightarrow> spot_fetch" where
  "settle_spot answer s =
     (case sf_inflight s of
        None \<Rightarrow> s
      | Some (e, u) \<Rightarrow>
          if e \<noteq> sf_epoch s then s\<lparr> sf_inflight := None \<rparr>
          else
            (case answer of
               Some d \<Rightarrow> s\<lparr> sf_quote := nullish d JNull, sf_loaded_for := Some u, sf_loading := False, sf_inflight := None \<rparr>
             | None \<Rightarrow> s\<lparr> sf_quote := JNull, sf_loading := False, sf_inflight := None \<rparr>))"

datatype spot_event = SelectUnderlying "string option" | SessionChanged | PollSpot | SpotAnswered jsval | SpotFailed

fun spot_step :: "spot_event \<Rightarrow> spot_fetch \<Rightarrow> spot_fetch" where
  "spot_step (SelectUnderlying u) s = (if u = sf_underlying s then s else run_spot_effect u s)"
| "spot_step SessionChanged s = run_spot_effect (sf_underlying s) s"
| "spot_step PollSpot s = fetch_spot s"
| "spot_step (SpotAnswered d) s = settle_spot (Some d) s"
| "spot_step SpotFailed s = settle_spot None s"

section \<open>Lemmas on the figures\<close>

lemma finite_fieldD: "finite_field q ks = Some n \<Longrightarrow> is_finite n"
  by (auto simp: finite_field_def to_finite_number_def Let_def split: if_splits)

lemma live_ltpD: "live_ltp q = Some n \<Longrightarrow> is_finite n \<and> Fin 0 < n"
  by (auto simp: live_ltp_def Let_def split: if_splits)

lemma valid_spotD: "valid_spot q = Some n \<Longrightarrow> is_finite n \<and> Fin 0 < n"
  by (auto simp: valid_spot_def Let_def split: if_splits)

text \<open>The trend names exactly the signs of the two changes.\<close>

lemma trend_signs:
  assumes "quote_change q = Some p" "quote_oi_change q = Some o'"
  shows "classify_trend q = LongBuildUp \<longleftrightarrow> Fin 0 < p \<and> Fin 0 < o'"
    and "classify_trend q = ShortBuildUp \<longleftrightarrow> p < Fin 0 \<and> Fin 0 < o'"
    and "classify_trend q = ShortCovering \<longleftrightarrow> Fin 0 < p \<and> o' < Fin 0"
    and "classify_trend q = LongUnwinding \<longleftrightarrow> p < Fin 0 \<and> o' < Fin 0"
proof -
  have n: "\<not> (x < Fin 0 \<and> Fin 0 < x)" for x :: jsnum by (cases x) auto
  show "classify_trend q = LongBuildUp \<longleftrightarrow> Fin 0 < p \<and> Fin 0 < o'"
    "classify_trend q = ShortBuildUp \<longleftrightarrow> p < Fin 0 \<and> Fin 0 < o'"
    "classify_trend q = ShortCovering \<longleftrightarrow> Fin 0 < p \<and> o' < Fin 0"
    "classify_trend q = LongUnwinding \<longleftrightarrow> p < Fin 0 \<and> o' < Fin 0"
    using n [of p] n [of o'] assms by (auto simp: classify_trend_def Let_def)
qed

lemma trend_needs_both: "quote_change q = None \<or> quote_oi_change q = None \<Longrightarrow> classify_trend q = NeutralTrend"
  by (auto simp: classify_trend_def split: option.splits)

text \<open>Premium and basis are the same figure, there exactly where both prices are positive.\<close>

lemma premium_is_basis: "bf_premium (resolve_basis q spot) = bf_basis (resolve_basis q spot)"
  by (simp add: resolve_basis_def compute_premium_def compute_basis_def Let_def)

lemma premium_iff: "bf_premium (resolve_basis q spot) = Some x \<longleftrightarrow>
    (\<exists>f s. live_ltp q = Some f \<and> valid_spot spot = Some s \<and> x = fixed_num 2 (f - s))"
  by (auto simp: resolve_basis_def compute_premium_def calc_premium_def Let_def split: option.splits)

section \<open>Lemmas on the totals\<close>

text \<open>On whole figures a total is their exact sum, and \<open>None\<close> exactly where no contract has one.\<close>

definition figures :: "(jsval \<Rightarrow> jsnum option) \<Rightarrow> quote_map \<Rightarrow> jsval list \<Rightarrow> jsnum list" where
  "figures figure quotes symbols = List.map_filter (\<lambda>sy. figure (quote_of quotes (to_string sy))) symbols"

lemma aggregate_fold:
  "fold (add_figure figure quotes) symbols (t, b) =
     (foldl (+) t (figures figure quotes symbols), b \<or> figures figure quotes symbols \<noteq> [])"
  by (induction symbols arbitrary: t b) (auto simp: add_figure_def figures_def List.map_filter_simps split: option.split)

lemma aggregate_is_sum:
  "aggregate figure quotes symbols =
     (if figures figure quotes symbols = [] then None else Some (foldl (+) (Fin 0) (figures figure quotes symbols)))"
  by (simp add: aggregate_def aggregate_fold)

lemma foldl_plus_int:
  assumes "\<bar>t\<bar> + sum_list (map abs ns) \<le> 2 ^ 53"
  shows "foldl (+) (Fin (of_int t)) (map (\<lambda>n. Fin (of_int n)) ns) = Fin (of_int (t + sum_list ns))"
  using assms
proof (induction ns arbitrary: t)
  case (Cons n ns)
  have nonneg: "0 \<le> sum_list (map abs ns)" by (rule sum_list_nonneg) auto
  with Cons.prems have b: "\<bar>t + n\<bar> \<le> 2 ^ 53" by simp
  have "\<bar>t + n\<bar> + sum_list (map abs ns) \<le> 2 ^ 53" using Cons.prems by simp
  from Cons.IH [OF this] show ?case unfolding list.map foldl_Cons plus_int [OF b] by (simp add: add.assoc)
qed simp

lemma aggregate_exact:
  assumes "figures figure quotes symbols = map (\<lambda>n. Fin (of_int n)) ns" "ns \<noteq> []" "sum_list (map abs ns) \<le> 2 ^ 53"
  shows "aggregate figure quotes symbols = Some (Fin (of_int (sum_list ns)))"
  using foldl_plus_int [of 0 ns] assms by (simp add: aggregate_is_sum)

text \<open>So the order of the contracts does not matter for whole figures.\<close>

lemma figures_mset: "mset xs = mset ys \<Longrightarrow> mset (figures figure quotes xs) = mset (figures figure quotes ys)"
  by (simp add: figures_def List.map_filter_def)

lemma aggregate_any_order:
  assumes "figures figure quotes xs = map (\<lambda>n. Fin (of_int n)) ns" "sum_list (map abs ns) \<le> 2 ^ 53" "mset ys = mset xs"
  shows "aggregate figure quotes ys = aggregate figure quotes xs"
proof (cases "ns = []")
  case True
  then have "figures figure quotes xs = []" using assms(1) by simp
  moreover have "figures figure quotes ys = []"
    using figures_mset [OF assms(3), of figure quotes] calculation by simp
  ultimately show ?thesis by (simp add: aggregate_is_sum)
next
  case False
  let ?f = "\<lambda>n :: int. Fin (of_int n)"
  have m: "mset (figures figure quotes ys) = image_mset ?f (mset ns)"
    using figures_mset [OF assms(3)] assms(1) by simp
  then have "set_mset (mset (figures figure quotes ys)) \<subseteq> range ?f" by auto
  then have "\<exists>ms. figures figure quotes ys = map ?f ms" unfolding ex_map_conv by auto
  then obtain ms where ms: "figures figure quotes ys = map ?f ms" by blast
  have "inj ?f" by (rule injI) simp
  then have "inj (image_mset ?f)" by (rule multiset.inj_map)
  moreover have "image_mset ?f (mset ms) = image_mset ?f (mset ns)" using m by (simp add: ms)
  ultimately have p: "mset ms = mset ns" by (rule injD)
  have "sum_list ms = sum_list ns" "sum_list (map abs ms) = sum_list (map abs ns)"
    by (simp_all add: sum_mset_sum_list [symmetric] p)
  moreover have "ms \<noteq> []" using p False by auto
  ultimately show ?thesis using aggregate_exact [OF ms] aggregate_exact [OF assms(1) False assms(2)] assms(2) by simp
qed

section \<open>Lemmas on the rows\<close>

lemma rows_are_contracts:
  "mset (map er_symbol (map (\<lambda>c. build_expiry_row c (quote_of quotes (to_string (contract_name c))) spot) (listed_contracts date_ms by_symbol symbols))) =
   mset (map contract_name (filter truthy (map (\<lambda>s. own by_symbol (to_string s)) symbols)))"
proof -
  have "map er_symbol (map (\<lambda>c. build_expiry_row c (quote_of quotes (to_string (contract_name c))) spot) cs) = map contract_name cs" for cs
    by (induction cs) (simp_all add: build_expiry_row_def Let_def)
  then show ?thesis by (simp only: listed_contracts_def sort_contracts_by_expiry_def mset_map mset_sort_by)
qed

text \<open>Where every expiry is a date, the contracts are in the order of their expiry.\<close>

definition expiry_ms :: "(jsval \<Rightarrow> jsnum) \<Rightarrow> jsval \<Rightarrow> jsnum" where
  "expiry_ms date_ms c = date_ms (js_or (field c ''expiry_date'') (JNum (Fin 0)))"

lemma contracts_by_expiry:
  assumes "\<And>c. c \<in> set cs \<Longrightarrow> expiry_ms date_ms c = Fin (of_int (k c)) \<and> \<bar>k c\<bar> \<le> 2 ^ 52"
  shows "sorted (map k (sort_contracts_by_expiry date_ms cs))"
proof -
  have "expiry_after date_ms a b \<longleftrightarrow> k b < k a" if "a \<in> set cs" "b \<in> set cs" for a b
  proof -
    have "\<bar>k a - k b\<bar> \<le> 2 ^ 53" using assms [OF that(1)] assms [OF that(2)] by (simp, arith)
    then show ?thesis using assms [OF that(1)] assms [OF that(2)] minus_int [of "k a" "k b"]
      by (simp add: expiry_after_def expiry_ms_def del: minus_Fin)
  qed
  then show ?thesis unfolding sort_contracts_by_expiry_def by (rule sort_by_key)
qed

section \<open>Lemmas on the merged spot price\<close>

text \<open>A live quote that is not newer than the fetched one leaves it alone.\<close>

lemma merge_keeps_newer:
  assumes "Fin 0 < spot_stamp (live_quote_of live u)" "Fin 0 < spot_stamp spot"
    "spot_stamp (live_quote_of live u) \<le> spot_stamp spot"
  shows "merge_spot_quote spot (Some u) live = spot"
  using assms by (simp add: merge_spot_quote_def Let_def)

lemma merge_prices:
  assumes "merge_spot_quote spot selected live \<noteq> spot"
  obtains p where "is_finite p" "Fin 0 < p" "valid_spot (merge_spot_quote spot selected live) = Some p"
    "live_ltp (merge_spot_quote spot selected live) = Some p"
proof -
  obtain u where u: "selected = Some u" using assms by (cases selected) (auto simp: merge_spot_quote_def)
  define q where "q = live_quote_of live u"
  define p where "p = to_number (first_field q [''price'', ''ltp'', ''lp''])"
  have fin: "is_finite p" and pos: "\<not> p \<le> Fin 0"
    using assms by (auto simp: merge_spot_quote_def u Let_def q_def p_def split: if_splits)
  have gt: "Fin 0 < p" using fin pos by (cases p) (auto simp: is_finite_iff)
  have r: "merge_spot_quote spot selected live = JObj (spread (fields_of spot) (live_spot_fields p q spot))"
    using assms unfolding merge_spot_quote_def u option.case Let_def q_def [symmetric] p_def [symmetric] by presburger
  have "distinct (map fst (live_spot_fields p q spot))" "own (live_spot_fields p q spot) ''ltp'' = JNum p"
    by (simp_all add: live_spot_fields_def own_Cons)
  then have l: "field (merge_spot_quote spot selected live) ''ltp'' = JNum p"
    by (simp add: r own_spread) (simp add: live_spot_fields_def)
  show ?thesis
    by (rule that [of p]) (use fin gt l in \<open>simp_all add: valid_spot_def live_ltp_def is_nullish_def\<close>)
qed

section \<open>Lemmas on the spot request\<close>

text \<open>A request of the current run is for the selected underlying.\<close>

inductive spot_run :: "spot_fetch \<Rightarrow> bool" where
  start: "spot_run initial_spot_fetch"
| step: "spot_run s \<Longrightarrow> spot_run (spot_step e s)"

definition spot_ok :: "spot_fetch \<Rightarrow> bool" where
  "spot_ok s \<longleftrightarrow> (case sf_inflight s of None \<Rightarrow> True
     | Some (e, u) \<Rightarrow> e \<le> sf_epoch s \<and> (e = sf_epoch s \<longrightarrow> sf_underlying s = Some u))"

lemma fetch_spot_ok: "spot_ok s \<Longrightarrow> spot_ok (fetch_spot s)"
  by (auto simp: fetch_spot_def spot_ok_def split: option.splits)

lemma settle_spot_ok: "spot_ok s \<Longrightarrow> spot_ok (settle_spot a s)"
  by (auto simp: settle_spot_def spot_ok_def split: option.splits)

lemma run_spot_effect_ok:
  assumes "spot_ok s"
  shows "spot_ok (run_spot_effect u s)"
proof -
  have "spot_ok (s\<lparr> sf_epoch := Suc (sf_epoch s), sf_underlying := u, sf_loading := l \<rparr>)" for l
    using assms by (auto simp: spot_ok_def split: option.splits)
  moreover have "spot_ok (s\<lparr> sf_epoch := Suc (sf_epoch s), sf_underlying := u, sf_quote := q, sf_loaded_for := f \<rparr>)" for q f
    using assms by (auto simp: spot_ok_def split: option.splits)
  moreover have "spot_ok (s\<lparr> sf_epoch := Suc (sf_epoch s), sf_underlying := u \<rparr>)"
    using assms by (auto simp: spot_ok_def split: option.splits)
  ultimately show ?thesis by (auto simp: run_spot_effect_def Let_def intro: fetch_spot_ok split: option.split)
qed

lemma spot_run_ok: "spot_run s \<Longrightarrow> spot_ok s"
proof (induction rule: spot_run.induct)
  case (step s e)
  then show ?case by (cases e) (simp_all add: run_spot_effect_ok fetch_spot_ok settle_spot_ok)
qed (simp add: spot_ok_def initial_spot_fetch_def)

text \<open>So an answer that is stored is the answer for the underlying that is selected.\<close>

lemma stored_answer:
  assumes "spot_run s" "sf_quote (spot_step (SpotAnswered d) s) \<noteq> sf_quote s"
  shows "\<exists>u. sf_underlying s = Some u \<and> sf_inflight s = Some (sf_epoch s, u)"
  using spot_run_ok [OF assms(1)] assms(2) by (auto simp: settle_spot_def spot_ok_def split: option.splits if_splits)

text \<open>
  A change of underlying while a request is under way keeps the old price on show, and when that request
  ends nothing is under way: the new price is asked for by the timer alone.
\<close>

lemma switch_shows_old_spot:
  fixes s :: spot_fetch and d :: jsval and u :: string
  assumes "spot_run s" "sf_inflight s \<noteq> None" "u \<noteq> []" "sf_underlying s \<noteq> Some u"
  defines "s' \<equiv> spot_step (SpotAnswered d) (spot_step (SelectUnderlying (Some u)) s)"
  shows "sf_underlying s' = Some u \<and> sf_quote s' = sf_quote s \<and> sf_inflight s' = None"
proof -
  obtain e v where i: "sf_inflight s = Some (e, v)" using assms(2) by auto
  have "e \<le> sf_epoch s" using spot_run_ok [OF assms(1)] by (simp add: spot_ok_def i)
  then show ?thesis using assms(3,4) i
    by (auto simp: s'_def run_spot_effect_def fetch_spot_def settle_spot_def Let_def)
qed

end
