(* ===== verification/FuturesStream.thy ===== *)
theory FuturesStream
  imports FuturesWatchlist FuturesStore WatchlistPrices
begin

text \<open>
  The subscriptions of the futures terminal, \<open>frontend/src/hooks/useFuturesStream.js\<close>, over the bridge
  \<open>frontend/src/services/futuresWsBridge.js\<close>: contracts are sorted into hot, warm and cold ones, the hot
  and warm ones are subscribed on the socket, the ladder and the cold ones are fetched in batches.
  \<open>new Date(v)\<close> is the parameter \<open>date_ms\<close>, \<open>Date.now()\<close> is \<open>now\<close>. A \<open>Set\<close> is the list of its
  elements in insertion order.
\<close>

section \<open>Tiers of contracts\<close>

text \<open>\<open>xs.join('|')\<close> and \<open>s.split('|').filter(Boolean)\<close>, by which the hook passes lists of symbols on.\<close>

definition bar_text :: "jsval list \<Rightarrow> string" where
  "bar_text vs = join ''|'' (map (\<lambda>v. if is_nullish v then [] else to_string v) vs)"

fun split_bar :: "string \<Rightarrow> string list" where
  "split_bar [] = [[]]"
| "split_bar (c # s) = (if c = CHR ''|'' then [] # split_bar s else (c # hd (split_bar s)) # tl (split_bar s))"

definition bar_symbols :: "string \<Rightarrow> jsval list" where
  "bar_symbols s = map JStr (filter (\<lambda>t. t \<noteq> []) (split_bar s))"

definition add_to_set :: "'a \<Rightarrow> 'a list \<Rightarrow> 'a list" where
  "add_to_set x xs = (if x \<in> set xs then xs else xs @ [x])"

definition ladder_symbols :: "futures_store \<Rightarrow> jsval list" where
  "ladder_symbols s =
     (case fc_underlying (fs_contracts s) of
        None \<Rightarrow> []
      | Some u \<Rightarrow> if u = [] then [] else (case map_of (fc_by_underlying (fs_contracts s)) u of Some ss \<Rightarrow> ss | None \<Rightarrow> []))"

definition build_near_contract_symbols :: "(jsval \<Rightarrow> jsnum) \<Rightarrow> futures_store \<Rightarrow> jsval list" where
  "build_near_contract_symbols date_ms s =
     map contract_name
       (take 3
         (sort_by (\<lambda>a b. Fin 0 < date_ms (js_or (field a ''expiry_date'') (JNum (Fin 0))) - date_ms (js_or (field b ''expiry_date'') (JNum (Fin 0))))
           (filter truthy (map (\<lambda>n. own (fc_by_symbol (fs_contracts s)) (to_string n)) (ladder_symbols s)))))"

definition is_open_order :: "jsval \<Rightarrow> bool" where
  "is_open_order x = (field x ''status'' = JStr ''OPEN'' \<or> field x ''status'' = JStr ''PENDING'')"

definition hot_contracts :: "futures_store \<Rightarrow> string \<Rightarrow> string \<Rightarrow> jsval list" where
  "hot_contracts s positions near =
     (let h0 = (case fc_contract (fs_contracts s) of Some c \<Rightarrow> if c = [] then [] else [JStr c] | None \<Rightarrow> []);
          h1 = fold add_to_set (bar_symbols near) h0;
          h2 = fold add_to_set (bar_symbols positions) h1
      in fold (\<lambda>x h. if truthy (contract_name x) then add_to_set (contract_name x) h else h) (filter is_open_order (fs_orders s)) h2)"

definition warm_contracts :: "futures_store \<Rightarrow> string \<Rightarrow> jsval list \<Rightarrow> jsval list" where
  "warm_contracts s watchlist hot =
     (let w1 = fold (\<lambda>x w. if x \<notin> set hot then add_to_set x w else w) (bar_symbols watchlist) []
      in fold (\<lambda>x w. if truthy x \<and> x \<notin> set hot then add_to_set x w else w) (ladder_symbols s) w1)"

definition classify_contracts :: "futures_store \<Rightarrow> string \<Rightarrow> string \<Rightarrow> string \<Rightarrow> jsval list \<times> jsval list" where
  "classify_contracts s watchlist positions near =
     (let hot = hot_contracts s positions near in (hot, warm_contracts s watchlist hot))"

text \<open>What the selectors of the hook read from the stores.\<close>

definition watchlist_symbols :: "watchlist_store \<Rightarrow> string" where
  "watchlist_symbols w =
     (let items = (case find_list (ws_active w) (ws_lists w) of Some l \<Rightarrow> items_of l | None \<Rightarrow> [])
      in bar_text (filter truthy (map contract_name items)))"

definition position_symbols :: "futures_store \<Rightarrow> string" where
  "position_symbols s =
     bar_text (filter truthy (map contract_name (filter (\<lambda>p. \<not> num_eq (to_number (field p ''quantity'')) (Fin 0)) (fs_positions s))))"

record stream_tiers =
  st_hot :: "jsval list"
  st_warm :: "jsval list"
  st_cold :: "jsval list"

definition tiers_of :: "(jsval \<Rightarrow> jsnum) \<Rightarrow> futures_store \<Rightarrow> watchlist_store \<Rightarrow> stream_tiers" where
  "tiers_of date_ms s w =
     (let (hot, warm) = classify_contracts s (watchlist_symbols w) (position_symbols s) (bar_text (build_near_contract_symbols date_ms s));
          every = bar_symbols (bar_text (ladder_symbols s))
      in \<lparr> st_hot = hot, st_warm = warm, st_cold = filter (\<lambda>x. x \<notin> set (hot @ warm)) every \<rparr>)"

definition ws_contracts :: "stream_tiers \<Rightarrow> jsval list" where
  "ws_contracts t = unique (st_hot t @ st_warm t)"

section \<open>Subscriptions\<close>

datatype stream_message = SubscribeFutures jsval | UnsubscribeFutures jsval

record stream =
  sr_subscribed :: "jsval list"
  sr_sent :: "stream_message list"

definition new_stream :: stream where
  "new_stream = \<lparr> sr_subscribed = [], sr_sent = [] \<rparr>"

definition futures_ws_send :: "stream_message \<Rightarrow> stream \<Rightarrow> stream" where
  "futures_ws_send m s = s\<lparr> sr_sent := sr_sent s @ [m] \<rparr>"

definition stream_subscribe :: "jsval \<Rightarrow> stream \<Rightarrow> stream" where
  "stream_subscribe c s =
     (if \<not> truthy c \<or> c \<in> set (sr_subscribed s) then s
      else futures_ws_send (SubscribeFutures c) (s\<lparr> sr_subscribed := sr_subscribed s @ [c] \<rparr>))"

definition stream_unsubscribe :: "jsval \<Rightarrow> stream \<Rightarrow> stream" where
  "stream_unsubscribe c s =
     (if \<not> truthy c \<or> c \<notin> set (sr_subscribed s) then s
      else futures_ws_send (UnsubscribeFutures c) (s\<lparr> sr_subscribed := filter (\<lambda>x. x \<noteq> c) (sr_subscribed s) \<rparr>))"

definition sync_subscriptions :: "jsval list \<Rightarrow> stream \<Rightarrow> stream" where
  "sync_subscriptions contracts s =
     (let s1 = fold stream_subscribe (unique contracts) s
      in fold (\<lambda>c t. if c \<in> set contracts then t else stream_unsubscribe c t) (sr_subscribed s1) s1)"

definition stop_stream :: "stream \<Rightarrow> stream" where
  "stop_stream s = (fold (\<lambda>c. futures_ws_send (UnsubscribeFutures c)) (sr_subscribed s) s)\<lparr> sr_subscribed := [] \<rparr>"

text \<open>
  The events of the hook; a reconnect opens a new socket, on which nothing has been sent, and no
  effect of the hook runs for it.
\<close>

datatype stream_event = Desired "jsval list" | ManualSubscribe jsval | ManualUnsubscribe jsval | Reconnected | LeaveTerminal

fun stream_step :: "stream_event \<Rightarrow> stream \<Rightarrow> stream" where
  "stream_step (Desired cs) s = sync_subscriptions cs s"
| "stream_step (ManualSubscribe c) s = stream_subscribe c s"
| "stream_step (ManualUnsubscribe c) s = stream_unsubscribe c s"
| "stream_step Reconnected s = s\<lparr> sr_sent := [] \<rparr>"
| "stream_step LeaveTerminal s = stop_stream s"

section \<open>Quotes of the ladder and of the cold tier\<close>

definition cold_batch_size :: nat where
  "cold_batch_size = 40"

definition ladder_batches :: "string \<Rightarrow> jsval list list" where
  "ladder_batches all_symbols = chunks cold_batch_size (bar_symbols all_symbols)"

definition ladder_poll_ms :: nat where
  "ladder_poll_ms = (if should_use_realtime_prices then 5000 else 30000)"

text \<open>The answer of one batch of the ladder; \<open>None\<close> is a request that failed.\<close>

definition ladder_answered :: "jsnum \<Rightarrow> (string \<times> jsobj) list option \<Rightarrow> futures_store \<Rightarrow> futures_store" where
  "ladder_answered now quotes s =
     (case quotes of None \<Rightarrow> s | Some qs \<Rightarrow> if qs = [] then s else update_fut_quotes now qs s)"

definition is_near_cold :: "futures_store \<Rightarrow> jsval \<Rightarrow> bool" where
  "is_near_cold s c =
     (let d = field (own (fc_by_symbol (fs_contracts s)) (to_string c)) ''days_to_expiry'' in
      \<not> is_nullish d \<and> to_number d \<le> Fin 30)"

definition classify_cold :: "futures_store \<Rightarrow> jsval list \<Rightarrow> jsval list \<times> jsval list" where
  "classify_cold s cold = (filter (is_near_cold s) cold, filter (\<lambda>c. \<not> is_near_cold s c) cold)"

definition cold_request :: "jsval list \<Rightarrow> jsval list option" where
  "cold_request contracts = (if contracts = [] then None else Some (take cold_batch_size contracts))"

definition marked_quote :: "jsnum \<Rightarrow> string \<Rightarrow> jsobj \<Rightarrow> jsobj" where
  "marked_quote now tier q =
     (let volume = to_number (js_or (own q ''volume'') (JNum (Fin 0))) in
      spread q [(''_tier'', JStr tier), (''_refreshedAt'', JNum now), (''_illiquid'', JBool (volume < Fin 100))])"

definition cold_answered ::
  "jsnum \<Rightarrow> string \<Rightarrow> (string \<times> jsobj) list option \<Rightarrow> fut_lists \<times> futures_store \<Rightarrow> fut_lists \<times> futures_store" where
  "cold_answered now tier quotes st =
     (case quotes of
        None \<Rightarrow> st
      | Some qs \<Rightarrow>
          if qs = [] then st
          else (update_contract_prices (map (\<lambda>(k, q). (k, JObj q)) qs) (fst st),
                update_fut_quotes now (map (\<lambda>(k, q). (k, marked_quote now tier q)) qs) (snd st)))"

text \<open>The one-time fetch of orders, positions and margin; \<open>None\<close> is a request that failed.\<close>

definition stream_bootstrap ::
  "jsnum \<Rightarrow> jsval list option \<Rightarrow> jsval list option \<Rightarrow> (string \<times> jsnum) list option \<Rightarrow> futures_store \<Rightarrow> futures_store" where
  "stream_bootstrap now orders positions margin s =
     (let s1 = (case orders of Some os \<Rightarrow> set_orders os s | None \<Rightarrow> s);
          s2 = (case positions of Some ps \<Rightarrow> recalculate_live_pnl now (set_positions ps s1) | None \<Rightarrow> s1)
      in (case margin of Some m \<Rightarrow> update_margin m s2 | None \<Rightarrow> s2))"

section \<open>Lemmas on texts of symbols\<close>

lemma split_bar_not_Nil [simp]: "split_bar s \<noteq> []"
  by (cases s) auto

lemma split_bar_plain: "CHR ''|'' \<notin> set s \<Longrightarrow> split_bar s = [s]"
  by (induction s) auto

lemma split_bar_append: "CHR ''|'' \<notin> set s \<Longrightarrow> split_bar (s @ CHR ''|'' # r) = s # split_bar r"
  by (induction s) auto

lemma split_join:
  assumes "ts \<noteq> []" "\<And>t. t \<in> set ts \<Longrightarrow> CHR ''|'' \<notin> set t"
  shows "split_bar (join ''|'' ts) = ts"
  using assms
proof (induction "''|''" ts rule: join.induct)
  case (3 x y xs)
  then show ?case using split_bar_append [of x "join ''|'' (y # xs)"] by simp
qed (simp_all add: split_bar_plain)

text \<open>A symbol the hook can pass on: a text without the separator.\<close>

fun plain_symbol :: "jsval \<Rightarrow> bool" where
  "plain_symbol (JStr s) = (CHR ''|'' \<notin> set s)"
| "plain_symbol _ = False"

lemma bar_symbols_text:
  assumes "list_all plain_symbol vs"
  shows "bar_symbols (bar_text vs) = filter truthy vs"
proof (cases "vs = []")
  case True
  then show ?thesis by (simp add: bar_text_def bar_symbols_def)
next
  case False
  have map_eq: "vs = map JStr (map to_string vs)" and no_bar: "t \<in> to_string ` set vs \<Longrightarrow> CHR ''|'' \<notin> set t" for t
    using assms by (auto simp: list_all_iff map_idI elim!: plain_symbol.elims intro!: map_idI [symmetric])
  have "bar_text vs = join ''|'' (map to_string vs)"
    unfolding bar_text_def by (rule arg_cong [where f = "join _"]) (use assms in \<open>auto simp: list_all_iff is_nullish_def elim!: plain_symbol.elims\<close>)
  then have "split_bar (bar_text vs) = map to_string vs" using split_join [of "map to_string vs"] False no_bar by auto
  then have "bar_symbols (bar_text vs) = map JStr (filter (\<lambda>t. t \<noteq> []) (map to_string vs))" by (simp add: bar_symbols_def)
  also have "\<dots> = filter truthy (map JStr (map to_string vs))" by (simp add: filter_map o_def)
  finally show ?thesis using map_eq by simp
qed

section \<open>Lemmas on the tiers\<close>

lemma set_add_to_set [simp]: "set (add_to_set x xs) = insert x (set xs)"
  by (auto simp: add_to_set_def)

lemma set_fold_add: "set (fold (\<lambda>x h. if P x then add_to_set (f x) h else h) xs h) = set h \<union> f ` {x \<in> set xs. P x}"
  by (induction xs arbitrary: h) auto

lemma set_fold_add_all: "set (fold add_to_set xs h) = set h \<union> set xs"
  using set_fold_add [where P = "\<lambda>_. True" and f = "\<lambda>x. x"] by simp

lemma hot_set: "set (hot_contracts s positions near) =
    (case fc_contract (fs_contracts s) of Some c \<Rightarrow> if c = [] then {} else {JStr c} | None \<Rightarrow> {}) \<union> set (bar_symbols near) \<union>
    set (bar_symbols positions) \<union> contract_name ` {x \<in> set (fs_orders s). is_open_order x \<and> truthy (contract_name x)}"
  by (auto simp: hot_contracts_def Let_def set_fold_add set_fold_add_all split: option.split)

lemma warm_set: "set (warm_contracts s watchlist hot) = (set (bar_symbols watchlist) \<union> {x \<in> set (ladder_symbols s). truthy x}) - set hot"
  using set_fold_add [where f = "\<lambda>x. x" and P = "\<lambda>x. x \<notin> set hot"]
    set_fold_add [where f = "\<lambda>x. x" and P = "\<lambda>x. truthy x \<and> x \<notin> set hot"]
  by (auto simp: warm_contracts_def Let_def)

lemma warm_not_hot: "set (st_hot (tiers_of date_ms s w)) \<inter> set (st_warm (tiers_of date_ms s w)) = {}"
  by (auto simp: tiers_of_def classify_contracts_def Let_def warm_set)

lemma tiers_simps: "st_hot (tiers_of date_ms s w) = hot_contracts s (position_symbols s) (bar_text (build_near_contract_symbols date_ms s))"
  "st_warm (tiers_of date_ms s w) = warm_contracts s (watchlist_symbols w) (st_hot (tiers_of date_ms s w))"
  by (simp_all add: tiers_of_def classify_contracts_def Let_def)

lemma bar_symbols_truthy: "x \<in> set (bar_symbols t) \<Longrightarrow> truthy x"
  by (auto simp: bar_symbols_def)

lemma ws_truthy: "list_all truthy (ws_contracts (tiers_of date_ms s w))"
  by (auto simp: ws_contracts_def list_all_iff tiers_simps hot_set warm_set dest: bar_symbols_truthy split: option.splits if_splits)

text \<open>The selected contract, the positions and the open orders are always streamed.\<close>

lemma selected_streamed: "fc_contract (fs_contracts s) = Some c \<Longrightarrow> c \<noteq> [] \<Longrightarrow> JStr c \<in> set (ws_contracts (tiers_of date_ms s w))"
  by (simp add: ws_contracts_def tiers_simps hot_set)

lemma open_order_streamed:
  "x \<in> set (fs_orders s) \<Longrightarrow> is_open_order x \<Longrightarrow> truthy (contract_name x) \<Longrightarrow>
    contract_name x \<in> set (ws_contracts (tiers_of date_ms s w))"
  by (auto simp: ws_contracts_def tiers_simps hot_set)

lemma position_streamed:
  assumes "list_all (\<lambda>p. plain_symbol (contract_name p)) (fs_positions s)" "p \<in> set (fs_positions s)"
    and "\<not> num_eq (to_number (field p ''quantity'')) (Fin 0)" "truthy (contract_name p)"
  shows "contract_name p \<in> set (ws_contracts (tiers_of date_ms s w))"
proof -
  have "list_all plain_symbol (filter truthy (map contract_name (filter (\<lambda>p. \<not> num_eq (to_number (field p ''quantity'')) (Fin 0)) (fs_positions s))))"
    using assms(1) by (auto simp: list_all_iff)
  then have "contract_name p \<in> set (bar_symbols (position_symbols s))"
    using assms(2-4) by (auto simp: position_symbols_def bar_symbols_text)
  then show ?thesis by (simp add: ws_contracts_def tiers_simps hot_set)
qed

text \<open>
  Every contract of the ladder is hot or warm, so the cold tier, with its requests and its marks of
  delayed and illiquid contracts, is always empty.
\<close>

lemma ladder_streamed: "x \<in> set (ladder_symbols s) \<Longrightarrow> truthy x \<Longrightarrow> x \<in> set (ws_contracts (tiers_of date_ms s w))"
  by (auto simp: ws_contracts_def tiers_simps(2) warm_set)

lemma cold_tier_empty:
  assumes "list_all plain_symbol (ladder_symbols s)"
  shows "st_cold (tiers_of date_ms s w) = []"
proof -
  have "st_cold (tiers_of date_ms s w) =
      filter (\<lambda>x. x \<notin> set (ws_contracts (tiers_of date_ms s w))) (bar_symbols (bar_text (ladder_symbols s)))"
    by (simp add: tiers_of_def ws_contracts_def classify_contracts_def Let_def)
  then show ?thesis using ladder_streamed [of _ s date_ms w] by (simp add: bar_symbols_text [OF assms] filter_empty_conv)
qed

section \<open>Lemmas on the subscriptions\<close>

text \<open>What the server streams after the messages of a socket.\<close>

fun server_apply :: "stream_message \<Rightarrow> jsval set \<Rightarrow> jsval set" where
  "server_apply (SubscribeFutures c) S = insert c S"
| "server_apply (UnsubscribeFutures c) S = S - {c}"

definition streamed :: "stream \<Rightarrow> jsval set" where
  "streamed s = fold server_apply (sr_sent s) {}"

definition stream_ok :: "stream \<Rightarrow> bool" where
  "stream_ok s \<longleftrightarrow> distinct (sr_subscribed s) \<and> list_all truthy (sr_subscribed s)"

lemma streamed_send: "streamed (futures_ws_send m s) = server_apply m (streamed s)"
  by (simp add: streamed_def futures_ws_send_def)

lemma streamed_frame [simp]: "streamed (s\<lparr> sr_subscribed := x \<rparr>) = streamed s"
  by (simp add: streamed_def)

lemma send_subscribed [simp]: "sr_subscribed (futures_ws_send m s) = sr_subscribed s"
  by (simp add: futures_ws_send_def)

lemma subscribe_set: "set (sr_subscribed (stream_subscribe c s)) = (if truthy c then insert c (set (sr_subscribed s)) else set (sr_subscribed s))"
  by (auto simp: stream_subscribe_def)

lemma unsubscribe_set: "set (sr_subscribed (stream_unsubscribe c s)) = (if truthy c then set (sr_subscribed s) - {c} else set (sr_subscribed s))"
  by (auto simp: stream_unsubscribe_def)

lemma subscribe_ok: "stream_ok s \<Longrightarrow> stream_ok (stream_subscribe c s)"
  by (auto simp: stream_ok_def stream_subscribe_def list_all_iff)

lemma unsubscribe_ok: "stream_ok s \<Longrightarrow> stream_ok (stream_unsubscribe c s)"
  by (auto simp: stream_ok_def stream_unsubscribe_def list_all_iff)

text \<open>Where the server streams what is subscribed, it still does after either operation.\<close>

definition in_step :: "stream \<Rightarrow> bool" where
  "in_step s \<longleftrightarrow> streamed s = set (sr_subscribed s)"

lemma subscribe_in_step: "in_step s \<Longrightarrow> in_step (stream_subscribe c s)"
  by (auto simp: in_step_def stream_subscribe_def streamed_send)

lemma unsubscribe_in_step: "in_step s \<Longrightarrow> in_step (stream_unsubscribe c s)"
  by (auto simp: in_step_def stream_unsubscribe_def streamed_send)

lemma drop_others_set:
  "list_all truthy xs \<Longrightarrow>
    set (sr_subscribed (fold (\<lambda>c t. if c \<in> C then t else stream_unsubscribe c t) xs s)) = set (sr_subscribed s) - (set xs - C)"
  by (induction xs arbitrary: s) (auto simp: unsubscribe_set)

lemma add_all_set:
  "set (sr_subscribed (fold stream_subscribe xs s)) = set (sr_subscribed s) \<union> {x \<in> set xs. truthy x}"
  by (induction xs arbitrary: s) (auto simp: subscribe_set)

lemma add_all_ok: "stream_ok s \<Longrightarrow> stream_ok (fold stream_subscribe xs s)"
  by (rule fold_invariant_list) (auto intro: subscribe_ok)

lemma sync_ok: "stream_ok s \<Longrightarrow> stream_ok (sync_subscriptions cs s)"
  unfolding sync_subscriptions_def Let_def by (rule fold_invariant_list) (auto intro: unsubscribe_ok add_all_ok)

lemma sync_in_step: "in_step s \<Longrightarrow> in_step (sync_subscriptions cs s)"
proof -
  assume "in_step s"
  then have "in_step (fold stream_subscribe (unique cs) s)" by (rule fold_invariant_list) (rule subscribe_in_step)
  then show ?thesis unfolding sync_subscriptions_def Let_def by (rule fold_invariant_list) (auto intro: unsubscribe_in_step)
qed

lemma sync_set:
  assumes "stream_ok s" "list_all truthy cs"
  shows "set (sr_subscribed (sync_subscriptions cs s)) = set cs"
proof -
  define t where "t = fold stream_subscribe (unique cs) s"
  have "list_all truthy (sr_subscribed t)" using add_all_ok [OF assms(1)] by (simp add: stream_ok_def t_def)
  then have "set (sr_subscribed (sync_subscriptions cs s)) = set (sr_subscribed t) - (set (sr_subscribed t) - set cs)"
    unfolding sync_subscriptions_def Let_def t_def [symmetric] by (rule drop_others_set)
  moreover have "set cs \<subseteq> set (sr_subscribed t)"
    using assms(2) by (auto simp: t_def add_all_set list_all_iff)
  ultimately show ?thesis by auto
qed

lemma stop_in_step: "in_step s \<Longrightarrow> streamed (stop_stream s) = {} \<and> sr_subscribed (stop_stream s) = []"
proof -
  assume s: "in_step s"
  have "streamed (fold (\<lambda>c. futures_ws_send (UnsubscribeFutures c)) xs t) = streamed t - set xs" for xs t
    by (induction xs arbitrary: t) (auto simp: streamed_send)
  with s show ?thesis by (simp add: stop_stream_def in_step_def)
qed

text \<open>
  As long as the socket stays up the server streams exactly what the hook believes, and after each
  round of effects exactly the hot and warm contracts.
\<close>

definition same_socket :: "stream_event \<Rightarrow> bool" where
  "same_socket e \<longleftrightarrow> e \<noteq> Reconnected"

lemma stream_step_ok: "stream_ok s \<Longrightarrow> stream_ok (stream_step e s)"
  by (cases e) (auto simp: sync_ok subscribe_ok unsubscribe_ok, auto simp: stream_ok_def stop_stream_def)

lemma stream_step_in_step: "in_step s \<Longrightarrow> same_socket e \<Longrightarrow> in_step (stream_step e s)"
  using stop_in_step [of s]
  by (cases e) (simp_all add: same_socket_def sync_in_step subscribe_in_step unsubscribe_in_step, simp add: in_step_def)

lemma stream_run_in_step: "list_all same_socket es \<Longrightarrow> in_step s \<Longrightarrow> in_step (fold stream_step es s)"
  by (induction es arbitrary: s) (auto simp: stream_step_in_step)

lemma stream_run_ok: "stream_ok s \<Longrightarrow> stream_ok (fold stream_step es s)"
  by (rule fold_invariant_list) (auto intro: stream_step_ok)

lemma new_stream_ok: "stream_ok new_stream" "in_step new_stream"
  by (simp_all add: stream_ok_def in_step_def new_stream_def streamed_def)

text \<open>After a reconnect the hook sends nothing for the contracts it holds for subscribed.\<close>

lemma sync_silent:
  assumes "stream_ok s" "set cs = set (sr_subscribed s)"
  shows "sync_subscriptions cs s = s"
proof -
  have "fold stream_subscribe xs s = s" if "set xs \<subseteq> set (sr_subscribed s)" for xs
    using that by (induction xs) (auto simp: stream_subscribe_def)
  then have a: "fold stream_subscribe (unique cs) s = s" using assms(2) by simp
  have "fold (\<lambda>c t. if c \<in> set cs then t else stream_unsubscribe c t) xs s = s" if "set xs \<subseteq> set cs" for xs
    using that by (induction xs) auto
  then show ?thesis using a assms(2) by (simp add: sync_subscriptions_def Let_def)
qed

lemma reconnect_streams_nothing:
  assumes "stream_ok s" "list_all truthy cs"
  shows "streamed (fold stream_step [Desired cs, Reconnected, Desired cs] s) = {}"
proof -
  let ?t = "sync_subscriptions cs s"
  have "stream_ok (?t\<lparr> sr_sent := [] \<rparr>)" using sync_ok [OF assms(1)] by (simp add: stream_ok_def)
  then have "sync_subscriptions cs (?t\<lparr> sr_sent := [] \<rparr>) = ?t\<lparr> sr_sent := [] \<rparr>"
    by (rule sync_silent) (simp add: sync_set [OF assms])
  then show ?thesis by (simp add: streamed_def)
qed

end
