(* ===== verification/OptionChain.thy ===== *)
theory OptionChain
  imports OptionsAnalytics FuturesStore Connection
begin

text \<open>
  The live option chain: contracts, rows and their merge (\<open>frontend/src/components/options/constants.js\<close>),
  the formats of its cells (\<open>formatOptionValue.js\<close>), the bridge to the socket
  (\<open>optionsWsBridge.js\<close>), and the hook that subscribes the contracts and patches ticks into the rows
  (\<open>frontend/src/hooks/useOptionsChainLive.js\<close>). The rows are those of \<open>OptionsAnalytics\<close>; a contract symbol is a text and a dash is \<open>-\<close>.
  Formats of the locale service are the parameters \<open>locale_num\<close> (least and most decimals) and
  \<open>expiry_text\<close>.
\<close>

section \<open>Underlyings\<close>

definition options_underlyings :: "string list" where
  "options_underlyings = [''NIFTY'', ''BANKNIFTY'', ''FINNIFTY'', ''MIDCPNIFTY'', ''NIFTYNXT50'', ''SENSEX'']"

definition options_lot_sizes :: "(string \<times> jsnum) list" where
  "options_lot_sizes = [(''NIFTY'', Fin 75), (''BANKNIFTY'', Fin 30), (''SENSEX'', Fin 10), (''FINNIFTY'', Fin 40),
     (''MIDCPNIFTY'', Fin 50), (''NIFTYNXT50'', Fin 25)]"

definition underlying_chart_symbol :: "(string \<times> string) list" where
  "underlying_chart_symbol = [(''NIFTY'', ''^NSEI''), (''BANKNIFTY'', ''^NSEBANK''), (''FINNIFTY'', ''^CNXFIN''),
     (''MIDCPNIFTY'', ''^CNXMIDCAP''), (''NIFTYNXT50'', ''^CNXJUNIOR''), (''SENSEX'', ''^BSESN'')]"

definition upper_text :: "jsval \<Rightarrow> string" where
  "upper_text v = upper (to_string (js_or v (JStr [])))"

definition get_lot_size :: "jsval \<Rightarrow> jsnum" where
  "get_lot_size symbol = (case map_of options_lot_sizes (upper_text symbol) of Some n \<Rightarrow> n | None \<Rightarrow> Fin 75)"

definition get_chart_symbol :: "jsval \<Rightarrow> string" where
  "get_chart_symbol underlying =
     (case map_of underlying_chart_symbol (upper_text underlying) of Some s \<Rightarrow> s | None \<Rightarrow> ''^NSEI'')"

definition format_expiry_chip :: "(jsval \<Rightarrow> string option) \<Rightarrow> jsval \<Rightarrow> jsval" where
  "format_expiry_chip expiry_text d = (case expiry_text d of None \<Rightarrow> d | Some t \<Rightarrow> JStr t)"

definition resolve_chain_source_badge :: "jsval \<Rightarrow> string \<times> string" where
  "resolve_chain_source_badge source =
     (let src = lower_text source in
      if contains_text src ''cache'' then (''warning'', ''CACHED'')
      else if contains_text src ''unavailable'' \<or> contains_text src ''error'' then (''default'', ''OFFLINE'')
      else (''success'', ''LIVE''))"

definition build_display_symbol :: "(jsval \<Rightarrow> string) \<Rightarrow> jsval \<Rightarrow> jsval \<Rightarrow> jsval \<Rightarrow> jsval \<Rightarrow> string" where
  "build_display_symbol expiry_day underlying strike option_type expiry =
     to_string underlying @ (if truthy expiry then expiry_day expiry else []) @ to_string (nullish strike (JStr [])) @
     to_string (js_or option_type (JStr ''CE''))"

section \<open>Rows of the chain\<close>

definition empty_leg :: jsval where
  "empty_leg = JObj [(''ltp'', JNum (Fin 0)), (''bid'', JNum (Fin 0)), (''ask'', JNum (Fin 0)), (''iv'', JNum (Fin 0)),
     (''delta'', JNum (Fin 0)), (''gamma'', JNum (Fin 0)), (''theta'', JNum (Fin 0)), (''vega'', JNum (Fin 0)),
     (''oi'', JNum (Fin 0)), (''oiChange'', JNull), (''volume'', JNum (Fin 0))]"

definition map_side :: "jsval \<Rightarrow> jsval" where
  "map_side d =
     (if \<not> truthy d then empty_leg
      else
        let zero = (\<lambda>ks. nullish (first_field d ks) (JNum (Fin 0))); null = (\<lambda>ks. nullish (first_field d ks) JNull);
            text = (\<lambda>ks. nullish (first_field d ks) (JStr []))
        in JObj [(''ltp'', zero [''ltp'', ''lp'', ''price'']), (''bid'', zero [''bid'']), (''ask'', zero [''ask'']),
             (''iv'', zero [''iv'']), (''delta'', zero [''delta'']), (''gamma'', zero [''gamma'']), (''theta'', zero [''theta'']),
             (''vega'', zero [''vega'']), (''oi'', zero [''oi'']), (''oiChange'', null [''oi_change'', ''oiChange'']),
             (''volume'', zero [''volume'']), (''change'', zero [''change'']), (''changePct'', null [''change_pct'', ''changePct'']),
             (''tsym'', text [''tsym'', ''symbol'']), (''token'', text [''token''])])"

text \<open>A strike that is no number is \<open>NaN\<close> in a row.\<close>

definition strike_of :: "jsval \<Rightarrow> jsnum" where
  "strike_of v = (case v of JNum n \<Rightarrow> n | _ \<Rightarrow> NaN)"

definition transform_chain_row :: "jsval \<Rightarrow> option_row" where
  "transform_chain_row row =
     \<lparr> op_strike = strike_of (field row ''strike''), op_ce = map_side (first_field row [''CE'', ''ce'']),
       op_pe = map_side (first_field row [''PE'', ''pe'']) \<rparr>"

definition merge_side :: "jsval \<Rightarrow> jsval \<Rightarrow> jsval" where
  "merge_side incoming existing =
     (let in_ltp = to_number (field incoming ''ltp''); ex_ltp = to_number (field existing ''ltp'') in
      if \<not> truthy incoming \<or> \<not> truthy existing then incoming
      else if is_finite in_ltp \<and> Fin 0 < in_ltp then incoming
      else if is_finite ex_ltp \<and> Fin 0 < ex_ltp then
        JObj (spread (fields_of incoming)
          [(''ltp'', JNum ex_ltp), (''bid'', js_or (field incoming ''bid'') (field existing ''bid'')),
           (''ask'', js_or (field incoming ''ask'') (field existing ''ask'')), (''oi'', js_or (field incoming ''oi'') (field existing ''oi'')),
           (''change'', nullish (field existing ''change'') (field incoming ''change'')),
           (''changePct'', nullish (field existing ''changePct'') (field incoming ''changePct''))])
      else incoming)"

text \<open>The map by strike keeps the last row of a strike.\<close>

definition row_at :: "option_row list \<Rightarrow> jsnum \<Rightarrow> option_row option" where
  "row_at rows k = find (\<lambda>r. op_strike r = k) (rev rows)"

definition merge_chain_rows :: "option_row list \<Rightarrow> option_row list \<Rightarrow> option_row list" where
  "merge_chain_rows prev next_rows =
     (if prev = [] \<or> next_rows = [] then next_rows
      else map (\<lambda>row. case row_at prev (op_strike row) of
          None \<Rightarrow> row
        | Some old \<Rightarrow> row\<lparr> op_ce := merge_side (op_ce row) (op_ce old), op_pe := merge_side (op_pe row) (op_pe old) \<rparr>) next_rows)"

section \<open>Formats of the cells\<close>

definition is_live_chain_source :: "jsval \<Rightarrow> bool" where
  "is_live_chain_source source =
     (if \<not> truthy source then True
      else
        let s = lower_text source in
        \<not> (contains_text s ''unavailable'' \<or> contains_text s ''error'' \<or> contains_text s ''disabled''))"

definition positive_number :: "jsval \<Rightarrow> jsnum option" where
  "positive_number v = (let n = to_number v in if is_finite n \<and> Fin 0 < n then Some n else None)"

text \<open>The price of a leg without a last price: the middle of bid and ask, or the one there is.\<close>

definition leg_quoted_price :: "jsval \<Rightarrow> jsval \<Rightarrow> jsnum option" where
  "leg_quoted_price bid ask =
     (case (positive_number bid, positive_number ask) of
        (Some b, Some a) \<Rightarrow> Some ((b + a) / Fin 2)
      | (Some b, None) \<Rightarrow> Some b
      | (None, Some a) \<Rightarrow> Some a
      | (None, None) \<Rightarrow> None)"

definition format_option_price ::
  "(nat \<Rightarrow> nat \<Rightarrow> jsnum \<Rightarrow> string) \<Rightarrow> jsval \<Rightarrow> jsval \<Rightarrow> bool \<Rightarrow> jsval \<Rightarrow> jsval \<Rightarrow> bool \<Rightarrow> string" where
  "format_option_price locale_num v source allow_zero bid ask no_fallback =
     (let n0 = to_number v;
          n = (if (\<not> is_finite n0 \<or> n0 \<le> Fin 0) \<and> \<not> allow_zero \<and> \<not> no_fallback then leg_quoted_price bid ask else Some n0)
      in if \<not> is_live_chain_source source then ''-''
         else case n of
             None \<Rightarrow> ''-''
           | Some x \<Rightarrow> if \<not> is_finite x \<or> (\<not> allow_zero \<and> x = Fin 0) then ''-'' else locale_num 2 2 x)"

definition format_option_oi :: "(nat \<Rightarrow> nat \<Rightarrow> jsnum \<Rightarrow> string) \<Rightarrow> jsval \<Rightarrow> jsval \<Rightarrow> string" where
  "format_option_oi locale_num v source =
     (let n = to_number v in
      if \<not> is_live_chain_source source \<or> \<not> is_finite n \<or> n = Fin 0 then ''-''
      else if Fin 10000000 \<le> n then to_fixed 2 (n / Fin 10000000) @ ''Cr''
      else if Fin 100000 \<le> n then to_fixed 2 (n / Fin 100000) @ ''L''
      else locale_num 0 2 n)"

definition format_option_pct :: "jsval \<Rightarrow> jsval \<Rightarrow> string" where
  "format_option_pct v source =
     (let n = to_number v in
      if \<not> is_live_chain_source source \<or> \<not> is_finite n then ''-''
      else (if Fin 0 \<le> n then ''+'' else []) @ to_fixed 2 n @ ''%'')"

definition format_option_pct_paren :: "jsval \<Rightarrow> jsval \<Rightarrow> string" where
  "format_option_pct_paren v source =
     (let n = to_number v in
      if \<not> is_live_chain_source source \<or> \<not> is_finite n then ''-'' else ''('' @ to_fixed 2 n @ ''%)'')"

definition oi_change_percent :: "jsval \<Rightarrow> jsval \<Rightarrow> jsnum option" where
  "oi_change_percent oi oi_change =
     (let all_oi = to_number oi; chg = to_number oi_change; prev = all_oi - chg in
      if is_nullish oi_change \<or> oi_change = JStr [] \<or> \<not> is_finite all_oi \<or> \<not> is_finite chg then None
      else if prev = NaN \<or> prev \<le> Fin 0 then None
      else Some ((chg / prev) * Fin 100))"

section \<open>Ticks\<close>

definition normalize_futures_tick :: "jsval \<Rightarrow> jsval" where
  "normalize_futures_tick raw =
     (case raw of
        JObj _ \<Rightarrow>
          (let n = to_number (first_field raw [''ltp'', ''price'', ''lp'']); ltp = (if is_finite n then JNum n else Undefined);
               f = first_field raw
           in JObj [(''price'', ltp), (''ltp'', ltp), (''lp'', ltp), (''change'', f [''change'', ''net_change'']),
                (''change_percent'', f [''change_percent'', ''change_pct'', ''percent_change'']),
                (''changePct'', f [''change_pct'', ''change_percent'', ''percent_change'']), (''oi'', f [''oi'']),
                (''oi_change'', f [''oi_change'', ''oiChange'']), (''volume'', f [''volume'']), (''bid'', f [''bid'', ''bid_price'']),
                (''ask'', f [''ask'', ''ask_price'']), (''bid_price'', f [''bid'', ''bid_price'']),
                (''ask_price'', f [''ask'', ''ask_price'']), (''iv'', f [''iv'']), (''delta'', f [''delta'']), (''gamma'', f [''gamma'']),
                (''theta'', f [''theta'']), (''vega'', f [''vega''])])
      | _ \<Rightarrow> JNull)"

definition tick_keys :: "string \<Rightarrow> string list" where
  "tick_keys key = [key, if ends_with key ''.NS'' then take (length key - 3) key else key @ ''.NS'']"

fun lookup_keys :: "string list \<Rightarrow> quote_map \<Rightarrow> quote_map \<Rightarrow> jsval" where
  "lookup_keys [] live futures = JNull"
| "lookup_keys (k # ks) live futures =
     (case map_of live k of
        Some q \<Rightarrow> JObj q
      | None \<Rightarrow> (case map_of futures k of Some q \<Rightarrow> normalize_futures_tick (JObj q) | None \<Rightarrow> lookup_keys ks live futures))"

definition lookup_live_tick :: "jsval \<Rightarrow> quote_map \<Rightarrow> quote_map \<Rightarrow> jsval" where
  "lookup_live_tick tsym live futures =
     (let key = symbol_text tsym in if key = [] then JNull else lookup_keys (tick_keys key) live futures)"

definition compared_fields :: "string list" where
  "compared_fields = [''ltp'', ''oi'', ''oiChange'', ''volume'', ''bid'', ''ask'', ''iv'', ''delta'', ''gamma'', ''theta'', ''vega'',
     ''change'', ''changePct'']"

definition side_changed :: "jsval \<Rightarrow> jsval \<Rightarrow> bool" where
  "side_changed prev nxt =
     (if \<not> truthy prev \<or> \<not> truthy nxt then strict_neq prev nxt
      else list_ex (\<lambda>k. to_finite_number (field prev k) \<noteq> to_finite_number (field nxt k)) compared_fields)"

text \<open>The fields of a leg and the fields of a tick they are taken from, the first that is there.\<close>

definition tick_sources :: "(string \<times> string list) list" where
  "tick_sources = [(''change'', [''change'']), (''changePct'', [''change_percent'', ''changePct'']), (''oi'', [''oi'']),
     (''oiChange'', [''oi_change'', ''oiChange'']), (''volume'', [''volume'']), (''bid'', [''bid_price'', ''bid'']),
     (''ask'', [''ask_price'', ''ask'']), (''iv'', [''iv'']), (''delta'', [''delta'']), (''gamma'', [''gamma'']), (''theta'', [''theta'']),
     (''vega'', [''vega''])]"

definition live_tick_price :: "jsval \<Rightarrow> jsnum option" where
  "live_tick_price tick = (case to_finite_number (first_field tick [''price'', ''ltp'', ''lp'']) of
     Some n \<Rightarrow> if Fin 0 < n then Some n else None | None \<Rightarrow> None)"

definition tick_fields :: "jsval \<Rightarrow> jsval \<Rightarrow> jsobj" where
  "tick_fields data tick =
     (case live_tick_price tick of Some n \<Rightarrow> [(''ltp'', JNum n)] | None \<Rightarrow> []) @
     map (\<lambda>(k, ks). (k, nullish (first_field tick ks) (field data k))) tick_sources"

definition patch_side_from_tick :: "jsval \<Rightarrow> jsval \<Rightarrow> jsval" where
  "patch_side_from_tick data tick =
     (if \<not> truthy tick then data
      else
        let nxt = JObj (spread (fields_of data) (tick_fields data tick)) in
        if side_changed data nxt then nxt else data)"

section \<open>The subscriptions of the chain\<close>

datatype chain_message = ChainSubscribe "string list" | ChainUnsubscribe "string list"

text \<open>
  \<open>ol_chain\<close> is the ref with the rows that ticks are patched into; \<open>ol_key\<close> and \<open>ol_subscribed\<close> are
  the refs of the subscription, \<open>ol_sent\<close> the messages given to the bridge.
\<close>

record options_live =
  ol_chain :: "option_row list"
  ol_key :: string
  ol_subscribed :: "string list"
  ol_sent :: "chain_message list"

definition new_options_live :: options_live where
  "new_options_live = \<lparr> ol_chain = [], ol_key = [], ol_subscribed = [], ol_sent = [] \<rparr>"

fun text_less :: "string \<Rightarrow> string \<Rightarrow> bool" where
  "text_less [] [] = False"
| "text_less [] (_ # _) = True"
| "text_less (_ # _) [] = False"
| "text_less (c # s) (d # t) =
     ((of_char c :: nat) < of_char d \<or> ((of_char c :: nat) = of_char d \<and> text_less s t))"

definition first_seen :: "string list \<Rightarrow> string list" where
  "first_seen ss = unique ss"

definition chain_symbols :: "jsval list \<Rightarrow> jsval \<Rightarrow> string list" where
  "chain_symbols stream underlying =
     (let syms = first_seen (filter (\<lambda>s. s \<noteq> []) (map symbol_text (stream @ [JStr (get_chart_symbol underlying)])))
      in sort_by (\<lambda>a b. text_less b a) (map (\<lambda>s. case normalize_symbol (JStr s) of Some t \<Rightarrow> t | None \<Rightarrow> s) syms))"

definition options_ws_send :: "string list \<Rightarrow> options_live \<Rightarrow> options_live" where
  "options_ws_send symbols s = s\<lparr> ol_sent := ol_sent s @ [ChainSubscribe symbols] \<rparr>"

definition options_ws_unsubscribe :: "string list \<Rightarrow> options_live \<Rightarrow> options_live" where
  "options_ws_unsubscribe symbols s = (if symbols = [] then s else s\<lparr> ol_sent := ol_sent s @ [ChainUnsubscribe symbols] \<rparr>)"

definition subscribe_chain :: "jsval \<Rightarrow> jsval list \<Rightarrow> jsval \<Rightarrow> options_live \<Rightarrow> options_live" where
  "subscribe_chain source stream underlying s =
     (let symbols = chain_symbols stream underlying; key = join '','' symbols in
      if \<not> is_live_chain_source source \<or> key = [] \<or> key = ol_key s then s
      else options_ws_send symbols ((options_ws_unsubscribe (ol_subscribed s) s)\<lparr> ol_key := key, ol_subscribed := symbols \<rparr>))"

definition leave_chain :: "options_live \<Rightarrow> options_live" where
  "leave_chain s = (options_ws_unsubscribe (ol_subscribed s) s)\<lparr> ol_key := [], ol_subscribed := [] \<rparr>"

section \<open>Live updates of the rows\<close>

definition show_chain :: "option_row list \<Rightarrow> options_live \<Rightarrow> options_live" where
  "show_chain rows s = (if rows = [] then s else s\<lparr> ol_chain := rows \<rparr>)"

definition forget_chain :: "options_live \<Rightarrow> options_live" where
  "forget_chain s = s\<lparr> ol_chain := [] \<rparr>"

definition patch_leg_live :: "quote_map \<Rightarrow> quote_map \<Rightarrow> jsval \<Rightarrow> jsval" where
  "patch_leg_live live futures leg =
     (let tsym = upper (to_string (js_or (field leg ''tsym'') (JStr []))) in
      if tsym = [] then leg else patch_side_from_tick leg (lookup_live_tick (JStr tsym) live futures))"

definition patch_row_live :: "quote_map \<Rightarrow> quote_map \<Rightarrow> option_row \<Rightarrow> option_row" where
  "patch_row_live live futures row =
     row\<lparr> op_ce := patch_leg_live live futures (op_ce row), op_pe := patch_leg_live live futures (op_pe row) \<rparr>"

definition live_spot :: "quote_map \<Rightarrow> quote_map \<Rightarrow> jsval \<Rightarrow> jsnum option" where
  "live_spot live futures underlying =
     (let q = js_or (lookup_live_tick (JStr (get_chart_symbol underlying)) live futures) (lookup_live_tick underlying live futures)
      in if \<not> truthy q then None
         else case to_finite_number (first_field q [''price'', ''ltp'', ''lp'']) of
             Some n \<Rightarrow> if Fin 0 < n then Some n else None
           | None \<Rightarrow> None)"

text \<open>The effect on a tick: the new price of the underlying and the new rows, where there are any.\<close>

definition chain_tick ::
  "jsval \<Rightarrow> jsval \<Rightarrow> quote_map \<Rightarrow> quote_map \<Rightarrow> options_live \<Rightarrow> options_live \<times> jsnum option \<times> option_row list option" where
  "chain_tick source underlying live futures s =
     (if \<not> is_live_chain_source source \<or> ol_chain s = [] then (s, None, None)
      else
        let rows = map (patch_row_live live futures) (ol_chain s); spot = live_spot live futures underlying in
        if rows = ol_chain s then (s, spot, None) else (s\<lparr> ol_chain := rows \<rparr>, spot, Some rows))"

section \<open>Reconciliation by batch quotes\<close>

definition reconcile_request :: "jsval list \<Rightarrow> option_row list \<Rightarrow> string list option" where
  "reconcile_request stream rows =
     (let syms = filter (\<lambda>s. s \<noteq> []) (map symbol_text stream) in if syms = [] \<or> rows = [] then None else Some syms)"

definition batch_tick :: "jsobj \<Rightarrow> string \<Rightarrow> jsval" where
  "batch_tick quotes tsym =
     js_or (own quotes tsym)
       (js_or (own quotes (tsym @ ''.NS'')) (own quotes (if ends_with tsym ''.NS'' then take (length tsym - 3) tsym else tsym)))"

definition reconcile_leg :: "jsobj \<Rightarrow> jsval \<Rightarrow> jsval" where
  "reconcile_leg quotes leg =
     (case field leg ''tsym'' of
        JStr t \<Rightarrow> if t = [] \<or> \<not> truthy (batch_tick quotes t) then leg else patch_side_from_tick leg (batch_tick quotes t)
      | _ \<Rightarrow> leg)"

definition reconcile_chain_oi :: "jsobj option \<Rightarrow> option_row list \<Rightarrow> option_row list" where
  "reconcile_chain_oi answer rows =
     (case answer of
        None \<Rightarrow> rows
      | Some quotes \<Rightarrow> map (\<lambda>row. row\<lparr> op_ce := reconcile_leg quotes (op_ce row), op_pe := reconcile_leg quotes (op_pe row) \<rparr>) rows)"

section \<open>Lemmas on the formats\<close>

lemma positive_numberD: "positive_number v = Some n \<Longrightarrow> is_finite n \<and> Fin 0 < n"
  by (auto simp: positive_number_def Let_def split: if_splits)

text \<open>A price is shown only from a live source, and never as zero.\<close>

lemma price_not_zero:
  assumes "format_option_price locale_num v source False bid ask no_fallback \<noteq> ''-''"
  obtains n where "is_live_chain_source source" "is_finite n" "n \<noteq> Fin 0"
    "format_option_price locale_num v source False bid ask no_fallback = locale_num 2 2 n"
  using assms that
  by (auto simp: format_option_price_def Let_def split: if_splits option.splits)

section \<open>Lemmas on the merge of chains\<close>

lemma merge_strikes [simp]: "map op_strike (merge_chain_rows prev rows) = map op_strike rows"
  by (auto simp: merge_chain_rows_def o_def split: option.split)

definition leg_price :: "jsval \<Rightarrow> jsnum option" where
  "leg_price leg = positive_number (field leg ''ltp'')"

text \<open>A leg keeps its price where the new one has none, and takes the new one where it has.\<close>

lemma merge_side_price:
  assumes "truthy incoming" "truthy existing"
  shows "leg_price (merge_side incoming existing) =
    (case leg_price incoming of Some n \<Rightarrow> Some n | None \<Rightarrow> leg_price existing)"
proof -
  have d: "distinct (map fst [(''ltp'', a), (''bid'', b), (''ask'', c), (''oi'', d), (''change'', e), (''changePct'', f)])"
    for a b c d e f :: jsval by simp
  show ?thesis using assms
    by (auto simp: merge_side_def leg_price_def positive_number_def Let_def own_spread [OF d] own_Cons simp del: fields_of.simps split: if_splits)
qed

lemma row_atD: "row_at rows k = Some r \<Longrightarrow> r \<in> set rows \<and> op_strike r = k"
  by (simp add: row_at_def find_Some_iff) (metis length_rev nth_mem set_rev)

lemma merged_row_price:
  assumes "row \<in> set rows" "row_at prev (op_strike row) = Some old" "truthy (op_ce row)" "truthy (op_ce old)"
    "leg_price (op_ce old) = Some n"
  shows "\<exists>r \<in> set (merge_chain_rows prev rows). op_strike r = op_strike row \<and> leg_price (op_ce r) \<noteq> None"
proof -
  have "prev \<noteq> []" "rows \<noteq> []" using assms(1,2) by (auto simp: row_at_def)
  then show ?thesis using assms
    by (auto simp: merge_chain_rows_def merge_side_price split: option.splits intro!: bexI [of _ row])
qed

section \<open>Lemmas on ticks\<close>

lemma tick_fields_distinct: "distinct (map fst (tick_fields data tick))"
  by (simp add: tick_fields_def tick_sources_def split: option.split)

lemma field_fields_of: "field d k = own (fields_of d) k"
  by (cases d) simp_all

lemma map_of_table: "map_of (map (\<lambda>(k, ks). (k, g k ks)) xs) k = map_option (g k) (map_of xs k)"
  by (induction xs) auto

lemma patched_field:
  "field (JObj (spread (fields_of data) (tick_fields data tick))) k =
     (if k = ''ltp'' then (case live_tick_price tick of Some n \<Rightarrow> JNum n | None \<Rightarrow> field data k)
      else case map_of tick_sources k of Some ks \<Rightarrow> nullish (first_field tick ks) (field data k) | None \<Rightarrow> field data k)"
proof -
  have t: "map_of tick_sources ''ltp'' = None" by (simp add: tick_sources_def)
  have m: "map_of (tick_fields data tick) k =
      (if k = ''ltp'' then map_option JNum (live_tick_price tick)
       else map_option (\<lambda>ks. nullish (first_field tick ks) (field data k)) (map_of tick_sources k))"
    by (auto simp: tick_fields_def map_add_def map_of_table t split: option.split)
  show ?thesis unfolding field_JObj own_spread_case [OF tick_fields_distinct] m
    by (simp add: field_fields_of split: option.split)
qed

text \<open>A tick without a positive price keeps the last one.\<close>

lemma patch_leg_price:
  assumes "truthy tick" "live_tick_price tick = None"
  shows "field (patch_side_from_tick data tick) ''ltp'' = field data ''ltp''"
  using assms by (simp add: patch_side_from_tick_def Let_def patched_field del: field_JObj)

text \<open>
  The fields of a tick on a leg that has already taken it are the fields the leg has: patching twice is
  patching once.
\<close>

lemma tick_fields_again:
  defines "nxt \<equiv> \<lambda>d t. JObj (spread (fields_of d) (tick_fields d t))"
  shows "field (nxt (nxt data tick) tick) k = field (nxt data tick) k"
proof -
  have n: "nullish a (nullish a b) = nullish a b" for a b :: jsval by (simp add: nullish_def)
  show ?thesis unfolding nxt_def patched_field by (simp add: n split: option.split)
qed

lemma patch_idem: "patch_side_from_tick (patch_side_from_tick data tick) tick = patch_side_from_tick data tick"
proof (cases "truthy tick")
  case True
  let ?n = "JObj (spread (fields_of data) (tick_fields data tick))"
  have "\<not> side_changed ?n (JObj (spread (fields_of ?n) (tick_fields ?n tick)))"
    unfolding side_changed_def list_ex_iff tick_fields_again by simp
  then show ?thesis using True by (simp add: patch_side_from_tick_def Let_def)
qed (simp add: patch_side_from_tick_def)

lemma patch_keeps_tsym: "field (patch_side_from_tick data tick) ''tsym'' = field data ''tsym''"
  by (simp add: patch_side_from_tick_def Let_def patched_field tick_sources_def del: field_JObj)

lemma patch_leg_live_idem: "patch_leg_live live futures (patch_leg_live live futures leg) = patch_leg_live live futures leg"
  by (simp add: patch_leg_live_def Let_def patch_keeps_tsym patch_idem del: field_JObj)

lemma patch_row_live_idem: "patch_row_live live futures (patch_row_live live futures row) = patch_row_live live futures row"
  by (simp add: patch_row_live_def patch_leg_live_idem)

text \<open>So the same quotes render the chain at most once.\<close>

lemma tick_renders_once:
  assumes "chain_tick source underlying live futures s = (s', spot, rows)"
  shows "chain_tick source underlying live futures s' = (s', spot, None)"
proof -
  have "map (patch_row_live live futures) (map (patch_row_live live futures) rs) = map (patch_row_live live futures) rs" for rs
    by (simp add: patch_row_live_idem)
  then show ?thesis using assms by (auto simp: chain_tick_def Let_def split: if_splits)
qed

lemma tick_keeps_strikes:
  "chain_tick source underlying live futures s = (s', spot, Some rows) \<Longrightarrow> map op_strike rows = map op_strike (ol_chain s) \<and> ol_chain s' = rows"
  by (auto simp: chain_tick_def Let_def patch_row_live_def o_def split: if_splits)

text \<open>
  Where the rows and the source arrive together the effect for the rows runs first and the one for the
  source after it: the rows are forgotten, and no tick reaches the chain until its rows change again.
\<close>

lemma first_chain_forgotten:
  "chain_tick source underlying live futures (forget_chain (show_chain rows s)) = (forget_chain (show_chain rows s), None, None)"
  by (simp add: chain_tick_def forget_chain_def)

section \<open>Lemmas on the subscriptions\<close>

fun chain_apply :: "chain_message \<Rightarrow> string set \<Rightarrow> string set" where
  "chain_apply (ChainSubscribe ss) S = S \<union> set ss"
| "chain_apply (ChainUnsubscribe ss) S = S - set ss"

definition chain_streamed :: "options_live \<Rightarrow> string set" where
  "chain_streamed s = fold chain_apply (ol_sent s) {}"

lemma chain_streamed_send:
  "chain_streamed (options_ws_send ss s) = chain_streamed s \<union> set ss"
  "chain_streamed (options_ws_unsubscribe ss s) = chain_streamed s - set ss"
  by (simp_all add: chain_streamed_def options_ws_send_def options_ws_unsubscribe_def)

lemma chain_streamed_frame [simp]: "chain_streamed (s\<lparr> ol_key := k, ol_subscribed := ss \<rparr>) = chain_streamed s"
  by (simp add: chain_streamed_def)

lemma options_ws_subscribed [simp]: "ol_subscribed (options_ws_send ss s) = ol_subscribed s"
  by (simp add: options_ws_send_def)

text \<open>The chain has subscribed exactly the contracts it holds, and after it is left none of them.\<close>

lemma subscribe_chain_in_step:
  assumes "chain_streamed s = set (ol_subscribed s)"
  shows "chain_streamed (subscribe_chain source stream underlying s) = set (ol_subscribed (subscribe_chain source stream underlying s))"
  using assms by (auto simp: subscribe_chain_def Let_def chain_streamed_send)

lemma leave_chain_clean: "chain_streamed s = set (ol_subscribed s) \<Longrightarrow> chain_streamed (leave_chain s) = {}"
  by (simp add: leave_chain_def chain_streamed_send)

end
