(* ===== verification/PaperOptions.thy ===== *)
theory PaperOptions
  imports WatchlistStore
begin

text \<open>
  The paper trades of the options desk, \<open>frontend/src/stores/useOptionsStore.js\<close>: orders, the positions
  that filled orders make up, and the counters of their ids, which belong to the module and start again
  with every load of the page, while positions and orders are stored in the browser. The counters stay
  far below \<open>2 ^ 53\<close>, so an id is the number itself. Lots and premiums are numbers, as the desk passes
  them, and \<open>new Date().toISOString()\<close> is the argument \<open>stamp\<close>.
\<close>

section \<open>State and operations\<close>

record paper_options =
  po_positions :: "jsobj list"
  po_orders :: "jsobj list"
  po_next_order :: nat
  po_next_position :: nat

definition new_paper_options :: paper_options where
  "new_paper_options = \<lparr> po_positions = [], po_orders = [], po_next_order = 1, po_next_position = 1 \<rparr>"

definition counter_id :: "nat \<Rightarrow> jsval" where
  "counter_id n = JNum (Fin (of_nat n))"

definition num_own :: "jsobj \<Rightarrow> string \<Rightarrow> jsnum" where
  "num_own p k = (case own p k of JNum n \<Rightarrow> n | _ \<Rightarrow> NaN)"

definition option_order :: "string \<Rightarrow> nat \<Rightarrow> jsobj \<Rightarrow> jsobj" where
  "option_order stamp n data =
     spread (spread [(''id'', counter_id n)] data)
       [(''status'', JStr (if own data ''orderType'' = JStr ''MARKET'' then ''FILLED'' else ''PENDING'')), (''timestamp'', JStr stamp)]"

definition contract_key :: "string list" where
  "contract_key = [''symbol'', ''strike'', ''type'', ''side'', ''expiry'']"

definition same_contract :: "jsobj \<Rightarrow> jsobj \<Rightarrow> bool" where
  "same_contract p order = list_all (\<lambda>k. js_same (own p k) (own order k)) contract_key"

definition opened_position :: "string \<Rightarrow> nat \<Rightarrow> jsobj \<Rightarrow> jsobj" where
  "opened_position stamp n order =
     [(''id'', counter_id n), (''symbol'', own order ''symbol''), (''strike'', own order ''strike''), (''type'', own order ''type''),
      (''side'', own order ''side''), (''lots'', own order ''lots''), (''lotSize'', own order ''lotSize''),
      (''premium'', own order ''premium''), (''expiry'', nullish (own order ''expiry'') JNull), (''openedAt'', JStr stamp)]"

definition added_lots :: "jsobj \<Rightarrow> jsobj \<Rightarrow> jsnum" where
  "added_lots existing order = num_own existing ''lots'' + num_own order ''lots''"

definition average_premium :: "jsobj \<Rightarrow> jsobj \<Rightarrow> jsnum" where
  "average_premium existing order =
     (num_own existing ''premium'' * num_own existing ''lots'' + num_own order ''premium'' * num_own order ''lots'') /
     added_lots existing order"

definition add_position :: "string \<Rightarrow> jsobj \<Rightarrow> paper_options \<Rightarrow> paper_options" where
  "add_position stamp order s =
     (case find (\<lambda>p. same_contract p order) (po_positions s) of
        Some existing \<Rightarrow>
          s\<lparr> po_positions := map (\<lambda>p. if js_same (own p ''id'') (own existing ''id'')
            then spread p [(''lots'', JNum (added_lots existing order)), (''premium'', JNum (average_premium existing order))] else p)
            (po_positions s) \<rparr>
      | None \<Rightarrow>
          s\<lparr> po_positions := opened_position stamp (po_next_position s) order # po_positions s,
             po_next_position := Suc (po_next_position s) \<rparr>)"

definition place_option_order :: "string \<Rightarrow> jsobj \<Rightarrow> paper_options \<Rightarrow> paper_options" where
  "place_option_order stamp data s =
     (let order = option_order stamp (po_next_order s) data;
          s1 = s\<lparr> po_orders := order # po_orders s, po_next_order := Suc (po_next_order s) \<rparr>
      in if own order ''status'' = JStr ''FILLED'' then add_position stamp order s1 else s1)"

definition close_option_position :: "jsval \<Rightarrow> paper_options \<Rightarrow> paper_options" where
  "close_option_position i s = s\<lparr> po_positions := filter (\<lambda>p. \<not> js_same (own p ''id'') i) (po_positions s) \<rparr>"

text \<open>A load of the page: the module starts anew, positions and orders come back from the storage.\<close>

definition reload_options :: "paper_options \<Rightarrow> paper_options" where
  "reload_options s = s\<lparr> po_next_order := 1, po_next_position := 1 \<rparr>"

datatype paper_event = PlaceOption string jsobj | CloseOption jsval | ReloadPage

fun paper_step :: "paper_event \<Rightarrow> paper_options \<Rightarrow> paper_options" where
  "paper_step (PlaceOption stamp data) s = place_option_order stamp data s"
| "paper_step (CloseOption i) s = close_option_position i s"
| "paper_step ReloadPage s = reload_options s"

section \<open>Lemmas on orders\<close>

lemma order_fields:
  "k \<notin> {''status'', ''timestamp'', ''id''} \<Longrightarrow> distinct (map fst data) \<Longrightarrow> own (option_order stamp n data) k = own data k"
  by (simp add: option_order_def own_spread own_Cons own_spread_case)
    (auto simp: own_def split: option.split dest!: map_of_SomeD intro: rev_image_eqI)

lemma order_status: "own (option_order stamp n data) ''status'' =
    JStr (if own data ''orderType'' = JStr ''MARKET'' then ''FILLED'' else ''PENDING'')"
  by (simp add: option_order_def own_spread own_Cons)

text \<open>An order that is not a market order stays as it was placed: nothing fills or cancels it.\<close>

lemma orders_grow: "\<exists>new. po_orders (paper_step e s) = new @ po_orders s"
  by (cases e) (auto simp: place_option_order_def add_position_def close_option_position_def reload_options_def Let_def split: option.split)

lemma pending_forever: "x \<in> set (po_orders s) \<Longrightarrow> x \<in> set (po_orders (fold paper_step es s))"
proof (induction es arbitrary: s)
  case (Cons e es)
  then show ?case using orders_grow [of e s] by auto
qed simp

section \<open>Lemmas on positions\<close>

lemma js_same_num [simp]: "js_same (JNum (Fin a)) (JNum (Fin b)) \<longleftrightarrow> a = b"
  by (simp add: js_same_def)

lemma js_same_sym: "js_same a b \<longleftrightarrow> js_same b a"
  by (cases a; cases b) (auto simp: js_same_def num_eq_def)

lemma js_same_trans: "js_same a b \<Longrightarrow> js_same b c \<Longrightarrow> js_same a c"
  by (cases a; cases b; cases c) (auto simp: js_same_def num_eq_def)

text \<open>Within one load of the page positions have ids of their own, below the counter.\<close>

definition id_number :: "jsobj \<Rightarrow> nat option" where
  "id_number p = (case own p ''id'' of JNum (Fin r) \<Rightarrow> if 0 \<le> r \<and> r = of_int \<lfloor>r\<rfloor> then Some (nat \<lfloor>r\<rfloor>) else None | _ \<Rightarrow> None)"

lemma counter_id_number: "own p ''id'' = counter_id n \<longleftrightarrow> id_number p = Some n"
proof
  assume "id_number p = Some n"
  then show "own p ''id'' = counter_id n"
    by (auto simp: id_number_def counter_id_def split: jsval.splits jsnum.splits if_splits)
qed (simp add: id_number_def counter_id_def)

definition ids_ok :: "paper_options \<Rightarrow> bool" where
  "ids_ok s \<longleftrightarrow> distinct (map id_number (po_positions s)) \<and>
     (\<forall>p \<in> set (po_positions s). \<exists>n < po_next_position s. id_number p = Some n)"

lemma ids_ok_cong:
  assumes "ids_ok s" "map id_number (po_positions t) = map id_number (po_positions s)" "po_next_position t = po_next_position s"
  shows "ids_ok t"
proof -
  have e: "(\<forall>p \<in> set ps. \<exists>n < m. id_number p = Some n) \<longleftrightarrow> (\<forall>i \<in> set (map id_number ps). \<exists>n < m. i = Some n)"
    for ps m by auto
  show ?thesis using assms(1) unfolding ids_ok_def e assms(2,3) .
qed

lemma spread_id: "distinct (map fst b) \<Longrightarrow> ''id'' \<notin> set (map fst b) \<Longrightarrow> id_number (spread p b) = id_number p"
  by (simp add: id_number_def own_spread)

lemma opened_id: "id_number (opened_position stamp n order) = Some n"
  by (simp add: counter_id_number [symmetric] opened_position_def own_Cons)

lemma add_position_ids:
  assumes "ids_ok s"
  shows "ids_ok (add_position stamp order s)"
proof (cases "find (\<lambda>p. same_contract p order) (po_positions s)")
  case None
  then show ?thesis using assms by (auto simp: add_position_def ids_ok_def opened_id less_Suc_eq)
next
  case (Some existing)
  let ?f = "\<lambda>p. if js_same (own p ''id'') (own existing ''id'')
    then spread p [(''lots'', JNum (added_lots existing order)), (''premium'', JNum (average_premium existing order))] else p"
  have i: "id_number (?f p) = id_number p" for p by (simp add: spread_id)
  have "map id_number (map ?f ps) = map id_number ps" for ps by (simp only: map_map o_def i)
  then show ?thesis using assms by (auto simp: add_position_def Some intro: ids_ok_cong)
qed

lemma paper_step_ids: "ids_ok s \<Longrightarrow> e \<noteq> ReloadPage \<Longrightarrow> ids_ok (paper_step e s)"
proof (cases e)
  case (PlaceOption stamp data)
  assume s: "ids_ok s"
  then have "ids_ok (s\<lparr> po_orders := x, po_next_order := y \<rparr>)" for x y by (simp add: ids_ok_def)
  then show ?thesis by (simp add: PlaceOption place_option_order_def Let_def add_position_ids)
next
  case (CloseOption i)
  assume "ids_ok s"
  then show ?thesis by (auto simp: CloseOption close_option_position_def ids_ok_def distinct_map intro: inj_on_subset)
qed simp

lemma paper_run_ids: "ids_ok s \<Longrightarrow> ReloadPage \<notin> set es \<Longrightarrow> ids_ok (fold paper_step es s)"
  by (induction es arbitrary: s) (auto simp: paper_step_ids)

lemma new_ids_ok: "ids_ok new_paper_options"
  by (simp add: ids_ok_def new_paper_options_def)

text \<open>So a close removes exactly one position.\<close>

lemma close_one:
  assumes "ids_ok s" "p \<in> set (po_positions s)"
  shows "po_positions (close_option_position (own p ''id'') s) = remove1 p (po_positions s)"
proof -
  obtain n where n: "own p ''id'' = counter_id n" using assms by (auto simp: ids_ok_def counter_id_number)
  have "js_same (own q ''id'') (own p ''id'') \<longleftrightarrow> q = p" if q: "q \<in> set (po_positions s)" for q
  proof -
    obtain m where m: "own q ''id'' = counter_id m" using assms(1) q by (auto simp: ids_ok_def counter_id_number)
    have "js_same (own q ''id'') (own p ''id'') \<longleftrightarrow> id_number q = id_number p"
      using n m counter_id_number [of q m] counter_id_number [of p n] by (simp add: counter_id_def)
    also have "\<dots> \<longleftrightarrow> q = p"
      using assms q by (auto simp: ids_ok_def distinct_map inj_on_def)
    finally show ?thesis .
  qed
  then have "filter (\<lambda>q. \<not> js_same (own q ''id'') (own p ''id'')) (po_positions s) = filter (\<lambda>q. q \<noteq> p) (po_positions s)"
    by (intro filter_cong) auto
  moreover have "distinct (po_positions s)" using assms(1) by (simp add: ids_ok_def distinct_map)
  ultimately show ?thesis by (simp add: close_option_position_def distinct_remove1_removeAll removeAll_filter_not_eq eq_commute [of p])
qed

section \<open>Lots of a contract\<close>

text \<open>Whole lots; the positions of a contract hold the lots of its filled orders.\<close>

definition lots_of :: "jsobj list \<Rightarrow> jsobj \<Rightarrow> int" where
  "lots_of ps c = sum_list (map (\<lambda>p. if same_contract p c then (case own p ''lots'' of JNum (Fin r) \<Rightarrow> \<lfloor>r\<rfloor> | _ \<Rightarrow> 0) else 0) ps)"

definition one_position_each :: "paper_options \<Rightarrow> bool" where
  "one_position_each s \<longleftrightarrow> sorted_wrt (\<lambda>p q. \<not> same_contract p q) (po_positions s)"

lemma same_contract_cong:
  assumes "\<And>k. k \<in> set contract_key \<Longrightarrow> own p k = own p' k" "\<And>k. k \<in> set contract_key \<Longrightarrow> own q k = own q' k"
  shows "same_contract p q \<longleftrightarrow> same_contract p' q'"
  using assms by (auto simp: same_contract_def list_all_iff)

lemma same_contract_sym: "same_contract p q \<longleftrightarrow> same_contract q p"
  by (auto simp: same_contract_def list_all_iff js_same_sym)

lemma same_contract_trans: "same_contract p q \<Longrightarrow> same_contract q r \<Longrightarrow> same_contract p r"
  by (auto simp: same_contract_def list_all_iff intro: js_same_trans)

lemma find_split: "find P xs = Some x \<Longrightarrow> \<exists>ys zs. xs = ys @ x # zs \<and> P x"
  by (induction xs) (auto split: if_splits intro: exI [of _ "[]"], metis append_Cons)

lemma lots_append [simp]: "lots_of (ps @ qs) c = lots_of ps c + lots_of qs c" "lots_of [] c = 0"
  "lots_of (p # ps) c = (if same_contract p c then (case own p ''lots'' of JNum (Fin r) \<Rightarrow> \<lfloor>r\<rfloor> | _ \<Rightarrow> 0) else 0) + lots_of ps c"
  by (simp_all add: lots_of_def)

text \<open>A filled order adds its lots to its own contract and to no other.\<close>

lemma add_position_lots:
  assumes "ids_ok s" "own order ''lots'' = JNum (Fin (of_int n))" "own order ''expiry'' \<noteq> Undefined"
    and "\<And>p. p \<in> set (po_positions s) \<Longrightarrow> \<exists>l. own p ''lots'' = JNum (Fin (of_int l)) \<and> \<bar>l + n\<bar> \<le> 2 ^ 53"
  shows "lots_of (po_positions (add_position stamp order s)) c = lots_of (po_positions s) c + (if same_contract order c then n else 0)"
proof (cases "find (\<lambda>p. same_contract p order) (po_positions s)")
  case None
  have "nullish (own order ''expiry'') JNull = own order ''expiry''" using assms(3) by (simp add: nullish_def is_nullish_def)
  then have "same_contract (opened_position stamp m order) c \<longleftrightarrow> same_contract order c" for m
    by (intro same_contract_cong) (auto simp: contract_key_def opened_position_def own_Cons)
  then show ?thesis by (simp add: add_position_def None opened_position_def own_Cons assms(2))
next
  case (Some e)
  obtain ys zs where sp: "po_positions s = ys @ e # zs" and se: "same_contract e order" using find_split [OF Some] by blast
  obtain l where l: "own e ''lots'' = JNum (Fin (of_int l))" "\<bar>l + n\<bar> \<le> 2 ^ 53" using assms(4) [of e] sp by auto
  obtain i where i: "own e ''id'' = counter_id i" using assms(1) sp by (auto simp: ids_ok_def counter_id_number)
  let ?u = "[(''lots'', JNum (added_lots e order)), (''premium'', JNum (average_premium e order))]"
  have "\<not> js_same (own p ''id'') (own e ''id'')" if p: "p \<in> set ys \<union> set zs" for p
  proof
    have "\<exists>j. id_number p = Some j" using assms(1) p unfolding ids_ok_def sp by auto
    then obtain j where j: "own p ''id'' = counter_id j" by (auto simp: counter_id_number)
    assume "js_same (own p ''id'') (own e ''id'')"
    then have "id_number p = id_number e" using i j counter_id_number [of p j] counter_id_number [of e i] by (simp add: counter_id_def)
    then show False using assms(1) p by (auto simp: ids_ok_def sp) (metis image_eqI)+
  qed
  then have m: "po_positions (add_position stamp order s) = ys @ spread e ?u # zs"
    unfolding add_position_def Some option.case using i by (simp add: sp map_idI counter_id_def)
  have "same_contract (spread e ?u) c \<longleftrightarrow> same_contract e c"
    by (rule same_contract_cong) (auto simp: contract_key_def own_spread)
  moreover have "same_contract e c \<longleftrightarrow> same_contract order c"
    using se same_contract_sym same_contract_trans by blast
  moreover have "own (spread e ?u) ''lots'' = JNum (Fin (of_int (l + n)))"
    using plus_int [OF l(2)] by (simp add: own_spread own_Cons added_lots_def num_own_def l(1) assms(2))
  ultimately show ?thesis by (simp add: m sp l(1))
qed

text \<open>
  After a load of the page the ids start again: a new position shares its id with an old one, and closing
  the new one closes both.
\<close>

lemma reload_closes_both:
  fixes s :: paper_options and stamp :: string and order p :: jsobj
  assumes "p \<in> set (po_positions s)" "own p ''id'' = counter_id 1"
    and "find (\<lambda>q. same_contract q order) (po_positions s) = None"
  defines "t \<equiv> add_position stamp order (reload_options s)"
  shows "p \<in> set (po_positions t) \<and> own (hd (po_positions t)) ''id'' = own p ''id'' \<and>
    p \<notin> set (po_positions (close_option_position (own (hd (po_positions t)) ''id'') t))"
  using assms(1-3)
  by (simp add: t_def add_position_def reload_options_def close_option_position_def opened_position_def own_Cons counter_id_def)

end
