(* ===== verification/OptionsDesk.thy ===== *)
theory OptionsDesk
  imports OptionChain PaperOptions Hydration
begin

text \<open>
  The options page, \<open>frontend/src/pages/OptionsPage.jsx\<close>: the chain as snapshots and answers fill it, the
  order form with its derived figures, the placing of an order, the value of the open positions, and the
  place of the floating panel. The markup, the chart of a contract and the hydration timers, which
  \<open>Hydration\<close> models, are left out. \<open>new Date(v)\<close> is \<open>date_ms\<close>, \<open>Date.parse\<close> is \<open>date_parse\<close>.
\<close>

section \<open>The chain of the page\<close>

record options_page =
  pg_underlying :: string
  pg_expiry :: jsval
  pg_expiries :: "jsval list"
  pg_price :: jsnum
  pg_chain :: "option_row list"
  pg_loading :: bool
  pg_error :: "jsval option"
  pg_updated :: "jsnum option"
  pg_source :: string
  pg_stream :: "jsval list"
  pg_skip :: bool
  pg_chart_ready :: bool

definition initial_options_page :: "bool \<Rightarrow> options_page" where
  "initial_options_page progressive =
     \<lparr> pg_underlying = ''NIFTY'', pg_expiry = JNull, pg_expiries = [], pg_price = Fin 0, pg_chain = [], pg_loading = False,
       pg_error = None, pg_updated = None, pg_source = [], pg_stream = [], pg_skip = False, pg_chart_ready = \<not> progressive \<rparr>"

text \<open>\<open>mergeSide\<close> of the page, for a snapshot: the old leg under the new one.\<close>

definition keep_quote :: "jsval \<Rightarrow> jsobj \<Rightarrow> jsobj" where
  "keep_quote prev merged =
     (let keep = (\<lambda>k o'. if \<not> truthy (own o' k) \<and> truthy (field prev k) then set_field k (field prev k) o' else o');
          fill = (\<lambda>k o'. if is_nullish (own o' k) \<and> \<not> is_nullish (field prev k) then set_field k (field prev k) o' else o')
      in fill ''changePct'' (fill ''change'' (keep ''oi'' (keep ''ask'' (keep ''bid'' (set_field ''ltp'' (JNum (to_number (field prev ''ltp''))) merged))))))"

definition merge_snapshot_side :: "jsval \<Rightarrow> jsval \<Rightarrow> jsval" where
  "merge_snapshot_side nxt prev =
     (if \<not> truthy nxt then js_or prev nxt
      else if \<not> truthy prev then nxt
      else
        let merged = spread (fields_of prev) (fields_of nxt) in
        JObj (if positive_number (field nxt ''ltp'') = None \<and> positive_number (field prev ''ltp'') \<noteq> None
              then keep_quote prev merged else merged))"

definition leg_fields :: "string list" where
  "leg_fields = [''ltp'', ''bid'', ''ask'', ''iv'', ''delta'', ''gamma'', ''theta'', ''vega'', ''oi'', ''oiChange'', ''volume'', ''change'',
     ''changePct'', ''tsym'', ''token'']"

fun is_number :: "jsval \<Rightarrow> bool" where
  "is_number (JNum _) = True"
| "is_number _ = False"

definition leg_equal :: "jsval \<Rightarrow> jsval \<Rightarrow> bool" where
  "leg_equal a b =
     (if \<not> truthy a \<or> \<not> truthy b then js_same a b
      else list_all (\<lambda>k. let x = field a k; y = field b k in
        if is_number x \<or> is_number y then num_eq (to_number x) (to_number y) else js_same x y) leg_fields)"

definition option_row_equal :: "option_row \<Rightarrow> option_row \<Rightarrow> bool" where
  "option_row_equal prev nxt =
     (num_eq (op_strike prev) (op_strike nxt) \<and> leg_equal (op_ce prev) (op_ce nxt) \<and> leg_equal (op_pe prev) (op_pe nxt))"

text \<open>The rows as the patch by strike sees them.\<close>

definition row_value :: "option_row \<Rightarrow> jsval" where
  "row_value r = JObj [(''strike'', JNum (op_strike r)), (''ce'', op_ce r), (''pe'', op_pe r)]"

definition value_row :: "jsval \<Rightarrow> option_row" where
  "value_row v = \<lparr> op_strike = strike_of (field v ''strike''), op_ce = field v ''ce'', op_pe = field v ''pe'' \<rparr>"

definition merge_snapshot_row :: "jsval \<Rightarrow> jsval \<Rightarrow> jsval" where
  "merge_snapshot_row prev nxt =
     row_value ((value_row nxt)\<lparr> op_ce := merge_snapshot_side (field nxt ''ce'') (field prev ''ce''),
       op_pe := merge_snapshot_side (field nxt ''pe'') (field prev ''pe'') \<rparr>)"

definition patch_chain :: "option_row list \<Rightarrow> option_row list \<Rightarrow> option_row list" where
  "patch_chain prev rows =
     map value_row
       (patch_rows (\<lambda>r. field r ''strike'') merge_snapshot_row
         (\<lambda>nxt prev merged. option_row_equal (value_row prev) (value_row merged)) (map row_value prev) (map row_value rows))"

definition patch_chain_rows :: "jsnum \<Rightarrow> bool \<Rightarrow> option_row list \<Rightarrow> options_page \<Rightarrow> options_page" where
  "patch_chain_rows now silent rows s =
     s\<lparr> pg_chain := patch_chain (pg_chain s) rows, pg_updated := if silent then pg_updated s else Some now \<rparr>"

definition select_first_expiry :: "jsval \<Rightarrow> jsval list \<Rightarrow> options_page \<Rightarrow> options_page" where
  "select_first_expiry was dates s =
     (if dates \<noteq> [] \<and> (\<not> truthy was \<or> was \<notin> set dates)
      then s\<lparr> pg_skip := True, pg_expiry := hd dates \<rparr> else s)"

fun is_array :: "jsval \<Rightarrow> bool" where
  "is_array (JArr _) = True"
| "is_array _ = False"

definition payload_rows :: "jsval \<Rightarrow> jsval \<Rightarrow> option_row list" where
  "payload_rows payload data =
     map transform_chain_row (elements (if is_array (field data ''chain'') then field data ''chain'' else field payload ''chain''))"

definition payload_time :: "(string \<Rightarrow> jsnum) \<Rightarrow> jsval \<Rightarrow> jsnum option" where
  "payload_time date_parse ts =
     (if \<not> truthy ts then None
      else
        let t = (case ts of JNum n \<Rightarrow> if Fin 1000000000000 < n then n else n * Fin 1000 | _ \<Rightarrow> date_parse (to_string ts))
        in if is_finite t then Some t else None)"

definition positive_or :: "jsnum \<Rightarrow> jsval \<Rightarrow> jsnum" where
  "positive_or d v = (case positive_number v of Some n \<Rightarrow> n | None \<Rightarrow> d)"

text \<open>
  The payload of a snapshot or a reconciliation; \<open>was\<close> is the selected expiry as the callback knows it,
  the one of the render it was made in.
\<close>

definition apply_chain_payload :: "(string \<Rightarrow> jsnum) \<Rightarrow> jsnum \<Rightarrow> bool \<Rightarrow> jsval \<Rightarrow> jsval \<Rightarrow> options_page \<Rightarrow> options_page" where
  "apply_chain_payload date_parse now silent was payload s =
     (if \<not> truthy payload then s
      else
        let data = nullish (field payload ''data'') payload;
            dates = nullish (field data ''expiry_dates'') (JArr []); src = lower_text (field data ''source'');
            s1 = s\<lparr> pg_source := if src = [] then ''tickalpha_cache'' else src \<rparr>;
            s2 = (if is_array dates then select_first_expiry was (elements dates) (s1\<lparr> pg_expiries := elements dates \<rparr>) else s1);
            s3 = (if truthy (field data ''selected_expiry'') \<and> \<not> truthy was
                  then s2\<lparr> pg_skip := True, pg_expiry := field data ''selected_expiry'' \<rparr> else s2);
            s4 = patch_chain_rows now silent (payload_rows payload data)
                   (s3\<lparr> pg_price := positive_or (pg_price s3) (field data ''underlying_price'') \<rparr>);
            s5 = s4\<lparr> pg_stream := elements (nullish (field payload ''stream_symbols'') (nullish (field data ''stream_symbols'') (JArr []))) \<rparr>
        in (case payload_time date_parse (nullish (field payload ''snapshot_ts'') (field data ''timestamp'')) of
              Some t \<Rightarrow> s5\<lparr> pg_updated := Some t \<rparr> | None \<Rightarrow> s5))"

text \<open>\<open>fetchChain\<close>, split at its request; the retry with fewer strikes answers in its place.\<close>

definition fetch_chain_started :: "bool \<Rightarrow> options_page \<Rightarrow> options_page" where
  "fetch_chain_started silent s = (if silent then s else s\<lparr> pg_loading := True, pg_error := None \<rparr>)"

definition fetch_chain_retries :: "string option \<Rightarrow> bool" where
  "fetch_chain_retries code = (code = Some ''ECONNABORTED'')"

definition no_feed_message :: jsval where
  "no_feed_message = JStr ''Option chain requires the TickAlpha live data feed. No fallback quotes shown - check with your admin that the data feed is connected.''"

definition fetch_chain_answered :: "jsnum \<Rightarrow> bool \<Rightarrow> jsval \<Rightarrow> jsval \<Rightarrow> options_page \<Rightarrow> options_page" where
  "fetch_chain_answered now silent expiry data s =
     (let src = lower_text (field data ''source''); s1 = s\<lparr> pg_source := src, pg_loading := (if silent then pg_loading s else False) \<rparr> in
      if \<not> is_live_chain_source (JStr src) then
        (if silent then s1 else s1\<lparr> pg_chain := [], pg_price := Fin 0, pg_error := Some no_feed_message \<rparr>)
      else
        let dates = elements (nullish (field data ''expiry_dates'') (JArr []));
            rows = map transform_chain_row (elements (nullish (field data ''chain'') (JArr [])));
            s2 = (if \<not> truthy expiry \<and> dates \<noteq> [] then s1\<lparr> pg_expiries := dates, pg_expiry := hd dates \<rparr> else s1\<lparr> pg_expiries := dates \<rparr>)
        in s2\<lparr> pg_price := positive_or (Fin 0) (field data ''underlying_price''),
               pg_chain := if silent then merge_chain_rows (pg_chain s) rows else rows,
               pg_stream := elements (nullish (field data ''stream_symbols'') (JArr [])), pg_updated := Some now,
               pg_error := if silent then pg_error s else None \<rparr>)"

definition fetch_chain_failed :: "bool \<Rightarrow> jsval \<Rightarrow> options_page \<Rightarrow> options_page" where
  "fetch_chain_failed silent detail s =
     (if silent then s
      else s\<lparr> pg_error := Some (nullish detail (JStr ''Failed to fetch option chain.'')), pg_chain := [], pg_loading := False \<rparr>)"

text \<open>The effect for a new underlying, with the snapshot that is at hand, if any.\<close>

definition underlying_changed :: "(string \<Rightarrow> jsnum) \<Rightarrow> jsnum \<Rightarrow> bool \<Rightarrow> jsval option \<Rightarrow> options_page \<Rightarrow> options_page" where
  "underlying_changed date_parse now progressive cached s =
     (let s1 = s\<lparr> pg_expiry := JNull \<rparr> in
      if progressive then
        (let s2 = s1\<lparr> pg_error := None, pg_loading := False \<rparr> in
         case cached of
           Some payload \<Rightarrow> (apply_chain_payload date_parse now False (pg_expiry s) payload s2)\<lparr> pg_chart_ready := True \<rparr>
         | None \<Rightarrow> s2\<lparr> pg_chain := [], pg_expiries := [], pg_chart_ready := False \<rparr>)
      else fetch_chain_started False (s1\<lparr> pg_chain := [], pg_expiries := [] \<rparr>))"

section \<open>Figures of the page\<close>

definition nearer_row :: "jsnum \<Rightarrow> option_row option \<Rightarrow> option_row \<Rightarrow> option_row option" where
  "nearer_row price closest row =
     (case closest of
        None \<Rightarrow> Some row
      | Some c \<Rightarrow> if \<bar>op_strike row - price\<bar> < \<bar>op_strike c - price\<bar> then Some row else Some c)"

definition nearest_row :: "jsnum \<Rightarrow> option_row list \<Rightarrow> option_row option" where
  "nearest_row price rows = foldl (nearer_row price) None rows"

definition days_to_expiry :: "(jsval \<Rightarrow> jsnum) \<Rightarrow> jsnum \<Rightarrow> jsval \<Rightarrow> jsnum option" where
  "days_to_expiry date_ms now expiry =
     (let d = date_ms expiry in
      if \<not> truthy expiry \<or> is_nan d then None else Some (math_max (Fin 0) (math_ceil ((d - now) / Fin 86400000))))"

definition page_analytics :: "(jsval \<Rightarrow> jsnum) \<Rightarrow> jsnum \<Rightarrow> options_page \<Rightarrow> options_analytics option" where
  "page_analytics date_ms now s =
     (if is_live_chain_source (JStr (pg_source s))
      then compute_options_analytics (pg_chain s) (pg_price s) (days_to_expiry date_ms now (pg_expiry s)) else None)"

definition row_of_strike :: "jsnum \<Rightarrow> option_row list \<Rightarrow> option_row option" where
  "row_of_strike strike rows = find (\<lambda>r. num_eq (op_strike r) strike) rows"

definition leg_of :: "string \<Rightarrow> option_row \<Rightarrow> jsval" where
  "leg_of type row = (if type = ''CE'' then op_ce row else op_pe row)"

definition current_ltp :: "option_row list \<Rightarrow> jsnum \<Rightarrow> string \<Rightarrow> jsnum" where
  "current_ltp rows strike type =
     (case row_of_strike strike rows of
        None \<Rightarrow> Fin 0
      | Some row \<Rightarrow> let v = to_number (field (leg_of type row) ''ltp'') in if Fin 0 < v then v else Fin 0)"

text \<open>The price of a leg as the order form shows it, and as a number for the chart.\<close>

definition leg_spread :: "jsval \<Rightarrow> jsnum option" where
  "leg_spread leg =
     (if is_nullish (field leg ''ask'') \<or> is_nullish (field leg ''bid'') \<or> \<not> Fin 0 < to_number (field leg ''ask'') then None
      else Some (to_number (field leg ''ask'') - to_number (field leg ''bid'')))"

definition strike_ltp :: "jsval \<Rightarrow> jsnum option" where
  "strike_ltp leg =
     (if \<not> truthy leg then None
      else case positive_number (field leg ''ltp'') of
          Some n \<Rightarrow> Some n
        | None \<Rightarrow> leg_quoted_price (field leg ''bid'') (field leg ''ask''))"

definition chart_live_price :: "jsval \<Rightarrow> jsnum \<Rightarrow> jsnum option" where
  "chart_live_price leg price = (case strike_ltp leg of Some n \<Rightarrow> Some n | None \<Rightarrow> if Fin 0 < price then Some price else None)"

definition chart_figure :: "string \<Rightarrow> jsval \<Rightarrow> jsnum option" where
  "chart_figure k leg =
     (if is_nullish (field leg k) \<or> \<not> is_finite (to_number (field leg k)) then None else Some (to_number (field leg k)))"

definition resolve_leg_premium :: "jsval \<Rightarrow> string" where
  "resolve_leg_premium leg =
     (if \<not> truthy leg then []
      else case positive_number (field leg ''ltp'') of
          Some n \<Rightarrow> number_to_string n
        | None \<Rightarrow>
            (case (positive_number (field leg ''bid''), positive_number (field leg ''ask'')) of
               (Some b, Some a) \<Rightarrow> to_fixed 2 ((b + a) / Fin 2)
             | (Some b, None) \<Rightarrow> number_to_string b
             | (None, Some a) \<Rightarrow> number_to_string a
             | (None, None) \<Rightarrow> []))"

section \<open>The order form\<close>

record option_form =
  og_strike :: "jsnum option"
  og_type :: string
  og_side :: string
  og_order_type :: string
  og_lots :: jsnum
  og_limit :: string
  og_premium :: string
  og_delta :: jsval
  og_iv :: jsval
  og_sheet :: bool
  og_panel :: bool

definition initial_option_form :: option_form where
  "initial_option_form = \<lparr> og_strike = None, og_type = ''CE'', og_side = ''BUY'', og_order_type = ''MARKET'', og_lots = Fin 1,
     og_limit = [], og_premium = [], og_delta = JNum (Fin 0), og_iv = JNum (Fin 0), og_sheet = False, og_panel = False \<rparr>"

text \<open>The effect that starts the form at the strike nearest to the price, whenever that strike changes.\<close>

definition restart_form :: "string \<Rightarrow> option_row option \<Rightarrow> option_form \<Rightarrow> option_form" where
  "restart_form source nearest f =
     (case nearest of
        None \<Rightarrow> f
      | Some row \<Rightarrow>
          if \<not> is_live_chain_source (JStr source) then f
          else
            let ltp = field (op_ce row) ''ltp'' in
            f\<lparr> og_strike := Some (op_strike row), og_type := ''CE'',
               og_premium := (if Fin 0 < to_number ltp then to_string ltp else []), og_delta := field (op_ce row) ''delta'',
               og_iv := field (op_ce row) ''iv'', og_side := ''BUY'', og_order_type := ''MARKET'', og_limit := [], og_lots := Fin 1 \<rparr>)"

definition select_option :: "bool \<Rightarrow> jsnum \<Rightarrow> string \<Rightarrow> jsval \<Rightarrow> option_form \<Rightarrow> option_form" where
  "select_option mobile strike type data f =
     f\<lparr> og_strike := Some strike, og_type := type, og_side := to_string (js_or (field data ''side'') (JStr ''BUY'')),
        og_premium := resolve_leg_premium data, og_delta := nullish (field data ''delta'') (JNum (Fin 0)),
        og_iv := nullish (field data ''iv'') (JNum (Fin 0)), og_sheet := (og_sheet f \<or> mobile) \<rparr>"

definition refresh_premium :: "string \<Rightarrow> jsval \<Rightarrow> option_form \<Rightarrow> option_form" where
  "refresh_premium source leg f =
     (if \<not> truthy leg \<or> \<not> is_live_chain_source (JStr source) \<or> resolve_leg_premium leg = [] then f
      else f\<lparr> og_premium := resolve_leg_premium leg \<rparr>)"

definition change_lots :: "jsnum \<Rightarrow> option_form \<Rightarrow> option_form" where
  "change_lots n f = f\<lparr> og_lots := math_max (Fin 1) n \<rparr>"

definition typed_lots :: "string \<Rightarrow> option_form \<Rightarrow> option_form" where
  "typed_lots text f = change_lots (num_or (number_of_string text) (Fin 1)) f"

definition premium_value :: "option_form \<Rightarrow> jsnum" where
  "premium_value f = num_or (number_of_string (og_premium f)) (Fin 0)"

definition form_price :: "option_form \<Rightarrow> jsnum" where
  "form_price f =
     (if og_order_type f = ''LIMIT'' then (if og_limit f = [] then premium_value f else number_of_string (og_limit f))
      else premium_value f)"

definition total_value :: "string \<Rightarrow> option_form \<Rightarrow> jsnum" where
  "total_value underlying f = og_lots f * get_lot_size (JStr underlying) * form_price f"

definition max_loss :: "string \<Rightarrow> option_form \<Rightarrow> jsnum option" where
  "max_loss underlying f =
     (if og_side f = ''SELL'' then Some (premium_value f * og_lots f * get_lot_size (JStr underlying)) else None)"

text \<open>Placing an order: a message, or the data of the order. A strike of zero counts as none.\<close>

datatype option_error = NoStrike | NoLivePremium

definition order_data :: "options_page \<Rightarrow> jsnum \<Rightarrow> option_form \<Rightarrow> jsobj" where
  "order_data s strike f =
     [(''symbol'', JStr (pg_underlying s @ '' '' @ number_to_string strike @ '' '' @ og_type f)), (''underlying'', JStr (pg_underlying s)),
      (''expiry'', pg_expiry s), (''strike'', JNum strike), (''type'', JStr (og_type f)), (''orderType'', JStr (og_order_type f)),
      (''side'', JStr (og_side f)), (''lots'', JNum (og_lots f)), (''lotSize'', JNum (get_lot_size (JStr (pg_underlying s)))),
      (''premium'', JNum (form_price f))]"

definition option_order_of :: "options_page \<Rightarrow> option_form \<Rightarrow> option_error + jsobj" where
  "option_order_of s f =
     (case og_strike f of
        None \<Rightarrow> Inl NoStrike
      | Some strike \<Rightarrow>
          if \<not> truthy (JNum strike) then Inl NoStrike
          else if \<not> is_live_chain_source (JStr (pg_source s)) \<or> premium_value f \<le> Fin 0 then Inl NoLivePremium
          else Inr (order_data s strike f))"

definition handle_place_option ::
  "string \<Rightarrow> bool \<Rightarrow> options_page \<Rightarrow> option_form \<Rightarrow> paper_options \<Rightarrow> option_form \<times> paper_options" where
  "handle_place_option stamp mobile s f store =
     (case option_order_of s f of
        Inl _ \<Rightarrow> (f, store)
      | Inr data \<Rightarrow> (f\<lparr> og_panel := False, og_sheet := (og_sheet f \<and> \<not> mobile) \<rparr>, place_option_order stamp data store))"

section \<open>The value of the positions\<close>

definition position_type :: "jsobj \<Rightarrow> jsval" where
  "position_type p = first_field (JObj p) [''optionType'', ''type'']"

definition position_average :: "jsobj \<Rightarrow> jsnum" where
  "position_average p = to_number (nullish (first_field (JObj p) [''avgPremium'', ''premium'']) (JNum (Fin 0)))"

definition position_lot_size :: "jsobj \<Rightarrow> jsnum" where
  "position_lot_size p = (if is_nullish (own p ''lotSize'') then get_lot_size (own p ''underlying'') else to_number (own p ''lotSize''))"

definition position_ltp :: "option_row list \<Rightarrow> jsobj \<Rightarrow> jsnum" where
  "position_ltp rows p = current_ltp rows (strike_of (own p ''strike'')) (to_string (position_type p))"

definition option_pnl :: "option_row list \<Rightarrow> jsobj \<Rightarrow> jsnum" where
  "option_pnl rows p =
     (let raw = (position_ltp rows p - position_average p) * num_own p ''lots'' * position_lot_size p in
      if own p ''side'' = JStr ''BUY'' then raw else - raw)"

definition enriched_positions :: "option_row list \<Rightarrow> jsobj list \<Rightarrow> jsobj list" where
  "enriched_positions rows ps =
     map (\<lambda>p. spread p [(''ltp'', JNum (position_ltp rows p)), (''pnl'', JNum (option_pnl rows p)), (''optionType'', position_type p)]) ps"

section \<open>The floating panel\<close>

record panel_drag =
  pd_active :: bool
  pd_start :: "jsnum \<times> jsnum"
  pd_origin :: "jsnum \<times> jsnum"
  pd_pos :: "jsnum \<times> jsnum"

definition default_panel_pos :: "jsnum \<Rightarrow> jsnum \<times> jsnum" where
  "default_panel_pos width = (math_max (Fin 16) (width - Fin 312 - Fin 24), Fin 72)"

definition clamp_panel :: "jsnum \<Rightarrow> jsnum \<Rightarrow> jsnum \<times> jsnum \<Rightarrow> jsnum \<times> jsnum" where
  "clamp_panel width height p =
     (math_max (Fin 0) (math_min (width - Fin 312) (fst p)), math_max (Fin 0) (math_min (height - Fin 120) (snd p)))"

definition grab_panel :: "jsnum \<times> jsnum \<Rightarrow> panel_drag \<Rightarrow> panel_drag" where
  "grab_panel mouse d = d\<lparr> pd_active := True, pd_start := mouse, pd_origin := pd_pos d \<rparr>"

definition move_panel :: "jsnum \<Rightarrow> jsnum \<Rightarrow> jsnum \<times> jsnum \<Rightarrow> panel_drag \<Rightarrow> panel_drag" where
  "move_panel width height mouse d =
     (if \<not> pd_active d then d
      else d\<lparr> pd_pos := clamp_panel width height
        (fst (pd_origin d) + (fst mouse - fst (pd_start d)), snd (pd_origin d) + (snd mouse - snd (pd_start d))) \<rparr>)"

definition drop_panel :: "panel_drag \<Rightarrow> panel_drag" where
  "drop_panel d = d\<lparr> pd_active := False \<rparr>"

definition open_panel :: "jsnum \<Rightarrow> jsnum \<Rightarrow> option_form \<Rightarrow> panel_drag \<Rightarrow> option_form \<times> panel_drag" where
  "open_panel width height f d = (f\<lparr> og_panel := True \<rparr>, d\<lparr> pd_pos := clamp_panel width height (default_panel_pos width) \<rparr>)"

section \<open>Lemmas on snapshots\<close>

lemma own_spread_fields: "field (JObj (spread a b)) k = own (spread a b) k"
  by simp

text \<open>A snapshot without a price keeps the last one, a snapshot with one replaces it.\<close>

lemma keep_quote_price: "own (keep_quote prev merged) ''ltp'' = JNum (to_number (field prev ''ltp''))"
  by (simp add: keep_quote_def Let_def)

lemma snapshot_side_price:
  assumes "truthy nxt" "truthy prev" "distinct (map fst (fields_of nxt))"
  shows "leg_price (merge_snapshot_side nxt prev) = (case leg_price nxt of Some n \<Rightarrow> Some n | None \<Rightarrow> leg_price prev)"
proof -
  have m: "own (spread (fields_of prev) (fields_of nxt)) ''ltp'' = field nxt ''ltp'' \<or>
      own (spread (fields_of prev) (fields_of nxt)) ''ltp'' = field prev ''ltp'' \<and> field nxt ''ltp'' = Undefined"
    unfolding own_spread_case [OF assms(3)] field_fields_of own_def [of "fields_of nxt"] by (simp split: option.split)
  have u: "positive_number Undefined = None" by (simp add: positive_number_def)
  show ?thesis
  proof (cases "positive_number (field nxt ''ltp'')")
    case None
    show ?thesis
    proof (cases "positive_number (field prev ''ltp'')")
      case None': None
      then show ?thesis using None m assms by (auto simp: merge_snapshot_side_def Let_def leg_price_def)
    next
      case (Some n)
      then have "to_number (field prev ''ltp'') = n" by (auto simp: positive_number_def Let_def split: if_splits)
      then show ?thesis using None Some positive_numberD [OF Some] assms
        by (simp add: merge_snapshot_side_def Let_def leg_price_def keep_quote_price) (simp add: positive_number_def)
    qed
  next
    case (Some n)
    then have "field nxt ''ltp'' \<noteq> Undefined" using u by auto
    then show ?thesis using Some m assms by (simp add: merge_snapshot_side_def Let_def leg_price_def)
  qed
qed

section \<open>Lemmas on the figures\<close>

text \<open>The nearest strike is nearest.\<close>

lemma nearer_fold:
  assumes "foldl (nearer_row price) c rows = Some r" "is_finite price"
    and "list_all (\<lambda>x. is_finite (op_strike x)) rows" "c = None \<or> (\<exists>x. c = Some x \<and> is_finite (op_strike x))"
  shows "(r \<in> set rows \<or> c = Some r) \<and>
    (\<forall>x \<in> set rows. \<bar>op_strike r - price\<bar> \<le> \<bar>op_strike x - price\<bar>) \<and>
    (\<forall>x. c = Some x \<longrightarrow> \<bar>op_strike r - price\<bar> \<le> \<bar>op_strike x - price\<bar>)"
  using assms
proof (induction rows arbitrary: c)
  case Nil
  then show ?case using strike_distance by auto
next
  case (Cons y rows)
  have fy: "is_finite (op_strike y)" using Cons.prems(3) by simp
  have ny: "\<bar>op_strike y - price\<bar> \<noteq> NaN" using strike_distance [OF fy Cons.prems(2)] .
  show ?case
  proof (cases c)
    case None
    have "foldl (nearer_row price) (Some y) rows = Some r" using Cons.prems(1) nearer_row_def [of price None y] None by simp
    from Cons.IH [OF this Cons.prems(2)] Cons.prems(3) fy None show ?thesis by auto
  next
    case (Some x)
    then have fx: "is_finite (op_strike x)" using Cons.prems(4) by auto
    have nx: "\<bar>op_strike x - price\<bar> \<noteq> NaN" using strike_distance [OF fx Cons.prems(2)] .
    show ?thesis
    proof (cases "\<bar>op_strike y - price\<bar> < \<bar>op_strike x - price\<bar>")
      case True
      then have "foldl (nearer_row price) (Some y) rows = Some r" using Cons.prems(1) nearer_row_def [of price "Some x" y] Some by simp
      from Cons.IH [OF this Cons.prems(2)] Cons.prems(3) fy
      have h: "(r \<in> set rows \<or> y = r)" "\<forall>z \<in> set rows. \<bar>op_strike r - price\<bar> \<le> \<bar>op_strike z - price\<bar>"
        "\<bar>op_strike r - price\<bar> \<le> \<bar>op_strike y - price\<bar>" by auto
      have "\<bar>op_strike r - price\<bar> \<le> \<bar>op_strike x - price\<bar>"
        using h(3) less_jsnum_imp_le [OF True] by (rule le_jsnum_trans)
      with h Some show ?thesis by auto
    next
      case False
      then have "foldl (nearer_row price) (Some x) rows = Some r" using Cons.prems(1) nearer_row_def [of price "Some x" y] Some by simp
      from Cons.IH [OF this Cons.prems(2)] Cons.prems(3) fx
      have h: "(r \<in> set rows \<or> x = r)" "\<forall>z \<in> set rows. \<bar>op_strike r - price\<bar> \<le> \<bar>op_strike z - price\<bar>"
        "\<bar>op_strike r - price\<bar> \<le> \<bar>op_strike x - price\<bar>" by auto
      have "\<bar>op_strike x - price\<bar> \<le> \<bar>op_strike y - price\<bar>" using False not_less_jsnum [OF ny nx] by simp
      with h(3) have "\<bar>op_strike r - price\<bar> \<le> \<bar>op_strike y - price\<bar>" by (rule le_jsnum_trans)
      with h Some show ?thesis by auto
    qed
  qed
qed

lemma nearest_is_nearest:
  assumes "nearest_row price rows = Some r" "is_finite price" "list_all (\<lambda>x. is_finite (op_strike x)) rows" "x \<in> set rows"
  shows "r \<in> set rows \<and> \<bar>op_strike r - price\<bar> \<le> \<bar>op_strike x - price\<bar>"
  using nearer_fold [of price None rows r] assms by (auto simp: nearest_row_def)

section \<open>Lemmas on the order form\<close>

text \<open>An order is placed only for a strike, from a live chain, at a positive premium.\<close>

lemma placed_order:
  assumes "option_order_of s f = Inr data"
  obtains strike where "og_strike f = Some strike" "is_live_chain_source (JStr (pg_source s))" "\<not> premium_value f \<le> Fin 0"
    "data = order_data s strike f"
  using assms that by (auto simp: option_order_of_def split: option.splits if_splits)

lemma refused_changes_nothing: "option_order_of s f = Inl e \<Longrightarrow> handle_place_option stamp mobile s f store = (f, store)"
  by (simp add: handle_place_option_def)

text \<open>The limit price is not looked at: an order at a price that is no number is placed all the same.\<close>

lemma limit_price_unchecked:
  assumes "og_order_type f = ''LIMIT''" "og_limit f \<noteq> []" "number_of_string (og_limit f) = p" "option_order_of s f = Inr data"
  shows "own data ''premium'' = JNum p"
  using assms(4,1-3) by (elim placed_order) (simp add: order_data_def own_Cons form_price_def)

text \<open>When another strike becomes the nearest one, what was entered in the form is lost.\<close>

lemma form_restarted:
  assumes "nearest_row price rows = Some row" "is_live_chain_source (JStr source)"
  shows "og_side (restart_form source (nearest_row price rows) f) = ''BUY'' \<and>
    og_order_type (restart_form source (nearest_row price rows) f) = ''MARKET'' \<and>
    og_lots (restart_form source (nearest_row price rows) f) = Fin 1 \<and>
    og_strike (restart_form source (nearest_row price rows) f) = Some (op_strike row)"
  using assms by (simp add: restart_form_def Let_def)

section \<open>Lemmas on the positions\<close>

text \<open>
  A position is priced by its strike and type alone, in the chain that is on show: a position on another
  underlying or expiry gets the price of the contract on show, and one whose strike is not there none.
\<close>

lemma priced_by_strike:
  assumes "own p ''strike'' = own q ''strike''" "position_type p = position_type q"
  shows "position_ltp rows p = position_ltp rows q"
  using assms by (simp add: position_ltp_def)

lemma off_chain_is_lost:
  assumes "row_of_strike (strike_of (own p ''strike'')) rows = None"
  shows "option_pnl rows p = (let raw = (Fin 0 - position_average p) * num_own p ''lots'' * position_lot_size p in
    if own p ''side'' = JStr ''BUY'' then raw else - raw)"
  using assms by (simp add: option_pnl_def position_ltp_def current_ltp_def)

section \<open>Lemmas on the panel\<close>

lemma panel_in_window:
  assumes "Fin 312 \<le> width" "Fin 120 \<le> height" "fst p \<noteq> NaN" "snd p \<noteq> NaN" "width \<noteq> PInf" "height \<noteq> PInf"
  shows "Fin 0 \<le> fst (clamp_panel width height p) \<and> fst (clamp_panel width height p) \<le> width - Fin 312 \<and>
    Fin 0 \<le> snd (clamp_panel width height p) \<and> snd (clamp_panel width height p) \<le> height - Fin 120"
proof -
  have r: "Fin 0 \<le> x - Fin c" if "Fin c \<le> x" "x \<noteq> PInf" for x c
    using that by (cases x) (auto simp: rnd_nonneg)
  have c: "Fin 0 \<le> math_max (Fin 0) (math_min w x) \<and> math_max (Fin 0) (math_min w x) \<le> w" if "Fin 0 \<le> w" "x \<noteq> NaN" for w x
    using that le_jsnum_not_NaN [OF that(1)] math_max_ge [of "Fin 0" "math_min w x"] math_min_le [of w x]
    by (auto intro: math_max_le)
  show ?thesis using c [OF r [OF assms(1,5)] assms(3)] c [OF r [OF assms(2,6)] assms(4)] by (simp add: clamp_panel_def)
qed

end
