(* ===== verification/CandleFetch.thy ===== *)
theory CandleFetch
  imports CandleEngine Connection MarketStore Sorting
begin

text \<open>
  The market data of a chart, \<open>frontend/src/hooks/useMarketData.js\<close>: the candles of an answer are put in
  order, kept in a cache that all charts share, and fetched with aborts and retries; the quote is polled
  while the market trades. The refs and states of the hook are the fields of a record; a request that is
  under way is kept with its symbol, its attempt and whether it was aborted. An answer, a failure and
  the firing of the retry timer are events.
\<close>

section \<open>Candles of an answer\<close>

definition intraday_intervals :: "string list" where
  "intraday_intervals = [''1m'', ''2m'', ''3m'', ''5m'', ''10m'', ''15m'', ''30m'', ''1h'', ''2h'', ''4h'']"

definition is_index_symbol :: "string \<Rightarrow> bool" where
  "is_index_symbol symbol = starts_with (trim symbol) ''^''"

definition has_volume :: "fcandle list \<Rightarrow> bool" where
  "has_volume cs = list_ex (\<lambda>c. Fin 0 < f_volume c) cs"

definition should_cache_candles :: "string \<Rightarrow> string \<Rightarrow> fcandle list \<Rightarrow> bool" where
  "should_cache_candles symbol iv cs =
     (if \<not> is_index_symbol symbol \<or> iv \<notin> set intraday_intervals then True else has_volume cs)"

text \<open>Nanoseconds, microseconds, milliseconds or seconds, as whole seconds.\<close>

definition seconds_of :: "jsnum \<Rightarrow> jsnum" where
  "seconds_of t =
     (if Fin (10 ^ 18) < t then math_floor (t / Fin (10 ^ 9))
      else if Fin (10 ^ 15) < t then math_floor (t / Fin (10 ^ 6))
      else if Fin (10 ^ 12) < t then math_floor (t / Fin (10 ^ 3))
      else math_floor t)"

definition candle_of_row :: "jsnum \<Rightarrow> jsval \<Rightarrow> fcandle option" where
  "candle_of_row now_sec c =
     (let raw = to_number (first_field c [''time'', ''timestamp'']); tm = seconds_of raw;
          op = to_number (field c ''open''); hi = to_number (field c ''high''); lo = to_number (field c ''low'');
          cl = to_number (field c ''close''); vol = to_number (nullish (field c ''volume'') (JNum (Fin 0)))
      in if \<not> is_finite raw \<or> \<not> (is_finite op \<and> is_finite hi \<and> is_finite lo \<and> is_finite cl) then None
         else if tm < Fin 946684800 \<or> now_sec + Fin 604800 < tm then None
         else if op \<le> Fin 0 \<or> hi \<le> Fin 0 \<or> lo \<le> Fin 0 \<or> cl \<le> Fin 0 then None
         else
           let candle_high = math_max hi (math_max op (math_max lo cl)); candle_low = math_min lo (math_min op (math_min hi cl))
           in Some \<lparr> f_time = tm, f_open = fixed_num 2 op, f_high = fixed_num 2 candle_high, f_low = fixed_num 2 candle_low,
                f_close = fixed_num 2 cl, f_volume = (if is_finite vol then math_max (Fin 0) (math_floor vol) else Fin 0) \<rparr>)"

text \<open>The map by time keeps the last candle of a time, and its values are sorted by time.\<close>

definition keep_by_time :: "(jsval \<Rightarrow> fcandle option) \<Rightarrow> jsval list \<Rightarrow> (jsnum \<times> fcandle) list" where
  "keep_by_time row rows = fold (\<lambda>c seen. case row c of Some x \<Rightarrow> AList.update (f_time x) x seen | None \<Rightarrow> seen) rows []"

definition in_time_order :: "(jsnum \<times> fcandle) list \<Rightarrow> fcandle list" where
  "in_time_order seen = sort_by (\<lambda>a b. Fin 0 < f_time a - f_time b) (map snd seen)"

definition normalize_candles :: "jsnum \<Rightarrow> jsval list \<Rightarrow> fcandle list" where
  "normalize_candles now rows = in_time_order (keep_by_time (candle_of_row (math_floor (now / Fin 1000))) rows)"

section \<open>The cache and the state of the hook\<close>

record cached_candles =
  cc_candles :: "fcandle list"
  cc_ts :: jsnum

type_synonym candle_cache = "(string \<times> cached_candles) list"

definition cache_key :: "string \<Rightarrow> string \<Rightarrow> string \<Rightarrow> string" where
  "cache_key symbol period iv = symbol @ '':'' @ period @ '':'' @ iv"

definition later_entry :: "cached_candles option \<Rightarrow> cached_candles \<Rightarrow> cached_candles option" where
  "later_entry latest v =
     (case latest of None \<Rightarrow> Some v | Some l \<Rightarrow> if cc_ts l < cc_ts v then Some v else Some l)"

definition latest_cached :: "string \<Rightarrow> candle_cache \<Rightarrow> fcandle list option" where
  "latest_cached symbol cache =
     map_option cc_candles (foldl later_entry None (map snd (filter (\<lambda>(k, v). starts_with k (symbol @ '':'')) cache)))"

record candle_request =
  cq_id :: nat
  cq_symbol :: string
  cq_period :: string
  cq_interval :: string
  cq_attempt :: nat
  cq_aborted :: bool

text \<open>A retry that waits for its timer: delay, symbol, period, interval and attempt.\<close>

record candle_retry =
  cr_delay :: nat
  cr_symbol :: string
  cr_period :: string
  cr_interval :: string
  cr_attempt :: nat

record market_data =
  md_symbol :: string
  md_candles :: "fcandle list"
  md_candles_symbol :: "string option"
  md_loading :: bool
  md_error :: bool
  md_trading :: bool
  md_fails :: nat
  md_cache :: candle_cache
  md_requests :: "candle_request list"
  md_current :: "nat option"
  md_next :: nat
  md_retry :: "candle_retry option"

definition max_candle_retries :: nat where
  "max_candle_retries = 3"

definition min_index_candles :: nat where
  "min_index_candles = 20"

definition candle_cache_ttl :: jsnum where
  "candle_cache_ttl = Fin 60000"

definition new_market_data :: "candle_cache \<Rightarrow> market_data" where
  "new_market_data cache =
     \<lparr> md_symbol = [], md_candles = [], md_candles_symbol = None, md_loading = True, md_error = False, md_trading = False,
       md_fails = 0, md_cache = cache, md_requests = [], md_current = None, md_next = 0, md_retry = None \<rparr>"

section \<open>Fetching candles\<close>

definition cache_is_enough :: "jsnum \<Rightarrow> string \<Rightarrow> cached_candles \<Rightarrow> bool" where
  "cache_is_enough now symbol c =
     (now - cc_ts c < candle_cache_ttl \<and>
      (\<not> is_index_symbol symbol \<or> min_index_candles \<le> length (cc_candles c)) \<and>
      (\<not> is_index_symbol symbol \<or> has_volume (cc_candles c)))"

definition abort_current :: "market_data \<Rightarrow> market_data" where
  "abort_current s =
     (case md_current s of
        None \<Rightarrow> s
      | Some i \<Rightarrow> s\<lparr> md_requests := map (\<lambda>q. if cq_id q = i then q\<lparr> cq_aborted := True \<rparr> else q) (md_requests s) \<rparr>)"

text \<open>The part after the look into the cache: the rate limit, the abort of the request before, the request.\<close>

definition request_candles :: "bool \<Rightarrow> string \<Rightarrow> string \<Rightarrow> string \<Rightarrow> nat \<Rightarrow> market_data \<Rightarrow> market_data" where
  "request_candles limited symbol period iv attempt s =
     (if limited then
        (if attempt \<le> max_candle_retries
         then s\<lparr> md_retry := Some \<lparr> cr_delay = 800 * (attempt + 1), cr_symbol = symbol, cr_period = period, cr_interval = iv,
                 cr_attempt = attempt + 1 \<rparr> \<rparr>
         else s\<lparr> md_loading := False \<rparr>)
      else
        (let s1 = abort_current s;
             q = \<lparr> cq_id = md_next s1, cq_symbol = symbol, cq_period = period, cq_interval = iv, cq_attempt = attempt, cq_aborted = False \<rparr>
         in s1\<lparr> md_requests := md_requests s1 @ [q], md_current := Some (md_next s1), md_next := Suc (md_next s1),
                md_loading := (attempt = 0 \<and> map_of (md_cache s1) (cache_key symbol period iv) = None) \<rparr>))"

text \<open>\<open>fetchCandlesInternal\<close> of the render with the given symbol.\<close>

definition fetch_candles :: "jsnum \<Rightarrow> bool \<Rightarrow> string \<Rightarrow> string \<Rightarrow> string \<Rightarrow> nat \<Rightarrow> market_data \<Rightarrow> market_data" where
  "fetch_candles now limited symbol period iv attempt s =
     (if symbol = [] then s
      else case (if attempt = 0 then map_of (md_cache s) (cache_key symbol period iv) else None) of
          None \<Rightarrow> request_candles limited symbol period iv attempt s
        | Some c \<Rightarrow>
            (let s1 = (if md_symbol s = symbol then s\<lparr> md_candles := cc_candles c, md_candles_symbol := Some symbol \<rparr> else s);
                 s2 = s1\<lparr> md_loading := False \<rparr>
             in if cache_is_enough now symbol c then s2 else request_candles limited symbol period iv attempt s2))"

definition find_request :: "nat \<Rightarrow> market_data \<Rightarrow> candle_request option" where
  "find_request i s = find (\<lambda>q. cq_id q = i) (md_requests s)"

definition drop_request :: "nat \<Rightarrow> market_data \<Rightarrow> market_data" where
  "drop_request i s = s\<lparr> md_requests := filter (\<lambda>q. cq_id q \<noteq> i) (md_requests s) \<rparr>"

definition store_candles :: "jsnum \<Rightarrow> candle_request \<Rightarrow> fcandle list \<Rightarrow> candle_cache \<Rightarrow> candle_cache" where
  "store_candles now q cs cache =
     (let key = cache_key (cq_symbol q) (cq_period q) (cq_interval q) in
      if should_cache_candles (cq_symbol q) (cq_interval q) cs
      then AList.update key \<lparr> cc_candles = cs, cc_ts = now \<rparr> cache else AList.delete key cache)"

text \<open>The answer to a request that was not aborted.\<close>

definition candles_answered :: "jsnum \<Rightarrow> candle_request \<Rightarrow> jsval list \<Rightarrow> market_data \<Rightarrow> market_data" where
  "candles_answered now q rows s =
     (let cs = normalize_candles now rows in
      if md_symbol s \<noteq> cq_symbol q then s
      else s\<lparr> md_retry := None, md_cache := store_candles now q cs (md_cache s), md_candles := cs,
              md_candles_symbol := Some (cq_symbol q), md_loading := False \<rparr>)"

text \<open>A failure; an aborted request ends here too, and its \<open>finally\<close> still runs.\<close>

definition candles_failed :: "candle_request \<Rightarrow> market_data \<Rightarrow> market_data" where
  "candles_failed q s =
     (if md_symbol s \<noteq> cq_symbol q then s
      else if cq_aborted q then s\<lparr> md_loading := False \<rparr>
      else if cq_attempt q < max_candle_retries
        then s\<lparr> md_retry := Some \<lparr> cr_delay = 600 * (cq_attempt q + 1), cr_symbol = cq_symbol q, cr_period = cq_period q,
                 cr_interval = cq_interval q, cr_attempt = cq_attempt q + 1 \<rparr> \<rparr>
      else s\<lparr> md_error := True, md_candles := [], md_candles_symbol := None, md_loading := False \<rparr>)"

definition retry_fires :: "jsnum \<Rightarrow> bool \<Rightarrow> market_data \<Rightarrow> market_data" where
  "retry_fires now limited s =
     (case md_retry s of
        None \<Rightarrow> s
      | Some r \<Rightarrow> fetch_candles now limited (cr_symbol r) (cr_period r) (cr_interval r) (cr_attempt r) (s\<lparr> md_retry := None \<rparr>))"

text \<open>A new symbol: the clean-up of the effect for the old one, then the effect for the new one.\<close>

definition leave_symbol :: "market_data \<Rightarrow> market_data" where
  "leave_symbol s = (if md_symbol s = [] then s else (abort_current s)\<lparr> md_retry := None \<rparr>)"

definition change_symbol :: "string \<Rightarrow> market_data \<Rightarrow> market_data" where
  "change_symbol symbol s =
     (let s1 = (leave_symbol s)\<lparr> md_symbol := symbol \<rparr> in
      if symbol = [] then s1
      else case latest_cached symbol (md_cache s1) of
          Some cs \<Rightarrow>
            if cs \<noteq> [] then s1\<lparr> md_candles := cs, md_candles_symbol := Some symbol, md_loading := False, md_error := False \<rparr>
            else s1\<lparr> md_candles := [], md_candles_symbol := None, md_loading := True, md_error := False \<rparr>
        | None \<Rightarrow> s1\<lparr> md_candles := [], md_candles_symbol := None, md_loading := True, md_error := False \<rparr>)"

section \<open>The quote\<close>

definition quote_requested :: "bool \<Rightarrow> market_data \<Rightarrow> bool" where
  "quote_requested limited s = (md_symbol s \<noteq> [] \<and> \<not> limited)"

definition quote_is_usable :: "jsval \<Rightarrow> bool" where
  "quote_is_usable data = (truthy data \<and> \<not> is_nullish (field data ''price'') \<and> \<not> truthy (field data ''error''))"

text \<open>The source an answer is stored under.\<close>

definition polled_source :: "bool \<Rightarrow> jsval \<Rightarrow> string" where
  "polled_source market_open data =
     (let src = lower_text (js_or (field data ''source'') (field data ''_source'')) in
      if market_open then ''poll''
      else if src = ''history_snapshot'' \<or> src = ''historical'' then ''history_snapshot'' else ''eod'')"

definition quote_answered :: "jsnum \<Rightarrow> string \<Rightarrow> jsval \<Rightarrow> market_data \<times> market_store \<Rightarrow> market_data \<times> market_store" where
  "quote_answered now symbol data st =
     (if quote_is_usable data
      then ((fst st)\<lparr> md_error := False, md_fails := 0 \<rparr>,
            update_quote should_use_realtime_prices now (JStr symbol) (fields_of data)
              (polled_source should_use_realtime_prices data) (snd st))
      else st)"

definition quote_failed :: "market_data \<Rightarrow> market_data" where
  "quote_failed s = s\<lparr> md_fails := Suc (md_fails s), md_error := (md_error s \<or> 3 \<le> Suc (md_fails s)) \<rparr>"

text \<open>The session that decides whether quotes are polled; \<open>None\<close> is a request that failed.\<close>

definition session_trading :: "jsval \<Rightarrow> bool" where
  "session_trading session = (lower_text (field session ''state'') = ''open'')"

definition refresh_trading :: "jsval option \<Rightarrow> jsval option \<Rightarrow> market_data \<Rightarrow> market_data" where
  "refresh_trading session health s =
     (case session of
        Some v \<Rightarrow> s\<lparr> md_trading := session_trading v \<rparr>
      | None \<Rightarrow> (case health of Some h \<Rightarrow> s\<lparr> md_trading := session_trading (field h ''market_session'') \<rparr> | None \<Rightarrow> s))"

definition is_polling :: "jsnum \<Rightarrow> market_data \<Rightarrow> bool" where
  "is_polling poll_ms s = (md_symbol s \<noteq> [] \<and> Fin 0 < poll_ms \<and> md_trading s \<and> should_use_realtime_prices)"

section \<open>Events\<close>

datatype chart_event =
  ChangeSymbol string | AskCandles jsnum bool string string | CandlesAnswer jsnum nat "jsval list" | CandlesError nat
  | RetryTimer jsnum bool

text \<open>A view asks with the callback of the last render; an answer to an aborted request does not arrive.\<close>

fun chart_step :: "chart_event \<Rightarrow> market_data \<Rightarrow> market_data" where
  "chart_step (ChangeSymbol symbol) s = (if symbol = md_symbol s then s else change_symbol symbol s)"
| "chart_step (AskCandles now limited period iv) s = fetch_candles now limited (md_symbol s) period iv 0 s"
| "chart_step (CandlesAnswer now i rows) s =
     (case find_request i s of
        None \<Rightarrow> s
      | Some q \<Rightarrow> if cq_aborted q then candles_failed q (drop_request i s) else candles_answered now q rows (drop_request i s))"
| "chart_step (CandlesError i) s =
     (case find_request i s of None \<Rightarrow> s | Some q \<Rightarrow> candles_failed q (drop_request i s))"
| "chart_step (RetryTimer now limited) s = retry_fires now limited s"

section \<open>Lemmas on the candles\<close>

text \<open>The prices of a row are ordinary ones: below \<open>10 ^ 21\<close>, from where on \<open>toFixed\<close> does not round.\<close>

definition row_in_range :: "jsval \<Rightarrow> bool" where
  "row_in_range c = list_all (\<lambda>k. to_number (field c k) < Fin (10 ^ 21)) [''open'', ''high'', ''low'', ''close'']"

text \<open>A candle that a chart can draw: its low is lowest, its high is highest, its volume no less than zero.\<close>

definition drawable :: "fcandle \<Rightarrow> bool" where
  "drawable c \<longleftrightarrow> f_low c \<le> f_open c \<and> f_low c \<le> f_close c \<and> f_open c \<le> f_high c \<and> f_close c \<le> f_high c \<and>
     Fin 0 \<le> f_low c \<and> Fin 0 \<le> f_volume c"

lemma math_max_Fin [simp]: "math_max (Fin a) (Fin b) = Fin (max a b)"
  and math_min_Fin [simp]: "math_min (Fin a) (Fin b) = Fin (min a b)"
  by (auto simp: math_max_def math_min_def)

lemma row_candle_drawable:
  assumes "candle_of_row now_sec c = Some x" "row_in_range c"
  shows "drawable x"
proof -
  obtain op hi lo cl where v: "to_number (field c ''open'') = Fin op" "to_number (field c ''high'') = Fin hi"
    "to_number (field c ''low'') = Fin lo" "to_number (field c ''close'') = Fin cl"
    using assms(1) by (auto simp: candle_of_row_def Let_def is_finite_iff split: if_splits)
  have pos: "0 < op" "0 < hi" "0 < lo" "0 < cl" using assms(1) by (auto simp: candle_of_row_def Let_def v split: if_splits)
  have small: "op < 10 ^ 21" "hi < 10 ^ 21" "lo < 10 ^ 21" "cl < 10 ^ 21" using assms(2) by (simp_all add: row_in_range_def v)
  define top where "top = max hi (max op (max lo cl))"
  define bot where "bot = min lo (min op (min hi cl))"
  have tb: "op \<le> top" "cl \<le> top" "top < 10 ^ 21" "bot \<le> op" "bot \<le> cl" "0 \<le> bot"
    using pos small by (simp_all add: top_def bot_def)
  have f: "f_open x = fixed_num 2 (Fin op)" "f_close x = fixed_num 2 (Fin cl)" "f_high x = fixed_num 2 (Fin top)"
    "f_low x = fixed_num 2 (Fin bot)"
    using assms(1) by (auto simp: candle_of_row_def Let_def v top_def bot_def simp del: fixed_num.simps split: if_splits)
  have "\<lfloor>1 / 2 :: rat\<rfloor> = 0" by (simp add: floor_eq_iff)
  then have "fixed_num 2 (Fin 0) = Fin 0" by (simp add: fixed_int_def)
  then have "Fin 0 \<le> fixed_num 2 (Fin bot)" using fixed_num_mono [of 0 bot 2] tb by (simp del: fixed_num.simps)
  moreover have "Fin 0 \<le> f_volume x"
  proof -
    define vol where "vol = to_number (nullish (field c ''volume'') (JNum (Fin 0)))"
    have "f_volume x = (if is_finite vol then math_max (Fin 0) (math_floor vol) else Fin 0)"
      using assms(1) unfolding candle_of_row_def Let_def vol_def [symmetric] by (auto split: if_splits)
    then show ?thesis by (auto simp: is_finite_iff)
  qed
  ultimately show ?thesis unfolding drawable_def f using tb small by (auto intro: fixed_num_mono simp del: fixed_num.simps)
qed

definition time_key :: "fcandle \<Rightarrow> int" where
  "time_key c = (case f_time c of Fin r \<Rightarrow> \<lfloor>r\<rfloor> | _ \<Rightarrow> 0)"

definition time_ok :: "int \<Rightarrow> fcandle \<Rightarrow> bool" where
  "time_ok n c \<longleftrightarrow> f_time c = Fin (of_int (time_key c)) \<and> 946684800 \<le> time_key c \<and> time_key c \<le> n + 604800"

lemma seconds_whole: "seconds_of (Fin t) = Fin r \<Longrightarrow> r = of_int \<lfloor>r\<rfloor>"
proof -
  have f: "math_floor z = Fin r \<Longrightarrow> r = of_int \<lfloor>r\<rfloor>" for z r by (cases z) auto
  show "seconds_of (Fin t) = Fin r \<Longrightarrow> r = of_int \<lfloor>r\<rfloor>" unfolding seconds_of_def using f by (metis (no_types))
qed

lemma seconds_not_NaN: "seconds_of (Fin t) \<noteq> NaN"
proof -
  have f: "math_floor z = NaN \<longleftrightarrow> z = NaN" for z by (cases z) auto
  show ?thesis by (simp add: seconds_of_def f del: math_floor.simps)
qed

lemma row_candle_time:
  assumes "candle_of_row (Fin (of_int n)) c = Some x" "\<bar>n\<bar> \<le> 2 ^ 52"
  shows "time_ok n x"
proof -
  obtain t where t: "to_number (first_field c [''time'', ''timestamp'']) = Fin t"
    using assms(1) unfolding candle_of_row_def Let_def by (auto simp: is_finite_iff split: if_splits)
  define tm where "tm = seconds_of (Fin t)"
  have b: "\<not> tm < Fin 946684800" "\<not> Fin (of_int n) + Fin 604800 < tm" and x: "f_time x = tm"
    using assms(1) unfolding candle_of_row_def Let_def t tm_def by (auto split: if_splits)
  have s: "Fin (of_int n) + Fin 604800 = Fin (of_int (n + 604800))" using plus_int [of n 604800] assms(2) by simp
  obtain r where r: "tm = Fin r" using b s seconds_not_NaN [of t] by (cases tm) (auto simp: tm_def)
  have "r = of_int \<lfloor>r\<rfloor>" using seconds_whole r unfolding tm_def by blast
  moreover have "946684800 \<le> r" "r \<le> of_int (n + 604800)" using b s r by auto
  ultimately show ?thesis by (simp add: time_ok_def time_key_def x r)
qed

lemma kept_invariant:
  assumes "\<And>c x. c \<in> set rows \<Longrightarrow> row c = Some x \<Longrightarrow> P x"
  shows "distinct (map fst (keep_by_time row rows)) \<and> (\<forall>(t, x) \<in> set (keep_by_time row rows). f_time x = t \<and> P x)"
  unfolding keep_by_time_def
proof (rule fold_invariant_list)
  fix c seen
  assume c: "c \<in> set rows" and h: "distinct (map fst seen) \<and> (\<forall>(t, x) \<in> set seen. f_time x = t \<and> P x)"
  show "distinct (map fst (case row c of Some x \<Rightarrow> AList.update (f_time x) x seen | None \<Rightarrow> seen)) \<and>
    (\<forall>(t, x) \<in> set (case row c of Some x \<Rightarrow> AList.update (f_time x) x seen | None \<Rightarrow> seen). f_time x = t \<and> P x)"
  proof (cases "row c")
    case (Some x)
    have "set (AList.update (f_time x) x seen) \<subseteq> insert (f_time x, x) (set seen)" by (induction seen) auto
    then show ?thesis using h assms [OF c Some] by (auto simp: Some distinct_update)
  qed (use h in auto)
qed simp

lemma in_time_order_set [simp]: "set (in_time_order seen) = snd ` set seen"
  by (simp add: in_time_order_def)

text \<open>Candles of different whole times come out strictly in the order of their times.\<close>

definition whole_time :: "fcandle \<Rightarrow> bool" where
  "whole_time c \<longleftrightarrow> f_time c = Fin (of_int (time_key c)) \<and> 0 \<le> time_key c \<and> time_key c \<le> 2 ^ 53"

lemma whole_time_after:
  assumes "whole_time a" "whole_time b"
  shows "Fin 0 < f_time a - f_time b \<longleftrightarrow> time_key b < time_key a"
proof -
  have "\<bar>time_key a - time_key b\<bar> \<le> 2 ^ 53" using assms by (auto simp: whole_time_def)
  from minus_int [OF this] show ?thesis using assms by (simp add: whole_time_def del: minus_Fin)
qed

lemma time_order:
  assumes "distinct (map fst seen)" "\<forall>(t, x) \<in> set seen. f_time x = t \<and> whole_time x"
  shows "sorted_wrt (<) (map time_key (in_time_order seen))"
proof -
  let ?xs = "map snd seen"
  have w: "whole_time x" if "x \<in> set ?xs" for x using assms(2) that by auto
  have sorted: "sorted (map time_key (in_time_order seen))" unfolding in_time_order_def
    by (rule sort_by_key) (intro whole_time_after w)
  have "map fst seen = map (\<lambda>x. Fin (of_int (time_key x))) ?xs" using assms(2) by (auto simp: whole_time_def)
  with assms(1) have "distinct (map (\<lambda>k. Fin (of_int k)) (map time_key ?xs))" by (simp only: map_map o_def)
  then have "distinct (map time_key ?xs)" by (rule distinct_map [THEN iffD1, THEN conjunct1])
  moreover have "mset (map time_key (in_time_order seen)) = mset (map time_key ?xs)"
    unfolding in_time_order_def by (simp only: mset_map mset_sort_by)
  ultimately have "distinct (map time_key (in_time_order seen))" by (rule mset_eq_imp_distinct_iff [THEN iffD2, rotated])
  with sorted show ?thesis by (simp add: strict_sorted_iff)
qed

text \<open>
  The candles of an answer are strictly in the order of their times and each of them can be drawn,
  whatever the order, the units of time and the gaps in the answer.
\<close>

definition chart_ready :: "fcandle list \<Rightarrow> bool" where
  "chart_ready cs \<longleftrightarrow> sorted_wrt (<) (map time_key cs) \<and> list_all (\<lambda>c. f_time c = Fin (of_int (time_key c)) \<and> drawable c) cs"

lemma ordered_chart_ready:
  assumes "distinct (map fst seen)" "\<forall>(t, x) \<in> set seen. f_time x = t \<and> whole_time x \<and> drawable x"
  shows "chart_ready (in_time_order seen)"
  using assms time_order [of seen] by (fastforce simp: chart_ready_def list_all_iff whole_time_def)

lemma time_ok_whole: "time_ok n x \<Longrightarrow> \<bar>n\<bar> \<le> 2 ^ 52 \<Longrightarrow> whole_time x"
  by (auto simp: time_ok_def whole_time_def)

lemma normalized_chart_ready:
  assumes "math_floor (now / Fin 1000) = Fin (of_int n)" "\<bar>n\<bar> \<le> 2 ^ 52" "list_all row_in_range rows"
  shows "chart_ready (normalize_candles now rows)"
proof -
  have "whole_time x \<and> drawable x" if "c \<in> set rows" "candle_of_row (Fin (of_int n)) c = Some x" for c x
    using that assms(2,3) row_candle_time [of n c x] row_candle_drawable [of "Fin (of_int n)" c x] time_ok_whole [of n x]
    by (auto simp: list_all_iff)
  from kept_invariant [of rows "candle_of_row (Fin (of_int n))" "\<lambda>x. whole_time x \<and> drawable x", OF this]
  show ?thesis unfolding normalize_candles_def assms(1) by (intro ordered_chart_ready) auto
qed

section \<open>Lemmas on the requests\<close>

text \<open>
  At most the current request is alive, and it is for the symbol on show, as is a retry that waits; so the
  candles on show are those of the symbol on show.
\<close>

definition live_requests :: "market_data \<Rightarrow> candle_request list" where
  "live_requests s = filter (\<lambda>q. \<not> cq_aborted q) (md_requests s)"

definition fetch_ok :: "market_data \<Rightarrow> bool" where
  "fetch_ok s \<longleftrightarrow>
     (\<forall>q \<in> set (md_requests s). cq_id q < md_next s \<and> (\<not> cq_aborted q \<longrightarrow> md_current s = Some (cq_id q) \<and> cq_symbol q = md_symbol s)) \<and>
     (\<forall>r. md_retry s = Some r \<longrightarrow> cr_symbol r = md_symbol s) \<and>
     (md_symbol s = [] \<or> md_candles_symbol s = None \<or> md_candles_symbol s = Some (md_symbol s))"

lemma abort_fields [simp]: "md_symbol (abort_current s) = md_symbol s" "md_retry (abort_current s) = md_retry s"
  "md_candles_symbol (abort_current s) = md_candles_symbol s" "md_next (abort_current s) = md_next s"
  "md_cache (abort_current s) = md_cache s" "md_candles (abort_current s) = md_candles s" "md_current (abort_current s) = md_current s"
  by (simp_all add: abort_current_def split: option.split)

lemma abort_requests:
  "md_requests (abort_current s) = map (\<lambda>q. if md_current s = Some (cq_id q) then q\<lparr> cq_aborted := True \<rparr> else q) (md_requests s)"
  by (auto simp: abort_current_def split: option.split intro!: map_idI [symmetric])

lemma abort_all: "fetch_ok s \<Longrightarrow> q \<in> set (md_requests (abort_current s)) \<Longrightarrow> cq_aborted q \<and> cq_id q < md_next s"
  by (auto simp: fetch_ok_def abort_requests)

lemma request_ok:
  assumes "fetch_ok s" "symbol = md_symbol s"
  shows "fetch_ok (request_candles limited symbol period iv attempt s)"
proof (cases limited)
  case True
  then show ?thesis using assms by (auto simp: request_candles_def fetch_ok_def)
next
  case False
  then show ?thesis using assms abort_all [OF assms(1)]
    by (auto simp: request_candles_def Let_def fetch_ok_def less_Suc_eq)
qed

lemma fetch_ok_frame:
  "fetch_ok s \<Longrightarrow> fetch_ok (s\<lparr> md_loading := l \<rparr>)"
  "fetch_ok s \<Longrightarrow> fetch_ok (s\<lparr> md_candles := cs, md_candles_symbol := Some (md_symbol s) \<rparr>)"
  "fetch_ok s \<Longrightarrow> fetch_ok (s\<lparr> md_retry := None \<rparr>)"
  by (auto simp: fetch_ok_def)

lemma fetch_candles_ok:
  assumes "fetch_ok s" "symbol = md_symbol s"
  shows "fetch_ok (fetch_candles now limited symbol period iv attempt s)"
  using assms by (auto simp: fetch_candles_def Let_def split: option.split intro!: request_ok fetch_ok_frame)

lemma drop_request_ok: "fetch_ok s \<Longrightarrow> fetch_ok (drop_request i s)"
  by (auto simp: fetch_ok_def drop_request_def)

lemma drop_fields [simp]: "md_symbol (drop_request i s) = md_symbol s" "md_cache (drop_request i s) = md_cache s"
  "md_candles (drop_request i s) = md_candles s"
  by (simp_all add: drop_request_def)

lemma answered_ok: "fetch_ok s \<Longrightarrow> fetch_ok (candles_answered now q rows s)"
  by (auto simp: fetch_ok_def candles_answered_def Let_def)

lemma failed_ok: "fetch_ok s \<Longrightarrow> fetch_ok (candles_failed q s)"
  by (auto simp: fetch_ok_def candles_failed_def)

lemma retry_ok: "fetch_ok s \<Longrightarrow> fetch_ok (retry_fires now limited s)"
  by (auto simp: retry_fires_def split: option.split intro!: fetch_candles_ok fetch_ok_frame) (simp add: fetch_ok_def)

lemma leave_all:
  assumes "fetch_ok s"
  shows "(\<forall>q \<in> set (md_requests (leave_symbol s)). cq_aborted q \<and> cq_id q < md_next s) \<or> md_symbol s = []"
  using abort_all [OF assms] by (auto simp: leave_symbol_def)

text \<open>While no symbol is on show nothing is asked for.\<close>

definition chart_quiet :: "market_data \<Rightarrow> bool" where
  "chart_quiet s \<longleftrightarrow> fetch_ok s \<and> (md_symbol s = [] \<longrightarrow> live_requests s = [] \<and> md_retry s = None)"

lemma change_symbol_ok:
  assumes "chart_quiet s"
  shows "chart_quiet (change_symbol symbol s)"
proof -
  let ?s = "(leave_symbol s)\<lparr> md_symbol := symbol \<rparr>"
  have f: "fetch_ok s" using assms by (simp add: chart_quiet_def)
  have r: "cq_aborted q \<and> cq_id q < md_next s" if "q \<in> set (md_requests (leave_symbol s))" for q
  proof (cases "md_symbol s = []")
    case True
    then have "md_requests (leave_symbol s) = md_requests s" "live_requests s = []" using assms by (simp_all add: leave_symbol_def chart_quiet_def)
    then show ?thesis using that f by (auto simp: live_requests_def filter_empty_conv fetch_ok_def)
  qed (use leave_all [OF f] that in auto)
  have n: "md_retry (leave_symbol s) = None" "md_next (leave_symbol s) = md_next s"
    using assms by (auto simp: leave_symbol_def chart_quiet_def)
  show ?thesis using r n
    by (auto simp: chart_quiet_def fetch_ok_def live_requests_def filter_empty_conv change_symbol_def Let_def split: option.split)
qed

lemma fetch_candles_fields [simp]: "md_symbol (fetch_candles now limited symbol period iv attempt s) = md_symbol s"
  by (simp add: fetch_candles_def request_candles_def Let_def split: option.split)

lemma quiet_fetch: "chart_quiet s \<Longrightarrow> chart_quiet (fetch_candles now limited (md_symbol s) period iv attempt s)"
proof (cases "md_symbol s = []")
  case True
  then show "chart_quiet s \<Longrightarrow> ?thesis" by (simp add: fetch_candles_def)
qed (auto simp: chart_quiet_def fetch_candles_ok)

lemma chart_step_ok: "chart_quiet s \<Longrightarrow> chart_quiet (chart_step e s)"
proof (cases e)
  case (CandlesAnswer now i rows)
  assume q: "chart_quiet s"
  then have d: "chart_quiet (drop_request i s)" using drop_request_ok
    by (auto simp: chart_quiet_def live_requests_def filter_empty_conv drop_request_def)
  have "chart_quiet (candles_answered now q rows t)" "chart_quiet (candles_failed q t)" if "chart_quiet t" "md_symbol t \<noteq> []" for q t
    using that answered_ok failed_ok by (auto simp: chart_quiet_def candles_answered_def candles_failed_def Let_def)
  moreover have "md_symbol s = [] \<Longrightarrow> find_request i s = Some q \<Longrightarrow> cq_aborted q" for q
    using \<open>chart_quiet s\<close> by (auto simp: chart_quiet_def live_requests_def filter_empty_conv find_request_def find_Some_iff)
  moreover have "chart_quiet (candles_failed q t)" if "chart_quiet t" "cq_aborted q" for q t
    using that failed_ok by (auto simp: chart_quiet_def candles_failed_def live_requests_def)
  ultimately show ?thesis using d q by (cases "find_request i s"; cases "md_symbol s = []") (auto simp: CandlesAnswer)
next
  case (CandlesError i)
  assume q: "chart_quiet s"
  then have d: "chart_quiet (drop_request i s)" using drop_request_ok
    by (auto simp: chart_quiet_def live_requests_def filter_empty_conv drop_request_def)
  have "chart_quiet (candles_failed q t)" if "chart_quiet t" "md_symbol t \<noteq> [] \<or> cq_aborted q" for q t
    using that failed_ok by (auto simp: chart_quiet_def candles_failed_def live_requests_def)
  moreover have "md_symbol s = [] \<Longrightarrow> find_request i s = Some q \<Longrightarrow> cq_aborted q" for q
    using \<open>chart_quiet s\<close> by (auto simp: chart_quiet_def live_requests_def filter_empty_conv find_request_def find_Some_iff)
  ultimately show ?thesis using d q by (cases "find_request i s"; cases "md_symbol s = []") (auto simp: CandlesError)
next
  case (RetryTimer now limited)
  assume q: "chart_quiet s"
  show ?thesis
  proof (cases "md_retry s")
    case (Some r)
    have "cr_symbol r = md_symbol (s\<lparr> md_retry := None \<rparr>)" using q Some by (simp add: chart_quiet_def fetch_ok_def)
    moreover have "chart_quiet (s\<lparr> md_retry := None \<rparr>)" using q by (auto simp: chart_quiet_def live_requests_def fetch_ok_frame)
    ultimately show ?thesis using quiet_fetch [of "s\<lparr> md_retry := None \<rparr>"] by (simp add: RetryTimer retry_fires_def Some)
  qed (simp add: RetryTimer retry_fires_def q)
qed (auto simp: change_symbol_ok quiet_fetch)

inductive chart_run :: "candle_cache \<Rightarrow> market_data \<Rightarrow> bool" for cache where
  start: "chart_run cache (new_market_data cache)"
| step: "chart_run cache s \<Longrightarrow> chart_run cache (chart_step e s)"

lemma chart_run_ok: "chart_run cache s \<Longrightarrow> chart_quiet s"
proof (induction rule: chart_run.induct)
  case start
  show ?case by (simp add: chart_quiet_def fetch_ok_def live_requests_def new_market_data_def)
qed (rule chart_step_ok)

text \<open>
  A retry that waits is not cancelled by a request for another period: when its timer fires it aborts that
  request, and the candles of the old period come instead.
\<close>

lemma retry_takes_over:
  fixes s :: market_data and now :: jsnum and period iv :: string
  assumes "chart_quiet s" "md_retry s = Some r" "md_symbol s \<noteq> []"
    and "map_of (md_cache s) (cache_key (md_symbol s) period iv) = None" "cr_attempt r \<noteq> 0"
  defines "t \<equiv> chart_step (RetryTimer now False) (chart_step (AskCandles now False period iv) s)"
  shows "\<exists>q. live_requests t = [q] \<and> cq_period q = cr_period r \<and> cq_interval q = cr_interval r"
proof -
  let ?a = "request_candles False (md_symbol s) period iv 0 s"
  have a: "chart_step (AskCandles now False period iv) s = ?a" using assms(3,4) by (simp add: fetch_candles_def)
  have ra: "md_retry ?a = Some r" "md_symbol ?a = md_symbol s" "md_cache ?a = md_cache s"
    using assms(2) by (simp_all add: request_candles_def Let_def)
  have sy: "cr_symbol r = md_symbol s" using assms(1,2) by (simp add: chart_quiet_def fetch_ok_def)
  let ?b = "?a\<lparr> md_retry := None \<rparr>"
  have t: "t = request_candles False (cr_symbol r) (cr_period r) (cr_interval r) (cr_attempt r) ?b"
    using assms(3,5) sy by (simp add: t_def a retry_fires_def ra fetch_candles_def del: chart_step.simps(2))
  have "fetch_ok ?b" using request_ok [of s "md_symbol s"] assms(1) by (auto simp: chart_quiet_def fetch_ok_frame)
  from abort_all [OF this] have "filter (\<lambda>q. \<not> cq_aborted q) (md_requests (abort_current ?b)) = []" by (auto simp: filter_empty_conv)
  then show ?thesis by (simp add: t request_candles_def [of False "cr_symbol r"] Let_def live_requests_def)
qed

text \<open>The end of an aborted request takes the spinner away while the request after it is under way.\<close>

lemma abort_stops_spinner:
  assumes "find_request i s = Some q" "cq_aborted q" "cq_symbol q = md_symbol s"
  shows "\<not> md_loading (chart_step (CandlesError i) s) \<and> live_requests (chart_step (CandlesError i) s) = live_requests (drop_request i s)"
  using assms by (simp add: candles_failed_def live_requests_def)

section \<open>Lemmas on what is shown\<close>

definition shows_ready :: "market_data \<Rightarrow> bool" where
  "shows_ready s \<longleftrightarrow> chart_ready (md_candles s) \<and> (\<forall>c \<in> snd ` set (md_cache s). chart_ready (cc_candles c))"

fun event_in_range :: "chart_event \<Rightarrow> bool" where
  "event_in_range (CandlesAnswer now i rows) =
     (case math_floor (now / Fin 1000) of Fin r \<Rightarrow> r = of_int \<lfloor>r\<rfloor> \<and> \<bar>\<lfloor>r\<rfloor>\<bar> \<le> 2 ^ 52 \<and> list_all row_in_range rows | _ \<Rightarrow> False)"
| "event_in_range _ = True"

lemma chart_ready_Nil [simp]: "chart_ready []"
  by (simp add: chart_ready_def)

lemma later_entry_in: "foldl later_entry acc vs = Some v \<Longrightarrow> v \<in> set vs \<or> acc = Some v"
proof (induction vs arbitrary: acc)
  case (Cons w vs)
  from Cons.IH [of "later_entry acc w"] Cons.prems show ?case by (auto simp: later_entry_def split: option.splits if_splits)
qed simp

lemma latest_cached_ready:
  assumes "shows_ready s" "latest_cached symbol (md_cache s) = Some cs"
  shows "chart_ready cs"
proof -
  obtain c where c: "cs = cc_candles c" "foldl later_entry None (map snd (filter (\<lambda>(k, v). starts_with k (symbol @ '':'')) (md_cache s))) = Some c"
    using assms(2) by (auto simp: latest_cached_def)
  from later_entry_in [OF c(2)] have "c \<in> snd ` set (md_cache s)" by force
  with assms(1) c(1) show ?thesis by (auto simp: shows_ready_def)
qed

lemma cached_ready: "shows_ready s \<Longrightarrow> map_of (md_cache s) k = Some c \<Longrightarrow> chart_ready (cc_candles c)"
  by (force simp: shows_ready_def dest: map_of_SomeD)

lemma request_shows [simp]: "md_candles (request_candles limited symbol period iv attempt s) = md_candles s"
  "md_cache (request_candles limited symbol period iv attempt s) = md_cache s"
  by (simp_all add: request_candles_def Let_def)

lemma fetch_shows: "shows_ready s \<Longrightarrow> shows_ready (fetch_candles now limited symbol period iv attempt s)"
  by (auto simp: fetch_candles_def Let_def cached_ready shows_ready_def [of "_\<lparr> md_loading := _ \<rparr>"] shows_ready_def [of "request_candles _ _ _ _ _ _"]
      split: option.split) (auto simp: shows_ready_def dest: cached_ready)

lemma set_update_subset: "set (AList.update k v xs) \<subseteq> insert (k, v) (set xs)"
  by (induction xs) auto

lemma store_ready:
  assumes "\<forall>c \<in> snd ` set cache. chart_ready (cc_candles c)" "chart_ready cs"
  shows "\<forall>c \<in> snd ` set (store_candles now q cs cache). chart_ready (cc_candles c)"
proof -
  have "snd ` set (AList.update k v xs) \<subseteq> insert v (snd ` set xs)" for k :: string and v :: cached_candles and xs
    using set_update_subset [of k v xs] by force
  moreover have "snd ` set (AList.delete k xs) \<subseteq> snd ` set xs" for k :: string and xs :: candle_cache
    by (auto simp: AList.delete_eq)
  ultimately show ?thesis using assms unfolding store_candles_def Let_def by (smt (verit) cached_candles.select_convs(1) insertE subsetD)
qed

lemma answered_shows:
  assumes "shows_ready s" "event_in_range (CandlesAnswer now i rows)"
  shows "shows_ready (candles_answered now q rows s)"
proof -
  obtain r where r: "math_floor (now / Fin 1000) = Fin r" "r = of_int \<lfloor>r\<rfloor>" "\<bar>\<lfloor>r\<rfloor>\<bar> \<le> 2 ^ 52" "list_all row_in_range rows"
    using assms(2) by (auto split: jsnum.splits)
  define cs where "cs = normalize_candles now rows"
  have cs: "chart_ready cs" unfolding cs_def by (rule normalized_chart_ready [of now "\<lfloor>r\<rfloor>"]) (use r in auto)
  then have "\<forall>c \<in> snd ` set (store_candles now q cs (md_cache s)). chart_ready (cc_candles c)"
    using assms(1) by (intro store_ready) (simp_all add: shows_ready_def)
  then show ?thesis using assms(1) cs unfolding candles_answered_def Let_def cs_def [symmetric]
    by (simp add: shows_ready_def)
qed

lemma failed_shows: "shows_ready s \<Longrightarrow> shows_ready (candles_failed q s)"
  by (auto simp: candles_failed_def shows_ready_def)

lemma drop_shows: "shows_ready (drop_request i s) = shows_ready s"
  by (simp add: shows_ready_def)

lemma chart_step_shows: "shows_ready s \<Longrightarrow> event_in_range e \<Longrightarrow> shows_ready (chart_step e s)"
proof (cases e)
  case (ChangeSymbol symbol)
  assume s: "shows_ready s"
  have "md_cache (leave_symbol s) = md_cache s" "md_candles (leave_symbol s) = md_candles s" by (simp_all add: leave_symbol_def)
  then show ?thesis using s latest_cached_ready [OF s]
    by (auto simp: ChangeSymbol change_symbol_def Let_def shows_ready_def split: option.split)
next
  case (CandlesAnswer now i rows)
  assume "shows_ready s" "event_in_range e"
  then show ?thesis unfolding CandlesAnswer by (auto simp del: event_in_range.simps split: option.split intro!: answered_shows failed_shows simp: drop_shows)
next
  case (RetryTimer now limited)
  assume "shows_ready s"
  then have "shows_ready (s\<lparr> md_retry := None \<rparr>)" by (simp add: shows_ready_def)
  with \<open>shows_ready s\<close> show ?thesis by (auto simp: RetryTimer retry_fires_def fetch_shows split: option.split)
qed (auto simp: fetch_shows failed_shows drop_shows split: option.split)

lemma chart_run_shows: "shows_ready s \<Longrightarrow> list_all event_in_range es \<Longrightarrow> shows_ready (fold chart_step es s)"
  by (induction es arbitrary: s) (auto simp: chart_step_shows simp del: chart_step.simps event_in_range.simps)

text \<open>Three failures of the quote in a row show an error, and a usable quote takes it away.\<close>

lemma third_failure_shows: "md_fails s = 0 \<Longrightarrow> md_error (quote_failed (quote_failed (quote_failed s)))"
  by (simp add: quote_failed_def)

lemma usable_quote_clears: "quote_is_usable data \<Longrightarrow> \<not> md_error (fst (quote_answered now symbol data st)) \<and> md_fails (fst (quote_answered now symbol data st)) = 0"
  by (simp add: quote_answered_def)

end
