(* ===== verification/Responsive.thy ===== *)
theory Responsive
  imports JSValue
begin

text \<open>
  The layout of the terminal on small screens, \<open>frontend/src/responsive\<close>: breakpoints and device classes, grid
  classes, the keys of routes and of the bottom navigation, the window of a virtualised list, and the tiers
  of a device. What the browser measures or matches is an argument.
\<close>

section \<open>Breakpoints\<close>

definition breakpoints :: "(string \<times> jsnum) list" where
  "breakpoints = [(''xs'', Fin 320), (''sm'', Fin 480), (''md'', Fin 768), (''lg'', Fin 1024), (''xl'', Fin 1280),
     (''2xl'', Fin 1536), (''3xl'', Fin 1920), (''4xl'', Fin 2560)]"

datatype layout_mode = DesktopLayout | TabletLayout | MobileLayout

datatype height_tier = TallHeight | MediumHeight | ShortHeight | CompactHeight

datatype device_category = PhoneSmall | Phone | PhoneLarge | Foldable | TabletPortrait | TabletLandscape | LaptopSmall
  | Desktop | DesktopLarge | UltraWide

definition breakpoint_key :: "jsnum \<Rightarrow> string" where
  "breakpoint_key w =
     (if Fin 2560 \<le> w then ''4xl'' else if Fin 1920 \<le> w then ''3xl'' else if Fin 1536 \<le> w then ''2xl''
      else if Fin 1280 \<le> w then ''xl'' else if Fin 1024 \<le> w then ''lg'' else if Fin 768 \<le> w then ''md''
      else if Fin 480 \<le> w then ''sm'' else if Fin 320 \<le> w then ''xs'' else ''base'')"

definition layout_mode_of :: "jsnum \<Rightarrow> layout_mode" where
  "layout_mode_of w = (if Fin 1024 \<le> w then DesktopLayout else if Fin 768 \<le> w then TabletLayout else MobileLayout)"

definition height_tier_of :: "jsnum \<Rightarrow> height_tier" where
  "height_tier_of h =
     (if Fin 1000 \<le> h then TallHeight else if Fin 800 \<le> h then MediumHeight else if Fin 600 \<le> h then ShortHeight
      else CompactHeight)"

definition device_category_of :: "bool \<Rightarrow> jsnum \<Rightarrow> jsnum \<Rightarrow> device_category" where
  "device_category_of foldable w h =
     (if foldable \<and> Fin 768 \<le> w \<and> w < Fin 1024 then Foldable
      else if w < Fin 480 then PhoneSmall
      else if w < Fin 768 then (if Fin 414 \<le> w then PhoneLarge else Phone)
      else if w < Fin 1024 then (if h < w then TabletLandscape else TabletPortrait)
      else if w < Fin 1280 then LaptopSmall
      else if w < Fin 1920 then Desktop
      else if w < Fin 2560 then DesktopLarge
      else UltraWide)"

text \<open>The width just below the next breakpoint; past the last one there is none.\<close>

fun next_breakpoint :: "string \<Rightarrow> (string \<times> jsnum) list \<Rightarrow> jsnum" where
  "next_breakpoint k ((a, _) # (b, v) # rest) = (if a = k then v - Fin 1 else next_breakpoint k ((b, v) # rest))"
| "next_breakpoint k _ = PInf"

definition matches_breakpoint :: "jsnum \<Rightarrow> string \<Rightarrow> bool" where
  "matches_breakpoint w k =
     (case map_of breakpoints k of None \<Rightarrow> True | Some least \<Rightarrow> least \<le> w \<and> w \<le> next_breakpoint k breakpoints)"

definition is_desktop_width :: "jsnum \<Rightarrow> bool" where
  "is_desktop_width w = (Fin 1024 \<le> w)"

definition is_tablet_width :: "jsnum \<Rightarrow> bool" where
  "is_tablet_width w = (Fin 768 \<le> w \<and> w < Fin 1024)"

definition is_mobile_width :: "jsnum \<Rightarrow> bool" where
  "is_mobile_width w = (w < Fin 768)"

section \<open>The capabilities of the device\<close>

text \<open>\<open>spans\<close> is the media query for a fold.\<close>

definition detect_foldable :: "bool \<Rightarrow> jsnum \<Rightarrow> jsnum \<Rightarrow> bool" where
  "detect_foldable spans vw vh =
     (spans \<or> (lit (21 / 10) < math_max vw vh / math_min vw vh \<and> Fin 600 \<le> vw \<and> vw \<le> Fin 900))"

definition detect_touch :: "bool \<Rightarrow> jsnum \<Rightarrow> bool \<Rightarrow> bool" where
  "detect_touch has_event points coarse = (has_event \<or> Fin 0 < points \<or> coarse)"

definition pixel_ratio :: "jsnum \<Rightarrow> jsnum" where
  "pixel_ratio r = num_or r (Fin 1)"

text \<open>The memory and the cores are \<open>None\<close> where the browser does not tell them.\<close>

definition is_low_end :: "jsnum option \<Rightarrow> jsnum option \<Rightarrow> bool" where
  "is_low_end mem cores = ((case mem of Some m \<Rightarrow> m \<le> Fin 4 | None \<Rightarrow> False) \<or> (case cores of Some c \<Rightarrow> c \<le> Fin 4 | None \<Rightarrow> False))"

datatype device_tier = LowTier | ReducedTier | NormalTier

definition device_tier_of :: "jsnum option \<Rightarrow> jsnum option \<Rightarrow> bool \<Rightarrow> device_tier" where
  "device_tier_of mem cores reduced = (if is_low_end mem cores then LowTier else if reduced then ReducedTier else NormalTier)"

datatype animation_tier = MinimalAnimation | LightAnimation | FullAnimation

definition animation_tier_of :: "bool \<Rightarrow> bool \<Rightarrow> animation_tier" where
  "animation_tier_of reduced low = (if reduced then MinimalAnimation else if low then LightAnimation else FullAnimation)"

definition responsive_scale :: "jsnum \<Rightarrow> jsnum" where
  "responsive_scale w = math_min (Fin 1) (w / Fin 1280)"

section \<open>Grids, routes and navigation\<close>

definition tablet_grids :: "(string \<times> string) list" where
  "tablet_grids = [(''default'', ''responsive-grid-tablet''), (''market'', ''responsive-grid-tablet-market''),
     (''portfolio'', ''responsive-grid-tablet-portfolio'')]"

definition mobile_grids :: "(string \<times> string) list" where
  "mobile_grids = [(''default'', ''responsive-grid-mobile''), (''market'', ''responsive-grid-mobile-stack''),
     (''portfolio'', ''responsive-grid-mobile-stack''), (''leaderboard'', ''responsive-grid-mobile-stack'')]"

definition adaptive_grid_class :: "layout_mode \<Rightarrow> string \<Rightarrow> string" where
  "adaptive_grid_class mode variant =
     (case mode of
        DesktopLayout \<Rightarrow> ''responsive-grid-desktop-pass''
      | TabletLayout \<Rightarrow> (case map_of tablet_grids variant of Some c \<Rightarrow> c | None \<Rightarrow> ''responsive-grid-tablet'')
      | MobileLayout \<Rightarrow> (case map_of mobile_grids variant of Some c \<Rightarrow> c | None \<Rightarrow> ''responsive-grid-mobile''))"

definition column_count :: "layout_mode \<Rightarrow> jsnum \<Rightarrow> jsnum" where
  "column_count mode cols =
     (case mode of DesktopLayout \<Rightarrow> cols | TabletLayout \<Rightarrow> math_min (Fin 2) cols | MobileLayout \<Rightarrow> Fin 1)"

text \<open>The prefixes are tried in this order; the login page is \<open>/\<close> or begins with \<open>/login\<close>.\<close>

definition route_prefixes :: "(string \<times> string) list" where
  "route_prefixes = [(''/terminal'', ''terminal''), (''/futures'', ''futures''), (''/options'', ''options''),
     (''/commodities'', ''commodities''), (''/market'', ''market''), (''/portfolio'', ''portfolio''), (''/orders'', ''orders''),
     (''/leaderboard'', ''leaderboard''), (''/algo'', ''algo''), (''/zeroloss'', ''algo''), (''/auto-alpha'', ''algo''),
     (''/settings'', ''settings''), (''/bug-report'', ''bug-report''), (''/dashboard'', ''dashboard''), (''/mentor'', ''mentor'')]"

definition route_key :: "string \<Rightarrow> string" where
  "route_key p =
     (case find (\<lambda>(pre, k). starts_with p pre) route_prefixes of
        Some (pre, k) \<Rightarrow> k
      | None \<Rightarrow> if p = ''/'' \<or> starts_with p ''/login'' then ''auth'' else ''default'')"

definition trading_routes :: "string list" where
  "trading_routes = [''/terminal'', ''/futures'', ''/options'']"

definition is_trading_route :: "string \<Rightarrow> bool" where
  "is_trading_route p = list_ex (\<lambda>r. starts_with p r) trading_routes"

definition mobile_nav_routes :: "string list" where
  "mobile_nav_routes = [''/dashboard'', ''/terminal'', ''/orders'', ''/portfolio'', ''/settings'']"

definition nav_item_active :: "string \<Rightarrow> string \<Rightarrow> bool" where
  "nav_item_active path item = (path = item \<or> (item = ''/terminal'' \<and> (starts_with path ''/futures'' \<or> starts_with path ''/options'')))"

text \<open>What a page of the responsive layer is told of its layout.\<close>

record responsive_layout =
  rl_mode :: layout_mode
  rl_route :: string
  rl_trading :: bool
  rl_grid :: string
  rl_page_class :: string
  rl_shell :: string

definition responsive_layout_of :: "string \<Rightarrow> jsnum \<Rightarrow> string \<Rightarrow> responsive_layout" where
  "responsive_layout_of variant w path =
     (let mode = layout_mode_of w; r = route_key path in
      \<lparr> rl_mode = mode, rl_route = r, rl_trading = is_trading_route path, rl_grid = adaptive_grid_class mode variant,
        rl_page_class = ''responsive-page responsive-page--'' @ r,
        rl_shell = (case mode of DesktopLayout \<Rightarrow> ''responsive-shell-desktop'' | TabletLayout \<Rightarrow> ''responsive-shell-tablet''
          | MobileLayout \<Rightarrow> ''responsive-shell-mobile'') \<rparr>)"

text \<open>The page is wrapped in the tabs of the trading layout on a trading route below the desktop width.\<close>

definition wraps_trading :: "jsnum \<Rightarrow> string \<Rightarrow> bool" where
  "wraps_trading w path = (is_trading_route path \<and> layout_mode_of w \<noteq> DesktopLayout)"

definition floating_actions_shown :: "jsnum \<Rightarrow> string \<Rightarrow> string \<Rightarrow> bool" where
  "floating_actions_shown w path tab = (\<not> (layout_mode_of w = DesktopLayout \<or> \<not> is_trading_route path \<or> tab = ''order''))"

section \<open>The window of a virtualised list\<close>

record list_window =
  lw_start :: jsnum
  lw_end :: jsnum
  lw_height :: jsnum
  lw_offset :: jsnum

definition list_window_of :: "nat \<Rightarrow> jsnum \<Rightarrow> jsnum \<Rightarrow> jsnum \<Rightarrow> jsnum \<Rightarrow> list_window" where
  "list_window_of count scroll row_height viewport overscan =
     (let start = math_max (Fin 0) (math_floor (scroll / row_height) - overscan);
          visible = math_ceil (viewport / row_height) + overscan * Fin 2;
          last' = math_min (num_of_nat count) (start + visible)
      in \<lparr> lw_start = start, lw_end = last', lw_height = num_of_nat count * row_height, lw_offset = start * row_height \<rparr>)"

text \<open>\<open>items.slice(start, end)\<close> with finite whole bounds that are not negative.\<close>

definition window_items :: "'a list \<Rightarrow> list_window \<Rightarrow> 'a list" where
  "window_items items w =
     (case (lw_start w, lw_end w) of
        (Fin a, Fin b) \<Rightarrow> take (nat \<lfloor>b\<rfloor> - nat \<lfloor>a\<rfloor>) (drop (nat \<lfloor>a\<rfloor>) items)
      | _ \<Rightarrow> [])"

section \<open>Lemmas\<close>

lemma key_matches: "w \<noteq> NaN \<Longrightarrow> breakpoint_key w = k \<Longrightarrow> map_of breakpoints k = Some v \<Longrightarrow> v \<le> w"
  by (auto simp: breakpoint_key_def breakpoints_def split: if_splits)

text \<open>Whole widths have exactly one breakpoint, and it is the key of the width.\<close>

lemma breakpoint_unique:
  assumes "320 \<le> n" "map_of breakpoints k \<noteq> None"
  shows "matches_breakpoint (Fin (of_int n)) k \<longleftrightarrow> breakpoint_key (Fin (of_int n)) = k"
proof -
  have nums: "rnd 479 = Fin 479" "rnd 767 = Fin 767" "rnd 1023 = Fin 1023" "rnd 1279 = Fin 1279" "rnd 1535 = Fin 1535"
    "rnd 1919 = Fin 1919" "rnd 2559 = Fin 2559" by (simp_all add: rnd_numeral)
  have of_int_le: "(numeral m \<le> (of_int n :: rat)) = (numeral m \<le> n)" "((of_int n :: rat) \<le> numeral m) = (n \<le> numeral m)" for m
    by (metis of_int_le_iff of_int_numeral)+
  have "k \<in> set (map fst breakpoints)" using assms(2) by (auto simp: map_of_eq_None_iff)
  then show ?thesis using assms(1)
    by (auto simp: matches_breakpoint_def breakpoint_key_def breakpoints_def nums of_int_le minus_jsnum_def)
qed

lemma modes_by_width:
  "layout_mode_of w = DesktopLayout \<longleftrightarrow> is_desktop_width w"
  "w \<noteq> NaN \<Longrightarrow> layout_mode_of w = TabletLayout \<longleftrightarrow> is_tablet_width w"
  "w \<noteq> NaN \<Longrightarrow> layout_mode_of w = MobileLayout \<longleftrightarrow> is_mobile_width w"
  by (cases w; auto simp: layout_mode_of_def is_desktop_width_def is_tablet_width_def is_mobile_width_def)+

text \<open>The class of a device agrees with the mode of its width.\<close>

lemma category_mode:
  assumes "w \<noteq> NaN"
  shows "layout_mode_of w =
    (case device_category_of foldable w h of
       PhoneSmall \<Rightarrow> MobileLayout | Phone \<Rightarrow> MobileLayout | PhoneLarge \<Rightarrow> MobileLayout
     | Foldable \<Rightarrow> TabletLayout | TabletPortrait \<Rightarrow> TabletLayout | TabletLandscape \<Rightarrow> TabletLayout | _ \<Rightarrow> DesktopLayout)"
  using assms by (cases w) (auto simp: device_category_of_def layout_mode_of_def)

text \<open>No width between 480 and 767 is a plain phone of less than 414, so the class never occurs.\<close>

lemma plain_phone_never: "device_category_of foldable w h \<noteq> Phone"
  by (cases w) (auto simp: device_category_of_def)

lemma grid_never_empty: "adaptive_grid_class mode variant \<noteq> []"
  by (cases mode) (auto simp: adaptive_grid_class_def tablet_grids_def mobile_grids_def)

text \<open>The trading routes of the shell are the routes whose key is one of the three terminals.\<close>

lemma trading_route_keys: "is_trading_route p \<longleftrightarrow> route_key p \<in> {''terminal'', ''futures'', ''options''}"
  by (auto simp: is_trading_route_def trading_routes_def route_key_def route_prefixes_def)

lemma buttons_need_trading: "floating_actions_shown w path tab \<Longrightarrow> wraps_trading w path"
  by (simp add: floating_actions_shown_def wraps_trading_def)

lemma quotient_bounds:
  assumes "0 \<le> (x :: rat)" "x \<le> 2 ^ 40"
  obtains r where "rnd x = Fin r" "\<lfloor>x\<rfloor> \<le> \<lfloor>r\<rfloor>" "\<lfloor>r\<rfloor> \<le> \<lceil>x\<rceil>" "\<lfloor>x\<rfloor> \<le> \<lceil>r\<rceil>" "\<lceil>r\<rceil> \<le> \<lceil>x\<rceil>" "0 \<le> \<lfloor>r\<rfloor>"
proof -
  have c: "\<lceil>x\<rceil> \<le> 2 ^ 40" "0 \<le> \<lfloor>x\<rfloor>" "0 \<le> \<lceil>x\<rceil>" "\<lfloor>x\<rfloor> \<le> \<lceil>x\<rceil>" using assms by (simp_all add: ceiling_le_iff le_floor_iff)
  then have "\<bar>\<lfloor>x\<rfloor>\<bar> \<le> 2 ^ 53" "\<bar>\<lceil>x\<rceil>\<bar> \<le> 2 ^ 53" by simp_all
  then obtain r where r: "rnd x = Fin r" "of_int \<lfloor>x\<rfloor> \<le> r" "r \<le> of_int \<lceil>x\<rceil>"
    using round_val_int_bounds [of "\<lfloor>x\<rfloor>" x "\<lceil>x\<rceil>"] by auto
  show thesis
  proof (rule that [OF r(1)])
    show "\<lfloor>x\<rfloor> \<le> \<lfloor>r\<rfloor>" using r(2) by (simp add: le_floor_iff)
    then show "0 \<le> \<lfloor>r\<rfloor>" using c by linarith
    show "\<lceil>r\<rceil> \<le> \<lceil>x\<rceil>" using r(3) by (simp add: ceiling_le_iff)
    then show "\<lfloor>r\<rfloor> \<le> \<lceil>x\<rceil>" by linarith
    show "\<lfloor>x\<rfloor> \<le> \<lceil>r\<rceil>" using r(2) by linarith
  qed
qed

text \<open>The bounds of the window are whole, whatever the rounding of the two quotients.\<close>

lemma window_bounds:
  fixes scroll rh vh :: rat and overscan :: int
  assumes "0 \<le> scroll / rh" "scroll / rh \<le> 2 ^ 40" "0 \<le> vh / rh" "vh / rh \<le> 2 ^ 40" "0 < rh"
    and "0 \<le> overscan" "overscan \<le> 2 ^ 20" "count \<le> 2 ^ 40"
  obtains f c where "\<lfloor>scroll / rh\<rfloor> \<le> f" "f \<le> \<lceil>scroll / rh\<rceil>" "\<lfloor>vh / rh\<rfloor> \<le> c"
    "lw_start (list_window_of count (Fin scroll) (Fin rh) (Fin vh) (Fin (of_int overscan))) = Fin (of_int (max 0 (f - overscan)))"
    "lw_end (list_window_of count (Fin scroll) (Fin rh) (Fin vh) (Fin (of_int overscan)))
       = Fin (of_int (min (int count) (max 0 (f - overscan) + (c + 2 * overscan))))"
proof -
  obtain r where r: "rnd (scroll / rh) = Fin r" "\<lfloor>scroll / rh\<rfloor> \<le> \<lfloor>r\<rfloor>" "\<lfloor>r\<rfloor> \<le> \<lceil>scroll / rh\<rceil>" "0 \<le> \<lfloor>r\<rfloor>"
    using quotient_bounds [OF assms(1,2)] by metis
  obtain s where s: "rnd (vh / rh) = Fin s" "\<lfloor>vh / rh\<rfloor> \<le> \<lceil>s\<rceil>" "\<lceil>s\<rceil> \<le> \<lceil>vh / rh\<rceil>"
    using quotient_bounds [OF assms(3,4)] by metis
  have up: "\<lceil>scroll / rh\<rceil> \<le> 2 ^ 40" "\<lceil>vh / rh\<rceil> \<le> 2 ^ 40" "0 \<le> \<lfloor>vh / rh\<rfloor>"
    using assms by (simp_all add: ceiling_le_iff le_floor_iff)
  let ?a = "max 0 (\<lfloor>r\<rfloor> - overscan)" and ?v = "\<lceil>s\<rceil> + 2 * overscan"
  have small: "\<lceil>scroll / rh\<rceil> \<le> 1099511627776" "\<lceil>vh / rh\<rceil> \<le> 1099511627776" "overscan \<le> 1048576" "(2 :: int) ^ 53 = 9007199254740992"
    using up(1,2) assms(7) by simp_all
  have sums: "\<bar>\<lfloor>r\<rfloor> - overscan\<bar> \<le> 2 ^ 53" "\<bar>overscan * 2\<bar> \<le> 2 ^ 53" "\<bar>\<lceil>s\<rceil> + 2 * overscan\<bar> \<le> 2 ^ 53" "\<bar>?a + ?v\<bar> \<le> 2 ^ 53"
    unfolding small(4) using small(1-3) r(3,4) s(2,3) up(3) assms(6) by linarith+
  have v2: "Fin (of_int overscan) * Fin 2 = Fin (of_int (2 * overscan))" using whole_product [OF sums(2)] by (simp add: mult.commute)
  note d = whole_difference [OF sums(1)] and v = whole_sum [OF sums(3)] and e = whole_sum [OF sums(4)]
  have start: "math_max (Fin 0) (Fin (of_int (\<lfloor>r\<rfloor> - overscan))) = Fin (of_int ?a)"
    by (simp add: math_max_def max_def)
  have n: "num_of_nat count = Fin (of_int (int count))"
    using rnd_of_int [of "int count"] assms(8) by (simp add: num_of_nat_def)
  have least: "math_min (Fin (of_int x)) (Fin (of_int y)) = Fin (of_int (min x y))" for x y :: int
    by (simp add: math_min_def min_def)
  have q: "Fin scroll / Fin rh = Fin r" "Fin vh / Fin rh = Fin s" using r(1) s(1) assms(5) by simp_all
  show thesis
    by (rule that [of "\<lfloor>r\<rfloor>" "\<lceil>s\<rceil>"]) (use r s in \<open>simp_all only: list_window_of_def q math_floor.simps math_ceil.simps d start v2 v e n least
      Let_def list_window.simps\<close>)
qed

text \<open>
  Every row of which some part is in view is among the rendered ones, at its own place: the two rows of
  overscan cover what the rounding of the quotients can lose.
\<close>

lemma visible_row_rendered:
  fixes scroll rh vh :: rat and overscan :: int
  assumes "0 \<le> scroll / rh" "scroll / rh \<le> 2 ^ 40" "0 \<le> vh / rh" "vh / rh \<le> 2 ^ 40" "0 < rh"
    and "2 \<le> overscan" "overscan \<le> 2 ^ 20" "length items \<le> 2 ^ 40"
    and "i < length items" "of_nat i * rh < scroll + vh" "scroll < of_nat (i + 1) * rh"
  defines "w \<equiv> list_window_of (length items) (Fin scroll) (Fin rh) (Fin vh) (Fin (of_int overscan))"
  shows "\<exists>a. lw_start w = Fin (of_nat a) \<and> a \<le> i \<and> i - a < length (window_items items w) \<and> window_items items w ! (i - a) = items ! i"
proof -
  obtain f c where fc: "\<lfloor>scroll / rh\<rfloor> \<le> f" "f \<le> \<lceil>scroll / rh\<rceil>" "\<lfloor>vh / rh\<rfloor> \<le> c"
    and st: "lw_start w = Fin (of_int (max 0 (f - overscan)))"
    and en: "lw_end w = Fin (of_int (min (int (length items)) (max 0 (f - overscan) + (c + 2 * overscan))))"
    unfolding w_def by (rule window_bounds [OF assms(1-5) _ assms(7,8)]) (use assms(6) in auto)
  let ?a = "max 0 (f - overscan)" and ?b = "min (int (length items)) (max 0 (f - overscan) + (c + 2 * overscan))"
  have "scroll / rh < of_int (int i + 1)" using assms(5,11) by (simp add: divide_less_eq add.commute)
  then have "\<lceil>scroll / rh\<rceil> \<le> int i + 1" by (simp add: ceiling_le_iff less_imp_le)
  then have a: "?a \<le> int i" using fc assms(6) by linarith
  have "of_nat i < (scroll + vh) / rh" using assms(5,10) by (simp add: less_divide_eq)
  then have "of_int (int i) < scroll / rh + vh / rh" by (simp add: add_divide_distrib)
  then have "int i < \<lfloor>scroll / rh\<rfloor> + \<lfloor>vh / rh\<rfloor> + 2" by linarith
  then have b: "int i < ?b" using fc assms(6,9) by (simp add: max_def)
  define m n where "m = nat ?a" and "n = nat ?b"
  have mn: "m \<le> i" "i < n" "n \<le> length items" using a b unfolding m_def n_def by linarith+
  have "window_items items w = take (n - m) (drop m items)"
    by (simp add: window_items_def st en m_def n_def del: of_int_max of_int_min)
  moreover have "lw_start w = Fin (of_nat m)" by (simp add: st m_def)
  ultimately show ?thesis using mn by (intro exI [of _ m]) simp
qed

end
