(* ===== verification/MobileShell.thy ===== *)
theory MobileShell
  imports Responsive
begin

text \<open>
  What the responsive layer keeps between events: the trading tab with its copy in the storage
  (\<open>ResponsiveStatePersistence\<close>, run by the effect of \<open>ResponsiveHardeningRoot\<close>), the order sheet with its snap
  points (\<open>TradePanelSnapEngine\<close>, \<open>MobileTradeSurfaceRegistry\<close>), the lock of the chart gestures, swipes, the
  modes of the terminal, the inset of the keyboard and the profiler of frames. Sizes the browser measures are
  arguments, and the storage is taken to accept what is written.
\<close>

section \<open>The trading tab\<close>

text \<open>
  \<open>tp_tab\<close> is the tab of the provider, \<open>tp_ctx\<close> the tab in the context that the module holds. The effect of the
  root depends on the whole context, so it runs again whenever the tab changes: it disposes of the module and
  starts it with the new context.
\<close>

record tab_persistence =
  tp_tab :: string
  tp_ctx :: "string option"
  tp_stored :: "string option"

definition trading_tabs :: "string list" where
  "trading_tabs = [''chart'', ''watchlist'', ''order'']"

definition new_tab_persistence :: "string option \<Rightarrow> tab_persistence" where
  "new_tab_persistence stored = \<lparr> tp_tab = ''chart'', tp_ctx = None, tp_stored = stored \<rparr>"

definition persist_tab :: "tab_persistence \<Rightarrow> tab_persistence" where
  "persist_tab s = (case tp_ctx s of Some t \<Rightarrow> if t \<noteq> [] then s\<lparr> tp_stored := Some t \<rparr> else s | None \<Rightarrow> s)"

definition init_persistence :: "tab_persistence \<Rightarrow> tab_persistence" where
  "init_persistence s =
     (let s = s\<lparr> tp_ctx := Some (tp_tab s) \<rparr>
      in case tp_stored s of Some t \<Rightarrow> if t \<in> set trading_tabs then s\<lparr> tp_tab := t \<rparr> else s | None \<Rightarrow> s)"

definition dispose_persistence :: "tab_persistence \<Rightarrow> tab_persistence" where
  "dispose_persistence s = (persist_tab s)\<lparr> tp_ctx := None \<rparr>"

definition rerun_effect :: "tab_persistence \<Rightarrow> tab_persistence" where
  "rerun_effect s = init_persistence (dispose_persistence s)"

definition choose_tab :: "string \<Rightarrow> tab_persistence \<Rightarrow> tab_persistence" where
  "choose_tab t s = s\<lparr> tp_tab := t \<rparr>"

text \<open>The effect is due while the context it last saw is not the one of the provider.\<close>

definition effect_due :: "tab_persistence \<Rightarrow> bool" where
  "effect_due s = (tp_ctx s \<noteq> Some (tp_tab s))"

datatype tab_event = TabEffect | TabTimer

fun tab_step :: "tab_event \<Rightarrow> tab_persistence \<Rightarrow> tab_persistence" where
  "tab_step TabEffect s = (if effect_due s then rerun_effect s else s)"
| "tab_step TabTimer s = persist_tab s"

section \<open>The order sheet\<close>

datatype snap_state = SnapCollapsed | SnapPreview | SnapExecution | SnapConfirmation

fun snap_name :: "snap_state \<Rightarrow> string" where
  "snap_name SnapCollapsed = ''collapsed''"
| "snap_name SnapPreview = ''preview''"
| "snap_name SnapExecution = ''execution''"
| "snap_name SnapConfirmation = ''confirmation''"

definition snap_states :: "snap_state list" where
  "snap_states = [SnapCollapsed, SnapPreview, SnapExecution, SnapConfirmation]"

fun snap_fraction :: "snap_state \<Rightarrow> jsnum" where
  "snap_fraction SnapCollapsed = lit (12 / 100)"
| "snap_fraction SnapPreview = lit (42 / 100)"
| "snap_fraction SnapExecution = lit (72 / 100)"
| "snap_fraction SnapConfirmation = lit (92 / 100)"

definition fraction_to_height :: "jsnum \<Rightarrow> jsnum \<Rightarrow> jsnum \<Rightarrow> jsnum" where
  "fraction_to_height vh safe fraction = math_round (vh * fraction - safe)"

definition nearer_snap :: "jsnum \<Rightarrow> snap_state \<times> jsnum \<Rightarrow> snap_state \<Rightarrow> snap_state \<times> jsnum" where
  "nearer_snap ratio acc st =
     (let d = \<bar>ratio - snap_fraction st\<bar> in if d < snd acc then (st, d) else acc)"

definition nearest_snap :: "jsnum \<Rightarrow> jsnum \<Rightarrow> snap_state" where
  "nearest_snap vh h = fst (foldl (nearer_snap (h / vh)) (SnapPreview, PInf) snap_states)"

text \<open>The state after and before one, in the order of the fractions.\<close>

fun snap_up :: "snap_state \<Rightarrow> snap_state" where
  "snap_up SnapCollapsed = SnapPreview"
| "snap_up SnapPreview = SnapExecution"
| "snap_up SnapExecution = SnapConfirmation"
| "snap_up SnapConfirmation = SnapConfirmation"

fun snap_down :: "snap_state \<Rightarrow> snap_state" where
  "snap_down SnapCollapsed = SnapCollapsed"
| "snap_down SnapPreview = SnapCollapsed"
| "snap_down SnapExecution = SnapPreview"
| "snap_down SnapConfirmation = SnapExecution"

record snap_panel =
  sp_state :: snap_state
  sp_start_y :: jsnum
  sp_start_height :: jsnum
  sp_dragging :: bool
  sp_height :: jsnum
  sp_stored :: "string option"

definition apply_snap :: "jsnum \<Rightarrow> jsnum \<Rightarrow> snap_state \<Rightarrow> snap_panel \<Rightarrow> snap_panel" where
  "apply_snap vh safe st p =
     p\<lparr> sp_state := st, sp_height := fraction_to_height vh safe (snap_fraction st), sp_stored := Some (snap_name st) \<rparr>"

definition saved_snap :: "string option \<Rightarrow> snap_state" where
  "saved_snap stored =
     (case stored of
        None \<Rightarrow> SnapPreview
      | Some t \<Rightarrow> (case find (\<lambda>st. snap_name st = t) snap_states of Some st \<Rightarrow> st | None \<Rightarrow> SnapPreview))"

definition attach_panel :: "jsnum \<Rightarrow> jsnum \<Rightarrow> jsnum \<Rightarrow> string option \<Rightarrow> snap_panel" where
  "attach_panel vh safe height stored =
     apply_snap vh safe (saved_snap stored)
       (apply_snap vh safe SnapPreview
         \<lparr> sp_state = SnapPreview, sp_start_y = Fin 0, sp_start_height = Fin 0, sp_dragging = False, sp_height = height,
           sp_stored = stored \<rparr>)"

text \<open>\<open>button\<close> is \<open>None\<close> for an event that has none; \<open>height\<close> is the height the panel has on the screen.\<close>

definition panel_down :: "nat option \<Rightarrow> jsnum \<Rightarrow> jsnum \<Rightarrow> snap_panel \<Rightarrow> snap_panel" where
  "panel_down button y height p =
     (if button \<noteq> None \<and> button \<noteq> Some 0 then p
      else p\<lparr> sp_dragging := True, sp_start_y := y, sp_start_height := height \<rparr>)"

definition panel_move :: "jsnum \<Rightarrow> jsnum \<Rightarrow> jsnum \<Rightarrow> snap_panel \<Rightarrow> snap_panel" where
  "panel_move vh safe y p =
     (if \<not> sp_dragging p then p
      else p\<lparr> sp_height :=
        math_max (fraction_to_height vh safe (snap_fraction SnapCollapsed))
          (math_min (fraction_to_height vh safe (snap_fraction SnapConfirmation)) (sp_start_height p + (sp_start_y p - y))) \<rparr>)"

definition released_snap :: "jsnum \<Rightarrow> jsnum \<Rightarrow> jsnum \<Rightarrow> snap_state" where
  "released_snap vh height velocity =
     (let target = nearest_snap vh height
      in if Fin 40 < \<bar>velocity\<bar> then (if velocity < Fin 0 then snap_up target else snap_down target) else target)"

definition panel_up :: "jsnum \<Rightarrow> jsnum \<Rightarrow> jsnum \<Rightarrow> jsnum \<Rightarrow> snap_panel \<Rightarrow> snap_panel" where
  "panel_up vh safe y height p =
     (if \<not> sp_dragging p then p
      else apply_snap vh safe (released_snap vh height (y - sp_start_y p)) (p\<lparr> sp_dragging := False \<rparr>))"

section \<open>Gestures\<close>

text \<open>The number of locks and whether the page carries the class that stops it from scrolling.\<close>

record chart_lock =
  cl_locks :: nat
  cl_active :: bool

datatype touch_event = TouchStart bool | TouchEnd

definition lock_chart :: "chart_lock \<Rightarrow> chart_lock" where
  "lock_chart s = \<lparr> cl_locks = cl_locks s + 1, cl_active = True \<rparr>"

definition unlock_chart :: "chart_lock \<Rightarrow> chart_lock" where
  "unlock_chart s = (let n = cl_locks s - 1 in s\<lparr> cl_locks := n, cl_active := if n = 0 then False else cl_active s \<rparr>)"

text \<open>\<open>TouchStart c\<close> is a touch on a chart where \<open>c\<close> holds.\<close>

fun touch_step :: "touch_event \<Rightarrow> chart_lock \<Rightarrow> chart_lock" where
  "touch_step (TouchStart on_chart) s = (if on_chart then lock_chart s else s)"
| "touch_step TouchEnd s = unlock_chart s"

datatype swipe = SwipeLeft | SwipeRight | SwipeUp | SwipeDown

datatype swipe_axis = AxisX | AxisY | AxisBoth

definition swipes_of :: "swipe_axis \<Rightarrow> jsnum \<Rightarrow> jsnum \<Rightarrow> jsnum \<Rightarrow> swipe list" where
  "swipes_of axis dx dy elapsed =
     (let dt = math_max (Fin 1) elapsed; vx = \<bar>dx\<bar> / dt; vy = \<bar>dy\<bar> / dt in
      (if axis \<noteq> AxisY \<and> Fin 48 < \<bar>dx\<bar> \<and> lit (3 / 10) < vx then [if Fin 0 < dx then SwipeRight else SwipeLeft] else []) @
      (if axis \<noteq> AxisX \<and> Fin 48 < \<bar>dy\<bar> \<and> lit (3 / 10) < vy then [if Fin 0 < dy then SwipeDown else SwipeUp] else []))"

text \<open>The modes of the terminal and the tab that each shows.\<close>

definition terminal_modes :: "string list" where
  "terminal_modes = [''watchlist'', ''chart'', ''execution'', ''position'']"

definition mode_tab :: "string \<Rightarrow> string" where
  "mode_tab m = (if m = ''watchlist'' then ''watchlist'' else if m = ''execution'' then ''order'' else ''chart'')"

record terminal_mode =
  tm_index :: nat
  tm_tab :: string
  tm_stored :: "string option"

definition mode_index :: "string option \<Rightarrow> nat option" where
  "mode_index stored = find (\<lambda>i. stored = Some (terminal_modes ! i)) [0..<length terminal_modes]"

definition restore_mode :: "bool \<Rightarrow> terminal_mode \<Rightarrow> terminal_mode" where
  "restore_mode desktop s =
     (if desktop then s
      else case mode_index (tm_stored s) of
        Some i \<Rightarrow> s\<lparr> tm_index := i, tm_tab := mode_tab (terminal_modes ! i) \<rparr>
      | None \<Rightarrow> s)"

definition swipe_mode :: "jsnum \<Rightarrow> terminal_mode \<Rightarrow> terminal_mode" where
  "swipe_mode dx s =
     (if \<bar>dx\<bar> < Fin 56 then s
      else
        let i = tm_index s;
            i = (if dx < Fin 0 \<and> i < length terminal_modes - 1 then i + 1 else i);
            i = (if Fin 0 < dx \<and> 0 < i then i - 1 else i)
        in s\<lparr> tm_index := i, tm_stored := Some (terminal_modes ! i), tm_tab := mode_tab (terminal_modes ! i) \<rparr>)"

section \<open>The keyboard, the edges of a region and the profiler\<close>

record keyboard_inset =
  ki_height :: jsnum
  ki_offset :: jsnum
  ki_open :: bool
  ki_focused :: bool

text \<open>The visual viewport is its height and its offset, where the browser has one.\<close>

definition update_keyboard :: "jsnum \<Rightarrow> (jsnum \<times> jsnum) option \<Rightarrow> keyboard_inset \<Rightarrow> keyboard_inset" where
  "update_keyboard inner vv s =
     (case vv of
        None \<Rightarrow> s
      | Some (h, offset) \<Rightarrow>
          let k = math_max (Fin 0) (inner - h - offset)
          in s\<lparr> ki_height := k, ki_offset := offset, ki_open := Fin 80 < k \<rparr>)"

definition focus_in :: "bool \<Rightarrow> jsnum \<Rightarrow> (jsnum \<times> jsnum) option \<Rightarrow> keyboard_inset \<Rightarrow> keyboard_inset" where
  "focus_in is_input inner vv s = (if is_input then update_keyboard inner vv (s\<lparr> ki_focused := True \<rparr>) else s)"

definition focus_out :: "keyboard_inset \<Rightarrow> keyboard_inset" where
  "focus_out s = s\<lparr> ki_focused := False \<rparr>"

definition scrolls_into_view :: "keyboard_inset \<Rightarrow> bool" where
  "scrolls_into_view s = (ki_open s \<and> ki_focused s)"

definition stops_touch_move :: "jsnum \<Rightarrow> jsnum \<Rightarrow> jsnum \<Rightarrow> bool" where
  "stops_touch_move offset height client = (offset \<le> Fin 0 \<or> height - Fin 1 \<le> offset + client)"

record frame_profile =
  fp_last :: jsnum
  fp_frames :: nat
  fp_slow :: nat
  fp_reports :: "nat list"

definition profile_frame :: "jsnum \<Rightarrow> frame_profile \<Rightarrow> frame_profile" where
  "profile_frame now s =
     (let n = fp_frames s + 1; slow = (if Fin 32 < now - fp_last s then fp_slow s + 1 else fp_slow s)
      in if n mod 120 = 0 \<and> 8 < slow
         then s\<lparr> fp_last := now, fp_frames := n, fp_slow := 0, fp_reports := fp_reports s @ [slow] \<rparr>
         else s\<lparr> fp_last := now, fp_frames := n, fp_slow := slow \<rparr>)"

section \<open>Lemmas on the tab\<close>

text \<open>Without a stored tab, and with the one on show, the effect settles at once.\<close>

lemma mount_settles:
  assumes "stored = None \<or> stored = Some ''chart''"
  shows "\<not> effect_due (init_persistence (new_tab_persistence stored))"
  using assms by (auto simp: effect_due_def init_persistence_def new_tab_persistence_def trading_tabs_def)

text \<open>
  The clean-up of the effect stores the tab of the old context and the next run of it takes that tab up again.
  So once the tab of the provider and the one of the context differ, each run swaps them.
\<close>

definition flipping :: "string \<Rightarrow> string \<Rightarrow> tab_persistence \<Rightarrow> bool" where
  "flipping a b s \<longleftrightarrow> a \<noteq> b \<and> a \<in> set trading_tabs \<and> b \<in> set trading_tabs \<and> tp_ctx s = Some a \<and> tp_tab s = b"

lemma rerun_swaps: "flipping a b s \<Longrightarrow> flipping b a (rerun_effect s)"
  by (auto simp: flipping_def rerun_effect_def dispose_persistence_def persist_tab_def init_persistence_def trading_tabs_def)

lemma timer_keeps: "flipping a b s \<Longrightarrow> flipping a b (persist_tab s)"
  by (auto simp: flipping_def persist_tab_def)

lemma flipping_due: "flipping a b s \<Longrightarrow> effect_due s"
  by (simp add: flipping_def effect_due_def)

lemma flipping_run:
  "flipping a b s \<Longrightarrow> flipping a b (fold tab_step es s) \<and> even (length (filter ((=) TabEffect) es))
     \<or> flipping b a (fold tab_step es s) \<and> odd (length (filter ((=) TabEffect) es))"
proof (induction es arbitrary: a b s)
  case (Cons e es)
  show ?case
  proof (cases e)
    case TabEffect
    then show ?thesis using Cons.IH [OF rerun_swaps [OF Cons.prems]] flipping_due [OF Cons.prems] by auto
  next
    case TabTimer
    then show ?thesis using Cons.IH [OF timer_keeps [OF Cons.prems]] by auto
  qed
qed simp

text \<open>
  A change of the tab never settles: whatever the timer does in between, each run of the effect asks for another
  one, and the tab on show changes with each.
\<close>

lemma tab_never_settles:
  assumes "tp_ctx s = Some (tp_tab s)" "tp_tab s \<in> set trading_tabs" "b \<in> set trading_tabs" "b \<noteq> tp_tab s"
  shows "effect_due (fold tab_step es (choose_tab b s)) \<and>
    tp_tab (fold tab_step es (choose_tab b s)) = (if even (length (filter ((=) TabEffect) es)) then b else tp_tab s)"
proof -
  have "flipping (tp_tab s) b (choose_tab b s)" using assms by (simp add: flipping_def choose_tab_def)
  from flipping_run [OF this, of es] show ?thesis using flipping_due by (auto simp: flipping_def)
qed

text \<open>So does a page that starts with another tab in its storage.\<close>

lemma reload_never_settles:
  assumes "t \<in> {''watchlist'', ''order''}"
  shows "effect_due (fold tab_step es (init_persistence (new_tab_persistence (Some t))))"
proof -
  have "flipping ''chart'' t (init_persistence (new_tab_persistence (Some t)))"
    using assms by (auto simp: flipping_def init_persistence_def new_tab_persistence_def trading_tabs_def)
  from flipping_run [OF this, of es] show ?thesis using flipping_due by auto
qed

section \<open>Lemmas on the order sheet\<close>

lemma snap_literals:
  "snap_fraction SnapCollapsed \<le> snap_fraction SnapPreview" "snap_fraction SnapPreview \<le> snap_fraction SnapExecution"
  "snap_fraction SnapExecution \<le> snap_fraction SnapConfirmation"
  by (simp_all add: rnd_mono)

lemma saved_snap_name [simp]: "saved_snap (Some (snap_name st)) = st"
  by (cases st) (simp_all add: saved_snap_def snap_states_def)

text \<open>A sheet comes back in the state it was left in.\<close>

lemma attach_restores:
  "sp_state (attach_panel vh safe h (sp_stored (apply_snap vh' safe' st p))) = st
   \<and> sp_stored (attach_panel vh safe h (Some (snap_name st))) = Some (snap_name st)"
  by (simp add: attach_panel_def apply_snap_def)

definition at_snap_point :: "jsnum \<Rightarrow> jsnum \<Rightarrow> snap_panel \<Rightarrow> bool" where
  "at_snap_point vh safe p \<longleftrightarrow> sp_height p = fraction_to_height vh safe (snap_fraction (sp_state p))
     \<and> sp_stored p = Some (snap_name (sp_state p))"

lemma released_at_point: "sp_dragging p \<Longrightarrow> at_snap_point vh safe (panel_up vh safe y h p) \<and> \<not> sp_dragging (panel_up vh safe y h p)"
  by (simp add: at_snap_point_def panel_up_def apply_snap_def)

text \<open>What is called the velocity is the distance of the drag: one over more than 40 pixels upwards never ends in the state
  nearest to where the sheet was let go, unless that is the highest one.\<close>

lemma long_drag_overshoots:
  assumes "sp_dragging p" "y - sp_start_y p < Fin 0" "Fin 40 < \<bar>y - sp_start_y p\<bar>"
  shows "sp_state (panel_up vh safe y h p) = snap_up (nearest_snap vh h)"
  using assms by (simp add: panel_up_def apply_snap_def released_snap_def)

lemma snap_up_moves: "st \<noteq> SnapConfirmation \<Longrightarrow> snap_up st \<noteq> st"
  by (cases st) simp_all

lemma nearer_snap_least:
  assumes "snd acc \<noteq> NaN" "\<bar>ratio - snap_fraction st\<bar> \<noteq> NaN"
  shows "snd (nearer_snap ratio acc st) \<noteq> NaN \<and> snd (nearer_snap ratio acc st) \<le> snd acc
    \<and> snd (nearer_snap ratio acc st) \<le> \<bar>ratio - snap_fraction st\<bar>"
  using assms not_less_jsnum [OF assms(2,1)] by (auto simp: nearer_snap_def Let_def less_jsnum_imp_le)

lemma nearer_snap_is: "snd acc = \<bar>ratio - snap_fraction (fst acc)\<bar> \<Longrightarrow> snd (nearer_snap ratio acc st) = \<bar>ratio - snap_fraction (fst (nearer_snap ratio acc st))\<bar>"
  by (simp add: nearer_snap_def Let_def)

lemma snap_fraction_double: "\<exists>q. snap_fraction st = Fin q \<and> 0 \<le> q \<and> q \<le> 1"
proof -
  have "\<exists>q. rnd x = Fin q \<and> 0 \<le> q \<and> q \<le> 1" if "0 \<le> x" "x \<le> 1" for x
    using round_val_int_bounds [of 0 x 1] that by auto
  then show ?thesis by (cases st) simp_all
qed

lemma snap_distance: "\<bar>Fin r - snap_fraction st\<bar> \<noteq> NaN"
proof -
  obtain q where "snap_fraction st = Fin q" using snap_fraction_double by blast
  then have "Fin r - snap_fraction st = rnd (r - q)" by (simp add: minus_jsnum_def)
  then show ?thesis by (cases "rnd (r - q)") auto
qed

text \<open>The nearest state is nearest: no snap point is closer to the height.\<close>

lemma nearest_snap_least:
  assumes "h / vh = Fin r"
  shows "\<bar>Fin r - snap_fraction (nearest_snap vh h)\<bar> \<le> \<bar>Fin r - snap_fraction st\<bar>"
proof -
  have least: "snd acc \<noteq> NaN \<Longrightarrow> snd (foldl (nearer_snap (Fin r)) acc sts) \<noteq> NaN
      \<and> snd (foldl (nearer_snap (Fin r)) acc sts) \<le> snd acc
      \<and> (\<forall>st \<in> set sts. snd (foldl (nearer_snap (Fin r)) acc sts) \<le> \<bar>Fin r - snap_fraction st\<bar>)" for acc sts
  proof (induction sts arbitrary: acc)
    case (Cons a sts)
    note n = nearer_snap_least [OF Cons.prems snap_distance [of r a]]
    show ?case using n Cons.IH [of "nearer_snap (Fin r) acc a"] by (auto intro: le_jsnum_trans)
  qed simp
  let ?own = "\<lambda>acc. snd acc = PInf \<or> snd acc = \<bar>Fin r - snap_fraction (fst acc)\<bar>"
  have own: "?own (foldl (nearer_snap (Fin r)) (SnapPreview, PInf) snap_states)"
    by (rule foldl_invariant_list [of ?own]) (simp_all add: nearer_snap_def Let_def)
  let ?e = "foldl (nearer_snap (Fin r)) (SnapPreview, PInf) snap_states"
  have "st \<in> set snap_states" by (cases st) (simp_all add: snap_states_def)
  then have le: "snd ?e \<le> \<bar>Fin r - snap_fraction st\<bar>" using least [of "(SnapPreview, PInf)" snap_states] by simp
  show ?thesis
  proof (cases "snd ?e = PInf")
    case True
    then have "\<bar>Fin r - snap_fraction st\<bar> = PInf" using le by (cases "\<bar>Fin r - snap_fraction st\<bar>") auto
    then show ?thesis using snap_distance by simp
  next
    case False
    then have "snd ?e = \<bar>Fin r - snap_fraction (fst ?e)\<bar>" using own by simp
    then show ?thesis using le assms by (simp add: nearest_snap_def)
  qed
qed

text \<open>A drag keeps the sheet between its lowest and its highest snap point.\<close>

lemma math_clamp:
  assumes "lo \<le> hi" "x \<noteq> NaN"
  shows "lo \<le> math_max lo (math_min hi x) \<and> math_max lo (math_min hi x) \<le> hi"
  using assms le_jsnum_not_NaN [OF assms(1)] le_jsnum_total [of hi x] le_jsnum_total [of lo x]
  by (auto simp: math_max_def math_min_def)

lemma drag_in_range:
  assumes "sp_dragging p" "fraction_to_height vh safe (snap_fraction SnapCollapsed) \<le> fraction_to_height vh safe (snap_fraction SnapConfirmation)"
    and "sp_start_height p + (sp_start_y p - y) \<noteq> NaN"
  shows "fraction_to_height vh safe (snap_fraction SnapCollapsed) \<le> sp_height (panel_move vh safe y p)
    \<and> sp_height (panel_move vh safe y p) \<le> fraction_to_height vh safe (snap_fraction SnapConfirmation)"
  using math_clamp [OF assms(2,3)] assms(1) by (simp add: panel_move_def)

section \<open>Lemmas on gestures\<close>

text \<open>The page is held exactly while a lock is open.\<close>

lemma lock_held: "cl_active s = (0 < cl_locks s) \<Longrightarrow> cl_active (fold touch_step es s) = (0 < cl_locks (fold touch_step es s))"
proof (induction es arbitrary: s)
  case (Cons e es)
  have "cl_active (touch_step e s) = (0 < cl_locks (touch_step e s))"
    using Cons.prems by (cases e) (auto simp: lock_chart_def unlock_chart_def Let_def)
  then show ?case using Cons.IH by simp
qed simp

text \<open>A finger that never touched the chart takes the lock of another one away when it leaves.\<close>

lemma other_finger_unlocks:
  "\<not> cl_active (fold touch_step [TouchStart True, TouchStart False, TouchEnd] \<lparr> cl_locks = 0, cl_active = False \<rparr>)"
  by (simp add: lock_chart_def unlock_chart_def)

lemma swipe_once: "length (swipes_of axis dx dy t) \<le> (if axis = AxisBoth then 2 else 1)"
  by (cases axis) (simp_all add: swipes_of_def Let_def)

lemma tap_is_no_swipe: "\<bar>dx\<bar> \<le> Fin 48 \<Longrightarrow> \<bar>dy\<bar> \<le> Fin 48 \<Longrightarrow> swipes_of axis dx dy t = []"
proof -
  assume "\<bar>dx\<bar> \<le> Fin 48" "\<bar>dy\<bar> \<le> Fin 48"
  then have "\<not> Fin 48 < \<bar>dx\<bar>" "\<not> Fin 48 < \<bar>dy\<bar>" by (auto simp: less_jsnum_def dest: le_jsnum_antisym)
  then show ?thesis by (simp add: swipes_of_def)
qed

lemma swipe_in_modes: "tm_index s < length terminal_modes \<Longrightarrow> tm_index (swipe_mode dx s) < length terminal_modes"
  by (auto simp: swipe_mode_def Let_def terminal_modes_def)

text \<open>The mode a swipe stores is the one that a new page starts with, on the same tab.\<close>

lemma mode_index_stored: "i < length terminal_modes \<Longrightarrow> mode_index (Some (terminal_modes ! i)) = Some i"
proof -
  assume "i < length terminal_modes"
  then have "i \<in> {0, 1, 2, 3}" by (auto simp: terminal_modes_def)
  then show ?thesis by (auto simp: mode_index_def terminal_modes_def upt_rec)
qed

lemma mode_restored:
  assumes "tm_index s < length terminal_modes" "\<not> \<bar>dx\<bar> < Fin 56"
  shows "restore_mode False (t\<lparr> tm_stored := tm_stored (swipe_mode dx s) \<rparr>)
    = t\<lparr> tm_stored := tm_stored (swipe_mode dx s), tm_index := tm_index (swipe_mode dx s), tm_tab := tm_tab (swipe_mode dx s) \<rparr>"
proof -
  have st: "tm_stored (swipe_mode dx s) = Some (terminal_modes ! tm_index (swipe_mode dx s))"
    "tm_tab (swipe_mode dx s) = mode_tab (terminal_modes ! tm_index (swipe_mode dx s))"
    using assms(2) by (simp_all add: swipe_mode_def Let_def)
  show ?thesis using mode_index_stored [OF swipe_in_modes [OF assms(1), of dx]] by (simp add: restore_mode_def st)
qed

text \<open>A swipe back undoes a swipe, except at the ends.\<close>

lemma swipe_back:
  assumes "0 < tm_index s" "tm_index s < length terminal_modes - 1" "Fin 56 \<le> dx" "dx = Fin r"
  shows "tm_index (swipe_mode dx (swipe_mode (- dx) s)) = tm_index s" "tm_index (swipe_mode (- dx) (swipe_mode dx s)) = tm_index s"
proof -
  have "56 \<le> r" "\<bar>Fin r\<bar> = Fin r" "\<bar>Fin (- r)\<bar> = Fin r" using assms(3,4) by simp_all
  then show "tm_index (swipe_mode dx (swipe_mode (- dx) s)) = tm_index s" "tm_index (swipe_mode (- dx) (swipe_mode dx s)) = tm_index s"
    using assms(1,2) by (auto simp: swipe_mode_def Let_def assms(4))
qed

section \<open>Lemmas on the keyboard and the profiler\<close>

lemma keyboard_open_iff: "ki_open (update_keyboard inner (Some v) s) \<longleftrightarrow> Fin 80 < ki_height (update_keyboard inner (Some v) s)"
  by (cases v) (simp add: update_keyboard_def Let_def)

text \<open>The count of slow frames goes on over windows in which it stayed small, so a report is not of 120 frames.\<close>

lemma slow_frames_carried:
  assumes "fp_reports (profile_frame now s) = fp_reports s"
  shows "fp_slow s \<le> fp_slow (profile_frame now s)"
  using assms by (auto simp: profile_frame_def Let_def split: if_splits)

end
