(* ===== verification/OrderBook.thy ===== *)
theory OrderBook
  imports Formatters SessionCalendar WatchlistStore Connection Sorting
begin

text \<open>
  The book of the orders page, the pure part of \<open>frontend/src/pages/OrdersPage.jsx\<close>: the rows as the page reads
  them, the profit of each order by matching it first in, first out, the filters, the sort, the summary and the
  export. \<open>date_ms\<close> is \<open>new Date(v).getTime()\<close>; \<open>cmp\<close> is \<open>localeCompare\<close>; the clock of the
  browser stands \<open>zone\<close> milliseconds before UTC, as that of India always does.
\<close>

section \<open>Rows\<close>

record book_order =
  bo_row :: jsval
  bo_uid :: string
  bo_symbol :: string
  bo_side :: string
  bo_status :: string
  bo_tag :: string
  bo_product :: string
  bo_exchange :: string
  bo_type :: string
  bo_ts :: "jsnum option"
  bo_qty :: jsnum
  bo_price :: "jsnum option"
  bo_raw_pnl :: "jsnum option"

definition bo_ms :: "book_order \<Rightarrow> jsnum" where
  "bo_ms r = (case bo_ts r of Some t \<Rightarrow> t | None \<Rightarrow> Fin 0)"

definition upper_of :: "jsval \<Rightarrow> string" where
  "upper_of v = upper (text_of v)"

text \<open>A text names its zone with a letter Z anywhere, or with an offset at its end.\<close>

definition is_offset :: "string \<Rightarrow> bool" where
  "is_offset s =
     (case s of c # ds \<Rightarrow> (c = CHR ''+'' \<or> c = CHR ''-'') \<and>
        (let d = (if length ds = 5 \<and> ds ! 2 = CHR '':'' then take 2 ds @ drop 3 ds else ds) in length d = 4 \<and> list_all is_digit d)
      | [] \<Rightarrow> False)"

definition names_zone :: "string \<Rightarrow> bool" where
  "names_zone s =
     (CHR ''z'' \<in> set s \<or> CHR ''Z'' \<in> set s \<or> is_offset (drop (length s - 5) s) \<or> is_offset (drop (length s - 6) s))"

definition order_time :: "(jsval \<Rightarrow> jsnum) \<Rightarrow> jsval \<Rightarrow> jsnum option" where
  "order_time date_ms row =
     (let raw = js_or (field row ''executed_at'') (js_or (field row ''updated_at'')
                  (js_or (field row ''created_at'') (js_or (field row ''time'') JNull)));
          t = date_ms (case raw of JStr s \<Rightarrow> if names_zone s then raw else JStr (s @ ''Z'') | _ \<Rightarrow> raw)
      in if \<not> truthy raw \<or> is_nan t then None else Some t)"

definition order_type_label :: "jsval \<Rightarrow> string" where
  "order_type_label v =
     (let t = upper_of v in
      if t = ''STOP_LOSS'' then ''SL'' else if t = ''STOP_LOSS_LIMIT'' then ''SL-M'' else if t = ''TAKE_PROFIT'' then ''TP''
      else if t = ''BRACKET'' then ''BRACKET'' else if t = [] then ''-'' else t)"

datatype status_kind = FilledKind | PendingKind | RejectedKind | OtherKind

definition filled_statuses :: "string list" where
  "filled_statuses = [''FILLED'', ''COMPLETE'', ''EXECUTED'']"

definition pending_statuses :: "string list" where
  "pending_statuses = [''OPEN'', ''PENDING'', ''TRIGGER_PENDING'', ''AMO_RECEIVED'', ''MODIFY_PENDING'', ''PARTIALLY_FILLED'']"

definition rejected_statuses :: "string list" where
  "rejected_statuses = [''REJECTED'', ''CANCELLED'', ''EXPIRED'']"

definition status_kind_of :: "string \<Rightarrow> status_kind" where
  "status_kind_of status =
     (let s = upper status in
      if s \<in> set filled_statuses then FilledKind else if s \<in> set pending_statuses then PendingKind
      else if s \<in> set rejected_statuses then RejectedKind else OtherKind)"

definition optional_number :: "jsval \<Rightarrow> jsnum option" where
  "optional_number v = (if is_nullish v then None else Some (to_number v))"

definition order_uid :: "nat \<Rightarrow> jsval \<Rightarrow> string" where
  "order_uid i row =
     to_string (nullish (field row ''id'') (nullish (field row ''order_id'') (nullish (field row ''exchange_order_id'')
       (JStr (to_string (js_or (field row ''symbol'') (JStr ''ORD'')) @ ''-'' @ number_to_string (num_of_nat i))))))"

definition book_order_of :: "(jsval \<Rightarrow> jsnum) \<Rightarrow> nat \<Rightarrow> jsval \<Rightarrow> book_order" where
  "book_order_of date_ms i row =
     (let pnl = optional_number (first_field row [''pnl'', ''realized_pnl'', ''pnl_amount'']);
          exchange = upper_of (field row ''exchange'')
      in \<lparr> bo_row = row, bo_uid = order_uid i row, bo_symbol = trim (text_of (field row ''symbol'')),
           bo_side = upper_of (field row ''side''), bo_status = upper_of (field row ''status''),
           bo_tag = upper_of (js_or (field row ''tag'') (field row ''strategy'')), bo_product = upper_of (field row ''product_type''),
           bo_exchange = (if exchange \<noteq> [] then exchange else if ends_with (text_of (field row ''symbol'')) ''.BO'' then ''BSE'' else ''NSE''),
           bo_type = order_type_label (js_or (field row ''order_type'') (js_or (field row ''type'') JNull)),
           bo_ts = order_time date_ms row,
           bo_qty = to_number (js_or (nullish (first_field row [''quantity'', ''filled_quantity'', ''executed_quantity'']) (JNum (Fin 0))) (JNum (Fin 0))),
           bo_price = optional_number (first_field row [''filled_price'', ''average_price'', ''price'']),
           bo_raw_pnl = (case pnl of Some n \<Rightarrow> if is_nan n then None else Some n | None \<Rightarrow> None) \<rparr>)"

definition book_orders :: "(jsval \<Rightarrow> jsnum) \<Rightarrow> jsval list \<Rightarrow> book_order list" where
  "book_orders date_ms rows = map (\<lambda>(i, row). book_order_of date_ms i row) (enumerate 0 rows)"

definition shown_symbol :: "book_order \<Rightarrow> string" where
  "shown_symbol r = clean_symbol (if bo_symbol r \<noteq> [] then bo_symbol r else text_of (field (bo_row r) ''symbol''))"

section \<open>The profit of each order\<close>

text \<open>A book of a symbol holds the open lots of each side, the oldest first, as pairs of quantity and price.\<close>

record lot_book =
  lb_longs :: "(jsnum \<times> jsnum) list"
  lb_shorts :: "(jsnum \<times> jsnum) list"

definition empty_book :: lot_book where
  "empty_book = \<lparr> lb_longs = [], lb_shorts = [] \<rparr>"

text \<open>
  The loop that closes lots of the other side. It gives the lots that stay, what is left of the order, the profit and the
  matched quantity. Where a lot stays, the order is used up, so the loop ends: \<open>closeQty\<close> was the whole of it.
\<close>

fun match_lots :: "bool \<Rightarrow> jsnum \<Rightarrow> (jsnum \<times> jsnum) list \<Rightarrow> jsnum \<Rightarrow> jsnum \<Rightarrow> jsnum \<Rightarrow> (jsnum \<times> jsnum) list \<times> jsnum \<times> jsnum \<times> jsnum" where
  "match_lots buy price [] left realized matched = ([], left, realized, matched)"
| "match_lots buy price ((q, p) # lots) left realized matched =
     (if \<not> Fin 0 < left then ((q, p) # lots, left, realized, matched)
      else
        let c = math_min left q;
            realized = realized + (if buy then p - price else price - p) * c;
            matched = matched + c
        in if q - c \<le> Fin 0 then match_lots buy price lots (left - c) realized matched
           else ((q - c, p) # lots, left - c, realized, matched))"

text \<open>The books by symbol, an absent one being empty, and the profits by order.\<close>

record pnl_books =
  pb_books :: "string \<Rightarrow> lot_book"
  pb_pnl :: "(string \<times> jsnum) list"

definition fill_qty_price :: "book_order \<Rightarrow> (jsnum \<times> jsnum) option" where
  "fill_qty_price r =
     (let price = (case bo_price r of Some p \<Rightarrow> p | None \<Rightarrow> NaN) in
      if status_kind_of (bo_status r) \<noteq> FilledKind \<or> upper (shown_symbol r) = [] \<or> \<not> is_finite (bo_qty r) \<or> bo_qty r \<le> Fin 0
         \<or> \<not> is_finite price \<or> price \<le> Fin 0
      then None else Some (bo_qty r, price))"

definition open_lot :: "jsnum \<Rightarrow> jsnum \<Rightarrow> (jsnum \<times> jsnum) list \<Rightarrow> (jsnum \<times> jsnum) list" where
  "open_lot left price lots = (if Fin 0 < left then lots @ [(left, price)] else lots)"

definition match_order :: "pnl_books \<Rightarrow> book_order \<Rightarrow> pnl_books" where
  "match_order s r =
     (case fill_qty_price r of
        None \<Rightarrow> s
      | Some (qty, price) \<Rightarrow>
          let symbol = upper (shown_symbol r); book = pb_books s symbol in
          if bo_side r = ''BUY''
          then (let (shorts, left, realized, matched) = match_lots True price (lb_shorts book) qty (Fin 0) (Fin 0)
                in \<lparr> pb_books = (pb_books s)(symbol := \<lparr> lb_longs = open_lot left price (lb_longs book), lb_shorts = shorts \<rparr>),
                     pb_pnl = if Fin 0 < matched then AList.update (bo_uid r) realized (pb_pnl s) else pb_pnl s \<rparr>)
          else if bo_side r = ''SELL''
          then (let (longs, left, realized, matched) = match_lots False price (lb_longs book) qty (Fin 0) (Fin 0)
                in \<lparr> pb_books = (pb_books s)(symbol := \<lparr> lb_longs = longs, lb_shorts = open_lot left price (lb_shorts book) \<rparr>),
                     pb_pnl = if Fin 0 < matched then AList.update (bo_uid r) realized (pb_pnl s) else pb_pnl s \<rparr>)
          else s)"

definition order_later :: "(string \<Rightarrow> string \<Rightarrow> int) \<Rightarrow> book_order \<Rightarrow> book_order \<Rightarrow> bool" where
  "order_later cmp a b =
     (if \<not> num_eq (bo_ms a) (bo_ms b) then Fin 0 < bo_ms a - bo_ms b else 0 < cmp (bo_uid a) (bo_uid b))"

definition no_books :: pnl_books where
  "no_books = \<lparr> pb_books = (\<lambda>_. empty_book), pb_pnl = [] \<rparr>"

definition match_all :: "(string \<Rightarrow> string \<Rightarrow> int) \<Rightarrow> book_order list \<Rightarrow> pnl_books" where
  "match_all cmp rs = foldl match_order no_books (sort_by (order_later cmp) rs)"

definition derived_pnl :: "(string \<Rightarrow> string \<Rightarrow> int) \<Rightarrow> book_order list \<Rightarrow> (string \<times> jsnum) list" where
  "derived_pnl cmp rs = pb_pnl (match_all cmp rs)"

definition derived_realized :: "(string \<times> jsnum) list \<Rightarrow> jsnum" where
  "derived_realized pnl = foldl (\<lambda>acc v. acc + (if is_finite v then v else Fin 0)) (Fin 0) (map snd pnl)"

definition live_prices :: "jsval list \<Rightarrow> (string \<times> jsnum) list" where
  "live_prices holdings =
     foldl (\<lambda>m h.
       let k = upper (clean_symbol (text_of (field h ''symbol'')));
           p = to_number (nullish (first_field h [''current_price'', ''ltp'', ''last_price'']) (JNum NaN))
       in if k = [] \<or> \<not> is_finite p \<or> p \<le> Fin 0 then m else AList.update k p m) [] holdings"

definition holding_metrics :: "jsval list \<Rightarrow> (string \<times> (jsnum \<times> jsnum)) list" where
  "holding_metrics holdings =
     foldl (\<lambda>m h.
       let k = upper (clean_symbol (text_of (field h ''symbol'')));
           q = to_number (nullish (field h ''quantity'') (JNum (Fin 0)));
           p = to_number (nullish (field h ''pnl'') (JNum NaN))
       in if k = [] \<or> \<not> is_finite q \<or> num_eq q (Fin 0) \<or> \<not> is_finite p then m else AList.update k (\<bar>q\<bar>, p) m) [] holdings"

definition finite_or_zero :: "jsnum \<Rightarrow> jsnum" where
  "finite_or_zero x = (if is_finite x then x else Fin 0)"

text \<open>What the page shows as the profit of an order: of the server, of the match, of the row, a share of the holding, or the price.\<close>

fun first_some :: "'a option list \<Rightarrow> 'a option" where
  "first_some [] = None"
| "first_some (None # xs) = first_some xs"
| "first_some (Some x # xs) = Some x"

definition if_finite :: "jsnum option \<Rightarrow> jsnum option" where
  "if_finite v = (case v of Some n \<Rightarrow> if is_finite n then Some n else None | None \<Rightarrow> None)"

definition holding_share :: "jsval list \<Rightarrow> book_order \<Rightarrow> jsnum option" where
  "holding_share holdings r =
     (case map_of (holding_metrics holdings) (upper (shown_symbol r)) of
        Some (q, p) \<Rightarrow>
          if status_kind_of (bo_status r) = FilledKind \<and> is_finite q \<and> Fin 0 < q \<and> is_finite p \<and> is_finite (bo_qty r) \<and> Fin 0 < bo_qty r
          then Some (finite_or_zero (p * (bo_qty r / q))) else None
      | None \<Rightarrow> None)"

definition live_order_pnl :: "jsval list \<Rightarrow> book_order \<Rightarrow> jsnum option" where
  "live_order_pnl holdings r =
     (case (map_of (live_prices holdings) (upper (shown_symbol r)), bo_price r) of
        (Some lp, Some ap) \<Rightarrow>
          if status_kind_of (bo_status r) = FilledKind \<and> is_finite lp \<and> is_finite (bo_qty r) \<and> Fin 0 < bo_qty r \<and> is_finite ap \<and> Fin 0 < ap
          then Some (finite_or_zero ((if bo_side r = ''SELL'' then ap - lp else lp - ap) * bo_qty r)) else None
      | _ \<Rightarrow> None)"

definition order_pnl :: "(string \<times> jsnum) list \<Rightarrow> jsval list \<Rightarrow> book_order \<Rightarrow> jsnum" where
  "order_pnl derived holdings r =
     (case first_some [if_finite (Some (to_number (nullish (first_field (bo_row r) [''pnl'', ''realized_pnl'']) (JNum NaN)))),
             if_finite (map_of derived (bo_uid r)), if_finite (bo_raw_pnl r), holding_share holdings r, live_order_pnl holdings r] of
        Some v \<Rightarrow> v
      | None \<Rightarrow> (case bo_raw_pnl r of Some n \<Rightarrow> finite_or_zero n | None \<Rightarrow> Fin 0))"

definition realized_total :: "jsval \<Rightarrow> (string \<times> jsnum) list \<Rightarrow> jsnum" where
  "realized_total summary derived =
     (let n = to_number (field summary ''realized_pnl'') in if is_finite n \<and> \<not> num_eq n (Fin 0) then n else derived_realized derived)"

section \<open>Filters\<close>

text \<open>Days of the clock of the browser, counted from 1970; a week starts on Monday.\<close>

definition local_day :: "int \<Rightarrow> int \<Rightarrow> int" where
  "local_day zone t = (t + zone) div 86400000"

definition day_start :: "int \<Rightarrow> int \<Rightarrow> int" where
  "day_start zone d = d * 86400000 - zone"

definition range_start :: "int \<Rightarrow> int \<Rightarrow> string \<Rightarrow> int" where
  "range_start zone now rg =
     (let d = local_day zone now in
      if rg = ''week'' then day_start zone (d - ((d + 4) mod 7 + 6) mod 7)
      else if rg = ''month'' then (let (y, m, _) = civil_from_days d in day_start zone (days_from_civil y m 1))
      else day_start zone d)"

definition range_end :: "int \<Rightarrow> int \<Rightarrow> string \<Rightarrow> int" where
  "range_end zone now rg = (if rg = ''today'' then day_start zone (local_day zone now) + 86399999 else now)"

definition custom_range :: "(string \<Rightarrow> jsnum) \<Rightarrow> string \<Rightarrow> string \<Rightarrow> jsnum \<Rightarrow> bool" where
  "custom_range date_parse from until t =
     (let start = date_parse (from @ ''T00:00:00''); fin = date_parse (until @ ''T23:59:59.999'') in
      (from = [] \<and> until = []) \<or>
      \<not> (from \<noteq> [] \<and> is_nan start) \<and> \<not> (until \<noteq> [] \<and> is_nan fin) \<and>
      \<not> (from \<noteq> [] \<and> t < start) \<and> \<not> (until \<noteq> [] \<and> fin < t))"

definition is_within_range ::
  "int \<Rightarrow> (string \<Rightarrow> jsnum) \<Rightarrow> int \<Rightarrow> string \<Rightarrow> string \<Rightarrow> string \<Rightarrow> jsnum option \<Rightarrow> bool" where
  "is_within_range zone date_parse now rg from until ts =
     (case ts of
        None \<Rightarrow> False
      | Some t \<Rightarrow>
          if rg \<in> {''today'', ''week'', ''month''}
          then Fin (of_int (range_start zone now rg)) \<le> t \<and> t \<le> Fin (of_int (range_end zone now rg))
          else if rg = ''custom'' then custom_range date_parse from until t
          else True)"

record order_filters =
  of_tab :: string
  of_source :: string
  of_range :: string
  of_from :: string
  of_to :: string
  of_sidef :: string
  of_productf :: string
  of_query :: string

definition initial_order_filters :: order_filters where
  "initial_order_filters =
     \<lparr> of_tab = ''all'', of_source = ''all'', of_range = ''today'', of_from = [], of_to = [], of_sidef = ''all'', of_productf = ''all'', of_query = [] \<rparr>"

definition source_matches :: "string \<Rightarrow> string \<Rightarrow> bool" where
  "source_matches source tag =
     (if source = ''manual'' then tag \<noteq> ''ALGO'' \<and> tag \<noteq> ''ZEROLOSS'' else source = ''all'' \<or> tag = upper source)"

definition haystack :: "book_order \<Rightarrow> string" where
  "haystack r =
     upper (join '' '' (filter (\<lambda>t. t \<noteq> []) [clean_symbol (bo_symbol r), bo_side r, bo_status r, bo_type r, bo_product r]))"

definition passes_filters :: "int \<Rightarrow> (string \<Rightarrow> jsnum) \<Rightarrow> int \<Rightarrow> order_filters \<Rightarrow> book_order \<Rightarrow> bool" where
  "passes_filters zone date_parse now f r =
     (let query = upper (trim (of_query f)) in
      source_matches (of_source f) (bo_tag r) \<and>
      is_within_range zone date_parse now (of_range f) (of_from f) (of_to f) (bo_ts r) \<and>
      (of_sidef f = ''all'' \<or> bo_side r = of_sidef f) \<and>
      (of_productf f = ''all'' \<or> bo_product r = of_productf f) \<and>
      (query = [] \<or> contains_text (haystack r) query))"

definition has_kind :: "status_kind \<Rightarrow> book_order \<Rightarrow> bool" where
  "has_kind k r = (status_kind_of (bo_status r) = k)"

record tab_counts =
  tc_pending :: nat
  tc_all :: nat
  tc_filled :: nat

definition tab_counts_of :: "book_order list \<Rightarrow> tab_counts" where
  "tab_counts_of rs =
     foldl (\<lambda>c r. c\<lparr> tc_pending := tc_pending c + (if has_kind PendingKind r then 1 else 0),
         tc_filled := tc_filled c + (if has_kind FilledKind r then 1 else 0), tc_all := tc_all c + 1 \<rparr>)
       \<lparr> tc_pending = 0, tc_all = 0, tc_filled = 0 \<rparr> rs"

definition visible_by_tab :: "string \<Rightarrow> book_order list \<Rightarrow> book_order list" where
  "visible_by_tab tab rs =
     (if tab = ''pending'' then filter (has_kind PendingKind) rs else if tab = ''filled'' then filter (has_kind FilledKind) rs else rs)"

section \<open>Sort, summary and export\<close>

datatype sort_value = SortText string | SortNumber jsnum

definition sort_value_of :: "(book_order \<Rightarrow> jsnum) \<Rightarrow> string \<Rightarrow> book_order \<Rightarrow> sort_value" where
  "sort_value_of pnl k r =
     (if k = ''symbol'' then SortText (upper (clean_symbol (text_of (field (bo_row r) ''symbol''))))
      else if k = ''side'' then SortText (bo_side r)
      else if k = ''qty'' then SortNumber (num_or (bo_qty r) (Fin 0))
      else if k = ''avgPrice'' then SortNumber (case bo_price r of Some p \<Rightarrow> p | None \<Rightarrow> Fin 0)
      else if k = ''orderType'' then SortText (bo_type r)
      else if k = ''product'' then SortText (bo_product r)
      else if k = ''pnl'' then SortNumber (pnl r)
      else if k = ''status'' then SortText (bo_status r)
      else SortNumber (bo_ms r))"

text \<open>\<open>cmp\<close> is here the comparison that ignores case and accents.\<close>

definition sorts_after :: "(string \<Rightarrow> string \<Rightarrow> int) \<Rightarrow> (book_order \<Rightarrow> jsnum) \<Rightarrow> string \<Rightarrow> bool \<Rightarrow> book_order \<Rightarrow> book_order \<Rightarrow> bool" where
  "sorts_after cmp pnl k ascending a b =
     (case (sort_value_of pnl k a, sort_value_of pnl k b) of
        (SortNumber x, SortNumber y) \<Rightarrow> Fin 0 < (if ascending then x - y else y - x)
      | (SortText x, SortText y) \<Rightarrow> (if ascending then 0 < cmp x y else cmp x y < 0)
      | _ \<Rightarrow> False)"

definition sorted_visible :: "(string \<Rightarrow> string \<Rightarrow> int) \<Rightarrow> (book_order \<Rightarrow> jsnum) \<Rightarrow> string \<Rightarrow> bool \<Rightarrow> book_order list \<Rightarrow> book_order list" where
  "sorted_visible cmp pnl k ascending rs = sort_by (sorts_after cmp pnl k ascending) rs"

definition paired_symbols :: "book_order list \<Rightarrow> string list" where
  "paired_symbols rs =
     filter (\<lambda>k. list_ex (\<lambda>r. shown_symbol r = k \<and> bo_side r = ''BUY'') rs \<and> list_ex (\<lambda>r. shown_symbol r = k \<and> bo_side r = ''SELL'') rs)
       (unique (map shown_symbol rs))"

definition turnover_of :: "book_order \<Rightarrow> jsnum" where
  "turnover_of r = num_or (bo_qty r) (Fin 0) * num_or (case bo_price r of Some p \<Rightarrow> p | None \<Rightarrow> Fin 0) (Fin 0)"

definition gross_turnover :: "book_order list \<Rightarrow> jsnum" where
  "gross_turnover rs =
     foldl (\<lambda>acc r. if \<not> is_finite (num_or (bo_qty r) (Fin 0)) \<or> \<not> is_finite (num_or (case bo_price r of Some p \<Rightarrow> p | None \<Rightarrow> Fin 0) (Fin 0))
        then acc else acc + turnover_of r) (Fin 0) (filter (has_kind FilledKind) rs)"

record order_summary =
  sm_total :: nat
  sm_filled :: nat
  sm_pending :: nat
  sm_rejected :: nat
  sm_realized :: jsnum
  sm_turnover :: jsnum
  sm_fill_rate :: jsnum

definition order_summary_of :: "jsnum \<Rightarrow> book_order list \<Rightarrow> order_summary" where
  "order_summary_of realized rs =
     (let total = length rs; filled = length (filter (has_kind FilledKind) rs) in
      \<lparr> sm_total = total, sm_filled = filled, sm_pending = length (filter (has_kind PendingKind) rs),
        sm_rejected = length (filter (has_kind RejectedKind) rs), sm_realized = realized, sm_turnover = gross_turnover rs,
        sm_fill_rate = (if 0 < total then num_of_nat filled / num_of_nat total * Fin 100 else Fin 0) \<rparr>)"

definition csv_escape :: "string \<Rightarrow> string" where
  "csv_escape t =
     (if list_ex (\<lambda>c. c = CHR 0x22 \<or> c = CHR '','' \<or> c = CHR 0x0A) t
      then [CHR 0x22] @ concat (map (\<lambda>c. if c = CHR 0x22 then [c, c] else [c]) t) @ [CHR 0x22]
      else t)"

definition or_dash :: "string \<Rightarrow> string" where
  "or_dash t = (if t = [] then ''-'' else t)"

text \<open>\<open>time_text\<close> is the format of a time in the locale.\<close>

definition csv_row :: "(jsnum option \<Rightarrow> string) \<Rightarrow> (book_order \<Rightarrow> jsnum) \<Rightarrow> book_order \<Rightarrow> string list" where
  "csv_row time_text pnl r =
     [shown_symbol r, or_dash (bo_side r), number_to_string (bo_qty r),
      (case bo_price r of Some p \<Rightarrow> to_fixed 2 p | None \<Rightarrow> ''-''), or_dash (bo_type r), or_dash (bo_product r), time_text (bo_ts r),
      to_fixed 2 (pnl r), or_dash (bo_status r)]"

definition csv_headers :: "string list" where
  "csv_headers = [''Symbol'', ''Side'', ''Qty'', ''Price'', ''Type'', ''Product'', ''Time'', ''P&L'', ''Status'']"

definition export_csv :: "(jsnum option \<Rightarrow> string) \<Rightarrow> (book_order \<Rightarrow> jsnum) \<Rightarrow> book_order list \<Rightarrow> string" where
  "export_csv time_text pnl rs =
     join [CHR 0x0A] (map (\<lambda>cols. join '','' (map csv_escape cols)) (csv_headers # map (csv_row time_text pnl) rs))"

end
