(* ===== verification/OrderBookFacts.thy ===== *)
theory OrderBookFacts
  imports OrderBook
begin

text \<open>
  What makes the book of the orders page correct: a book never holds both sides, the matched profit of whole
  quantities and prices is exactly the cash of the trades and the cost of what stays open, and the filters,
  counts and the export agree with each other.
\<close>

section \<open>The matching loop on whole numbers\<close>

text \<open>The reference: first in, first out on integers, with the profit.\<close>

fun match_int :: "bool \<Rightarrow> int \<Rightarrow> (int \<times> int) list \<Rightarrow> int \<Rightarrow> (int \<times> int) list \<times> int \<times> int" where
  "match_int buy price [] left = ([], left, 0)"
| "match_int buy price ((q, p) # lots) left =
     (if left \<le> 0 then ((q, p) # lots, left, 0)
      else if q \<le> left
      then (let (rest, l, g) = match_int buy price lots (left - q) in (rest, l, g + (if buy then p - price else price - p) * q))
      else ((q - left, p) # lots, 0, (if buy then p - price else price - p) * left))"

definition lots_qty :: "(int \<times> int) list \<Rightarrow> int" where
  "lots_qty lots = sum_list (map fst lots)"

definition lots_cost :: "(int \<times> int) list \<Rightarrow> int" where
  "lots_cost lots = sum_list (map (\<lambda>(q, p). q * p) lots)"

definition positive_lots :: "(int \<times> int) list \<Rightarrow> bool" where
  "positive_lots lots = list_all (\<lambda>(q, p). 0 < q \<and> 0 < p) lots"

lemma lots_simps [simp]:
  "lots_qty [] = 0" "lots_qty ((q, p) # lots) = q + lots_qty lots" "lots_cost [] = 0" "lots_cost ((q, p) # lots) = q * p + lots_cost lots"
  "positive_lots []" "positive_lots ((q, p) # lots) \<longleftrightarrow> 0 < q \<and> 0 < p \<and> positive_lots lots"
  "lots_qty (xs @ ys) = lots_qty xs + lots_qty ys" "lots_cost (xs @ ys) = lots_cost xs + lots_cost ys"
  "positive_lots (xs @ ys) \<longleftrightarrow> positive_lots xs \<and> positive_lots ys"
  by (simp_all add: lots_qty_def lots_cost_def positive_lots_def)

text \<open>Quantity and cost are conserved: what an order closes leaves the book at its cost, and the rest is the profit.\<close>

lemma match_int_conserves:
  assumes "match_int buy price lots left = (rest, l, g)" "positive_lots lots" "0 \<le> left"
  shows "0 \<le> l \<and> l \<le> left \<and> positive_lots rest \<and> lots_qty lots - lots_qty rest = left - l \<and> (0 < l \<longrightarrow> rest = [])
    \<and> g = (if buy then 1 else - 1) * (lots_cost lots - lots_cost rest - price * (left - l))"
  using assms
proof (induction buy price lots left arbitrary: rest l g rule: match_int.induct)
  case (2 buy price q p lots left)
  show ?case
  proof (cases "0 < left \<and> q \<le> left")
    case True
    obtain rest' l' g' where m: "match_int buy price lots (left - q) = (rest', l', g')" by (metis prod_cases3)
    from True 2(1) [OF _ _ m] 2(3,4) have IH: "0 \<le> l' \<and> l' \<le> left - q \<and> positive_lots rest' \<and> lots_qty lots - lots_qty rest' = left - q - l'
        \<and> (0 < l' \<longrightarrow> rest' = []) \<and> g' = (if buy then 1 else - 1) * (lots_cost lots - lots_cost rest' - price * (left - q - l'))" by simp
    from True 2(2) m have "rest = rest'" "l = l'" "g = g' + (if buy then p - price else price - p) * q" by simp_all
    then show ?thesis using IH 2(3) by (simp add: algebra_simps)
  next
    case False
    then show ?thesis using 2(2-4) by (auto simp: algebra_simps split: if_splits)
  qed
qed simp

definition whole_pairs :: "(int \<times> int) list \<Rightarrow> (jsnum \<times> jsnum) list" where
  "whole_pairs lots = map (\<lambda>(q, p). (Fin (of_int q), Fin (of_int p))) lots"

lemma whole_pairs_simps [simp]:
  "whole_pairs [] = []" "whole_pairs ((q, p) # lots) = (Fin (of_int q), Fin (of_int p)) # whole_pairs lots"
  "whole_pairs (xs @ ys) = whole_pairs xs @ whole_pairs ys"
  by (simp_all add: whole_pairs_def)

definition prices_below :: "int \<Rightarrow> (int \<times> int) list \<Rightarrow> bool" where
  "prices_below hi lots = list_all (\<lambda>(q, p). p \<le> hi) lots"

lemma math_min_whole: "math_min (Fin (of_int a)) (Fin (of_int b)) = Fin (of_int (min a b))"
  by (simp add: math_min_def min_def)

lemma gain_bound:
  fixes buy :: bool
  assumes "0 < (p :: int)" "p \<le> hi" "0 < price" "price \<le> hi" "0 \<le> c"
  shows "\<bar>(if buy then p - price else price - p) * c\<bar> \<le> hi * c" "\<bar>if buy then p - price else price - p\<bar> \<le> hi"
proof -
  show b: "\<bar>if buy then p - price else price - p\<bar> \<le> hi" using assms(1-4) by (cases buy) auto
  show "\<bar>(if buy then p - price else price - p) * c\<bar> \<le> hi * c"
    unfolding abs_mult abs_of_nonneg [OF assms(5)] by (rule mult_right_mono [OF b assms(5)])
qed

text \<open>One turn of the loop, on whole numbers.\<close>

lemma match_step:
  fixes buy :: bool
  assumes "0 < p" "p \<le> hi" "0 < price" "price \<le> hi" "0 < q" "0 < left" "q \<le> 2 ^ 53" "left \<le> 2 ^ 53" "hi \<le> 2 ^ 53"
    and "\<bar>acc\<bar> + hi * left \<le> 2 ^ 53" "0 \<le> m" "m + left \<le> 2 ^ 53"
  defines "c \<equiv> min left q" and "x \<equiv> if buy then p - price else price - p"
  shows "match_lots buy (Fin (of_int price)) ((Fin (of_int q), Fin (of_int p)) # lots) (Fin (of_int left)) (Fin (of_int acc)) (Fin (of_int m))
    = (if q \<le> left then match_lots buy (Fin (of_int price)) lots (Fin (of_int (left - q))) (Fin (of_int (acc + x * q))) (Fin (of_int (m + q)))
       else ((Fin (of_int (q - left)), Fin (of_int p)) # lots, Fin 0, Fin (of_int (acc + x * left)), Fin (of_int (m + left))))"
proof -
  have c: "0 < c" "c \<le> left" "c \<le> q" using assms(5,6) by (simp_all add: c_def)
  have hc: "hi * c \<le> hi * left" using c assms(3,4) by (simp add: mult_left_mono)
  have xb: "\<bar>x * c\<bar> \<le> hi * c" "\<bar>x\<bar> \<le> hi"
    unfolding x_def using c by (simp_all only: gain_bound [OF assms(1-4), of c buy] less_imp_le)
  have x: "(if buy then Fin (of_int p) - Fin (of_int price) else Fin (of_int price) - Fin (of_int p)) = Fin (of_int x)"
    using whole_difference [of p price] whole_difference [of price p] assms(1-4,9) by (cases buy) (simp_all add: x_def)
  have xc: "Fin (of_int x) * Fin (of_int c) = Fin (of_int (x * c))" by (rule whole_product) (use xb hc assms(10) in linarith)
  have acc: "Fin (of_int acc) + Fin (of_int (x * c)) = Fin (of_int (acc + x * c))"
    by (rule whole_sum) (use xb hc assms(10) in linarith)
  have m: "Fin (of_int m) + Fin (of_int c) = Fin (of_int (m + c))" by (rule whole_sum) (use c assms(11,12) in linarith)
  have q: "Fin (of_int q) - Fin (of_int c) = Fin (of_int (q - c))" by (rule whole_difference) (use c assms(7) in linarith)
  have l: "Fin (of_int left) - Fin (of_int c) = Fin (of_int (left - c))" by (rule whole_difference) (use c assms(8) in linarith)
  have go: "Fin 0 < Fin (of_int left)" using assms(6) by simp
  have le: "Fin (of_int (q - c)) \<le> Fin 0 \<longleftrightarrow> q \<le> left" using assms(5,6) by (auto simp: c_def min_def)
  show ?thesis
    unfolding match_lots.simps(2) Let_def math_min_whole c_def [symmetric] x xc acc m q l le
    using go by (simp add: c_def del: of_int_add of_int_diff of_int_mult)
qed

lemma lots_qty_nonneg: "positive_lots lots \<Longrightarrow> 0 \<le> lots_qty lots"
  by (induction lots) auto

lemma match_refines:
  assumes "match_int buy price lots left = (rest, l, g)" "positive_lots lots" "prices_below hi lots" "0 < price" "price \<le> hi"
    and "0 \<le> left" "lots_qty lots \<le> 2 ^ 53" "left \<le> 2 ^ 53" "hi \<le> 2 ^ 53"
    and "\<bar>acc\<bar> + hi * left \<le> 2 ^ 53" "0 \<le> m" "m + left \<le> 2 ^ 53"
  shows "match_lots buy (Fin (of_int price)) (whole_pairs lots) (Fin (of_int left)) (Fin (of_int acc)) (Fin (of_int m))
    = (whole_pairs rest, Fin (of_int l), Fin (of_int (acc + g)), Fin (of_int (m + (left - l))))"
  using assms
proof (induction buy price lots left arbitrary: rest l g acc m rule: match_int.induct)
  case (2 buy price q p lots left)
  let ?x = "if buy then p - price else price - p"
  show ?case
  proof (cases "0 < left")
    case pos: True
    have qp: "0 < q" "0 < p" "p \<le> hi" "q \<le> 2 ^ 53" "positive_lots lots" "prices_below hi lots" "lots_qty lots \<le> 2 ^ 53"
      using "2.prems"(2,3,7) lots_qty_nonneg [of lots] by (auto simp: prices_below_def)
    note step = match_step [OF qp(2,3) "2.prems"(4,5) qp(1) pos qp(4) "2.prems"(8-12), of buy "whole_pairs lots"]
    show ?thesis
    proof (cases "q \<le> left")
      case True
      obtain rest' l' g' where mi: "match_int buy price lots (left - q) = (rest', l', g')" by (metis prod_cases3)
      have eq: "rest = rest'" "l = l'" "g = g' + ?x * q" using "2.prems"(1) pos True mi by (simp_all add: Let_def)
      have xq: "\<bar>?x * q\<bar> \<le> hi * q" by (rule gain_bound) (use qp "2.prems"(4,5) in simp_all)
      have "hi * left = hi * q + hi * (left - q)" by (simp add: algebra_simps)
      then have b: "\<bar>acc + ?x * q\<bar> + hi * (left - q) \<le> 2 ^ 53" using xq "2.prems"(10) by linarith
      have "match_lots buy (Fin (of_int price)) (whole_pairs lots) (Fin (of_int (left - q))) (Fin (of_int (acc + ?x * q))) (Fin (of_int (m + q)))
        = (whole_pairs rest', Fin (of_int l'), Fin (of_int (acc + ?x * q + g')), Fin (of_int (m + q + (left - q - l'))))"
        by (rule "2.IH" [OF _ True mi qp(5,6) "2.prems"(4,5) _ qp(7) _ "2.prems"(9) b]) (use pos True qp(1) "2.prems"(8,11,12) in linarith)+
      then show ?thesis unfolding whole_pairs_simps step using True by (simp add: eq algebra_simps)
    next
      case False
      then show ?thesis using "2.prems"(1) pos unfolding whole_pairs_simps step by auto
    qed
  next
    case False
    then show ?thesis using "2.prems"(1,6) by auto
  qed
qed simp

section \<open>The books on whole numbers\<close>

text \<open>A trade: the order, its symbol, whether it buys, quantity and price.\<close>

type_synonym trade = "string \<times> string \<times> bool \<times> int \<times> int"
type_synonym int_books = "(string \<Rightarrow> (int \<times> int) list \<times> (int \<times> int) list) \<times> (string \<times> int) list"

definition open_int :: "int \<Rightarrow> int \<Rightarrow> (int \<times> int) list" where
  "open_int l p = (if 0 < l then [(l, p)] else [])"

fun int_step :: "int_books \<Rightarrow> trade \<Rightarrow> int_books" where
  "int_step (b, gs) (u, sm, buy, q, p) =
     (let (longs, shorts) = b sm;
          (rest, l, g) = match_int buy p (if buy then shorts else longs) q
      in (b(sm := if buy then (longs @ open_int l p, rest) else (rest, shorts @ open_int l p)),
          if l < q then gs @ [(u, g)] else gs))"

definition int_run :: "trade list \<Rightarrow> int_books" where
  "int_run ts = foldl int_step ((\<lambda>_. ([], [])), []) ts"

lemma int_run_simps [simp]: "int_run [] = ((\<lambda>_. ([], [])), [])" "int_run (ts @ [t]) = int_step (int_run ts) t"
  by (simp_all add: int_run_def)

definition trade_ok :: "int \<Rightarrow> trade \<Rightarrow> bool" where
  "trade_ok hi t = (case t of (_, _, _, q, p) \<Rightarrow> 0 < q \<and> 0 < p \<and> p \<le> hi)"

definition trade_qty :: "trade \<Rightarrow> int" where
  "trade_qty t = (case t of (_, _, _, q, _) \<Rightarrow> q)"

definition traded_volume :: "trade list \<Rightarrow> int" where
  "traded_volume ts = sum_list (map trade_qty ts)"

text \<open>What a trade pays or brings in, and what it adds to the position in a symbol.\<close>

definition trade_cash :: "trade \<Rightarrow> int" where
  "trade_cash t = (case t of (_, _, buy, q, p) \<Rightarrow> if buy then - (q * p) else q * p)"

definition trade_position :: "string \<Rightarrow> trade \<Rightarrow> int" where
  "trade_position s t = (case t of (_, sm, buy, q, _) \<Rightarrow> if sm = s then (if buy then q else - q) else 0)"

definition book_ok :: "int \<Rightarrow> (int \<times> int) list \<times> (int \<times> int) list \<Rightarrow> bool" where
  "book_ok hi bk \<longleftrightarrow> positive_lots (fst bk) \<and> positive_lots (snd bk) \<and> prices_below hi (fst bk) \<and> prices_below hi (snd bk)
     \<and> (fst bk = [] \<or> snd bk = [])"

lemma prices_below_simps [simp]: "prices_below hi []" "prices_below hi (xs @ ys) \<longleftrightarrow> prices_below hi xs \<and> prices_below hi ys"
  "prices_below hi ((q, p) # xs) \<longleftrightarrow> p \<le> hi \<and> prices_below hi xs"
  by (simp_all add: prices_below_def)

lemma match_int_prices: "match_int buy price lots left = (rest, l, g) \<Longrightarrow> prices_below hi lots \<Longrightarrow> prices_below hi rest"
  by (induction buy price lots left arbitrary: rest l g rule: match_int.induct) (auto simp: Let_def split: if_splits prod.splits)

lemma open_int_facts [simp]:
  "0 \<le> l \<Longrightarrow> lots_qty (open_int l p) = l" "0 \<le> l \<Longrightarrow> lots_cost (open_int l p) = l * p" "0 < p \<Longrightarrow> positive_lots (open_int l p)"
  "p \<le> hi \<Longrightarrow> prices_below hi (open_int l p)" "open_int l p = [] \<longleftrightarrow> l \<le> 0"
  by (auto simp: open_int_def)

text \<open>One trade: what it does to its book.\<close>

lemma int_step_book:
  assumes "trade_ok hi (u, sm, buy, q, p)" "book_ok hi (b sm)" "int_step (b, gs) (u, sm, buy, q, p) = (b', gs')"
  obtains l g bk where "b' = b(sm := bk)" "gs' = (if l < q then gs @ [(u, g)] else gs)" "book_ok hi bk" "0 \<le> l" "l \<le> q"
    "lots_qty (fst bk) - lots_qty (snd bk) = lots_qty (fst (b sm)) - lots_qty (snd (b sm)) + (if buy then q else - q)"
    "lots_qty (fst bk) + lots_qty (snd bk) \<le> lots_qty (fst (b sm)) + lots_qty (snd (b sm)) + q"
    "g = (lots_cost (fst bk) - lots_cost (snd bk)) - (lots_cost (fst (b sm)) - lots_cost (snd (b sm))) + (if buy then - (q * p) else q * p)"
    "l = q \<Longrightarrow> g = 0"
proof -
  obtain longs shorts where bs: "b sm = (longs, shorts)" by (metis surj_pair)
  obtain rest l g where m: "match_int buy p (if buy then shorts else longs) q = (rest, l, g)" by (metis prod_cases3)
  have ok: "0 < q" "0 < p" "p \<le> hi" using assms(1) by (simp_all add: trade_ok_def)
  have lots: "positive_lots (if buy then shorts else longs)" using assms(2) by (simp add: book_ok_def bs)
  note c = match_int_conserves [OF m lots less_imp_le [OF ok(1)]]
  have pr: "prices_below hi rest" using match_int_prices [OF m] assms(2) by (cases buy) (simp_all add: book_ok_def bs)
  let ?bk = "if buy then (longs @ open_int l p, rest) else (rest, shorts @ open_int l p)"
  have e: "b' = b(sm := ?bk)" "gs' = (if l < q then gs @ [(u, g)] else gs)" using assms(3) by (auto simp: bs m Let_def)
  have "(if buy then shorts else longs) = [] \<Longrightarrow> rest = []" using m by auto
  then have bo: "book_ok hi ?bk" using assms(2) c pr ok by (auto simp: book_ok_def bs)
  have gz: "l = q \<Longrightarrow> g = 0"
  proof -
    assume "l = q"
    then have "rest = [] \<and> lots_qty (if buy then shorts else longs) = 0" using c ok by simp
    moreover have "lots_qty xs = 0 \<Longrightarrow> positive_lots xs \<Longrightarrow> xs = []" for xs
      using lots_qty_nonneg by (cases xs) (auto, fastforce)
    ultimately have "(if buy then shorts else longs) = []" using lots by blast
    with m have "match_int buy p [] q = (rest, l, g)" by metis
    then show "g = 0" by simp
  qed
  show thesis
    by (rule that [OF e bo]) (use c ok gz in \<open>auto simp: bs algebra_simps\<close>)
qed

lemma gains_append [simp]: "sum_list (map snd (if c then gs @ [(u, g)] else gs)) = sum_list (map snd gs) + (if c then g else 0)"
  by simp

text \<open>
  After any trades: every book is of one side, its net quantity is that of the trades, the volume bounds the open
  quantity, and the profit is the cash of all trades and the cost of what is open.
\<close>

lemma int_run_books:
  assumes "list_all (trade_ok hi) ts"
  shows "book_ok hi (fst (int_run ts) s)"
    and "lots_qty (fst (fst (int_run ts) s)) - lots_qty (snd (fst (int_run ts) s)) = sum_list (map (trade_position s) ts)"
    and "lots_qty (fst (fst (int_run ts) s)) + lots_qty (snd (fst (int_run ts) s)) \<le> traded_volume ts"
proof -
  have "book_ok hi (fst (int_run ts) s)
    \<and> lots_qty (fst (fst (int_run ts) s)) - lots_qty (snd (fst (int_run ts) s)) = sum_list (map (trade_position s) ts)
    \<and> lots_qty (fst (fst (int_run ts) s)) + lots_qty (snd (fst (int_run ts) s)) \<le> traded_volume ts"
    using assms
  proof (induction ts rule: rev_induct)
    case (snoc t ts)
    obtain u sm buy q p where t: "t = (u, sm, buy, q, p)" by (metis prod_cases5)
    obtain b gs where run: "int_run ts = (b, gs)" by (metis surj_pair)
    obtain b' gs' where stp: "int_step (b, gs) (u, sm, buy, q, p) = (b', gs')" by (metis surj_pair)
    have ok: "trade_ok hi (u, sm, buy, q, p)" "0 < q" using snoc.prems by (simp_all add: t trade_ok_def)
    show ?case
    proof (cases "s = sm")
      case True
      have "book_ok hi (b sm)" using snoc.IH snoc.prems True by (simp add: run)
      from int_step_book [OF ok(1) this stp] obtain l g bk where "b' = b(sm := bk)" "book_ok hi bk"
        "lots_qty (fst bk) - lots_qty (snd bk) = lots_qty (fst (b sm)) - lots_qty (snd (b sm)) + (if buy then q else - q)"
        "lots_qty (fst bk) + lots_qty (snd bk) \<le> lots_qty (fst (b sm)) + lots_qty (snd (b sm)) + q" by metis
      then show ?thesis using snoc.IH snoc.prems True by (auto simp: run t stp trade_position_def traded_volume_def trade_qty_def simp del: int_step.simps)
    next
      case False
      then have "b' s = b s" using stp by (auto simp: Let_def split: prod.splits)
      then show ?thesis using snoc.IH snoc.prems False ok(2) by (simp add: run t stp trade_position_def traded_volume_def trade_qty_def del: int_step.simps)
    qed
  qed (simp add: book_ok_def traded_volume_def)
  then show "book_ok hi (fst (int_run ts) s)"
    "lots_qty (fst (fst (int_run ts) s)) - lots_qty (snd (fst (int_run ts) s)) = sum_list (map (trade_position s) ts)"
    "lots_qty (fst (fst (int_run ts) s)) + lots_qty (snd (fst (int_run ts) s)) \<le> traded_volume ts" by blast+
qed

definition book_cost :: "(int \<times> int) list \<times> (int \<times> int) list \<Rightarrow> int" where
  "book_cost bk = lots_cost (fst bk) - lots_cost (snd bk)"

lemma int_run_cash:
  assumes "list_all (trade_ok hi) ts" "finite S" "(fst \<circ> snd) ` set ts \<subseteq> S"
  shows "sum_list (map snd (snd (int_run ts))) = sum_list (map trade_cash ts) + (\<Sum>s \<in> S. book_cost (fst (int_run ts) s))"
  using assms(1,3)
proof (induction ts rule: rev_induct)
  case (snoc t ts)
  obtain u sm buy q p where t: "t = (u, sm, buy, q, p)" by (metis prod_cases5)
  obtain b gs where run: "int_run ts = (b, gs)" by (metis surj_pair)
  obtain b' gs' where stp: "int_step (b, gs) (u, sm, buy, q, p) = (b', gs')" by (metis surj_pair)
  have ok: "trade_ok hi (u, sm, buy, q, p)" "list_all (trade_ok hi) ts" "sm \<in> S" using snoc.prems by (simp_all add: t)
  have "book_ok hi (b sm)" using int_run_books(1) [OF ok(2)] by (simp add: run)
  from int_step_book [OF ok(1) this stp] obtain l g bk where s: "b' = b(sm := bk)" "gs' = (if l < q then gs @ [(u, g)] else gs)" "l \<le> q" "l = q \<Longrightarrow> g = 0"
    "g = (lots_cost (fst bk) - lots_cost (snd bk)) - (lots_cost (fst (b sm)) - lots_cost (snd (b sm))) + (if buy then - (q * p) else q * p)"
    by metis
  have "(\<Sum>s \<in> S. book_cost (b' s)) = (\<Sum>s \<in> S - {sm}. book_cost (b s)) + book_cost bk"
    using sum.remove [OF assms(2) ok(3), of "\<lambda>s. book_cost (b' s)"] by (simp add: s(1))
  moreover have "(\<Sum>s \<in> S. book_cost (b s)) = (\<Sum>s \<in> S - {sm}. book_cost (b s)) + book_cost (b sm)"
    using sum.remove [OF assms(2) ok(3), of "\<lambda>s. book_cost (b s)"] by simp
  moreover have "sum_list (map snd gs') = sum_list (map snd gs) + g" using s(2-4) by (cases "l = q") auto
  ultimately show ?case using snoc.IH snoc.prems s(5) by (simp add: run t stp trade_cash_def book_cost_def del: int_step.simps)
qed (simp add: book_cost_def)

section \<open>The books of the page\<close>

definition whole_order :: "book_order \<Rightarrow> bool" where
  "whole_order r = (case fill_qty_price r of
     None \<Rightarrow> True | Some (Fin q, Fin p) \<Rightarrow> q = of_int \<lfloor>q\<rfloor> \<and> p = of_int \<lfloor>p\<rfloor> | Some _ \<Rightarrow> False)"

definition trade_of :: "book_order \<Rightarrow> trade option" where
  "trade_of r = (case fill_qty_price r of
     Some (Fin q, Fin p) \<Rightarrow>
       if bo_side r = ''BUY'' then Some (bo_uid r, upper (shown_symbol r), True, \<lfloor>q\<rfloor>, \<lfloor>p\<rfloor>)
       else if bo_side r = ''SELL'' then Some (bo_uid r, upper (shown_symbol r), False, \<lfloor>q\<rfloor>, \<lfloor>p\<rfloor>) else None
   | _ \<Rightarrow> None)"

definition trades_of :: "book_order list \<Rightarrow> trade list" where
  "trades_of rs = List.map_filter trade_of rs"

definition books_state :: "int_books \<Rightarrow> pnl_books" where
  "books_state st =
     \<lparr> pb_books = (\<lambda>s. \<lparr> lb_longs = whole_pairs (fst (fst st s)), lb_shorts = whole_pairs (snd (fst st s)) \<rparr>),
       pb_pnl = map (\<lambda>(u, g). (u, Fin (of_int g))) (snd st) \<rparr>"

lemma fill_finite:
  assumes "fill_qty_price r = Some (q, p)"
  obtains a b where "q = Fin a" "p = Fin b" "0 < a" "0 < b"
proof -
  have f: "is_finite q" "\<not> q \<le> Fin 0" "is_finite p" "\<not> p \<le> Fin 0"
    using assms by (auto simp: fill_qty_price_def Let_def split: if_splits)
  obtain a b where "q = Fin a" "p = Fin b" using f(1,3) by (auto simp: is_finite_iff)
  then show thesis using f(2,4) by (intro that) auto
qed

lemma trade_positive: "trade_of r = Some t \<Longrightarrow> whole_order r \<Longrightarrow> (case t of (u, sm, buy, q, p) \<Rightarrow>
    fill_qty_price r = Some (Fin (of_int q), Fin (of_int p)) \<and> 0 < q \<and> 0 < p \<and> u = bo_uid r \<and> sm = upper (shown_symbol r)
    \<and> bo_side r = (if buy then ''BUY'' else ''SELL''))"
proof -
  assume t: "trade_of r = Some t" and w: "whole_order r"
  then obtain q p where f: "fill_qty_price r = Some (q, p)" by (auto simp: trade_of_def split: option.splits)
  obtain a b where ab: "q = Fin a" "p = Fin b" "0 < a" "0 < b" by (rule fill_finite [OF f])
  have fl: "a = of_int \<lfloor>a\<rfloor>" "b = of_int \<lfloor>b\<rfloor>" using w by (auto simp: whole_order_def f ab)
  then have "0 < \<lfloor>a\<rfloor>" "0 < \<lfloor>b\<rfloor>" using ab(3,4) by linarith+
  then show ?thesis using t fl by (auto simp: trade_of_def f ab split: if_splits)
qed

lemma match_order_skips: "trade_of r = None \<Longrightarrow> match_order s r = s"
proof (cases "fill_qty_price r")
  case (Some qp)
  assume n: "trade_of r = None"
  obtain q p where qp: "qp = (q, p)" by (metis surj_pair)
  obtain a b where "q = Fin a" "p = Fin b" by (rule fill_finite [OF Some [unfolded qp]])
  then show ?thesis using n Some by (simp add: qp trade_of_def match_order_def Let_def split: if_splits)
qed (simp add: match_order_def)

lemma update_new: "k \<notin> fst ` set xs \<Longrightarrow> AList.update k v xs = xs @ [(k, v)]"
  by (induction xs) auto

lemma match_order_refines:
  assumes t: "trade_of r = Some (u, sm, buy, q, p)" and w: "whole_order r" and ok: "trade_ok hi (u, sm, buy, q, p)"
    and bk: "book_ok hi (b sm)" and vol: "lots_qty (fst (b sm)) + lots_qty (snd (b sm)) \<le> 2 ^ 53" "q \<le> 2 ^ 53"
    and hi: "hi \<le> 2 ^ 53" "hi * q \<le> 2 ^ 53" and new: "u \<notin> fst ` set gs"
  shows "match_order (books_state (b, gs)) r = books_state (int_step (b, gs) (u, sm, buy, q, p))"
proof -
  have tr: "fill_qty_price r = Some (Fin (of_int q), Fin (of_int p))" "upper (shown_symbol r) = sm" "bo_uid r = u"
    "bo_side r = (if buy then ''BUY'' else ''SELL'')"
    using trade_positive [OF t w] by simp_all
  obtain longs shorts where bs: "b sm = (longs, shorts)" by (metis surj_pair)
  obtain rest l g where m: "match_int buy p (if buy then shorts else longs) q = (rest, l, g)" by (metis prod_cases3)
  have pos: "positive_lots longs" "positive_lots shorts" using bk by (simp_all add: book_ok_def bs)
  have lots: "positive_lots (if buy then shorts else longs)" "prices_below hi (if buy then shorts else longs)"
    "lots_qty (if buy then shorts else longs) \<le> 2 ^ 53"
    using bk vol(1) lots_qty_nonneg [OF pos(1)] lots_qty_nonneg [OF pos(2)] by (simp_all add: book_ok_def bs)
  have pq: "0 < p" "p \<le> hi" "0 \<le> q" "0 < q" using ok by (simp_all add: trade_ok_def)
  have "match_lots buy (Fin (of_int p)) (whole_pairs (if buy then shorts else longs)) (Fin (of_int q)) (Fin (of_int 0)) (Fin (of_int 0))
      = (whole_pairs rest, Fin (of_int l), Fin (of_int (0 + g)), Fin (of_int (0 + (q - l))))"
    by (rule match_refines [OF m lots(1,2) pq(1-3) lots(3) vol(2) hi(1)]) (use hi vol in simp_all)
  then have ml: "match_lots buy (Fin (of_int p)) (whole_pairs (if buy then shorts else longs)) (Fin (of_int q)) (Fin 0) (Fin 0)
      = (whole_pairs rest, Fin (of_int l), Fin (of_int g), Fin (of_int (q - l)))" by simp
  have op: "open_lot (Fin (of_int l)) (Fin (of_int p)) (whole_pairs xs) = whole_pairs (xs @ open_int l p)" for xs
    by (simp add: open_lot_def open_int_def)
  have pos: "Fin 0 < Fin (of_int (q - l)) \<longleftrightarrow> l < q" by (simp del: of_int_diff)
  have un: "u \<notin> fst ` set (map (\<lambda>(u, g). (u, Fin (of_int g))) gs)" using new by force
  show ?thesis
  proof (cases buy)
    case True
    show ?thesis
      using ml m True by (auto simp: tr match_order_def books_state_def bs Let_def op update_new [OF un] pos simp del: of_int_diff)
  next
    case False
    show ?thesis
      using ml m False by (auto simp: tr match_order_def books_state_def bs Let_def op update_new [OF un] pos simp del: of_int_diff)
  qed
qed

lemma trades_of_simps [simp]: "trades_of [] = []"
  "trades_of (xs @ ys) = trades_of xs @ trades_of ys" "trades_of [r] = (case trade_of r of Some t \<Rightarrow> [t] | None \<Rightarrow> [])"
  by (simp_all add: trades_of_def List.map_filter_def split: option.splits)

lemma volume_simps [simp]: "traded_volume [] = 0" "traded_volume (xs @ ys) = traded_volume xs + traded_volume ys"
  "traded_volume [t] = trade_qty t"
  by (simp_all add: traded_volume_def)

lemma volume_nonneg: "list_all (trade_ok hi) ts \<Longrightarrow> 0 \<le> traded_volume ts"
  by (induction ts) (auto simp: traded_volume_def trade_ok_def trade_qty_def)

lemma run_uids: "fst ` set (snd (int_run ts)) \<subseteq> fst ` set ts"
proof (induction ts rule: rev_induct)
  case (snoc t ts)
  obtain u sm buy q p where t: "t = (u, sm, buy, q, p)" by (metis prod_cases5)
  obtain b gs where run: "int_run ts = (b, gs)" by (metis surj_pair)
  show ?case using snoc by (auto simp: run t Let_def split: prod.splits if_splits)
qed simp

lemma trades_uids: "fst ` set (trades_of rs) \<subseteq> bo_uid ` set rs"
proof -
  have "trade_of r = Some t \<Longrightarrow> fst t = bo_uid r" for r t
    by (auto simp: trade_of_def split: option.splits jsnum.splits if_splits)
  then show ?thesis by (force simp: trades_of_def List.map_filter_def)
qed

lemma bounded_volume:
  assumes "list_all (trade_ok hi) ts" "hi * traded_volume ts \<le> 2 ^ 53" "t \<in> set ts"
  shows "0 < hi" "hi \<le> 2 ^ 53" "traded_volume ts \<le> 2 ^ 53" "trade_qty t \<le> traded_volume ts" "0 < trade_qty t"
proof -
  have t: "0 < trade_qty t" "0 < hi" using assms(1,3) by (auto simp: list_all_iff trade_ok_def trade_qty_def)
  have le: "trade_qty t \<le> traded_volume ts"
    using assms(1,3)
  proof (induction ts)
    case (Cons a ts)
    have ts: "list_all (trade_ok hi) ts" "0 < trade_qty a"
      using Cons.prems(1) by (simp, simp add: trade_ok_def trade_qty_def split: prod.splits)
    show ?case using Cons.IH [OF ts(1)] Cons.prems(2) volume_nonneg [OF ts(1)] ts(2) by (auto simp: traded_volume_def)
  qed simp
  have v: "1 \<le> traded_volume ts" using t le by simp
  have "hi * 1 \<le> hi * traded_volume ts" by (rule mult_left_mono [OF v]) (use t(2) in simp)
  then show "hi \<le> 2 ^ 53" using assms(2) by linarith
  have "1 * traded_volume ts \<le> hi * traded_volume ts" by (rule mult_right_mono) (use t(2) v in simp_all)
  then show "traded_volume ts \<le> 2 ^ 53" using assms(2) by linarith
  show "0 < hi" "0 < trade_qty t" "trade_qty t \<le> traded_volume ts" using t le by simp_all
qed

lemma match_run_refines:
  assumes "distinct (map bo_uid rs)" "list_all whole_order rs" "list_all (trade_ok hi) (trades_of rs)" "hi * traded_volume (trades_of rs) \<le> 2 ^ 53"
  shows "foldl match_order no_books rs = books_state (int_run (trades_of rs))"
  using assms
proof (induction rs rule: rev_induct)
  case Nil
  show ?case by (simp add: no_books_def books_state_def empty_book_def)
next
  case (snoc r rs)
  let ?ts = "trades_of rs"
  have w: "distinct (map bo_uid rs)" "list_all whole_order rs" "list_all (trade_ok hi) ?ts" "whole_order r" "bo_uid r \<notin> bo_uid ` set rs"
    using snoc.prems by auto
  show ?case
  proof (cases "trade_of r")
    case None
    then show ?thesis using snoc w by (simp add: match_order_skips)
  next
    case (Some t)
    obtain u sm buy q p where t: "t = (u, sm, buy, q, p)" by (metis prod_cases5)
    have all: "list_all (trade_ok hi) (?ts @ [t])" "hi * traded_volume (?ts @ [t]) \<le> 2 ^ 53" using snoc.prems(3,4) Some by simp_all
    have tin: "t \<in> set (?ts @ [t])" by simp
    note bd = bounded_volume [OF all tin]
    have v: "0 \<le> traded_volume ?ts" by (rule volume_nonneg [OF w(3)])
    have "hi * traded_volume ?ts \<le> hi * traded_volume (?ts @ [t])" by (rule mult_left_mono) (use bd v in simp_all)
    then have IH: "foldl match_order no_books rs = books_state (int_run ?ts)" using snoc.IH w all(2) by simp
    have hq: "hi * q \<le> 2 ^ 53"
      using mult_left_mono [OF bd(4) less_imp_le [OF bd(1)]] all(2) by (simp add: t trade_qty_def)
    obtain b gs where run: "int_run ?ts = (b, gs)" by (metis surj_pair)
    have u: "u = bo_uid r" using trade_positive [OF Some w(4)] by (simp add: t)
    have "u \<notin> fst ` set gs" using run_uids [of ?ts] trades_uids [of rs] w(5) by (auto simp: run u)
    moreover have "book_ok hi (b sm)" using int_run_books(1) [OF w(3)] by (simp add: run)
    moreover have "lots_qty (fst (b sm)) + lots_qty (snd (b sm)) \<le> 2 ^ 53"
      using int_run_books(3) [OF w(3), of sm] bd(3-5) by (simp add: run)
    moreover have "q \<le> 2 ^ 53" using bd(3,4) by (simp add: t trade_qty_def)
    ultimately have "match_order (books_state (b, gs)) r = books_state (int_step (b, gs) (u, sm, buy, q, p))"
      using match_order_refines [OF Some [unfolded t] w(4), of hi b gs] all(1) bd(2) hq by (simp add: t del: int_step.simps)
    then show ?thesis using IH Some by (simp add: run t del: int_step.simps)
  qed
qed

lemma match_int_gain:
  assumes "match_int buy price lots left = (rest, l, g)" "positive_lots lots" "prices_below hi lots" "0 < price" "price \<le> hi" "0 \<le> left"
  shows "\<bar>g\<bar> \<le> hi * left"
  using assms
proof (induction buy price lots left arbitrary: rest l g rule: match_int.induct)
  case (1 buy price left)
  then show ?case by auto
next
  case (2 buy price q p lots left)
  let ?x = "if buy then p - price else price - p"
  show ?case
  proof (cases "0 < left \<and> q \<le> left")
    case True
    obtain rest' l' g' where mi: "match_int buy price lots (left - q) = (rest', l', g')" by (metis prod_cases3)
    have "\<bar>g'\<bar> \<le> hi * (left - q)" using "2.IH" [OF _ _ mi] "2.prems" True by simp
    moreover have "\<bar>?x * q\<bar> \<le> hi * q" by (rule gain_bound) (use "2.prems" in simp_all)
    moreover have "g = g' + ?x * q" using "2.prems"(1) True mi by simp
    moreover have "hi * left = hi * q + hi * (left - q)" by (simp add: algebra_simps)
    ultimately show ?thesis by linarith
  next
    case False
    have "\<bar>?x * left\<bar> \<le> hi * left" by (rule gain_bound) (use "2.prems" in simp_all)
    moreover have "g = 0 \<or> g = ?x * left" using "2.prems"(1) False by (auto split: if_splits)
    moreover have "0 \<le> hi * left" using "2.prems"(4-6) by simp
    ultimately show ?thesis by auto
  qed
qed

lemma run_gains: "list_all (trade_ok hi) ts \<Longrightarrow> sum_list (map (\<lambda>(u, g). \<bar>g\<bar>) (snd (int_run ts))) \<le> hi * traded_volume ts"
proof (induction ts rule: rev_induct)
  case (snoc t ts)
  obtain u sm buy q p where t: "t = (u, sm, buy, q, p)" by (metis prod_cases5)
  obtain b gs where run: "int_run ts = (b, gs)" by (metis surj_pair)
  obtain longs shorts where bs: "b sm = (longs, shorts)" by (metis surj_pair)
  obtain rest l g where m: "match_int buy p (if buy then shorts else longs) q = (rest, l, g)" by (metis prod_cases3)
  have bk: "book_ok hi (longs, shorts)" using int_run_books(1) [of hi ts sm] snoc.prems by (simp add: run bs)
  have "\<bar>g\<bar> \<le> hi * q" by (rule match_int_gain [OF m]) (use bk snoc.prems in \<open>auto simp: book_ok_def t trade_ok_def\<close>)
  moreover have "0 \<le> \<bar>g\<bar>" by simp
  moreover have "sum_list (map (\<lambda>(u, g). \<bar>g\<bar>) gs) \<le> hi * traded_volume ts" using snoc by (simp add: run)
  moreover have "snd (int_run (ts @ [t])) = (if l < q then gs @ [(u, g)] else gs)" by (simp add: run t bs m Let_def)
  ultimately show ?case by (auto simp: t trade_qty_def algebra_simps)
qed simp

lemma realized_whole:
  "\<bar>acc\<bar> + sum_list (map (\<lambda>(u, g). \<bar>g\<bar>) gs) \<le> 2 ^ 53 \<Longrightarrow>
   foldl (\<lambda>acc v. acc + (if is_finite v then v else Fin 0)) (Fin (of_int acc)) (map snd (map (\<lambda>(u, g). (u, Fin (of_int g))) gs))
     = Fin (of_int (acc + sum_list (map snd gs)))"
proof (induction gs arbitrary: acc)
  case (Cons a gs)
  obtain u g where a: "a = (u, g)" by (metis surj_pair)
  have nn: "0 \<le> sum_list (map (\<lambda>(u, g). \<bar>g\<bar>) gs)" by (rule sum_list_nonneg) auto
  have b: "\<bar>acc + g\<bar> + sum_list (map (\<lambda>(u, g). \<bar>g\<bar>) gs) \<le> 2 ^ 53" using Cons.prems by (simp add: a)
  have "Fin (of_int acc) + Fin (of_int g) = Fin (of_int (acc + g))" by (rule whole_sum) (use b nn in linarith)
  then show ?case using Cons.IH [OF b] by (simp add: a add.assoc del: of_int_add)
qed simp

text \<open>
  For whole quantities and prices whose turnover a double can hold: the books hold exactly the net position of each
  symbol, on one side, and the profit shown is the cash of all trades and the cost of what is open.
\<close>

lemma matched_profit_is_cash:
  assumes "distinct (map bo_uid rs)" "list_all whole_order rs" "list_all (trade_ok hi) (trades_of rs)" "hi * traded_volume (trades_of rs) \<le> 2 ^ 53"
  shows "\<exists>b. (\<forall>s. pb_books (match_all cmp rs) s = \<lparr> lb_longs = whole_pairs (fst (b s)), lb_shorts = whole_pairs (snd (b s)) \<rparr>
        \<and> (fst (b s) = [] \<or> snd (b s) = []) \<and> positive_lots (fst (b s)) \<and> positive_lots (snd (b s))
        \<and> lots_qty (fst (b s)) - lots_qty (snd (b s)) = sum_list (map (trade_position s) (trades_of rs)))
      \<and> derived_realized (derived_pnl cmp rs)
        = Fin (of_int (sum_list (map trade_cash (trades_of rs)) + (\<Sum>s \<in> upper ` shown_symbol ` set rs. book_cost (b s))))"
proof -
  let ?rs = "sort_by (order_later cmp) rs"
  let ?ts = "trades_of ?rs"
  have ms: "mset ?ts = mset (trades_of rs)"
    by (simp add: trades_of_def List.map_filter_def)
  have sums: "sum_list (map f ?ts) = sum_list (map f (trades_of rs))" for f :: "trade \<Rightarrow> int"
    by (metis ms mset_map sum_mset_sum_list)
  have vol: "traded_volume ?ts = traded_volume (trades_of rs)" by (simp add: traded_volume_def sums)
  have ok: "list_all (trade_ok hi) ?ts" using assms(3) ms by (metis list_all_iff set_mset_mset)
  have w: "list_all whole_order ?rs" using assms(2) by (simp add: list_all_iff)
  have "distinct (map bo_uid ?rs)"
    using assms(1) mset_sort_by [of "order_later cmp" rs] by (metis mset_map mset_eq_imp_distinct_iff)
  from match_run_refines [OF this w ok] have run: "match_all cmp rs = books_state (int_run ?ts)"
    using assms(4) vol by (simp add: match_all_def)
  have "sm \<in> upper ` shown_symbol ` set rs" if "(u, sm, r) \<in> set ?ts" for u sm r
    using that by (force simp: trades_of_def List.map_filter_def trade_of_def split: option.splits jsnum.splits if_splits)
  then have sub: "(fst \<circ> snd) ` set ?ts \<subseteq> upper ` shown_symbol ` set rs" by force
  have real: "derived_realized (derived_pnl cmp rs) = Fin (of_int (0 + sum_list (map snd (snd (int_run ?ts)))))"
    using realized_whole [of 0 "snd (int_run ?ts)"] run_gains [OF ok] assms(4) vol
    by (simp add: derived_realized_def derived_pnl_def run books_state_def)
  have fin: "finite (upper ` shown_symbol ` set rs)" by simp
  show ?thesis
    by (rule exI [of _ "fst (int_run ?ts)"])
      (use int_run_books(1,2) [OF ok] real int_run_cash [OF ok fin sub] in \<open>simp add: run books_state_def book_ok_def sums\<close>)
qed

text \<open>Where all that was bought is sold, no lot stays and the profit shown is the cash of the trades.\<close>

lemma positive_lots_qty: "positive_lots lots \<Longrightarrow> 0 \<le> lots_qty lots \<and> (lots_qty lots = 0 \<longrightarrow> lots = [])"
proof (induction lots)
  case (Cons l lots)
  then show ?case by (cases l) auto
qed simp

lemma flat_profit_is_cash:
  assumes "distinct (map bo_uid rs)" "list_all whole_order rs" "list_all (trade_ok hi) (trades_of rs)" "hi * traded_volume (trades_of rs) \<le> 2 ^ 53"
    and "\<forall>s. sum_list (map (trade_position s) (trades_of rs)) = 0"
  shows "derived_realized (derived_pnl cmp rs) = Fin (of_int (sum_list (map trade_cash (trades_of rs))))"
proof -
  from matched_profit_is_cash [OF assms(1-4), of cmp] obtain b where
    b: "\<And>s. fst (b s) = [] \<or> snd (b s) = []" "\<And>s. positive_lots (fst (b s))" "\<And>s. positive_lots (snd (b s))"
      "\<And>s. lots_qty (fst (b s)) - lots_qty (snd (b s)) = 0" and
    r: "derived_realized (derived_pnl cmp rs) = Fin (of_int (sum_list (map trade_cash (trades_of rs)) + (\<Sum>s \<in> upper ` shown_symbol ` set rs. book_cost (b s))))"
    using assms(5) by auto
  have "fst (b s) = [] \<and> snd (b s) = []" for s
    using b(1) [of s] b(4) [of s] positive_lots_qty [OF b(2) [of s]] positive_lots_qty [OF b(3) [of s]] by auto
  then show ?thesis unfolding r by (simp add: book_cost_def)
qed

text \<open>Product and exchange play no part in the match: a sale of one product closes a purchase of another.\<close>

lemma product_ignored: "match_order s (r\<lparr> bo_product := pr, bo_exchange := ex \<rparr>) = match_order s r"
proof -
  let ?r = "r\<lparr> bo_product := pr, bo_exchange := ex \<rparr>"
  have a: "shown_symbol ?r = shown_symbol r" by (simp add: shown_symbol_def)
  have b: "fill_qty_price ?r = fill_qty_price r" by (simp add: fill_qty_price_def a Let_def)
  have c: "bo_uid ?r = bo_uid r" "bo_side ?r = bo_side r" by simp_all
  show ?thesis unfolding match_order_def a b c by (rule refl)
qed

section \<open>Filters and counts\<close>

lemma tab_counts_lengths:
  "tab_counts_of rs = \<lparr> tc_pending = length (visible_by_tab ''pending'' rs), tc_all = length (visible_by_tab ''all'' rs),
     tc_filled = length (visible_by_tab ''filled'' rs) \<rparr>"
proof -
  have "foldl (\<lambda>c r. c\<lparr> tc_pending := tc_pending c + (if has_kind PendingKind r then 1 else 0),
      tc_filled := tc_filled c + (if has_kind FilledKind r then 1 else 0), tc_all := tc_all c + 1 \<rparr>) c rs
    = \<lparr> tc_pending = tc_pending c + length (filter (has_kind PendingKind) rs), tc_all = tc_all c + length rs,
        tc_filled = tc_filled c + length (filter (has_kind FilledKind) rs) \<rparr>" for c
    by (induction rs arbitrary: c) simp_all
  then show ?thesis by (simp add: tab_counts_of_def visible_by_tab_def)
qed

text \<open>The kinds of a status exclude each other, so the three cards never count more than all orders.\<close>

lemma summary_parts: "sm_filled (order_summary_of g rs) + sm_pending (order_summary_of g rs) + sm_rejected (order_summary_of g rs)
    \<le> sm_total (order_summary_of g rs)"
proof -
  have "length (filter (has_kind FilledKind) rs) + length (filter (has_kind PendingKind) rs) + length (filter (has_kind RejectedKind) rs) \<le> length rs"
    by (induction rs) (auto simp: has_kind_def)
  then show ?thesis by (simp add: order_summary_of_def Let_def)
qed

lemma sorted_is_permutation: "mset (sorted_visible cmp pnl k up rs) = mset rs"
  by (simp add: sorted_visible_def)

text \<open>The start of a week is a Monday, and the ranges of a day, a week and a month hold the present.\<close>

lemma local_day_start: "local_day zone (day_start zone d) = d"
  by (simp add: local_day_def day_start_def)

lemma day_start_le: "day_start zone (local_day zone now) \<le> now \<and> now \<le> day_start zone (local_day zone now) + 86399999"
proof -
  have "0 \<le> (now + zone) mod 86400000" "(now + zone) mod 86400000 < 86400000" by simp_all
  moreover have "(now + zone) div 86400000 * 86400000 + (now + zone) mod 86400000 = now + zone" by (rule div_mult_mod_eq)
  ultimately show ?thesis unfolding day_start_def local_day_def by linarith
qed

lemma week_starts_monday:
  "(local_day zone (range_start zone now ''week'') + 4) mod 7 = 1
   \<and> range_start zone now ''week'' \<le> now \<and> now < range_start zone now ''week'' + 7 * 86400000"
proof -
  let ?d = "local_day zone now" let ?k = "((?d + 4) mod 7 + 6) mod 7"
  have k: "0 \<le> ?k" "?k < 7" by simp_all
  have st: "range_start zone now ''week'' = day_start zone ?d - ?k * 86400000"
    by (simp add: range_start_def Let_def day_start_def algebra_simps)
  have "(?d - ?k + 4) mod 7 = 1" by presburger
  moreover have "local_day zone (range_start zone now ''week'') = ?d - ?k"
    by (simp add: range_start_def Let_def local_day_start)
  moreover have "day_start zone ?d - ?k * 86400000 \<le> now \<and> now < day_start zone ?d - ?k * 86400000 + 7 * 86400000"
    using day_start_le [of zone now] k by linarith
  ultimately show ?thesis unfolding st by simp
qed

lemma present_in_range:
  assumes "rg \<in> {''today'', ''week''}"
  shows "is_within_range zone date_parse now rg from until (Some (Fin (of_int now)))"
proof -
  have "range_start zone now ''today'' = day_start zone (local_day zone now)" by (simp add: range_start_def Let_def)
  then have "range_start zone now rg \<le> now \<and> now \<le> range_end zone now rg"
    using assms day_start_le [of zone now] week_starts_monday [of zone now] by (auto simp: range_end_def)
  then show ?thesis using assms by (auto simp: is_within_range_def)
qed

text \<open>An order without a readable time is in no range, so it is never listed.\<close>

lemma no_time_not_listed: "bo_ts r = None \<Longrightarrow> \<not> passes_filters zone date_parse now f r"
  by (simp add: passes_filters_def is_within_range_def Let_def)

section \<open>The export\<close>

text \<open>Reading one field of a line back: a quoted one to its closing quote, another to the next separator.\<close>

fun read_quoted :: "string \<Rightarrow> string \<times> string" where
  "read_quoted [] = ([], [])"
| "read_quoted (c # s) =
     (if c = CHR 0x22
      then (case s of d # r \<Rightarrow> if d = CHR 0x22 then (let (t, z) = read_quoted r in (CHR 0x22 # t, z)) else ([], s) | [] \<Rightarrow> ([], []))
      else (let (t, z) = read_quoted s in (c # t, z)))"

definition is_separator :: "char \<Rightarrow> bool" where
  "is_separator c = (c = CHR '','' \<or> c = CHR 0x0A)"

definition read_csv_field :: "string \<Rightarrow> string \<times> string" where
  "read_csv_field s =
     (case s of
        [] \<Rightarrow> ([], [])
      | c # r \<Rightarrow> if c = CHR 0x22 then read_quoted r else (takeWhile (\<lambda>c. \<not> is_separator c) s, dropWhile (\<lambda>c. \<not> is_separator c) s))"

lemma read_quoted_escaped:
  "z = [] \<or> hd z \<noteq> CHR 0x22 \<Longrightarrow> read_quoted (concat (map (\<lambda>c. if c = CHR 0x22 then [c, c] else [c]) t) @ CHR 0x22 # z) = (t, z)"
proof (induction t)
  case Nil
  then show ?case by (cases z) auto
next
  case (Cons c t)
  then show ?case by (cases "c = CHR 0x22") simp_all
qed

text \<open>Every field of the export reads back as it was, whatever it contains.\<close>

lemma csv_field_roundtrip:
  assumes "z = [] \<or> is_separator (hd z)"
  shows "read_csv_field (csv_escape t @ z) = (t, z)"
proof (cases "list_ex (\<lambda>c. c = CHR 0x22 \<or> c = CHR '','' \<or> c = CHR 0x0A) t")
  case True
  have "z = [] \<or> hd z \<noteq> CHR 0x22" using assms by (auto simp: is_separator_def)
  from read_quoted_escaped [OF this, of t] True show ?thesis by (simp add: csv_escape_def read_csv_field_def)
next
  case False
  then have n: "\<forall>c \<in> set t. \<not> is_separator c" "CHR 0x22 \<notin> set t" by (auto simp: list_ex_iff is_separator_def)
  then have "takeWhile (\<lambda>c. \<not> is_separator c) (t @ z) = t" "dropWhile (\<lambda>c. \<not> is_separator c) (t @ z) = z"
    using assms by (cases z; simp)+
  moreover have "csv_escape t = t" using False by (simp add: csv_escape_def)
  moreover have "t @ z \<noteq> [] \<Longrightarrow> hd (t @ z) \<noteq> CHR 0x22" using n(2) assms by (cases t) (auto simp: is_separator_def)
  ultimately show ?thesis by (auto simp: read_csv_field_def split: list.splits)
qed

end
