(* ===== verification/OrdersDesk.thy ===== *)
theory OrdersDesk
  imports OrderBook PortfolioStore
begin

text \<open>
  The orders page as it runs, \<open>frontend/src/pages/OrdersPage.jsx\<close>: the load, the sort, the rows that flash, the
  editor of an order and its request, and the cancellation with its optimistic change of the portfolio store. A
  request is split at its answer. The identifiers of the server are the UUIDs of \<open>is_uuid\<close>; a text for the present
  time is an argument.
\<close>

section \<open>State\<close>

record edit_draft =
  ed_price :: string
  ed_quantity :: string
  ed_trigger :: string

record orders_page =
  od_sort_key :: string
  od_ascending :: bool
  od_refreshing :: bool
  od_updated :: "jsnum option"
  od_expanded :: "string option"
  od_cancelling :: "string option"
  od_editing :: "string option"
  od_draft :: edit_draft
  od_errors :: "(string \<times> jsval) list"
  od_flash :: "(string \<times> string) list"
  od_known :: "string list option"

definition initial_orders_page :: orders_page where
  "initial_orders_page =
     \<lparr> od_sort_key = ''time'', od_ascending = False, od_refreshing = True, od_updated = None, od_expanded = None, od_cancelling = None,
       od_editing = None, od_draft = \<lparr> ed_price = [], ed_quantity = [], ed_trigger = [] \<rparr>, od_errors = [], od_flash = [], od_known = None \<rparr>"

definition begin_order_load :: "orders_page \<Rightarrow> orders_page" where
  "begin_order_load s = s\<lparr> od_refreshing := True \<rparr>"

text \<open>\<open>ok\<close> is false where the refresh threw.\<close>

definition end_order_load :: "bool \<Rightarrow> jsnum \<Rightarrow> orders_page \<Rightarrow> orders_page" where
  "end_order_load ok now s = s\<lparr> od_updated := if ok then Some now else od_updated s, od_refreshing := False \<rparr>"

definition on_sort :: "string \<Rightarrow> orders_page \<Rightarrow> orders_page" where
  "on_sort k s =
     (if od_sort_key s = k then s\<lparr> od_ascending := \<not> od_ascending s \<rparr> else s\<lparr> od_sort_key := k, od_ascending := k \<noteq> ''time'' \<rparr>)"

definition toggle_row :: "string \<Rightarrow> orders_page \<Rightarrow> orders_page" where
  "toggle_row uid s = s\<lparr> od_expanded := if od_expanded s = Some uid then None else Some uid \<rparr>"

section \<open>Rows that flash\<close>

definition incoming_orders :: "string list \<Rightarrow> book_order list \<Rightarrow> book_order list" where
  "incoming_orders known rs = filter (\<lambda>r. bo_uid r \<notin> set known) rs"

definition flash_kind :: "book_order \<Rightarrow> string" where
  "flash_kind r = (if has_kind RejectedKind r then ''rejected'' else ''new'')"

definition orders_changed :: "book_order list \<Rightarrow> orders_page \<Rightarrow> orders_page" where
  "orders_changed rs s =
     (case od_known s of
        None \<Rightarrow> s\<lparr> od_known := Some (map bo_uid rs) \<rparr>
      | Some known \<Rightarrow>
          s\<lparr> od_flash := foldl (\<lambda>f r. AList.update (bo_uid r) (flash_kind r) f) (od_flash s) (incoming_orders known rs),
             od_known := Some (map bo_uid rs) \<rparr>)"

definition flash_over :: "string list \<Rightarrow> orders_page \<Rightarrow> orders_page" where
  "flash_over uids s = s\<lparr> od_flash := filter (\<lambda>(k, _). k \<notin> set uids) (od_flash s) \<rparr>"

section \<open>The identifier of an order\<close>

definition is_hex :: "char \<Rightarrow> bool" where
  "is_hex c = (is_digit c \<or> lower_char c \<in> set ''abcdef'')"

definition is_uuid :: "string \<Rightarrow> bool" where
  "is_uuid s =
     (length s = 36 \<and>
      list_all (\<lambda>(i, c).
        if i \<in> set [8, 13, 18, 23] then c = CHR ''-''
        else if i = 14 then c \<in> set ''12345''
        else if i = 19 then lower_char c \<in> set ''89ab''
        else is_hex c) (enumerate 0 s))"

definition resolve_order_id :: "book_order \<Rightarrow> string option" where
  "resolve_order_id r =
     find is_uuid (map (\<lambda>v. trim (to_string (nullish v (JStr [])))) [field (bo_row r) ''id'', field (bo_row r) ''order_id'', JStr (bo_uid r)])"

text \<open>The row of the store that a request is about; \<open>String\<close> of a missing one is \<open>undefined\<close>.\<close>

definition row_id :: "jsval \<Rightarrow> string" where
  "row_id row = to_string (first_field row [''id'', ''order_id'', ''exchange_order_id''])"

definition map_orders :: "(jsval \<Rightarrow> jsval) \<Rightarrow> portfolio_store \<Rightarrow> portfolio_store" where
  "map_orders f st = st\<lparr> ps_orders := JArr (map f (elements (ps_orders st))) \<rparr>"

definition set_error :: "string \<Rightarrow> jsval \<Rightarrow> orders_page \<Rightarrow> orders_page" where
  "set_error uid m s = s\<lparr> od_errors := AList.update uid m (od_errors s) \<rparr>"

definition clear_error :: "string \<Rightarrow> orders_page \<Rightarrow> orders_page" where
  "clear_error uid s =
     (if \<not> truthy (own (od_errors s) uid) then s else s\<lparr> od_errors := filter (\<lambda>(k, _). k \<noteq> uid) (od_errors s) \<rparr>)"

definition failure_message :: "string \<Rightarrow> jsval \<Rightarrow> jsval" where
  "failure_message fallback err =
     (let data = field (field err ''response'') ''data'' in
      js_or (field data ''detail'') (js_or (field data ''error'') (js_or (field err ''message'') (JStr fallback))))"

section \<open>The editor\<close>

definition open_editor :: "book_order \<Rightarrow> orders_page \<Rightarrow> orders_page" where
  "open_editor r s =
     (clear_error (bo_uid r) (s\<lparr> od_expanded := Some (bo_uid r), od_editing := Some (bo_uid r) \<rparr>))
       \<lparr> od_draft := \<lparr> ed_price = (case bo_price r of Some p \<Rightarrow> number_to_string p | None \<Rightarrow> []),
           ed_quantity = number_to_string (bo_qty r),
           ed_trigger = (let t = field (bo_row r) ''trigger_price'' in if is_nullish t then [] else to_string t) \<rparr> \<rparr>"

record modify_request =
  mr_target :: string
  mr_uid :: string
  mr_quantity :: jsnum
  mr_price :: "jsnum option"
  mr_trigger :: "jsnum option"
  mr_entered :: "jsnum option"

definition sendable :: "jsnum \<Rightarrow> bool" where
  "sendable x = (is_finite x \<and> Fin 0 < x)"

definition trigger_types :: "string list" where
  "trigger_types = [''STOP_LOSS'', ''STOP_LOSS_LIMIT'', ''BRACKET'']"

text \<open>Up to the request: the page with its error, or the request. \<open>mr_entered\<close> is the price that is shown afterwards.\<close>

definition submit_modify :: "book_order \<Rightarrow> orders_page \<Rightarrow> orders_page \<times> modify_request option" where
  "submit_modify r s =
     (case resolve_order_id r of
        None \<Rightarrow> (set_error (bo_uid r) (JStr ''Order ID is missing or invalid for modify request.'') s, None)
      | Some target \<Rightarrow>
          let kind = upper (text_of (field (bo_row r) ''order_type''));
              quantity = number_of_string (ed_quantity (od_draft s));
              price = number_of_string (ed_price (od_draft s));
              trigger = number_of_string (ed_trigger (od_draft s))
          in if \<not> sendable quantity
             then (set_error (bo_uid r) (JStr ''Please enter a valid quantity.'') s, None)
             else if kind \<in> set trigger_types \<and> \<not> sendable trigger
             then (set_error (bo_uid r) (JStr ''Please enter a valid trigger price.'') s, None)
             else (clear_error (bo_uid r) s,
               Some \<lparr> mr_target = target, mr_uid = bo_uid r, mr_quantity = quantity,
                 mr_price = (if kind \<noteq> ''MARKET'' \<and> sendable price then Some price else None),
                 mr_trigger = (if kind \<in> set trigger_types then Some trigger else None),
                 mr_entered = (if sendable price then Some price else None) \<rparr>))"

definition modified_row :: "string \<Rightarrow> modify_request \<Rightarrow> jsval \<Rightarrow> jsval \<Rightarrow> jsval" where
  "modified_row now_text q updated row =
     (if row_id row \<noteq> mr_target q then row
      else JObj (spread (fields_of row)
        [(''quantity'', nullish (field updated ''quantity'') (JNum (mr_quantity q))),
         (''price'', nullish (field updated ''price'') (case mr_entered q of Some p \<Rightarrow> JNum p | None \<Rightarrow> field row ''price'')),
         (''trigger_price'', nullish (field updated ''trigger_price'') (field row ''trigger_price'')),
         (''updated_at'', nullish (field updated ''updated_at'') (JStr now_text))]))"

definition modify_answered :: "string \<Rightarrow> jsval \<Rightarrow> modify_request \<Rightarrow> orders_page \<times> portfolio_store \<Rightarrow> orders_page \<times> portfolio_store" where
  "modify_answered now_text data q st =
     ((fst st)\<lparr> od_editing := None \<rparr>, map_orders (modified_row now_text q (field data ''order'')) (snd st))"

definition modify_failed :: "jsval \<Rightarrow> modify_request \<Rightarrow> orders_page \<Rightarrow> orders_page" where
  "modify_failed err q s = set_error (mr_uid q) (failure_message ''Modify order failed.'' err) s"

section \<open>The cancellation\<close>

record cancel_request =
  cq_target :: string
  cq_uid :: string
  cq_previous :: jsval

definition cancelled_row :: "string \<Rightarrow> string \<Rightarrow> jsval \<Rightarrow> jsval" where
  "cancelled_row now_text target row =
     (if row_id row \<noteq> target then row
      else JObj (spread (fields_of row) [(''status'', JStr ''CANCELLED''), (''updated_at'', JStr now_text)]))"

definition begin_cancel ::
  "string \<Rightarrow> book_order \<Rightarrow> orders_page \<times> portfolio_store \<Rightarrow> (orders_page \<times> portfolio_store) \<times> cancel_request option" where
  "begin_cancel now_text r st =
     (case resolve_order_id r of
        None \<Rightarrow> ((set_error (bo_uid r) (JStr ''Order ID is missing or invalid for cancel request.'') (fst st), snd st), None)
      | Some target \<Rightarrow>
          (((clear_error (bo_uid r) (fst st))\<lparr> od_cancelling := Some (bo_uid r) \<rparr>, map_orders (cancelled_row now_text target) (snd st)),
           Some \<lparr> cq_target = target, cq_uid = bo_uid r, cq_previous = ps_orders (snd st) \<rparr>))"

text \<open>The end of the request: \<open>None\<close> where it succeeded, and the error otherwise.\<close>

definition end_cancel :: "jsval option \<Rightarrow> cancel_request \<Rightarrow> orders_page \<times> portfolio_store \<Rightarrow> orders_page \<times> portfolio_store" where
  "end_cancel err q st =
     (case err of
        None \<Rightarrow> ((fst st)\<lparr> od_cancelling := None \<rparr>, snd st)
      | Some e \<Rightarrow>
          ((set_error (cq_uid q) (failure_message ''Cancel order failed.'' e) (fst st))\<lparr> od_cancelling := None \<rparr>,
           (snd st)\<lparr> ps_orders := cq_previous q \<rparr>))"

section \<open>Lemmas\<close>

lemma sort_twice: "on_sort k (on_sort k (on_sort k s)) = on_sort k s"
  by (simp add: on_sort_def)

lemma first_list_is_quiet: "od_known s = None \<Longrightarrow> od_flash (orders_changed rs s) = od_flash s"
  by (simp add: orders_changed_def)

text \<open>A row flashes exactly where its order was not in the list before, until its timer fires.\<close>

lemma new_orders_flash:
  assumes "od_known s = Some known" "od_flash s = []"
  shows "map_of (od_flash (orders_changed rs s)) u \<noteq> None \<longleftrightarrow> u \<in> bo_uid ` set rs \<and> u \<notin> set known"
    and "od_flash (flash_over (map bo_uid (incoming_orders known rs)) (orders_changed rs s)) = []"
proof -
  let ?f = "foldl (\<lambda>f r. AList.update (bo_uid r) (flash_kind r) f) [] (incoming_orders known rs)"
  have n: "map_of (foldl (\<lambda>f r. AList.update (bo_uid r) (flash_kind r) f) [] xs) u = None \<longleftrightarrow> u \<notin> bo_uid ` set xs" for xs u
    by (induction xs rule: rev_induct) (auto simp: update_conv')
  have i: "bo_uid ` set (incoming_orders known rs) = bo_uid ` set rs - set known" by (auto simp: incoming_orders_def)
  show "map_of (od_flash (orders_changed rs s)) u \<noteq> None \<longleftrightarrow> u \<in> bo_uid ` set rs \<and> u \<notin> set known"
    using n [of "incoming_orders known rs" u] i assms by (simp add: orders_changed_def)
  have "k \<in> bo_uid ` set (incoming_orders known rs)" if "(k, v) \<in> set ?f" for k v
    using n [of "incoming_orders known rs" k] that by (force simp: map_of_eq_None_iff)
  then show "od_flash (flash_over (map bo_uid (incoming_orders known rs)) (orders_changed rs s)) = []"
    using assms by (auto simp: orders_changed_def flash_over_def filter_empty_conv)
qed

text \<open>What is sent is a positive quantity; a market order carries no price, and a stop carries a positive trigger.\<close>

lemma modify_is_checked:
  assumes "submit_modify r s = (s', Some q)"
  shows "sendable (mr_quantity q) \<and> resolve_order_id r = Some (mr_target q) \<and> (\<forall>p. mr_price q = Some p \<longrightarrow> sendable p)
    \<and> (\<forall>p. mr_trigger q = Some p \<longrightarrow> sendable p)
    \<and> (upper (text_of (field (bo_row r) ''order_type'')) = ''MARKET'' \<longrightarrow> mr_price q = None)
    \<and> (upper (text_of (field (bo_row r) ''order_type'')) \<in> set trigger_types \<longleftrightarrow> mr_trigger q \<noteq> None)"
  using assms by (auto simp: submit_modify_def Let_def split: option.splits if_splits)

lemma modify_rejected: "submit_modify r s = (s', None) \<Longrightarrow> map_of (od_errors s') (bo_uid r) \<noteq> None \<and> od_draft s' = od_draft s"
  by (auto simp: submit_modify_def set_error_def Let_def update_conv' split: option.splits if_splits)

text \<open>
  A bracket order without a trigger price cannot be modified: its draft starts without one, the page shows the field
  only for stop orders, and the request is refused.
\<close>

lemma empty_text_is_zero: "number_of_string [] = Fin 0"
  by (simp add: number_of_string_def trim_def trim_left_def)

lemma bracket_needs_trigger:
  assumes "upper (text_of (field (bo_row r) ''order_type'')) = ''BRACKET''" "is_nullish (field (bo_row r) ''trigger_price'')"
    and "od_draft s' = (od_draft (open_editor r s))\<lparr> ed_price := p, ed_quantity := n \<rparr>"
  shows "snd (submit_modify r s') = None"
  using assms by (auto simp: submit_modify_def open_editor_def Let_def empty_text_is_zero sendable_def trigger_types_def split: option.splits)

text \<open>A cancellation that fails puts the orders back as they were before it.\<close>

lemma cancel_failure_restores:
  assumes "begin_cancel now_text r st = (st', Some q)"
  shows "snd (end_cancel (Some e) q st') = snd st \<and> od_cancelling (fst (end_cancel (Some e) q st')) = None"
  using assms by (auto simp: begin_cancel_def end_cancel_def map_orders_def set_error_def split: option.splits)

text \<open>It does so also where the store has changed in between, so that what arrived meanwhile is lost.\<close>

lemma cancel_failure_drops:
  assumes "begin_cancel now_text r st = (st', Some q)"
  shows "ps_orders (snd (end_cancel (Some e) q (fst st', add_order new_order (snd st')))) = ps_orders (snd st)"
  using assms by (auto simp: begin_cancel_def end_cancel_def split: option.splits)

lemma cancel_marks_one:
  assumes "begin_cancel now_text r st = (st', Some q)" "row \<in> set (elements (ps_orders (snd st)))"
  shows "cancelled_row now_text (cq_target q) row \<in> set (elements (ps_orders (snd st')))"
    and "row_id row \<noteq> cq_target q \<Longrightarrow> row \<in> set (elements (ps_orders (snd st')))"
  using assms by (force simp: begin_cancel_def map_orders_def cancelled_row_def split: option.splits)+

text \<open>
  The request names the first identifier of the order that is a UUID, the store is searched by its first
  identifier of any form: where these differ the row stays as it was.
\<close>

lemma other_identifier_unmarked:
  assumes "resolve_order_id r = Some target" "row_id (bo_row r) \<noteq> target"
  shows "cancelled_row now_text target (bo_row r) = bo_row r" "mr_target q = target \<Longrightarrow> modified_row now_text q updated (bo_row r) = bo_row r"
  using assms by (simp_all add: cancelled_row_def modified_row_def)

text \<open>The page has one mark for a running cancellation: the end of one takes the mark of another away.\<close>

lemma cancel_mark_shared: "od_cancelling (fst (end_cancel err q (s\<lparr> od_cancelling := Some other \<rparr>, st))) = None"
  by (simp add: end_cancel_def split: option.splits)

end
