(* ===== verification/FuturesDesk.thy ===== *)
theory FuturesDesk
  imports CandleFetch FuturesStore FuturesAnalytics OrderBook
begin

text \<open>
  The futures page, \<open>frontend/src/pages/FuturesPage.jsx\<close>: the numbers of its header, the order panel with its margin,
  the value of the positions, and the page itself, which loads the contracts of an underlying and the history of a
  contract. A request is split at its answer. What the page asks of the watchlist store is a list of contracts to add.
  \<open>date_parse\<close> is \<open>Date.parse\<close>; the floating panel is that of \<open>OptionsDesk\<close>.
\<close>

section \<open>Quotes\<close>

definition page_price :: "jsval \<Rightarrow> jsnum option" where
  "page_price q = to_finite_number (first_field q [''ltp'', ''price'', ''lp''])"

definition page_close :: "jsval \<Rightarrow> jsnum option" where
  "page_close q = (let c = to_number (first_field q [''close'', ''prev_close'']) in if is_finite c \<and> Fin 0 < c then Some c else None)"

definition page_change :: "jsval \<Rightarrow> jsnum option" where
  "page_change q =
     (let v = to_number (first_field q [''change'', ''net_change'']) in
      if is_finite v then Some v
      else case (page_price q, page_close q) of (Some p, Some c) \<Rightarrow> Some (fixed_num 2 (p - c)) | _ \<Rightarrow> None)"

definition page_change_pct :: "jsval \<Rightarrow> jsnum option" where
  "page_change_pct q =
     (let v = to_number (first_field q [''change_pct'', ''change_percent'', ''percent_change'', ''pc'']) in
      if is_finite v then Some v
      else case (page_change q, page_close q) of (Some d, Some c) \<Rightarrow> Some (fixed_num 2 (d / c * Fin 100)) | _ \<Rightarrow> None)"

definition positive_field :: "jsval \<Rightarrow> string list \<Rightarrow> jsnum option" where
  "positive_field q ks = (let v = to_number (first_field q ks) in if is_finite v \<and> Fin 0 < v then Some v else None)"

record futures_header =
  fu_open :: "jsnum option"
  fu_high :: "jsnum option"
  fu_low :: "jsnum option"
  fu_volume :: "jsnum option"
  fu_oi :: "jsnum option"
  fu_bid :: "jsnum option"
  fu_ask :: "jsnum option"
  fu_close :: "jsnum option"
  fu_average :: "jsnum option"

definition futures_header_of :: "jsval \<Rightarrow> futures_header" where
  "futures_header_of q =
     \<lparr> fu_open = positive_field q [''open''], fu_high = positive_field q [''high''], fu_low = positive_field q [''low''],
       fu_volume = nonneg_field q [''volume''], fu_oi = nonneg_field q [''oi''], fu_bid = positive_field q [''bid'', ''bid_price''],
       fu_ask = positive_field q [''ask'', ''ask_price''], fu_close = positive_field q [''close'', ''prev_close''],
       fu_average = positive_field q [''avg_price''] \<rparr>"

text \<open>\<open>locale_num\<close> is \<open>toLocaleString\<close>.\<close>

definition compact_number :: "(jsnum \<Rightarrow> string) \<Rightarrow> jsnum option \<Rightarrow> string" where
  "compact_number locale_num v =
     (case v of
        None \<Rightarrow> ''-''
      | Some n \<Rightarrow>
          if Fin 10000000 \<le> n then to_fixed 2 (n / Fin 10000000) @ ''Cr''
          else if Fin 100000 \<le> n then to_fixed 2 (n / Fin 100000) @ ''L''
          else if Fin 1000 \<le> n then to_fixed 1 (n / Fin 1000) @ ''K''
          else locale_num n)"

section \<open>The history of a contract\<close>

definition futures_candle :: "(string \<Rightarrow> jsnum) \<Rightarrow> jsnum \<Rightarrow> jsval \<Rightarrow> fcandle option" where
  "futures_candle date_parse now_sec row =
     (let raw = to_number (first_field row [''time'', ''timestamp'']);
          tm = (if is_finite raw then seconds_of raw
                else case field row ''timestamp'' of
                  JStr t \<Rightarrow> (let d = date_parse t in if is_finite d then seconds_of (math_floor (d / Fin 1000)) else raw)
                | _ \<Rightarrow> raw);
          op = to_number (field row ''open''); hi = to_number (field row ''high''); lo = to_number (field row ''low'');
          cl = to_number (field row ''close''); vol = num_or (to_number (field row ''volume'')) (Fin 0)
      in if \<not> is_finite tm \<or> tm < Fin 946684800 \<or> now_sec + Fin 604800 < tm then None
         else if \<not> list_all (\<lambda>v. is_finite v \<and> Fin 0 < v) [op, hi, lo, cl] then None
         else Some \<lparr> f_time = tm, f_open = fixed_num 2 op, f_high = fixed_num 2 (math_max op (math_max hi (math_max lo cl))),
           f_low = fixed_num 2 (math_min op (math_min hi (math_min lo cl))), f_close = fixed_num 2 cl,
           f_volume = math_max (Fin 0) (math_floor vol) \<rparr>)"

definition futures_candles :: "(string \<Rightarrow> jsnum) \<Rightarrow> jsnum \<Rightarrow> jsval list \<Rightarrow> fcandle list" where
  "futures_candles date_parse now rows =
     sort_by (\<lambda>a b. Fin 0 < f_time a - f_time b)
       (map snd (fold (\<lambda>row seen. case futures_candle date_parse (math_floor (now / Fin 1000)) row of
            Some x \<Rightarrow> AList.update (f_time x) x seen | None \<Rightarrow> seen) rows []))"

definition candle_value :: "fcandle \<Rightarrow> jsval" where
  "candle_value c = JObj [(''time'', JNum (f_time c)), (''open'', JNum (f_open c)), (''high'', JNum (f_high c)), (''low'', JNum (f_low c)),
     (''close'', JNum (f_close c)), (''volume'', JNum (f_volume c))]"

definition interval_api_map :: "(string \<times> string) list" where
  "interval_api_map = [(''1m'', ''1m''), (''5m'', ''5m''), (''15m'', ''15m''), (''1H'', ''1h''), (''1D'', ''1d'')]"

definition api_interval :: "string \<Rightarrow> string" where
  "api_interval iv = (case map_of interval_api_map iv of Some a \<Rightarrow> a | None \<Rightarrow> ''5m'')"

definition futures_cache_ttl :: jsnum where
  "futures_cache_ttl = Fin 604800000"

definition futures_cache_key :: "string \<Rightarrow> string \<Rightarrow> string" where
  "futures_cache_key contract iv = upper contract @ '':'' @ iv"

type_synonym futures_cache = "(string \<times> (fcandle list \<times> jsnum)) list"

definition cached_history :: "jsnum \<Rightarrow> string \<Rightarrow> string \<Rightarrow> futures_cache \<Rightarrow> fcandle list option" where
  "cached_history now contract iv cache =
     (case map_of cache (futures_cache_key contract iv) of
        Some (cs, ts) \<Rightarrow> if cs = [] \<or> futures_cache_ttl < now - ts then None else Some cs
      | None \<Rightarrow> None)"

record history_request =
  hq_contract :: string
  hq_interval :: string
  hq_cached :: bool

record futures_page =
  fp_store :: futures_store
  fp_cache :: futures_cache
  fp_interval :: string
  fp_chart_ltp :: "jsnum option"
  fp_added :: "string list"
  fp_kill :: bool

definition new_futures_page :: "futures_store \<Rightarrow> futures_cache \<Rightarrow> futures_page" where
  "new_futures_page st cache =
     \<lparr> fp_store = st, fp_cache = cache, fp_interval = ''5m'', fp_chart_ltp = None, fp_added = [], fp_kill = False \<rparr>"

definition on_store :: "(futures_store \<Rightarrow> futures_store) \<Rightarrow> futures_page \<Rightarrow> futures_page" where
  "on_store f s = s\<lparr> fp_store := f (fp_store s) \<rparr>"

definition show_history :: "fcandle list \<Rightarrow> futures_page \<Rightarrow> futures_page" where
  "show_history cs s = on_store (set_candles (map candle_value cs)) s"

definition fetch_history :: "jsnum \<Rightarrow> string \<Rightarrow> string \<Rightarrow> futures_page \<Rightarrow> futures_page \<times> history_request option" where
  "fetch_history now contract iv s =
     (if contract = [] then (s, None)
      else
        let a = api_interval iv in
        case cached_history now contract a (fp_cache s) of
          Some cs \<Rightarrow> (on_store (set_chart_loading False) (show_history cs s), Some \<lparr> hq_contract = contract, hq_interval = a, hq_cached = True \<rparr>)
        | None \<Rightarrow> (on_store (set_chart_loading True) s, Some \<lparr> hq_contract = contract, hq_interval = a, hq_cached = False \<rparr>))"

definition stale_history :: "history_request \<Rightarrow> futures_page \<Rightarrow> fcandle list" where
  "stale_history q s = (case map_of (fp_cache s) (futures_cache_key (hq_contract q) (hq_interval q)) of Some (cs, _) \<Rightarrow> cs | None \<Rightarrow> [])"

definition show_stale :: "history_request \<Rightarrow> futures_page \<Rightarrow> futures_page" where
  "show_stale q s = (if stale_history q s \<noteq> [] then show_history (stale_history q s) s else s)"

definition history_answered :: "(string \<Rightarrow> jsnum) \<Rightarrow> jsnum \<Rightarrow> history_request \<Rightarrow> jsval list \<Rightarrow> futures_page \<Rightarrow> futures_page" where
  "history_answered date_parse now q rows s =
     (let cs = futures_candles date_parse now rows;
          s' = (if cs \<noteq> []
                then show_history cs (s\<lparr> fp_cache := AList.update (futures_cache_key (hq_contract q) (hq_interval q)) (cs, now) (fp_cache s) \<rparr>)
                else if \<not> hq_cached q then show_stale q s else s)
      in on_store (set_chart_loading False) s')"

text \<open>On an error the cached history is shown, an expired one too.\<close>

definition history_failed :: "history_request \<Rightarrow> futures_page \<Rightarrow> futures_page" where
  "history_failed q s = on_store (set_chart_loading False) (show_stale q s)"

definition change_interval :: "string \<Rightarrow> futures_page \<Rightarrow> futures_page" where
  "change_interval k s = on_store (set_chart_interval (api_interval k)) (s\<lparr> fp_interval := k \<rparr>)"

text \<open>A price from the chart: only a live one is taken, and a reset without a price clears it.\<close>

definition chart_price :: "jsval \<Rightarrow> futures_page \<Rightarrow> futures_page" where
  "chart_price payload s =
     (let is_obj = (case payload of JObj _ \<Rightarrow> True | JArr _ \<Rightarrow> True | _ \<Rightarrow> False);
          source = (if is_obj then lower (to_string (js_or (field payload ''source'') (JStr ''history''))) else ''history'');
          price = to_number (if is_obj then field payload ''price'' else payload)
      in if \<not> is_finite price \<or> price \<le> Fin 0 then (if source = ''reset'' then s\<lparr> fp_chart_ltp := None \<rparr> else s)
         else if source = ''live'' then s\<lparr> fp_chart_ltp := Some price \<rparr> else s)"

section \<open>Contracts\<close>

definition known_underlyings :: "string list" where
  "known_underlyings = [''NIFTYNXT50'', ''MIDCPNIFTY'', ''BANKNIFTY'', ''FINNIFTY'', ''NIFTY'', ''SENSEX'', ''BANKEX'', ''RELIANCE'', ''TCS'',
     ''HDFCBANK'', ''INFY'', ''ICICIBANK'', ''SBIN'', ''LT'', ''ITC'', ''BHARTIARTL'', ''TATAMOTORS'', ''MARUTI'', ''BAJFINANCE'', ''AXISBANK'',
     ''KOTAKBANK'', ''SUNPHARMA'']"

definition underlying_of_contract :: "string \<Rightarrow> string option" where
  "underlying_of_contract sy =
     find (\<lambda>b. starts_with sy b \<and> (case drop (length b) sy of c # _ \<Rightarrow> is_digit c | [] \<Rightarrow> False)) known_underlyings"

definition begin_underlying :: "jsval \<Rightarrow> futures_page \<Rightarrow> futures_page \<times> string option" where
  "begin_underlying symbol s =
     (let sy = trim (upper (text_of symbol)) in
      if sy = [] then (s, None)
      else (on_store (\<lambda>st. set_contracts_loading True (select_underlying (JStr sy) st)) s, Some sy))"

definition underlying_answered :: "string \<Rightarrow> jsval list \<Rightarrow> futures_page \<Rightarrow> futures_page" where
  "underlying_answered sy contracts s =
     (let s = on_store (set_contracts sy contracts) s;
          first = (case contracts of c # _ \<Rightarrow> symbol_text (contract_name c) | [] \<Rightarrow> []);
          s = (if first = [] then s else (on_store (select_contract (JStr first)) s)\<lparr> fp_added := fp_added s @ [first] \<rparr>)
      in on_store (set_contracts_loading False) s)"

definition underlying_failed :: "futures_page \<Rightarrow> futures_page" where
  "underlying_failed s = on_store (set_contracts_loading False) s"

text \<open>A chosen contract: the underlying whose contracts are still to be loaded, if any.\<close>

definition choose_contract :: "jsval \<Rightarrow> futures_page \<Rightarrow> futures_page \<times> string option" where
  "choose_contract symbol s =
     (let sy = symbol_text symbol in
      if sy = [] then (s, None)
      else
        let s = on_store (select_contract (JStr sy)) s in
        case underlying_of_contract sy of
          None \<Rightarrow> (s, None)
        | Some u \<Rightarrow>
            let s = on_store (select_underlying (JStr u)) s in
            (case map_of (fc_by_underlying (fs_contracts (fp_store s))) u of
               Some (_ # _) \<Rightarrow> (s, None)
             | _ \<Rightarrow> (on_store (set_contracts_loading True) s, Some u)))"

definition contracts_answered :: "string \<Rightarrow> jsval list \<Rightarrow> futures_page \<Rightarrow> futures_page" where
  "contracts_answered u contracts s = on_store (\<lambda>st. set_contracts_loading False (set_contracts u contracts st)) s"

section \<open>Positions\<close>

definition desk_price :: "quote_map \<Rightarrow> jsval \<Rightarrow> jsnum" where
  "desk_price quotes pos =
     (case page_price (case map_of quotes (to_string (contract_name pos)) of Some q \<Rightarrow> JObj q | None \<Rightarrow> Undefined) of
        Some p \<Rightarrow> p | None \<Rightarrow> to_number (field pos ''ltp''))"

definition position_entry :: "jsval \<Rightarrow> jsnum" where
  "position_entry pos = to_number (js_or (field pos ''avg_entry_price'') (js_or (field pos ''avg_price'') (JNum (Fin 0))))"

definition marked_pnl :: "jsval \<Rightarrow> jsnum \<Rightarrow> jsnum" where
  "marked_pnl pos price =
     (let qty = or_zero (field pos ''quantity''); avg = position_entry pos
      in if Fin 0 \<le> qty then (price - avg) * qty else (avg - price) * \<bar>qty\<bar>)"

definition desk_pnl :: "quote_map \<Rightarrow> jsval \<Rightarrow> jsnum option" where
  "desk_pnl quotes pos =
     (let p = desk_price quotes pos in
      if is_finite p then Some (marked_pnl pos p)
      else if is_nullish (field pos ''unrealized_pnl'') then None else Some (to_number (field pos ''unrealized_pnl'')))"

definition desk_total_pnl :: "quote_map \<Rightarrow> jsval list \<Rightarrow> jsnum" where
  "desk_total_pnl quotes ps =
     foldl (\<lambda>sum pos. let p = desk_price quotes pos in if is_finite p then sum + marked_pnl pos p else sum) (Fin 0) ps"

definition has_open_positions :: "jsval list \<Rightarrow> bool" where
  "has_open_positions ps = list_ex (\<lambda>p. \<not> num_eq (to_number (field p ''quantity'')) (Fin 0)) ps"

text \<open>The two answers after an order or a kill switch; \<open>None\<close> is one that failed.\<close>

definition take_orders :: "jsval option \<Rightarrow> futures_store \<Rightarrow> futures_store" where
  "take_orders answer st = (case answer of Some d \<Rightarrow> set_orders (elements (nullish (field d ''orders'') (JArr []))) st | None \<Rightarrow> st)"

definition take_positions :: "jsval option \<Rightarrow> futures_store \<Rightarrow> futures_store" where
  "take_positions answer st = (case answer of Some d \<Rightarrow> set_positions (elements (nullish (field d ''positions'') (JArr []))) st | None \<Rightarrow> st)"

definition refresh_futures :: "jsval option \<Rightarrow> jsval option \<Rightarrow> futures_page \<Rightarrow> futures_page" where
  "refresh_futures orders positions s = on_store (\<lambda>st. take_positions positions (take_orders orders st)) s"

definition begin_kill :: "bool \<Rightarrow> futures_page \<Rightarrow> futures_page" where
  "begin_kill confirmed s = (if confirmed then s\<lparr> fp_kill := True \<rparr> else s)"

definition end_kill :: "bool \<Rightarrow> jsval option \<Rightarrow> jsval option \<Rightarrow> futures_page \<Rightarrow> futures_page" where
  "end_kill ok orders positions s = ((if ok then refresh_futures orders positions s else s)\<lparr> fp_kill := False \<rparr>)"

section \<open>The order panel\<close>

record futures_form =
  ff_side :: string
  ff_type :: string
  ff_lots :: jsnum
  ff_limit :: string
  ff_trigger :: string
  ff_submitting :: bool
  ff_margin :: jsval

definition new_futures_form :: futures_form where
  "new_futures_form = \<lparr> ff_side = ''BUY'', ff_type = ''MARKET'', ff_lots = Fin 1, ff_limit = [], ff_trigger = [], ff_submitting = False, ff_margin = JNull \<rparr>"

definition is_limit :: "futures_form \<Rightarrow> bool" where
  "is_limit f = (ff_type f = ''LIMIT'' \<or> ff_type f = ''SL'')"

definition is_stop :: "futures_form \<Rightarrow> bool" where
  "is_stop f = (ff_type f = ''SL'' \<or> ff_type f = ''SL-M'')"

definition form_lot_size :: "jsval \<Rightarrow> jsnum" where
  "form_lot_size contract = to_number (js_or (field contract ''lot_size'') (JNum (Fin 1)))"

definition form_quantity :: "jsval \<Rightarrow> futures_form \<Rightarrow> jsnum" where
  "form_quantity contract f = math_max (Fin 1) (ff_lots f) * form_lot_size contract"

definition futures_form_price :: "jsval \<Rightarrow> futures_form \<Rightarrow> jsnum" where
  "futures_form_price quote f =
     (if is_limit f then number_of_string (ff_limit f)
      else case page_price quote of Some p \<Rightarrow> num_or p (Fin 0) | None \<Rightarrow> Fin 0)"

definition form_value :: "jsval \<Rightarrow> jsval \<Rightarrow> futures_form \<Rightarrow> jsnum" where
  "form_value contract quote f = form_quantity contract f * futures_form_price quote f"

text \<open>The margin that is shown: the last answer, and twelve hundredths of the value before there is one.\<close>

definition required_margin :: "jsval \<Rightarrow> jsval \<Rightarrow> futures_form \<Rightarrow> jsval" where
  "required_margin contract quote f =
     nullish (field (ff_margin f) ''total_margin'') (JNum (form_value contract quote f * lit (12 / 100)))"

text \<open>The question for the margin, asked 300 milliseconds after a change; \<open>gone\<close> is true where the form has changed since.\<close>

definition margin_question :: "string \<Rightarrow> jsval \<Rightarrow> jsval \<Rightarrow> futures_form \<Rightarrow> (string \<times> jsnum \<times> jsnum) option" where
  "margin_question cn contract quote f =
     (let p = futures_form_price quote f in
      if cn = [] \<or> num_or p (Fin 0) = Fin 0 \<or> p \<le> Fin 0 then None else Some (cn, form_quantity contract f, p))"

definition futures_margin_answered :: "bool \<Rightarrow> jsval option \<Rightarrow> futures_form \<Rightarrow> futures_form" where
  "futures_margin_answered gone answer f =
     (case answer of Some d \<Rightarrow> if \<not> gone \<and> truthy d then f\<lparr> ff_margin := d \<rparr> else f | None \<Rightarrow> f)"

text \<open>A new contract with a price fills both prices.\<close>

definition contract_selected :: "jsval \<Rightarrow> futures_form \<Rightarrow> futures_form" where
  "contract_selected quote f =
     (case page_price quote of
        Some p \<Rightarrow> if num_eq p (Fin 0) then f else f\<lparr> ff_limit := to_fixed 2 p, ff_trigger := to_fixed 2 p \<rparr>
      | None \<Rightarrow> f)"

definition change_futures_lots :: "string \<Rightarrow> futures_form \<Rightarrow> futures_form" where
  "change_futures_lots text f = f\<lparr> ff_lots := math_max (Fin 1) (num_or (parse_int text) (Fin 1)) \<rparr>"

definition step_lots :: "bool \<Rightarrow> futures_form \<Rightarrow> futures_form" where
  "step_lots up f = f\<lparr> ff_lots := (if up then ff_lots f + Fin 1 else math_max (Fin 1) (ff_lots f - Fin 1)) \<rparr>"

datatype futures_error = FuturesClosed | NoContract | NoLimitPrice | NoTriggerPrice

record futures_order =
  fo_contract :: string
  fo_side :: string
  fo_type :: string
  fo_quantity :: jsnum
  fo_price :: jsnum
  fo_trigger :: "jsnum option"

definition api_order_type :: "string \<Rightarrow> string" where
  "api_order_type t = (if t = ''SL'' then ''STOP_LOSS_LIMIT'' else if t = ''SL-M'' then ''STOP_LOSS'' else t)"

definition no_positive_price :: "jsnum \<Rightarrow> bool" where
  "no_positive_price p = (num_or p (Fin 0) = Fin 0 \<or> p \<le> Fin 0)"

definition futures_order_of :: "bool \<Rightarrow> string \<Rightarrow> jsval \<Rightarrow> jsval \<Rightarrow> futures_form \<Rightarrow> futures_error + futures_order" where
  "futures_order_of market_open cn contract quote f =
     (if \<not> market_open then Inl FuturesClosed
      else if cn = [] then Inl NoContract
      else if is_limit f \<and> no_positive_price (futures_form_price quote f) then Inl NoLimitPrice
      else if is_stop f \<and> no_positive_price (number_of_string (ff_trigger f)) then Inl NoTriggerPrice
      else Inr \<lparr> fo_contract = cn, fo_side = ff_side f, fo_type = api_order_type (ff_type f), fo_quantity = form_quantity contract f,
        fo_price = num_or (futures_form_price quote f) (Fin 0), fo_trigger = (if is_stop f then Some (number_of_string (ff_trigger f)) else None) \<rparr>)"

definition begin_futures_order ::
  "bool \<Rightarrow> string \<Rightarrow> jsval \<Rightarrow> jsval \<Rightarrow> futures_form \<Rightarrow> futures_form \<times> (futures_error + futures_order)" where
  "begin_futures_order market_open cn contract quote f =
     (let r = futures_order_of market_open cn contract quote f
      in (case r of Inl _ \<Rightarrow> f | Inr _ \<Rightarrow> f\<lparr> ff_submitting := True \<rparr>, r))"

text \<open>After the order: the answers of the refresh, and the profit of the positions counted again.\<close>

definition futures_order_placed :: "jsnum \<Rightarrow> jsval option \<Rightarrow> jsval option \<Rightarrow> futures_form \<times> futures_page \<Rightarrow> futures_form \<times> futures_page" where
  "futures_order_placed now orders positions st =
     ((fst st)\<lparr> ff_submitting := False \<rparr>,
      on_store (\<lambda>s. case positions of
          None \<Rightarrow> take_orders orders s
        | Some _ \<Rightarrow> recalculate_live_pnl now (take_positions positions (take_orders orders s))) (snd st))"

definition futures_order_failed :: "futures_form \<Rightarrow> futures_form" where
  "futures_order_failed f = f\<lparr> ff_submitting := False \<rparr>"

section \<open>Lemmas on history\<close>

lemma on_store_simps [simp]:
  "fp_store (on_store f s) = f (fp_store s)" "fp_cache (on_store f s) = fp_cache s" "fp_interval (on_store f s) = fp_interval s"
  "fp_chart_ltp (on_store f s) = fp_chart_ltp s" "fp_added (on_store f s) = fp_added s" "fp_kill (on_store f s) = fp_kill s"
  by (simp_all add: on_store_def)

lemma chart_simps [simp]:
  "fh_candles (fs_chart (set_chart_loading b st)) = fh_candles (fs_chart st)" "fh_candles (fs_chart (set_candles cs st)) = cs"
  "fh_loading (fs_chart (set_chart_loading b st)) = b" "fs_contracts (set_chart_loading b st) = fs_contracts st"
  "fs_contracts (set_candles cs st) = fs_contracts st"
  by (simp_all add: set_chart_loading_def set_candles_def)

definition shown_candles :: "futures_page \<Rightarrow> jsval list" where
  "shown_candles s = fh_candles (fs_chart (fp_store s))"

lemma history_shown:
  assumes "futures_candles date_parse now rows \<noteq> []"
  shows "shown_candles (history_answered date_parse now q rows s) = map candle_value (futures_candles date_parse now rows)"
  using assms by (simp add: history_answered_def show_history_def shown_candles_def Let_def)

text \<open>
  The answer of a request is shown whatever contract is selected when it comes: where the one of the contract before comes last,
  the chart of the new contract shows its candles.
\<close>

lemma late_history_wins:
  assumes "futures_candles date_parse t1 rows1 \<noteq> []" "futures_candles date_parse t2 rows2 \<noteq> []"
    and "fetch_history now c1 iv s = (s1, Some q1)" "choose_contract (JStr c2) s1 = (s2, u)" "fetch_history now c2 iv s2 = (s3, Some q2)"
  shows "shown_candles (history_answered date_parse t1 q1 rows1 (history_answered date_parse t2 q2 rows2 s3))
    = map candle_value (futures_candles date_parse t1 rows1)"
  by (rule history_shown [OF assms(1)])

text \<open>The history that came is shown again at once, as long as it is not too old.\<close>

lemma history_restored:
  assumes "futures_candles date_parse now rows = cs" "cs \<noteq> []" "hq_contract q = c" "hq_interval q = api_interval iv" "c \<noteq> []"
    and "\<not> futures_cache_ttl < later - now"
  shows "shown_candles (fst (fetch_history later c iv (history_answered date_parse now q rows s))) = map candle_value cs"
proof -
  let ?s = "history_answered date_parse now q rows s"
  have "map_of (fp_cache ?s) (futures_cache_key c (api_interval iv)) = Some (cs, now)"
    using assms(1-4) by (simp add: history_answered_def show_history_def Let_def update_conv')
  then have "cached_history later c (api_interval iv) (fp_cache ?s) = Some cs" using assms(2,6) by (simp add: cached_history_def)
  then show ?thesis using assms(5) by (simp add: fetch_history_def Let_def shown_candles_def show_history_def)
qed

text \<open>A request that fails, or an answer without candles, never empties the chart.\<close>

lemma failed_history_keeps:
  assumes "shown_candles s \<noteq> []"
  shows "shown_candles (history_failed q s) \<noteq> []"
    and "futures_candles date_parse now rows = [] \<Longrightarrow> shown_candles (history_answered date_parse now q rows s) \<noteq> []"
  using assms by (auto simp: history_failed_def history_answered_def show_stale_def show_history_def shown_candles_def Let_def)

text \<open>But the candles of the contract before stay on the chart of a contract whose history fails.\<close>

lemma old_candles_stay:
  assumes "fetch_history now c iv s = (s', Some q)" "stale_history q s' = []" "cached_history now c (api_interval iv) (fp_cache s) = None"
  shows "shown_candles (history_failed q s') = shown_candles s"
  using assms by (auto simp: fetch_history_def history_failed_def show_stale_def shown_candles_def Let_def split: if_splits)

section \<open>Lemmas on contracts\<close>

lemma longest_underlying:
  "underlying_of_contract ''NIFTYNXT5025JULFUT'' = Some ''NIFTYNXT50''" "underlying_of_contract ''NIFTY25JULFUT'' = Some ''NIFTY''"
  "underlying_of_contract ''NIFTYIT25JULFUT'' = None"
  by (simp_all add: underlying_of_contract_def known_underlyings_def starts_with_def is_digit_def)

text \<open>An underlying that is found is a prefix that ends before a digit, and one of those known.\<close>

lemma underlying_is_prefix:
  assumes "underlying_of_contract sy = Some b"
  shows "b \<in> set known_underlyings \<and> (\<exists>c rest. sy = b @ c # rest \<and> is_digit c)"
proof -
  have f: "b \<in> set known_underlyings" "starts_with sy b" "case drop (length b) sy of c # _ \<Rightarrow> is_digit c | [] \<Rightarrow> False"
    using assms by (auto simp: underlying_of_contract_def find_Some_iff)
  then obtain c rest where "drop (length b) sy = c # rest" "is_digit c" by (auto split: list.splits)
  moreover have "sy = b @ drop (length b) sy" using f(2) by (metis append_take_drop_id starts_with_def)
  ultimately show ?thesis using f(1) by auto
qed

text \<open>
  The contracts of an underlying that come late select their first contract, also where the user has chosen another one since.
\<close>

lemma set_contracts_selected [simp]: "fc_contract (fs_contracts (set_contracts u cs st)) = fc_contract (fs_contracts st)"
  "fc_contract (fs_contracts (set_contracts_loading b st)) = fc_contract (fs_contracts st)"
  by (simp_all add: set_contracts_def set_contracts_loading_def Let_def)

lemma symbol_text_again: "symbol_text (JStr (symbol_text v)) = symbol_text v"
  using trim_upper_idem by (simp add: symbol_text_def js_or_def trim_def trim_left_def upper_def)

lemma late_contracts_select:
  assumes "symbol_text (contract_name c) \<noteq> []"
  shows "fc_contract (fs_contracts (fp_store (underlying_answered u (c # cs) s))) = Some (symbol_text (contract_name c))"
  using assms by (simp add: underlying_answered_def Let_def select_contract_def symbol_text_again)

text \<open>Every load of the page asks for the contracts of NIFTY and so adds the first of them to the watchlist again.\<close>

lemma load_adds_first:
  assumes "symbol_text (contract_name c) \<noteq> []"
  shows "fp_added (underlying_answered ''NIFTY'' (c # cs) s) = fp_added s @ [symbol_text (contract_name c)]"
  using assms by (simp add: underlying_answered_def Let_def)

section \<open>Lemmas on orders and positions\<close>

lemma placed_futures_order:
  assumes "futures_order_of market_open cn contract quote f = Inr o1"
  shows "market_open \<and> fo_contract o1 = cn \<and> cn \<noteq> [] \<and> (is_limit f \<longrightarrow> Fin 0 < fo_price o1) \<and> (is_stop f \<longleftrightarrow> fo_trigger o1 \<noteq> None)
    \<and> (\<forall>t. fo_trigger o1 = Some t \<longrightarrow> Fin 0 < t)"
proof -
  have p: "\<not> no_positive_price x \<Longrightarrow> Fin 0 < num_or x (Fin 0) \<and> Fin 0 < x" for x
    by (cases x) (auto simp: no_positive_price_def num_or_def)
  show ?thesis using assms p by (auto simp: futures_order_of_def split: if_splits)
qed

text \<open>
  The page sends a stop with a limit as STOP_LOSS_LIMIT and one without as STOP_LOSS; the orders page shows the first as SL-M and the
  second as SL, the other way round than it was chosen.
\<close>

lemma stop_labels_swapped:
  "order_type_label (JStr (api_order_type ''SL'')) = ''SL-M''" "order_type_label (JStr (api_order_type ''SL-M'')) = ''SL''"
  by (simp_all add: order_type_label_def upper_of_def api_order_type_def text_of_def js_or_def upper_def upper_char_def)

text \<open>The margin of an earlier form stays on show until an answer comes, and for good where the request fails.\<close>

lemma stale_margin_shown:
  assumes "\<not> is_nullish (field (ff_margin f) ''total_margin'')"
  shows "required_margin contract quote (futures_margin_answered gone None (f\<lparr> ff_lots := n, ff_type := t, ff_limit := p \<rparr>))
    = field (ff_margin f) ''total_margin''"
  using assms by (simp add: required_margin_def futures_margin_answered_def nullish_def)

lemma lots_never_below_one: "Fin 1 \<le> ff_lots (change_futures_lots text f)" "ff_lots f \<noteq> NaN \<Longrightarrow> Fin 1 \<le> ff_lots (step_lots False f)"
proof -
  have m: "x \<noteq> NaN \<Longrightarrow> Fin 1 \<le> math_max (Fin 1) x" for x using le_jsnum_total [of x "Fin 1"] by (auto simp: math_max_def)
  have "num_or x (Fin 1) \<noteq> NaN" for x by (simp add: num_or_def)
  then show "Fin 1 \<le> ff_lots (change_futures_lots text f)" by (simp add: change_futures_lots_def m)
  show "ff_lots f \<noteq> NaN \<Longrightarrow> Fin 1 \<le> ff_lots (step_lots False f)"
    by (cases "ff_lots f") (simp_all add: step_lots_def m minus_jsnum_def)
qed

lemma desk_pnl_total:
  "desk_total_pnl quotes ps = foldl (\<lambda>sum pos. case desk_pnl quotes pos of
      Some v \<Rightarrow> if is_finite (desk_price quotes pos) then sum + v else sum | None \<Rightarrow> sum) (Fin 0) ps"
  unfolding desk_total_pnl_def by (rule foldl_cong) (auto simp: desk_pnl_def Let_def)

end
