(* ===== verification/AlgoDesk.thy ===== *)
theory AlgoDesk
  imports WatchlistStore Sorting
begin

text \<open>
  The page of the algorithmic strategies, \<open>frontend/src/pages/AlgoTradingPage.jsx\<close>: the parameters of a strategy and how
  they are brought into bounds, the requests that create and update one, the formats, the geometry of the chart, and the page
  with its four answers. The markup is not modelled; \<open>locale_num\<close> is \<open>toLocaleString\<close> with two decimals.
\<close>

section \<open>Parameters\<close>

record param_field =
  pf_key :: string
  pf_step :: bool
  pf_default :: jsnum
  pf_min :: jsnum
  pf_max :: jsnum

definition whole_field :: "string \<Rightarrow> int \<Rightarrow> int \<Rightarrow> int \<Rightarrow> param_field" where
  "whole_field k d lo hi = \<lparr> pf_key = k, pf_step = False, pf_default = Fin (of_int d), pf_min = Fin (of_int lo), pf_max = Fin (of_int hi) \<rparr>"

text \<open>A field with steps of a tenth; its default and bounds are tenths.\<close>

definition step_field :: "string \<Rightarrow> int \<Rightarrow> int \<Rightarrow> int \<Rightarrow> param_field" where
  "step_field k d lo hi = \<lparr> pf_key = k, pf_step = True, pf_default = lit (of_int d / 10), pf_min = lit (of_int lo / 10), pf_max = lit (of_int hi / 10) \<rparr>"

definition strategy_fields :: "(string \<times> param_field list) list" where
  "strategy_fields =
     [(''SMA_CROSSOVER'', [whole_field ''short_period'' 10 2 100, whole_field ''long_period'' 20 5 200]),
      (''RSI'', [whole_field ''period'' 14 2 50, whole_field ''oversold'' 30 10 45, whole_field ''overbought'' 70 55 90]),
      (''MACD'', [whole_field ''fast_period'' 12 2 50, whole_field ''slow_period'' 26 10 100, whole_field ''signal_period'' 9 2 30]),
      (''BOLLINGER'', [whole_field ''period'' 20 5 50, step_field ''std_dev'' 20 5 40]),
      (''EMA_CROSSOVER'', [whole_field ''fast_period'' 9 2 50, whole_field ''slow_period'' 21 5 100]),
      (''VWAP_BOUNCE'', [step_field ''bounce_threshold'' 2 1 10]),
      (''SUPERTREND'', [whole_field ''atr_period'' 10 5 50, step_field ''multiplier'' 30 10 60]),
      (''ATR_BREAKOUT'', [whole_field ''period'' 14 5 50, step_field ''breakout_multiplier'' 12 5 30]),
      (''STOCHASTIC_REVERSION'', [whole_field ''k_period'' 14 5 30, whole_field ''d_period'' 3 2 10, whole_field ''oversold'' 20 5 40,
         whole_field ''overbought'' 80 60 95])]"

definition fields_of_type :: "string \<Rightarrow> param_field list" where
  "fields_of_type t = (case map_of strategy_fields t of Some fs \<Rightarrow> fs | None \<Rightarrow> [])"

definition clamp :: "jsnum \<Rightarrow> jsnum \<Rightarrow> jsnum \<Rightarrow> jsnum" where
  "clamp v lo hi = math_max lo (math_min hi v)"

definition parse_numeric_input :: "jsval \<Rightarrow> jsnum \<Rightarrow> jsnum \<Rightarrow> jsnum \<Rightarrow> nat option \<Rightarrow> jsnum" where
  "parse_numeric_input raw fallback lo hi decimals =
     (let parsed = to_number raw; bounded = clamp (if is_finite parsed then parsed else fallback) lo hi
      in case decimals of None \<Rightarrow> math_round bounded | Some d \<Rightarrow> fixed_num d bounded)"

definition field_value :: "jsval \<Rightarrow> param_field \<Rightarrow> jsnum" where
  "field_value raw f = parse_numeric_input raw (pf_default f) (pf_min f) (pf_max f) (if pf_step f then Some 4 else None)"

type_synonym params = "(string \<times> jsnum) list"

definition param :: "params \<Rightarrow> string \<Rightarrow> jsnum" where
  "param ps k = (case map_of ps k of Some v \<Rightarrow> v | None \<Rightarrow> NaN)"

definition quantity_of :: "jsval \<Rightarrow> jsnum" where
  "quantity_of raw = parse_numeric_input raw (Fin 1) (Fin 1) (Fin 1000) None"

definition bounded_params :: "string \<Rightarrow> jsobj \<Rightarrow> params" where
  "bounded_params t ps =
     foldl (\<lambda>acc f. AList.update (pf_key f) (field_value (own ps (pf_key f)) f) acc) [(''quantity'', quantity_of (own ps ''quantity''))] (fields_of_type t)"

text \<open>Where the lower of two parameters is not below the upper one, it goes to one below it.\<close>

definition keep_below :: "string \<Rightarrow> string \<Rightarrow> jsnum \<Rightarrow> params \<Rightarrow> params" where
  "keep_below lower_key upper_key least ps =
     (if param ps upper_key \<le> param ps lower_key then AList.update lower_key (math_max least (param ps upper_key - Fin 1)) ps else ps)"

definition sanitize_params :: "string \<Rightarrow> jsobj \<Rightarrow> params" where
  "sanitize_params t ps =
     (let s = bounded_params t ps;
          s = (if t = ''SMA_CROSSOVER'' then keep_below ''short_period'' ''long_period'' (Fin 2) s else s);
          s = (if t = ''EMA_CROSSOVER'' then keep_below ''fast_period'' ''slow_period'' (Fin 2) s else s);
          s = (if t = ''MACD'' then keep_below ''fast_period'' ''slow_period'' (Fin 2) s else s)
      in if t = ''RSI'' \<or> t = ''STOCHASTIC_REVERSION'' then keep_below ''oversold'' ''overbought'' (Fin 5) s else s)"

definition default_params :: "string \<Rightarrow> params" where
  "default_params t = foldl (\<lambda>acc f. AList.update (pf_key f) (pf_default f) acc) [(''quantity'', Fin 1)] (fields_of_type t)"

definition params_value :: "params \<Rightarrow> jsobj" where
  "params_value ps = map (\<lambda>(k, v). (k, JNum v)) ps"

text \<open>The field of the form at each key: it is brought into its bounds at once.\<close>

definition type_param :: "param_field \<Rightarrow> string \<Rightarrow> jsobj \<Rightarrow> jsobj" where
  "type_param f text ps = set_field (pf_key f) (JNum (field_value (JStr text) f)) ps"

section \<open>Forms and requests\<close>

record strategy_form =
  sf_name :: jsval
  sf_type :: jsval
  sf_symbol :: jsval
  sf_description :: jsval
  sf_size :: jsval
  sf_stop :: jsval
  sf_target :: jsval
  sf_params :: jsobj

definition initial_strategy_form :: strategy_form where
  "initial_strategy_form =
     \<lparr> sf_name = JStr [], sf_type = JStr ''SMA_CROSSOVER'', sf_symbol = JStr ''RELIANCE'', sf_description = JStr [],
       sf_size = JNum (Fin 100), sf_stop = JNum (Fin 2), sf_target = JNum (Fin 5), sf_params = params_value (default_params ''SMA_CROSSOVER'') \<rparr>"

definition change_type :: "string \<Rightarrow> strategy_form \<Rightarrow> strategy_form" where
  "change_type t f = f\<lparr> sf_type := JStr t, sf_params := params_value (default_params t) \<rparr>"

record strategy_payload =
  sp_name :: string
  sp_type :: string
  sp_symbol :: string
  sp_description :: string
  sp_size :: jsnum
  sp_stop :: jsnum
  sp_target :: jsnum
  sp_params :: params

definition create_payload :: "strategy_form \<Rightarrow> strategy_payload" where
  "create_payload f =
     (let t = upper (to_string (js_or (sf_type f) (JStr ''SMA_CROSSOVER''))) in
      \<lparr> sp_name = trim (text_of (sf_name f)), sp_type = t, sp_symbol = upper (trim (text_of (sf_symbol f))),
        sp_description = trim (text_of (sf_description f)),
        sp_size = parse_numeric_input (sf_size f) (Fin 100) (Fin 1) (Fin 100000) None,
        sp_stop = parse_numeric_input (sf_stop f) (Fin 2) (lit (1 / 10)) (Fin 50) (Some 2),
        sp_target = parse_numeric_input (sf_target f) (Fin 5) (lit (1 / 10)) (Fin 200) (Some 2),
        sp_params = sanitize_params t (sf_params f) \<rparr>)"

text \<open>The request of an update leaves the type and the symbol out.\<close>

definition update_payload :: "string \<Rightarrow> strategy_form \<Rightarrow> strategy_payload" where
  "update_payload t f =
     (create_payload f)\<lparr> sp_type := [], sp_symbol := [], sp_params := sanitize_params t (sf_params f) \<rparr>"

datatype create_error = NameMissing | SymbolMissing

definition submit_create :: "strategy_form \<Rightarrow> create_error + strategy_payload" where
  "submit_create f =
     (let p = create_payload f in if sp_name p = [] then Inl NameMissing else if sp_symbol p = [] then Inl SymbolMissing else Inr p)"

definition edit_form :: "jsval \<Rightarrow> strategy_form" where
  "edit_form s =
     (let t = to_string (field s ''strategy_type'') in
      \<lparr> sf_name = field s ''name'', sf_type = field s ''strategy_type'', sf_symbol = Undefined,
        sf_description = js_or (field s ''description'') (JStr []), sf_size = field s ''max_position_size'',
        sf_stop = field s ''stop_loss_percent'', sf_target = field s ''take_profit_percent'',
        sf_params = spread (params_value (default_params t)) (fields_of (field s ''parameters'')) \<rparr>)"

text \<open>The message of an error: its details where they are a list or a text, its own message, or the fallback.\<close>

definition algo_error :: "string \<Rightarrow> jsval \<Rightarrow> string" where
  "algo_error fallback err =
     (let detail = field (field (field err ''response'') ''data'') ''detail'' in
      case detail of
        JArr ds \<Rightarrow> (let m = join '', '' (map to_string (filter truthy (map (\<lambda>d. field d ''msg'') ds))) in if m = [] then fallback else m)
      | _ \<Rightarrow>
          (case detail of
             JStr d \<Rightarrow> if trim d \<noteq> [] then d else (case field err ''message'' of JStr m \<Rightarrow> if trim m \<noteq> [] then m else fallback | _ \<Rightarrow> fallback)
           | _ \<Rightarrow> (case field err ''message'' of JStr m \<Rightarrow> if trim m \<noteq> [] then m else fallback | _ \<Rightarrow> fallback)))"

section \<open>Formats and the chart\<close>

definition fmt_pnl :: "(jsnum \<Rightarrow> string) \<Rightarrow> jsval \<Rightarrow> string" where
  "fmt_pnl locale_num v =
     (let n = num_or (to_number v) (Fin 0) in (if Fin 0 \<le> n then ''+'' else []) @ ''Rs'' @ locale_num \<bar>n\<bar>)"

definition fmt_compact :: "jsval \<Rightarrow> string" where
  "fmt_compact v =
     (let n = num_or (to_number v) (Fin 0); a = \<bar>n\<bar>; sign = (if n < Fin 0 then ''-'' else []) in
      if Fin 10000000 \<le> a then sign @ ''Rs'' @ to_fixed 2 (a / Fin 10000000) @ ''Cr''
      else if Fin 100000 \<le> a then sign @ ''Rs'' @ to_fixed 2 (a / Fin 100000) @ ''L''
      else if Fin 1000 \<le> a then sign @ ''Rs'' @ to_fixed 1 (a / Fin 1000) @ ''K''
      else sign @ ''Rs'' @ to_fixed 2 a)"

definition pnl_percent :: "jsnum \<Rightarrow> jsnum" where
  "pnl_percent tot = tot / (\<bar>tot\<bar> + Fin 1) * Fin 100"

record pnl_scale =
  px_min :: jsnum
  px_range :: jsnum
  px_count :: nat

definition pnl_scale_of :: "jsnum list \<Rightarrow> pnl_scale" where
  "pnl_scale_of vs =
     (let hi = foldl math_max (Fin 0) vs; lo = foldl math_min (Fin 0) vs
      in \<lparr> px_min = lo, px_range = num_or (hi - lo) (Fin 1), px_count = length vs \<rparr>)"

definition pnl_x :: "pnl_scale \<Rightarrow> nat \<Rightarrow> jsnum" where
  "pnl_x s i = Fin 56 + num_of_nat i / math_max (num_of_int (int (px_count s) - 1)) (Fin 1) * Fin 448"

definition pnl_y :: "pnl_scale \<Rightarrow> jsnum \<Rightarrow> jsnum" where
  "pnl_y s v = Fin 152 - (v - px_min s) / px_range s * Fin 140"

section \<open>The page\<close>

record algo_page =
  al_strategies :: "jsval list"
  al_stats :: jsval
  al_chart :: jsval
  al_range :: string
  al_signals :: "jsval list"
  al_loading :: bool
  al_new :: bool
  al_edit :: jsval
  al_logs :: "(jsval \<times> jsval list) option"

definition empty_chart :: jsval where
  "empty_chart = JObj [(''labels'', JArr []), (''values'', JArr [])]"

definition new_algo_page :: algo_page where
  "new_algo_page = \<lparr> al_strategies = [], al_stats = JNull, al_chart = empty_chart, al_range = ''1W'', al_signals = [], al_loading = True,
     al_new = False, al_edit = JNull, al_logs = None \<rparr>"

text \<open>The four answers; \<open>None\<close> is one that failed. An answer without a body throws, and the ones after it are not taken.\<close>

definition algo_list :: "string \<Rightarrow> jsval \<Rightarrow> jsval list" where
  "algo_list k d = elements (js_or (field d k) (JArr []))"

definition take_strategies :: "jsval option \<Rightarrow> algo_page \<Rightarrow> algo_page" where
  "take_strategies a s = (case a of Some d \<Rightarrow> s\<lparr> al_strategies := algo_list ''strategies'' d \<rparr> | None \<Rightarrow> s)"

definition take_stats :: "jsval option \<Rightarrow> algo_page \<Rightarrow> algo_page" where
  "take_stats a s = (case a of Some d \<Rightarrow> s\<lparr> al_stats := d \<rparr> | None \<Rightarrow> s)"

definition take_chart :: "jsval option \<Rightarrow> algo_page \<Rightarrow> algo_page" where
  "take_chart a s = (case a of Some d \<Rightarrow> s\<lparr> al_chart := js_or d empty_chart \<rparr> | None \<Rightarrow> s)"

definition take_signals :: "jsval option \<Rightarrow> algo_page \<Rightarrow> algo_page" where
  "take_signals a s = (case a of Some d \<Rightarrow> s\<lparr> al_signals := algo_list ''signals'' d \<rparr> | None \<Rightarrow> s)"

definition bodiless :: "jsval option \<Rightarrow> bool" where
  "bodiless a = (case a of Some d \<Rightarrow> is_nullish d | None \<Rightarrow> False)"

definition algo_loaded :: "jsval option \<Rightarrow> jsval option \<Rightarrow> jsval option \<Rightarrow> jsval option \<Rightarrow> algo_page \<Rightarrow> algo_page" where
  "algo_loaded strategies stats chart signals s =
     (if bodiless strategies then s
      else
        let s = take_chart chart (take_stats stats (take_strategies strategies s))
        in if bodiless signals then s else take_signals signals s)\<lparr> al_loading := False \<rparr>"

definition choose_range :: "string \<Rightarrow> algo_page \<Rightarrow> algo_page" where
  "choose_range r s = s\<lparr> al_range := r \<rparr>"

definition range_answered :: "jsval option \<Rightarrow> algo_page \<Rightarrow> algo_page" where
  "range_answered a s = take_chart a s"

definition strategy_updated :: "algo_page \<Rightarrow> algo_page" where
  "strategy_updated s = s\<lparr> al_edit := JNull \<rparr>"

definition strategy_created :: "jsval \<Rightarrow> algo_page \<Rightarrow> algo_page" where
  "strategy_created data s =
     (let c = field data ''strategy'' in
      s\<lparr> al_new := False, al_strategies := if truthy (field c ''id'') then c # al_strategies s else al_strategies s \<rparr>)"

definition logs_answered :: "jsval \<Rightarrow> jsval \<Rightarrow> algo_page \<Rightarrow> algo_page" where
  "logs_answered i data s =
     (let found = find (\<lambda>x. \<not> strict_neq (field x ''id'') i) (al_strategies s);
          nm = js_or (case found of Some x \<Rightarrow> field x ''name'' | None \<Rightarrow> Undefined) (JStr ''Strategy'')
      in s\<lparr> al_logs := Some (nm, algo_list ''logs'' data) \<rparr>)"

definition active_strategies :: "algo_page \<Rightarrow> jsval list" where
  "active_strategies s = filter (\<lambda>x. truthy (field x ''is_active'')) (al_strategies s)"

definition top_performers :: "algo_page \<Rightarrow> jsval list" where
  "top_performers s =
     take 5 (sort_by (\<lambda>a b. Fin 0 < to_number (field b ''total_pnl'') - to_number (field a ''total_pnl'')) (al_strategies s))"

definition timeframes :: "(string \<times> string) list" where
  "timeframes = [(''SMA_CROSSOVER'', ''Swing''), (''MACD'', ''Swing''), (''RSI'', ''Intraday''), (''EMA_CROSSOVER'', ''Intraday''),
     (''VWAP_BOUNCE'', ''Intraday''), (''ATR_BREAKOUT'', ''Intraday''), (''STOCHASTIC_REVERSION'', ''Intraday''),
     (''BOLLINGER'', ''Positional''), (''SUPERTREND'', ''Positional'')]"

definition timeframe_of :: "jsval \<Rightarrow> string" where
  "timeframe_of s = (case map_of timeframes (to_string (field s ''strategy_type'')) of Some t \<Rightarrow> t | None \<Rightarrow> ''Intraday'')"

definition count_timeframe :: "(string \<times> nat) list \<Rightarrow> jsval \<Rightarrow> (string \<times> nat) list" where
  "count_timeframe counts s =
     (let t = timeframe_of s in AList.update t ((case map_of counts t of Some n \<Rightarrow> n | None \<Rightarrow> 0) + 1) counts)"

definition donut_counts :: "algo_page \<Rightarrow> (string \<times> nat) list" where
  "donut_counts s = foldl count_timeframe [] (al_strategies s)"

definition donut_percent :: "algo_page \<Rightarrow> nat \<Rightarrow> jsnum" where
  "donut_percent s n = math_round (num_of_nat n / (if al_strategies s = [] then Fin 1 else num_of_nat (length (al_strategies s))) * Fin 100)"

section \<open>What the parameters promise\<close>

lemma clamp_between: "lo \<le> hi \<Longrightarrow> v \<noteq> NaN \<Longrightarrow> lo \<le> clamp v lo hi \<and> clamp v lo hi \<le> hi"
  using le_jsnum_not_NaN [of lo hi] math_min_le [of hi v] math_max_ge [of lo "math_min hi v"]
  by (auto simp: clamp_def intro: math_max_le)

lemma fallback_number: "fallback \<noteq> NaN \<Longrightarrow> (if is_finite x then x else fallback) \<noteq> NaN"
  by auto

lemma whole_input:
  assumes "lo \<le> hi" "fallback \<noteq> NaN"
  shows "\<exists>n. parse_numeric_input raw fallback (Fin (of_int lo)) (Fin (of_int hi)) None = Fin (of_int n) \<and> lo \<le> n \<and> n \<le> hi"
proof -
  define v where "v = clamp (if is_finite (to_number raw) then to_number raw else fallback) (Fin (of_int lo)) (Fin (of_int hi))"
  have "Fin (of_int lo) \<le> v \<and> v \<le> Fin (of_int hi)" unfolding v_def
    by (rule clamp_between) (simp add: assms(1), rule fallback_number [OF assms(2)])
  then have v: "Fin (of_int lo) \<le> v" "v \<le> Fin (of_int hi)" by auto
  then obtain r where r: "v = Fin r" by (cases v) auto
  have "Fin (of_int lo) \<le> math_round v" "math_round v \<le> Fin (of_int hi)" using math_round_between [OF v] by auto
  then show ?thesis unfolding parse_numeric_input_def Let_def option.case v_def [symmetric] by (auto simp: r)
qed

lemma fixed_input:
  assumes "0 \<le> a" "a \<le> b" "b < 10 ^ 21" "fallback \<noteq> NaN"
  shows "fixed_num d (Fin a) \<le> parse_numeric_input raw fallback (Fin a) (Fin b) (Some d) \<and>
    parse_numeric_input raw fallback (Fin a) (Fin b) (Some d) \<le> fixed_num d (Fin b)"
proof -
  define v where "v = clamp (if is_finite (to_number raw) then to_number raw else fallback) (Fin a) (Fin b)"
  have "Fin a \<le> v \<and> v \<le> Fin b" unfolding v_def
    by (rule clamp_between) (simp add: assms(2), rule fallback_number [OF assms(4)])
  then have v: "Fin a \<le> v" "v \<le> Fin b" by auto
  then obtain r where r: "v = Fin r" by (cases v) auto
  with v assms show ?thesis unfolding parse_numeric_input_def Let_def option.case v_def [symmetric]
    by (auto intro: fixed_num_mono simp del: fixed_num.simps)
qed

text \<open>A field whose bounds are in order and are values of the field itself.\<close>

definition sound_field :: "param_field \<Rightarrow> bool" where
  "sound_field f =
     (case (pf_min f, pf_max f) of
        (Fin a, Fin b) \<Rightarrow> 0 \<le> a \<and> a \<le> b \<and> b < 10 ^ 21 \<and> pf_min f \<le> pf_default f \<and> pf_default f \<le> pf_max f \<and>
          (if pf_step f then fixed_num 4 (Fin a) = Fin a \<and> fixed_num 4 (Fin b) = Fin b
           else of_int \<lfloor>a\<rfloor> = a \<and> of_int \<lfloor>b\<rfloor> = b)
      | _ \<Rightarrow> False)"

lemma tenth: "rnd (1 / 10) = Fin (3602879701896397 / 36028797018963968)"
  by (subst rnd_with_exp [where e = "- 56"]) (simp_all add: power_int_def rne_def Let_def power_divide js_eval)

lemma fifth: "rnd (1 / 5) = Fin (3602879701896397 / 18014398509481984)"
  by (subst rnd_with_exp [where e = "- 55"]) (simp_all add: power_int_def rne_def Let_def power_divide js_eval)

lemma six_fifths: "rnd (6 / 5) = Fin (5404319552844595 / 4503599627370496)"
  by (subst rnd_with_exp [where e = "- 52"]) (simp_all add: power_int_def rne_def Let_def power_divide js_eval)

lemma sound_whole: "lo \<le> d \<Longrightarrow> d \<le> hi \<Longrightarrow> 0 \<le> lo \<Longrightarrow> hi \<le> 1000 \<Longrightarrow> sound_field (whole_field k d lo hi)"
  by (simp add: sound_field_def whole_field_def)

lemma sound_steps:
  "sound_field (step_field k 20 5 40)" "sound_field (step_field k 2 1 10)" "sound_field (step_field k 30 10 60)"
  "sound_field (step_field k 12 5 30)"
  by (simp_all add: sound_field_def step_field_def fixed_int_def tenth fifth six_fifths js_eval)

lemma every_field_sound: "list_all (list_all sound_field) (map snd strategy_fields)"
  by (simp add: strategy_fields_def sound_whole sound_steps)

text \<open>Whatever the form holds, a parameter that is sent is within the bounds of its field.\<close>

lemma field_value_bounds:
  assumes "sound_field f"
  shows "pf_min f \<le> field_value raw f \<and> field_value raw f \<le> pf_max f"
proof -
  obtain a b where ab: "pf_min f = Fin a" "pf_max f = Fin b" "0 \<le> a" "a \<le> b" "b < 10 ^ 21" "pf_default f \<noteq> NaN"
    using assms by (auto simp: sound_field_def split: jsnum.splits dest: le_jsnum_not_NaN)
  show ?thesis
  proof (cases "pf_step f")
    case True
    with assms ab fixed_input [of a b "pf_default f" 4 raw] show ?thesis by (simp add: field_value_def sound_field_def del: fixed_num.simps)
  next
    case False
    with assms ab have "of_int \<lfloor>a\<rfloor> = a" "of_int \<lfloor>b\<rfloor> = b" "\<lfloor>a\<rfloor> \<le> \<lfloor>b\<rfloor>" by (auto simp: sound_field_def floor_mono)
    with whole_input [of "\<lfloor>a\<rfloor>" "\<lfloor>b\<rfloor>" "pf_default f" raw] ab False show ?thesis
      by (auto simp: field_value_def)
  qed
qed

lemma strategy_field_bounds:
  assumes "(t, fs) \<in> set strategy_fields" "f \<in> set fs"
  shows "pf_min f \<le> field_value raw f \<and> field_value raw f \<le> pf_max f"
  using every_field_sound assms by (intro field_value_bounds) (auto simp: list_all_iff)

lemma whole_field_value:
  "lo \<le> hi \<Longrightarrow> \<exists>n. field_value raw (whole_field k d lo hi) = Fin (of_int n) \<and> lo \<le> n \<and> n \<le> hi"
  using whole_input [of lo hi "Fin (of_int d)" raw] by (simp add: field_value_def whole_field_def)

text \<open>Of two whole parameters the lower one ends up below the upper one, and no further down than it has to be.\<close>

lemma kept_below:
  assumes "param ps u = Fin (of_int n)" "param ps l = Fin (of_int m)" "u \<noteq> l" "c < n" "0 \<le> c" "c \<le> m" "n \<le> 1000"
  shows "param (keep_below l u (Fin (of_int c)) ps) l < param (keep_below l u (Fin (of_int c)) ps) u"
    and "Fin (of_int c) \<le> param (keep_below l u (Fin (of_int c)) ps) l"
    and "param (keep_below l u (Fin (of_int c)) ps) u = Fin (of_int n)"
proof -
  have e: "math_max (Fin (of_int c)) (Fin (of_int n) - Fin 1) = Fin (of_int (n - 1))"
    using whole_difference [of n 1] assms by (auto simp: math_max_def simp del: minus_Fin)
  have "param (keep_below l u (Fin (of_int c)) ps) l = (if n \<le> m then Fin (of_int (n - 1)) else Fin (of_int m))"
    using assms by (auto simp: keep_below_def e simp del: minus_Fin) (simp_all add: param_def update_conv')
  moreover have "param (keep_below l u (Fin (of_int c)) ps) u = Fin (of_int n)"
    using assms by (auto simp: keep_below_def e simp del: minus_Fin) (simp_all add: param_def update_conv')
  ultimately show "param (keep_below l u (Fin (of_int c)) ps) l < param (keep_below l u (Fin (of_int c)) ps) u"
    and "Fin (of_int c) \<le> param (keep_below l u (Fin (of_int c)) ps) l"
    and "param (keep_below l u (Fin (of_int c)) ps) u = Fin (of_int n)" using assms by auto
qed

text \<open>
  What is sent for a strategy: every parameter within the bounds of its field, and of two periods or two levels the
  lower one below the upper one.
\<close>

lemma updated_fields:
  assumes "distinct (map pf_key fs)"
  shows "map_of (foldl (\<lambda>acc f. AList.update (pf_key f) (v f) acc) acc fs) k =
    (case find (\<lambda>f. pf_key f = k) fs of Some f \<Rightarrow> Some (v f) | None \<Rightarrow> map_of acc k)"
  using assms
proof (induction fs arbitrary: acc)
  case (Cons f fs)
  then have "pf_key f = k \<Longrightarrow> find (\<lambda>f. pf_key f = k) fs = None" by (auto simp: find_None_iff image_iff)
  with Cons show ?case by (auto simp: update_conv' split: option.split)
qed simp

lemma field_keys: "list_all (\<lambda>(t, fs). distinct (map pf_key fs)) strategy_fields \<and> distinct (map fst strategy_fields)"
  by (simp add: strategy_fields_def whole_field_def step_field_def)

lemma find_key: "distinct (map pf_key fs) \<Longrightarrow> f \<in> set fs \<Longrightarrow> find (\<lambda>g. pf_key g = pf_key f) fs = Some f"
  by (induction fs) force+

lemma bounded_param:
  assumes "(t, fs) \<in> set strategy_fields" "f \<in> set fs"
  shows "param (bounded_params t ps) (pf_key f) = field_value (own ps (pf_key f)) f"
proof -
  have d: "distinct (map pf_key fs)" "fields_of_type t = fs" using assms(1) field_keys by (auto simp: list_all_iff fields_of_type_def)
  with assms(2) have "find (\<lambda>g. pf_key g = pf_key f) fs = Some f"
    by (intro find_key)
  with d show ?thesis by (simp add: bounded_params_def param_def updated_fields)
qed

definition paired_params :: "(string \<times> string \<times> string) list" where
  "paired_params =
     [(''SMA_CROSSOVER'', ''short_period'', ''long_period''), (''EMA_CROSSOVER'', ''fast_period'', ''slow_period''),
      (''MACD'', ''fast_period'', ''slow_period''), (''RSI'', ''oversold'', ''overbought''), (''STOCHASTIC_REVERSION'', ''oversold'', ''overbought'')]"

lemma keep_below_other: "k \<noteq> l \<Longrightarrow> param (keep_below l u c ps) k = param ps k"
  by (simp add: keep_below_def param_def update_conv')

text \<open>The fields of a pair, with the least value the lower one is taken down to.\<close>

lemma whole_value_of:
  assumes "(t, fs) \<in> set strategy_fields" "whole_field k d lo hi \<in> set fs" "lo \<le> hi"
  shows "\<exists>n. param (bounded_params t ps) k = Fin (of_int n) \<and> lo \<le> n \<and> n \<le> hi"
  using bounded_param [OF assms(1,2)] whole_field_value [OF assms(3)] by (auto simp: whole_field_def)

lemma pair_kept:
  assumes "(t, fs) \<in> set strategy_fields" "whole_field l dl lo1 hi1 \<in> set fs" "whole_field u du lo2 hi2 \<in> set fs"
    and "l \<noteq> u" "lo1 \<le> hi1" "lo2 \<le> hi2" "0 \<le> c" "c \<le> lo1" "c < lo2" "hi2 \<le> 1000"
  shows "param (keep_below l u (Fin (of_int c)) (bounded_params t ps)) l < param (keep_below l u (Fin (of_int c)) (bounded_params t ps)) u"
proof -
  obtain m n where "param (bounded_params t ps) l = Fin (of_int m)" "lo1 \<le> m" "param (bounded_params t ps) u = Fin (of_int n)"
    "lo2 \<le> n" "n \<le> hi2"
    using whole_value_of [OF assms(1,2,5)] whole_value_of [OF assms(1,3,6)] by metis
  with assms show ?thesis by (intro kept_below [of _ _ n _ m]) auto
qed

lemma sanitized_cases:
  "sanitize_params ''SMA_CROSSOVER'' ps = keep_below ''short_period'' ''long_period'' (Fin 2) (bounded_params ''SMA_CROSSOVER'' ps)"
  "sanitize_params ''EMA_CROSSOVER'' ps = keep_below ''fast_period'' ''slow_period'' (Fin 2) (bounded_params ''EMA_CROSSOVER'' ps)"
  "sanitize_params ''MACD'' ps = keep_below ''fast_period'' ''slow_period'' (Fin 2) (bounded_params ''MACD'' ps)"
  "sanitize_params ''RSI'' ps = keep_below ''oversold'' ''overbought'' (Fin 5) (bounded_params ''RSI'' ps)"
  "sanitize_params ''STOCHASTIC_REVERSION'' ps =
     keep_below ''oversold'' ''overbought'' (Fin 5) (bounded_params ''STOCHASTIC_REVERSION'' ps)"
  by (simp_all add: sanitize_params_def Let_def)

lemma paired_fields:
  "(''SMA_CROSSOVER'', [whole_field ''short_period'' 10 2 100, whole_field ''long_period'' 20 5 200]) \<in> set strategy_fields"
  "(''EMA_CROSSOVER'', [whole_field ''fast_period'' 9 2 50, whole_field ''slow_period'' 21 5 100]) \<in> set strategy_fields"
  "(''MACD'', [whole_field ''fast_period'' 12 2 50, whole_field ''slow_period'' 26 10 100, whole_field ''signal_period'' 9 2 30])
     \<in> set strategy_fields"
  "(''RSI'', [whole_field ''period'' 14 2 50, whole_field ''oversold'' 30 10 45, whole_field ''overbought'' 70 55 90]) \<in> set strategy_fields"
  "(''STOCHASTIC_REVERSION'', [whole_field ''k_period'' 14 5 30, whole_field ''d_period'' 3 2 10, whole_field ''oversold'' 20 5 40,
     whole_field ''overbought'' 80 60 95]) \<in> set strategy_fields"
  unfolding strategy_fields_def by (simp_all only: list.set insert_iff simp_thms)

lemma sanitized_ordered:
  assumes "(t, l, u) \<in> set paired_params"
  shows "param (sanitize_params t ps) l < param (sanitize_params t ps) u"
proof -
  note k = pair_kept [where c = 2 and ps = ps, simplified] pair_kept [where c = 5 and ps = ps, simplified]
  have "param (sanitize_params ''SMA_CROSSOVER'' ps) ''short_period'' < param (sanitize_params ''SMA_CROSSOVER'' ps) ''long_period''"
    unfolding sanitized_cases by (rule k(1) [OF paired_fields(1), of _ 10 2 100 _ 20 5 200]) simp_all
  moreover have "param (sanitize_params ''EMA_CROSSOVER'' ps) ''fast_period'' < param (sanitize_params ''EMA_CROSSOVER'' ps) ''slow_period''"
    unfolding sanitized_cases by (rule k(1) [OF paired_fields(2), of _ 9 2 50 _ 21 5 100]) simp_all
  moreover have "param (sanitize_params ''MACD'' ps) ''fast_period'' < param (sanitize_params ''MACD'' ps) ''slow_period''"
    unfolding sanitized_cases by (rule k(1) [OF paired_fields(3), of _ 12 2 50 _ 26 10 100]) simp_all
  moreover have "param (sanitize_params ''RSI'' ps) ''oversold'' < param (sanitize_params ''RSI'' ps) ''overbought''"
    unfolding sanitized_cases by (rule k(2) [OF paired_fields(4), of _ 30 10 45 _ 70 55 90]) simp_all
  moreover have "param (sanitize_params ''STOCHASTIC_REVERSION'' ps) ''oversold'' < param (sanitize_params ''STOCHASTIC_REVERSION'' ps) ''overbought''"
    unfolding sanitized_cases by (rule k(2) [OF paired_fields(5), of _ 20 5 40 _ 80 60 95]) simp_all
  ultimately show ?thesis using assms unfolding paired_params_def list.set by blast
qed

section \<open>Requests and formats\<close>

lemma sent_size:
  "\<exists>n. sp_size (create_payload f) = Fin (of_int n) \<and> 1 \<le> n \<and> n \<le> 100000"
  using whole_input [of 1 100000 "Fin 100" "sf_size f"] by (simp add: create_payload_def Let_def)

lemma submitted_named: "submit_create f = Inr p \<Longrightarrow> sp_name p \<noteq> [] \<and> sp_symbol p \<noteq> [] \<and> p = create_payload f"
  by (auto simp: submit_create_def Let_def split: if_splits)

text \<open>A loss is shown without a sign, so a gain is told from a loss by its plus alone.\<close>

lemma loss_without_sign: "to_number v = Fin x \<Longrightarrow> x < 0 \<Longrightarrow> fmt_pnl loc v = ''Rs'' @ loc (Fin (- x))"
  by (simp add: fmt_pnl_def num_or_def)

text \<open>The percentage shown beside the profit tends to a hundred with the profit itself, whatever the capital.\<close>

lemma percent_near_hundred:
  assumes "63 \<le> n" "n \<le> 2 ^ 50"
  shows "Fin 98 \<le> pnl_percent (Fin (of_int n))"
proof -
  have e: "\<bar>Fin (of_int n)\<bar> + Fin 1 = Fin (of_int (n + 1))" using assms whole_sum [of n 1] by simp
  have "63 / 64 \<le> (of_int n :: rat) / of_int (n + 1)" using assms(1) by (simp add: field_simps)
  then have "Fin (63 / 64) \<le> rnd (of_int n / of_int (n + 1))" by (rule rnd_ge_double [rotated]) (simp add: is_double_def js_eval)
  moreover have "rnd (of_int n / of_int (n + 1)) \<le> Fin 1" using assms by (intro rnd_le_double) simp_all
  ultimately obtain r where r: "rnd (of_int n / of_int (n + 1)) = Fin r" "63 / 64 \<le> r"
    by (cases "rnd (of_int n / of_int (n + 1))") auto
  have "Fin 98 \<le> rnd (r * 100)" by (rule rnd_ge_double) (use r in \<open>simp_all add: is_double_numeral\<close>)
  with r e assms show ?thesis by (simp add: pnl_percent_def)
qed

text \<open>The counts by timeframe add up to the number of strategies.\<close>

lemma count_timeframe_sum:
  assumes "distinct (map fst cs)"
  shows "distinct (map fst (count_timeframe cs s)) \<and> sum_list (map snd (count_timeframe cs s)) = Suc (sum_list (map snd cs))"
proof -
  have "sum_list (map snd (AList.update t ((case map_of cs t of Some n \<Rightarrow> n | None \<Rightarrow> 0) + 1) cs)) = Suc (sum_list (map snd cs))" for t
    using assms by (induction cs) auto
  with assms show ?thesis by (simp add: count_timeframe_def Let_def distinct_update)
qed

lemma donut_counts_all: "sum_list (map snd (donut_counts s)) = length (al_strategies s)"
proof -
  have "distinct (map fst (foldl count_timeframe cs xs)) \<and> sum_list (map snd (foldl count_timeframe cs xs)) = length xs + sum_list (map snd cs)"
    if "distinct (map fst cs)" for xs cs using that
    by (induction xs arbitrary: cs) (simp_all add: count_timeframe_sum)
  from this [of "[]" "al_strategies s"] show ?thesis by (simp add: donut_counts_def)
qed

text \<open>Every point of the chart is inside its frame.\<close>

lemma point_in_frame:
  assumes "px_range s = Fin g" "0 < g" "v - px_min s \<le> px_range s" "Fin 0 \<le> v - px_min s"
  shows "Fin 12 \<le> pnl_y s v \<and> pnl_y s v \<le> Fin 152"
proof -
  obtain d where d: "v - px_min s = Fin d" "0 \<le> d" "d \<le> g" using assms by (cases "v - px_min s") auto
  have "Fin 0 \<le> rnd (d / g)" "rnd (d / g) \<le> Fin 1" using d assms(2) by (auto intro: rnd_ge_double rnd_le_double)
  then obtain q where q: "rnd (d / g) = Fin q" "0 \<le> q" "q \<le> 1" by (cases "rnd (d / g)") auto
  have "Fin 0 \<le> rnd (q * 140)" "rnd (q * 140) \<le> Fin 140"
    using q by (auto intro!: rnd_ge_double rnd_le_double simp: is_double_numeral)
  then obtain h where h: "rnd (q * 140) = Fin h" "0 \<le> h" "h \<le> 140" by (cases "rnd (q * 140)") auto
  have "Fin 12 \<le> rnd (152 - h)" "rnd (152 - h) \<le> Fin 152"
    using h by (auto intro!: rnd_ge_double rnd_le_double simp: is_double_numeral)
  with d q h assms(1,2) show ?thesis by (simp add: pnl_y_def)
qed

text \<open>The answer for a range that was left is shown under the one that was chosen since.\<close>

lemma late_range_wins:
  "al_chart (range_answered (Some old) (range_answered (Some new) (choose_range r s))) = js_or old empty_chart \<and>
   al_range (range_answered (Some old) (range_answered (Some new) (choose_range r s))) = r"
  by (simp add: range_answered_def take_chart_def choose_range_def)

text \<open>
  A field of the form brings each key press into its bounds, so a first digit that is below them is replaced before a
  second one can follow.
\<close>

lemma first_digit_replaced:
  assumes "to_number (JStr text) = Fin x" "x \<le> of_int lo" "lo \<le> hi"
  shows "own (type_param (whole_field k d lo hi) text ps) k = JNum (Fin (of_int lo))"
proof -
  have "x \<le> of_int hi" using assms(2,3) by (meson of_int_le_iff order_trans)
  then have "clamp (Fin x) (Fin (of_int lo)) (Fin (of_int hi)) = Fin (of_int lo)"
    using assms(2) by (auto simp: clamp_def math_max_def math_min_def)
  then have "field_value (JStr text) (whole_field k d lo hi) = Fin (of_int lo)"
    using assms(1) by (simp add: field_value_def whole_field_def parse_numeric_input_def del: to_number.simps math_round.simps)
  then show ?thesis by (simp add: type_param_def whole_field_def)
qed

text \<open>A list of strategies without a body hides the answers of the other three.\<close>

lemma bodiless_hides: "bodiless a \<Longrightarrow> algo_loaded a st c si s = s\<lparr> al_loading := False \<rparr>"
  by (simp add: algo_loaded_def)

end
