(* ===== verification/SettingsDesk.thy ===== *)
theory SettingsDesk
  imports AuthStore
begin

text \<open>
  The settings: \<open>frontend/src/pages/SettingsPage.jsx\<close> and the preferences of \<open>frontend/src/context/ThemeContext.jsx\<close>. The
  storage of the browser is a list of keys and texts; a text that was written as JSON is kept as the value it reads back to.
  The markup is not modelled; the confirmations of the browser, the answers of the server and \<open>Date.parse\<close> are arguments.
\<close>

section \<open>Avatars\<close>

definition resolve_avatar_url :: "string \<Rightarrow> jsval \<Rightarrow> string option" where
  "resolve_avatar_url origin url =
     (if \<not> truthy url then None
      else let u = to_string url in
        if starts_with u ''http://'' \<or> starts_with u ''https://'' then Some u else Some (origin @ u))"

text \<open>The signed 32 bits of a number, and \<open>hash << 5\<close>; the hash itself is a number that does not wrap.\<close>

definition to_int32 :: "int \<Rightarrow> int" where
  "to_int32 n = (n + 2 ^ 31) mod 2 ^ 32 - 2 ^ 31"

definition name_step :: "int \<Rightarrow> char \<Rightarrow> int" where
  "name_step h c = int (of_char c) + (to_int32 (to_int32 h * 2 ^ 5) - h)"

definition name_hash :: "string \<Rightarrow> int" where
  "name_hash s = foldl name_step 0 s"

definition name_colors :: "string list" where
  "name_colors = [''#f59e0b'', ''#8b5cf6'', ''#0ea5e9'', ''#10b981'', ''#f59e0b'', ''#ef4444'', ''#ec4899'', ''#14b8a6'']"

definition name_color :: "string \<Rightarrow> string" where
  "name_color s = name_colors ! nat (\<bar>name_hash s\<bar> mod 8)"

text \<open>\<open>split(/\s+/)\<close> of a text without spaces at its ends.\<close>

fun split_spaces :: "string \<Rightarrow> string \<Rightarrow> string list" where
  "split_spaces w [] = [w]"
| "split_spaces w (c # cs) =
     (if is_space c then (if w = [] then split_spaces [] cs else w # split_spaces [] cs) else split_spaces (w @ [c]) cs)"

definition get_initials :: "jsval \<Rightarrow> string" where
  "get_initials user =
     (case field user ''full_name'' of
        JStr n \<Rightarrow>
          if trim n \<noteq> [] then
            let parts = split_spaces [] (trim n) in
            if 2 \<le> length parts then upper (take 1 (hd parts) @ take 1 (last parts)) else upper (take 2 (hd parts))
          else (case field user ''email'' of JStr (c # _) \<Rightarrow> upper [c] | _ \<Rightarrow> ''?'')
      | _ \<Rightarrow> (case field user ''email'' of JStr (c # _) \<Rightarrow> upper [c] | _ \<Rightarrow> ''?''))"

definition format_relative_time :: "(string \<Rightarrow> jsnum) \<Rightarrow> jsnum \<Rightarrow> jsval \<Rightarrow> string" where
  "format_relative_time date_parse now v =
     (if \<not> truthy v then ''Never''
      else
        let ts = (case v of JNum n \<Rightarrow> n | _ \<Rightarrow> date_parse (to_string v)) in
        if \<not> is_finite ts then ''Unknown''
        else
          let diff = now - ts in
          if diff < Fin 60000 then ''Just now''
          else if diff < Fin 3600000 then number_to_string (math_floor (diff / Fin 60000)) @ ''m ago''
          else if diff < Fin 86400000 then number_to_string (math_floor (diff / Fin 3600000)) @ ''h ago''
          else number_to_string (math_floor (diff / Fin 86400000)) @ ''d ago'')"

definition text_has :: "string \<Rightarrow> string \<Rightarrow> bool" where
  "text_has s part = list_ex (\<lambda>i. starts_with (drop i s) part) [0..<Suc (length s)]"

definition format_device_name :: "jsval \<Rightarrow> string" where
  "format_device_name agent =
     (let ua = lower (if agent = Undefined then [] else to_string agent) in
      if text_has ua ''android'' then ''Android Device''
      else if text_has ua ''iphone'' \<or> text_has ua ''ipad'' \<or> text_has ua ''ios'' then ''iOS Device''
      else if text_has ua ''windows'' then ''Windows Device''
      else if text_has ua ''mac os'' \<or> text_has ua ''macintosh'' then ''Mac Device''
      else if text_has ua ''linux'' then ''Linux Device'' else ''Unknown Device'')"

record avatar_panel =
  av_preview :: "string option"
  av_uploading :: bool

datatype avatar_error = NoFile | NotAnImage | TooLarge

text \<open>A chosen file by its type and size; \<open>local\<close> is the address the browser gives it.\<close>

definition process_file :: "(string \<times> jsnum \<times> string) option \<Rightarrow> avatar_panel \<Rightarrow> avatar_error + avatar_panel" where
  "process_file f s =
     (case f of
        None \<Rightarrow> Inl NoFile
      | Some (kind, bytes, local) \<Rightarrow>
          if \<not> starts_with kind ''image/'' then Inl NotAnImage
          else if Fin 2097152 < bytes then Inl TooLarge
          else Inr (s\<lparr> av_preview := Some local, av_uploading := True \<rparr>))"

definition avatar_uploaded :: "string \<Rightarrow> jsval \<Rightarrow> avatar_panel \<times> auth_state \<Rightarrow> avatar_panel \<times> auth_state" where
  "avatar_uploaded origin data = (\<lambda>(s, a).
     (s\<lparr> av_preview := resolve_avatar_url origin (field data ''avatar_url''), av_uploading := False \<rparr>,
      update_user [(''avatar_url'', field data ''avatar_url'')] a))"

definition avatar_failed :: "string \<Rightarrow> jsval \<Rightarrow> avatar_panel \<Rightarrow> avatar_panel" where
  "avatar_failed origin user_then s = s\<lparr> av_preview := resolve_avatar_url origin (field user_then ''avatar_url''), av_uploading := False \<rparr>"

definition avatar_removed :: "avatar_panel \<times> auth_state \<Rightarrow> avatar_panel \<times> auth_state" where
  "avatar_removed = (\<lambda>(s, a). (s\<lparr> av_preview := None, av_uploading := False \<rparr>, update_user [(''avatar_url'', JNull)] a))"

section \<open>Capital\<close>

record capital_panel =
  ca_add :: string
  ca_custom :: string
  ca_loading :: string
  ca_portfolio :: jsval

definition add_amount :: "capital_panel \<Rightarrow> jsnum option" where
  "add_amount s = (let a = parse_float (ca_add s) in if is_nan a \<or> a \<le> Fin 0 then None else Some a)"

definition set_amount :: "capital_panel \<Rightarrow> jsnum option" where
  "set_amount s = (let a = parse_float (ca_custom s) in if is_nan a \<or> a < Fin 0 then None else Some a)"

text \<open>A button begins its request and marks it; its end clears the mark, and each change of the mark asks for the portfolio.\<close>

definition begin_add :: "capital_panel \<Rightarrow> capital_panel \<times> jsnum option" where
  "begin_add s = (case add_amount s of None \<Rightarrow> (s, None) | Some a \<Rightarrow> (s\<lparr> ca_loading := ''add'' \<rparr>, Some a))"

definition end_add :: "bool \<Rightarrow> capital_panel \<Rightarrow> capital_panel" where
  "end_add ok s = s\<lparr> ca_add := if ok then [] else ca_add s, ca_loading := [] \<rparr>"

definition begin_set :: "capital_panel \<Rightarrow> capital_panel \<times> jsnum option" where
  "begin_set s = (case set_amount s of None \<Rightarrow> (s, None) | Some a \<Rightarrow> (s\<lparr> ca_loading := ''set'' \<rparr>, Some a))"

definition end_set :: "bool \<Rightarrow> capital_panel \<Rightarrow> capital_panel" where
  "end_set ok s = s\<lparr> ca_custom := if ok then [] else ca_custom s, ca_loading := [] \<rparr>"

definition begin_reset :: "bool \<Rightarrow> capital_panel \<Rightarrow> capital_panel \<times> bool" where
  "begin_reset confirmed s = (if confirmed then (s\<lparr> ca_loading := ''reset'' \<rparr>, True) else (s, False))"

definition end_reset :: "capital_panel \<Rightarrow> capital_panel" where
  "end_reset s = s\<lparr> ca_loading := [] \<rparr>"

definition portfolio_comes :: "jsval option \<Rightarrow> capital_panel \<Rightarrow> capital_panel" where
  "portfolio_comes a s = (case a of Some d \<Rightarrow> s\<lparr> ca_portfolio := d \<rparr> | None \<Rightarrow> s)"

definition is_disabled :: "string \<Rightarrow> capital_panel \<Rightarrow> bool" where
  "is_disabled button s = (ca_loading s = button)"

text \<open>What two confirmations allow: the reset of the account and its deletion, after which the user is signed out.\<close>

definition both_confirmed :: "bool \<Rightarrow> bool \<Rightarrow> bool" where
  "both_confirmed first second = (first \<and> second)"

definition account_deleted :: "bool \<Rightarrow> auth_state \<Rightarrow> auth_state" where
  "account_deleted ok a = (if ok then logout a else a)"

section \<open>Preferences\<close>

definition default_prefs :: jsobj where
  "default_prefs =
     [(''accentColor'', JStr ''cyan''), (''fontSize'', JStr ''medium''), (''chartStyle'', JStr ''candles''),
      (''layoutDensity'', JStr ''comfortable''), (''animationsEnabled'', JBool True), (''showPnlPercent'', JBool True),
      (''showPnlValue'', JBool True), (''compactNumbers'', JBool False), (''defaultOrderType'', JStr ''MARKET''),
      (''confirmBeforeOrder'', JBool True)]"

record ui_state =
  ui_theme :: string
  ui_prefs :: jsobj
  ui_notif :: jsobj
  ui_stored_theme :: "string option"
  ui_stored_prefs :: "jsval option"
  ui_stored_notif :: "jsval option"

definition load_theme :: "string option \<Rightarrow> string" where
  "load_theme saved = (if saved = Some ''dark'' then ''dark'' else ''light'')"

definition load_prefs :: "jsval option \<Rightarrow> jsobj" where
  "load_prefs saved = (case saved of Some v \<Rightarrow> spread default_prefs (fields_of v) | None \<Rightarrow> default_prefs)"

definition default_notif :: jsobj where
  "default_notif =
     [(''orderExecuted'', JBool True), (''orderFailed'', JBool True), (''priceAlerts'', JBool True), (''marketOpen'', JBool False),
      (''marketClose'', JBool False), (''dailySummary'', JBool False), (''weeklyReport'', JBool False), (''soundEnabled'', JBool True),
      (''browserNotifications'', JBool False)]"

definition load_notif :: "jsval option \<Rightarrow> jsobj" where
  "load_notif saved = (case saved of Some v \<Rightarrow> fields_of v | None \<Rightarrow> default_notif)"

text \<open>Every state is written back by an effect of its own.\<close>

definition stored :: "ui_state \<Rightarrow> ui_state" where
  "stored s = s\<lparr> ui_stored_theme := Some (ui_theme s), ui_stored_prefs := Some (JObj (ui_prefs s)), ui_stored_notif := Some (JObj (ui_notif s)) \<rparr>"

definition open_ui :: "ui_state \<Rightarrow> ui_state" where
  "open_ui s = stored (s\<lparr> ui_theme := load_theme (ui_stored_theme s), ui_prefs := load_prefs (ui_stored_prefs s),
     ui_notif := load_notif (ui_stored_notif s) \<rparr>)"

definition toggle_theme :: "ui_state \<Rightarrow> ui_state" where
  "toggle_theme s = stored (s\<lparr> ui_theme := if ui_theme s = ''dark'' then ''light'' else ''dark'' \<rparr>)"

definition set_force_dark :: "bool \<Rightarrow> ui_state \<Rightarrow> ui_state" where
  "set_force_dark on s = stored (s\<lparr> ui_theme := if on then ''dark'' else ''light'' \<rparr>)"

definition pick_theme :: "bool \<Rightarrow> string \<Rightarrow> ui_state \<Rightarrow> ui_state" where
  "pick_theme prefers_dark v s =
     stored (s\<lparr> ui_theme := if v = ''system'' then (if prefers_dark then ''dark'' else ''light'') else v \<rparr>)"

definition update_prefs :: "jsobj \<Rightarrow> ui_state \<Rightarrow> ui_state" where
  "update_prefs patch s = stored (s\<lparr> ui_prefs := spread (ui_prefs s) patch \<rparr>)"

definition reset_prefs :: "ui_state \<Rightarrow> ui_state" where
  "reset_prefs s = stored (s\<lparr> ui_prefs := default_prefs \<rparr>)"

definition update_notif :: "string \<Rightarrow> bool \<Rightarrow> ui_state \<Rightarrow> ui_state" where
  "update_notif k v s = stored (s\<lparr> ui_notif := set_field k (JBool v) (ui_notif s) \<rparr>)"

text \<open>The switch of the browser's notifications; \<open>granted\<close> is the permission so far, \<open>answer\<close> what the user then says.\<close>

definition switch_browser :: "bool \<Rightarrow> bool \<Rightarrow> bool \<Rightarrow> bool \<Rightarrow> ui_state \<Rightarrow> ui_state" where
  "switch_browser supported granted answer v s =
     update_notif ''browserNotifications'' (if v \<and> supported \<and> \<not> granted then answer else v) s"

definition clear_cache :: "(string \<times> string) list \<Rightarrow> (string \<times> string) list \<times> nat" where
  "clear_cache storage =
     (let gone = (\<lambda>k. starts_with k ''alphasync_'' \<and> k \<notin> {''alphasync_token'', ''alphasync_user''})
      in (filter (\<lambda>(k, v). \<not> gone k) storage, length (filter (\<lambda>(k, v). gone k) storage)))"

section \<open>The page\<close>

definition settings_tabs :: "(string \<times> string) list" where
  "settings_tabs = [(''profile'', ''Account''), (''security'', ''Account''), (''appearance'', ''Preferences''), (''trading'', ''Preferences''),
     (''notifications'', ''Preferences''), (''data'', ''System'')]"

definition resolve_tab :: "jsval \<Rightarrow> string" where
  "resolve_tab t = (let n = trim (to_string (js_or t (JStr []))) in if n \<in> set (map fst settings_tabs) then n else ''profile'')"

definition tab_sections :: "(string \<times> string list) list" where
  "tab_sections =
     foldl (\<lambda>acc (i, g). AList.update g ((case map_of acc g of Some is \<Rightarrow> is | None \<Rightarrow> []) @ [i]) acc) [] settings_tabs"

record settings_page =
  se_name :: jsval
  se_phone :: jsval
  se_saving :: bool
  se_tab :: string
  se_url_tab :: string
  se_sessions :: jsval
  se_loading_sessions :: bool
  se_showing :: bool

text \<open>The effect of a changed user: the form starts again from it, and the phone is asked for where it is missing.\<close>

definition user_changes :: "auth_state \<Rightarrow> settings_page \<Rightarrow> settings_page \<times> bool" where
  "user_changes a s =
     (if \<not> truthy (au_user a) then (s, False)
      else
        (s\<lparr> se_name := js_or (field (au_user a) ''full_name'') (JStr []), se_phone := js_or (field (au_user a) ''phone'') (JStr []) \<rparr>,
         field (au_user a) ''phone'' = Undefined))"

definition phone_comes :: "jsval \<Rightarrow> settings_page \<times> auth_state \<Rightarrow> settings_page \<times> auth_state" where
  "phone_comes data = (\<lambda>(s, a).
     let p = js_or (field data ''phone'') (JStr []) in (s\<lparr> se_phone := p \<rparr>, update_user [(''phone'', p)] a))"

definition type_name :: "string \<Rightarrow> settings_page \<Rightarrow> settings_page" where
  "type_name t s = s\<lparr> se_name := JStr t \<rparr>"

definition begin_save :: "settings_page \<Rightarrow> settings_page \<times> jsobj" where
  "begin_save s = (s\<lparr> se_saving := True \<rparr>, [(''full_name'', se_name s), (''phone'', se_phone s)])"

definition end_save :: "jsobj \<Rightarrow> jsval option \<Rightarrow> settings_page \<times> auth_state \<Rightarrow> settings_page \<times> auth_state" where
  "end_save sent answer = (\<lambda>(s, a).
     (s\<lparr> se_saving := False \<rparr>,
      case answer of
        None \<Rightarrow> a
      | Some data \<Rightarrow> if truthy (field data ''user'') then update_user (fields_of (field data ''user'')) a else update_user sent a))"

definition switch_tab :: "string \<Rightarrow> settings_page \<Rightarrow> settings_page" where
  "switch_tab t s = s\<lparr> se_tab := t, se_url_tab := t \<rparr>"

definition url_tab_changes :: "jsval \<Rightarrow> settings_page \<Rightarrow> settings_page" where
  "url_tab_changes t s = s\<lparr> se_tab := resolve_tab t \<rparr>"

definition begin_sessions :: "settings_page \<Rightarrow> settings_page" where
  "begin_sessions s = s\<lparr> se_loading_sessions := True \<rparr>"

definition end_sessions :: "jsval option \<Rightarrow> settings_page \<Rightarrow> settings_page" where
  "end_sessions answer s =
     (case answer of
        None \<Rightarrow> s
      | Some d \<Rightarrow> s\<lparr> se_sessions := js_or d (JObj [(''active_devices'', JNum (Fin 0)), (''sessions'', JArr [])]), se_showing := True \<rparr>)
     \<lparr> se_loading_sessions := False \<rparr>"

section \<open>Lemmas\<close>

text \<open>The hash never leaves the whole numbers that a double holds exactly, for names of up to two million characters.\<close>

lemma to_int32_range: "- (2 ^ 31) \<le> to_int32 n \<and> to_int32 n < 2 ^ 31"
  using pos_mod_bound [of "2 ^ 32" "n + 2 ^ 31"] pos_mod_sign [of "2 ^ 32" "n + 2 ^ 31"] by (simp add: to_int32_def)

lemma name_step_bound: "\<bar>name_step h c\<bar> \<le> \<bar>h\<bar> + 2 ^ 32"
proof -
  have b: "\<bar>y + (x - h)\<bar> \<le> \<bar>h\<bar> + 4294967296" if "- 2147483648 \<le> x" "x < 2147483648" "0 \<le> y" "y < 256" for x y h :: int
    using that by arith
  have "(of_char c :: nat) < 256" by simp
  then have "int (of_char c :: nat) < 256" by linarith
  with b [of "to_int32 (to_int32 h * 2 ^ 5)" "int (of_char c)" h] to_int32_range [of "to_int32 h * 2 ^ 5"]
  show ?thesis by (simp add: name_step_def)
qed

lemma name_hash_bound: "\<bar>name_hash s\<bar> \<le> int (length s) * 2 ^ 32"
proof (induction s rule: rev_induct)
  case (snoc c s)
  have "\<bar>name_hash (s @ [c])\<bar> \<le> \<bar>name_hash s\<bar> + 2 ^ 32" using name_step_bound by (simp add: name_hash_def)
  with snoc show ?case by (simp add: algebra_simps)
qed (simp add: name_hash_def)

lemma name_hash_exact: "length s \<le> 2 ^ 21 \<Longrightarrow> \<bar>name_hash s\<bar> \<le> 2 ^ 53"
  using name_hash_bound [of s] by simp

text \<open>
  The shift drops out modulo 32, so what decides the colour of a name is no more than the alternating sum of the codes
  of its characters: names with the same sum have the same colour, up to its sign.
\<close>

lemma to_int32_mod: "to_int32 n mod 32 = n mod 32"
proof -
  have "to_int32 n mod 32 = ((n + 2 ^ 31) mod 2 ^ 32 mod 32 - 2 ^ 31) mod 32" by (simp add: to_int32_def mod_diff_left_eq)
  also have "(n + 2 ^ 31) mod 2 ^ 32 mod 32 = (n + 2 ^ 31) mod (32 :: int)" by (rule mod_mod_cancel) simp
  also have "((n + 2 ^ 31) mod 32 - 2 ^ 31) mod 32 = n mod (32 :: int)" by (simp add: mod_diff_left_eq)
  finally show ?thesis .
qed

definition alternating_sum :: "string \<Rightarrow> int" where
  "alternating_sum s = foldl (\<lambda>h c. int (of_char c) - h) 0 s"

lemma name_hash_alternating: "name_hash s mod 32 = alternating_sum s mod 32"
proof (induction s rule: rev_induct)
  case (snoc c s)
  have z: "to_int32 (to_int32 (name_hash s) * 2 ^ 5) mod 32 = 0" by (simp add: to_int32_mod)
  have "name_hash (s @ [c]) = int (of_char c) - name_hash s + to_int32 (to_int32 (name_hash s) * 2 ^ 5)"
    by (simp add: name_hash_def name_step_def)
  then have "name_hash (s @ [c]) mod 32 = (int (of_char c) - name_hash s) mod 32" using z by (metis add.right_neutral mod_add_right_eq)
  also have "\<dots> = (int (of_char c) - alternating_sum s) mod 32" using snoc by (metis mod_diff_right_eq)
  finally show ?case by (simp add: alternating_sum_def)
qed (simp add: name_hash_def alternating_sum_def)

lemma name_color_in: "name_color s \<in> set name_colors"
proof -
  have "\<bar>name_hash s\<bar> mod 8 < 8" by simp
  then have "nat (\<bar>name_hash s\<bar> mod 8) < length name_colors" by (simp add: name_colors_def)
  then show ?thesis unfolding name_color_def by (rule nth_mem)
qed

lemma swapped_pairs_alike: "alternating_sum [a, b, c] = alternating_sum [c, b, a]"
  by (simp add: alternating_sum_def)

text \<open>A file that is taken is an image of at most two megabytes.\<close>

lemma taken_file: "process_file (Some (kind, bytes, local)) s = Inr s' \<Longrightarrow> starts_with kind ''image/'' \<and> \<not> Fin 2097152 < bytes"
  by (auto simp: process_file_def split: if_splits)

text \<open>The amounts that are sent.\<close>

lemma past_zero: "\<not> is_nan a \<Longrightarrow> \<not> a \<le> Fin 0 \<Longrightarrow> Fin 0 < a" "\<not> is_nan a \<Longrightarrow> \<not> a < Fin 0 \<Longrightarrow> Fin 0 \<le> a"
  by (cases a; simp)+

lemma added_positive: "begin_add s = (s', Some a) \<Longrightarrow> Fin 0 < a"
  by (auto simp: begin_add_def add_amount_def Let_def intro: past_zero split: if_splits)

lemma set_nonneg: "begin_set s = (s', Some a) \<Longrightarrow> Fin 0 \<le> a"
  by (auto simp: begin_set_def set_amount_def Let_def intro: past_zero split: if_splits)

text \<open>One mark serves the three buttons: the end of one request takes the mark of another.\<close>

lemma mark_shared: "\<not> is_disabled ''set'' (end_add ok (fst (begin_set s)\<lparr> ca_loading := ''set'' \<rparr>))"
  by (simp add: is_disabled_def end_add_def)

text \<open>An earlier answer that comes later shows the earlier portfolio.\<close>

lemma late_portfolio_wins: "ca_portfolio (portfolio_comes (Some before) (portfolio_comes (Some after) s)) = before"
  by (simp add: portfolio_comes_def)

text \<open>Preferences survive a reload: what is set is read back, whatever else is stored.\<close>

lemma distinct_default_prefs: "distinct (map fst default_prefs)"
  by (simp add: default_prefs_def)

lemma open_after_stored:
  assumes "distinct (map fst (ui_prefs s))" "ui_theme s = ''dark'' \<or> ui_theme s = ''light''" "k \<in> fst ` set (ui_prefs s)"
  shows "own (ui_prefs (open_ui (stored s))) k = own (ui_prefs s) k \<and> ui_theme (open_ui (stored s)) = ui_theme s \<and>
    ui_notif (open_ui (stored s)) = ui_notif s"
  using assms own_spread [OF assms(1), of default_prefs k]
  by (auto simp: open_ui_def stored_def load_prefs_def load_notif_def load_theme_def)

lemma preference_read_back:
  assumes "distinct (map fst (ui_prefs s))" "ui_theme s = ''dark'' \<or> ui_theme s = ''light''"
  shows "own (ui_prefs (open_ui (update_prefs [(k, v)] s))) k = v"
proof -
  let ?s = "s\<lparr> ui_prefs := spread (ui_prefs s) [(k, v)] \<rparr>"
  have d: "distinct (map fst (ui_prefs ?s))" using assms(1) by (simp add: distinct_spread)
  have v: "own (ui_prefs ?s) k = v" by (simp add: spread_def)
  have "k \<in> fst ` set (ui_prefs ?s)"
    by (simp add: spread_def set_field_def dom_map_of_conv_image_fst [symmetric] update_conv')
  with open_after_stored [of ?s k] d v assms(2) show ?thesis by (simp add: update_prefs_def)
qed

lemma reset_is_default: "ui_prefs (reset_prefs (update_prefs p s)) = default_prefs"
  by (simp add: reset_prefs_def stored_def)

lemma denied_stays_off: "own (ui_notif (switch_browser True False False True s)) ''browserNotifications'' = JBool False"
  by (simp add: switch_browser_def update_notif_def stored_def)

text \<open>Notification settings are read back as they were stored: a setting that was not stored then has no value, not its default.\<close>

lemma notif_without_default: "own (load_notif (Some (JObj [(''soundEnabled'', JBool False)]))) ''orderExecuted'' = Undefined"
  by (simp add: load_notif_def own_Cons)

text \<open>The cache is cleared of nothing but own keys, and the session stays; the mark of a finished registration goes.\<close>

lemma cleared_keys:
  "(k, v) \<in> set (fst (clear_cache storage)) \<longleftrightarrow>
     (k, v) \<in> set storage \<and> (\<not> starts_with k ''alphasync_'' \<or> k = ''alphasync_token'' \<or> k = ''alphasync_user'')"
  by (auto simp: clear_cache_def Let_def)

lemma clear_counts: "length (fst (clear_cache storage)) + snd (clear_cache storage) = length storage"
  unfolding clear_cache_def Let_def fst_conv snd_conv by (induction storage) auto

text \<open>An upload of a photograph changes the user, so what was typed into the form is lost.\<close>

lemma upload_loses_typing:
  assumes "truthy (au_user a)" "field (au_user a) ''full_name'' = JStr n" "n \<noteq> []"
  shows "se_name (fst (user_changes (snd (avatar_uploaded origin data (p, a))) (type_name t s))) = JStr n"
proof -
  obtain fs where u: "au_user a = JObj fs" using assms(2) by (cases "au_user a") auto
  then have "own fs ''full_name'' = JStr n" using assms(2) by simp
  moreover have "js_or (JStr n) (JStr []) = JStr n" using assms(3) by (cases n) auto
  moreover have "au_user (update_user [(k, v)] a) = JObj (set_field k v fs)" for k v
    using assms(1) u by (simp add: update_user_def spread_def Let_def)
  ultimately show ?thesis by (simp add: avatar_uploaded_def user_changes_def)
qed

text \<open>Every address of a tab shows one of the six, and a tab that is chosen is the one its address shows.\<close>

lemma shown_tab: "resolve_tab t \<in> set (map fst settings_tabs)"
  by (simp add: resolve_tab_def Let_def settings_tabs_def)

lemma chosen_tab: "t \<in> set (map fst settings_tabs) \<Longrightarrow> se_tab (url_tab_changes (JStr (se_url_tab (switch_tab t s))) (switch_tab t s)) = t"
proof -
  assume t: "t \<in> set (map fst settings_tabs)"
  have "list_all (\<lambda>x. resolve_tab (JStr x) = x) (map fst settings_tabs)" by code_simp
  with t have "resolve_tab (JStr t) = t" by (auto simp: list_all_iff)
  then show ?thesis by (simp add: url_tab_changes_def switch_tab_def)
qed

text \<open>Other notions.\<close>

lemma deleted_signed_out: "au_token (account_deleted True a) = None \<and> au_user (account_deleted True a) = JNull"
  by (simp add: account_deleted_def logout_def clear_session_def clear_user_session_cookie_def)

end
