(* ===== verification/ChartCandles.thy ===== *)
theory ChartCandles
  imports CandleFetch Symbols
begin

text \<open>
  The candles of the chart, the functions above the component in \<open>frontend/src/components/trading/LiveChart.jsx\<close>:
  an array of rows is put in order (\<open>chart_candles\<close>), gathered into the buckets of the period (\<open>period_buckets\<close>) and
  scaled to a quote that is far away (\<open>align_to_quote\<close>). A candle is the record \<open>fcandle\<close>; times are seconds.
\<close>

section \<open>Times\<close>

definition finite_or :: "jsnum \<Rightarrow> jsnum option" where
  "finite_or n = (if is_finite n then Some n else None)"

definition interval_seconds :: "(string \<times> int) list" where
  "interval_seconds =
     [(''1m'', 60), (''2m'', 120), (''3m'', 180), (''5m'', 300), (''10m'', 600), (''15m'', 900), (''30m'', 1800), (''1h'', 3600),
      (''2h'', 7200), (''4h'', 14400), (''1d'', 86400), (''1wk'', 604800), (''1mo'', 2592000)]"

definition seconds_of_code :: "string \<Rightarrow> int" where
  "seconds_of_code code = (case map_of interval_seconds code of Some n \<Rightarrow> n | None \<Rightarrow> 60)"

definition chart_config :: "string \<Rightarrow> chart_period" where
  "chart_config key = (case map_of chart_periods key of Some c \<Rightarrow> c | None \<Rightarrow> the (map_of chart_periods ''5m''))"

definition get_interval_seconds :: "string \<Rightarrow> int" where
  "get_interval_seconds key = seconds_of_code (cp_interval (chart_config key))"

definition ist_offset_seconds :: jsnum where
  "ist_offset_seconds = Fin 19800"

text \<open>\<open>new Date(ms)\<close>: the days since 1970 and whether the date is in the range of dates at all.\<close>

definition date_day :: "jsnum \<Rightarrow> int option" where
  "date_day ms =
     (case ms of Fin r \<Rightarrow> if \<bar>r\<bar> \<le> 8640000000000000 then Some \<lfloor>r / 86400000\<rfloor> else None | _ \<Rightarrow> None)"

text \<open>The day of an instant on the exchange's clock, and the instant at which such a day begins.\<close>

definition ist_day :: "jsnum \<Rightarrow> int option" where
  "ist_day epoch = date_day (math_floor (epoch + ist_offset_seconds) * Fin 1000)"

definition ist_day_start :: "int \<Rightarrow> jsnum option" where
  "ist_day_start d =
     (if \<bar>d\<bar> \<le> 100000000 then finite_or (math_floor (Fin (of_int (d * 86400000)) / Fin 1000) - ist_offset_seconds) else None)"

definition start_of_ist_week :: "jsnum \<Rightarrow> jsnum option" where
  "start_of_ist_week epoch =
     (case ist_day epoch of
        None \<Rightarrow> None
      | Some d \<Rightarrow> let weekday = ((d + 4) mod 7 + 6) mod 7 in ist_day_start (d - weekday))"

definition start_of_ist_month :: "jsnum \<Rightarrow> jsnum option" where
  "start_of_ist_month epoch =
     (case ist_day epoch of
        None \<Rightarrow> None
      | Some d \<Rightarrow> (case civil_from_days d of (y, m, _) \<Rightarrow> ist_day_start (days_from_civil y m 1)))"

definition start_of_ist_day :: "jsnum \<Rightarrow> jsnum option" where
  "start_of_ist_day epoch =
     (let local = math_floor (epoch + ist_offset_seconds)
      in finite_or (math_floor (local / Fin 86400) * Fin 86400 - ist_offset_seconds))"

text \<open>\<open>alignBucketTime\<close>; \<open>None\<close> is \<open>null\<close>, which every caller treats like a time that is not finite.\<close>

definition align_bucket :: "int \<Rightarrow> string \<Rightarrow> jsnum \<Rightarrow> jsnum option" where
  "align_bucket secs code t =
     (if \<not> is_finite t then None
      else if code = ''1wk'' then start_of_ist_week t
      else if code = ''1mo'' then start_of_ist_month t
      else if code = ''1d'' then start_of_ist_day t
      else if secs \<le> 0 then finite_or (math_floor t)
      else finite_or (math_floor (t / Fin (of_int secs)) * Fin (of_int secs)))"

definition parse_quote_epoch :: "(string \<Rightarrow> jsnum) \<Rightarrow> jsval \<Rightarrow> jsnum option" where
  "parse_quote_epoch date_parse raw =
     (if is_nullish raw \<or> raw = JStr [] then None
      else
        let n = to_number raw in
        if is_finite n \<and> Fin 0 < n then Some (seconds_of n)
        else
          case raw of
            JStr s \<Rightarrow> (let p = date_parse s in if is_finite p \<and> Fin 0 < p then Some (math_floor (p / Fin 1000)) else None)
          | _ \<Rightarrow> None)"

text \<open>The minute of the day on the exchange's clock, which puts the date on the tick of the opening.\<close>

definition ist_minute_of_day :: "jsnum \<Rightarrow> int option" where
  "ist_minute_of_day epoch =
     (case math_floor (epoch + ist_offset_seconds) of Fin r \<Rightarrow> Some (\<lfloor>r\<rfloor> mod 86400 div 60) | _ \<Rightarrow> None)"

section \<open>Rows of an answer\<close>

definition row_time :: "jsval \<Rightarrow> jsnum" where
  "row_time c =
     (let t = to_number (field c ''time'');
          t = (if \<not> is_finite t \<and> \<not> is_nullish (field c ''timestamp'') then to_number (field c ''timestamp'') else t)
      in if is_finite t then seconds_of t else t)"

definition chart_row :: "jsnum \<Rightarrow> jsval \<Rightarrow> fcandle option" where
  "chart_row now_sec c =
     (let tm = row_time c;
          vol = (case to_finite_number (field c ''volume'') of Some v \<Rightarrow> v | None \<Rightarrow> Fin 0)
      in case (to_finite_number (field c ''open''), to_finite_number (field c ''high''), to_finite_number (field c ''low''),
               to_finite_number (field c ''close'')) of
           (Some op, Some hi, Some lo, Some cl) \<Rightarrow>
             if \<not> is_finite tm then None
             else if tm < Fin 946684800 \<or> now_sec + Fin 604800 < tm then None
             else if op \<le> Fin 0 \<or> hi \<le> Fin 0 \<or> lo \<le> Fin 0 \<or> cl \<le> Fin 0 then None
             else
               let candle_high = math_max hi (math_max op (math_max cl lo));
                   candle_low = math_min lo (math_min op (math_min cl hi));
                   mid = (op + cl) / Fin 2
               in if Fin 0 < mid \<and> (mid * Fin 6 < candle_high \<or> candle_low < mid / Fin 6) then None
                  else Some \<lparr> f_time = tm, f_open = op, f_high = candle_high, f_low = candle_low, f_close = cl,
                         f_volume = math_max (Fin 0) vol \<rparr>
         | _ \<Rightarrow> None)"

definition chart_candles :: "jsnum \<Rightarrow> jsval list \<Rightarrow> fcandle list" where
  "chart_candles now rows = in_time_order (keep_by_time (chart_row (math_floor (now / Fin 1000))) rows)"

section \<open>Buckets of the period\<close>

record chart_bucket =
  bk_candle :: fcandle
  bk_first :: jsnum
  bk_last :: jsnum

definition candle_volume :: "fcandle \<Rightarrow> jsnum" where
  "candle_volume c = math_max (Fin 0) (if is_finite (f_volume c) then f_volume c else Fin 0)"

definition open_bucket :: "jsnum \<Rightarrow> fcandle \<Rightarrow> chart_bucket" where
  "open_bucket t c =
     \<lparr> bk_candle = c\<lparr> f_time := t, f_volume := candle_volume c \<rparr>, bk_first = f_time c, bk_last = f_time c \<rparr>"

definition join_bucket :: "fcandle \<Rightarrow> chart_bucket \<Rightarrow> chart_bucket" where
  "join_bucket c b =
     (let x = bk_candle b; earlier = (f_time c < bk_first b); later = (bk_last b \<le> f_time c) in
      \<lparr> bk_candle = x\<lparr> f_open := (if earlier then f_open c else f_open x),
          f_close := (if later then f_close c else f_close x),
          f_high := math_max (f_high x) (math_max (f_high c) (math_max (f_open c) (f_close c))),
          f_low := math_min (f_low x) (math_min (f_low c) (math_min (f_open c) (f_close c))),
          f_volume := f_volume x + candle_volume c \<rparr>,
        bk_first = (if earlier then f_time c else bk_first b), bk_last = (if later then f_time c else bk_last b) \<rparr>)"

definition whole_candle :: "fcandle \<Rightarrow> bool" where
  "whole_candle c = (is_finite (f_open c) \<and> is_finite (f_high c) \<and> is_finite (f_low c) \<and> is_finite (f_close c))"

definition merge_candle :: "string \<Rightarrow> fcandle \<Rightarrow> (jsnum \<times> chart_bucket) list \<Rightarrow> (jsnum \<times> chart_bucket) list" where
  "merge_candle code c bs =
     (case align_bucket (seconds_of_code code) code (f_time c) of
        None \<Rightarrow> bs
      | Some t \<Rightarrow> if \<not> whole_candle c then bs else AList.update t (case map_of bs t of None \<Rightarrow> open_bucket t c | Some b \<Rightarrow> join_bucket c b) bs)"

definition period_buckets :: "string \<Rightarrow> fcandle list \<Rightarrow> fcandle list" where
  "period_buckets code cs =
     (if cs = [] \<or> code = ''1m'' then cs
      else in_time_order (map (\<lambda>(t, b). (t, bk_candle b)) (fold (merge_candle code) cs [])))"

section \<open>Quotes that are far away\<close>

definition should_rebase :: "jsnum \<Rightarrow> jsnum \<Rightarrow> bool" where
  "should_rebase close quote =
     (is_finite close \<and> Fin 0 < close \<and> is_finite quote \<and> Fin 0 < quote \<and> lit (1 / 2) < \<bar>quote - close\<bar> / close)"

definition rebased :: "jsnum \<Rightarrow> fcandle \<Rightarrow> fcandle" where
  "rebased scale c =
     (if whole_candle c then
        let so = fixed_num 2 (f_open c * scale); sh = fixed_num 2 (f_high c * scale); sl = fixed_num 2 (f_low c * scale);
            sc = fixed_num 2 (f_close c * scale)
        in c\<lparr> f_open := so, f_high := math_max sh (math_max so (math_max sl sc)),
              f_low := math_min sl (math_min so (math_min sh sc)), f_close := sc \<rparr>
      else c)"

definition rebase_to_close :: "jsnum \<Rightarrow> fcandle list \<Rightarrow> fcandle list" where
  "rebase_to_close target cs =
     (if cs = [] \<or> \<not> is_finite target \<or> target \<le> Fin 0 then cs
      else
        let close = f_close (last cs); scale = target / close in
        if \<not> is_finite close \<or> close \<le> Fin 0 then cs
        else if \<not> is_finite scale \<or> scale \<le> Fin 0 \<or> scale < lit (1 / 20) \<or> Fin 20 < scale then cs
        else map (rebased scale) cs)"

definition align_to_quote :: "jsnum option \<Rightarrow> fcandle list \<Rightarrow> fcandle list" where
  "align_to_quote quote cs =
     (case quote of
        None \<Rightarrow> cs
      | Some q \<Rightarrow>
          if cs = [] \<or> \<not> is_finite q \<or> q \<le> Fin 0 then cs
          else if should_rebase (f_close (last cs)) q then rebase_to_close q cs else cs)"

text \<open>What an answer puts on the chart, at a quote that may be known.\<close>

definition charted :: "jsnum \<Rightarrow> string \<Rightarrow> jsnum option \<Rightarrow> jsval list \<Rightarrow> fcandle list" where
  "charted now period quote rows =
     (let cs = period_buckets (cp_interval (chart_config period)) (chart_candles now rows)
      in if cs = [] then [] else align_to_quote quote cs)"

section \<open>Whole seconds\<close>

text \<open>The start of the bucket of a time, by integer arithmetic.\<close>

definition bucket_start :: "int \<Rightarrow> string \<Rightarrow> int \<Rightarrow> int" where
  "bucket_start secs code t =
     (let d = (t + 19800) div 86400 in
      if code = ''1wk'' then (d - (d + 3) mod 7) * 86400 - 19800
      else if code = ''1mo'' then (case civil_from_days d of (y, m, _) \<Rightarrow> days_from_civil y m 1) * 86400 - 19800
      else if code = ''1d'' then d * 86400 - 19800
      else t div secs * secs)"

lemma finite_or_Fin [simp]: "finite_or (Fin r) = Some (Fin r)"
  by (simp add: finite_or_def)

lemma shifted_time: "0 \<le> t \<Longrightarrow> t \<le> 2 ^ 40 \<Longrightarrow> math_floor (Fin (of_int t) + ist_offset_seconds) = Fin (of_int (t + 19800))"
  using plus_int [of t 19800] by (simp add: ist_offset_seconds_def)

lemma ist_day_whole:
  assumes "0 \<le> t" "t \<le> 2 ^ 40"
  shows "ist_day (Fin (of_int t)) = Some ((t + 19800) div 86400)"
proof -
  have "Fin (of_int (t + 19800)) * Fin 1000 = Fin (of_int ((t + 19800) * 1000))"
    using times_int [of "t + 19800" 1000] assms by simp
  moreover have "(t + 19800) * 1000 \<le> 8640000000000000" using assms by simp
  then have "(of_int ((t + 19800) * 1000) :: rat) \<le> of_int 8640000000000000" by (simp only: of_int_le_iff)
  then have "\<bar>of_int ((t + 19800) * 1000) :: rat\<bar> \<le> 8640000000000000" using assms by simp
  moreover have "\<lfloor>of_int ((t + 19800) * 1000) / (86400000 :: rat)\<rfloor> = (t + 19800) div 86400"
  proof -
    have "\<lfloor>of_int ((t + 19800) * 1000) / (of_int 86400000 :: rat)\<rfloor> = (t + 19800) * 1000 div 86400000"
      by (rule floor_divide_of_int_eq)
    also have "\<dots> = (t + 19800) div 86400" by (simp add: div_mult2_eq [of _ 1000 86400, simplified])
    finally show ?thesis by simp
  qed
  ultimately show ?thesis unfolding ist_day_def shifted_time [OF assms] date_day_def by simp
qed

lemma ist_day_start_whole:
  assumes "0 \<le> d" "d \<le> 2 ^ 24"
  shows "ist_day_start d = Some (Fin (of_int (d * 86400 - 19800)))"
proof -
  have "math_floor (Fin (of_int (d * 86400000)) / Fin (of_int 1000)) = Fin (of_int (d * 86400000 div 1000))"
    using assms by (intro floor_div_exact) simp_all
  moreover have "d * 86400000 div 1000 = d * 86400" by simp
  ultimately have "math_floor (Fin (of_int (d * 86400000)) / Fin 1000) = Fin (of_int (d * 86400))" by simp
  moreover have "Fin (of_int (d * 86400)) - ist_offset_seconds = Fin (of_int (d * 86400 - 19800))"
    using minus_int [of "d * 86400" 19800] assms by (simp add: ist_offset_seconds_def)
  ultimately show ?thesis using assms by (simp add: ist_day_start_def)
qed

text \<open>The first day of the month of a day.\<close>

lemma month_start: "case civil_from_days d of (y, m, x) \<Rightarrow> days_from_civil y m 1 = d - (x - 1) \<and> 1 \<le> x \<and> x \<le> 31"
proof -
  obtain y m x where c: "civil_from_days d = (y, m, x)" by (cases "civil_from_days d") auto
  have "days_from_civil y m 1 = days_from_civil y m x - (x - 1)" by (simp add: days_from_civil_def Let_def)
  with c show ?thesis using civil_roundtrip [of d] civil_valid [of d] by simp
qed

lemma bucket_start_bounds:
  assumes "0 < secs"
  shows "bucket_start secs code t \<le> t \<and> t - max (31 * 86400) secs < bucket_start secs code t"
proof -
  define d where "d = (t + 19800) div 86400"
  have d: "d * 86400 \<le> t + 19800" "t + 19800 < d * 86400 + 86400" using div_bounds [of 86400 "t + 19800"] by (auto simp: d_def)
  have w: "0 \<le> (d + 3) mod 7" "(d + 3) mod 7 \<le> 6" using pos_mod_bound [of 7 "d + 3"] by auto
  obtain y m x where c: "civil_from_days d = (y, m, x)" by (cases "civil_from_days d") auto
  have m: "days_from_civil y m 1 = d - (x - 1)" "1 \<le> x" "x \<le> 31" using month_start [of d] by (auto simp: c)
  have "t div secs * secs \<le> t" "t < t div secs * secs + secs" using div_bounds [OF assms, of t] by (simp_all add: algebra_simps)
  with d w m show ?thesis unfolding bucket_start_def Let_def d_def [symmetric] c by auto
qed

text \<open>From 2000 on the code computes the same.\<close>

lemma align_whole:
  assumes "946684800 \<le> t" "t \<le> 2 ^ 40" "0 < secs" "secs \<le> 2 ^ 30"
  shows "align_bucket secs code (Fin (of_int t)) = Some (Fin (of_int (bucket_start secs code t)))"
proof -
  define d where "d = (t + 19800) div 86400"
  have d: "d * 86400 \<le> t + 19800" "t + 19800 < d * 86400 + 86400" using div_bounds [of 86400 "t + 19800"] by (auto simp: d_def)
  then have r: "10000 \<le> d" "d \<le> 2 ^ 24" using assms by auto
  have id: "ist_day (Fin (of_int t)) = Some d" using ist_day_whole [of t] assms by (simp add: d_def)
  have "((d + 4) mod 7 + 6) mod 7 = (d + 3) mod 7" by presburger
  moreover have "0 \<le> (d + 3) mod 7" "(d + 3) mod 7 \<le> 6" using pos_mod_bound [of 7 "d + 3"] by auto
  ultimately have week: "start_of_ist_week (Fin (of_int t)) = Some (Fin (of_int ((d - (d + 3) mod 7) * 86400 - 19800)))"
    using r by (simp only: start_of_ist_week_def id option.case Let_def) (rule ist_day_start_whole, auto)
  obtain y m x where c: "civil_from_days d = (y, m, x)" by (cases "civil_from_days d") auto
  have m: "days_from_civil y m 1 = d - (x - 1)" "1 \<le> x" "x \<le> 31" using month_start [of d] by (auto simp: c)
  have month: "start_of_ist_month (Fin (of_int t)) = Some (Fin (of_int (days_from_civil y m 1 * 86400 - 19800)))"
    using r m by (simp only: start_of_ist_month_def id option.case c prod.case) (rule ist_day_start_whole, auto)
  have f: "math_floor (Fin (of_int (t + 19800)) / Fin (of_int 86400)) = Fin (of_int d)"
    unfolding d_def using assms by (intro floor_div_exact) simp_all
  have "d * 86400 \<le> 2 ^ 53" using r by simp
  then have "Fin (of_int d) * Fin 86400 = Fin (of_int (d * 86400))" using times_int [of d 86400] r by simp
  moreover have "Fin (of_int (d * 86400)) - ist_offset_seconds = Fin (of_int (d * 86400 - 19800))"
    using minus_int [of "d * 86400" 19800] r by (simp add: ist_offset_seconds_def)
  ultimately have day: "start_of_ist_day (Fin (of_int t)) = Some (Fin (of_int (d * 86400 - 19800)))"
    using f shifted_time [of t] assms by (simp add: start_of_ist_day_def)
  have "math_floor (Fin (of_int t) / Fin (of_int secs)) = Fin (of_int (t div secs))"
    using assms by (intro floor_div_exact) simp_all
  moreover have "\<bar>t div secs * secs\<bar> \<le> 2 ^ 53"
    using bucket_start_bounds [of secs "[]" t] assms by (auto simp: bucket_start_def Let_def)
  then have "Fin (of_int (t div secs)) * Fin (of_int secs) = Fin (of_int (t div secs * secs))" by (rule times_int)
  ultimately have grid: "finite_or (math_floor (Fin (of_int t) / Fin (of_int secs)) * Fin (of_int secs)) = Some (Fin (of_int (t div secs * secs)))"
    by simp
  show ?thesis unfolding align_bucket_def bucket_start_def Let_def d_def [symmetric] c prod.case
    using week month day grid assms(3) by simp
qed

text \<open>On the grid and on days a bucket begins where its own bucket does; weeks begin on a Monday, months on their first day.\<close>

lemma bucket_start_idem: "0 < secs \<Longrightarrow> code \<noteq> ''1mo'' \<Longrightarrow> bucket_start secs code (bucket_start secs code t) = bucket_start secs code t"
proof -
  assume s: "0 < secs" "code \<noteq> ''1mo''"
  define d where "d = (t + 19800) div 86400"
  have "(d - (d + 3) mod 7 + 3) mod 7 = 0" by presburger
  then show ?thesis using s unfolding bucket_start_def Let_def d_def [symmetric] by auto
qed

lemma bucket_start_mono:
  assumes "s \<le> t" "0 < secs" "code \<noteq> ''1mo''"
  shows "bucket_start secs code s \<le> bucket_start secs code t"
proof -
  have d: "(s + 19800) div 86400 \<le> (t + 19800) div 86400" using assms by (intro zdiv_mono1) auto
  have "a - (a + 3) mod 7 \<le> b - (b + 3) mod 7" if "a \<le> b" for a b :: int
  proof -
    have "(a + 3) div 7 * 7 \<le> (b + 3) div 7 * 7" using that by (intro mult_right_mono zdiv_mono1) auto
    then show ?thesis by (simp add: minus_mod_eq_div_mult [symmetric] minus_div_mult_eq_mod [symmetric] algebra_simps)
  qed
  with d have "((s + 19800) div 86400 - ((s + 19800) div 86400 + 3) mod 7) \<le> ((t + 19800) div 86400 - ((t + 19800) div 86400 + 3) mod 7)" by blast
  moreover have "s div secs * secs \<le> t div secs * secs" using assms by (intro mult_right_mono zdiv_mono1) auto
  ultimately show ?thesis using d assms(3) unfolding bucket_start_def Let_def by auto
qed

section \<open>The candles on the chart\<close>

text \<open>A candle that is drawn: finite prices, the low lowest and the high highest, the volume a number and no less than zero.\<close>

definition solid :: "fcandle \<Rightarrow> bool" where
  "solid c \<longleftrightarrow> whole_candle c \<and> drawable c \<and> is_finite (f_volume c)"

lemma solidE:
  assumes "solid c"
  obtains op hi lo cl v where "f_open c = Fin op" "f_high c = Fin hi" "f_low c = Fin lo" "f_close c = Fin cl" "f_volume c = Fin v"
    "lo \<le> op" "lo \<le> cl" "op \<le> hi" "cl \<le> hi" "0 \<le> lo" "0 \<le> v"
  using assms by (auto simp: solid_def whole_candle_def drawable_def is_finite_iff)

lemma solidI:
  "f_open c = Fin op \<Longrightarrow> f_high c = Fin hi \<Longrightarrow> f_low c = Fin lo \<Longrightarrow> f_close c = Fin cl \<Longrightarrow> f_volume c = Fin v \<Longrightarrow>
   lo \<le> op \<Longrightarrow> lo \<le> cl \<Longrightarrow> op \<le> hi \<Longrightarrow> cl \<le> hi \<Longrightarrow> 0 \<le> lo \<Longrightarrow> 0 \<le> v \<Longrightarrow> solid c"
  by (simp add: solid_def whole_candle_def drawable_def)

text \<open>Candles that are solid, at whole seconds between 2000 and the range of the lemmas above, in strict order.\<close>

definition in_range :: "fcandle \<Rightarrow> bool" where
  "in_range c \<longleftrightarrow> f_time c = Fin (of_int (time_key c)) \<and> 946684800 \<le> time_key c \<and> time_key c \<le> 2 ^ 40"

definition chart_fit :: "fcandle list \<Rightarrow> bool" where
  "chart_fit cs \<longleftrightarrow> sorted_wrt (<) (map time_key cs) \<and> list_all (\<lambda>c. in_range c \<and> solid c) cs"

lemma fit_ready: "chart_fit cs \<Longrightarrow> chart_ready cs"
  by (auto simp: chart_fit_def chart_ready_def list_all_iff in_range_def solid_def)

lemma in_range_whole: "in_range c \<Longrightarrow> whole_time c"
  by (auto simp: in_range_def whole_time_def)

lemma to_finite_Fin: "to_finite_number v = Some x \<Longrightarrow> \<exists>r. x = Fin r"
  by (cases "to_number v") (auto simp: to_finite_number_def Let_def split: if_splits)

lemma chart_row_fields:
  assumes "chart_row now_sec c = Some x"
  obtains op hi lo cl where "f_open x = Fin op" "f_close x = Fin cl" "f_high x = Fin (max hi (max op (max cl lo)))"
    "f_low x = Fin (min lo (min op (min cl hi)))" "0 < op" "0 < hi" "0 < lo" "0 < cl" "is_finite (f_volume x)" "Fin 0 \<le> f_volume x"
    "f_time x = row_time c" "is_finite (row_time c)" "\<not> row_time c < Fin 946684800" "\<not> now_sec + Fin 604800 < row_time c"
proof -
  define vol where "vol = (case to_finite_number (field c ''volume'') of Some v \<Rightarrow> v | None \<Rightarrow> Fin 0)"
  have v: "is_finite vol" by (auto simp: vol_def to_finite_number_def Let_def split: option.split if_splits)
  obtain op hi lo cl where p: "to_finite_number (field c ''open'') = Some op" "to_finite_number (field c ''high'') = Some hi"
    "to_finite_number (field c ''low'') = Some lo" "to_finite_number (field c ''close'') = Some cl"
    using assms unfolding chart_row_def Let_def by (auto split: option.splits)
  then obtain a b d e where n: "op = Fin a" "hi = Fin b" "lo = Fin d" "cl = Fin e"
    using to_finite_Fin by metis
  note r = assms [unfolded chart_row_def Let_def p n option.case prod.case, folded vol_def]
  have q: "f_volume x = math_max (Fin 0) vol" "f_open x = Fin a" "f_close x = Fin e" "f_high x = Fin (max b (max a (max e d)))"
    "f_low x = Fin (min d (min a (min e b)))" "0 < a" "0 < b" "0 < d" "0 < e" "f_time x = row_time c" "is_finite (row_time c)"
    "\<not> row_time c < Fin 946684800" "\<not> now_sec + Fin 604800 < row_time c"
    using r by (auto split: if_splits)
  with v have "is_finite (f_volume x)" "Fin 0 \<le> f_volume x" by (auto simp: is_finite_iff)
  with q show thesis by (intro that [of a e b d]) simp_all
qed

text \<open>
  The rows of an answer give candles that can be drawn, strictly in the order of their times, whatever the order and the
  units of the answer; none is from before 2000 or from more than a week ahead.
\<close>

lemma chart_row_solid:
  assumes "chart_row now_sec c = Some x"
  shows "solid x"
proof -
  from assms obtain op hi lo cl where x: "f_open x = Fin op" "f_close x = Fin cl" "f_high x = Fin (max hi (max op (max cl lo)))"
    "f_low x = Fin (min lo (min op (min cl hi)))" "0 < op" "0 < hi" "0 < lo" "0 < cl" "is_finite (f_volume x)" "Fin 0 \<le> f_volume x"
    by (rule chart_row_fields)
  then obtain v where v: "f_volume x = Fin v" "0 \<le> v" by (auto simp: is_finite_iff)
  show ?thesis by (rule solidI [OF x(1,3,4,2) v(1)]) (use x v(2) in auto)
qed

lemma chart_row_in_range:
  assumes "chart_row (Fin (of_int n)) c = Some x" "\<bar>n\<bar> \<le> 2 ^ 39"
  shows "in_range x"
proof -
  from assms(1) obtain t where t: "f_time x = row_time c" "is_finite (row_time c)" "\<not> row_time c < Fin 946684800"
    "\<not> Fin (of_int n) + Fin 604800 < row_time c" by (rule chart_row_fields)
  then obtain r where r: "row_time c = Fin r" by (auto simp: is_finite_iff)
  have whole: "r = of_int \<lfloor>r\<rfloor>"
  proof -
    obtain u where "seconds_of (Fin u) = Fin r"
      using r t(2) unfolding row_time_def Let_def by (auto simp: is_finite_iff split: if_splits)
    then show ?thesis by (rule seconds_whole)
  qed
  have lo: "946684800 \<le> r" using t(3) by (simp add: r)
  have "Fin (of_int n) + Fin 604800 = Fin (of_int (n + 604800))" using plus_int [of n 604800] assms(2) by simp
  with t(4) have "r \<le> of_int (n + 604800)" by (simp add: r)
  moreover have "946684800 \<le> r" using t(3) by (simp add: r)
  ultimately have "946684800 \<le> \<lfloor>r\<rfloor>" "\<lfloor>r\<rfloor> \<le> n + 604800" using whole by (simp_all add: floor_le_iff le_floor_iff)
  then show ?thesis using whole assms(2) by (simp add: in_range_def time_key_def t(1) r)
qed

lemma ordered_fit:
  assumes "distinct (map fst seen)" "\<forall>(t, x) \<in> set seen. f_time x = t \<and> in_range x \<and> solid x"
  shows "chart_fit (in_time_order seen)"
  using assms time_order [of seen] by (fastforce simp: chart_fit_def list_all_iff intro: in_range_whole)

lemma chart_candles_fit:
  assumes "math_floor (now / Fin 1000) = Fin (of_int n)" "\<bar>n\<bar> \<le> 2 ^ 39"
  shows "chart_fit (chart_candles now rows)"
proof -
  have "in_range x \<and> solid x" if "chart_row (Fin (of_int n)) c = Some x" for c x
    using that chart_row_solid chart_row_in_range [OF that assms(2)] by blast
  with kept_invariant [of rows "chart_row (Fin (of_int n))" "\<lambda>x. in_range x \<and> solid x"]
  show ?thesis unfolding chart_candles_def assms(1) by (intro ordered_fit) auto
qed

section \<open>A bucket is the summary of its candles\<close>

definition bucket_of :: "string \<Rightarrow> fcandle \<Rightarrow> jsnum option" where
  "bucket_of code c = align_bucket (seconds_of_code code) code (f_time c)"

definition bucket_group :: "string \<Rightarrow> jsnum \<Rightarrow> fcandle list \<Rightarrow> fcandle list" where
  "bucket_group code t cs = filter (\<lambda>c. bucket_of code c = Some t) cs"

text \<open>First open, last close, highest high, lowest low, and the volumes added up in order.\<close>

definition bucket_summary :: "jsnum \<Rightarrow> fcandle list \<Rightarrow> fcandle" where
  "bucket_summary t cs =
     \<lparr> f_time = t, f_open = f_open (hd cs), f_high = foldl math_max (f_high (hd cs)) (map f_high (tl cs)),
       f_low = foldl math_min (f_low (hd cs)) (map f_low (tl cs)), f_close = f_close (last cs),
       f_volume = foldl (+) (f_volume (hd cs)) (map f_volume (tl cs)) \<rparr>"

definition summary_bucket :: "jsnum \<Rightarrow> fcandle list \<Rightarrow> chart_bucket" where
  "summary_bucket t cs = \<lparr> bk_candle = bucket_summary t cs, bk_first = f_time (hd cs), bk_last = f_time (last cs) \<rparr>"

lemma candle_volume_solid: "solid c \<Longrightarrow> candle_volume c = f_volume c"
  by (erule solidE) (simp add: candle_volume_def)

lemma solid_extremes:
  assumes "solid c"
  shows "math_max (f_high c) (math_max (f_open c) (f_close c)) = f_high c" "math_min (f_low c) (math_min (f_open c) (f_close c)) = f_low c"
  using assms by (auto elim!: solidE)

lemma open_is_summary: "solid c \<Longrightarrow> open_bucket t c = summary_bucket t [c]"
  by (simp add: open_bucket_def summary_bucket_def bucket_summary_def candle_volume_solid)

lemma join_is_summary:
  assumes "solid c" "xs \<noteq> []" "\<not> f_time c < f_time (hd xs)" "f_time (last xs) \<le> f_time c"
  shows "join_bucket c (summary_bucket t xs) = summary_bucket t (xs @ [c])"
  using assms by (simp add: join_bucket_def summary_bucket_def bucket_summary_def Let_def candle_volume_solid solid_extremes)

lemma fit_snoc:
  assumes "chart_fit (cs @ [c])"
  shows "chart_fit cs" "solid c" "in_range c" "\<And>x. x \<in> set cs \<Longrightarrow> f_time x < f_time c"
  using assms by (auto simp: chart_fit_def sorted_wrt_append list_all_iff in_range_def)

lemma merge_fold:
  assumes "chart_fit cs"
  shows "distinct (map fst (fold (merge_candle code) cs [])) \<and>
    map_of (fold (merge_candle code) cs []) t =
      (if bucket_group code t cs = [] then None else Some (summary_bucket t (bucket_group code t cs)))"
  using assms
proof (induction cs arbitrary: t rule: rev_induct)
  case (snoc c cs)
  note h = fit_snoc [OF snoc.prems]
  let ?bs = "fold (merge_candle code) cs []"
  have IH: "distinct (map fst ?bs)" "map_of ?bs t =
      (if bucket_group code t cs = [] then None else Some (summary_bucket t (bucket_group code t cs)))" for t
    using snoc.IH [OF h(1)] by auto
  have w: "whole_candle c" using h(2) by (simp add: solid_def)
  show ?case
  proof (cases "bucket_of code c")
    case None
    then have "merge_candle code c ?bs = ?bs" by (simp add: merge_candle_def [of code c] bucket_of_def)
    then show ?thesis using IH None by (simp add: bucket_group_def)
  next
    case (Some u)
    let ?b = "case map_of ?bs u of None \<Rightarrow> open_bucket u c | Some b \<Rightarrow> join_bucket c b"
    have m: "fold (merge_candle code) (cs @ [c]) [] = AList.update u ?b ?bs"
      using Some w by (simp add: merge_candle_def [of code c] bucket_of_def)
    have "?b = summary_bucket u (bucket_group code u cs @ [c])"
    proof (cases "bucket_group code u cs = []")
      case True
      then show ?thesis using open_is_summary [OF h(2)] by (simp add: IH(2))
    next
      case False
      then have "hd (bucket_group code u cs) \<in> set cs" "last (bucket_group code u cs) \<in> set cs"
        using hd_in_set [OF False] last_in_set [OF False] by (auto simp: bucket_group_def)
      then have "\<not> f_time c < f_time (hd (bucket_group code u cs))" "f_time (last (bucket_group code u cs)) \<le> f_time c"
        using h(4) by (meson less_jsnum_irrefl less_jsnum_trans, meson less_jsnum_imp_le)
      with False join_is_summary [OF h(2) False] show ?thesis by (simp add: IH(2))
    qed
    with Some IH show ?thesis unfolding m by (auto simp: bucket_group_def update_conv' distinct_update)
  qed
qed (simp add: bucket_group_def)

lemma bucket_entries:
  assumes "chart_fit cs"
  shows "(t, b) \<in> set (fold (merge_candle code) cs []) \<longleftrightarrow> bucket_group code t cs \<noteq> [] \<and> b = summary_bucket t (bucket_group code t cs)"
proof -
  have d: "distinct (map fst (fold (merge_candle code) cs []))" using merge_fold [OF assms] by blast
  show ?thesis unfolding map_of_eq_Some_iff [OF d, symmetric] using merge_fold [OF assms, of code t] by auto
qed

theorem buckets_summarise:
  assumes "chart_fit cs" "cs \<noteq> []" "code \<noteq> ''1m''"
  shows "c \<in> set (period_buckets code cs) \<longleftrightarrow> (\<exists>t. bucket_group code t cs \<noteq> [] \<and> c = bucket_summary t (bucket_group code t cs))"
proof -
  have "c \<in> set (period_buckets code cs) \<longleftrightarrow> (\<exists>t b. (t, b) \<in> set (fold (merge_candle code) cs []) \<and> c = bk_candle b)"
    using assms(2,3) by (force simp: period_buckets_def)
  then show ?thesis using bucket_entries [OF assms(1)] by (auto simp: summary_bucket_def)
qed

lemma foldl_max:
  assumes "a \<noteq> NaN" "NaN \<notin> set ys"
  shows "foldl math_max a ys \<noteq> NaN \<and> (\<forall>y \<in> insert a (set ys). y \<le> foldl math_max a ys)"
  using assms
proof (induction ys arbitrary: a)
  case (Cons y ys)
  then have "math_max a y \<noteq> NaN" and g: "a \<le> math_max a y" "y \<le> math_max a y" using math_max_ge [of a y] by auto
  with Cons have "foldl math_max (math_max a y) ys \<noteq> NaN" "math_max a y \<le> foldl math_max (math_max a y) ys"
    "\<forall>z \<in> set ys. z \<le> foldl math_max (math_max a y) ys" by auto
  with g show ?case by (auto intro: le_jsnum_trans)
qed simp

lemma foldl_min:
  assumes "a \<noteq> NaN" "NaN \<notin> set ys"
  shows "foldl math_min a ys \<noteq> NaN \<and> (\<forall>y \<in> insert a (set ys). foldl math_min a ys \<le> y)"
  using assms
proof (induction ys arbitrary: a)
  case (Cons y ys)
  then have "math_min a y \<noteq> NaN" and g: "math_min a y \<le> a" "math_min a y \<le> y" using math_min_le [of a y] by auto
  with Cons have "foldl math_min (math_min a y) ys \<noteq> NaN" "foldl math_min (math_min a y) ys \<le> math_min a y"
    "\<forall>z \<in> set ys. foldl math_min (math_min a y) ys \<le> z" by auto
  with g show ?case by (auto intro: le_jsnum_trans)
qed simp

lemma foldl_min_ge: "z \<le> a \<Longrightarrow> \<forall>y \<in> set ys. z \<le> y \<Longrightarrow> z \<le> foldl math_min a ys"
  by (induction ys arbitrary: a) (auto intro: math_min_ge)

lemma foldl_plus_nonneg: "Fin 0 \<le> a \<Longrightarrow> \<forall>y \<in> set ys. Fin 0 \<le> y \<Longrightarrow> Fin 0 \<le> foldl (+) a ys"
  by (induction ys arbitrary: a) (auto intro: plus_nonneg)

text \<open>Every candle lies between the low and the high of its bucket.\<close>

lemma summary_spans:
  assumes "list_all solid xs" "c \<in> set xs"
  shows "f_low (bucket_summary t xs) \<le> f_low c \<and> f_high c \<le> f_high (bucket_summary t xs)"
proof -
  obtain x ys where xs: "xs = x # ys" using assms(2) by (cases xs) auto
  have n: "f_high c \<noteq> NaN" "f_low c \<noteq> NaN" if "c \<in> set xs" for c using that assms(1) by (auto simp: list_all_iff elim!: solidE)
  have "f_high x \<noteq> NaN" "NaN \<notin> set (map f_high ys)" "f_low x \<noteq> NaN" "NaN \<notin> set (map f_low ys)"
    using n by (force simp: xs)+
  then show ?thesis using foldl_max [of "f_high x" "map f_high ys"] foldl_min [of "f_low x" "map f_low ys"] assms(2)
    by (auto simp: xs bucket_summary_def)
qed

lemma summary_drawable:
  assumes "list_all solid xs" "xs \<noteq> []"
  shows "drawable (bucket_summary t xs)"
proof -
  let ?b = "bucket_summary t xs"
  have s: "solid (hd xs)" "solid (last xs)" using assms by (auto simp: list_all_iff)
  have "f_low ?b \<le> f_low (hd xs)" "f_high (hd xs) \<le> f_high ?b" "f_low ?b \<le> f_low (last xs)" "f_high (last xs) \<le> f_high ?b"
    using summary_spans [OF assms(1)] assms(2) by auto
  moreover have "f_low (hd xs) \<le> f_open (hd xs)" "f_open (hd xs) \<le> f_high (hd xs)" "f_low (last xs) \<le> f_close (last xs)"
    "f_close (last xs) \<le> f_high (last xs)" using s by (auto simp: solid_def drawable_def)
  moreover have "f_open ?b = f_open (hd xs)" "f_close ?b = f_close (last xs)" by (simp_all add: bucket_summary_def)
  moreover have "f_low ?b \<le> f_low (hd xs)" "Fin 0 \<le> f_low ?b" "Fin 0 \<le> f_volume ?b"
  proof -
    have p: "Fin 0 \<le> f_low c \<and> Fin 0 \<le> f_volume c" if "c \<in> set xs" for c using that assms(1) by (auto simp: list_all_iff solid_def drawable_def)
    then have "Fin 0 \<le> f_low (hd xs)" "Fin 0 \<le> f_volume (hd xs)" "\<forall>c \<in> set (tl xs). Fin 0 \<le> f_low c \<and> Fin 0 \<le> f_volume c"
      using assms(2) by (auto simp: list.set_sel(2))
    then show "Fin 0 \<le> f_low ?b" "Fin 0 \<le> f_volume ?b"
      unfolding bucket_summary_def by (auto intro!: foldl_min_ge foldl_plus_nonneg)
    show "f_low ?b \<le> f_low (hd xs)" using summary_spans [OF assms(1)] assms(2) by auto
  qed
  ultimately show ?thesis unfolding drawable_def by (metis le_jsnum_trans)
qed

lemma code_seconds: "0 < seconds_of_code code" "seconds_of_code code \<le> 2 ^ 30"
proof -
  have "list_all (\<lambda>(k, n). 0 < n \<and> n \<le> 2 ^ 30) interval_seconds" by (simp add: interval_seconds_def)
  then have "map_of interval_seconds code = Some n \<Longrightarrow> 0 < n \<and> n \<le> 2 ^ 30" for n
    by (auto dest!: map_of_SomeD simp: list_all_iff)
  then show "0 < seconds_of_code code" "seconds_of_code code \<le> 2 ^ 30" by (auto simp: seconds_of_code_def split: option.split)
qed

lemma bucket_of_whole:
  "in_range c \<Longrightarrow> bucket_of code c = Some (Fin (of_int (bucket_start (seconds_of_code code) code (time_key c))))"
  using align_whole [of "time_key c" "seconds_of_code code" code] code_seconds [of code] by (simp add: bucket_of_def in_range_def)

lemma bucket_group_solid: "chart_fit cs \<Longrightarrow> list_all solid (bucket_group code t cs)"
  by (auto simp: chart_fit_def list_all_iff bucket_group_def)

lemma bucket_whole:
  assumes "chart_fit cs" "bucket_group code t cs \<noteq> []"
  shows "\<exists>k. t = Fin (of_int k) \<and> 0 \<le> k \<and> k \<le> 2 ^ 40"
proof -
  obtain c where c: "c \<in> set cs" "bucket_of code c = Some t" using assms(2) by (auto simp: bucket_group_def filter_empty_conv)
  then have r: "in_range c" using assms(1) by (auto simp: chart_fit_def list_all_iff)
  let ?k = "bucket_start (seconds_of_code code) code (time_key c)"
  have "?k \<le> 2 ^ 40" using bucket_start_bounds [OF code_seconds(1)] r by (meson in_range_def order_trans)
  moreover have "0 \<le> ?k"
  proof -
    have "seconds_of_code code \<le> 2592000"
    proof -
      have "list_all (\<lambda>(k, n). n \<le> 2592000) interval_seconds" by (simp add: interval_seconds_def)
      then have "map_of interval_seconds code = Some n \<Longrightarrow> n \<le> 2592000" for n by (auto dest!: map_of_SomeD simp: list_all_iff)
      then show ?thesis by (auto simp: seconds_of_code_def split: option.split)
    qed
    then show ?thesis using bucket_start_bounds [OF code_seconds(1), of code code "time_key c"] r by (auto simp: in_range_def)
  qed
  ultimately show ?thesis using bucket_of_whole [OF r, of code] c(2) by auto
qed

text \<open>The buckets of a period are drawn in strict order of their times, whatever the period.\<close>

lemma period_buckets_ready:
  assumes "chart_fit cs"
  shows "chart_ready (period_buckets code cs)"
proof (cases "cs = [] \<or> code = ''1m''")
  case True
  then show ?thesis using fit_ready [OF assms] by (simp add: period_buckets_def)
next
  case False
  let ?e = "map (\<lambda>(t, b). (t, bk_candle b)) (fold (merge_candle code) cs [])"
  have d: "distinct (map fst ?e)" using merge_fold [OF assms, of code] by (simp add: case_prod_beta o_def)
  have "f_time x = t \<and> whole_time x \<and> drawable x" if "(t, x) \<in> set ?e" for t x
  proof -
    from that obtain b where "(t, b) \<in> set (fold (merge_candle code) cs [])" "x = bk_candle b" by auto
    then have g: "bucket_group code t cs \<noteq> []" "x = bucket_summary t (bucket_group code t cs)"
      using bucket_entries [OF assms] by (auto simp: summary_bucket_def)
    moreover obtain k where "t = Fin (of_int k)" "0 \<le> k" "k \<le> 2 ^ 40" using bucket_whole [OF assms g(1)] by auto
    ultimately show ?thesis using summary_drawable [OF bucket_group_solid [OF assms] g(1)]
      by (simp add: whole_time_def time_key_def bucket_summary_def)
  qed
  then have "\<forall>(t, x) \<in> set ?e. f_time x = t \<and> whole_time x \<and> drawable x" by blast
  from ordered_chart_ready [OF d this] show ?thesis using False by (simp add: period_buckets_def)
qed

text \<open>No volume is lost or counted twice: the volumes of the buckets add up to those of the candles.\<close>

definition whole_volume :: "fcandle \<Rightarrow> int" where
  "whole_volume c = (case f_volume c of Fin r \<Rightarrow> \<lfloor>r\<rfloor> | _ \<Rightarrow> 0)"

definition counts_whole :: "fcandle list \<Rightarrow> bool" where
  "counts_whole cs \<longleftrightarrow> list_all (\<lambda>c. f_volume c = Fin (of_int (whole_volume c)) \<and> 0 \<le> whole_volume c) cs \<and>
     sum_list (map whole_volume cs) \<le> 2 ^ 53"

lemma summary_volume:
  assumes "counts_whole xs" "xs \<noteq> []"
  shows "f_volume (bucket_summary t xs) = Fin (of_int (sum_list (map whole_volume xs)))"
proof -
  obtain x ys where xs: "xs = x # ys" using assms(2) by (cases xs) auto
  have v: "f_volume c = Fin (of_int (whole_volume c)) \<and> 0 \<le> whole_volume c" if "c \<in> set xs" for c
    using assms(1) that by (auto simp: counts_whole_def list_all_iff)
  then have a: "map (\<lambda>c. \<bar>whole_volume c\<bar>) ys = map whole_volume ys" "0 \<le> whole_volume x" by (auto simp: xs)
  have "foldl (\<lambda>s c. s + f_volume c) (Fin (of_int (whole_volume x))) ys = Fin (of_int (whole_volume x + sum_list (map whole_volume ys)))"
  proof (rule sum_int_exact)
    show "f_volume c = Fin (of_int (whole_volume c))" if "c \<in> set ys" for c using v that by (simp add: xs)
    show "\<bar>whole_volume x\<bar> + sum_list (map (\<lambda>c. \<bar>whole_volume c\<bar>) ys) \<le> 2 ^ 53"
      unfolding a(1) using assms(1) a(2) by (simp add: counts_whole_def xs)
  qed
  then show ?thesis using v [of x] by (simp add: bucket_summary_def xs foldl_map)
qed

lemma sum_by_key:
  fixes v :: "'a \<Rightarrow> int"
  assumes "finite K" "f ` set cs \<subseteq> K"
  shows "(\<Sum>k\<in>K. sum_list (map v (filter (\<lambda>c. f c = k) cs))) = sum_list (map v cs)"
  using assms(2)
proof (induction cs)
  case (Cons c cs)
  have "(\<Sum>k\<in>K. sum_list (map v (filter (\<lambda>c. f c = k) (c # cs)))) =
      (\<Sum>k\<in>K. (if f c = k then v c else 0) + sum_list (map v (filter (\<lambda>c. f c = k) cs)))"
    by (rule sum.cong) auto
  also have "\<dots> = v c + sum_list (map v cs)" using Cons assms(1) by (simp add: sum.distrib)
  finally show ?case by simp
qed simp

lemma counts_part: "counts_whole cs \<Longrightarrow> counts_whole (filter P cs)"
proof -
  assume h: "counts_whole cs"
  have "sum_list (map whole_volume (filter P cs)) \<le> sum_list (map whole_volume cs)"
    using h unfolding counts_whole_def by (induction cs) auto
  with h show ?thesis by (auto simp: counts_whole_def list_all_iff)
qed

theorem volume_conserved:
  assumes "chart_fit cs" "counts_whole cs"
  shows "sum_list (map whole_volume (period_buckets code cs)) = sum_list (map whole_volume cs)"
proof (cases "cs = [] \<or> code = ''1m''")
  case False
  let ?bs = "fold (merge_candle code) cs []" and ?v = "\<lambda>t. sum_list (map whole_volume (bucket_group code t cs))"
  have d: "distinct (map fst ?bs)" using merge_fold [OF assms(1)] by blast
  have e: "whole_volume (bk_candle b) = ?v t" if "(t, b) \<in> set ?bs" for t b
    using that bucket_entries [OF assms(1)] summary_volume [OF counts_part [OF assms(2)]]
    by (auto simp: bucket_group_def summary_bucket_def whole_volume_def)
  have "mset (map whole_volume (period_buckets code cs)) = mset (map (\<lambda>(t, b). whole_volume (bk_candle b)) ?bs)"
    using False by (simp add: period_buckets_def in_time_order_def case_prod_beta' multiset.map_comp o_def del: mset_map) (simp add: case_prod_beta' multiset.map_comp o_def)
  then have "sum_list (map whole_volume (period_buckets code cs)) = sum_list (map (\<lambda>(t, b). whole_volume (bk_candle b)) ?bs)"
    by (metis sum_mset_sum_list)
  also have "\<dots> = sum_list (map ?v (map fst ?bs))" using e by (intro arg_cong [where f = sum_list]) auto
  also have "\<dots> = (\<Sum>t\<in>fst ` set ?bs. ?v t)" using sum_list_distinct_conv_sum_set [OF d, of ?v] by (simp only: set_map)
  also have "\<dots> = (\<Sum>k\<in>Some ` fst ` set ?bs. sum_list (map whole_volume (filter (\<lambda>c. bucket_of code c = k) cs)))"
    by (simp add: sum.reindex bucket_group_def)
  also have "\<dots> = sum_list (map whole_volume cs)"
  proof (rule sum_by_key)
    show "bucket_of code ` set cs \<subseteq> Some ` fst ` set ?bs"
    proof
      fix k assume "k \<in> bucket_of code ` set cs"
      then obtain c t where c: "c \<in> set cs" "k = Some t" "bucket_of code c = Some t"
        using bucket_of_whole assms(1) by (fastforce simp: chart_fit_def list_all_iff)
      then have "bucket_group code t cs \<noteq> []" by (auto simp: bucket_group_def filter_empty_conv)
      then have "(t, summary_bucket t (bucket_group code t cs)) \<in> set ?bs" using bucket_entries [OF assms(1)] by blast
      then show "k \<in> Some ` fst ` set ?bs" using c(2) by force
    qed
  qed simp
  finally show ?thesis .
qed (auto simp: period_buckets_def)

section \<open>A chart that is scaled to a quote\<close>

lemma fixed_not_NaN: "z \<noteq> NaN \<Longrightarrow> fixed_num 2 z \<noteq> NaN"
  by (cases z) auto

lemma fixed_nonneg: "Fin 0 \<le> z \<Longrightarrow> Fin 0 \<le> fixed_num 2 z"
  by (cases z) (auto simp: fixed_int_def intro!: rnd_nonneg)

lemma envelope_of_four:
  assumes "a \<noteq> NaN" "b \<noteq> NaN" "d \<noteq> NaN" "e \<noteq> NaN"
  shows "b \<le> math_max a (math_max b (math_max d e)) \<and> e \<le> math_max a (math_max b (math_max d e)) \<and>
    math_min d (math_min b (math_min a e)) \<le> b \<and> math_min d (math_min b (math_min a e)) \<le> e"
proof -
  have "math_max d e \<noteq> NaN" "math_min a e \<noteq> NaN" using assms by auto
  moreover from this have "math_max b (math_max d e) \<noteq> NaN" "math_min b (math_min a e) \<noteq> NaN" using assms by auto
  ultimately have "e \<le> math_max d e" "b \<le> math_max b (math_max d e)" "math_max d e \<le> math_max b (math_max d e)"
    "math_max b (math_max d e) \<le> math_max a (math_max b (math_max d e))" "math_min a e \<le> e" "math_min b (math_min a e) \<le> b"
    "math_min b (math_min a e) \<le> math_min a e" "math_min d (math_min b (math_min a e)) \<le> math_min b (math_min a e)"
    using assms math_max_ge math_min_le by blast+
  then show ?thesis by (blast intro: le_jsnum_trans)
qed

lemma rebased_drawable:
  assumes "drawable c" "0 < k"
  shows "drawable (rebased (Fin k) c) \<and> f_time (rebased (Fin k) c) = f_time c"
proof (cases "whole_candle c")
  case True
  define f where "f z = fixed_num 2 (z * Fin k)" for z
  have q: "Fin 0 \<le> f z" if "Fin 0 \<le> z" for z unfolding f_def using times_Fin_nonneg [OF that assms(2)] by (rule fixed_nonneg)
  have n: "Fin 0 \<le> f_open c" "Fin 0 \<le> f_high c" "Fin 0 \<le> f_low c" "Fin 0 \<le> f_close c"
    using assms(1) unfolding drawable_def by (meson le_jsnum_trans)+
  have r: "rebased (Fin k) c = c\<lparr> f_open := f (f_open c),
      f_high := math_max (f (f_high c)) (math_max (f (f_open c)) (math_max (f (f_low c)) (f (f_close c)))),
      f_low := math_min (f (f_low c)) (math_min (f (f_open c)) (math_min (f (f_high c)) (f (f_close c)))), f_close := f (f_close c) \<rparr>"
    using True unfolding rebased_def f_def Let_def by (simp only: if_True)
  note p = q [OF n(1)] q [OF n(2)] q [OF n(3)] q [OF n(4)]
  then have x: "f (f_open c) \<noteq> NaN" "f (f_high c) \<noteq> NaN" "f (f_low c) \<noteq> NaN" "f (f_close c) \<noteq> NaN"
    using le_jsnum_not_NaN by blast+
  from envelope_of_four [OF x(2,1,3,4)] show ?thesis using assms(1) p unfolding r drawable_def by (auto intro: math_min_ge)
qed (use assms in \<open>simp add: rebased_def\<close>)

lemma time_key_cong: "f_time a = f_time b \<Longrightarrow> time_key a = time_key b"
  by (simp add: time_key_def)

lemma rebase_shape:
  "rebase_to_close q cs = cs \<or> (\<exists>k. 0 < k \<and> q / f_close (last cs) = Fin k \<and> rebase_to_close q cs = map (rebased (Fin k)) cs)"
  by (auto simp: rebase_to_close_def Let_def is_finite_iff)

lemma rebase_ready: "chart_ready cs \<Longrightarrow> chart_ready (rebase_to_close q cs)"
proof -
  assume h: "chart_ready cs"
  have "chart_ready (map (rebased (Fin k)) cs)" if "0 < k" for k
  proof -
    have "f_time (rebased (Fin k) c) = f_time c \<and> drawable (rebased (Fin k) c)" if "c \<in> set cs" for c
      using rebased_drawable [OF _ \<open>0 < k\<close>] h that by (auto simp: chart_ready_def list_all_iff)
    moreover from this have t: "map time_key (map (rebased (Fin k)) cs) = map time_key cs" by (auto intro: time_key_cong)
    moreover have "sorted_wrt (<) (map time_key (map (rebased (Fin k)) cs))" unfolding t using h by (simp add: chart_ready_def)
    ultimately show ?thesis using h by (auto simp: chart_ready_def list_all_iff time_key_def)
  qed
  with rebase_shape [of q cs] show ?thesis using h by auto
qed

lemma align_ready: "chart_ready cs \<Longrightarrow> chart_ready (align_to_quote q cs)"
  by (auto simp: align_to_quote_def rebase_ready split: option.split)

theorem charted_ready:
  assumes "math_floor (now / Fin 1000) = Fin (of_int n)" "\<bar>n\<bar> \<le> 2 ^ 39"
  shows "chart_ready (charted now period quote rows)"
proof -
  have "chart_ready (period_buckets (cp_interval (chart_config period)) (chart_candles now rows))"
    by (intro period_buckets_ready chart_candles_fit [OF assms])
  then show ?thesis by (auto simp: charted_def Let_def intro: align_ready)
qed

lemma rebase_times: "map f_time (rebase_to_close q cs) = map f_time cs"
proof -
  have "f_time (rebased (Fin k) c) = f_time c" for k c by (simp add: rebased_def Let_def)
  then have "map f_time (map (rebased (Fin k)) cs) = map f_time cs" for k by simp
  with rebase_shape [of q cs] show ?thesis by auto
qed

text \<open>A quote less than half away leaves the history alone.\<close>

lemma near_quote_keeps: "\<not> should_rebase (f_close (last cs)) q \<Longrightarrow> align_to_quote (Some q) cs = cs"
  by (simp add: align_to_quote_def)

end
