(* ===== verification/LiveChart.thy ===== *)
theory LiveChart
  imports ChartCandles PriceResolver
begin

text \<open>
  The chart component of \<open>frontend/src/components/trading/LiveChart.jsx\<close>: its refs and states are the record
  \<open>live_chart\<close>, an effect or handler is a function on it. The drawing library is not modelled: what is drawn is what
  \<open>lch_candles\<close> holds. A quote that comes is kept (\<open>queue_quote\<close>) until the next frame (\<open>live_frame\<close>).
\<close>

section \<open>The state\<close>

record volume_state =
  vs_bucket :: jsnum
  vs_base :: jsnum
  vs_last :: jsnum

record pending_quote =
  pq_ltp :: jsnum
  pq_volume :: "jsnum option"
  pq_ts :: jsnum
  pq_seconds :: int
  pq_code :: string
  pq_rollover :: bool

record live_chart =
  lch_candles :: "fcandle list"
  lch_volume :: "volume_state option"
  lch_pending :: "pending_quote option"
  lch_frame :: bool
  lch_line :: "jsnum option"

definition new_live_chart :: live_chart where
  "new_live_chart = \<lparr> lch_candles = [], lch_volume = None, lch_pending = None, lch_frame = False, lch_line = None \<rparr>"

section \<open>Quotes\<close>

definition external_price :: "jsval \<Rightarrow> jsnum option" where
  "external_price live_price = (let p = to_number live_price in if is_finite p \<and> Fin 0 < p then Some p else None)"

definition chart_quote :: "jsnum \<Rightarrow> jsval \<Rightarrow> bool \<Rightarrow> jsval \<Rightarrow> jsval" where
  "chart_quote now live_price isolate store_quote =
     (case external_price live_price of
        Some p \<Rightarrow> JObj [(''price'', JNum p), (''timestamp'', JNum (math_floor (now / Fin 1000))), (''source'', JStr ''futures_ws'')]
      | None \<Rightarrow> if isolate then JNull else store_quote)"

definition price_for_effect :: "jsval \<Rightarrow> jsval \<Rightarrow> jsnum option" where
  "price_for_effect live_price quote =
     (case external_price live_price of Some p \<Rightarrow> Some p | None \<Rightarrow> to_finite_number (field quote ''price''))"

definition closed_statuses :: "string list" where
  "closed_statuses = [''pre_market'', ''closing'', ''after_market'', ''closed'', ''holiday'', ''weekend'', ''demo'']"

definition quote_blocked :: "jsnum \<Rightarrow> jsnum \<Rightarrow> jsval \<Rightarrow> bool" where
  "quote_blocked now last_quote_at quote =
     (lower_text (field quote ''market_status'') \<in> set closed_statuses \<or> (Fin 0 < last_quote_at \<and> Fin 300000 < now - last_quote_at))"

definition quote_seconds :: "(string \<Rightarrow> jsnum) \<Rightarrow> jsnum \<Rightarrow> bool \<Rightarrow> jsval \<Rightarrow> jsnum option" where
  "quote_seconds date_parse now isolate quote =
     (if isolate then Some (math_floor (now / Fin 1000))
      else parse_quote_epoch date_parse (first_field quote [''last_trade_time'', ''timestamp'', ''ft'']))"

definition accept_quote ::
  "(string \<Rightarrow> jsnum) \<Rightarrow> jsnum \<Rightarrow> string \<Rightarrow> bool \<Rightarrow> bool \<Rightarrow> jsnum \<Rightarrow> jsnum option \<Rightarrow> jsval \<Rightarrow> jsval \<Rightarrow> pending_quote option" where
  "accept_quote date_parse now period isolate market_live last_quote_at price quote live_volume =
     (case price of
        None \<Rightarrow> None
      | Some ltp \<Rightarrow>
          if \<not> market_live \<or> \<not> is_finite ltp \<or> ltp \<le> Fin 0 then None
          else if \<not> isolate \<and> quote_blocked now last_quote_at quote then None
          else
            map_option
              (\<lambda>ts. \<lparr> pq_ltp = ltp, pq_volume = to_finite_number (nullish (field quote ''volume'') live_volume), pq_ts = ts,
                 pq_seconds = get_interval_seconds period, pq_code = cp_interval (chart_config period),
                 pq_rollover = truthy (field quote ''session_rollover'') \<rparr>)
              (quote_seconds date_parse now isolate quote))"

definition queue_quote :: "pending_quote option \<Rightarrow> live_chart \<Rightarrow> live_chart" where
  "queue_quote q s = (case q of None \<Rightarrow> s | Some p \<Rightarrow> s\<lparr> lch_pending := Some p, lch_frame := True \<rparr>)"

section \<open>Candles\<close>

definition show_rows :: "jsnum \<Rightarrow> string \<Rightarrow> jsnum option \<Rightarrow> jsval list \<Rightarrow> live_chart \<Rightarrow> live_chart" where
  "show_rows now period quote rows s =
     (let cs = charted now period quote rows
      in s\<lparr> lch_candles := cs, lch_volume := if cs = [] then lch_volume s else None \<rparr>)"

definition safeguard :: "bool \<Rightarrow> jsnum option \<Rightarrow> live_chart \<Rightarrow> live_chart" where
  "safeguard market_live quote s =
     (case quote of
        None \<Rightarrow> s
      | Some q \<Rightarrow>
          if \<not> market_live \<or> q \<le> Fin 0 \<or> lch_candles s = [] \<or> \<not> should_rebase (f_close (last (lch_candles s))) q then s
          else s\<lparr> lch_candles := rebase_to_close q (lch_candles s) \<rparr>)"

definition clear_symbol :: "live_chart \<Rightarrow> live_chart" where
  "clear_symbol s = s\<lparr> lch_candles := [], lch_volume := None, lch_line := None \<rparr>"

definition unmount_chart :: "live_chart \<Rightarrow> live_chart" where
  "unmount_chart s = s\<lparr> lch_frame := False, lch_pending := None, lch_volume := None \<rparr>"

text \<open>The volume of a candle that opens, and of one that grows.\<close>

definition opening_volume :: "jsnum option \<Rightarrow> jsnum \<Rightarrow> volume_state option \<Rightarrow> jsnum \<times> volume_state option" where
  "opening_volume cum bucket st =
     (case cum of
        None \<Rightarrow> (Fin 0, None)
      | Some v \<Rightarrow>
          if \<not> Fin 0 \<le> v then (Fin 0, None)
          else
            let base = (case st of Some x \<Rightarrow> if is_finite (vs_last x) then vs_last x else v | None \<Rightarrow> v)
            in (math_max (Fin 0) (v - base), Some \<lparr> vs_bucket = bucket, vs_base = base, vs_last = v \<rparr>))"

definition bucket_state :: "jsnum \<Rightarrow> jsnum \<Rightarrow> jsnum \<Rightarrow> volume_state option \<Rightarrow> volume_state" where
  "bucket_state v bucket prior st =
     (case st of
        Some x \<Rightarrow> if num_eq (vs_bucket x) bucket then x
          else \<lparr> vs_bucket = bucket, vs_base = math_max (Fin 0) (v - prior), vs_last = v \<rparr>
      | None \<Rightarrow> \<lparr> vs_bucket = bucket, vs_base = math_max (Fin 0) (v - prior), vs_last = v \<rparr>)"

definition growing_volume :: "jsnum option \<Rightarrow> jsnum \<Rightarrow> jsnum \<Rightarrow> volume_state option \<Rightarrow> jsnum \<times> volume_state option" where
  "growing_volume cum bucket volume st =
     (case cum of
        None \<Rightarrow> (volume, st)
      | Some v \<Rightarrow>
          if \<not> Fin 0 \<le> v then (volume, st)
          else
            let x = bucket_state v bucket (if is_finite volume then volume else Fin 0) st;
                base = (if v < vs_base x then v else vs_base x)
            in (math_max (Fin 0) (v - base), Some (x\<lparr> vs_base := base, vs_last := v \<rparr>)))"

definition max_forward_gap :: "int \<Rightarrow> jsnum" where
  "max_forward_gap secs = math_max (Fin (of_int (secs * 12))) (Fin 1800)"

definition bucket_candle :: "bool \<Rightarrow> jsnum \<Rightarrow> jsnum \<Rightarrow> jsnum \<Rightarrow> fcandle \<Rightarrow> fcandle" where
  "bucket_candle rollover ltp bucket volume last_candle =
     (let op = (if rollover then ltp else f_close last_candle)
      in \<lparr> f_time = bucket, f_open = op, f_high = math_max op ltp, f_low = math_min op ltp, f_close = ltp, f_volume = volume \<rparr>)"

definition grown_candle :: "jsnum \<Rightarrow> jsnum \<Rightarrow> fcandle \<Rightarrow> fcandle" where
  "grown_candle ltp volume c =
     c\<lparr> f_close := ltp, f_high := if f_high c < ltp then ltp else f_high c, f_low := if ltp < f_low c then ltp else f_low c,
        f_volume := volume \<rparr>"

text \<open>The quote of a frame and the bucket it falls into, at a chart that shows candles.\<close>

definition apply_quote :: "pending_quote \<Rightarrow> jsnum \<Rightarrow> live_chart \<Rightarrow> live_chart" where
  "apply_quote q bucket s =
     (let time = f_time (last (lch_candles s));
          effective = math_max time bucket;
          rollover = (pq_rollover q \<or> max_forward_gap (pq_seconds q) < effective - time);
          cs = (if should_rebase (f_close (last (lch_candles s))) (pq_ltp q) then rebase_to_close (pq_ltp q) (lch_candles s) else lch_candles s);
          prior = last cs
      in if time < effective then
           let (volume, st) = opening_volume (pq_volume q) bucket (lch_volume s)
           in s\<lparr> lch_candles := cs @ [bucket_candle rollover (pq_ltp q) bucket volume prior], lch_volume := st, lch_line := Some (pq_ltp q) \<rparr>
         else
           let (volume, st) = growing_volume (pq_volume q) bucket (f_volume prior) (lch_volume s)
           in s\<lparr> lch_candles := butlast cs @ [grown_candle (pq_ltp q) volume prior], lch_volume := st, lch_line := Some (pq_ltp q) \<rparr>)"

definition live_frame :: "live_chart \<Rightarrow> live_chart" where
  "live_frame s =
     (if \<not> lch_frame s then s
      else
        let s' = s\<lparr> lch_frame := False, lch_pending := None \<rparr> in
        case lch_pending s of
          None \<Rightarrow> s'
        | Some q \<Rightarrow>
            if \<not> is_finite (pq_ts q) \<or> lch_candles s = [] then s'
            else
              case align_bucket (pq_seconds q) (pq_code q) (pq_ts q) of
                None \<Rightarrow> s'
              | Some bucket \<Rightarrow> apply_quote q bucket s')"

definition bar_spacing :: "jsnum \<Rightarrow> nat \<Rightarrow> jsnum" where
  "bar_spacing width bars =
     math_max (Fin 4) (math_min (Fin 10) (num_or width (Fin 800) / math_min (Fin 240) (num_of_nat bars)))"

section \<open>Events\<close>

datatype live_event =
  RowsCome jsnum string "jsnum option" "jsval list" | Safeguard bool "jsnum option" | QuoteComes "pending_quote option" | FrameFires | SymbolChanges

fun live_step :: "live_event \<Rightarrow> live_chart \<Rightarrow> live_chart" where
  "live_step (RowsCome now period quote rows) s = show_rows now period quote rows s"
| "live_step (Safeguard market_live quote) s = safeguard market_live quote s"
| "live_step (QuoteComes q) s = queue_quote q s"
| "live_step FrameFires s = live_frame s"
| "live_step SymbolChanges s = clear_symbol s"

section \<open>Tools\<close>

record tool_line =
  tl_price :: jsnum
  tl_color :: string
  tl_title :: string

definition tool_colors :: "(string \<times> string) list" where
  "tool_colors = [(''hline'', ''#00bcd4''), (''hline_sup'', ''#10B981''), (''hline_res'', ''#EF4444''), (''hline_target'', ''#00bcd4''),
     (''hline_sl'', ''#EF4444''), (''hline_entry'', ''#FBBF24'')]"

definition tool_titles :: "(string \<times> string) list" where
  "tool_titles = [(''hline_sup'', ''Support''), (''hline_res'', ''Resistance''), (''hline_target'', ''Target''), (''hline_sl'', ''Stop Loss''),
     (''hline_entry'', ''Entry'')]"

definition click_chart :: "string option \<Rightarrow> jsnum option \<Rightarrow> tool_line list \<Rightarrow> tool_line list" where
  "click_chart tool price ls =
     (case (tool, price) of
        (Some t, Some p) \<Rightarrow>
          if t = [] \<or> t = ''crosshair'' \<or> \<not> is_finite p then ls
          else ls @ [\<lparr> tl_price = p, tl_color = (case map_of tool_colors t of Some c \<Rightarrow> c | None \<Rightarrow> ''#00bcd4''),
                       tl_title = (case map_of tool_titles t of Some x \<Rightarrow> x | None \<Rightarrow> []) \<rparr>]
      | _ \<Rightarrow> ls)"

definition choose_tool :: "string \<Rightarrow> string option \<Rightarrow> string option" where
  "choose_tool t active = (if active = Some t then None else Some t)"

text \<open>The status of the connection on the badge.\<close>

definition effective_ws_status :: "jsnum \<Rightarrow> jsnum \<Rightarrow> string \<Rightarrow> string" where
  "effective_ws_status now last_quote_at ws =
     (if ws = ''connected'' then ''connected''
      else if Fin 0 < last_quote_at \<and> now - last_quote_at < Fin 90000 then ''connected'' else ws)"

definition status_badge :: "bool \<Rightarrow> string \<Rightarrow> string" where
  "status_badge market_live st =
     (if \<not> market_live then ''FROZEN'' else if st = ''connected'' then ''LIVE'' else if st = ''connecting'' then ''CONNECTING'' else ''OFFLINE'')"

section \<open>The chart stays drawable\<close>

text \<open>What a quote brings, and an event: prices are positive, times are whole seconds from 2000 on.\<close>

definition quote_fit :: "pending_quote \<Rightarrow> bool" where
  "quote_fit q \<longleftrightarrow> is_finite (pq_ltp q) \<and> Fin 0 < pq_ltp q \<and> pq_seconds q = seconds_of_code (pq_code q) \<and>
     (\<exists>k. pq_ts q = Fin (of_int k) \<and> 946684800 \<le> k \<and> k \<le> 2 ^ 40) \<and>
     (case pq_volume q of Some v \<Rightarrow> is_finite v | None \<Rightarrow> True)"

fun event_fit :: "live_event \<Rightarrow> bool" where
  "event_fit (RowsCome now period quote rows) \<longleftrightarrow>
     (case math_floor (now / Fin 1000) of Fin r \<Rightarrow> r = of_int \<lfloor>r\<rfloor> \<and> \<bar>\<lfloor>r\<rfloor>\<bar> \<le> 2 ^ 39 | _ \<Rightarrow> False)"
| "event_fit (QuoteComes q) \<longleftrightarrow> (case q of Some p \<Rightarrow> quote_fit p | None \<Rightarrow> True)"
| "event_fit _ \<longleftrightarrow> True"

definition volume_ok :: "volume_state option \<Rightarrow> bool" where
  "volume_ok st \<longleftrightarrow> (case st of Some x \<Rightarrow> vs_base x \<noteq> NaN | None \<Rightarrow> True)"

definition chart_sound :: "live_chart \<Rightarrow> bool" where
  "chart_sound s \<longleftrightarrow> chart_ready (lch_candles s) \<and> volume_ok (lch_volume s) \<and>
     (case lch_pending s of Some q \<Rightarrow> quote_fit q | None \<Rightarrow> True)"

lemma difference_nonneg: "is_finite v \<Longrightarrow> base \<noteq> NaN \<Longrightarrow> Fin 0 \<le> math_max (Fin 0) (v - base) \<and> math_max (Fin 0) (v - base) \<noteq> NaN"
proof -
  assume a: "is_finite v" "base \<noteq> NaN"
  then have "v - base \<noteq> NaN" by (cases v; cases base) (auto simp: minus_jsnum_def)
  then show ?thesis using math_max_ge [of "Fin 0" "v - base"] by auto
qed

lemma opening_ok:
  assumes "case cum of Some v \<Rightarrow> is_finite v | None \<Rightarrow> True"
  shows "Fin 0 \<le> fst (opening_volume cum bucket st) \<and> volume_ok (snd (opening_volume cum bucket st))"
proof (cases cum)
  case (Some v)
  define base where "base = (case st of Some x \<Rightarrow> if is_finite (vs_last x) then vs_last x else v | None \<Rightarrow> v)"
  have v: "is_finite v" using assms Some by simp
  then have "base \<noteq> NaN" by (auto simp: base_def split: option.split)
  then show ?thesis using difference_nonneg [OF v] unfolding Some opening_volume_def option.case Let_def base_def [symmetric]
    by (auto simp: volume_ok_def)
qed (simp add: opening_volume_def volume_ok_def)

lemma bucket_state_ok:
  assumes "is_finite v" "is_finite prior" "volume_ok st"
  shows "vs_base (bucket_state v bucket prior st) \<noteq> NaN"
proof -
  have "math_max (Fin 0) (v - prior) \<noteq> NaN" using difference_nonneg [OF assms(1), of prior] assms(2) by (cases prior) auto
  then show ?thesis using assms(3) by (auto simp: bucket_state_def volume_ok_def split: option.split)
qed

lemma growing_ok:
  assumes "case cum of Some v \<Rightarrow> is_finite v | None \<Rightarrow> True" "Fin 0 \<le> volume" "volume_ok st"
  shows "Fin 0 \<le> fst (growing_volume cum bucket volume st) \<and> volume_ok (snd (growing_volume cum bucket volume st))"
proof (cases cum)
  case (Some v)
  define x where "x = bucket_state v bucket (if is_finite volume then volume else Fin 0) st"
  define base where "base = (if v < vs_base x then v else vs_base x)"
  have v: "is_finite v" using assms Some by simp
  then have "vs_base x \<noteq> NaN" unfolding x_def using bucket_state_ok [OF v _ assms(3)] by simp
  then have "base \<noteq> NaN" using v by (auto simp: base_def)
  then show ?thesis using difference_nonneg [OF v] assms(2,3)
    unfolding Some growing_volume_def option.case Let_def x_def [symmetric] base_def [symmetric] by (auto simp: volume_ok_def)
qed (use assms in \<open>simp add: growing_volume_def\<close>)

lemma drawable_prices:
  assumes "drawable c"
  shows "Fin 0 \<le> f_close c" "Fin 0 \<le> f_low c" "f_high c \<noteq> NaN" "f_low c \<noteq> NaN" "f_low c \<le> f_high c" "Fin 0 \<le> f_volume c"
proof -
  have d: "f_low c \<le> f_open c" "f_low c \<le> f_close c" "f_open c \<le> f_high c" "f_close c \<le> f_high c" "Fin 0 \<le> f_low c" "Fin 0 \<le> f_volume c"
    using assms by (simp_all add: drawable_def)
  show "Fin 0 \<le> f_close c" using d(5,2) by (rule le_jsnum_trans)
  show "Fin 0 \<le> f_low c" "Fin 0 \<le> f_volume c" by (fact d)+
  show "f_high c \<noteq> NaN" "f_low c \<noteq> NaN" using le_jsnum_not_NaN [OF d(3)] le_jsnum_not_NaN [OF d(1)] by blast+
  show "f_low c \<le> f_high c" using d(1,3) by (rule le_jsnum_trans)
qed

lemma bucket_candle_drawable:
  assumes "drawable prior" "is_finite ltp" "Fin 0 < ltp" "Fin 0 \<le> volume"
  shows "drawable (bucket_candle rollover ltp bucket volume prior)"
proof -
  define op where "op = (if rollover then ltp else f_close prior)"
  have op: "Fin 0 \<le> op" using drawable_prices(1) [OF assms(1)] assms(3) by (auto simp: op_def less_jsnum_imp_le)
  then have n: "op \<noteq> NaN" "ltp \<noteq> NaN" using le_jsnum_not_NaN assms(3) by (blast, auto)
  have "Fin 0 \<le> math_min op ltp" using op assms(3) by (intro math_min_ge) (auto simp: less_jsnum_imp_le)
  then show ?thesis using math_max_ge [OF n] math_min_le [OF n] assms(4)
    unfolding bucket_candle_def op_def [symmetric] Let_def drawable_def by simp
qed

lemma grown_candle_drawable:
  assumes "drawable c" "is_finite ltp" "Fin 0 < ltp" "Fin 0 \<le> volume"
  shows "drawable (grown_candle ltp volume c)"
proof -
  have n: "ltp \<noteq> NaN" using assms(3) by auto
  note p = drawable_prices [OF assms(1)]
  have h: "f_high c \<le> ltp \<or> ltp \<le> f_high c" "ltp \<le> f_low c \<or> f_low c \<le> ltp" using le_jsnum_total n p by blast+
  have "ltp \<le> (if f_high c < ltp then ltp else f_high c)" "(if ltp < f_low c then ltp else f_low c) \<le> ltp"
    "f_high c \<le> (if f_high c < ltp then ltp else f_high c)" "(if ltp < f_low c then ltp else f_low c) \<le> f_low c"
    using n p not_less_jsnum less_jsnum_imp_le by auto
  moreover have "Fin 0 \<le> (if ltp < f_low c then ltp else f_low c)" using p assms(3) by (auto simp: less_jsnum_imp_le)
  ultimately show ?thesis using assms(1,4) unfolding drawable_def grown_candle_def by (auto intro: le_jsnum_trans)
qed

lemma ready_last:
  assumes "chart_ready cs" "cs \<noteq> []"
  shows "drawable (last cs)" "f_time (last cs) = Fin (of_int (time_key (last cs)))" "\<And>c. c \<in> set (butlast cs) \<Longrightarrow> time_key c < time_key (last cs)"
proof -
  obtain xs x where cs: "cs = xs @ [x]" using assms(2) by (cases cs rule: rev_cases) auto
  show "drawable (last cs)" "f_time (last cs) = Fin (of_int (time_key (last cs)))" "\<And>c. c \<in> set (butlast cs) \<Longrightarrow> time_key c < time_key (last cs)"
    using assms(1) by (auto simp: cs chart_ready_def sorted_wrt_append list_all_iff)
qed

lemma ready_snoc:
  assumes "chart_ready cs" "f_time c = Fin (of_int b)" "drawable c" "cs \<noteq> [] \<Longrightarrow> time_key (last cs) < b"
  shows "chart_ready (cs @ [c])"
proof -
  have b: "time_key c = b" using assms(2) by (simp add: time_key_def)
  have "time_key x < b" if "x \<in> set cs" for x
  proof -
    have "cs \<noteq> []" using that by auto
    with that have "x \<in> set (butlast cs) \<or> x = last cs" by (metis append_butlast_last_id in_set_conv_decomp rotate1.simps(2) set_ConsD set_rotate1)
    then show ?thesis using ready_last(3) [OF assms(1) \<open>cs \<noteq> []\<close>] assms(4) [OF \<open>cs \<noteq> []\<close>] by (auto intro: order.strict_trans)
  qed
  then show ?thesis using assms(1-3) b by (auto simp: chart_ready_def sorted_wrt_append)
qed

lemma ready_butlast: "chart_ready cs \<Longrightarrow> chart_ready (butlast cs)"
  by (cases cs rule: rev_cases) (auto simp: chart_ready_def sorted_wrt_append)

lemma ready_replace:
  assumes "chart_ready cs" "cs \<noteq> []" "f_time c = f_time (last cs)" "drawable c"
  shows "chart_ready (butlast cs @ [c])"
proof (rule ready_snoc)
  show "f_time c = Fin (of_int (time_key (last cs)))" using assms(3) ready_last(2) [OF assms(1,2)] by simp
  show "time_key (last (butlast cs)) < time_key (last cs)" if "butlast cs \<noteq> []"
    using ready_last(3) [OF assms(1,2)] that by (simp add: last_in_set)
qed (use assms ready_butlast in auto)

lemma quote_bucket:
  assumes "quote_fit q" "align_bucket (pq_seconds q) (pq_code q) (pq_ts q) = Some bucket"
  shows "\<exists>b. bucket = Fin (of_int b)"
proof -
  obtain k where k: "pq_ts q = Fin (of_int k)" "946684800 \<le> k" "k \<le> 2 ^ 40" using assms(1) by (auto simp: quote_fit_def)
  then show ?thesis using align_whole [OF k(2,3) code_seconds] assms by (auto simp: quote_fit_def)
qed

lemma apply_quote_sound:
  assumes "chart_sound s" "quote_fit q" "lch_candles s \<noteq> []" "bucket = Fin (of_int b)"
  shows "chart_sound (apply_quote q bucket s)"
proof -
  define cs where "cs = (if should_rebase (f_close (last (lch_candles s))) (pq_ltp q) then rebase_to_close (pq_ltp q) (lch_candles s) else lch_candles s)"
  have h: "chart_ready (lch_candles s)" "volume_ok (lch_volume s)" using assms(1) by (auto simp: chart_sound_def)
  have cs: "chart_ready cs" using h(1) rebase_ready by (simp add: cs_def)
  have t: "map f_time cs = map f_time (lch_candles s)" using rebase_times by (simp add: cs_def)
  then have ne: "cs \<noteq> []" using assms(3) by (metis Nil_is_map_conv)
  have lt: "f_time (last cs) = f_time (last (lch_candles s))" using t ne assms(3) by (metis last_map)
  note l = ready_last [OF cs ne]
  have p: "is_finite (pq_ltp q)" "Fin 0 < pq_ltp q" "case pq_volume q of Some v \<Rightarrow> is_finite v | None \<Rightarrow> True"
    using assms(2) by (auto simp: quote_fit_def)
  note o = opening_ok [OF p(3), of bucket "lch_volume s"]
    and g = growing_ok [OF p(3) drawable_prices(6) [OF l(1)] h(2), of bucket]
  show ?thesis
  proof (cases "f_time (last (lch_candles s)) < math_max (f_time (last (lch_candles s))) bucket")
    case True
    then have "time_key (last cs) < b" using l(2) assms(4) by (auto simp: lt [symmetric] max_def split: if_splits)
    moreover have "f_time (bucket_candle r (pq_ltp q) bucket v (last cs)) = Fin (of_int b)" for r v
      by (simp add: bucket_candle_def Let_def assms(4))
    ultimately have "chart_ready (cs @ [bucket_candle r (pq_ltp q) bucket (fst (opening_volume (pq_volume q) bucket (lch_volume s))) (last cs)])" for r
      using bucket_candle_drawable [OF l(1) p(1,2)] o cs by (intro ready_snoc) auto
    with True o assms(1) show ?thesis unfolding apply_quote_def Let_def cs_def [symmetric] by (auto simp: chart_sound_def case_prod_beta)
  next
    case False
    have "f_time (grown_candle (pq_ltp q) v (last cs)) = f_time (last cs)" for v by (simp add: grown_candle_def)
    then have "chart_ready (butlast cs @ [grown_candle (pq_ltp q) (fst (growing_volume (pq_volume q) bucket (f_volume (last cs)) (lch_volume s))) (last cs)])"
      using grown_candle_drawable [OF l(1) p(1,2)] g cs ne by (intro ready_replace) auto
    with False g assms(1) show ?thesis unfolding apply_quote_def Let_def cs_def [symmetric] by (auto simp: chart_sound_def case_prod_beta)
  qed
qed

lemma frame_sound: "chart_sound s \<Longrightarrow> chart_sound (live_frame s)"
proof -
  assume h: "chart_sound s"
  let ?s = "s\<lparr> lch_frame := False, lch_pending := None \<rparr>"
  have s: "chart_sound ?s" using h by (simp add: chart_sound_def)
  show ?thesis
  proof (cases "lch_pending s")
    case (Some q)
    then have q: "quote_fit q" using h by (simp add: chart_sound_def)
    have "chart_sound (apply_quote q bucket ?s)"
      if "align_bucket (pq_seconds q) (pq_code q) (pq_ts q) = Some bucket" "lch_candles s \<noteq> []" for bucket
      using quote_bucket [OF q that(1)] apply_quote_sound [OF s q] that(2) by auto
    with s h Some show ?thesis by (auto simp: live_frame_def Let_def split: option.split)
  qed (use s h in \<open>simp add: live_frame_def\<close>)
qed

lemma live_step_sound: "chart_sound s \<Longrightarrow> event_fit e \<Longrightarrow> chart_sound (live_step e s)"
proof (cases e)
  case (RowsCome now period quote rows)
  assume h: "chart_sound s" "event_fit e"
  then obtain n where "math_floor (now / Fin 1000) = Fin (of_int n)" "\<bar>n\<bar> \<le> 2 ^ 39"
    by (auto simp: RowsCome split: jsnum.splits)
  with charted_ready h(1) show ?thesis by (simp add: RowsCome show_rows_def Let_def chart_sound_def volume_ok_def)
next
  case (Safeguard live quote)
  assume "chart_sound s"
  then show ?thesis by (auto simp: Safeguard safeguard_def chart_sound_def intro: rebase_ready split: option.split)
next
  case (QuoteComes q)
  assume "chart_sound s" "event_fit e"
  then show ?thesis by (auto simp: QuoteComes queue_quote_def chart_sound_def split: option.splits)
next
  case FrameFires
  assume "chart_sound s"
  then show ?thesis by (simp add: FrameFires frame_sound)
next
  case SymbolChanges
  assume "chart_sound s"
  then show ?thesis by (simp add: SymbolChanges clear_symbol_def chart_sound_def chart_ready_def volume_ok_def)
qed

theorem live_chart_sound:
  assumes "list_all event_fit es"
  shows "chart_sound (fold live_step es new_live_chart)"
proof -
  have "chart_sound (fold live_step es s)" if "chart_sound s" for s using assms that
    by (induction es arbitrary: s) (auto intro: live_step_sound)
  moreover have "chart_sound new_live_chart" by (simp add: chart_sound_def new_live_chart_def volume_ok_def chart_ready_def)
  ultimately show ?thesis by blast
qed

text \<open>A quote that is accepted has a positive price and the interval of the period.\<close>

lemma accepted_quote:
  assumes "accept_quote date_parse now period isolate live seen price quote volume = Some q"
  shows "is_finite (pq_ltp q) \<and> Fin 0 < pq_ltp q \<and> pq_seconds q = seconds_of_code (pq_code q) \<and> live \<and>
    (case pq_volume q of Some v \<Rightarrow> is_finite v | None \<Rightarrow> True)"
proof -
  obtain ltp where p: "price = Some ltp" "live" "is_finite ltp" "\<not> ltp \<le> Fin 0"
    using assms by (auto simp: accept_quote_def split: option.splits if_splits)
  then have "Fin 0 < ltp" by (cases ltp) auto
  with p assms show ?thesis
    by (auto simp: accept_quote_def get_interval_seconds_def to_finite_number_def Let_def split: option.splits if_splits)
qed

lemma closed_market_silent:
  "lower_text (field quote ''market_status'') \<in> set closed_statuses \<Longrightarrow>
   accept_quote date_parse now period False live seen price quote volume = None"
  by (simp add: accept_quote_def quote_blocked_def split: option.split)

section \<open>What a frame does\<close>

text \<open>After a frame the last candle closes at the quote, and the line is drawn there.\<close>

lemma quote_is_last_close: "f_close (last (lch_candles (apply_quote q bucket s))) = pq_ltp q \<and> lch_line (apply_quote q bucket s) = Some (pq_ltp q)"
  by (simp add: apply_quote_def Let_def case_prod_beta bucket_candle_def grown_candle_def)

text \<open>
  A quote of a later bucket opens a candle: at the close before it within a session, at its own price where the session is
  new or the gap is too wide for one.
\<close>

lemma later_bucket_opens:
  assumes "f_time (last (lch_candles s)) < bucket" "\<not> should_rebase (f_close (last (lch_candles s))) (pq_ltp q)"
  shows "\<exists>c. lch_candles (apply_quote q bucket s) = lch_candles s @ [c] \<and> f_time c = bucket \<and> f_close c = pq_ltp q \<and>
    f_open c = (if pq_rollover q \<or> max_forward_gap (pq_seconds q) < bucket - f_time (last (lch_candles s)) then pq_ltp q
      else f_close (last (lch_candles s)))"
proof -
  have "math_max (f_time (last (lch_candles s))) bucket = bucket"
    using assms(1) by (cases "f_time (last (lch_candles s))"; cases bucket) (auto simp: math_max_def)
  then show ?thesis using assms by (simp add: apply_quote_def Let_def case_prod_beta bucket_candle_def)
qed

text \<open>A quote of an earlier bucket moves the close of the candle on show, whatever comes later in it.\<close>

lemma late_quote_moves_close:
  assumes "bucket \<le> f_time (last (lch_candles s))" "\<not> should_rebase (f_close (last (lch_candles s))) (pq_ltp q)" "lch_candles s \<noteq> []"
  shows "map f_time (lch_candles (apply_quote q bucket s)) = map f_time (lch_candles s) \<and>
    f_close (last (lch_candles (apply_quote q bucket s))) = pq_ltp q"
proof -
  have "math_max (f_time (last (lch_candles s))) bucket = f_time (last (lch_candles s))" using assms(1) by (auto simp: math_max_def)
  moreover have "map f_time (butlast (lch_candles s) @ [grown_candle p v (last (lch_candles s))]) = map f_time (lch_candles s)" for p v
    using assms(3) by (cases "lch_candles s" rule: rev_cases) (auto simp: grown_candle_def)
  moreover have "f_close (grown_candle p v c) = p" for p v c by (simp add: grown_candle_def)
  ultimately show ?thesis using assms(2) by (simp add: apply_quote_def Let_def case_prod_beta)
qed

text \<open>A quote that waits for its frame when the symbol changes goes into the candles of the new symbol.\<close>

lemma quote_of_old_symbol:
  assumes "lch_frame s" "lch_pending s = Some q" "quote_fit q" "charted now period quote rows \<noteq> []"
  shows "f_close (last (lch_candles (live_frame (show_rows now period quote rows (clear_symbol s))))) = pq_ltp q"
proof -
  obtain k where k: "pq_ts q = Fin (of_int k)" "946684800 \<le> k" "k \<le> 2 ^ 40" "pq_seconds q = seconds_of_code (pq_code q)"
    using assms(3) by (auto simp: quote_fit_def)
  then obtain b where "align_bucket (pq_seconds q) (pq_code q) (pq_ts q) = Some b"
    using align_whole [OF k(2,3) code_seconds] by auto
  with assms k(1) quote_is_last_close show ?thesis
    by (simp add: live_frame_def show_rows_def clear_symbol_def Let_def)
qed

text \<open>The effect for the symbol runs after the one for the candles: candles that come with their symbol take no quotes.\<close>

lemma rows_with_symbol_frozen:
  "lch_candles (live_frame (queue_quote q (clear_symbol (show_rows now period quote rows s)))) = []"
  by (simp add: live_frame_def queue_quote_def clear_symbol_def Let_def split: option.split)

section \<open>Volumes\<close>

text \<open>
  The volume of a live candle is the cumulative volume less the one at which its bucket was opened, as long as the
  cumulative volume does not fall.
\<close>

lemma opening_volume_whole:
  assumes "0 \<le> a" "a \<le> v" "v \<le> 2 ^ 53" "st = Some x" "vs_last x = Fin (of_int a)"
  shows "opening_volume (Some (Fin (of_int v))) b st =
    (Fin (of_int (v - a)), Some \<lparr> vs_bucket = b, vs_base = Fin (of_int a), vs_last = Fin (of_int v) \<rparr>)"
  using minus_int [of v a] assms by (simp add: opening_volume_def Let_def max_def del: minus_Fin)

lemma growing_volume_whole:
  assumes "0 \<le> a" "a \<le> v" "v \<le> 2 ^ 53" "vs_bucket x = b" "b \<noteq> NaN" "vs_base x = Fin (of_int a)"
  shows "growing_volume (Some (Fin (of_int v))) b vol (Some x) = (Fin (of_int (v - a)), Some (x\<lparr> vs_last := Fin (of_int v) \<rparr>))"
proof -
  have "num_eq b b" using assms(5) by (cases b) (auto simp: num_eq_def)
  then have "bucket_state (Fin (of_int v)) b p (Some x) = x" for p using assms(4) by (simp add: bucket_state_def)
  then show ?thesis using minus_int [of v a] assms by (simp add: growing_volume_def Let_def max_def del: minus_Fin)
qed

definition grow_by :: "jsnum \<Rightarrow> int \<Rightarrow> jsnum \<times> volume_state option \<Rightarrow> jsnum \<times> volume_state option" where
  "grow_by b v p = growing_volume (Some (Fin (of_int v))) b (fst p) (snd p)"

lemma live_volume_telescopes:
  assumes "0 \<le> a" "list_all (\<lambda>v. a \<le> v \<and> v \<le> 2 ^ 53) (v # vs)" "b \<noteq> NaN" "vs_last x = Fin (of_int a)"
  shows "\<exists>y. fold (grow_by b) vs (opening_volume (Some (Fin (of_int v))) b (Some x)) =
    (Fin (of_int (last (v # vs) - a)), Some y) \<and> vs_last y = Fin (of_int (last (v # vs)))"
proof -
  have "\<exists>y. fold (grow_by b) vs (Fin (of_int (w - a)), Some z) = (Fin (of_int (last (w # vs) - a)), Some y) \<and>
      vs_last y = Fin (of_int (last (w # vs)))"
    if "vs_bucket z = b" "vs_base z = Fin (of_int a)" "vs_last z = Fin (of_int w)" for w z
    using assms(2) that
  proof (induction vs arbitrary: w z)
    case (Cons u us)
    have "grow_by b u (Fin (of_int (w - a)), Some z) = (Fin (of_int (u - a)), Some (z\<lparr> vs_last := Fin (of_int u) \<rparr>))"
      using Cons.prems assms(1,3) growing_volume_whole [of a u z b] by (simp add: grow_by_def)
    moreover have "\<exists>y. fold (grow_by b) us (Fin (of_int (u - a)), Some (z\<lparr> vs_last := Fin (of_int u) \<rparr>)) =
        (Fin (of_int (last (u # us) - a)), Some y) \<and> vs_last y = Fin (of_int (last (u # us)))"
      using Cons.prems by (intro Cons.IH) auto
    ultimately show ?case by simp
  qed simp
  then show ?thesis using opening_volume_whole [of a v "Some x" x b] assms by simp
qed

text \<open>Where the cumulative volume falls below the base, the volume counted so far is dropped.\<close>

lemma fallen_volume_dropped:
  "Fin 0 \<le> Fin v \<Longrightarrow> Fin v < vs_base x \<Longrightarrow> num_eq (vs_bucket x) b \<Longrightarrow> fst (growing_volume (Some (Fin v)) b vol (Some x)) = Fin 0"
  by (simp add: growing_volume_def bucket_state_def Let_def)

section \<open>Small parts\<close>

lemma spacing_bounds: "Fin 4 \<le> bar_spacing (Fin w) n \<and> bar_spacing (Fin w) n \<le> Fin 10 \<or> bar_spacing (Fin w) n = NaN"
  unfolding bar_spacing_def by (cases "num_or (Fin w) (Fin 800) / math_min (Fin 240) (num_of_nat n)") (auto simp: math_min_def math_max_def)

lemma badge_live: "status_badge live (effective_ws_status now seen ws) = ''LIVE'' \<longleftrightarrow>
    live \<and> (ws = ''connected'' \<or> (Fin 0 < seen \<and> now - seen < Fin 90000))"
  by (simp add: status_badge_def effective_ws_status_def)

lemma tool_twice_off: "choose_tool t (choose_tool t None) = None"
  by (simp add: choose_tool_def)

end
