(* ===== verification/ChartIndicators.thy ===== *)
theory ChartIndicators
  imports LiveChart Trends
begin

text \<open>
  The indicators of the chart in \<open>frontend/src/components/trading/LiveChart.jsx\<close>: which line each one draws
  (\<open>compute_indicator\<close>, over the indicators of \<open>strategy/indicators\<close>), the pane of the RSI, and the sets of active and
  hidden ones. A line is a list of points; the library that draws it demands that their times increase.
\<close>

section \<open>The indicators\<close>

record indicator_def =
  id_label :: string
  id_group :: string
  id_color :: string
  id_width :: jsnum

definition indicator_def_of :: "string \<Rightarrow> string \<Rightarrow> string \<Rightarrow> string \<Rightarrow> jsnum \<Rightarrow> string \<times> indicator_def" where
  "indicator_def_of i label grp color w = (i, \<lparr> id_label = label, id_group = grp, id_color = color, id_width = w \<rparr>)"

definition indicator_defs :: "(string \<times> indicator_def) list" where
  "indicator_defs =
     [indicator_def_of ''ema9'' ''EMA 9'' ''Moving Averages'' ''#38BDF8'' (Fin 1),
      indicator_def_of ''ema20'' ''EMA 20'' ''Moving Averages'' ''#00bcd4'' (Fin (3 / 2)),
      indicator_def_of ''ema50'' ''EMA 50'' ''Moving Averages'' ''#8B5CF6'' (Fin (3 / 2)),
      indicator_def_of ''ema100'' ''EMA 100'' ''Moving Averages'' ''#D946EF'' (Fin (3 / 2)),
      indicator_def_of ''ema200'' ''EMA 200'' ''Moving Averages'' ''#EC4899'' (Fin 2),
      indicator_def_of ''sma10'' ''SMA 10'' ''Moving Averages'' ''#67E8F9'' (Fin 1),
      indicator_def_of ''sma20'' ''SMA 20'' ''Moving Averages'' ''#06B6D4'' (Fin (3 / 2)),
      indicator_def_of ''sma50'' ''SMA 50'' ''Moving Averages'' ''#14B8A6'' (Fin (3 / 2)),
      indicator_def_of ''sma100'' ''SMA 100'' ''Moving Averages'' ''#2DD4BF'' (Fin (3 / 2)),
      indicator_def_of ''sma200'' ''SMA 200'' ''Moving Averages'' ''#F472B6'' (Fin 2),
      indicator_def_of ''wma20'' ''WMA 20'' ''Moving Averages'' ''#FACC15'' (Fin (3 / 2)),
      indicator_def_of ''wma50'' ''WMA 50'' ''Moving Averages'' ''#EAB308'' (Fin (3 / 2)),
      indicator_def_of ''hma20'' ''HMA 20'' ''Moving Averages'' ''#22D3EE'' (Fin (3 / 2)),
      indicator_def_of ''hma50'' ''HMA 50'' ''Moving Averages'' ''#818CF8'' (Fin (3 / 2)),
      indicator_def_of ''dema20'' ''DEMA 20'' ''Moving Averages'' ''#FB923C'' (Fin (3 / 2)),
      indicator_def_of ''tema20'' ''TEMA 20'' ''Moving Averages'' ''#F97316'' (Fin (3 / 2)),
      indicator_def_of ''vwap'' ''VWAP'' ''Moving Averages'' ''#A855F7'' (Fin 2),
      indicator_def_of ''bb'' ''Bollinger Bands'' ''Bands & Channels'' ''#00bcd4'' (Fin 1),
      indicator_def_of ''keltner'' ''Keltner Channel'' ''Bands & Channels'' ''#8B5CF6'' (Fin 1),
      indicator_def_of ''donchian'' ''Donchian Channel'' ''Bands & Channels'' ''#10B981'' (Fin 1),
      indicator_def_of ''envelope'' ''MA Envelope'' ''Bands & Channels'' ''#F59E0B'' (Fin 1),
      indicator_def_of ''supertrend'' ''SuperTrend'' ''Trend'' ''#10B981'' (Fin 2),
      indicator_def_of ''ichimoku'' ''Ichimoku Cloud'' ''Trend'' ''#F97316'' (Fin 1),
      indicator_def_of ''psar'' ''Parabolic SAR'' ''Trend'' ''#FBBF24'' (Fin 0),
      indicator_def_of ''pivots'' ''Pivot Points'' ''Trend'' ''#94A3B8'' (Fin 1),
      indicator_def_of ''rsi14'' ''RSI (14)'' ''Oscillators'' ''#FBBF24'' (Fin (3 / 2)),
      indicator_def_of ''macd'' ''MACD'' ''Oscillators'' ''#34D399'' (Fin (3 / 2)),
      indicator_def_of ''stoch'' ''Stochastic'' ''Oscillators'' ''#4ADE80'' (Fin (3 / 2)),
      indicator_def_of ''cci20'' ''CCI (20)'' ''Oscillators'' ''#FB923C'' (Fin (3 / 2)),
      indicator_def_of ''willr'' ''Williams %R'' ''Oscillators'' ''#C084FC'' (Fin (3 / 2)),
      indicator_def_of ''roc12'' ''ROC (12)'' ''Oscillators'' ''#F472B6'' (Fin (3 / 2)),
      indicator_def_of ''aroon25'' ''Aroon (25)'' ''Oscillators'' ''#2DD4BF'' (Fin (3 / 2)),
      indicator_def_of ''atr14'' ''ATR (14)'' ''Volatility'' ''#F472B6'' (Fin (3 / 2)),
      indicator_def_of ''adx14'' ''ADX (14)'' ''Volatility'' ''#A78BFA'' (Fin (3 / 2)),
      indicator_def_of ''stddev'' ''Std Dev (20)'' ''Volatility'' ''#FB7185'' (Fin (3 / 2)),
      indicator_def_of ''obv'' ''OBV'' ''Volume'' ''#22D3EE'' (Fin (3 / 2)),
      indicator_def_of ''mfi14'' ''MFI (14)'' ''Volume'' ''#34D399'' (Fin (3 / 2)),
      indicator_def_of ''cmf20'' ''Chaikin MF (20)'' ''Volume'' ''#FBBF24'' (Fin (3 / 2))]"

definition oscillator_ids :: "string list" where
  "oscillator_ids = [''rsi14'', ''macd'', ''atr14'', ''adx14'', ''cci20'', ''stoch'', ''willr'', ''roc12'', ''aroon25'', ''obv'', ''mfi14'',
     ''cmf20'', ''stddev'']"

section \<open>Lines\<close>

record line_data =
  ld_points :: "(jsnum \<times> jsnum) list"
  ld_color :: string
  ld_width :: jsnum
  ld_scale :: "string option"

definition line_points :: "fcandle list \<Rightarrow> jsnum list \<Rightarrow> (jsnum \<times> jsnum) list" where
  "line_points cs vals = filter (\<lambda>(t, v). is_finite v) (zip (map f_time cs) vals)"

definition overlay :: "fcandle list \<Rightarrow> jsnum list \<Rightarrow> string \<Rightarrow> jsnum \<Rightarrow> line_data" where
  "overlay cs vals color w = \<lparr> ld_points = line_points cs vals, ld_color = color, ld_width = w, ld_scale = None \<rparr>"

definition osc_line :: "fcandle list \<Rightarrow> jsnum list \<Rightarrow> string \<Rightarrow> jsnum \<Rightarrow> line_data" where
  "osc_line cs vals color w = \<lparr> ld_points = line_points cs vals, ld_color = color, ld_width = w, ld_scale = Some ''oscillator'' \<rparr>"

text \<open>The candles as the indicators read them.\<close>

definition bars_of :: "fcandle list \<Rightarrow> candle list" where
  "bars_of cs = map (\<lambda>c. \<lparr> c_high = f_high c, c_low = f_low c, c_close = f_close c, c_volume = Some (f_volume c) \<rparr>) cs"

definition rising :: "bool \<Rightarrow> trend_lines \<Rightarrow> jsnum list" where
  "rising up l = map (\<lambda>(v, d). if (d = 1) = up then v else NaN) (zip (t_line l) (t_dir l))"

text \<open>The moving averages, and the indicators that are one line of the pane below.\<close>

definition average_values :: "string \<Rightarrow> jsnum list \<Rightarrow> candle list \<Rightarrow> jsnum list option" where
  "average_values i cl bs =
     map_of [(''ema9'', ema cl 9), (''ema20'', ema cl 20), (''ema50'', ema cl 50), (''ema100'', ema cl 100), (''ema200'', ema cl 200),
       (''sma10'', sma cl 10), (''sma20'', sma cl 20), (''sma50'', sma cl 50), (''sma100'', sma cl 100), (''sma200'', sma cl 200),
       (''wma20'', wma cl 20), (''wma50'', wma cl 50), (''hma20'', hma cl 20), (''hma50'', hma cl 50), (''dema20'', dema cl 20),
       (''tema20'', tema cl 20), (''vwap'', vwap bs)] i"

definition oscillator_values :: "string \<Rightarrow> jsnum list \<Rightarrow> candle list \<Rightarrow> jsnum list option" where
  "oscillator_values i cl bs =
     map_of [(''rsi14'', rsi cl 14), (''cci20'', cci bs 20), (''willr'', williams_r bs 14), (''roc12'', roc cl 12), (''atr14'', atr bs 14),
       (''stddev'', stddev cl 20), (''obv'', obv bs), (''mfi14'', mfi bs 14), (''cmf20'', cmf bs 20)] i"

definition band_lines :: "fcandle list \<Rightarrow> bands \<Rightarrow> string \<Rightarrow> string \<Rightarrow> line_data list" where
  "band_lines cs b outer mid = [overlay cs (b_upper b) outer (Fin 1), overlay cs (b_middle b) mid (Fin 1), overlay cs (b_lower b) outer (Fin 1)]"

definition trend_pair :: "fcandle list \<Rightarrow> trend_lines \<Rightarrow> jsnum \<Rightarrow> line_data list" where
  "trend_pair cs l w = [overlay cs (rising True l) ''#10B981'' w, overlay cs (rising False l) ''#EF4444'' w]"

definition compute_indicator :: "string \<Rightarrow> fcandle list \<Rightarrow> line_data list" where
  "compute_indicator i cs =
     (let cl = map f_close cs; bs = bars_of cs;
          color = (case map_of indicator_defs i of Some d \<Rightarrow> id_color d | None \<Rightarrow> []);
          w = (case map_of indicator_defs i of Some d \<Rightarrow> id_width d | None \<Rightarrow> Fin (3 / 2))
      in case average_values i cl bs of
           Some vals \<Rightarrow> [overlay cs vals color w]
         | None \<Rightarrow>
             (case oscillator_values i cl bs of
                Some vals \<Rightarrow> [osc_line cs vals color (Fin (3 / 2))]
              | None \<Rightarrow>
                  if i = ''bb'' then band_lines cs (bollinger_bands cl 20 (Fin 2)) ''#0369A1'' ''#00bcd4''
                  else if i = ''keltner'' then band_lines cs (keltner_channels bs 20 (Fin (3 / 2))) ''#7C3AED'' ''#8B5CF6''
                  else if i = ''donchian'' then band_lines cs (donchian_channels bs 20) ''#059669'' ''#10B981''
                  else if i = ''envelope'' then band_lines cs (envelope cl 20 (Fin (5 / 2))) ''#D97706'' ''#F59E0B''
                  else if i = ''supertrend'' then trend_pair cs (supertrend bs 10 (Fin 3)) (Fin 2)
                  else if i = ''ichimoku'' then
                    (let l = ichimoku bs 9 26 52
                     in [overlay cs (tenkan l) ''#2DD4BF'' (Fin 1), overlay cs (kijun l) ''#F87171'' (Fin 1),
                         overlay cs (senkou_a l) ''#A3E635'' (Fin 1), overlay cs (senkou_b l) ''#FB923C'' (Fin 1)])
                  else if i = ''psar'' then trend_pair cs (psar bs (lit (1 / 50)) (lit (1 / 5))) (Fin 1)
                  else if i = ''pivots'' then
                    (let l = pivot_points bs
                     in [overlay cs (pp l) ''#94A3B8'' (Fin 1), overlay cs (r1 l) ''#F87171'' (Fin 1), overlay cs (r2 l) ''#EF4444'' (Fin 1),
                         overlay cs (s1 l) ''#34D399'' (Fin 1), overlay cs (s2 l) ''#10B981'' (Fin 1)])
                  else if i = ''macd'' then
                    (let l = macd cl 12 26 9
                     in [osc_line cs (macd_line l) ''#34D399'' (Fin (3 / 2)), osc_line cs (macd_signal l) ''#F87171'' (Fin 1)])
                  else if i = ''stoch'' then
                    (let l = stochastic bs 14 3 3
                     in [osc_line cs (stoch_k l) ''#4ADE80'' (Fin (3 / 2)), osc_line cs (stoch_d l) ''#FB923C'' (Fin 1)])
                  else if i = ''aroon25'' then
                    (let l = aroon bs 25
                     in [osc_line cs (aroon_up l) ''#2DD4BF'' (Fin (3 / 2)), osc_line cs (aroon_down l) ''#F87171'' (Fin 1)])
                  else if i = ''adx14'' then
                    (let l = adx bs 14
                     in [osc_line cs (adx_line l) ''#A78BFA'' (Fin 2), osc_line cs (plus_di l) ''#34D399'' (Fin 1),
                         osc_line cs (minus_di l) ''#F87171'' (Fin 1)])
                  else []))"

section \<open>Active and hidden indicators\<close>

record indicator_sets =
  is_active_ids :: "string list"
  is_hidden_ids :: "string list"

definition toggle_in :: "string \<Rightarrow> string list \<Rightarrow> string list" where
  "toggle_in i xs = (if i \<in> set xs then removeAll i xs else xs @ [i])"

definition toggle_indicator :: "string \<Rightarrow> indicator_sets \<Rightarrow> indicator_sets" where
  "toggle_indicator i s =
     (if i \<in> set (is_active_ids s) then s\<lparr> is_active_ids := removeAll i (is_active_ids s), is_hidden_ids := removeAll i (is_hidden_ids s) \<rparr>
      else s\<lparr> is_active_ids := is_active_ids s @ [i] \<rparr>)"

definition toggle_hide :: "string \<Rightarrow> indicator_sets \<Rightarrow> indicator_sets" where
  "toggle_hide i s = s\<lparr> is_hidden_ids := toggle_in i (is_hidden_ids s) \<rparr>"

text \<open>The button below the menu toggles every active one.\<close>

definition clear_indicators :: "indicator_sets \<Rightarrow> indicator_sets" where
  "clear_indicators s = fold toggle_indicator (is_active_ids s) s"

definition shows_rsi_pane :: "indicator_sets \<Rightarrow> bool" where
  "shows_rsi_pane s = (''rsi14'' \<in> set (is_active_ids s) \<and> ''rsi14'' \<notin> set (is_hidden_ids s))"

definition has_oscillator :: "indicator_sets \<Rightarrow> bool" where
  "has_oscillator s = list_ex (\<lambda>i. i \<noteq> ''rsi14'' \<and> i \<in> set oscillator_ids \<and> i \<notin> set (is_hidden_ids s)) (is_active_ids s)"

definition drawn_lines :: "fcandle list \<Rightarrow> indicator_sets \<Rightarrow> line_data list" where
  "drawn_lines cs s =
     concat (map (\<lambda>i. if i = ''rsi14'' \<or> i \<in> set (is_hidden_ids s) then [] else compute_indicator i cs) (is_active_ids s))"

section \<open>The pane of the RSI\<close>

definition rsi_points :: "fcandle list \<Rightarrow> (jsnum \<times> jsnum) list" where
  "rsi_points cs = map (\<lambda>(t, v). (t, math_max (Fin 0) (math_min (Fin 100) v))) (line_points cs (rsi (map f_close cs) 14))"

definition rsi_line_color :: "jsnum \<Rightarrow> string" where
  "rsi_line_color v = (if Fin 70 \<le> v then ''#EF4444'' else if v \<le> Fin 30 then ''#10B981'' else ''#FBBF24'')"

definition rsi_line :: "fcandle list \<Rightarrow> (jsnum \<times> string) option" where
  "rsi_line cs = (case rsi_points cs of [] \<Rightarrow> None | ps \<Rightarrow> Some (snd (last ps), rsi_line_color (snd (last ps))))"

section \<open>The menu\<close>

definition group_order :: "string list" where
  "group_order = [''Moving Averages'', ''Bands & Channels'', ''Trend'', ''Oscillators'', ''Volatility'', ''Volume'']"

definition has_part :: "string \<Rightarrow> string \<Rightarrow> bool" where
  "has_part s part = list_ex (\<lambda>i. starts_with (drop i s) part) [0..<Suc (length s)]"

definition menu_matches :: "string \<Rightarrow> (string \<times> indicator_def) list" where
  "menu_matches search = filter (\<lambda>(i, d). search = [] \<or> has_part (lower (id_label d)) (lower search)) indicator_defs"

definition menu_groups :: "string \<Rightarrow> (string \<times> string list) list" where
  "menu_groups search =
     filter (\<lambda>(g, is). is \<noteq> []) (map (\<lambda>g. (g, map fst (filter (\<lambda>(i, d). id_group d = g) (menu_matches search)))) group_order)"

section \<open>What is drawn can be drawn\<close>

text \<open>The times of a line strictly increase, each is the time of a candle, and each value is a finite number.\<close>

definition line_ok :: "fcandle list \<Rightarrow> (jsnum \<times> jsnum) list \<Rightarrow> bool" where
  "line_ok cs ps \<longleftrightarrow> sorted_wrt (<) (map fst ps) \<and> set (map fst ps) \<subseteq> f_time ` set cs \<and> list_all (\<lambda>(t, v). is_finite v) ps"

lemma sorted_zip: "sorted_wrt R xs \<Longrightarrow> sorted_wrt R (map fst (zip xs ys))"
  by (induction xs ys rule: list_induct2') (auto dest: set_zip_leftD)

lemma sorted_filter_fst: "sorted_wrt R (map fst ps) \<Longrightarrow> sorted_wrt R (map fst (filter P ps))"
  by (induction ps) auto

lemma ready_times: "chart_ready cs \<Longrightarrow> sorted_wrt (<) (map f_time cs)"
proof (induction cs)
  case (Cons c cs)
  have "f_time c < f_time d" if "d \<in> set cs" for d
  proof -
    have "f_time c = Fin (of_int (time_key c))" "f_time d = Fin (of_int (time_key d))" "time_key c < time_key d"
      using Cons.prems that by (auto simp: chart_ready_def list_all_iff)
    then show ?thesis by (metis less_Fin of_int_less_iff)
  qed
  with Cons show ?case by (auto simp: chart_ready_def)
qed simp

lemma points_ok:
  assumes "chart_ready cs"
  shows "line_ok cs (line_points cs vals)"
proof -
  have "sorted_wrt (<) (map fst (line_points cs vals))"
    unfolding line_points_def by (intro sorted_filter_fst sorted_zip ready_times assms)
  moreover have "set (map fst (line_points cs vals)) \<subseteq> f_time ` set cs"
    by (auto simp: line_points_def dest: set_zip_leftD)
  ultimately show ?thesis by (auto simp: line_ok_def line_points_def list_all_iff)
qed

lemma lines_ok:
  assumes "chart_ready cs"
  shows "line_ok cs (ld_points (overlay cs vals color w))" "line_ok cs (ld_points (osc_line cs vals color w))"
  using points_ok [OF assms] by (simp_all add: overlay_def osc_line_def)

text \<open>Whatever is active, every line that is drawn is one the chart accepts.\<close>

definition lines_fit :: "fcandle list \<Rightarrow> line_data list \<Rightarrow> bool" where
  "lines_fit cs ls \<longleftrightarrow> list_all (\<lambda>l. line_ok cs (ld_points l)) ls"

lemma lines_fit_intros:
  "lines_fit cs []" "line_ok cs (ld_points l) \<Longrightarrow> lines_fit cs ls \<Longrightarrow> lines_fit cs (l # ls)"
  "lines_fit cs ls \<Longrightarrow> lines_fit cs ks \<Longrightarrow> lines_fit cs (if c then ls else ks)"
  "lines_fit cs ls \<Longrightarrow> (\<And>x. lines_fit cs (f x)) \<Longrightarrow> lines_fit cs (case p of None \<Rightarrow> ls | Some x \<Rightarrow> f x)"
  by (auto simp: lines_fit_def split: option.split)

lemma indicator_lines_ok:
  assumes "chart_ready cs"
  shows "lines_fit cs (compute_indicator i cs)"
  unfolding compute_indicator_def Let_def band_lines_def trend_pair_def
  by (intro lines_fit_intros lines_ok assms)

theorem drawn_lines_ok:
  assumes "chart_ready cs"
  shows "lines_fit cs (drawn_lines cs s)"
  using indicator_lines_ok [OF assms] by (auto simp: drawn_lines_def lines_fit_def list_all_iff)

text \<open>The pane of the RSI shows values from 0 to 100.\<close>

lemma rsi_pane_bounds:
  assumes "chart_ready cs"
  shows "line_ok cs (rsi_points cs) \<and> list_all (\<lambda>(t, v). Fin 0 \<le> v \<and> v \<le> Fin 100) (rsi_points cs)"
proof -
  let ?p = "line_points cs (rsi (map f_close cs) 14)" and ?c = "\<lambda>v. math_max (Fin 0) (math_min (Fin 100) v)"
  have m: "map fst (rsi_points cs) = map fst ?p" by (simp add: rsi_points_def case_prod_beta)
  have c: "Fin 0 \<le> ?c v \<and> ?c v \<le> Fin 100" if "is_finite v" for v using that by (auto simp: is_finite_iff)
  then have f: "is_finite (?c v)" if "is_finite v" for v using that by (cases "?c v") (fastforce+)
  show ?thesis using points_ok [OF assms, of "rsi (map f_close cs) 14"] c f unfolding line_ok_def m
    by (auto simp: rsi_points_def list_all_iff)
qed

text \<open>Clearing leaves nothing active, and an indicator that is removed is not hidden when it comes back.\<close>

lemma toggle_removes: "i \<in> set (is_active_ids s) \<Longrightarrow> i \<notin> set (is_active_ids (toggle_indicator i s)) \<and> i \<notin> set (is_hidden_ids (toggle_indicator i s))"
  by (simp add: toggle_indicator_def)

lemma toggled_in_turn:
  assumes "distinct is" "set is \<subseteq> set (is_active_ids s)"
  shows "is_active_ids (fold toggle_indicator is s) = filter (\<lambda>i. i \<notin> set is) (is_active_ids s)"
  using assms
proof (induction "is" arbitrary: s)
  case (Cons i js)
  then have "is_active_ids (toggle_indicator i s) = removeAll i (is_active_ids s)" by (simp add: toggle_indicator_def)
  moreover from this have "set js \<subseteq> set (is_active_ids (toggle_indicator i s))" using Cons.prems by auto
  ultimately show ?case using Cons by (simp add: removeAll_filter_not_eq conj_commute) (metis (mono_tags, lifting))
qed simp

lemma clear_leaves_none: "distinct (is_active_ids s) \<Longrightarrow> is_active_ids (clear_indicators s) = []"
  using toggled_in_turn [of "is_active_ids s" s] by (simp add: clear_indicators_def)

lemma hidden_are_active:
  assumes "set (is_hidden_ids s) \<subseteq> set (is_active_ids s)" "distinct (is_active_ids s)"
  shows "set (is_hidden_ids (toggle_indicator i s)) \<subseteq> set (is_active_ids (toggle_indicator i s)) \<and> distinct (is_active_ids (toggle_indicator i s))"
  using assms by (auto simp: toggle_indicator_def distinct_removeAll)

text \<open>Every indicator of the menu is in one of its groups.\<close>

lemma menu_has_all: "list_all (\<lambda>(i, d). id_group d \<in> set group_order) indicator_defs"
  by (simp add: indicator_defs_def indicator_def_of_def group_order_def)

end
