(* ===== verification/TerminalDesk.thy ===== *)
theory TerminalDesk
  imports ChartIndicators PriceResolver OptionsDesk StrategyEngine TradeLots WatchlistStore MobileShell
begin

text \<open>
  The trading terminal: \<open>frontend/src/workspaces/TradingWorkspace.jsx\<close> with the strategy dock beside it
  (\<open>frontend/src/strategy/components/StrategyDock.jsx\<close>, \<open>frontend/src/stores/useStrategyStore.js\<close>), the frames it is
  laid out in (\<open>frontend/src/components/layout\<close>) and the tiers of the window (\<open>frontend/src/hooks/useBreakpoint.js\<close>).
  What the header shows is a function of the stores; what the handlers do is an event of the layout. Coordinates of the
  mouse and of the window are numbers; the markup is not modelled.
\<close>

section \<open>The candles of the symbol\<close>

text \<open>The loop over the rows is the one of the chart, so its rows are \<open>chart_row\<close>.\<close>

definition display_candles :: "jsnum \<Rightarrow> jsval list \<Rightarrow> fcandle list" where
  "display_candles now rows = in_time_order (keep_by_time (chart_row (math_floor (now / Fin 1000))) rows)"

definition candle_row :: "fcandle \<Rightarrow> jsval" where
  "candle_row c = JObj [(''time'', JNum (f_time c)), (''open'', JNum (f_open c)), (''high'', JNum (f_high c)),
     (''low'', JNum (f_low c)), (''close'', JNum (f_close c)), (''volume'', JNum (f_volume c))]"

definition terminal_aliases :: "string \<Rightarrow> string list" where
  "terminal_aliases symbol =
     (let raw = upper (trim symbol);
          with_suffix = (if starts_with raw ''^'' \<or> ends_with raw ''.NS'' \<or> ends_with raw ''.BO'' then raw else raw @ ''.NS'')
      in if raw = [] then [] else unique [raw, with_suffix, without_suffix with_suffix])"

text \<open>Candles of another symbol, which the hook may still hold, are not drawn.\<close>

definition owned_candles :: "string \<Rightarrow> string option \<Rightarrow> fcandle list \<Rightarrow> fcandle list" where
  "owned_candles selected owner cs =
     (let own_key = (case owner of None \<Rightarrow> [] | Some o' \<Rightarrow> upper (trim o')) in
      if own_key = [] then [] else if own_key \<in> set (terminal_aliases selected) then cs else [])"

section \<open>The quote of the header\<close>

definition last_bar :: "(fcandle \<Rightarrow> jsnum) \<Rightarrow> fcandle list \<Rightarrow> jsnum option" where
  "last_bar f cs = (if cs = [] then None else finite_or (f (last cs)))"

text \<open>The close before: of the quotes, else of the bar before the last one, else the open of the first bar.\<close>

definition prev_close_fallback :: "jsval \<Rightarrow> jsval \<Rightarrow> fcandle list \<Rightarrow> jsnum option" where
  "prev_close_fallback resolved_quote quote cs =
     or_else (to_finite_number (field resolved_quote ''prev_close''))
       (or_else (to_finite_number (field quote ''prev_close''))
         (or_else (if 1 < length cs then finite_or (f_close (cs ! (length cs - 2))) else None)
           (if cs = [] then None else finite_or (f_open (hd cs)))))"

definition terminal_base_quote :: "string \<Rightarrow> jsval \<Rightarrow> jsval \<Rightarrow> jsnum option \<Rightarrow> jsobj" where
  "terminal_base_quote symbol resolved_quote quote prev =
     spread (spread (fields_of quote) (fields_of resolved_quote))
       ([(''symbol'', JStr symbol),
         (''name'', js_or (field resolved_quote ''name'') (js_or (field quote ''name'') (JStr symbol)))]
        @ (if truthy (num_val prev) then [(''prev_close'', num_val prev)] else []))"

definition terminal_price :: "bool \<Rightarrow> jsnum option \<Rightarrow> jsnum option \<Rightarrow> jsnum option" where
  "terminal_price market_open resolved candle_close = (if market_open then resolved else or_else candle_close resolved)"

definition terminal_quote :: "bool \<Rightarrow> jsobj \<Rightarrow> jsobj \<Rightarrow> jsobj \<Rightarrow> jsval \<Rightarrow> string \<Rightarrow> fcandle list \<Rightarrow> jsobj" where
  "terminal_quote market_open cache eod live quote symbol cs =
     (let candle_close = last_bar f_close cs;
          r = resolve_symbol_price market_open cache (JStr symbol)
                \<lparr> po_live = (if market_open then live else []), po_watchlist = [], po_eod = eod, po_candle = candle_close \<rparr>;
          prev = prev_close_fallback (rs_quote r) quote cs;
          base = terminal_base_quote symbol (rs_quote r) quote prev;
          with_live = build_quote_with_live_price (JObj base) (num_val (terminal_price market_open (rs_price r) candle_close))
      in spread (fields_of with_live)
           [(''open'', num_val (or_else (last_bar f_open cs) (to_finite_number (own base ''open'')))),
            (''high'', num_val (or_else (last_bar f_high cs) (to_finite_number (own base ''high'')))),
            (''low'', num_val (or_else (last_bar f_low cs) (to_finite_number (own base ''low'')))),
            (''prev_close'', num_val (or_else (to_finite_number (field with_live ''prev_close'')) prev)),
            (''_priceSource'', rs_source r)])"

text \<open>The close of the last bar becomes the close of the session, which \<open>SessionClose\<close> refuses while the market is open.\<close>

definition register_close :: "close_env \<Rightarrow> string \<Rightarrow> jsval \<Rightarrow> fcandle list \<Rightarrow> close_state \<Rightarrow> close_state \<times> bool" where
  "register_close env symbol quote cs st =
     (case last_bar f_close cs of
        None \<Rightarrow> (st, False)
      | Some close \<Rightarrow>
          if symbol = [] \<or> close \<le> Fin 0 then (st, False)
          else set_session_close_from_candle env (JStr symbol) (JNum close)
            (JObj [(''prev_close'', num_val (to_finite_number (field quote ''prev_close'')))]) st)"

definition quick_order_price :: "bool \<Rightarrow> jsobj \<Rightarrow> jsobj \<Rightarrow> jsobj \<Rightarrow> jsobj \<Rightarrow> string option \<Rightarrow> string \<Rightarrow> jsval" where
  "quick_order_price market_open cache eod live shown quick selected =
     (let symbol = (case quick of None \<Rightarrow> selected | Some q \<Rightarrow> if q = [] then selected else q) in
      nullish (field (get_live_quote_for_symbol market_open cache eod (JStr symbol) live) ''price'')
        (nullish (own shown ''price'') (JNum (Fin 0))))"

definition effective_open_lots :: "lot list option \<Rightarrow> lot list \<Rightarrow> lot list" where
  "effective_open_lots stored computed = (case stored of Some lots \<Rightarrow> lots | None \<Rightarrow> computed)"

section \<open>Strategies\<close>

text \<open>The switches of the strategies as they are stored, and the last result of the engine.\<close>

record strategy_store =
  sg_enabled :: jsobj
  sg_stored :: "jsval option"
  sg_output :: "engine_result option"

definition new_strategy_store :: "jsval option \<Rightarrow> strategy_store" where
  "new_strategy_store stored =
     \<lparr> sg_enabled = (case stored of None \<Rightarrow> [] | Some v \<Rightarrow> fields_of v), sg_stored = stored, sg_output = None \<rparr>"

definition toggle_strategy :: "string \<Rightarrow> strategy_store \<Rightarrow> strategy_store" where
  "toggle_strategy i s =
     (let enabled = set_field i (JBool (\<not> truthy (own (sg_enabled s) i))) (sg_enabled s)
      in s\<lparr> sg_enabled := enabled, sg_stored := Some (JObj enabled) \<rparr>)"

definition all_enabled :: "string list \<Rightarrow> jsobj" where
  "all_enabled ids = fold (\<lambda>i. set_field i (JBool True)) ids []"

definition init_defaults :: "string list \<Rightarrow> strategy_store \<Rightarrow> strategy_store" where
  "init_defaults ids s =
     (if sg_enabled s \<noteq> [] then s
      else s\<lparr> sg_enabled := all_enabled ids, sg_stored := Some (JObj (all_enabled ids)) \<rparr>)"

definition set_engine_output :: "engine_result option \<Rightarrow> strategy_store \<Rightarrow> strategy_store" where
  "set_engine_output r s = s\<lparr> sg_output := r \<rparr>"

definition dock_enabled_ids :: "string list \<Rightarrow> strategy_store \<Rightarrow> string list" where
  "dock_enabled_ids ids s =
     (let enabled = (if sg_enabled s \<noteq> [] then sg_enabled s else all_enabled ids)
      in filter (\<lambda>i. truthy (own enabled i)) ids)"

definition strategy_ids :: "string list" where
  "strategy_ids = map meta_id get_available_strategies"

definition dock_engine :: "fcandle list \<Rightarrow> strategy_store \<Rightarrow> engine_result" where
  "dock_engine cs s = run_engine (bars_of cs) (dock_enabled_ids strategy_ids s)"

text \<open>The effect of the dock: a result without signals is not published.\<close>

definition publish_engine :: "fcandle list \<Rightarrow> strategy_store \<Rightarrow> strategy_store" where
  "publish_engine cs s =
     (let r = dock_engine cs s in if er_signals r \<noteq> [] then set_engine_output (Some r) s else s)"

record trend_badge =
  tb_overall :: verdict
  tb_confidence :: jsnum
  tb_score :: jsnum

definition badge_of :: "engine_result \<Rightarrow> trend_badge" where
  "badge_of r = \<lparr> tb_overall = er_overall r, tb_confidence = er_confidence r,
     tb_score = (case er_weighted r of Some w \<Rightarrow> w | None \<Rightarrow> Fin 0) \<rparr>"

definition trend_data :: "engine_result option \<Rightarrow> fcandle list \<Rightarrow> trend_badge option" where
  "trend_data output cs =
     (case output of
        Some r \<Rightarrow> if er_signals r \<noteq> [] then Some (badge_of r)
                  else if cs = [] then None else Some (badge_of (run_engine (bars_of cs) strategy_ids))
      | None \<Rightarrow> if cs = [] then None else Some (badge_of (run_engine (bars_of cs) strategy_ids)))"

definition dock_counts :: "engine_result \<Rightarrow> nat \<times> nat \<times> nat" where
  "dock_counts r =
     (let bulls = length (filter (\<lambda>s. es_signal s = Bullish) (er_signals r));
          bears = length (filter (\<lambda>s. es_signal s = Bearish) (er_signals r))
      in (bulls, bears, length (er_signals r) - bulls - bears))"

definition clamp_dock :: "jsnum \<Rightarrow> jsnum \<Rightarrow> jsnum \<times> jsnum \<Rightarrow> jsnum \<times> jsnum" where
  "clamp_dock width height p =
     (math_max (Fin 0) (math_min (width - Fin 360) (fst p)), math_max (Fin 0) (math_min (height - Fin 120) (snd p)))"

definition dock_start :: "jsnum \<Rightarrow> (jsnum \<times> jsnum) option \<Rightarrow> jsnum \<times> jsnum" where
  "dock_start width saved = (case saved of Some p \<Rightarrow> p | None \<Rightarrow> (math_max (Fin 280) (width - Fin 400), Fin 80))"

definition move_dock :: "jsnum \<Rightarrow> jsnum \<Rightarrow> jsnum \<times> jsnum \<Rightarrow> panel_drag \<Rightarrow> panel_drag" where
  "move_dock width height mouse d =
     (if \<not> pd_active d then d
      else d\<lparr> pd_pos := clamp_dock width height
        (fst (pd_origin d) + (fst mouse - fst (pd_start d)), snd (pd_origin d) + (snd mouse - snd (pd_start d))) \<rparr>)"

section \<open>The tiers of the window\<close>

datatype layout_tier = MobileTier | TabletTier | LaptopTier | DesktopTier

definition tier_of :: "jsnum \<Rightarrow> layout_tier" where
  "tier_of width =
     (if width < Fin 768 then MobileTier else if width < Fin 1024 then TabletTier
      else if width < Fin 1400 then LaptopTier else DesktopTier)"

definition is_compact :: "jsnum \<Rightarrow> bool" where
  "is_compact width = (tier_of width = MobileTier \<or> tier_of width = TabletTier)"

definition is_wide :: "jsnum \<Rightarrow> bool" where
  "is_wide width = (tier_of width = DesktopTier \<or> tier_of width = LaptopTier)"

section \<open>The layout\<close>

text \<open>A panel that is resized by its handle: \<open>side\<close> is the edge, the numbers are the size and place where the drag began.\<close>

definition resize_panel :: "string \<Rightarrow> jsnum \<Rightarrow> jsnum \<Rightarrow> jsnum \<Rightarrow> jsnum \<Rightarrow> jsnum \<Rightarrow> jsnum" where
  "resize_panel side least most start_size start_pos pos =
     (let delta = pos - start_pos; direction = (if side = ''right'' \<or> side = ''bottom'' then Fin (- 1) else Fin 1)
      in math_round (math_min most (math_max least (start_size + delta * direction))))"

text \<open>The panel below the chart; a drag keeps the place and the height where it began.\<close>

record bottom_dock =
  bd_collapsed :: bool
  bd_height :: jsnum
  bd_drag :: "(jsnum \<times> jsnum) option"
  bd_tab :: string

definition new_bottom_dock :: bottom_dock where
  "new_bottom_dock = \<lparr> bd_collapsed = False, bd_height = Fin 200, bd_drag = None, bd_tab = ''lots'' \<rparr>"

definition toggle_bottom :: "bottom_dock \<Rightarrow> bottom_dock" where
  "toggle_bottom b =
     (let next_collapsed = (\<not> bd_collapsed b)
      in b\<lparr> bd_height := (if \<not> next_collapsed \<and> bd_height b < Fin 120 then Fin 200 else bd_height b),
            bd_collapsed := next_collapsed \<rparr>)"

definition grab_bottom :: "bool \<Rightarrow> jsnum \<Rightarrow> bottom_dock \<Rightarrow> bottom_dock" where
  "grab_bottom small y b =
     (if small then b
      else b\<lparr> bd_drag := Some (y, if bd_collapsed b then Fin 200 else bd_height b), bd_collapsed := False \<rparr>)"

definition drag_bottom :: "jsnum \<Rightarrow> bottom_dock \<Rightarrow> bottom_dock" where
  "drag_bottom y b =
     (case bd_drag b of
        None \<Rightarrow> b
      | Some (start_y, initial) \<Rightarrow>
          let height = math_max (Fin 32) (math_min (Fin 420) (initial + (start_y - y))) in
          if height \<le> Fin 56 then b\<lparr> bd_collapsed := True, bd_height := Fin 32 \<rparr>
          else b\<lparr> bd_collapsed := False, bd_height := height \<rparr>)"

definition release_bottom :: "bottom_dock \<Rightarrow> bottom_dock" where
  "release_bottom b = b\<lparr> bd_drag := None \<rparr>"

text \<open>A click on a tab shows it, and opens the panel where it is collapsed.\<close>

definition click_tab :: "string \<Rightarrow> bottom_dock \<Rightarrow> bottom_dock" where
  "click_tab key b = (let b1 = b\<lparr> bd_tab := key \<rparr> in if bd_collapsed b then toggle_bottom b1 else b1)"

definition shown_height :: "bottom_dock \<Rightarrow> jsnum" where
  "shown_height b = (if bd_collapsed b then Fin 32 else bd_height b)"

datatype bottom_event = BottomToggle | BottomGrab bool jsnum | BottomDrag jsnum | BottomRelease | BottomTab string

text \<open>The handle to grab is only there while the panel is open.\<close>

fun bottom_step :: "bottom_event \<Rightarrow> bottom_dock \<Rightarrow> bottom_dock" where
  "bottom_step BottomToggle b = toggle_bottom b"
| "bottom_step (BottomGrab small y) b = (if bd_collapsed b then b else grab_bottom small y b)"
| "bottom_step (BottomDrag y) b = drag_bottom y b"
| "bottom_step BottomRelease b = release_bottom b"
| "bottom_step (BottomTab key) b = click_tab key b"

section \<open>The workspace\<close>

record terminal =
  tm_symbol :: string
  tm_watch_drawer :: bool
  tm_order_drawer :: bool
  tm_watch_visible :: bool
  tm_order_visible :: bool
  tm_side :: "string option"
  tm_side_key :: nat
  tm_quick :: "(string \<times> string) option"
  tm_quick_open :: bool
  tm_quick_key :: nat
  tm_panel :: panel_drag
  tm_busy :: bool

definition terminal_panel_pos :: "jsnum \<Rightarrow> jsnum \<times> jsnum" where
  "terminal_panel_pos width = (math_max (Fin 16) (width - Fin 312 - Fin 16), Fin 72)"

definition new_terminal :: "jsnum \<Rightarrow> string option \<Rightarrow> terminal" where
  "new_terminal width symbol =
     \<lparr> tm_symbol = (case symbol of None \<Rightarrow> ''RELIANCE.NS'' | Some s \<Rightarrow> if s = [] then ''RELIANCE.NS'' else s),
       tm_watch_drawer = False, tm_order_drawer = False, tm_watch_visible = True, tm_order_visible = False, tm_side = None,
       tm_side_key = 0, tm_quick = None, tm_quick_open = False, tm_quick_key = 0,
       tm_panel = \<lparr> pd_active = False, pd_start = (Fin 0, Fin 0), pd_origin = (Fin 0, Fin 0), pd_pos = terminal_panel_pos width \<rparr>,
       tm_busy = False \<rparr>"

definition choose_side :: "string \<Rightarrow> terminal \<Rightarrow> terminal" where
  "choose_side side t = t\<lparr> tm_side := Some side, tm_side_key := Suc (tm_side_key t) \<rparr>"

text \<open>The parameters of the address changed.\<close>

definition url_changed :: "string option \<Rightarrow> string option \<Rightarrow> terminal \<Rightarrow> terminal" where
  "url_changed symbol side t =
     (let t1 = (case symbol of Some s \<Rightarrow> if s \<noteq> [] \<and> s \<noteq> tm_symbol t then t\<lparr> tm_symbol := s \<rparr> else t | None \<Rightarrow> t)
      in case side of
           Some d \<Rightarrow> if d = ''BUY'' \<or> d = ''SELL''
             then (choose_side d t1)\<lparr> tm_order_visible := True, tm_order_drawer := True \<rparr> else t1
         | None \<Rightarrow> t1)"

definition became_wide :: "bool \<Rightarrow> terminal \<Rightarrow> terminal" where
  "became_wide wide t = (if wide then t\<lparr> tm_watch_drawer := False, tm_order_drawer := False \<rparr> else t)"

definition tab_changed :: "bool \<Rightarrow> string \<Rightarrow> terminal \<Rightarrow> terminal" where
  "tab_changed small tab t =
     (if \<not> small then t
      else if tab = ''watchlist'' then t\<lparr> tm_watch_drawer := True, tm_order_drawer := False \<rparr>
      else if tab = ''order'' then t\<lparr> tm_order_drawer := True, tm_watch_drawer := False \<rparr>
      else t\<lparr> tm_watch_drawer := False, tm_order_drawer := False \<rparr>)"

definition pick_symbol :: "bool \<Rightarrow> string \<Rightarrow> terminal \<Rightarrow> terminal" where
  "pick_symbol small symbol t =
     (let t1 = t\<lparr> tm_symbol := symbol \<rparr> in if small then t1\<lparr> tm_watch_drawer := False \<rparr> else t1)"

definition trade_button :: "string \<Rightarrow> terminal \<Rightarrow> terminal" where
  "trade_button side t = (choose_side side t)\<lparr> tm_order_drawer := True \<rparr>"

definition quick_order :: "string \<Rightarrow> string \<Rightarrow> terminal \<Rightarrow> terminal" where
  "quick_order side symbol t = t\<lparr> tm_quick := Some (symbol, side), tm_quick_key := Suc (tm_quick_key t), tm_quick_open := True \<rparr>"

definition grab_order_panel :: "bool \<Rightarrow> jsnum \<times> jsnum \<Rightarrow> terminal \<Rightarrow> terminal" where
  "grab_order_panel on_control mouse t = (if on_control then t else t\<lparr> tm_panel := grab_panel mouse (tm_panel t) \<rparr>)"

definition move_order_panel :: "jsnum \<Rightarrow> jsnum \<Rightarrow> jsnum \<times> jsnum \<Rightarrow> terminal \<Rightarrow> terminal" where
  "move_order_panel width height mouse t = t\<lparr> tm_panel := move_panel width height mouse (tm_panel t) \<rparr>"

definition window_resized :: "jsnum \<Rightarrow> jsnum \<Rightarrow> terminal \<Rightarrow> terminal" where
  "window_resized width height t =
     t\<lparr> tm_panel := (tm_panel t)\<lparr> pd_pos := clamp_panel width height (pd_pos (tm_panel t)) \<rparr> \<rparr>"

definition close_order_panel :: "jsnum \<Rightarrow> terminal \<Rightarrow> terminal" where
  "close_order_panel width t =
     t\<lparr> tm_order_visible := False, tm_panel := (tm_panel t)\<lparr> pd_pos := terminal_panel_pos width \<rparr> \<rparr>"

definition open_order_panel :: "jsnum \<Rightarrow> jsnum \<Rightarrow> string option \<Rightarrow> terminal \<Rightarrow> terminal" where
  "open_order_panel width height side t =
     (let t1 = (case side of Some d \<Rightarrow> if d = [] then t else choose_side d t | None \<Rightarrow> t)
      in t1\<lparr> tm_panel := (tm_panel t1)\<lparr> pd_pos := clamp_panel width height (terminal_panel_pos width) \<rparr>, tm_order_visible := True \<rparr>)"

text \<open>The button beside the symbol: what it asks of the watchlist, once at a time.\<close>

datatype star_request = StarRemove jsval | StarAdd string string

definition current_item :: "string \<Rightarrow> jsval list \<Rightarrow> jsval option" where
  "current_item symbol items =
     (if symbol = [] then None
      else find (\<lambda>i. upper (to_string (js_or (field i ''symbol'') (JStr []))) = upper symbol) items)"

definition begin_star :: "jsval list \<Rightarrow> terminal \<Rightarrow> terminal \<times> star_request option" where
  "begin_star items t =
     (if tm_symbol t = [] \<or> tm_busy t then (t, None)
      else (t\<lparr> tm_busy := True \<rparr>,
        Some (case current_item (tm_symbol t) items of
                Some i \<Rightarrow> if truthy (field i ''id'') then StarRemove (field i ''id'')
                           else StarAdd (tm_symbol t) (if is_commodity_symbol (tm_symbol t) then ''MCX'' else ''NSE'')
              | None \<Rightarrow> StarAdd (tm_symbol t) (if is_commodity_symbol (tm_symbol t) then ''MCX'' else ''NSE''))))"

definition end_star :: "terminal \<Rightarrow> terminal" where
  "end_star t = t\<lparr> tm_busy := False \<rparr>"

datatype terminal_event =
  UrlChanged "string option" "string option" | BecameWide bool | TabChanged bool string | PickSymbol bool string
  | TradeButton string | QuickOrder string string | QuickClosed | WatchDrawerToggle | WatchDrawerClosed | OrderDrawerClosed
  | WatchPanelToggle | PanelGrab bool "jsnum \<times> jsnum" | PanelMove jsnum jsnum "jsnum \<times> jsnum" | PanelDrop
  | WindowResized jsnum jsnum | PanelToggle jsnum jsnum | StarClicked "jsval list" | StarDone

fun terminal_step :: "terminal_event \<Rightarrow> terminal \<Rightarrow> terminal" where
  "terminal_step (UrlChanged symbol side) t = url_changed symbol side t"
| "terminal_step (BecameWide wide) t = became_wide wide t"
| "terminal_step (TabChanged small tab) t = tab_changed small tab t"
| "terminal_step (PickSymbol small symbol) t = pick_symbol small symbol t"
| "terminal_step (TradeButton side) t = trade_button side t"
| "terminal_step (QuickOrder side symbol) t = quick_order side symbol t"
| "terminal_step QuickClosed t = t\<lparr> tm_quick_open := False \<rparr>"
| "terminal_step WatchDrawerToggle t = t\<lparr> tm_watch_drawer := (\<not> tm_watch_drawer t) \<rparr>"
| "terminal_step WatchDrawerClosed t = t\<lparr> tm_watch_drawer := False \<rparr>"
| "terminal_step OrderDrawerClosed t = t\<lparr> tm_order_drawer := False \<rparr>"
| "terminal_step WatchPanelToggle t = t\<lparr> tm_watch_visible := (\<not> tm_watch_visible t) \<rparr>"
| "terminal_step (PanelGrab on_control mouse) t = grab_order_panel on_control mouse t"
| "terminal_step (PanelMove width height mouse) t = move_order_panel width height mouse t"
| "terminal_step PanelDrop t = t\<lparr> tm_panel := drop_panel (tm_panel t) \<rparr>"
| "terminal_step (WindowResized width height) t = window_resized width height t"
| "terminal_step (PanelToggle width height) t =
     (if tm_order_visible t then close_order_panel width t else open_order_panel width height None t)"
| "terminal_step (StarClicked items) t = fst (begin_star items t)"
| "terminal_step StarDone t = end_star t"

section \<open>Lemmas on the candles\<close>

text \<open>The header and the chart put the same candles in the same order.\<close>

lemma header_agrees_with_chart: "display_candles now rows = chart_candles now rows"
  by (simp add: display_candles_def chart_candles_def)

text \<open>An array that is in order stays as it is.\<close>

lemma sort_by_in_order: "sorted_wrt (\<lambda>a b. \<not> after a b) xs \<Longrightarrow> sort_by after xs = xs"
proof (induction xs)
  case (Cons x xs)
  then show ?case by (cases xs) (simp_all add: sort_by_def)
qed (simp add: sort_by_def)

lemma kept_in_order:
  assumes "distinct (map f_time cs)" "\<And>c. c \<in> set cs \<Longrightarrow> row (g c) = Some c"
  shows "keep_by_time row (map g cs) = map (\<lambda>c. (f_time c, c)) cs"
  using assms
proof (induction cs rule: rev_induct)
  case (snoc c cs)
  have new: "t \<notin> fst ` set ys \<Longrightarrow> AList.update t v ys = ys @ [(t, v)]" for t v and ys :: "(jsnum \<times> fcandle) list"
    by (induction ys) auto
  from snoc have "keep_by_time row (map g cs) = map (\<lambda>c. (f_time c, c)) cs" by simp
  then have "keep_by_time row (map g (cs @ [c])) = AList.update (f_time c) c (map (\<lambda>c. (f_time c, c)) cs)"
    using snoc.prems(2) by (simp add: keep_by_time_def)
  also have "\<dots> = map (\<lambda>c. (f_time c, c)) (cs @ [c])" using snoc.prems(1) by (subst new) auto
  finally show ?case .
qed (simp add: keep_by_time_def)

lemma fit_in_order:
  assumes "chart_fit cs"
  shows "in_time_order (map (\<lambda>c. (f_time c, c)) cs) = cs"
proof -
  have s: "sorted_wrt (\<lambda>a b. time_key a < time_key b) cs" using assms by (simp add: chart_fit_def sorted_wrt_map)
  have w: "whole_time c" if "c \<in> set cs" for c using assms that by (auto simp: chart_fit_def list_all_iff intro: in_range_whole)
  have "sorted_wrt (\<lambda>a b. \<not> Fin 0 < f_time a - f_time b) cs"
    by (rule sorted_wrt_mono_rel [OF _ s]) (use w whole_time_after in fastforce)
  from sort_by_in_order [OF this] show ?thesis by (simp add: in_time_order_def o_def)
qed

lemma fit_distinct:
  assumes "chart_fit cs"
  shows "distinct (map f_time cs)"
proof -
  have "distinct (map time_key cs)" using assms by (auto simp: chart_fit_def strict_sorted_iff)
  then show ?thesis by (metis distinct_map inj_on_def time_key_cong)
qed

lemma whole_seconds: "0 \<le> k \<Longrightarrow> k \<le> 10 ^ 12 \<Longrightarrow> seconds_of (Fin (of_int k)) = Fin (of_int k)"
proof -
  assume "0 \<le> k" "k \<le> 10 ^ 12"
  then have "(of_int k :: rat) \<le> of_int (10 ^ 12)" by (subst of_int_le_iff)
  then show ?thesis by (simp add: seconds_of_def)
qed

lemma row_of_candle:
  assumes "chart_row (Fin (of_int n)) c = Some x" "\<bar>n\<bar> \<le> 2 ^ 39"
  shows "chart_row (Fin (of_int n)) (candle_row x) = Some x"
proof -
  define vol where "vol = (case to_finite_number (field c ''volume'') of Some v \<Rightarrow> v | None \<Rightarrow> Fin 0)"
  have v: "is_finite vol" by (auto simp: vol_def to_finite_number_def Let_def split: option.split if_splits)
  then obtain vv where vv: "vol = Fin vv" by (auto simp: is_finite_iff)
  obtain op hi lo cl where p: "to_finite_number (field c ''open'') = Some op" "to_finite_number (field c ''high'') = Some hi"
    "to_finite_number (field c ''low'') = Some lo" "to_finite_number (field c ''close'') = Some cl"
    using assms(1) unfolding chart_row_def Let_def by (auto split: option.splits)
  then obtain a b d e where m: "op = Fin a" "hi = Fin b" "lo = Fin d" "cl = Fin e" using to_finite_Fin by metis
  define top where "top = max b (max a (max e d))"
  define bot where "bot = min d (min a (min e b))"
  note r = assms(1) [unfolded chart_row_def Let_def p m option.case prod.case, folded vol_def]
  have q: "0 < a" "0 < b" "0 < d" "0 < e" "is_finite (row_time c)" "\<not> row_time c < Fin 946684800"
    "\<not> Fin (of_int n) + Fin 604800 < row_time c"
    "\<not> (Fin 0 < (Fin a + Fin e) / Fin 2 \<and> ((Fin a + Fin e) / Fin 2 * Fin 6 < Fin top \<or> Fin bot < (Fin a + Fin e) / Fin 2 / Fin 6))"
    and x: "x = \<lparr> f_time = row_time c, f_open = Fin a, f_high = Fin top, f_low = Fin bot, f_close = Fin e, f_volume = Fin (max 0 vv) \<rparr>"
    using r by (auto simp: vv top_def bot_def split: if_splits)
  have ir: "in_range x" by (rule chart_row_in_range [OF assms])
  obtain k where k: "row_time c = Fin (of_int k)" "946684800 \<le> k" using ir by (auto simp: in_range_def x)
  have "Fin (of_int n) + Fin 604800 = Fin (of_int (n + 604800))" using plus_int [of n 604800] assms(2) by simp
  with q(7) k have "(of_int k :: rat) \<le> of_int (n + 604800)" by simp
  then have "k \<le> n + 604800" by (simp only: of_int_le_iff)
  then have kb: "0 \<le> k" "k \<le> 10 ^ 12" using assms(2) k(2) by auto
  have t: "row_time (candle_row x) = row_time c"
  proof -
    have "field (candle_row x) ''time'' = JNum (Fin (of_int k))" by (simp add: candle_row_def own_Cons x k)
    then have "row_time (candle_row x) = Fin (of_int k)" unfolding row_time_def Let_def by (simp add: whole_seconds [OF kb])
    then show ?thesis by (simp add: k)
  qed
  have n: "to_finite_number (JNum (Fin z)) = Some (Fin z)" for z by (simp add: to_finite_number_def Let_def)
  have f: "field (candle_row x) ''open'' = JNum (Fin a)" "field (candle_row x) ''high'' = JNum (Fin top)"
    "field (candle_row x) ''low'' = JNum (Fin bot)" "field (candle_row x) ''close'' = JNum (Fin e)"
    "field (candle_row x) ''volume'' = JNum (Fin (max 0 vv))"
    by (simp_all add: candle_row_def own_Cons x)
  have pos: "0 < top" "0 < bot" using q by (auto simp: top_def bot_def)
  have same: "max top (max a (max e bot)) = top" "min bot (min a (min e top)) = bot" by (auto simp: top_def bot_def)
  show ?thesis
    unfolding chart_row_def Let_def t f n option.case prod.case math_max_Fin math_min_Fin same
    using q pos by (auto simp: x)
qed

text \<open>
  What the chart drew is drawn the same again: candles that were put in order, written as rows and put in order once more come
  back unchanged.
\<close>

theorem header_candles_stable:
  assumes "math_floor (now / Fin 1000) = Fin (of_int n)" "\<bar>n\<bar> \<le> 2 ^ 39"
  shows "display_candles now (map candle_row (chart_candles now rows)) = chart_candles now rows"
proof -
  let ?cs = "chart_candles now rows"
  have fit: "chart_fit ?cs" by (rule chart_candles_fit [OF assms])
  have "chart_row (Fin (of_int n)) (candle_row c) = Some c" if "c \<in> set ?cs" for c
  proof -
    have "\<forall>(t, x) \<in> set (keep_by_time (chart_row (Fin (of_int n))) rows). f_time x = t \<and> (\<exists>r. chart_row (Fin (of_int n)) r = Some x)"
      using kept_invariant [of rows "chart_row (Fin (of_int n))" "\<lambda>x. \<exists>r. chart_row (Fin (of_int n)) r = Some x"] by blast
    moreover have "c \<in> snd ` set (keep_by_time (chart_row (Fin (of_int n))) rows)"
      using that unfolding chart_candles_def assms(1) by simp
    ultimately obtain r where "chart_row (Fin (of_int n)) r = Some c" by auto
    then show ?thesis by (rule row_of_candle [OF _ assms(2)])
  qed
  then have "keep_by_time (chart_row (Fin (of_int n))) (map candle_row ?cs) = map (\<lambda>c. (f_time c, c)) ?cs"
    by (intro kept_in_order fit_distinct [OF fit])
  then show ?thesis by (simp only: display_candles_def assms(1) fit_in_order [OF fit])
qed

lemma foreign_candles_hidden:
  assumes "owned_candles selected owner cs \<noteq> []"
  shows "\<exists>o'. owner = Some o' \<and> upper (trim o') \<in> set (terminal_aliases selected)"
  using assms by (auto simp: owned_candles_def Let_def split: option.splits if_splits)

text \<open>The bare symbol is an alias of the share of either exchange, so bare candles are drawn for both.\<close>

lemma bare_candles_for_both:
  "owned_candles ''TCS.NS'' (Some ''TCS'') cs = cs" "owned_candles ''TCS.BO'' (Some ''TCS'') cs = cs"
  "owned_candles ''TCS'' (Some ''TCS.BO'') cs = []"
  by code_simp+

section \<open>Lemmas on the header\<close>

lemma last_bar_None [simp]: "last_bar f [] = None"
  by (simp add: last_bar_def)

lemma own_terminal:
  "own (terminal_quote market_open cache eod live quote symbol cs) ''price'' =
    (let r = resolve_symbol_price market_open cache (JStr symbol)
                \<lparr> po_live = (if market_open then live else []), po_watchlist = [], po_eod = eod, po_candle = last_bar f_close cs \<rparr>
     in field (build_quote_with_live_price (JObj (terminal_base_quote symbol (rs_quote r) quote (prev_close_fallback (rs_quote r) quote cs)))
       (num_val (terminal_price market_open (rs_price r) (last_bar f_close cs)))) ''price'')"
  by (simp add: terminal_quote_def Let_def own_spread own_Cons field_fields_of [symmetric])

lemma live_price_field:
  assumes "Fin 0 < Fin r"
  shows "field (build_quote_with_live_price base (JNum (Fin r))) ''price'' = JNum (fixed_num 2 (Fin r))"
  using assms by (auto simp: build_quote_with_live_price_def Let_def to_finite_number_def own_spread own_Cons simp del: fixed_num.simps)

text \<open>After the close the header shows the close of the last bar, whatever the quotes say.\<close>

lemma closed_header_price:
  assumes "cs \<noteq> []" "f_close (last cs) = Fin r" "0 < r"
  shows "own (terminal_quote False cache eod live quote symbol cs) ''price'' = JNum (fixed_num 2 (Fin r))"
  using assms unfolding own_terminal Let_def
  by (simp add: terminal_price_def last_bar_def or_else_def num_val_def live_price_field del: fixed_num.simps)

text \<open>While the market is open it is the price of the resolver, and the last bar does not replace it.\<close>

lemma open_header_price:
  assumes "rs_price (resolve_symbol_price True cache (JStr symbol)
      \<lparr> po_live = live, po_watchlist = [], po_eod = eod, po_candle = last_bar f_close cs \<rparr>) = Some (Fin r)" "0 < r"
  shows "own (terminal_quote True cache eod live quote symbol cs) ''price'' = JNum (fixed_num 2 (Fin r))"
  using assms unfolding own_terminal Let_def
  by (simp add: terminal_price_def num_val_def live_price_field del: fixed_num.simps)

text \<open>The highest and lowest price of the header are those of the last bar of the chart.\<close>

lemma header_range:
  assumes "cs \<noteq> []" "solid (last cs)"
  shows "own (terminal_quote market_open cache eod live quote symbol cs) ''high'' = JNum (f_high (last cs))"
    "own (terminal_quote market_open cache eod live quote symbol cs) ''low'' = JNum (f_low (last cs))"
    "own (terminal_quote market_open cache eod live quote symbol cs) ''open'' = JNum (f_open (last cs))"
proof -
  obtain op hi lo cl v where "f_open (last cs) = Fin op" "f_high (last cs) = Fin hi" "f_low (last cs) = Fin lo"
    using assms(2) by (rule solidE)
  then show "own (terminal_quote market_open cache eod live quote symbol cs) ''high'' = JNum (f_high (last cs))"
    "own (terminal_quote market_open cache eod live quote symbol cs) ''low'' = JNum (f_low (last cs))"
    "own (terminal_quote market_open cache eod live quote symbol cs) ''open'' = JNum (f_open (last cs))"
    using assms(1) by (simp_all add: terminal_quote_def Let_def own_spread own_Cons last_bar_def or_else_def num_val_def)
qed

text \<open>A close before that is \<open>null\<close> reads as 0, which keeps the bars from giving one.\<close>

lemma null_close_before_is_zero:
  assumes "field resolved_quote ''prev_close'' = JNull"
  shows "prev_close_fallback resolved_quote quote cs = Some (Fin 0)"
  using assms by (simp add: prev_close_fallback_def to_finite_number_def or_else_def Let_def)

section \<open>Lemmas on the strategies\<close>

lemma toggle_others: "j \<noteq> i \<Longrightarrow> own (sg_enabled (toggle_strategy i s)) j = own (sg_enabled s) j"
  by (simp add: toggle_strategy_def Let_def)

lemma toggle_twice: "truthy (own (sg_enabled (toggle_strategy i (toggle_strategy i s))) i) = truthy (own (sg_enabled s) i)"
  by (simp add: toggle_strategy_def Let_def)

lemma toggle_is_stored: "sg_stored (toggle_strategy i s) = Some (JObj (sg_enabled (toggle_strategy i s)))"
  by (simp add: toggle_strategy_def Let_def)

lemma stored_switches_return: "sg_enabled (new_strategy_store (sg_stored (toggle_strategy i s))) = sg_enabled (toggle_strategy i s)"
  by (simp add: toggle_is_stored new_strategy_store_def)

lemma defaults_enable_all: "sg_enabled s = [] \<Longrightarrow> i \<in> set ids \<Longrightarrow> truthy (own (sg_enabled (init_defaults ids s)) i)"
proof -
  have "truthy (own (fold (\<lambda>i. set_field i (JBool True)) ids fs) i) \<longleftrightarrow> i \<in> set ids \<or> truthy (own fs i)" for fs
    by (induction ids arbitrary: fs) auto
  then show "sg_enabled s = [] \<Longrightarrow> i \<in> set ids \<Longrightarrow> ?thesis" by (simp add: init_defaults_def all_enabled_def)
qed

text \<open>Where every strategy is switched off, the engine is asked for none, which it takes for all of them.\<close>

lemma all_off_runs_all:
  assumes "dock_enabled_ids strategy_ids s = []" "cs \<noteq> []"
  shows "map es_id (er_signals (dock_engine cs s)) = map es_id (map (run_module (bars_of cs)) strategy_registry)"
proof -
  have "bars_of cs \<noteq> []" using assms(2) by (simp add: bars_of_def)
  then show ?thesis
    by (simp add: dock_engine_def assms(1) run_engine_def run_engine_with_def modules_to_run_def Let_def split: prod.split)
qed

text \<open>The badge of the chart is the last published result, whatever is drawn now; without candles nothing new is published.\<close>

lemma badge_ignores_candles: "er_signals r \<noteq> [] \<Longrightarrow> trend_data (Some r) cs = Some (badge_of r)"
  by (simp add: trend_data_def)

lemma no_candles_nothing_published: "publish_engine [] s = s"
  by (simp add: publish_engine_def dock_engine_def bars_of_def run_engine_def run_engine_with_def)

lemma dock_counts_all:
  assumes "dock_counts r = (bulls, bears, neutrals)"
  shows "bulls + bears + neutrals = length (er_signals r)"
proof -
  have "length (filter (\<lambda>s. es_signal s = Bullish) xs) + length (filter (\<lambda>s. es_signal s = Bearish) xs) \<le> length xs" for xs
    by (induction xs) auto
  from this [of "er_signals r"] show ?thesis using assms by (auto simp: dock_counts_def Let_def)
qed

section \<open>Lemmas on the layout\<close>

lemma compact_or_wide: "is_wide width \<longleftrightarrow> \<not> is_compact width"
  by (cases "tier_of width") (simp_all add: is_wide_def is_compact_def)

lemma wide_width: "w \<noteq> NaN \<Longrightarrow> is_wide w \<longleftrightarrow> Fin 1024 \<le> w"
  by (cases w) (auto simp: is_wide_def tier_of_def)

lemma finite_plus_ok: "x \<noteq> NaN \<Longrightarrow> Fin a + x \<noteq> NaN"
  by (cases x) auto

lemma signed_ok: "x \<noteq> NaN \<Longrightarrow> x * (if b then Fin (- 1) else Fin 1) \<noteq> NaN"
  by (cases x) (auto simp: signed_inf_def)

lemma difference_ok: "Fin a - Fin b \<noteq> NaN"
  by simp

text \<open>A panel stays between its least and its most size, and comes out in whole pixels.\<close>

lemma resized_between:
  assumes "least \<le> most" "is_finite start_size" "is_finite start_pos" "is_finite pos"
  shows "Fin (of_int least) \<le> resize_panel side (Fin (of_int least)) (Fin (of_int most)) start_size start_pos pos \<and>
    resize_panel side (Fin (of_int least)) (Fin (of_int most)) start_size start_pos pos \<le> Fin (of_int most)"
proof -
  obtain a b c where f: "start_size = Fin a" "start_pos = Fin b" "pos = Fin c" using assms by (auto simp: is_finite_iff)
  define x where "x = start_size + (pos - start_pos) * (if side = ''right'' \<or> side = ''bottom'' then Fin (- 1) else Fin 1)"
  have "x \<noteq> NaN" unfolding x_def f by (intro finite_plus_ok signed_ok difference_ok)
  define y where "y = math_min (Fin (of_int most)) (math_max (Fin (of_int least)) x)"
  have "Fin (of_int least) \<le> y" "y \<le> Fin (of_int most)"
    using math_max_ge [of "Fin (of_int least)" x] math_min_le [of "Fin (of_int most)" "math_max (Fin (of_int least)) x"] assms(1)
      \<open>x \<noteq> NaN\<close> by (auto simp: y_def intro: math_min_ge)
  from this [THEN math_round_mono] show ?thesis
    unfolding resize_panel_def Let_def x_def [symmetric] y_def [symmetric] by (simp only: math_round_of_int simp_thms)
qed

text \<open>
  The panel below the chart is from 32 to 420 pixels high in every run of events, and where it is open it is higher than the
  56 at which it collapses.
\<close>

definition bottom_ok :: "bottom_dock \<Rightarrow> bool" where
  "bottom_ok b \<longleftrightarrow> Fin 32 \<le> bd_height b \<and> bd_height b \<le> Fin 420 \<and> (\<not> bd_collapsed b \<longrightarrow> Fin 56 < bd_height b) \<and>
     (\<forall>y h. bd_drag b = Some (y, h) \<longrightarrow> is_finite y \<and> is_finite h)"

definition event_placed :: "bottom_event \<Rightarrow> bool" where
  "event_placed e = (case e of BottomGrab small y \<Rightarrow> is_finite y | BottomDrag y \<Rightarrow> is_finite y | _ \<Rightarrow> True)"

lemma height_finite: "Fin a \<le> h \<Longrightarrow> h \<le> Fin b \<Longrightarrow> is_finite h"
  by (cases h) auto

lemma toggle_bottom_ok: "bottom_ok b \<Longrightarrow> bottom_ok (toggle_bottom b)"
  by (cases "bd_height b") (auto simp: bottom_ok_def toggle_bottom_def Let_def)

lemma drag_bottom_ok:
  assumes "bottom_ok b" "is_finite y"
  shows "bottom_ok (drag_bottom y b)"
proof (cases "bd_drag b")
  case (Some d)
  obtain start_y initial where d: "d = (start_y, initial)" by (cases d)
  with assms(1) Some have "is_finite start_y" "is_finite initial" by (auto simp: bottom_ok_def)
  with assms(2) obtain p q r where f: "start_y = Fin p" "initial = Fin q" "y = Fin r" by (auto simp: is_finite_iff)
  define h where "h = math_max (Fin 32) (math_min (Fin 420) (initial + (start_y - y)))"
  have "initial + (start_y - y) \<noteq> NaN" unfolding f by (intro finite_plus_ok difference_ok)
  then have "Fin 32 \<le> h \<and> h \<le> Fin 420" unfolding h_def by (intro math_clamp) simp_all
  moreover from this have "\<not> h \<le> Fin 56 \<Longrightarrow> Fin 56 < h" by (cases h) auto
  ultimately show ?thesis using assms(1) Some
    unfolding drag_bottom_def Some d option.case prod.case h_def [symmetric] Let_def by (auto simp: bottom_ok_def d)
qed (use assms in \<open>simp add: drag_bottom_def\<close>)

lemma bottom_step_ok:
  assumes "bottom_ok b" "event_placed e"
  shows "bottom_ok (bottom_step e b)"
proof (cases e)
  case (BottomGrab small y)
  then show ?thesis using assms height_finite [of 32 "bd_height b" 420]
    by (auto simp: bottom_ok_def grab_bottom_def event_placed_def)
next
  case (BottomTab key)
  moreover have "bottom_ok (b\<lparr> bd_tab := key \<rparr>)" using assms(1) by (simp add: bottom_ok_def)
  ultimately show ?thesis by (simp add: click_tab_def toggle_bottom_ok Let_def)
qed (use assms in \<open>simp_all add: toggle_bottom_ok drag_bottom_ok event_placed_def\<close>, simp add: bottom_ok_def release_bottom_def)

theorem bottom_run_ok: "list_all event_placed es \<Longrightarrow> bottom_ok (fold bottom_step es new_bottom_dock)"
  by (rule fold_invariant_list [where P = bottom_ok]) (auto simp: list_all_iff bottom_step_ok, simp add: bottom_ok_def new_bottom_dock_def)

lemma tab_click_shows: "\<not> bd_collapsed (click_tab key b) \<and> bd_tab (click_tab key b) = key"
  by (simp add: click_tab_def toggle_bottom_def Let_def)

text \<open>On a wide window no drawer is open; a tab of the small screen opens at most one.\<close>

lemma wide_closes_drawers: "\<not> tm_watch_drawer (became_wide True t) \<and> \<not> tm_order_drawer (became_wide True t)"
  by (simp add: became_wide_def)

lemma one_drawer_of_tab: "\<not> (tm_watch_drawer (tab_changed True tab t) \<and> tm_order_drawer (tab_changed True tab t))"
  by (simp add: tab_changed_def)

text \<open>The bar below the chart does not keep to that: its buttons leave the other drawer open.\<close>

lemma both_drawers_open:
  "let t = fold terminal_step [WatchDrawerToggle, TradeButton ''BUY''] (new_terminal (Fin 400) None)
   in tm_watch_drawer t \<and> tm_order_drawer t"
  by (simp add: new_terminal_def trade_button_def choose_side_def)

text \<open>The panel of orders lies in the window after a move, a change of the window and its opening.\<close>

definition panel_inside :: "jsnum \<Rightarrow> jsnum \<Rightarrow> terminal \<Rightarrow> bool" where
  "panel_inside width height t = (let p = pd_pos (tm_panel t) in
     Fin 0 \<le> fst p \<and> fst p \<le> width - Fin 312 \<and> Fin 0 \<le> snd p \<and> snd p \<le> height - Fin 120)"

lemma resized_panel_inside:
  assumes "Fin 312 \<le> width" "Fin 120 \<le> height" "width \<noteq> PInf" "height \<noteq> PInf"
    and "fst (pd_pos (tm_panel t)) \<noteq> NaN" "snd (pd_pos (tm_panel t)) \<noteq> NaN"
  shows "panel_inside width height (window_resized width height t)"
  using panel_in_window [OF assms(1,2,5,6,3,4)] by (simp add: panel_inside_def window_resized_def)

lemma opened_panel_inside:
  assumes "Fin 312 \<le> width" "Fin 120 \<le> height" "width \<noteq> PInf" "height \<noteq> PInf"
  shows "panel_inside width height (open_order_panel width height side t) \<and> tm_order_visible (open_order_panel width height side t)"
proof -
  have "fst (terminal_panel_pos width) \<noteq> NaN" "snd (terminal_panel_pos width) \<noteq> NaN"
    using assms(1,3) by (cases width; cases "width - Fin 312"; auto simp: terminal_panel_pos_def)+
  from panel_in_window [OF assms(1,2) this assms(3,4)] show ?thesis
    by (simp add: panel_inside_def open_order_panel_def Let_def split: option.split)
qed

lemma room_left: "Fin c \<le> w \<Longrightarrow> w \<noteq> PInf \<Longrightarrow> Fin 0 \<le> w - Fin c"
  by (cases w) (auto simp: rnd_nonneg)

lemma moved_dock_inside:
  assumes "pd_active d" "Fin 360 \<le> width" "Fin 120 \<le> height" "width \<noteq> PInf" "height \<noteq> PInf"
    and "fst (pd_origin d) + (fst mouse - fst (pd_start d)) \<noteq> NaN" "snd (pd_origin d) + (snd mouse - snd (pd_start d)) \<noteq> NaN"
  shows "let p = pd_pos (move_dock width height mouse d) in
    Fin 0 \<le> fst p \<and> fst p \<le> width - Fin 360 \<and> Fin 0 \<le> snd p \<and> snd p \<le> height - Fin 120"
  using math_clamp [OF room_left [OF assms(2,4)] assms(6)] math_clamp [OF room_left [OF assms(3,5)] assms(7)] assms(1)
  by (simp add: move_dock_def clamp_dock_def)

text \<open>A place that was stored is taken as it is, so a dock of a wider window may lie outside until the window changes.\<close>

lemma stored_place_unchecked: "dock_start (Fin 800) (Some (Fin 1500, Fin 80)) = (Fin 1500, Fin 80)"
  by (simp add: dock_start_def)

text \<open>While a change of the watchlist is under way another click asks for nothing.\<close>

lemma star_once: "snd (begin_star items t) \<noteq> None \<Longrightarrow> begin_star items' (fst (begin_star items t)) = (fst (begin_star items t), None)"
  by (auto simp: begin_star_def split: if_splits)

text \<open>A share of either exchange that is not in the list is asked for as one of the first.\<close>

lemma star_asks_nse:
  assumes "tm_symbol t \<noteq> []" "\<not> tm_busy t" "\<not> is_commodity_symbol (tm_symbol t)"
  shows "snd (begin_star [] t) = Some (StarAdd (tm_symbol t) ''NSE'')"
  using assms by (simp add: begin_star_def current_item_def)

lemma quick_order_reopens: "tm_quick_key (quick_order side symbol t) = Suc (tm_quick_key t) \<and> tm_quick_open (quick_order side symbol t)"
  by (simp add: quick_order_def)

end
