(* ===== verification/WatchlistDesk.thy ===== *)
theory WatchlistDesk
  imports PriceResolver WatchlistStore PortfolioStore LiveFeed Formatters
begin

text \<open>
  The watchlist beside the chart and what surrounds it: the rows of \<open>frontend/src/components/trading/Watchlist.jsx\<close> and
  \<open>WatchlistItem.jsx\<close>, the shares of an index (\<open>frontend/src/utils/indexConstituents.js\<close>), the search for a symbol
  (\<open>frontend/src/hooks/useSearch.js\<close> and \<open>AddSymbolModal.jsx\<close>), the list of watchlists (\<open>WatchlistSidebar.jsx\<close>), the bar of
  tickers (\<open>frontend/src/components/layout/MarketTickerBar.jsx\<close>), the header of the chart (\<open>ChartHeader.jsx\<close>) and the poll of
  the portfolio (\<open>frontend/src/hooks/useLivePortfolio.js\<close>). Answers of the server are arguments; the markup is left out.
\<close>

section \<open>Shares of an index\<close>

definition nifty50_stocks :: "string list" where
  "nifty50_stocks =
    [''ADANIENT'', ''ADANIPORTS'', ''APOLLOHOSP'', ''ASIANPAINT'', ''AXISBANK'', ''BAJAJ-AUTO'', ''BAJAJFINSV'',
     ''BAJFINANCE'', ''BHARTIARTL'', ''BPCL'', ''BRITANNIA'', ''CIPLA'', ''COALINDIA'', ''DIVISLAB'', ''DRREDDY'',
     ''EICHERMOT'', ''GRASIM'', ''HCLTECH'', ''HDFCBANK'', ''HDFCLIFE'', ''HEROMOTOCO'', ''HINDALCO'',
     ''HINDUNILVR'', ''ICICIBANK'', ''INDUSINDBK'', ''INFY'', ''ITC'', ''JIOFIN'', ''JSWSTEEL'', ''KOTAKBANK'',
     ''LT'', ''M&M'', ''MARUTI'', ''NESTLEIND'', ''NTPC'', ''ONGC'', ''POWERGRID'', ''RELIANCE'', ''SBIN'',
     ''SBILIFE'', ''SUNPHARMA'', ''TATAMOTORS'', ''TATACONSUM'', ''TATASTEEL'', ''TCS'', ''TECHM'', ''TITAN'',
     ''TRENT'', ''ULTRACEMCO'', ''WIPRO'']"

definition nifty_bank_stocks :: "string list" where
  "nifty_bank_stocks =
    [''HDFCBANK'', ''ICICIBANK'', ''KOTAKBANK'', ''AXISBANK'', ''SBIN'', ''INDUSINDBK'', ''BANDHANBNK'',
     ''FEDERALBNK'', ''IDFCFIRSTB'', ''AUBANK'', ''PNB'', ''BANKBARODA'']"

definition nifty_it_stocks :: "string list" where
  "nifty_it_stocks =
    [''TCS'', ''INFY'', ''HCLTECH'', ''WIPRO'', ''TECHM'', ''MPHASIS'', ''LTIM'', ''COFORGE'', ''PERSISTENT'',
     ''KPITTECH'', ''OFSS'']"

definition nifty_midcap100_stocks :: "string list" where
  "nifty_midcap100_stocks =
    [''APLAPOLLO'', ''ASTRAL'', ''AUBANK'', ''BANDHANBNK'', ''BSE'', ''CAMS'', ''CDSL'', ''COFORGE'', ''GLENMARK'',
     ''HAL'', ''HINDPETRO'', ''KPITTECH'', ''LTTS'', ''MPHASIS'', ''NAUKRI'', ''PERSISTENT'', ''POLYCAB'',
     ''SBICARD'', ''TIINDIA'', ''TATACOMM'']"

definition nifty_next50_stocks :: "string list" where
  "nifty_next50_stocks =
    [''ABB'', ''ACC'', ''ADANIGREEN'', ''AMBUJACEM'', ''BERGEPAINT'', ''BIOCON'', ''BOSCHLTD'', ''COLPAL'',
     ''CONCOR'', ''DLF'', ''GAIL'', ''GODREJCP'', ''GODREJPROP'', ''HAVELLS'', ''ICICIGI'', ''ICICIPRULI'',
     ''INDUSTOWER'', ''MARICO'', ''MCDOWELL-N'', ''MOTHERSON'', ''NAUKRI'', ''OBEROIRLTY'', ''PAGEIND'',
     ''PIDILITIND'', ''PIIND'', ''SRF'', ''TORNTPHARM'', ''TRENT'', ''TVSMOTOR'', ''VEDL'']"

definition sensex_stocks :: "string list" where
  "sensex_stocks =
    [''RELIANCE'', ''TCS'', ''HDFCBANK'', ''INFY'', ''ICICIBANK'', ''LT'', ''SBIN'', ''ITC'', ''BHARTIARTL'',
     ''AXISBANK'', ''BAJFINANCE'', ''KOTAKBANK'', ''HCLTECH'', ''WIPRO'', ''MARUTI'', ''SUNPHARMA'', ''TITAN'',
     ''BAJAJFINSV'', ''POWERGRID'', ''NTPC'', ''TATASTEEL'', ''ASIANPAINT'', ''NESTLEIND'', ''M&M'', ''ULTRACEMCO'',
     ''TATAMOTORS'', ''TRENT'', ''ADANIPORTS'', ''JSWSTEEL'', ''HDFCLIFE'']"

definition nifty_auto_stocks :: "string list" where
  "nifty_auto_stocks =
    [''TATAMOTORS'', ''MARUTI'', ''M&M'', ''BAJAJ-AUTO'', ''HEROMOTOCO'', ''EICHERMOT'', ''TVSMOTOR'', ''BOSCHLTD'',
     ''MOTHERSON'', ''BALKRISIND'', ''ASHOKLEY'', ''BHARATFORG'']"

definition nifty_pharma_stocks :: "string list" where
  "nifty_pharma_stocks =
    [''SUNPHARMA'', ''DIVISLAB'', ''CIPLA'', ''DRREDDY'', ''APOLLOHOSP'', ''AUROPHARMA'', ''TORNTPHARM'', ''BIOCON'',
     ''LUPIN'', ''ALKEM'', ''GLENMARK'', ''PFIZER'']"

definition nifty_fmcg_stocks :: "string list" where
  "nifty_fmcg_stocks =
    [''HINDUNILVR'', ''ITC'', ''NESTLEIND'', ''BRITANNIA'', ''DABUR'', ''GODREJCP'', ''MARICO'', ''COLPAL'',
     ''EMAMILTD'', ''TATACONSUM'', ''UBL'', ''VBL'']"

definition index_constituents :: "(string \<times> string list) list" where
  "index_constituents =
    [(''NSEI'', nifty50_stocks), (''NIFTY50'', nifty50_stocks), (''NIFTY 50'', nifty50_stocks),
     (''NIFTY'', nifty50_stocks), (''NSEBANK'', nifty_bank_stocks), (''BANKNIFTY'', nifty_bank_stocks),
     (''NIFTY BANK'', nifty_bank_stocks), (''NIFTYBANK'', nifty_bank_stocks), (''BANKBEES'', nifty_bank_stocks),
     (''NIFTYIT'', nifty_it_stocks), (''NIFTY IT'', nifty_it_stocks), (''ITBEES'', nifty_it_stocks),
     (''NIFTY_MIDCAP_100'', nifty_midcap100_stocks), (''NIFTYMIDCAP100'', nifty_midcap100_stocks),
     (''NIFTY MIDCAP 100'', nifty_midcap100_stocks), (''MIDCAPBEES'', nifty_midcap100_stocks),
     (''NIFTYNXT50'', nifty_next50_stocks), (''NIFTY NEXT 50'', nifty_next50_stocks),
     (''JUNIORBEES'', nifty_next50_stocks), (''NIFTYBEES'', nifty50_stocks), (''BSESN'', sensex_stocks),
     (''SENSEX'', sensex_stocks), (''NIFTYAUTO'', nifty_auto_stocks), (''NIFTY AUTO'', nifty_auto_stocks),
     (''NIFTYPHARMA'', nifty_pharma_stocks), (''NIFTY PHARMA'', nifty_pharma_stocks),
     (''NIFTYFMCG'', nifty_fmcg_stocks), (''NIFTY FMCG'', nifty_fmcg_stocks)]"

text \<open>The pattern for the suffix ignores the case, so the text is raised first here.\<close>

definition get_constituents :: "jsval \<Rightarrow> string list option" where
  "get_constituents symbol =
     (if \<not> truthy symbol then None
      else
        let bare = without_suffix (upper (to_string symbol));
            base = trim (if starts_with bare ''^'' then drop 1 bare else bare)
        in map_of index_constituents base)"

section \<open>Rows of the watchlist\<close>

definition raw_text :: "jsval \<Rightarrow> string" where
  "raw_text v = to_string (js_or v (JStr []))"

definition price_keys :: "string \<Rightarrow> string list" where
  "price_keys upper_symbol =
     (let explicit = (ends_with upper_symbol ''.NS'' \<or> ends_with upper_symbol ''.BO'' \<or> starts_with upper_symbol ''^'');
          with_ns = (if explicit then upper_symbol else upper_symbol @ ''.NS'');
          without_ns = without_suffix upper_symbol
      in if explicit then [upper_symbol, without_ns] else [with_ns, upper_symbol, without_ns])"

definition price_for_symbol :: "bool \<Rightarrow> jsobj \<Rightarrow> jsobj \<Rightarrow> jsval \<Rightarrow> jsval" where
  "price_for_symbol realtime cache prices symbol =
     (let raw = trim (raw_text symbol) in
      if raw = [] then JObj []
      else if \<not> realtime then
        (let session = get_session_close_price realtime cache (JStr raw)
         in if is_nullish (field session ''price'') then JObj [] else session)
      else case find (\<lambda>k. \<not> is_nullish (field (own prices k) ''price'')) (price_keys (upper raw)) of
             Some k \<Rightarrow> own prices k
           | None \<Rightarrow> JObj [])"

definition normalize_symbol_key :: "jsval \<Rightarrow> string" where
  "normalize_symbol_key symbol = without_suffix (upper (trim (raw_text symbol)))"

definition is_selected_row :: "jsval \<Rightarrow> jsval \<Rightarrow> bool" where
  "is_selected_row item selected =
     (let item_key = normalize_symbol_key (field item ''symbol''); selected_key = normalize_symbol_key selected
      in item_key \<noteq> [] \<and> selected_key \<noteq> [] \<and> item_key = selected_key)"

definition row_exchange :: "jsval \<Rightarrow> string" where
  "row_exchange item =
     (let raw = raw_text (field item ''symbol'')
      in to_string (js_or (field item ''exchange'') (JStr (if ends_with raw ''.BO'' then ''BSE'' else ''NSE''))))"

text \<open>The symbol that the list hands to the chart and to the order panel.\<close>

definition row_chart_symbol :: "jsval \<Rightarrow> string" where
  "row_chart_symbol item =
     (let raw = raw_text (field item ''symbol'')
      in if starts_with raw ''^'' \<or> ends_with raw ''.NS'' \<or> ends_with raw ''.BO'' \<or> is_commodity_symbol raw then raw
         else if upper (row_exchange item) = ''BSE'' then raw @ ''.BO'' else raw @ ''.NS'')"

text \<open>The symbol that the row itself opens in the terminal.\<close>

definition item_chart_symbol :: "jsval \<Rightarrow> string" where
  "item_chart_symbol item =
     (let raw = raw_text (field item ''symbol'')
      in if starts_with raw ''^'' \<or> ends_with raw ''.NS'' \<or> ends_with raw ''.BO'' then raw
         else if row_exchange item = ''BSE'' then raw @ ''.BO'' else raw @ ''.NS'')"

definition item_label :: "jsval \<Rightarrow> string" where
  "item_label item =
     (let t = remove_first ''.BO'' (remove_first ''.NS'' (raw_text (field item ''symbol'')))
      in if starts_with t ''^'' then drop 1 t else t)"

definition change_positive :: "jsval \<Rightarrow> bool" where
  "change_positive price = (Fin 0 \<le> to_number (nullish (first_field price [''change'', ''change_percent'']) (JNum (Fin 0))))"

definition format_signed_number :: "jsval \<Rightarrow> nat \<Rightarrow> string" where
  "format_signed_number v decimals =
     (if no_number v then ''-'' else (if Fin 0 < to_number v then ''+'' else []) @ to_fixed decimals (to_number v))"

definition item_change_text :: "jsval \<Rightarrow> string" where
  "item_change_text price =
     (if is_nullish (field price ''change'') \<or> is_nullish (field price ''change_percent'') then ''-''
      else format_signed_number (field price ''change'') 2 @ '' ('' @ format_percent (field price ''change_percent'') 2 True @ '')'')"

section \<open>The shares of an index below its row\<close>

record row_panel =
  rw_expanded :: bool
  rw_loading :: bool
  rw_prices :: jsobj

definition new_row_panel :: row_panel where
  "new_row_panel = \<lparr> rw_expanded = False, rw_loading = False, rw_prices = [] \<rparr>"

definition constituent_suffix :: "jsval \<Rightarrow> string" where
  "constituent_suffix item = (if upper (raw_text (field item ''exchange'')) = ''BSE'' then ''.BO'' else ''.NS'')"

text \<open>What is asked of the server when the row opens.\<close>

definition constituent_request :: "jsval \<Rightarrow> string list option" where
  "constituent_request item =
     (case get_constituents (field item ''symbol'') of
        None \<Rightarrow> None
      | Some cs \<Rightarrow> if cs = [] then None else Some (map (\<lambda>s. s @ constituent_suffix item) cs))"

definition toggle_expand :: "jsval \<Rightarrow> row_panel \<Rightarrow> row_panel \<times> string list option" where
  "toggle_expand item w =
     (let expanded = (\<not> rw_expanded w); request = (if expanded then constituent_request item else None)
      in (w\<lparr> rw_expanded := expanded, rw_loading := (rw_loading w \<or> request \<noteq> None) \<rparr>, request))"

definition normalized_prices :: "jsobj \<Rightarrow> jsobj" where
  "normalized_prices quotes =
     foldl (\<lambda>acc (k, v). set_field (without_suffix (upper k)) v (set_field (upper k) v acc)) [] quotes"

definition constituents_answered :: "jsval option \<Rightarrow> row_panel \<Rightarrow> row_panel" where
  "constituents_answered quotes w =
     (case quotes of
        None \<Rightarrow> w\<lparr> rw_loading := False \<rparr>
      | Some v \<Rightarrow> w\<lparr> rw_prices := normalized_prices (fields_of v), rw_loading := False \<rparr>)"

definition constituent_price :: "jsval \<Rightarrow> row_panel \<Rightarrow> string \<Rightarrow> jsval" where
  "constituent_price item w base =
     nullish (own (rw_prices w) (base @ constituent_suffix item)) (nullish (own (rw_prices w) base) (JObj []))"

section \<open>Dragging, naming and scrolling\<close>

record row_drag =
  rd_from :: "nat option"
  rd_over :: "nat option"

definition drop_row :: "nat \<Rightarrow> row_drag \<Rightarrow> watchlist_store \<Rightarrow> row_drag \<times> watchlist_store" where
  "drop_row i d s =
     (\<lparr> rd_from = None, rd_over = None \<rparr>,
      case rd_from d of
        Some src \<Rightarrow> if src \<noteq> i then reorder_items (int src) (int i) s else s
      | None \<Rightarrow> s)"

definition created_name :: "string \<Rightarrow> nat \<Rightarrow> string" where
  "created_name typed n = non_empty_or (trim typed) (''Watchlist '' @ number_to_string (num_of_nat (n + 1)))"

record rename_box =
  rb_id :: "jsval option"
  rb_value :: string

definition start_rename :: "jsobj \<Rightarrow> rename_box" where
  "start_rename wl = \<lparr> rb_id = Some (own wl ''id''), rb_value = to_string (own wl ''name'') \<rparr>"

definition commit_rename :: "jsobj list \<Rightarrow> rename_box \<Rightarrow> rename_box \<times> (jsval \<times> string) option" where
  "commit_rename wls b =
     (let trimmed = trim (rb_value b)
      in (\<lparr> rb_id = None, rb_value = [] \<rparr>,
          case rb_id b of
            None \<Rightarrow> None
          | Some i \<Rightarrow>
              if truthy i \<and> trimmed \<noteq> [] \<and>
                strict_neq (JStr trimmed) (case find (\<lambda>w. js_same (own w ''id'') i) wls of Some w \<Rightarrow> own w ''name'' | None \<Rightarrow> Undefined)
              then Some (i, trimmed) else None))"

definition total_symbols :: "jsobj list \<Rightarrow> nat" where
  "total_symbols wls = sum_list (map (\<lambda>w. length (items_of w)) wls)"

text \<open>Whether the tabs can be scrolled to the left and to the right.\<close>

definition tab_scroll :: "jsnum \<Rightarrow> jsnum \<Rightarrow> jsnum \<Rightarrow> bool \<times> bool" where
  "tab_scroll scroll_left client_width scroll_width =
     (Fin 4 < scroll_left, scroll_left + client_width < scroll_width - Fin 4)"

section \<open>The search with a delay\<close>

text \<open>
  \<open>useSearch\<close>: the text is taken over after a delay; each text that is taken over cancels the effect of the one before, so
  only the request of \<open>sb_current\<close> may still write. A request is kept with the text it asks for.
\<close>

record search_box =
  sb_query :: string
  sb_debounced :: string
  sb_results :: jsval
  sb_searching :: bool
  sb_current :: "nat option"
  sb_next :: nat
  sb_requests :: "(nat \<times> string) list"

definition new_search :: search_box where
  "new_search = \<lparr> sb_query = [], sb_debounced = [], sb_results = JArr [], sb_searching = False, sb_current = None, sb_next = 0,
     sb_requests = [] \<rparr>"

definition search_results :: "string \<Rightarrow> jsval \<Rightarrow> jsval" where
  "search_results key data = js_or (field data key) (js_or data (JArr []))"

definition take_query :: "search_box \<Rightarrow> search_box" where
  "take_query s =
     (let q = sb_query s in
      if q = sb_debounced s then s
      else if length q < 2 then s\<lparr> sb_debounced := q, sb_current := None, sb_results := JArr [] \<rparr>
      else s\<lparr> sb_debounced := q, sb_current := Some (sb_next s), sb_next := Suc (sb_next s),
              sb_requests := (sb_next s, q) # sb_requests s, sb_searching := True \<rparr>)"

text \<open>The answer to a request; \<open>None\<close> is a failure.\<close>

definition search_settled :: "string \<Rightarrow> nat \<Rightarrow> jsval option \<Rightarrow> search_box \<Rightarrow> search_box" where
  "search_settled key i data s =
     (let s1 = s\<lparr> sb_requests := filter (\<lambda>r. fst r \<noteq> i) (sb_requests s) \<rparr>
      in if sb_current s \<noteq> Some i then s1
         else s1\<lparr> sb_results := (case data of Some d \<Rightarrow> search_results key d | None \<Rightarrow> JArr []), sb_searching := False \<rparr>)"

definition clear_search :: "search_box \<Rightarrow> search_box" where
  "clear_search s = s\<lparr> sb_query := [], sb_results := JArr [] \<rparr>"

datatype search_event = SearchType string | SearchTimer | SearchAnswer nat | SearchError nat | SearchClear

text \<open>\<open>server\<close> is what the server answers to a text.\<close>

fun search_step :: "string \<Rightarrow> (string \<Rightarrow> jsval) \<Rightarrow> search_event \<Rightarrow> search_box \<Rightarrow> search_box" where
  "search_step key server (SearchType q) s = s\<lparr> sb_query := q \<rparr>"
| "search_step key server SearchTimer s = take_query s"
| "search_step key server (SearchAnswer i) s =
     (case map_of (sb_requests s) i of None \<Rightarrow> s | Some q \<Rightarrow> search_settled key i (Some (server q)) s)"
| "search_step key server (SearchError i) s =
     (case map_of (sb_requests s) i of None \<Rightarrow> s | Some q \<Rightarrow> search_settled key i None s)"
| "search_step key server SearchClear s = clear_search s"

section \<open>The dialogue that adds a symbol\<close>

text \<open>Its search waits too, but a request that is under way is not cancelled.\<close>

record add_modal =
  am_query :: string
  am_results :: "jsval list"
  am_searching :: bool
  am_timer :: "string option"
  am_next :: nat
  am_requests :: "(nat \<times> string) list"

definition new_add_modal :: add_modal where
  "new_add_modal = \<lparr> am_query = [], am_results = [], am_searching = False, am_timer = None, am_next = 0, am_requests = [] \<rparr>"

definition type_symbol :: "string \<Rightarrow> add_modal \<Rightarrow> add_modal" where
  "type_symbol q m =
     (if q = am_query m then m
      else let m1 = m\<lparr> am_query := q, am_timer := None \<rparr>
        in if q = [] then m1\<lparr> am_results := [] \<rparr> else m1\<lparr> am_searching := True, am_timer := Some q \<rparr>)"

definition add_timer_fires :: "add_modal \<Rightarrow> add_modal" where
  "add_timer_fires m =
     (case am_timer m of
        None \<Rightarrow> m
      | Some q \<Rightarrow> m\<lparr> am_timer := None, am_next := Suc (am_next m), am_requests := (am_next m, q) # am_requests m \<rparr>)"

definition add_settled :: "nat \<Rightarrow> jsval option \<Rightarrow> add_modal \<Rightarrow> add_modal" where
  "add_settled i data m =
     m\<lparr> am_requests := filter (\<lambda>r. fst r \<noteq> i) (am_requests m),
        am_results := (case data of Some d \<Rightarrow> elements (js_or (field d ''results'') (JArr [])) | None \<Rightarrow> []),
        am_searching := False \<rparr>"

definition open_modal :: "add_modal \<Rightarrow> add_modal" where
  "open_modal m = (type_symbol [] m)\<lparr> am_results := [] \<rparr>"

datatype add_event = AddOpened | AddTyped string | AddTimer | AddAnswer nat

fun add_step :: "(string \<Rightarrow> jsval) \<Rightarrow> add_event \<Rightarrow> add_modal \<Rightarrow> add_modal" where
  "add_step server AddOpened m = open_modal m"
| "add_step server (AddTyped q) m = type_symbol q m"
| "add_step server AddTimer m = add_timer_fires m"
| "add_step server (AddAnswer i) m =
     (case map_of (am_requests m) i of None \<Rightarrow> m | Some q \<Rightarrow> add_settled i (Some (server q)) m)"

definition is_symbol_added :: "jsval list \<Rightarrow> string \<Rightarrow> bool" where
  "is_symbol_added items symbol =
     list_ex (\<lambda>i. clean_symbol (raw_text (field i ''symbol'')) = clean_symbol symbol \<or> field i ''symbol'' = JStr symbol) items"

definition handle_add :: "jsval list \<Rightarrow> string \<Rightarrow> string \<Rightarrow> add_modal \<Rightarrow> add_modal \<times> (string \<times> string) option" where
  "handle_add items symbol exchange m =
     (if is_symbol_added items symbol then (m, None)
      else ((type_symbol [] m)\<lparr> am_results := [] \<rparr>, Some (symbol, exchange)))"

section \<open>The bar of tickers\<close>

definition ticker_items :: "bool \<Rightarrow> bool \<Rightarrow> jsobj \<Rightarrow> jsval list \<Rightarrow> jsval list \<Rightarrow> jsobj \<Rightarrow> jsobj \<Rightarrow> jsval list" where
  "ticker_items realtime session_open cache tickers indices live eod =
     map (\<lambda>i. resolve_ticker_item realtime cache i (if session_open then live else []) (spread eod cache))
       (if tickers \<noteq> [] then tickers else indices)"

definition ticker_clickable :: "jsval \<Rightarrow> bool" where
  "ticker_clickable item = (field item ''kind'' \<noteq> JStr ''index'')"

definition ticker_target :: "string \<Rightarrow> string" where
  "ticker_target symbol = (if ends_with symbol ''.NS'' then symbol else symbol @ ''.NS'')"

definition ticker_duration :: "jsval list \<Rightarrow> nat" where
  "ticker_duration items = max 20 (3 * length items)"

section \<open>The header of the chart\<close>

definition period_group :: "string \<Rightarrow> string list" where
  "period_group g = map fst (filter (\<lambda>p. cp_group (snd p) = g) chart_periods)"

definition period_label :: "string \<Rightarrow> string" where
  "period_label period = (case map_of chart_periods period of Some c \<Rightarrow> cp_label c | None \<Rightarrow> period)"

definition exchange_label :: "string \<Rightarrow> string" where
  "exchange_label symbol = (if ends_with symbol ''.BO'' then ''BSE'' else if is_commodity_symbol symbol then ''MCX'' else ''NSE'')"

definition recent_activity :: "jsval list \<Rightarrow> jsval list" where
  "recent_activity entries = take 4 (filter (\<lambda>l. field l ''type'' \<noteq> JStr ''scan'') entries)"

definition activity_mark :: "jsval \<Rightarrow> string" where
  "activity_mark entry =
     (if field entry ''type'' = JStr ''entry'' then ''>'' else if field entry ''type'' = JStr ''profit'' then ''+'' else ''o'')"

text \<open>The switch that closes every position: asked for only where it is confirmed, and busy until it is answered.\<close>

definition kill_switch :: "bool \<Rightarrow> bool \<Rightarrow> bool \<times> bool" where
  "kill_switch confirmed busy = (if confirmed then (True, True) else (busy, False))"

definition kill_report :: "jsval option \<Rightarrow> jsval \<Rightarrow> string" where
  "kill_report data err =
     (case data of
        Some d \<Rightarrow> to_string (field d ''message'') @
          (case field d ''errors'' of JArr es \<Rightarrow> if es = [] then [] else CHR 0x0A # ''Errors: '' @ join '', '' (map to_string es) | _ \<Rightarrow> [])
      | None \<Rightarrow> ''Kill switch failed: '' @
          to_string (js_or (field (field (field err ''response'') ''data'') ''detail'') (field err ''message'')))"

section \<open>The poll of the portfolio\<close>

definition poll_symbols :: "bool \<Rightarrow> bool \<Rightarrow> string \<Rightarrow> jsval \<Rightarrow> jsval list option" where
  "poll_symbols limited realtime ws_status holdings =
     (if limited \<or> elements holdings = [] \<or> (ws_status = ''connected'' \<and> realtime) then None
      else let symbols = unique (filter truthy (map (\<lambda>h. field h ''symbol'') (elements holdings)))
        in if symbols = [] then None else Some symbols)"

definition poll_answered :: "bool \<Rightarrow> jsnum \<Rightarrow> jsobj \<Rightarrow> market_store \<times> portfolio_store \<Rightarrow> market_store \<times> portfolio_store" where
  "poll_answered realtime now quotes st =
     fold (\<lambda>(k, q) (ms, ps). if truthy q
         then (update_quote realtime now (JStr k) (fields_of q) (if realtime then ''poll'' else ''eod'') ms, apply_live_quote (JStr k) q ps)
         else (ms, ps)) quotes st"

section \<open>Lemmas on rows\<close>

text \<open>A price that is shown has a value, unless nothing is known; after the close it is the close of the session.\<close>

lemma price_shown_or_nothing:
  "price_for_symbol realtime cache prices symbol = JObj [] \<or> \<not> is_nullish (field (price_for_symbol realtime cache prices symbol) ''price'')"
  by (auto simp: price_for_symbol_def Let_def find_Some_iff split: option.split)

lemma closed_row_is_session:
  "price_for_symbol False cache prices symbol = price_for_symbol False cache prices' symbol"
  by (simp add: price_for_symbol_def Let_def)

text \<open>The list and the row agree on the symbol they open, but for a commodity, which the row takes for a share.\<close>

lemma chart_symbols_agree:
  assumes "\<not> is_commodity_symbol (raw_text (field item ''symbol''))" "upper (row_exchange item) = row_exchange item"
  shows "row_chart_symbol item = item_chart_symbol item"
  using assms by (simp add: row_chart_symbol_def item_chart_symbol_def Let_def)

lemma commodity_opens_share:
  "row_chart_symbol (JObj [(''symbol'', JStr ''GOLD''), (''exchange'', JStr ''MCX'')]) = ''GOLD''"
  "item_chart_symbol (JObj [(''symbol'', JStr ''GOLD''), (''exchange'', JStr ''MCX'')]) = ''GOLD.NS''"
  by code_simp+

text \<open>The shares of an index are asked for once each, under the exchange of the row.\<close>

lemma constituents_distinct: "list_all (\<lambda>(k, cs). distinct cs) index_constituents"
  by code_simp

lemma constituent_request_suffix:
  assumes "constituent_request item = Some ks" "k \<in> set ks"
  shows "ends_with k (constituent_suffix item)"
  using assms by (auto simp: constituent_request_def ends_with_def split: option.splits if_splits)

lemma index_aliases:
  "get_constituents (JStr ''^NSEI'') = Some nifty50_stocks" "get_constituents (JStr ''nifty50.NS'') = Some nifty50_stocks"
  "get_constituents (JStr ''BANKBEES.NS'') = Some nifty_bank_stocks" "get_constituents (JStr ''TCS.NS'') = None"
  by code_simp+

text \<open>A quote of the answer is found under its own key and under the bare one, where keys do not clash.\<close>

lemma own_foldl:
  assumes "distinct (map fst qs)" "\<And>acc j w. (j, w) \<in> set qs \<Longrightarrow> own (f acc (j, w)) k = (if j = k then w else own acc k)"
  shows "own (foldl f acc qs) k = (case map_of qs k of Some v \<Rightarrow> v | None \<Rightarrow> own acc k)"
  using assms
proof (induction qs arbitrary: acc)
  case (Cons q qs)
  obtain j w where q: "q = (j, w)" by (cases q)
  have "own (foldl f (f acc q) qs) k = (case map_of qs k of Some v \<Rightarrow> v | None \<Rightarrow> own (f acc q) k)"
    using Cons by simp
  moreover have "own (f acc q) k = (if j = k then w else own acc k)" using Cons.prems(2) by (simp add: q)
  moreover have "map_of qs j = None" using Cons.prems(1) by (simp add: q map_of_eq_None_iff)
  ultimately show ?case by (auto simp: q split: option.split)
qed simp

lemma normalized_own:
  assumes "distinct (map fst qs)" "(k, v) \<in> set qs" "upper k = k"
    and "\<And>j w. (j, w) \<in> set qs \<Longrightarrow> without_suffix (upper j) = k \<or> upper j = k \<Longrightarrow> j = k"
  shows "own (normalized_prices qs) k = v"
proof -
  have "own (normalized_prices qs) k = (case map_of qs k of Some v \<Rightarrow> v | None \<Rightarrow> own [] k)" unfolding normalized_prices_def
    by (rule own_foldl [OF assms(1)]) (use assms(3,4) in auto)
  then show ?thesis using map_of_is_SomeI [OF assms(1,2)] by simp
qed

text \<open>A drop writes nothing where the row was not moved, and otherwise permutes the rows.\<close>

lemma drop_in_place: "snd (drop_row i \<lparr> rd_from = Some i, rd_over = ov \<rparr> s) = s"
  by (simp add: drop_row_def)

lemma drop_clears: "rd_from (fst (drop_row i d s)) = None"
  by (simp add: drop_row_def)

lemma created_name_not_empty: "created_name typed n \<noteq> []"
  unfolding created_name_def non_empty_or_def by (simp only: append_is_Nil_conv list.distinct simp_thms split: if_split)

lemma renamed_is_new:
  assumes "snd (commit_rename wls b) = Some (i, name)"
  shows "name \<noteq> [] \<and> rb_id b = Some i \<and> name = trim (rb_value b)"
  using assms by (auto simp: commit_rename_def Let_def split: option.splits if_splits)

section \<open>Lemmas on the searches\<close>

text \<open>
  Where no search is under way, the results are none or those of the text that was taken over last, for every order of typing,
  timers and answers.
\<close>

definition search_ok :: "string \<Rightarrow> (string \<Rightarrow> jsval) \<Rightarrow> search_box \<Rightarrow> bool" where
  "search_ok key server s \<longleftrightarrow>
     (\<not> sb_searching s \<longrightarrow> sb_results s = JArr [] \<or> sb_results s = search_results key (server (sb_debounced s))) \<and>
     (\<forall>i q. sb_current s = Some i \<longrightarrow> map_of (sb_requests s) i = Some q \<longrightarrow> q = sb_debounced s) \<and>
     (\<forall>r \<in> set (sb_requests s). fst r < sb_next s)"

lemma map_of_other: "map_of (filter (\<lambda>r. fst r \<noteq> i) rs) j = (if j = i then None else map_of rs j)"
  by (induction rs) auto

lemma search_settled_ok:
  assumes "search_ok key server s" "map_of (sb_requests s) i = Some q"
  shows "search_ok key server (search_settled key i (Some (server q)) s) \<and> search_ok key server (search_settled key i None s)"
  using assms by (auto simp: search_ok_def search_settled_def Let_def map_of_other split: if_splits)

lemma search_step_ok:
  assumes "search_ok key server s"
  shows "search_ok key server (search_step key server e s)"
proof (cases e)
  case SearchTimer
  then show ?thesis using assms by (auto simp: search_ok_def take_query_def Let_def)
next
  case (SearchAnswer i)
  then show ?thesis using assms search_settled_ok [OF assms, of i] by (auto split: option.split)
next
  case (SearchError i)
  then show ?thesis using assms search_settled_ok [OF assms, of i] by (auto split: option.split)
qed (use assms in \<open>simp_all add: search_ok_def clear_search_def\<close>)

theorem search_shows_current:
  assumes "s = fold (search_step key server) es new_search" "\<not> sb_searching s"
  shows "sb_results s = JArr [] \<or> sb_results s = search_results key (server (sb_debounced s))"
proof -
  have "search_ok key server s" unfolding assms(1)
    by (rule fold_invariant_list [where P = "search_ok key server"]) (auto intro: search_step_ok, simp add: search_ok_def new_search_def)
  then show ?thesis using assms(2) by (simp add: search_ok_def)
qed

text \<open>A text that is deleted while its search is under way leaves the spinner turning.\<close>

lemma spinner_left:
  "sb_searching (fold (search_step key server) [SearchType ''TCS'', SearchTimer, SearchType [], SearchTimer, SearchAnswer 0] new_search)"
  by (simp add: new_search_def take_query_def search_settled_def Let_def)

text \<open>A search that is cleared while it is under way still shows its answer until the timer has run.\<close>

lemma cleared_search_returns:
  "let s = fold (search_step key server) [SearchType ''TCS'', SearchTimer, SearchClear, SearchAnswer 0] new_search
   in sb_query s = [] \<and> sb_results s = search_results key (server ''TCS'')"
  by (simp add: new_search_def take_query_def search_settled_def clear_search_def Let_def)

text \<open>The dialogue does not cancel: an answer that comes late replaces the one to what is typed.\<close>

lemma late_answer_replaces:
  "let m = fold (add_step server) [AddTyped ''TC'', AddTimer, AddTyped ''TCS'', AddTimer, AddAnswer 1, AddAnswer 0] new_add_modal
   in am_query m = ''TCS'' \<and> am_results m = elements (js_or (field (server ''TC'') ''results'') (JArr []))"
  by (simp add: new_add_modal_def type_symbol_def add_timer_fires_def add_settled_def Let_def)

lemma added_not_twice: "is_symbol_added items symbol \<Longrightarrow> handle_add items symbol exchange m = (m, None)"
  by (simp add: handle_add_def)

section \<open>Lemmas on the bars\<close>

lemma ticker_target_suffix: "ends_with (ticker_target symbol) ''.NS''"
  by (simp add: ticker_target_def ends_with_def)

lemma bse_ticker_target: "ticker_target ''TCS.BO'' = ''TCS.BO.NS''" "ticker_target ''GOLD'' = ''GOLD.NS''"
  by code_simp+

lemma period_groups_all:
  "length (period_group ''intraday'') + length (period_group ''daily'') + length (period_group ''extended'') = length chart_periods"
  by code_simp

lemma unconfirmed_kill: "kill_switch False busy = (busy, False)"
  by (simp add: kill_switch_def)

lemma no_scan_shown: "l \<in> set (recent_activity entries) \<Longrightarrow> field l ''type'' \<noteq> JStr ''scan''"
  by (auto simp: recent_activity_def dest: in_set_takeD)

section \<open>Lemmas on the poll\<close>

lemma polled_are_held:
  assumes "poll_symbols limited realtime status holdings = Some ks" "k \<in> set ks"
  shows "\<exists>h \<in> set (elements holdings). field h ''symbol'' = k \<and> truthy k"
proof -
  have "set (unique xs) = set xs" for xs :: "jsval list" by (simp add: unique_def)
  then show ?thesis using assms by (auto simp: poll_symbols_def Let_def split: if_splits)
qed

text \<open>While the socket is connected and the market open nothing is polled.\<close>

lemma no_poll_while_live: "poll_symbols limited True ''connected'' holdings = None"
  by (simp add: poll_symbols_def)

end
