(* ===== verification/Spec2Isabelle.thy ===== *)
theory Spec2Isabelle
  imports StrategyEngine TrendFacts CandleEngine QuoteAuthorityFacts PriceResolver TradeLotsFacts WatchlistRuns
    Reconciliation Connection FuturesStore OptionsAnalytics FuturesWatchlist ZeroLossStore CommodityStore AuthStore
    Hydration Formatters Orders LiveFeed FuturesAnalytics FuturesStream OptionsDesk CandleFetch MobileShell
    OrderBookFacts OrdersDesk FuturesDesk AlgoDesk SettingsDesk TerminalDesk WatchlistDesk
begin

text \<open>
  AlphaSync is a simulated trading terminal for Indian markets. Its front end, under
  \<open>frontend/src\<close>, decides what a trader sees: it reads quotes from a socket and from polls, settles
  which of them to trust, keeps them in stores, values portfolios with them and runs technical
  strategies over them. This library models that logic and proves what makes it correct.

  \<^bold>\<open>How the parts interact.\<close> A quote arrives on the socket (\<open>Connection\<close>) or by a request
  (\<open>WatchlistPrices\<close>, \<open>Reconciliation\<close>). The session of the exchange (\<open>SessionCalendar\<close>,
  \<open>SessionState\<close>) says whether prices are live. The authority (\<open>QuoteAuthority\<close>) refuses a stale or
  repeated quote; one that it accepts goes into the market store (\<open>MarketStore\<close>), the portfolio
  (\<open>PortfolioStore\<close>) and the watchlist prices. After the close the official prices are fetched, stamped
  and written to all of them (\<open>Reconciliation\<close>) and kept for the day (\<open>SessionClose\<close>). A view asks
  \<open>PriceResolver\<close> for the price of a symbol and \<open>Portfolio\<close> and \<open>TradeLots\<close> for the value of what is
  held. Ticks of a future build its chart in \<open>CandleEngine\<close> and its terminal in \<open>FuturesStore\<close>. A
  chart is handed to \<open>StrategyEngine\<close>, which runs \<open>Strategies\<close> over the indicators of \<open>Averages\<close>,
  \<open>Oscillators\<close> and \<open>Trends\<close>.

  \<^bold>\<open>The language.\<close> \<open>JSNumber\<close> is the number type of JavaScript: a finite double is the rational it
  stands for, rounding is computed, and NaN and the infinities are constructors. Only the sign of zero
  is not kept: only a division by a zero would tell. \<open>JSNumberFacts\<close> has the laws of rounded arithmetic: monotone,
  odd, exact on whole numbers up to \<open>2 ^ 53\<close>. \<open>JSValue\<close> has the values without a static type: an object
  is the list of its properties in insertion order, and \<open>?.\<close>, \<open>??\<close>, \<open>||\<close>, spread, \<open>Number()\<close>,
  \<open>String()\<close> and \<open>===\<close> are functions on them. \<open>Sorting\<close> is the stable sort with a comparison function.
  \<open>Prelude\<close> holds the collections \<open>js_eval\<close>, \<open>js_range\<close>, \<open>causal_intro\<close>, and the contract
  \<open>keywise_store\<close> of a store written key by key.

  \<^bold>\<open>Indicators and strategies\<close> (\<open>strategy/indicators\<close>, \<open>strategy/strategies\<close>, \<open>strategy/engine\<close>).
  \<^item> \<open>PriceSeries\<close>: candles, the loops the indicators are written with, and the locale
    \<open>causal_series\<close> of a series that never looks at the future. It is interpreted on each indicator.
  \<^item> \<open>Averages\<close>, \<open>Oscillators\<close>, \<open>Trends\<close>: one definition per function. \<open>OscillatorFacts\<close> and
    \<open>TrendFacts\<close> show that the oscillators stay in their range on every input, that bands are ordered,
    that a Donchian channel contains its bars, that no value depends on later bars.
  \<^item> \<open>Strategies\<close>: the fifteen strategies. \<open>StrategyFacts\<close> has the locales \<open>strategy_contract\<close> (a
    confidence is from 0 to 100 or NaN, and an answer below the least number of candles is neutral with
    confidence 0) and \<open>sound_strategy\<close> (it is never NaN), interpreted on each of them.
  \<^item> \<open>StrategyEngine\<close>: the registry, the weighted tally, the verdict. The locale \<open>sound_registry\<close>
    proves that a verdict is backed by its score and confidence bounded, for any registry.

  \<^bold>\<open>Session and quotes\<close> (\<open>market\<close>, \<open>market-v2\<close>, \<open>utils\<close>).
  \<^item> \<open>SessionCalendar\<close>: the Gregorian calendar in days since 1970, the clock of India, the session of
    an instant, the merge with the session of the server. \<open>SessionState\<close>: the snapshot, and the
    manager as a step relation with its reachable states.
  \<^item> \<open>QuoteAuthority\<close>: priority tiers, freshness, and the acceptance of a quote by time stamp,
    sequence and source; \<open>QuoteAuthorityFacts\<close> has the invariants of its runs.
  \<^item> \<open>SessionClose\<close>: the closes of a day under every alias, their storage and reload.
    \<open>PriceResolver\<close>: the choice among the quotes of several maps. \<open>Symbols\<close>: constants and the
    canonical form of a symbol.

  \<^bold>\<open>Stores\<close> (\<open>store\<close>, \<open>stores\<close>). A store is a record, an action is a function on it. An action that
  waits for the server is split where it waits, so that every interleaving is a run.
  \<^item> \<open>MarketStore\<close>: live quotes; an instance of \<open>keywise_store\<close>. \<open>PortfolioStore\<close>: refresh from
    four answers, optimistic orders, live values. \<open>Portfolio\<close>: the metrics over it.
  \<^item> \<open>WatchlistStore\<close>: every operation on watchlists, with the completion or the roll-back of its
    request. \<open>WatchlistFacts\<close>: what each one does. \<open>WatchlistRuns\<close>: operations and answers in any order,
    as a step relation, with the invariant that no share is listed twice. \<open>WatchlistPrices\<close>: the chunked
    requests for quotes and their merge.
  \<^item> \<open>Reconciliation\<close>: the indices store, the prefetch of closes, the stamping of official quotes, the
    writes to all stores, and the timers as events. \<open>FuturesStore\<close>: the futures terminal.
  \<^item> \<open>TradeLots\<close>: the lots that are open after a series of trades, first in, first out;
    \<open>TradeLotsFacts\<close> refines it to a calculation on integers.

  \<^bold>\<open>Other stores and pages.\<close>
  \<^item> \<open>FuturesStore\<close>, \<open>FuturesWatchlist\<close>: the terminal for futures and its lists, which live in the
    browser. \<open>CommodityStore\<close>: answers merged with ticks. \<open>ZeroLossStore\<close>: the messages of a strategy.
    \<open>AuthStore\<close>: the profile and the keys of the storage.
  \<^item> \<open>Orders\<close>: the form of an order, its derived figures and its submission (\<open>hooks/useOrders.js\<close>,
    \<open>components/trading/OrderPanel.jsx\<close>), over the checks of \<open>Validators\<close>.
  \<^item> \<open>CandleEngine\<close>: the class of \<open>engines/LiveFuturesCandleEngine.js\<close> as a state record, one operation
    per method, and an event relation; ticks of a bar build the candle that summarises them.
  \<^item> \<open>Connection\<close>: the interceptors of \<open>services/api.js\<close> and the life of the socket. \<open>LiveFeed\<close>: its
    messages, through the authority into the stores. \<open>Hydration\<close>: snapshots, patches and their timers.
  \<^item> \<open>OptionsAnalytics\<close>, \<open>FuturesAnalytics\<close>: the figures of an option chain and of the contracts of
    a future (basis, term structure, trend). \<open>Formatters\<close>: texts of numbers and symbols.
  \<^item> \<open>FuturesStream\<close> and \<open>OptionChain\<close>: the two polling and streaming hooks, as records with one step
    per event. \<open>PaperOptions\<close>: the options account that is kept in the browser.

  \<^bold>\<open>Pages and charts.\<close> What a page computes from its state and what its handlers do to it; the markup
  is left out.
  \<^item> \<open>OptionsDesk\<close>, \<open>OrdersDesk\<close>, \<open>FuturesDesk\<close>, \<open>AlgoDesk\<close>, \<open>SettingsDesk\<close>: the option desk, the
    orders and portfolio tables, the futures terminal, the strategies page and the settings. \<open>OrderBook\<close>
    pairs buys with sells over the stored trades, exports them and pages them; \<open>OrderBookFacts\<close> shows
    that the profit of what is paired is the money received less the money paid.
  \<^item> \<open>CandleFetch\<close>: the request of a history, its normalisation and its cache; what it returns is in
    the order of time and each candle spans its own prices.
  \<^item> \<open>ChartCandles\<close>: the buckets of a chart period, with the contract that a bucket summarises its
    candles and that no volume is lost. \<open>LiveChart\<close>: the state of the chart component, the tick that
    opens or extends a bucket, and its events as a step function with the invariant
    \<open>live_chart_sound\<close>. \<open>ChartIndicators\<close>: the lines and panes drawn over it.
  \<^item> \<open>TerminalDesk\<close>: the trading terminal, the strategy dock and the frames they are laid out in.
    Normalising what the header already shows changes nothing (\<open>header_candles_stable\<close>), a frame that is
    dragged stays in its bounds, and the buttons below the dock act on every strategy.
  \<^item> \<open>WatchlistDesk\<close>: the panel of the watchlist, the shares of an index, the bar of tickers and the
    search, as a step function over what is typed and answered; its lemmas say which answer is shown.
  \<^item> \<open>Responsive\<close>, \<open>MobileShell\<close>: break points, and the navigation of the small screen.

  \<^bold>\<open>Bounds.\<close> No definition uses fuel. Loops over arrays are folds or structural recursions, the
  others (binary length, square root, chunks) have a measure. Properties that need exact arithmetic
  state the range, \<open>2 ^ 53\<close>, in which doubles hold whole numbers.

  \<^bold>\<open>Parameters.\<close> The time (\<open>Date.now()\<close>), \<open>Date.parse\<close>, \<open>localeCompare\<close>, answers of the server and
  random keys are arguments of the definitions that use them.

  \<^bold>\<open>Not modelled.\<close> The markup of the views (\<open>.jsx\<close>) and the chart library, which the sources only
  call; the Python back end, whose answers are arguments; local storage beyond the keys that are read
  back; toasts, logs and delays for show; texts of a locale. Texts are lists of characters below 256,
  so the dash of some labels is a hyphen. The calculations inside the pages of the administrator, the
  mentor, the market overview, the older copy of the terminal, the log in, the commodities and the zero loss
  strategy, the academy and the layout are not modelled.
\<close>

section \<open>The strategy engine\<close>

text \<open>C1: A directional verdict of the engine is backed by the score it reports: BULLISH comes
  only with a score of at least 15, and BEARISH only with a score of at most -15, for every
  list of candles and every choice of enabled strategies.\<close>

theorem engine_verdict_backed:
  "case er_overall (run_engine cs enabled) of
     BULLISH \<Rightarrow> \<exists>x. er_score (run_engine cs enabled) = Some x \<and> Fin 15 \<le> x
   | BEARISH \<Rightarrow> \<exists>x. er_score (run_engine cs enabled) = Some x \<and> x \<le> Fin (- 15)
   | NEUTRAL \<Rightarrow> True"
  unfolding run_engine_def using engine.verdict_sound [of cs enabled] by (auto split: verdict.split)

text \<open>C2: The confidence that the engine reports is a number from 0 to 92, whatever the candles
  hold, infinities and missing numbers included.\<close>

theorem engine_confidence_range: "between 0 92 (er_confidence (run_engine cs enabled))"
  unfolding run_engine_def by (rule engine.confidence_range)

text \<open>C3: The engine has no bias. When every opinion is turned around, the verdict is turned
  around and the confidence stays the same.\<close>

theorem engine_symmetric:
  "decide (tally_of (map mirror signals)) =
     (mirror_verdict (fst (decide (tally_of signals))), snd (decide (tally_of signals)))"
  by (simp only: tally_of_mirror decide_mirror)

section \<open>Indicators\<close>

text \<open>C4: Each value of the relative strength index is missing or lies from 0 to 100, for every
  list of closes, with infinite and missing ones, and every period.\<close>

theorem rsi_bounded: "list_all (ranged 0 100) (rsi closes period)"
  unfolding list_all_iff by (intro ballI rsi_range)

text \<open>C5: The relative strength index never looks ahead: appending bars leaves the values of the
  earlier bars as they are.\<close>

theorem rsi_no_lookahead: "take (length xs) (rsi (xs @ ys) period) = rsi xs period"
  by (rule rsi_series.append_prefix)

text \<open>C6: The average directional index is missing or from 0 to 100 on every bar, for any candles,
  when the period is positive.\<close>

theorem adx_bounded:
  assumes "0 < period" "period \<le> 2 ^ 40"
  shows "list_all (ranged 0 100) (adx_line (adx cs period))"
  unfolding list_all_iff using adx_ranges(2) [OF assms] by blast

theorem adx_bounded_witness: "list_all (ranged 0 100) (adx_line (adx [] 14))"
  by (rule adx_bounded) simp_all

section \<open>Live candles\<close>

text \<open>C7: Whatever events reach the candle engine, intervals, histories, ticks and resets in any
  order, its current candle is well formed as long as no tick has a missing price or a negative
  volume: low and high enclose open and close, and the volume is not negative.\<close>

theorem candle_well_formed:
  assumes "engine_run date_time evs e" "\<And>t. OnTick t \<in> set evs \<Longrightarrow> tick_ok t" "current_candle e = Some c"
  shows "fcandle_ok c"
  by (rule run_candle_ok [OF assms])

definition sample_tick :: tick where
  "sample_tick = \<lparr> t_ltp = Some (Fin 100), t_stamp = StampNum (Fin 1800000000000), t_volume = None \<rparr>"

lemma sample_run:
  "\<exists>e c. engine_run (\<lambda>_. NaN) [OnTick sample_tick] e \<and> current_candle e = Some c"
proof -
  have "engine_run (\<lambda>_. NaN) ([] @ [OnTick sample_tick]) (fst (on_tick (\<lambda>_. NaN) sample_tick new_engine))"
    by (rule engine_run.step [OF engine_run.start engine_step.on_tick])
  moreover have "\<exists>c. current_candle (fst (on_tick (\<lambda>_. NaN) sample_tick new_engine)) = Some c"
    by (simp add: on_tick_def sample_tick_def tick_epoch_ms_def new_engine_def Let_def is_nan_def)
  ultimately show ?thesis by auto
qed

theorem candle_well_formed_witness:
  "\<exists>e c. engine_run (\<lambda>_. NaN) [OnTick sample_tick] e \<and> current_candle e = Some c \<and> fcandle_ok c"
proof -
  obtain e c where r: "engine_run (\<lambda>_. NaN) [OnTick sample_tick] e" "current_candle e = Some c"
    using sample_run by blast
  have "fcandle_ok c" by (rule candle_well_formed [OF r(1) _ r(2)]) (simp add: sample_tick_def tick_ok_def)
  with r show ?thesis by blast
qed

text \<open>C8: While ticks fall into one new bucket, the candle that the engine builds is their summary:
  the first price, the highest and the lowest, the last price, and the sum of the volume changes
  of the cumulative volume.\<close>

theorem candle_is_summary:
  assumes "list_all2 (tick_in date_time (interval_ms e) (interval e) b) ts ps" "b \<noteq> NaN" "ts \<noteq> []"
    and "\<And>c. current_candle e = Some c \<Longrightarrow> f_time c \<noteq> b"
  shows "current_candle (feed date_time ts e) =
    Some (ticks_summary b (zip ps (deltas_of (last_cumulative e) ts)))"
  by (rule feed_summary [OF assms])

lemma sample_bucket: "compute_bucket_start_sec (Fin 1800000000000) (interval_ms new_engine) (interval new_engine) = Fin 1800000000"
  using bucket_intraday [of "''5m''" 300000 1800000000000]
  by (simp add: new_engine_def interval_table_def parse_interval_ms_def bucket_sec_def)

theorem candle_is_summary_witness:
  "current_candle (feed (\<lambda>_. NaN) [sample_tick, sample_tick\<lparr> t_ltp := Some (Fin 90) \<rparr>] new_engine) =
     Some (ticks_summary (Fin 1800000000) (zip [Fin 100, Fin 90]
       (deltas_of (last_cumulative new_engine) [sample_tick, sample_tick\<lparr> t_ltp := Some (Fin 90) \<rparr>])))"
  by (rule candle_is_summary)
    (use sample_bucket in \<open>simp_all add: tick_in_def sample_tick_def tick_epoch_ms_def is_nan_def new_engine_def\<close>)

text \<open>An intraday candle starts at most one interval before the tick that opens it and never
  after it, for every interval of the table and every time up to the year 19000.\<close>

lemma bucket_holds_tick:
  assumes "map_of interval_table i = Some m" "i \<noteq> ''1d''" "0 \<le> t" "t \<le> 2 ^ 49"
  shows "\<exists>s. compute_bucket_start_sec (Fin (of_int t)) (parse_interval_ms i) i = Fin (of_int s) \<and>
    s * 1000 \<le> t \<and> t < s * 1000 + m"
  using bucket_intraday [OF assms] bucket_contains [OF table_interval(2,4) [OF assms(1)]] by blast

lemma bucket_holds_tick_witness:
  "\<exists>s. compute_bucket_start_sec (Fin (of_int 1800000123456)) (parse_interval_ms ''5m'') ''5m'' = Fin (of_int s) \<and>
    s * 1000 \<le> 1800000123456 \<and> 1800000123456 < s * 1000 + 300000"
  by (rule bucket_holds_tick) (simp_all add: interval_table_def)

section \<open>The market session\<close>

text \<open>C10: By the local calendar the exchange is open exactly on the instants that fall on a weekday
  of India, not on a listed holiday, from 09:15 to before 15:30.\<close>

theorem open_instants:
  "ls_open (compute_local_nse_session now) \<longleftrightarrow>
     ((now + 19800000) div 86400000 + 4) mod 7 \<notin> {0, 6} \<and>
     ist_date (get_ist_parts now) \<notin> set nse_holidays_ist \<and>
     555 * 60000 \<le> (now + 19800000) mod 86400000 \<and> (now + 19800000) mod 86400000 < 930 * 60000"
  by (rule open_instant)

text \<open>C11: In every state that the session manager reaches, by refreshes, starts and stops in any
  order, the snapshot is consistent: it is open or closed but not both, and only an open session
  takes orders or counts as trading hours.\<close>

theorem snapshot_consistent:
  assumes "session_reachable m"
  shows "snapshot_ok (mg_snapshot m)"
  by (rule reachable_snapshot_ok [OF assms])

theorem snapshot_consistent_witness: "snapshot_ok (mg_snapshot (stop_manager (new_manager 0)))"
  by (rule snapshot_consistent [OF session_reachable.step [OF session_reachable.init session_step.stop]])

section \<open>The quote authority\<close>

text \<open>C12: A quote whose time stamp is more than a millisecond older than the stored quote of its
  symbol is refused, whatever its source, and changes nothing.\<close>

theorem older_quote_refused:
  assumes "map_of (au_quotes au) (ingest_symbol symbol raw) = Some ex"
    and "parse_ts (env_date_parse env) (env_now env) (JObj raw) <
         parse_ts (env_date_parse env) (env_now env) (JObj ex) - lit (1 / 1000)"
  shows "ingest env symbol raw source au = (au, None)"
  by (rule ingest_refuses_older [OF assms])

definition sample_env :: authority_env where
  "sample_env = \<lparr> env_now = Fin 0, env_date_parse = (\<lambda>_. NaN), env_realtime = True, env_tiers = [] \<rparr>"

definition sample_quote :: "rat \<Rightarrow> jsobj" where
  "sample_quote t = [(''symbol'', JStr ''TCS''), (''timestamp'', JNum (Fin t)), (''price'', JNum (Fin 100)),
     (''sequence'', JNum (Fin 1))]"

lemma sample_stamp:
  "parse_ts d now (JObj (sample_quote 2000000000)) = Fin 2000000000"
  "parse_ts d now (JObj (sample_quote 2000000100)) = Fin 2000000100"
  by (simp_all add: parse_ts_def raw_stamp_def sample_quote_def Let_def own_Cons is_finite_def)

lemma sample_symbol: "ingest_symbol (JStr ''TCS'') raw = ''TCS''"
  by (simp add: ingest_symbol_def symbol_text_def upper_def upper_char_def trim_def is_space_def)

theorem older_quote_refused_witness:
  "ingest sample_env (JStr ''TCS'') (sample_quote 2000000000) (JStr ''live'')
     (new_authority (Fin 0)\<lparr> au_quotes := [(''TCS'', sample_quote 2000000100)] \<rparr>) =
   (new_authority (Fin 0)\<lparr> au_quotes := [(''TCS'', sample_quote 2000000100)] \<rparr>, None)"
proof (rule older_quote_refused)
  have "lit (1 / 1000) \<le> Fin 1" by (rule rnd_le_double) simp_all
  then obtain d where d: "lit (1 / 1000) = Fin d" "d \<le> 1" "0 < d" by (rule_tac millisecond) auto
  have "is_double (2000000099 :: rat)" by (rule is_double_numeral) simp
  then have "Fin 2000000099 \<le> rnd (2000000100 - d)" using d(2) by (intro rnd_ge_double) simp_all
  then have "Fin 2000000000 < rnd (2000000100 - d)" by (rule less_le_jsnum_trans [rotated]) simp
  then show "parse_ts (env_date_parse sample_env) (env_now sample_env) (JObj (sample_quote 2000000000)) <
      parse_ts (env_date_parse sample_env) (env_now sample_env) (JObj (sample_quote 2000000100)) - lit (1 / 1000)"
    unfolding sample_stamp d(1) by (simp add: minus_jsnum_def)
qed (simp add: sample_symbol)

text \<open>C13: A payload that was accepted is refused when it arrives again: the same time stamp, the
  same sequence number, the same source and the same price.\<close>

theorem repeated_quote_refused:
  assumes "ingest env symbol raw source au = (au', Some q)"
    and "parse_ts (env_date_parse env) (env_now env) (JObj raw) = Fin t" "is_double t"
      "parse_ts (env_date_parse env') (env_now env') (JObj raw) = Fin t"
    and "own raw ''sequence'' = JNum s" "own raw ''price'' = JNum (Fin p)"
  shows "ingest env' symbol raw source au' = (au', None)"
  by (rule ingest_refuses_repeat [OF assms])

theorem repeated_quote_refused_witness:
  "\<exists>au' q. ingest sample_env (JStr ''TCS'') (sample_quote 2000000000) (JStr ''live'') (new_authority (Fin 0)) = (au', Some q) \<and>
     ingest sample_env (JStr ''TCS'') (sample_quote 2000000000) (JStr ''live'') au' = (au', None)"
proof -
  obtain au' q where r: "ingest sample_env (JStr ''TCS'') (sample_quote 2000000000) (JStr ''live'') (new_authority (Fin 0)) = (au', Some q)"
    by (simp add: ingest_def sample_symbol Let_def new_authority_def should_accept_def)
  have "is_double (2000000000 :: rat)" by (rule is_double_numeral) simp
  from repeated_quote_refused [OF r sample_stamp(1) this sample_stamp(1)]
  have "ingest sample_env (JStr ''TCS'') (sample_quote 2000000000) (JStr ''live'') au' = (au', None)"
    by (simp add: sample_quote_def own_Cons)
  with r show ?thesis by blast
qed

text \<open>C14: However quotes arrive, every quote that the authority holds is filed under its own symbol,
  in its normal form (trimmed, upper case, not empty).\<close>

theorem quotes_filed:
  assumes "authority_run au"
  shows "filed_ok au"
  by (rule run_filed [OF assms])

theorem quotes_filed_witness:
  "filed_ok (fst (ingest sample_env (JStr ''TCS'') (sample_quote 2000000000) (JStr ''live'') (new_authority (Fin 0))))"
  by (rule quotes_filed [OF authority_run.ingest [OF authority_run.start]])

text \<open>After the active symbols are registered, every symbol of the header ticker is hot,
  whatever the selected symbol, the watchlist and the holdings are.\<close>

theorem ticker_is_hot:
  "list_all (\<lambda>s. is_hot (JStr s) (register_active_symbols selected watchlist holdings initial_tiers)) ticker_hot_symbols"
proof -
  have "list_all (\<lambda>s. symbol_text (JStr s) \<noteq> []) ticker_hot_symbols" by code_simp
  then show ?thesis using active_ticker_hot [OF valid_initial] by (simp add: list_all_iff)
qed

section \<open>Session closes\<close>


definition sample_close_env :: close_env where
  "sample_close_env = \<lparr> ce_realtime = False, ce_now = 0, ce_can_store = True \<rparr>"


lemma sample_aliases: "symbol_aliases (JStr ''TCS'') = [''TCS'', ''TCS.NS'']"
  "symbol_aliases (JStr ''TCS.NS'') = [''TCS.NS'', ''TCS'']"
  by code_simp+







section \<open>Displayed prices\<close>

text \<open>C19: While prices are live, a symbol with a quote of the socket shows that quote and its price,
  whatever the watchlist, the reconciled closes and the chart hold.\<close>

theorem live_quote_wins:
  assumes "find_quote_for_symbol symbol (po_live opts) = q" "truthy q"
    and "lower_text (js_or (js_or (field q ''_source'') (field q ''source'')) (JStr ''live'')) \<in> {''live'', ''live_ws''}"
  shows "rs_quote (resolve_symbol_price True cache symbol opts) = q \<and>
    rs_price (resolve_symbol_price True cache symbol opts) = pick_price q"
  using open_live_wins [OF assms] by blast

definition sample_prices :: price_options where
  "sample_prices = \<lparr> po_live = [(''TCS'', JObj [(''price'', JNum (Fin 101)), (''source'', JStr ''live'')])],
     po_watchlist = [(''TCS'', JObj [(''price'', JNum (Fin 99))])], po_eod = [], po_candle = Some (Fin 98) \<rparr>"

theorem live_quote_wins_witness:
  "rs_quote (resolve_symbol_price True [] (JStr ''TCS'') sample_prices) =
     JObj [(''price'', JNum (Fin 101)), (''source'', JStr ''live'')] \<and>
   rs_price (resolve_symbol_price True [] (JStr ''TCS'') sample_prices) =
     pick_price (JObj [(''price'', JNum (Fin 101)), (''source'', JStr ''live'')])"
proof (rule live_quote_wins)
  show "find_quote_for_symbol (JStr ''TCS'') (po_live sample_prices) =
      JObj [(''price'', JNum (Fin 101)), (''source'', JStr ''live'')]"
    by (simp add: find_quote_for_symbol_def sample_aliases sample_prices_def usable_row_def own_Cons
        pick_price_def to_finite_number_def)
qed (simp_all add: own_Cons lower_text_def lower_def lower_char_def)



section \<open>Open lots\<close>

text \<open>C21: The open lots of a holding add up to its quantity. For whole quantities below 2 to the 53
  in volume, every lot has a whole quantity and their sum is exactly what is held, whatever the
  transactions say.\<close>

theorem lots_match_holding:
  assumes "whole_trades txs" "hr_quantity h = Fin (of_int n)" "trade_volume txs + \<bar>n\<bar> \<le> 2 ^ 53"
  shows "list_all (\<lambda>l. lot_qty l = Fin (of_int (lot_int l))) (lots_of_holding dp la h txs) \<and>
    sum_list (map lot_int (lots_of_holding dp la h txs)) = n"
  using lots_add_up [OF assms] by (simp add: list_all_iff)

definition sample_trade :: "string \<Rightarrow> rat \<Rightarrow> lot_tx" where
  "sample_trade side n = \<lparr> tx_id = JNum (Fin 1), tx_order = JNull, tx_side = side, tx_qty = Fin n,
     tx_price = Fin 100, tx_created = JNull \<rparr>"

definition sample_holding :: holding_row where
  "sample_holding = \<lparr> hr_symbol = ''TCS'', hr_product = ''CNC'', hr_quantity = Fin 7, hr_avg = Fin 100,
     hr_updated = JNull \<rparr>"

lemma sample_trades: "whole_trades [sample_trade ''SELL'' 3, sample_trade ''BUY'' 10]"
  "trade_volume [sample_trade ''SELL'' 3, sample_trade ''BUY'' 10] = 13"
  by (simp_all add: whole_trades_def whole_tx_def trade_int_def trade_volume_def sample_trade_def)

theorem lots_match_holding_witness:
  "list_all (\<lambda>l. lot_qty l = Fin (of_int (lot_int l)))
     (lots_of_holding (\<lambda>_. NaN) (\<lambda>_ _. False) sample_holding [sample_trade ''SELL'' 3, sample_trade ''BUY'' 10]) \<and>
   sum_list (map lot_int
     (lots_of_holding (\<lambda>_. NaN) (\<lambda>_ _. False) sample_holding [sample_trade ''SELL'' 3, sample_trade ''BUY'' 10])) = 7"
  by (rule lots_match_holding) (simp_all add: sample_trades sample_holding_def)

text \<open>C22: Lots are closed first in, first out. What a sale of \<open>n\<close> takes from a long lot is the part
  of it that the older lots leave to be sold.\<close>

theorem sale_closes_oldest_first:
  assumes "\<And>l. l \<in> set lots \<Longrightarrow> lot_qty l = Fin (of_int (lot_int l)) \<and> 0 \<le> lot_int l \<and> lot_int l \<le> 2 ^ 53"
    and "0 \<le> n" "n \<le> 2 ^ 53" "i < length lots"
  shows "map lot_int (fst (consume False lots (Fin (of_int n)))) ! i =
    lot_int (lots ! i) - min (lot_int (lots ! i)) (max 0 (n - sum_list (take i (map lot_int lots))))"
proof -
  have "\<forall>l \<in> set lots. lot_qty l = Fin (of_int (lot_int l)) \<and> \<bar>lot_int l\<bar> \<le> 2 ^ 53" using assms(1) by fastforce
  from consume_refines [OF this assms(2,3), of False]
  have "map lot_int (fst (consume False lots (Fin (of_int n)))) = fst (consume_int False (map lot_int lots) n)" by simp
  moreover have "list_all (own_side True) (map lot_int lots)" using assms(1) by (auto simp: list_all_iff own_side_def)
  ultimately show ?thesis using consume_int_fifo [OF _ assms(2), of "map lot_int lots" i] assms(4) by simp
qed

definition sample_lots :: "lot list" where
  "sample_lots = map (\<lambda>n. opened_lot sample_holding (sample_trade ''BUY'' n) True (Fin n)) [5, 4]"

theorem sale_closes_oldest_first_witness:
  "map lot_int (fst (consume False sample_lots (Fin (of_int 7)))) ! 1 =
     lot_int (sample_lots ! 1) - min (lot_int (sample_lots ! 1)) (max 0 (7 - sum_list (take 1 (map lot_int sample_lots))))"
  by (rule sale_closes_oldest_first) (auto simp: sample_lots_def opened_lot_def lot_int_def)

text \<open>No synthetic lot is made where the newest trades explain the quantity that is held.\<close>

lemma explained_holding:
  assumes "whole_trades txs" "hr_quantity h = Fin (of_int n)" "trade_volume txs \<le> 2 ^ 53"
    and "0 < k" "k \<le> length txs" "trade_net (take k (sort_by (tx_after dp la) txs)) = n"
  shows "list_all (\<lambda>l. \<not> lot_synthetic l) (lots_of_holding dp la h txs)"
  by (rule explained_no_synthetic [OF assms])

lemma explained_holding_witness:
  "list_all (\<lambda>l. \<not> lot_synthetic l)
     (lots_of_holding (\<lambda>_. NaN) (\<lambda>_ _. False) sample_holding [sample_trade ''SELL'' 3, sample_trade ''BUY'' 10])"
proof (rule explained_holding)
  show "trade_net (take 2 (sort_by (tx_after (\<lambda>_. NaN) (\<lambda>_ _. False)) [sample_trade ''SELL'' 3, sample_trade ''BUY'' 10])) = 7"
    by (simp add: sort_by_def tx_after_def to_date_ms_def sample_trade_def trade_net_def trade_int_def side_sign_def
        is_finite_def)
qed (simp_all add: sample_trades sample_holding_def)

section \<open>Portfolio\<close>

text \<open>C24: On whole prices and quantities of long holdings that all have a live price, the live totals
  are exact, and the unrealised result is what the holdings are worth less what was paid.\<close>

theorem live_totals_exact:
  assumes "list_all2 (whole_holding quotes) hs pqas" "sum_list (map (\<lambda>(p, q, a). p * q + a * q) pqas) \<le> 2 ^ 53"
  shows "fst (snd (build_live_holdings hs quotes)) =
    \<lparr> lt_invested = Fin (of_int (sum_list (map (\<lambda>(p, q, a). a * q) pqas))),
      lt_current = Fin (of_int (sum_list (map (\<lambda>(p, q, a). p * q) pqas))),
      lt_unrealized = Fin (of_int (sum_list (map (\<lambda>(p, q, a). p * q) pqas) - sum_list (map (\<lambda>(p, q, a). a * q) pqas))) \<rparr>"
  using whole_totals [OF assms] by (simp add: build_live_holdings_def Let_def)

definition sample_row :: jsval where
  "sample_row = JObj [(''symbol'', JStr ''TCS''), (''quantity'', JNum (Fin 7)), (''avg_price'', JNum (Fin 100))]"

definition sample_quotes :: jsobj where
  "sample_quotes = [(''TCS'', JObj [(''price'', JNum (Fin 110))])]"

definition sample_amounts :: "(int \<times> int \<times> int) list" where
  "sample_amounts = [(110, 7, 100)]"

theorem live_totals_exact_witness:
  "fst (snd (build_live_holdings [sample_row] sample_quotes)) =
     \<lparr> lt_invested = Fin (of_int (sum_list (map (\<lambda>(p, q, a). a * q) sample_amounts))),
       lt_current = Fin (of_int (sum_list (map (\<lambda>(p, q, a). p * q) sample_amounts))),
       lt_unrealized = Fin (of_int (sum_list (map (\<lambda>(p, q, a). p * q) sample_amounts)
         - sum_list (map (\<lambda>(p, q, a). a * q) sample_amounts))) \<rparr>"
  by (rule live_totals_exact)
    (simp_all add: sample_amounts_def whole_holding_def sample_row_def sample_quotes_def live_price_def get_quote_for_symbol_def
      own_Cons to_number_or_def number_field_def)

text \<open>The cash share and the invested share of a portfolio are never negative, whatever the server
  and the quotes say, a negative balance included.\<close>

theorem portfolio_shares_nonneg:
  "nonneg (pm_cash_pct (build_portfolio_metrics inp)) \<and> nonneg (pm_invested_pct (build_portfolio_metrics inp))"
  using shares_nonneg by blast

section \<open>The store of live quotes\<close>


definition sample_store :: market_store where
  "sample_store = initial_market_store\<lparr> ms_symbols := [(''TCS.NS'', [(''price'', JNum (Fin 110)),
     (''_source'', JStr ''live''), (''_updatedAt'', JNum (Fin 1000))])] \<rparr>"


text \<open>C27: While the session is open the price of a live tick is what the store holds under every
  alias of the symbol, also where the tick changes nothing and the store is left as it is.\<close>

theorem live_tick_everywhere:
  assumes "k \<in> set (to_symbol_aliases symbol)" "tick_price data = Some p"
  shows "own (quote_at (ms_symbols (update_quote True now symbol data ''live'' s)) k) ''price'' = JNum p"
  by (rule live_tick_seen [OF assms])

lemma tcs_text: "symbol_text (JStr ''TCS'') = ''TCS''"
  by (simp add: symbol_text_def trim_def is_space_def upper_def upper_char_def)

theorem live_tick_everywhere_witness:
  "own (quote_at (ms_symbols (update_quote True (Fin 3000) (JStr ''TCS'') [(''ltp'', JNum (Fin 90))] ''live'' sample_store)) ''TCS'')
     ''price'' = JNum (Fin 90)"
  by (rule live_tick_everywhere)
    (simp_all add: to_symbol_aliases_def Let_def tcs_text tick_price_def own_Cons to_finite_number_def)

text \<open>A batch of one quote does what a single update does, whatever its source.\<close>

theorem batch_is_update:
  assumes "symbol_text (JStr symbol) \<noteq> []"
  shows "batch_update_quotes True now [(symbol, data)] source s = update_quote True now (JStr symbol) data source s"
  by (rule batch_of_one [OF assms])

theorem batch_is_update_witness:
  "batch_update_quotes True (Fin 3000) [(''TCS'', [(''price'', JNum (Fin 90))])] ''poll'' sample_store =
     update_quote True (Fin 3000) (JStr ''TCS'') [(''price'', JNum (Fin 90))] ''poll'' sample_store"
  by (rule batch_is_update) (simp add: tcs_text)

section \<open>The portfolio store\<close>

text \<open>C29: A live quote that arrives twice has the effect of one: neither the rows nor the summary nor
  the results drift, whatever the holdings and the quote are.\<close>

theorem repeated_tick_harmless:
  "apply_live_quote symbol quote (apply_live_quote symbol quote s) = apply_live_quote symbol quote s"
  by (rule live_quote_idem)

text \<open>C30: The row that the store derives from a live quote agrees with the row that the portfolio
  metrics derive from the same price.\<close>

theorem rows_agree:
  assumes "position_symbol (field h ''symbol'') = incoming" "truthy (field h ''symbol'')"
    and "live_price quotes (field h ''symbol'') = Fin p" "0 < p"
    and "is_finite (raw_number h ''quantity'')" "is_finite (raw_number h ''avg_price'')"
    and "k \<in> {''current_price'', ''current_value'', ''invested_value'', ''pnl'', ''pnl_percent'', ''quantity'', ''avg_price''}"
  shows "field (priced_row incoming (Fin p) h) k = field (live_holding quotes h) k"
  by (rule agrees_with_metrics [OF assms])

theorem rows_agree_witness:
  "field (priced_row ''TCS.NS'' (Fin 110) sample_row) ''pnl'' = field (live_holding sample_quotes sample_row) ''pnl''"
  by (rule rows_agree)
    (simp_all add: sample_row_def sample_quotes_def own_Cons starts_with_def ends_with_def live_price_def
      get_quote_for_symbol_def to_number_or_def raw_number_def)

section \<open>The watchlists\<close>

text \<open>C31: A request that the server refuses is undone. After a failed addition, removal or deletion the
  watchlists and the active one are as they were before it began.\<close>

theorem failed_request_undone:
  assumes "(s', Some p) \<in> {add_item symbol exchange stamp s, remove_item i s, delete_watchlist j s}"
    and "\<forall>w \<in> set (ws_lists s). has_items w" "ids_fresh (''temp_'' @ stamp) (ws_lists s)"
  shows "ws_lists (request_failed p s') = ws_lists s \<and> ws_active (request_failed p s') = ws_active s"
proof -
  consider "add_item symbol exchange stamp s = (s', Some p)" | "remove_item i s = (s', Some p)"
    | "delete_watchlist j s = (s', Some p)"
    using assms(1) by auto
  then show ?thesis using add_refused [OF _ assms(2,3)] remove_refused delete_refused by cases auto
qed

definition sample_lists :: watchlist_store where
  "sample_lists = \<lparr> ws_lists = [[(''id'', JStr ''6''), (''name'', JStr ''Mine''),
       (''items'', JArr [JObj [(''id'', JStr ''1''), (''symbol'', JStr ''TCS.NS'')], JObj [(''id'', JStr ''2''), (''symbol'', JStr ''ITC.NS'')]])]],
     ws_active = JStr ''6'', ws_loading = False, ws_stored = None, ws_can_store = True \<rparr>"

theorem failed_request_undone_witness:
  "ws_lists (request_failed (PendingRemove (JStr ''6'') (ws_lists sample_lists)) (fst (remove_item (JStr ''1'') sample_lists))) =
     ws_lists sample_lists \<and>
   ws_active (request_failed (PendingRemove (JStr ''6'') (ws_lists sample_lists)) (fst (remove_item (JStr ''1'') sample_lists))) =
     ws_active sample_lists"
  by (rule failed_request_undone [where symbol = Undefined and exchange = Undefined and stamp = "''9''" and i = "JStr ''1''"
        and j = Undefined])
    (simp_all add: remove_item_def has_items_def ids_fresh_def sample_lists_def items_of_def own_Cons item_id_def)




text \<open>Moving an item keeps the items of the watchlist and their number, and the item that is
  dragged is where it is dropped.\<close>

lemma drag_and_drop:
  assumes "0 \<le> src" "nat src < length items" "0 \<le> dst" "nat dst < length items"
  shows "mset (reorder src dst items) = mset items \<and> reorder src dst items ! nat dst = items ! nat src"
  using reorder_moves [OF assms] reorder_mset [of src items dst] assms by (simp add: splice_at_def)

lemma drag_and_drop_witness:
  "mset (reorder 2 0 [JNum (Fin 1), JNum (Fin 2), JNum (Fin 3)]) = mset [JNum (Fin 1), JNum (Fin 2), JNum (Fin 3)] \<and>
   reorder 2 0 [JNum (Fin 1), JNum (Fin 2), JNum (Fin 3)] ! nat 0 = [JNum (Fin 1), JNum (Fin 2), JNum (Fin 3)] ! nat 2"
  by (rule drag_and_drop) simp_all

text \<open>C34: The loop that cuts the symbols of a fetch into requests ends after as few of them as the size
  allows; the requests ask for every symbol once, in order, and none is empty or too long.\<close>

theorem requests_cover:
  assumes "0 < n"
  shows "concat (chunks n symbols) = symbols \<and> length (chunks n symbols) = (length symbols + n - 1) div n \<and>
    list_all (\<lambda>c. c \<noteq> [] \<and> length c \<le> n) (chunks n symbols)"
  using concat_chunks [OF assms] length_chunks [OF assms] chunks_bounded unfolding list_all_iff by blast

theorem requests_cover_witness:
  "concat (chunks 2 [''TCS.NS'', ''ITC.NS'', ''SBIN.NS'']) = [''TCS.NS'', ''ITC.NS'', ''SBIN.NS''] \<and>
   length (chunks 2 [''TCS.NS'', ''ITC.NS'', ''SBIN.NS'']) = (length [''TCS.NS'', ''ITC.NS'', ''SBIN.NS''] + 2 - 1) div 2 \<and>
   list_all (\<lambda>c. c \<noteq> [] \<and> length c \<le> 2) (chunks 2 [''TCS.NS'', ''ITC.NS'', ''SBIN.NS''])"
  by (rule requests_cover) simp

text \<open>C35: A quote that arrives under the key of another share is not stored under that key: the
  prices under every key that is no form of the symbol of the quote are unchanged.\<close>

theorem wrong_key_ignored:
  assumes "symbol_mismatch (upper key) (quote_symbol (normalize_quote q))"
    and "j \<notin> set (key_forms (quote_symbol (normalize_quote q)))"
  shows "map_of (upsert_quote key (JObj q) quotes) j = map_of quotes j"
  using mismatch_not_stored [of key "JObj q"] assms by simp

theorem wrong_key_ignored_witness:
  "map_of (upsert_quote ''ITC.NS'' (JObj [(''symbol'', JStr ''TCS'')]) []) ''ITC'' = map_of [] ''ITC''"
  by (rule wrong_key_ignored)
    (simp_all add: quote_symbol_def own_normalize_symbol own_Cons symbol_mismatch_def text_of_def upper_def upper_char_def
      strip_exchange_suffix_def without_suffix_def has_exchange_suffix_def ends_with_def key_forms_def ensure_ns_suffix_def
      trim_def is_space_def starts_with_def Let_def)

section \<open>Reconciliation after the close\<close>

text \<open>C36: What a reconciliation stamps is an official quote of the answer with a positive price, under
  an authoritative source.\<close>

theorem only_official_stamped:
  assumes "(k, q') \<in> set (fst (stamp_eod_quotes now meta quotes cache))"
  shows "stamped_ok q' \<and> (\<exists>q. (k, JObj q) \<in> set quotes \<and> is_official_quote q meta \<and> q' = stamp_quote now q)"
  by (rule stamped_from_official [OF assms])

definition sample_close_quote :: jsobj where
  "sample_close_quote = [(''price'', JNum (Fin 90)), (''official'', JBool True)]"

lemma sample_close_stamps:
  "fst (stamp_eod_quotes (Fin 5) JNull [(''TCS'', JObj sample_close_quote)] []) = [(''TCS'', stamp_quote (Fin 5) sample_close_quote)]"
  by (simp add: stamp_eod_quotes_def stamp_step_def eod_price_def is_official_quote_def sample_close_quote_def own_Cons)

theorem only_official_stamped_witness:
  "stamped_ok (stamp_quote (Fin 5) sample_close_quote) \<and>
   (\<exists>q. (''TCS'', JObj q) \<in> set [(''TCS'', JObj sample_close_quote)] \<and> is_official_quote q JNull \<and>
     stamp_quote (Fin 5) sample_close_quote = stamp_quote (Fin 5) q)"
  by (rule only_official_stamped [of _ _ "Fin 5" _ _ "[]"]) (simp add: sample_close_stamps)

text \<open>C37: A stamped close reaches the stores: the quote store holds its price under every alias of the
  symbol, and the watchlist prices under the symbol itself, in an open and in a closed session.\<close>

theorem close_reaches_stores:
  assumes "stamped_ok q" "distinct (map fst q)" "s \<noteq> []" "k \<in> set (to_symbol_aliases (JStr s))"
  shows "own (quote_at (ms_symbols (eo_market (apply_to_stores env [(s, q)] st))) k) ''price'' = JNum (eod_price q) \<and>
    own (quote_at (eo_prices (apply_to_stores env [(s, q)] st)) s) ''price'' = JNum (eod_price q)"
  using close_reaches_market [OF assms(1,4)] close_reaches_watchlist [OF assms(1,3,2)] by blast

definition sample_eod_stores :: eod_stores where
  "sample_eod_stores = \<lparr> eo_close = empty_close, eo_market = sample_store, eo_prices = [],
     eo_portfolio = initial_portfolio_store, eo_indices = initial_indices_store, eo_cache = [] \<rparr>"

theorem close_reaches_stores_witness:
  "own (quote_at (ms_symbols (eo_market (apply_to_stores sample_close_env [(''TCS'', stamp_quote (Fin 5) sample_close_quote)]
      sample_eod_stores))) ''TCS'') ''price'' = JNum (eod_price (stamp_quote (Fin 5) sample_close_quote)) \<and>
   own (quote_at (eo_prices (apply_to_stores sample_close_env [(''TCS'', stamp_quote (Fin 5) sample_close_quote)]
      sample_eod_stores)) ''TCS'') ''price'' = JNum (eod_price (stamp_quote (Fin 5) sample_close_quote))"
proof (rule close_reaches_stores)
  show "stamped_ok (stamp_quote (Fin 5) sample_close_quote)"
    by (rule stamp_ok) (simp_all add: eod_price_def sample_close_quote_def own_Cons)
  show "distinct (map fst (stamp_quote (Fin 5) sample_close_quote))"
    unfolding stamp_quote_def Let_def by (rule distinct_spread) (simp add: sample_close_quote_def)
qed (simp_all add: to_symbol_aliases_def Let_def tcs_text)

text \<open>C38: A burst of requests for a reconciliation, with none under way, leads to one run: when the
  timer fires a run begins, for the reason of the last request, and no timer is left armed.\<close>

theorem burst_leads_to_run:
  assumes "reasons \<noteq> []" "rt_inflight t = None"
  shows "rt_inflight (run_events (map RunRequested reasons @ [DebounceFires]) t) = Some (last reasons) \<and>
    rt_debounce (run_events (map RunRequested reasons @ [DebounceFires]) t) = None"
  using burst_runs_once [OF assms] by blast

theorem burst_leads_to_run_witness:
  "rt_inflight (run_events (map RunRequested [''ws_idle'', ''manual''] @ [DebounceFires]) new_timers) = Some (last [''ws_idle'', ''manual'']) \<and>
   rt_debounce (run_events (map RunRequested [''ws_idle'', ''manual''] @ [DebounceFires]) new_timers) = None"
  by (rule burst_leads_to_run) (simp_all add: new_timers_def)

section \<open>Connection\<close>


section \<open>Futures\<close>

text \<open>C40: Used and available margin make up the funds: after a series of blocks, releases and
  realized results on whole amounts, the funds and the realized result have moved by the results
  alone, the used margin by the blocks and releases, and the available margin is the difference.\<close>

theorem margin_adds_up:
  assumes "margin_is funds used realized s"
    and "\<bar>funds\<bar> + \<bar>used\<bar> + \<bar>realized\<bar> + 2 * sum_list (map event_size evs) \<le> 2 ^ 53"
  shows "margin_is (funds + sum_list (map realized_by evs)) (used + sum_list (map used_by evs))
    (realized + sum_list (map realized_by evs)) (fold margin_step evs s)"
  by (rule margin_balanced [OF assms])

theorem margin_adds_up_witness:
  "margin_is (1000000 + sum_list (map realized_by [Block 300, Realize (- 50), Release 300]))
     (0 + sum_list (map used_by [Block 300, Realize (- 50), Release 300]))
     (0 + sum_list (map realized_by [Block 300, Realize (- 50), Release 300]))
     (fold margin_step [Block 300, Realize (- 50), Release 300] initial_futures_store)"
  by (rule margin_adds_up [OF initial_margin]) simp

section \<open>Orders\<close>

text \<open>C15: An order that sells for delivery is sent only for shares that are held: its quantity is
  positive and at most the holding of its symbol, whatever was typed into the form.\<close>

theorem sale_covered:
  assumes "submit_order busy symbol holdings current key f = Submitted p"
    and "of_side f = ''SELL''" "of_mode f = JStr ''DELIVERY''" "held_quantity symbol holdings \<noteq> NaN"
  shows "Fin 0 < py_quantity p \<and> py_quantity p \<le> held_quantity symbol holdings"
  by (rule delivery_sale_covered [OF assms])

definition sample_sale :: entry_form where
  "sample_sale = initial_entry\<lparr> of_side := ''SELL'', of_mode := JStr ''DELIVERY'', of_quantity := JStr ''5'' \<rparr>"

definition sample_held :: "jsval list" where
  "sample_held = [JObj [(''symbol'', JStr ''TCS.NS''), (''quantity'', JNum (Fin 8))]]"

lemma sample_held_quantity: "held_quantity (JStr ''TCS'') sample_held = Fin 8"
proof -
  have "norm_symbol (JStr ''TCS'') = ''TCS.NS''" "norm_symbol (JStr ''TCS.NS'') = ''TCS.NS''" by code_simp+
  then show ?thesis by (simp add: held_quantity_def sample_held_def own_Cons)
qed

lemma sample_sale_submitted:
  "submit_order False (JStr ''TCS'') sample_held (Fin 0) ''k'' sample_sale =
     Submitted (order_payload_of (JStr ''TCS'') (Fin 0) ''k'' sample_sale)"
proof -
  have kind: "normalize_order_type (JStr ''MARKET'') = ''MARKET''" by code_simp
  have qty: "int_of (JStr ''5'') = Fin 5"
    by (simp add: int_of_def parse_int_def trim_left_def is_space_def is_digit_def digits_value_def num_of_int_def Let_def js_eval)
  have "validate_order_form (form_to_validate (Fin 0) sample_sale) = None"
    by (simp add: valid_order_checks check_quantity_def check_price_def check_trigger_def check_take_profit_def
      check_bracket_legs_def check_bracket_order_def check_mode_def form_to_validate_def order_form.truncate_def
      sample_sale_def initial_entry_def kind qty is_nan_def num_eq_def Let_def)
  then show ?thesis
    by (simp add: submit_order_def sample_held_quantity sample_sale_def qty initial_entry_def)
qed

theorem sale_covered_witness:
  "Fin 0 < py_quantity (order_payload_of (JStr ''TCS'') (Fin 0) ''k'' sample_sale) \<and>
   py_quantity (order_payload_of (JStr ''TCS'') (Fin 0) ''k'' sample_sale) \<le> held_quantity (JStr ''TCS'') sample_held"
  by (rule sale_covered [OF sample_sale_submitted]) (simp_all add: sample_held_quantity, simp_all add: sample_sale_def)

section \<open>The live feed\<close>




section \<open>Options\<close>

text \<open>C25: The maximum pain of an option chain is a strike of the chain at which the writers pay least:
  at no strike would they pay less.\<close>

theorem max_pain_is_least:
  assumes "chain \<noteq> []" "\<And>r. r \<in> set chain \<Longrightarrow> is_finite (pain_at chain (op_strike r))"
  shows "\<exists>k. compute_max_pain chain = Some k \<and> k \<in> op_strike ` set chain \<and>
    list_all (\<lambda>r. pain_at chain k \<le> pain_at chain (op_strike r)) chain"
  using max_pain_minimal [OF assms] by (simp add: list_all_iff)

definition sample_strike :: "int \<Rightarrow> int \<Rightarrow> int \<Rightarrow> option_row" where
  "sample_strike k ce pe = \<lparr> op_strike = Fin (of_int k), op_ce = JObj [(''oi'', JNum (Fin (of_int ce)))],
     op_pe = JObj [(''oi'', JNum (Fin (of_int pe)))] \<rparr>"

theorem max_pain_is_least_witness:
  "\<exists>k. compute_max_pain [sample_strike 100 5 7, sample_strike 200 9 4] = Some k \<and>
    k \<in> op_strike ` set [sample_strike 100 5 7, sample_strike 200 9 4] \<and>
    list_all (\<lambda>r. pain_at [sample_strike 100 5 7, sample_strike 200 9 4] k \<le>
      pain_at [sample_strike 100 5 7, sample_strike 200 9 4] (op_strike r)) [sample_strike 100 5 7, sample_strike 200 9 4]"
  by (rule max_pain_is_least)
    (auto simp: pain_at_def row_pain_def sample_strike_def leg_or_zero_def leg_number_def own_Cons num_or_def Let_def js_eval)

section \<open>Pages and charts\<close>

definition sample_fill :: "string \<Rightarrow> string \<Rightarrow> jsnum \<Rightarrow> jsnum \<Rightarrow> jsnum \<Rightarrow> book_order" where
  "sample_fill uid side t qty price =
     \<lparr> bo_row = JNull, bo_uid = uid, bo_symbol = ''TCS.NS'', bo_side = side, bo_status = ''FILLED'', bo_tag = [], bo_product = ''CNC'',
       bo_exchange = ''NSE'', bo_type = ''MARKET'', bo_ts = Some t, bo_qty = qty, bo_price = Some price, bo_raw_pnl = None \<rparr>"

definition sample_round_trip :: "book_order list" where
  "sample_round_trip = [sample_fill ''2'' ''SELL'' (Fin 5) (Fin 8) (Fin 110), sample_fill ''1'' ''BUY'' (Fin 3) (Fin 8) (Fin 100)]"

lemma sample_round_trades:
  "trades_of sample_round_trip = [(''2'', ''TCS'', False, 8, 110), (''1'', ''TCS'', True, 8, 100)]"
  "list_all whole_order sample_round_trip"
  by code_simp+

text \<open>C9: Where every share that the stored trades bought is sold again, the realized profit that the
  order book shows is the money received less the money paid, for any order of the rows and any
  pairing of the lots, on whole amounts whose turnover a double can hold.\<close>

theorem round_trip_profit:
  assumes "distinct (map bo_uid rs)" "list_all whole_order rs" "list_all (trade_ok hi) (trades_of rs)"
    and "hi * traded_volume (trades_of rs) \<le> 2 ^ 53" "\<forall>s. sum_list (map (trade_position s) (trades_of rs)) = 0"
  shows "derived_realized (derived_pnl cmp rs) = Fin (of_int (sum_list (map trade_cash (trades_of rs))))"
  by (rule flat_profit_is_cash [OF assms])

theorem round_trip_profit_witness:
  "derived_realized (derived_pnl (\<lambda>_ _. 0) sample_round_trip) = Fin (of_int (sum_list (map trade_cash (trades_of sample_round_trip))))"
proof (rule round_trip_profit [where hi = 110])
  show "distinct (map bo_uid sample_round_trip)" by (simp add: sample_round_trip_def sample_fill_def)
qed (simp_all add: sample_round_trades trade_ok_def traded_volume_def trade_qty_def trade_position_def)

text \<open>C23: Whatever rows, quotes, frames and changes of the symbol reach the chart, and in whatever
  order, the candles it hands to the chart library are drawable and strictly in the order of time.\<close>

theorem live_chart_drawable:
  assumes "list_all event_fit es"
  shows "chart_ready (lch_candles (fold live_step es new_live_chart))"
  using live_chart_sound [OF assms] by (simp add: chart_sound_def)

definition sample_chart_events :: "live_event list" where
  "sample_chart_events =
     [RowsCome (Fin 1800000000000) ''5m'' None
        [JObj [(''time'', JNum (Fin 1800000000)), (''open'', JNum (Fin 100)), (''high'', JNum (Fin 105)), (''low'', JNum (Fin 99)),
               (''close'', JNum (Fin 104)), (''volume'', JNum (Fin 10))]],
      QuoteComes (Some \<lparr> pq_ltp = Fin 106, pq_volume = None, pq_ts = Fin 1800000400, pq_seconds = seconds_of_code ''5m'', pq_code = ''5m'', pq_rollover = False \<rparr>), FrameFires]"

theorem live_chart_drawable_witness:
  "chart_ready (lch_candles (fold live_step sample_chart_events new_live_chart))"
proof (rule live_chart_drawable)
  have "math_floor (Fin 1800000000000 / Fin 1000) = Fin (of_int 1800000000)"
    using floor_div_exact [of 1800000000000 1000] by simp
  then show "list_all event_fit sample_chart_events"
    by (auto simp: sample_chart_events_def quote_fit_def intro: exI [of _ 1800000400])
qed

text \<open>C33: Where no search is under way, the results shown are none or the answer to the text that was
  taken over last: an answer that comes late never replaces them.\<close>

theorem search_answers_query:
  assumes "s = fold (search_step key server) es new_search" "\<not> sb_searching s"
  shows "sb_results s = JArr [] \<or> sb_results s = search_results key (server (sb_debounced s))"
  by (rule search_shows_current [OF assms])

theorem search_answers_query_witness:
  "let server = \<lambda>q. JObj [(''results'', JArr [JStr q])];
       s = fold (search_step ''results'' server) [SearchType ''TC'', SearchTimer, SearchType ''TCS'', SearchTimer, SearchAnswer 1, SearchAnswer 0] new_search
   in sb_results s = JArr [] \<or> sb_results s = search_results ''results'' (server (sb_debounced s))"
  unfolding Let_def
  by (rule search_answers_query [OF refl]) (simp add: new_search_def take_query_def search_settled_def Let_def)

end
